(* ===== verification/Prelude.thy ===== *)
theory Prelude
  imports Main "HOL-Library.Sublist"
begin

text \<open>
  Shared vocabulary of the development: the collections that carry the component proofs, the
  nullish and falsy operators of the source language on optional values, and the operations on a
  keyed collection of documents (a Mongoose model: \<open>findOne\<close> by key, \<open>create\<close>, \<open>save\<close>), with the
  interface locale the components use them through.
\<close>

section \<open>Collections of facts\<close>

named_theorems frame_simps \<open>what an operation leaves unchanged\<close>
named_theorems doc_simps \<open>unfolding of the document updates\<close>
named_theorems status_intros \<open>introduction rules for the status graphs\<close>

section \<open>Optional values\<close>

text \<open>\<open>a ?? b\<close>: the left operand unless it is \<open>null\<close> or \<open>undefined\<close>.\<close>

fun nullish :: "'a option \<Rightarrow> 'a option \<Rightarrow> 'a option" where
  "nullish (Some x) y = Some x"
| "nullish None y = y"

lemma nullish_None_right [simp]: "nullish x None = x"
  by (cases x) auto

lemma nullish_assoc: "nullish (nullish x y) z = nullish x (nullish y z)"
  by (cases x) auto

lemma nullish_eq_None [simp]: "nullish x y = None \<longleftrightarrow> x = None \<and> y = None"
  by (cases x) auto

definition or_else :: "'a option \<Rightarrow> 'a \<Rightarrow> 'a" where
  "or_else x d = (case x of None \<Rightarrow> d | Some v \<Rightarrow> v)"

text \<open>\<open>s || d\<close> on an optional string: the empty string is falsy too.\<close>

fun str_or :: "string option \<Rightarrow> string option \<Rightarrow> string option" where
  "str_or (Some s) d = (if s = [] then d else Some s)"
| "str_or None d = d"

definition truthy_str :: "string option \<Rightarrow> bool" where
  "truthy_str s \<longleftrightarrow> s \<noteq> None \<and> s \<noteq> Some []"

lemma str_or_truthy: "truthy_str s \<Longrightarrow> str_or s d = s"
  by (cases s) (auto simp: truthy_str_def)

section \<open>Text\<close>

text \<open>Substring test, as \<open>String.prototype.includes\<close>, and ASCII lower-casing for \<open>/.../i\<close>.\<close>

fun has_infix :: "string \<Rightarrow> string \<Rightarrow> bool" where
  "has_infix p [] = (p = [])"
| "has_infix p (c # cs) = (prefix p (c # cs) \<or> has_infix p cs)"

lemma has_infix_sublist: "has_infix p s = sublist p s"
  by (induction s) (auto simp: sublist_Cons_right)

definition to_lower :: "char \<Rightarrow> char" where
  "to_lower c = (if (65 :: nat) \<le> of_char c \<and> of_char c \<le> (90 :: nat) then char_of (of_char c + (32 :: nat)) else c)"

text \<open>Decimal text of a whole number, for identifiers built from the clock.\<close>

fun show_nat :: "nat \<Rightarrow> string" where
  "show_nat n = (if n < 10 then [char_of (48 + n)] else show_nat (n div 10) @ [char_of (48 + n mod 10)])"

declare show_nat.simps [simp del]

definition show_int :: "int \<Rightarrow> string" where
  "show_int i = (if i < 0 then CHR ''-'' # show_nat (nat (- i)) else show_nat (nat i))"

lemma show_nat_nonempty [simp]: "show_nat n \<noteq> []"
  by (subst show_nat.simps) simp

section \<open>Keyed collections of documents\<close>

text \<open>
  A collection is the list of its documents in insertion order. \<open>coll_find\<close> is \<open>findOne\<close> on a
  predicate, \<open>coll_put\<close> is \<open>doc.save()\<close>: it replaces the stored document with the same key and
  leaves every other one alone.
\<close>

fun coll_find :: "('d \<Rightarrow> bool) \<Rightarrow> 'd list \<Rightarrow> 'd option" where
  "coll_find p [] = None"
| "coll_find p (d # ds) = (if p d then Some d else coll_find p ds)"

fun coll_put :: "('d \<Rightarrow> 'k) \<Rightarrow> 'd \<Rightarrow> 'd list \<Rightarrow> 'd list" where
  "coll_put key d [] = []"
| "coll_put key d (x # xs) = (if key x = key d then d # xs else x # coll_put key d xs)"

lemma coll_find_Some: "coll_find p ds = Some d \<Longrightarrow> d \<in> set ds \<and> p d"
  by (induction ds) (auto split: if_splits)

lemma coll_find_None: "coll_find p ds = None \<longleftrightarrow> (\<forall>d \<in> set ds. \<not> p d)"
  by (induction ds) auto

lemma coll_find_append:
  "coll_find p (xs @ ys) = (case coll_find p xs of Some d \<Rightarrow> Some d | None \<Rightarrow> coll_find p ys)"
  by (induction xs) auto

lemma coll_put_keys [simp]: "map key (coll_put key d ds) = map key ds"
  by (induction ds) auto

lemma coll_put_length [simp]: "length (coll_put key d ds) = length ds"
  by (induction ds) auto

lemma coll_put_absent: "key d \<notin> key ` set ds \<Longrightarrow> coll_put key d ds = ds"
  by (induction ds) auto

lemma set_coll_put: "set (coll_put key d ds) \<subseteq> insert d (set ds)"
  by (induction ds) auto

lemma list_put_map: "coll_find (\<lambda>x. key x = key d) ds = Some e \<Longrightarrow> f e = f d \<Longrightarrow> map f (coll_put key d ds) = map f ds"
  by (induction ds) (auto split: if_splits)

lemma coll_put_split: "\<forall>u \<in> set us. key u \<noteq> key d \<Longrightarrow> key x = key d \<Longrightarrow> coll_put key d (us @ x # vs) = us @ d # vs"
  by (induction us) auto

lemma coll_find_split: "coll_find p ds = Some d \<Longrightarrow> \<exists>us vs. ds = us @ d # vs \<and> (\<forall>u \<in> set us. \<not> p u)"
proof (induction ds)
  case (Cons x xs)
  show ?case
  proof (cases "p x")
    case True
    with Cons.prems show ?thesis by (intro exI [of _ "[]"] exI [of _ xs]) simp
  next
    case False
    with Cons obtain us vs where "xs = us @ d # vs" "\<forall>u \<in> set us. \<not> p u" by auto
    with False show ?thesis by (intro exI [of _ "x # us"] exI [of _ vs]) simp
  qed
qed simp

lemma coll_put_member: "x \<in> set ds \<Longrightarrow> key x \<noteq> key d \<Longrightarrow> x \<in> set (coll_put key d ds)"
  by (induction ds) auto

lemma coll_put_self: "key d \<in> key ` set ds \<Longrightarrow> d \<in> set (coll_put key d ds)"
  by (induction ds) auto

lemma coll_put_put [simp]:
  "key d' = key d \<Longrightarrow> coll_put key d' (coll_put key d ds) = coll_put key d' ds"
  by (induction ds) auto

lemma coll_put_same: "coll_find (\<lambda>x. key x = key d) ds = Some d \<Longrightarrow> coll_put key d ds = ds"
  by (induction ds) (auto split: if_splits)

lemma coll_find_put_same:
  "coll_find (\<lambda>x. key x = key d) ds \<noteq> None \<Longrightarrow>
   coll_find (\<lambda>x. key x = key d) (coll_put key d ds) = Some d"
  by (induction ds) auto

lemma coll_find_put_other:
  "k \<noteq> key d \<Longrightarrow> coll_find (\<lambda>x. key x = k) (coll_put key d ds) = coll_find (\<lambda>x. key x = k) ds"
  by (induction ds) auto

text \<open>Saving the first match of any query that still matches leaves it the first match.\<close>

lemma coll_find_put_query:
  assumes "distinct (map key ds)" "coll_find p ds = Some d" "key d' = key d" "p d'"
  shows "coll_find p (coll_put key d' ds) = Some d'"
  using assms
proof (induction ds)
  case Nil
  then show ?case by simp
next
  case (Cons x xs)
  show ?case
  proof (cases "p x")
    case True
    with Cons.prems show ?thesis by simp
  next
    case False
    with Cons.prems have d: "coll_find p xs = Some d" by simp
    then have "d \<in> set xs" by (blast dest: coll_find_Some)
    with Cons.prems(1) have "key x \<noteq> key d" by force
    with False d Cons show ?thesis by simp
  qed
qed

lemma coll_find_put_nomatch:
  assumes "coll_find p ds = None" "\<not> p d"
  shows "coll_find p (coll_put key d ds) = None"
  using assms by (induction ds) (auto split: if_splits)

text \<open>
  The interface a component relies on: a store with a lookup by key, an insertion and a save. The
  clients below are proved from its laws only, and every document collection of the model
  interprets it.
\<close>

locale document_store =
  fixes find :: "'k \<Rightarrow> 's \<Rightarrow> 'd option"
    and save :: "'d \<Rightarrow> 's \<Rightarrow> 's"
    and create :: "'d \<Rightarrow> 's \<Rightarrow> 's"
    and key :: "'d \<Rightarrow> 'k"
  assumes find_key: "find k s = Some d \<Longrightarrow> key d = k"
    and find_save: "find (key d) s \<noteq> None \<Longrightarrow> find (key d) (save d s) = Some d"
    and find_save_other: "k \<noteq> key d \<Longrightarrow> find k (save d s) = find k s"
    and find_create: "find (key d) s = None \<Longrightarrow> find (key d) (create d s) = Some d"
    and find_create_other: "k \<noteq> key d \<Longrightarrow> find k (create d s) = find k s"
    and save_idem: "find (key d) s = Some d \<Longrightarrow> save d s = s"
    and save_save: "key d' = key d \<Longrightarrow> save d' (save d s) = save d' s"
begin

lemma save_present: "find k s = Some d \<Longrightarrow> key d' = k \<Longrightarrow> find k (save d' s) = Some d'"
  using find_save [of d' s] by auto

lemma save_keeps_presence: "find k s \<noteq> None \<Longrightarrow> find k (save d s) \<noteq> None"
  using find_save [of d s] find_save_other [of k d s] by (cases "k = key d") auto

lemma create_keeps_presence: "find k s \<noteq> None \<Longrightarrow> find (key d) s = None \<Longrightarrow> find k (create d s) = find k s"
  using find_create_other [of k d s] by (cases "k = key d") auto

lemma save_twice: "find k s = Some d \<Longrightarrow> key d' = k \<Longrightarrow> save d' (save d' s) = save d' s"
  by (rule save_save) simp

end

text \<open>The list implementation meets the interface for every key function.\<close>

definition list_find :: "('d \<Rightarrow> 'k) \<Rightarrow> 'k \<Rightarrow> 'd list \<Rightarrow> 'd option" where
  "list_find key k ds = coll_find (\<lambda>d. key d = k) ds"

definition list_create :: "'d \<Rightarrow> 'd list \<Rightarrow> 'd list" where
  "list_create d ds = ds @ [d]"

interpretation doclist: document_store "list_find key" "coll_put key" "list_create" key
  for key :: "'d \<Rightarrow> 'k"
proof unfold_locales
  fix k :: 'k and d d' :: 'd and s :: "'d list"
  show "list_find key k s = Some d \<Longrightarrow> key d = k"
    by (auto simp: list_find_def dest: coll_find_Some)
  show "list_find key (key d) s \<noteq> None \<Longrightarrow> list_find key (key d) (coll_put key d s) = Some d"
    unfolding list_find_def by (rule coll_find_put_same)
  show "k \<noteq> key d \<Longrightarrow> list_find key k (coll_put key d s) = list_find key k s"
    unfolding list_find_def by (rule coll_find_put_other)
  show "list_find key (key d) s = None \<Longrightarrow> list_find key (key d) (list_create d s) = Some d"
    by (simp add: list_find_def list_create_def coll_find_append)
  show "k \<noteq> key d \<Longrightarrow> list_find key k (list_create d s) = list_find key k s"
    by (simp add: list_find_def list_create_def coll_find_append split: option.splits)
  show "list_find key (key d) s = Some d \<Longrightarrow> coll_put key d s = s"
    unfolding list_find_def by (rule coll_put_same)
  show "key d' = key d \<Longrightarrow> coll_put key d' (coll_put key d s) = coll_put key d' s"
    by simp
qed

text \<open>\<open>findOneAndUpdate\<close> with \<open>upsert\<close>: replace the document of the same key, or insert.\<close>

definition list_upsert :: "('d \<Rightarrow> 'k) \<Rightarrow> 'd \<Rightarrow> 'd list \<Rightarrow> 'd list" where
  "list_upsert key d ds = (if list_find key (key d) ds \<noteq> None then coll_put key d ds else list_create d ds)"

lemma list_find_upsert [simp]: "list_find key (key d) (list_upsert key d ds) = Some d"
  using doclist.find_save [of key d ds] doclist.find_create [of key d ds] by (auto simp: list_upsert_def)

lemma list_find_upsert_other: "k \<noteq> key d \<Longrightarrow> list_find key k (list_upsert key d ds) = list_find key k ds"
  by (simp add: list_upsert_def doclist.find_save_other doclist.find_create_other)

lemma list_upsert_distinct: "distinct (map key ds) \<Longrightarrow> distinct (map key (list_upsert key d ds))"
  by (auto simp: list_upsert_def list_find_def list_create_def coll_find_None)

lemma length_filter_mono:
  "(\<And>x. x \<in> set xs \<Longrightarrow> P x \<Longrightarrow> Q x) \<Longrightarrow> length (filter P xs) \<le> length (filter Q xs)"
  by (induction xs) (auto simp: le_SucI)

lemma sort_key_hd: "sort_key f xs = y # ys \<Longrightarrow> y \<in> set xs \<and> (\<forall>x \<in> set xs. f y \<le> f x)"
proof -
  assume s: "sort_key f xs = y # ys"
  have "sorted (map f (y # ys))" using sorted_sort_key [of f xs] s by simp
  moreover have "set xs = set (y # ys)" using s by (metis set_sort)
  ultimately show ?thesis by auto
qed

end
