(* ===== verification/JsNumber.thy ===== *)
theory JsNumber
  imports Complex_Main Prelude "HOL-Library.Log_Nat"
begin

text \<open>
  The numbers of the source language: IEEE-754 binary64 values, held as exact rationals. An
  arithmetic operation computes the exact result and rounds it to 53 significant bits, ties to
  even, as the standard prescribes; \<open>Math.floor\<close> and \<open>Math.round\<close> are exact. NaN, the infinities
  and the subnormal range are not values of this type: where the code tests for them, the model
  has an optional number.
\<close>

type_synonym num = rat

section \<open>Rounding to 53 bits\<close>

text \<open>The exponent of the leading bit: the largest \<open>k\<close> with \<open>2 powi k \<le> x\<close>, for positive \<open>x\<close>.\<close>

definition flog2 :: "rat \<Rightarrow> int" where
  "flog2 x = (case quotient_of x of (n, d) \<Rightarrow>
     let e = bitlen n - bitlen d in if x < 2 powi e then e - 1 else e)"

text \<open>Round half to even.\<close>

definition round_even :: "rat \<Rightarrow> int" where
  "round_even y =
     (let f = \<lfloor>y\<rfloor>; r = y - of_int f in
      if r < 1 / 2 then f else if 1 / 2 < r then f + 1 else if even f then f else f + 1)"

definition fl :: "rat \<Rightarrow> rat" where
  "fl x = (if x = 0 then 0
     else let u = 2 powi (flog2 \<bar>x\<bar> - 52) in of_int (round_even (x / u)) * u)"

definition js_add :: "num \<Rightarrow> num \<Rightarrow> num" where "js_add a b = fl (a + b)"
definition js_sub :: "num \<Rightarrow> num \<Rightarrow> num" where "js_sub a b = fl (a - b)"
definition js_mul :: "num \<Rightarrow> num \<Rightarrow> num" where "js_mul a b = fl (a * b)"
definition js_div :: "num \<Rightarrow> num \<Rightarrow> num" where "js_div a b = fl (a / b)"
definition js_floor :: "num \<Rightarrow> num" where "js_floor a = of_int \<lfloor>a\<rfloor>"
definition js_ceil :: "num \<Rightarrow> num" where "js_ceil a = of_int \<lceil>a\<rceil>"

text \<open>\<open>Math.round\<close> rounds halves up.\<close>

definition js_round :: "num \<Rightarrow> num" where "js_round a = of_int \<lfloor>a + 1 / 2\<rfloor>"


section \<open>The exponent\<close>

lemma powi_nat: "0 \<le> k \<Longrightarrow> (2 :: rat) powi k = of_int (2 ^ nat k)"
  by (simp add: power_int_def)

lemma powi_mono: "a \<le> b \<Longrightarrow> (2 :: rat) powi a \<le> 2 powi b"
  by (rule power_int_increasing) auto

lemma powi_less: "a < b \<Longrightarrow> (2 :: rat) powi a < 2 powi b"
  by (rule power_int_strict_increasing) auto

lemma powi_Suc: "(2 :: rat) powi (k + 1) = 2 * 2 powi k"
  by (simp add: power_int_add)

lemma powi_diff: "(2 :: rat) powi (a - b) = 2 powi a / 2 powi b"
  by (simp add: power_int_diff)

lemma bitlen_rat_bounds:
  assumes "0 < n"
  shows "(2 :: rat) powi (bitlen n - 1) \<le> of_int n" and "(of_int n :: rat) < 2 powi bitlen n"
proof -
  have b: "1 \<le> bitlen n" using assms by (simp add: bitlen_def floorlog_ge_SucI)
  have "2 ^ nat (bitlen n - 1) \<le> n \<and> n < 2 ^ nat (bitlen n)"
    using assms by (rule bitlen_bounds)
  then have "(of_int (2 ^ nat (bitlen n - 1)) :: rat) \<le> of_int n"
    and "(of_int n :: rat) < of_int (2 ^ nat (bitlen n))"
    unfolding of_int_le_iff of_int_less_iff by auto
  then show "(2 :: rat) powi (bitlen n - 1) \<le> of_int n" and "(of_int n :: rat) < 2 powi bitlen n"
    using b by (auto simp: powi_nat)
qed

lemma flog2_bounds:
  assumes "0 < x"
  shows "2 powi flog2 x \<le> x" and "x < 2 powi (flog2 x + 1)"
proof -
  obtain n d where q: "quotient_of x = (n, d)" by (cases "quotient_of x")
  have d: "0 < d" using q by (rule quotient_of_denom_pos)
  have x: "x = of_int n / of_int d" using q by (rule quotient_of_div)
  have n: "0 < n" using assms d by (simp add: x zero_less_divide_iff)
  let ?e = "bitlen n - bitlen d"
  have "x < 2 powi bitlen n / 2 powi (bitlen d - 1)"
    unfolding x using n d bitlen_rat_bounds [OF n] bitlen_rat_bounds [OF d]
    by (intro frac_less) auto
  then have up: "x < 2 powi (?e + 1)" by (simp flip: powi_diff add: algebra_simps)
  have "2 powi (bitlen n - 1) / 2 powi bitlen d \<le> x"
    unfolding x using n d bitlen_rat_bounds [OF n] bitlen_rat_bounds [OF d]
    by (intro frac_le) auto
  then have low: "2 powi (?e - 1) \<le> x" by (simp flip: powi_diff add: algebra_simps)
  have "flog2 x = (if x < 2 powi ?e then ?e - 1 else ?e)"
    by (simp add: flog2_def q)
  then show "2 powi flog2 x \<le> x" and "x < 2 powi (flog2 x + 1)"
    using up low by (auto split: if_splits)
qed

lemma flog2_mono:
  assumes "0 < x" "x \<le> y"
  shows "flog2 x \<le> flog2 y"
proof (rule ccontr)
  assume "\<not> flog2 x \<le> flog2 y"
  then have "(2 :: rat) powi (flog2 y + 1) \<le> 2 powi flog2 x" by (intro powi_mono) simp
  also have "\<dots> \<le> x" using assms by (intro flog2_bounds)
  also have "\<dots> \<le> y" by fact
  also have "\<dots> < 2 powi (flog2 y + 1)" using assms by (intro flog2_bounds) simp
  finally show False by simp
qed

section \<open>Rounding to an integer\<close>

lemma round_even_error: "\<bar>of_int (round_even y) - y\<bar> \<le> 1 / 2"
proof -
  have "of_int \<lfloor>y\<rfloor> \<le> y" and "y < of_int \<lfloor>y\<rfloor> + 1" by linarith+
  then show ?thesis by (auto simp: round_even_def Let_def)
qed

lemma round_even_of_int [simp]: "round_even (of_int n) = n"
  by (simp add: round_even_def)

lemma round_even_cases: "round_even y = \<lfloor>y\<rfloor> \<or> round_even y = \<lfloor>y\<rfloor> + 1"
  by (auto simp: round_even_def Let_def)

lemma round_even_mono:
  assumes "y \<le> z"
  shows "round_even y \<le> round_even z"
proof (cases "\<lfloor>y\<rfloor> = \<lfloor>z\<rfloor>")
  case True
  with assms show ?thesis by (auto simp: round_even_def Let_def)
next
  case False
  with floor_mono [OF assms] have "\<lfloor>y\<rfloor> + 1 \<le> \<lfloor>z\<rfloor>" by simp
  then show ?thesis using round_even_cases [of y] round_even_cases [of z] by linarith
qed

lemma round_even_bounds: "of_int a \<le> y \<Longrightarrow> a \<le> round_even y" "y \<le> of_int b \<Longrightarrow> round_even y \<le> b"
  using round_even_mono [of "of_int a" y] round_even_mono [of y "of_int b"] by simp_all

section \<open>Rounding to a double\<close>

lemma fl_0 [simp]: "fl 0 = 0"
  by (simp add: fl_def)

text \<open>A value whose scaled significand is an integer is a double already.\<close>

lemma fl_scaled_integer:
  assumes "x \<noteq> 0" "x = of_int m * 2 powi (flog2 \<bar>x\<bar> - 52)"
  shows "fl x = x"
proof -
  have "x / 2 powi (flog2 \<bar>x\<bar> - 52) = of_int m"
    using assms(2) by (metis nonzero_mult_div_cancel_right power_int_not_zero zero_neq_numeral)
  then show ?thesis using assms by (simp add: fl_def Let_def)
qed

lemma fl_exact_aux:
  assumes m: "\<bar>m\<bar> < 2 ^ 53"
  shows "fl (of_int m * 2 powi e) = of_int m * 2 powi e"
proof (cases "m = 0")
  case True
  then show ?thesis by simp
next
  case False
  let ?x = "(of_int m :: rat) * 2 powi e"
  have x: "?x \<noteq> 0" using False by simp
  have "2 powi flog2 \<bar>?x\<bar> \<le> \<bar>?x\<bar>" using x by (intro flog2_bounds) simp
  also have "\<bar>?x\<bar> = of_int \<bar>m\<bar> * 2 powi e" by (simp add: abs_mult)
  also have "\<dots> < of_int (2 ^ 53) * 2 powi e" using m by (intro mult_strict_right_mono) (simp_all only: of_int_less_iff zero_less_power_int zero_less_numeral)
  also have "\<dots> = 2 powi (e + 53)" by (simp add: power_int_add)
  finally have "flog2 \<bar>?x\<bar> < e + 53" using powi_mono [of "e + 53" "flog2 \<bar>?x\<bar>"] by linarith
  then have k: "0 \<le> e - (flog2 \<bar>?x\<bar> - 52)" by simp
  have "?x = of_int m * (2 powi (e - (flog2 \<bar>?x\<bar> - 52)) * 2 powi (flog2 \<bar>?x\<bar> - 52))"
    by (simp flip: power_int_add)
  also have "\<dots> = of_int (m * 2 ^ nat (e - (flog2 \<bar>?x\<bar> - 52))) * 2 powi (flog2 \<bar>?x\<bar> - 52)"
    using k by (simp add: powi_nat)
  finally show ?thesis by (rule fl_scaled_integer [OF x])
qed

lemma fl_exact: "\<bar>m\<bar> \<le> 2 ^ 53 \<Longrightarrow> fl (of_int m * 2 powi e) = of_int m * 2 powi e"
proof (cases "\<bar>m\<bar> < 2 ^ 53")
  case True
  then show ?thesis by (rule fl_exact_aux)
next
  case False
  assume "\<bar>m\<bar> \<le> 2 ^ 53"
  with False have "m = 2 * 2 ^ 52 \<or> m = 2 * - (2 ^ 52)" by auto
  then obtain h where h: "m = 2 * h" "\<bar>h\<bar> < 2 ^ 53" by fastforce
  then have "(of_int m :: rat) * 2 powi e = of_int h * 2 powi (e + 1)"
    by (simp add: powi_Suc)
  with fl_exact_aux [OF h(2)] show ?thesis by simp
qed

lemma fl_of_int: "\<bar>n\<bar> \<le> 2 ^ 53 \<Longrightarrow> fl (of_int n) = of_int n"
  using fl_exact [of n 0] by simp

text \<open>The rounded value of a positive number stays in its binade.\<close>

lemma fl_pos_form:
  assumes "0 < x"
  obtains m where "fl x = of_int m * 2 powi (flog2 x - 52)" "2 ^ 52 \<le> m" "m \<le> 2 ^ 53"
proof -
  let ?u = "(2 :: rat) powi (flog2 x - 52)" and ?m = "round_even (x / 2 powi (flog2 x - 52))"
  have f: "fl x = of_int ?m * ?u" using assms by (simp add: fl_def Let_def)
  have "2 powi flog2 x = of_int (2 ^ 52) * ?u" and "2 powi (flog2 x + 1) = of_int (2 ^ 53) * ?u"
    by (simp_all add: powi_diff powi_Suc)
  with flog2_bounds [OF assms] have "of_int (2 ^ 52) * ?u \<le> x" and "x < of_int (2 ^ 53) * ?u"
    by simp_all
  then have "of_int (2 ^ 52) \<le> x / ?u" and "x / ?u \<le> of_int (2 ^ 53)"
    by (simp_all add: pos_le_divide_eq pos_divide_le_eq)
  then have "2 ^ 52 \<le> ?m" and "?m \<le> 2 ^ 53" by (simp_all only: round_even_bounds)
  with f show thesis by (rule that)
qed

lemma fl_pos_bounds:
  assumes "0 < x"
  shows "2 powi flog2 x \<le> fl x" and "fl x \<le> 2 powi (flog2 x + 1)"
proof -
  let ?u = "(2 :: rat) powi (flog2 x - 52)"
  obtain m where f: "fl x = of_int m * ?u" and m: "2 ^ 52 \<le> m" "m \<le> 2 ^ 53"
    using assms by (rule fl_pos_form)
  have k: "2 powi flog2 x = of_int (2 ^ 52) * ?u" "2 powi (flog2 x + 1) = of_int (2 ^ 53) * ?u"
    by (simp_all add: powi_diff powi_Suc)
  show "2 powi flog2 x \<le> fl x" unfolding f k(1)
    using m(1) by (intro mult_right_mono) (simp_all only: of_int_le_iff zero_le_power_int zero_le_numeral)
  show "fl x \<le> 2 powi (flog2 x + 1)" unfolding f k(2)
    using m(2) by (intro mult_right_mono) (simp_all only: of_int_le_iff zero_le_power_int zero_le_numeral)
qed

lemma fl_pos: "0 < x \<Longrightarrow> 0 < fl x"
  by (rule less_le_trans [OF _ fl_pos_bounds(1)]) simp_all

lemma fl_minus [simp]: "fl (- x) = - fl x"
proof -
  have "round_even (- y) = - round_even y" for y
  proof (cases "y = of_int \<lfloor>y\<rfloor>")
    case True
    then show ?thesis using round_even_of_int [of "\<lfloor>y\<rfloor>"] round_even_of_int [of "- \<lfloor>y\<rfloor>"]
      by (metis of_int_minus)
  next
    case False
    then have c: "\<lfloor>- y\<rfloor> = - \<lfloor>y\<rfloor> - 1" by linarith
    have e: "even (- \<lfloor>y\<rfloor> - 1) = (\<not> even \<lfloor>y\<rfloor>)" by presburger
    show ?thesis unfolding round_even_def Let_def c e by (simp add: algebra_simps)
  qed
  then show ?thesis by (simp add: fl_def Let_def)
qed

lemma fl_mono_pos:
  assumes "0 < x" "x \<le> y"
  shows "fl x \<le> fl y"
proof (cases "flog2 x = flog2 y")
  case True
  let ?u = "(2 :: rat) powi (flog2 y - 52)"
  have "x / ?u \<le> y / ?u" using assms by (intro divide_right_mono) auto
  then have "(of_int (round_even (x / ?u)) :: rat) \<le> of_int (round_even (y / ?u))"
    unfolding of_int_le_iff by (rule round_even_mono)
  then have "of_int (round_even (x / ?u)) * ?u \<le> of_int (round_even (y / ?u)) * ?u"
    by (intro mult_right_mono) auto
  with assms True show ?thesis by (simp add: fl_def Let_def)
next
  case False
  with flog2_mono [OF assms] have "flog2 x + 1 \<le> flog2 y" by simp
  have "fl x \<le> 2 powi (flog2 x + 1)" using assms by (intro fl_pos_bounds)
  also have "\<dots> \<le> 2 powi flog2 y" by (rule powi_mono) fact
  also have "\<dots> \<le> fl y" using assms by (intro fl_pos_bounds) simp
  finally show ?thesis .
qed

theorem fl_mono: "x \<le> y \<Longrightarrow> fl x \<le> fl y"
proof -
  assume le: "x \<le> y"
  consider "0 < x" | "x \<le> 0" "0 \<le> y" | "y < 0" by linarith
  then show ?thesis
  proof cases
    case 1
    then show ?thesis using le by (rule fl_mono_pos)
  next
    case 2
    then have "0 \<le> fl (- x)" and "0 \<le> fl y"
      using fl_pos [of "- x"] fl_pos [of y] by (cases "x = 0"; cases "y = 0"; force)+
    then show ?thesis by simp
  next
    case 3
    then have "fl (- y) \<le> fl (- x)" using le by (intro fl_mono_pos) auto
    then show ?thesis by simp
  qed
qed

lemma fl_idem [simp]: "fl (fl x) = fl x"
proof -
  have pos: "fl (fl x) = fl x" if x: "0 < x" for x
  proof -
    obtain m where f: "fl x = of_int m * 2 powi (flog2 x - 52)" and m: "2 ^ 52 \<le> m" "m \<le> 2 ^ 53"
      using x by (rule fl_pos_form)
    from m have "\<bar>m\<bar> \<le> 2 ^ 53" by simp
    then show ?thesis unfolding f by (rule fl_exact)
  qed
  consider "0 < x" | "x = 0" | "0 < - x" by linarith
  then show ?thesis
  proof cases
    case 3
    from pos [OF 3] show ?thesis by simp
  qed (auto simp: pos)
qed

text \<open>The relative error of one rounding is at most one part in \<open>2 ^ 53\<close>.\<close>

lemma fl_int_bounds:
  assumes "\<bar>a\<bar> \<le> 2 ^ 53" "\<bar>b\<bar> \<le> 2 ^ 53" "of_int a * 2 powi e \<le> x" "x \<le> of_int b * 2 powi e"
  shows "of_int a * 2 powi e \<le> fl x \<and> fl x \<le> of_int b * 2 powi e"
  using assms fl_mono [of "of_int a * 2 powi e" x] fl_mono [of x "of_int b * 2 powi e"] by (simp add: fl_exact)

lemma fl_error: "\<bar>fl x - x\<bar> \<le> \<bar>x\<bar> / 2 ^ 53"
proof -
  have pos: "\<bar>fl x - x\<bar> \<le> x / 2 ^ 53" if x: "0 < x" for x
  proof -
    let ?u = "(2 :: rat) powi (flog2 x - 52)"
    have u: "0 < ?u" by simp
    have "fl x - x = (of_int (round_even (x / ?u)) - x / ?u) * ?u"
      using x by (simp add: fl_def Let_def left_diff_distrib)
    then have "\<bar>fl x - x\<bar> = \<bar>of_int (round_even (x / ?u)) - x / ?u\<bar> * ?u"
      by (simp add: abs_mult)
    also have "\<dots> \<le> 1 / 2 * ?u"
      using u by (intro mult_right_mono round_even_error) simp
    also have "\<dots> = 2 powi flog2 x / 2 ^ 53" by (simp add: powi_diff)
    also have "\<dots> \<le> x / 2 ^ 53" using flog2_bounds [OF x] by (intro divide_right_mono) auto
    finally show ?thesis .
  qed
  consider "0 < x" | "x = 0" | "0 < - x" by linarith
  then show ?thesis
  proof cases
    case 3
    from pos [OF 3] 3 show ?thesis by simp
  qed (auto simp: pos dest: pos)
qed

section \<open>What the components use of the rounding\<close>

text \<open>
  The interface of a rounding: it is monotone and exact on the integers a double holds. The
  bounds below follow from these two laws alone.
\<close>

locale rounding =
  fixes rnd :: "rat \<Rightarrow> rat"
  assumes rnd_mono: "x \<le> y \<Longrightarrow> rnd x \<le> rnd y"
    and rnd_int: "\<bar>n\<bar> \<le> 2 ^ 53 \<Longrightarrow> rnd (of_int n) = of_int n"
    and rnd_idem: "rnd (rnd x) = rnd x"
begin

lemma rnd_zero: "rnd 0 = 0"
  using rnd_int [of 0] by simp

lemma rnd_one: "rnd 1 = 1"
  using rnd_int [of 1] by simp

lemma rnd_nonneg: "0 \<le> x \<Longrightarrow> 0 \<le> rnd x"
  using rnd_mono [of 0 x] by (simp add: rnd_zero)

lemma rnd_nonpos: "x \<le> 0 \<Longrightarrow> rnd x \<le> 0"
  using rnd_mono [of x 0] by (simp add: rnd_zero)

lemma rnd_ge_int: "\<bar>n\<bar> \<le> 2 ^ 53 \<Longrightarrow> of_int n \<le> x \<Longrightarrow> of_int n \<le> rnd x"
  using rnd_mono [of "of_int n" x] by (simp add: rnd_int)

lemma rnd_le_int: "\<bar>n\<bar> \<le> 2 ^ 53 \<Longrightarrow> x \<le> of_int n \<Longrightarrow> rnd x \<le> of_int n"
  using rnd_mono [of x "of_int n"] by (simp add: rnd_int)

lemma rnd_le_double: "rnd b = b \<Longrightarrow> x \<le> b \<Longrightarrow> rnd x \<le> b"
  using rnd_mono [of x b] by simp

lemma rnd_ge_double: "rnd b = b \<Longrightarrow> b \<le> x \<Longrightarrow> b \<le> rnd x"
  using rnd_mono [of b x] by simp

lemma rnd_fraction_of:
  assumes "0 \<le> q" "q \<le> 1" "0 \<le> b" "rnd b = b"
  shows "0 \<le> rnd (b * rnd q) \<and> rnd (b * rnd q) \<le> b"
proof -
  have q: "0 \<le> rnd q" "rnd q \<le> 1"
    using assms rnd_mono [of q 1] by (auto simp: rnd_one rnd_nonneg)
  then have "b * rnd q \<le> b" using assms by (simp add: mult_left_le)
  with assms q show ?thesis by (auto intro: rnd_nonneg rnd_le_double)
qed

lemma rnd_diff_int: "\<bar>m - n\<bar> \<le> 2 ^ 53 \<Longrightarrow> rnd (of_int m - of_int n) = of_int m - of_int n"
  using rnd_int [of "m - n"] by simp

end

interpretation ieee: rounding fl
  by unfold_locales (auto simp: fl_mono fl_of_int)

lemmas js_arith = js_add_def js_sub_def js_mul_def js_div_def

lemma js_sub_int: "\<bar>m - n\<bar> \<le> 2 ^ 53 \<Longrightarrow> js_sub (of_int m) (of_int n) = of_int (m - n)"
  by (simp add: js_sub_def ieee.rnd_diff_int)

lemma js_add_int: "\<bar>m + n\<bar> \<le> 2 ^ 53 \<Longrightarrow> js_add (of_int m) (of_int n) = of_int (m + n)"
  using ieee.rnd_int [of "m + n"] by (simp add: js_add_def)

lemma js_floor_le: "js_floor a \<le> a"
  by (simp add: js_floor_def)

lemma js_floor_nonneg: "0 \<le> a \<Longrightarrow> 0 \<le> js_floor a"
  by (simp add: js_floor_def)

lemma js_floor_mono: "a \<le> b \<Longrightarrow> js_floor a \<le> js_floor b"
  by (simp add: js_floor_def floor_mono)

lemma js_round_mono: "a \<le> b \<Longrightarrow> js_round a \<le> js_round b"
  by (simp add: js_round_def floor_mono)

lemma js_round_nonneg: "0 \<le> a \<Longrightarrow> 0 \<le> js_round a"
  using js_round_mono [of 0 a] by (simp add: js_round_def)

lemma js_round_int [simp]: "js_round (of_int n) = of_int n"
  by (simp add: js_round_def floor_unique)

section \<open>Square root and fixed-point text\<close>

text \<open>
  \<open>Math.sqrt\<close>, correctly rounded: 60 bits of the root by the digit recursion, with a last bit that
  says whether anything is left over, are enough to round to 53. \<open>toFixed(d)\<close> is the decimal text of
  the value below, for a number that is not negative.
\<close>

fun isqrt :: "nat \<Rightarrow> nat" where
  "isqrt n = (if n = 0 then 0
     else let r = 2 * isqrt (n div 4) in if (r + 1) * (r + 1) \<le> n then r + 1 else r)"

declare isqrt.simps [simp del]

lemma isqrt_spec: "isqrt n * isqrt n \<le> n \<and> n < (isqrt n + 1) * (isqrt n + 1)"
proof (induction n rule: isqrt.induct)
  case (1 n)
  show ?case
  proof (cases "n = 0")
    case True
    then show ?thesis by (simp add: isqrt.simps)
  next
    case False
    define q where "q = isqrt (n div 4)"
    from 1 [OF False] have q: "q * q \<le> n div 4" "n div 4 < (q + 1) * (q + 1)" by (simp_all add: q_def)
    from q(1) have lo: "2 * q * (2 * q) \<le> n" by (simp add: less_eq_div_iff_mult_less_eq algebra_simps)
    from q(2) have "n < 4 * ((q + 1) * (q + 1))" by (simp add: div_less_iff_less_mult algebra_simps)
    then have hi: "n < (2 * q + 2) * (2 * q + 2)" by (simp add: algebra_simps)
    have "isqrt n = (if (2 * q + 1) * (2 * q + 1) \<le> n then 2 * q + 1 else 2 * q)"
      using False by (subst isqrt.simps) (simp add: Let_def q_def)
    with lo hi show ?thesis by auto
  qed
qed

lemma isqrt_pos: "0 < n \<Longrightarrow> 0 < isqrt n"
  using isqrt_spec [of n] by (cases "isqrt n") auto

definition js_sqrt :: "num \<Rightarrow> num" where
  "js_sqrt x = (if x \<le> 0 then 0
     else let s = 60 - flog2 x div 2; y = x * 4 powi s; n = nat \<lfloor>y\<rfloor>; r = isqrt n;
              m = 2 * r + (if of_nat (r * r) = y then 0 else 1)
          in fl (of_nat m * 2 powi (- s - 1)))"

lemma js_sqrt_pos:
  assumes "0 < x"
  shows "0 < js_sqrt x"
proof -
  define t where "t = 60 - flog2 x div 2"
  define y where "y = x * 4 powi t"
  define r where "r = isqrt (nat \<lfloor>y\<rfloor>)"
  define m where "m = 2 * r + (if of_nat (r * r) = y then 0 else 1 :: nat)"
  have "0 < y" using assms by (simp add: y_def)
  then have "0 < m" by (cases r) (auto simp: m_def)
  moreover have "js_sqrt x = fl (of_nat m * 2 powi (- t - 1))"
    using assms unfolding js_sqrt_def Let_def t_def [symmetric] y_def [symmetric] r_def [symmetric] m_def by simp
  ultimately show ?thesis by (simp add: fl_pos)
qed

lemma js_sqrt_nonneg: "0 \<le> js_sqrt x"
  using js_sqrt_pos [of x] by (cases "0 < x") (auto simp: js_sqrt_def)

definition to_fixed :: "nat \<Rightarrow> num \<Rightarrow> num" where
  "to_fixed d x = of_int \<lfloor>x * 10 ^ d + 1 / 2\<rfloor> / 10 ^ d"

lemma to_fixed_nonneg: "0 \<le> x \<Longrightarrow> 0 \<le> to_fixed d x"
  by (simp add: to_fixed_def)

end
