(* ===== verification/Store.thy ===== *)
theory Store
  imports JsNumber "HOL-Library.Option_ord"
begin

text \<open>
  The documents of the payment side of the backend (\<open>backend/src/models\<close>), one record per Mongoose
  schema with its status enumeration, the world record that holds every collection together with
  the in-memory state of the modules, and the activity journal of
  \<open>services/liquidityActivityService.js\<close>.

  Conventions. Times are milliseconds. An absent or \<open>null\<close> field is \<open>None\<close>. A message literal of the
  source is a constructor of \<open>msg\<close>, and text that comes from outside (an exception's message, a
  chain log) is \<open>Ext\<close>. The collection lists keep insertion order. The \<open>outbox\<close> journals the calls
  that leave the process and move money, in the order they are made.
\<close>

section \<open>Messages\<close>

datatype msg =
    Ext string
  | TxBytesRequired | AwaitingBroadcast | AwaitingReview | SellBroadcasted | BurnDone
  | StaleSignature | PayoutInitiatedNote | PayoutInitFailed | SafaricomPayoutError
  | QueuedNote | Resigned | AutoPayoutInitiated | AutoPayoutFailed
  | PayoutCompletedNote | PayoutFailedNote | CashoutPayoutFailed | B2CCompleted | B2CFailed
  | InvalidPesaAmount | PayoutNotConfigured | TokenUnavailable | PayoutInitiationFailed
  | OverPerTxLimit num num | OverDailyLimit num num num
  | PoolUnreadable | InsufficientPool num num
  | StkSent | PaymentConfirmed | PaymentFailed
  | LiquidityMissing string | MissingPendingTx | SettlementFailed
  | CashoutUnconfigured | PriceUnavailable | BelowMinimum num num | WeeklyLimit nat
  | AmlRequired | NotAwaitingResign | NotFoundMsg string | ValidationMsg string

text \<open>The truthiness of an optional message: the empty string counts as absent.\<close>

fun msg_or :: "msg option \<Rightarrow> msg \<Rightarrow> msg" where
  "msg_or None d = d"
| "msg_or (Some m) d = (if m = Ext [] then d else m)"

section \<open>Sales, withdrawals and payouts\<close>

datatype sale_status =
  SPending | SBroadcasted | SCompleted | SFailed | SQueuedLiquidity | SResignRequired

record sale =
  s_saleId :: string
  s_sellerAddress :: string
  s_amount :: num
  s_phone :: "string option"
  s_status :: sale_status
  s_txHash :: "string option"
  s_burnAmount :: num
  s_burnTxHash :: "string option"
  s_treasuryAmount :: num
  s_burnPercentage :: num
  s_reason :: "msg option"
  s_pendingTxBytes :: "string option"
  s_pendingTxBytesSetAt :: "int option"
  s_createdAt :: int

datatype wd_status =
    WPendingReview | WPayoutInitiated | WCompleted | WFailed | WRefunded
  | WQueuedLiquidity | WResignRequired | WAmlRejected

datatype settlement_mode = Review | SignedSell

record withdrawal =
  w_oid :: string
  w_withdrawalId :: string
  w_walletAddress :: string
  w_phone :: string
  w_amountMlcns :: num
  w_amountKes :: num
  w_currency :: string
  w_status :: wd_status
  w_payoutRef :: "string option"
  w_settlementMode :: settlement_mode
  w_saleId :: "string option"
  w_sellTxHash :: "string option"
  w_burnTxHash :: "string option"
  w_notes :: "msg option"
  w_queuedAt :: "int option"
  w_amlReviewId :: "string option"
  w_createdAt :: int

datatype payout_status = PPending | PInitiated | PSucceeded | PFailed

record payout =
  p_saleId :: string
  p_sellerPhone :: string
  p_sellerAddress :: string
  p_amount :: num
  p_pesaAmount :: "num option"
  p_txHash :: "string option"
  p_status :: payout_status
  p_payoutRef :: "string option"
  p_payoutError :: "string option"
  p_attemptedAt :: "int option"

section \<open>Purchases and their reconciliation\<close>

datatype purchase_status = QPending | QPaymentInitiated | QConfirmed | QProcessing | QCredited | QFailed

record purchase =
  q_id :: string
  q_quoteId :: string
  q_walletAddress :: string
  q_amount :: num
  q_fiatAmount :: num
  q_currency :: string
  q_phone :: string
  q_status :: purchase_status
  q_paymentId :: "string option"
  q_paymentIds :: "string list"
  q_mpesaRef :: "string option"
  q_txHash :: "string option"
  q_liquidityAdded :: bool
  q_lpTokens :: num
  q_liquidityPoolId :: "nat option"
  q_liquidityError :: "msg option"
  q_reason :: "msg option"
  q_createdAt :: int
  q_expiresAt :: int

datatype recon_status = RDetected | RCompensating | RPendingManual | RResolved

record recon =
  r_purchaseId :: string
  r_quoteId :: string
  r_creditTxHash :: string
  r_walletAddress :: string
  r_mlcnsAmount :: num
  r_fiatAmount :: num
  r_reason :: "msg option"
  r_status :: recon_status
  r_compensationTx :: "string option"
  r_resolvedAt :: "int option"

section \<open>Compliance, treasury and policy documents\<close>

datatype aml_status = AmlPending | AmlApproved | AmlRejected

datatype funds_source =
    MiningStakingRewards | MallpointsConversion | ReferralBonus
  | Salary | BusinessIncome | Gift | AssetSale | OtherSource

record aml_review =
  v_id :: string
  v_userId :: string
  v_walletAddress :: string
  v_triggerAmountKes :: num
  v_fundsSource :: funds_source
  v_isNativeEarnings :: bool
  v_narrative :: string
  v_documentRef :: "string option"
  v_status :: aml_status
  v_consumedBy :: "string option"
  v_submittedAt :: int

record structuring_flag =
  g_walletAddress :: string
  g_windowStartAt :: int
  g_windowEndAt :: int
  g_cumulativeKes :: num
  g_related :: "string list"

datatype ledger_activity = InflowCashOut | OutflowReward | OutflowPayout | BurnActivity | ReconActivity
datatype ledger_direction = Inflow | Outflow | BurnDir

record ledger_entry =
  l_txHash :: "string option"
  l_activity :: ledger_activity
  l_amount :: num
  l_direction :: ledger_direction
  l_relatedSaleId :: string

datatype burn_activity = MarketplacePurchase | WalletTransfer | CashOut | ValidatorPenalty | LostRecovery

record burn_policy =
  bp_activity :: burn_activity
  bp_percentage :: num
  bp_enabled :: bool

record burn_threshold =
  bt_activity :: burn_activity
  bt_supplyThreshold :: num
  bt_percentage :: num
  bt_order :: nat
  bt_enabled :: bool

record economy_state =
  e_directBuyLocked :: bool
  e_lockedAt :: "int option"
  e_poolKesReserveAtLock :: "num option"

section \<open>The activity journal\<close>

datatype flow = BuyFlow | WithdrawFlow

datatype act_status = ActPending | ActSuccess | ActFailed | ActInfo

datatype stage =
    Cashout_requested | Cashout_rejected | Sell_broadcast_failed | Sell_broadcasted
  | Burn_recorded | Payout_initiated | Payout_requires_review | Payout_initiation_failed
  | Payout_completed | Payout_failed | Withdraw_queued_liquidity | Withdraw_resign_required
  | Withdraw_resigned | Withdraw_request_created | Withdraw_payout_failed
  | Withdraw_payout_requires_review | Withdraw_payout_initiated
  | Buy_reserved | Payment_initiated | Payment_initiation_failed | Payment_confirmed
  | Payment_failed | Credit_processing_started | Credit_settled | Liquidity_added
  | Liquidity_add_failed | Liquidity_add_reconciled

record activity =
  a_flow :: flow
  a_stage :: stage
  a_status :: act_status
  a_poolId :: "nat option"
  a_quoteId :: "string option"
  a_paymentId :: "string option"
  a_withdrawalId :: "string option"
  a_saleId :: "string option"
  a_payoutRef :: "string option"
  a_walletAddress :: "string option"
  a_phone :: "string option"
  a_currency :: string
  a_amountMlcns :: num
  a_fiatAmount :: num
  a_lpTokens :: num
  a_creditTxHash :: "string option"
  a_liquidityTxHash :: "string option"
  a_sellTxHash :: "string option"
  a_burnTxHash :: "string option"
  a_reason :: "msg option"
  a_recordedAt :: int

text \<open>The last argument of the two record functions; \<open>over\<close> is the empty object.\<close>

record overrides =
  o_status :: "act_status option"
  o_poolId :: "nat option"
  o_paymentId :: "string option"
  o_saleId :: "string option"
  o_payoutRef :: "string option"
  o_fiatAmount :: "num option"
  o_lpTokens :: "num option"
  o_creditTxHash :: "string option"
  o_liquidityTxHash :: "string option"
  o_sellTxHash :: "string option"
  o_burnTxHash :: "string option"
  o_reason :: "msg option"

definition over :: overrides where
  "over = \<lparr>o_status = None, o_poolId = None, o_paymentId = None, o_saleId = None, o_payoutRef = None,
     o_fiatAmount = None, o_lpTokens = None, o_creditTxHash = None, o_liquidityTxHash = None,
     o_sellTxHash = None, o_burnTxHash = None, o_reason = None\<rparr>"

section \<open>Calls that leave the process\<close>

datatype effect =
    EBroadcast string
  | EBurn num
  | EB2C num string
  | EStk num string
  | ECredit string num
  | EFundGas string
  | EAddLiquidity nat num num
  | ERemoveLiquidity nat num
  | ENotify string
  | ESms string

section \<open>The circuit breaker's fields and the pools\<close>

datatype circuit = Closed | Opened | HalfOpen

record breaker =
  b_state :: circuit
  b_failureCount :: nat
  b_successCount :: nat
  b_lastFailureTime :: "int option"
  b_nextAttemptTime :: "int option"
  b_failureThreshold :: nat
  b_successThreshold :: nat
  b_timeout :: int

record pool =
  pl_id :: nat
  pl_reserve0 :: num
  pl_reserve1 :: num
  pl_tvl :: num
  pl_totalLiquidity :: num
  pl_userPositions :: "string \<rightharpoonup> num"
  pl_priceMlcn :: num
  pl_volume24h :: num
  pl_blockchainSource :: bool

record gate_status =
  gs_locked :: bool
  gs_reserveKes :: "num option"
  gs_error :: bool

section \<open>The world\<close>

record world =
  sales :: "sale list"
  withdrawals :: "withdrawal list"
  payouts :: "payout list"
  purchases :: "purchase list"
  recons :: "recon list"
  amlReviews :: "aml_review list"
  structFlags :: "structuring_flag list"
  ledger :: "ledger_entry list"
  dailyPayout :: "(int \<times> num) list"
  burnPolicies :: "burn_policy list"
  burnThresholds :: "burn_threshold list"
  economy :: "economy_state option"
  activities :: "activity list"
  outbox :: "effect list"
  b2cBreaker :: breaker
  buyBreaker :: breaker
  gateCache :: "(gate_status \<times> int) option"
  pools :: "pool list"
  poolsCache :: "(pool list \<times> int) option"
  cooldownRedis :: "string \<rightharpoonup> int"
  cooldownMemory :: "string \<rightharpoonup> int"

definition emit :: "effect \<Rightarrow> world \<Rightarrow> world" where
  "emit e W = W\<lparr>outbox := outbox W @ [e]\<rparr>"

definition save_sale :: "sale \<Rightarrow> world \<Rightarrow> world" where
  "save_sale d W = W\<lparr>sales := coll_put s_saleId d (sales W)\<rparr>"

definition save_withdrawal :: "withdrawal \<Rightarrow> world \<Rightarrow> world" where
  "save_withdrawal d W = W\<lparr>withdrawals := coll_put w_withdrawalId d (withdrawals W)\<rparr>"

definition save_payout :: "payout \<Rightarrow> world \<Rightarrow> world" where
  "save_payout d W = W\<lparr>payouts := coll_put p_saleId d (payouts W)\<rparr>"

definition save_purchase :: "purchase \<Rightarrow> world \<Rightarrow> world" where
  "save_purchase d W = W\<lparr>purchases := coll_put q_quoteId d (purchases W)\<rparr>"

definition save_recon :: "recon \<Rightarrow> world \<Rightarrow> world" where
  "save_recon d W = W\<lparr>recons := coll_put r_purchaseId d (recons W)\<rparr>"

definition find_sale :: "string \<Rightarrow> world \<Rightarrow> sale option" where
  "find_sale k W = coll_find (\<lambda>d. s_saleId d = k) (sales W)"

definition find_withdrawal :: "string \<Rightarrow> world \<Rightarrow> withdrawal option" where
  "find_withdrawal k W = coll_find (\<lambda>d. w_withdrawalId d = k) (withdrawals W)"

definition find_payout :: "string \<Rightarrow> world \<Rightarrow> payout option" where
  "find_payout k W = coll_find (\<lambda>d. p_saleId d = k) (payouts W)"

definition find_purchase :: "string \<Rightarrow> world \<Rightarrow> purchase option" where
  "find_purchase k W = coll_find (\<lambda>d. q_quoteId d = k) (purchases W)"

definition find_recon :: "string \<Rightarrow> world \<Rightarrow> recon option" where
  "find_recon k W = coll_find (\<lambda>d. r_purchaseId d = k) (recons W)"

text \<open>A world with no document and a breaker that never failed, for concrete runs.\<close>

definition empty_world :: world where
  "empty_world =
     (let b = \<lparr>b_state = Closed, b_failureCount = 0, b_successCount = 0, b_lastFailureTime = None,
               b_nextAttemptTime = None, b_failureThreshold = 5, b_successThreshold = 2, b_timeout = 30000\<rparr>
      in \<lparr>sales = [], withdrawals = [], payouts = [], purchases = [], recons = [], amlReviews = [],
          structFlags = [], ledger = [], dailyPayout = [], burnPolicies = [], burnThresholds = [],
          economy = None, activities = [], outbox = [], b2cBreaker = b, buyBreaker = b,
          gateCache = None, pools = [], poolsCache = None, cooldownRedis = Map.empty,
          cooldownMemory = Map.empty\<rparr>)"

lemma empty_world_simps [simp]:
  "sales empty_world = []" "withdrawals empty_world = []" "payouts empty_world = []"
  "purchases empty_world = []" "recons empty_world = []" "amlReviews empty_world = []"
  "structFlags empty_world = []" "ledger empty_world = []" "dailyPayout empty_world = []"
  "burnPolicies empty_world = []" "burnThresholds empty_world = []" "economy empty_world = None"
  "activities empty_world = []" "outbox empty_world = []" "gateCache empty_world = None"
  "pools empty_world = []" "poolsCache empty_world = None" "cooldownRedis empty_world = Map.empty"
  "cooldownMemory empty_world = Map.empty"
  by (simp_all add: empty_world_def Let_def)

section \<open>Journal entries\<close>

text \<open>
  \<open>recordLiquidityActivity\<close>, \<open>recordBuyLiquidityActivity\<close> and \<open>recordWithdrawLiquidityActivity\<close>: each
  field is the override if it is given, else what the source document carries, else the default.
  The fixed \<open>provider\<close>, the free-form \<open>note\<close>, \<open>providerMode\<close> and \<open>metadata\<close> are not kept.
\<close>

record act_source =
  as_poolId :: "nat option"
  as_quoteId :: "string option"
  as_paymentId :: "string option"
  as_withdrawalId :: "string option"
  as_saleId :: "string option"
  as_payoutRef :: "string option"
  as_walletAddress :: "string option"
  as_phone :: "string option"
  as_currency :: "string option"
  as_amount :: "num option"
  as_fiat :: "num option"
  as_lpTokens :: "num option"
  as_creditTxHash :: "string option"
  as_sellTxHash :: "string option"
  as_burnTxHash :: "string option"

definition last_payment_id :: "purchase \<Rightarrow> string option" where
  "last_payment_id q =
     nullish (q_paymentId q) (if q_paymentIds q = [] then None else Some (last (q_paymentIds q)))"

definition of_withdrawal :: "withdrawal \<Rightarrow> act_source" where
  "of_withdrawal w = \<lparr>as_poolId = None, as_quoteId = None, as_paymentId = None,
     as_withdrawalId = Some (w_withdrawalId w), as_saleId = w_saleId w, as_payoutRef = w_payoutRef w,
     as_walletAddress = Some (w_walletAddress w), as_phone = Some (w_phone w),
     as_currency = Some (w_currency w), as_amount = Some (w_amountMlcns w),
     as_fiat = Some (w_amountKes w), as_lpTokens = None, as_creditTxHash = None,
     as_sellTxHash = w_sellTxHash w, as_burnTxHash = w_burnTxHash w\<rparr>"

definition of_payout :: "payout \<Rightarrow> act_source" where
  "of_payout p = \<lparr>as_poolId = None, as_quoteId = None, as_paymentId = None,
     as_withdrawalId = None, as_saleId = Some (p_saleId p), as_payoutRef = p_payoutRef p,
     as_walletAddress = Some (p_sellerAddress p), as_phone = Some (p_sellerPhone p),
     as_currency = None, as_amount = Some (p_amount p), as_fiat = p_pesaAmount p,
     as_lpTokens = None, as_creditTxHash = None, as_sellTxHash = p_txHash p, as_burnTxHash = None\<rparr>"

definition of_purchase :: "purchase \<Rightarrow> act_source" where
  "of_purchase q = \<lparr>as_poolId = q_liquidityPoolId q, as_quoteId = Some (q_quoteId q),
     as_paymentId = last_payment_id q, as_withdrawalId = None, as_saleId = None, as_payoutRef = None,
     as_walletAddress = Some (q_walletAddress q), as_phone = Some (q_phone q),
     as_currency = Some (q_currency q), as_amount = Some (q_amount q),
     as_fiat = Some (q_fiatAmount q), as_lpTokens = Some (q_lpTokens q), as_creditTxHash = q_txHash q,
     as_sellTxHash = None, as_burnTxHash = None\<rparr>"

definition recordLiquidityActivity :: "activity \<Rightarrow> world \<Rightarrow> world" where
  "recordLiquidityActivity a W = W\<lparr>activities := activities W @ [a]\<rparr>"

definition recordBuyLiquidityActivity :: "int \<Rightarrow> stage \<Rightarrow> purchase \<Rightarrow> overrides \<Rightarrow> world \<Rightarrow> world" where
  "recordBuyLiquidityActivity now st q ov W =
     (let s = of_purchase q in recordLiquidityActivity
       \<lparr>a_flow = BuyFlow, a_stage = st, a_status = or_else (o_status ov) ActInfo,
        a_poolId = nullish (o_poolId ov) (as_poolId s), a_quoteId = as_quoteId s,
        a_paymentId = nullish (o_paymentId ov) (as_paymentId s), a_withdrawalId = None,
        a_saleId = None, a_payoutRef = None, a_walletAddress = as_walletAddress s,
        a_phone = as_phone s, a_currency = or_else (as_currency s) ''KES'',
        a_amountMlcns = or_else (as_amount s) 0,
        a_fiatAmount = or_else (nullish (o_fiatAmount ov) (as_fiat s)) 0,
        a_lpTokens = or_else (nullish (o_lpTokens ov) (as_lpTokens s)) 0,
        a_creditTxHash = nullish (o_creditTxHash ov) (as_creditTxHash s),
        a_liquidityTxHash = o_liquidityTxHash ov, a_sellTxHash = None, a_burnTxHash = None,
        a_reason = o_reason ov, a_recordedAt = now\<rparr> W)"

definition recordWithdrawLiquidityActivity :: "int \<Rightarrow> stage \<Rightarrow> act_source \<Rightarrow> overrides \<Rightarrow> world \<Rightarrow> world" where
  "recordWithdrawLiquidityActivity now st s ov W = recordLiquidityActivity
     \<lparr>a_flow = WithdrawFlow, a_stage = st, a_status = or_else (o_status ov) ActInfo,
      a_poolId = o_poolId ov, a_quoteId = None, a_paymentId = None,
      a_withdrawalId = as_withdrawalId s, a_saleId = nullish (o_saleId ov) (as_saleId s),
      a_payoutRef = nullish (o_payoutRef ov) (as_payoutRef s), a_walletAddress = as_walletAddress s,
      a_phone = as_phone s, a_currency = or_else (as_currency s) ''KES'',
      a_amountMlcns = or_else (as_amount s) 0,
      a_fiatAmount = or_else (nullish (o_fiatAmount ov) (as_fiat s)) 0, a_lpTokens = 0,
      a_creditTxHash = None, a_liquidityTxHash = None,
      a_sellTxHash = nullish (o_sellTxHash ov) (as_sellTxHash s),
      a_burnTxHash = nullish (o_burnTxHash ov) (as_burnTxHash s),
      a_reason = o_reason ov, a_recordedAt = now\<rparr> W"

section \<open>Insertion of a document\<close>

definition create_sale :: "sale \<Rightarrow> world \<Rightarrow> world" where
  "create_sale d W = W\<lparr>sales := sales W @ [d]\<rparr>"

definition create_withdrawal :: "withdrawal \<Rightarrow> world \<Rightarrow> world" where
  "create_withdrawal d W = W\<lparr>withdrawals := withdrawals W @ [d]\<rparr>"

definition create_payout :: "payout \<Rightarrow> world \<Rightarrow> world" where
  "create_payout d W = W\<lparr>payouts := payouts W @ [d]\<rparr>"

definition create_purchase :: "purchase \<Rightarrow> world \<Rightarrow> world" where
  "create_purchase d W = W\<lparr>purchases := purchases W @ [d]\<rparr>"

definition create_recon :: "recon \<Rightarrow> world \<Rightarrow> world" where
  "create_recon d W = W\<lparr>recons := recons W @ [d]\<rparr>"

section \<open>What each operation leaves alone\<close>

text \<open>
  A journal entry touches the activities and nothing else; a save or an insertion touches one
  collection. These facts, collected in \<open>frame_simps\<close>, are what the component proofs step over.
\<close>

lemma recordWithdraw_frame [frame_simps]:
  "sales (recordWithdrawLiquidityActivity n st s ov W) = sales W" "withdrawals (recordWithdrawLiquidityActivity n st s ov W) = withdrawals W"
  "payouts (recordWithdrawLiquidityActivity n st s ov W) = payouts W" "purchases (recordWithdrawLiquidityActivity n st s ov W) = purchases W"
  "recons (recordWithdrawLiquidityActivity n st s ov W) = recons W" "amlReviews (recordWithdrawLiquidityActivity n st s ov W) = amlReviews W"
  "structFlags (recordWithdrawLiquidityActivity n st s ov W) = structFlags W" "ledger (recordWithdrawLiquidityActivity n st s ov W) = ledger W"
  "dailyPayout (recordWithdrawLiquidityActivity n st s ov W) = dailyPayout W" "burnPolicies (recordWithdrawLiquidityActivity n st s ov W) = burnPolicies W"
  "burnThresholds (recordWithdrawLiquidityActivity n st s ov W) = burnThresholds W" "economy (recordWithdrawLiquidityActivity n st s ov W) = economy W"
  "outbox (recordWithdrawLiquidityActivity n st s ov W) = outbox W" "b2cBreaker (recordWithdrawLiquidityActivity n st s ov W) = b2cBreaker W"
  "buyBreaker (recordWithdrawLiquidityActivity n st s ov W) = buyBreaker W" "gateCache (recordWithdrawLiquidityActivity n st s ov W) = gateCache W"
  "pools (recordWithdrawLiquidityActivity n st s ov W) = pools W" "poolsCache (recordWithdrawLiquidityActivity n st s ov W) = poolsCache W"
  "cooldownRedis (recordWithdrawLiquidityActivity n st s ov W) = cooldownRedis W" "cooldownMemory (recordWithdrawLiquidityActivity n st s ov W) = cooldownMemory W"
  by (simp_all add: recordWithdrawLiquidityActivity_def recordLiquidityActivity_def)

lemma recordBuy_frame [frame_simps]:
  "sales (recordBuyLiquidityActivity n st q ov W) = sales W" "withdrawals (recordBuyLiquidityActivity n st q ov W) = withdrawals W"
  "payouts (recordBuyLiquidityActivity n st q ov W) = payouts W" "purchases (recordBuyLiquidityActivity n st q ov W) = purchases W"
  "recons (recordBuyLiquidityActivity n st q ov W) = recons W" "amlReviews (recordBuyLiquidityActivity n st q ov W) = amlReviews W"
  "structFlags (recordBuyLiquidityActivity n st q ov W) = structFlags W" "ledger (recordBuyLiquidityActivity n st q ov W) = ledger W"
  "dailyPayout (recordBuyLiquidityActivity n st q ov W) = dailyPayout W" "burnPolicies (recordBuyLiquidityActivity n st q ov W) = burnPolicies W"
  "burnThresholds (recordBuyLiquidityActivity n st q ov W) = burnThresholds W" "economy (recordBuyLiquidityActivity n st q ov W) = economy W"
  "outbox (recordBuyLiquidityActivity n st q ov W) = outbox W" "b2cBreaker (recordBuyLiquidityActivity n st q ov W) = b2cBreaker W"
  "buyBreaker (recordBuyLiquidityActivity n st q ov W) = buyBreaker W" "gateCache (recordBuyLiquidityActivity n st q ov W) = gateCache W"
  "pools (recordBuyLiquidityActivity n st q ov W) = pools W" "poolsCache (recordBuyLiquidityActivity n st q ov W) = poolsCache W"
  "cooldownRedis (recordBuyLiquidityActivity n st q ov W) = cooldownRedis W" "cooldownMemory (recordBuyLiquidityActivity n st q ov W) = cooldownMemory W"
  by (simp_all add: recordBuyLiquidityActivity_def recordLiquidityActivity_def Let_def)

lemma emit_frame [frame_simps]:
  "sales (emit e W) = sales W" "withdrawals (emit e W) = withdrawals W"
  "payouts (emit e W) = payouts W" "purchases (emit e W) = purchases W"
  "recons (emit e W) = recons W" "amlReviews (emit e W) = amlReviews W"
  "structFlags (emit e W) = structFlags W" "ledger (emit e W) = ledger W"
  "dailyPayout (emit e W) = dailyPayout W" "burnPolicies (emit e W) = burnPolicies W"
  "burnThresholds (emit e W) = burnThresholds W" "economy (emit e W) = economy W"
  "activities (emit e W) = activities W" "outbox (emit e W) = outbox W @ [e]"
  "b2cBreaker (emit e W) = b2cBreaker W" "buyBreaker (emit e W) = buyBreaker W"
  "gateCache (emit e W) = gateCache W" "pools (emit e W) = pools W"
  "poolsCache (emit e W) = poolsCache W" "cooldownRedis (emit e W) = cooldownRedis W"
  "cooldownMemory (emit e W) = cooldownMemory W"
  by (simp_all add: emit_def)

lemma save_sale_frame [frame_simps]:
  "sales (save_sale d W) = coll_put s_saleId d (sales W)" "withdrawals (save_sale d W) = withdrawals W"
  "payouts (save_sale d W) = payouts W" "purchases (save_sale d W) = purchases W"
  "recons (save_sale d W) = recons W" "amlReviews (save_sale d W) = amlReviews W"
  "structFlags (save_sale d W) = structFlags W" "ledger (save_sale d W) = ledger W"
  "dailyPayout (save_sale d W) = dailyPayout W" "burnPolicies (save_sale d W) = burnPolicies W"
  "burnThresholds (save_sale d W) = burnThresholds W" "economy (save_sale d W) = economy W"
  "activities (save_sale d W) = activities W" "outbox (save_sale d W) = outbox W"
  "b2cBreaker (save_sale d W) = b2cBreaker W" "buyBreaker (save_sale d W) = buyBreaker W"
  "gateCache (save_sale d W) = gateCache W" "pools (save_sale d W) = pools W"
  "poolsCache (save_sale d W) = poolsCache W" "cooldownRedis (save_sale d W) = cooldownRedis W"
  "cooldownMemory (save_sale d W) = cooldownMemory W"
  by (simp_all add: save_sale_def)

lemma create_sale_frame [frame_simps]:
  "sales (create_sale d W) = sales W @ [d]" "withdrawals (create_sale d W) = withdrawals W"
  "payouts (create_sale d W) = payouts W" "purchases (create_sale d W) = purchases W"
  "recons (create_sale d W) = recons W" "amlReviews (create_sale d W) = amlReviews W"
  "structFlags (create_sale d W) = structFlags W" "ledger (create_sale d W) = ledger W"
  "dailyPayout (create_sale d W) = dailyPayout W" "burnPolicies (create_sale d W) = burnPolicies W"
  "burnThresholds (create_sale d W) = burnThresholds W" "economy (create_sale d W) = economy W"
  "activities (create_sale d W) = activities W" "outbox (create_sale d W) = outbox W"
  "b2cBreaker (create_sale d W) = b2cBreaker W" "buyBreaker (create_sale d W) = buyBreaker W"
  "gateCache (create_sale d W) = gateCache W" "pools (create_sale d W) = pools W"
  "poolsCache (create_sale d W) = poolsCache W" "cooldownRedis (create_sale d W) = cooldownRedis W"
  "cooldownMemory (create_sale d W) = cooldownMemory W"
  by (simp_all add: create_sale_def)

lemma save_withdrawal_frame [frame_simps]:
  "sales (save_withdrawal d W) = sales W" "withdrawals (save_withdrawal d W) = coll_put w_withdrawalId d (withdrawals W)"
  "payouts (save_withdrawal d W) = payouts W" "purchases (save_withdrawal d W) = purchases W"
  "recons (save_withdrawal d W) = recons W" "amlReviews (save_withdrawal d W) = amlReviews W"
  "structFlags (save_withdrawal d W) = structFlags W" "ledger (save_withdrawal d W) = ledger W"
  "dailyPayout (save_withdrawal d W) = dailyPayout W" "burnPolicies (save_withdrawal d W) = burnPolicies W"
  "burnThresholds (save_withdrawal d W) = burnThresholds W" "economy (save_withdrawal d W) = economy W"
  "activities (save_withdrawal d W) = activities W" "outbox (save_withdrawal d W) = outbox W"
  "b2cBreaker (save_withdrawal d W) = b2cBreaker W" "buyBreaker (save_withdrawal d W) = buyBreaker W"
  "gateCache (save_withdrawal d W) = gateCache W" "pools (save_withdrawal d W) = pools W"
  "poolsCache (save_withdrawal d W) = poolsCache W" "cooldownRedis (save_withdrawal d W) = cooldownRedis W"
  "cooldownMemory (save_withdrawal d W) = cooldownMemory W"
  by (simp_all add: save_withdrawal_def)

lemma create_withdrawal_frame [frame_simps]:
  "sales (create_withdrawal d W) = sales W" "withdrawals (create_withdrawal d W) = withdrawals W @ [d]"
  "payouts (create_withdrawal d W) = payouts W" "purchases (create_withdrawal d W) = purchases W"
  "recons (create_withdrawal d W) = recons W" "amlReviews (create_withdrawal d W) = amlReviews W"
  "structFlags (create_withdrawal d W) = structFlags W" "ledger (create_withdrawal d W) = ledger W"
  "dailyPayout (create_withdrawal d W) = dailyPayout W" "burnPolicies (create_withdrawal d W) = burnPolicies W"
  "burnThresholds (create_withdrawal d W) = burnThresholds W" "economy (create_withdrawal d W) = economy W"
  "activities (create_withdrawal d W) = activities W" "outbox (create_withdrawal d W) = outbox W"
  "b2cBreaker (create_withdrawal d W) = b2cBreaker W" "buyBreaker (create_withdrawal d W) = buyBreaker W"
  "gateCache (create_withdrawal d W) = gateCache W" "pools (create_withdrawal d W) = pools W"
  "poolsCache (create_withdrawal d W) = poolsCache W" "cooldownRedis (create_withdrawal d W) = cooldownRedis W"
  "cooldownMemory (create_withdrawal d W) = cooldownMemory W"
  by (simp_all add: create_withdrawal_def)

lemma save_payout_frame [frame_simps]:
  "sales (save_payout d W) = sales W" "withdrawals (save_payout d W) = withdrawals W"
  "payouts (save_payout d W) = coll_put p_saleId d (payouts W)" "purchases (save_payout d W) = purchases W"
  "recons (save_payout d W) = recons W" "amlReviews (save_payout d W) = amlReviews W"
  "structFlags (save_payout d W) = structFlags W" "ledger (save_payout d W) = ledger W"
  "dailyPayout (save_payout d W) = dailyPayout W" "burnPolicies (save_payout d W) = burnPolicies W"
  "burnThresholds (save_payout d W) = burnThresholds W" "economy (save_payout d W) = economy W"
  "activities (save_payout d W) = activities W" "outbox (save_payout d W) = outbox W"
  "b2cBreaker (save_payout d W) = b2cBreaker W" "buyBreaker (save_payout d W) = buyBreaker W"
  "gateCache (save_payout d W) = gateCache W" "pools (save_payout d W) = pools W"
  "poolsCache (save_payout d W) = poolsCache W" "cooldownRedis (save_payout d W) = cooldownRedis W"
  "cooldownMemory (save_payout d W) = cooldownMemory W"
  by (simp_all add: save_payout_def)

lemma create_payout_frame [frame_simps]:
  "sales (create_payout d W) = sales W" "withdrawals (create_payout d W) = withdrawals W"
  "payouts (create_payout d W) = payouts W @ [d]" "purchases (create_payout d W) = purchases W"
  "recons (create_payout d W) = recons W" "amlReviews (create_payout d W) = amlReviews W"
  "structFlags (create_payout d W) = structFlags W" "ledger (create_payout d W) = ledger W"
  "dailyPayout (create_payout d W) = dailyPayout W" "burnPolicies (create_payout d W) = burnPolicies W"
  "burnThresholds (create_payout d W) = burnThresholds W" "economy (create_payout d W) = economy W"
  "activities (create_payout d W) = activities W" "outbox (create_payout d W) = outbox W"
  "b2cBreaker (create_payout d W) = b2cBreaker W" "buyBreaker (create_payout d W) = buyBreaker W"
  "gateCache (create_payout d W) = gateCache W" "pools (create_payout d W) = pools W"
  "poolsCache (create_payout d W) = poolsCache W" "cooldownRedis (create_payout d W) = cooldownRedis W"
  "cooldownMemory (create_payout d W) = cooldownMemory W"
  by (simp_all add: create_payout_def)

lemma save_purchase_frame [frame_simps]:
  "sales (save_purchase d W) = sales W" "withdrawals (save_purchase d W) = withdrawals W"
  "payouts (save_purchase d W) = payouts W" "purchases (save_purchase d W) = coll_put q_quoteId d (purchases W)"
  "recons (save_purchase d W) = recons W" "amlReviews (save_purchase d W) = amlReviews W"
  "structFlags (save_purchase d W) = structFlags W" "ledger (save_purchase d W) = ledger W"
  "dailyPayout (save_purchase d W) = dailyPayout W" "burnPolicies (save_purchase d W) = burnPolicies W"
  "burnThresholds (save_purchase d W) = burnThresholds W" "economy (save_purchase d W) = economy W"
  "activities (save_purchase d W) = activities W" "outbox (save_purchase d W) = outbox W"
  "b2cBreaker (save_purchase d W) = b2cBreaker W" "buyBreaker (save_purchase d W) = buyBreaker W"
  "gateCache (save_purchase d W) = gateCache W" "pools (save_purchase d W) = pools W"
  "poolsCache (save_purchase d W) = poolsCache W" "cooldownRedis (save_purchase d W) = cooldownRedis W"
  "cooldownMemory (save_purchase d W) = cooldownMemory W"
  by (simp_all add: save_purchase_def)

lemma create_purchase_frame [frame_simps]:
  "sales (create_purchase d W) = sales W" "withdrawals (create_purchase d W) = withdrawals W"
  "payouts (create_purchase d W) = payouts W" "purchases (create_purchase d W) = purchases W @ [d]"
  "recons (create_purchase d W) = recons W" "amlReviews (create_purchase d W) = amlReviews W"
  "structFlags (create_purchase d W) = structFlags W" "ledger (create_purchase d W) = ledger W"
  "dailyPayout (create_purchase d W) = dailyPayout W" "burnPolicies (create_purchase d W) = burnPolicies W"
  "burnThresholds (create_purchase d W) = burnThresholds W" "economy (create_purchase d W) = economy W"
  "activities (create_purchase d W) = activities W" "outbox (create_purchase d W) = outbox W"
  "b2cBreaker (create_purchase d W) = b2cBreaker W" "buyBreaker (create_purchase d W) = buyBreaker W"
  "gateCache (create_purchase d W) = gateCache W" "pools (create_purchase d W) = pools W"
  "poolsCache (create_purchase d W) = poolsCache W" "cooldownRedis (create_purchase d W) = cooldownRedis W"
  "cooldownMemory (create_purchase d W) = cooldownMemory W"
  by (simp_all add: create_purchase_def)

lemma save_recon_frame [frame_simps]:
  "sales (save_recon d W) = sales W" "withdrawals (save_recon d W) = withdrawals W"
  "payouts (save_recon d W) = payouts W" "purchases (save_recon d W) = purchases W"
  "recons (save_recon d W) = coll_put r_purchaseId d (recons W)" "amlReviews (save_recon d W) = amlReviews W"
  "structFlags (save_recon d W) = structFlags W" "ledger (save_recon d W) = ledger W"
  "dailyPayout (save_recon d W) = dailyPayout W" "burnPolicies (save_recon d W) = burnPolicies W"
  "burnThresholds (save_recon d W) = burnThresholds W" "economy (save_recon d W) = economy W"
  "activities (save_recon d W) = activities W" "outbox (save_recon d W) = outbox W"
  "b2cBreaker (save_recon d W) = b2cBreaker W" "buyBreaker (save_recon d W) = buyBreaker W"
  "gateCache (save_recon d W) = gateCache W" "pools (save_recon d W) = pools W"
  "poolsCache (save_recon d W) = poolsCache W" "cooldownRedis (save_recon d W) = cooldownRedis W"
  "cooldownMemory (save_recon d W) = cooldownMemory W"
  by (simp_all add: save_recon_def)

lemma create_recon_frame [frame_simps]:
  "sales (create_recon d W) = sales W" "withdrawals (create_recon d W) = withdrawals W"
  "payouts (create_recon d W) = payouts W" "purchases (create_recon d W) = purchases W"
  "recons (create_recon d W) = recons W @ [d]" "amlReviews (create_recon d W) = amlReviews W"
  "structFlags (create_recon d W) = structFlags W" "ledger (create_recon d W) = ledger W"
  "dailyPayout (create_recon d W) = dailyPayout W" "burnPolicies (create_recon d W) = burnPolicies W"
  "burnThresholds (create_recon d W) = burnThresholds W" "economy (create_recon d W) = economy W"
  "activities (create_recon d W) = activities W" "outbox (create_recon d W) = outbox W"
  "b2cBreaker (create_recon d W) = b2cBreaker W" "buyBreaker (create_recon d W) = buyBreaker W"
  "gateCache (create_recon d W) = gateCache W" "pools (create_recon d W) = pools W"
  "poolsCache (create_recon d W) = poolsCache W" "cooldownRedis (create_recon d W) = cooldownRedis W"
  "cooldownMemory (create_recon d W) = cooldownMemory W"
  by (simp_all add: create_recon_def)

section \<open>The collections meet the document interface\<close>

lemmas store_defs = save_sale_def find_sale_def create_sale_def save_withdrawal_def
  find_withdrawal_def create_withdrawal_def save_payout_def find_payout_def create_payout_def
  save_purchase_def find_purchase_def create_purchase_def save_recon_def find_recon_def
  create_recon_def

interpretation saledb: document_store find_sale save_sale create_sale s_saleId
  by unfold_locales (auto simp: store_defs coll_find_append coll_find_put_same coll_find_put_other
    coll_put_same dest: coll_find_Some split: option.splits)

interpretation wddb: document_store find_withdrawal save_withdrawal create_withdrawal w_withdrawalId
  by unfold_locales (auto simp: store_defs coll_find_append coll_find_put_same coll_find_put_other
    coll_put_same dest: coll_find_Some split: option.splits)

interpretation paydb: document_store find_payout save_payout create_payout p_saleId
  by unfold_locales (auto simp: store_defs coll_find_append coll_find_put_same coll_find_put_other
    coll_put_same dest: coll_find_Some split: option.splits)

interpretation purdb: document_store find_purchase save_purchase create_purchase q_quoteId
  by unfold_locales (auto simp: store_defs coll_find_append coll_find_put_same coll_find_put_other
    coll_put_same dest: coll_find_Some split: option.splits)

interpretation recdb: document_store find_recon save_recon create_recon r_purchaseId
  by unfold_locales (auto simp: store_defs coll_find_append coll_find_put_same coll_find_put_other
    coll_put_same dest: coll_find_Some split: option.splits)

end
