(* ===== verification/BurnCalculator.thy ===== *)
theory BurnCalculator
  imports Store
begin

text \<open>
  \<open>services/burnCalculator.js\<close> and \<open>services/supplyService.js\<close>: the burn rate of an activity (static
  policy, supply-dependent thresholds), the split of an amount into a burned and a treasury part,
  the default policies, and the circulating supply. A collection argument of \<open>None\<close> is a query
  that throws; both rate functions then answer 0.
\<close>

section \<open>The rates\<close>

definition getStaticBurnRate :: "burn_activity \<Rightarrow> burn_policy list option \<Rightarrow> num" where
  "getStaticBurnRate act db =
     (case db of None \<Rightarrow> 0
      | Some ps \<Rightarrow>
          (case coll_find (\<lambda>p. bp_activity p = act \<and> bp_enabled p) ps of
             None \<Rightarrow> 0 | Some p \<Rightarrow> bp_percentage p))"

text \<open>The loop over the thresholds, highest first: the first one the supply reaches.\<close>

fun first_reached :: "num \<Rightarrow> burn_threshold list \<Rightarrow> num" where
  "first_reached supply [] = 0"
| "first_reached supply (t # ts) =
     (if bt_supplyThreshold t \<le> supply then bt_percentage t else first_reached supply ts)"

definition getDynamicBurnRate :: "burn_activity \<Rightarrow> num \<Rightarrow> burn_threshold list option \<Rightarrow> num" where
  "getDynamicBurnRate act supply db =
     (case db of None \<Rightarrow> 0
      | Some ts \<Rightarrow> first_reached supply
          (sort_key (\<lambda>t. - bt_supplyThreshold t)
             (filter (\<lambda>t. bt_activity t = act \<and> bt_enabled t) ts)))"

definition calculateBurnSplit :: "num \<Rightarrow> num \<Rightarrow> num \<times> num \<times> num" where
  "calculateBurnSplit totalAmount burnPercentage =
     (let burnAmount = js_floor (js_mul totalAmount (js_div burnPercentage 100));
          treasuryAmount = js_sub totalAmount burnAmount
      in (burnAmount, treasuryAmount, burnPercentage))"

definition shouldUseDynamic :: "burn_activity \<Rightarrow> bool" where
  "shouldUseDynamic act = List.member [CashOut, MarketplacePurchase, WalletTransfer] act"

definition getEffectiveBurnRate ::
  "burn_activity \<Rightarrow> num \<Rightarrow> burn_policy list option \<Rightarrow> burn_threshold list option \<Rightarrow> num" where
  "getEffectiveBurnRate act supply ps ts =
     (let dyn = getDynamicBurnRate act supply ts in
      if shouldUseDynamic act \<and> 0 < dyn then dyn else getStaticBurnRate act ps)"

section \<open>Defaults\<close>

definition default_policies :: "burn_policy list" where
  "default_policies =
     [\<lparr>bp_activity = MarketplacePurchase, bp_percentage = 2, bp_enabled = True\<rparr>,
      \<lparr>bp_activity = WalletTransfer, bp_percentage = 1, bp_enabled = True\<rparr>,
      \<lparr>bp_activity = CashOut, bp_percentage = 30, bp_enabled = True\<rparr>,
      \<lparr>bp_activity = ValidatorPenalty, bp_percentage = 100, bp_enabled = True\<rparr>,
      \<lparr>bp_activity = LostRecovery, bp_percentage = 5, bp_enabled = True\<rparr>]"

definition default_thresholds :: "burn_threshold list" where
  "default_thresholds =
     [\<lparr>bt_activity = CashOut, bt_supplyThreshold = 500000000, bt_percentage = 30, bt_order = 1, bt_enabled = True\<rparr>,
      \<lparr>bt_activity = CashOut, bt_supplyThreshold = 200000000, bt_percentage = 20, bt_order = 2, bt_enabled = True\<rparr>,
      \<lparr>bt_activity = CashOut, bt_supplyThreshold = 100000000, bt_percentage = 10, bt_order = 3, bt_enabled = True\<rparr>]"

text \<open>Insert each default that has no document of the same key yet, in order.\<close>

fun insert_missing :: "('d \<Rightarrow> 'k) \<Rightarrow> 'd list \<Rightarrow> 'd list \<Rightarrow> 'd list" where
  "insert_missing key [] ds = ds"
| "insert_missing key (x # xs) ds =
     insert_missing key xs
       (case coll_find (\<lambda>d. key d = key x) ds of None \<Rightarrow> ds @ [x] | Some _ \<Rightarrow> ds)"

definition initializeDefaultBurnPolicies :: "burn_policy list \<Rightarrow> burn_policy list" where
  "initializeDefaultBurnPolicies ps = insert_missing bp_activity default_policies ps"

definition initializeDefaultDynamicThresholds :: "burn_threshold list \<Rightarrow> burn_threshold list" where
  "initializeDefaultDynamicThresholds ts =
     insert_missing (\<lambda>t. (bt_activity t, bt_supplyThreshold t)) default_thresholds ts"

section \<open>The circulating supply\<close>

text \<open>
  The chain answers with base units (\<open>None\<close>: the request or the parse throws). \<open>Number\<close> rounds the
  big integer, the division rescales it; the fallback is one billion.
\<close>

definition getCirculatingSupply :: "nat \<Rightarrow> nat option \<Rightarrow> num" where
  "getCirculatingSupply decimals reply =
     (case reply of None \<Rightarrow> 1000000000
      | Some n \<Rightarrow> js_div (fl (of_nat n)) (fl (10 ^ decimals)))"

definition getCirculatingSupplyAtHeight :: "nat \<Rightarrow> nat option \<Rightarrow> num option" where
  "getCirculatingSupplyAtHeight decimals reply =
     (case reply of None \<Rightarrow> None
      | Some n \<Rightarrow> Some (js_div (fl (of_nat n)) (fl (10 ^ decimals))))"

section \<open>The split\<close>

lemma split_fraction:
  assumes "0 \<le> p" "p \<le> 100" "0 \<le> n" "n \<le> 2 ^ 53"
  shows "0 \<le> js_mul (of_int n) (js_div p 100)" and "js_mul (of_int n) (js_div p 100) \<le> of_int n"
proof -
  have "fl (of_int n) = of_int n" using assms by (intro fl_of_int) simp
  with assms ieee.rnd_fraction_of [of "p / 100" "of_int n"]
  show "0 \<le> js_mul (of_int n) (js_div p 100)" and "js_mul (of_int n) (js_div p 100) \<le> of_int n"
    by (auto simp: js_arith)
qed

lemma burn_amount_int:
  assumes "0 \<le> p" "p \<le> 100" "0 \<le> n" "n \<le> 2 ^ 53"
  obtains b where "js_floor (js_mul (of_int n) (js_div p 100)) = of_int b" "0 \<le> b" "b \<le> n"
proof -
  let ?x = "js_mul (of_int n) (js_div p 100)"
  have "0 \<le> \<lfloor>?x\<rfloor>" using split_fraction [OF assms] by simp
  moreover have "\<lfloor>?x\<rfloor> \<le> n"
    using floor_mono [OF split_fraction(2) [OF assms]] by simp
  ultimately show thesis by (intro that [of "\<lfloor>?x\<rfloor>"]) (auto simp: js_floor_def)
qed

lemma burn_split_int:
  assumes "0 \<le> p" "p \<le> 100" "0 \<le> n" "n \<le> 2 ^ 53"
  obtains b where "calculateBurnSplit (of_int n) p = (of_int b, of_int (n - b), p)" "0 \<le> b" "b \<le> n"
proof -
  obtain b where b: "js_floor (js_mul (of_int n) (js_div p 100)) = of_int b" "0 \<le> b" "b \<le> n"
    using assms by (rule burn_amount_int)
  have "js_sub (of_int n) (of_int b) = of_int (n - b)"
    using b assms by (intro js_sub_int) simp
  with b show thesis by (intro that [of b]) (auto simp: calculateBurnSplit_def Let_def)
qed

text \<open>
  for a whole amount that a double holds and a percentage of the policy range, both parts of
  the burn split are whole, non-negative and add up to the amount exactly, despite the two
  rounded operations.
\<close>

theorem burn_split_conserves:
  assumes "0 \<le> p" "p \<le> 100" "0 \<le> n" "n \<le> 2 ^ 53"
  shows "\<exists>b t. calculateBurnSplit (of_int n) p = (of_int b, of_int t, p) \<and> 0 \<le> b \<and> 0 \<le> t \<and> b + t = n"
proof -
  obtain b where "calculateBurnSplit (of_int n) p = (of_int b, of_int (n - b), p)" "0 \<le> b" "b \<le> n"
    using assms by (rule burn_split_int)
  then show ?thesis by (intro exI [of _ b] exI [of _ "n - b"]) simp
qed

theorem burn_split_conserves_witness:
  "\<exists>b t. calculateBurnSplit (of_int 1000) 30 = (of_int b, of_int t, 30) \<and> 0 \<le> b \<and> 0 \<le> t \<and> b + t = 1000"
  by (rule burn_split_conserves) simp_all

section \<open>The dynamic rate\<close>

lemma first_reached_sorted:
  assumes "sorted (map (\<lambda>t. - bt_supplyThreshold t) ts)"
    and "t \<in> set ts" "bt_supplyThreshold t \<le> supply"
  shows "\<exists>m \<in> set ts. first_reached supply ts = bt_percentage m \<and> bt_supplyThreshold m \<le> supply
           \<and> (\<forall>u \<in> set ts. bt_supplyThreshold u \<le> supply \<longrightarrow> bt_supplyThreshold u \<le> bt_supplyThreshold m)"
  using assms
proof (induction ts)
  case Nil
  then show ?case by simp
next
  case (Cons x xs)
  show ?case
  proof (cases "bt_supplyThreshold x \<le> supply")
    case True
    with Cons.prems show ?thesis by auto
  next
    case False
    with Cons.prems have "t \<in> set xs" by auto
    with Cons.IH Cons.prems False show ?thesis by auto
  qed
qed

lemma first_reached_none: "\<forall>t \<in> set ts. supply < bt_supplyThreshold t \<Longrightarrow> first_reached supply ts = 0"
  by (induction ts) auto

text \<open>The thresholds a supply reaches.\<close>

definition reached :: "burn_activity \<Rightarrow> num \<Rightarrow> burn_threshold list \<Rightarrow> burn_threshold set" where
  "reached act sp ts = {t \<in> set ts. bt_activity t = act \<and> bt_enabled t \<and> bt_supplyThreshold t \<le> sp}"

lemma sorted_desc: "sorted (map key (sort_key key xs))"
  by simp

text \<open>
  the dynamic rate is the percentage of the highest enabled threshold of the activity that the
  supply reaches, and 0 when it reaches none.
\<close>

theorem dynamic_rate_is_highest_reached:
  shows "(reached act sp ts = {} \<longrightarrow> getDynamicBurnRate act sp (Some ts) = 0)
       \<and> (reached act sp ts \<noteq> {} \<longrightarrow> (\<exists>m \<in> reached act sp ts. getDynamicBurnRate act sp (Some ts) = bt_percentage m
             \<and> (\<forall>u \<in> reached act sp ts. bt_supplyThreshold u \<le> bt_supplyThreshold m)))"
proof -
  let ?f = "filter (\<lambda>t. bt_activity t = act \<and> bt_enabled t) ts"
  let ?s = "sort_key (\<lambda>t. - bt_supplyThreshold t) ?f"
  have r: "getDynamicBurnRate act sp (Some ts) = first_reached sp ?s"
    by (simp add: getDynamicBurnRate_def)
  have none: "reached act sp ts = {} \<Longrightarrow> first_reached sp ?s = 0"
    by (rule first_reached_none) (auto simp: reached_def not_le)
  have some: "\<exists>m \<in> reached act sp ts. first_reached sp ?s = bt_percentage m
      \<and> (\<forall>u \<in> reached act sp ts. bt_supplyThreshold u \<le> bt_supplyThreshold m)" if ne: "reached act sp ts \<noteq> {}"
  proof -
    from ne obtain t where "t \<in> set ?s" "bt_supplyThreshold t \<le> sp" by (auto simp: reached_def)
    from first_reached_sorted [OF sorted_desc this] show ?thesis by (auto simp: reached_def)
  qed
  show ?thesis unfolding r using none some by blast
qed

theorem dynamic_rate_is_highest_reached_witness:
  "\<exists>m \<in> reached CashOut 250000000 default_thresholds.
     getDynamicBurnRate CashOut 250000000 (Some default_thresholds) = bt_percentage m
     \<and> (\<forall>u \<in> reached CashOut 250000000 default_thresholds. bt_supplyThreshold u \<le> bt_supplyThreshold m)"
proof -
  have "default_thresholds ! 1 \<in> reached CashOut 250000000 default_thresholds"
    by (simp add: reached_def default_thresholds_def)
  then have "reached CashOut 250000000 default_thresholds \<noteq> {}" by blast
  then show ?thesis using dynamic_rate_is_highest_reached [of CashOut 250000000 default_thresholds] by blast
qed

section \<open>The defaults\<close>

lemma insert_missing_superset: "set ds \<subseteq> set (insert_missing key xs ds)"
  by (induction xs arbitrary: ds) (force split: option.splits)+

lemma insert_missing_keys: "key ` set (insert_missing key xs ds) = key ` set ds \<union> key ` set xs"
proof (induction xs arbitrary: ds)
  case (Cons x xs)
  show ?case
  proof (cases "coll_find (\<lambda>d. key d = key x) ds")
    case None
    then show ?thesis by (auto simp: Cons.IH)
  next
    case (Some d)
    from coll_find_Some [OF this] have "key x \<in> key ` set ds" by (metis imageI)
    then show ?thesis by (auto simp: Cons.IH Some)
  qed
qed simp

lemma insert_missing_find:
  "coll_find (\<lambda>d. key d = k) ds = Some d \<Longrightarrow>
   coll_find (\<lambda>d. key d = k) (insert_missing key xs ds) = Some d"
  by (induction xs arbitrary: ds) (auto simp: coll_find_append split: option.splits)

lemma insert_missing_present:
  "key ` set xs \<subseteq> key ` set ds \<Longrightarrow> insert_missing key xs ds = ds"
proof (induction xs arbitrary: ds)
  case (Cons x xs)
  then obtain d where "d \<in> set ds" "key d = key x" by (metis imageE insert_subset list.simps(15) image_insert)
  then have "coll_find (\<lambda>d. key d = key x) ds \<noteq> None" unfolding coll_find_None by blast
  then obtain y where "coll_find (\<lambda>d. key d = key x) ds = Some y" by blast
  then show ?case using Cons by simp
qed simp

text \<open>
  installing the default policies never changes a policy that exists, leaves every activity
  with a policy, and running it again changes nothing.
\<close>

theorem default_policies_idempotent:
  "initializeDefaultBurnPolicies (initializeDefaultBurnPolicies ps) = initializeDefaultBurnPolicies ps
   \<and> (\<forall>act p. coll_find (\<lambda>d. bp_activity d = act) ps = Some p \<longrightarrow>
        coll_find (\<lambda>d. bp_activity d = act) (initializeDefaultBurnPolicies ps) = Some p)
   \<and> (\<forall>act. coll_find (\<lambda>d. bp_activity d = act) (initializeDefaultBurnPolicies ps) \<noteq> None)"
proof -
  have all: "bp_activity ` set default_policies = UNIV"
  proof -
    have "act \<in> bp_activity ` set default_policies" for act
      by (cases act) (simp_all add: default_policies_def)
    then show ?thesis by blast
  qed
  have keys: "bp_activity ` set (initializeDefaultBurnPolicies ps) = UNIV"
    by (simp add: initializeDefaultBurnPolicies_def insert_missing_keys all)
  then have "coll_find (\<lambda>d. bp_activity d = act) (initializeDefaultBurnPolicies ps) \<noteq> None" for act
    by (auto simp: coll_find_None) (metis UNIV_I imageE)
  moreover have "initializeDefaultBurnPolicies (initializeDefaultBurnPolicies ps)
      = initializeDefaultBurnPolicies ps"
    by (subst initializeDefaultBurnPolicies_def) (rule insert_missing_present, simp add: keys)
  moreover have "\<forall>act p. coll_find (\<lambda>d. bp_activity d = act) ps = Some p \<longrightarrow>
        coll_find (\<lambda>d. bp_activity d = act) (initializeDefaultBurnPolicies ps) = Some p"
    by (simp add: initializeDefaultBurnPolicies_def insert_missing_find)
  ultimately show ?thesis by blast
qed

theorem default_policies_idempotent_witness:
  "initializeDefaultBurnPolicies (initializeDefaultBurnPolicies
      [\<lparr>bp_activity = CashOut, bp_percentage = 7, bp_enabled = False\<rparr>])
    = initializeDefaultBurnPolicies [\<lparr>bp_activity = CashOut, bp_percentage = 7, bp_enabled = False\<rparr>]
   \<and> coll_find (\<lambda>d. bp_activity d = CashOut)
       (initializeDefaultBurnPolicies [\<lparr>bp_activity = CashOut, bp_percentage = 7, bp_enabled = False\<rparr>])
     = Some \<lparr>bp_activity = CashOut, bp_percentage = 7, bp_enabled = False\<rparr>"
  using default_policies_idempotent [of "[\<lparr>bp_activity = CashOut, bp_percentage = 7, bp_enabled = False\<rparr>]"]
  by (simp del: insert_missing.simps)

text \<open>
  with the shipped defaults the effective cash-out rate is not monotone in the supply. Below
  the lowest threshold the dynamic rate is 0, the static 30 percent applies, and the rate is three
  times the rate at the lowest threshold.
\<close>

theorem cash_out_rate_not_monotone:
  "getEffectiveBurnRate CashOut 99999999 (Some default_policies) (Some default_thresholds) = 30
   \<and> getEffectiveBurnRate CashOut 100000000 (Some default_policies) (Some default_thresholds) = 10"
  by (simp add: getEffectiveBurnRate_def getDynamicBurnRate_def getStaticBurnRate_def
      shouldUseDynamic_def default_policies_def default_thresholds_def)

lemma effective_rate_range:
  assumes "\<forall>p \<in> set ps. 0 \<le> bp_percentage p \<and> bp_percentage p \<le> 100"
    and "\<forall>t \<in> set ts. 0 \<le> bt_percentage t \<and> bt_percentage t \<le> 100"
  shows "0 \<le> getEffectiveBurnRate act supply (Some ps) (Some ts)
       \<and> getEffectiveBurnRate act supply (Some ps) (Some ts) \<le> 100"
proof -
  have dyn: "0 \<le> first_reached supply us \<and> first_reached supply us \<le> 100"
    if "set us \<subseteq> set ts" for us
    using that assms(2) by (induction us) auto
  have "0 \<le> getStaticBurnRate act (Some ps) \<and> getStaticBurnRate act (Some ps) \<le> 100"
    using assms(1) by (auto simp: getStaticBurnRate_def dest: coll_find_Some split: option.splits)
  then show ?thesis
    using dyn [of "sort_key (\<lambda>t. - bt_supplyThreshold t) (filter (\<lambda>t. bt_activity t = act \<and> bt_enabled t) ts)"]
    by (auto simp: getEffectiveBurnRate_def getDynamicBurnRate_def Let_def)
qed

end
