(* ===== verification/TreasuryLimits.thy ===== *)
theory TreasuryLimits
  imports Store
begin

text \<open>
  \<open>services/treasuryLimitsService.js\<close>: the caps on fiat payouts per transaction and per UTC day, and
  the running day total. A cap is read with \<open>Number\<close> when the variable is set; \<open>None\<close> is an unset or
  unreadable one. A day is its number since the epoch, which stands for the \<open>YYYY-MM-DD\<close> key.
\<close>

record caps =
  perTx :: "num option"
  perDay :: "num option"

text \<open>\<open>getCaps\<close>: an empty variable gives \<open>null\<close>, a set one its number.\<close>

definition getCaps :: "num option \<Rightarrow> num option \<Rightarrow> caps" where
  "getCaps envPerTx envPerDay = \<lparr>perTx = envPerTx, perDay = envPerDay\<rparr>"

definition truthy_num :: "num option \<Rightarrow> bool" where
  "truthy_num x \<longleftrightarrow> x \<noteq> None \<and> x \<noteq> Some 0"

text \<open>\<open>warnIfUnconfigured\<close>: whether the startup warning is logged.\<close>

definition warnIfUnconfigured :: "bool \<Rightarrow> bool \<Rightarrow> caps \<Rightarrow> bool" where
  "warnIfUnconfigured autoPayoutEnabled production c =
     (autoPayoutEnabled \<and> production \<and> (\<not> truthy_num (perTx c) \<or> \<not> truthy_num (perDay c)))"

definition todayKey :: "int \<Rightarrow> int" where
  "todayKey now = now div 86400000"

definition day_total :: "int \<Rightarrow> (int \<times> num) list \<Rightarrow> num" where
  "day_total day ds = or_else (map_of ds day) 0"

datatype limit_check = LimitOk | LimitExceeded msg

definition checkPayoutLimits :: "caps \<Rightarrow> int \<Rightarrow> (int \<times> num) list \<Rightarrow> num \<Rightarrow> limit_check" where
  "checkPayoutLimits c now ds pesaAmountKes =
     (if truthy_num (perTx c) \<and> the (perTx c) < pesaAmountKes
      then LimitExceeded (OverPerTxLimit pesaAmountKes (the (perTx c)))
      else if truthy_num (perDay c)
      then (let todayTotal = day_total (todayKey now) ds in
            if the (perDay c) < js_add todayTotal pesaAmountKes
            then LimitExceeded (OverDailyLimit pesaAmountKes (the (perDay c)) todayTotal)
            else LimitOk)
      else LimitOk)"

text \<open>\<open>findOneAndUpdate\<close> with \<open>$inc\<close> and \<open>upsert\<close>: the day's document is bumped or created.\<close>

fun inc_day :: "int \<Rightarrow> num \<Rightarrow> (int \<times> num) list \<Rightarrow> (int \<times> num) list" where
  "inc_day day x [] = [(day, x)]"
| "inc_day day x ((d, t) # ds) = (if d = day then (d, js_add t x) # ds else (d, t) # inc_day day x ds)"

definition recordPayout :: "int \<Rightarrow> num \<Rightarrow> (int \<times> num) list \<Rightarrow> (int \<times> num) list" where
  "recordPayout now pesaAmountKes ds = inc_day (todayKey now) pesaAmountKes ds"

lemma day_total_inc:
  "fl x = x \<Longrightarrow> day_total day (inc_day day x ds) = js_add (day_total day ds) x"
  by (induction day x ds rule: inc_day.induct) (auto simp: day_total_def or_else_def js_add_def)

lemma day_total_inc_other: "day' \<noteq> day \<Longrightarrow> day_total day' (inc_day day x ds) = day_total day' ds"
  by (induction day x ds rule: inc_day.induct) (auto simp: day_total_def or_else_def)

text \<open>
  a payout passes the check only when it respects both caps that are in force, and a cap
  rejection names the cap it hit. A cap of 0 is not in force.
\<close>

theorem limit_check_sound:
  "checkPayoutLimits c now ds x = LimitOk \<longleftrightarrow>
     (\<forall>cap. perTx c = Some cap \<and> cap \<noteq> 0 \<longrightarrow> x \<le> cap)
   \<and> (\<forall>cap. perDay c = Some cap \<and> cap \<noteq> 0 \<longrightarrow> js_add (day_total (todayKey now) ds) x \<le> cap)"
  by (auto simp: checkPayoutLimits_def truthy_num_def Let_def not_less)

theorem limit_check_sound_witness:
  "checkPayoutLimits \<lparr>perTx = Some 1000, perDay = Some 5000\<rparr> 0 [(0, 4500)] 400 = LimitOk
   \<and> checkPayoutLimits \<lparr>perTx = Some 0, perDay = None\<rparr> 0 [] 99999999 = LimitOk"
proof -
  have "js_add (day_total (todayKey 0) [(0, 4500)]) 400 \<le> 5000"
    by (simp add: todayKey_def day_total_def or_else_def) code_simp
  then show ?thesis
    unfolding limit_check_sound by auto
qed

section \<open>A day of payouts\<close>

text \<open>
  One payout attempt as \<open>initiateB2CPayout\<close> runs it: the check first, the record only when the
  payout goes out. A day is a list of attempts.
\<close>

definition guarded_payout :: "caps \<Rightarrow> int \<Rightarrow> num \<Rightarrow> (int \<times> num) list \<Rightarrow> (int \<times> num) list" where
  "guarded_payout c now x ds =
     (if checkPayoutLimits c now ds x = LimitOk then recordPayout now x ds else ds)"

fun run_payouts :: "caps \<Rightarrow> (int \<times> num) list \<Rightarrow> (int \<times> num) list \<Rightarrow> (int \<times> num) list" where
  "run_payouts c [] ds = ds"
| "run_payouts c ((now, x) # es) ds = run_payouts c es (guarded_payout c now x ds)"

lemma guarded_payout_cap:
  assumes "perDay c = Some cap" "cap \<noteq> 0" "fl x = x" "\<forall>day. day_total day ds \<le> cap"
  shows "day_total day (guarded_payout c now x ds) \<le> cap"
proof (cases "checkPayoutLimits c now ds x = LimitOk")
  case True
  then have "js_add (day_total (todayKey now) ds) x \<le> cap"
    using assms(1,2) by (auto simp: checkPayoutLimits_def truthy_num_def Let_def not_less split: if_splits)
  then show ?thesis using True assms(3,4)
    by (cases "day = todayKey now")
      (auto simp: guarded_payout_def recordPayout_def day_total_inc day_total_inc_other)
next
  case False
  then show ?thesis using assms(4) by (simp add: guarded_payout_def)
qed

text \<open>
  C37: when attempts run one after another, the recorded total of no day exceeds the daily cap,
  whatever the amounts and the times.
\<close>

theorem daily_cap_invariant:
  assumes "perDay c = Some cap" "0 < cap"
    and "\<forall>(now, x) \<in> set es. fl x = x" and "\<forall>day. day_total day ds \<le> cap"
  shows "day_total day (run_payouts c es ds) \<le> cap"
  using assms(3,4)
proof (induction es arbitrary: ds)
  case Nil
  then show ?case by simp
next
  case (Cons e es)
  obtain now x where e: "e = (now, x)" by (cases e)
  have "\<forall>day. day_total day (guarded_payout c now x ds) \<le> cap"
    using guarded_payout_cap [of c cap x ds _ now] assms(1,2) Cons.prems e by auto
  then show ?case using Cons e by simp
qed

theorem daily_cap_invariant_witness:
  "day_total 0 (run_payouts \<lparr>perTx = None, perDay = Some 1000\<rparr> [(5, 600), (6, 600), (7, 400)] []) \<le> 1000"
proof (rule daily_cap_invariant)
  have "fl 600 = 600" "fl 400 = (400 :: rat)"
    using fl_of_int [of 600] fl_of_int [of 400] by simp_all
  then show "\<forall>(now, x) \<in> set [(5, 600), (6, 600), (7, 400)]. fl x = x" by simp
qed (simp_all add: day_total_def or_else_def)

section \<open>Interleaved payouts\<close>

text \<open>
  The check does not reserve capacity. Two requests in flight: each checks, then records; the step
  relation lets them interleave. A request is waiting, has passed its check, or is done.
\<close>

datatype pay_pc = PayStart num | PayChecked num | PayDone

inductive pay_step :: "caps \<Rightarrow> pay_pc list \<times> (int \<times> num) list \<Rightarrow> pay_pc list \<times> (int \<times> num) list \<Rightarrow> bool"
  for c where
  pay_check: "i < length ps \<Longrightarrow> ps ! i = PayStart x \<Longrightarrow> checkPayoutLimits c 0 ds x = LimitOk \<Longrightarrow>
     pay_step c (ps, ds) (ps[i := PayChecked x], ds)"
| pay_reject: "i < length ps \<Longrightarrow> ps ! i = PayStart x \<Longrightarrow> checkPayoutLimits c 0 ds x \<noteq> LimitOk \<Longrightarrow>
     pay_step c (ps, ds) (ps[i := PayDone], ds)"
| pay_record: "i < length ps \<Longrightarrow> ps ! i = PayChecked x \<Longrightarrow>
     pay_step c (ps, ds) (ps[i := PayDone], recordPayout 0 x ds)"

inductive_cases pay_stepE: "pay_step c s t"

text \<open>
  the daily cap is a safety margin, not an invariant, under concurrency: with a cap of 1000,
  two payouts of 600 that both check before either records leave a day total of 1200.
\<close>

theorem daily_cap_race:
  "\<exists>ps ds. (pay_step \<lparr>perTx = None, perDay = Some 1000\<rparr>)\<^sup>*\<^sup>* ([PayStart 600, PayStart 600], []) (ps, ds)
     \<and> ps = [PayDone, PayDone] \<and> day_total 0 ds = 1200"
proof -
  let ?c = "\<lparr>perTx = None, perDay = Some 1000\<rparr>"
  have ok: "checkPayoutLimits ?c 0 [] 600 = LimitOk"
    by (simp add: checkPayoutLimits_def truthy_num_def day_total_def or_else_def) code_simp
  have "pay_step ?c ([PayStart 600, PayStart 600], []) ([PayChecked 600, PayStart 600], [])"
    using pay_check [of 0 "[PayStart 600, PayStart 600]" 600 ?c "[]"] ok by simp
  moreover have "pay_step ?c ([PayChecked 600, PayStart 600], []) ([PayChecked 600, PayChecked 600], [])"
    using pay_check [of 1 "[PayChecked 600, PayStart 600]" 600 ?c "[]"] ok by simp
  moreover have "pay_step ?c ([PayChecked 600, PayChecked 600], []) ([PayDone, PayChecked 600], [(0, 600)])"
    using pay_record [of 0 "[PayChecked 600, PayChecked 600]" 600 ?c "[]"]
    by (simp add: recordPayout_def todayKey_def)
  moreover have "js_add 600 600 = 1200" by code_simp
  then have "pay_step ?c ([PayDone, PayChecked 600], [(0, 600)]) ([PayDone, PayDone], [(0, 1200)])"
    using pay_record [of 1 "[PayDone, PayChecked 600]" 600 ?c "[(0, 600)]"]
    by (simp add: recordPayout_def todayKey_def)
  ultimately have "(pay_step ?c)\<^sup>*\<^sup>* ([PayStart 600, PayStart 600], []) ([PayDone, PayDone], [(0, 1200)])"
    by (meson converse_rtranclp_into_rtranclp rtranclp.rtrancl_refl)
  then show ?thesis by (auto simp: day_total_def or_else_def)
qed

end
