(* ===== verification/CircuitBreaker.thy ===== *)
theory CircuitBreaker
  imports Store
begin

text \<open>
  \<open>utils/circuitBreaker.js\<close>: the circuit breaker in front of the chain and the payment provider, and
  the bounded retry with exponential backoff. A call through the breaker has two moments, the
  guard before it and the bookkeeping after it; other calls may run in between, so the two are
  separate operations and the invariant is proved for every interleaving of them.
\<close>

section \<open>The breaker\<close>

text \<open>The constructor; an option of 0 or none falls back to the default.\<close>

definition newBreaker :: "nat option \<Rightarrow> nat option \<Rightarrow> int option \<Rightarrow> breaker" where
  "newBreaker failureThreshold successThreshold tmo =
     \<lparr>b_state = Closed, b_failureCount = 0, b_successCount = 0, b_lastFailureTime = None,
      b_nextAttemptTime = None,
      b_failureThreshold = (case failureThreshold of None \<Rightarrow> 5 | Some n \<Rightarrow> if n = 0 then 5 else n),
      b_successThreshold = (case successThreshold of None \<Rightarrow> 2 | Some n \<Rightarrow> if n = 0 then 2 else n),
      b_timeout = (case tmo of None \<Rightarrow> 30000 | Some n \<Rightarrow> if n = 0 then 30000 else n)\<rparr>"

definition createBlockchainBreaker :: breaker where
  "createBlockchainBreaker = newBreaker (Some 5) (Some 2) (Some 30000)"

definition createDatabaseBreaker :: breaker where
  "createDatabaseBreaker = newBreaker (Some 3) (Some 2) (Some 20000)"

definition createExternalApiBreaker :: breaker where
  "createExternalApiBreaker = newBreaker (Some 3) (Some 2) (Some 20000)"

text \<open>The guard of \<open>execute\<close>: \<open>None\<close> is the rejection with status 503, without calling.\<close>

definition breaker_admit :: "int \<Rightarrow> breaker \<Rightarrow> breaker option" where
  "breaker_admit now b =
     (if b_state b = Opened then
        (if now < or_else (b_nextAttemptTime b) 0 then None
         else Some (b\<lparr>b_state := HalfOpen, b_successCount := 0\<rparr>))
      else Some b)"

definition onSuccess :: "breaker \<Rightarrow> breaker" where
  "onSuccess b =
     (let b1 = b\<lparr>b_failureCount := 0\<rparr> in
      if b_state b1 = HalfOpen then
        (let b2 = b1\<lparr>b_successCount := Suc (b_successCount b1)\<rparr> in
         if b_successThreshold b2 \<le> b_successCount b2 then b2\<lparr>b_state := Closed\<rparr> else b2)
      else b1)"

definition onFailure :: "int \<Rightarrow> breaker \<Rightarrow> breaker" where
  "onFailure now b =
     (let b1 = b\<lparr>b_failureCount := Suc (b_failureCount b), b_lastFailureTime := Some now\<rparr> in
      if b_state b1 = HalfOpen then b1\<lparr>b_state := Opened, b_nextAttemptTime := Some (now + b_timeout b1)\<rparr>
      else if b_failureThreshold b1 \<le> b_failureCount b1
      then b1\<lparr>b_state := Opened, b_nextAttemptTime := Some (now + b_timeout b1)\<rparr>
      else b1)"

definition breaker_reset :: "breaker \<Rightarrow> breaker" where
  "breaker_reset b = b\<lparr>b_state := Closed, b_failureCount := 0, b_successCount := 0,
     b_lastFailureTime := None, b_nextAttemptTime := None\<rparr>"

text \<open>\<open>execute\<close> with no other call in between: the outcome of \<open>fn\<close> is \<open>Inl\<close> the error it throws.\<close>

datatype breaker_error = ServiceUnavailable | Thrown string

definition breaker_execute :: "int \<Rightarrow> int \<Rightarrow> string + 'a \<Rightarrow> breaker \<Rightarrow> (breaker_error + 'a) \<times> breaker" where
  "breaker_execute now now' outcome b =
     (case breaker_admit now b of
        None \<Rightarrow> (Inl ServiceUnavailable, b)
      | Some b1 \<Rightarrow>
          (case outcome of
             Inr v \<Rightarrow> (Inr v, onSuccess b1)
           | Inl e \<Rightarrow> (Inl (Thrown e), onFailure now' b1)))"

section \<open>The invariant, for every interleaving\<close>

datatype breaker_event = Admit int | Success | Failure int | Reset

fun breaker_step :: "breaker_event \<Rightarrow> breaker \<Rightarrow> breaker" where
  "breaker_step (Admit now) b = (case breaker_admit now b of None \<Rightarrow> b | Some b' \<Rightarrow> b')"
| "breaker_step Success b = onSuccess b"
| "breaker_step (Failure now) b = onFailure now b"
| "breaker_step Reset b = breaker_reset b"

definition breaker_run :: "breaker_event list \<Rightarrow> breaker \<Rightarrow> breaker" where
  "breaker_run es b = fold breaker_step es b"

definition breaker_inv :: "breaker \<Rightarrow> bool" where
  "breaker_inv b \<longleftrightarrow> 0 < b_failureThreshold b \<and> 0 < b_successThreshold b
     \<and> (b_state b = Closed \<longrightarrow> b_failureCount b < b_failureThreshold b)
     \<and> (b_state b = HalfOpen \<longrightarrow> b_successCount b < b_successThreshold b)
     \<and> (b_state b = Opened \<longrightarrow> b_nextAttemptTime b \<noteq> None \<and> b_lastFailureTime b \<noteq> None)"

lemmas breaker_defs = breaker_admit_def onSuccess_def onFailure_def breaker_reset_def Let_def

lemma newBreaker_inv: "breaker_inv (newBreaker f s t)"
  by (auto simp: breaker_inv_def newBreaker_def split: option.splits)

lemma breaker_step_inv: "breaker_inv b \<Longrightarrow> breaker_inv (breaker_step e b)"
  by (cases e) (auto simp: breaker_inv_def breaker_defs split: option.splits)

lemma breaker_step_config:
  "b_failureThreshold (breaker_step e b) = b_failureThreshold b"
  "b_successThreshold (breaker_step e b) = b_successThreshold b"
  "b_timeout (breaker_step e b) = b_timeout b"
  by (cases e; auto simp: breaker_defs split: option.splits)+

lemma breaker_run_config:
  "b_failureThreshold (breaker_run es b) = b_failureThreshold b"
  "b_successThreshold (breaker_run es b) = b_successThreshold b"
  "b_timeout (breaker_run es b) = b_timeout b"
  by (induction es arbitrary: b) (simp_all add: breaker_run_def breaker_step_config)

text \<open>
  from a fresh breaker, after any interleaving of guards, successes, failures and resets: a
  closed breaker has fewer consecutive failures than its threshold, a half-open one has not yet
  seen enough successes, and an open one knows when it may be tried again.
\<close>

theorem breaker_invariant: "breaker_inv (breaker_run es (newBreaker f s t))"
proof -
  have "breaker_inv b \<Longrightarrow> breaker_inv (fold breaker_step es b)" for b
    by (induction es arbitrary: b) (auto intro: breaker_step_inv)
  then show ?thesis by (simp add: breaker_run_def newBreaker_inv)
qed

section \<open>Opening and recovering\<close>

lemma failures_closed:
  assumes "b_state b = Closed" "n < b_failureThreshold b - b_failureCount b"
  shows "let b' = breaker_run (replicate n (Failure t)) b in
    b_state b' = Closed \<and> b_failureCount b' = b_failureCount b + n"
  using assms
proof (induction n)
  case 0
  then show ?case by (simp add: breaker_run_def)
next
  case (Suc n)
  let ?b = "breaker_run (replicate n (Failure t)) b"
  have th: "b_failureThreshold ?b = b_failureThreshold b" by (rule breaker_run_config)
  have "breaker_run (replicate (Suc n) (Failure t)) b = breaker_step (Failure t) ?b"
    by (simp add: breaker_run_def replicate_append_same [symmetric] del: replicate.simps)
  with Suc th show ?case by (simp add: onFailure_def Let_def)
qed

text \<open>
  the breaker opens on exactly the threshold-th consecutive failure. One failure fewer leaves
  it closed; the threshold-th opens it, and until the timeout has passed every call is rejected
  without being made and without changing the breaker.
\<close>

theorem breaker_opens_at_threshold:
  assumes fresh: "b = newBreaker f s tmo" and n: "n = b_failureThreshold b"
  shows "b_state (breaker_run (replicate (n - 1) (Failure t)) b) = Closed
    \<and> b_state (breaker_run (replicate n (Failure t)) b) = Opened
    \<and> (now < t + b_timeout b \<longrightarrow>
      breaker_execute now now' oc (breaker_run (replicate n (Failure t)) b)
        = (Inl ServiceUnavailable, breaker_run (replicate n (Failure t)) b))"
proof -
  have b: "b_state b = Closed" "b_failureCount b = 0" "0 < n"
    using newBreaker_inv [of f s tmo] by (auto simp: fresh n breaker_inv_def) (auto simp: newBreaker_def)
  let ?b = "breaker_run (replicate (n - 1) (Failure t)) b"
  have c: "b_state ?b = Closed" "b_failureCount ?b = n - 1"
    using failures_closed [of b "n - 1" t] b n by (auto simp: Let_def)
  note cfg = breaker_run_config
  have "replicate n (Failure t) = replicate (n - 1) (Failure t) @ [Failure t]"
    using b(3) by (cases n) (auto simp: replicate_append_same)
  then have r: "breaker_run (replicate n (Failure t)) b = onFailure t ?b"
    by (simp add: breaker_run_def)
  then have o: "b_state (breaker_run (replicate n (Failure t)) b) = Opened"
    using c cfg n b(3) by (simp add: onFailure_def Let_def)
  have "b_nextAttemptTime (onFailure t ?b) = Some (t + b_timeout b)"
    using c cfg n b(3) by (simp add: onFailure_def Let_def)
  with o r have "now < t + b_timeout b \<Longrightarrow>
      breaker_execute now now' oc (breaker_run (replicate n (Failure t)) b)
        = (Inl ServiceUnavailable, breaker_run (replicate n (Failure t)) b)"
    by (simp add: breaker_execute_def breaker_admit_def or_else_def)
  with c o show ?thesis by blast
qed

theorem breaker_opens_at_threshold_witness:
  "b_state (breaker_run (replicate 4 (Failure 0)) createBlockchainBreaker) = Closed
   \<and> b_state (breaker_run (replicate 5 (Failure 0)) createBlockchainBreaker) = Opened
   \<and> breaker_execute 29999 30000 (Inr ()) (breaker_run (replicate 5 (Failure 0)) createBlockchainBreaker)
     = (Inl ServiceUnavailable, breaker_run (replicate 5 (Failure 0)) createBlockchainBreaker)"
proof -
  have n: "5 = b_failureThreshold createBlockchainBreaker"
    by (simp add: createBlockchainBreaker_def newBreaker_def)
  have "29999 < 0 + b_timeout createBlockchainBreaker"
    by (simp add: createBlockchainBreaker_def newBreaker_def)
  with breaker_opens_at_threshold [OF createBlockchainBreaker_def n, where t = 0 and now = 29999
      and now' = 30000 and oc = "Inr ()"]
  show ?thesis by simp
qed



section \<open>Exponential backoff\<close>

record backoff =
  bo_initialDelay :: num
  bo_maxDelay :: num
  bo_multiplier :: num
  bo_maxRetries :: nat
  bo_jitter :: bool

definition newBackoff :: "num option \<Rightarrow> num option \<Rightarrow> num option \<Rightarrow> nat option \<Rightarrow> bool \<Rightarrow> backoff" where
  "newBackoff ini mx mult retries jitter =
     \<lparr>bo_initialDelay = (case ini of None \<Rightarrow> 1000 | Some x \<Rightarrow> if x = 0 then 1000 else x),
      bo_maxDelay = (case mx of None \<Rightarrow> 30000 | Some x \<Rightarrow> if x = 0 then 30000 else x),
      bo_multiplier = (case mult of None \<Rightarrow> 2 | Some x \<Rightarrow> if x = 0 then 2 else x),
      bo_maxRetries = (case retries of None \<Rightarrow> 5 | Some n \<Rightarrow> if n = 0 then 5 else n),
      bo_jitter = jitter\<rparr>"

definition createPaymentBackoff :: backoff where
  "createPaymentBackoff = newBackoff (Some 400) (Some 2000) None (Some 3) True"

definition createBlockchainBackoff :: backoff where
  "createBlockchainBackoff = newBackoff (Some 3000) (Some 60000) None (Some 10) True"

text \<open>
  \<open>rand\<close> is the value of \<open>Math.random()\<close>, from 0 up to but not including 1. The literals 0.9 and 0.2
  are doubles.
\<close>

definition calculateDelay :: "backoff \<Rightarrow> num \<Rightarrow> nat \<Rightarrow> num" where
  "calculateDelay bo rand attemptNumber =
     (let delay = min (js_mul (bo_initialDelay bo) (fl (bo_multiplier bo ^ attemptNumber))) (bo_maxDelay bo);
          delay' = (if bo_jitter bo
                    then js_mul delay (js_add (fl (9 / 10)) (js_mul rand (fl (1 / 5))))
                    else delay)
      in js_round delay')"

text \<open>One call of \<open>fn\<close>: a value, or an error with its message and whether it may be retried.\<close>

datatype 'a attempt_result = AOk 'a | AErr string bool

text \<open>
  The retry loop from attempt \<open>k\<close>, with \<open>left\<close> attempts to go. The result carries the number of calls
  made; \<open>Inl None\<close> is the throw of an undefined error, when no attempt is allowed at all.
\<close>

fun backoff_loop :: "nat \<Rightarrow> nat \<Rightarrow> (nat \<Rightarrow> 'a attempt_result) \<Rightarrow> string option \<Rightarrow> (string option + 'a) \<times> nat" where
  "backoff_loop 0 k fn lastError = (Inl lastError, k)"
| "backoff_loop (Suc left) k fn lastError =
     (case fn k of
        AOk v \<Rightarrow> (Inr v, Suc k)
      | AErr e retryable \<Rightarrow>
          if \<not> retryable then (Inl (Some e), Suc k) else backoff_loop left (Suc k) fn (Some e))"

definition backoff_execute :: "backoff \<Rightarrow> (nat \<Rightarrow> 'a attempt_result) \<Rightarrow> (string option + 'a) \<times> nat" where
  "backoff_execute bo fn = backoff_loop (bo_maxRetries bo) 0 fn None"

lemma backoff_loop_calls: "snd (backoff_loop left k fn e) \<le> k + left"
  by (induction left k fn e rule: backoff_loop.induct)
    (auto split: attempt_result.splits)

lemma backoff_loop_skip:
  assumes "\<forall>i < n. \<exists>e. fn (k + i) = AErr e True" "n < left"
  shows "\<exists>e'. backoff_loop left k fn e = backoff_loop (left - n) (k + n) fn e'"
  using assms
proof (induction n)
  case 0
  then show ?case by auto
next
  case (Suc n)
  then obtain e' where 1: "backoff_loop left k fn e = backoff_loop (left - n) (k + n) fn e'" by auto
  obtain e'' where 2: "fn (k + n) = AErr e'' True" using Suc.prems by auto
  have "left - n = Suc (left - Suc n)" using Suc.prems by simp
  with 1 2 show ?case by auto
qed

text \<open>
  the retry loop makes at most its allowed number of calls; it returns the first success that
  only retryable errors precede, and stops at the first error that is not retryable.
\<close>

theorem backoff_bounded_and_first:
  "snd (backoff_execute bo fn) \<le> bo_maxRetries bo
   \<and> (\<forall>n < bo_maxRetries bo. (\<forall>i < n. \<exists>e. fn i = AErr e True) \<longrightarrow>
        (\<forall>v. fn n = AOk v \<longrightarrow> backoff_execute bo fn = (Inr v, Suc n))
      \<and> (\<forall>e. fn n = AErr e False \<longrightarrow> backoff_execute bo fn = (Inl (Some e), Suc n)))"
proof -
  have once: "backoff_execute bo fn = (case fn n of AOk v \<Rightarrow> (Inr v, Suc n)
      | AErr e r \<Rightarrow> if \<not> r then (Inl (Some e), Suc n) else backoff_execute bo fn)"
    if "n < bo_maxRetries bo" "\<forall>i < n. \<exists>e. fn i = AErr e True" for n
  proof -
    from that obtain e' where "backoff_execute bo fn = backoff_loop (bo_maxRetries bo - n) n fn e'"
      using backoff_loop_skip [of n fn 0 "bo_maxRetries bo" None] by (auto simp: backoff_execute_def)
    moreover have "bo_maxRetries bo - n = Suc (bo_maxRetries bo - Suc n)" using that by simp
    ultimately show ?thesis by (auto split: attempt_result.splits)
  qed
  have calls: "snd (backoff_execute bo fn) \<le> bo_maxRetries bo"
    using backoff_loop_calls [of "bo_maxRetries bo" 0 fn None] by (simp add: backoff_execute_def)
  show ?thesis
  proof (intro conjI allI impI calls)
    fix n v assume "n < bo_maxRetries bo" "\<forall>i < n. \<exists>e. fn i = AErr e True" "fn n = AOk v"
    with once [of n] show "backoff_execute bo fn = (Inr v, Suc n)" by simp
  next
    fix n e assume "n < bo_maxRetries bo" "\<forall>i < n. \<exists>e. fn i = AErr e True" "fn n = AErr e False"
    with once [of n] show "backoff_execute bo fn = (Inl (Some e), Suc n)" by simp
  qed
qed

theorem backoff_bounded_and_first_witness:
  "backoff_execute createPaymentBackoff (\<lambda>i. if i = 1 then AOk 7 else AErr ''timeout'' True) = (Inr (7 :: nat), 2)"
proof -
  let ?fn = "\<lambda>i. if i = 1 then AOk (7 :: nat) else AErr ''timeout'' True"
  have "(1 :: nat) < bo_maxRetries createPaymentBackoff"
    by (simp add: createPaymentBackoff_def newBackoff_def)
  moreover have "\<forall>i < (1 :: nat). \<exists>e. ?fn i = AErr e True" by simp
  ultimately show ?thesis
    using backoff_bounded_and_first [of createPaymentBackoff ?fn] by (auto simp: numeral_2_eq_2)
qed

text \<open>
  for every attempt and every random value, the payment backoff waits between 360 and 2200
  milliseconds: the exponential growth is capped and the jitter stays within ten percent, with
  the doubles' rounding included.
\<close>

theorem payment_delay_bounds:
  assumes "0 \<le> rand" "rand < 1"
  shows "360 \<le> calculateDelay createPaymentBackoff rand n \<and> calculateDelay createPaymentBackoff rand n \<le> 2200"
proof -
  let ?d = "min (js_mul 400 (fl (2 ^ n))) 2000"
  let ?j = "js_add (fl (9 / 10)) (js_mul rand (fl (1 / 5)))"
  have p: "1 \<le> fl (2 ^ n)" using fl_mono [of 1 "2 ^ n"] ieee.rnd_one by simp
  then have "400 \<le> js_mul 400 (fl (2 ^ n))"
    using fl_mono [of 400 "400 * fl (2 ^ n)"] fl_of_int [of 400] by (simp add: js_mul_def)
  then have d: "400 \<le> ?d" "?d \<le> 2000" by auto
  have r: "0 \<le> js_mul rand (fl (1 / 5))" "js_mul rand (fl (1 / 5)) \<le> fl (1 / 5)"
  proof -
    have f: "0 \<le> fl (1 / 5)" by (rule ieee.rnd_nonneg) simp
    then show "0 \<le> js_mul rand (fl (1 / 5))" using assms by (simp add: js_mul_def ieee.rnd_nonneg)
    have "rand * fl (1 / 5) \<le> fl (1 / 5)" using assms f by (simp add: mult_left_le_one_le)
    then show "js_mul rand (fl (1 / 5)) \<le> fl (1 / 5)" unfolding js_mul_def by (intro ieee.rnd_le_double) simp_all
  qed
  have j: "fl (9 / 10) \<le> ?j" "?j \<le> js_add (fl (9 / 10)) (fl (1 / 5))"
    unfolding js_add_def using r by (simp_all add: ieee.rnd_ge_double fl_mono)
  have "0 \<le> fl (9 / 10)" by (rule ieee.rnd_nonneg) simp
  with d j have lo: "400 * fl (9 / 10) \<le> ?d * ?j" and hi: "?d * ?j \<le> 2000 * js_add (fl (9 / 10)) (fl (1 / 5))"
    by (intro mult_mono; simp)+
  have "js_round (js_mul 400 (fl (9 / 10))) = 360" and "js_round (js_mul 2000 (js_add (fl (9 / 10)) (fl (1 / 5)))) = 2200"
    by code_simp+
  with lo hi have "360 \<le> js_round (js_mul ?d ?j) \<and> js_round (js_mul ?d ?j) \<le> 2200"
    unfolding js_mul_def by (metis fl_mono js_round_mono)
  then show ?thesis
    by (simp add: calculateDelay_def createPaymentBackoff_def newBackoff_def Let_def)
qed

theorem payment_delay_bounds_witness:
  "360 \<le> calculateDelay createPaymentBackoff (1 / 2) 1 \<and> calculateDelay createPaymentBackoff (1 / 2) 1 \<le> 2200"
  by (rule payment_delay_bounds) simp_all

end
