(* ===== verification/MallcoinService.thy ===== *)
theory MallcoinService
  imports Store
begin

text \<open>
  \<open>services/mallcoinService.js\<close>: unit conversion, the conversion ratio and the chain parameters, the
  wallet balance and the market price. A cache hit is an argument; a chain reply of \<open>None\<close> is a
  request that throws, be it in transport or because the module's circuit breaker rejects it.
\<close>

section \<open>Units\<close>

definition mc_fromBaseUnits :: "nat \<Rightarrow> num \<Rightarrow> num" where
  "mc_fromBaseUnits decimals units = js_div units (fl (10 ^ decimals))"

definition mc_toBaseUnits :: "nat \<Rightarrow> num \<Rightarrow> num" where
  "mc_toBaseUnits decimals amount = js_floor (js_mul amount (fl (10 ^ decimals)))"

definition DEFAULT_MLPTS_PER_MLCNS_FIXED :: num where "DEFAULT_MLPTS_PER_MLCNS_FIXED = 3200000"
definition MLPTS_PER_MLCNS_SCALE :: num where "MLPTS_PER_MLCNS_SCALE = 1000000"
definition DEFAULT_MIN_STAKE_AMOUNT :: num where "DEFAULT_MIN_STAKE_AMOUNT = 18250"

text \<open>An argument of \<open>None\<close> is one that \<open>Number\<close> does not read as a finite number.\<close>

definition mlptsPerMlcnsToNumber :: "num option \<Rightarrow> num" where
  "mlptsPerMlcnsToNumber fixed =
     (case fixed of
        None \<Rightarrow> js_div DEFAULT_MLPTS_PER_MLCNS_FIXED MLPTS_PER_MLCNS_SCALE
      | Some f \<Rightarrow> if f \<le> 0 then js_div DEFAULT_MLPTS_PER_MLCNS_FIXED MLPTS_PER_MLCNS_SCALE
                  else js_div f MLPTS_PER_MLCNS_SCALE)"

section \<open>Chain parameters\<close>

record chain_params =
  cp_fromChain :: bool
  cp_burnWallet :: string
  cp_minStake :: num
  cp_mlptsPerMlcns :: num

text \<open>The reply: burn wallet, minimum stake, ratio; a missing number reads as 0.\<close>

definition getChainParams ::
  "chain_params option \<Rightarrow> (string option \<times> num option \<times> num option) option \<Rightarrow> chain_params" where
  "getChainParams cached reply =
     (case cached of Some c \<Rightarrow> c
      | None \<Rightarrow>
          (case reply of
             Some (bw, ms, mp) \<Rightarrow>
               (let minStake = or_else ms 0; mlptsFixed = or_else mp 0 in
                \<lparr>cp_fromChain = True, cp_burnWallet = or_else bw [],
                 cp_minStake = (if 0 < minStake then minStake else DEFAULT_MIN_STAKE_AMOUNT),
                 cp_mlptsPerMlcns = (if 0 < mlptsFixed then mlptsFixed else DEFAULT_MLPTS_PER_MLCNS_FIXED)\<rparr>)
           | None \<Rightarrow> \<lparr>cp_fromChain = False, cp_burnWallet = [], cp_minStake = DEFAULT_MIN_STAKE_AMOUNT,
                      cp_mlptsPerMlcns = DEFAULT_MLPTS_PER_MLCNS_FIXED\<rparr>))"

section \<open>Wallet balance\<close>

text \<open>Big integers are exact; the display values are not kept.\<close>

record wallet_balance =
  wb_balance :: int
  wb_locked :: int
  wb_available :: int
  wb_unlockTime :: "int option"
  wb_exists :: bool

datatype balance_reply = BalanceReply int int int | BalanceNotFound | BalanceError string

definition getWalletBalance :: "wallet_balance option \<Rightarrow> balance_reply \<Rightarrow> string + wallet_balance" where
  "getWalletBalance cached reply =
     (case cached of Some c \<Rightarrow> Inr c
      | None \<Rightarrow>
          (case reply of
             BalanceReply balance locked unlockSec \<Rightarrow>
               Inr \<lparr>wb_balance = balance, wb_locked = locked,
                    wb_available = (if locked < balance then balance - locked else 0),
                    wb_unlockTime = (if 0 < unlockSec then Some (unlockSec * 1000) else None),
                    wb_exists = True\<rparr>
           | BalanceNotFound \<Rightarrow>
               Inr \<lparr>wb_balance = 0, wb_locked = 0, wb_available = 0, wb_unlockTime = None, wb_exists = False\<rparr>
           | BalanceError e \<Rightarrow> Inl e))"

section \<open>Market price\<close>

record market_price =
  mp_buyPriceKes :: num
  mp_sellPriceKes :: num
  mp_midPriceKes :: num
  mp_fallback :: bool

definition num_or :: "num \<Rightarrow> num \<Rightarrow> num" where
  "num_or a b = (if a = 0 then b else a)"

definition DEFAULT_BUY_PRICE_KES :: num where "DEFAULT_BUY_PRICE_KES = fl (62 / 100)"
definition DEFAULT_SELL_PRICE_KES :: num where "DEFAULT_SELL_PRICE_KES = fl (58 / 100)"

definition getMarketPrice :: "market_price option \<Rightarrow> (num \<times> num) option \<Rightarrow> market_price" where
  "getMarketPrice cached reply =
     (case cached of Some c \<Rightarrow> c
      | None \<Rightarrow>
          (case reply of
             Some (buy_price, sell_price) \<Rightarrow>
               (let buy = js_div buy_price 100; sell = js_div sell_price 100;
                    mid = (if buy \<noteq> 0 \<and> sell \<noteq> 0 then js_div (js_add buy sell) 2
                           else num_or (num_or buy sell) DEFAULT_BUY_PRICE_KES)
                in \<lparr>mp_buyPriceKes = num_or buy DEFAULT_BUY_PRICE_KES,
                    mp_sellPriceKes = num_or sell DEFAULT_SELL_PRICE_KES,
                    mp_midPriceKes = mid, mp_fallback = False\<rparr>)
           | None \<Rightarrow>
               \<lparr>mp_buyPriceKes = DEFAULT_BUY_PRICE_KES, mp_sellPriceKes = DEFAULT_SELL_PRICE_KES,
                mp_midPriceKes = js_div (js_add DEFAULT_BUY_PRICE_KES DEFAULT_SELL_PRICE_KES) 2,
                mp_fallback = True\<rparr>))"

section \<open>What the callers rely on\<close>

lemma default_prices_pos: "0 < DEFAULT_BUY_PRICE_KES" "0 < DEFAULT_SELL_PRICE_KES"
  by (simp_all add: DEFAULT_BUY_PRICE_KES_def DEFAULT_SELL_PRICE_KES_def fl_pos)

text \<open>A price is never 0, so \<open>sellPriceKes || DEFAULT\<close> downstream never takes its default.\<close>

lemma market_price_nonzero:
  "cached = None \<Longrightarrow> mp_sellPriceKes (getMarketPrice cached reply) \<noteq> 0
     \<and> mp_buyPriceKes (getMarketPrice cached reply) \<noteq> 0"
  using default_prices_pos
  by (auto simp: getMarketPrice_def num_or_def Let_def split: option.splits)

lemma available_nonneg:
  "0 \<le> b \<Longrightarrow> 0 \<le> l \<Longrightarrow> getWalletBalance None (BalanceReply b l u) = Inr w \<Longrightarrow>
   0 \<le> wb_available w \<and> wb_available w \<le> wb_balance w"
  by (auto simp: getWalletBalance_def)

end
