(* ===== verification/B2CPayout.thy ===== *)
theory B2CPayout
  imports CircuitBreaker TreasuryLimits MallcoinService
begin

text \<open>
  \<open>services/b2cPayoutService.js\<close>: starting a fiat payout with the payment provider and applying the
  provider's callback. What the outside answers is an environment: the configuration, the price,
  the token reply and the reply to each payment request. Every payment request is journalled in
  the outbox, retries included.
\<close>

record safaricom =
  sf_key :: string
  sf_secret :: string
  sf_credential :: string
  sf_shortCode :: string
  sf_passkey :: string
  sf_autoPayout :: bool

text \<open>How a request fails: with a response of some status, or with none.\<close>

datatype http_fail = HttpStatus nat string | NoResponse string

record payout_env =
  pe_now :: int
  pe_cfg :: safaricom
  pe_caps :: caps
  pe_priceCached :: "market_price option"
  pe_priceReply :: "(num \<times> num) option"
  pe_defaultSell :: num
  pe_token :: "string + string option"
  pe_post :: "nat \<Rightarrow> http_fail + string option"

definition sf_live :: "safaricom \<Rightarrow> bool" where
  "sf_live c = (sf_key c \<noteq> [] \<and> sf_secret c \<noteq> [])"

definition payout_configured :: "safaricom \<Rightarrow> bool" where
  "payout_configured c = (sf_live c \<and> sf_credential c \<noteq> [] \<and> sf_shortCode c \<noteq> [])"

text \<open>
  \<open>getSafaricomToken\<close>: the request goes through the breaker; a reply with no token throws after the
  breaker has counted a success, and every failure is answered with no token.
\<close>

definition getSafaricomToken :: "payout_env \<Rightarrow> breaker \<Rightarrow> string option \<times> breaker" where
  "getSafaricomToken en b =
     (if \<not> sf_live (pe_cfg en) then (None, b)
      else case breaker_execute (pe_now en) (pe_now en) (pe_token en) b of
             (Inr (Some t), b') \<Rightarrow> (if t = [] then None else Some t, b')
           | (_, b') \<Rightarrow> (None, b'))"

text \<open>One payment request: a status below 500 is marked as not retryable.\<close>

fun classify_post :: "http_fail + string option \<Rightarrow> string option attempt_result" where
  "classify_post (Inr r) = AOk r"
| "classify_post (Inl (HttpStatus st e)) = AErr e (500 \<le> st)"
| "classify_post (Inl (NoResponse e)) = AErr e True"

datatype b2c_result = B2COk string num | B2CErr msg bool

definition emit_n :: "nat \<Rightarrow> effect \<Rightarrow> world \<Rightarrow> world" where
  "emit_n n e W = W\<lparr>outbox := outbox W @ replicate n e\<rparr>"

text \<open>The \<open>try\<close> block: token, payment request with retries, record.\<close>

definition send_payment :: "payout_env \<Rightarrow> string \<Rightarrow> num \<Rightarrow> world \<Rightarrow> b2c_result \<times> world" where
  "send_payment en sellerPhone kes W =
     (case getSafaricomToken en (b2cBreaker W) of
        (None, b) \<Rightarrow> (B2CErr TokenUnavailable False, W\<lparr>b2cBreaker := b\<rparr>)
      | (Some token, b) \<Rightarrow>
          (case backoff_execute createPaymentBackoff (\<lambda>k. classify_post (pe_post en k)) of
             (Inr ref, calls) \<Rightarrow>
               (let payoutRef = the (str_or ref (Some (''B2C'' @ show_int (pe_now en))));
                    W1 = emit_n calls (EB2C kes sellerPhone) (W\<lparr>b2cBreaker := b\<rparr>)
                in (B2COk payoutRef kes,
                    W1\<lparr>dailyPayout := recordPayout (pe_now en) kes (dailyPayout W1)\<rparr>))
           | (Inl e, calls) \<Rightarrow>
               (B2CErr (msg_or (map_option Ext e) PayoutInitiationFailed) False,
                emit_n calls (EB2C kes sellerPhone) (W\<lparr>b2cBreaker := b\<rparr>))))"

definition pesa_amount :: "payout_env \<Rightarrow> num \<Rightarrow> num" where
  "pesa_amount en mlcnsAmount =
     (let sellPriceKes = mp_sellPriceKes (getMarketPrice (pe_priceCached en) (pe_priceReply en));
          effectiveSellPriceKes = num_or sellPriceKes (pe_defaultSell en)
      in js_round (js_mul (js_mul mlcnsAmount effectiveSellPriceKes) 100))"

definition initiateB2CPayout :: "payout_env \<Rightarrow> string \<Rightarrow> num \<Rightarrow> string \<Rightarrow> world \<Rightarrow> b2c_result \<times> world" where
  "initiateB2CPayout en sellerPhone mlcnsAmount saleId W =
     (let pesaAmount = pesa_amount en mlcnsAmount; kes = js_div pesaAmount 100
      in if pesaAmount \<le> 0 then (B2CErr InvalidPesaAmount False, W)
         else if \<not> payout_configured (pe_cfg en) then (B2CErr PayoutNotConfigured False, W)
         else case checkPayoutLimits (pe_caps en) (pe_now en) (dailyPayout W) kes of
           LimitExceeded reason \<Rightarrow> (B2CErr reason True, W)
         | LimitOk \<Rightarrow> send_payment en sellerPhone kes W)"

section \<open>The callback\<close>

text \<open>
  The fields of \<open>callbackData.Result\<close>; \<open>cb_ref\<close> is \<open>ConversationID\<close> or its other spelling. A missing
  result code reads as 0, a missing description as the empty string.
\<close>

record payout_callback =
  cb_ref :: "string option"
  cb_code :: "int option"
  cb_desc :: "string option"

definition result_code :: "payout_callback \<Rightarrow> int" where
  "result_code cb = or_else (cb_code cb) 0"

definition terminal_payout :: "payout_status \<Rightarrow> bool" where
  "terminal_payout st \<longleftrightarrow> st = PSucceeded \<or> st = PFailed"

definition callback_payout :: "int \<Rightarrow> payout_callback \<Rightarrow> payout \<Rightarrow> payout" where
  "callback_payout now cb p =
     (if result_code cb = 0 then p\<lparr>p_status := PSucceeded, p_attemptedAt := Some now\<rparr>
      else p\<lparr>p_status := PFailed, p_payoutError := Some (or_else (cb_desc cb) []), p_attemptedAt := Some now\<rparr>)"

definition callback_sale :: "payout_callback \<Rightarrow> sale \<Rightarrow> sale" where
  "callback_sale cb s =
     (if result_code cb = 0 then s\<lparr>s_status := SCompleted\<rparr>
      else s\<lparr>s_status := SFailed,
             s_reason := Some (msg_or (map_option Ext (cb_desc cb)) CashoutPayoutFailed)\<rparr>)"

definition callback_withdrawal :: "string \<Rightarrow> payout_callback \<Rightarrow> withdrawal \<Rightarrow> withdrawal" where
  "callback_withdrawal ref cb w =
     (if result_code cb = 0
      then w\<lparr>w_status := WCompleted, w_payoutRef := Some ref, w_notes := Some PayoutCompletedNote\<rparr>
      else w\<lparr>w_status := WFailed, w_payoutRef := Some ref,
             w_notes := Some (msg_or (map_option Ext (cb_desc cb)) PayoutFailedNote)\<rparr>)"

definition payout_withdrawal_match :: "string \<Rightarrow> payout \<Rightarrow> withdrawal \<Rightarrow> bool" where
  "payout_withdrawal_match ref p w =
     (w_payoutRef w = Some ref \<or> w_saleId w = Some (p_saleId p) \<or> w_withdrawalId w = p_saleId p)"

definition apply_callback :: "int \<Rightarrow> string \<Rightarrow> payout_callback \<Rightarrow> payout \<Rightarrow> world \<Rightarrow> world" where
  "apply_callback now ref cb p W =
     (let ok = (result_code cb = 0);
          p' = callback_payout now cb p;
          W1 = save_payout p' W;
          W2 = (if p_saleId p' = [] then W1
                else case find_sale (p_saleId p') W1 of
                       None \<Rightarrow> W1 | Some s \<Rightarrow> save_sale (callback_sale cb s) W1);
          st = (if ok then Payout_completed else Payout_failed);
          desc = Some (Ext (or_else (cb_desc cb) []));
          ov = over\<lparr>o_status := Some (if ok then ActSuccess else ActFailed), o_payoutRef := Some ref\<rparr>
      in case coll_find (payout_withdrawal_match ref p') (withdrawals W2) of
           Some w \<Rightarrow>
             (let w' = callback_withdrawal ref cb w; W3 = save_withdrawal w' W2
              in recordWithdrawLiquidityActivity now st (of_withdrawal w')
                   (ov\<lparr>o_reason := (if ok then None else w_notes w')\<rparr>) W3)
         | None \<Rightarrow> recordWithdrawLiquidityActivity now st (of_payout p')
                   (ov\<lparr>o_reason := (if ok then None else desc)\<rparr>) W2)"

text \<open>The result is the \<open>ResultCode\<close> answered to the provider.\<close>

definition handlePayoutCallback :: "int \<Rightarrow> payout_callback \<Rightarrow> world \<Rightarrow> nat \<times> world" where
  "handlePayoutCallback now cb W =
     (if \<not> truthy_str (cb_ref cb) then (1, W)
      else let ref = the (cb_ref cb) in
        case coll_find (\<lambda>p. p_payoutRef p = Some ref) (payouts W) of
          None \<Rightarrow> (0, W)
        | Some p \<Rightarrow>
            if terminal_payout (p_status p) then (0, W)
            else (0, apply_callback now ref cb p W))"

section \<open>Starting a payout\<close>

lemma emit_n_frame [frame_simps]:
  "outbox (emit_n n e W) = outbox W @ replicate n e" "sales (emit_n n e W) = sales W"
  "withdrawals (emit_n n e W) = withdrawals W" "payouts (emit_n n e W) = payouts W"
  "ledger (emit_n n e W) = ledger W" "dailyPayout (emit_n n e W) = dailyPayout W"
  by (simp_all add: emit_n_def)

lemma payment_calls: "snd (backoff_execute createPaymentBackoff fn) \<le> 3"
  using backoff_loop_calls [of 3 0 fn None]
  by (simp add: backoff_execute_def createPaymentBackoff_def newBackoff_def)

lemma backoff_loop_calls_pos: "0 < left \<Longrightarrow> k < snd (backoff_loop left k fn e)"
proof (induction left k fn e rule: backoff_loop.induct)
  case (2 left k fn e)
  then have "Suc k < snd (backoff_loop left (Suc k) fn (Some x))" if "fn k = AErr x True" "0 < left" for x
    using that by (cases "fn k") auto
  then show ?case by (cases "left = 0") (auto split: attempt_result.split dest: Suc_lessD)
qed simp

lemma backoff_ok_calls_pos: "backoff_execute createPaymentBackoff fn = (x, n) \<Longrightarrow> 0 < n"
  using backoff_loop_calls_pos [of 3 0 fn None]
  by (simp add: backoff_execute_def createPaymentBackoff_def newBackoff_def)

lemma send_payment_cases:
  assumes "send_payment en phone kes W = (r, W')"
  obtains (1) b where "r = B2CErr TokenUnavailable False" "W' = W\<lparr>b2cBreaker := b\<rparr>"
  | (2) reason b n where "r = B2CErr reason False" "n \<le> 3"
      "W' = emit_n n (EB2C kes phone) (W\<lparr>b2cBreaker := b\<rparr>)"
  | (3) ref b n where "r = B2COk ref kes" "0 < n" "n \<le> 3"
      "W' = (emit_n n (EB2C kes phone) (W\<lparr>b2cBreaker := b\<rparr>))
              \<lparr>dailyPayout := recordPayout (pe_now en) kes (dailyPayout W)\<rparr>"
proof -
  let ?fn = "\<lambda>k. classify_post (pe_post en k)"
  obtain t b where t: "getSafaricomToken en (b2cBreaker W) = (t, b)" by fastforce
  obtain x n where x: "backoff_execute createPaymentBackoff ?fn = (x, n)" by fastforce
  have n: "n \<le> 3" using payment_calls [of ?fn] x by simp
  note d = assms [unfolded send_payment_def t prod.case x]
  show thesis
  proof (cases t)
    case None
    with d show thesis by (intro 1) auto
  next
    case t: (Some token)
    show thesis
    proof (cases x)
      case (Inl e)
      with d t have "r = B2CErr (msg_or (map_option Ext e) PayoutInitiationFailed) False"
        "W' = emit_n n (EB2C kes phone) (W\<lparr>b2cBreaker := b\<rparr>)" by simp_all
      with n show thesis by (intro 2)
    next
      case (Inr ref)
      with x have "0 < n" by (auto dest: backoff_ok_calls_pos)
      with d t Inr n show thesis by (intro 3) (auto simp: emit_n_def Let_def)
    qed
  qed
qed

text \<open>
  The ways a payout attempt ends, as one case distinction: nothing was asked of the provider,
  or some number of requests (at most three) for one amount were, and the day total was bumped
  exactly when the result is a success.
\<close>

lemma initiate_cases:
  assumes "initiateB2CPayout en phone m sid W = (r, W')"
  obtains (quiet) reason b rev where "r = B2CErr reason rev" "W' = W\<lparr>b2cBreaker := b\<rparr>"
  | (failed) reason b n kes where "r = B2CErr reason False" "n \<le> 3"
      "W' = emit_n n (EB2C kes phone) (W\<lparr>b2cBreaker := b\<rparr>)" "payout_configured (pe_cfg en)"
      "checkPayoutLimits (pe_caps en) (pe_now en) (dailyPayout W) kes = LimitOk"
  | (paid) ref kes b n where "r = B2COk ref kes" "0 < n" "n \<le> 3"
      "W' = (emit_n n (EB2C kes phone) (W\<lparr>b2cBreaker := b\<rparr>))
              \<lparr>dailyPayout := recordPayout (pe_now en) kes (dailyPayout W)\<rparr>"
      "payout_configured (pe_cfg en)"
      "checkPayoutLimits (pe_caps en) (pe_now en) (dailyPayout W) kes = LimitOk"
proof -
  note d = assms [unfolded initiateB2CPayout_def Let_def]
  have same: "W = W\<lparr>b2cBreaker := b2cBreaker W\<rparr>" by simp
  let ?k = "js_div (pesa_amount en m) 100"
  consider (bad) "pesa_amount en m \<le> 0 \<or> \<not> payout_configured (pe_cfg en)"
    | (over) reason where "checkPayoutLimits (pe_caps en) (pe_now en) (dailyPayout W) ?k = LimitExceeded reason"
        "\<not> pesa_amount en m \<le> 0" "payout_configured (pe_cfg en)"
    | (ok) "checkPayoutLimits (pe_caps en) (pe_now en) (dailyPayout W) ?k = LimitOk"
        "\<not> pesa_amount en m \<le> 0" "payout_configured (pe_cfg en)"
    by (cases "checkPayoutLimits (pe_caps en) (pe_now en) (dailyPayout W) ?k") blast+
  then show thesis
  proof cases
    case bad
    with d obtain reason where "r = B2CErr reason False" "W' = W" by (auto split: if_splits)
    with same show thesis by (intro quiet [of reason False "b2cBreaker W"]) simp_all
  next
    case (over reason)
    with d have "r = B2CErr reason True" "W' = W" by simp_all
    with same show thesis by (intro quiet [of reason True "b2cBreaker W"]) simp_all
  next
    case ok
    with d have "send_payment en phone ?k W = (r, W')" by simp
    then show thesis
    proof (cases rule: send_payment_cases)
      case 1
      then show thesis by (intro quiet) auto
    next
      case 2
      with ok show thesis by (intro failed) auto
    next
      case 3
      with ok show thesis by (intro paid) auto
    qed
  qed
qed

lemma initiate_frame:
  assumes "initiateB2CPayout en phone m sid W = (r, W')"
  shows "sales W' = sales W" "withdrawals W' = withdrawals W" "payouts W' = payouts W"
    "ledger W' = ledger W" "\<exists>n kes. outbox W' = outbox W @ replicate n (EB2C kes phone) \<and> n \<le> 3"
proof -
  from assms have "sales W' = sales W \<and> withdrawals W' = withdrawals W \<and> payouts W' = payouts W
    \<and> ledger W' = ledger W \<and> (\<exists>n kes. outbox W' = outbox W @ replicate n (EB2C kes phone) \<and> n \<le> 3)"
  proof (cases rule: initiate_cases)
    case (quiet reason b rev)
    then show ?thesis by (auto intro!: exI [of _ 0])
  next
    case (failed reason b n kes)
    then show ?thesis by (auto simp: frame_simps)
  next
    case (paid ref kes b n)
    then show ?thesis by (auto simp: frame_simps)
  qed
  then show "sales W' = sales W" "withdrawals W' = withdrawals W" "payouts W' = payouts W"
    "ledger W' = ledger W" "\<exists>n kes. outbox W' = outbox W @ replicate n (EB2C kes phone) \<and> n \<le> 3" by auto
qed

text \<open>
  C5: a payment request leaves the process only when the provider is configured and the amount
  passes both caps; a successful payout has made at least one request, at most three, all for the
  recorded amount, and has added that amount to the day's total. An approval is asked for only
  when no request was made.
\<close>

theorem payout_guarded:
  assumes "initiateB2CPayout en phone m sid W = (r, W')"
  shows "(\<forall>kes ph. EB2C kes ph \<in> set (drop (length (outbox W)) (outbox W')) \<longrightarrow>
            ph = phone \<and> payout_configured (pe_cfg en)
            \<and> checkPayoutLimits (pe_caps en) (pe_now en) (dailyPayout W) kes = LimitOk)
       \<and> (\<forall>ref kes. r = B2COk ref kes \<longrightarrow>
            (\<exists>n. 0 < n \<and> n \<le> 3 \<and> outbox W' = outbox W @ replicate n (EB2C kes phone))
            \<and> dailyPayout W' = recordPayout (pe_now en) kes (dailyPayout W))
       \<and> (\<forall>reason. r = B2CErr reason True \<longrightarrow> outbox W' = outbox W \<and> dailyPayout W' = dailyPayout W)"
  using assms
proof (cases rule: initiate_cases)
  case (quiet reason b rev)
  then show ?thesis by simp
next
  case (failed reason b n kes)
  then show ?thesis by (simp add: frame_simps)
next
  case (paid ref kes b n)
  then show ?thesis by (auto simp: frame_simps)
qed

definition demo_env :: payout_env where
  "demo_env = \<lparr>pe_now = 0,
     pe_cfg = \<lparr>sf_key = ''k'', sf_secret = ''s'', sf_credential = ''c'', sf_shortCode = ''174379'',
               sf_passkey = ''p'', sf_autoPayout = True\<rparr>,
     pe_caps = \<lparr>perTx = None, perDay = None\<rparr>, pe_priceCached = None, pe_priceReply = Some (200, 100),
     pe_defaultSell = DEFAULT_SELL_PRICE_KES, pe_token = Inr (Some ''tok''),
     pe_post = (\<lambda>k. if k = 0 then Inl (NoResponse ''timeout'') else Inr (Some ''REF''))\<rparr>"

lemma demo_amount: "pesa_amount demo_env 500 = 50000" "js_div 50000 100 = 500"
proof -
  have p: "mp_sellPriceKes (getMarketPrice None (Some (200, 100))) = 1"
    by (simp add: getMarketPrice_def) code_simp
  have "js_round (js_mul (js_mul 500 (num_or 1 DEFAULT_SELL_PRICE_KES)) 100) = 50000"
    by (simp add: num_or_def) code_simp
  then show "pesa_amount demo_env 500 = 50000" by (simp add: pesa_amount_def demo_env_def p Let_def)
  show "js_div 50000 100 = 500" by code_simp
qed

lemma demo_token: "getSafaricomToken demo_env (b2cBreaker empty_world) = (Some ''tok'', b2cBreaker empty_world)"
  by (simp add: getSafaricomToken_def demo_env_def sf_live_def breaker_execute_def breaker_admit_def
      onSuccess_def empty_world_def Let_def)

lemma demo_backoff:
  "backoff_execute createPaymentBackoff (\<lambda>k. classify_post (pe_post demo_env k)) = (Inr (Some ''REF''), 2)"
  by (simp add: backoff_execute_def createPaymentBackoff_def newBackoff_def demo_env_def
      eval_nat_numeral)

text \<open>
  a payment request whose answer is lost is sent again with nothing that identifies it as a
  repeat, so one payout can leave the process twice while it is recorded once.
\<close>

theorem payout_retry_duplicates_request:
  "\<exists>ref W'. initiateB2CPayout demo_env ''254700000000'' 500 ''sale'' empty_world = (B2COk ref 500, W')
     \<and> outbox W' = [EB2C 500 ''254700000000'', EB2C 500 ''254700000000'']
     \<and> day_total 0 (dailyPayout W') = 500"
proof -
  have c: "payout_configured (pe_cfg demo_env)"
    "checkPayoutLimits (pe_caps demo_env) (pe_now demo_env) (dailyPayout empty_world) 500 = LimitOk"
    by (simp_all add: demo_env_def payout_configured_def sf_live_def checkPayoutLimits_def truthy_num_def)
  have "initiateB2CPayout demo_env ''254700000000'' 500 ''sale'' empty_world
      = send_payment demo_env ''254700000000'' 500 empty_world"
    using c by (simp add: initiateB2CPayout_def demo_amount Let_def)
  then show ?thesis
    by (simp add: send_payment_def demo_token demo_backoff emit_n_def Let_def)
      (simp add: recordPayout_def day_total_def or_else_def demo_env_def todayKey_def numeral_2_eq_2)
qed

theorem payout_guarded_witness:
  "\<exists>r W'. initiateB2CPayout demo_env ''254700000000'' 500 ''sale'' empty_world = (r, W')
     \<and> (\<forall>kes ph. EB2C kes ph \<in> set (drop (length (outbox empty_world)) (outbox W')) \<longrightarrow>
          ph = ''254700000000'' \<and> payout_configured (pe_cfg demo_env)
          \<and> checkPayoutLimits (pe_caps demo_env) (pe_now demo_env) (dailyPayout empty_world) kes = LimitOk)"
proof -
  obtain r W' where i: "initiateB2CPayout demo_env ''254700000000'' 500 ''sale'' empty_world = (r, W')"
    by fastforce
  from payout_guarded [OF i] i show ?thesis by blast
qed

section \<open>Applying a callback\<close>

lemma callback_payout_simps [simp]:
  "p_saleId (callback_payout now cb p) = p_saleId p"
  "p_payoutRef (callback_payout now cb p) = p_payoutRef p"
  "p_status (callback_payout now cb p) = (if result_code cb = 0 then PSucceeded else PFailed)"
  by (simp_all add: callback_payout_def)

lemma callback_sale_simps [simp]:
  "s_saleId (callback_sale cb s) = s_saleId s"
  "s_status (callback_sale cb s) = (if result_code cb = 0 then SCompleted else SFailed)"
  by (simp_all add: callback_sale_def)

lemma callback_withdrawal_simps [simp]:
  "w_withdrawalId (callback_withdrawal ref cb w) = w_withdrawalId w"
  "w_saleId (callback_withdrawal ref cb w) = w_saleId w"
  "w_payoutRef (callback_withdrawal ref cb w) = Some ref"
  "w_status (callback_withdrawal ref cb w) = (if result_code cb = 0 then WCompleted else WFailed)"
  by (simp_all add: callback_withdrawal_def)

lemma apply_callback_payouts:
  "payouts (apply_callback now ref cb p W) = coll_put p_saleId (callback_payout now cb p) (payouts W)"
  by (simp add: apply_callback_def Let_def frame_simps split: option.splits)

lemma apply_callback_sales:
  "sales (apply_callback now ref cb p W) =
     (if p_saleId p = [] then sales W
      else case find_sale (p_saleId p) W of None \<Rightarrow> sales W
           | Some s \<Rightarrow> coll_put s_saleId (callback_sale cb s) (sales W))"
  by (simp add: apply_callback_def Let_def frame_simps find_sale_def split: option.splits)

lemma payout_match_callback [simp]:
  "payout_withdrawal_match ref (callback_payout now cb p) = payout_withdrawal_match ref p"
  by (simp add: payout_withdrawal_match_def fun_eq_iff)

lemma apply_callback_withdrawals:
  "withdrawals (apply_callback now ref cb p W) =
     (case coll_find (payout_withdrawal_match ref p) (withdrawals W) of
        None \<Rightarrow> withdrawals W
      | Some w \<Rightarrow> coll_put w_withdrawalId (callback_withdrawal ref cb w) (withdrawals W))"
  by (simp add: apply_callback_def Let_def frame_simps split: option.splits)

text \<open>
  a payout reference is settled once. After a callback has been applied, every further
  callback with the same reference, even one with the opposite result, changes nothing.
\<close>

theorem payout_callback_idempotent:
  assumes unique: "distinct (map p_saleId (payouts W))"
    and first: "handlePayoutCallback now cb W = (c, W1)"
    and same: "cb_ref cb' = cb_ref cb"
  shows "handlePayoutCallback now' cb' W1 = (c, W1)"
proof (cases "truthy_str (cb_ref cb)")
  case False
  with first same show ?thesis by (auto simp: handlePayoutCallback_def)
next
  case True
  let ?ref = "the (cb_ref cb)"
  show ?thesis
  proof (cases "coll_find (\<lambda>p. p_payoutRef p = Some ?ref) (payouts W)")
    case None
    with True first same show ?thesis by (auto simp: handlePayoutCallback_def Let_def)
  next
    case (Some p)
    show ?thesis
    proof (cases "terminal_payout (p_status p)")
      case t: True
      with True Some first same show ?thesis by (auto simp: handlePayoutCallback_def Let_def)
    next
      case False
      with True Some first have W1: "c = 0" "W1 = apply_callback now ?ref cb p W"
        by (auto simp: handlePayoutCallback_def Let_def)
      have "coll_find (\<lambda>p. p_payoutRef p = Some ?ref) (payouts W1) = Some (callback_payout now cb p)"
        unfolding W1(2) apply_callback_payouts
        by (rule coll_find_put_query [OF unique Some]) (use coll_find_Some [OF Some] in auto)
      then show ?thesis using True same W1(1)
        by (auto simp: handlePayoutCallback_def Let_def terminal_payout_def)
    qed
  qed
qed

definition demo_payout_world :: world where
  "demo_payout_world = empty_world\<lparr>
     payouts := [\<lparr>p_saleId = ''s1'', p_sellerPhone = ''254'', p_sellerAddress = ''mall1'', p_amount = 10,
        p_pesaAmount = Some 5, p_txHash = None, p_status = PInitiated, p_payoutRef = Some ''REF'',
        p_payoutError = None, p_attemptedAt = None\<rparr>],
     sales := [\<lparr>s_saleId = ''s1'', s_sellerAddress = ''mall1'', s_amount = 10, s_phone = Some ''254'',
        s_status = SBroadcasted, s_txHash = Some ''TX'', s_burnAmount = 3, s_burnTxHash = None,
        s_treasuryAmount = 7, s_burnPercentage = 30, s_reason = None, s_pendingTxBytes = None,
        s_pendingTxBytesSetAt = None, s_createdAt = 0\<rparr>]\<rparr>"

theorem payout_callback_idempotent_witness:
  "let W1 = snd (handlePayoutCallback 1 \<lparr>cb_ref = Some ''REF'', cb_code = Some 0, cb_desc = None\<rparr> demo_payout_world)
   in handlePayoutCallback 2 \<lparr>cb_ref = Some ''REF'', cb_code = Some 1, cb_desc = Some ''late''\<rparr> W1 = (0, W1)"
proof -
  have u: "distinct (map p_saleId (payouts demo_payout_world))" by (simp add: demo_payout_world_def)
  have c: "fst (handlePayoutCallback 1 \<lparr>cb_ref = Some ''REF'', cb_code = Some 0, cb_desc = None\<rparr> demo_payout_world) = 0"
    by (simp add: handlePayoutCallback_def truthy_str_def demo_payout_world_def terminal_payout_def Let_def)
  from payout_callback_idempotent [OF u prod.collapse [symmetric], of "\<lparr>cb_ref = Some ''REF'', cb_code = Some 1, cb_desc = Some ''late''\<rparr>" "\<lparr>cb_ref = Some ''REF'', cb_code = Some 0, cb_desc = None\<rparr>" 2 1] c
  show ?thesis by (simp add: Let_def)
qed

text \<open>
  a callback settles the payout, its sale and its withdrawal together: all three end completed
  or all three end failed, as the result code says.
\<close>

theorem payout_callback_consistent:
  assumes ref: "cb_ref cb = Some ref" "ref \<noteq> []"
    and p: "coll_find (\<lambda>p. p_payoutRef p = Some ref) (payouts W) = Some p" "\<not> terminal_payout (p_status p)"
    and s: "p_saleId p \<noteq> []" "find_sale (p_saleId p) W = Some s"
    and w: "find_withdrawal wid W = Some w"
      "coll_find (payout_withdrawal_match ref p) (withdrawals W) = Some w"
  shows "let W' = snd (handlePayoutCallback now cb W); ok = (result_code cb = 0) in
     map_option p_status (find_payout (p_saleId p) W') = Some (if ok then PSucceeded else PFailed)
   \<and> map_option s_status (find_sale (p_saleId p) W') = Some (if ok then SCompleted else SFailed)
   \<and> map_option w_status (find_withdrawal wid W') = Some (if ok then WCompleted else WFailed)"
proof -
  let ?W = "apply_callback now ref cb p W"
  have h: "snd (handlePayoutCallback now cb W) = ?W"
    using ref p by (simp add: handlePayoutCallback_def truthy_str_def Let_def)
  have "find_payout (p_saleId p) W \<noteq> None"
    using coll_find_Some [OF p(1)] by (auto simp: find_payout_def coll_find_None)
  then have "find_payout (p_saleId p) ?W = Some (callback_payout now cb p)"
    using coll_find_put_same [of p_saleId "callback_payout now cb p" "payouts W"]
    by (simp add: find_payout_def apply_callback_payouts)
  moreover have "s_saleId s = p_saleId p" using saledb.find_key [OF s(2)] .
  then have "find_sale (p_saleId p) ?W = Some (callback_sale cb s)"
    using s coll_find_put_same [of s_saleId "callback_sale cb s" "sales W"]
    by (simp add: find_sale_def apply_callback_sales)
  moreover have "w_withdrawalId w = wid" using wddb.find_key [OF w(1)] .
  then have "find_withdrawal wid ?W = Some (callback_withdrawal ref cb w)"
    using w coll_find_put_same [of w_withdrawalId "callback_withdrawal ref cb w" "withdrawals W"]
    by (simp add: find_withdrawal_def apply_callback_withdrawals)
  ultimately show ?thesis by (simp add: h Let_def)
qed

definition demo_wd :: withdrawal where
  "demo_wd = \<lparr>w_oid = ''o1'', w_withdrawalId = ''withdrawal-s1'', w_walletAddress = ''mall1'', w_phone = ''254'',
     w_amountMlcns = 10, w_amountKes = 5, w_currency = ''KES'', w_status = WPayoutInitiated,
     w_payoutRef = Some ''REF'', w_settlementMode = SignedSell, w_saleId = Some ''s1'',
     w_sellTxHash = Some ''TX'', w_burnTxHash = None, w_notes = None, w_queuedAt = None,
     w_amlReviewId = None, w_createdAt = 0\<rparr>"

theorem payout_callback_consistent_witness:
  "map_option w_status (find_withdrawal ''withdrawal-s1''
     (snd (handlePayoutCallback 1 \<lparr>cb_ref = Some ''REF'', cb_code = Some 1, cb_desc = Some ''no''\<rparr>
        (demo_payout_world\<lparr>withdrawals := [demo_wd]\<rparr>)))) = Some WFailed"
proof -
  let ?W = "demo_payout_world\<lparr>withdrawals := [demo_wd]\<rparr>"
  have "coll_find (\<lambda>p. p_payoutRef p = Some ''REF'') (payouts ?W) = Some (hd (payouts ?W))"
    "\<not> terminal_payout (p_status (hd (payouts ?W)))" "p_saleId (hd (payouts ?W)) \<noteq> []"
    "find_sale (p_saleId (hd (payouts ?W))) ?W = Some (hd (sales ?W))"
    "find_withdrawal ''withdrawal-s1'' ?W = Some demo_wd"
    "coll_find (payout_withdrawal_match ''REF'' (hd (payouts ?W))) (withdrawals ?W) = Some demo_wd"
    by (simp_all add: demo_payout_world_def demo_wd_def find_sale_def find_withdrawal_def
        terminal_payout_def payout_withdrawal_match_def)
  from payout_callback_consistent [OF _ _ this, of "\<lparr>cb_ref = Some ''REF'', cb_code = Some 1, cb_desc = Some ''no''\<rparr>" 1]
  show ?thesis by (simp add: Let_def result_code_def or_else_def)
qed

text \<open>
  a callback that carries no result code is taken for a success: the payout, and with it the
  sale and the withdrawal, are marked as paid.
\<close>

theorem payout_callback_missing_code:
  "map_option p_status (find_payout ''s1''
     (snd (handlePayoutCallback 1 \<lparr>cb_ref = Some ''REF'', cb_code = None, cb_desc = Some ''insufficient funds''\<rparr>
        demo_payout_world))) = Some PSucceeded"
  by (simp add: handlePayoutCallback_def truthy_str_def demo_payout_world_def terminal_payout_def
      find_payout_def Let_def apply_callback_payouts result_code_def or_else_def)

end
