(* ===== verification/SellSettlement.thy ===== *)
theory SellSettlement
  imports BurnCalculator B2CPayout
begin

text \<open>
  \<open>services/sellBurnService.js\<close> and \<open>services/sellExecutionService.js\<close>: the cash-out settlement. A
  signed transfer is broadcast; when the chain accepts it, part of the amount is burned, the rest
  is booked to the treasury, and the fiat payout is started. The sale and the withdrawal are
  documents in memory that the code changes and saves; the result is the HTTP answer.
\<close>

section \<open>The burn workflow\<close>

record settle_env =
  se_now :: int
  se_chain :: "string \<Rightarrow> string + (string option \<times> nat \<times> string option)"
  se_decimals :: nat
  se_supply :: "nat option"
  se_mnemonic :: bool
  se_burnTx :: "num \<Rightarrow> string + string"
  se_pay :: payout_env

record burn_result =
  bu_burnAmount :: num
  bu_treasuryAmount :: num
  bu_percentage :: num
  bu_txHash :: "string option"

definition ledger_burn :: "string \<Rightarrow> num \<Rightarrow> string \<Rightarrow> ledger_entry" where
  "ledger_burn tx amt saleId = \<lparr>l_txHash = Some tx, l_activity = BurnActivity, l_amount = amt,
     l_direction = BurnDir, l_relatedSaleId = saleId\<rparr>"

definition ledger_inflow :: "string option \<Rightarrow> num \<Rightarrow> string \<Rightarrow> ledger_entry" where
  "ledger_inflow tx amt saleId = \<lparr>l_txHash = tx, l_activity = InflowCashOut, l_amount = amt,
     l_direction = Inflow, l_relatedSaleId = saleId\<rparr>"

definition add_ledger :: "ledger_entry list \<Rightarrow> world \<Rightarrow> world" where
  "add_ledger ls W = W\<lparr>ledger := ledger W @ ls\<rparr>"

text \<open>
  \<open>executeSellBurnWorkflow\<close>. The burn call is made when there is something to burn and an operator
  key; its failure is logged and passed over. The burn rate and the split do not throw, so the
  branch that falls back to a fixed 30 percent is never taken.
\<close>

definition executeSellBurnWorkflow ::
  "settle_env \<Rightarrow> string \<Rightarrow> num \<Rightarrow> sale \<Rightarrow> world \<Rightarrow> burn_result \<times> sale \<times> world" where
  "executeSellBurnWorkflow en saleId amount sale W =
     (let currentSupply = getCirculatingSupply (se_decimals en) (se_supply en);
          rate = getEffectiveBurnRate CashOut currentSupply (Some (burnPolicies W)) (Some (burnThresholds W));
          (burnAmount, treasuryAmount, pct) = calculateBurnSplit (js_floor amount) rate;
          call = (0 < burnAmount \<and> se_mnemonic en);
          W1 = (if call then emit (EBurn burnAmount) W else W);
          burnTxHash = (if call then (case se_burnTx en burnAmount of Inl _ \<Rightarrow> None | Inr h \<Rightarrow> Some h) else None);
          sale1 = (if burnTxHash = None then sale else sale\<lparr>s_burnTxHash := burnTxHash\<rparr>);
          sale2 = sale1\<lparr>s_burnAmount := burnAmount, s_treasuryAmount := treasuryAmount, s_burnPercentage := pct\<rparr>;
          burned = (if 0 < burnAmount \<and> truthy_str burnTxHash
                    then [ledger_burn (the burnTxHash) burnAmount saleId] else []);
          inflow = ledger_inflow (str_or (s_txHash sale2) (str_or burnTxHash None)) treasuryAmount saleId
      in (\<lparr>bu_burnAmount = burnAmount, bu_treasuryAmount = treasuryAmount, bu_percentage = pct,
           bu_txHash = burnTxHash\<rparr>, sale2, add_ledger (burned @ [inflow]) W1))"

section \<open>Broadcasting\<close>

record broadcast_result =
  br_ok :: bool
  br_sequenceMismatch :: bool
  br_reason :: string
  br_txHash :: "string option"

definition sequence_mismatch :: "string \<Rightarrow> bool" where
  "sequence_mismatch rawLog =
     (let l = map to_lower rawLog in
      has_infix ''account sequence mismatch'' l \<or> has_infix ''incorrect account sequence'' l)"

text \<open>A reply is a thrown message, or the hash, the code and the log of the answer.\<close>

definition broadcastSignedTx :: "settle_env \<Rightarrow> string \<Rightarrow> broadcast_result" where
  "broadcastSignedTx en txBytes =
     (case se_chain en txBytes of
        Inl e \<Rightarrow> \<lparr>br_ok = False, br_sequenceMismatch = False,
                  br_reason = (if e = [] then ''broadcast failed'' else e), br_txHash = None\<rparr>
      | Inr (hash, code, raw_log) \<Rightarrow>
          (let txHash = str_or hash None in
           if code \<noteq> 0 then
             (let rawLog = the (str_or raw_log (Some (''code '' @ show_nat code)))
              in \<lparr>br_ok = False, br_sequenceMismatch = sequence_mismatch rawLog,
                  br_reason = rawLog, br_txHash = txHash\<rparr>)
           else \<lparr>br_ok = True, br_sequenceMismatch = False, br_reason = [], br_txHash = txHash\<rparr>))"

section \<open>The settlement\<close>

datatype settle_resp =
    SettleNoTx
  | SettleNetworkFailed string
  | SettleTxFailed string
  | SettleResign
  | SettleOk "string option" "string option" burn_result

fun settle_status :: "settle_resp \<Rightarrow> nat" where
  "settle_status SettleNoTx = 400"
| "settle_status (SettleNetworkFailed _) = 503"
| "settle_status (SettleTxFailed _) = 400"
| "settle_status SettleResign = 409"
| "settle_status (SettleOk _ _ _) = 200"

text \<open>A sale and its withdrawal leave the settlement with one status and one message each.\<close>

definition mark_sale :: "sale_status \<Rightarrow> msg \<Rightarrow> sale \<Rightarrow> sale" where
  "mark_sale st m s = s\<lparr>s_status := st, s_reason := Some m\<rparr>"

definition mark_wd :: "wd_status \<Rightarrow> msg \<Rightarrow> withdrawal \<Rightarrow> withdrawal" where
  "mark_wd st m w = w\<lparr>w_status := st, w_notes := Some m\<rparr>"

definition settle_no_tx :: "int \<Rightarrow> sale \<Rightarrow> withdrawal \<Rightarrow> string \<Rightarrow> world \<Rightarrow> settle_resp \<times> world" where
  "settle_no_tx now sale wd saleId W =
     (let sale' = mark_sale SFailed TxBytesRequired sale;
          wd' = mark_wd WFailed TxBytesRequired wd;
          W1 = save_withdrawal wd' W;
          W2 = recordWithdrawLiquidityActivity now Cashout_rejected (of_withdrawal wd')
                 (over\<lparr>o_status := Some ActFailed, o_saleId := Some saleId, o_reason := Some TxBytesRequired\<rparr>) W1
      in (SettleNoTx, save_sale sale' W2))"

definition settle_failed ::
  "int \<Rightarrow> broadcast_result \<Rightarrow> sale \<Rightarrow> withdrawal \<Rightarrow> string \<Rightarrow> world \<Rightarrow> settle_resp \<times> world" where
  "settle_failed now br sale wd saleId W =
     (let sale' = mark_sale SFailed (Ext (br_reason br)) sale;
          wd' = mark_wd WFailed (Ext (br_reason br)) wd;
          W1 = save_withdrawal wd' W;
          W2 = recordWithdrawLiquidityActivity now Sell_broadcast_failed (of_withdrawal wd')
                 (over\<lparr>o_status := Some ActFailed, o_saleId := Some saleId, o_sellTxHash := br_txHash br,
                       o_reason := Some (Ext (br_reason br))\<rparr>) W1;
          isNetworkError = (\<not> truthy_str (br_txHash br) \<and> \<not> has_infix ''code'' (br_reason br))
      in (if isNetworkError then SettleNetworkFailed (br_reason br) else SettleTxFailed (br_reason br),
          save_sale sale' W2))"

definition settle_stale ::
  "int \<Rightarrow> broadcast_result \<Rightarrow> sale \<Rightarrow> withdrawal \<Rightarrow> string \<Rightarrow> world \<Rightarrow> settle_resp \<times> world" where
  "settle_stale now br sale wd saleId W =
     (let sale' = mark_sale SResignRequired (Ext (br_reason br)) sale;
          wd' = mark_wd WResignRequired StaleSignature wd;
          W1 = save_withdrawal wd' W;
          W2 = recordWithdrawLiquidityActivity now Withdraw_resign_required (of_withdrawal wd')
                 (over\<lparr>o_status := Some ActPending, o_saleId := Some saleId,
                       o_reason := Some (Ext (br_reason br))\<rparr>) W1
      in (SettleResign, save_sale sale' W2))"

text \<open>The payout part, after the burn: the last change of the withdrawal and the payout's document.\<close>

definition settle_payout ::
  "settle_env \<Rightarrow> withdrawal \<Rightarrow> num \<Rightarrow> string \<Rightarrow> string \<Rightarrow> string \<Rightarrow> num \<Rightarrow> string option \<Rightarrow> burn_result \<Rightarrow> world
    \<Rightarrow> string option \<times> world" where
  "settle_payout en wd amount phone sellerAddress saleId estimatedKes txHash bu W =
     (let ov = over\<lparr>o_saleId := Some saleId, o_sellTxHash := txHash, o_burnTxHash := bu_txHash bu\<rparr>
      in case initiateB2CPayout (se_pay en) phone amount saleId W of
        (B2COk payoutRef pesaAmount, W1) \<Rightarrow>
          (if find_payout saleId W1 \<noteq> None then
             (let wd' = mark_wd WFailed (Ext ''E11000 duplicate key'') wd
              in (Some payoutRef,
                  recordWithdrawLiquidityActivity (se_now en) Payout_initiation_failed (of_withdrawal wd')
                    (ov\<lparr>o_status := Some ActFailed, o_fiatAmount := Some estimatedKes,
                        o_reason := Some (Ext ''E11000 duplicate key'')\<rparr>) (save_withdrawal wd' W1)))
           else
             (let payout = \<lparr>p_saleId = saleId, p_sellerPhone = phone, p_sellerAddress = sellerAddress,
                    p_amount = amount, p_pesaAmount = Some pesaAmount, p_txHash = txHash,
                    p_status = PInitiated, p_payoutRef = Some payoutRef, p_payoutError = None,
                    p_attemptedAt = None\<rparr>;
                  W2 = create_payout payout W1;
                  wd' = (mark_wd WPayoutInitiated PayoutInitiatedNote wd)
                          \<lparr>w_payoutRef := Some payoutRef, w_amountKes := num_or pesaAmount (w_amountKes wd)\<rparr>
              in (Some payoutRef,
                  recordWithdrawLiquidityActivity (se_now en) Payout_initiated (of_withdrawal wd')
                    (ov\<lparr>o_status := Some ActPending, o_payoutRef := Some payoutRef,
                        o_fiatAmount := Some (num_or pesaAmount estimatedKes)\<rparr>) (save_withdrawal wd' W2))))
      | (B2CErr reason requiresApproval, W1) \<Rightarrow>
          (let wd' = mark_wd (if requiresApproval then WPendingReview else WFailed)
                       (msg_or (Some reason) PayoutInitFailed) wd
           in (None,
               recordWithdrawLiquidityActivity (se_now en)
                 (if requiresApproval then Payout_requires_review else Payout_initiation_failed)
                 (of_withdrawal wd')
                 (ov\<lparr>o_status := Some (if requiresApproval then ActPending else ActFailed),
                     o_fiatAmount := Some estimatedKes, o_reason := Some reason\<rparr>) (save_withdrawal wd' W1))))"

definition settle_accepted ::
  "settle_env \<Rightarrow> sale \<Rightarrow> withdrawal \<Rightarrow> num \<Rightarrow> string \<Rightarrow> string \<Rightarrow> string \<Rightarrow> num \<Rightarrow> string option \<Rightarrow> world
    \<Rightarrow> settle_resp \<times> world" where
  "settle_accepted en sale wd amount phone sellerAddress saleId estimatedKes txHash W =
     (let now = se_now en;
          sale1 = sale\<lparr>s_status := SBroadcasted, s_txHash := txHash\<rparr>;
          wd1 = (mark_wd WPendingReview SellBroadcasted wd)\<lparr>w_sellTxHash := txHash\<rparr>;
          W1 = save_withdrawal wd1 W;
          W2 = recordWithdrawLiquidityActivity now Sell_broadcasted (of_withdrawal wd1)
                 (over\<lparr>o_status := Some ActSuccess, o_saleId := Some saleId, o_sellTxHash := txHash,
                       o_fiatAmount := Some estimatedKes\<rparr>) W1;
          (bu, sale2, W3) = executeSellBurnWorkflow en saleId amount sale1 W2;
          W4 = save_sale sale2 W3;
          wd2 = wd1\<lparr>w_burnTxHash := str_or (bu_txHash bu) (w_burnTxHash wd1), w_notes := Some BurnDone\<rparr>;
          W5 = save_withdrawal wd2 W4;
          W6 = recordWithdrawLiquidityActivity now Burn_recorded (of_withdrawal wd2)
                 (over\<lparr>o_status := Some ActSuccess, o_saleId := Some saleId, o_sellTxHash := txHash,
                       o_burnTxHash := bu_txHash bu\<rparr>) W5;
          (payoutRef, W7) = settle_payout en wd2 amount phone sellerAddress saleId estimatedKes txHash bu W6
      in (SettleOk txHash payoutRef bu, W7))"

definition executeSellSettlement ::
  "settle_env \<Rightarrow> sale \<Rightarrow> withdrawal \<Rightarrow> string option \<Rightarrow> num \<Rightarrow> string \<Rightarrow> string \<Rightarrow> string \<Rightarrow> num \<Rightarrow> world
    \<Rightarrow> settle_resp \<times> world" where
  "executeSellSettlement en sale wd txBytes amount phone sellerAddress saleId estimatedKes W =
     (if \<not> truthy_str txBytes then settle_no_tx (se_now en) sale wd saleId W
      else let br = broadcastSignedTx en (the txBytes); W0 = emit (EBroadcast (the txBytes)) W in
        if \<not> br_ok br \<and> \<not> br_sequenceMismatch br then settle_failed (se_now en) br sale wd saleId W0
        else if \<not> br_ok br then settle_stale (se_now en) br sale wd saleId W0
        else settle_accepted en sale wd amount phone sellerAddress saleId estimatedKes (br_txHash br) W0)"

section \<open>What a settlement does to the world\<close>

text \<open>The fields that a settlement never changes.\<close>

definition same_request :: "withdrawal \<Rightarrow> withdrawal \<Rightarrow> bool" where
  "same_request w w' \<longleftrightarrow> w_oid w' = w_oid w \<and> w_withdrawalId w' = w_withdrawalId w
     \<and> w_walletAddress w' = w_walletAddress w \<and> w_phone w' = w_phone w \<and> w_amountMlcns w' = w_amountMlcns w
     \<and> w_currency w' = w_currency w \<and> w_saleId w' = w_saleId w \<and> w_queuedAt w' = w_queuedAt w
     \<and> w_amlReviewId w' = w_amlReviewId w \<and> w_createdAt w' = w_createdAt w"

definition same_sale :: "sale \<Rightarrow> sale \<Rightarrow> bool" where
  "same_sale s s' \<longleftrightarrow> s_saleId s' = s_saleId s \<and> s_sellerAddress s' = s_sellerAddress s \<and> s_amount s' = s_amount s
     \<and> s_phone s' = s_phone s \<and> s_pendingTxBytes s' = s_pendingTxBytes s
     \<and> s_pendingTxBytesSetAt s' = s_pendingTxBytesSetAt s \<and> s_createdAt s' = s_createdAt s"

lemma burn_workflow_frame:
  assumes "executeSellBurnWorkflow en saleId amount sale W = (bu, sale', W')"
  shows "sales W' = sales W" "withdrawals W' = withdrawals W" "payouts W' = payouts W"
    "dailyPayout W' = dailyPayout W" "b2cBreaker W' = b2cBreaker W"
    "same_sale sale sale'" "s_status sale' = s_status sale" "s_txHash sale' = s_txHash sale"
    "outbox W' = outbox W @ (if 0 < bu_burnAmount bu \<and> se_mnemonic en then [EBurn (bu_burnAmount bu)] else [])"
    "s_burnAmount sale' = bu_burnAmount bu" "s_treasuryAmount sale' = bu_treasuryAmount bu"
  using assms
  by (auto simp: executeSellBurnWorkflow_def Let_def add_ledger_def frame_simps same_sale_def
      split: prod.splits if_splits)

text \<open>What a payout attempt makes of the withdrawal: one of three statuses, a reference only with the first.\<close>

definition payout_outcome :: "withdrawal \<Rightarrow> string option \<Rightarrow> withdrawal \<Rightarrow> bool" where
  "payout_outcome w ref w' \<longleftrightarrow> same_request w w'
     \<and> w_status w' \<in> {WPayoutInitiated, WPendingReview, WFailed}
     \<and> (w_status w' = WPayoutInitiated \<longrightarrow> w_payoutRef w' = ref \<and> ref \<noteq> None)"

lemma settle_payout_cases:
  assumes "settle_payout en wd amount phone sa saleId kes tx bu W = (ref, W')"
  obtains (step) wd' V st ov n k where "payout_outcome wd ref wd'"
    "W' = recordWithdrawLiquidityActivity (se_now en) st (of_withdrawal wd') ov (save_withdrawal wd' V)"
    "sales V = sales W" "withdrawals V = withdrawals W" "ledger V = ledger W"
    "outbox V = outbox W @ replicate n (EB2C k phone)" "n \<le> 3"
proof -
  obtain r W1 where i: "initiateB2CPayout (se_pay en) phone amount saleId W = (r, W1)" by fastforce
  note f = initiate_frame [OF i]
  from f(5) obtain n k where o1: "outbox W1 = outbox W @ replicate n (EB2C k phone)" "n \<le> 3" by blast
  note d = assms [unfolded settle_payout_def Let_def i prod.case]
  show thesis
  proof (cases r)
    case (B2COk payoutRef pesa)
    show thesis
    proof (cases "find_payout saleId W1 = None")
      case False
      with d B2COk show thesis
        by (intro step [where wd' = "mark_wd WFailed (Ext ''E11000 duplicate key'') wd" and V = W1])
          (use f o1 in \<open>auto simp: payout_outcome_def same_request_def mark_wd_def\<close>)
    next
      case True
      let ?w = "(mark_wd WPayoutInitiated PayoutInitiatedNote wd)
                  \<lparr>w_payoutRef := Some payoutRef, w_amountKes := num_or pesa (w_amountKes wd)\<rparr>"
      let ?p = "\<lparr>p_saleId = saleId, p_sellerPhone = phone, p_sellerAddress = sa, p_amount = amount,
                  p_pesaAmount = Some pesa, p_txHash = tx, p_status = PInitiated,
                  p_payoutRef = Some payoutRef, p_payoutError = None, p_attemptedAt = None\<rparr>"
      from d B2COk True show thesis
        by (intro step [where wd' = ?w and V = "create_payout ?p W1" and n = n and k = k])
          (use f(1,2,4) o1 in \<open>auto simp: payout_outcome_def same_request_def mark_wd_def frame_simps\<close>)
    qed
  next
    case (B2CErr reason rev)
    with d show thesis
      by (intro step [where V = W1 and wd' = "mark_wd (if rev then WPendingReview else WFailed)
            (msg_or (Some reason) PayoutInitFailed) wd"
          and st = "if rev then Payout_requires_review else Payout_initiation_failed"
          and ov = "over\<lparr>o_saleId := Some saleId, o_sellTxHash := tx, o_burnTxHash := bu_txHash bu,
              o_status := Some (if rev then ActPending else ActFailed),
              o_fiatAmount := Some kes, o_reason := Some reason\<rparr>" and n = n and k = k])
        (use f o1 in \<open>simp_all add: payout_outcome_def same_request_def mark_wd_def\<close>)
  qed
qed

text \<open>The shape of a settlement whose broadcast the chain accepts.\<close>

lemma settle_accepted_cases:
  assumes "settle_accepted en sale wd amount phone sa saleId kes tx W = (r, W')"
  obtains (step) bu sale1 wd' ref n k where "r = SettleOk tx ref bu"
    "same_sale sale sale1" "s_status sale1 = SBroadcasted" "s_txHash sale1 = tx"
    "payout_outcome wd ref wd'" "n \<le> 3"
    "sales W' = coll_put s_saleId sale1 (sales W)"
    "withdrawals W' = coll_put w_withdrawalId wd' (withdrawals W)"
    "outbox W' = outbox W @ (if 0 < bu_burnAmount bu \<and> se_mnemonic en then [EBurn (bu_burnAmount bu)] else [])
                          @ replicate n (EB2C k phone)"
    "\<exists>sale0 V V'. s_txHash sale0 = tx \<and> s_saleId sale0 = s_saleId sale \<and> ledger V = ledger W
        \<and> burnPolicies V = burnPolicies W \<and> burnThresholds V = burnThresholds W
        \<and> executeSellBurnWorkflow en saleId amount sale0 V = (bu, sale1, V') \<and> ledger W' = ledger V'"
proof -
  let ?sale0 = "sale\<lparr>s_status := SBroadcasted, s_txHash := tx\<rparr>"
  let ?wd1 = "(mark_wd WPendingReview SellBroadcasted wd)\<lparr>w_sellTxHash := tx\<rparr>"
  let ?V = "recordWithdrawLiquidityActivity (se_now en) Sell_broadcasted (of_withdrawal ?wd1)
     (over\<lparr>o_status := Some ActSuccess, o_saleId := Some saleId, o_sellTxHash := tx,
           o_fiatAmount := Some kes\<rparr>) (save_withdrawal ?wd1 W)"
  obtain bu sale1 V' where b: "executeSellBurnWorkflow en saleId amount ?sale0 ?V = (bu, sale1, V')"
    by (metis prod_cases3)
  note bf = burn_workflow_frame [OF b]
  let ?wd2 = "?wd1\<lparr>w_burnTxHash := str_or (bu_txHash bu) (w_burnTxHash ?wd1), w_notes := Some BurnDone\<rparr>"
  let ?U = "recordWithdrawLiquidityActivity (se_now en) Burn_recorded (of_withdrawal ?wd2)
     (over\<lparr>o_status := Some ActSuccess, o_saleId := Some saleId, o_sellTxHash := tx,
           o_burnTxHash := bu_txHash bu\<rparr>) (save_withdrawal ?wd2 (save_sale sale1 V'))"
  obtain ref X where p: "settle_payout en ?wd2 amount phone sa saleId kes tx bu ?U = (ref, X)"
    by fastforce
  have "(r, W') = (SettleOk tx ref bu, X)"
    using assms b p by (simp add: settle_accepted_def Let_def)
  then have r: "r = SettleOk tx ref bu" and X: "X = W'" by simp_all
  from p [unfolded X] show thesis
  proof (cases rule: settle_payout_cases)
    case (step wd' V st ov n k)
    from step(1) have o1: "payout_outcome wd ref wd'" and k: "w_withdrawalId wd' = w_withdrawalId wd"
      by (auto simp: payout_outcome_def same_request_def mark_wd_def)
    show thesis
    proof (rule that [OF r _ _ _ o1 \<open>n \<le> 3\<close>])
      show "sales W' = coll_put s_saleId sale1 (sales W)"
        using step bf by (simp add: frame_simps)
      show "withdrawals W' = coll_put w_withdrawalId wd' (withdrawals W)"
        using step bf k by (simp add: frame_simps mark_wd_def)
      show "outbox W' = outbox W @ (if 0 < bu_burnAmount bu \<and> se_mnemonic en then [EBurn (bu_burnAmount bu)] else [])
                          @ replicate n (EB2C k phone)"
        using step bf by (simp add: frame_simps)
      show "\<exists>sale0 V V'. s_txHash sale0 = tx \<and> s_saleId sale0 = s_saleId sale \<and> ledger V = ledger W
        \<and> burnPolicies V = burnPolicies W \<and> burnThresholds V = burnThresholds W
        \<and> executeSellBurnWorkflow en saleId amount sale0 V = (bu, sale1, V') \<and> ledger W' = ledger V'"
        using step b by (intro exI [of _ ?sale0] exI [of _ ?V] exI [of _ V']) (simp add: frame_simps)
    qed (use bf in \<open>simp_all add: same_sale_def\<close>)
  qed
qed

lemma settle_accepted_status: "settle_status (fst (settle_accepted en sale wd amount phone sa saleId kes tx W)) = 200"
proof -
  obtain r W' where r: "settle_accepted en sale wd amount phone sa saleId kes tx W = (r, W')" by fastforce
  from this show ?thesis by (cases rule: settle_accepted_cases) (simp add: r)
qed

text \<open>Which of the four ways a settlement goes, by its answer.\<close>

lemma settlement_cases:
  assumes "executeSellSettlement en sale wd txBytes amount phone sa saleId kes W = (r, W')"
  obtains (no_tx) "\<not> truthy_str txBytes" "(r, W') = settle_no_tx (se_now en) sale wd saleId W"
  | (failed) br where "truthy_str txBytes"
      "(r, W') = settle_failed (se_now en) br sale wd saleId (emit (EBroadcast (the txBytes)) W)"
  | (stale) br where "truthy_str txBytes"
      "(r, W') = settle_stale (se_now en) br sale wd saleId (emit (EBroadcast (the txBytes)) W)"
  | (accepted) tx where "truthy_str txBytes" "br_ok (broadcastSignedTx en (the txBytes))"
      "settle_accepted en sale wd amount phone sa saleId kes tx (emit (EBroadcast (the txBytes)) W) = (r, W')"
  using assms [symmetric] by (auto simp: executeSellSettlement_def Let_def split: if_splits)

lemma settlement_status_200:
  "settle_status (fst (executeSellSettlement en sale wd txBytes amount phone sa saleId kes W)) = 200
     \<longleftrightarrow> truthy_str txBytes \<and> br_ok (broadcastSignedTx en (the txBytes))"
  using settle_accepted_status
  by (auto simp: executeSellSettlement_def Let_def settle_no_tx_def settle_failed_def settle_stale_def)

lemmas refusal_defs = settle_no_tx_def settle_failed_def settle_stale_def mark_sale_def mark_wd_def Let_def

text \<open>
  C3: a settlement that answers anything but 200 has moved no money: nothing is burned, no payout
  is asked for or recorded, and the ledger and the day total are as before. At most the signed
  transfer itself has left the process, once.
\<close>

theorem refused_settlement_moves_no_money:
  assumes "executeSellSettlement en sale wd txBytes amount phone sa saleId kes W = (r, W')"
    and "settle_status r \<noteq> 200"
  shows "outbox W' = outbox W @ (if truthy_str txBytes then [EBroadcast (the txBytes)] else [])
    \<and> ledger W' = ledger W \<and> payouts W' = payouts W \<and> dailyPayout W' = dailyPayout W"
  using assms(1)
proof (cases rule: settlement_cases)
  case (accepted tx)
  then show ?thesis using settle_accepted_status assms(2) by (metis fst_conv)
qed (auto simp: refusal_defs frame_simps)

text \<open>
  C4: a settlement that answers 200 makes its outside calls in one order: the broadcast once, then
  at most one burn of a positive amount, then at most three requests for one payout to the seller's
  phone.
\<close>

theorem settlement_call_order:
  assumes "executeSellSettlement en sale wd txBytes amount phone sa saleId kes W = (r, W')"
    and "settle_status r = 200"
  shows "\<exists>b n k. outbox W' = outbox W @ EBroadcast (the txBytes) # b @ replicate n (EB2C k phone)
    \<and> (b = [] \<or> (\<exists>x > 0. b = [EBurn x])) \<and> n \<le> 3"
  using assms(1)
proof (cases rule: settlement_cases)
  case (accepted tx)
  from accepted(3) show ?thesis
  proof (cases rule: settle_accepted_cases)
    case (step bu sale1 wd' ref n k)
    let ?b = "if 0 < bu_burnAmount bu \<and> se_mnemonic en then [EBurn (bu_burnAmount bu)] else []"
    have "?b = [] \<or> (\<exists>x > 0. ?b = [EBurn x])" by simp
    with step show ?thesis by (intro exI [of _ ?b] exI [of _ n] exI [of _ k]) (simp add: frame_simps)
  qed
qed (use assms(2) in \<open>auto simp: refusal_defs split: if_splits\<close>)

text \<open>The statuses in which an answer leaves the sale and the withdrawal.\<close>

fun settled :: "settle_resp \<Rightarrow> sale_status \<Rightarrow> wd_status \<Rightarrow> bool" where
  "settled SettleResign s w = (s = SResignRequired \<and> w = WResignRequired)"
| "settled (SettleOk _ ref _) s w =
     (s = SBroadcasted \<and> w \<in> {WPayoutInitiated, WPendingReview, WFailed} \<and> (w = WPayoutInitiated \<longrightarrow> ref \<noteq> None))"
| "settled _ s w = (s = SFailed \<and> w = WFailed)"

text \<open>Every settlement saves one changed sale and one changed withdrawal, and no other document of theirs.\<close>

lemma settlement_docs:
  assumes x: "executeSellSettlement en sale wd txBytes amount phone sa saleId kes W = (r, W')"
  obtains s w where "same_sale sale s" "same_request wd w" "settled r (s_status s) (w_status w)"
     "sales W' = coll_put s_saleId s (sales W)" "withdrawals W' = coll_put w_withdrawalId w (withdrawals W)"
proof -
  note defs = refusal_defs frame_simps same_sale_def same_request_def
  have "\<exists>s w. same_sale sale s \<and> same_request wd w \<and> settled r (s_status s) (w_status w)
     \<and> sales W' = coll_put s_saleId s (sales W) \<and> withdrawals W' = coll_put w_withdrawalId w (withdrawals W)"
    using x
  proof (cases rule: settlement_cases)
    case no_tx
    then show ?thesis by (intro exI [of _ "mark_sale SFailed TxBytesRequired sale"]
          exI [of _ "mark_wd WFailed TxBytesRequired wd"]) (auto simp: defs)
  next
    case (failed br)
    then show ?thesis by (intro exI [of _ "mark_sale SFailed (Ext (br_reason br)) sale"]
          exI [of _ "mark_wd WFailed (Ext (br_reason br)) wd"]) (auto simp: defs split: if_splits)
  next
    case (stale br)
    then show ?thesis by (intro exI [of _ "mark_sale SResignRequired (Ext (br_reason br)) sale"]
          exI [of _ "mark_wd WResignRequired StaleSignature wd"]) (auto simp: defs)
  next
    case (accepted tx)
    from accepted(3) show ?thesis
    proof (cases rule: settle_accepted_cases)
      case (step bu sale1 wd' ref n k)
      then show ?thesis by (intro exI [of _ sale1] exI [of _ wd'])
          (auto simp: payout_outcome_def frame_simps)
    qed
  qed
  with that show thesis by blast
qed

lemma settlement_broadcast:
  assumes "executeSellSettlement en sale wd txBytes amount phone sa saleId kes W = (r, W')" "truthy_str txBytes"
  obtains rest where "outbox W' = outbox W @ EBroadcast (the txBytes) # rest" "\<forall>b. EBroadcast b \<notin> set rest"
  using assms(1)
proof (cases rule: settlement_cases)
  case no_tx
  with assms(2) show thesis by simp
next
  case (failed br)
  then show thesis by (intro that [of "[]"]) (auto simp: refusal_defs frame_simps)
next
  case (stale br)
  then show thesis by (intro that [of "[]"]) (auto simp: refusal_defs frame_simps)
next
  case (accepted tx)
  from accepted(3) show thesis
  proof (cases rule: settle_accepted_cases)
    case (step bu sale1 wd' ref n k)
    then show thesis
      by (intro that [of "(if 0 < bu_burnAmount bu \<and> se_mnemonic en then [EBurn (bu_burnAmount bu)] else [])
            @ replicate n (EB2C k phone)"]) (auto simp: frame_simps)
  qed
qed

text \<open>
  the answer and the two documents agree. A refusal leaves both failed, a stale signature
  leaves both waiting for a new one, and an accepted transfer leaves the sale broadcast and the
  withdrawal paid out, under review or failed; every other sale and withdrawal is untouched.
\<close>

theorem settlement_statuses:
  assumes x: "executeSellSettlement en sale wd txBytes amount phone sa saleId kes W = (r, W')"
    and present: "find_sale (s_saleId sale) W \<noteq> None" "find_withdrawal (w_withdrawalId wd) W \<noteq> None"
  shows "(\<exists>s w. find_sale (s_saleId sale) W' = Some s \<and> find_withdrawal (w_withdrawalId wd) W' = Some w
        \<and> settled r (s_status s) (w_status w))
    \<and> (\<forall>k. k \<noteq> s_saleId sale \<longrightarrow> find_sale k W' = find_sale k W)
    \<and> (\<forall>k. k \<noteq> w_withdrawalId wd \<longrightarrow> find_withdrawal k W' = find_withdrawal k W)"
  using x
proof (cases rule: settlement_docs)
  case (1 s w)
  then have f: "find_sale i W' = find_sale i (save_sale s W)"
    "find_withdrawal i W' = find_withdrawal i (save_withdrawal w W)" for i
    by (simp_all add: find_sale_def find_withdrawal_def frame_simps)
  have "s_saleId s = s_saleId sale" "w_withdrawalId w = w_withdrawalId wd"
    using 1 by (simp_all add: same_sale_def same_request_def)
  then show ?thesis
    using 1(3) present saledb.find_save [of s W] saledb.find_save_other [of _ s W]
      wddb.find_save [of w W] wddb.find_save_other [of _ w W] by (auto simp: f)
qed

section \<open>Concrete settlements\<close>

definition demo_sale :: sale where
  "demo_sale = \<lparr>s_saleId = ''s1'', s_sellerAddress = ''mall1'', s_amount = 500, s_phone = Some ''254'',
     s_status = SPending, s_txHash = None, s_burnAmount = 0, s_burnTxHash = None,
     s_treasuryAmount = 0, s_burnPercentage = 0, s_reason = None, s_pendingTxBytes = None,
     s_pendingTxBytesSetAt = None, s_createdAt = 0\<rparr>"

definition demo_settle_env :: "string + (string option \<times> nat \<times> string option) \<Rightarrow> settle_env" where
  "demo_settle_env reply = \<lparr>se_now = 0, se_chain = (\<lambda>_. reply), se_decimals = 6, se_supply = None,
     se_mnemonic = True, se_burnTx = (\<lambda>_. Inl ''timeout''), se_pay = demo_env\<rparr>"

definition demo_settle_world :: world where
  "demo_settle_world = empty_world\<lparr>sales := [demo_sale], withdrawals := [demo_wd],
     burnPolicies := default_policies, burnThresholds := default_thresholds\<rparr>"

text \<open>One run, by what the chain answers to the broadcast.\<close>

abbreviation demo_run where
  "demo_run reply txBytes \<equiv> executeSellSettlement (demo_settle_env reply) demo_sale demo_wd txBytes 500
     ''254'' ''mall1'' ''s1'' 500 demo_settle_world"

lemma demo_ok: "br_ok (broadcastSignedTx (demo_settle_env (Inr (Some ''TX'', 0, None))) b)"
  by (simp add: broadcastSignedTx_def demo_settle_env_def)

lemma demo_run_status: "settle_status (fst (demo_run (Inr (Some ''TX'', 0, None)) (Some ''AA''))) = 200"
  using demo_ok by (simp only: settlement_status_200) (simp add: truthy_str_def)

lemma demo_stale_run: "fst (demo_run (Inr (Some ''TX'', 32, Some ''account sequence mismatch'')) (Some ''AA'')) = SettleResign"
proof -
  have m: "sequence_mismatch ''account sequence mismatch''" by code_simp
  then show ?thesis
    by (simp add: executeSellSettlement_def broadcastSignedTx_def demo_settle_env_def truthy_str_def
        settle_stale_def Let_def)
qed

theorem refused_settlement_moves_no_money_witness:
  "outbox (snd (demo_run (Inr (Some ''TX'', 32, Some ''account sequence mismatch'')) (Some ''AA'')))
     = [EBroadcast ''AA'']"
  using refused_settlement_moves_no_money [OF prod.collapse [symmetric],
      of "demo_settle_env (Inr (Some ''TX'', 32, Some ''account sequence mismatch''))" demo_sale demo_wd
        "Some ''AA''" 500 "''254''" "''mall1''" "''s1''" 500 demo_settle_world] demo_stale_run
  by (simp add: truthy_str_def demo_settle_world_def)

theorem settlement_call_order_witness:
  "\<exists>b n k. outbox (snd (demo_run (Inr (Some ''TX'', 0, None)) (Some ''AA'')))
      = EBroadcast ''AA'' # b @ replicate n (EB2C k ''254'') \<and> n \<le> 3"
  using settlement_call_order [OF prod.collapse [symmetric] demo_run_status]
  by (auto simp: demo_settle_world_def)

theorem settlement_statuses_witness:
  "\<exists>s w. find_sale ''s1'' (snd (demo_run (Inr (Some ''TX'', 0, None)) (Some ''AA''))) = Some s
     \<and> find_withdrawal ''withdrawal-s1'' (snd (demo_run (Inr (Some ''TX'', 0, None)) (Some ''AA''))) = Some w
     \<and> settled (fst (demo_run (Inr (Some ''TX'', 0, None)) (Some ''AA''))) (s_status s) (w_status w)"
proof -
  have "find_sale (s_saleId demo_sale) demo_settle_world \<noteq> None"
    "find_withdrawal (w_withdrawalId demo_wd) demo_settle_world \<noteq> None"
    by (simp_all add: find_sale_def find_withdrawal_def demo_settle_world_def)
  from settlement_statuses [OF prod.collapse [symmetric] this,
      of "demo_settle_env (Inr (Some ''TX'', 0, None))" "Some ''AA''" 500 "''254''" "''mall1''" "''s1''" 500]
  show ?thesis by (simp add: demo_sale_def demo_wd_def)
qed

section \<open>What the ledger books\<close>

text \<open>The sum of the ledger's entries, whatever their direction.\<close>

definition booked :: "world \<Rightarrow> num" where
  "booked W = sum_list (map l_amount (ledger W))"

lemma burn_workflow_books:
  assumes "executeSellBurnWorkflow en saleId amount sale W = (bu, sale', W')"
  shows "booked W' - booked W =
      bu_treasuryAmount bu + (if 0 < bu_burnAmount bu \<and> truthy_str (bu_txHash bu) then bu_burnAmount bu else 0)"
  using assms by (auto simp: executeSellBurnWorkflow_def Let_def add_ledger_def booked_def frame_simps
      ledger_burn_def ledger_inflow_def emit_def split: prod.splits)

lemma burn_workflow_split:
  assumes "executeSellBurnWorkflow en saleId amount sale W = (bu, sale', W')"
    and "0 \<le> amount" "amount \<le> 2 ^ 53"
    and "\<forall>p \<in> set (burnPolicies W). 0 \<le> bp_percentage p \<and> bp_percentage p \<le> 100"
    and "\<forall>t \<in> set (burnThresholds W). 0 \<le> bt_percentage t \<and> bt_percentage t \<le> 100"
  shows "bu_burnAmount bu + bu_treasuryAmount bu = js_floor amount" "0 \<le> bu_burnAmount bu" "0 \<le> bu_treasuryAmount bu"
proof -
  let ?rate = "getEffectiveBurnRate CashOut (getCirculatingSupply (se_decimals en) (se_supply en))
    (Some (burnPolicies W)) (Some (burnThresholds W))"
  have "0 \<le> \<lfloor>amount\<rfloor>" "\<lfloor>amount\<rfloor> \<le> 2 ^ 53" using assms(2,3) by (simp_all add: floor_le_iff)
  then obtain b where "calculateBurnSplit (of_int \<lfloor>amount\<rfloor>) ?rate = (of_int b, of_int (\<lfloor>amount\<rfloor> - b), ?rate)"
    "0 \<le> b" "b \<le> \<lfloor>amount\<rfloor>"
    using burn_split_int effective_rate_range [OF assms(4,5)] by metis
  then show "bu_burnAmount bu + bu_treasuryAmount bu = js_floor amount" "0 \<le> bu_burnAmount bu" "0 \<le> bu_treasuryAmount bu"
    using assms(1) by (auto simp: executeSellBurnWorkflow_def Let_def js_floor_def)
qed



text \<open>
  a cash-out of 500 whose burn transaction times out is answered as a success, and 150 of the
  500 are booked nowhere.
\<close>

theorem failed_burn_unbooked:
  "\<exists>tx ref bu W'. demo_run (Inr (Some ''TX'', 0, None)) (Some ''AA'') = (SettleOk tx ref bu, W')
     \<and> bu_burnAmount bu = 150 \<and> bu_txHash bu = None \<and> booked W' = 350"
proof -
  have rate: "getEffectiveBurnRate CashOut 1000000000 (Some default_policies) (Some default_thresholds) = 30"
    by (simp add: getEffectiveBurnRate_def getDynamicBurnRate_def getStaticBurnRate_def
      shouldUseDynamic_def default_policies_def default_thresholds_def)
  have sp: "calculateBurnSplit (js_floor 500) 30 = (150, 350, 30)" by code_simp
  obtain r W' where r: "demo_run (Inr (Some ''TX'', 0, None)) (Some ''AA'') = (r, W')" by fastforce
  from r show ?thesis
  proof (cases rule: settlement_cases)
    case (accepted tx)
    from accepted(3) show ?thesis
    proof (cases rule: settle_accepted_cases)
      case (step bu sale1 wd' ref n k)
      then obtain sale0 V V' where e: "executeSellBurnWorkflow (demo_settle_env (Inr (Some ''TX'', 0, None))) ''s1'' 500 sale0 V = (bu, sale1, V')"
        and l: "ledger V = []" "burnPolicies V = default_policies" "burnThresholds V = default_thresholds"
          "ledger W' = ledger V'"
        by (auto simp: frame_simps emit_def demo_settle_world_def)
      have "bu_burnAmount bu = 150 \<and> bu_treasuryAmount bu = 350 \<and> bu_txHash bu = None"
        using e l by (auto simp: executeSellBurnWorkflow_def Let_def demo_settle_env_def
            getCirculatingSupply_def rate sp)
      with burn_workflow_books [OF e] l r step show ?thesis
        by (simp add: booked_def truthy_str_def)
    qed
  qed (use demo_run_status r in \<open>auto simp: refusal_defs truthy_str_def split: if_splits\<close>)
qed

end
