(* ===== verification/Liquidity.thy ===== *)
theory Liquidity
  imports MallcoinService
begin

text \<open>
  \<open>controllers/liquidityController.js\<close> with the transaction guards of \<open>services/dexTxBuilder.js\<close>: the
  snapshot of the MLCN/KES pool read from the chain, the in-memory pools with their cache, and the
  two operations on them. What the chain answers is an environment; a reply of \<open>None\<close> is a request
  that throws, and a number in a reply is one that \<open>Number\<close> reads as finite.
\<close>

section \<open>What the chain answers\<close>

record trade =
  tr_timestamp :: num
  tr_price :: num
  tr_mlcn :: num
  tr_kes :: num

record chain_result =
  cr_code :: nat
  cr_rawLog :: "string option"
  cr_hash :: string

record liq_env =
  le_now :: int
  le_price :: "(num \<times> num) option"
  le_poolAccount :: string
  le_balances :: "(string \<times> num) list option"
  le_trades :: "trade list option"
  le_denom0 :: string
  le_denom1 :: string
  le_dec0 :: nat
  le_dec1 :: nat
  le_cacheMs :: int
  le_mnemonic :: "string option"
  le_address :: "string \<Rightarrow> string + string"
  le_addTx :: "num \<Rightarrow> num \<Rightarrow> string + chain_result"
  le_removeTx :: "num \<Rightarrow> string + chain_result"

section \<open>Reading a pool\<close>

text \<open>\<open>asAmount\<close> takes a value that may be absent or not a number.\<close>

datatype amount_arg = AUndefined | ANotANumber | ANum num

definition asAmount :: "amount_arg \<Rightarrow> string \<Rightarrow> string + num" where
  "asAmount v field =
     (case v of ANum n \<Rightarrow> if n \<le> 0 then Inl (''Invalid '' @ field @ '': must be a positive numeric value'') else Inr n
      | _ \<Rightarrow> Inl (''Invalid '' @ field @ '': must be a positive numeric value''))"

definition parseAmount :: "num option \<Rightarrow> nat \<Rightarrow> num" where
  "parseAmount amount decimals =
     (let num = or_else amount 0 in if num < 0 then 0 else js_div num (fl (10 ^ decimals)))"

definition trade_value :: "trade \<Rightarrow> num" where
  "trade_value t = num_or (tr_kes t) (js_mul (tr_mlcn t) (js_div (tr_price t) 100))"

definition fetchTradeVolume24h :: "liq_env \<Rightarrow> num" where
  "fetchTradeVolume24h en =
     (case le_trades en of None \<Rightarrow> 0
      | Some ts \<Rightarrow>
          (let dayAgo = js_sub (js_div (of_int (le_now en)) 1000) 86400
           in fold (\<lambda>t s. js_add s (trade_value t)) (filter (\<lambda>t. dayAgo \<le> tr_timestamp t) ts) 0))"

definition find_amount :: "(string \<times> num) list \<Rightarrow> string \<Rightarrow> nat \<Rightarrow> num" where
  "find_amount balances denom decimals =
     parseAmount (map_option snd (coll_find (\<lambda>b. fst b = denom) balances)) decimals"

definition fetchPoolReserves :: "liq_env \<Rightarrow> num \<times> num" where
  "fetchPoolReserves en =
     (if le_poolAccount en = [] then (0, 0)
      else case le_balances en of None \<Rightarrow> (0, 0)
        | Some bs \<Rightarrow> (find_amount bs (le_denom0 en) (le_dec0 en), find_amount bs (le_denom1 en) (le_dec1 en)))"

text \<open>The mid price in KES; the KES price is 1.\<close>

definition fetchMarketPrices :: "liq_env \<Rightarrow> num" where
  "fetchMarketPrices en =
     (case le_price en of None \<Rightarrow> fl (6 / 10)
      | Some (buy_price, sell_price) \<Rightarrow> js_div (js_add buy_price sell_price) 200)"

definition calculateTVL :: "num \<Rightarrow> num \<Rightarrow> num \<Rightarrow> num \<Rightarrow> num" where
  "calculateTVL reserve0 reserve1 priceMlcn priceKes =
     js_add (js_mul reserve0 priceMlcn) (js_mul reserve1 priceKes)"

text \<open>
  \<open>fetchPoolsFromBlockchain\<close>. The three reads answer with a default instead of throwing, so the
  fallback branch of the source is never taken.
\<close>

definition fetchPoolsFromBlockchain :: "liq_env \<Rightarrow> pool list" where
  "fetchPoolsFromBlockchain en =
     (let priceMlcn = fetchMarketPrices en; (reserve0, reserve1) = fetchPoolReserves en;
          volume24h = fetchTradeVolume24h en
      in [\<lparr>pl_id = 2, pl_reserve0 = reserve0, pl_reserve1 = reserve1,
           pl_tvl = js_round (calculateTVL reserve0 reserve1 priceMlcn 1),
           pl_totalLiquidity = js_add reserve0 reserve1, pl_userPositions = Map.empty,
           pl_priceMlcn = priceMlcn, pl_volume24h = js_round volume24h, pl_blockchainSource = True\<rparr>])"

section \<open>The in-memory pools\<close>

text \<open>
  After a load the cache and the pools are one array, so a change to a pool shows in both.
\<close>

definition find_pool :: "nat \<Rightarrow> world \<Rightarrow> pool option" where
  "find_pool i W = coll_find (\<lambda>p. pl_id p = i) (pools W)"

definition load_pools :: "liq_env \<Rightarrow> world \<Rightarrow> world" where
  "load_pools en W = (let fresh = fetchPoolsFromBlockchain en
     in W\<lparr>pools := fresh, poolsCache := Some (fresh, le_now en)\<rparr>)"

definition save_pool :: "pool \<Rightarrow> world \<Rightarrow> world" where
  "save_pool p W = (let ps = coll_put pl_id p (pools W)
     in W\<lparr>pools := ps, poolsCache := map_option (\<lambda>(_, t). (ps, t)) (poolsCache W)\<rparr>)"

definition ensurePoolsLoaded :: "liq_env \<Rightarrow> world \<Rightarrow> world" where
  "ensurePoolsLoaded en W = (if pools W \<noteq> [] then W else load_pools en W)"

text \<open>The answer: the pools, and whether they come from the cache.\<close>

definition getAllPools :: "liq_env \<Rightarrow> world \<Rightarrow> (pool list \<times> bool) \<times> world" where
  "getAllPools en W =
     (case poolsCache W of
        Some (ps, t) \<Rightarrow>
          if le_now en - t < le_cacheMs en then ((ps, True), W)
          else (let W' = load_pools en W in ((pools W', False), W'))
      | None \<Rightarrow> (let W' = load_pools en W in ((pools W', False), W')))"

definition getPool :: "liq_env \<Rightarrow> nat \<Rightarrow> world \<Rightarrow> pool option \<times> world" where
  "getPool en poolId W = (let W1 = ensurePoolsLoaded en W in (find_pool poolId W1, W1))"

definition position :: "pool \<Rightarrow> string \<Rightarrow> num" where
  "position p u = or_else (pl_userPositions p u) 0"

definition pool_price :: "pool \<Rightarrow> num" where
  "pool_price p = num_or (pl_priceMlcn p) (fl (6 / 10))"

definition pool_tvl :: "pool \<Rightarrow> num" where
  "pool_tvl p = js_round (js_add (js_mul (pl_reserve0 p) (pool_price p)) (pl_reserve1 p))"

definition share_of_pool :: "pool \<Rightarrow> string \<Rightarrow> num" where
  "share_of_pool p u =
     (if 0 < pl_totalLiquidity p then js_mul (js_div (position p u) (pl_totalLiquidity p)) 100 else 0)"

section \<open>Transactions\<close>

text \<open>\<open>toBaseUnits\<close> of the builder; its argument has passed \<open>asAmount\<close>, so it does not throw.\<close>

definition dex_toBaseUnits :: "num \<Rightarrow> nat \<Rightarrow> string + num" where
  "dex_toBaseUnits v decimals =
     (if v < 0 then Inl ''Invalid amount for base unit conversion''
      else Inr (js_round (js_mul v (fl (10 ^ decimals)))))"

definition gas_limit :: "num option \<Rightarrow> num" where
  "gas_limit simulated = min (js_ceil (js_mul (or_else simulated 250000) (fl (13 / 10)))) 800000"

definition tx_outcome :: "string \<Rightarrow> string + chain_result \<Rightarrow> string + string" where
  "tx_outcome failed reply =
     (case reply of Inl e \<Rightarrow> Inl e
      | Inr r \<Rightarrow> if cr_code r \<noteq> 0
                then Inl (the (str_or (cr_rawLog r) (Some (failed @ show_nat (cr_code r)))))
                else Inr (cr_hash r))"

text \<open>The guards before the broadcast; the first argument is the provider's address.\<close>

definition dex_guard ::
  "liq_env \<Rightarrow> string \<Rightarrow> string \<Rightarrow> nat \<Rightarrow> (string \<times> string) list \<Rightarrow> string option" where
  "dex_guard en provider mnemonic poolId tokens =
     (if poolId = 0 then Some ''Missing poolId''
      else case le_address en mnemonic of Inl e \<Rightarrow> Some e
        | Inr signer \<Rightarrow>
            if provider \<noteq> [] \<and> signer \<noteq> provider then Some ''Provider mnemonic does not match provider address''
            else map_option (\<lambda>t. fst t @ '' must include denom and amount'')
                   (coll_find (\<lambda>t. snd t = []) tokens))"

definition addLiquidityOnChain ::
  "liq_env \<Rightarrow> string \<Rightarrow> string \<Rightarrow> nat \<Rightarrow> num \<Rightarrow> num \<Rightarrow> world \<Rightarrow> (string + string) \<times> world" where
  "addLiquidityOnChain en mnemonic provider poolId tokenA tokenB W =
     (case dex_guard en provider mnemonic poolId [(''tokenA'', le_denom0 en), (''tokenB'', le_denom1 en)] of
        Some e \<Rightarrow> (Inl e, W)
      | None \<Rightarrow> (tx_outcome ''Add liquidity failed with code '' (le_addTx en tokenA tokenB),
                emit (EAddLiquidity poolId tokenA tokenB) W))"

definition removeLiquidityOnChain ::
  "liq_env \<Rightarrow> string \<Rightarrow> string \<Rightarrow> nat \<Rightarrow> num \<Rightarrow> world \<Rightarrow> (string + string) \<times> world" where
  "removeLiquidityOnChain en mnemonic provider poolId lp W =
     (case dex_guard en provider mnemonic poolId [(''liquidityTokens'', ''liquidity-'' @ show_nat poolId)] of
        Some e \<Rightarrow> (Inl e, W)
      | None \<Rightarrow> (tx_outcome ''Remove liquidity failed with code '' (le_removeTx en lp),
                emit (ERemoveLiquidity poolId lp) W))"

section \<open>Adding liquidity\<close>

record liq_result =
  lq_lpTokens :: num
  lq_txHash :: string
  lq_userPosition :: num
  lq_shareOfPool :: num

definition grown_pool :: "pool \<Rightarrow> string \<Rightarrow> num \<Rightarrow> num \<Rightarrow> pool" where
  "grown_pool p u a0 a1 =
     (let lpTokens = js_sqrt (js_mul a0 a1);
          p1 = p\<lparr>pl_reserve0 := js_add (pl_reserve0 p) a0, pl_reserve1 := js_add (pl_reserve1 p) a1,
                 pl_totalLiquidity := js_add (pl_totalLiquidity p) lpTokens,
                 pl_userPositions := (pl_userPositions p)(u \<mapsto> js_add (position p u) lpTokens)\<rparr>
      in p1\<lparr>pl_tvl := pool_tvl p1\<rparr>)"

definition add_on_chain ::
  "liq_env \<Rightarrow> string \<Rightarrow> nat \<Rightarrow> pool \<Rightarrow> num \<Rightarrow> num \<Rightarrow> world \<Rightarrow> (string + liq_result) \<times> world" where
  "add_on_chain en userAddress poolId p a0 a1 W =
     (if \<not> truthy_str (le_mnemonic en) then (Inl ''Missing OPERATOR_MNEMONIC for on-chain liquidity additions'', W)
      else let mnemonic = the (le_mnemonic en) in
        case le_address en mnemonic of Inl e \<Rightarrow> (Inl e, W)
        | Inr provider \<Rightarrow>
            (case (dex_toBaseUnits a0 (le_dec0 en), dex_toBaseUnits a1 (le_dec1 en)) of
               (Inr tokenA, Inr tokenB) \<Rightarrow>
                 (case addLiquidityOnChain en mnemonic provider poolId tokenA tokenB W of
                    (Inl e, W1) \<Rightarrow> (Inl e, W1)
                  | (Inr txHash, W1) \<Rightarrow>
                      (let p' = grown_pool p userAddress a0 a1
                       in (Inr \<lparr>lq_lpTokens = to_fixed 6 (js_sqrt (js_mul a0 a1)), lq_txHash = txHash,
                               lq_userPosition = to_fixed 6 (position p' userAddress),
                               lq_shareOfPool = to_fixed 2 (share_of_pool p' userAddress)\<rparr>,
                           save_pool p' W1)))
             | (Inl e, _) \<Rightarrow> (Inl e, W)
             | (_, Inl e) \<Rightarrow> (Inl e, W)))"

definition addLiquidityToPool ::
  "liq_env \<Rightarrow> nat \<Rightarrow> amount_arg \<Rightarrow> amount_arg \<Rightarrow> string \<Rightarrow> world \<Rightarrow> (string + liq_result) \<times> world" where
  "addLiquidityToPool en poolId amount0 amount1 userAddress W =
     (if poolId = 0 then (Inl ''Missing required field: poolId'', W)
      else if userAddress = [] then (Inl ''Missing required field: userAddress'', W)
      else let W0 = ensurePoolsLoaded en W in
        case find_pool poolId W0 of None \<Rightarrow> (Inl ''Pool not found'', W0)
        | Some p \<Rightarrow>
            if amount0 = AUndefined \<or> amount1 = AUndefined
            then (Inl ''Both amount0 and amount1 are required to add liquidity'', W0)
            else case (asAmount amount0 ''amount0'', asAmount amount1 ''amount1'') of
              (Inl e, _) \<Rightarrow> (Inl e, W0)
            | (Inr a0, Inl e) \<Rightarrow> (Inl e, W0)
            | (Inr a0, Inr a1) \<Rightarrow> add_on_chain en userAddress poolId p a0 a1 W0)"

text \<open>The request handler; the statuses are 400, 200 and 500.\<close>

datatype add_resp = AddMissing string | AddOk liq_result | AddError string

definition addLiquidity ::
  "liq_env \<Rightarrow> nat \<Rightarrow> amount_arg \<Rightarrow> amount_arg \<Rightarrow> string \<Rightarrow> world \<Rightarrow> add_resp \<times> world" where
  "addLiquidity en poolId amount0 amount1 userAddress W =
     (if poolId = 0 then (AddMissing ''poolId'', W)
      else if userAddress = [] then (AddMissing ''userAddress'', W)
      else if amount0 = AUndefined \<or> amount1 = AUndefined then (AddMissing ''amount0 and amount1'', W)
      else case addLiquidityToPool en poolId amount0 amount1 userAddress W of
        (Inl e, W1) \<Rightarrow> (AddError e, W1) | (Inr r, W1) \<Rightarrow> (AddOk r, W1))"

section \<open>Removing liquidity\<close>

text \<open>
  With a total of 0 the source divides by zero and goes on with an infinite share; that case is an
  answer of its own here, after the same transaction, and its pool is not modelled further.
\<close>

datatype remove_resp =
    RemMissing string | RemNoPool | RemBadAmount string | RemBadSlippage | RemNoLiquidity
  | RemInsufficient num | RemNoMnemonic | RemError string | RemChainError string
  | RemNonFinite | RemOk num num num string

fun remove_status :: "remove_resp \<Rightarrow> nat" where
  "remove_status RemNoPool = 404"
| "remove_status RemNoMnemonic = 500"
| "remove_status (RemError _) = 500"
| "remove_status (RemChainError _) = 502"
| "remove_status RemNonFinite = 200"
| "remove_status (RemOk _ _ _ _) = 200"
| "remove_status _ = 400"

definition shrunk_pool :: "pool \<Rightarrow> string \<Rightarrow> num \<Rightarrow> pool" where
  "shrunk_pool p u lp =
     (let shareRatio = js_div lp (pl_totalLiquidity p);
          amount0 = js_mul (pl_reserve0 p) shareRatio; amount1 = js_mul (pl_reserve1 p) shareRatio;
          p1 = p\<lparr>pl_reserve0 := max 0 (js_sub (pl_reserve0 p) amount0),
                 pl_reserve1 := max 0 (js_sub (pl_reserve1 p) amount1),
                 pl_totalLiquidity := max 0 (js_sub (pl_totalLiquidity p) lp),
                 pl_userPositions := (pl_userPositions p)(u \<mapsto> max 0 (js_sub (position p u) lp))\<rparr>
      in p1\<lparr>pl_tvl := pool_tvl p1\<rparr>)"

definition remove_on_chain :: "liq_env \<Rightarrow> string \<Rightarrow> nat \<Rightarrow> pool \<Rightarrow> num \<Rightarrow> world \<Rightarrow> remove_resp \<times> world" where
  "remove_on_chain en userAddress poolId p lp W =
     (if \<not> truthy_str (le_mnemonic en) then (RemNoMnemonic, W)
      else case le_address en (the (le_mnemonic en)) of Inl e \<Rightarrow> (RemError e, W)
      | Inr provider \<Rightarrow>
          (case dex_toBaseUnits lp (le_dec0 en) of Inl e \<Rightarrow> (RemError e, W)
           | Inr units \<Rightarrow>
               (case removeLiquidityOnChain en (the (le_mnemonic en)) provider poolId units W of
                  (Inl e, W1) \<Rightarrow> (RemChainError e, W1)
                | (Inr txHash, W1) \<Rightarrow>
                    if pl_totalLiquidity p = 0 then (RemNonFinite, W1)
                    else (let shareRatio = js_div lp (pl_totalLiquidity p); p' = shrunk_pool p userAddress lp
                          in (RemOk (js_mul (pl_reserve0 p) shareRatio) (js_mul (pl_reserve1 p) shareRatio)
                                (position p' userAddress) txHash, save_pool p' W1)))))"

definition removeLiquidity ::
  "liq_env \<Rightarrow> nat \<Rightarrow> amount_arg \<Rightarrow> num option \<Rightarrow> string \<Rightarrow> world \<Rightarrow> remove_resp \<times> world" where
  "removeLiquidity en poolId lpTokens slippage userAddress W =
     (if poolId = 0 then (RemMissing ''poolId'', W)
      else if userAddress = [] then (RemMissing ''userAddress'', W)
      else let W0 = ensurePoolsLoaded en W in
        case find_pool poolId W0 of None \<Rightarrow> (RemNoPool, W0)
        | Some p \<Rightarrow>
            case asAmount lpTokens ''lpTokens'' of Inl e \<Rightarrow> (RemBadAmount e, W0)
            | Inr lp \<Rightarrow>
                if slippage = None \<or> the slippage < 0 \<or> 5 < the slippage then (RemBadSlippage, W0)
                else let userLiquidity = position p userAddress in
                  if userLiquidity \<le> 0 then (RemNoLiquidity, W0)
                  else if js_add userLiquidity (fl (1 / 10 ^ 8)) < lp then (RemInsufficient userLiquidity, W0)
                  else remove_on_chain en userAddress poolId p lp W0)"

text \<open>\<open>getUserPosition\<close>: LP tokens, share and value, as the decimal texts read back.\<close>

datatype position_resp = PosMissing | PosNoPool | PosOk num num num

definition getUserPosition :: "liq_env \<Rightarrow> nat option \<Rightarrow> string \<Rightarrow> world \<Rightarrow> position_resp \<times> world" where
  "getUserPosition en poolId userAddress W =
     (if poolId = None \<or> userAddress = [] then (PosMissing, W)
      else let W0 = ensurePoolsLoaded en W in
        (case find_pool (the poolId) W0 of None \<Rightarrow> PosNoPool
         | Some p \<Rightarrow> PosOk (to_fixed 6 (position p userAddress)) (to_fixed 2 (share_of_pool p userAddress))
                       (to_fixed 2 (js_mul (position p userAddress) (pool_price p))), W0))"

section \<open>The invariant of the pools\<close>

definition pool_ok :: "pool \<Rightarrow> bool" where
  "pool_ok p \<longleftrightarrow> 0 \<le> pl_reserve0 p \<and> 0 \<le> pl_reserve1 p \<and> 0 \<le> pl_totalLiquidity p
     \<and> (\<forall>u v. pl_userPositions p u = Some v \<longrightarrow> 0 \<le> v)"

definition pools_ok :: "world \<Rightarrow> bool" where
  "pools_ok W \<longleftrightarrow> (\<forall>p \<in> set (pools W). pool_ok p) \<and> (\<forall>ps t. poolsCache W = Some (ps, t) \<longrightarrow> ps = pools W)"

lemma js_nonneg: "0 \<le> a \<Longrightarrow> 0 \<le> b \<Longrightarrow> 0 \<le> js_add a b" "0 \<le> a \<Longrightarrow> 0 \<le> b \<Longrightarrow> 0 \<le> js_mul a b"
    "0 \<le> a \<Longrightarrow> 0 \<le> b \<Longrightarrow> 0 \<le> js_div a b"
  by (simp_all add: js_arith ieee.rnd_nonneg)

lemma parseAmount_nonneg: "0 \<le> parseAmount a d"
  by (auto simp: parseAmount_def Let_def intro!: js_nonneg ieee.rnd_nonneg)

lemma reserves_nonneg: "fetchPoolReserves en = (r0, r1) \<Longrightarrow> 0 \<le> r0 \<and> 0 \<le> r1"
  by (auto simp: fetchPoolReserves_def find_amount_def parseAmount_nonneg split: if_splits option.splits)

lemma fetched_pools_ok: "p \<in> set (fetchPoolsFromBlockchain en) \<Longrightarrow> pool_ok p"
  by (cases "fetchPoolReserves en")
    (auto simp: fetchPoolsFromBlockchain_def pool_ok_def Let_def js_nonneg dest: reserves_nonneg)

lemma load_pools_ok: "pools_ok (load_pools en W)"
  by (auto simp: pools_ok_def load_pools_def Let_def fetched_pools_ok)

lemma ensure_pools_ok: "pools_ok W \<Longrightarrow> pools_ok (ensurePoolsLoaded en W)"
  by (simp add: ensurePoolsLoaded_def load_pools_ok)

lemma save_pool_ok: "pools_ok W \<Longrightarrow> pool_ok p \<Longrightarrow> pools_ok (save_pool p W)"
  using set_coll_put [of pl_id p "pools W"] by (auto simp: pools_ok_def save_pool_def Let_def)

lemma find_pool_ok: "pools_ok W \<Longrightarrow> find_pool i W = Some p \<Longrightarrow> pool_ok p \<and> pl_id p = i"
  by (auto simp: pools_ok_def find_pool_def dest: coll_find_Some)

lemma position_nonneg: "pool_ok p \<Longrightarrow> 0 \<le> position p u"
  by (cases "pl_userPositions p u") (auto simp: pool_ok_def position_def or_else_def)

lemma grown_pool_ok: "pool_ok p \<Longrightarrow> 0 \<le> a0 \<Longrightarrow> 0 \<le> a1 \<Longrightarrow> pool_ok (grown_pool p u a0 a1)"
  using position_nonneg [of p u] js_sqrt_nonneg
  by (auto simp: grown_pool_def pool_ok_def Let_def js_nonneg split: if_splits)

lemma shrunk_pool_ok: "pool_ok p \<Longrightarrow> pool_ok (shrunk_pool p u lp)"
  by (auto simp: shrunk_pool_def pool_ok_def Let_def split: if_splits)

lemma emit_pools_ok [simp]: "pools_ok (emit e W) = pools_ok W"
  by (simp add: pools_ok_def frame_simps)

section \<open>What an addition does\<close>

lemma asAmount_Inr: "asAmount v f = Inr n \<Longrightarrow> v = ANum n \<and> 0 < n"
  by (auto simp: asAmount_def split: amount_arg.splits if_splits)

lemma add_cases:
  assumes "addLiquidityToPool en i x0 x1 u W = (r, W')"
  obtains (rejected) e where "r = Inl e" "W' = W \<or> W' = ensurePoolsLoaded en W"
  | (chain) e t0 t1 where "r = Inl e" "W' = emit (EAddLiquidity i t0 t1) (ensurePoolsLoaded en W)"
  | (added) p a0 a1 q where "x0 = ANum a0" "0 < a0" "x1 = ANum a1" "0 < a1"
      "find_pool i (ensurePoolsLoaded en W) = Some p"
      "W' = save_pool (grown_pool p u a0 a1)
              (emit (EAddLiquidity i (js_round (js_mul a0 (fl (10 ^ le_dec0 en)))) (js_round (js_mul a1 (fl (10 ^ le_dec1 en)))))
                 (ensurePoolsLoaded en W))"
      "r = Inr q" "lq_lpTokens q = to_fixed 6 (js_sqrt (js_mul a0 a1))"
proof -
  note d = assms [unfolded addLiquidityToPool_def Let_def]
  show thesis
  proof (cases "\<exists>p a0 a1. i \<noteq> 0 \<and> u \<noteq> [] \<and> find_pool i (ensurePoolsLoaded en W) = Some p
      \<and> asAmount x0 ''amount0'' = Inr a0 \<and> asAmount x1 ''amount1'' = Inr a1")
    case False
    then have "(\<exists>e. r = Inl e) \<and> (W' = W \<or> W' = ensurePoolsLoaded en W)"
      using d by (auto split: if_splits option.splits sum.splits)
    then show thesis using rejected by blast
  next
    case True
    then obtain p a0 a1 where c: "i \<noteq> 0" "u \<noteq> []" "find_pool i (ensurePoolsLoaded en W) = Some p"
      "asAmount x0 ''amount0'' = Inr a0" "asAmount x1 ''amount1'' = Inr a1" by blast
    from asAmount_Inr [OF c(4)] asAmount_Inr [OF c(5)] have x: "x0 = ANum a0" "0 < a0" "x1 = ANum a1" "0 < a1"
      by simp_all
    with d c have a: "add_on_chain en u i p a0 a1 (ensurePoolsLoaded en W) = (r, W')" by simp
    show thesis
    proof (cases r)
      case (Inl e)
      with a x show thesis
        by (auto simp: add_on_chain_def addLiquidityOnChain_def dex_toBaseUnits_def Let_def
            split: if_splits sum.splits option.splits intro: rejected chain)
    next
      case (Inr q)
      with a x show thesis
        by (intro added [OF x c(3)])
          (auto simp: add_on_chain_def addLiquidityOnChain_def dex_toBaseUnits_def Let_def
            split: if_splits sum.splits option.splits)
    qed
  qed
qed

lemma remove_cases:
  assumes "removeLiquidity en i x sl u W = (r, W')"
  obtains (rejected) "remove_status r \<noteq> 200" "W' = W \<or> W' = ensurePoolsLoaded en W"
  | (chain) n where "remove_status r \<noteq> 200 \<or> r = RemNonFinite"
      "W' = emit (ERemoveLiquidity i n) (ensurePoolsLoaded en W)"
  | (removed) p lp h where "x = ANum lp" "0 < lp" "find_pool i (ensurePoolsLoaded en W) = Some p"
      "0 < position p u" "lp \<le> js_add (position p u) (fl (1 / 10 ^ 8))" "pl_totalLiquidity p \<noteq> 0"
      "r = RemOk (js_mul (pl_reserve0 p) (js_div lp (pl_totalLiquidity p)))
                 (js_mul (pl_reserve1 p) (js_div lp (pl_totalLiquidity p))) (position (shrunk_pool p u lp) u) h"
      "W' = save_pool (shrunk_pool p u lp)
              (emit (ERemoveLiquidity i (js_round (js_mul lp (fl (10 ^ le_dec0 en))))) (ensurePoolsLoaded en W))"
proof -
  note d = assms [unfolded removeLiquidity_def Let_def]
  let ?go = "\<lambda>p lp. i \<noteq> 0 \<and> u \<noteq> [] \<and> find_pool i (ensurePoolsLoaded en W) = Some p
      \<and> asAmount x ''lpTokens'' = Inr lp \<and> \<not> (sl = None \<or> the sl < 0 \<or> 5 < the sl) \<and> \<not> position p u \<le> 0
      \<and> \<not> js_add (position p u) (fl (1 / 10 ^ 8)) < lp"
  show thesis
  proof (cases "\<exists>p lp. ?go p lp")
    case False
    then have "remove_status r \<noteq> 200 \<and> (W' = W \<or> W' = ensurePoolsLoaded en W)"
      using d by (auto split: if_splits option.splits sum.splits)
    then show thesis using rejected by blast
  next
    case True
    then obtain p lp where c: "?go p lp" by blast
    then have x: "x = ANum lp" "0 < lp" using asAmount_Inr [of x] by blast+
    from d c have a: "remove_on_chain en u i p lp (ensurePoolsLoaded en W) = (r, W')" by simp
    show thesis
    proof (cases "\<exists>n h. W' = save_pool (shrunk_pool p u lp) (emit (ERemoveLiquidity i n) (ensurePoolsLoaded en W))
        \<and> r = RemOk (js_mul (pl_reserve0 p) (js_div lp (pl_totalLiquidity p)))
                 (js_mul (pl_reserve1 p) (js_div lp (pl_totalLiquidity p))) (position (shrunk_pool p u lp) u) h
        \<and> n = js_round (js_mul lp (fl (10 ^ le_dec0 en))) \<and> pl_totalLiquidity p \<noteq> 0")
      case True
      then obtain h where "W' = save_pool (shrunk_pool p u lp)
            (emit (ERemoveLiquidity i (js_round (js_mul lp (fl (10 ^ le_dec0 en))))) (ensurePoolsLoaded en W))"
        "r = RemOk (js_mul (pl_reserve0 p) (js_div lp (pl_totalLiquidity p)))
                 (js_mul (pl_reserve1 p) (js_div lp (pl_totalLiquidity p))) (position (shrunk_pool p u lp) u) h"
        "pl_totalLiquidity p \<noteq> 0" by blast
      with c x show thesis by (intro removed [of lp p h]) auto
    next
      case False
      with a x have "(remove_status r \<noteq> 200 \<and> W' = ensurePoolsLoaded en W)
        \<or> ((remove_status r \<noteq> 200 \<or> r = RemNonFinite) \<and> (\<exists>n. W' = emit (ERemoveLiquidity i n) (ensurePoolsLoaded en W)))"
        by (auto simp: remove_on_chain_def removeLiquidityOnChain_def dex_toBaseUnits_def Let_def
            split: if_splits sum.splits option.splits)
      then show thesis using rejected chain by blast
    qed
  qed
qed

section \<open>Properties of the pools\<close>

text \<open>A request, with the chain as it answers at the time.\<close>

datatype pool_call =
    CallAll | CallGet nat | CallAdd nat amount_arg amount_arg string
  | CallRemove nat amount_arg "num option" string | CallPosition "nat option" string

fun pool_step :: "liq_env \<times> pool_call \<Rightarrow> world \<Rightarrow> world" where
  "pool_step (en, CallAll) W = snd (getAllPools en W)"
| "pool_step (en, CallGet i) W = snd (getPool en i W)"
| "pool_step (en, CallAdd i x y u) W = snd (addLiquidity en i x y u W)"
| "pool_step (en, CallRemove i x sl u) W = snd (removeLiquidity en i x sl u W)"
| "pool_step (en, CallPosition i u) W = snd (getUserPosition en i u W)"

lemma addLiquidityToPool_ok: "pools_ok W \<Longrightarrow> pools_ok (snd (addLiquidityToPool en i x y u W))"
proof -
  assume ok: "pools_ok W"
  obtain r W' where a: "addLiquidityToPool en i x y u W = (r, W')" by fastforce
  from a have "pools_ok W'"
  proof (cases rule: add_cases)
    case (added p a0 a1 q)
    then show ?thesis
      using ok find_pool_ok [OF ensure_pools_ok [OF ok]] by (auto intro!: save_pool_ok grown_pool_ok ensure_pools_ok)
  qed (use ok in \<open>auto intro: ensure_pools_ok\<close>)
  with a show ?thesis by simp
qed

lemma removeLiquidity_ok: "pools_ok W \<Longrightarrow> pools_ok (snd (removeLiquidity en i x sl u W))"
proof -
  assume ok: "pools_ok W"
  obtain r W' where a: "removeLiquidity en i x sl u W = (r, W')" by fastforce
  from a have "pools_ok W'"
  proof (cases rule: remove_cases)
    case (removed p lp h)
    then show ?thesis
      using ok find_pool_ok [OF ensure_pools_ok [OF ok]] by (auto intro!: save_pool_ok shrunk_pool_ok ensure_pools_ok)
  qed (use ok in \<open>auto intro: ensure_pools_ok\<close>)
  with a show ?thesis by simp
qed

lemma addLiquidity_ok: "pools_ok W \<Longrightarrow> pools_ok (snd (addLiquidity en i x y u W))"
  using addLiquidityToPool_ok [of W en i x y u]
  by (auto simp: addLiquidity_def split: prod.splits sum.splits)

lemma reads_ok:
  assumes "pools_ok W"
  shows "pools_ok (snd (getAllPools en W))" "pools_ok (snd (getPool en i W))"
    "pools_ok (snd (getUserPosition en j u W))"
  using assms by (auto simp: getAllPools_def getPool_def getUserPosition_def Let_def load_pools_ok ensure_pools_ok
      split: option.splits)

lemma pool_step_ok: "pools_ok W \<Longrightarrow> pools_ok (pool_step c W)"
proof -
  assume ok: "pools_ok W"
  obtain en k where "c = (en, k)" by fastforce
  then show ?thesis
    using reads_ok [OF ok] addLiquidity_ok [OF ok] removeLiquidity_ok [OF ok] by (cases k) auto
qed


text \<open>
  an addition that fails leaves the pools as they were and the user without LP tokens; one that
  succeeds made exactly one chain transaction and raised the reserves, the total and the user's
  position by the amounts.
\<close>

theorem liquidity_add_atomic:
  assumes "addLiquidityToPool en i x y u W = (r, W')" "pools W \<noteq> []"
  shows "(case r of Inl e \<Rightarrow> pools W' = pools W \<and> poolsCache W' = poolsCache W
     | Inr q \<Rightarrow> \<exists>p p' a0 a1 t0 t1. x = ANum a0 \<and> y = ANum a1 \<and> find_pool i W = Some p \<and> find_pool i W' = Some p'
         \<and> outbox W' = outbox W @ [EAddLiquidity i t0 t1]
         \<and> pl_reserve0 p' = js_add (pl_reserve0 p) a0 \<and> pl_reserve1 p' = js_add (pl_reserve1 p) a1
         \<and> pl_totalLiquidity p' = js_add (pl_totalLiquidity p) (js_sqrt (js_mul a0 a1))
         \<and> position p' u = js_add (position p u) (js_sqrt (js_mul a0 a1))
         \<and> (\<forall>v. v \<noteq> u \<longrightarrow> position p' v = position p v))"
  using assms(1)
proof (cases rule: add_cases)
  case (added p a0 a1 q)
  have e: "ensurePoolsLoaded en W = W" using assms(2) by (simp add: ensurePoolsLoaded_def)
  let ?p = "grown_pool p u a0 a1"
  have k: "pl_id ?p = i" using added e by (auto simp: find_pool_def grown_pool_def Let_def dest: coll_find_Some)
  have "find_pool i W' = Some ?p"
    using added k e coll_find_put_same [of pl_id ?p "pools W"]
    by (simp add: find_pool_def save_pool_def Let_def frame_simps)
  then show ?thesis using added e
    by (auto simp: save_pool_def grown_pool_def Let_def frame_simps position_def or_else_def)
qed (use assms(2) in \<open>auto simp: ensurePoolsLoaded_def frame_simps\<close>)

text \<open>
  a removal never hands out more than the pool holds, for an amount of LP tokens within the
  pool's total, and takes the tokens from the caller's own position only.
\<close>

theorem liquidity_remove_bounded:
  assumes x: "removeLiquidity en i x sl u W = (RemOk a0 a1 rest h, W')" "pools W \<noteq> []"
    and p: "find_pool i W = Some p" "pool_ok p" "fl (pl_reserve0 p) = pl_reserve0 p" "fl (pl_reserve1 p) = pl_reserve1 p"
    and lp: "x = ANum lp" "lp \<le> pl_totalLiquidity p"
  shows "a0 \<le> pl_reserve0 p \<and> a1 \<le> pl_reserve1 p \<and> 0 < position p u
    \<and> lp \<le> js_add (position p u) (fl (1 / 10 ^ 8)) \<and> rest = max 0 (js_sub (position p u) lp)
    \<and> (\<exists>p'. find_pool i W' = Some p' \<and> (\<forall>v. v \<noteq> u \<longrightarrow> position p' v = position p v))"
proof -
  have e: "ensurePoolsLoaded en W = W" using x(2) by (simp add: ensurePoolsLoaded_def)
  show ?thesis
    using x(1)
  proof (cases rule: remove_cases)
    case (removed q l h')
    with p(1) lp e have q: "q = p" "l = lp" by auto
    let ?s = "js_div lp (pl_totalLiquidity p)"
    have "0 < pl_totalLiquidity p" using removed q p(2) by (auto simp: pool_ok_def)
    with lp(2) have "lp / pl_totalLiquidity p \<le> of_int 1" by simp
    then have s1: "?s \<le> 1" unfolding js_div_def using ieee.rnd_le_int [of 1] by simp
    have le: "js_mul r ?s \<le> r" if "0 \<le> r" "fl r = r" for r
      unfolding js_mul_def using that s1 by (intro ieee.rnd_le_double) (auto intro: mult_left_le)
    let ?p = "shrunk_pool p u lp"
    have k: "pl_id ?p = i" using p(1) by (auto simp: find_pool_def shrunk_pool_def Let_def dest: coll_find_Some)
    have f: "find_pool i W' = Some ?p"
      using removed q k e p(1) coll_find_put_same [of pl_id ?p "pools W"]
      by (simp add: find_pool_def save_pool_def Let_def frame_simps)
    have o: "\<forall>v. v \<noteq> u \<longrightarrow> position ?p v = position p v"
      by (simp add: shrunk_pool_def Let_def position_def)
    have "position ?p u = max 0 (js_sub (position p u) lp)"
      by (simp add: shrunk_pool_def Let_def position_def or_else_def)
    moreover have "0 \<le> pl_reserve0 p" "0 \<le> pl_reserve1 p" using p(2) by (simp_all add: pool_ok_def)
    ultimately show ?thesis using removed(4,5,7) q le p(3,4) f o by auto
  qed auto
qed

section \<open>A concrete pool\<close>

definition demo_chain :: liq_env where
  "demo_chain = \<lparr>le_now = 0, le_price = Some (62, 58), le_poolAccount = ''mallpool'',
     le_balances = Some [(''umlcn'', 4000000), (''umal'', 8000000)], le_trades = Some [],
     le_denom0 = ''umlcn'', le_denom1 = ''umal'', le_dec0 = 6, le_dec1 = 6, le_cacheMs = 30000,
     le_mnemonic = Some ''m'', le_address = (\<lambda>_. Inr ''mallop''),
     le_addTx = (\<lambda>_ _. Inr \<lparr>cr_code = 0, cr_rawLog = None, cr_hash = ''ADD''\<rparr>),
     le_removeTx = (\<lambda>_. Inr \<lparr>cr_code = 0, cr_rawLog = None, cr_hash = ''REM''\<rparr>)\<rparr>"

definition demo_pool :: pool where
  "demo_pool = \<lparr>pl_id = 2, pl_reserve0 = 4, pl_reserve1 = 8, pl_tvl = 10, pl_totalLiquidity = 12,
     pl_userPositions = [''mall1'' \<mapsto> 6], pl_priceMlcn = fl (6 / 10), pl_volume24h = 0, pl_blockchainSource = True\<rparr>"

definition demo_pool_world :: world where
  "demo_pool_world = empty_world\<lparr>pools := [demo_pool], poolsCache := Some ([demo_pool], 0)\<rparr>"

lemma demo_pools: "pools demo_pool_world = [demo_pool]" "outbox demo_pool_world = []"
    "find_pool 2 demo_pool_world = Some demo_pool"
  by (simp_all add: demo_pool_world_def find_pool_def demo_pool_def)

theorem liquidity_add_atomic_witness:
  "\<exists>q W'. addLiquidityToPool demo_chain 2 (ANum 1) (ANum 4) ''mall2'' demo_pool_world = (Inr q, W')
     \<and> pools W' \<noteq> [] \<and> (\<exists>p'. find_pool 2 W' = Some p' \<and> position p' ''mall1'' = 6)"
proof -
  obtain r W' where a: "addLiquidityToPool demo_chain 2 (ANum 1) (ANum 4) ''mall2'' demo_pool_world = (r, W')"
    by fastforce
  then obtain q where q: "r = Inr q"
    by (auto simp: addLiquidityToPool_def Let_def ensurePoolsLoaded_def demo_pools asAmount_def add_on_chain_def
        demo_chain_def truthy_str_def dex_toBaseUnits_def addLiquidityOnChain_def dex_guard_def tx_outcome_def)
  from liquidity_add_atomic [OF a] q
  have "find_pool 2 W' \<noteq> None \<and> position (the (find_pool 2 W')) ''mall1'' = position demo_pool ''mall1''"
    by (auto simp: demo_pools)
  moreover from this have "pools W' \<noteq> []" by (auto simp: find_pool_def)
  ultimately show ?thesis using a q by (auto simp: position_def or_else_def demo_pool_def)
qed

theorem liquidity_remove_bounded_witness:
  "\<exists>a0 a1 rest h W'. removeLiquidity demo_chain 2 (ANum 6) (Some 0) ''mall1'' demo_pool_world = (RemOk a0 a1 rest h, W')
     \<and> a0 \<le> 4 \<and> a1 \<le> 8 \<and> rest = 0"
proof -
  have t: "\<not> js_add 6 (fl (1 / 100000000)) < 6" by code_simp
  obtain r W' where a: "removeLiquidity demo_chain 2 (ANum 6) (Some 0) ''mall1'' demo_pool_world = (r, W')"
    by fastforce
  then obtain a0 a1 rest h where r: "r = RemOk a0 a1 rest h"
    using t by (auto simp: removeLiquidity_def Let_def ensurePoolsLoaded_def demo_pools asAmount_def remove_on_chain_def
        demo_chain_def truthy_str_def dex_toBaseUnits_def removeLiquidityOnChain_def dex_guard_def tx_outcome_def
        position_def or_else_def demo_pool_def)
  have "fl (of_int 4) = of_int 4" "fl (of_int 8) = of_int 8" by (rule fl_of_int, simp)+
  then have "a0 \<le> pl_reserve0 demo_pool \<and> a1 \<le> pl_reserve1 demo_pool \<and> rest = max 0 (js_sub (position demo_pool ''mall1'') 6)"
    using liquidity_remove_bounded [OF a [unfolded r], of demo_pool]
    by (simp add: demo_pools demo_pool_def pool_ok_def)
  moreover have "js_sub 6 6 = 0" by (simp add: js_sub_def)
  ultimately show ?thesis using a r by (auto simp: demo_pool_def position_def or_else_def)
qed

text \<open>
  listing the pools after the cache has expired replaces them by a fresh snapshot without any
  position, so afterwards every user's removal is refused for want of liquidity.
\<close>

theorem refresh_forgets_positions:
  "poolsCache W = Some (ps, t) \<Longrightarrow> le_cacheMs en \<le> le_now en - t \<Longrightarrow> u \<noteq> [] \<Longrightarrow>
   fst (removeLiquidity en' 2 (ANum 1) (Some 0) u (snd (getAllPools en W))) = RemNoLiquidity"
  by (cases "fetchPoolReserves en")
    (auto simp: removeLiquidity_def getAllPools_def load_pools_def ensurePoolsLoaded_def Let_def asAmount_def
      fetchPoolsFromBlockchain_def find_pool_def position_def or_else_def)

theorem refresh_forgets_positions_witness:
  "position demo_pool ''mall1'' = 6
   \<and> fst (removeLiquidity demo_chain 2 (ANum 1) (Some 0) ''mall1''
        (snd (getAllPools (demo_chain\<lparr>le_now := 30000\<rparr>) demo_pool_world))) = RemNoLiquidity"
proof -
  have "poolsCache demo_pool_world = Some ([demo_pool], 0)" by (simp add: demo_pool_world_def)
  from refresh_forgets_positions [OF this, of "demo_chain\<lparr>le_now := 30000\<rparr>" "''mall1''" demo_chain]
  show ?thesis by (simp add: demo_chain_def position_def or_else_def demo_pool_def)
qed

end
