(* ===== verification/WithdrawalGates.thy ===== *)
theory WithdrawalGates
  imports Liquidity B2CPayout
begin

text \<open>
  The checks a cash-out passes before any record is made: \<open>services/withdrawalMinimumService.js\<close>,
  \<open>withdrawalRateLimitService.js\<close>, \<open>withdrawalAmlGateService.js\<close> with its structuring flag, and
  \<open>sellGateService.js\<close>.
\<close>

record gate_cfg =
  gc_minKes :: num
  gc_weeklyLimit :: nat
  gc_amlThreshold :: num

section \<open>The minimum\<close>

record minimum_check =
  mc_ok :: bool
  mc_minimumKes :: num
  mc_shortfallKes :: "num option"

definition checkMinimumWithdrawal :: "num \<Rightarrow> num \<Rightarrow> minimum_check" where
  "checkMinimumWithdrawal minKes estimatedKes =
     (let ok = minKes \<le> estimatedKes
      in \<lparr>mc_ok = ok, mc_minimumKes = minKes,
          mc_shortfallKes = (if ok then None else Some (js_div (js_round (js_mul (js_sub minKes estimatedKes) 100)) 100))\<rparr>)"

section \<open>The weekly limit\<close>

definition WEEK_MS :: int where "WEEK_MS = 7 * 24 * 60 * 60 * 1000"

definition counts :: "int \<Rightarrow> string \<Rightarrow> withdrawal \<Rightarrow> bool" where
  "counts now wallet w = (w_walletAddress w = wallet \<and> now - WEEK_MS \<le> w_createdAt w
     \<and> w_status w \<noteq> WFailed \<and> w_status w \<noteq> WRefunded)"

record rate_check =
  rc_ok :: bool
  rc_count :: nat
  rc_limit :: nat
  rc_nextAvailableAt :: "int option"

text \<open>With a limit of 0 and nothing counted the oldest request is read off an empty list, which throws.\<close>

definition checkWeeklyWithdrawalLimit :: "nat \<Rightarrow> int \<Rightarrow> string \<Rightarrow> world \<Rightarrow> string + rate_check" where
  "checkWeeklyWithdrawalLimit limit now wallet W =
     (let counted = sort_key w_createdAt (filter (counts now wallet) (withdrawals W));
          ok = length counted < limit
      in if ok then Inr \<lparr>rc_ok = True, rc_count = length counted, rc_limit = limit, rc_nextAvailableAt = None\<rparr>
         else case counted of
           [] \<Rightarrow> Inl ''Cannot read properties of undefined''
         | oldest # _ \<Rightarrow> Inr \<lparr>rc_ok = False, rc_count = length counted, rc_limit = limit,
                              rc_nextAvailableAt = Some (w_createdAt oldest + WEEK_MS)\<rparr>)"

section \<open>The compliance review\<close>

record aml_check =
  ac_ok :: bool
  ac_required :: bool
  ac_thresholdKes :: num
  ac_reviewId :: "string option"
  ac_reviewStatus :: "aml_status option"

text \<open>\<open>findOne\<close> with \<open>sort({ submittedAt: -1 })\<close>.\<close>

definition latest_review :: "(aml_review \<Rightarrow> bool) \<Rightarrow> world \<Rightarrow> aml_review option" where
  "latest_review p W = coll_find p (sort_key (\<lambda>v. - v_submittedAt v) (amlReviews W))"

definition spendable :: "string \<Rightarrow> aml_review \<Rightarrow> bool" where
  "spendable wallet v = (v_walletAddress v = wallet \<and> v_status v = AmlApproved \<and> v_consumedBy v = None)"

definition requireApprovedAmlReview :: "num \<Rightarrow> string \<Rightarrow> num \<Rightarrow> world \<Rightarrow> aml_check" where
  "requireApprovedAmlReview threshold wallet estimatedKes W =
     (if estimatedKes < threshold then
        \<lparr>ac_ok = True, ac_required = False, ac_thresholdKes = threshold, ac_reviewId = None, ac_reviewStatus = None\<rparr>
      else case latest_review (spendable wallet) W of
        Some v \<Rightarrow> \<lparr>ac_ok = True, ac_required = True, ac_thresholdKes = threshold,
                   ac_reviewId = Some (v_id v), ac_reviewStatus = Some AmlApproved\<rparr>
      | None \<Rightarrow>
          (let latest = latest_review (\<lambda>v. v_walletAddress v = wallet) W
           in \<lparr>ac_ok = False, ac_required = True, ac_thresholdKes = threshold,
               ac_reviewId = map_option v_id latest, ac_reviewStatus = map_option v_status latest\<rparr>))"

section \<open>The structuring flag\<close>

definition DAY_MS :: int where "DAY_MS = 24 * 60 * 60 * 1000"

definition startOfUtcDay :: "int \<Rightarrow> int" where
  "startOfUtcDay t = (t div DAY_MS) * DAY_MS"

definition completed_this_week :: "int \<Rightarrow> string \<Rightarrow> world \<Rightarrow> withdrawal list" where
  "completed_this_week now wallet W =
     filter (\<lambda>w. w_walletAddress w = wallet \<and> w_status w = WCompleted \<and> now - WEEK_MS \<le> w_createdAt w) (withdrawals W)"

definition flag_key :: "structuring_flag \<Rightarrow> string \<times> int" where
  "flag_key g = (g_walletAddress g, g_windowStartAt g)"

definition checkAndFlagStructuring :: "num \<Rightarrow> int \<Rightarrow> string \<Rightarrow> world \<Rightarrow> structuring_flag option \<times> world" where
  "checkAndFlagStructuring threshold now wallet W =
     (let completed = completed_this_week now wallet W;
          cumulativeKes = fold (\<lambda>w s. js_add s (w_amountKes w)) completed 0
      in if cumulativeKes < threshold then (None, W)
         else let dayBucket = startOfUtcDay now;
                  flag = \<lparr>g_walletAddress = wallet, g_windowStartAt = dayBucket, g_windowEndAt = dayBucket + DAY_MS,
                          g_cumulativeKes = cumulativeKes, g_related = map w_oid completed\<rparr>
              in (Some flag, W\<lparr>structFlags := list_upsert flag_key flag (structFlags W)\<rparr>))"

section \<open>The pool's liquidity\<close>

definition SELL_POOL_ID :: nat where "SELL_POOL_ID = 2"

record sell_check =
  sl_ok :: bool
  sl_reserveKes :: num
  sl_error :: "msg option"

definition sell_reserve :: "liq_env \<Rightarrow> num" where
  "sell_reserve en =
     or_else (map_option pl_reserve1 (coll_find (\<lambda>p. pl_id p = SELL_POOL_ID) (fetchPoolsFromBlockchain en))) 0"

text \<open>Reading the pools does not throw, so the branch for an unreadable pool is never taken.\<close>

definition checkSellLiquidity :: "liq_env \<Rightarrow> num \<Rightarrow> sell_check" where
  "checkSellLiquidity en estimatedKes =
     (let reserveKes = sell_reserve en
      in if reserveKes < estimatedKes
         then \<lparr>sl_ok = False, sl_reserveKes = reserveKes,
               sl_error = Some (InsufficientPool (js_round estimatedKes) (js_round reserveKes))\<rparr>
         else \<lparr>sl_ok = True, sl_reserveKes = reserveKes, sl_error = None\<rparr>)"

section \<open>What the gates decide\<close>

lemma sell_reserve_eq: "sell_reserve en = snd (fetchPoolReserves en)"
  by (simp add: sell_reserve_def fetchPoolsFromBlockchain_def SELL_POOL_ID_def or_else_def Let_def split: prod.splits)

lemma weekly_ok_iff:
  "(\<exists>r. checkWeeklyWithdrawalLimit limit now wallet W = Inr r \<and> rc_ok r)
     \<longleftrightarrow> length (filter (counts now wallet) (withdrawals W)) < limit"
  by (auto simp: checkWeeklyWithdrawalLimit_def Let_def split: list.splits)

text \<open>
  a wallet is let through exactly when fewer than the limit of its requests that did not fail
  were made in the last seven days; a refusal names the moment the oldest of them is seven days old.
\<close>

theorem weekly_limit_exact:
  assumes "0 < limit"
  shows "\<exists>r. checkWeeklyWithdrawalLimit limit now wallet W = Inr r
     \<and> rc_count r = length (filter (counts now wallet) (withdrawals W))
     \<and> rc_ok r = (rc_count r < limit)
     \<and> (\<not> rc_ok r \<longrightarrow> (\<exists>w \<in> set (withdrawals W). counts now wallet w \<and> rc_nextAvailableAt r = Some (w_createdAt w + WEEK_MS)
           \<and> (\<forall>v \<in> set (withdrawals W). counts now wallet v \<longrightarrow> w_createdAt w \<le> w_createdAt v)))"
proof (cases "sort_key w_createdAt (filter (counts now wallet) (withdrawals W))")
  case Nil
  then have "filter (counts now wallet) (withdrawals W) = []" by (metis length_0_conv length_sort)
  with assms show ?thesis by (simp add: checkWeeklyWithdrawalLimit_def Let_def)
next
  case (Cons w ws)
  from sort_key_hd [OF Cons] have h: "w \<in> set (withdrawals W)" "counts now wallet w"
    "\<forall>v \<in> set (withdrawals W). counts now wallet v \<longrightarrow> w_createdAt w \<le> w_createdAt v" by auto
  have "Suc (length ws) = length (filter (counts now wallet) (withdrawals W))"
    using Cons by (metis length_Cons length_sort)
  with h Cons show ?thesis by (simp add: checkWeeklyWithdrawalLimit_def Let_def) blast
qed

text \<open>
  at the announced moment itself the request is still refused, because the window includes its
  left end: the oldest request is exactly seven days old and still counts.
\<close>

theorem weekly_next_available_too_early:
  assumes "checkWeeklyWithdrawalLimit limit now wallet W = Inr r" "rc_nextAvailableAt r = Some t"
    and "\<forall>w \<in> set (withdrawals W). w_createdAt w \<le> now"
  shows "\<exists>r'. checkWeeklyWithdrawalLimit limit t wallet W = Inr r' \<and> \<not> rc_ok r'"
proof -
  let ?c = "filter (counts now wallet) (withdrawals W)"
  from assms(1,2) obtain w ws where s: "sort_key w_createdAt ?c = w # ws" and t: "t = w_createdAt w + WEEK_MS"
    and n: "\<not> length ?c < limit"
    by (auto simp: checkWeeklyWithdrawalLimit_def Let_def split: if_splits list.splits)
  from sort_key_hd [OF s] have w: "w \<in> set (withdrawals W)"
    and old: "\<forall>v \<in> set (withdrawals W). counts now wallet v \<longrightarrow> w_createdAt w \<le> w_createdAt v" by auto
  have "counts t wallet v" if "v \<in> set (withdrawals W)" "counts now wallet v" for v
    using old that t by (auto simp: counts_def)
  then have "length ?c \<le> length (filter (counts t wallet) (withdrawals W))"
    by (rule length_filter_mono)
  with n have n': "\<not> length (filter (counts t wallet) (withdrawals W)) < limit" by simp
  have "filter (counts t wallet) (withdrawals W) \<noteq> []"
    using w sort_key_hd [OF s] t by (auto simp: filter_empty_conv counts_def)
  then have "sort_key w_createdAt (filter (counts t wallet) (withdrawals W)) \<noteq> []"
    by (metis length_0_conv length_sort)
  then obtain x xs where x: "sort_key w_createdAt (filter (counts t wallet) (withdrawals W)) = x # xs"
    by (meson neq_Nil_conv)
  then have "length (filter (counts t wallet) (withdrawals W)) = Suc (length xs)"
    by (metis length_Cons length_sort)
  with n' x show ?thesis by (simp add: checkWeeklyWithdrawalLimit_def Let_def)
qed

definition demo_week :: world where
  "demo_week = empty_world\<lparr>withdrawals :=
     [demo_wd\<lparr>w_createdAt := 3\<rparr>, demo_wd\<lparr>w_createdAt := 1\<rparr>, demo_wd\<lparr>w_createdAt := 2\<rparr>,
      demo_wd\<lparr>w_createdAt := 0, w_status := WFailed\<rparr>]\<rparr>"

lemma demo_week_check:
  "checkWeeklyWithdrawalLimit 3 10 ''mall1'' demo_week = Inr \<lparr>rc_ok = False, rc_count = 3, rc_limit = 3,
     rc_nextAvailableAt = Some (1 + WEEK_MS)\<rparr>"
  by (simp add: checkWeeklyWithdrawalLimit_def demo_week_def counts_def WEEK_MS_def demo_wd_def Let_def)

theorem weekly_limit_exact_witness:
  "\<exists>r. checkWeeklyWithdrawalLimit 3 10 ''mall1'' demo_week = Inr r \<and> \<not> rc_ok r
     \<and> rc_nextAvailableAt r = Some (1 + WEEK_MS)"
  using weekly_limit_exact [of 3 10 "''mall1''" demo_week] demo_week_check by auto

theorem weekly_next_available_too_early_witness:
  "\<exists>r'. checkWeeklyWithdrawalLimit 3 (1 + WEEK_MS) ''mall1'' demo_week = Inr r' \<and> \<not> rc_ok r'"
proof -
  have "\<forall>w \<in> set (withdrawals demo_week). w_createdAt w \<le> 10" by (simp add: demo_week_def demo_wd_def)
  from weekly_next_available_too_early [OF demo_week_check _ this] show ?thesis by simp
qed

lemma latest_review_Some:
  assumes "latest_review p W = Some v"
  shows "v \<in> set (amlReviews W)" "p v" "\<And>u. u \<in> set (amlReviews W) \<Longrightarrow> p u \<Longrightarrow> v_submittedAt u \<le> v_submittedAt v"
proof -
  let ?s = "sort_key (\<lambda>v. - v_submittedAt v) (amlReviews W)"
  have f: "coll_find p ?s = Some v" using assms by (simp add: latest_review_def)
  from coll_find_Some [OF this] show "v \<in> set (amlReviews W)" "p v" by simp_all
  have "sorted (map f xs) \<Longrightarrow> coll_find p xs = Some v \<Longrightarrow> u \<in> set xs \<Longrightarrow> p u \<Longrightarrow> f v \<le> f u" for f :: "aml_review \<Rightarrow> int" and xs u
    by (induction xs) (auto split: if_splits)
  from this [OF sorted_sort_key f] show "u \<in> set (amlReviews W) \<Longrightarrow> p u \<Longrightarrow> v_submittedAt u \<le> v_submittedAt v" for u
    by simp
qed

lemma latest_review_None: "latest_review p W = None \<longleftrightarrow> (\<forall>v \<in> set (amlReviews W). \<not> p v)"
  by (simp add: latest_review_def coll_find_None)

text \<open>
  from the threshold on, a wallet passes exactly when it has an approved review that no
  withdrawal has used, and the review named is the latest of these; below it no review is named.
\<close>

theorem aml_gate_exact:
  "let r = requireApprovedAmlReview threshold wallet kes W in
     (ac_ok r \<longleftrightarrow> kes < threshold \<or> (\<exists>v \<in> set (amlReviews W). spendable wallet v))
   \<and> (ac_ok r \<and> threshold \<le> kes \<longrightarrow> (\<exists>v \<in> set (amlReviews W). spendable wallet v \<and> ac_reviewId r = Some (v_id v)
          \<and> (\<forall>u \<in> set (amlReviews W). spendable wallet u \<longrightarrow> v_submittedAt u \<le> v_submittedAt v)))
   \<and> (kes < threshold \<longrightarrow> ac_reviewId r = None)"
proof (cases "kes < threshold")
  case True
  then show ?thesis by (simp add: requireApprovedAmlReview_def Let_def)
next
  case False
  show ?thesis
  proof (cases "latest_review (spendable wallet) W")
    case None
    then have "\<forall>v \<in> set (amlReviews W). \<not> spendable wallet v" by (simp add: latest_review_None)
    with None False show ?thesis by (auto simp: requireApprovedAmlReview_def Let_def)
  next
    case (Some v)
    note l = latest_review_Some [OF Some]
    from False Some have r: "requireApprovedAmlReview threshold wallet kes W = \<lparr>ac_ok = True, ac_required = True,
        ac_thresholdKes = threshold, ac_reviewId = Some (v_id v), ac_reviewStatus = Some AmlApproved\<rparr>"
      by (simp add: requireApprovedAmlReview_def)
    with l r False show ?thesis by (auto simp: Let_def)
  qed
qed

definition demo_review :: aml_review where
  "demo_review = \<lparr>v_id = ''r1'', v_userId = ''u1'', v_walletAddress = ''mall1'', v_triggerAmountKes = 3000,
     v_fundsSource = Salary, v_isNativeEarnings = False, v_narrative = ''pay'', v_documentRef = Some ''u1-1-slip'',
     v_status = AmlApproved, v_consumedBy = None, v_submittedAt = 5\<rparr>"

theorem aml_gate_exact_witness:
  "ac_reviewId (requireApprovedAmlReview 2500 ''mall1'' 3000
     (empty_world\<lparr>amlReviews := [demo_review\<lparr>v_id := ''r0'', v_submittedAt := 1\<rparr>, demo_review]\<rparr>)) = Some ''r1''"
  using aml_gate_exact [of 2500 "''mall1''" 3000
      "empty_world\<lparr>amlReviews := [demo_review\<lparr>v_id := ''r0'', v_submittedAt := 1\<rparr>, demo_review]\<rparr>"]
  by (auto simp: Let_def demo_review_def spendable_def)

lemma flag_lookup:
  assumes "checkAndFlagStructuring threshold now wallet W = (Some f, W')"
  shows "flag_key f = (wallet, startOfUtcDay now)" "list_find flag_key (flag_key f) (structFlags W') = Some f"
    "\<And>k. k \<noteq> flag_key f \<Longrightarrow> list_find flag_key k (structFlags W') = list_find flag_key k (structFlags W)"
    "distinct (map flag_key (structFlags W)) \<Longrightarrow> distinct (map flag_key (structFlags W'))"
    "withdrawals W' = withdrawals W" "threshold \<le> g_cumulativeKes f"
    "g_cumulativeKes f = fold (\<lambda>w s. js_add s (w_amountKes w)) (completed_this_week now wallet W) 0"
proof -
  have "flag_key f = (wallet, startOfUtcDay now) \<and> structFlags W' = list_upsert flag_key f (structFlags W)
    \<and> withdrawals W' = withdrawals W \<and> threshold \<le> g_cumulativeKes f
    \<and> g_cumulativeKes f = fold (\<lambda>w s. js_add s (w_amountKes w)) (completed_this_week now wallet W) 0"
    using assms by (auto simp: checkAndFlagStructuring_def Let_def flag_key_def split: if_splits)
  then show "flag_key f = (wallet, startOfUtcDay now)" "list_find flag_key (flag_key f) (structFlags W') = Some f"
    "\<And>k. k \<noteq> flag_key f \<Longrightarrow> list_find flag_key k (structFlags W') = list_find flag_key k (structFlags W)"
    "distinct (map flag_key (structFlags W)) \<Longrightarrow> distinct (map flag_key (structFlags W'))"
    "withdrawals W' = withdrawals W" "threshold \<le> g_cumulativeKes f"
    "g_cumulativeKes f = fold (\<lambda>w s. js_add s (w_amountKes w)) (completed_this_week now wallet W) 0"
    using list_find_upsert [of flag_key f "structFlags W"]
    by (auto simp: list_find_upsert_other intro: list_upsert_distinct)
qed

text \<open>
  running the structuring check twice in one day leaves one flag for the wallet and the day,
  with the figures of the second run; every other flag stays.
\<close>

theorem structuring_flag_upsert:
  assumes "distinct (map flag_key (structFlags W))"
    and "checkAndFlagStructuring threshold now wallet W = (Some f, W1)"
    and "checkAndFlagStructuring threshold now' wallet W1 = (Some f', W2)"
    and "startOfUtcDay now' = startOfUtcDay now"
  shows "distinct (map flag_key (structFlags W2)) \<and> list_find flag_key (wallet, startOfUtcDay now) (structFlags W2) = Some f'
    \<and> threshold \<le> g_cumulativeKes f' \<and> withdrawals W2 = withdrawals W
    \<and> (\<forall>k. k \<noteq> (wallet, startOfUtcDay now) \<longrightarrow>
           list_find flag_key k (structFlags W2) = list_find flag_key k (structFlags W))"
  using flag_lookup [OF assms(2)] flag_lookup [OF assms(3)] assms(1,4) by simp

theorem structuring_flag_upsert_witness:
  "let W = demo_week\<lparr>withdrawals := [demo_wd\<lparr>w_status := WCompleted\<rparr>]\<rparr>;
       W2 = snd (checkAndFlagStructuring 5 20 ''mall1'' (snd (checkAndFlagStructuring 5 10 ''mall1'' W)))
   in map_option g_related (list_find flag_key (''mall1'', 0) (structFlags W2)) = Some [''o1'']"
proof -
  let ?W = "demo_week\<lparr>withdrawals := [demo_wd\<lparr>w_status := WCompleted\<rparr>]\<rparr>"
  have five: "js_add 0 5 = 5" using fl_of_int [of 5] by (simp add: js_add_def)
  have d: "startOfUtcDay 10 = 0" "startOfUtcDay 20 = 0" by (simp_all add: startOfUtcDay_def DAY_MS_def)
  have one: "fst (checkAndFlagStructuring 5 t ''mall1'' V) = Some \<lparr>g_walletAddress = ''mall1'', g_windowStartAt = 0,
      g_windowEndAt = DAY_MS, g_cumulativeKes = 5, g_related = [''o1'']\<rparr>"
    if "withdrawals V = withdrawals ?W" "t = 10 \<or> t = 20" for V t
    using that d five
    by (auto simp: checkAndFlagStructuring_def completed_this_week_def demo_wd_def WEEK_MS_def Let_def)
  obtain f W1 where a: "checkAndFlagStructuring 5 10 ''mall1'' ?W = (Some f, W1)"
    using one [of ?W 10] by (metis prod.collapse)
  then have w: "withdrawals W1 = withdrawals ?W" by (rule flag_lookup(5))
  obtain f' W2 where b: "checkAndFlagStructuring 5 20 ''mall1'' W1 = (Some f', W2)"
    using one [OF w, of 20] by (metis prod.collapse)
  have "distinct (map flag_key (structFlags ?W))" by (simp add: demo_week_def)
  from structuring_flag_upsert [OF this a b] d have "list_find flag_key (''mall1'', 0) (structFlags W2) = Some f'" by simp
  moreover have "g_related f' = [''o1'']" using one [OF w, of 20] b by auto
  ultimately show ?thesis using a b by (simp add: Let_def)
qed

text \<open>
  a withdrawal of a positive value is never let through on a pool that could not be read: with
  no pool account or no balance reply the reserve counts as 0.
\<close>

theorem unreadable_pool_blocks:
  assumes "le_poolAccount en = [] \<or> le_balances en = None" "0 < kes"
  shows "\<not> sl_ok (checkSellLiquidity en kes) \<and> sl_reserveKes (checkSellLiquidity en kes) = 0"
  using assms by (auto simp: checkSellLiquidity_def sell_reserve_eq fetchPoolReserves_def Let_def)

theorem unreadable_pool_blocks_witness:
  "\<not> sl_ok (checkSellLiquidity (demo_chain\<lparr>le_balances := None\<rparr>) 350)"
  using unreadable_pool_blocks [of "demo_chain\<lparr>le_balances := None\<rparr>" 350] by simp

lemma sell_check_simps:
  "sl_ok (checkSellLiquidity en kes) = (kes \<le> sell_reserve en)"
  "sl_reserveKes (checkSellLiquidity en kes) = sell_reserve en"
  by (auto simp: checkSellLiquidity_def Let_def)

end
