(* ===== verification/WithdrawalQueue.thy ===== *)
theory WithdrawalQueue
  imports SellSettlement WithdrawalGates
begin

text \<open>
  \<open>services/withdrawalLiquidityQueueService.js\<close>: holding a signed cash-out until the pool has recovered,
  releasing one held cash-out, and the scan of the queue. The encryption of the held bytes
  (\<open>utils/fieldEncryption.js\<close>, over the platform's cipher) is a pair of parameters.
\<close>

record queue_env =
  qe_now :: int
  qe_liq :: liq_env
  qe_settle :: "string \<Rightarrow> settle_env"
  qe_linked :: "string \<Rightarrow> bool"
  qe_enc :: "string \<Rightarrow> string"
  qe_dec :: "string \<Rightarrow> string"

text \<open>
  The notification goes to the account the wallet is linked to, else to the phone as a text message.
\<close>

definition notifyWithdrawalStateChange :: "queue_env \<Rightarrow> withdrawal \<Rightarrow> world \<Rightarrow> world" where
  "notifyWithdrawalStateChange en wd W =
     (if qe_linked en (w_walletAddress wd) then emit (ENotify (w_walletAddress wd)) W
      else if w_phone wd \<noteq> [] then emit (ESms (w_phone wd)) W else W)"

section \<open>Holding\<close>

definition held_sale :: "queue_env \<Rightarrow> string \<Rightarrow> sale \<Rightarrow> sale" where
  "held_sale en txBytes s = s\<lparr>s_status := SQueuedLiquidity, s_pendingTxBytes := Some (qe_enc en txBytes),
     s_pendingTxBytesSetAt := Some (qe_now en)\<rparr>"

definition held_wd :: "int \<Rightarrow> withdrawal \<Rightarrow> withdrawal" where
  "held_wd now w = w\<lparr>w_status := WQueuedLiquidity, w_queuedAt := Some now, w_notes := Some QueuedNote\<rparr>"

definition holdForLiquidity ::
  "queue_env \<Rightarrow> sale \<Rightarrow> withdrawal \<Rightarrow> string \<Rightarrow> num \<Rightarrow> world \<Rightarrow> world" where
  "holdForLiquidity en sale wd txBytes estimatedKes W =
     (let wd' = held_wd (qe_now en) wd;
          W1 = save_sale (held_sale en txBytes sale) W;
          W2 = save_withdrawal wd' W1;
          W3 = recordWithdrawLiquidityActivity (qe_now en) Withdraw_queued_liquidity (of_withdrawal wd')
                 (over\<lparr>o_status := Some ActPending, o_fiatAmount := Some estimatedKes\<rparr>) W2
      in notifyWithdrawalStateChange en wd' W3)"

section \<open>Releasing\<close>

datatype release_result = Released | ReleaseResign | ReleaseMissing | ReleaseFailed settle_resp

definition cleared_sale :: "sale \<Rightarrow> sale" where
  "cleared_sale s = s\<lparr>s_pendingTxBytes := None, s_pendingTxBytesSetAt := None\<rparr>"

definition releaseQueuedWithdrawal :: "queue_env \<Rightarrow> withdrawal \<Rightarrow> world \<Rightarrow> release_result \<times> world" where
  "releaseQueuedWithdrawal en wd W =
     (case Option.bind (w_saleId wd) (\<lambda>i. find_sale i W) of
        None \<Rightarrow> (ReleaseMissing, W)
      | Some sale \<Rightarrow>
          if \<not> truthy_str (s_pendingTxBytes sale) then (ReleaseMissing, W)
          else let txBytes = qe_dec en (the (s_pendingTxBytes sale));
                   (resp, W1) = executeSellSettlement (qe_settle en (w_withdrawalId wd)) (cleared_sale sale) wd
                      (Some txBytes) (w_amountMlcns wd) (w_phone wd) (w_walletAddress wd) (s_saleId sale)
                      (w_amountKes wd) W
               in if settle_status resp = 200 then (Released, notifyWithdrawalStateChange en wd W1)
                  else if settle_status resp = 409 then (ReleaseResign, notifyWithdrawalStateChange en wd W1)
                  else (ReleaseFailed resp, W1))"

text \<open>The loop over the queue, with the running reserve.\<close>

fun release_scan :: "queue_env \<Rightarrow> num \<Rightarrow> withdrawal list \<Rightarrow> world \<Rightarrow> string list \<times> world" where
  "release_scan en reserveKes [] W = ([], W)"
| "release_scan en reserveKes (wd # rest) W =
     (if reserveKes < w_amountKes wd then ([], W)
      else let (result, W1) = releaseQueuedWithdrawal en wd W in
        if result = Released
        then let (released, W2) = release_scan en (js_sub reserveKes (w_amountKes wd)) rest W1
             in (w_withdrawalId wd # released, W2)
        else release_scan en reserveKes rest W1)"

text \<open>An ascending sort puts a request without a queue time first.\<close>

definition queue_of :: "world \<Rightarrow> withdrawal list" where
  "queue_of W = sort_key w_queuedAt (filter (\<lambda>w. w_status w = WQueuedLiquidity) (withdrawals W))"

definition processQueuedWithdrawals :: "queue_env \<Rightarrow> world \<Rightarrow> string list \<times> world" where
  "processQueuedWithdrawals en W = release_scan en (sell_reserve (qe_liq en)) (queue_of W) W"

section \<open>Frames\<close>

lemma notify_frame [frame_simps]:
  "sales (notifyWithdrawalStateChange en wd W) = sales W"
  "withdrawals (notifyWithdrawalStateChange en wd W) = withdrawals W"
  "payouts (notifyWithdrawalStateChange en wd W) = payouts W"
  "ledger (notifyWithdrawalStateChange en wd W) = ledger W"
  "amlReviews (notifyWithdrawalStateChange en wd W) = amlReviews W"
  "activities (notifyWithdrawalStateChange en wd W) = activities W"
  by (simp_all add: notifyWithdrawalStateChange_def frame_simps)

lemma notify_outbox:
  "\<exists>ns. outbox (notifyWithdrawalStateChange en wd W) = outbox W @ ns \<and> set ns \<subseteq> {ENotify (w_walletAddress wd), ESms (w_phone wd)}"
  by (simp add: notifyWithdrawalStateChange_def frame_simps)

text \<open>The five ways a release goes are three for the documents.\<close>

lemma release_cases:
  assumes "releaseQueuedWithdrawal en wd W = (r, W')"
  obtains (missing) "r = ReleaseMissing" "W' = W"
      "\<forall>i s. w_saleId wd = Some i \<longrightarrow> find_sale i W = Some s \<longrightarrow> \<not> truthy_str (s_pendingTxBytes s)"
  | (settled) sale resp W1 where "w_saleId wd = Some (s_saleId sale)" "find_sale (s_saleId sale) W = Some sale"
      "truthy_str (s_pendingTxBytes sale)" "r \<noteq> ReleaseMissing"
      "executeSellSettlement (qe_settle en (w_withdrawalId wd)) (cleared_sale sale) wd
         (Some (qe_dec en (the (s_pendingTxBytes sale)))) (w_amountMlcns wd) (w_phone wd) (w_walletAddress wd)
         (s_saleId sale) (w_amountKes wd) W = (resp, W1)"
      "(r = Released) = (settle_status resp = 200)" "(r = ReleaseResign) = (resp = SettleResign)"
      "W' = W1 \<or> W' = notifyWithdrawalStateChange en wd W1"
proof (cases "Option.bind (w_saleId wd) (\<lambda>i. find_sale i W)")
  case None
  with assms have "r = ReleaseMissing" "W' = W" by (simp_all add: releaseQueuedWithdrawal_def)
  with None show thesis by (intro missing) auto
next
  case (Some sale)
  then have k: "w_saleId wd = Some (s_saleId sale)" "find_sale (s_saleId sale) W = Some sale"
    using saledb.find_key by (auto simp: bind_eq_Some_conv)
  show thesis
  proof (cases "truthy_str (s_pendingTxBytes sale)")
    case False
    with assms Some have "r = ReleaseMissing" "W' = W" by (simp_all add: releaseQueuedWithdrawal_def)
    with k False show thesis by (intro missing) auto
  next
    case True
    obtain resp W1 where e: "executeSellSettlement (qe_settle en (w_withdrawalId wd)) (cleared_sale sale) wd
         (Some (qe_dec en (the (s_pendingTxBytes sale)))) (w_amountMlcns wd) (w_phone wd) (w_walletAddress wd)
         (s_saleId sale) (w_amountKes wd) W = (resp, W1)" by fastforce
    have r: "(r, W') = (if settle_status resp = 200 then (Released, notifyWithdrawalStateChange en wd W1)
                  else if settle_status resp = 409 then (ReleaseResign, notifyWithdrawalStateChange en wd W1)
                  else (ReleaseFailed resp, W1))"
      using assms Some True e by (simp add: releaseQueuedWithdrawal_def Let_def)
    show thesis
      by (rule settled [OF k True _ e]) (use r in \<open>cases resp; auto\<close>)+
  qed
qed

lemma release_other:
  assumes "releaseQueuedWithdrawal en wd W = (r, W')" "k \<noteq> w_withdrawalId wd"
  shows "find_withdrawal k W' = find_withdrawal k W"
  using assms(1)
proof (cases rule: release_cases)
  case (settled sale resp W1)
  from settled(5) show ?thesis
  proof (cases rule: settlement_docs)
    case (1 s w)
    then show ?thesis using assms(2) settled(8) wddb.find_save_other [of k w W]
      by (auto simp: find_withdrawal_def frame_simps same_request_def)
  qed
qed simp

text \<open>A release that finds its held bytes takes the request out of the queue and clears the bytes.\<close>

lemma release_leaves_queue:
  assumes "releaseQueuedWithdrawal en wd W = (r, W')" "r \<noteq> ReleaseMissing"
    and "find_withdrawal (w_withdrawalId wd) W \<noteq> None"
  obtains w s where "find_withdrawal (w_withdrawalId wd) W' = Some w" "w_status w \<noteq> WQueuedLiquidity"
    "w_queuedAt w = w_queuedAt wd" "w_saleId wd = Some (s_saleId s)" "find_sale (s_saleId s) W' = Some s"
    "s_pendingTxBytes s = None" "r = ReleaseResign \<longleftrightarrow> w_status w = WResignRequired"
  using assms(1)
proof (cases rule: release_cases)
  case (settled sale resp W1)
  from settled(5) show thesis
  proof (cases rule: settlement_docs)
    case (1 s w)
    have k: "s_saleId s = s_saleId sale" "w_withdrawalId w = w_withdrawalId wd"
      using 1 by (simp_all add: same_sale_def same_request_def cleared_sale_def)
    have "find_withdrawal (w_withdrawalId wd) W' = Some w"
      using 1 settled(8) assms(3) k wddb.find_save [of w W] by (auto simp: find_withdrawal_def frame_simps)
    moreover have "find_sale (s_saleId s) W' = Some s"
      using 1 settled(2,8) k saledb.find_save [of s W] by (auto simp: find_sale_def frame_simps)
    moreover have "w_status w \<noteq> WQueuedLiquidity" "r = ReleaseResign \<longleftrightarrow> w_status w = WResignRequired"
      using 1(3) settled(7) by (cases resp; auto)+
    moreover have "w_queuedAt w = w_queuedAt wd" "w_saleId wd = Some (s_saleId s)" "s_pendingTxBytes s = None"
      using 1(1,2) settled(1) k by (simp_all add: same_request_def same_sale_def cleared_sale_def)
    ultimately show thesis by (intro that) blast+
  qed
qed (use assms(2) in simp)

section \<open>The queue is first come, first served\<close>

abbreviation ids :: "withdrawal list \<Rightarrow> string list" where "ids \<equiv> map w_withdrawalId"

text \<open>The reserve left when the requests named in a list have been paid, in queue order.\<close>

definition reserve_after :: "num \<Rightarrow> string list \<Rightarrow> withdrawal list \<Rightarrow> num" where
  "reserve_after reserveKes released ws =
     fold (\<lambda>w r. js_sub r (w_amountKes w)) (filter (\<lambda>w. w_withdrawalId w \<in> set released) ws) reserveKes"

lemma reserve_after_Cons_released:
  "w_withdrawalId w \<notin> set (ids ws) \<Longrightarrow>
   reserve_after r (w_withdrawalId w # rel) (w # ws) = reserve_after (js_sub r (w_amountKes w)) rel ws"
proof -
  assume "w_withdrawalId w \<notin> set (ids ws)"
  then have "filter (\<lambda>v. w_withdrawalId v = w_withdrawalId w \<or> w_withdrawalId v \<in> set rel) ws
      = filter (\<lambda>v. w_withdrawalId v \<in> set rel) ws" by (intro filter_cong) (auto simp: image_iff)
  then show ?thesis by (simp add: reserve_after_def)
qed

lemma reserve_after_Cons_kept:
  "w_withdrawalId w \<notin> set rel \<Longrightarrow> reserve_after r rel (w # ws) = reserve_after r rel ws"
  by (simp add: reserve_after_def)

lemma release_scan_prefix:
  assumes "release_scan en r ws W = (rel, W')" "distinct (ids ws)"
  shows "\<exists>k \<le> length ws. subseq rel (ids (take k ws))
     \<and> (\<forall>i. i \<notin> set (ids (take k ws)) \<longrightarrow> find_withdrawal i W' = find_withdrawal i W)
     \<and> (k < length ws \<longrightarrow> reserve_after r rel (take k ws) < w_amountKes (ws ! k))"
  using assms
proof (induction en r ws W arbitrary: rel W' rule: release_scan.induct)
  case (1 en r W)
  then show ?case by simp
next
  case (2 en r wd rest W)
  show ?case
  proof (cases "r < w_amountKes wd")
    case True
    with 2(3) show ?thesis by (intro exI [of _ 0]) (simp add: reserve_after_def)
  next
    case fits: False
    obtain res W1 where x: "releaseQueuedWithdrawal en wd W = (res, W1)" by fastforce
    note other = release_other [OF x]
    show ?thesis
    proof (cases "res = Released")
      case True
      then obtain rel2 where s: "release_scan en (js_sub r (w_amountKes wd)) rest W1 = (rel2, W')"
        and rel: "rel = w_withdrawalId wd # rel2"
        using 2(3) fits x by (auto split: prod.splits)
      from 2(1) [OF fits x [symmetric] refl True s] 2(4) obtain k where k: "k \<le> length rest"
        "subseq rel2 (ids (take k rest))"
        "\<forall>i. i \<notin> set (ids (take k rest)) \<longrightarrow> find_withdrawal i W' = find_withdrawal i W1"
        "k < length rest \<longrightarrow> reserve_after (js_sub r (w_amountKes wd)) rel2 (take k rest) < w_amountKes (rest ! k)"
        by auto
      have "w_withdrawalId wd \<notin> set (ids (take k rest))" using 2(4) by (auto dest: in_set_takeD)
      with k other rel show ?thesis
        by (intro exI [of _ "Suc k"]) (simp add: reserve_after_Cons_released)
    next
      case False
      then have s: "release_scan en r rest W1 = (rel, W')" using 2(3) fits x by simp
      from 2(2) [OF fits x [symmetric] refl False s] 2(4) obtain k where k: "k \<le> length rest"
        "subseq rel (ids (take k rest))"
        "\<forall>i. i \<notin> set (ids (take k rest)) \<longrightarrow> find_withdrawal i W' = find_withdrawal i W1"
        "k < length rest \<longrightarrow> reserve_after r rel (take k rest) < w_amountKes (rest ! k)"
        by auto
      have "w_withdrawalId wd \<notin> set (ids (take k rest))" using 2(4) by (auto dest: in_set_takeD)
      moreover from this k(2) have "w_withdrawalId wd \<notin> set rel"
        by (metis subseq_order.order_trans subseq_singleton_left)
      ultimately show ?thesis using k other
        by (intro exI [of _ "Suc k"]) (auto simp: reserve_after_Cons_kept intro: list_emb_Cons)
    qed
  qed
qed

lemma queue_distinct: "distinct (ids (withdrawals W)) \<Longrightarrow> distinct (ids (queue_of W))"
  by (simp add: queue_of_def distinct_map inj_on_def) 


lemma reserve_after_whole:
  assumes "release_scan en (of_int r) ws W = (rel, W')" "distinct (ids ws)"
    and "\<forall>w \<in> set ws. \<exists>n. w_amountKes w = of_int n \<and> 0 \<le> n" "0 \<le> r" "r \<le> 2 ^ 53"
  shows "sum_list (map w_amountKes (filter (\<lambda>w. w_withdrawalId w \<in> set rel) ws)) \<le> of_int r"
  using assms
proof (induction en "of_int r :: num" ws W arbitrary: r rel W' rule: release_scan.induct)
  case (1 en W)
  then show ?case by simp
next
  case (2 en wd rest W)
  obtain n where n: "w_amountKes wd = of_int n" "0 \<le> n" using 2(5) by auto
  show ?case
  proof (cases "of_int r < w_amountKes wd")
    case True
    with 2(3,6) show ?thesis by simp
  next
    case fits: False
    obtain res W1 where x: "releaseQueuedWithdrawal en wd W = (res, W1)" by fastforce
    show ?thesis
    proof (cases "res = Released")
      case True
      then obtain rel2 where s: "release_scan en (js_sub (of_int r) (w_amountKes wd)) rest W1 = (rel2, W')"
        and rel: "rel = w_withdrawalId wd # rel2"
        using 2(3) fits x by (auto split: prod.splits)
      have j: "js_sub (of_int r) (w_amountKes wd) = of_int (r - n)"
        unfolding n(1) by (rule js_sub_int) (use n fits 2(6,7) in auto)
      have "w_withdrawalId wd \<notin> set (ids rest)" using 2(4) by simp
      then have "filter (\<lambda>w. w_withdrawalId w \<in> set rel) rest = filter (\<lambda>w. w_withdrawalId w \<in> set rel2) rest"
        by (intro filter_cong) (auto simp: rel image_iff)
      moreover have "sum_list (map w_amountKes (filter (\<lambda>w. w_withdrawalId w \<in> set rel2) rest)) \<le> of_int (r - n)"
        by (rule 2(1) [OF fits x [symmetric] refl True j s [unfolded j]]) (use 2(4-7) n fits in auto)
      ultimately show ?thesis using n by (simp add: rel)
    next
      case False
      then have s: "release_scan en (of_int r) rest W1 = (rel, W')" using 2(3) fits x by simp
      from release_scan_prefix [OF s] 2(4) obtain k where "subseq rel (ids (take k rest))" by auto
      then have "set rel \<subseteq> set (ids (take k rest))" by (auto elim: list_emb_set)
      moreover have "set (ids (take k rest)) \<subseteq> set (ids rest)" using set_take_subset [of k rest] by (simp only: set_map image_mono)
      ultimately have "w_withdrawalId wd \<notin> set rel" using 2(4) by auto
      with 2(2) [OF fits x [symmetric] refl False refl s] 2(4-7) show ?thesis by auto
    qed
  qed
qed

text \<open>
  one scan never promises more than the reserve it read: for whole amounts, the released
  requests add up to at most the pool's reserve.
\<close>

theorem queue_within_reserve:
  assumes "distinct (ids (withdrawals W))" "processQueuedWithdrawals en W = (released, W')"
    and "sell_reserve (qe_liq en) = of_int r" "0 \<le> r" "r \<le> 2 ^ 53"
    and "\<forall>w \<in> set (withdrawals W). \<exists>n. w_amountKes w = of_int n \<and> 0 \<le> n"
  shows "sum_list (map w_amountKes (filter (\<lambda>w. w_withdrawalId w \<in> set released) (queue_of W)))
    \<le> sell_reserve (qe_liq en)"
proof -
  have "\<forall>w \<in> set (queue_of W). \<exists>n. w_amountKes w = of_int n \<and> 0 \<le> n"
    using assms(6) by (simp add: queue_of_def)
  from reserve_after_whole [OF _ queue_distinct [OF assms(1)] this assms(4,5), of en W released W']
  show ?thesis using assms(2,3) by (simp add: processQueuedWithdrawals_def)
qed

section \<open>Holding and releasing\<close>

lemma hold_effects:
  assumes "W' = holdForLiquidity en sale wd txBytes kes W"
  shows "sales W' = coll_put s_saleId (held_sale en txBytes sale) (sales W)"
    "withdrawals W' = coll_put w_withdrawalId (held_wd (qe_now en) wd) (withdrawals W)"
    "ledger W' = ledger W" "payouts W' = payouts W"
    "\<exists>ns. outbox W' = outbox W @ ns \<and> set ns \<subseteq> {ENotify (w_walletAddress wd), ESms (w_phone wd)}"
proof -
  let ?V = "recordWithdrawLiquidityActivity (qe_now en) Withdraw_queued_liquidity (of_withdrawal (held_wd (qe_now en) wd))
     (over\<lparr>o_status := Some ActPending, o_fiatAmount := Some kes\<rparr>)
     (save_withdrawal (held_wd (qe_now en) wd) (save_sale (held_sale en txBytes sale) W))"
  have W': "W' = notifyWithdrawalStateChange en (held_wd (qe_now en) wd) ?V"
    by (simp add: assms holdForLiquidity_def Let_def)
  have V: "outbox ?V = outbox W" by (simp add: frame_simps)
  show "\<exists>ns. outbox W' = outbox W @ ns \<and> set ns \<subseteq> {ENotify (w_walletAddress wd), ESms (w_phone wd)}"
    using notify_outbox [of en "held_wd (qe_now en) wd" ?V] unfolding W' V by (simp add: held_wd_def)
qed (simp_all add: assms holdForLiquidity_def Let_def frame_simps)

text \<open>
  C11: what is held is what is broadcast. If decryption undoes encryption, holding a cash-out sends
  nothing to the chain, and its release broadcasts exactly the bytes the user signed, once; then
  the request has left the queue with its place in it, and the spent bytes are gone.
\<close>

theorem hold_release_roundtrip:
  assumes key: "qe_dec en' (qe_enc en txBytes) = txBytes" "qe_enc en txBytes \<noteq> []" "txBytes \<noteq> []"
    and docs: "find_sale (s_saleId sale) W \<noteq> None" "find_withdrawal (w_withdrawalId wd) W \<noteq> None"
      "w_saleId wd = Some (s_saleId sale)"
    and hold: "W1 = holdForLiquidity en sale wd txBytes kes W"
    and rel: "releaseQueuedWithdrawal en' (held_wd (qe_now en) wd) W1 = (r, W2)"
  shows "(\<forall>b. EBroadcast b \<in> set (drop (length (outbox W)) (outbox W1)) \<longrightarrow> False)
    \<and> (\<exists>rest. outbox W2 = outbox W1 @ EBroadcast txBytes # rest \<and> (\<forall>b. EBroadcast b \<notin> set rest))
    \<and> (\<exists>w s. find_withdrawal (w_withdrawalId wd) W2 = Some w \<and> w_status w \<noteq> WQueuedLiquidity
         \<and> w_queuedAt w = Some (qe_now en) \<and> find_sale (s_saleId sale) W2 = Some s \<and> s_pendingTxBytes s = None)"
proof -
  note h = hold_effects [OF hold]
  let ?s = "held_sale en txBytes sale" and ?w = "held_wd (qe_now en) wd"
  have fs: "find_sale (s_saleId sale) W1 = Some ?s"
    using docs(1) coll_find_put_same [of s_saleId ?s "sales W"] by (simp add: find_sale_def h held_sale_def)
  have fw: "find_withdrawal (w_withdrawalId ?w) W1 \<noteq> None"
    using docs(2) coll_find_put_same [of w_withdrawalId ?w "withdrawals W"] by (simp add: find_withdrawal_def h held_wd_def)
  from rel have nm: "r \<noteq> ReleaseMissing \<and> (\<exists>rest. outbox W2 = outbox W1 @ EBroadcast txBytes # rest \<and> (\<forall>b. EBroadcast b \<notin> set rest))"
  proof (cases rule: release_cases)
    case missing
    with fs docs(3) key(2) show ?thesis by (auto simp: held_wd_def held_sale_def truthy_str_def)
  next
    case (settled sl resp V)
    then have "sl = ?s" using fs docs(3) by (auto simp: held_wd_def)
    then have p: "the (s_pendingTxBytes sl) = qe_enc en txBytes" by (simp add: held_sale_def)
    have "truthy_str (Some txBytes)" using key(3) by (simp add: truthy_str_def)
    with settled(5) [unfolded p key(1)] obtain rest
      where "outbox V = outbox W1 @ EBroadcast txBytes # rest" "\<forall>b. EBroadcast b \<notin> set rest"
      by (cases rule: settlement_broadcast) auto
    with settled(4,8) notify_outbox [of en' ?w V] show ?thesis by auto
  qed
  have id: "w_withdrawalId ?w = w_withdrawalId wd" "w_saleId ?w = w_saleId wd" "w_queuedAt ?w = Some (qe_now en)"
    by (simp_all add: held_wd_def)
  obtain w s where "find_withdrawal (w_withdrawalId wd) W2 = Some w" "w_status w \<noteq> WQueuedLiquidity"
    "w_queuedAt w = Some (qe_now en)" "find_sale (s_saleId sale) W2 = Some s" "s_pendingTxBytes s = None"
    using rel conjunct1 [OF nm] fw
  proof (rule release_leaves_queue)
    fix w s
    assume a: "find_withdrawal (w_withdrawalId ?w) W2 = Some w" "w_status w \<noteq> WQueuedLiquidity"
      "w_queuedAt w = w_queuedAt ?w" "w_saleId ?w = Some (s_saleId s)" "find_sale (s_saleId s) W2 = Some s"
      "s_pendingTxBytes s = None"
    from a(4) id docs(3) have "s_saleId s = s_saleId sale" by simp
    with a id show thesis by (intro that [of w s]) simp_all
  qed
  with nm h(5) show ?thesis by auto
qed

text \<open>
  a queued request whose held bytes are missing is neither released nor taken out of the queue:
  the scan leaves the world as it was, so the next scan meets it again.
\<close>

theorem missing_bytes_stay_queued:
  assumes "queue_of W = [wd]" "w_saleId wd = Some i" "find_sale i W = Some s" "s_pendingTxBytes s = None"
  shows "((\<lambda>V. snd (processQueuedWithdrawals en V)) ^^ n) W = W"
proof -
  have "releaseQueuedWithdrawal en wd W = (ReleaseMissing, W)"
    using assms by (simp add: releaseQueuedWithdrawal_def truthy_str_def)
  then have "snd (processQueuedWithdrawals en W) = W"
    using assms(1) by (simp add: processQueuedWithdrawals_def)
  then show ?thesis by (induction n) auto
qed

section \<open>Concrete queues\<close>

text \<open>Two held requests of one user; the older one is the larger.\<close>

definition demo_queue_env :: "num \<Rightarrow> queue_env" where
  "demo_queue_env reserve = \<lparr>qe_now = 9, qe_liq = demo_chain\<lparr>le_balances := Some [(''umal'', reserve * 1000000)]\<rparr>,
     qe_settle = (\<lambda>_. demo_settle_env (Inl ''timeout'')), qe_linked = (\<lambda>_. False),
     qe_enc = (\<lambda>b. ''v1:'' @ b), qe_dec = drop 3\<rparr>"

definition demo_held_wd :: "string \<Rightarrow> int \<Rightarrow> num \<Rightarrow> withdrawal" where
  "demo_held_wd i t kes = demo_wd\<lparr>w_withdrawalId := i, w_status := WQueuedLiquidity, w_queuedAt := Some t,
     w_amountKes := kes, w_saleId := Some i\<rparr>"

definition demo_queue_world :: world where
  "demo_queue_world = empty_world\<lparr>
     sales := [demo_sale\<lparr>s_saleId := ''a'', s_status := SQueuedLiquidity\<rparr>,
               demo_sale\<lparr>s_saleId := ''b'', s_status := SQueuedLiquidity\<rparr>],
     withdrawals := [demo_held_wd ''b'' 7 100, demo_held_wd ''a'' 5 900]\<rparr>"

lemma demo_queue: "queue_of demo_queue_world = [demo_held_wd ''a'' 5 900, demo_held_wd ''b'' 7 100]"
  by (simp add: queue_of_def demo_queue_world_def demo_held_wd_def)

lemma demo_reserve:
  assumes "0 \<le> r" "r \<le> 1000000000"
  shows "sell_reserve (qe_liq (demo_queue_env (of_int r))) = of_int r"
proof -
  have "fl (10 ^ 6) = 10 ^ 6" using fl_of_int [of "10 ^ 6"] by simp
  then have "js_div (of_int r * 1000000) (fl (10 ^ 6)) = of_int r"
    using fl_of_int [of r] assms by (simp add: js_div_def)
  then show ?thesis using assms
    by (simp add: sell_reserve_eq fetchPoolReserves_def find_amount_def parseAmount_def demo_queue_env_def demo_chain_def
        or_else_def Let_def)
qed


theorem queue_within_reserve_witness:
  "\<exists>released W'. processQueuedWithdrawals (demo_queue_env (of_int 950)) demo_queue_world = (released, W')
     \<and> sum_list (map w_amountKes (filter (\<lambda>w. w_withdrawalId w \<in> set released) (queue_of demo_queue_world))) \<le> 950"
proof -
  obtain released W' where p: "processQueuedWithdrawals (demo_queue_env (of_int 950)) demo_queue_world = (released, W')"
    by fastforce
  have d: "distinct (ids (withdrawals demo_queue_world))" by (simp add: demo_queue_world_def demo_held_wd_def)
  have r: "sell_reserve (qe_liq (demo_queue_env (of_int 950))) = of_int 950" by (rule demo_reserve) simp_all
  have "\<forall>w \<in> set (withdrawals demo_queue_world). \<exists>n. w_amountKes w = of_int n \<and> 0 \<le> n"
    by (auto simp: demo_queue_world_def demo_held_wd_def intro: exI [of _ 100] exI [of _ 900])
  from queue_within_reserve [OF d p r _ _ this] r p show ?thesis by auto
qed

theorem hold_release_roundtrip_witness:
  "\<exists>W1 r W2. W1 = holdForLiquidity (demo_queue_env 0) demo_sale demo_wd ''AA'' 500 demo_settle_world
     \<and> releaseQueuedWithdrawal (demo_queue_env 0) (held_wd 9 demo_wd) W1 = (r, W2)
     \<and> EBroadcast ''AA'' \<in> set (outbox W2) \<and> EBroadcast ''AA'' \<notin> set (drop (length (outbox demo_settle_world)) (outbox W1))"
proof -
  let ?en = "demo_queue_env 0"
  obtain W1 where h: "W1 = holdForLiquidity ?en demo_sale demo_wd ''AA'' 500 demo_settle_world" by blast
  obtain r W2 where rel: "releaseQueuedWithdrawal ?en (held_wd (qe_now ?en) demo_wd) W1 = (r, W2)" by fastforce
  have "find_sale (s_saleId demo_sale) demo_settle_world \<noteq> None"
    "find_withdrawal (w_withdrawalId demo_wd) demo_settle_world \<noteq> None" "w_saleId demo_wd = Some (s_saleId demo_sale)"
    by (simp_all add: find_sale_def find_withdrawal_def demo_settle_world_def demo_sale_def demo_wd_def)
  from hold_release_roundtrip [OF _ _ _ this h rel]
  have "(\<forall>b. EBroadcast b \<in> set (drop (length (outbox demo_settle_world)) (outbox W1)) \<longrightarrow> False)
    \<and> (\<exists>rest. outbox W2 = outbox W1 @ EBroadcast ''AA'' # rest)"
    by (auto simp: demo_queue_env_def)
  with h rel show ?thesis by (auto simp: demo_queue_env_def)
qed

theorem missing_bytes_stay_queued_witness:
  "let W = demo_queue_world\<lparr>withdrawals := [demo_held_wd ''a'' 5 900]\<rparr>
   in ((\<lambda>V. snd (processQueuedWithdrawals (demo_queue_env 1000) V)) ^^ 7) W = W"
proof -
  let ?W = "demo_queue_world\<lparr>withdrawals := [demo_held_wd ''a'' 5 900]\<rparr>"
  have "queue_of ?W = [demo_held_wd ''a'' 5 900]" "w_saleId (demo_held_wd ''a'' 5 900) = Some ''a''"
    "find_sale ''a'' ?W = Some (demo_sale\<lparr>s_saleId := ''a'', s_status := SQueuedLiquidity\<rparr>)"
    "s_pendingTxBytes (demo_sale\<lparr>s_saleId := ''a'', s_status := SQueuedLiquidity\<rparr>) = None"
    by (simp_all add: queue_of_def demo_held_wd_def find_sale_def demo_queue_world_def demo_sale_def)
  from missing_bytes_stay_queued [OF this] show ?thesis by (simp only: Let_def)
qed

end
