(* ===== verification/SellRoute.thy ===== *)
theory SellRoute
  imports WithdrawalQueue
begin

text \<open>
  The cash-out routes of \<open>routes/buy.js\<close>: \<open>POST /sell\<close> with its gates, the preview, the re-signing of a
  stale request, and the status with its synchronisation against the payout. The request limiter in
  front of them is not modelled; the address check of the request schema (a bech32 decoder) and the
  random identifiers are parameters.
\<close>

record sell_env =
  sv_queue :: queue_env
  sv_direct :: settle_env
  sv_gates :: gate_cfg
  sv_address :: "string \<Rightarrow> bool"
  sv_saleId :: string
  sv_oid :: string

abbreviation sv_now :: "sell_env \<Rightarrow> int" where "sv_now en \<equiv> qe_now (sv_queue en)"
abbreviation sv_pay :: "sell_env \<Rightarrow> payout_env" where "sv_pay en \<equiv> se_pay (sv_direct en)"

section \<open>The status of a sale\<close>

definition syncSaleWithPayout :: "sale \<Rightarrow> world \<Rightarrow> sale \<times> payout option \<times> world" where
  "syncSaleWithPayout sale W =
     (let p = find_payout (s_saleId sale) W in
      case p of None \<Rightarrow> (sale, p, W)
      | Some pay \<Rightarrow>
          if p_status pay = PSucceeded \<and> s_status sale \<noteq> SCompleted then
            (let s' = sale\<lparr>s_status := SCompleted, s_reason := None\<rparr> in (s', p, save_sale s' W))
          else if p_status pay = PFailed \<and> s_status sale \<noteq> SFailed then
            (let s' = sale\<lparr>s_status := SFailed,
                           s_reason := Some (msg_or (map_option Ext (p_payoutError pay)) CashoutPayoutFailed)\<rparr>
             in (s', p, save_sale s' W))
          else (sale, p, W))"

datatype overall_status = OCompleted | OFailed | OPayoutInitiated | OSale sale_status

record sale_summary =
  ss_saleId :: string
  ss_sellerAddress :: string
  ss_amountMlcns :: num
  ss_phone :: "string option"
  ss_status :: sale_status
  ss_overallStatus :: overall_status
  ss_txHash :: "string option"
  ss_burnAmount :: num
  ss_treasuryAmount :: num
  ss_burnPercentage :: num
  ss_burnTxHash :: "string option"
  ss_payoutRef :: "string option"
  ss_payoutStatus :: "payout_status option"
  ss_payoutError :: "string option"
  ss_payoutAmountKes :: "num option"

definition overall :: "payout option \<Rightarrow> sale \<Rightarrow> overall_status" where
  "overall p sale =
     (case map_option p_status p of
        Some PSucceeded \<Rightarrow> OCompleted | Some PFailed \<Rightarrow> OFailed | Some PInitiated \<Rightarrow> OPayoutInitiated
      | _ \<Rightarrow> OSale (s_status sale))"

definition saleSummary :: "sale \<Rightarrow> world \<Rightarrow> sale_summary \<times> world" where
  "saleSummary sale0 W =
     (let (sale, p, W') = syncSaleWithPayout sale0 W in
      (\<lparr>ss_saleId = s_saleId sale, ss_sellerAddress = s_sellerAddress sale, ss_amountMlcns = s_amount sale,
        ss_phone = str_or (s_phone sale) None, ss_status = s_status sale, ss_overallStatus = overall p sale,
        ss_txHash = str_or (s_txHash sale) None, ss_burnAmount = s_burnAmount sale,
        ss_treasuryAmount = s_treasuryAmount sale, ss_burnPercentage = s_burnPercentage sale,
        ss_burnTxHash = str_or (s_burnTxHash sale) None,
        ss_payoutRef = Option.bind p (\<lambda>q. str_or (p_payoutRef q) None),
        ss_payoutStatus = map_option p_status p,
        ss_payoutError = Option.bind p (\<lambda>q. str_or (p_payoutError q) None),
        ss_payoutAmountKes = Option.bind p (\<lambda>q. case p_pesaAmount q of Some a \<Rightarrow> if a = 0 then None else Some a | None \<Rightarrow> None)\<rparr>,
       W'))"

text \<open>\<open>GET /sell/status/:saleId\<close>.\<close>

definition sellStatus :: "string \<Rightarrow> world \<Rightarrow> sale_summary option \<times> world" where
  "sellStatus saleId W =
     (case find_sale saleId W of None \<Rightarrow> (None, W)
      | Some s \<Rightarrow> (let (r, W') = saleSummary s W in (Some r, W')))"

section \<open>Selling\<close>

text \<open>The body that passes the schema: an address, a positive amount up to a cap, bytes, maybe a phone.\<close>

record sell_body =
  sb_sellerAddress :: string
  sb_amount :: num
  sb_txBytes :: string
  sb_phone :: "string option"

definition sell_schema :: "sell_env \<Rightarrow> sell_body \<Rightarrow> bool" where
  "sell_schema en b = (sv_address en (sb_sellerAddress b) \<and> 0 < sb_amount b \<and> sb_amount b \<le> 10 ^ 15
     \<and> sb_txBytes b \<noteq> [] \<and> sb_phone b \<noteq> Some [])"

datatype sell_resp =
    SrInvalid | SrUnconfigured | SrBelowMinimum minimum_check | SrWeeklyLimit rate_check
  | SrAmlRequired aml_check | SrQueued string string | SrSettled settle_resp | SrError string

fun sell_status :: "sell_resp \<Rightarrow> nat" where
  "sell_status SrInvalid = 400"
| "sell_status SrUnconfigured = 503"
| "sell_status (SrBelowMinimum _) = 400"
| "sell_status (SrWeeklyLimit _) = 429"
| "sell_status (SrAmlRequired _) = 403"
| "sell_status (SrQueued _ _) = 202"
| "sell_status (SrSettled r) = settle_status r"
| "sell_status (SrError _) = 500"

definition estimated_kes :: "payout_env \<Rightarrow> num \<Rightarrow> num" where
  "estimated_kes en amount = js_mul amount (mp_sellPriceKes (getMarketPrice (pe_priceCached en) (pe_priceReply en)))"

definition new_sale :: "sell_env \<Rightarrow> sell_body \<Rightarrow> sale" where
  "new_sale en b = \<lparr>s_saleId = sv_saleId en, s_sellerAddress = sb_sellerAddress b, s_amount = sb_amount b,
     s_phone = sb_phone b, s_status = SPending, s_txHash = None, s_burnAmount = 0, s_burnTxHash = None,
     s_treasuryAmount = 0, s_burnPercentage = 30, s_reason = None, s_pendingTxBytes = None,
     s_pendingTxBytesSetAt = None, s_createdAt = sv_now en\<rparr>"

definition withdrawal_id :: "string \<Rightarrow> string" where "withdrawal_id saleId = ''withdrawal-'' @ saleId"

definition new_withdrawal :: "sell_env \<Rightarrow> sell_body \<Rightarrow> string \<Rightarrow> num \<Rightarrow> string option \<Rightarrow> withdrawal" where
  "new_withdrawal en b phone kes reviewId = \<lparr>w_oid = sv_oid en, w_withdrawalId = withdrawal_id (sv_saleId en),
     w_walletAddress = sb_sellerAddress b, w_phone = phone, w_amountMlcns = sb_amount b, w_amountKes = kes,
     w_currency = ''KES'', w_status = WPendingReview, w_payoutRef = None, w_settlementMode = SignedSell,
     w_saleId = Some (sv_saleId en), w_sellTxHash = None, w_burnTxHash = None, w_notes = Some AwaitingBroadcast,
     w_queuedAt = None, w_amlReviewId = reviewId, w_createdAt = sv_now en\<rparr>"

text \<open>\<open>findByIdAndUpdate\<close>: the review is spent on this withdrawal.\<close>

fun consume_review :: "string \<Rightarrow> string \<Rightarrow> aml_review list \<Rightarrow> aml_review list" where
  "consume_review i oid [] = []"
| "consume_review i oid (v # vs) =
     (if v_id v = i then v\<lparr>v_consumedBy := Some oid\<rparr> # vs else v # consume_review i oid vs)"

definition spend_review :: "string option \<Rightarrow> string \<Rightarrow> world \<Rightarrow> world" where
  "spend_review reviewId oid W =
     (case reviewId of None \<Rightarrow> W | Some i \<Rightarrow> W\<lparr>amlReviews := consume_review i oid (amlReviews W)\<rparr>)"

text \<open>The records of a request that has passed the gates, in the order they are made.\<close>

definition sell_records ::
  "sell_env \<Rightarrow> sell_body \<Rightarrow> num \<Rightarrow> string option \<Rightarrow> world \<Rightarrow> (string + sale \<times> withdrawal) \<times> world" where
  "sell_records en b kes reviewId W =
     (if find_sale (sv_saleId en) W \<noteq> None then (Inl ''E11000 duplicate key'', W)
      else let sale = new_sale en b; W1 = create_sale sale W in
        case sb_phone b of None \<Rightarrow> (Inl ''WithdrawalRequest validation failed: phone'', W1)
        | Some phone \<Rightarrow>
            if find_withdrawal (withdrawal_id (sv_saleId en)) W1 \<noteq> None then (Inl ''E11000 duplicate key'', W1)
            else let wd = new_withdrawal en b phone kes reviewId;
                     W2 = create_withdrawal wd W1;
                     W3 = recordWithdrawLiquidityActivity (sv_now en) Cashout_requested (of_withdrawal wd)
                            (over\<lparr>o_status := Some ActPending, o_saleId := Some (sv_saleId en)\<rparr>) W2
                 in (Inr (sale, wd), spend_review reviewId (w_oid wd) W3))"

text \<open>Hold or settle; the summary of a settled sale may still synchronise it with its payout.\<close>

definition sell_finish ::
  "sell_env \<Rightarrow> sell_body \<Rightarrow> num \<Rightarrow> bool \<Rightarrow> sale \<Rightarrow> withdrawal \<Rightarrow> world \<Rightarrow> sell_resp \<times> world" where
  "sell_finish en b kes liquid sale wd W =
     (if \<not> liquid then
        (SrQueued (w_withdrawalId wd) (s_saleId sale), holdForLiquidity (sv_queue en) sale wd (sb_txBytes b) kes W)
      else let (r, W1) = executeSellSettlement (sv_direct en) sale wd (Some (sb_txBytes b)) (sb_amount b) (w_phone wd)
                            (sb_sellerAddress b) (s_saleId sale) kes W
           in (SrSettled r, if settle_status r = 200 then snd (sellStatus (s_saleId sale) W1) else W1))"

definition postSell :: "sell_env \<Rightarrow> sell_body \<Rightarrow> world \<Rightarrow> sell_resp \<times> world" where
  "postSell en b W =
     (if \<not> sell_schema en b then (SrInvalid, W)
      else if \<not> payout_configured (pe_cfg (sv_pay en)) then (SrUnconfigured, W)
      else let kes = estimated_kes (sv_pay en) (sb_amount b);
               minimumCheck = checkMinimumWithdrawal (gc_minKes (sv_gates en)) kes in
        if \<not> mc_ok minimumCheck then (SrBelowMinimum minimumCheck, W)
        else case checkWeeklyWithdrawalLimit (gc_weeklyLimit (sv_gates en)) (sv_now en) (sb_sellerAddress b) W of
          Inl e \<Rightarrow> (SrError e, W)
        | Inr rate \<Rightarrow>
            if \<not> rc_ok rate then (SrWeeklyLimit rate, W)
            else let aml = requireApprovedAmlReview (gc_amlThreshold (sv_gates en)) (sb_sellerAddress b) kes W;
                     W0 = snd (checkAndFlagStructuring (gc_amlThreshold (sv_gates en)) (sv_now en) (sb_sellerAddress b) W) in
              if \<not> ac_ok aml then (SrAmlRequired aml, W0)
              else let liquid = sl_ok (checkSellLiquidity (qe_liq (sv_queue en)) kes) in
                case sell_records en b kes (str_or (ac_reviewId aml) None) W0 of
                  (Inl e, W1) \<Rightarrow> (SrError e, W1)
                | (Inr (sale, wd), W1) \<Rightarrow> sell_finish en b kes liquid sale wd W1)"

section \<open>Re-signing\<close>

datatype resign_resp = RsMissingBytes | RsNotFound | RsConflict wd_status | RsOk string string

definition resignSell :: "queue_env \<Rightarrow> string \<Rightarrow> string option \<Rightarrow> world \<Rightarrow> resign_resp \<times> world" where
  "resignSell en saleId txBytes W =
     (if \<not> truthy_str txBytes then (RsMissingBytes, W)
      else case find_sale saleId W of None \<Rightarrow> (RsNotFound, W)
      | Some sale \<Rightarrow>
          (case coll_find (\<lambda>w. w_saleId w = Some saleId) (withdrawals W) of None \<Rightarrow> (RsNotFound, W)
           | Some wd \<Rightarrow>
               if s_status sale \<noteq> SResignRequired \<or> w_status wd \<noteq> WResignRequired then (RsConflict (w_status wd), W)
               else let W1 = save_sale (held_sale en (the txBytes) sale) W;
                        wd' = wd\<lparr>w_status := WQueuedLiquidity, w_notes := Some Resigned\<rparr>;
                        W2 = save_withdrawal wd' W1
                    in (RsOk (s_saleId sale) (w_withdrawalId wd),
                        recordWithdrawLiquidityActivity (qe_now en) Withdraw_resigned (of_withdrawal wd')
                          (over\<lparr>o_status := Some ActPending, o_saleId := Some (s_saleId sale)\<rparr>) W2)))"

section \<open>The preview\<close>

record sell_preview =
  pv_estimatedKes :: num
  pv_burnAmount :: num
  pv_treasuryAmount :: num
  pv_payoutConfigured :: bool
  pv_minimum :: minimum_check
  pv_rateLimit :: rate_check
  pv_aml :: aml_check
  pv_walletLinked :: bool
  pv_liquidity :: sell_check

text \<open>\<open>GET /sell/preview\<close>; the seller is optional. \<open>Inl\<close> is an invalid amount or a failure.\<close>

definition sellPreview :: "sell_env \<Rightarrow> num \<Rightarrow> string option \<Rightarrow> world \<Rightarrow> string + sell_preview" where
  "sellPreview en amount seller W =
     (if \<not> (0 < amount \<and> amount \<le> 10 ^ 15) then Inl ''Invalid amount''
      else let kes = estimated_kes (sv_pay en) amount;
               burnAmount = js_floor (js_mul amount (js_div 30 100));
               thr = gc_amlThreshold (sv_gates en);
               cap = gc_weeklyLimit (sv_gates en);
               named = truthy_str seller in
        case (if named then checkWeeklyWithdrawalLimit cap (sv_now en) (the seller) W
              else Inr \<lparr>rc_ok = True, rc_count = 0, rc_limit = cap, rc_nextAvailableAt = None\<rparr>) of
          Inl e \<Rightarrow> Inl e
        | Inr rate \<Rightarrow>
            Inr \<lparr>pv_estimatedKes = kes, pv_burnAmount = burnAmount, pv_treasuryAmount = js_sub amount burnAmount,
                 pv_payoutConfigured = payout_configured (pe_cfg (sv_pay en)),
                 pv_minimum = checkMinimumWithdrawal (gc_minKes (sv_gates en)) kes, pv_rateLimit = rate,
                 pv_aml = (if named then requireApprovedAmlReview thr (the seller) kes W
                           else \<lparr>ac_ok = True, ac_required = False, ac_thresholdKes = thr, ac_reviewId = None,
                                 ac_reviewStatus = None\<rparr>),
                 pv_walletLinked = (named \<and> qe_linked (sv_queue en) (the seller)),
                 pv_liquidity = checkSellLiquidity (qe_liq (sv_queue en)) kes\<rparr>)"

section \<open>Frames\<close>

lemma initiate_amlReviews:
  assumes "initiateB2CPayout en phone m i W = (r, W')"
  shows "amlReviews W' = amlReviews W"
  using assms by (cases rule: initiate_cases) (simp_all add: emit_n_def)

lemma burn_amlReviews:
  assumes "executeSellBurnWorkflow en i amount sale W = (bu, sale', W')"
  shows "amlReviews W' = amlReviews W"
  using assms by (auto simp: executeSellBurnWorkflow_def Let_def add_ledger_def frame_simps split: prod.splits if_splits)

lemma settle_payout_amlReviews:
  assumes "settle_payout en wd amount phone sa i kes tx bu W = (ref, W')"
  shows "amlReviews W' = amlReviews W"
proof -
  obtain r W1 where i: "initiateB2CPayout (se_pay en) phone amount i W = (r, W1)" by fastforce
  note f = initiate_amlReviews [OF i]
  show ?thesis using assms f
    by (auto simp: settle_payout_def Let_def i frame_simps split: b2c_result.splits if_splits)
qed

lemma settlement_amlReviews:
  assumes "executeSellSettlement en sale wd txBytes amount phone sa i kes W = (r, W')"
  shows "amlReviews W' = amlReviews W"
  using assms
proof (cases rule: settlement_cases)
  case (accepted tx)
  then show ?thesis
    by (auto simp: settle_accepted_def Let_def frame_simps split: prod.splits
        dest!: burn_amlReviews settle_payout_amlReviews)
qed (auto simp: refusal_defs frame_simps split: if_splits)

lemma sync_frame:
  assumes "syncSaleWithPayout sale W = (s, p, W')"
  shows "withdrawals W' = withdrawals W" "amlReviews W' = amlReviews W" "outbox W' = outbox W"
    "ledger W' = ledger W" "payouts W' = payouts W" "s_saleId s = s_saleId sale"
  using assms by (auto simp: syncSaleWithPayout_def Let_def frame_simps split: option.splits if_splits)

lemma sellStatus_frame:
  "withdrawals (snd (sellStatus i W)) = withdrawals W" "amlReviews (snd (sellStatus i W)) = amlReviews W"
  "outbox (snd (sellStatus i W)) = outbox W"
  using sync_frame by (auto simp: sellStatus_def saleSummary_def split: option.splits prod.splits)

lemma flags_frame:
  "sales (snd (checkAndFlagStructuring t now u W)) = sales W"
  "withdrawals (snd (checkAndFlagStructuring t now u W)) = withdrawals W"
  "payouts (snd (checkAndFlagStructuring t now u W)) = payouts W"
  "amlReviews (snd (checkAndFlagStructuring t now u W)) = amlReviews W"
  "outbox (snd (checkAndFlagStructuring t now u W)) = outbox W"
  "ledger (snd (checkAndFlagStructuring t now u W)) = ledger W"
  "activities (snd (checkAndFlagStructuring t now u W)) = activities W"
  by (simp_all add: checkAndFlagStructuring_def Let_def)

section \<open>What the route guarantees\<close>

text \<open>A request that is turned away by a gate, by its answer.\<close>

fun turned_away :: "sell_resp \<Rightarrow> bool" where
  "turned_away (SrQueued _ _) = False"
| "turned_away (SrSettled _) = False"
| "turned_away (SrError _) = False"
| "turned_away _ = True"

text \<open>The ways a request goes: refused, failed while making its records, held, or settled.\<close>

definition passes_gates :: "sell_env \<Rightarrow> sell_body \<Rightarrow> world \<Rightarrow> bool" where
  "passes_gates en b W \<longleftrightarrow> sell_schema en b \<and> payout_configured (pe_cfg (sv_pay en))
     \<and> gc_minKes (sv_gates en) \<le> estimated_kes (sv_pay en) (sb_amount b)
     \<and> length (filter (counts (sv_now en) (sb_sellerAddress b)) (withdrawals W)) < gc_weeklyLimit (sv_gates en)
     \<and> ac_ok (requireApprovedAmlReview (gc_amlThreshold (sv_gates en)) (sb_sellerAddress b)
               (estimated_kes (sv_pay en) (sb_amount b)) W)"

lemma sort_key_Nil: "sort_key f xs = [] \<Longrightarrow> length xs = 0"
  by (metis length_0_conv length_sort)

lemma postSell_cases:
  assumes "postSell en b W = (r, W')"
  obtains (refused) "turned_away r \<or> (\<exists>e. r = SrError e \<and> gc_weeklyLimit (sv_gates en) = 0)"
      "W' = W \<or> W' = snd (checkAndFlagStructuring (gc_amlThreshold (sv_gates en)) (sv_now en) (sb_sellerAddress b) W)"
      "\<not> passes_gates en b W"
  | (records) e W0 kes i where "passes_gates en b W" "r = SrError e"
      "W0 = snd (checkAndFlagStructuring (gc_amlThreshold (sv_gates en)) (sv_now en) (sb_sellerAddress b) W)"
      "sell_records en b kes i W0 = (Inl e, W')"
  | (passed) sale wd W0 W1 kes i where "passes_gates en b W" "kes = estimated_kes (sv_pay en) (sb_amount b)"
      "i = str_or (ac_reviewId (requireApprovedAmlReview (gc_amlThreshold (sv_gates en)) (sb_sellerAddress b) kes W)) None"
      "W0 = snd (checkAndFlagStructuring (gc_amlThreshold (sv_gates en)) (sv_now en) (sb_sellerAddress b) W)"
      "sell_records en b kes i W0 = (Inr (sale, wd), W1)"
      "sell_finish en b kes (kes \<le> sell_reserve (qe_liq (sv_queue en))) sale wd W1 = (r, W')"
proof -
  let ?kes = "estimated_kes (sv_pay en) (sb_amount b)"
  let ?aml = "requireApprovedAmlReview (gc_amlThreshold (sv_gates en)) (sb_sellerAddress b) ?kes W"
  let ?W0 = "snd (checkAndFlagStructuring (gc_amlThreshold (sv_gates en)) (sv_now en) (sb_sellerAddress b) W)"
  note d = assms [unfolded postSell_def Let_def]
  show thesis
  proof (cases "passes_gates en b W")
    case False
    then have "(turned_away r \<or> (\<exists>e. r = SrError e \<and> gc_weeklyLimit (sv_gates en) = 0)) \<and> (W' = W \<or> W' = ?W0)"
      using d by (auto simp: passes_gates_def checkMinimumWithdrawal_def checkWeeklyWithdrawalLimit_def Let_def
          split: if_splits list.splits dest!: sort_key_Nil)
    with False show thesis using refused by blast
  next
    case True
    obtain q W1 where q: "sell_records en b ?kes (str_or (ac_reviewId ?aml) None) ?W0 = (q, W1)" by fastforce
    have "(case q of Inl e \<Rightarrow> (SrError e, W1) | Inr (sale, wd) \<Rightarrow>
        sell_finish en b ?kes (?kes \<le> sell_reserve (qe_liq (sv_queue en))) sale wd W1) = (r, W')"
      using d True q by (auto simp: passes_gates_def checkMinimumWithdrawal_def checkWeeklyWithdrawalLimit_def Let_def
          sell_check_simps split: if_splits list.splits sum.splits)
    then show thesis
      using q True records [OF True _ refl, of _ ?kes "str_or (ac_reviewId ?aml) None"] passed [OF True refl refl refl]
      by (cases q) (auto split: prod.splits)
  qed
qed

text \<open>
  C12: a cash-out that a gate turns away leaves no sale, no withdrawal, no payout and no journal
  entry, spends no review and sends nothing out; and a request that leaves any of these has passed
  every gate.
\<close>

theorem refused_sell_leaves_nothing:
  assumes "postSell en b W = (r, W')" "\<not> passes_gates en b W"
  shows "sales W' = sales W \<and> withdrawals W' = withdrawals W \<and> payouts W' = payouts W \<and> ledger W' = ledger W
    \<and> amlReviews W' = amlReviews W \<and> activities W' = activities W \<and> outbox W' = outbox W
    \<and> sell_status r \<in> {400, 403, 429, 500, 503}"
  using assms(1)
proof (cases rule: postSell_cases)
  case refused
  have "sell_status r \<in> {400, 403, 429, 500, 503}" using refused(1) by (cases r) auto
  with refused(2) flags_frame show ?thesis by auto
qed (use assms(2) in simp_all)

text \<open>What a request that passes the gates does to the withdrawals of its wallet and to the reviews.\<close>

lemma sell_records_Inr:
  assumes "sell_records en b kes i W = (Inr (sale, wd), W')"
  shows "\<exists>phone. sb_phone b = Some phone \<and> wd = new_withdrawal en b phone kes i" "sale = new_sale en b"
    "sales W' = sales W @ [sale]" "withdrawals W' = withdrawals W @ [wd]"
    "find_sale (sv_saleId en) W = None" "find_withdrawal (withdrawal_id (sv_saleId en)) W = None"
    "amlReviews W' = (case i of None \<Rightarrow> amlReviews W | Some k \<Rightarrow> consume_review k (sv_oid en) (amlReviews W))"
    "outbox W' = outbox W" "ledger W' = ledger W"
  using assms
  by (auto simp: sell_records_def Let_def spend_review_def frame_simps find_withdrawal_def new_withdrawal_def
      split: if_splits option.splits)

lemma sell_finish_docs:
  assumes "sell_finish en b kes liquid sale wd W = (r, W')" "withdrawals W = ws @ [wd]"
    and "w_withdrawalId wd \<notin> set (ids ws)"
  obtains w where "withdrawals W' = ws @ [w]" "w_walletAddress w = w_walletAddress wd" "w_createdAt w = w_createdAt wd"
    "w_withdrawalId w = w_withdrawalId wd" "amlReviews W' = amlReviews W" "w_saleId w = w_saleId wd"
    "r = SrSettled SettleResign \<Longrightarrow> w_queuedAt w = w_queuedAt wd \<and> w_status w = WResignRequired"
proof -
  have put: "coll_put w_withdrawalId w (ws @ [wd]) = ws @ [w]" if "w_withdrawalId w = w_withdrawalId wd" for w
    using assms(3) that by (induction ws) auto
  show thesis
  proof (cases liquid)
    case False
    with assms(1) have r: "r = SrQueued (w_withdrawalId wd) (s_saleId sale)"
      and W': "W' = holdForLiquidity (sv_queue en) sale wd (sb_txBytes b) kes W" by (simp_all add: sell_finish_def)
    have "amlReviews W' = amlReviews W" by (simp add: W' holdForLiquidity_def Let_def frame_simps)
    with hold_effects(2) [OF W'] put [of "held_wd (sv_now en) wd"] assms(2) r show thesis
      by (intro that [of "held_wd (sv_now en) wd"]) (simp_all add: held_wd_def)
  next
    case True
    obtain resp W1 where e: "executeSellSettlement (sv_direct en) sale wd (Some (sb_txBytes b)) (sb_amount b)
        (w_phone wd) (sb_sellerAddress b) (s_saleId sale) kes W = (resp, W1)" by fastforce
    have r: "r = SrSettled resp" and W': "withdrawals W' = withdrawals W1" "amlReviews W' = amlReviews W1"
      using assms(1) True e sellStatus_frame by (auto simp: sell_finish_def Let_def)
    from e show thesis
    proof (cases rule: settlement_docs)
      case (1 s w)
      then have k: "w_withdrawalId w = w_withdrawalId wd" by (simp add: same_request_def)
      have "withdrawals W' = ws @ [w]" using 1(5) W' assms(2) put [OF k] by simp
      with 1(2,3) W' settlement_amlReviews [OF e] r show thesis
        by (intro that [of w]) (auto simp: same_request_def)
    qed
  qed
qed

lemma sell_records_Inl:
  "sell_records en b kes i W = (Inl e, W') \<Longrightarrow> withdrawals W' = withdrawals W \<and> amlReviews W' = amlReviews W"
  by (auto simp: sell_records_def Let_def frame_simps split: if_splits option.splits)

text \<open>A cash-out adds at most one request, to its own wallet, and only when it has passed the gates.\<close>

lemma postSell_withdrawals:
  assumes "postSell en b W = (r, W')"
  obtains (same) "withdrawals W' = withdrawals W"
  | (one) w where "withdrawals W' = withdrawals W @ [w]" "w_walletAddress w = sb_sellerAddress b" "passes_gates en b W"
  using assms
proof (cases rule: postSell_cases)
  case refused
  then show thesis using flags_frame by (intro same) auto
next
  case (records e W0 kes i)
  then show thesis using sell_records_Inl [OF records(4)] flags_frame by (intro same) simp
next
  case (passed sale wd W0 W1 kes i)
  note rec = sell_records_Inr [OF passed(5)]
  from rec(1) have wd: "w_walletAddress wd = sb_sellerAddress b" "w_withdrawalId wd = withdrawal_id (sv_saleId en)"
    by (auto simp: new_withdrawal_def)
  have "w_withdrawalId wd \<notin> set (ids (withdrawals W0))"
    using rec(6) wd(2) by (auto simp: find_withdrawal_def coll_find_None)
  from passed(6) rec(4) this show thesis
  proof (cases rule: sell_finish_docs)
    case (1 w)
    then show thesis using wd passed(1,4) flags_frame by (intro one) simp_all
  qed
qed

lemma counts_antimono: "t \<le> t' \<Longrightarrow> length (filter (counts t' u) ws) \<le> length (filter (counts t u) ws)"
  by (rule length_filter_mono) (auto simp: counts_def)

lemma postSell_count:
  assumes "postSell en b W = (r, W')"
    and "length (filter (counts (sv_now en) u) (withdrawals W)) \<le> gc_weeklyLimit (sv_gates en)"
  shows "length (filter (counts (sv_now en) u) (withdrawals W')) \<le> gc_weeklyLimit (sv_gates en)"
  using assms(1)
proof (cases rule: postSell_withdrawals)
  case same
  with assms(2) show ?thesis by simp
next
  case (one w)
  then show ?thesis using assms(2) by (auto simp: passes_gates_def counts_def)
qed

definition sells :: "(sell_env \<times> sell_body) list \<Rightarrow> world \<Rightarrow> world" where
  "sells calls W = fold (\<lambda>(en, b) V. snd (postSell en b V)) calls W"

text \<open>
  C13: however cash-out requests follow one another, from whichever wallets, no wallet ever has more
  counted requests in any seven days than the weekly limit.
\<close>

theorem weekly_limit_invariant:
  assumes "sorted (map (\<lambda>(en, _). sv_now en) calls)"
    and "\<forall>(en, _) \<in> set calls. gc_weeklyLimit (sv_gates en) = cap \<and> sv_now en \<le> t"
  shows "length (filter (counts t u) (withdrawals (sells calls empty_world))) \<le> cap"
proof -
  have "length (filter (counts t u) (withdrawals (sells calls W))) \<le> cap"
    if "length (filter (counts t0 u) (withdrawals W)) \<le> cap" "\<forall>(en, _) \<in> set calls. t0 \<le> sv_now en" "t0 \<le> t" for W t0
    using that assms
  proof (induction calls arbitrary: W t0)
    case Nil
    then show ?case using counts_antimono [of t0 t u "withdrawals W"] by (simp add: sells_def)
  next
    case (Cons c calls)
    obtain en b where c: "c = (en, b)" by fastforce
    obtain r W1 where p: "postSell en b W = (r, W1)" by fastforce
    have "length (filter (counts (sv_now en) u) (withdrawals W)) \<le> cap"
      using Cons.prems(1,2) counts_antimono [of t0 "sv_now en" u "withdrawals W"] c by auto
    then have "length (filter (counts (sv_now en) u) (withdrawals W1)) \<le> cap"
      using postSell_count [OF p, of u] Cons.prems(5) c by simp
    then have "length (filter (counts t u) (withdrawals (sells calls W1))) \<le> cap"
      by (rule Cons.IH) (use Cons.prems(4,5) c in auto)
    with c p show ?case by (simp add: sells_def)
  qed
  note step = this
  define m where "m = Min (insert t (set (map (\<lambda>(en, _). sv_now en) calls)))"
  have le: "m \<le> x" if "x \<in> insert t (set (map (\<lambda>(en, _). sv_now en) calls))" for x
    unfolding m_def by (rule Min_le) (use that in auto)
  have "m \<le> sv_now (fst c)" if "c \<in> set calls" for c
    by (rule le) (use that in \<open>auto simp: image_iff intro!: bexI [of _ c] split: prod.splits\<close>)
  then have "\<forall>(en, _) \<in> set calls. m \<le> sv_now en" by fastforce
  then show ?thesis by (intro step [of m]) (use le in auto)
qed

lemma consume_count:
  assumes "distinct (map v_id vs)" "v \<in> set vs" "spendable u v"
  shows "length (filter (spendable u) vs) = Suc (length (filter (spendable u) (consume_review (v_id v) oid vs)))"
  using assms
proof (induction vs)
  case (Cons x xs)
  show ?case
  proof (cases "v_id x = v_id v")
    case True
    then have "x = v" using Cons.prems(1,2) by (auto simp: image_iff)
    with Cons.prems(3) show ?thesis by (auto simp: spendable_def)
  next
    case False
    with Cons show ?thesis by auto
  qed
qed simp

lemma consume_other: "v_id w \<noteq> i \<Longrightarrow> w \<in> set vs \<Longrightarrow> w \<in> set (consume_review i oid vs)"
  by (induction vs) auto

text \<open>
  C34: an approved review covers one cash-out. When a request at or above the threshold is accepted,
  its wallet has exactly one usable review less, and no other wallet loses one.
\<close>

theorem review_single_use:
  assumes "postSell en b W = (r, W')" "passes_gates en b W" "\<forall>e. r \<noteq> SrError e"
    and "gc_amlThreshold (sv_gates en) \<le> estimated_kes (sv_pay en) (sb_amount b)"
    and "distinct (map v_id (amlReviews W))" "[] \<notin> v_id ` set (amlReviews W)"
  shows "length (filter (spendable (sb_sellerAddress b)) (amlReviews W))
      = Suc (length (filter (spendable (sb_sellerAddress b)) (amlReviews W')))
    \<and> (\<forall>v \<in> set (amlReviews W). v_walletAddress v \<noteq> sb_sellerAddress b \<longrightarrow> v \<in> set (amlReviews W'))"
  using assms(1)
proof (cases rule: postSell_cases)
  case (passed sale wd W0 W1 kes i)
  let ?u = "sb_sellerAddress b"
  have notbelow: "\<not> kes < gc_amlThreshold (sv_gates en)" using assms(4) passed(2) by simp
  have ok: "ac_ok (requireApprovedAmlReview (gc_amlThreshold (sv_gates en)) ?u kes W)"
    using passed(1,2) by (simp add: passes_gates_def)
  obtain v where v: "latest_review (spendable ?u) W = Some v"
    using ok notbelow by (auto simp: requireApprovedAmlReview_def Let_def split: option.splits)
  note lv = latest_review_Some [OF v]
  have i: "i = Some (v_id v)"
    using passed(3) notbelow v lv(1) assms(6) by (auto simp: requireApprovedAmlReview_def image_iff)
  note rec = sell_records_Inr [OF passed(5)]
  have "w_withdrawalId wd = withdrawal_id (sv_saleId en)" using rec(1) by (auto simp: new_withdrawal_def)
  then have fresh: "w_withdrawalId wd \<notin> set (ids (withdrawals W0))"
    using rec(6) by (auto simp: find_withdrawal_def coll_find_None)
  from passed(6) rec(4) fresh have "amlReviews W' = amlReviews W1" by (cases rule: sell_finish_docs)
  then have a: "amlReviews W' = consume_review (v_id v) (sv_oid en) (amlReviews W)"
    using rec(7) i passed(4) flags_frame by simp
  have "v \<in> set (amlReviews W)" "spendable ?u v" using lv by simp_all
  from consume_count [OF assms(5) this, of "sv_oid en"] a
  have "length (filter (spendable ?u) (amlReviews W)) = Suc (length (filter (spendable ?u) (amlReviews W')))" by simp
  moreover have "w \<in> set (amlReviews W')" if "w \<in> set (amlReviews W)" "v_walletAddress w \<noteq> ?u" for w
  proof -
    have "w \<noteq> v" using that(2) lv(2) by (auto simp: spendable_def)
    then have "v_id w \<noteq> v_id v" using assms(5) that(1) lv(1) by (auto simp: distinct_map inj_on_def)
    with that(1) show ?thesis unfolding a by (intro consume_other)
  qed
  ultimately show ?thesis by blast
qed (use assms(2,3) in auto)

text \<open>
  a request for more than the pool holds is never broadcast: both documents end up held, with
  the signed bytes encrypted on the sale, and the answer is 202.
\<close>

theorem insufficient_pool_holds:
  assumes "postSell en b W = (r, W')" "passes_gates en b W" "\<forall>e. r \<noteq> SrError e"
    and "sell_reserve (qe_liq (sv_queue en)) < estimated_kes (sv_pay en) (sb_amount b)"
  shows "sell_status r = 202 \<and> (\<forall>x. EBroadcast x \<in> set (drop (length (outbox W)) (outbox W')) \<longrightarrow> False)
    \<and> ledger W' = ledger W \<and> payouts W' = payouts W
    \<and> (\<exists>s w. find_sale (sv_saleId en) W' = Some s \<and> s_status s = SQueuedLiquidity
          \<and> s_pendingTxBytes s = Some (qe_enc (sv_queue en) (sb_txBytes b))
          \<and> find_withdrawal (withdrawal_id (sv_saleId en)) W' = Some w \<and> w_status w = WQueuedLiquidity
          \<and> w_queuedAt w = Some (sv_now en))"
  using assms(1)
proof (cases rule: postSell_cases)
  case (passed sale wd W0 W1 kes i)
  note rec = sell_records_Inr [OF passed(5)]
  have no: "\<not> kes \<le> sell_reserve (qe_liq (sv_queue en))" using assms(4) passed(2) by simp
  with passed(6) have r: "r = SrQueued (w_withdrawalId wd) (s_saleId sale)"
    and W': "W' = holdForLiquidity (sv_queue en) sale wd (sb_txBytes b) kes W1" by (simp_all add: sell_finish_def)
  note h = hold_effects [OF W']
  let ?s = "held_sale (sv_queue en) (sb_txBytes b) sale" and ?w = "held_wd (sv_now en) wd"
  have k: "s_saleId ?s = sv_saleId en" "w_withdrawalId ?w = withdrawal_id (sv_saleId en)"
    using rec(1,2) by (auto simp: held_sale_def held_wd_def new_sale_def new_withdrawal_def)
  have p: "sales W1 = sales W0 @ [sale]" "s_saleId sale = sv_saleId en" "w_withdrawalId wd = withdrawal_id (sv_saleId en)"
    using rec k by (auto simp: held_sale_def held_wd_def)
  have fs: "find_sale (sv_saleId en) W' = Some ?s"
    using coll_find_put_same [of s_saleId ?s "sales W1"] p k
    by (simp add: find_sale_def h(1) coll_find_append split: option.splits)
  have fw: "find_withdrawal (withdrawal_id (sv_saleId en)) W' = Some ?w"
    using coll_find_put_same [of w_withdrawalId ?w "withdrawals W1"] p(3) k rec(4)
    by (simp add: find_withdrawal_def h(2) coll_find_append split: option.splits)
  have o: "outbox W1 = outbox W" "ledger W1 = ledger W" using rec(8,9) passed(4) flags_frame by simp_all
  have pay: "payouts W1 = payouts W"
    using passed(4,5) flags_frame
    by (auto simp: sell_records_def Let_def spend_review_def frame_simps split: if_splits option.splits)
  from fs fw h(3-5) o pay r show ?thesis by (auto simp: held_sale_def held_wd_def)
qed (use assms(2,3) in auto)

section \<open>Two ways the route goes wrong\<close>

text \<open>
  a cash-out that was never held goes stale at its own broadcast, without a queue time. When it
  is signed again it enters the queue ahead of every request that has been waiting.
\<close>

theorem direct_resign_jumps_queue:
  assumes sell: "postSell en b W = (SrSettled SettleResign, W1)"
    and resign: "resignSell q (sv_saleId en) txBytes W1 = (RsOk x y, W2)"
    and waiting: "\<forall>w \<in> set (withdrawals W). w_status w = WQueuedLiquidity \<longrightarrow> w_queuedAt w \<noteq> None"
    and fresh: "\<forall>w \<in> set (withdrawals W). w_saleId w \<noteq> Some (sv_saleId en)"
  shows "\<exists>w rest. queue_of W2 = w # rest \<and> w_withdrawalId w = withdrawal_id (sv_saleId en) \<and> w_queuedAt w = None"
  using sell
proof (cases rule: postSell_cases)
  case (passed sale wd W0 V kes i)
  note rec = sell_records_Inr [OF passed(5)]
  from rec(1) have wd: "w_queuedAt wd = None" "w_saleId wd = Some (sv_saleId en)"
    "w_withdrawalId wd = withdrawal_id (sv_saleId en)" by (auto simp: new_withdrawal_def)
  have ws: "withdrawals W0 = withdrawals W" using passed(4) flags_frame by simp
  have id: "w_withdrawalId wd \<notin> set (ids (withdrawals W0))"
    using rec(6) wd(3) by (auto simp: find_withdrawal_def coll_find_None)
  from passed(6) rec(4) id obtain w where w: "withdrawals W1 = withdrawals W @ [w]" "w_withdrawalId w = w_withdrawalId wd"
    "w_saleId w = w_saleId wd" "w_queuedAt w = None"
    by (cases rule: sell_finish_docs) (use ws wd(1) in auto)
  let ?w = "w\<lparr>w_status := WQueuedLiquidity, w_notes := Some Resigned\<rparr>"
  have f: "coll_find (\<lambda>v. w_saleId v = Some (sv_saleId en)) (withdrawals W1) = Some w"
    using fresh w wd(2) by (simp add: coll_find_append coll_find_None split: option.splits) (auto dest: coll_find_Some)
  have "withdrawals W2 = coll_put w_withdrawalId ?w (withdrawals W1)"
    using resign f by (auto simp: resignSell_def Let_def frame_simps split: if_splits option.splits)
  also have "\<dots> = withdrawals W @ [?w]"
  proof -
    have "w_withdrawalId w \<notin> set (ids us) \<Longrightarrow> coll_put w_withdrawalId ?w (us @ [w]) = us @ [?w]" for us
      by (induction us) auto
    then show ?thesis using id ws w by simp
  qed
  finally have W2: "withdrawals W2 = withdrawals W @ [?w]" .
  have "?w \<in> set (queue_of W2)" by (simp add: queue_of_def W2)
  then obtain v rest where v: "queue_of W2 = v # rest" by (cases "queue_of W2") auto
  from sort_key_hd [OF v [unfolded queue_of_def]] have "v \<in> set (withdrawals W2)" "w_status v = WQueuedLiquidity"
    "w_queuedAt v \<le> w_queuedAt ?w" by (auto simp: W2)
  moreover from this(3) w(4) have "w_queuedAt v = None" by (cases "w_queuedAt v") auto
  ultimately have "v = ?w" using waiting by (auto simp: W2)
  with v w wd show ?thesis by auto
qed auto

text \<open>
  the phone is optional in the request and required in the withdrawal. A request without one
  that passes every gate is answered 500, and its sale stays behind, pending, with no withdrawal.
\<close>

theorem phoneless_sell_orphans_sale:
  assumes "passes_gates en b W" "sb_phone b = None" "find_sale (sv_saleId en) W = None"
    and "\<forall>w \<in> set (withdrawals W). w_saleId w \<noteq> Some (sv_saleId en)"
  shows "\<exists>W'. sell_status (fst (postSell en b W)) = 500 \<and> snd (postSell en b W) = W'
    \<and> map_option s_status (find_sale (sv_saleId en) W') = Some SPending
    \<and> (\<forall>w \<in> set (withdrawals W'). w_saleId w \<noteq> Some (sv_saleId en))"
proof -
  obtain r W' where p: "postSell en b W = (r, W')" by fastforce
  from p show ?thesis
  proof (cases rule: postSell_cases)
    case refused
    with assms(1) show ?thesis by simp
  next
    case (records e W0 kes i)
    have fs: "find_sale (sv_saleId en) W0 = None" using assms(3) records(3) flags_frame by (simp add: find_sale_def)
    then have W': "W' = create_sale (new_sale en b) W0"
      using records(4) assms(2) by (simp add: sell_records_def Let_def)
    have "find_sale (sv_saleId en) W' = Some (new_sale en b)"
      unfolding W' using saledb.find_create [of "new_sale en b" W0] fs by (simp add: new_sale_def)
    moreover have "withdrawals W' = withdrawals W" using W' records(3) flags_frame by (simp add: frame_simps)
    ultimately show ?thesis using p records(2) assms(4) by (simp add: new_sale_def)
  next
    case (passed sale wd W0 W1 kes i)
    with assms(2) show ?thesis by (simp add: sell_records_def Let_def split: if_splits)
  qed
qed

section \<open>Concrete requests\<close>

definition demo_sell_env :: "num \<Rightarrow> int \<Rightarrow> num \<Rightarrow> sell_env" where
  "demo_sell_env threshold now reserve = \<lparr>sv_queue = (demo_queue_env reserve)\<lparr>qe_now := now\<rparr>,
     sv_direct = demo_settle_env (Inr (Some ''TX'', 32, Some ''account sequence mismatch'')),
     sv_gates = \<lparr>gc_minKes = 350, gc_weeklyLimit = 3, gc_amlThreshold = threshold\<rparr>,
     sv_address = (\<lambda>a. a = ''mall1''), sv_saleId = ''n'', sv_oid = ''o9''\<rparr>"

definition demo_body :: "num \<Rightarrow> string option \<Rightarrow> sell_body" where
  "demo_body amount phone = \<lparr>sb_sellerAddress = ''mall1'', sb_amount = amount, sb_txBytes = ''AA'', sb_phone = phone\<rparr>"

lemma demo_kes: "estimated_kes (sv_pay (demo_sell_env h t r)) 500 = 500" "estimated_kes (sv_pay (demo_sell_env h t r)) 100 = 100"
proof -
  have p: "mp_sellPriceKes (getMarketPrice None (Some (200, 100))) = 1"
    by (simp add: getMarketPrice_def) code_simp
  have "js_mul 500 1 = 500" "js_mul 100 1 = 100" using fl_of_int [of 500] fl_of_int [of 100] by (simp_all add: js_mul_def)
  with p show "estimated_kes (sv_pay (demo_sell_env h t r)) 500 = 500" "estimated_kes (sv_pay (demo_sell_env h t r)) 100 = 100"
    by (simp_all add: estimated_kes_def demo_sell_env_def demo_settle_env_def demo_env_def)
qed

lemma demo_passes:
  "length (filter (counts t ''mall1'') (withdrawals W)) < 3 \<Longrightarrow> ph \<noteq> Some [] \<Longrightarrow>
   500 < h \<or> (\<exists>v \<in> set (amlReviews W). spendable ''mall1'' v) \<Longrightarrow>
   passes_gates (demo_sell_env h t r) (demo_body 500 ph) W"
  using demo_kes [of h t r] latest_review_None [of "spendable ''mall1''" W]
  by (auto simp: passes_gates_def sell_schema_def demo_body_def demo_sell_env_def demo_settle_env_def demo_env_def
      payout_configured_def sf_live_def requireApprovedAmlReview_def split: option.splits)

theorem refused_sell_leaves_nothing_witness:
  "\<exists>r W'. postSell (demo_sell_env 2500 10 900) (demo_body 100 (Some ''254'')) demo_week = (r, W') \<and> sales W' = []"
proof -
  obtain r W' where p: "postSell (demo_sell_env 2500 10 900) (demo_body 100 (Some ''254'')) demo_week = (r, W')"
    by fastforce
  have "\<not> passes_gates (demo_sell_env 2500 10 900) (demo_body 100 (Some ''254'')) demo_week"
    using demo_kes [of 2500 10 900] by (simp add: passes_gates_def demo_body_def demo_sell_env_def)
  from refused_sell_leaves_nothing [OF p this] p show ?thesis by (simp add: demo_week_def)
qed

theorem weekly_limit_invariant_witness:
  "length (filter (counts 20 ''mall1'') (withdrawals (sells
     [(demo_sell_env 2500 1 900, demo_body 500 (Some ''254'')), (demo_sell_env 2500 5 0, demo_body 500 (Some ''254''))]
     empty_world))) \<le> 3"
  by (rule weekly_limit_invariant) (simp_all add: demo_sell_env_def)

lemma not_error:
  assumes "postSell en b W = (r, W')" "passes_gates en b W" "find_sale (sv_saleId en) W = None"
    "sb_phone b = Some ph" "find_withdrawal (withdrawal_id (sv_saleId en)) W = None"
  shows "\<forall>e. r \<noteq> SrError e"
  using assms(1)
proof (cases rule: postSell_cases)
  case (records e W0 kes i)
  then show ?thesis using assms(3-5) flags_frame
    by (auto simp: sell_records_def Let_def find_sale_def find_withdrawal_def frame_simps split: if_splits)
next
  case (passed sale wd W0 W1 kes i)
  then show ?thesis by (auto simp: sell_finish_def split: if_splits prod.splits)
qed (use assms(2) in simp)

theorem review_single_use_witness:
  "\<exists>r W'. postSell (demo_sell_env 400 10 900) (demo_body 500 (Some ''254'')) (empty_world\<lparr>amlReviews := [demo_review]\<rparr>) = (r, W')
     \<and> filter (spendable ''mall1'') (amlReviews W') = []"
proof -
  let ?W = "empty_world\<lparr>amlReviews := [demo_review]\<rparr>" and ?en = "demo_sell_env 400 10 900" and ?b = "demo_body 500 (Some ''254'')"
  obtain r W' where p: "postSell ?en ?b ?W = (r, W')" by fastforce
  have s: "spendable ''mall1'' demo_review" by (simp add: spendable_def demo_review_def)
  have g: "passes_gates ?en ?b ?W" by (rule demo_passes) (use s in simp_all)
  have "\<forall>e. r \<noteq> SrError e"
    by (rule not_error [OF p g]) (simp_all add: find_sale_def find_withdrawal_def demo_body_def)
  from review_single_use [OF p g this] s p demo_kes [of 400 10 900] show ?thesis
    by (simp add: demo_sell_env_def demo_body_def demo_review_def)
qed

theorem insufficient_pool_holds_witness:
  "\<exists>r W'. postSell (demo_sell_env 2500 10 0) (demo_body 500 (Some ''254'')) empty_world = (r, W') \<and> sell_status r = 202"
proof -
  let ?en = "demo_sell_env 2500 10 0" and ?b = "demo_body 500 (Some ''254'')"
  obtain r W' where p: "postSell ?en ?b empty_world = (r, W')" by fastforce
  have g: "passes_gates ?en ?b empty_world" by (rule demo_passes) simp_all
  have e: "\<forall>e. r \<noteq> SrError e"
    by (rule not_error [OF p g]) (simp_all add: find_sale_def find_withdrawal_def demo_body_def)
  have "sell_reserve (qe_liq (sv_queue ?en)) < estimated_kes (sv_pay ?en) (sb_amount ?b)"
    using demo_reserve [of 0] demo_kes [of 2500 10 0] by (simp add: demo_sell_env_def demo_body_def)
  from insufficient_pool_holds [OF p g e this] p show ?thesis by blast
qed

theorem phoneless_sell_orphans_sale_witness:
  "sell_status (fst (postSell (demo_sell_env 2500 10 900) (demo_body 500 None) empty_world)) = 500"
proof -
  have g: "passes_gates (demo_sell_env 2500 10 900) (demo_body 500 None) empty_world" by (rule demo_passes) simp_all
  have "sb_phone (demo_body 500 None) = None" "find_sale (sv_saleId (demo_sell_env 2500 10 900)) empty_world = None"
    by (simp_all add: demo_body_def find_sale_def)
  from phoneless_sell_orphans_sale [OF g this] show ?thesis by simp
qed

text \<open>A request that passes and is broadcast with a stale signature.\<close>

lemma stale_sell:
  assumes p: "postSell en b W = (r, W')" "passes_gates en b W" "\<forall>e. r \<noteq> SrError e"
    and fits: "estimated_kes (sv_pay en) (sb_amount b) \<le> sell_reserve (qe_liq (sv_queue en))"
    and stale: "\<not> br_ok (broadcastSignedTx (sv_direct en) (sb_txBytes b))"
      "br_sequenceMismatch (broadcastSignedTx (sv_direct en) (sb_txBytes b))"
  shows "r = SrSettled SettleResign \<and> map_option s_status (find_sale (sv_saleId en) W') = Some SResignRequired
    \<and> (\<exists>w. withdrawals W' = withdrawals W @ [w] \<and> w_saleId w = Some (sv_saleId en) \<and> w_status w = WResignRequired)"
  using p(1)
proof (cases rule: postSell_cases)
  case (passed sale wd W0 V kes i)
  note rec = sell_records_Inr [OF passed(5)]
  obtain resp V' where x: "executeSellSettlement (sv_direct en) sale wd (Some (sb_txBytes b)) (sb_amount b) (w_phone wd)
      (sb_sellerAddress b) (s_saleId sale) kes V = (resp, V')" by fastforce
  have tx: "truthy_str (Some (sb_txBytes b))" using passed(1) by (simp add: passes_gates_def sell_schema_def truthy_str_def)
  have resp: "resp = SettleResign" using x tx stale
    by (auto simp: executeSellSettlement_def Let_def settle_stale_def)
  have r: "r = SrSettled SettleResign" and W': "W' = V'"
    using passed(2,6) fits x resp by (auto simp: sell_finish_def)
  have wd: "w_saleId wd = Some (sv_saleId en)" "w_withdrawalId wd = withdrawal_id (sv_saleId en)"
    using rec(1) by (auto simp: new_withdrawal_def)
  have "w_withdrawalId wd \<notin> set (ids (withdrawals W0))"
    using rec(6) wd(2) by (auto simp: find_withdrawal_def coll_find_None)
  from passed(6) rec(4) this obtain w where "withdrawals W' = withdrawals W0 @ [w]" "w_saleId w = w_saleId wd"
    "w_status w = WResignRequired"
    using r by (cases rule: sell_finish_docs) blast
  then have w: "\<exists>w. withdrawals W' = withdrawals W @ [w] \<and> w_saleId w = Some (sv_saleId en) \<and> w_status w = WResignRequired"
    using wd(1) passed(4) flags_frame by auto
  from x show ?thesis
  proof (cases rule: settlement_docs)
    case (1 s w')
    have k: "s_saleId s = sv_saleId en" using 1(1) rec(2) by (simp add: same_sale_def new_sale_def)
    have "find_sale (sv_saleId en) V \<noteq> None"
      using rec(2,3) by (simp add: find_sale_def coll_find_append new_sale_def split: option.splits)
    then have "find_sale (sv_saleId en) W' = Some s"
      using saledb.find_save [of s V] 1(4) W' k by (simp add: find_sale_def frame_simps)
    with 1(3) resp r w show ?thesis by simp
  qed
qed (use p(2,3) in auto)

text \<open>A held request of another user, and a new one whose signature is stale when it arrives.\<close>

theorem direct_resign_jumps_queue_witness:
  "let W = empty_world\<lparr>withdrawals := [demo_held_wd ''a'' 5 900]\<rparr>; en = demo_sell_env 2500 10 1000;
       W1 = snd (postSell en (demo_body 500 (Some ''254'')) W);
       W2 = snd (resignSell (sv_queue en) ''n'' (Some ''BB'') W1)
   in w_withdrawalId (hd (queue_of W2)) = ''withdrawal-n''"
proof -
  let ?W = "empty_world\<lparr>withdrawals := [demo_held_wd ''a'' 5 900]\<rparr>" and ?en = "demo_sell_env 2500 10 (of_int 1000)"
  let ?b = "demo_body 500 (Some ''254'')"
  obtain r W1 where p: "postSell ?en ?b ?W = (r, W1)" by fastforce
  obtain r2 W2 where q: "resignSell (sv_queue ?en) ''n'' (Some ''BB'') W1 = (r2, W2)" by fastforce
  have g: "passes_gates ?en ?b ?W" by (rule demo_passes) (simp_all add: counts_def demo_held_wd_def demo_wd_def)
  have e: "\<forall>e. r \<noteq> SrError e"
    by (rule not_error [OF p g]) (simp_all add: find_sale_def find_withdrawal_def demo_body_def demo_sell_env_def
        withdrawal_id_def demo_held_wd_def)
  have m: "sequence_mismatch ''account sequence mismatch''" by code_simp
  have fits: "estimated_kes (sv_pay ?en) (sb_amount ?b) \<le> sell_reserve (qe_liq (sv_queue ?en))"
    using demo_reserve [of 1000] demo_kes [of 2500 10 "of_int 1000"] by (simp add: demo_sell_env_def demo_body_def)
  have "\<not> br_ok (broadcastSignedTx (sv_direct ?en) (sb_txBytes ?b))"
    "br_sequenceMismatch (broadcastSignedTx (sv_direct ?en) (sb_txBytes ?b))"
    using m by (simp_all add: broadcastSignedTx_def demo_sell_env_def demo_settle_env_def)
  from stale_sell [OF p g e fits this] obtain s w where r: "r = SrSettled SettleResign"
    and s: "find_sale ''n'' W1 = Some s" "s_status s = SResignRequired"
    and w: "withdrawals W1 = [demo_held_wd ''a'' 5 900, w]" "w_saleId w = Some ''n''" "w_status w = WResignRequired"
    by (auto simp: demo_sell_env_def)
  have "\<exists>x y. r2 = RsOk x y"
    using q s w by (auto simp: resignSell_def truthy_str_def demo_held_wd_def Let_def)
  then obtain x y where "r2 = RsOk x y" by blast
  with q have "resignSell (sv_queue ?en) (sv_saleId ?en) (Some ''BB'') W1 = (RsOk x y, W2)"
    by (simp add: demo_sell_env_def)
  from direct_resign_jumps_queue [OF p [unfolded r] this] p q show ?thesis
    by (auto simp: demo_held_wd_def demo_sell_env_def withdrawal_id_def Let_def)
qed

end
