(* ===== verification/Faucet.thy ===== *)
theory Faucet
  imports MallcoinService
begin

text \<open>
  \<open>services/faucetService.js\<close> and the transaction part of \<open>services/mallcoinTxBuilder.js\<close>: crediting
  MLCNS to a wallet. The key material, the address derivation, the address decoder, the redis
  client and the chain's replies are an environment; the two cooldown maps are in the world.
\<close>

section \<open>Confirming a transaction\<close>

record tx_confirmed =
  cf_code :: nat
  cf_log :: "string option"
  cf_height :: nat

text \<open>What one poll learns: the result, or an error text if there was one; and how long it took.\<close>

datatype poll_reply = PollFound tx_confirmed | PollNotYet "string option"

definition POLL_INTERVAL_MS :: nat where "POLL_INTERVAL_MS = 1000"
definition POLL_TIMEOUT_MS :: nat where "POLL_TIMEOUT_MS = 15000"

text \<open>
  The loop of \<open>pollTxConfirmation\<close>: \<open>t\<close> is the time since its start, \<open>k\<close> the number of polls made. The
  last component of the result counts the polls.
\<close>

function poll_loop ::
  "(nat \<Rightarrow> poll_reply) \<Rightarrow> (nat \<Rightarrow> nat) \<Rightarrow> string \<Rightarrow> nat \<Rightarrow> nat \<Rightarrow> string option \<Rightarrow> (string + tx_confirmed) \<times> nat" where
  "poll_loop reply latency txHash t k lastError =
     (if t < POLL_TIMEOUT_MS then
        (case reply k of PollFound c \<Rightarrow> (Inr c, Suc k)
         | PollNotYet e \<Rightarrow> poll_loop reply latency txHash (t + latency k + POLL_INTERVAL_MS) (Suc k) e)
      else (Inl (''Timed out waiting for tx '' @ txHash @ '' to be confirmed on-chain''
                  @ (case str_or lastError None of None \<Rightarrow> [] | Some e \<Rightarrow> '': '' @ e)), k))"
  by pat_completeness auto
termination
  by (relation "measure (\<lambda>(_, _, _, t, _, _). POLL_TIMEOUT_MS - t)") (auto simp: POLL_INTERVAL_MS_def)

declare poll_loop.simps [simp del]

record tx_env =
  te_sync :: "string + (nat \<times> string option \<times> string)"
  te_poll :: "nat \<Rightarrow> poll_reply"
  te_latency :: "nat \<Rightarrow> nat"

text \<open>\<open>broadcastSignedTx\<close> of the builder: the transaction counts only once it has been executed.\<close>

definition builder_broadcast :: "tx_env \<Rightarrow> string + string" where
  "builder_broadcast tx =
     (case te_sync tx of Inl e \<Rightarrow> Inl (if e = [] then ''Broadcast failed'' else e)
      | Inr (code, rawLog, hash) \<Rightarrow>
          if code \<noteq> 0 then Inl (the (str_or rawLog (Some (''Transaction failed with code '' @ show_nat code))))
          else (case fst (poll_loop (te_poll tx) (te_latency tx) hash 0 0 None) of Inl e \<Rightarrow> Inl e
            | Inr c \<Rightarrow> if cf_code c \<noteq> 0
                      then Inl (the (str_or (cf_log c) (Some (''Transaction failed with code '' @ show_nat (cf_code c)))))
                      else Inr hash))"

section \<open>Recognising a missing account\<close>

fun after_infix :: "string \<Rightarrow> string \<Rightarrow> string option" where
  "after_infix p [] = (if p = [] then Some [] else None)"
| "after_infix p (c # cs) = (if prefix p (c # cs) then Some (drop (length p) (c # cs)) else after_infix p cs)"

definition is_hex :: "char \<Rightarrow> bool" where
  "is_hex c = (c \<in> set ''0123456789abcdef'')"

text \<open>The pattern \<open>0x[a-f0-9]{40}.*not found\<close>, on text in lower case.\<close>

fun hex_not_found :: "string \<Rightarrow> bool" where
  "hex_not_found [] = False"
| "hex_not_found (c # cs) =
     ((prefix ''0x'' (c # cs) \<and> 42 \<le> length (c # cs) \<and> list_all is_hex (take 40 (drop 2 (c # cs)))
        \<and> has_infix ''not found'' (drop 42 (c # cs))) \<or> hex_not_found cs)"

text \<open>The text tested is the message, then its rendering with the error's name.\<close>

definition isAccountNotFoundError :: "string \<Rightarrow> bool" where
  "isAccountNotFoundError message =
     (let msg = map to_lower (message @ '' Error: '' @ message) in
      (case after_infix ''account'' msg of None \<Rightarrow> False
       | Some rest \<Rightarrow> has_infix ''does not exist'' rest \<or> has_infix ''not found'' rest)
      \<or> has_infix ''key not found'' msg \<or> hex_not_found msg)"

definition getSequenceOrDefault :: "string + (nat \<times> nat) \<Rightarrow> string + (nat \<times> nat)" where
  "getSequenceOrDefault reply =
     (case reply of Inr s \<Rightarrow> Inr s
      | Inl e \<Rightarrow> if isAccountNotFoundError e then Inr (0, 0) else Inl e)"

section \<open>Configuration\<close>

datatype redis = NoRedis | Redis bool bool bool

text \<open>A client: whether it answers reads, whether it has the \<open>setEx\<close> method, whether writes succeed.\<close>

record faucet_env =
  fe_now :: int
  fe_production :: bool
  fe_enabledVar :: "string option"
  fe_privateKeyHex :: "string option"
  fe_keyManager :: "string + string option"
  fe_mnemonicVar :: "string option"
  fe_operatorVar :: "string option"
  fe_allowOperator :: bool
  fe_testMode :: bool
  fe_treasuryVar :: "string option"
  fe_keyAddress :: "string \<Rightarrow> string + string"
  fe_mnemonicAddress :: "string \<Rightarrow> string + string"
  fe_validAddress :: "string \<Rightarrow> bool"
  fe_balance :: "string \<Rightarrow> string + wallet_balance"
  fe_max :: num
  fe_cooldownMs :: int
  fe_redisConnected :: bool
  fe_redis :: redis
  fe_sequence :: "string + (nat \<times> nat)"
  fe_transferTx :: tx_env
  fe_gasTx :: tx_env
  fe_fundGas :: bool
  fe_decimals :: nat

definition isFaucetEnabled :: "faucet_env \<Rightarrow> bool" where
  "isFaucetEnabled en = (if fe_production en then False else fe_enabledVar en \<noteq> Some ''false'')"

text \<open>
  The key manager first (a failure or an empty key is passed over), then the environment; the
  operator's key only with permission.
\<close>

definition getFaucetMnemonic :: "faucet_env \<Rightarrow> string option" where
  "getFaucetMnemonic en =
     (let fromKm = (case fe_keyManager en of Inl _ \<Rightarrow> None | Inr k \<Rightarrow> k) in
      if truthy_str fromKm then fromKm
      else if truthy_str (fe_mnemonicVar en) then fe_mnemonicVar en
      else if truthy_str (fe_operatorVar en) then (if fe_allowOperator en then fe_operatorVar en else None)
      else if fe_testMode en then str_or (fe_treasuryVar en) None else None)"

datatype key_source = PrivateKey | Mnemonic

definition getFundingAccount :: "faucet_env \<Rightarrow> string + (key_source \<times> string) option" where
  "getFundingAccount en =
     (if truthy_str (fe_privateKeyHex en)
      then (case fe_keyAddress en (the (fe_privateKeyHex en)) of Inl e \<Rightarrow> Inl e | Inr a \<Rightarrow> Inr (Some (PrivateKey, a)))
      else case getFaucetMnemonic en of None \<Rightarrow> Inr None
        | Some m \<Rightarrow> (case fe_mnemonicAddress en m of Inl e \<Rightarrow> Inl e | Inr a \<Rightarrow> Inr (Some (Mnemonic, a))))"

section \<open>Guards\<close>

datatype faucet_error =
    FaucetDisabled | FaucetUnconfigured | FaucetBadAddress | FaucetBadAmount num
  | FaucetCooldown int | FaucetNoRedis | FaucetUnfunded string | FaucetFailed string

fun faucet_status :: "faucet_error \<Rightarrow> nat" where
  "faucet_status FaucetDisabled = 403"
| "faucet_status FaucetUnconfigured = 503"
| "faucet_status FaucetBadAddress = 400"
| "faucet_status (FaucetBadAmount _) = 400"
| "faucet_status (FaucetCooldown _) = 429"
| "faucet_status FaucetNoRedis = 503"
| "faucet_status (FaucetUnfunded _) = 503"
| "faucet_status (FaucetFailed _) = 500"

definition guardFaucetFundedOrThrow :: "faucet_env \<Rightarrow> string \<Rightarrow> faucet_error option" where
  "guardFaucetFundedOrThrow en address =
     (case fe_balance en address of
        Inr b \<Rightarrow> if \<not> wb_exists b then Some (FaucetUnfunded address) else None
      | Inl e \<Rightarrow> if isAccountNotFoundError e then Some (FaucetUnfunded address) else Some (FaucetFailed e))"

text \<open>A time of 0 is falsy, as is none.\<close>

definition checkCooldown :: "int option \<Rightarrow> int \<Rightarrow> int \<Rightarrow> bool" where
  "checkCooldown lastRequestTime cooldownMs now =
     (case lastRequestTime of None \<Rightarrow> True | Some t \<Rightarrow> if t = 0 then True else cooldownMs \<le> now - t)"

text \<open>A redis entry expires with the cooldown.\<close>

definition redis_get :: "faucet_env \<Rightarrow> string \<Rightarrow> world \<Rightarrow> int option" where
  "redis_get en a W = (case cooldownRedis W a of None \<Rightarrow> None
     | Some t \<Rightarrow> if fe_now en - t < fe_cooldownMs en then Some t else None)"

definition last_request :: "faucet_env \<Rightarrow> string \<Rightarrow> world \<Rightarrow> faucet_error + int option" where
  "last_request en a W =
     (case fe_redis en of
        NoRedis \<Rightarrow> Inr (cooldownMemory W a)
      | Redis readable _ _ \<Rightarrow>
          if readable then Inr (redis_get en a W)
          else if fe_production en then Inl FaucetNoRedis else Inr (cooldownMemory W a))"

definition checkAddressCooldown :: "faucet_env \<Rightarrow> string \<Rightarrow> world \<Rightarrow> faucet_error option" where
  "checkAddressCooldown en a W =
     (if fe_production en \<and> \<not> fe_redisConnected en then Some FaucetNoRedis
      else case last_request en a W of Inl e \<Rightarrow> Some e
      | Inr last_time \<Rightarrow>
          if checkCooldown last_time (fe_cooldownMs en) (fe_now en) then None
          else Some (FaucetCooldown (\<lceil>of_int (fe_cooldownMs en - (fe_now en - or_else last_time 0)) / (1000 :: rat)\<rceil>)))"

definition setCooldown :: "faucet_env \<Rightarrow> string \<Rightarrow> world \<Rightarrow> world" where
  "setCooldown en a W =
     (if fe_production en \<and> \<not> fe_redisConnected en then W
      else case fe_redis en of
        Redis _ has_setEx writable \<Rightarrow>
          if \<not> has_setEx then W\<lparr>cooldownMemory := (cooldownMemory W)(a \<mapsto> fe_now en)\<rparr>
          else if writable then W\<lparr>cooldownRedis := (cooldownRedis W)(a \<mapsto> fe_now en)\<rparr>
          else if fe_production en then W
          else W\<lparr>cooldownMemory := (cooldownMemory W)(a \<mapsto> fe_now en)\<rparr>
      | NoRedis \<Rightarrow> W\<lparr>cooldownMemory := (cooldownMemory W)(a \<mapsto> fe_now en)\<rparr>)"

text \<open>\<open>validateFaucetRequest\<close>; an amount of \<open>None\<close> is not a finite number.\<close>

definition validateFaucetRequest :: "faucet_env \<Rightarrow> string \<Rightarrow> num option \<Rightarrow> faucet_error option" where
  "validateFaucetRequest en address amount =
     (if \<not> fe_validAddress en address then Some FaucetBadAddress
      else case amount of None \<Rightarrow> Some (FaucetBadAmount 0)
        | Some n \<Rightarrow> if n \<le> 0 then Some (FaucetBadAmount 0)
                    else if fe_max en < n then Some (FaucetBadAmount (fe_max en)) else None)"

section \<open>Crediting\<close>

record credit_result =
  cre_txHash :: string
  cre_gasFunding :: "(string + string) option"
  cre_balance :: wallet_balance

text \<open>
  \<open>transferAndFundGas\<close>: the transfer, then the gas money, whose failure is reported in the result. The
  gas message uses the next sequence number of the same account.
\<close>

definition transferAndFundGas ::
  "faucet_env \<Rightarrow> string \<Rightarrow> num \<Rightarrow> world \<Rightarrow> (string + string \<times> (string + string) option) \<times> world" where
  "transferAndFundGas en toAddress amount W =
     (case getSequenceOrDefault (fe_sequence en) of Inl e \<Rightarrow> (Inl e, W)
      | Inr _ \<Rightarrow>
          (let W1 = emit (ECredit toAddress (mc_toBaseUnits (fe_decimals en) amount)) W in
           case builder_broadcast (fe_transferTx en) of Inl e \<Rightarrow> (Inl e, W1)
           | Inr hash \<Rightarrow>
               if \<not> fe_fundGas en then (Inr (hash, None), W1)
               else (Inr (hash, Some (builder_broadcast (fe_gasTx en))), emit (EFundGas toAddress) W1)))"

definition creditMlcns ::
  "faucet_env \<Rightarrow> string \<Rightarrow> num \<Rightarrow> world \<Rightarrow> (faucet_error + credit_result) \<times> world" where
  "creditMlcns en address amount W =
     (if \<not> isFaucetEnabled en then (Inl FaucetDisabled, W)
      else case getFundingAccount en of Inl e \<Rightarrow> (Inl (FaucetFailed e), W)
      | Inr None \<Rightarrow> (Inl FaucetUnconfigured, W)
      | Inr (Some (source, funder)) \<Rightarrow>
          if \<not> fe_validAddress en address then (Inl FaucetBadAddress, W)
          else if amount \<le> 0 \<or> fe_max en < amount then (Inl (FaucetBadAmount (fe_max en)), W)
          else case checkAddressCooldown en address W of Some e \<Rightarrow> (Inl e, W)
          | None \<Rightarrow>
              (case guardFaucetFundedOrThrow en funder of Some e \<Rightarrow> (Inl e, W)
               | None \<Rightarrow>
                   (case transferAndFundGas en address amount W of
                      (Inl e, W1) \<Rightarrow>
                        (Inl (if isAccountNotFoundError e then FaucetUnfunded funder else FaucetFailed e), W1)
                    | (Inr (hash, gas), W1) \<Rightarrow>
                        (let W2 = setCooldown en address W1 in
                         case fe_balance en address of Inl e \<Rightarrow> (Inl (FaucetFailed e), W2)
                         | Inr b \<Rightarrow> (Inr \<lparr>cre_txHash = hash, cre_gasFunding = gas, cre_balance = b\<rparr>, W2)))))"

text \<open>\<open>fundGas\<close>: the gas money alone.\<close>

definition fundGas :: "faucet_env \<Rightarrow> string \<Rightarrow> world \<Rightarrow> (faucet_error + string) \<times> world" where
  "fundGas en address W =
     (if \<not> isFaucetEnabled en then (Inl FaucetDisabled, W)
      else case getFundingAccount en of Inl e \<Rightarrow> (Inl (FaucetFailed e), W)
      | Inr None \<Rightarrow> (Inl FaucetUnconfigured, W)
      | Inr (Some (source, funder)) \<Rightarrow>
          if \<not> fe_validAddress en address then (Inl FaucetBadAddress, W)
          else case checkAddressCooldown en address W of Some e \<Rightarrow> (Inl e, W)
          | None \<Rightarrow>
              (case guardFaucetFundedOrThrow en funder of Some e \<Rightarrow> (Inl e, W)
               | None \<Rightarrow>
                   (let W1 = emit (EFundGas address) W in
                    case builder_broadcast (fe_gasTx en) of
                      Inl e \<Rightarrow> (Inl (if isAccountNotFoundError e then FaucetUnfunded funder else FaucetFailed e), W1)
                    | Inr hash \<Rightarrow> (Inr hash, setCooldown en address W1))))"

text \<open>\<open>getFaucetStatus\<close>: enabled, configured, funded, and the account.\<close>

record faucet_status_view =
  fv_enabled :: bool
  fv_configured :: bool
  fv_address :: "string option"
  fv_source :: "key_source option"
  fv_funded :: bool

definition getFaucetStatus :: "faucet_env \<Rightarrow> faucet_status_view" where
  "getFaucetStatus en =
     (let mnemonic = getFaucetMnemonic en;
          first = (case getFundingAccount en of Inr a \<Rightarrow> a | Inl _ \<Rightarrow> None);
          account = (case first of Some a \<Rightarrow> Some a
             | None \<Rightarrow> (case mnemonic of None \<Rightarrow> None
                 | Some m \<Rightarrow> (case fe_mnemonicAddress en m of Inl _ \<Rightarrow> None | Inr a \<Rightarrow> Some (Mnemonic, a))));
          balance = (case account of None \<Rightarrow> None
             | Some (_, a) \<Rightarrow> (case fe_balance en a of Inl _ \<Rightarrow> None | Inr b \<Rightarrow> Some b))
      in \<lparr>fv_enabled = isFaucetEnabled en,
          fv_configured = (truthy_str (fe_privateKeyHex en) \<or> truthy_str mnemonic),
          fv_address = map_option snd account,
          fv_source = (if balance = None then None else map_option fst account),
          fv_funded = (case balance of None \<Rightarrow> False | Some b \<Rightarrow> wb_exists b \<and> wb_balance b \<noteq> 0)\<rparr>)"

section \<open>Polling ends\<close>

lemma poll_loop_bound:
  "t \<le> POLL_TIMEOUT_MS \<Longrightarrow> snd (poll_loop reply latency txHash t k e) * POLL_INTERVAL_MS
     \<le> k * POLL_INTERVAL_MS + (POLL_TIMEOUT_MS - t) + (POLL_INTERVAL_MS - 1)"
proof (induction reply latency txHash t k e rule: poll_loop.induct)
  case (1 reply latency txHash t k e)
  show ?case
  proof (cases "t < POLL_TIMEOUT_MS")
    case False
    then show ?thesis by (subst poll_loop.simps) simp
  next
    case True
    show ?thesis
    proof (cases "reply k")
      case (PollFound c)
      with True show ?thesis by (subst poll_loop.simps) (simp add: POLL_INTERVAL_MS_def)
    next
      case (PollNotYet e')
      let ?t = "t + latency k + POLL_INTERVAL_MS"
      have u: "poll_loop reply latency txHash t k e = poll_loop reply latency txHash ?t (Suc k) e'"
        using True PollNotYet by (subst poll_loop.simps) simp
      show ?thesis
      proof (cases "?t \<le> POLL_TIMEOUT_MS")
        case le: True
        from 1(1) [OF True PollNotYet le] show ?thesis unfolding u using le
          by (simp add: POLL_INTERVAL_MS_def)
      next
        case False
        then have "poll_loop reply latency txHash ?t (Suc k) e' = (Inl (''Timed out waiting for tx '' @ txHash
            @ '' to be confirmed on-chain'' @ (case str_or e' None of None \<Rightarrow> [] | Some e \<Rightarrow> '': '' @ e)), Suc k)"
          by (subst poll_loop.simps) simp
        then show ?thesis unfolding u using True by (simp add: POLL_INTERVAL_MS_def)
      qed
    qed
  qed
qed

lemma poll_loop_found: "fst (poll_loop reply latency txHash t k e) = Inr c \<Longrightarrow> \<exists>n. reply n = PollFound c"
proof (induction reply latency txHash t k e rule: poll_loop.induct)
  case (1 reply latency txHash t k e)
  then show ?case by (subst (asm) (2) poll_loop.simps) (auto split: if_splits poll_reply.splits)
qed


section \<open>Crediting\<close>

lemma broadcast_ok: "builder_broadcast tx = Inr h \<Longrightarrow> \<exists>n c. te_poll tx n = PollFound c \<and> cf_code c = 0"
  using poll_loop_found by (fastforce simp: builder_broadcast_def split: sum.splits prod.splits if_splits)

lemma setCooldown_frame [frame_simps]:
  "outbox (setCooldown en a W) = outbox W" "purchases (setCooldown en a W) = purchases W"
  "recons (setCooldown en a W) = recons W" "pools (setCooldown en a W) = pools W"
  "poolsCache (setCooldown en a W) = poolsCache W" "activities (setCooldown en a W) = activities W"
  by (simp_all add: setCooldown_def split: redis.splits)

text \<open>What must hold before a credit is sent.\<close>

definition credit_guards :: "faucet_env \<Rightarrow> string \<Rightarrow> num \<Rightarrow> world \<Rightarrow> bool" where
  "credit_guards en a n W \<longleftrightarrow> isFaucetEnabled en \<and> fe_validAddress en a \<and> 0 < n \<and> n \<le> fe_max en
     \<and> checkAddressCooldown en a W = None
     \<and> (\<exists>s f. getFundingAccount en = Inr (Some (s, f)) \<and> guardFaucetFundedOrThrow en f = None)"

lemma credit_cases:
  assumes "creditMlcns en a n W = (r, W')"
  obtains (unsent) e where "r = Inl e" "W' = W"
  | (sent) gas where "credit_guards en a n W"
      "outbox W' = outbox W @ ECredit a (mc_toBaseUnits (fe_decimals en) n) # gas" "set gas \<subseteq> {EFundGas a}"
      "W' = W\<lparr>outbox := outbox W'\<rparr> \<or> W' = setCooldown en a (W\<lparr>outbox := outbox W'\<rparr>)"
      "\<forall>x. r = Inr x \<longrightarrow> builder_broadcast (fe_transferTx en) = Inr (cre_txHash x)
         \<and> W' = setCooldown en a (W\<lparr>outbox := outbox W'\<rparr>)"
proof -
  note d = assms [unfolded creditMlcns_def]
  show thesis
  proof (cases "credit_guards en a n W \<and> (\<exists>s. getSequenceOrDefault (fe_sequence en) = Inr s)")
    case False
    then have "\<exists>e. r = Inl e \<and> W' = W"
      using d by (auto simp: credit_guards_def transferAndFundGas_def split: if_splits sum.splits option.splits prod.splits)
    then show thesis using unsent by blast
  next
    case True
    then obtain s f sq where g: "getFundingAccount en = Inr (Some (s, f))" "guardFaucetFundedOrThrow en f = None"
      "getSequenceOrDefault (fe_sequence en) = Inr sq" by (auto simp: credit_guards_def)
    let ?c = "ECredit a (mc_toBaseUnits (fe_decimals en) n)"
    let ?gas = "if fe_fundGas en \<and> (\<exists>h. builder_broadcast (fe_transferTx en) = Inr h) then [EFundGas a] else []"
    have o: "outbox W' = outbox W @ ?c # ?gas"
      using d True g by (auto simp: credit_guards_def transferAndFundGas_def Let_def frame_simps emit_def
          split: if_splits sum.splits)
    have w: "W' = W\<lparr>outbox := outbox W'\<rparr> \<or> W' = setCooldown en a (W\<lparr>outbox := outbox W'\<rparr>)"
      unfolding o using d True g by (auto simp: credit_guards_def transferAndFundGas_def Let_def frame_simps emit_def
          split: if_splits sum.splits)
    have x: "\<forall>x. r = Inr x \<longrightarrow> builder_broadcast (fe_transferTx en) = Inr (cre_txHash x)
         \<and> W' = setCooldown en a (W\<lparr>outbox := outbox W'\<rparr>)"
      unfolding o using d True g by (auto simp: credit_guards_def transferAndFundGas_def Let_def frame_simps emit_def
          split: if_splits sum.splits)
    show thesis by (rule sent [OF _ o _ w x]) (use True in auto)
  qed
qed

text \<open>
  MLCNS leave the faucet only past every guard, in one transfer of the requested amount to the
  requested address; a success means the transfer was executed on the chain with code 0.
\<close>

theorem credit_guarded:
  assumes "creditMlcns en a n W = (r, W')"
  shows "(outbox W' = outbox W \<and> (\<exists>e. r = Inl e))
    \<or> (credit_guards en a n W
        \<and> (\<exists>gas. outbox W' = outbox W @ ECredit a (mc_toBaseUnits (fe_decimals en) n) # gas \<and> set gas \<subseteq> {EFundGas a})
        \<and> (case r of Inr _ \<Rightarrow> \<exists>k c. te_poll (fe_transferTx en) k = PollFound c \<and> cf_code c = 0 | Inl _ \<Rightarrow> True))"
  using assms
proof (cases rule: credit_cases)
  case (sent gas)
  have "case r of Inr _ \<Rightarrow> \<exists>k c. te_poll (fe_transferTx en) k = PollFound c \<and> cf_code c = 0 | Inl _ \<Rightarrow> True"
    using sent(5) broadcast_ok [of "fe_transferTx en"] by (cases r) auto
  with sent(1-3) show ?thesis by blast
qed simp

text \<open>
  with the in-memory map, a credited wallet is refused a second credit until the cooldown is
  over, and the refusal sends nothing.
\<close>

theorem cooldown_enforced:
  assumes "creditMlcns en a n W = (Inr x, W')" "fe_redis en = NoRedis" "fe_redis en' = NoRedis"
    and "fe_now en \<noteq> 0" "fe_now en' - fe_now en < fe_cooldownMs en'" "\<not> fe_production en"
  shows "\<exists>e. creditMlcns en' a n' W' = (Inl e, W')"
  using assms(1)
proof (cases rule: credit_cases)
  case (sent gas)
  then obtain V where "W' = setCooldown en a V" by blast
  then have "cooldownMemory W' a = Some (fe_now en)"
    using assms(2,6) by (simp add: setCooldown_def)
  then have "checkAddressCooldown en' a W' \<noteq> None"
    using assms(3-5) by (simp add: checkAddressCooldown_def last_request_def checkCooldown_def)
  then have g: "\<not> credit_guards en' a n' W'" by (simp add: credit_guards_def)
  obtain r W2 where c: "creditMlcns en' a n' W' = (r, W2)" by fastforce
  from c have "\<exists>e. r = Inl e \<and> W2 = W'" by (cases rule: credit_cases) (use g in auto)
  with c show ?thesis by auto
qed simp

text \<open>
  C45: when redis answers reads but its client has no \<open>setEx\<close> method, the time of a credit is written
  to the map that is not read, so the cooldown never holds anybody back.
\<close>

theorem cooldown_never_written:
  assumes "fe_redis en = Redis True False w" "cooldownRedis W = Map.empty" "\<not> fe_production en"
  shows "checkAddressCooldown en a (setCooldown en a W) = None"
  using assms by (simp add: checkAddressCooldown_def last_request_def redis_get_def setCooldown_def checkCooldown_def)

section \<open>A concrete faucet\<close>

definition demo_tx :: tx_env where
  "demo_tx = \<lparr>te_sync = Inr (0, None, ''HASH''),
     te_poll = (\<lambda>k. if k = 0 then PollNotYet (Some ''not found'') else PollFound \<lparr>cf_code = 0, cf_log = None, cf_height = 7\<rparr>),
     te_latency = (\<lambda>_. 20)\<rparr>"

definition demo_faucet :: "bool \<Rightarrow> int \<Rightarrow> redis \<Rightarrow> faucet_env" where
  "demo_faucet production now r = \<lparr>fe_now = now, fe_production = production, fe_enabledVar = None, fe_privateKeyHex = Some ''0xab'',
     fe_keyManager = Inl ''down'', fe_mnemonicVar = None, fe_operatorVar = None, fe_allowOperator = False,
     fe_testMode = False, fe_treasuryVar = None, fe_keyAddress = (\<lambda>_. Inr ''mallf''),
     fe_mnemonicAddress = (\<lambda>_. Inr ''mallf''), fe_validAddress = (\<lambda>a. a \<noteq> []),
     fe_balance = (\<lambda>_. Inr \<lparr>wb_balance = 9, wb_locked = 0, wb_available = 9, wb_unlockTime = None, wb_exists = True\<rparr>),
     fe_max = 10000, fe_cooldownMs = 60000, fe_redisConnected = False, fe_redis = r,
     fe_sequence = Inr (1, 4), fe_transferTx = demo_tx, fe_gasTx = demo_tx, fe_fundGas = True, fe_decimals = 6\<rparr>"

lemma demo_tx_ok: "builder_broadcast demo_tx = Inr ''HASH''"
proof -
  let ?p = "poll_loop (te_poll demo_tx) (te_latency demo_tx) ''HASH''"
  have "?p 0 0 None = ?p 1020 1 (Some ''not found'')"
    by (subst poll_loop.simps) (simp add: demo_tx_def POLL_TIMEOUT_MS_def POLL_INTERVAL_MS_def)
  also have "\<dots> = (Inr \<lparr>cf_code = 0, cf_log = None, cf_height = 7\<rparr>, 2)"
    by (subst poll_loop.simps) (simp add: demo_tx_def POLL_TIMEOUT_MS_def)
  finally have "?p 0 0 None = (Inr \<lparr>cf_code = 0, cf_log = None, cf_height = 7\<rparr>, 2)" .
  then show ?thesis by (simp add: builder_broadcast_def demo_tx_def)
qed

lemma demo_credit:
  "\<exists>x W'. creditMlcns (demo_faucet False 5 r) ''mall1'' 100 empty_world = (Inr x, W')"
  using demo_tx_ok
  by (cases r) (auto simp: creditMlcns_def isFaucetEnabled_def getFundingAccount_def truthy_str_def demo_faucet_def
      checkAddressCooldown_def last_request_def redis_get_def checkCooldown_def guardFaucetFundedOrThrow_def
      transferAndFundGas_def getSequenceOrDefault_def Let_def)

theorem credit_guarded_witness:
  "\<exists>r W'. creditMlcns (demo_faucet False 5 NoRedis) ''mall1'' 100 empty_world = (r, W')
     \<and> (outbox W' = [] \<or> (\<exists>gas. outbox W' = ECredit ''mall1'' (mc_toBaseUnits 6 100) # gas))"
proof -
  obtain r W' where c: "creditMlcns (demo_faucet False 5 NoRedis) ''mall1'' 100 empty_world = (r, W')" by fastforce
  from credit_guarded [OF c] c show ?thesis by (auto simp: demo_faucet_def)
qed

theorem cooldown_enforced_witness:
  "\<exists>x W' e. creditMlcns (demo_faucet False 5 NoRedis) ''mall1'' 100 empty_world = (Inr x, W')
     \<and> creditMlcns (demo_faucet False 60004 NoRedis) ''mall1'' 1 W' = (Inl e, W')"
proof -
  obtain x W' where c: "creditMlcns (demo_faucet False 5 NoRedis) ''mall1'' 100 empty_world = (Inr x, W')"
    using demo_credit by blast
  from cooldown_enforced [OF c, of "demo_faucet False 60004 NoRedis" 1] c show ?thesis by (auto simp: demo_faucet_def)
qed

theorem cooldown_never_written_witness:
  "checkAddressCooldown (demo_faucet False 5 (Redis True False True)) ''mall1''
     (setCooldown (demo_faucet False 5 (Redis True False True)) ''mall1'' empty_world) = None"
  using cooldown_never_written [of "demo_faucet False 5 (Redis True False True)" True empty_world "''mall1''"]
  by (simp add: demo_faucet_def)

end
