(* ===== verification/JsText.thy ===== *)
theory JsText
  imports Prelude
begin

text \<open>
  Text operations of the source language on the characters up to 255: trimming, the case of ASCII letters (the
  letters of addresses, names and codes), digits and splitting at spaces.
\<close>

definition is_digit :: "char \<Rightarrow> bool" where
  "is_digit c \<longleftrightarrow> (48 :: nat) \<le> of_char c \<and> of_char c \<le> (57 :: nat)"

definition to_upper :: "char \<Rightarrow> char" where
  "to_upper c = (if (97 :: nat) \<le> of_char c \<and> of_char c \<le> (122 :: nat) then char_of (of_char c - (32 :: nat)) else c)"

definition js_space :: "char \<Rightarrow> bool" where
  "js_space c \<longleftrightarrow> (of_char c :: nat) \<in> {9, 10, 11, 12, 13, 32, 160}"

definition js_trim :: "string \<Rightarrow> string" where
  "js_trim s = rev (dropWhile js_space (rev (dropWhile js_space s)))"

definition lower_case :: "string \<Rightarrow> string" where "lower_case = map to_lower"

definition upper_case :: "string \<Rightarrow> string" where "upper_case = map to_upper"

text \<open>\<open>s.split(' ')\<close>.\<close>

fun split_spaces :: "string \<Rightarrow> string list" where
  "split_spaces [] = [[]]"
| "split_spaces (c # cs) = (if c = CHR '' '' then [] # split_spaces cs
     else (case split_spaces cs of p # ps \<Rightarrow> (c # p) # ps | [] \<Rightarrow> [[c]]))"

lemma digit_no_space: "is_digit c \<Longrightarrow> \<not> js_space c"
  by (auto simp: is_digit_def js_space_def)

lemma js_trim_id: "\<forall>c \<in> set s. \<not> js_space c \<Longrightarrow> js_trim s = s"
proof -
  assume s: "\<forall>c \<in> set s. \<not> js_space c"
  have "dropWhile js_space xs = xs" if "set xs \<subseteq> set s" for xs
    using s that by (auto simp: dropWhile_eq_self_iff subset_iff)
  from this [of s] this [of "rev s"] show ?thesis by (simp add: js_trim_def)
qed

text \<open>Trimming and lowering the case are idempotent and commute: the normal form of an address.\<close>

lemma dropWhile_idem: "dropWhile P (dropWhile P s) = dropWhile P s"
  by (induction s) auto

lemma js_trim_ends:
  assumes "js_trim s \<noteq> []"
  shows "\<not> js_space (hd (js_trim s))" "\<not> js_space (last (js_trim s))"
proof -
  let ?d = "dropWhile js_space s"
  have e: "rev (js_trim s) = dropWhile js_space (rev ?d)" by (simp add: js_trim_def)
  have ne: "dropWhile js_space (rev ?d) \<noteq> []" using assms e by (metis rev_is_Nil_conv)
  have "last (js_trim s) = hd (rev (js_trim s))" using assms by (simp add: hd_rev)
  then show "\<not> js_space (last (js_trim s))" using hd_dropWhile [OF ne] e by simp
  obtain zs where z: "rev ?d = zs @ dropWhile js_space (rev ?d)" using takeWhile_dropWhile_id by metis
  then have "?d = js_trim s @ rev zs" using e by (metis rev_append rev_rev_ident)
  moreover from this assms have "?d \<noteq> []" by auto
  ultimately show "\<not> js_space (hd (js_trim s))" using assms hd_dropWhile [of js_space s] by (metis hd_append2)
qed

lemma js_trim_idem: "js_trim (js_trim s) = js_trim s"
proof (cases "js_trim s = []")
  case False
  then have "dropWhile js_space (js_trim s) = js_trim s" "dropWhile js_space (rev (js_trim s)) = rev (js_trim s)"
    using js_trim_ends by (auto simp: dropWhile_eq_self_iff hd_rev)
  then show ?thesis by (simp add: js_trim_def [of "js_trim s"])
next
  case True
  then show ?thesis by (simp only: True) (simp add: js_trim_def)
qed

lemma to_lower_space: "js_space (to_lower c) = js_space c"
  by (auto simp: to_lower_def js_space_def)

lemma to_lower_idem: "to_lower (to_lower c) = to_lower c"
  by (simp add: to_lower_def)

lemma lower_trim: "js_trim (lower_case s) = lower_case (js_trim s)"
proof -
  have d: "dropWhile js_space (map to_lower s) = map to_lower (dropWhile js_space s)" for s
    by (induction s) (simp_all add: to_lower_space)
  then show ?thesis by (simp add: js_trim_def lower_case_def d rev_map)
qed

lemma lower_idem: "lower_case (lower_case s) = lower_case s"
  by (simp add: lower_case_def o_def to_lower_idem)

section \<open>Decimal text\<close>

lemma show_nat_digits: "list_all is_digit (show_nat n)"
proof (induction n rule: show_nat.induct)
  case (1 n)
  have d: "is_digit (char_of (48 + d))" if "d < 10" for d :: nat
    using that by (simp add: is_digit_def)
  show ?case
  proof (cases "n < 10")
    case True
    then show ?thesis using d by (subst show_nat.simps) simp
  next
    case False
    then show ?thesis using 1 d [of "n mod 10"] by (subst show_nat.simps) simp
  qed
qed

lemma show_nat_length: "n < 10 ^ k \<Longrightarrow> 0 < k \<Longrightarrow> length (show_nat n) \<le> k"
proof (induction k arbitrary: n)
  case (Suc k)
  show ?case
  proof (cases "n < 10")
    case False
    then have "n div 10 < 10 ^ k" "0 < k" using Suc.prems by (auto intro!: gr0I simp: less_mult_imp_div_less mult.commute)
    with Suc.IH False show ?thesis by (subst show_nat.simps) simp
  qed (simp add: show_nat.simps)
qed simp

end
