(* ===== verification/BuyFlow.thy ===== *)
theory BuyFlow
  imports CircuitBreaker Liquidity Faucet JsText
begin

text \<open>
  The direct purchase of MLCNS: \<open>services/buyGateService.js\<close>, the buying part of \<open>routes/buy.js\<close> and
  \<open>services/mpesaCallbackService.js\<close>. A quote is reserved, a payment prompt is sent, the provider's
  callback confirms it, the amount is credited from the faucet account, and the pool is topped up.
\<close>

section \<open>The gate\<close>

definition DIRECT_BUY_LOCK_THRESHOLD_KES :: num where "DIRECT_BUY_LOCK_THRESHOLD_KES = 500000"
definition CACHE_TTL_MS :: int where "CACHE_TTL_MS = 3000"

text \<open>The status when the cache does not answer; \<open>dbFails\<close>: the read of the state document throws.\<close>

definition fresh_gate :: "int \<Rightarrow> bool \<Rightarrow> liq_env \<Rightarrow> world \<Rightarrow> gate_status \<times> world" where
  "fresh_gate now dbFails liq W =
     (if dbFails then (\<lparr>gs_locked = False, gs_reserveKes = None, gs_error = True\<rparr>, W)
      else if (case economy W of None \<Rightarrow> False | Some e \<Rightarrow> e_directBuyLocked e)
      then (\<lparr>gs_locked = True, gs_reserveKes = Option.bind (economy W) e_poolKesReserveAtLock, gs_error = False\<rparr>, W)
      else let reserveKes = or_else (map_option pl_reserve1 (coll_find (\<lambda>p. pl_id p = 2) (fetchPoolsFromBlockchain liq))) 0 in
        if DIRECT_BUY_LOCK_THRESHOLD_KES \<le> reserveKes
        then (\<lparr>gs_locked = True, gs_reserveKes = Some reserveKes, gs_error = False\<rparr>,
              W\<lparr>economy := Some \<lparr>e_directBuyLocked = True, e_lockedAt = Some now, e_poolKesReserveAtLock = Some reserveKes\<rparr>\<rparr>)
        else (\<lparr>gs_locked = False, gs_reserveKes = Some reserveKes, gs_error = False\<rparr>, W))"

definition getBuyGateStatus :: "int \<Rightarrow> bool \<Rightarrow> liq_env \<Rightarrow> world \<Rightarrow> gate_status \<times> world" where
  "getBuyGateStatus now dbFails liq W =
     (let run = (let (status, W') = fresh_gate now dbFails liq W in (status, W'\<lparr>gateCache := Some (status, now)\<rparr>)) in
      case gateCache W of
        Some (status, fetchedAt) \<Rightarrow> if now - fetchedAt < CACHE_TTL_MS then (status, W) else run
      | None \<Rightarrow> run)"

definition invalidateCache :: "world \<Rightarrow> world" where
  "invalidateCache W = W\<lparr>gateCache := None\<rparr>"

text \<open>The middleware: whether the request goes on (otherwise it is answered 403).\<close>

definition requireDirectBuyUnlocked :: "int \<Rightarrow> bool \<Rightarrow> liq_env \<Rightarrow> world \<Rightarrow> bool \<times> world" where
  "requireDirectBuyUnlocked now dbFails liq W =
     (let (status, W') = getBuyGateStatus now dbFails liq W in (\<not> gs_locked status, W'))"

section \<open>The environment of a purchase\<close>

record stk_cfg =
  stk_key :: string
  stk_secret :: string
  stk_passkey :: string
  stk_shortCode :: string

record buy_env =
  by_now :: int
  by_stk :: stk_cfg
  by_token :: "string + string option"
  by_post :: "nat \<Rightarrow> (bool \<times> string) + string option"
  by_paymentId :: string
  by_quoteId :: string
  by_oid :: string
  by_validAddress :: "string \<Rightarrow> bool"
  by_dbFails :: bool
  by_liq :: liq_env
  by_faucet :: faucet_env

text \<open>
  A failed prompt request carries whether the provider rejected it (a status below 500) and its
  message; a reply carries the checkout id.
\<close>

definition isStkConfigured :: "stk_cfg \<Rightarrow> bool" where
  "isStkConfigured c = (stk_key c \<noteq> [] \<and> stk_secret c \<noteq> [] \<and> stk_passkey c \<noteq> [] \<and> stk_shortCode c \<noteq> [])"

section \<open>Reserving\<close>

text \<open>\<open>Number\<close> on a text of digits, points and minus signs: an optional sign, digits, one point at most.\<close>

definition digits_value :: "string \<Rightarrow> nat" where
  "digits_value ds = fold (\<lambda>c n. 10 * n + (of_char c - 48)) ds 0"

definition unsigned_value :: "string \<Rightarrow> num option" where
  "unsigned_value s =
     (let whole = takeWhile is_digit s; rest = dropWhile is_digit s in
      case rest of
        [] \<Rightarrow> if whole = [] then None else Some (of_nat (digits_value whole))
      | c # decs \<Rightarrow>
          if c = CHR ''.'' \<and> list_all is_digit decs \<and> whole @ decs \<noteq> []
          then Some (of_nat (digits_value whole) + of_nat (digits_value decs) / 10 ^ length decs) else None)"

definition number_of_text :: "string \<Rightarrow> num option" where
  "number_of_text s =
     (case s of [] \<Rightarrow> Some 0
      | c # cs \<Rightarrow> if c = CHR ''-'' then map_option (\<lambda>x. fl (- x)) (unsigned_value cs)
                 else map_option fl (unsigned_value s))"

datatype fiat_arg = FiatNumber num | FiatText string

definition fiat_amount :: "fiat_arg \<Rightarrow> num" where
  "fiat_amount f =
     (case f of FiatNumber n \<Rightarrow> n
      | FiatText s \<Rightarrow> or_else (number_of_text (filter (\<lambda>c. is_digit c \<or> c = CHR ''.'' \<or> c = CHR ''-'') s)) 0)"

text \<open>The pattern \<open>^254\d{9}$\<close>.\<close>

definition valid_phone :: "string \<Rightarrow> bool" where
  "valid_phone p = (prefix ''254'' p \<and> length p = 12 \<and> list_all is_digit p)"

record reserve_body =
  rb_amount :: num
  rb_fiat :: fiat_arg
  rb_currency :: "string option"
  rb_walletAddress :: string
  rb_phone :: string

definition reserve_schema :: "buy_env \<Rightarrow> reserve_body \<Rightarrow> bool" where
  "reserve_schema en b = (0 < rb_amount b \<and> rb_amount b \<le> 10 ^ 15 \<and> rb_fiat b \<noteq> FiatText []
     \<and> (case rb_currency b of None \<Rightarrow> True | Some c \<Rightarrow> c \<noteq> [] \<and> length c \<le> 8)
     \<and> by_validAddress en (rb_walletAddress b) \<and> valid_phone (rb_phone b))"

definition new_purchase :: "buy_env \<Rightarrow> reserve_body \<Rightarrow> purchase" where
  "new_purchase en b = \<lparr>q_id = by_oid en, q_quoteId = by_quoteId en, q_walletAddress = rb_walletAddress b,
     q_amount = rb_amount b, q_fiatAmount = fiat_amount (rb_fiat b), q_currency = the (str_or (rb_currency b) (Some ''KES'')),
     q_phone = rb_phone b, q_status = QPending, q_paymentId = None, q_paymentIds = [],
     q_mpesaRef = Some (''MLCNS'' @ show_int (by_now en)), q_txHash = None, q_liquidityAdded = False, q_lpTokens = 0,
     q_liquidityPoolId = None, q_liquidityError = None, q_reason = None, q_createdAt = by_now en,
     q_expiresAt = by_now en + 10 * 60 * 1000\<rparr>"

record payment_summary =
  ps_quoteId :: string
  ps_paymentId :: "string option"
  ps_amountMlcns :: num
  ps_amountKes :: num
  ps_status :: purchase_status
  ps_txHash :: "string option"
  ps_liquidityAdded :: bool
  ps_liquidityPoolId :: "nat option"
  ps_liquidityError :: "msg option"
  ps_lpTokens :: num

definition paymentSummary :: "purchase \<Rightarrow> payment_summary" where
  "paymentSummary q = \<lparr>ps_quoteId = q_quoteId q,
     ps_paymentId = str_or (q_paymentId q) (if q_paymentIds q = [] then None else str_or (Some (last (q_paymentIds q))) None),
     ps_amountMlcns = q_amount q, ps_amountKes = q_fiatAmount q, ps_status = q_status q,
     ps_txHash = str_or (q_txHash q) None, ps_liquidityAdded = q_liquidityAdded q,
     ps_liquidityPoolId = (if q_liquidityPoolId q = Some 0 then None else q_liquidityPoolId q),
     ps_liquidityError = q_liquidityError q, ps_lpTokens = q_lpTokens q\<rparr>"

datatype reserve_resp = RvLocked | RvInvalid | RvFailed string | RvOk payment_summary

definition reserveQuote :: "buy_env \<Rightarrow> reserve_body \<Rightarrow> world \<Rightarrow> reserve_resp \<times> world" where
  "reserveQuote en b W =
     (let (open_gate, W0) = requireDirectBuyUnlocked (by_now en) (by_dbFails en) (by_liq en) W in
      if \<not> open_gate then (RvLocked, W0)
      else if \<not> reserve_schema en b then (RvInvalid, W0)
      else if find_purchase (by_quoteId en) W0 \<noteq> None then (RvFailed ''E11000 duplicate key'', W0)
      else let q = new_purchase en b in
        (RvOk (paymentSummary q),
         recordBuyLiquidityActivity (by_now en) Buy_reserved q (over\<lparr>o_status := Some ActPending\<rparr>) (create_purchase q W0)))"

section \<open>The payment prompt\<close>

text \<open>
  The token: \<open>None\<close> when the provider is not configured; an open breaker, a failed request and a reply
  without a token throw.
\<close>

definition buy_getSafaricomToken :: "buy_env \<Rightarrow> breaker \<Rightarrow> (string + string option) \<times> breaker" where
  "buy_getSafaricomToken en b =
     (if \<not> isStkConfigured (by_stk en) then (Inr None, b)
      else case breaker_execute (by_now en) (by_now en) (by_token en) b of
        (Inl (Thrown e), b') \<Rightarrow> (Inl e, b')
      | (Inl ServiceUnavailable, b') \<Rightarrow> (Inl ''Circuit breaker is OPEN. Service unavailable.'', b')
      | (Inr t, b') \<Rightarrow> (if truthy_str t then Inr t else Inl ''No access token from Safaricom'', b'))"

definition addPaymentIdToPurchase :: "string \<Rightarrow> purchase \<Rightarrow> purchase" where
  "addPaymentIdToPurchase paymentId q = q\<lparr>q_paymentIds :=
     (if paymentId \<in> set (q_paymentIds q) then q_paymentIds q else q_paymentIds q @ [paymentId]),
     q_paymentId := Some paymentId\<rparr>"

fun classify_prompt :: "(bool \<times> string) + string option \<Rightarrow> string option attempt_result" where
  "classify_prompt (Inr r) = AOk r"
| "classify_prompt (Inl (rejected, e)) = AErr e (\<not> rejected)"

datatype prompt_resp = PrUnconfigured | PrDuplicate purchase_status "string option" | PrFailed string | PrSent string

definition prompt_failed :: "buy_env \<Rightarrow> purchase \<Rightarrow> string \<Rightarrow> world \<Rightarrow> prompt_resp \<times> world" where
  "prompt_failed en q e W =
     (PrFailed e, recordBuyLiquidityActivity (by_now en) Payment_initiation_failed q
        (over\<lparr>o_status := Some ActFailed, o_reason := Some (Ext e)\<rparr>) W)"

definition stk_calls :: "nat \<Rightarrow> num \<Rightarrow> string \<Rightarrow> world \<Rightarrow> world" where
  "stk_calls n amount phone W = W\<lparr>outbox := outbox W @ replicate n (EStk amount phone)\<rparr>"

definition initiateMpesaRequest :: "buy_env \<Rightarrow> purchase \<Rightarrow> string \<Rightarrow> num \<Rightarrow> world \<Rightarrow> prompt_resp \<times> world" where
  "initiateMpesaRequest en q phone amount W =
     (if \<not> isStkConfigured (by_stk en) then (PrUnconfigured, W)
      else if q_status q \<noteq> QPending then (PrDuplicate (q_status q) (ps_paymentId (paymentSummary q)), W)
      else case buy_getSafaricomToken en (buyBreaker W) of
        (Inl e, b) \<Rightarrow> prompt_failed en q e (W\<lparr>buyBreaker := b\<rparr>)
      | (Inr None, b) \<Rightarrow> prompt_failed en q ''Safaricom token could not be generated'' (W\<lparr>buyBreaker := b\<rparr>)
      | (Inr (Some token), b) \<Rightarrow>
          (case backoff_execute createPaymentBackoff (\<lambda>k. classify_prompt (by_post en k)) of
             (Inl e, calls) \<Rightarrow> prompt_failed en q (or_else e []) (stk_calls calls amount phone (W\<lparr>buyBreaker := b\<rparr>))
           | (Inr checkoutId, calls) \<Rightarrow>
               (let paymentId = the (str_or checkoutId (Some (by_paymentId en)));
                    q' = (addPaymentIdToPurchase paymentId q)\<lparr>q_status := QPaymentInitiated, q_reason := Some StkSent\<rparr>
                in (PrSent paymentId,
                    recordBuyLiquidityActivity (by_now en) Payment_initiated q'
                      (over\<lparr>o_status := Some ActPending, o_paymentId := Some paymentId\<rparr>)
                      (save_purchase q' (stk_calls calls amount phone (W\<lparr>buyBreaker := b\<rparr>)))))))"

text \<open>\<open>POST /mpesa\<close>; the amount of the prompt is the one in the request.\<close>

datatype mpesa_resp = MpLocked | MpInvalid | MpNotFound | MpAnswer prompt_resp

definition postMpesa :: "buy_env \<Rightarrow> string \<Rightarrow> string \<Rightarrow> num \<Rightarrow> world \<Rightarrow> mpesa_resp \<times> world" where
  "postMpesa en quoteId phone amount W =
     (let (open_gate, W0) = requireDirectBuyUnlocked (by_now en) (by_dbFails en) (by_liq en) W in
      if \<not> open_gate then (MpLocked, W0)
      else if \<not> (quoteId \<noteq> [] \<and> valid_phone phone \<and> 0 < amount \<and> amount \<le> 10 ^ 15) then (MpInvalid, W0)
      else case find_purchase quoteId W0 of None \<Rightarrow> (MpNotFound, W0)
      | Some q \<Rightarrow> (let (r, W1) = initiateMpesaRequest en q phone amount W0 in (MpAnswer r, W1)))"

section \<open>The callback\<close>

text \<open>A missing result code reads as 1; the receipt is the last metadata item of that name.\<close>

record stk_callback =
  sc_checkoutId :: "string option"
  sc_requestId :: "string option"
  sc_resultCode :: "int option"
  sc_items :: "(string \<times> string) list"

definition callback_payment_id :: "stk_callback \<Rightarrow> string" where
  "callback_payment_id cb = or_else (str_or (sc_checkoutId cb) (str_or (sc_requestId cb) None)) []"

definition by_payment :: "string \<Rightarrow> purchase \<Rightarrow> bool" where
  "by_payment i q = (q_paymentId q = Some i \<or> i \<in> set (q_paymentIds q))"

definition settled_purchase :: "purchase_status \<Rightarrow> bool" where
  "settled_purchase st = List.member [QConfirmed, QFailed, QProcessing, QCredited] st"

definition processMpesaCallback :: "int \<Rightarrow> stk_callback \<Rightarrow> world \<Rightarrow> nat \<times> world" where
  "processMpesaCallback now cb W =
     (let paymentId = callback_payment_id cb; ok = (or_else (sc_resultCode cb) 1 = 0) in
      if paymentId = [] then (1, W)
      else case coll_find (by_payment paymentId) (purchases W) of None \<Rightarrow> (0, W)
      | Some q \<Rightarrow>
          if settled_purchase (q_status q) then (0, W)
          else let receipt = map_of (rev (sc_items cb)) ''MpesaReceiptNumber'';
                   q' = (if ok then q\<lparr>q_status := QConfirmed, q_mpesaRef := str_or receipt (q_mpesaRef q), q_reason := Some PaymentConfirmed\<rparr>
                         else q\<lparr>q_status := QFailed, q_reason := Some PaymentFailed\<rparr>)
               in (0, recordBuyLiquidityActivity now (if ok then Payment_confirmed else Payment_failed) q'
                     (over\<lparr>o_status := Some (if ok then ActSuccess else ActFailed),
                           o_reason := (if ok then None else q_reason q')\<rparr>) (save_purchase q' W)))"

section \<open>Crediting\<close>

definition applyLiquidityAfterCredit ::
  "buy_env \<Rightarrow> purchase \<Rightarrow> string \<Rightarrow> num \<Rightarrow> world \<Rightarrow> (string + liq_result option) \<times> purchase \<times> world" where
  "applyLiquidityAfterCredit en q creditAddress mlcnsAmount W =
     (let fiatAmount = q_fiatAmount q in
      if fiatAmount \<le> 0 then (Inr None, q, W)
      else case addLiquidityToPool (by_liq en) 2 (ANum mlcnsAmount) (ANum fiatAmount) creditAddress W of
        (Inl e, W1) \<Rightarrow> (Inl e, q, W1)
      | (Inr r, W1) \<Rightarrow>
          (let q' = q\<lparr>q_liquidityAdded := True, q_lpTokens := fl (lq_lpTokens r), q_liquidityPoolId := Some 2\<rparr>
           in (Inr (Some r), q',
               recordBuyLiquidityActivity (by_now en) Liquidity_added q'
                 (over\<lparr>o_status := Some ActSuccess, o_poolId := Some 2, o_lpTokens := Some (fl (lq_lpTokens r)),
                       o_liquidityTxHash := Some (lq_txHash r)\<rparr>) W1)))"

definition ensureLiquidityReconciliation :: "purchase \<Rightarrow> msg option \<Rightarrow> world \<Rightarrow> world" where
  "ensureLiquidityReconciliation q reason W =
     (if q_id q = [] \<or> \<not> truthy_str (q_txHash q) then W
      else let why = (case reason of Some m \<Rightarrow> if m = Ext [] then q_liquidityError q else reason | None \<Rightarrow> q_liquidityError q) in
        case find_recon (q_id q) W of
          Some r \<Rightarrow> save_recon (r\<lparr>r_reason := why, r_status := RDetected\<rparr>) W
        | None \<Rightarrow> create_recon \<lparr>r_purchaseId = q_id q, r_quoteId = q_quoteId q, r_creditTxHash = the (q_txHash q),
             r_walletAddress = q_walletAddress q, r_mlcnsAmount = q_amount q, r_fiatAmount = q_fiatAmount q,
             r_reason = why, r_status = RDetected, r_compensationTx = None, r_resolvedAt = None\<rparr> W)"

text \<open>
  The three parts of \<open>handleReservedCredit\<close>: the checks on the purchase as read, the atomic step
  from confirmed to processing, and the work after it.
\<close>

datatype buy_credit_resp =
    BcNotFound | BcMismatch | BcAlready "string option" | BcNotConfirmed purchase_status | BcBusy
  | BcFailed faucet_error | BcOk string "liq_result option"

fun credit_resp_status :: "buy_credit_resp \<Rightarrow> nat" where
  "credit_resp_status BcNotFound = 404"
| "credit_resp_status BcMismatch = 400"
| "credit_resp_status (BcAlready _) = 200"
| "credit_resp_status (BcNotConfirmed _) = 400"
| "credit_resp_status BcBusy = 409"
| "credit_resp_status (BcFailed e) = faucet_status e"
| "credit_resp_status (BcOk _ _) = 200"

definition credit_check :: "purchase option \<Rightarrow> string option \<Rightarrow> buy_credit_resp option" where
  "credit_check current walletAddress =
     (case current of None \<Rightarrow> Some BcNotFound
      | Some q \<Rightarrow>
          if truthy_str walletAddress \<and> the walletAddress \<noteq> q_walletAddress q then Some BcMismatch
          else if q_status q = QCredited then Some (BcAlready (q_txHash q))
          else if q_status q \<noteq> QConfirmed then Some (BcNotConfirmed (q_status q)) else None)"

definition credit_claim :: "string \<Rightarrow> world \<Rightarrow> purchase option \<times> world" where
  "credit_claim quoteId W =
     (case coll_find (\<lambda>q. q_quoteId q = quoteId \<and> q_status q = QConfirmed) (purchases W) of
        None \<Rightarrow> (None, W)
      | Some q \<Rightarrow> (let q' = q\<lparr>q_status := QProcessing\<rparr> in (Some q', save_purchase q' W)))"

definition credit_settle :: "buy_env \<Rightarrow> purchase \<Rightarrow> string \<Rightarrow> world \<Rightarrow> buy_credit_resp \<times> world" where
  "credit_settle en q txHash W =
     (let now = by_now en;
          q1 = q\<lparr>q_txHash := Some txHash, q_status := QCredited, q_liquidityAdded := False, q_liquidityPoolId := None,
                 q_liquidityError := None, q_lpTokens := 0\<rparr>;
          W1 = recordBuyLiquidityActivity now Credit_settled q1
                 (over\<lparr>o_status := Some ActSuccess, o_creditTxHash := Some txHash\<rparr>) W
      in case applyLiquidityAfterCredit en q1 (q_walletAddress q) (q_amount q) W1 of
        (Inr liq, q2, W2) \<Rightarrow> (BcOk txHash liq, save_purchase q2 W2)
      | (Inl e, q2, W2) \<Rightarrow>
          (let q3 = q2\<lparr>q_liquidityAdded := False, q_liquidityError := Some (Ext e)\<rparr>;
               W3 = ensureLiquidityReconciliation q3 (q_liquidityError q3) W2;
               W4 = recordBuyLiquidityActivity now Liquidity_add_failed q3
                      (over\<lparr>o_status := Some ActFailed, o_poolId := Some 2, o_reason := q_liquidityError q3\<rparr>) W3
           in (BcOk txHash None, save_purchase q3 W4)))"

definition credit_finish :: "buy_env \<Rightarrow> purchase \<Rightarrow> world \<Rightarrow> buy_credit_resp \<times> world" where
  "credit_finish en q W =
     (let W1 = recordBuyLiquidityActivity (by_now en) Credit_processing_started q (over\<lparr>o_status := Some ActPending\<rparr>) W
      in case creditMlcns (by_faucet en) (q_walletAddress q) (q_amount q) W1 of
        (Inl e, W2) \<Rightarrow> (BcFailed e, W2)
      | (Inr result, W2) \<Rightarrow> credit_settle en q (cre_txHash result) W2)"

definition handleReservedCredit :: "buy_env \<Rightarrow> string \<Rightarrow> string option \<Rightarrow> world \<Rightarrow> buy_credit_resp \<times> world" where
  "handleReservedCredit en quoteId walletAddress W =
     (case credit_check (find_purchase quoteId W) walletAddress of Some r \<Rightarrow> (r, W)
      | None \<Rightarrow>
          (case credit_claim quoteId W of (None, W1) \<Rightarrow> (BcBusy, W1)
           | (Some q, W1) \<Rightarrow> credit_finish en q W1))"

section \<open>Frames\<close>

lemma load_pools_frame [frame_simps]:
  "purchases (ensurePoolsLoaded en W) = purchases W" "outbox (ensurePoolsLoaded en W) = outbox W"
  "recons (ensurePoolsLoaded en W) = recons W" "activities (ensurePoolsLoaded en W) = activities W"
  "purchases (save_pool p W) = purchases W" "outbox (save_pool p W) = outbox W"
  "recons (save_pool p W) = recons W" "activities (save_pool p W) = activities W"
  by (simp_all add: ensurePoolsLoaded_def load_pools_def save_pool_def Let_def)

definition is_credit :: "effect \<Rightarrow> bool" where
  "is_credit e = (case e of ECredit _ _ \<Rightarrow> True | _ \<Rightarrow> False)"

definition credits :: "world \<Rightarrow> nat" where "credits W = length (filter is_credit (outbox W))"

lemma add_liquidity_frame:
  assumes "addLiquidityToPool en i x y u W = (r, W')"
  shows "purchases W' = purchases W" "recons W' = recons W" "credits W' = credits W"
  using assms by (cases rule: add_cases; auto simp: frame_simps credits_def is_credit_def)+

lemma gate_frame:
  "purchases (snd (requireDirectBuyUnlocked now f liq W)) = purchases W"
  "outbox (snd (requireDirectBuyUnlocked now f liq W)) = outbox W"
  by (simp_all add: requireDirectBuyUnlocked_def getBuyGateStatus_def fresh_gate_def Let_def
      split: prod.splits option.splits)

lemma credit_frame:
  assumes "creditMlcns en a n W = (r, W')"
  shows "purchases W' = purchases W" "recons W' = recons W" "credits W' \<le> Suc (credits W)"
    "(\<exists>x. r = Inr x) \<Longrightarrow> credits W' = Suc (credits W)"
proof -
  have "purchases W' = purchases W \<and> recons W' = recons W \<and> credits W' \<le> Suc (credits W)
    \<and> ((\<exists>x. r = Inr x) \<longrightarrow> credits W' = Suc (credits W))"
    using assms
  proof (cases rule: credit_cases)
    case (sent gas)
    have "purchases W' = purchases W" using sent(4)
      by (rule disjE) (drule arg_cong [of _ _ purchases], simp add: frame_simps)+
    moreover have "recons W' = recons W" using sent(4)
      by (rule disjE) (drule arg_cong [of _ _ recons], simp add: frame_simps)+
    moreover have "filter is_credit gas = []" using sent(3) by (auto simp: filter_empty_conv is_credit_def)
    then have "credits W' = Suc (credits W)" by (simp add: credits_def sent(2) is_credit_def)
    ultimately show ?thesis by simp
  qed auto
  then show "purchases W' = purchases W" "recons W' = recons W" "credits W' \<le> Suc (credits W)"
    "(\<exists>x. r = Inr x) \<Longrightarrow> credits W' = Suc (credits W)" by auto
qed

lemma ensure_recon_frame [frame_simps]:
  "purchases (ensureLiquidityReconciliation q m W) = purchases W"
  "outbox (ensureLiquidityReconciliation q m W) = outbox W"
  by (simp_all add: ensureLiquidityReconciliation_def Let_def frame_simps split: option.splits)

lemma find_created_recon:
  "find_recon i W = None \<Longrightarrow> r_purchaseId c = i \<Longrightarrow> find_recon i (create_recon c W) = Some c"
  using recdb.find_create [of c W] by simp

text \<open>Settling saves the purchase once, as credited.\<close>

lemma credit_settle_cases:
  assumes "credit_settle en q tx W = (r, W')"
  obtains (step) q' liq where "r = BcOk tx liq" "q_quoteId q' = q_quoteId q" "q_id q' = q_id q" "q_status q' = QCredited"
    "q_txHash q' = Some tx" "purchases W' = coll_put q_quoteId q' (purchases W)" "credits W' = credits W"
    "q_liquidityAdded q' \<longleftrightarrow> (\<exists>l. liq = Some l)"
    "q_liquidityAdded q' \<or> q_fiatAmount q \<le> 0 \<or> q_id q = [] \<or> tx = []
       \<or> (\<exists>c. find_recon (q_id q) W' = Some c \<and> r_status c = RDetected)"
    "q_walletAddress q' = q_walletAddress q"
proof -
  let ?q1 = "q\<lparr>q_txHash := Some tx, q_status := QCredited, q_liquidityAdded := False, q_liquidityPoolId := None,
                 q_liquidityError := None, q_lpTokens := 0\<rparr>"
  let ?W1 = "recordBuyLiquidityActivity (by_now en) Credit_settled ?q1
                 (over\<lparr>o_status := Some ActSuccess, o_creditTxHash := Some tx\<rparr>) W"
  note d = assms [unfolded credit_settle_def Let_def]
  show thesis
  proof (cases "q_fiatAmount q \<le> 0")
    case True
    then have "applyLiquidityAfterCredit en ?q1 (q_walletAddress q) (q_amount q) ?W1 = (Inr None, ?q1, ?W1)"
      by (simp add: applyLiquidityAfterCredit_def)
    with d have "r = BcOk tx None" "W' = save_purchase ?q1 ?W1" by simp_all
    with True show thesis by (intro step [of None ?q1]) (simp_all add: frame_simps credits_def)
  next
    case False
    obtain a W2 where a: "addLiquidityToPool (by_liq en) 2 (ANum (q_amount q)) (ANum (q_fiatAmount q)) (q_walletAddress q) ?W1 = (a, W2)"
      by fastforce
    note f = add_liquidity_frame [OF a]
    show thesis
    proof (cases a)
      case (Inr l)
      let ?q2 = "?q1\<lparr>q_liquidityAdded := True, q_lpTokens := fl (lq_lpTokens l), q_liquidityPoolId := Some 2\<rparr>"
      let ?ov = "over\<lparr>o_status := Some ActSuccess, o_poolId := Some 2, o_lpTokens := Some (fl (lq_lpTokens l)),
                       o_liquidityTxHash := Some (lq_txHash l)\<rparr>"
      have "applyLiquidityAfterCredit en ?q1 (q_walletAddress q) (q_amount q) ?W1
          = (Inr (Some l), ?q2, recordBuyLiquidityActivity (by_now en) Liquidity_added ?q2 ?ov W2)"
        using False by (simp add: applyLiquidityAfterCredit_def a Inr Let_def)
      with d have "r = BcOk tx (Some l)"
        "W' = save_purchase ?q2 (recordBuyLiquidityActivity (by_now en) Liquidity_added ?q2 ?ov W2)" by simp_all
      then show thesis using f by (intro step [of "Some l" ?q2]) (simp_all add: frame_simps credits_def)
    next
      case (Inl e)
      let ?q3 = "?q1\<lparr>q_liquidityAdded := False, q_liquidityError := Some (Ext e)\<rparr>"
      let ?ov = "over\<lparr>o_status := Some ActFailed, o_poolId := Some 2, o_reason := Some (Ext e)\<rparr>"
      have "applyLiquidityAfterCredit en ?q1 (q_walletAddress q) (q_amount q) ?W1 = (Inl e, ?q1, W2)"
        using False by (simp add: applyLiquidityAfterCredit_def a Inl Let_def)
      with d have r: "r = BcOk tx None"
        and W': "W' = save_purchase ?q3 (recordBuyLiquidityActivity (by_now en) Liquidity_add_failed ?q3 ?ov
                   (ensureLiquidityReconciliation ?q3 (Some (Ext e)) W2))" by simp_all
      have "q_id q = [] \<or> tx = [] \<or> (\<exists>c. find_recon (q_id q) W' = Some c \<and> r_status c = RDetected)"
      proof (cases "q_id q = [] \<or> tx = []")
        case nonempty: False
        let ?V = "ensureLiquidityReconciliation ?q3 (Some (Ext e)) W2"
        have "\<exists>c. find_recon (q_id q) ?V = Some c \<and> r_status c = RDetected"
        proof (cases "find_recon (q_id q) W2")
          case None
          then show ?thesis using nonempty
            by (simp add: ensureLiquidityReconciliation_def truthy_str_def Let_def find_created_recon)
        next
          case (Some c)
          then have "r_purchaseId c = q_id q" by (rule recdb.find_key)
          with Some show ?thesis using nonempty
            by (simp add: ensureLiquidityReconciliation_def truthy_str_def Let_def recdb.save_present [OF Some])
        qed
        then show ?thesis unfolding W' by (simp add: find_recon_def frame_simps)
      qed auto
      with r W' f show thesis by (intro step [of None ?q3]) (simp_all add: frame_simps credits_def)
    qed
  qed
qed

section \<open>At most one credit for each payment\<close>

definition paid :: "purchase \<Rightarrow> bool" where
  "paid q \<longleftrightarrow> q_status q = QConfirmed \<or> q_status q = QProcessing \<or> q_status q = QCredited"

definition claimed :: "purchase \<Rightarrow> bool" where
  "claimed q \<longleftrightarrow> q_status q = QProcessing \<or> q_status q = QCredited"

text \<open>
  The requests as they interleave: the state holds the world, the purchases some request has claimed
  and not finished yet, and the number of callbacks that reported a payment. A claim is the atomic
  step of a credit request, whatever that request has read before.
\<close>

type_synonym buy_state = "world \<times> purchase list \<times> nat"

inductive buy_step :: "buy_state \<Rightarrow> buy_state \<Rightarrow> bool" where
  reserve: "buy_step (W, ps, k) (snd (reserveQuote en b W), ps, k)"
| prompt: "buy_step (W, ps, k) (snd (postMpesa en i ph a W), ps, k)"
| callback: "buy_step (W, ps, k)
    (snd (processMpesaCallback now cb W), ps, if or_else (sc_resultCode cb) 1 = 0 then Suc k else k)"
| claim: "credit_claim i W = (Some q, W') \<Longrightarrow> buy_step (W, ps, k) (W', q # ps, k)"
| finish: "q \<in> set ps \<Longrightarrow> buy_step (W, ps, k) (snd (credit_finish en q W), remove1 q ps, k)"

definition buy_inv :: "buy_state \<Rightarrow> bool" where
  "buy_inv = (\<lambda>(W, ps, k). distinct (map q_quoteId (purchases W)) \<and> distinct (map q_quoteId ps)
     \<and> (\<forall>q \<in> set ps. find_purchase (q_quoteId q) W = Some q \<and> q_status q = QProcessing)
     \<and> credits W + length ps \<le> length (filter claimed (purchases W))
     \<and> length (filter paid (purchases W)) \<le> k)"

lemma coll_put_count:
  assumes "coll_find (\<lambda>x. key x = key d') ds = Some d"
  shows "length (filter P (coll_put key d' ds)) + (if P d then 1 else 0)
       = length (filter P ds) + (if P d' then 1 else 0)"
  using assms by (induction ds) (auto split: if_splits)

lemma coll_find_distinct: "distinct (map key ds) \<Longrightarrow> d \<in> set ds \<Longrightarrow> coll_find (\<lambda>x. key x = key d) ds = Some d"
  by (induction ds) (auto simp: image_iff)

text \<open>Saving one purchase that no request holds.\<close>

lemma buy_inv_save:
  assumes inv: "buy_inv (W, ps, k)" and d: "find_purchase (q_quoteId d') W = Some d"
    and free: "d \<notin> set ps" and st: "claimed d \<longleftrightarrow> claimed d'"
    and W': "purchases W' = coll_put q_quoteId d' (purchases W)" "credits W' = credits W"
    and k': "(if paid d' then 1 else 0) \<le> (if paid d then 1 else 0) + (k' - k)" "k \<le> k'"
  shows "buy_inv (W', ps, k')"
proof -
  note f = d [unfolded find_purchase_def]
  have key: "q_quoteId d = q_quoteId d'" using coll_find_Some [OF f] by simp
  have "q_quoteId q \<noteq> q_quoteId d'" if "q \<in> set ps" for q
  proof
    assume "q_quoteId q = q_quoteId d'"
    with inv that d have "q = d" by (auto simp: buy_inv_def)
    with free that show False by simp
  qed
  then have "\<forall>q \<in> set ps. find_purchase (q_quoteId q) W' = find_purchase (q_quoteId q) W"
    using W' by (simp add: find_purchase_def coll_find_put_other)
  with inv show ?thesis
    using coll_put_count [OF f, of claimed] coll_put_count [OF f, of paid] st k' W'
    by (auto simp: buy_inv_def split: if_splits)
qed

lemma buy_inv_same:
  "buy_inv (W, ps, k) \<Longrightarrow> purchases W' = purchases W \<Longrightarrow> credits W' = credits W \<Longrightarrow> k \<le> k' \<Longrightarrow> buy_inv (W', ps, k')"
  by (auto simp: buy_inv_def find_purchase_def)

lemma reserve_effects:
  obtains (same) "purchases (snd (reserveQuote en b W)) = purchases W" "credits (snd (reserveQuote en b W)) = credits W"
  | (new) "purchases (snd (reserveQuote en b W)) = purchases W @ [new_purchase en b]"
      "credits (snd (reserveQuote en b W)) = credits W" "find_purchase (by_quoteId en) W = None"
proof -
  obtain g W0 where g: "requireDirectBuyUnlocked (by_now en) (by_dbFails en) (by_liq en) W = (g, W0)" by fastforce
  have f: "purchases W0 = purchases W" "outbox W0 = outbox W"
    using gate_frame [of "by_now en" "by_dbFails en" "by_liq en" W] g by simp_all
  show thesis
  proof (cases "g \<and> reserve_schema en b \<and> find_purchase (by_quoteId en) W0 = None")
    case True
    then show thesis
      using f by (intro new) (simp_all add: reserveQuote_def g Let_def frame_simps credits_def find_purchase_def)
  next
    case False
    then show thesis using f by (intro same) (auto simp: reserveQuote_def g Let_def credits_def)
  qed
qed

lemma stk_calls_frame [frame_simps]:
  "purchases (stk_calls n a ph W) = purchases W" "credits (stk_calls n a ph W) = credits W"
  by (simp_all add: stk_calls_def credits_def is_credit_def)

lemma initiate_effects:
  obtains (same) "purchases (snd (initiateMpesaRequest en q ph a W)) = purchases W"
      "credits (snd (initiateMpesaRequest en q ph a W)) = credits W"
  | (sent) q' where "q_status q = QPending" "q_quoteId q' = q_quoteId q" "q_status q' = QPaymentInitiated"
      "purchases (snd (initiateMpesaRequest en q ph a W)) = coll_put q_quoteId q' (purchases W)"
      "credits (snd (initiateMpesaRequest en q ph a W)) = credits W"
proof -
  obtain t b where t: "buy_getSafaricomToken en (buyBreaker W) = (t, b)" by fastforce
  obtain x n where x: "backoff_execute createPaymentBackoff (\<lambda>k. classify_prompt (by_post en k)) = (x, n)" by fastforce
  note c = frame_simps credits_def prompt_failed_def
  show thesis
  proof (cases "isStkConfigured (by_stk en) \<and> q_status q = QPending \<and> (\<exists>tok. t = Inr (Some tok)) \<and> (\<exists>i. x = Inr i)")
    case False
    then show thesis
      by (intro same) (auto simp: initiateMpesaRequest_def t x stk_calls_def is_credit_def c split: sum.splits option.splits)
  next
    case True
    then obtain tok i where ti: "t = Inr (Some tok)" "x = Inr i" by blast
    let ?id = "the (str_or i (Some (by_paymentId en)))"
    let ?q = "(addPaymentIdToPurchase ?id q)\<lparr>q_status := QPaymentInitiated, q_reason := Some StkSent\<rparr>"
    show thesis
      using True ti by (intro sent [of ?q])
        (simp_all add: initiateMpesaRequest_def t x stk_calls_def is_credit_def addPaymentIdToPurchase_def c Let_def)
  qed
qed

lemma buy_inv_reserve: "buy_inv (W, ps, k) \<Longrightarrow> buy_inv (snd (reserveQuote en b W), ps, k)"
proof (rule reserve_effects [of en b W])
  assume inv: "buy_inv (W, ps, k)" and new: "purchases (snd (reserveQuote en b W)) = purchases W @ [new_purchase en b]"
      "credits (snd (reserveQuote en b W)) = credits W" "find_purchase (by_quoteId en) W = None"
  have n: "\<not> paid (new_purchase en b)" "\<not> claimed (new_purchase en b)" "q_quoteId (new_purchase en b) = by_quoteId en"
    by (simp_all add: paid_def claimed_def new_purchase_def)
  from new(3) have "by_quoteId en \<notin> set (map q_quoteId (purchases W))"
    by (auto simp: find_purchase_def coll_find_None)
  then show ?thesis using inv new(1,2) n by (auto simp: buy_inv_def find_purchase_def coll_find_append)
qed (auto intro: buy_inv_same)

lemma buy_inv_prompt: "buy_inv (W, ps, k) \<Longrightarrow> buy_inv (snd (postMpesa en i ph a W), ps, k)"
proof -
  assume inv: "buy_inv (W, ps, k)"
  obtain g W0 where g: "requireDirectBuyUnlocked (by_now en) (by_dbFails en) (by_liq en) W = (g, W0)" by fastforce
  have f: "purchases W0 = purchases W" "outbox W0 = outbox W"
    using gate_frame [of "by_now en" "by_dbFails en" "by_liq en" W] g by simp_all
  then have inv0: "buy_inv (W0, ps, k)" using inv by (auto intro: buy_inv_same simp: credits_def)
  show ?thesis
  proof (cases "g \<and> i \<noteq> [] \<and> valid_phone ph \<and> 0 < a \<and> a \<le> 10 ^ 15 \<and> (\<exists>q. find_purchase i W0 = Some q)")
    case False
    then have "snd (postMpesa en i ph a W) = W0" by (auto simp: postMpesa_def g Let_def split: option.splits)
    with inv0 show ?thesis by simp
  next
    case True
    then obtain q where q: "find_purchase i W0 = Some q" by blast
    with True have W': "snd (postMpesa en i ph a W) = snd (initiateMpesaRequest en q ph a W0)"
      by (simp add: postMpesa_def g Let_def split: prod.splits)
    show ?thesis
      unfolding W'
    proof (rule initiate_effects [of en q ph a W0])
      fix q' assume s: "q_status q = QPending" "q_quoteId q' = q_quoteId q" "q_status q' = QPaymentInitiated"
        "purchases (snd (initiateMpesaRequest en q ph a W0)) = coll_put q_quoteId q' (purchases W0)"
        "credits (snd (initiateMpesaRequest en q ph a W0)) = credits W0"
      have "q_quoteId q = i" using purdb.find_key [OF q] .
      with q s(2) have "find_purchase (q_quoteId q') W0 = Some q" by simp
      moreover have "q \<notin> set ps" using inv0 s(1) by (auto simp: buy_inv_def)
      ultimately show "buy_inv (snd (initiateMpesaRequest en q ph a W0), ps, k)"
        by (rule buy_inv_save [OF inv0 _ _ _ s(4,5)]) (use s(1,3) in \<open>auto simp: claimed_def paid_def\<close>)
    qed (use inv0 in \<open>auto intro: buy_inv_same\<close>)
  qed
qed

text \<open>What a callback does: nothing, or one saved purchase that was not settled before.\<close>

lemma callback_cases:
  obtains (same) "snd (processMpesaCallback now cb W) = W"
      "callback_payment_id cb = [] \<or> (\<forall>q. coll_find (by_payment (callback_payment_id cb)) (purchases W) = Some q
         \<longrightarrow> settled_purchase (q_status q))"
  | (saved) q q' where "coll_find (by_payment (callback_payment_id cb)) (purchases W) = Some q"
      "\<not> settled_purchase (q_status q)" "q_quoteId q' = q_quoteId q" "q_paymentId q' = q_paymentId q"
      "q_paymentIds q' = q_paymentIds q" "callback_payment_id cb \<noteq> []"
      "q_status q' = (if or_else (sc_resultCode cb) 1 = 0 then QConfirmed else QFailed)"
      "purchases (snd (processMpesaCallback now cb W)) = coll_put q_quoteId q' (purchases W)"
      "credits (snd (processMpesaCallback now cb W)) = credits W"
proof (cases "callback_payment_id cb \<noteq> [] \<and> (\<exists>q. coll_find (by_payment (callback_payment_id cb)) (purchases W) = Some q
    \<and> \<not> settled_purchase (q_status q))")
  case False
  then show thesis by (intro same) (auto simp: processMpesaCallback_def Let_def split: option.splits)
next
  case True
  then obtain q where q: "callback_payment_id cb \<noteq> []" "\<not> settled_purchase (q_status q)"
    "coll_find (by_payment (callback_payment_id cb)) (purchases W) = Some q" by blast
  let ?ok = "or_else (sc_resultCode cb) 1 = 0"
  let ?q = "if ?ok then q\<lparr>q_status := QConfirmed, q_mpesaRef := str_or (map_of (rev (sc_items cb)) ''MpesaReceiptNumber'') (q_mpesaRef q),
       q_reason := Some PaymentConfirmed\<rparr> else q\<lparr>q_status := QFailed, q_reason := Some PaymentFailed\<rparr>"
  show thesis
    by (rule saved [OF q(3,2) _ _ _ q(1), of ?q])
      (use q in \<open>simp_all add: processMpesaCallback_def Let_def frame_simps credits_def\<close>)
qed

lemma buy_inv_callback:
  "buy_inv (W, ps, k) \<Longrightarrow>
   buy_inv (snd (processMpesaCallback now cb W), ps, if or_else (sc_resultCode cb) 1 = 0 then Suc k else k)"
proof (rule callback_cases [of now cb W])
  fix q q'
  assume inv: "buy_inv (W, ps, k)" and s: "coll_find (by_payment (callback_payment_id cb)) (purchases W) = Some q"
      "\<not> settled_purchase (q_status q)" "q_quoteId q' = q_quoteId q"
      "q_status q' = (if or_else (sc_resultCode cb) 1 = 0 then QConfirmed else QFailed)"
      "purchases (snd (processMpesaCallback now cb W)) = coll_put q_quoteId q' (purchases W)"
      "credits (snd (processMpesaCallback now cb W)) = credits W"
  have d: "distinct (map q_quoteId (purchases W))" using inv by (simp add: buy_inv_def)
  have "coll_find (\<lambda>x. q_quoteId x = q_quoteId q) (purchases W) = Some q"
    using d coll_find_Some [OF s(1)] by (intro coll_find_distinct) simp_all
  then have "find_purchase (q_quoteId q') W = Some q" by (simp add: find_purchase_def s(3))
  moreover have "q \<notin> set ps" using inv s(2) by (auto simp: buy_inv_def settled_purchase_def)
  ultimately show ?thesis
    by (rule buy_inv_save [OF inv _ _ _ s(5,6)]) (use s(2,4) in \<open>auto simp: claimed_def paid_def settled_purchase_def\<close>)
qed (auto intro: buy_inv_same)

lemma claim_cases:
  assumes "credit_claim i W = (Some q, W')"
  obtains d where "coll_find (\<lambda>q. q_quoteId q = i \<and> q_status q = QConfirmed) (purchases W) = Some d"
    "q = d\<lparr>q_status := QProcessing\<rparr>" "W' = save_purchase q W" "q_quoteId d = i" "q_status d = QConfirmed"
  using assms by (auto simp: credit_claim_def Let_def dest: coll_find_Some split: option.splits)

lemma buy_inv_claim:
  assumes inv: "buy_inv (W, ps, k)" and c: "credit_claim i W = (Some q, W')"
  shows "buy_inv (W', q # ps, k)"
  using c
proof (rule claim_cases)
  fix d assume d: "coll_find (\<lambda>q. q_quoteId q = i \<and> q_status q = QConfirmed) (purchases W) = Some d"
    "q = d\<lparr>q_status := QProcessing\<rparr>" "W' = save_purchase q W" "q_quoteId d = i" "q_status d = QConfirmed"
  have dist: "distinct (map q_quoteId (purchases W))" using inv by (simp add: buy_inv_def)
  have key: "q_quoteId q = q_quoteId d" using d(2) by simp
  have f: "coll_find (\<lambda>x. q_quoteId x = q_quoteId q) (purchases W) = Some d"
    unfolding key by (rule coll_find_distinct [OF dist]) (use coll_find_Some [OF d(1)] in simp)
  have free: "q_quoteId p \<noteq> q_quoteId q" if "p \<in> set ps" for p
  proof
    assume "q_quoteId p = q_quoteId q"
    then have "p = d" using inv that f by (auto simp: buy_inv_def find_purchase_def)
    with inv that d(5) show False by (auto simp: buy_inv_def)
  qed
  then have "\<forall>p \<in> set ps. find_purchase (q_quoteId p) W' = find_purchase (q_quoteId p) W"
    using d(3) purdb.find_save_other by auto
  moreover have "find_purchase (q_quoteId q) W' = Some q"
    using d(3) f purdb.find_save [of q W] by (simp add: find_purchase_def)
  moreover have "credits W' = credits W" by (simp add: d(3) credits_def frame_simps)
  moreover have "q_quoteId q \<notin> q_quoteId ` set ps" using free by fastforce
  ultimately show ?thesis
    using inv coll_put_count [OF f, of claimed] coll_put_count [OF f, of paid] d(2,3,5)
    by (auto simp: buy_inv_def frame_simps claimed_def paid_def)
qed

lemma finish_cases:
  assumes "credit_finish en q W = (r, W')"
  obtains (failed) e where "r = BcFailed e" "purchases W' = purchases W" "credits W' \<le> Suc (credits W)"
  | (done_) q' tx liq where "r = BcOk tx liq" "q_quoteId q' = q_quoteId q" "q_status q' = QCredited"
      "purchases W' = coll_put q_quoteId q' (purchases W)" "credits W' = Suc (credits W)" "q_txHash q' = Some tx"
      "q_liquidityAdded q' \<or> q_fiatAmount q \<le> 0 \<or> q_id q = [] \<or> tx = []
       \<or> (\<exists>c. find_recon (q_id q) W' = Some c \<and> r_status c = RDetected)"
      "q_liquidityAdded q' \<longleftrightarrow> (\<exists>l. liq = Some l)"
      "q_id q' = q_id q" "q_walletAddress q' = q_walletAddress q"
proof -
  let ?W1 = "recordBuyLiquidityActivity (by_now en) Credit_processing_started q (over\<lparr>o_status := Some ActPending\<rparr>) W"
  obtain a W2 where c: "creditMlcns (by_faucet en) (q_walletAddress q) (q_amount q) ?W1 = (a, W2)" by fastforce
  note f = credit_frame [OF c]
  have c1: "credits ?W1 = credits W" by (simp add: credits_def frame_simps)
  show thesis
  proof (cases a)
    case (Inl e)
    with assms c have "r = BcFailed e" "W' = W2" by (simp_all add: credit_finish_def Let_def)
    with f(1,3) c1 show thesis by (intro failed) (simp_all add: frame_simps)
  next
    case (Inr x)
    with assms c have "credit_settle en q (cre_txHash x) W2 = (r, W')" by (simp add: credit_finish_def Let_def)
    then show thesis
    proof (cases rule: credit_settle_cases)
      case (step q' liq)
      with f(1) f(4) Inr c1 show thesis by (intro done_ [of "cre_txHash x" liq q']) (simp_all add: frame_simps)
    qed
  qed
qed

lemma buy_inv_finish:
  assumes inv: "buy_inv (W, ps, k)" and q: "q \<in> set ps"
  shows "buy_inv (snd (credit_finish en q W), remove1 q ps, k)"
proof -
  obtain r W' where x: "credit_finish en q W = (r, W')" by fastforce
  have sub: "set (remove1 q ps) \<subseteq> set ps" by (rule set_remove1_subset)
  have len: "length ps = Suc (length (remove1 q ps))" using q by (simp add: length_remove1) (metis Suc_pred length_pos_if_in_set)
  have dq: "distinct (map q_quoteId (remove1 q ps))"
    using inv sub by (auto simp: buy_inv_def distinct_map elim: inj_on_subset)
  from x show ?thesis
  proof (cases rule: finish_cases)
    case (failed e)
    with inv len sub dq show ?thesis by (auto simp: x buy_inv_def find_purchase_def)
  next
    case (done_ q' tx liq)
    have f: "coll_find (\<lambda>x. q_quoteId x = q_quoteId q') (purchases W) = Some q"
      using inv q done_(2) by (auto simp: buy_inv_def find_purchase_def)
    have st: "q_status q = QProcessing" using inv q by (auto simp: buy_inv_def)
    have "q_quoteId p \<noteq> q_quoteId q'" if "p \<in> set (remove1 q ps)" for p
    proof
      assume eq: "q_quoteId p = q_quoteId q'"
      have "p \<in> set ps" using that sub by blast
      then have "find_purchase (q_quoteId p) W = Some p" using inv by (simp add: buy_inv_def)
      with f eq have "p = q" by (simp add: find_purchase_def)
      with that inv show False by (simp add: buy_inv_def distinct_map set_remove1_eq)
    qed
    then have "\<forall>p \<in> set (remove1 q ps). find_purchase (q_quoteId p) W' = find_purchase (q_quoteId p) W"
      using done_(4) by (simp add: find_purchase_def coll_find_put_other)
    with inv done_(3-5) st sub dq len coll_put_count [OF f, of claimed] coll_put_count [OF f, of paid] show ?thesis
      by (auto simp: x buy_inv_def claimed_def paid_def)
  qed
qed

lemma buy_inv_step: "buy_step s s' \<Longrightarrow> buy_inv s \<Longrightarrow> buy_inv s'"
proof (cases rule: buy_step.cases, assumption)
  fix W ps k now cb
  assume "buy_inv s" "s = (W, ps, k)"
    "s' = (snd (processMpesaCallback now cb W), ps, if or_else (sc_resultCode cb) 1 = 0 then Suc k else k)"
  then show "buy_inv s'" by (simp only:) (rule buy_inv_callback)
qed (auto intro: buy_inv_reserve buy_inv_prompt buy_inv_claim buy_inv_finish)


section \<open>The gate is a latch\<close>

text \<open>
  once the lock is stored, no look at the gate clears it: unless an older answer is still in the
  three-second cache or the database cannot be read, every reservation and every prompt is refused
  and leaves the purchases and the outside world as they were.
\<close>

theorem buy_lock_permanent:
  assumes "economy W = Some e" "e_directBuyLocked e" "\<not> by_dbFails en"
    and "\<forall>c t. gateCache W = Some (c, t) \<longrightarrow> gs_locked c \<or> CACHE_TTL_MS \<le> by_now en - t"
  shows "fst (reserveQuote en b W) = RvLocked \<and> fst (postMpesa en i ph a W) = MpLocked
    \<and> (\<forall>W' \<in> {snd (reserveQuote en b W), snd (postMpesa en i ph a W)}.
         economy W' = Some e \<and> purchases W' = purchases W \<and> outbox W' = outbox W)"
proof -
  obtain c V where g: "getBuyGateStatus (by_now en) (by_dbFails en) (by_liq en) W = (c, V)" by fastforce
  have "gs_locked c \<and> economy V = Some e"
    using assms g by (auto simp: getBuyGateStatus_def fresh_gate_def Let_def split: option.splits if_splits)
  then show ?thesis
    using gate_frame [of "by_now en" "by_dbFails en" "by_liq en" W]
    by (simp add: reserveQuote_def postMpesa_def requireDirectBuyUnlocked_def g)
qed

section \<open>Repeated callbacks\<close>

text \<open>
  a callback for a payment that has been answered changes nothing, whatever it reports: neither
  a repetition nor a contradicting answer (a late failure after a success, or the other way round).
\<close>

theorem mpesa_callback_idempotent:
  assumes "distinct (map q_quoteId (purchases W))" "callback_payment_id cb' = callback_payment_id cb"
  shows "snd (processMpesaCallback now' cb' (snd (processMpesaCallback now cb W))) = snd (processMpesaCallback now cb W)"
proof (cases rule: callback_cases [of now cb W])
  case same
  with assms(2) show ?thesis by (cases rule: callback_cases [of now' cb' W]) auto
next
  case (saved q q')
  then have "coll_find (by_payment (callback_payment_id cb)) (purchases (snd (processMpesaCallback now cb W))) = Some q'"
    using assms(1) coll_find_Some [OF saved(1)] by (simp add: coll_find_put_query by_payment_def)
  moreover have "settled_purchase (q_status q')" using saved(7) by (simp add: settled_purchase_def)
  ultimately show ?thesis using assms(2) by (subst processMpesaCallback_def) (simp add: Let_def)
qed

section \<open>The credit\<close>

text \<open>A credit that is reported has gone through the claim of the confirmed purchase.\<close>

lemma handled_credit:
  assumes "handleReservedCredit en i w W = (BcOk tx liq, W')" "distinct (map q_quoteId (purchases W))"
  obtains q0 q W1 where "find_purchase i W = Some q0" "q_status q0 = QConfirmed" "q = q0\<lparr>q_status := QProcessing\<rparr>"
    "W1 = save_purchase q W" "find_purchase i W1 = Some q" "credit_finish en q W1 = (BcOk tx liq, W')"
proof -
  from assms(1) obtain q0 q W1 where c: "find_purchase i W = Some q0" "q_status q0 = QConfirmed"
    "credit_claim i W = (Some q, W1)" "credit_finish en q W1 = (BcOk tx liq, W')"
    by (auto simp: handleReservedCredit_def credit_check_def split: option.splits prod.splits if_splits)
  from c(3) obtain d where d: "coll_find (\<lambda>q. q_quoteId q = i \<and> q_status q = QConfirmed) (purchases W) = Some d"
    "q = d\<lparr>q_status := QProcessing\<rparr>" "W1 = save_purchase q W" "q_quoteId d = i"
    by (rule claim_cases) auto
  have "find_purchase i W = Some d"
    using coll_find_distinct [OF assms(2), of d] coll_find_Some [OF d(1)] by (simp add: find_purchase_def)
  with c(1) have q0: "d = q0" by simp
  have "find_purchase i W1 = Some q"
    using purdb.find_save [of q W] c(1) d(2-4) q0 by auto
  with c d q0 show thesis by (intro that) simp_all
qed

text \<open>
  a credit request that reports success has credited exactly the reserved amount to the wallet of
  the quote, and the purchase is stored as credited with the transaction; when fiat was paid, either the
  liquidity is recorded as added or there is an open reconciliation record for the purchase.
\<close>

theorem credit_then_liquidity_or_reconciliation:
  assumes "handleReservedCredit en i w W = (BcOk tx liq, W')"
    and "\<And>q. find_purchase i W = Some q \<Longrightarrow> 0 < q_fiatAmount q \<and> q_id q \<noteq> []" "tx \<noteq> []"
    and "distinct (map q_quoteId (purchases W))"
  shows "\<exists>q q'. find_purchase i W = Some q \<and> q_status q = QConfirmed \<and> find_purchase i W' = Some q'
     \<and> q_status q' = QCredited \<and> q_txHash q' = Some tx \<and> credits W' = Suc (credits W)
     \<and> (q_liquidityAdded q' \<or> (\<exists>c. find_recon (q_id q) W' = Some c \<and> r_status c = RDetected))"
proof -
  obtain q0 q W1 where c: "find_purchase i W = Some q0" "q_status q0 = QConfirmed" "q = q0\<lparr>q_status := QProcessing\<rparr>"
    "W1 = save_purchase q W" "find_purchase i W1 = Some q" "credit_finish en q W1 = (BcOk tx liq, W')"
    by (rule handled_credit [OF assms(1,4)])
  have k0: "q_quoteId q = i" using purdb.find_key [OF c(5)] .
  from c(6) show ?thesis
  proof (cases rule: finish_cases)
    case (done_ q' t l)
    have k: "q_quoteId q' = i" using done_(2) k0 by simp
    have "find_purchase i W' = Some q'"
      using c(5) done_(4) k coll_find_put_same [of q_quoteId q' "purchases W1"] by (simp add: find_purchase_def)
    moreover have "credits W1 = credits W" by (simp add: c(4) credits_def frame_simps)
    moreover have "0 < q_fiatAmount q" "q_id q \<noteq> []" "q_id q = q_id q0" using assms(2) [OF c(1)] c(3) by simp_all
    ultimately show ?thesis using c(1,2) done_ assms(3) by auto
  qed simp
qed

text \<open>
  when the credit fails (the faucet is disabled, as it always is in production without an
  operator key, the amount is above its maximum, the wallet is in its cooldown, or the chain does not
  confirm in time), the purchase stays in processing: every later credit request is refused and every
  later callback for it is ignored.
\<close>

theorem failed_credit_strands_purchase:
  assumes "handleReservedCredit en i w W = (BcFailed e, W')" "distinct (map q_quoteId (purchases W))"
  shows "\<exists>q. find_purchase i W' = Some q \<and> q_status q = QProcessing
     \<and> (\<forall>en' w'. \<not> (truthy_str w' \<and> the w' \<noteq> q_walletAddress q)
          \<longrightarrow> handleReservedCredit en' i w' W' = (BcNotConfirmed QProcessing, W'))
     \<and> (\<forall>now cb. coll_find (by_payment (callback_payment_id cb)) (purchases W') = Some q
          \<longrightarrow> snd (processMpesaCallback now cb W') = W')"
proof -
  from assms(1) obtain q0 q W1 where c: "find_purchase i W = Some q0"
    "credit_claim i W = (Some q, W1)" "credit_finish en q W1 = (BcFailed e, W')"
    by (auto simp: handleReservedCredit_def credit_check_def split: option.splits prod.splits if_splits)
  from c(2) obtain d where d: "q = d\<lparr>q_status := QProcessing\<rparr>" "W1 = save_purchase q W" "q_quoteId d = i"
    by (rule claim_cases) auto
  have f1: "find_purchase i W1 = Some q" using purdb.find_save [of q W] c(1) d by auto
  from c(3) have "purchases W' = purchases W1" by (cases rule: finish_cases) auto
  then have "find_purchase i W' = Some q" using f1 by (simp add: find_purchase_def)
  then show ?thesis
    using d(1) by (auto simp: handleReservedCredit_def credit_check_def processMpesaCallback_def Let_def settled_purchase_def)
qed
section \<open>A concrete purchase\<close>

definition demo_buy :: buy_env where
  "demo_buy = \<lparr>by_now = 5000, by_stk = \<lparr>stk_key = ''k'', stk_secret = ''s'', stk_passkey = ''p'', stk_shortCode = ''174379''\<rparr>,
     by_token = Inr (Some ''tok''), by_post = (\<lambda>_. Inr (Some ''ws_1'')), by_paymentId = ''P1'', by_quoteId = ''Q1'',
     by_oid = ''O1'', by_validAddress = (\<lambda>_. True), by_dbFails = True, by_liq = demo_chain,
     by_faucet = demo_faucet False 5 NoRedis\<rparr>"

definition demo_reserve_body :: "num \<Rightarrow> reserve_body" where
  "demo_reserve_body n = \<lparr>rb_amount = n, rb_fiat = FiatNumber 1, rb_currency = None, rb_walletAddress = ''mall1'', rb_phone = ''254700000000''\<rparr>"

definition demo_stk_ok :: stk_callback where
  "demo_stk_ok = \<lparr>sc_checkoutId = Some ''ws_1'', sc_requestId = None, sc_resultCode = Some 0, sc_items = []\<rparr>"

definition reserved :: "num \<Rightarrow> world" where "reserved n = snd (reserveQuote demo_buy (demo_reserve_body n) empty_world)"
definition prompted :: "num \<Rightarrow> world" where
  "prompted n = snd (postMpesa demo_buy ''Q1'' ''254700000000'' 1 (reserved n))"
definition confirmed :: "num \<Rightarrow> world" where "confirmed n = snd (processMpesaCallback 0 demo_stk_ok (prompted n))"

lemma demo_schema: "0 < n \<Longrightarrow> n \<le> 10000 \<Longrightarrow> reserve_schema demo_buy (demo_reserve_body n)"
proof -
  assume "0 < n" "n \<le> 10000"
  moreover have "valid_phone ''254700000000''" by code_simp
  ultimately show ?thesis by (simp add: reserve_schema_def demo_reserve_body_def demo_buy_def)
qed

lemma demo_reserved:
  assumes "0 < n" "n \<le> 10000"
  shows "purchases (reserved n) = [new_purchase demo_buy (demo_reserve_body n)]" "outbox (reserved n) = []"
    "buyBreaker (reserved n) = buyBreaker empty_world"
    "find_purchase ''Q1'' (reserved n) = Some (new_purchase demo_buy (demo_reserve_body n))"
    "cooldownMemory (reserved n) = Map.empty"
    "gateCache (reserved n) = Some (\<lparr>gs_locked = False, gs_reserveKes = None, gs_error = True\<rparr>, 5000)"
  using demo_schema [OF assms]
  by (simp_all add: reserved_def reserveQuote_def requireDirectBuyUnlocked_def getBuyGateStatus_def fresh_gate_def
      demo_buy_def Let_def find_purchase_def new_purchase_def frame_simps)

abbreviation demo_prompted_purchase :: "num \<Rightarrow> purchase" where
  "demo_prompted_purchase n \<equiv> (addPaymentIdToPurchase ''ws_1'' (new_purchase demo_buy (demo_reserve_body n)))
     \<lparr>q_status := QPaymentInitiated, q_reason := Some StkSent\<rparr>"

lemma demo_stk_token: "fst (buy_getSafaricomToken demo_buy (buyBreaker empty_world)) = Inr (Some ''tok'')"
  by code_simp

lemma demo_stk_backoff: "backoff_execute createPaymentBackoff (\<lambda>k. classify_prompt (by_post demo_buy k)) = (Inr (Some ''ws_1''), 1)"
  by code_simp

lemma demo_prompted:
  assumes "0 < n" "n \<le> 10000"
  shows "purchases (prompted n) = [demo_prompted_purchase n]" "outbox (prompted n) = [EStk 1 ''254700000000'']"
    "cooldownMemory (prompted n) = Map.empty"
proof -
  obtain b where t: "buy_getSafaricomToken demo_buy (buyBreaker empty_world) = (Inr (Some ''tok''), b)"
    using demo_stk_token by (cases "buy_getSafaricomToken demo_buy (buyBreaker empty_world)") auto
  have g: "requireDirectBuyUnlocked (by_now demo_buy) (by_dbFails demo_buy) (by_liq demo_buy) (reserved n) = (True, reserved n)"
    by (simp add: requireDirectBuyUnlocked_def getBuyGateStatus_def demo_reserved [OF assms] Let_def)
      (simp add: demo_buy_def CACHE_TTL_MS_def)
  have c: "isStkConfigured (by_stk demo_buy)" by code_simp
  have v: "valid_phone ''254700000000''" by code_simp
  have i: "snd (initiateMpesaRequest demo_buy (new_purchase demo_buy (demo_reserve_body n)) ''254700000000'' 1 (reserved n))
      = recordBuyLiquidityActivity 5000 Payment_initiated (demo_prompted_purchase n)
          (over\<lparr>o_status := Some ActPending, o_paymentId := Some ''ws_1''\<rparr>)
          (save_purchase (demo_prompted_purchase n) (stk_calls 1 1 ''254700000000'' (reserved n\<lparr>buyBreaker := b\<rparr>)))"
    by (simp add: initiateMpesaRequest_def c demo_reserved [OF assms] t demo_stk_backoff new_purchase_def Let_def truthy_str_def)
      (simp add: demo_buy_def)
  then have p: "prompted n = recordBuyLiquidityActivity 5000 Payment_initiated (demo_prompted_purchase n)
          (over\<lparr>o_status := Some ActPending, o_paymentId := Some ''ws_1''\<rparr>)
          (save_purchase (demo_prompted_purchase n) (stk_calls 1 1 ''254700000000'' (reserved n\<lparr>buyBreaker := b\<rparr>)))"
    by (simp add: prompted_def postMpesa_def g v demo_reserved [OF assms] case_prod_beta)
  show "purchases (prompted n) = [demo_prompted_purchase n]" "outbox (prompted n) = [EStk 1 ''254700000000'']"
    "cooldownMemory (prompted n) = Map.empty"
    by (simp_all add: p frame_simps demo_reserved [OF assms] stk_calls_def new_purchase_def addPaymentIdToPurchase_def)
qed

abbreviation demo_confirmed_purchase :: "num \<Rightarrow> purchase" where
  "demo_confirmed_purchase n \<equiv> (demo_prompted_purchase n)\<lparr>q_status := QConfirmed, q_reason := Some PaymentConfirmed\<rparr>"

lemma demo_confirmed:
  assumes "0 < n" "n \<le> 10000"
  shows "purchases (confirmed n) = [demo_confirmed_purchase n]" "outbox (confirmed n) = [EStk 1 ''254700000000'']"
    "cooldownMemory (confirmed n) = Map.empty"
  by (simp_all add: confirmed_def processMpesaCallback_def demo_stk_ok_def callback_payment_id_def truthy_str_def
      demo_prompted [OF assms] by_payment_def addPaymentIdToPurchase_def or_else_def settled_purchase_def Let_def frame_simps new_purchase_def)

lemma demo_credit_any:
  assumes "cooldownMemory W = Map.empty" "0 < n" "n \<le> 10000"
  obtains x W' where "creditMlcns (demo_faucet False 5 NoRedis) ''mall1'' n W = (Inr x, W')" "cre_txHash x = ''HASH''"
    "outbox W' = outbox W @ [ECredit ''mall1'' (mc_toBaseUnits 6 n), EFundGas ''mall1'']"
  using demo_tx_ok assms
  by (auto simp: creditMlcns_def isFaucetEnabled_def getFundingAccount_def truthy_str_def demo_faucet_def
      checkAddressCooldown_def last_request_def redis_get_def checkCooldown_def guardFaucetFundedOrThrow_def
      transferAndFundGas_def getSequenceOrDefault_def Let_def validateFaucetRequest_def setCooldown_def emit_def)

lemma demo_claimed:
  assumes "0 < n" "n \<le> 10000"
  obtains q V where "handleReservedCredit en ''Q1'' w (confirmed n) = credit_finish en q V \<or> truthy_str w"
    "outbox V = outbox (confirmed n)" "cooldownMemory V = Map.empty" "purchases V = [q]"
    "q = (demo_confirmed_purchase n)\<lparr>q_status := QProcessing\<rparr>"
  by (rule that [of "(demo_confirmed_purchase n)\<lparr>q_status := QProcessing\<rparr>"
        "save_purchase ((demo_confirmed_purchase n)\<lparr>q_status := QProcessing\<rparr>) (confirmed n)"])
    (simp_all add: handleReservedCredit_def credit_check_def credit_claim_def find_purchase_def Let_def
      demo_confirmed [OF assms] new_purchase_def addPaymentIdToPurchase_def frame_simps demo_buy_def)


lemma add_liquidity_outbox:
  assumes "addLiquidityToPool en i x y u W = (r, W')"
  shows "\<exists>xs. outbox W' = outbox W @ xs"
  using assms by (cases rule: add_cases) (auto simp: frame_simps)

lemma settle_outbox:
  assumes "credit_settle en q tx W = (r, W')"
  shows "\<exists>xs. outbox W' = outbox W @ xs"
proof -
  have a: "\<exists>xs. outbox W2 = outbox W1 @ xs" if "applyLiquidityAfterCredit en p a n W1 = (l, p', W2)" for p a n W1 l p' W2
    using that by (auto simp: applyLiquidityAfterCredit_def Let_def frame_simps split: if_splits sum.splits prod.splits
        dest: add_liquidity_outbox)
  show ?thesis
    using assms by (auto simp: credit_settle_def Let_def frame_simps split: sum.splits prod.splits dest!: a)
qed

lemma demo_finish:
  assumes "0 < n" "n \<le> 10000" and fe: "by_faucet en = demo_faucet False 5 NoRedis"
  obtains liq W' where "handleReservedCredit en ''Q1'' None (confirmed n) = (BcOk ''HASH'' liq, W')"
    "\<exists>rest. outbox W' = EStk 1 ''254700000000'' # ECredit ''mall1'' (mc_toBaseUnits 6 n) # rest"
proof -
  obtain q V where q: "handleReservedCredit en ''Q1'' None (confirmed n) = credit_finish en q V"
    "outbox V = outbox (confirmed n)" "cooldownMemory V = Map.empty" "purchases V = [q]"
    "q = (demo_confirmed_purchase n)\<lparr>q_status := QProcessing\<rparr>"
    using demo_claimed [OF assms(1,2), of en None] by (auto simp: truthy_str_def)
  let ?V = "recordBuyLiquidityActivity (by_now en) Credit_processing_started q (over\<lparr>o_status := Some ActPending\<rparr>) V"
  obtain x V2 where c: "creditMlcns (demo_faucet False 5 NoRedis) ''mall1'' n ?V = (Inr x, V2)" "cre_txHash x = ''HASH''"
    "outbox V2 = outbox ?V @ [ECredit ''mall1'' (mc_toBaseUnits 6 n), EFundGas ''mall1'']"
    using demo_credit_any [of ?V n] q(3) assms(1,2) by (auto simp: frame_simps)
  obtain r W' where s: "credit_settle en q ''HASH'' V2 = (r, W')" by fastforce
  have a: "q_walletAddress q = ''mall1''" "q_amount q = n"
    by (simp_all add: q(5) new_purchase_def addPaymentIdToPurchase_def demo_reserve_body_def)
  have "credit_finish en q V = (r, W')"
    using c s a by (simp add: credit_finish_def Let_def fe)
  moreover from s obtain liq where "r = BcOk ''HASH'' liq" by (cases rule: credit_settle_cases) auto
  moreover have "\<exists>rest. outbox W' = EStk 1 ''254700000000'' # ECredit ''mall1'' (mc_toBaseUnits 6 n) # rest"
    using settle_outbox [OF s] c(3) q(2) demo_confirmed [OF assms(1,2)] by (auto simp: frame_simps)
  ultimately show thesis using q(1) that by simp
qed

lemma demo_buy_faucet: "by_faucet demo_buy = demo_faucet False 5 NoRedis"
  by (simp add: demo_buy_def)

text \<open>
  nothing relates the money asked for to the tokens credited: for any reservable number of tokens there is a run
  in which the phone is prompted for one shilling and, on its confirmation, that number of tokens is
  credited.
\<close>

theorem credit_not_tied_to_payment:
  assumes "0 < n" "n \<le> 10000"
  shows "\<exists>en b cb W'. handleReservedCredit en ''Q1'' None (snd (processMpesaCallback 0 cb
        (snd (postMpesa en ''Q1'' ''254700000000'' 1 (snd (reserveQuote en b empty_world)))))) = W'
     \<and> rb_amount b = n \<and> (\<exists>rest. outbox (snd W') = EStk 1 ''254700000000'' # ECredit ''mall1'' (mc_toBaseUnits 6 n) # rest)"
proof -
  obtain liq W' where "handleReservedCredit demo_buy ''Q1'' None (confirmed n) = (BcOk ''HASH'' liq, W')"
    "\<exists>rest. outbox W' = EStk 1 ''254700000000'' # ECredit ''mall1'' (mc_toBaseUnits 6 n) # rest"
    by (rule demo_finish [OF assms demo_buy_faucet])
  then have "handleReservedCredit demo_buy ''Q1'' None (snd (processMpesaCallback 0 demo_stk_ok
        (snd (postMpesa demo_buy ''Q1'' ''254700000000'' 1 (snd (reserveQuote demo_buy (demo_reserve_body n) empty_world))))))
      = (BcOk ''HASH'' liq, W')
     \<and> rb_amount (demo_reserve_body n) = n \<and> (\<exists>rest. outbox (snd (BcOk ''HASH'' liq, W')) = EStk 1 ''254700000000'' # ECredit ''mall1'' (mc_toBaseUnits 6 n) # rest)"
    by (simp add: confirmed_def prompted_def reserved_def demo_reserve_body_def)
  then show ?thesis by blast
qed

theorem credit_not_tied_to_payment_witness:
  "\<exists>en b cb W'. handleReservedCredit en ''Q1'' None (snd (processMpesaCallback 0 cb
        (snd (postMpesa en ''Q1'' ''254700000000'' 1 (snd (reserveQuote en b empty_world)))))) = W'
     \<and> rb_amount b = 10000 \<and> (\<exists>rest. outbox (snd W') = EStk 1 ''254700000000'' # ECredit ''mall1'' (mc_toBaseUnits 6 10000) # rest)"
  by (rule credit_not_tied_to_payment) simp_all

theorem mpesa_callback_idempotent_witness:
  "snd (processMpesaCallback 9 (demo_stk_ok\<lparr>sc_resultCode := Some 1\<rparr>) (snd (processMpesaCallback 0 demo_stk_ok (prompted 5)))) = confirmed 5"
  using mpesa_callback_idempotent [of "prompted 5" "demo_stk_ok\<lparr>sc_resultCode := Some 1\<rparr>" demo_stk_ok 9 0]
  by (simp add: demo_prompted confirmed_def) (simp add: callback_payment_id_def demo_stk_ok_def)

theorem buy_lock_permanent_witness:
  "fst (reserveQuote (demo_buy\<lparr>by_dbFails := False\<rparr>) (demo_reserve_body 1)
     (empty_world\<lparr>economy := Some \<lparr>e_directBuyLocked = True, e_lockedAt = None, e_poolKesReserveAtLock = None\<rparr>\<rparr>)) = RvLocked"
  using buy_lock_permanent [of "empty_world\<lparr>economy := Some \<lparr>e_directBuyLocked = True, e_lockedAt = None, e_poolKesReserveAtLock = None\<rparr>\<rparr>"
      "\<lparr>e_directBuyLocked = True, e_lockedAt = None, e_poolKesReserveAtLock = None\<rparr>" "demo_buy\<lparr>by_dbFails := False\<rparr>" "demo_reserve_body 1"]
  by simp

theorem credit_then_liquidity_or_reconciliation_witness:
  "\<exists>liq W' q'. handleReservedCredit demo_buy ''Q1'' None (confirmed 5) = (BcOk ''HASH'' liq, W')
     \<and> find_purchase ''Q1'' W' = Some q' \<and> q_status q' = QCredited"
proof -
  obtain liq W' where h: "handleReservedCredit demo_buy ''Q1'' None (confirmed 5) = (BcOk ''HASH'' liq, W')"
    by (rule demo_finish [of 5, OF _ _ demo_buy_faucet]) simp_all
  have "q_fiatAmount q = 1 \<and> q_id q = ''O1''" if "find_purchase ''Q1'' (confirmed 5) = Some q" for q
    using that by (auto simp: find_purchase_def demo_confirmed new_purchase_def addPaymentIdToPurchase_def demo_reserve_body_def
        demo_buy_def fiat_amount_def split: if_splits)
  moreover have "distinct (map q_quoteId (purchases (confirmed 5)))" by (simp add: demo_confirmed)
  ultimately show ?thesis using credit_then_liquidity_or_reconciliation [OF h] h by auto
qed

theorem failed_credit_strands_purchase_witness:
  "\<exists>e W' q. handleReservedCredit (demo_buy\<lparr>by_faucet := demo_faucet True 5 NoRedis\<rparr>) ''Q1'' None (confirmed 5) = (BcFailed e, W')
     \<and> find_purchase ''Q1'' W' = Some q \<and> q_status q = QProcessing"
proof -
  let ?en = "demo_buy\<lparr>by_faucet := demo_faucet True 5 NoRedis\<rparr>"
  have "\<exists>e W'. handleReservedCredit ?en ''Q1'' None (confirmed 5) = (BcFailed e, W')"
    by (simp add: handleReservedCredit_def credit_check_def credit_claim_def credit_finish_def find_purchase_def Let_def
        demo_confirmed new_purchase_def addPaymentIdToPurchase_def truthy_str_def)
      (simp add: creditMlcns_def isFaucetEnabled_def demo_faucet_def demo_buy_def Let_def)
  then obtain e W' where h: "handleReservedCredit ?en ''Q1'' None (confirmed 5) = (BcFailed e, W')" by blast
  have "distinct (map q_quoteId (purchases (confirmed 5)))" by (simp add: demo_confirmed)
  from failed_credit_strands_purchase [OF h this] h show ?thesis by blast
qed

end
