(* ===== verification/WithdrawRoute.thy ===== *)
theory WithdrawRoute
  imports SellRoute
begin

text \<open>
  The manual withdrawal routes of \<open>routes/withdraw.js\<close>: the configuration view, \<open>POST /mpesa\<close> by an
  administrator, and \<open>GET /status/:withdrawalId\<close> with its synchronisation against the payout. The
  administrator check and the idempotency key stand in front of the request and are modelled elsewhere.
\<close>

record withdraw_env =
  wv_pay :: payout_env
  wv_address :: "string \<Rightarrow> bool"
  wv_phone :: "string \<Rightarrow> bool"
  wv_withdrawalId :: string
  wv_oid :: string
  wv_receiver :: string

section \<open>The status\<close>

definition syncWithdrawalStatus :: "withdrawal \<Rightarrow> world \<Rightarrow> withdrawal \<times> world" where
  "syncWithdrawalStatus w W =
     (if \<not> truthy_str (w_payoutRef w) then (w, W)
      else case coll_find (\<lambda>p. p_payoutRef p = w_payoutRef w) (payouts W) of None \<Rightarrow> (w, W)
      | Some p \<Rightarrow>
          if p_status p = PSucceeded \<and> w_status w \<noteq> WCompleted then
            (let w' = w\<lparr>w_status := WCompleted, w_notes := Some B2CCompleted\<rparr> in (w', save_withdrawal w' W))
          else if p_status p = PFailed \<and> w_status w \<noteq> WFailed then
            (let w' = w\<lparr>w_status := WFailed, w_notes := Some (msg_or (map_option Ext (p_payoutError p)) B2CFailed)\<rparr>
             in (w', save_withdrawal w' W))
          else (w, W))"

record withdrawal_summary =
  wsu_withdrawalId :: string
  wsu_status :: wd_status
  wsu_payoutRef :: "string option"
  wsu_notes :: "msg option"
  wsu_amountMlcns :: num
  wsu_amountKes :: num
  wsu_currency :: string
  wsu_walletAddress :: string
  wsu_phone :: string
  wsu_settlementMode :: settlement_mode
  wsu_saleId :: "string option"
  wsu_sellTxHash :: "string option"
  wsu_burnTxHash :: "string option"
  wsu_createdAt :: int

definition withdrawalSummary :: "withdrawal \<Rightarrow> withdrawal_summary" where
  "withdrawalSummary w = \<lparr>wsu_withdrawalId = w_withdrawalId w, wsu_status = w_status w,
     wsu_payoutRef = str_or (w_payoutRef w) None, wsu_notes = (if w_notes w = Some (Ext []) then None else w_notes w),
     wsu_amountMlcns = w_amountMlcns w, wsu_amountKes = w_amountKes w, wsu_currency = w_currency w,
     wsu_walletAddress = w_walletAddress w, wsu_phone = w_phone w, wsu_settlementMode = w_settlementMode w,
     wsu_saleId = str_or (w_saleId w) None, wsu_sellTxHash = str_or (w_sellTxHash w) None,
     wsu_burnTxHash = str_or (w_burnTxHash w) None, wsu_createdAt = w_createdAt w\<rparr>"

text \<open>\<open>None\<close> is the answer 404.\<close>

definition withdrawStatus :: "string \<Rightarrow> world \<Rightarrow> withdrawal_summary option \<times> world" where
  "withdrawStatus withdrawalId W =
     (case find_withdrawal withdrawalId W of None \<Rightarrow> (None, W)
      | Some w \<Rightarrow> (let (w', W') = syncWithdrawalStatus w W in (Some (withdrawalSummary w'), W')))"

section \<open>The configuration\<close>

record withdraw_config =
  wc_live :: bool
  wc_payout :: bool
  wc_receiver :: bool
  wc_autoPayout :: bool
  wc_receiverAddress :: "string option"

definition withdrawConfig :: "withdraw_env \<Rightarrow> withdraw_config" where
  "withdrawConfig en = \<lparr>wc_live = sf_live (pe_cfg (wv_pay en)), wc_payout = payout_configured (pe_cfg (wv_pay en)),
     wc_receiver = (wv_receiver en \<noteq> []), wc_autoPayout = sf_autoPayout (pe_cfg (wv_pay en)),
     wc_receiverAddress = str_or (Some (wv_receiver en)) None\<rparr>"

section \<open>Filing a withdrawal\<close>

record withdraw_body =
  wb_walletAddress :: string
  wb_phone :: string
  wb_amountMlcns :: num
  wb_amountKes :: num
  wb_currency :: "string option"

definition withdraw_schema :: "withdraw_env \<Rightarrow> withdraw_body \<Rightarrow> bool" where
  "withdraw_schema en b = (wv_address en (wb_walletAddress b) \<and> wv_phone en (wb_phone b)
     \<and> 0 < wb_amountMlcns b \<and> 0 < wb_amountKes b \<and> (wb_currency b = None \<or> wb_currency b = Some ''KES''))"

definition manual_withdrawal :: "withdraw_env \<Rightarrow> withdraw_body \<Rightarrow> withdrawal" where
  "manual_withdrawal en b = \<lparr>w_oid = wv_oid en, w_withdrawalId = wv_withdrawalId en,
     w_walletAddress = wb_walletAddress b, w_phone = wb_phone b, w_amountMlcns = wb_amountMlcns b,
     w_amountKes = wb_amountKes b, w_currency = or_else (wb_currency b) ''KES'', w_status = WPendingReview,
     w_payoutRef = None, w_settlementMode = Review, w_saleId = None, w_sellTxHash = None, w_burnTxHash = None,
     w_notes = Some AwaitingReview, w_queuedAt = None, w_amlReviewId = None, w_createdAt = pe_now (wv_pay en)\<rparr>"

datatype withdraw_resp =
    WrInvalid | WrQueued string wd_status | WrRefused string wd_status msg bool | WrInitiated string string wd_status
  | WrError string

fun withdraw_code :: "withdraw_resp \<Rightarrow> nat" where
  "withdraw_code WrInvalid = 400"
| "withdraw_code (WrQueued _ _) = 202"
| "withdraw_code (WrRefused _ _ _ requiresApproval) = (if requiresApproval then 202 else 502)"
| "withdraw_code (WrInitiated _ _ _) = 202"
| "withdraw_code (WrError _) = 500"

text \<open>The part after the payout was tried; \<open>saleId\<close> is the key of the payout record.\<close>

definition withdraw_refused :: "withdraw_env \<Rightarrow> withdrawal \<Rightarrow> msg \<Rightarrow> bool \<Rightarrow> world \<Rightarrow> withdraw_resp \<times> world" where
  "withdraw_refused en w reason requiresApproval W =
     (let w' = w\<lparr>w_status := (if requiresApproval then WPendingReview else WFailed),
                 w_notes := Some (msg_or (Some reason) AutoPayoutFailed)\<rparr>
      in (WrRefused (w_withdrawalId w) (w_status w') (the (w_notes w')) requiresApproval,
          recordWithdrawLiquidityActivity (pe_now (wv_pay en))
            (if requiresApproval then Withdraw_payout_requires_review else Withdraw_payout_failed) (of_withdrawal w')
            (over\<lparr>o_status := Some (if requiresApproval then ActPending else ActFailed), o_reason := w_notes w'\<rparr>)
            (save_withdrawal w' W)))"

definition withdraw_paid ::
  "withdraw_env \<Rightarrow> withdraw_body \<Rightarrow> withdrawal \<Rightarrow> string \<Rightarrow> string \<Rightarrow> num \<Rightarrow> world \<Rightarrow> withdraw_resp \<times> world" where
  "withdraw_paid en b w saleId payoutRef pesaAmount W =
     (let w' = w\<lparr>w_status := WPayoutInitiated, w_payoutRef := Some payoutRef, w_notes := Some AutoPayoutInitiated\<rparr>;
          W1 = save_withdrawal w' W;
          amount = num_or pesaAmount (wb_amountKes b)
      in if find_payout saleId W1 \<noteq> None then (WrError ''E11000 duplicate key'', W1)
         else (WrInitiated (w_withdrawalId w) payoutRef WPayoutInitiated,
               recordWithdrawLiquidityActivity (pe_now (wv_pay en)) Withdraw_payout_initiated (of_withdrawal w')
                 (over\<lparr>o_status := Some ActPending, o_payoutRef := Some payoutRef, o_fiatAmount := Some amount\<rparr>)
                 (create_payout \<lparr>p_saleId = saleId, p_sellerPhone = wb_phone b, p_sellerAddress = wb_walletAddress b,
                    p_amount = wb_amountMlcns b, p_pesaAmount = Some amount, p_txHash = None, p_status = PInitiated,
                    p_payoutRef = Some payoutRef, p_payoutError = None, p_attemptedAt = None\<rparr> W1)))"

definition postWithdraw :: "withdraw_env \<Rightarrow> withdraw_body \<Rightarrow> world \<Rightarrow> withdraw_resp \<times> world" where
  "postWithdraw en b W =
     (if \<not> withdraw_schema en b then (WrInvalid, W)
      else if find_withdrawal (wv_withdrawalId en) W \<noteq> None then (WrError ''E11000 duplicate key'', W)
      else let w = manual_withdrawal en b;
               W1 = recordWithdrawLiquidityActivity (pe_now (wv_pay en)) Withdraw_request_created (of_withdrawal w)
                      (over\<lparr>o_status := Some ActPending\<rparr>) (create_withdrawal w W);
               saleId = ''withdrawal-'' @ w_withdrawalId w in
        if \<not> sf_autoPayout (pe_cfg (wv_pay en)) then (WrQueued (w_withdrawalId w) (w_status w), W1)
        else case initiateB2CPayout (wv_pay en) (wb_phone b) (wb_amountMlcns b) saleId W1 of
          (B2CErr reason requiresApproval, W2) \<Rightarrow> withdraw_refused en w reason requiresApproval W2
        | (B2COk payoutRef pesaAmount, W2) \<Rightarrow> withdraw_paid en b w saleId payoutRef pesaAmount W2)"

section \<open>What the routes guarantee\<close>

lemma coll_put_new:
  "coll_find (\<lambda>x. key x = key d) ds = None \<Longrightarrow> key d' = key d \<Longrightarrow> coll_put key d' (ds @ [d]) = ds @ [d']"
  by (induction ds) (auto split: if_splits)

text \<open>The ways a filed withdrawal ends, with the payment attempt it made.\<close>

lemma postWithdraw_cases:
  assumes "postWithdraw en b W = (r, W')" "find_withdrawal (wv_withdrawalId en) W = None"
    and "find_payout (''withdrawal-'' @ wv_withdrawalId en) W = None"
  obtains (invalid) "r = WrInvalid" "W' = W"
  | (queued) "r = WrQueued (wv_withdrawalId en) WPendingReview" "\<not> sf_autoPayout (pe_cfg (wv_pay en))"
      "withdrawals W' = withdrawals W @ [manual_withdrawal en b]" "payouts W' = payouts W" "outbox W' = outbox W"
  | (refused) reason review w W2 W3 where "r = WrRefused (wv_withdrawalId en) (w_status w) (the (w_notes w)) review"
      "withdrawals W' = withdrawals W @ [w]" "w_withdrawalId w = wv_withdrawalId en" "payouts W' = payouts W"
      "w_status w = (if review then WPendingReview else WFailed)" "sf_autoPayout (pe_cfg (wv_pay en))"
      "initiateB2CPayout (wv_pay en) (wb_phone b) (wb_amountMlcns b) (''withdrawal-'' @ wv_withdrawalId en) W2
         = (B2CErr reason review, W3)"
      "outbox W' = outbox W3" "outbox W2 = outbox W" "dailyPayout W2 = dailyPayout W"
  | (paid) ref kes w p W2 W3 where "r = WrInitiated (wv_withdrawalId en) ref WPayoutInitiated"
      "withdrawals W' = withdrawals W @ [w]" "w_withdrawalId w = wv_withdrawalId en" "w_status w = WPayoutInitiated"
      "w_payoutRef w = Some ref" "payouts W' = payouts W @ [p]" "p_payoutRef p = Some ref" "p_status p = PInitiated"
      "p_saleId p = ''withdrawal-'' @ wv_withdrawalId en" "sf_autoPayout (pe_cfg (wv_pay en))"
      "initiateB2CPayout (wv_pay en) (wb_phone b) (wb_amountMlcns b) (''withdrawal-'' @ wv_withdrawalId en) W2
         = (B2COk ref kes, W3)"
      "outbox W' = outbox W3" "outbox W2 = outbox W" "dailyPayout W2 = dailyPayout W"
proof (cases "withdraw_schema en b")
  case False
  with assms(1) show thesis by (intro invalid) (simp_all add: postWithdraw_def)
next
  case True
  let ?w = "manual_withdrawal en b"
  let ?i = "''withdrawal-'' @ wv_withdrawalId en"
  let ?W1 = "recordWithdrawLiquidityActivity (pe_now (wv_pay en)) Withdraw_request_created (of_withdrawal ?w)
               (over\<lparr>o_status := Some ActPending\<rparr>) (create_withdrawal ?w W)"
  have w: "w_withdrawalId ?w = wv_withdrawalId en" "w_status ?w = WPendingReview" by (simp_all add: manual_withdrawal_def)
  have put: "coll_put w_withdrawalId w' (withdrawals W @ [?w]) = withdrawals W @ [w']"
    if "w_withdrawalId w' = wv_withdrawalId en" for w'
    using assms(2) that w by (intro coll_put_new) (simp_all add: find_withdrawal_def)
  note d = assms(1) [unfolded postWithdraw_def Let_def w]
  show thesis
  proof (cases "sf_autoPayout (pe_cfg (wv_pay en))")
    case False
    with d True assms(2) show thesis by (intro queued) (auto simp: frame_simps)
  next
    case auto: True
    obtain x W2 where x: "initiateB2CPayout (wv_pay en) (wb_phone b) (wb_amountMlcns b) ?i ?W1 = (x, W2)" by fastforce
    note f = initiate_frame(2,3) [OF x]
    show thesis
    proof (cases x)
      case (B2CErr reason review)
      let ?w' = "?w\<lparr>w_status := if review then WPendingReview else WFailed, w_notes := Some (msg_or (Some reason) AutoPayoutFailed)\<rparr>"
      from d True assms(2) auto x B2CErr have "withdraw_refused en ?w reason review W2 = (r, W')" by simp
      then show thesis using x B2CErr auto f w put [of ?w']
        by (intro refused [of ?w' review ?W1 reason W2]) (auto simp: withdraw_refused_def Let_def frame_simps)
    next
      case (B2COk ref kes)
      let ?w' = "?w\<lparr>w_status := WPayoutInitiated, w_payoutRef := Some ref, w_notes := Some AutoPayoutInitiated\<rparr>"
      let ?p = "\<lparr>p_saleId = ?i, p_sellerPhone = wb_phone b, p_sellerAddress = wb_walletAddress b,
                    p_amount = wb_amountMlcns b, p_pesaAmount = Some (num_or kes (wb_amountKes b)), p_txHash = None,
                    p_status = PInitiated, p_payoutRef = Some ref, p_payoutError = None, p_attemptedAt = None\<rparr>"
      from d True assms(2) auto x B2COk have "withdraw_paid en b ?w ?i ref kes W2 = (r, W')" by simp
      moreover have "find_payout ?i (save_withdrawal ?w' W2) = None"
        using assms(3) f by (simp add: find_payout_def frame_simps)
      ultimately show thesis using x B2COk auto f w put [of ?w']
        by (intro paid [of ref ?w' ?p ?W1 kes W2]) (auto simp: withdraw_paid_def Let_def frame_simps)
    qed
  qed
qed

text \<open>
  filing a withdrawal asks for money only when the automatic payout is switched on and the amount
  passes the caps, at most three times and for the given phone; the stored withdrawal is in review,
  failed, or initiated with the reference of a payout record, as the answer says.
\<close>

theorem manual_withdrawal_outcome:
  assumes "postWithdraw en b W = (r, W')" "find_withdrawal (wv_withdrawalId en) W = None"
    and "find_payout (''withdrawal-'' @ wv_withdrawalId en) W = None"
  shows "r = WrInvalid \<and> W' = W \<or> (\<exists>w n kes. withdrawals W' = withdrawals W @ [w] \<and> w_withdrawalId w = wv_withdrawalId en
    \<and> outbox W' = outbox W @ replicate n (EB2C kes (wb_phone b)) \<and> n \<le> 3
    \<and> (n = 0 \<or> sf_autoPayout (pe_cfg (wv_pay en)) \<and> payout_configured (pe_cfg (wv_pay en))
         \<and> checkPayoutLimits (pe_caps (wv_pay en)) (pe_now (wv_pay en)) (dailyPayout W) kes = LimitOk)
    \<and> (case r of WrInitiated i ref st \<Rightarrow> 0 < n \<and> w_status w = WPayoutInitiated \<and> w_payoutRef w = Some ref
           \<and> (\<exists>p. payouts W' = payouts W @ [p] \<and> p_payoutRef p = Some ref \<and> p_status p = PInitiated)
       | _ \<Rightarrow> payouts W' = payouts W \<and> w_status w = (if withdraw_code r = 202 then WPendingReview else WFailed)))"
  using assms
proof (cases rule: postWithdraw_cases)
  case invalid
  then show ?thesis by blast
next
  case queued
  then show ?thesis by (intro disjI2 exI [of _ "manual_withdrawal en b"] exI [of _ 0]) (simp add: manual_withdrawal_def)
next
  case (refused reason review w W2 W3)
  from refused(7) show ?thesis
  proof (cases rule: initiate_cases)
    case (quiet reason b rev)
    with refused show ?thesis by (intro disjI2 exI [of _ w] exI [of _ 0]) simp
  next
    case (failed reason c n kes)
    with refused show ?thesis by (intro disjI2 exI [of _ w] exI [of _ n] exI [of _ kes]) (simp add: frame_simps)
  qed simp
next
  case (paid ref kes w p W2 W3)
  from paid(11) show ?thesis
  proof (cases rule: initiate_cases)
    case (paid ref kes' c n)
    with \<open>r = _\<close> \<open>withdrawals W' = _\<close> \<open>w_withdrawalId w = _\<close> \<open>w_status w = _\<close> \<open>w_payoutRef w = _\<close> \<open>payouts W' = _\<close>
      \<open>p_payoutRef p = _\<close> \<open>p_status p = _\<close> \<open>sf_autoPayout _\<close> \<open>outbox W' = _\<close> \<open>outbox W2 = _\<close> \<open>dailyPayout W2 = _\<close>
    show ?thesis by (intro disjI2 exI [of _ w] exI [of _ n] exI [of _ kes']) (simp add: frame_simps)
  qed simp_all
qed

lemma sync_withdrawal_cases:
  assumes "syncWithdrawalStatus w W = (w', V)"
  obtains (same) "w' = w" "V = W"
      "\<forall>p. truthy_str (w_payoutRef w) \<and> coll_find (\<lambda>p. p_payoutRef p = w_payoutRef w) (payouts W) = Some p
         \<longrightarrow> (p_status p = PSucceeded \<longrightarrow> w_status w = WCompleted) \<and> (p_status p = PFailed \<longrightarrow> w_status w = WFailed)"
  | (saved) p st n where "w' = w\<lparr>w_status := st, w_notes := n\<rparr>" "V = save_withdrawal w' W" "truthy_str (w_payoutRef w)"
      "coll_find (\<lambda>p. p_payoutRef p = w_payoutRef w) (payouts W) = Some p"
      "p_status p = PSucceeded \<and> st = WCompleted \<or> p_status p = PFailed \<and> st = WFailed"
proof (cases "truthy_str (w_payoutRef w) \<and> (\<exists>p. coll_find (\<lambda>p. p_payoutRef p = w_payoutRef w) (payouts W) = Some p
    \<and> (p_status p = PSucceeded \<and> w_status w \<noteq> WCompleted \<or> p_status p = PFailed \<and> w_status w \<noteq> WFailed))")
  case False
  then show thesis using assms by (intro same) (auto simp: syncWithdrawalStatus_def Let_def split: if_splits option.splits)
next
  case True
  then obtain p where p: "truthy_str (w_payoutRef w)" "coll_find (\<lambda>p. p_payoutRef p = w_payoutRef w) (payouts W) = Some p"
    "p_status p = PSucceeded \<and> w_status w \<noteq> WCompleted \<or> p_status p = PFailed \<and> w_status w \<noteq> WFailed" by blast
  from p(3) show thesis
  proof
    assume st: "p_status p = PSucceeded \<and> w_status w \<noteq> WCompleted"
    show thesis by (rule saved [where st = WCompleted and n = "Some B2CCompleted", OF _ _ p(1,2)])
      (use assms p st in \<open>auto simp: syncWithdrawalStatus_def Let_def\<close>)
  next
    assume st: "p_status p = PFailed \<and> w_status w \<noteq> WFailed"
    show thesis by (rule saved [where st = WFailed and n = "Some (msg_or (map_option Ext (p_payoutError p)) B2CFailed)", OF _ _ p(1,2)])
      (use assms p st in \<open>auto simp: syncWithdrawalStatus_def Let_def\<close>)
  qed
qed

text \<open>
  looking at the status brings the withdrawal in line with its payout: afterwards it is completed
  or failed exactly as the payout is, the answer shows the stored status, a second look changes
  nothing more, and no payout and nothing outside is touched.
\<close>

theorem withdraw_status_sync:
  assumes "withdrawStatus i W = (Some a, W')"
  shows "payouts W' = payouts W \<and> outbox W' = outbox W \<and> withdrawStatus i W' = (Some a, W')
    \<and> (\<exists>w'. find_withdrawal i W' = Some w' \<and> wsu_status a = w_status w'
       \<and> (\<forall>p. truthy_str (w_payoutRef w') \<and> coll_find (\<lambda>p. p_payoutRef p = w_payoutRef w') (payouts W) = Some p
            \<longrightarrow> (p_status p = PSucceeded \<longrightarrow> w_status w' = WCompleted) \<and> (p_status p = PFailed \<longrightarrow> w_status w' = WFailed)))"
proof -
  from assms obtain w where w: "find_withdrawal i W = Some w" by (auto simp: withdrawStatus_def split: option.splits)
  obtain w' V where s: "syncWithdrawalStatus w W = (w', V)" by fastforce
  with assms w have a: "a = withdrawalSummary w'" "W' = V" by (simp_all add: withdrawStatus_def)
  note k = wddb.find_key [OF w]
  from s show ?thesis
  proof (cases rule: sync_withdrawal_cases)
    case same
    with a s w show ?thesis by (simp add: withdrawStatus_def withdrawalSummary_def)
  next
    case (saved p st n)
    have f: "find_withdrawal i V = Some w'" using saved(1,2) k wddb.save_present [OF w] by simp
    have "syncWithdrawalStatus w' V = (w', V)"
      using saved(3-5) unfolding syncWithdrawalStatus_def saved(1,2) by (auto simp: frame_simps)
    with f a saved show ?thesis by (auto simp: withdrawStatus_def withdrawalSummary_def frame_simps)
  qed
qed

text \<open>
  an initiated withdrawal is settled by the provider's callback: when the reference is new and
  names no other document, a reported success completes it and a reported failure fails it, and the
  payout record follows.
\<close>

theorem manual_withdrawal_settles:
  assumes "postWithdraw en b W = (WrInitiated i ref st, W')"
    and "find_withdrawal (wv_withdrawalId en) W = None" "find_payout (''withdrawal-'' @ wv_withdrawalId en) W = None"
    and "cb_ref cb = Some ref" "ref \<noteq> []" "\<forall>p \<in> set (payouts W). p_payoutRef p \<noteq> Some ref"
    and "\<forall>w \<in> set (withdrawals W). w_payoutRef w \<noteq> Some ref \<and> w_saleId w \<noteq> Some (''withdrawal-'' @ wv_withdrawalId en)
           \<and> w_withdrawalId w \<noteq> ''withdrawal-'' @ wv_withdrawalId en"
  shows "\<exists>w p. find_withdrawal (wv_withdrawalId en) (snd (handlePayoutCallback now cb W')) = Some w
    \<and> w_status w = (if result_code cb = 0 then WCompleted else WFailed)
    \<and> find_payout (''withdrawal-'' @ wv_withdrawalId en) (snd (handlePayoutCallback now cb W')) = Some p
    \<and> p_status p = (if result_code cb = 0 then PSucceeded else PFailed)"
  using assms(1-3)
proof (cases rule: postWithdraw_cases)
  case (paid ref' kes w p W2 W3)
  let ?sid = "''withdrawal-'' @ wv_withdrawalId en"
  have r: "ref' = ref" using paid(1) by simp
  have none: "coll_find (\<lambda>p. p_payoutRef p = Some ref) (payouts W) = None"
    using assms(6) by (simp add: coll_find_None)
  have fp: "coll_find (\<lambda>p. p_payoutRef p = Some ref) (payouts W') = Some p"
    using none paid(6,7) r by (simp add: coll_find_append)
  let ?p = "callback_payout now cb p"
  have kp: "p_saleId ?p = ?sid" "p_payoutRef ?p = Some ref" "p_status ?p = (if result_code cb = 0 then PSucceeded else PFailed)"
    using paid(7,9) r by (simp_all add: callback_payout_def)
  have pay: "coll_put p_saleId ?p (payouts W') = payouts W @ [?p]"
    unfolding paid(6) using assms(3) kp(1) paid(9) by (intro coll_put_new) (simp_all add: find_payout_def)
  have nw: "coll_find (payout_withdrawal_match ref ?p) (withdrawals W) = None"
    using assms(7) kp(1) by (simp add: coll_find_None payout_withdrawal_match_def)
  then have fw: "coll_find (payout_withdrawal_match ref ?p) (withdrawals W') = Some w"
    using paid(2,5) r by (simp add: coll_find_append payout_withdrawal_match_def)
  let ?w = "callback_withdrawal ref cb w"
  have kw: "w_withdrawalId ?w = wv_withdrawalId en" "w_status ?w = (if result_code cb = 0 then WCompleted else WFailed)"
    using paid(3) by (simp_all add: callback_withdrawal_def)
  have wd: "coll_put w_withdrawalId ?w (withdrawals W') = withdrawals W @ [?w]"
    unfolding paid(2) using assms(2) kw(1) paid(3) by (intro coll_put_new) (simp_all add: find_withdrawal_def)
  have h: "snd (handlePayoutCallback now cb W') = apply_callback now ref cb p W'"
    using assms(4,5) fp paid(8) by (simp add: handlePayoutCallback_def truthy_str_def terminal_payout_def)
  have "withdrawals (apply_callback now ref cb p W') = withdrawals W @ [?w] \<and> payouts (apply_callback now ref cb p W') = payouts W @ [?p]"
    using fw wd pay kp(1) by (auto simp: apply_callback_def Let_def frame_simps split: option.splits)
  with kw kp assms(2,3) show ?thesis unfolding h
    by (auto simp: find_withdrawal_def find_payout_def coll_find_append)
qed simp_all

section \<open>A concrete withdrawal\<close>

definition demo_withdraw :: withdraw_env where
  "demo_withdraw = \<lparr>wv_pay = demo_env, wv_address = (\<lambda>_. True), wv_phone = (\<lambda>_. True), wv_withdrawalId = ''w1'',
     wv_oid = ''o1'', wv_receiver = ''mallr''\<rparr>"

definition demo_withdraw_body :: withdraw_body where
  "demo_withdraw_body = \<lparr>wb_walletAddress = ''mall1'', wb_phone = ''254700000000'', wb_amountMlcns = 500, wb_amountKes = 500,
     wb_currency = None\<rparr>"

lemma demo_withdraw_paid:
  obtains W' where "postWithdraw demo_withdraw demo_withdraw_body empty_world = (WrInitiated ''w1'' ''REF'' WPayoutInitiated, W')"
proof -
  let ?W1 = "recordWithdrawLiquidityActivity 0 Withdraw_request_created (of_withdrawal (manual_withdrawal demo_withdraw demo_withdraw_body))
       (over\<lparr>o_status := Some ActPending\<rparr>) (create_withdrawal (manual_withdrawal demo_withdraw demo_withdraw_body) empty_world)"
  have t: "getSafaricomToken demo_env (b2cBreaker ?W1) = (Some ''tok'', b2cBreaker empty_world)"
    by (simp add: frame_simps demo_token)
  have c: "payout_configured (pe_cfg demo_env)" "checkPayoutLimits (pe_caps demo_env) (pe_now demo_env) (dailyPayout ?W1) 500 = LimitOk"
    by (simp_all add: demo_env_def payout_configured_def sf_live_def checkPayoutLimits_def truthy_num_def frame_simps)
  have "\<exists>W2. initiateB2CPayout demo_env ''254700000000'' 500 ''withdrawal-w1'' ?W1 = (B2COk ''REF'' 500, W2)"
    using c by (simp add: initiateB2CPayout_def Let_def demo_amount send_payment_def t demo_backoff truthy_str_def)
  then obtain W2 where i: "initiateB2CPayout demo_env ''254700000000'' 500 ''withdrawal-w1'' ?W1 = (B2COk ''REF'' 500, W2)" by blast
  note f = initiate_frame(2,3) [OF i]
  have "find_payout ''withdrawal-w1'' (save_withdrawal w W2) = None" for w
    using f by (simp add: find_payout_def frame_simps)
  then have "\<exists>W'. withdraw_paid demo_withdraw demo_withdraw_body (manual_withdrawal demo_withdraw demo_withdraw_body) ''withdrawal-w1'' ''REF'' 500 W2
      = (WrInitiated ''w1'' ''REF'' WPayoutInitiated, W')"
    by (simp add: withdraw_paid_def Let_def manual_withdrawal_def demo_withdraw_def)
  then show thesis using i that
    by (auto simp: postWithdraw_def demo_withdraw_def demo_withdraw_body_def withdraw_schema_def Let_def find_withdrawal_def
        manual_withdrawal_def demo_env_def)
qed

lemma demo_fresh: "find_withdrawal (wv_withdrawalId demo_withdraw) empty_world = None"
  "find_payout (''withdrawal-'' @ wv_withdrawalId demo_withdraw) empty_world = None"
  by (simp_all add: find_withdrawal_def find_payout_def)

theorem manual_withdrawal_outcome_witness:
  "\<exists>W' w. postWithdraw demo_withdraw demo_withdraw_body empty_world = (WrInitiated ''w1'' ''REF'' WPayoutInitiated, W')
     \<and> withdrawals W' = [w] \<and> w_status w = WPayoutInitiated"
proof -
  obtain W' where p: "postWithdraw demo_withdraw demo_withdraw_body empty_world = (WrInitiated ''w1'' ''REF'' WPayoutInitiated, W')"
    by (rule demo_withdraw_paid)
  from manual_withdrawal_outcome [OF p demo_fresh] p show ?thesis by auto
qed

theorem manual_withdrawal_settles_witness:
  "\<exists>W' w. postWithdraw demo_withdraw demo_withdraw_body empty_world = (WrInitiated ''w1'' ''REF'' WPayoutInitiated, W')
     \<and> find_withdrawal ''w1'' (snd (handlePayoutCallback 5 \<lparr>cb_ref = Some ''REF'', cb_code = Some 0, cb_desc = None\<rparr> W')) = Some w
     \<and> w_status w = WCompleted"
proof -
  obtain W' where p: "postWithdraw demo_withdraw demo_withdraw_body empty_world = (WrInitiated ''w1'' ''REF'' WPayoutInitiated, W')"
    by (rule demo_withdraw_paid)
  from manual_withdrawal_settles [OF p demo_fresh, of "\<lparr>cb_ref = Some ''REF'', cb_code = Some 0, cb_desc = None\<rparr>" 5] p
  show ?thesis by (auto simp: result_code_def or_else_def demo_withdraw_def)
qed

theorem withdraw_status_sync_witness:
  "\<exists>a W'. withdrawStatus ''WID'' (demo_payout_world\<lparr>withdrawals := [demo_wd\<lparr>w_withdrawalId := ''WID''\<rparr>]\<rparr>) = (Some a, W') \<and> outbox W' = []"
proof -
  let ?W = "demo_payout_world\<lparr>withdrawals := [demo_wd\<lparr>w_withdrawalId := ''WID''\<rparr>]\<rparr>"
  obtain x W' where x: "withdrawStatus ''WID'' ?W = (x, W')" by fastforce
  then obtain a where a: "x = Some a"
    by (auto simp: withdrawStatus_def find_withdrawal_def split: prod.splits)
  from withdraw_status_sync [OF x [unfolded a]] x a show ?thesis by (auto simp: demo_payout_world_def)
qed

end
