(* ===== verification/Reconciliation.thy ===== *)
theory Reconciliation
  imports BuyFlow
begin

text \<open>
  \<open>services/reconciliationService.js\<close>: finding the credited purchases whose liquidity could not be
  added, and retrying the addition. What the chain answers to the \<open>k\<close>-th retry of a run is
  \<open>rj_liq k\<close>; failures of the database are not modelled, but the validation of a new record is.
\<close>

definition DEFAULT_POOL_ID :: nat where "DEFAULT_POOL_ID = 2"

record recon_env =
  rj_now :: int
  rj_liq :: "nat \<Rightarrow> liq_env"

section \<open>Detection\<close>

definition failed_add :: "purchase \<Rightarrow> bool" where
  "failed_add q \<longleftrightarrow> q_status q = QCredited \<and> q_liquidityError q \<noteq> None \<and> q_txHash q \<noteq> None"

definition recon_of :: "purchase \<Rightarrow> recon" where
  "recon_of q = \<lparr>r_purchaseId = q_id q, r_quoteId = q_quoteId q, r_creditTxHash = the (q_txHash q),
     r_walletAddress = q_walletAddress q, r_mlcnsAmount = q_amount q, r_fiatAmount = q_fiatAmount q,
     r_reason = q_liquidityError q, r_status = RDetected, r_compensationTx = None, r_resolvedAt = None\<rparr>"

text \<open>
  The loop; creating a record with an empty required field throws, and then the whole detection
  answers the empty list although the records made before stay.
\<close>

fun detect_scan :: "purchase list \<Rightarrow> recon list \<Rightarrow> world \<Rightarrow> recon list \<times> world" where
  "detect_scan [] results W = (results, W)"
| "detect_scan (q # qs) results W =
     (case find_recon (q_id q) W of
        Some _ \<Rightarrow> detect_scan qs results W
      | None \<Rightarrow>
          if q_id q = [] \<or> q_txHash q = Some [] \<or> q_walletAddress q = [] then ([], W)
          else detect_scan qs (results @ [recon_of q]) (create_recon (recon_of q) W))"

definition detectFailedLiquidityAdds :: "world \<Rightarrow> recon list \<times> world" where
  "detectFailedLiquidityAdds W = detect_scan (filter failed_add (purchases W)) [] W"

section \<open>Compensation\<close>

definition recon_pool :: "purchase option \<Rightarrow> nat" where
  "recon_pool purchase = (case Option.bind purchase q_liquidityPoolId of None \<Rightarrow> DEFAULT_POOL_ID
     | Some i \<Rightarrow> if i = 0 then DEFAULT_POOL_ID else i)"

definition recon_activity :: "int \<Rightarrow> recon \<Rightarrow> purchase option \<Rightarrow> nat \<Rightarrow> liq_result \<Rightarrow> world \<Rightarrow> world" where
  "recon_activity now c purchase poolId result W =
     (case purchase of
        Some q \<Rightarrow> recordBuyLiquidityActivity now Liquidity_add_reconciled q
          (over\<lparr>o_status := Some ActSuccess, o_poolId := Some poolId, o_liquidityTxHash := Some (lq_txHash result),
                o_lpTokens := Some (fl (lq_lpTokens result))\<rparr>) W
      | None \<Rightarrow> recordLiquidityActivity
          \<lparr>a_flow = BuyFlow, a_stage = Liquidity_add_reconciled, a_status = ActSuccess, a_poolId = Some poolId,
           a_quoteId = Some (r_quoteId c), a_paymentId = None, a_withdrawalId = None, a_saleId = None, a_payoutRef = None,
           a_walletAddress = Some (r_walletAddress c), a_phone = None, a_currency = ''KES'',
           a_amountMlcns = r_mlcnsAmount c, a_fiatAmount = r_fiatAmount c, a_lpTokens = fl (lq_lpTokens result),
           a_creditTxHash = None, a_liquidityTxHash = Some (lq_txHash result), a_sellTxHash = None,
           a_burnTxHash = None, a_reason = None, a_recordedAt = now\<rparr> W)"

definition reconciled_purchase :: "nat \<Rightarrow> liq_result \<Rightarrow> purchase \<Rightarrow> purchase" where
  "reconciled_purchase poolId result q = q\<lparr>q_liquidityAdded := True, q_lpTokens := fl (lq_lpTokens result),
     q_liquidityPoolId := Some poolId, q_liquidityError := None\<rparr>"

text \<open>The answer is the resolved record, or nothing when it was skipped or the retry failed.\<close>

definition compensateFailedLiquidity :: "int \<Rightarrow> liq_env \<Rightarrow> recon \<Rightarrow> world \<Rightarrow> recon option \<times> world" where
  "compensateFailedLiquidity now liq c W =
     (if r_status c \<noteq> RDetected then (None, W)
      else let c1 = c\<lparr>r_status := RCompensating\<rparr>;
               W1 = save_recon c1 W;
               purchase = coll_find (\<lambda>q. q_id q = r_purchaseId c) (purchases W1);
               poolId = recon_pool purchase in
        case addLiquidityToPool liq poolId (ANum (r_mlcnsAmount c)) (ANum (r_fiatAmount c)) (r_walletAddress c) W1 of
          (Inr result, W2) \<Rightarrow>
            (let c2 = c1\<lparr>r_status := RResolved, r_compensationTx := Some (lq_txHash result), r_resolvedAt := Some now\<rparr>;
                 W3 = save_recon c2 W2;
                 purchase' = map_option (reconciled_purchase poolId result) purchase;
                 W4 = (case purchase' of None \<Rightarrow> W3 | Some q \<Rightarrow> save_purchase q W3)
             in (Some c2, recon_activity now c purchase' poolId result W4))
        | (Inl e, W2) \<Rightarrow>
            (None, save_recon (c1\<lparr>r_status := RPendingManual, r_reason := Some (Ext e), r_resolvedAt := None\<rparr>) W2))"

fun compensate_all :: "recon_env \<Rightarrow> nat \<Rightarrow> recon list \<Rightarrow> world \<Rightarrow> world" where
  "compensate_all en k [] W = W"
| "compensate_all en k (c # cs) W = compensate_all en (Suc k) cs (snd (compensateFailedLiquidity (rj_now en) (rj_liq en k) c W))"

text \<open>The answer is the number of detected failures.\<close>

definition runReconciliationJob :: "recon_env \<Rightarrow> world \<Rightarrow> nat \<times> world" where
  "runReconciliationJob en W =
     (let (detected, W1) = detectFailedLiquidityAdds W in (length detected, compensate_all en 0 detected W1))"

section \<open>Detection finds what has no record\<close>

definition recon_ok :: "purchase \<Rightarrow> bool" where
  "recon_ok q \<longleftrightarrow> q_id q \<noteq> [] \<and> q_txHash q \<noteq> Some [] \<and> q_walletAddress q \<noteq> []"

lemma recon_of_key [simp]: "r_purchaseId (recon_of q) = q_id q" "r_status (recon_of q) = RDetected"
  by (simp_all add: recon_of_def)

text \<open>The purchases without a record, as the loop meets them.\<close>

definition unrecorded :: "world \<Rightarrow> purchase list" where
  "unrecorded W = filter (\<lambda>q. failed_add q \<and> find_recon (q_id q) W = None) (purchases W)"

lemma detect_scan_step:
  assumes "\<forall>q \<in> set qs. recon_ok q" "distinct (map q_id qs)"
  shows "\<exists>W'. detect_scan qs results W = (results @ map recon_of (filter (\<lambda>q. find_recon (q_id q) W = None) qs), W')
    \<and> W' = W\<lparr>recons := recons W @ map recon_of (filter (\<lambda>q. find_recon (q_id q) W = None) qs)\<rparr>"
  using assms
proof (induction qs arbitrary: results W)
  case (Cons q qs)
  show ?case
  proof (cases "find_recon (q_id q) W")
    case None
    let ?W = "create_recon (recon_of q) W"
    have "find_recon (q_id p) ?W = find_recon (q_id p) W" if "p \<in> set qs" for p
      using that Cons.prems(2) recdb.find_create_other [of "q_id p" "recon_of q" W] by (auto simp: image_iff)
    then have e: "filter (\<lambda>q. find_recon (q_id q) ?W = None) qs = filter (\<lambda>q. find_recon (q_id q) W = None) qs"
      by (auto cong: filter_cong)
    have r: "recons ?W = recons W @ [recon_of q]" "?W = W\<lparr>recons := recons W @ [recon_of q]\<rparr>" by (simp_all add: create_recon_def)
    have "q_id q \<noteq> [] \<and> q_txHash q \<noteq> Some [] \<and> q_walletAddress q \<noteq> []" using Cons.prems(1) by (simp add: recon_ok_def)
    then show ?thesis using None Cons.IH [of "results @ [recon_of q]" ?W] Cons.prems e r by simp
  next
    case (Some c)
    then show ?thesis using Cons.IH [of results W] Cons.prems by simp
  qed
qed simp

lemma detect_result:
  assumes "\<forall>q \<in> set (purchases W). failed_add q \<longrightarrow> recon_ok q" "distinct (map q_id (purchases W))"
  shows "detectFailedLiquidityAdds W = (map recon_of (unrecorded W), W\<lparr>recons := recons W @ map recon_of (unrecorded W)\<rparr>)"
proof -
  have "distinct (map q_id (filter failed_add (purchases W)))" using assms(2) by (simp add: distinct_map_filter)
  then show ?thesis
    using detect_scan_step [of "filter failed_add (purchases W)" "[]" W] assms(1)
    by (simp add: detectFailedLiquidityAdds_def unrecorded_def conj_commute)
qed

lemma recon_present: "q \<in> set qs \<Longrightarrow> find_recon (q_id q) (W\<lparr>recons := recons W @ map recon_of qs\<rparr>) \<noteq> None"
proof
  assume "q \<in> set qs" "find_recon (q_id q) (W\<lparr>recons := recons W @ map recon_of qs\<rparr>) = None"
  then have "\<forall>c \<in> set (map recon_of qs). r_purchaseId c \<noteq> q_id q" "recon_of q \<in> set (map recon_of qs)"
    by (simp_all add: find_recon_def coll_find_None)
  then show False by fastforce
qed

text \<open>
  the detection answers, and stores, one record for each credited purchase with a liquidity error
  and no record, and leaves everything else alone; run again, it finds nothing more.
\<close>

theorem detection_exact:
  assumes "\<forall>q \<in> set (purchases W). failed_add q \<longrightarrow> recon_ok q" "distinct (map q_id (purchases W))"
  shows "detectFailedLiquidityAdds W = (map recon_of (unrecorded W), W\<lparr>recons := recons W @ map recon_of (unrecorded W)\<rparr>)
    \<and> detectFailedLiquidityAdds (snd (detectFailedLiquidityAdds W)) = ([], snd (detectFailedLiquidityAdds W))"
proof -
  note d = detect_result [OF assms]
  let ?W = "W\<lparr>recons := recons W @ map recon_of (unrecorded W)\<rparr>"
  have "find_recon (q_id q) ?W \<noteq> None" if "q \<in> set (purchases W)" "failed_add q" for q
  proof (cases "find_recon (q_id q) W")
    case None
    with that have "q \<in> set (unrecorded W)" by (simp add: unrecorded_def)
    then show ?thesis by (rule recon_present)
  next
    case (Some c)
    then show ?thesis by (simp add: find_recon_def coll_find_append)
  qed
  then have "unrecorded ?W = []" by (auto simp: unrecorded_def filter_empty_conv)
  then show ?thesis using d detect_result [of ?W] assms by simp
qed

section \<open>Compensation\<close>

definition is_add :: "effect \<Rightarrow> bool" where
  "is_add e = (case e of EAddLiquidity _ _ _ \<Rightarrow> True | _ \<Rightarrow> False)"

lemma add_liquidity_once:
  assumes "addLiquidityToPool en i x y u W = (r, W')"
  obtains (none) e where "r = Inl e" "outbox W' = outbox W"
  | (failed) e a b where "r = Inl e" "outbox W' = outbox W @ [EAddLiquidity i a b]"
  | (done_) l a b where "r = Inr l" "outbox W' = outbox W @ [EAddLiquidity i a b]"
  using assms by (cases rule: add_cases) (auto simp: frame_simps intro: that)

lemma add_liquidity_bound:
  assumes "addLiquidityToPool en i x y u W = (r, W')"
  shows "length (filter is_add (outbox W')) \<le> Suc (length (filter is_add (outbox W)))"
  using assms by (cases rule: add_liquidity_once) (simp_all add: is_add_def)

text \<open>What compensating one detected record does to the records.\<close>

lemma compensate_cases:
  assumes "compensateFailedLiquidity now liq c W = (r, W')" "r_status c = RDetected"
  obtains (resolved) c' l W3 where "r = Some c'" "r_status c' = RResolved" "r_compensationTx c' = Some (lq_txHash l)"
      "r_purchaseId c' = r_purchaseId c"
      "addLiquidityToPool liq (recon_pool (coll_find (\<lambda>q. q_id q = r_purchaseId c) (purchases W))) (ANum (r_mlcnsAmount c))
         (ANum (r_fiatAmount c)) (r_walletAddress c) (save_recon (c\<lparr>r_status := RCompensating\<rparr>) W) = (Inr l, W3)"
      "recons W' = coll_put r_purchaseId c' (recons W)" "outbox W' = outbox W3"
      "purchases W' = (case coll_find (\<lambda>q. q_id q = r_purchaseId c) (purchases W) of None \<Rightarrow> purchases W
         | Some q \<Rightarrow> coll_put q_quoteId (reconciled_purchase (recon_pool (Some q)) l q) (purchases W))"
  | (manual) c' e W3 where "r = None" "r_status c' = RPendingManual" "r_purchaseId c' = r_purchaseId c"
      "r_reason c' = Some (Ext e)"
      "addLiquidityToPool liq (recon_pool (coll_find (\<lambda>q. q_id q = r_purchaseId c) (purchases W))) (ANum (r_mlcnsAmount c))
         (ANum (r_fiatAmount c)) (r_walletAddress c) (save_recon (c\<lparr>r_status := RCompensating\<rparr>) W) = (Inl e, W3)"
      "recons W' = coll_put r_purchaseId c' (recons W)" "outbox W' = outbox W3" "purchases W' = purchases W"
proof -
  let ?W1 = "save_recon (c\<lparr>r_status := RCompensating\<rparr>) W"
  let ?p = "coll_find (\<lambda>q. q_id q = r_purchaseId c) (purchases W)"
  obtain x W2 where x: "addLiquidityToPool liq (recon_pool ?p) (ANum (r_mlcnsAmount c)) (ANum (r_fiatAmount c))
      (r_walletAddress c) ?W1 = (x, W2)" by fastforce
  have f: "purchases W2 = purchases W" "recons W2 = coll_put r_purchaseId (c\<lparr>r_status := RCompensating\<rparr>) (recons W)"
    using add_liquidity_frame [OF x] by (simp_all add: frame_simps)
  note d = assms(1) [unfolded compensateFailedLiquidity_def Let_def]
  show thesis
  proof (cases x)
    case (Inl e)
    let ?c = "c\<lparr>r_status := RPendingManual, r_reason := Some (Ext e), r_resolvedAt := None\<rparr>"
    from d x Inl assms(2) have "r = None" "W' = save_recon ?c W2" by (simp_all add: frame_simps)
    with f x Inl show thesis by (intro manual [of ?c e W2]) (simp_all add: frame_simps)
  next
    case (Inr l)
    let ?c = "c\<lparr>r_status := RResolved, r_compensationTx := Some (lq_txHash l), r_resolvedAt := Some now\<rparr>"
    from d x Inr assms(2) have r: "r = Some ?c" by (simp add: frame_simps)
    have o: "purchases (recon_activity now c p i l V) = purchases V" "recons (recon_activity now c p i l V) = recons V"
      "outbox (recon_activity now c p i l V) = outbox V" for p i V
      by (simp_all add: recon_activity_def frame_simps recordLiquidityActivity_def split: option.split)
    have "recons W' = coll_put r_purchaseId ?c (recons W)" "outbox W' = outbox W2"
      "purchases W' = (case ?p of None \<Rightarrow> purchases W
         | Some q \<Rightarrow> coll_put q_quoteId (reconciled_purchase (recon_pool (Some q)) l q) (purchases W))"
      using d x Inr assms(2) f by (auto simp: frame_simps o split: option.splits)
    with x Inr r show thesis by (intro resolved [of ?c l W2]) simp_all
  qed
qed

text \<open>
  compensating a detected record ends it as resolved or as waiting for a person, never between the
  two: it is resolved exactly when the retry added the liquidity, and then its purchase is marked so and
  its error cleared; otherwise the purchases are as before. The chain is asked at most once.
\<close>

theorem compensation_outcome:
  assumes "compensateFailedLiquidity now liq c W = (r, W')" "find_recon (r_purchaseId c) W = Some c" "r_status c = RDetected"
  shows "\<exists>c'. find_recon (r_purchaseId c) W' = Some c'
    \<and> length (filter is_add (outbox W')) \<le> Suc (length (filter is_add (outbox W)))
    \<and> (case r of
         Some c'' \<Rightarrow> c'' = c' \<and> r_status c' = RResolved \<and> r_compensationTx c' \<noteq> None
           \<and> (\<forall>q. coll_find (\<lambda>q. q_id q = r_purchaseId c) (purchases W) = Some q \<longrightarrow>
                (\<exists>q'. find_purchase (q_quoteId q) W' = Some q' \<and> q_liquidityAdded q' \<and> q_liquidityError q' = None))
       | None \<Rightarrow> r_status c' = RPendingManual \<and> purchases W' = purchases W)"
  using assms(1,3)
proof (cases rule: compensate_cases)
  case (resolved c' l W3)
  have "find_recon (r_purchaseId c) W' = Some c'"
    using assms(2) resolved(4,6) coll_find_put_same [of r_purchaseId c' "recons W"] by (simp add: find_recon_def)
  moreover have "\<exists>q'. find_purchase (q_quoteId q) W' = Some q' \<and> q_liquidityAdded q' \<and> q_liquidityError q' = None"
    if "coll_find (\<lambda>q. q_id q = r_purchaseId c) (purchases W) = Some q" for q
  proof -
    let ?q = "reconciled_purchase (recon_pool (Some q)) l q"
    have k: "q_quoteId ?q = q_quoteId q" by (simp add: reconciled_purchase_def)
    have "coll_find (\<lambda>x. q_quoteId x = q_quoteId q) (purchases W) \<noteq> None"
      using coll_find_Some [OF that] by (auto simp: coll_find_None)
    then have "find_purchase (q_quoteId q) W' = Some ?q"
      using coll_find_put_same [of q_quoteId ?q "purchases W"] resolved(8) that k by (simp add: find_purchase_def)
    then show ?thesis by (simp add: reconciled_purchase_def)
  qed
  moreover have "length (filter is_add (outbox W')) \<le> Suc (length (filter is_add (outbox W)))"
    using add_liquidity_bound [OF resolved(5)] resolved(7) by (simp add: frame_simps)
  ultimately show ?thesis using resolved by auto
next
  case (manual c' e W3)
  have "find_recon (r_purchaseId c) W' = Some c'"
    using assms(2) manual(3,6) coll_find_put_same [of r_purchaseId c' "recons W"] by (simp add: find_recon_def)
  moreover have "length (filter is_add (outbox W')) \<le> Suc (length (filter is_add (outbox W)))"
    using add_liquidity_bound [OF manual(5)] manual(7) by (simp add: frame_simps)
  ultimately show ?thesis using manual by auto
qed

section \<open>A run of the job\<close>

lemma compensate_recons:
  assumes "r_status c = RDetected"
  shows "\<exists>c'. recons (snd (compensateFailedLiquidity now liq c W)) = coll_put r_purchaseId c' (recons W)
    \<and> r_purchaseId c' = r_purchaseId c \<and> (r_status c' = RResolved \<or> r_status c' = RPendingManual)"
proof -
  obtain r W' where x: "compensateFailedLiquidity now liq c W = (r, W')" by fastforce
  then show ?thesis using assms
  proof (cases rule: compensate_cases)
    case (resolved c' l W3)
    then show ?thesis by (intro exI [of _ c']) (simp add: x)
  next
    case (manual c' e W3)
    then show ?thesis by (intro exI [of _ c']) (simp add: x)
  qed
qed

lemma compensate_find:
  assumes "r_status c = RDetected"
  shows "i \<noteq> r_purchaseId c \<Longrightarrow> find_recon i (snd (compensateFailedLiquidity now liq c W)) = find_recon i W"
    "find_recon (r_purchaseId c) W \<noteq> None \<Longrightarrow> \<exists>c'. find_recon (r_purchaseId c) (snd (compensateFailedLiquidity now liq c W)) = Some c'
       \<and> (r_status c' = RResolved \<or> r_status c' = RPendingManual)"
proof -
  obtain c' where c': "recons (snd (compensateFailedLiquidity now liq c W)) = coll_put r_purchaseId c' (recons W)"
    "r_purchaseId c' = r_purchaseId c" "r_status c' = RResolved \<or> r_status c' = RPendingManual"
    using compensate_recons [OF assms] by blast
  show "i \<noteq> r_purchaseId c \<Longrightarrow> find_recon i (snd (compensateFailedLiquidity now liq c W)) = find_recon i W"
    using c' by (simp add: find_recon_def coll_find_put_other)
  show "find_recon (r_purchaseId c) W \<noteq> None \<Longrightarrow> \<exists>c'. find_recon (r_purchaseId c) (snd (compensateFailedLiquidity now liq c W)) = Some c'
       \<and> (r_status c' = RResolved \<or> r_status c' = RPendingManual)"
    using c' coll_find_put_same [of r_purchaseId c' "recons W"] by (simp add: find_recon_def)
qed

lemma compensate_all_other:
  assumes "\<forall>c \<in> set cs. r_status c = RDetected \<and> r_purchaseId c \<noteq> i"
  shows "find_recon i (compensate_all en k cs W) = find_recon i W"
  using assms by (induction en k cs W rule: compensate_all.induct) (auto simp: compensate_find(1))

lemma compensate_all_ends:
  assumes "\<forall>c \<in> set cs. r_status c = RDetected \<and> find_recon (r_purchaseId c) W \<noteq> None" "distinct (map r_purchaseId cs)" "c \<in> set cs"
  shows "\<exists>c'. find_recon (r_purchaseId c) (compensate_all en k cs W) = Some c' \<and> (r_status c' = RResolved \<or> r_status c' = RPendingManual)"
  using assms
proof (induction en k cs W rule: compensate_all.induct)
  case (2 en k d cs W)
  let ?V = "snd (compensateFailedLiquidity (rj_now en) (rj_liq en k) d W)"
  have d: "r_status d = RDetected" using 2(2) by simp
  have keep: "find_recon (r_purchaseId x) ?V \<noteq> None" if "x \<in> set cs" for x
    using that 2(2,3) compensate_find(1) [OF d] by (auto simp: image_iff)
  show ?case
  proof (cases "c = d")
    case True
    have "\<forall>x \<in> set cs. r_status x = RDetected \<and> r_purchaseId x \<noteq> r_purchaseId d"
      using 2(2,3) by (auto simp: image_iff)
    then show ?thesis using True compensate_all_other compensate_find(2) [OF d] 2(2) by simp
  next
    case False
    then show ?thesis using 2 keep by simp
  qed
qed simp

lemma run_keeps_records:
  assumes "\<forall>q \<in> set (purchases W). failed_add q \<longrightarrow> recon_ok q" "distinct (map q_id (purchases W))" "find_recon i W = Some c"
  shows "find_recon i (snd (runReconciliationJob en W)) = Some c"
proof -
  have "\<forall>c \<in> set (map recon_of (unrecorded W)). r_status c = RDetected \<and> r_purchaseId c \<noteq> i"
    using assms(3) by (auto simp: unrecorded_def)
  then have "find_recon i (snd (runReconciliationJob en W)) = find_recon i (W\<lparr>recons := recons W @ map recon_of (unrecorded W)\<rparr>)"
    by (simp add: runReconciliationJob_def detect_result [OF assms(1,2)] compensate_all_other)
  then show ?thesis using assms(3) by (simp add: find_recon_def coll_find_append)
qed

text \<open>
  after a run, every failure it found is resolved or waits for a person, and every record that
  existed before is untouched.
\<close>

theorem reconciliation_run:
  assumes "runReconciliationJob en W = (n, W')"
    and "\<forall>q \<in> set (purchases W). failed_add q \<longrightarrow> recon_ok q" "distinct (map q_id (purchases W))"
  shows "n = length (unrecorded W)
    \<and> (\<forall>q \<in> set (unrecorded W). \<exists>c. find_recon (q_id q) W' = Some c \<and> (r_status c = RResolved \<or> r_status c = RPendingManual))
    \<and> (\<forall>i c. find_recon i W = Some c \<longrightarrow> find_recon i W' = Some c)"
proof -
  let ?cs = "map recon_of (unrecorded W)" and ?V = "W\<lparr>recons := recons W @ map recon_of (unrecorded W)\<rparr>"
  have r: "n = length (unrecorded W)" "W' = compensate_all en 0 ?cs ?V"
    using assms(1) detect_result [OF assms(2,3)] by (auto simp: runReconciliationJob_def)
  have st: "\<forall>c \<in> set ?cs. r_status c = RDetected \<and> find_recon (r_purchaseId c) ?V \<noteq> None"
    using recon_present [of _ "unrecorded W" W] by auto
  have "r_purchaseId \<circ> recon_of = q_id" by (simp add: fun_eq_iff)
  then have dist: "distinct (map r_purchaseId ?cs)" using assms(3) by (simp add: unrecorded_def distinct_map_filter)
  have "\<exists>c. find_recon (q_id q) W' = Some c \<and> (r_status c = RResolved \<or> r_status c = RPendingManual)"
    if "q \<in> set (unrecorded W)" for q
    using compensate_all_ends [OF st dist, of "recon_of q" en 0] that r(2) by simp
  moreover have "find_recon i W' = Some c" if "find_recon i W = Some c" for i c
    using run_keeps_records [OF assms(2,3) that, of en] assms(1) by simp
  ultimately show ?thesis using r(1) by blast
qed

text \<open>
  a liquidity addition that fails during a credit is never retried by the job: the credit itself
  stores the record, so the detection takes the purchase for handled and every later run leaves the
  record as detected.
\<close>

theorem failed_add_never_retried:
  assumes "handleReservedCredit en i w W = (BcOk tx None, W')" "tx \<noteq> []"
    and "find_purchase i W = Some q" "0 < q_fiatAmount q" "q_id q \<noteq> []" "distinct (map q_quoteId (purchases W))"
    and "\<forall>q \<in> set (purchases W'). failed_add q \<longrightarrow> recon_ok q" "distinct (map q_id (purchases W'))"
  shows "\<exists>c. find_recon (q_id q) (snd (runReconciliationJob en' W')) = Some c \<and> r_status c = RDetected"
proof -
  obtain q0 p W1 where c: "find_purchase i W = Some q0" "q_status q0 = QConfirmed" "p = q0\<lparr>q_status := QProcessing\<rparr>"
    "W1 = save_purchase p W" "find_purchase i W1 = Some p" "credit_finish en p W1 = (BcOk tx None, W')"
    by (rule handled_credit [OF assms(1,6)])
  have p: "q_id p = q_id q" "q_fiatAmount p = q_fiatAmount q" using c(1,3) assms(3) by simp_all
  from c(6) obtain r where r: "find_recon (q_id q) W' = Some r" "r_status r = RDetected"
    by (cases rule: finish_cases) (use assms(2,4,5) p in auto)
  have "find_recon (q_id q) (snd (runReconciliationJob en' W')) = Some r"
    using run_keeps_records [OF assms(7,8) r(1)] .
  with r(2) show ?thesis by blast
qed

section \<open>A concrete run\<close>

text \<open>A credited purchase whose addition failed; \<open>demo_broken\<close> is a pool operator without a key.\<close>

definition demo_failed :: purchase where
  "demo_failed = \<lparr>q_id = ''O1'', q_quoteId = ''Q1'', q_walletAddress = ''mall1'', q_amount = 1, q_fiatAmount = 4, q_currency = ''KES'',
     q_phone = ''254700000000'', q_status = QCredited, q_paymentId = None, q_paymentIds = [], q_mpesaRef = None, q_txHash = Some ''HASH'',
     q_liquidityAdded = False, q_lpTokens = 0, q_liquidityPoolId = None, q_liquidityError = Some (Ext ''down''), q_reason = None,
     q_createdAt = 0, q_expiresAt = 0\<rparr>"

definition demo_failed_world :: world where "demo_failed_world = demo_pool_world\<lparr>purchases := [demo_failed]\<rparr>"

definition demo_job :: recon_env where "demo_job = \<lparr>rj_now = 9, rj_liq = (\<lambda>_. demo_chain)\<rparr>"

lemma demo_failed_world: "purchases demo_failed_world = [demo_failed]" "recons demo_failed_world = []"
  "failed_add demo_failed" "recon_ok demo_failed" "unrecorded demo_failed_world = [demo_failed]"
  by (simp_all add: demo_failed_world_def demo_failed_def failed_add_def recon_ok_def unrecorded_def find_recon_def demo_pool_world_def)

theorem detection_exact_witness:
  "detectFailedLiquidityAdds (snd (detectFailedLiquidityAdds demo_failed_world)) = ([], snd (detectFailedLiquidityAdds demo_failed_world))
    \<and> fst (detectFailedLiquidityAdds demo_failed_world) = [recon_of demo_failed]"
proof -
  have "\<forall>q \<in> set (purchases demo_failed_world). failed_add q \<longrightarrow> recon_ok q" "distinct (map q_id (purchases demo_failed_world))"
    by (simp_all add: demo_failed_world)
  note d = detection_exact [OF this]
  show ?thesis
  proof
    show "detectFailedLiquidityAdds (snd (detectFailedLiquidityAdds demo_failed_world))
        = ([], snd (detectFailedLiquidityAdds demo_failed_world))" by (rule conjunct2 [OF d])
    show "fst (detectFailedLiquidityAdds demo_failed_world) = [recon_of demo_failed]"
      by (simp add: conjunct1 [OF d] demo_failed_world)
  qed
qed

theorem reconciliation_run_witness:
  "\<exists>n W' c. runReconciliationJob demo_job demo_failed_world = (n, W') \<and> n = 1 \<and> find_recon ''O1'' W' = Some c
     \<and> (r_status c = RResolved \<or> r_status c = RPendingManual)"
proof -
  obtain n W' where r: "runReconciliationJob demo_job demo_failed_world = (n, W')" by fastforce
  have i: "q_id demo_failed = ''O1''" by (simp add: demo_failed_def)
  from reconciliation_run [OF r] r show ?thesis by (auto simp: demo_failed_world i)
qed

theorem compensation_outcome_witness:
  "\<exists>r W' c'. compensateFailedLiquidity 9 demo_chain (recon_of demo_failed) (create_recon (recon_of demo_failed) demo_failed_world) = (r, W')
     \<and> find_recon ''O1'' W' = Some c' \<and> (r_status c' = RResolved \<or> r_status c' = RPendingManual)"
proof -
  let ?W = "create_recon (recon_of demo_failed) demo_failed_world"
  obtain r W' where c: "compensateFailedLiquidity 9 demo_chain (recon_of demo_failed) ?W = (r, W')" by fastforce
  have "find_recon (r_purchaseId (recon_of demo_failed)) ?W = Some (recon_of demo_failed)"
    by (simp add: find_recon_def frame_simps demo_failed_world)
  from compensation_outcome [OF c this] c show ?thesis by (auto simp: demo_failed_def split: option.splits)
qed

definition demo_broken :: buy_env where
  "demo_broken = demo_buy\<lparr>by_liq := demo_chain\<lparr>le_mnemonic := None\<rparr>\<rparr>"

lemma keyless_add: "le_mnemonic en = None \<Longrightarrow> addLiquidityToPool en i x y u W = (r, W') \<Longrightarrow> \<exists>e. r = Inl e"
  by (auto simp: addLiquidityToPool_def add_on_chain_def truthy_str_def Let_def split: if_splits option.splits sum.splits)

lemma keyless_credit:
  assumes "handleReservedCredit en i w W = (BcOk tx liq, W')" "le_mnemonic (by_liq en) = None"
  shows "liq = None"
  using assms
  by (auto simp: handleReservedCredit_def credit_check_def credit_finish_def credit_settle_def applyLiquidityAfterCredit_def Let_def
      split: option.splits prod.splits if_splits sum.splits dest!: keyless_add)

theorem failed_add_never_retried_witness:
  "\<exists>W' c. handleReservedCredit demo_broken ''Q1'' None (confirmed 5) = (BcOk ''HASH'' None, W')
     \<and> find_recon ''O1'' (snd (runReconciliationJob demo_job W')) = Some c \<and> r_status c = RDetected"
proof -
  have fe: "by_faucet demo_broken = demo_faucet False 5 NoRedis" "le_mnemonic (by_liq demo_broken) = None"
    by (simp_all add: demo_broken_def demo_buy_def)
  obtain liq W' where h: "handleReservedCredit demo_broken ''Q1'' None (confirmed 5) = (BcOk ''HASH'' liq, W')"
    by (rule demo_finish [of 5, OF _ _ fe(1)]) simp_all
  with keyless_credit [OF h fe(2)] have h': "handleReservedCredit demo_broken ''Q1'' None (confirmed 5) = (BcOk ''HASH'' None, W')" by simp
  let ?q = "demo_confirmed_purchase 5"
  have q: "find_purchase ''Q1'' (confirmed 5) = Some ?q" "q_id ?q = ''O1''" "q_fiatAmount ?q = 1" "q_walletAddress ?q = ''mall1''"
    "q_quoteId ?q = ''Q1''"
    by (simp_all add: find_purchase_def demo_confirmed new_purchase_def addPaymentIdToPurchase_def demo_reserve_body_def demo_buy_def fiat_amount_def)
  have d: "distinct (map q_quoteId (purchases (confirmed 5)))" by (simp add: demo_confirmed)
  obtain q0 p W1 where c: "find_purchase ''Q1'' (confirmed 5) = Some q0" "q_status q0 = QConfirmed" "p = q0\<lparr>q_status := QProcessing\<rparr>"
    "W1 = save_purchase p (confirmed 5)" "find_purchase ''Q1'' W1 = Some p" "credit_finish demo_broken p W1 = (BcOk ''HASH'' None, W')"
    by (rule handled_credit [OF h' d])
  have p: "q_id p = ''O1''" "q_walletAddress p = ''mall1''" "q_quoteId p = ''Q1''" "purchases W1 = [p]"
    using c(1,3,4) q by (simp_all add: demo_confirmed frame_simps)
  from c(6) obtain q' where "purchases W' = [q']" "q_id q' = ''O1''" "q_walletAddress q' = ''mall1''" "q_txHash q' = Some ''HASH''"
    by (cases rule: finish_cases) (use p in auto)
  then have "\<forall>q \<in> set (purchases W'). failed_add q \<longrightarrow> recon_ok q" "distinct (map q_id (purchases W'))"
    by (simp_all add: recon_ok_def)
  from failed_add_never_retried [OF h' _ q(1) _ _ d this, of demo_job] h' q(2,3) show ?thesis by auto
qed

end
