(* ===== verification/Badge.thy ===== *)
theory Badge
  imports BuyFlow
begin

text \<open>
  The badge purchase of \<open>routes/badge.js\<close> with the issuing transaction of \<open>services/badgeTxBuilder.js\<close>:
  reserve, prompt, callback, issue and status. It keeps its own documents and its own breaker; the
  prompt configuration and the shape of the callback are those of the purchase of MLCNS.
\<close>

section \<open>Documents and state\<close>

datatype badge_status = BPending | BPaymentInitiated | BConfirmed | BProcessing | BIssued | BFailed

record badge_purchase =
  bp_quoteId :: string
  bp_walletAddress :: string
  bp_phone :: string
  bp_fiatAmount :: num
  bp_currency :: string
  bp_status :: badge_status
  bp_paymentId :: "string option"
  bp_paymentIds :: "string list"
  bp_mpesaRef :: "string option"
  bp_badgeTxHash :: "string option"
  bp_reason :: "msg option"

text \<open>An issuance by purchase; its method and its badge type are constant on this path.\<close>

record badge_issuance =
  bi_userId :: "string option"
  bi_walletAddress :: string
  bi_txHash :: string

datatype badge_effect = BStk num string | BIssueTx string num | BNotify string

record badge_world =
  badges :: "badge_purchase list"
  issuances :: "badge_issuance list"
  badgeBreaker :: breaker
  badgeOutbox :: "badge_effect list"

definition find_badge :: "string \<Rightarrow> badge_world \<Rightarrow> badge_purchase option" where
  "find_badge i W = coll_find (\<lambda>d. bp_quoteId d = i) (badges W)"

definition save_badge :: "badge_purchase \<Rightarrow> badge_world \<Rightarrow> badge_world" where
  "save_badge d W = W\<lparr>badges := coll_put bp_quoteId d (badges W)\<rparr>"

definition create_badge :: "badge_purchase \<Rightarrow> badge_world \<Rightarrow> badge_world" where
  "create_badge d W = W\<lparr>badges := badges W @ [d]\<rparr>"

interpretation badgedb: document_store find_badge save_badge create_badge bp_quoteId
  by unfold_locales (auto simp: find_badge_def save_badge_def create_badge_def coll_find_append coll_find_put_same
    coll_find_put_other coll_put_same dest: coll_find_Some split: option.splits)

definition badge_emit :: "badge_effect \<Rightarrow> badge_world \<Rightarrow> badge_world" where
  "badge_emit e W = W\<lparr>badgeOutbox := badgeOutbox W @ [e]\<rparr>"

section \<open>The environment\<close>

text \<open>
  \<open>bd_prepare\<close>: the error of the steps before the broadcast (wallet, client, signature), if any;
  \<open>bd_saveFails\<close>, \<open>bd_userFails\<close>, \<open>bd_createFails\<close>: the database errors after a successful issue.
\<close>

record badge_env =
  bd_now :: int
  bd_stk :: stk_cfg
  bd_token :: "string + string option"
  bd_post :: "string + string option"
  bd_paymentId :: string
  bd_quoteId :: string
  bd_priceKes :: num
  bd_validAddress :: "string \<Rightarrow> bool"
  bd_mnemonic :: "string option"
  bd_prepare :: "string option"
  bd_gas :: "num option"
  bd_tx :: tx_env
  bd_user :: "string \<Rightarrow> string option"
  bd_saveFails :: "string option"
  bd_userFails :: "string option"
  bd_createFails :: "string option"

section \<open>Reserving\<close>

definition badge_reserve_schema :: "badge_env \<Rightarrow> string \<Rightarrow> string \<Rightarrow> bool" where
  "badge_reserve_schema en wallet phone = (bd_validAddress en wallet \<and> valid_phone phone)"

definition new_badge :: "badge_env \<Rightarrow> string \<Rightarrow> string \<Rightarrow> badge_purchase" where
  "new_badge en wallet phone = \<lparr>bp_quoteId = bd_quoteId en, bp_walletAddress = wallet, bp_phone = phone,
     bp_fiatAmount = bd_priceKes en, bp_currency = ''KES'', bp_status = BPending, bp_paymentId = None,
     bp_paymentIds = [], bp_mpesaRef = None, bp_badgeTxHash = None, bp_reason = None\<rparr>"

datatype badge_reserve_resp = BrInvalid | BrFailed string | BrOk string num

definition badgeReserve :: "badge_env \<Rightarrow> string \<Rightarrow> string \<Rightarrow> badge_world \<Rightarrow> badge_reserve_resp \<times> badge_world" where
  "badgeReserve en wallet phone W =
     (if \<not> badge_reserve_schema en wallet phone then (BrInvalid, W)
      else if find_badge (bd_quoteId en) W \<noteq> None then (BrFailed ''E11000 duplicate key'', W)
      else (BrOk (bd_quoteId en) (bd_priceKes en), create_badge (new_badge en wallet phone) W))"

section \<open>The payment prompt\<close>

definition badge_getSafaricomToken :: "badge_env \<Rightarrow> breaker \<Rightarrow> (string + string option) \<times> breaker" where
  "badge_getSafaricomToken en b =
     (if \<not> isStkConfigured (bd_stk en) then (Inr None, b)
      else case breaker_execute (bd_now en) (bd_now en) (bd_token en) b of
        (Inl (Thrown e), b') \<Rightarrow> (Inl e, b')
      | (Inl ServiceUnavailable, b') \<Rightarrow> (Inl ''Circuit breaker is OPEN. Service unavailable.'', b')
      | (Inr t, b') \<Rightarrow> (if truthy_str t then Inr t else Inl ''No access token from Safaricom'', b'))"

definition badge_addPaymentId :: "string \<Rightarrow> badge_purchase \<Rightarrow> badge_purchase" where
  "badge_addPaymentId i p = p\<lparr>bp_paymentIds := (if i \<in> set (bp_paymentIds p) then bp_paymentIds p else bp_paymentIds p @ [i]),
     bp_paymentId := Some i\<rparr>"

datatype badge_prompt_resp = BmInvalid | BmNotFound | BmUnconfigured string | BmFailed string | BmSent string

text \<open>The prompt is sent whatever the status of the purchase is.\<close>

definition badge_initiateMpesaRequest :: "badge_env \<Rightarrow> badge_purchase \<Rightarrow> string \<Rightarrow> badge_world \<Rightarrow> badge_prompt_resp \<times> badge_world" where
  "badge_initiateMpesaRequest en p phone W =
     (if \<not> isStkConfigured (bd_stk en) then (BmUnconfigured ''Safaricom M-Pesa badge purchase is not configured yet'', W)
      else case badge_getSafaricomToken en (badgeBreaker W) of
        (Inl e, b) \<Rightarrow> (BmFailed e, W\<lparr>badgeBreaker := b\<rparr>)
      | (Inr None, b) \<Rightarrow> (BmUnconfigured ''Safaricom token could not be generated'', W\<lparr>badgeBreaker := b\<rparr>)
      | (Inr (Some _), b) \<Rightarrow>
          (let W1 = badge_emit (BStk (bp_fiatAmount p) phone) (W\<lparr>badgeBreaker := b\<rparr>) in
           case bd_post en of Inl e \<Rightarrow> (BmFailed e, W1)
           | Inr checkoutId \<Rightarrow>
               (let paymentId = the (str_or checkoutId (Some (bd_paymentId en)));
                    p' = (badge_addPaymentId paymentId p)\<lparr>bp_status := BPaymentInitiated, bp_reason := Some StkSent\<rparr>
                in (BmSent paymentId, save_badge p' W1))))"

definition badgeMpesa :: "badge_env \<Rightarrow> string \<Rightarrow> string \<Rightarrow> badge_world \<Rightarrow> badge_prompt_resp \<times> badge_world" where
  "badgeMpesa en quoteId phone W =
     (if \<not> (quoteId \<noteq> [] \<and> valid_phone phone) then (BmInvalid, W)
      else case find_badge quoteId W of None \<Rightarrow> (BmNotFound, W)
      | Some p \<Rightarrow> badge_initiateMpesaRequest en p phone W)"

section \<open>The callback\<close>

definition badge_by_payment :: "string \<Rightarrow> badge_purchase \<Rightarrow> bool" where
  "badge_by_payment i p = (bp_paymentId p = Some i \<or> i \<in> set (bp_paymentIds p))"

text \<open>The callback writes the status of the purchase whatever it is.\<close>

definition badge_callback_doc :: "stk_callback \<Rightarrow> badge_purchase \<Rightarrow> badge_purchase" where
  "badge_callback_doc cb p =
     (if or_else (sc_resultCode cb) 1 = 0
      then p\<lparr>bp_status := BConfirmed, bp_reason := Some PaymentConfirmed,
             bp_mpesaRef := str_or (map_of (rev (sc_items cb)) ''MpesaReceiptNumber'') (bp_mpesaRef p)\<rparr>
      else p\<lparr>bp_status := BFailed, bp_reason := Some PaymentFailed\<rparr>)"

definition badge_processMpesaCallback :: "stk_callback \<Rightarrow> badge_world \<Rightarrow> nat \<times> badge_world" where
  "badge_processMpesaCallback cb W =
     (let paymentId = callback_payment_id cb in
      if paymentId = [] then (1, W)
      else case coll_find (badge_by_payment paymentId) (badges W) of None \<Rightarrow> (0, W)
      | Some p \<Rightarrow> (0, save_badge (badge_callback_doc cb p) W))"

section \<open>Issuing\<close>

text \<open>The gas of the transaction: half as much again as the estimate, capped.\<close>

definition badge_gas :: "num option \<Rightarrow> num" where
  "badge_gas est = min (js_ceil (js_mul (or_else est 200000) (fl (15 / 10)))) 400000"

definition badge_broadcastSignedTx :: "tx_env \<Rightarrow> string + string" where
  "badge_broadcastSignedTx tx = builder_broadcast tx"

definition issueBadgeFromMnemonic :: "badge_env \<Rightarrow> string \<Rightarrow> string \<Rightarrow> badge_world \<Rightarrow> (string + string) \<times> badge_world" where
  "issueBadgeFromMnemonic en mnemonic recipient W =
     (if mnemonic = [] then (Inl ''Missing mnemonic for badge issuer'', W)
      else if recipient = [] then (Inl ''Missing recipient address'', W)
      else case bd_prepare en of Some e \<Rightarrow> (Inl e, W)
      | None \<Rightarrow> (badge_broadcastSignedTx (bd_tx en), badge_emit (BIssueTx recipient (badge_gas (bd_gas en))) W))"

datatype badge_issue_resp =
    BiInvalid | BiNotFound | BiMismatch | BiAlready "string option" | BiNotConfirmed badge_status | BiBusy
  | BiUnconfigured | BiFailed string | BiOk string

fun badge_issue_code :: "badge_issue_resp \<Rightarrow> nat" where
  "badge_issue_code BiInvalid = 400"
| "badge_issue_code BiNotFound = 404"
| "badge_issue_code BiMismatch = 400"
| "badge_issue_code (BiAlready _) = 200"
| "badge_issue_code (BiNotConfirmed _) = 400"
| "badge_issue_code BiBusy = 409"
| "badge_issue_code BiUnconfigured = 503"
| "badge_issue_code (BiFailed _) = 500"
| "badge_issue_code (BiOk _) = 200"

definition badge_check :: "badge_purchase option \<Rightarrow> string option \<Rightarrow> badge_issue_resp option" where
  "badge_check current walletAddress =
     (case current of None \<Rightarrow> Some BiNotFound
      | Some p \<Rightarrow>
          if truthy_str walletAddress \<and> the walletAddress \<noteq> bp_walletAddress p then Some BiMismatch
          else if bp_status p = BIssued then Some (BiAlready (bp_badgeTxHash p))
          else if bp_status p \<noteq> BConfirmed then Some (BiNotConfirmed (bp_status p)) else None)"

definition badge_claim :: "string \<Rightarrow> badge_world \<Rightarrow> badge_purchase option \<times> badge_world" where
  "badge_claim quoteId W =
     (case coll_find (\<lambda>p. bp_quoteId p = quoteId \<and> bp_status p = BConfirmed) (badges W) of
        None \<Rightarrow> (None, W)
      | Some p \<Rightarrow> (let p' = p\<lparr>bp_status := BProcessing\<rparr> in (Some p', save_badge p' W)))"

text \<open>What follows a successful issue, up to the first database error.\<close>

definition badge_record :: "badge_env \<Rightarrow> badge_purchase \<Rightarrow> string \<Rightarrow> badge_world \<Rightarrow> string option \<times> badge_world" where
  "badge_record en p txHash W =
     (case bd_saveFails en of Some e \<Rightarrow> (Some e, W)
      | None \<Rightarrow>
          (let W1 = save_badge p W in
           case bd_userFails en of Some e \<Rightarrow> (Some e, W1)
           | None \<Rightarrow>
               (case bd_createFails en of Some e \<Rightarrow> (Some e, W1)
                | None \<Rightarrow>
                    (let user = bd_user en (bp_walletAddress p);
                         W2 = W1\<lparr>issuances := issuances W1 @ [\<lparr>bi_userId = user, bi_walletAddress = bp_walletAddress p, bi_txHash = txHash\<rparr>]\<rparr>
                     in (None, (case user of None \<Rightarrow> W2 | Some u \<Rightarrow> badge_emit (BNotify u) W2))))))"

definition badge_finish :: "badge_env \<Rightarrow> badge_purchase \<Rightarrow> badge_world \<Rightarrow> badge_issue_resp \<times> badge_world" where
  "badge_finish en p W =
     (if \<not> truthy_str (bd_mnemonic en) then (BiUnconfigured, save_badge (p\<lparr>bp_status := BConfirmed\<rparr>) W)
      else case issueBadgeFromMnemonic en (the (bd_mnemonic en)) (bp_walletAddress p) W of
        (Inl e, W1) \<Rightarrow> (BiFailed e, save_badge (p\<lparr>bp_status := BConfirmed, bp_reason := Some (Ext e)\<rparr>) W1)
      | (Inr txHash, W1) \<Rightarrow>
          (let p1 = p\<lparr>bp_status := BIssued, bp_badgeTxHash := Some txHash\<rparr> in
           case badge_record en p1 txHash W1 of
             (None, W2) \<Rightarrow> (BiOk txHash, W2)
           | (Some e, W2) \<Rightarrow> (BiFailed e, save_badge (p1\<lparr>bp_status := BConfirmed, bp_reason := Some (Ext e)\<rparr>) W2)))"

definition badgeIssue :: "badge_env \<Rightarrow> string \<Rightarrow> string option \<Rightarrow> badge_world \<Rightarrow> badge_issue_resp \<times> badge_world" where
  "badgeIssue en quoteId walletAddress W =
     (if quoteId = [] \<or> (\<exists>a. walletAddress = Some a \<and> \<not> bd_validAddress en a) then (BiInvalid, W)
      else case badge_check (find_badge quoteId W) walletAddress of Some r \<Rightarrow> (r, W)
      | None \<Rightarrow>
          (case badge_claim quoteId W of (None, W1) \<Rightarrow> (BiBusy, W1)
           | (Some p, W1) \<Rightarrow> badge_finish en p W1))"

section \<open>Looking at a purchase\<close>

record badge_view =
  bv_quoteId :: string
  bv_status :: badge_status
  bv_fiatAmount :: num
  bv_badgeTxHash :: "string option"
  bv_reason :: "msg option"

definition badgeStatus :: "string \<Rightarrow> badge_world \<Rightarrow> badge_view option" where
  "badgeStatus quoteId W = map_option (\<lambda>p. \<lparr>bv_quoteId = bp_quoteId p, bv_status = bp_status p,
     bv_fiatAmount = bp_fiatAmount p, bv_badgeTxHash = str_or (bp_badgeTxHash p) None,
     bv_reason = bp_reason p\<rparr>) (find_badge quoteId W)"

definition badgeConfig :: "badge_env \<Rightarrow> num \<times> bool" where
  "badgeConfig en = (bd_priceKes en, isStkConfigured (bd_stk en))"

section \<open>What a request does\<close>

lemma badge_frame [simp]:
  "badges (badge_emit e W) = badges W" "badgeOutbox (badge_emit e W) = badgeOutbox W @ [e]"
  "badges (save_badge d W) = coll_put bp_quoteId d (badges W)" "badgeOutbox (save_badge d W) = badgeOutbox W"
  "badges (create_badge d W) = badges W @ [d]" "badgeOutbox (create_badge d W) = badgeOutbox W"
  "issuances (badge_emit e W) = issuances W" "issuances (save_badge d W) = issuances W"
  by (simp_all add: badge_emit_def save_badge_def create_badge_def)

definition is_issue :: "badge_effect \<Rightarrow> bool" where
  "is_issue e = (case e of BIssueTx _ _ \<Rightarrow> True | _ \<Rightarrow> False)"

definition issues :: "badge_world \<Rightarrow> nat" where "issues W = length (filter is_issue (badgeOutbox W))"

lemma issues_simps [simp]:
  "issues (badge_emit e W) = issues W + (if is_issue e then 1 else 0)" "issues (save_badge d W) = issues W"
  "issues (create_badge d W) = issues W" "is_issue (BStk a p) = False" "is_issue (BNotify u) = False" "is_issue (BIssueTx r g)"
  "issues (W\<lparr>issuances := x\<rparr>) = issues W"
  by (simp_all add: issues_def is_issue_def)

text \<open>The prompt saves at most the purchase it is for, as initiated, and sends at most one prompt for its price.\<close>

lemma badge_prompt_cases:
  assumes "badgeMpesa en i ph W = (r, W')"
  obtains (same) "badges W' = badges W" "badgeOutbox W' = badgeOutbox W"
  | (unsent) p where "find_badge i W = Some p" "badges W' = badges W" "badgeOutbox W' = badgeOutbox W @ [BStk (bp_fiatAmount p) ph]"
  | (sent) p p' where "find_badge i W = Some p" "bp_quoteId p' = i" "bp_status p' = BPaymentInitiated" "bp_fiatAmount p' = bp_fiatAmount p"
      "badges W' = coll_put bp_quoteId p' (badges W)" "badgeOutbox W' = badgeOutbox W @ [BStk (bp_fiatAmount p) ph]"
proof -
  note d = assms [unfolded badgeMpesa_def]
  show thesis
  proof (cases "i \<noteq> [] \<and> valid_phone ph \<and> (\<exists>p. find_badge i W = Some p)")
    case False
    with d show thesis by (intro same) (auto split: if_splits option.splits)
  next
    case True
    then obtain p where p: "find_badge i W = Some p" by blast
    have k: "bp_quoteId p = i" by (rule badgedb.find_key [OF p])
    have d': "badge_initiateMpesaRequest en p ph W = (r, W')" using d True p by simp
    obtain t b where t: "badge_getSafaricomToken en (badgeBreaker W) = (t, b)" by fastforce
    note e = d' [unfolded badge_initiateMpesaRequest_def t prod.case]
    show thesis
    proof (cases "isStkConfigured (bd_stk en) \<and> (\<exists>tok. t = Inr (Some tok))")
      case False
      with e show thesis by (intro same) (auto split: if_splits sum.splits option.splits)
    next
      case True
      then obtain tok where tok: "t = Inr (Some tok)" by blast
      show thesis
      proof (cases "bd_post en")
        case (Inl err)
        with e True tok p show thesis by (intro unsent) (auto simp: Let_def)
      next
        case (Inr c)
        let ?id = "the (str_or c (Some (bd_paymentId en)))"
        let ?p = "(badge_addPaymentId ?id p)\<lparr>bp_status := BPaymentInitiated, bp_reason := Some StkSent\<rparr>"
        show thesis
          by (rule sent [of p ?p]) (use e True tok Inr p k in \<open>auto simp: Let_def badge_addPaymentId_def\<close>)
      qed
    qed
  qed
qed

lemma badge_callback_cases:
  obtains (same) "snd (badge_processMpesaCallback cb W) = W"
  | (saved) p where "coll_find (badge_by_payment (callback_payment_id cb)) (badges W) = Some p"
      "snd (badge_processMpesaCallback cb W) = save_badge (badge_callback_doc cb p) W"
proof (cases "callback_payment_id cb = [] \<or> coll_find (badge_by_payment (callback_payment_id cb)) (badges W) = None")
  case True
  then show thesis by (intro same) (auto simp: badge_processMpesaCallback_def Let_def split: option.splits)
next
  case False
  then obtain p where "coll_find (badge_by_payment (callback_payment_id cb)) (badges W) = Some p" by blast
  with False show thesis by (intro saved [of p]) (simp_all add: badge_processMpesaCallback_def Let_def)
qed

text \<open>
  What the work after the claim does: one saved purchase (its last state), at most one issuing
  transaction, and a badge is recorded only after one.
\<close>

lemma badge_finish_cases:
  assumes "badge_finish en p W = (r, W')"
  obtains (unconfigured) "r = BiUnconfigured" "\<not> truthy_str (bd_mnemonic en)" "badges W' = coll_put bp_quoteId (p\<lparr>bp_status := BConfirmed\<rparr>) (badges W)"
      "badgeOutbox W' = badgeOutbox W" "issuances W' = issuances W"
  | (failed) e p' where "r = BiFailed e" "bp_quoteId p' = bp_quoteId p" "bp_status p' = BConfirmed"
      "badges W' = coll_put bp_quoteId p' (badges W)" "bp_reason p' = Some (Ext e)" "bp_fiatAmount p' = bp_fiatAmount p"
      "badgeOutbox W' = badgeOutbox W \<or> (\<exists>g. badgeOutbox W' = badgeOutbox W @ [BIssueTx (bp_walletAddress p) g])"
      "issuances W' = issuances W"
  | (issued) h g where "r = BiOk h"
      "badges W' = coll_put bp_quoteId (p\<lparr>bp_status := BIssued, bp_badgeTxHash := Some h\<rparr>) (badges W)"
      "badge_broadcastSignedTx (bd_tx en) = Inr h"
      "\<exists>ns. badgeOutbox W' = badgeOutbox W @ BIssueTx (bp_walletAddress p) g # ns \<and> (\<forall>n \<in> set ns. \<exists>u. n = BNotify u)"
      "issuances W' = issuances W @ [\<lparr>bi_userId = bd_user en (bp_walletAddress p), bi_walletAddress = bp_walletAddress p, bi_txHash = h\<rparr>]"
proof -
  note d = assms [unfolded badge_finish_def]
  show thesis
  proof (cases "truthy_str (bd_mnemonic en)")
    case False
    with d show thesis by (intro unconfigured) auto
  next
    case True
    let ?m = "the (bd_mnemonic en)"
    obtain x W1 where x: "issueBadgeFromMnemonic en ?m (bp_walletAddress p) W = (x, W1)" by fastforce
    have w: "W1 = W \<and> (\<exists>e. x = Inl e) \<or> (W1 = badge_emit (BIssueTx (bp_walletAddress p) (badge_gas (bd_gas en))) W
        \<and> x = badge_broadcastSignedTx (bd_tx en))"
      using x by (auto simp: issueBadgeFromMnemonic_def split: if_splits option.splits)
    show thesis
    proof (cases x)
      case (Inl e)
      let ?p = "p\<lparr>bp_status := BConfirmed, bp_reason := Some (Ext e)\<rparr>"
      from d True x Inl have r: "r = BiFailed e" "W' = save_badge ?p W1" by simp_all
      show thesis by (rule failed [of e ?p]) (use r w in auto)
    next
      case (Inr h)
      let ?p = "p\<lparr>bp_status := BIssued, bp_badgeTxHash := Some h\<rparr>"
      from w Inr have W1: "W1 = badge_emit (BIssueTx (bp_walletAddress p) (badge_gas (bd_gas en))) W"
        "badge_broadcastSignedTx (bd_tx en) = Inr h" by auto
      obtain z W2 where z: "badge_record en ?p h W1 = (z, W2)" by fastforce
      show thesis
      proof (cases z)
        case None
        with z have rec: "badges W2 = coll_put bp_quoteId ?p (badges W)" "issuances W2 = issuances W @
            [\<lparr>bi_userId = bd_user en (bp_walletAddress p), bi_walletAddress = bp_walletAddress p, bi_txHash = h\<rparr>]"
          "\<exists>ns. badgeOutbox W2 = badgeOutbox W @ BIssueTx (bp_walletAddress p) (badge_gas (bd_gas en)) # ns \<and> (\<forall>n \<in> set ns. \<exists>u. n = BNotify u)"
          using W1(1) by (auto simp: badge_record_def Let_def split: option.splits)
        from d True x Inr z None have "r = BiOk h" "W' = W2" by (simp_all add: Let_def)
        with rec W1(2) show thesis by (intro issued [of h "badge_gas (bd_gas en)"]) simp_all
      next
        case (Some e)
        let ?q = "?p\<lparr>bp_status := BConfirmed, bp_reason := Some (Ext e)\<rparr>"
        from d True x Inr z Some have r: "r = BiFailed e" "W' = save_badge ?q W2" by (simp_all add: Let_def)
        from z Some have rec: "badges W2 = badges W \<or> badges W2 = coll_put bp_quoteId ?p (badges W)"
          "badgeOutbox W2 = badgeOutbox W1" "issuances W2 = issuances W"
          using W1(1) by (auto simp: badge_record_def Let_def split: option.splits)
        then have "badges W' = coll_put bp_quoteId ?q (badges W)" using r by auto
        then show thesis using r rec W1 by (intro failed [of e ?q]) auto
      qed
    qed
  qed
qed

lemma badge_claim_cases:
  assumes "badge_claim i W = (Some p, W')" "distinct (map bp_quoteId (badges W))"
  obtains d where "find_badge i W = Some d" "bp_status d = BConfirmed" "p = d\<lparr>bp_status := BProcessing\<rparr>"
    "W' = save_badge p W" "bp_quoteId p = i" "find_badge i W' = Some p"
proof -
  from assms(1) obtain d where d: "coll_find (\<lambda>p. bp_quoteId p = i \<and> bp_status p = BConfirmed) (badges W) = Some d"
    "p = d\<lparr>bp_status := BProcessing\<rparr>" "W' = save_badge p W"
    by (auto simp: badge_claim_def Let_def split: option.splits)
  from coll_find_Some [OF d(1)] have m: "d \<in> set (badges W)" "bp_quoteId d = i" "bp_status d = BConfirmed" by auto
  have f: "find_badge i W = Some d"
    using coll_find_distinct [OF assms(2) m(1)] m(2) by (simp add: find_badge_def)
  have "find_badge i W' = Some p" using badgedb.find_save [of p W] f d m(2) by auto
  with d m f show thesis by (intro that) simp_all
qed

text \<open>The whole request, when it reaches the claim.\<close>

lemma badgeIssue_cases:
  assumes "badgeIssue en i w W = (r, W')" "distinct (map bp_quoteId (badges W))"
  obtains (refused) "W' = W" "\<forall>e. r \<noteq> BiFailed e" "\<forall>h. r \<noteq> BiOk h" "r \<noteq> BiUnconfigured"
  | (claimed) d p W1 where "find_badge i W = Some d" "bp_status d = BConfirmed" "p = d\<lparr>bp_status := BProcessing\<rparr>"
      "W1 = save_badge p W" "find_badge i W1 = Some p" "bp_quoteId p = i" "badge_finish en p W1 = (r, W')"
proof -
  note d = assms(1) [unfolded badgeIssue_def]
  show thesis
  proof (cases "\<not> (i = [] \<or> (\<exists>a. w = Some a \<and> \<not> bd_validAddress en a)) \<and> badge_check (find_badge i W) w = None
      \<and> (\<exists>p V. badge_claim i W = (Some p, V))")
    case False
    with d show thesis
      by (intro refused) (auto simp: badge_check_def badge_claim_def Let_def split: if_splits option.splits prod.splits)
  next
    case True
    then obtain p V where c: "badge_claim i W = (Some p, V)" by blast
    with d True have f: "badge_finish en p V = (r, W')" by simp
    from c assms(2) show thesis
    proof (rule badge_claim_cases)
      fix d assume "find_badge i W = Some d" "bp_status d = BConfirmed" "p = d\<lparr>bp_status := BProcessing\<rparr>"
        "V = save_badge p W" "bp_quoteId p = i" "find_badge i V = Some p"
      with f show thesis by (intro claimed) simp_all
    qed
  qed
qed

section \<open>Interleaved requests\<close>

text \<open>
  The state: the world, the purchases claimed and not finished, and the number of callbacks that
  reported a payment and of issues that failed. The price \<open>c\<close> is the configured one.
\<close>

type_synonym badge_state = "badge_world \<times> badge_purchase list \<times> nat"

inductive badge_step :: "num \<Rightarrow> badge_state \<Rightarrow> badge_state \<Rightarrow> bool" for c where
  reserve: "bd_priceKes en = c \<Longrightarrow> badge_step c (W, ps, k) (snd (badgeReserve en w ph W), ps, k)"
| prompt: "badge_step c (W, ps, k) (snd (badgeMpesa en i ph W), ps, k)"
| callback: "badge_step c (W, ps, k)
    (snd (badge_processMpesaCallback cb W), ps, if or_else (sc_resultCode cb) 1 = 0 then Suc k else k)"
| claim: "badge_claim i W = (Some p, W') \<Longrightarrow> badge_step c (W, ps, k) (W', p # ps, k)"
| finish: "p \<in> set ps \<Longrightarrow> badge_finish en p W = (r, W') \<Longrightarrow>
    badge_step c (W, ps, k) (W', remove1 p ps, if \<exists>e. r = BiFailed e then Suc k else k)"

definition is_confirmed :: "badge_purchase \<Rightarrow> bool" where "is_confirmed p \<longleftrightarrow> bp_status p = BConfirmed"

definition badge_inv :: "num \<Rightarrow> badge_state \<Rightarrow> bool" where
  "badge_inv c = (\<lambda>(W, ps, k). distinct (map bp_quoteId (badges W)) \<and> bp_quoteId ` set ps \<subseteq> bp_quoteId ` set (badges W)
     \<and> (\<forall>p \<in> set (badges W) \<union> set ps. bp_fiatAmount p = c) \<and> (\<forall>a ph. BStk a ph \<in> set (badgeOutbox W) \<longrightarrow> a = c)
     \<and> issues W + length (filter is_confirmed (badges W)) + length ps \<le> k)"

text \<open>Saving a purchase changes the number of confirmed ones by at most one.\<close>

lemma put_confirmed:
  assumes "bp_quoteId p' \<in> bp_quoteId ` set ds"
  obtains d where "d \<in> set ds" "bp_quoteId d = bp_quoteId p'"
    "length (filter is_confirmed (coll_put bp_quoteId p' ds)) + (if is_confirmed d then 1 else 0)
      = length (filter is_confirmed ds) + (if is_confirmed p' then 1 else 0)"
proof -
  have "coll_find (\<lambda>x. bp_quoteId x = bp_quoteId p') ds \<noteq> None" using assms by (auto simp: coll_find_None)
  then obtain d where d: "coll_find (\<lambda>x. bp_quoteId x = bp_quoteId p') ds = Some d" by blast
  from coll_find_Some [OF d] coll_put_count [OF d, of is_confirmed] show thesis by (intro that) auto
qed

lemma badge_inv_reserve:
  assumes "badge_inv c (W, ps, k)" "bd_priceKes en = c"
  shows "badge_inv c (snd (badgeReserve en w ph W), ps, k)"
proof (cases "badge_reserve_schema en w ph \<and> find_badge (bd_quoteId en) W = None")
  case True
  then have "bd_quoteId en \<notin> bp_quoteId ` set (badges W)" by (auto simp: find_badge_def coll_find_None)
  with True assms show ?thesis by (auto simp: badgeReserve_def badge_inv_def new_badge_def is_confirmed_def)
next
  case False
  then have "snd (badgeReserve en w ph W) = W" by (auto simp: badgeReserve_def)
  with assms(1) show ?thesis by simp
qed

lemma badge_inv_put:
  assumes inv: "badge_inv c (W, ps, k)" and W': "badges W' = coll_put bp_quoteId p' (badges W)"
    and key: "bp_quoteId p' \<in> bp_quoteId ` set (badges W)" and ps: "set ps' \<subseteq> set ps" and c: "bp_fiatAmount p' = c"
    and out: "\<forall>a ph. BStk a ph \<in> set (badgeOutbox W') \<longrightarrow> BStk a ph \<in> set (badgeOutbox W) \<or> a = c"
    and k: "issues W' + (if is_confirmed p' then 1 else 0) + length ps' + k \<le> issues W + length ps + k'"
  shows "badge_inv c (W', ps', k')"
proof -
  obtain d where d: "length (filter is_confirmed (coll_put bp_quoteId p' (badges W))) + (if is_confirmed d then 1 else 0)
      = length (filter is_confirmed (badges W)) + (if is_confirmed p' then 1 else 0)"
    by (rule put_confirmed [OF key])
  have "length (filter is_confirmed (badges W')) \<le> length (filter is_confirmed (badges W)) + (if is_confirmed p' then 1 else 0)"
    using d unfolding W' by linarith
  then have "issues W' + length (filter is_confirmed (badges W')) + length ps' \<le> k'"
    using inv k by (simp add: badge_inv_def)
  moreover have "map bp_quoteId (badges W') = map bp_quoteId (badges W)" unfolding W' by simp
  then have "bp_quoteId ` set (badges W') = bp_quoteId ` set (badges W)" by (metis set_map)
  moreover have "\<forall>p \<in> set (badges W'). bp_fiatAmount p = c"
    using inv c set_coll_put [of bp_quoteId p' "badges W"] unfolding W' by (auto simp: badge_inv_def)
  moreover have "bp_quoteId ` set ps' \<subseteq> bp_quoteId ` set (badges W)" "\<forall>p \<in> set ps'. bp_fiatAmount p = c"
    using inv ps by (auto simp: badge_inv_def)
  moreover have "\<forall>a ph. BStk a ph \<in> set (badgeOutbox W') \<longrightarrow> a = c" using inv out unfolding badge_inv_def prod.case by blast
  ultimately show ?thesis
    using inv \<open>map bp_quoteId (badges W') = _\<close> unfolding badge_inv_def prod.case by (metis Un_iff)
qed

lemma badge_inv_prompt:
  assumes inv: "badge_inv c (W, ps, k)"
  shows "badge_inv c (snd (badgeMpesa en i ph W), ps, k)"
proof -
  obtain r W' where m: "badgeMpesa en i ph W = (r, W')" by fastforce
  have mem: "p \<in> set (badges W)" "bp_quoteId p = i" "bp_fiatAmount p = c" if "find_badge i W = Some p" for p
    using coll_find_Some [OF that [unfolded find_badge_def]] inv by (auto simp: badge_inv_def)
  from m show ?thesis
  proof (cases rule: badge_prompt_cases)
    case same
    with inv show ?thesis by (simp add: m badge_inv_def issues_def)
  next
    case (unsent p)
    with inv mem(3) [OF unsent(1)] show ?thesis by (auto simp: m badge_inv_def issues_def)
  next
    case (sent p p')
    have "bp_quoteId p' \<in> bp_quoteId ` set (badges W)" using sent(2) mem(1,2) [OF sent(1)] by (auto intro: rev_image_eqI)
    then show ?thesis unfolding m snd_conv
      by (rule badge_inv_put [OF inv sent(5)])
        (use sent mem(3) [OF sent(1)] in \<open>auto simp: issues_def is_confirmed_def\<close>)
  qed
qed

lemma badge_inv_callback:
  assumes inv: "badge_inv c (W, ps, k)"
  shows "badge_inv c (snd (badge_processMpesaCallback cb W), ps, if or_else (sc_resultCode cb) 1 = 0 then Suc k else k)"
proof (cases rule: badge_callback_cases [of cb W])
  case same
  with inv show ?thesis by (auto simp: badge_inv_def)
next
  case (saved p)
  from coll_find_Some [OF saved(1)] have p: "p \<in> set (badges W)" by simp
  then have "bp_fiatAmount p = c" using inv by (simp add: badge_inv_def)
  then show ?thesis unfolding saved(2)
    by (intro badge_inv_put [OF inv, of _ "badge_callback_doc cb p"])
      (use p in \<open>auto simp: badge_callback_doc_def is_confirmed_def\<close>)
qed

lemma badge_inv_claim:
  assumes inv: "badge_inv c (W, ps, k)" and cl: "badge_claim i W = (Some p, W')"
  shows "badge_inv c (W', p # ps, k)"
proof -
  have dist: "distinct (map bp_quoteId (badges W))" using inv by (simp add: badge_inv_def)
  from cl dist obtain d where d: "find_badge i W = Some d" "bp_status d = BConfirmed" "p = d\<lparr>bp_status := BProcessing\<rparr>"
    "W' = save_badge p W" "bp_quoteId p = i" "find_badge i W' = Some p"
    by (rule badge_claim_cases)
  have f: "coll_find (\<lambda>x. bp_quoteId x = bp_quoteId p) (badges W) = Some d" using d(1,5) by (simp add: find_badge_def)
  have "length (filter is_confirmed (badges W')) + 1 = length (filter is_confirmed (badges W))"
    using coll_put_count [OF f, of is_confirmed] d(2-4) by (simp add: is_confirmed_def)
  moreover have "map bp_quoteId (badges W') = map bp_quoteId (badges W)" using d(4) by simp
  then have "bp_quoteId ` set (badges W') = bp_quoteId ` set (badges W)" by (metis set_map)
  moreover have "d \<in> set (badges W)" "bp_fiatAmount d = c" using coll_find_Some [OF f] inv by (auto simp: badge_inv_def)
  moreover have "\<forall>q \<in> set (badges W'). bp_fiatAmount q = c"
    using inv d(3,4) calculation set_coll_put [of bp_quoteId p "badges W"] by (auto simp: badge_inv_def)
  ultimately show ?thesis using inv d(3,4) \<open>map bp_quoteId (badges W') = _\<close> by (auto simp: badge_inv_def)
qed

lemma badge_inv_finish:
  assumes inv: "badge_inv c (W, ps, k)" and p: "p \<in> set ps" and f: "badge_finish en p W = (r, W')"
  shows "badge_inv c (W', remove1 p ps, if \<exists>e. r = BiFailed e then Suc k else k)"
proof -
  have len: "length ps = Suc (length (remove1 p ps))" using p by (simp add: length_remove1) (metis Suc_pred length_pos_if_in_set)
  have key: "bp_quoteId p \<in> bp_quoteId ` set (badges W)" and c: "bp_fiatAmount p = c" using inv p by (auto simp: badge_inv_def)
  have sub: "set (remove1 p ps) \<subseteq> set ps" by (rule set_remove1_subset)
  from f show ?thesis
  proof (cases rule: badge_finish_cases)
    case unconfigured
    show ?thesis by (rule badge_inv_put [OF inv unconfigured(3)])
      (use unconfigured key c len sub in \<open>auto simp: issues_def\<close>)
  next
    case (failed e p')
    show ?thesis by (rule badge_inv_put [OF inv failed(4)])
      (use failed key c len sub in \<open>auto simp: issues_def\<close>)
  next
    case (issued h g)
    then obtain ns where ns: "badgeOutbox W' = badgeOutbox W @ BIssueTx (bp_walletAddress p) g # ns" "\<forall>n \<in> set ns. \<exists>u. n = BNotify u" by blast
    have "filter is_issue ns = []" using ns(2) by (auto simp: filter_empty_conv)
    then have i: "issues W' = Suc (issues W)" by (simp add: issues_def ns(1))
    show ?thesis by (rule badge_inv_put [OF inv issued(2)])
      (use issued(1) key c len sub i ns in \<open>auto simp: is_confirmed_def\<close>)
  qed
qed

lemma badge_inv_step: "badge_step c s s' \<Longrightarrow> badge_inv c s \<Longrightarrow> badge_inv c s'"
proof (cases rule: badge_step.cases, assumption)
  fix W ps k cb
  assume "badge_inv c s" "s = (W, ps, k)"
    "s' = (snd (badge_processMpesaCallback cb W), ps, if or_else (sc_resultCode cb) 1 = 0 then Suc k else k)"
  then show "badge_inv c s'" by (simp only:) (rule badge_inv_callback)
next
  fix p ps en W r W' k
  assume "badge_inv c s" "s = (W, ps, k)" "s' = (W', remove1 p ps, if \<exists>e. r = BiFailed e then Suc k else k)"
    "p \<in> set ps" "badge_finish en p W = (r, W')"
  then show "badge_inv c s'" by (simp only:) (rule badge_inv_finish)
qed (auto intro: badge_inv_reserve badge_inv_prompt badge_inv_claim)

definition empty_badges :: badge_world where
  "empty_badges = \<lparr>badges = [], issuances = [], badgeBreaker = b2cBreaker empty_world, badgeOutbox = []\<rparr>"

text \<open>
  however the requests interleave, every payment prompt asks for the configured price, and the
  issuing transactions are never more than the callbacks that reported a payment and the issues that
  were answered as failed, taken together.
\<close>

theorem badge_issues_bounded:
  assumes "(badge_step c)\<^sup>*\<^sup>* (empty_badges, [], 0) (W, ps, k)"
  shows "issues W + length ps \<le> k \<and> (\<forall>a ph. BStk a ph \<in> set (badgeOutbox W) \<longrightarrow> a = c)"
proof -
  have "badge_inv c (empty_badges, [], 0)" by (simp add: badge_inv_def empty_badges_def issues_def)
  with assms have "badge_inv c (W, ps, k)" by (induction rule: rtranclp_induct) (auto intro: badge_inv_step)
  then show ?thesis by (simp add: badge_inv_def)
qed

text \<open>
  C35: a badge is answered as issued only for a confirmed purchase, after a transaction that the chain
  executed; then the purchase is issued with its hash, the issuance is on record, and a further request
  issues nothing.
\<close>

theorem badge_issue_sound:
  assumes "badgeIssue en i w W = (BiOk h, W')" "distinct (map bp_quoteId (badges W))"
  shows "\<exists>d d'. find_badge i W = Some d \<and> bp_status d = BConfirmed \<and> badge_broadcastSignedTx (bd_tx en) = Inr h
    \<and> find_badge i W' = Some d' \<and> bp_status d' = BIssued \<and> bp_badgeTxHash d' = Some h \<and> issues W' = Suc (issues W)
    \<and> (\<exists>u. issuances W' = issuances W @ [\<lparr>bi_userId = u, bi_walletAddress = bp_walletAddress d, bi_txHash = h\<rparr>])
    \<and> (\<forall>en' w'. snd (badgeIssue en' i w' W') = W')"
  using assms
proof (cases rule: badgeIssue_cases)
  case (claimed d p W1)
  from claimed(7) show ?thesis
  proof (cases rule: badge_finish_cases)
    case (issued h' g)
    then obtain ns where ns: "badgeOutbox W' = badgeOutbox W1 @ BIssueTx (bp_walletAddress p) g # ns" "\<forall>n \<in> set ns. \<exists>u. n = BNotify u" by blast
    have "filter is_issue ns = []" using ns(2) by (auto simp: filter_empty_conv)
    then have n: "issues W' = Suc (issues W)" using claimed(4) by (simp add: issues_def ns(1))
    let ?d = "p\<lparr>bp_status := BIssued, bp_badgeTxHash := Some h\<rparr>"
    have f: "find_badge i W' = Some ?d"
      using issued(1,2) claimed(5,6) coll_find_put_same [of bp_quoteId ?d "badges W1"] by (simp add: find_badge_def)
    then have "snd (badgeIssue en' i w' W') = W'" for en' w' by (simp add: badgeIssue_def badge_check_def)
    with f n issued claimed show ?thesis by auto
  qed simp_all
qed simp

text \<open>
  an issued badge is issued again. The callback does not look at the status, so a repeated
  delivery of the payment's own callback puts an issued purchase back to confirmed, and the next
  request sends a second issuing transaction for it.
\<close>

theorem badge_reissued_after_late_callback:
  assumes "find_badge i W = Some d" "bp_status d = BIssued" "i \<noteq> []" "bp_walletAddress d \<noteq> []"
    and "coll_find (badge_by_payment (callback_payment_id cb)) (badges W) = Some d" "callback_payment_id cb \<noteq> []"
    and "sc_resultCode cb = Some 0" "distinct (map bp_quoteId (badges W))"
    and "truthy_str (bd_mnemonic en)" "bd_prepare en = None"
  shows "issues (snd (badgeIssue en i None (snd (badge_processMpesaCallback cb W)))) = Suc (issues W)"
proof -
  let ?d = "badge_callback_doc cb d"
  let ?W = "save_badge ?d W"
  have k: "bp_quoteId d = i" by (rule badgedb.find_key [OF assms(1)])
  have d: "bp_quoteId ?d = i" "bp_status ?d = BConfirmed" "bp_walletAddress ?d = bp_walletAddress d"
    using k assms(7) by (simp_all add: badge_callback_doc_def or_else_def)
  have W: "snd (badge_processMpesaCallback cb W) = ?W" using assms(5,6) by (simp add: badge_processMpesaCallback_def Let_def)
  have f: "find_badge i ?W = Some ?d" using assms(1) d(1) badgedb.save_present [OF assms(1)] by simp
  have dist: "distinct (map bp_quoteId (badges ?W))" using assms(8) by simp
  have m: "?d \<in> set (badges ?W)" using coll_find_Some [OF f [unfolded find_badge_def]] by simp
  have "coll_find (\<lambda>p. bp_quoteId p = i \<and> bp_status p = BConfirmed) (badges ?W) \<noteq> None"
    using m d by (auto simp: coll_find_None)
  then obtain p V where c: "badge_claim i ?W = (Some p, V)" by (auto simp: badge_claim_def Let_def)
  from c dist have p: "bp_walletAddress p = bp_walletAddress d" "issues V = issues W"
    by (rule badge_claim_cases; use f d in simp)+
  obtain r W' where r: "badge_finish en p V = (r, W')" by fastforce
  have "snd (badgeIssue en i None ?W) = W'"
    using assms(3) f d(2) c r by (simp add: badgeIssue_def badge_check_def truthy_str_def)
  moreover have "issues W' = Suc (issues V)"
    using r assms(4,9,10) p
    by (auto simp: badge_finish_def issueBadgeFromMnemonic_def truthy_str_def badge_record_def Let_def
        split: sum.splits option.splits prod.splits)
  ultimately show ?thesis using W p(2) by simp
qed

section \<open>Witnesses\<close>

definition demo_badge :: "string option \<Rightarrow> badge_env" where
  "demo_badge saveErr = \<lparr>bd_now = 0, bd_stk = \<lparr>stk_key = ''k'', stk_secret = ''s'', stk_passkey = ''p'', stk_shortCode = ''1''\<rparr>,
     bd_token = Inr (Some ''tok''), bd_post = Inr (Some ''ws_1''), bd_paymentId = ''P1'', bd_quoteId = ''B1'', bd_priceKes = 500,
     bd_validAddress = (\<lambda>_. True), bd_mnemonic = Some ''m'', bd_prepare = None, bd_gas = None, bd_tx = demo_tx,
     bd_user = (\<lambda>_. Some ''U1''), bd_saveFails = saveErr, bd_userFails = None, bd_createFails = None\<rparr>"

definition demo_badge_doc :: "badge_status \<Rightarrow> badge_purchase" where
  "demo_badge_doc s = \<lparr>bp_quoteId = ''B1'', bp_walletAddress = ''mall1'', bp_phone = ''254700000000'', bp_fiatAmount = 500,
     bp_currency = ''KES'', bp_status = s, bp_paymentId = Some ''ws_1'', bp_paymentIds = [''ws_1''], bp_mpesaRef = None,
     bp_badgeTxHash = None, bp_reason = Some StkSent\<rparr>"

definition badge_with :: "badge_status \<Rightarrow> badge_world" where "badge_with s = empty_badges\<lparr>badges := [demo_badge_doc s]\<rparr>"

lemma badge_with_simps [simp]:
  "badges (badge_with s) = [demo_badge_doc s]" "badgeOutbox (badge_with s) = []" "issuances (badge_with s) = []"
  "find_badge ''B1'' (badge_with s) = Some (demo_badge_doc s)"
  "badge_by_payment ''ws_1'' (demo_badge_doc s)"
  "bp_status (demo_badge_doc s) = s" "bp_quoteId (demo_badge_doc s) = ''B1''" "bp_walletAddress (demo_badge_doc s) = ''mall1''"
  by (simp_all add: badge_with_def empty_badges_def find_badge_def demo_badge_doc_def badge_by_payment_def)

lemma demo_badge_issue:
  "\<exists>W'. badgeIssue (demo_badge None) ''B1'' None (badge_with BConfirmed) = (BiOk ''HASH'', W')"
  using demo_tx_ok
  by (simp add: badgeIssue_def badge_check_def badge_claim_def badge_finish_def issueBadgeFromMnemonic_def badge_record_def
      truthy_str_def demo_badge_def badge_broadcastSignedTx_def Let_def split: prod.splits option.splits)

theorem badge_issue_sound_witness:
  "\<exists>W' d'. badgeIssue (demo_badge None) ''B1'' None (badge_with BConfirmed) = (BiOk ''HASH'', W')
    \<and> find_badge ''B1'' W' = Some d' \<and> bp_status d' = BIssued \<and> issues W' = 1"
proof -
  obtain W' where h: "badgeIssue (demo_badge None) ''B1'' None (badge_with BConfirmed) = (BiOk ''HASH'', W')"
    using demo_badge_issue by blast
  have "distinct (map bp_quoteId (badges (badge_with BConfirmed)))" by simp
  from badge_issue_sound [OF h this] h show ?thesis by (auto simp: issues_def)
qed

theorem badge_reissued_after_late_callback_witness:
  "issues (snd (badgeIssue (demo_badge None) ''B1'' None (snd (badge_processMpesaCallback demo_stk_ok (badge_with BIssued))))) = 1"
proof -
  have "issues (snd (badgeIssue (demo_badge None) ''B1'' None (snd (badge_processMpesaCallback demo_stk_ok (badge_with BIssued)))))
      = Suc (issues (badge_with BIssued))"
    by (rule badge_reissued_after_late_callback [where d = "demo_badge_doc BIssued"])
      (simp_all add: callback_payment_id_def demo_stk_ok_def truthy_str_def demo_badge_def or_else_def)
  then show ?thesis by (simp add: issues_def)
qed

theorem badge_issues_bounded_witness:
  "issues (snd (badgeReserve (demo_badge None) ''mall1'' ''254700000000'' empty_badges)) = 0"
proof -
  let ?W = "snd (badgeReserve (demo_badge None) ''mall1'' ''254700000000'' empty_badges)"
  have "badge_step 500 (empty_badges, [], 0) (?W, [], 0)" by (rule badge_step.reserve) (simp add: demo_badge_def)
  from badge_issues_bounded [OF r_into_rtranclp [of "badge_step 500", OF this]] show ?thesis by simp
qed

end
