(* ===== verification/ProtoWire.thy ===== *)
theory ProtoWire
  imports Prelude "HOL-Library.Word"
begin

unbundle bit_operations_syntax

text \<open>
  The hand-written protobuf encoders of the chain messages: \<open>mlcoinProto.js\<close>, \<open>badgeProto.js\<close>,
  \<open>eduProto.js\<close> and \<open>dexProto.js\<close>. The four files repeat the same helpers, which stand here once. A
  string is the list of its UTF-16 code units, a byte a word of 8 bits, a \<open>BigInt\<close> an integer. The
  messages are read back by a reader of the wire format written from its specification.
\<close>

type_synonym jsstr = "16 word list"
type_synonym bytes = "8 word list"

section \<open>Text as UTF-8\<close>

text \<open>A number stored in a \<open>Uint8Array\<close>: its remainder modulo 256.\<close>

definition byte :: "int \<Rightarrow> 8 word" where "byte c = word_of_int c"

definition is_high :: "16 word \<Rightarrow> bool" where "is_high u \<longleftrightarrow> 0xD800 \<le> uint u \<and> uint u \<le> 0xDBFF"
definition is_low :: "16 word \<Rightarrow> bool" where "is_low u \<longleftrightarrow> 0xDC00 \<le> uint u \<and> uint u \<le> 0xDFFF"

definition unit_point :: "16 word \<Rightarrow> int" where
  "unit_point u = (if is_high u \<or> is_low u then 0xFFFD else uint u)"

definition pair_point :: "16 word \<Rightarrow> 16 word \<Rightarrow> int" where
  "pair_point u v = 0x10000 + (uint u - 0xD800) * 0x400 + (uint v - 0xDC00)"

text \<open>The code points of a string; a surrogate without its partner is replaced by U+FFFD.\<close>

fun code_points :: "jsstr \<Rightarrow> int list" where
  "code_points [] = []"
| "code_points [u] = [unit_point u]"
| "code_points (u # v # us) =
     (if is_high u \<and> is_low v then pair_point u v # code_points us else unit_point u # code_points (v # us))"

definition utf8_point :: "int \<Rightarrow> bytes" where
  "utf8_point c =
     (if c < 0x80 then [byte c]
      else if c < 0x800 then [byte (0xC0 + c div 64), byte (0x80 + c mod 64)]
      else if c < 0x10000 then
        [byte (0xE0 + c div 4096), byte (0x80 + c div 64 mod 64), byte (0x80 + c mod 64)]
      else [byte (0xF0 + c div 262144), byte (0x80 + c div 4096 mod 64),
            byte (0x80 + c div 64 mod 64), byte (0x80 + c mod 64)])"

definition utf8ToBytes :: "jsstr \<Rightarrow> bytes" where
  "utf8ToBytes s = concat (map utf8_point (code_points s))"

section \<open>Varints and fields\<close>

function encodeVarint :: "int \<Rightarrow> bytes" where
  "encodeVarint v =
     (if v > 0x7f then byte ((v AND 0x7f) OR 0x80) # encodeVarint (drop_bit 7 v) else [byte v])"
  by pat_completeness auto
termination
  by (relation "measure nat") (auto simp: drop_bit_eq_div)

declare encodeVarint.simps [simp del]

definition concatBytes :: "bytes list \<Rightarrow> bytes" where
  "concatBytes arrays = concat arrays"

definition field_tag :: "int \<Rightarrow> int \<Rightarrow> bytes" where
  "field_tag n wt = encodeVarint (push_bit 3 n OR wt)"

definition encode_len_field :: "int \<Rightarrow> bytes \<Rightarrow> bytes" where
  "encode_len_field n bs = concatBytes [field_tag n 2, encodeVarint (int (length bs)), bs]"

definition encodeStringField :: "int \<Rightarrow> jsstr \<Rightarrow> bytes" where
  "encodeStringField n s = encode_len_field n (utf8ToBytes s)"

definition encodeUint64Field :: "int \<Rightarrow> int \<Rightarrow> bytes" where
  "encodeUint64Field n v = concatBytes [field_tag n 0, encodeVarint v]"

section \<open>The messages\<close>

text \<open>A field of a message is \<open>None\<close> when it is \<open>undefined\<close> or \<open>null\<close>.\<close>

definition str_field :: "int \<Rightarrow> jsstr option \<Rightarrow> bytes list" where
  "str_field n s = (case s of None \<Rightarrow> [] | Some t \<Rightarrow> [encodeStringField n t])"

definition uint_field :: "int \<Rightarrow> int option \<Rightarrow> bytes list" where
  "uint_field n v = (case v of None \<Rightarrow> [] | Some i \<Rightarrow> [encodeUint64Field n i])"

text \<open>\<open>if (msg.f) parts.push(...)\<close>: the empty string is left out too.\<close>

definition truthy_field :: "int \<Rightarrow> jsstr option \<Rightarrow> bytes list" where
  "truthy_field n s = (case s of None \<Rightarrow> [] | Some t \<Rightarrow> if t = [] then [] else [encodeStringField n t])"

record transfer_msg =
  tm_creator :: "jsstr option"
  tm_amount :: "int option"
  tm_to :: "jsstr option"

definition encodeMsgTransferMallcoin :: "transfer_msg \<Rightarrow> bytes" where
  "encodeMsgTransferMallcoin msg =
     concatBytes (str_field 1 (tm_creator msg) @ uint_field 2 (tm_amount msg) @ str_field 3 (tm_to msg))"

definition or_empty :: "jsstr option \<Rightarrow> jsstr option" where
  "or_empty s = (case s of None \<Rightarrow> Some [] | Some t \<Rightarrow> Some t)"

definition transfer_create :: "transfer_msg \<Rightarrow> transfer_msg" where
  "transfer_create base = \<lparr>tm_creator = or_empty (tm_creator base),
     tm_amount = (case tm_amount base of None \<Rightarrow> Some 0 | Some a \<Rightarrow> Some a), tm_to = or_empty (tm_to base)\<rparr>"

record badge_msg =
  bm_creator :: "jsstr option"
  bm_recipient :: "jsstr option"
  bm_badgeType :: "jsstr option"

definition encodeMsgIssueBadge :: "badge_msg \<Rightarrow> bytes" where
  "encodeMsgIssueBadge msg = concatBytes (truthy_field 1 (bm_creator msg) @ truthy_field 2 (bm_recipient msg)
     @ truthy_field 3 (bm_badgeType msg))"

definition badge_create :: "badge_msg \<Rightarrow> badge_msg" where
  "badge_create base = \<lparr>bm_creator = or_empty (bm_creator base), bm_recipient = or_empty (bm_recipient base),
     bm_badgeType = or_empty (bm_badgeType base)\<rparr>"

record document_msg =
  dm_creator :: "jsstr option"
  dm_uploader :: "jsstr option"
  dm_docId :: "jsstr option"
  dm_sha256Hash :: "jsstr option"
  dm_parentRecordId :: "jsstr option"

definition encodeMsgRegisterDocument :: "document_msg \<Rightarrow> bytes" where
  "encodeMsgRegisterDocument msg = concatBytes (truthy_field 1 (dm_creator msg) @ truthy_field 2 (dm_uploader msg)
     @ truthy_field 3 (dm_docId msg) @ truthy_field 4 (dm_sha256Hash msg) @ truthy_field 5 (dm_parentRecordId msg))"

definition document_create :: "document_msg \<Rightarrow> document_msg" where
  "document_create base = \<lparr>dm_creator = or_empty (dm_creator base), dm_uploader = or_empty (dm_uploader base),
     dm_docId = or_empty (dm_docId base), dm_sha256Hash = or_empty (dm_sha256Hash base),
     dm_parentRecordId = or_empty (dm_parentRecordId base)\<rparr>"

text \<open>
  The messages of the exchange hold coins, encoded by \<open>Coin.encode\<close> of the \<open>cosmjs-types\<close> package: the
  parameter \<open>coin\<close>, a function of the denomination and the amount as text.
\<close>

record wire_coin =
  wc_denom :: jsstr
  wc_amount :: jsstr

type_synonym coin_encoder = "wire_coin \<Rightarrow> bytes"

definition encodeCoinField :: "coin_encoder \<Rightarrow> int \<Rightarrow> wire_coin \<Rightarrow> bytes" where
  "encodeCoinField coin n c = encode_len_field n (coin c)"

definition coin_field :: "coin_encoder \<Rightarrow> int \<Rightarrow> wire_coin option \<Rightarrow> bytes list" where
  "coin_field coin n c = (case c of None \<Rightarrow> [] | Some d \<Rightarrow> [encodeCoinField coin n d])"

definition encodeVarintField :: "int \<Rightarrow> int \<Rightarrow> bytes" where
  "encodeVarintField n v = concatBytes [field_tag n 0, encodeVarint v]"

definition pool_field :: "int \<Rightarrow> int option \<Rightarrow> bytes list" where
  "pool_field n v = (case v of None \<Rightarrow> [] | Some i \<Rightarrow> [encodeVarintField n i])"

record create_pool_msg =
  cp_creator :: "jsstr option"
  cp_tokenA :: "wire_coin option"
  cp_tokenB :: "wire_coin option"
  cp_fee :: "jsstr option"

definition encodeMsgCreatePool :: "coin_encoder \<Rightarrow> create_pool_msg \<Rightarrow> bytes" where
  "encodeMsgCreatePool coin msg = concatBytes (truthy_field 1 (cp_creator msg) @ coin_field coin 2 (cp_tokenA msg)
     @ coin_field coin 3 (cp_tokenB msg) @ truthy_field 4 (cp_fee msg))"

record add_liquidity_msg =
  al_provider :: "jsstr option"
  al_poolId :: "int option"
  al_tokenAAmount :: "wire_coin option"
  al_tokenBAmount :: "wire_coin option"

definition encodeMsgAddLiquidity :: "coin_encoder \<Rightarrow> add_liquidity_msg \<Rightarrow> bytes" where
  "encodeMsgAddLiquidity coin msg = concatBytes (truthy_field 1 (al_provider msg) @ pool_field 2 (al_poolId msg)
     @ coin_field coin 3 (al_tokenAAmount msg) @ coin_field coin 4 (al_tokenBAmount msg))"

record remove_liquidity_msg =
  rl_provider :: "jsstr option"
  rl_poolId :: "int option"
  rl_liquidityTokens :: "wire_coin option"

definition encodeMsgRemoveLiquidity :: "coin_encoder \<Rightarrow> remove_liquidity_msg \<Rightarrow> bytes" where
  "encodeMsgRemoveLiquidity coin msg = concatBytes (truthy_field 1 (rl_provider msg) @ pool_field 2 (rl_poolId msg)
     @ coin_field coin 3 (rl_liquidityTokens msg))"

record swap_msg =
  sm_sender :: "jsstr option"
  sm_poolId :: "int option"
  sm_tokenIn :: "wire_coin option"
  sm_tokenOutDenom :: "jsstr option"
  sm_minTokenOut :: "wire_coin option"

definition encodeMsgSwap :: "coin_encoder \<Rightarrow> swap_msg \<Rightarrow> bytes" where
  "encodeMsgSwap coin msg = concatBytes (truthy_field 1 (sm_sender msg) @ pool_field 2 (sm_poolId msg)
     @ coin_field coin 3 (sm_tokenIn msg) @ truthy_field 4 (sm_tokenOutDenom msg) @ coin_field coin 5 (sm_minTokenOut msg))"

section \<open>A reader of the wire format\<close>

fun read_varint :: "bytes \<Rightarrow> (int \<times> bytes) option" where
  "read_varint [] = None"
| "read_varint (b # bs) = (if uint b < 128 then Some (uint b, bs)
     else case read_varint bs of None \<Rightarrow> None | Some (v, rest) \<Rightarrow> Some (uint b - 128 + 128 * v, rest))"

datatype wire = WVarint int | WBytes bytes

definition read_field :: "bytes \<Rightarrow> ((int \<times> wire) \<times> bytes) option" where
  "read_field bs =
     (case read_varint bs of None \<Rightarrow> None
      | Some (t, r) \<Rightarrow>
          (case read_varint r of None \<Rightarrow> None
           | Some (v, r') \<Rightarrow>
               if t mod 8 = 0 then Some ((t div 8, WVarint v), r')
               else if t mod 8 = 2 \<and> v \<le> int (length r') then Some ((t div 8, WBytes (take (nat v) r')), drop (nat v) r')
               else None))"

lemma read_varint_shorter: "read_varint bs = Some (v, r) \<Longrightarrow> length r < length bs"
  by (induction bs arbitrary: v r) (fastforce simp: less_Suc_eq split: if_splits option.splits prod.splits)+

lemma read_field_shorter: "read_field bs = Some (f, r) \<Longrightarrow> length r < length bs"
  by (auto simp: read_field_def dest!: read_varint_shorter split: option.splits if_splits prod.splits)

function read_message :: "bytes \<Rightarrow> (int \<times> wire) list option" where
  "read_message bs = (if bs = [] then Some [] else case read_field bs of None \<Rightarrow> None
     | Some (f, r) \<Rightarrow> map_option ((#) f) (read_message r))"
  by pat_completeness auto
termination
  by (relation "measure length") (auto dest: read_field_shorter)

declare read_message.simps [simp del]

fun read_utf8 :: "bytes \<Rightarrow> int list option" where
  "read_utf8 [] = Some []"
| "read_utf8 (a # bs) =
     (if uint a < 0x80 then map_option ((#) (uint a)) (read_utf8 bs)
      else if uint a < 0xE0 then
        (case bs of b # r \<Rightarrow> map_option ((#) ((uint a - 0xC0) * 64 + (uint b - 0x80))) (read_utf8 r) | _ \<Rightarrow> None)
      else if uint a < 0xF0 then
        (case bs of b # c # r \<Rightarrow>
           map_option ((#) ((uint a - 0xE0) * 4096 + (uint b - 0x80) * 64 + (uint c - 0x80))) (read_utf8 r) | _ \<Rightarrow> None)
      else
        (case bs of b # c # d # r \<Rightarrow>
           map_option ((#) ((uint a - 0xF0) * 262144 + (uint b - 0x80) * 4096 + (uint c - 0x80) * 64 + (uint d - 0x80)))
             (read_utf8 r) | _ \<Rightarrow> None))"

text \<open>UTF-16 of a code point, and a string of a list of them.\<close>

definition utf16_point :: "int \<Rightarrow> jsstr" where
  "utf16_point c = (if c < 0x10000 then [word_of_int c]
     else [word_of_int (0xD800 + (c - 0x10000) div 0x400), word_of_int (0xDC00 + (c - 0x10000) mod 0x400)])"

definition read_text :: "bytes \<Rightarrow> jsstr option" where
  "read_text bs = map_option (concat \<circ> map utf16_point) (read_utf8 bs)"

text \<open>A well-formed string: every surrogate has its partner.\<close>

fun well_formed :: "jsstr \<Rightarrow> bool" where
  "well_formed [] = True"
| "well_formed [u] = (\<not> is_high u \<and> \<not> is_low u)"
| "well_formed (u # v # us) = (if is_high u \<and> is_low v then well_formed us
     else \<not> is_high u \<and> \<not> is_low u \<and> well_formed (v # us))"

section \<open>Reading back varints and fields\<close>

lemma low_bits: "v AND 0x7f = (v :: int) mod 128"
  using take_bit_eq_mask [of 7 v] by (simp add: take_bit_eq_mod mask_eq_exp_minus_1)

lemma cont_byte: "uint (byte ((v AND 0x7f) OR 0x80)) = v mod 128 + 128"
proof -
  have "bit (128 :: int) n \<longleftrightarrow> n = 7" for n
    using bit_exp_iff [of 7 n, where 'a = int] by auto
  then have "take_bit 7 v + 128 = take_bit 7 v OR 128"
    by (intro disjunctive_add) (auto simp: bit_take_bit_iff)
  then have "(v AND 0x7f) OR 0x80 = v mod 128 + 128"
    using take_bit_eq_mask [of 7 v] by (simp add: take_bit_eq_mod mask_eq_exp_minus_1)
  moreover have "(v mod 128 + 128) mod 256 = v mod 128 + 128" by (rule mod_pos_pos_trivial) auto
  ultimately show ?thesis by (simp only: byte_def uint_word_of_int) simp
qed

lemma read_varint_encode [simp]: "0 \<le> v \<Longrightarrow> read_varint (encodeVarint v @ r) = Some (v, r)"
proof (induction v rule: encodeVarint.induct)
  case (1 v)
  show ?case
  proof (cases "v > 0x7f")
    case True
    with 1 have "read_varint (encodeVarint (drop_bit 7 v) @ r) = Some (v div 128, r)"
      by (simp add: drop_bit_eq_div)
    with True pos_mod_sign [of 128 v] show ?thesis by (subst encodeVarint.simps) (simp add: cont_byte del: pos_mod_sign)
  next
    case False
    with 1 have "uint (byte v) = v" by (simp add: byte_def uint_word_of_int)
    with False show ?thesis by (subst encodeVarint.simps) simp
  qed
qed

lemma field_tag_value: "0 \<le> wt \<Longrightarrow> wt < 8 \<Longrightarrow> push_bit 3 n OR wt = 8 * n + (wt :: int)"
proof -
  assume w: "0 \<le> wt" "wt < 8"
  then have wt: "wt = take_bit 3 wt" by (simp add: take_bit_eq_mod)
  have "push_bit 3 n + take_bit 3 wt = push_bit 3 n OR take_bit 3 wt"
    by (rule disjunctive_add) (auto simp: bit_take_bit_iff bit_push_bit_iff)
  with wt show ?thesis by (simp add: push_bit_eq_mult)
qed

lemma read_len_field [simp]:
  "0 \<le> n \<Longrightarrow> read_field (encode_len_field n bs @ r) = Some ((n, WBytes bs), r)"
  by (simp add: encode_len_field_def concatBytes_def field_tag_def read_field_def field_tag_value)

lemma read_varint_field [simp]:
  assumes "0 \<le> n" "0 \<le> v"
  shows "read_field (encodeUint64Field n v @ r) = Some ((n, WVarint v), r)"
    "read_field (encodeVarintField n v @ r) = Some ((n, WVarint v), r)"
  using assms field_tag_value [of 0 n]
  by (simp_all add: encodeUint64Field_def encodeVarintField_def concatBytes_def field_tag_def read_field_def)

lemma field_nonempty [simp]: "encodeVarint v \<noteq> []"
  by (subst encodeVarint.simps) simp

text \<open>
  A list of encoded fields: each is read as one field. A message encoder concatenates such a list.
\<close>

inductive fields_of :: "bytes list \<Rightarrow> (int \<times> wire) list \<Rightarrow> bool" where
  none: "fields_of [] []"
| one: "(\<And>r. read_field (b @ r) = Some (f, r)) \<Longrightarrow> b \<noteq> [] \<Longrightarrow> fields_of bs fs \<Longrightarrow> fields_of (b # bs) (f # fs)"

lemma fields_of_append: "fields_of as fs \<Longrightarrow> fields_of bs gs \<Longrightarrow> fields_of (as @ bs) (fs @ gs)"
  by (induction rule: fields_of.induct) (auto intro: fields_of.intros)

lemma read_fields: "fields_of bs fs \<Longrightarrow> read_message (concatBytes bs) = Some fs"
proof (induction rule: fields_of.induct)
  case none
  then show ?case by (simp add: concatBytes_def read_message.simps)
next
  case (one b f bs fs)
  then show ?case by (subst read_message.simps) (simp add: concatBytes_def)
qed

text \<open>What each kind of field contributes to the message.\<close>

definition text_wire :: "int \<Rightarrow> jsstr option \<Rightarrow> (int \<times> wire) list" where
  "text_wire n s = (case s of None \<Rightarrow> [] | Some t \<Rightarrow> [(n, WBytes (utf8ToBytes t))])"

definition truthy_wire :: "int \<Rightarrow> jsstr option \<Rightarrow> (int \<times> wire) list" where
  "truthy_wire n s = (case s of None \<Rightarrow> [] | Some t \<Rightarrow> if t = [] then [] else [(n, WBytes (utf8ToBytes t))])"

definition uint_wire :: "int \<Rightarrow> int option \<Rightarrow> (int \<times> wire) list" where
  "uint_wire n v = (case v of None \<Rightarrow> [] | Some i \<Rightarrow> [(n, WVarint i)])"

definition coin_wire :: "coin_encoder \<Rightarrow> int \<Rightarrow> wire_coin option \<Rightarrow> (int \<times> wire) list" where
  "coin_wire coin n c = (case c of None \<Rightarrow> [] | Some d \<Rightarrow> [(n, WBytes (coin d))])"

lemma one_field: "(\<And>r. read_field (b @ r) = Some (f, r)) \<Longrightarrow> fields_of [b] [f]"
proof (rule fields_of.one [OF _ _ fields_of.none])
  assume f: "read_field (b @ r) = Some (f, r)" for r
  then show "read_field (b @ r) = Some (f, r)" for r .
  show "b \<noteq> []" using f [of "[]"] by (auto simp: read_field_def)
qed

lemma fields_of_kinds:
  assumes "0 \<le> n"
  shows "fields_of (str_field n s) (text_wire n s)" "fields_of (truthy_field n s) (truthy_wire n s)"
    "fields_of (coin_field coin n c) (coin_wire coin n c)"
  using assms by (auto simp: str_field_def text_wire_def truthy_field_def truthy_wire_def coin_field_def coin_wire_def
      encodeStringField_def encodeCoinField_def fields_of.none intro: one_field split: option.splits)

lemma fields_of_numbers:
  assumes "0 \<le> n" "\<And>i. v = Some i \<Longrightarrow> 0 \<le> i"
  shows "fields_of (uint_field n v) (uint_wire n v)" "fields_of (pool_field n v) (uint_wire n v)"
  using assms by (auto simp: uint_field_def pool_field_def uint_wire_def fields_of.none intro: one_field split: option.splits)

lemmas message_fields = fields_of_append fields_of_kinds fields_of_numbers

section \<open>Reading back text\<close>

lemma byte_of [simp]: "0 \<le> c \<Longrightarrow> c < 256 \<Longrightarrow> uint (byte c) = c"
  by (simp add: byte_def uint_word_of_int)

lemma read_utf8_lengths:
  "0 \<le> a \<Longrightarrow> a < 0x80 \<Longrightarrow> read_utf8 (byte a # r) = map_option ((#) a) (read_utf8 r)"
  "0 \<le> a \<Longrightarrow> a < 32 \<Longrightarrow> 0 \<le> b \<Longrightarrow> b < 64 \<Longrightarrow>
     read_utf8 (byte (0xC0 + a) # byte (0x80 + b) # r) = map_option ((#) (a * 64 + b)) (read_utf8 r)"
  "0 \<le> a \<Longrightarrow> a < 16 \<Longrightarrow> 0 \<le> b \<Longrightarrow> b < 64 \<Longrightarrow> 0 \<le> c \<Longrightarrow> c < 64 \<Longrightarrow>
     read_utf8 (byte (0xE0 + a) # byte (0x80 + b) # byte (0x80 + c) # r) = map_option ((#) (a * 4096 + b * 64 + c)) (read_utf8 r)"
  "0 \<le> a \<Longrightarrow> a < 16 \<Longrightarrow> 0 \<le> b \<Longrightarrow> b < 64 \<Longrightarrow> 0 \<le> c \<Longrightarrow> c < 64 \<Longrightarrow> 0 \<le> d \<Longrightarrow> d < 64 \<Longrightarrow>
     read_utf8 (byte (0xF0 + a) # byte (0x80 + b) # byte (0x80 + c) # byte (0x80 + d) # r)
       = map_option ((#) (a * 262144 + b * 4096 + c * 64 + d)) (read_utf8 r)"
  by (simp_all add: add.assoc)

text \<open>The digits of a code point in base 64.\<close>

lemma base64_digits:
  fixes c :: int
  shows "c div 64 * 64 + c mod 64 = c" "c div 4096 * 4096 + c div 64 mod 64 * 64 + c mod 64 = c"
    "c div 262144 * 262144 + c div 4096 mod 64 * 4096 + c div 64 mod 64 * 64 + c mod 64 = c"
proof -
  have join: "x * 4096 + y * 64 + z = t" if "x * 64 + y = w" "w * 64 + z = t" for x y z w t :: int
    using that by linarith
  have join': "x * 262144 + y = t" if "x * 64 + v = w" "w * 4096 + u = t" "v * 4096 + u = y" for x y v w u t :: int
    using that by linarith
  have d: "c div 4096 = c div 64 div 64" "c div 262144 = c div 4096 div 64"
    using zdiv_zmult2_eq [of 64 c 64] zdiv_zmult2_eq [of 64 c 4096] by simp_all
  show "c div 64 * 64 + c mod 64 = c" by (rule div_mult_mod_eq)
  show two: "c div 4096 * 4096 + c div 64 mod 64 * 64 + c mod 64 = c"
    unfolding d(1) by (rule join [OF div_mult_mod_eq div_mult_mod_eq])
  show "c div 262144 * 262144 + c div 4096 mod 64 * 4096 + c div 64 mod 64 * 64 + c mod 64 = c"
    unfolding d(2) add.assoc by (rule join' [OF div_mult_mod_eq two [unfolded add.assoc] refl])
qed

lemma read_utf8_point:
  assumes "0 \<le> c" "c < 0x110000"
  shows "read_utf8 (utf8_point c @ r) = map_option ((#) c) (read_utf8 r)"
proof -
  have m: "0 \<le> x mod 64" "x mod 64 < 64" for x :: int by simp_all
  consider "c < 0x80" | "0x80 \<le> c" "c < 0x800" | "0x800 \<le> c" "c < 0x10000" | "0x10000 \<le> c" by linarith
  then show ?thesis
  proof cases
    case 1
    with assms show ?thesis by (simp add: utf8_point_def)
  next
    case 2
    then have "0 \<le> c div 64" "c div 64 < 32" by simp_all
    from read_utf8_lengths(2) [OF this m, of c r] 2 show ?thesis
      by (simp only: base64_digits utf8_point_def append.simps if_False not_less [symmetric] if_True)
  next
    case 3
    then have "0 \<le> c div 4096" "c div 4096 < 16" by simp_all
    from read_utf8_lengths(3) [OF this m m, of "c div 64" c r] 3 show ?thesis
      by (simp only: base64_digits utf8_point_def append.simps) simp
  next
    case 4
    with assms have "0 \<le> c div 262144" "c div 262144 < 16" by simp_all
    from read_utf8_lengths(4) [OF this m m m, of "c div 4096" "c div 64" c r] 4 show ?thesis
      by (simp only: base64_digits utf8_point_def append.simps) simp
  qed
qed

lemma unit_point_range: "0 \<le> unit_point u \<and> unit_point u < 0x110000"
  using uint_lt2p [of u] by (auto simp: unit_point_def)

lemma pair_point_range: "is_high u \<Longrightarrow> is_low v \<Longrightarrow> 0x10000 \<le> pair_point u v \<and> pair_point u v < 0x110000"
  by (simp add: is_high_def is_low_def pair_point_def)

lemma code_points_range: "c \<in> set (code_points s) \<Longrightarrow> 0 \<le> c \<and> c < 0x110000"
  by (induction s rule: code_points.induct) (use unit_point_range pair_point_range in \<open>fastforce split: if_splits\<close>)+

lemma read_utf8_points:
  "(\<And>c. c \<in> set cs \<Longrightarrow> 0 \<le> c \<and> c < 0x110000) \<Longrightarrow> read_utf8 (concat (map utf8_point cs)) = Some cs"
  by (induction cs) (simp_all add: read_utf8_point)

lemma utf16_unit: "\<not> is_high u \<Longrightarrow> \<not> is_low u \<Longrightarrow> utf16_point (unit_point u) = [u]"
  using uint_lt2p [of u] by (simp add: utf16_point_def unit_point_def)

lemma utf16_pair: "is_high u \<Longrightarrow> is_low v \<Longrightarrow> utf16_point (pair_point u v) = [u, v]"
proof -
  assume "is_high u" "is_low v"
  then have r: "0 \<le> uint v - 0xDC00" "uint v - 0xDC00 < 0x400" "0x10000 \<le> pair_point u v"
    using pair_point_range by (auto simp: is_low_def)
  have p: "pair_point u v - 0x10000 = (uint v - 0xDC00) + (uint u - 0xD800) * 0x400" by (simp add: pair_point_def)
  have "(pair_point u v - 0x10000) div 0x400 = uint u - 0xD800" "(pair_point u v - 0x10000) mod 0x400 = uint v - 0xDC00"
    unfolding p using r by (simp_all only: div_mult_self1 mod_mult_self1 div_pos_pos_trivial mod_pos_pos_trivial)
  with r show ?thesis by (simp add: utf16_point_def)
qed

lemma utf16_code_points: "well_formed s \<Longrightarrow> concat (map utf16_point (code_points s)) = s"
  by (induction s rule: well_formed.induct) (auto simp: utf16_unit utf16_pair split: if_splits)

lemma read_text_utf8: "well_formed s \<Longrightarrow> read_text (utf8ToBytes s) = Some s"
  by (simp add: read_text_def utf8ToBytes_def read_utf8_points code_points_range utf16_code_points)

section \<open>Reading back the messages\<close>

text \<open>A field of a message, as a receiver takes it: the last occurrence, or the default of its type.\<close>

definition get_text :: "int \<Rightarrow> (int \<times> wire) list \<Rightarrow> jsstr option" where
  "get_text n fs = (case map_of (rev fs) n of None \<Rightarrow> Some [] | Some (WBytes bs) \<Rightarrow> read_text bs | Some (WVarint _) \<Rightarrow> None)"

definition get_uint64 :: "int \<Rightarrow> (int \<times> wire) list \<Rightarrow> int option" where
  "get_uint64 n fs = (case map_of (rev fs) n of None \<Rightarrow> Some 0
     | Some (WVarint v) \<Rightarrow> if v < 2 ^ 64 then Some v else None | Some (WBytes _) \<Rightarrow> None)"

definition read_transfer :: "bytes \<Rightarrow> (jsstr option \<times> int option \<times> jsstr option) option" where
  "read_transfer bs = map_option (\<lambda>fs. (get_text 1 fs, get_uint64 2 fs, get_text 3 fs)) (read_message bs)"

definition read_texts :: "int list \<Rightarrow> bytes \<Rightarrow> jsstr option list option" where
  "read_texts ns bs = map_option (\<lambda>fs. map (\<lambda>n. get_text n fs) ns) (read_message bs)"

definition text_of :: "jsstr option \<Rightarrow> jsstr" where "text_of s = (case s of None \<Rightarrow> [] | Some t \<Rightarrow> t)"

lemma well_formed_Nil_text [simp]: "read_text [] = Some []" "utf8ToBytes [] = []"
  by (simp_all add: read_text_def utf8ToBytes_def)

text \<open>
  C36: a transfer message is read back as it was made: the creator, the amount and the recipient of the
  registry's create function, in the fields 1, 2 and 3 of the chain's definition, with zero and the empty string
  for what is missing, for well-formed text and an amount that fits in 64 bits.
\<close>

theorem transfer_message_roundtrip:
  assumes "well_formed (text_of (tm_creator m))" "well_formed (text_of (tm_to m))"
    and "\<And>a. tm_amount m = Some a \<Longrightarrow> 0 \<le> a \<and> a < 2 ^ 64"
  shows "read_transfer (encodeMsgTransferMallcoin (transfer_create m))
    = Some (Some (text_of (tm_creator m)), Some (case tm_amount m of None \<Rightarrow> 0 | Some a \<Rightarrow> a), Some (text_of (tm_to m)))"
proof -
  let ?c = "text_of (tm_creator m)" and ?a = "case tm_amount m of None \<Rightarrow> 0 | Some a \<Rightarrow> a" and ?t = "text_of (tm_to m)"
  have a: "0 \<le> ?a" "?a < 2 ^ 64" using assms(3) by (auto split: option.splits)
  have "read_message (concatBytes (str_field 1 (Some ?c) @ uint_field 2 (Some ?a) @ str_field 3 (Some ?t)))
      = Some (text_wire 1 (Some ?c) @ uint_wire 2 (Some ?a) @ text_wire 3 (Some ?t))"
    using a(1) by (intro read_fields message_fields) simp_all
  moreover have "transfer_create m = \<lparr>tm_creator = Some ?c, tm_amount = Some ?a, tm_to = Some ?t\<rparr>"
    by (simp add: transfer_create_def or_empty_def text_of_def split: option.splits)
  ultimately have "read_message (encodeMsgTransferMallcoin (transfer_create m))
      = Some [(1, WBytes (utf8ToBytes ?c)), (2, WVarint ?a), (3, WBytes (utf8ToBytes ?t))]"
    by (simp add: encodeMsgTransferMallcoin_def text_wire_def uint_wire_def)
  with a(2) assms(1,2) show ?thesis by (simp add: read_transfer_def get_text_def get_uint64_def read_text_utf8)
qed

text \<open>Messages of texts that are left out when they are empty.\<close>

fun truthy_fields :: "int \<Rightarrow> jsstr list \<Rightarrow> bytes list" where
  "truthy_fields n [] = []"
| "truthy_fields n (t # ts) = truthy_field n (Some t) @ truthy_fields (n + 1) ts"

fun truthy_wires :: "int \<Rightarrow> jsstr list \<Rightarrow> (int \<times> wire) list" where
  "truthy_wires n [] = []"
| "truthy_wires n (t # ts) = truthy_wire n (Some t) @ truthy_wires (n + 1) ts"

lemma truthy_fields_of: "0 \<le> n \<Longrightarrow> fields_of (truthy_fields n ts) (truthy_wires n ts)"
  by (induction ts arbitrary: n) (auto intro: fields_of.none fields_of_append fields_of_kinds)

lemma truthy_wires_keys: "f \<in> set (truthy_wires n ts) \<Longrightarrow> n \<le> fst f"
  by (induction ts arbitrary: n) (fastforce simp: truthy_wire_def split: if_splits)+

lemma map_of_absent: "(\<And>f. f \<in> set fs \<Longrightarrow> fst f \<noteq> n) \<Longrightarrow> map_of fs n = None"
  by (induction fs) auto

lemma get_text_truthy:
  assumes "i < length ts" "well_formed (ts ! i)"
  shows "get_text (n + int i) (truthy_wires n ts) = Some (ts ! i)"
  using assms
proof (induction ts arbitrary: n i)
  case Nil
  then show ?case by simp
next
  case (Cons t ts)
  show ?case
  proof (cases i)
    case 0
    have "map_of (rev (truthy_wires (n + 1) ts)) n = None"
      by (rule map_of_absent) (use truthy_wires_keys [of _ "n + 1" ts] in fastforce)
    with 0 Cons.prems show ?thesis by (auto simp: get_text_def truthy_wire_def map_add_def read_text_utf8 split: option.splits)
  next
    case (Suc j)
    have "map_of (rev (truthy_wire n (Some t))) (n + int i) = None" by (auto simp: truthy_wire_def Suc)
    then have "get_text (n + int i) (truthy_wires n (t # ts)) = get_text (n + int i) (truthy_wires (n + 1) ts)"
      by (auto simp: get_text_def map_add_def split: option.splits)
    with Cons.IH [of j "n + 1"] Cons.prems Suc show ?thesis by (simp add: add.assoc)
  qed
qed

lemma read_truthy_fields:
  assumes "0 \<le> n" "\<forall>t \<in> set ts. well_formed t"
  shows "read_texts (map (\<lambda>i. n + int i) [0..<length ts]) (concatBytes (truthy_fields n ts)) = Some (map Some ts)"
proof -
  have "map (\<lambda>i. get_text (n + int i) (truthy_wires n ts)) [0..<length ts] = map (\<lambda>i. Some (ts ! i)) [0..<length ts]"
    using assms(2) nth_mem [of _ ts] by (intro map_cong refl) (simp add: get_text_truthy)
  also have "\<dots> = map Some (map ((!) ts) [0..<length ts])" by simp
  finally have "map (\<lambda>i. get_text (n + int i) (truthy_wires n ts)) [0..<length ts] = map Some ts"
    unfolding map_nth .
  then show ?thesis
    using read_fields [OF truthy_fields_of [OF assms(1), of ts]] by (simp add: read_texts_def comp_def)
qed

text \<open>
  an issuing message and a document message are read back as they were made: every text in the
  field the chain's definition gives it, the empty ones by the default of a missing field.
\<close>

theorem text_messages_roundtrip:
  assumes "\<forall>t \<in> {text_of (bm_creator b), text_of (bm_recipient b), text_of (bm_badgeType b)}. well_formed t"
    and "\<forall>t \<in> {text_of (dm_creator d), text_of (dm_uploader d), text_of (dm_docId d), text_of (dm_sha256Hash d),
      text_of (dm_parentRecordId d)}. well_formed t"
  shows "read_texts [1, 2, 3] (encodeMsgIssueBadge (badge_create b))
      = Some (map (Some \<circ> text_of) [bm_creator b, bm_recipient b, bm_badgeType b])
    \<and> read_texts [1, 2, 3, 4, 5] (encodeMsgRegisterDocument (document_create d))
      = Some (map (Some \<circ> text_of) [dm_creator d, dm_uploader d, dm_docId d, dm_sha256Hash d, dm_parentRecordId d])"
proof -
  have t: "or_empty s = Some (text_of s)" for s by (simp add: or_empty_def text_of_def split: option.splits)
  show ?thesis
    using read_truthy_fields [of 1 "[text_of (bm_creator b), text_of (bm_recipient b), text_of (bm_badgeType b)]"]
      read_truthy_fields [of 1 "[text_of (dm_creator d), text_of (dm_uploader d), text_of (dm_docId d),
        text_of (dm_sha256Hash d), text_of (dm_parentRecordId d)]"] assms
    by (simp add: encodeMsgIssueBadge_def badge_create_def encodeMsgRegisterDocument_def document_create_def t upt_rec)
qed

text \<open>
  the four messages of the exchange are sequences of fields with the numbers and the kinds of the
  chain's definition: nothing else is in them and nothing is lost.
\<close>

theorem dex_messages_read:
  assumes "\<And>i. al_poolId a = Some i \<Longrightarrow> 0 \<le> i" "\<And>i. rl_poolId r = Some i \<Longrightarrow> 0 \<le> i" "\<And>i. sm_poolId s = Some i \<Longrightarrow> 0 \<le> i"
  shows "read_message (encodeMsgCreatePool coin c) = Some (truthy_wire 1 (cp_creator c) @ coin_wire coin 2 (cp_tokenA c)
      @ coin_wire coin 3 (cp_tokenB c) @ truthy_wire 4 (cp_fee c)) \<and>
    read_message (encodeMsgAddLiquidity coin a) = Some (truthy_wire 1 (al_provider a) @ uint_wire 2 (al_poolId a)
      @ coin_wire coin 3 (al_tokenAAmount a) @ coin_wire coin 4 (al_tokenBAmount a)) \<and>
    read_message (encodeMsgRemoveLiquidity coin r) = Some (truthy_wire 1 (rl_provider r) @ uint_wire 2 (rl_poolId r)
      @ coin_wire coin 3 (rl_liquidityTokens r)) \<and>
    read_message (encodeMsgSwap coin s) = Some (truthy_wire 1 (sm_sender s) @ uint_wire 2 (sm_poolId s)
      @ coin_wire coin 3 (sm_tokenIn s) @ truthy_wire 4 (sm_tokenOutDenom s) @ coin_wire coin 5 (sm_minTokenOut s))"
  unfolding encodeMsgCreatePool_def encodeMsgAddLiquidity_def encodeMsgRemoveLiquidity_def encodeMsgSwap_def
  by (intro conjI read_fields message_fields) (use assms in simp_all)

text \<open>
  a varint of a 64-bit value takes at most ten bytes, one for each seven bits, and the reader takes
  exactly these back, whatever follows.
\<close>

theorem varint_length_bound:
  assumes "0 \<le> v" "v < 2 ^ (7 * Suc k)"
  shows "length (encodeVarint v) \<le> Suc k \<and> read_varint (encodeVarint v @ rest) = Some (v, rest)"
proof -
  have "length (encodeVarint v) \<le> Suc k" if "0 \<le> v" "v < 2 ^ (7 * Suc k)" for v k
    using that
  proof (induction k arbitrary: v)
    case 0
    then show ?case by (subst encodeVarint.simps) simp
  next
    case (Suc k)
    show ?case
    proof (cases "v > 0x7f")
      case True
      have "drop_bit 7 v < 2 ^ (7 * Suc k)" using Suc.prems by (simp add: drop_bit_eq_div power_add)
      with Suc.IH [of "drop_bit 7 v"] Suc.prems True show ?thesis
        by (subst encodeVarint.simps) simp
    next
      case False
      then show ?thesis by (subst encodeVarint.simps) simp
    qed
  qed
  with assms show ?thesis by simp
qed

section \<open>Witnesses\<close>

definition demo_text :: jsstr where "demo_text = [0x6D, 0xE9, 0x20AC, 0xD83D, 0xDE00]"

lemma demo_text_ok: "well_formed demo_text \<and> well_formed []"
  by (simp add: demo_text_def is_high_def is_low_def)

theorem transfer_message_roundtrip_witness:
  "read_transfer (encodeMsgTransferMallcoin (transfer_create \<lparr>tm_creator = Some demo_text, tm_amount = Some 300, tm_to = None\<rparr>))
     = Some (Some demo_text, Some 300, Some [])"
  using transfer_message_roundtrip [of "\<lparr>tm_creator = Some demo_text, tm_amount = Some 300, tm_to = None\<rparr>"] demo_text_ok
  by (simp add: text_of_def)

theorem text_messages_roundtrip_witness:
  "read_texts [1, 2, 3] (encodeMsgIssueBadge (badge_create \<lparr>bm_creator = Some demo_text, bm_recipient = None, bm_badgeType = Some demo_text\<rparr>))
     = Some [Some demo_text, Some [], Some demo_text]"
  using text_messages_roundtrip [of "\<lparr>bm_creator = Some demo_text, bm_recipient = None, bm_badgeType = Some demo_text\<rparr>"
      "\<lparr>dm_creator = None, dm_uploader = None, dm_docId = None, dm_sha256Hash = None, dm_parentRecordId = None\<rparr>"] demo_text_ok
  by (simp add: text_of_def)

theorem dex_messages_read_witness:
  "read_message (encodeMsgRemoveLiquidity (\<lambda>_. [7]) \<lparr>rl_provider = Some demo_text, rl_poolId = Some 2, rl_liquidityTokens = None\<rparr>)
     = Some [(1, WBytes (utf8ToBytes demo_text)), (2, WVarint 2)]"
proof -
  let ?a = "\<lparr>al_provider = None, al_poolId = None, al_tokenAAmount = None, al_tokenBAmount = None\<rparr>"
  let ?s = "\<lparr>sm_sender = None, sm_poolId = None, sm_tokenIn = None, sm_tokenOutDenom = None, sm_minTokenOut = None\<rparr>"
  let ?r = "\<lparr>rl_provider = Some demo_text, rl_poolId = Some 2, rl_liquidityTokens = None\<rparr>"
  have "demo_text \<noteq> []" by (simp add: demo_text_def)
  moreover have "read_message (encodeMsgRemoveLiquidity (\<lambda>_. [7]) ?r)
      = Some (truthy_wire 1 (rl_provider ?r) @ uint_wire 2 (rl_poolId ?r) @ coin_wire (\<lambda>_. [7]) 3 (rl_liquidityTokens ?r))"
    by (rule dex_messages_read [of ?a ?r ?s, THEN conjunct2, THEN conjunct2, THEN conjunct1]) simp_all
  ultimately show ?thesis by (simp add: truthy_wire_def uint_wire_def coin_wire_def)
qed

theorem varint_length_bound_witness:
  "length (encodeVarint 18446744073709551615) \<le> 10
    \<and> read_varint (encodeVarint 18446744073709551615 @ [7]) = Some (18446744073709551615, [7])"
proof -
  have "length (encodeVarint 18446744073709551615) \<le> Suc 9
      \<and> read_varint (encodeVarint 18446744073709551615 @ [7]) = Some (18446744073709551615, [7])"
    by (rule varint_length_bound) simp_all
  then show ?thesis by simp
qed

end
