(* ===== verification/WalletSignature.thy ===== *)
theory WalletSignature
  imports Prelude
begin

text \<open>
  The messages a wallet signs to prove that it owns an address, and their verification
  (\<open>mallwallet/security/verifyAdr036.js\<close>).
\<close>

definition convertMessage :: "string \<Rightarrow> string \<Rightarrow> string" where
  "convertMessage address timestamp = ''Convert Mallpoints to Mallcoin for '' @ address @ '' at '' @ timestamp"

definition linkWalletMessage :: "string \<Rightarrow> string \<Rightarrow> string" where
  "linkWalletMessage address timestamp = ''Link wallet '' @ address @ '' to my Mallchain account at '' @ timestamp"

definition subscribeWalletMessage :: "string \<Rightarrow> string \<Rightarrow> string" where
  "subscribeWalletMessage address timestamp = ''Subscribe to live updates for '' @ address @ '' at '' @ timestamp"

text \<open>
  What the cryptographic packages do: base64, the digest of the document of a signer and a message,
  the verification of a signature and the address of a key under a prefix. \<open>None\<close> is a throw.
\<close>

record sig_lib =
  sl_fromBase64 :: "string \<Rightarrow> string option"
  sl_digest :: "string \<Rightarrow> string \<Rightarrow> string option"
  sl_verify :: "string \<Rightarrow> string \<Rightarrow> string \<Rightarrow> bool option"
  sl_address :: "string \<Rightarrow> string \<Rightarrow> string option"

definition verifyOwnershipSignature :: "sig_lib \<Rightarrow> string \<Rightarrow> string \<Rightarrow> string \<Rightarrow> string \<Rightarrow> string \<Rightarrow> bool" where
  "verifyOwnershipSignature lib address message pubKey signature addressPrefix =
     (if address = [] \<or> message = [] \<or> pubKey = [] \<or> signature = [] \<or> addressPrefix = [] then False
      else case (sl_fromBase64 lib pubKey, sl_fromBase64 lib signature) of
        (Some pk, Some sg) \<Rightarrow>
          length sg = 64 \<and>
          (case sl_digest lib address message of None \<Rightarrow> False
           | Some h \<Rightarrow> sl_verify lib sg h pk = Some True \<and> sl_address lib pk addressPrefix = Some address)
      | _ \<Rightarrow> False)"

definition verifyConvertSignature :: "sig_lib \<Rightarrow> string \<Rightarrow> string \<Rightarrow> string \<Rightarrow> string \<Rightarrow> string \<Rightarrow> bool" where
  "verifyConvertSignature lib address timestamp pubKey signature addressPrefix =
     (timestamp \<noteq> [] \<and> verifyOwnershipSignature lib address (convertMessage address timestamp) pubKey signature addressPrefix)"

definition verifyLinkWalletSignature :: "sig_lib \<Rightarrow> string \<Rightarrow> string \<Rightarrow> string \<Rightarrow> string \<Rightarrow> string \<Rightarrow> bool" where
  "verifyLinkWalletSignature lib address timestamp pubKey signature addressPrefix =
     (timestamp \<noteq> [] \<and> verifyOwnershipSignature lib address (linkWalletMessage address timestamp) pubKey signature addressPrefix)"

definition verifySubscribeWalletSignature :: "sig_lib \<Rightarrow> string \<Rightarrow> string \<Rightarrow> string \<Rightarrow> string \<Rightarrow> string \<Rightarrow> bool" where
  "verifySubscribeWalletSignature lib address timestamp pubKey signature addressPrefix =
     (timestamp \<noteq> [] \<and> verifyOwnershipSignature lib address (subscribeWalletMessage address timestamp) pubKey signature addressPrefix)"

end
