(* ===== verification/Mallpoints.thy ===== *)
theory Mallpoints
  imports Faucet Liquidity WalletSignature
begin

text \<open>
  Mallpoints and their conversion into MLCNS: \<open>services/mallpointsService.js\<close>, \<open>routes/mallpoints.js\<close>,
  the queue of failed liquidity additions
  (\<open>convertLiquidityQueue.js\<close>) and its worker (\<open>convertLiquidityWorker.js\<close>). Times are milliseconds
  since 1970; the calendar is that of \<open>Date\<close> in UTC.
\<close>

section \<open>The calendar\<close>

record utc_date =
  ud_year :: int
  ud_month :: int
  ud_day :: int

text \<open>\<open>getUTCFullYear\<close>, \<open>getUTCMonth\<close> (from 0) and \<open>getUTCDate\<close> of a time, by eras of 400 years from March.\<close>

definition utc_of :: "int \<Rightarrow> utc_date" where
  "utc_of ms =
     (let z = ms div 86400000 + 719468; era = z div 146097; doe = z mod 146097;
          yoe = (doe - doe div 1460 + doe div 36524 - doe div 146096) div 365;
          doy = doe - (365 * yoe + yoe div 4 - yoe div 100); mp = (5 * doy + 2) div 153
      in \<lparr>ud_year = yoe + era * 400 + (if mp < 10 then 0 else 1),
          ud_month = (if mp < 10 then mp + 2 else mp - 10),
          ud_day = doy - (153 * mp + 2) div 5 + 1\<rparr>)"

text \<open>\<open>Date.UTC(year, month, day)\<close>, with a month past December counted into the next year.\<close>

definition date_UTC :: "int \<Rightarrow> int \<Rightarrow> int \<Rightarrow> int" where
  "date_UTC year month day =
     (let y = year + month div 12; m = month mod 12; y' = (if m < 2 then y - 1 else y);
          mp = (if m < 2 then m + 10 else m - 2); era = y' div 400; yoe = y' mod 400;
          doe = yoe * 365 + yoe div 4 - yoe div 100 + (153 * mp + 2) div 5 + day - 1
      in (era * 146097 + doe - 719468) * 86400000)"

section \<open>The conversion window\<close>

datatype conv_reason = AnyDay | ThisMonth | ThisYear | Only15th | OnlyDecember

record conv_status =
  cs_canConvert :: bool
  cs_reason :: "conv_reason option"
  cs_nextAllowed :: "int option"

definition conv_window :: "bool \<Rightarrow> int \<Rightarrow> bool \<Rightarrow> conv_status" where
  "conv_window hasBadge now anyDay =
     (let d = utc_of now; year = ud_year d; month = ud_month d; day = ud_day d in
      if anyDay then \<lparr>cs_canConvert = True, cs_reason = Some AnyDay, cs_nextAllowed = None\<rparr>
      else if hasBadge then \<lparr>cs_canConvert = (day = 15), cs_reason = None,
             cs_nextAllowed = Some (if 15 < day then date_UTC year (month + 1) 15 else date_UTC year month 15)\<rparr>
      else \<lparr>cs_canConvert = (month = 11 \<and> day = 27), cs_reason = None,
             cs_nextAllowed = Some (if 11 < month \<or> month = 11 \<and> 27 < day then date_UTC (year + 1) 11 27 else date_UTC year 11 27)\<rparr>)"

definition same_period :: "bool \<Rightarrow> int \<Rightarrow> int \<Rightarrow> bool" where
  "same_period hasBadge lastAt now =
     (ud_year (utc_of lastAt) = ud_year (utc_of now) \<and> (hasBadge \<longrightarrow> ud_month (utc_of lastAt) = ud_month (utc_of now)))"

definition conv_last :: "bool \<Rightarrow> int option \<Rightarrow> int \<Rightarrow> conv_status \<Rightarrow> conv_status" where
  "conv_last hasBadge lastConversionAt now s =
     (case lastConversionAt of None \<Rightarrow> s
      | Some lastAt \<Rightarrow> if same_period hasBadge lastAt now
          then s\<lparr>cs_canConvert := False, cs_reason := Some (if hasBadge then ThisMonth else ThisYear)\<rparr> else s)"

definition buildConversionStatus :: "bool \<Rightarrow> int option \<Rightarrow> int \<Rightarrow> bool \<Rightarrow> conv_status" where
  "buildConversionStatus hasBadge lastConversionAt now anyDay =
     (let s = conv_last hasBadge lastConversionAt now (conv_window hasBadge now anyDay) in
      if \<not> anyDay \<and> cs_reason s = None \<and> \<not> cs_canConvert s
      then s\<lparr>cs_reason := Some (if hasBadge then Only15th else OnlyDecember)\<rparr> else s)"

section \<open>Points of an address\<close>

record chain_points =
  ch_exists :: bool
  ch_points :: num
  ch_tasks :: num
  ch_lastEarned :: num
  ch_error :: "string option"

text \<open>The reply of the chain: its numbers, not found, or an error.\<close>

datatype points_reply = PointsReply num num num | PointsNotFound | PointsError string

fun getChainUserPoints :: "points_reply \<Rightarrow> chain_points" where
  "getChainUserPoints (PointsReply p t l) = \<lparr>ch_exists = True, ch_points = p, ch_tasks = t, ch_lastEarned = l, ch_error = None\<rparr>"
| "getChainUserPoints PointsNotFound = \<lparr>ch_exists = False, ch_points = 0, ch_tasks = 0, ch_lastEarned = 0, ch_error = None\<rparr>"
| "getChainUserPoints (PointsError e) = \<lparr>ch_exists = False, ch_points = 0, ch_tasks = 0, ch_lastEarned = 0, ch_error = Some e\<rparr>"

record merged_points =
  mg_balance :: num
  mg_chain :: num
  mg_db :: num
  mg_tasks :: num
  mg_lastEarned :: "num option"
  mg_source :: "num option"

definition mergePoints :: "chain_points \<Rightarrow> num \<Rightarrow> merged_points" where
  "mergePoints chain dbBalance = \<lparr>mg_balance = js_add (ch_points chain) dbBalance, mg_chain = ch_points chain,
     mg_db = dbBalance, mg_tasks = ch_tasks chain,
     mg_lastEarned = (if ch_lastEarned chain = 0 then None else Some (ch_lastEarned chain)),
     mg_source = (if ch_exists chain then Some (ch_points chain) else None)\<rparr>"

section \<open>Accounts, the queue and the journal\<close>

record point_account =
  pa_address :: string
  pa_balance :: num
  pa_last :: "int option"

datatype conv_stage = LiqAdded | LiqEnqueued | LiqAddedByWorker | LiqRetryFailed

record conv_activity =
  va_stage :: conv_stage
  va_address :: string
  va_mlcns :: num
  va_fiat :: num
  va_lpTokens :: num
  va_reason :: "string option"

record conv_job =
  cj_address :: string
  cj_mlcoins :: num
  cj_kesValue :: num
  cj_poolId :: nat
  cj_firstFailedAt :: int
  cj_originalError :: string

record dead_letter =
  dl_job :: conv_job
  dl_attempts :: nat
  dl_lastError :: string

text \<open>\<open>usedSignatures\<close>: the Redis keys of consumed signatures with the time they expire.\<close>

record points_world =
  accounts :: "point_account list"
  usedSignatures :: "(string \<times> int) list"
  convQueue :: "conv_job list"
  convJournal :: "conv_activity list"
  deadLetters :: "dead_letter list"
  mainWorld :: world

definition find_account :: "string \<Rightarrow> points_world \<Rightarrow> point_account option" where
  "find_account a W = coll_find (\<lambda>d. pa_address d = a) (accounts W)"

definition save_account :: "point_account \<Rightarrow> points_world \<Rightarrow> points_world" where
  "save_account d W = W\<lparr>accounts := coll_put pa_address d (accounts W)\<rparr>"

definition create_account :: "point_account \<Rightarrow> points_world \<Rightarrow> points_world" where
  "create_account d W = W\<lparr>accounts := accounts W @ [d]\<rparr>"

interpretation accountdb: document_store find_account save_account create_account pa_address
  by unfold_locales (auto simp: find_account_def save_account_def create_account_def coll_find_append coll_find_put_same
    coll_find_put_other coll_put_same dest: coll_find_Some split: option.splits)

section \<open>The award\<close>

definition pointPrice :: "num option \<Rightarrow> num" where
  "pointPrice v = or_else v 2"

datatype award_resp = AwMissing | AwAlready num | AwOk num num num

text \<open>The two variables are \<open>None\<close> when they are unset or not numbers.\<close>

definition mallpointsAward :: "num option \<Rightarrow> num option \<Rightarrow> string \<Rightarrow> points_world \<Rightarrow> award_resp \<times> points_world" where
  "mallpointsAward awardFiat price address W =
     (if address = [] then (AwMissing, W)
      else case find_account address W of Some a \<Rightarrow> (AwAlready (pa_balance a), W)
      | None \<Rightarrow>
          (let targetFiat = or_else awardFiat (fl (3499 / 100)); pp = or_else price 2;
               awardPoints = js_div targetFiat (num_or pp 1);
               award = js_div (js_round (js_mul awardPoints 1000000)) 1000000
           in (AwOk award (js_mul award pp) pp, create_account \<lparr>pa_address = address, pa_balance = award, pa_last = None\<rparr> W)))"

section \<open>The views\<close>

record points_view =
  pv_merged :: merged_points
  pv_last :: "int option"
  pv_pointPrice :: num
  pv_chain :: "chain_points option"
  pv_hasBadge :: bool
  pv_status :: conv_status
  pv_convertible :: num

definition mallpoints_view :: "points_reply \<Rightarrow> bool \<Rightarrow> int \<Rightarrow> bool \<Rightarrow> num option \<Rightarrow> string \<Rightarrow> points_world \<Rightarrow> points_view" where
  "mallpoints_view reply hasBadge now anyDay price a W =
     (let acc = find_account a W; dbBalance = (case acc of None \<Rightarrow> 0 | Some d \<Rightarrow> pa_balance d);
          chain = getChainUserPoints reply; lastAt = (case acc of None \<Rightarrow> None | Some d \<Rightarrow> pa_last d)
      in \<lparr>pv_merged = mergePoints chain dbBalance, pv_last = lastAt, pv_pointPrice = pointPrice price,
          pv_chain = (if ch_exists chain then Some chain else None), pv_hasBadge = hasBadge,
          pv_status = buildConversionStatus hasBadge lastAt now anyDay, pv_convertible = js_floor dbBalance\<rparr>)"

definition mallpointsSync :: "points_reply \<Rightarrow> bool \<Rightarrow> int \<Rightarrow> bool \<Rightarrow> num option \<Rightarrow> string \<Rightarrow> points_world \<Rightarrow> points_view option" where
  "mallpointsSync reply hasBadge now anyDay price address W =
     (if address = [] then None else Some (mallpoints_view reply hasBadge now anyDay price address W))"

section \<open>The conversion\<close>

definition CONVERT_SIGNATURE_MAX_AGE_MS :: int where "CONVERT_SIGNATURE_MAX_AGE_MS = 600000"
definition ADR036_CONSUMED_TTL_SECONDS :: int where "ADR036_CONSUMED_TTL_SECONDS = 3600"
definition CONVERT_POOL :: nat where "CONVERT_POOL = 2"

record conv_body =
  cb_address :: string
  cb_timestamp :: string
  cb_pubKey :: string
  cb_signature :: string

text \<open>
  \<open>cv_parse\<close>: \<open>Date.parse\<close> of a text, if it is a time; \<open>cv_redis\<close>: Redis answers; \<open>cv_badge\<close>: the chain
  knows a badge of the address; \<open>cv_journalFails\<close>, \<open>cv_queueFails\<close>: writing the journal entry of an
  addition, and the queue, fail.
\<close>

record conv_env =
  cv_now :: int
  cv_parse :: "string \<Rightarrow> int option"
  cv_testMode :: bool
  cv_redis :: bool
  cv_lib :: sig_lib
  cv_prefix :: string
  cv_badge :: "string \<Rightarrow> bool"
  cv_anyDay :: bool
  cv_params :: chain_params
  cv_price :: "num option"
  cv_faucet :: faucet_env
  cv_liq :: liq_env
  cv_journalFails :: "string option"
  cv_queueFails :: bool

datatype conv_liq = LqLive liq_result | LqQueued string

datatype conv_resp =
    CvMissingAddress | CvNoSignature | CvExpired | CvReused | CvBadSignature | CvNoPoints
  | CvClosed conv_status | CvTooFew | CvCreditFailed faucet_error | CvOk num num conv_liq

fun conv_code :: "conv_resp \<Rightarrow> nat" where
  "conv_code CvMissingAddress = 400"
| "conv_code CvNoSignature = 401"
| "conv_code CvExpired = 401"
| "conv_code CvReused = 401"
| "conv_code CvBadSignature = 401"
| "conv_code CvNoPoints = 400"
| "conv_code (CvClosed _) = 400"
| "conv_code CvTooFew = 400"
| "conv_code (CvCreditFailed _) = 502"
| "conv_code (CvOk _ _ _) = 200"

text \<open>The key of a signature in Redis; base64 is injective and left out.\<close>

definition sig_key :: "string \<Rightarrow> string" where "sig_key s = ''adr036_consumed:convert:'' @ take 128 s"

definition consumed :: "int \<Rightarrow> string \<Rightarrow> points_world \<Rightarrow> bool" where
  "consumed now s W = (\<exists>t \<in> set (usedSignatures W). fst t = sig_key s \<and> now < snd t)"

definition consume :: "int \<Rightarrow> string \<Rightarrow> points_world \<Rightarrow> points_world" where
  "consume now s W = W\<lparr>usedSignatures := (sig_key s, now + ADR036_CONSUMED_TTL_SECONDS * 1000) # usedSignatures W\<rparr>"

text \<open>The proof of ownership: the answer of a refusal, and the used signature.\<close>

definition conv_owner :: "conv_env \<Rightarrow> conv_body \<Rightarrow> points_world \<Rightarrow> conv_resp option \<times> points_world" where
  "conv_owner en b W =
     (if cb_address b = [] then (Some CvMissingAddress, W)
      else if cb_timestamp b = [] \<or> cb_pubKey b = [] \<or> cb_signature b = [] then (Some CvNoSignature, W)
      else if (case cv_parse en (cb_timestamp b) of None \<Rightarrow> True
               | Some t \<Rightarrow> CONVERT_SIGNATURE_MAX_AGE_MS < \<bar>cv_now en - t\<bar>) then (Some CvExpired, W)
      else if \<not> cv_testMode en \<and> cv_redis en \<and> consumed (cv_now en) (cb_signature b) W then (Some CvReused, W)
      else let W1 = (if \<not> cv_testMode en \<and> cv_redis en then consume (cv_now en) (cb_signature b) W else W) in
        if \<not> verifyConvertSignature (cv_lib en) (cb_address b) (cb_timestamp b) (cb_pubKey b) (cb_signature b) (cv_prefix en)
        then (Some CvBadSignature, W1) else (None, W1))"

text \<open>What is read before the account is debited: the account and the points to convert.\<close>

definition conv_check :: "conv_env \<Rightarrow> string \<Rightarrow> points_world \<Rightarrow> conv_resp + point_account \<times> num" where
  "conv_check en address W =
     (case find_account address W of None \<Rightarrow> Inl CvNoPoints
      | Some acc \<Rightarrow>
          if pa_balance acc \<le> 0 then Inl CvNoPoints
          else let st = buildConversionStatus (cv_badge en address) (pa_last acc) (cv_now en) (cv_anyDay en) in
            if \<not> cs_canConvert st then Inl (CvClosed st)
            else let points = js_floor (pa_balance acc) in
              if points \<le> 0 then Inl CvTooFew else Inr (acc, points))"

definition conv_amount :: "chain_params \<Rightarrow> num \<Rightarrow> num" where
  "conv_amount params points =
     (let raw = js_div (js_mul points (cp_mlptsPerMlcns params)) MLPTS_PER_MLCNS_SCALE
      in js_div (js_round (js_mul raw MLPTS_PER_MLCNS_SCALE)) MLPTS_PER_MLCNS_SCALE)"

definition conv_debited :: "int \<Rightarrow> point_account \<Rightarrow> num \<Rightarrow> point_account" where
  "conv_debited now acc points = acc\<lparr>pa_balance := js_sub (pa_balance acc) points, pa_last := Some now\<rparr>"

definition journal :: "conv_stage \<Rightarrow> string \<Rightarrow> num \<Rightarrow> num \<Rightarrow> num \<Rightarrow> string option \<Rightarrow> points_world \<Rightarrow> points_world" where
  "journal st a m k lp why W = W\<lparr>convJournal := convJournal W @
     [\<lparr>va_stage = st, va_address = a, va_mlcns = m, va_fiat = k, va_lpTokens = lp, va_reason = why\<rparr>]\<rparr>"

text \<open>The queue keeps the job unless Redis refuses it; an error of the queue is only logged.\<close>

definition enqueueConvertLiquidityFailure :: "conv_env \<Rightarrow> conv_job \<Rightarrow> points_world \<Rightarrow> points_world" where
  "enqueueConvertLiquidityFailure en j W = (if cv_queueFails en then W else W\<lparr>convQueue := convQueue W @ [j]\<rparr>)"

text \<open>
  The liquidity after the credit. A journal entry that cannot be written is an error of the same block
  as the addition; the entry of the failure itself is written if it can be.
\<close>

definition conv_liquidity :: "conv_env \<Rightarrow> string \<Rightarrow> num \<Rightarrow> num \<Rightarrow> points_world \<Rightarrow> conv_liq \<times> points_world" where
  "conv_liquidity en address mlcoins kesValue W =
     (case addLiquidityToPool (cv_liq en) CONVERT_POOL (ANum mlcoins) (ANum kesValue) address (mainWorld W) of (r, M) \<Rightarrow>
        (let W1 = W\<lparr>mainWorld := M\<rparr>;
             problem = (case r of Inl e \<Rightarrow> Some e | Inr _ \<Rightarrow> cv_journalFails en)
         in case problem of
              None \<Rightarrow> (LqLive (projr r), journal LiqAdded address mlcoins kesValue (lq_lpTokens (projr r)) None W1)
            | Some e \<Rightarrow>
                (let W2 = (if cv_journalFails en = None then journal LiqEnqueued address mlcoins kesValue 0 (Some e) W1 else W1);
                     job = \<lparr>cj_address = address, cj_mlcoins = mlcoins, cj_kesValue = kesValue, cj_poolId = CONVERT_POOL,
                            cj_firstFailedAt = cv_now en, cj_originalError = e\<rparr>
                 in (LqQueued e, enqueueConvertLiquidityFailure en job W2))))"

text \<open>The debit, the credit, and either the liquidity or the restored account.\<close>

definition conv_debit :: "conv_env \<Rightarrow> point_account \<Rightarrow> num \<Rightarrow> points_world \<Rightarrow> points_world" where
  "conv_debit en acc points W = save_account (conv_debited (cv_now en) acc points) W"

definition conv_pay :: "conv_env \<Rightarrow> point_account \<Rightarrow> num \<Rightarrow> points_world \<Rightarrow> conv_resp \<times> points_world" where
  "conv_pay en acc points W =
     (let address = pa_address acc; mlcoins = conv_amount (cv_params en) points;
          kesValue = js_mul points (pointPrice (cv_price en)) in
      case creditMlcns (cv_faucet en) address mlcoins (mainWorld W) of
        (Inl e, M) \<Rightarrow>
          (let d = conv_debited (cv_now en) acc points in
           (CvCreditFailed e, save_account (d\<lparr>pa_balance := js_add (pa_balance d) points, pa_last := pa_last acc\<rparr>) (W\<lparr>mainWorld := M\<rparr>)))
      | (Inr _, M) \<Rightarrow>
          (case conv_liquidity en address mlcoins kesValue (W\<lparr>mainWorld := M\<rparr>) of (l, W2) \<Rightarrow> (CvOk points mlcoins l, W2)))"

definition mallpointsConvert :: "conv_env \<Rightarrow> conv_body \<Rightarrow> points_world \<Rightarrow> conv_resp \<times> points_world" where
  "mallpointsConvert en b W =
     (case conv_owner en b W of (Some r, W1) \<Rightarrow> (r, W1)
      | (None, W1) \<Rightarrow>
          (case conv_check en (cb_address b) W1 of Inl r \<Rightarrow> (r, W1)
           | Inr (acc, points) \<Rightarrow> conv_pay en acc points (conv_debit en acc points W1)))"

section \<open>The worker of the queue\<close>

definition convert_worker :: "conv_env \<Rightarrow> conv_job \<Rightarrow> points_world \<Rightarrow> (string + num) \<times> points_world" where
  "convert_worker en j W =
     (case addLiquidityToPool (cv_liq en) (if cj_poolId j = 0 then 2 else cj_poolId j) (ANum (cj_mlcoins j)) (ANum (cj_kesValue j))
             (cj_address j) (mainWorld W) of (r, M) \<Rightarrow>
        (let W1 = W\<lparr>mainWorld := M\<rparr>; problem = (case r of Inl e \<Rightarrow> Some e | Inr _ \<Rightarrow> cv_journalFails en) in
         case problem of
           None \<Rightarrow> (Inr (lq_lpTokens (projr r)),
             journal LiqAddedByWorker (cj_address j) (cj_mlcoins j) (cj_kesValue j) (lq_lpTokens (projr r)) None W1)
         | Some e \<Rightarrow> (Inl e,
             (if cv_journalFails en = None
              then journal LiqRetryFailed (cj_address j) (cj_mlcoins j) (cj_kesValue j) 0 (Some e) W1 else W1))))"

text \<open>The handler of a failed attempt: \<open>attemptsMade\<close> and the database are the environment.\<close>

definition convert_failed :: "nat \<Rightarrow> bool \<Rightarrow> bool \<Rightarrow> conv_job \<Rightarrow> string \<Rightarrow> points_world \<Rightarrow> points_world" where
  "convert_failed attemptsMade mongoConnected insertFails j e W =
     (if attemptsMade + 1 \<ge> 3 \<and> mongoConnected \<and> \<not> insertFails
      then W\<lparr>deadLetters := deadLetters W @ [\<lparr>dl_job = j, dl_attempts = attemptsMade + 1, dl_lastError = e\<rparr>]\<rparr> else W)"

section \<open>Frames\<close>

lemma points_frame [simp]:
  "mainWorld (save_account d W) = mainWorld W" "usedSignatures (save_account d W) = usedSignatures W"
  "accounts (save_account d W) = coll_put pa_address d (accounts W)" "convQueue (save_account d W) = convQueue W"
  "accounts (consume t s W) = accounts W" "mainWorld (consume t s W) = mainWorld W"
  "accounts (journal st a m k lp y W) = accounts W" "mainWorld (journal st a m k lp y W) = mainWorld W"
  "usedSignatures (journal st a m k lp y W) = usedSignatures W" "convQueue (journal st a m k lp y W) = convQueue W"
  "accounts (enqueueConvertLiquidityFailure en j W) = accounts W" "mainWorld (enqueueConvertLiquidityFailure en j W) = mainWorld W"
  "usedSignatures (enqueueConvertLiquidityFailure en j W) = usedSignatures W"
  by (simp_all add: save_account_def consume_def journal_def enqueueConvertLiquidityFailure_def)

lemma find_account_frame [simp]:
  "find_account a (W\<lparr>mainWorld := M\<rparr>) = find_account a W" "find_account a (consume t s W) = find_account a W"
  by (simp_all add: find_account_def)

lemma conv_liquidity_frame:
  assumes "conv_liquidity en a m k W = (l, W')"
  shows "accounts W' = accounts W" "usedSignatures W' = usedSignatures W"
    "\<exists>es. outbox (mainWorld W') = outbox (mainWorld W) @ es \<and> (\<forall>e \<in> set es. \<exists>t0 t1. e = EAddLiquidity CONVERT_POOL t0 t1)"
proof -
  obtain r M where r: "addLiquidityToPool (cv_liq en) CONVERT_POOL (ANum m) (ANum k) a (mainWorld W) = (r, M)" by fastforce
  note d = assms [unfolded conv_liquidity_def r prod.case Let_def]
  have "accounts W' = accounts W \<and> usedSignatures W' = usedSignatures W \<and> mainWorld W' = M"
    using d by (auto split: option.splits sum.splits if_splits)
  moreover have "\<exists>es. outbox M = outbox (mainWorld W) @ es \<and> (\<forall>e \<in> set es. \<exists>t0 t1. e = EAddLiquidity CONVERT_POOL t0 t1)"
    using r by (cases rule: add_cases) (auto simp: frame_simps emit_def save_pool_def ensurePoolsLoaded_def load_pools_def Let_def)
  ultimately show "accounts W' = accounts W" "usedSignatures W' = usedSignatures W"
    "\<exists>es. outbox (mainWorld W') = outbox (mainWorld W) @ es \<and> (\<forall>e \<in> set es. \<exists>t0 t1. e = EAddLiquidity CONVERT_POOL t0 t1)"
    by simp_all
qed

text \<open>The integral part of a balance is subtracted and added back without any rounding.\<close>

lemma js_floor_exact:
  assumes "0 \<le> b" "fl b = b"
  shows "js_sub b (js_floor b) = b - js_floor b" "js_add (js_sub b (js_floor b)) (js_floor b) = b"
proof -
  have "fl (b - js_floor b) = b - js_floor b"
  proof (cases "b = 0")
    case True
    then show ?thesis by (simp add: js_floor_def)
  next
    case False
    with assms have "0 < b" by simp
    then obtain m where m: "b = of_int m * 2 powi (flog2 b - 52)" "2 ^ 52 \<le> m" "m \<le> 2 ^ 53"
      using assms(2) by (metis fl_pos_form)
    let ?e = "flog2 b - 52"
    show ?thesis
    proof (cases "0 \<le> ?e")
      case True
      then have "b = of_int (m * 2 ^ nat ?e)" using m(1) by (simp add: powi_nat)
      then have "js_floor b = b" by (metis js_floor_def floor_of_int)
      then show ?thesis by simp
    next
      case False
      define k where "k = nat (- ?e)"
      have e: "(2 :: rat) powi ?e = 1 / of_int (2 ^ k)" using False
        by (simp add: k_def power_int_def power_one_over)
      have "b = of_int m / of_int (2 ^ k)" using m(1) e by simp
      then have f: "\<lfloor>b\<rfloor> = m div 2 ^ k" by (simp only: floor_divide_of_int_eq)
      have "b - js_floor b = of_int (m mod 2 ^ k) * 2 powi ?e"
      proof -
        have "of_int m = (of_int (m div 2 ^ k) * of_int (2 ^ k) + of_int (m mod 2 ^ k) :: rat)"
          by (simp only: of_int_mult [symmetric] of_int_add [symmetric] div_mult_mod_eq)
        then have "b = of_int (m div 2 ^ k) + of_int (m mod 2 ^ k) / of_int (2 ^ k)"
          using \<open>b = of_int m / of_int (2 ^ k)\<close> by (simp add: add_divide_distrib)
        moreover have "js_floor b = of_int (m div 2 ^ k)" by (simp only: js_floor_def f)
        ultimately have "b - js_floor b = of_int (m mod 2 ^ k) * (1 / of_int (2 ^ k))" by simp
        then show ?thesis by (simp only: e)
      qed
      moreover have "\<bar>m mod 2 ^ k\<bar> \<le> 2 ^ 53"
        using m(2,3) zmod_le_nonneg_dividend [of m "2 ^ k"] pos_mod_sign [of "2 ^ k" m] by simp
      ultimately show ?thesis using fl_exact [of "m mod 2 ^ k" ?e] by simp
    qed
  qed
  then show s: "js_sub b (js_floor b) = b - js_floor b" by (simp add: js_sub_def)
  show "js_add (js_sub b (js_floor b)) (js_floor b) = b" using assms(2) by (simp add: s js_add_def)
qed

lemma js_floor_rest: "0 \<le> b - js_floor b" "b - js_floor b < 1"
  by (simp_all add: js_floor_def) linarith

section \<open>What a request does\<close>

lemma conv_owner_passed:
  assumes "conv_owner en b W = (None, W1)"
  shows "verifyConvertSignature (cv_lib en) (cb_address b) (cb_timestamp b) (cb_pubKey b) (cb_signature b) (cv_prefix en)"
    "\<exists>t. cv_parse en (cb_timestamp b) = Some t \<and> \<bar>cv_now en - t\<bar> \<le> CONVERT_SIGNATURE_MAX_AGE_MS"
    "\<not> cv_testMode en \<and> cv_redis en \<Longrightarrow> \<not> consumed (cv_now en) (cb_signature b) W \<and> W1 = consume (cv_now en) (cb_signature b) W"
  using assms by (auto simp: conv_owner_def Let_def split: if_splits option.splits)

lemma conv_owner_frame:
  "conv_owner en b W = (r, W1) \<Longrightarrow> accounts W1 = accounts W \<and> mainWorld W1 = mainWorld W"
  by (auto simp: conv_owner_def Let_def split: if_splits)

lemma conv_check_passed:
  assumes "conv_check en a W = Inr (acc, p)"
  shows "find_account a W = Some acc" "pa_address acc = a" "p = js_floor (pa_balance acc)" "0 < p" "0 < pa_balance acc"
    "cs_canConvert (buildConversionStatus (cv_badge en a) (pa_last acc) (cv_now en) (cv_anyDay en))"
proof -
  show f: "find_account a W = Some acc"
    using assms by (auto simp: conv_check_def Let_def split: option.splits if_splits)
  then show "pa_address acc = a" by (rule accountdb.find_key)
  show "p = js_floor (pa_balance acc)" "0 < p" "0 < pa_balance acc"
    "cs_canConvert (buildConversionStatus (cv_badge en a) (pa_last acc) (cv_now en) (cv_anyDay en))"
    using assms f by (auto simp: conv_check_def Let_def split: if_splits)
qed

lemma convert_cases:
  assumes "mallpointsConvert en b W = (r, W')"
  obtains (refused) "accounts W' = accounts W" "mainWorld W' = mainWorld W" "\<forall>p m l. r \<noteq> CvOk p m l" "\<forall>e. r \<noteq> CvCreditFailed e"
  | (paid) acc p W1 where "conv_owner en b W = (None, W1)" "conv_check en (cb_address b) W1 = Inr (acc, p)"
      "conv_pay en acc p (conv_debit en acc p W1) = (r, W')" "accounts W1 = accounts W" "mainWorld W1 = mainWorld W"
      "find_account (cb_address b) W = Some acc"
proof -
  obtain o1 W1 where o: "conv_owner en b W = (o1, W1)" by fastforce
  have fr: "accounts W1 = accounts W" "mainWorld W1 = mainWorld W" using conv_owner_frame [OF o] by simp_all
  note d = assms [unfolded mallpointsConvert_def o prod.case]
  show thesis
  proof (cases "o1 = None \<and> (\<exists>acc p. conv_check en (cb_address b) W1 = Inr (acc, p))")
    case False
    have "o1 \<noteq> Some (CvOk p m l)" "o1 \<noteq> Some (CvCreditFailed e)" for p m l e
      using o by (auto simp: conv_owner_def Let_def split: if_splits)
    moreover have "conv_check en (cb_address b) W1 \<noteq> Inl (CvOk p m l)" "conv_check en (cb_address b) W1 \<noteq> Inl (CvCreditFailed e)" for p m l e
      by (auto simp: conv_check_def Let_def split: option.splits if_splits)
    ultimately show thesis using d False fr by (intro refused) (auto split: option.splits sum.splits)
  next
    case True
    then obtain acc p where c: "o1 = None" "conv_check en (cb_address b) W1 = Inr (acc, p)" by blast
    with conv_check_passed(1) [OF c(2)] show thesis
      using d o fr by (intro paid [of W1 acc p]) (simp_all add: find_account_def)
  qed
qed

text \<open>The payment: both outcomes, with what they leave of the account and send outside.\<close>

lemma conv_pay_cases:
  assumes "conv_pay en acc p W = (r, W')"
  obtains (failed) e where "r = CvCreditFailed e"
      "accounts W' = coll_put pa_address ((conv_debited (cv_now en) acc p)\<lparr>pa_balance := js_add (js_sub (pa_balance acc) p) p, pa_last := pa_last acc\<rparr>) (accounts W)"
      "usedSignatures W' = usedSignatures W"
      "creditMlcns (cv_faucet en) (pa_address acc) (conv_amount (cv_params en) p) (mainWorld W) = (Inl e, mainWorld W')"
  | (ok) x l M es where "r = CvOk p (conv_amount (cv_params en) p) l" "accounts W' = accounts W" "usedSignatures W' = usedSignatures W"
      "creditMlcns (cv_faucet en) (pa_address acc) (conv_amount (cv_params en) p) (mainWorld W) = (Inr x, M)"
      "outbox (mainWorld W') = outbox M @ es" "\<forall>e \<in> set es. \<exists>t0 t1. e = EAddLiquidity CONVERT_POOL t0 t1"
proof -
  let ?m = "conv_amount (cv_params en) p"
  obtain c M where c: "creditMlcns (cv_faucet en) (pa_address acc) ?m (mainWorld W) = (c, M)" by fastforce
  note d = assms [unfolded conv_pay_def Let_def c prod.case]
  show thesis
  proof (cases c)
    case (Inl e)
    with d c show thesis by (intro failed [of e]) (auto simp: conv_debited_def)
  next
    case (Inr x)
    obtain l W2 where l: "conv_liquidity en (pa_address acc) ?m (js_mul p (pointPrice (cv_price en))) (W\<lparr>mainWorld := M\<rparr>) = (l, W2)"
      by fastforce
    from conv_liquidity_frame [OF l] obtain es where es: "outbox (mainWorld W2) = outbox M @ es"
      "\<forall>e \<in> set es. \<exists>t0 t1. e = EAddLiquidity CONVERT_POOL t0 t1" "accounts W2 = accounts W" "usedSignatures W2 = usedSignatures W"
      by auto
    show thesis by (rule ok [of l x M es]) (use d Inr l c es in auto)
  qed
qed

section \<open>The properties\<close>


lemma split_at_space:
  assumes "x @ CHR '' '' # r = y @ CHR '' '' # s" "CHR '' '' \<notin> set x" "CHR '' '' \<notin> set y"
  shows "x = y \<and> r = s"
  using assms
proof (induction x arbitrary: y)
  case Nil
  then show ?case by (cases y) auto
next
  case (Cons c x)
  then show ?case by (cases y) auto
qed

text \<open>
  the three kinds of signed messages are never the same text, so a signature for one purpose is
  worth nothing for another; and for addresses without spaces a message of one kind determines its
  address and its time.
\<close>

theorem signed_messages_separate:
  "convertMessage a t \<noteq> linkWalletMessage a' t' \<and> convertMessage a t \<noteq> subscribeWalletMessage a' t'
    \<and> linkWalletMessage a t \<noteq> subscribeWalletMessage a' t'
    \<and> (CHR '' '' \<notin> set a \<and> CHR '' '' \<notin> set a' \<longrightarrow>
        (convertMessage a t = convertMessage a' t' \<longrightarrow> a = a' \<and> t = t')
      \<and> (linkWalletMessage a t = linkWalletMessage a' t' \<longrightarrow> a = a' \<and> t = t')
      \<and> (subscribeWalletMessage a t = subscribeWalletMessage a' t' \<longrightarrow> a = a' \<and> t = t'))"
  by (auto simp: convertMessage_def linkWalletMessage_def subscribeWalletMessage_def dest: split_at_space)

text \<open>
  C7: a conversion that is answered as done took exactly the whole points, left less than one, noted the
  time, and sent the faucet one credit of the amount by the ratio of the chain; nothing else but gas
  money and an addition to the pool goes out.
\<close>

theorem conversion_settles:
  assumes "mallpointsConvert en b W = (CvOk p m l, W')"
  shows "\<exists>acc acc'. find_account (cb_address b) W = Some acc \<and> p = js_floor (pa_balance acc) \<and> 1 \<le> p
    \<and> m = conv_amount (cv_params en) p \<and> find_account (cb_address b) W' = Some acc' \<and> pa_last acc' = Some (cv_now en)
    \<and> (fl (pa_balance acc) = pa_balance acc \<longrightarrow> pa_balance acc' = pa_balance acc - p \<and> 0 \<le> pa_balance acc' \<and> pa_balance acc' < 1)
    \<and> (\<exists>es. outbox (mainWorld W') = outbox (mainWorld W) @ ECredit (cb_address b) (mc_toBaseUnits (fe_decimals (cv_faucet en)) m) # es
        \<and> (\<forall>e \<in> set es. e = EFundGas (cb_address b) \<or> (\<exists>t0 t1. e = EAddLiquidity CONVERT_POOL t0 t1)))"
  using assms
proof (cases rule: convert_cases)
  case (paid acc q W1)
  note c = conv_check_passed [OF paid(2)]
  from paid(3) show ?thesis
  proof (cases rule: conv_pay_cases)
    case (ok x l' M es)
    let ?acc = "conv_debited (cv_now en) acc p"
    have q: "q = p" "m = conv_amount (cv_params en) p" using ok(1) by simp_all
    have one: "1 \<le> p" using c(3,4) q(1) by (simp add: js_floor_def)
    have k: "pa_address ?acc = cb_address b" using c(2) by (simp add: conv_debited_def)
    have f: "find_account (cb_address b) W' = Some ?acc"
      using ok(2) paid(4,6) k coll_find_put_same [of pa_address ?acc "accounts W"]
      by (simp add: find_account_def conv_debit_def q)
    have bal: "pa_balance ?acc = pa_balance acc - p \<and> 0 \<le> pa_balance ?acc \<and> pa_balance ?acc < 1"
      if "fl (pa_balance acc) = pa_balance acc"
      using js_floor_exact(1) [of "pa_balance acc"] js_floor_rest [of "pa_balance acc"] that c(3,5) q(1) by (simp add: conv_debited_def)
    from ok(4) obtain gas where gas: "outbox M = outbox (mainWorld (conv_debit en acc q W1)) @ ECredit (pa_address acc)
        (mc_toBaseUnits (fe_decimals (cv_faucet en)) (conv_amount (cv_params en) q)) # gas" "set gas \<subseteq> {EFundGas (pa_address acc)}"
      by (rule credit_cases) auto
    have out: "outbox (mainWorld W') = outbox (mainWorld W) @ ECredit (cb_address b) (mc_toBaseUnits (fe_decimals (cv_faucet en)) m) # (gas @ es)"
      using gas(1) ok(5) paid(5) c(2) q by (simp add: conv_debit_def)
    have es: "\<forall>e \<in> set (gas @ es). e = EFundGas (cb_address b) \<or> (\<exists>t0 t1. e = EAddLiquidity CONVERT_POOL t0 t1)"
      using gas(2) ok(6) c(2) by auto
    show ?thesis
      by (intro exI [of _ acc] exI [of _ ?acc] conjI exI [of _ "gas @ es"] impI paid(6) q(2) one f out es)
        (use c(3) q(1) bal in \<open>auto simp: conv_debited_def\<close>)
  qed simp
qed simp

text \<open>
  when the credit fails, the account is exactly what it was, the points and the time of the last
  conversion included. The faucet may have sent the transfer all the same.
\<close>

theorem failed_conversion_restores:
  assumes "mallpointsConvert en b W = (CvCreditFailed e, W')" "find_account (cb_address b) W = Some acc"
    and "fl (pa_balance acc) = pa_balance acc"
  shows "accounts W' = accounts W \<and> (outbox (mainWorld W') = outbox (mainWorld W)
    \<or> (\<exists>gas. outbox (mainWorld W') = outbox (mainWorld W) @ ECredit (cb_address b) (mc_toBaseUnits (fe_decimals (cv_faucet en))
        (conv_amount (cv_params en) (js_floor (pa_balance acc)))) # gas \<and> set gas \<subseteq> {EFundGas (cb_address b)}))"
proof -
  have restored: "coll_put pa_address acc (coll_put pa_address d ds) = ds"
    if "coll_find (\<lambda>x. pa_address x = cb_address b) ds = Some acc" "pa_address d = pa_address acc" "pa_address acc = cb_address b" for d ds
    using that coll_put_same [of pa_address acc ds] by simp
  from assms(1) show ?thesis
  proof (cases rule: convert_cases)
    case (paid acc' p W1)
    note c = conv_check_passed [OF paid(2)]
    have a: "acc' = acc" using paid(6) assms(2) by simp
    from paid(3) show ?thesis
    proof (cases rule: conv_pay_cases)
      case (failed e')
      let ?d = "conv_debited (cv_now en) acc p"
      have "js_add (js_sub (pa_balance acc) p) p = pa_balance acc"
        using js_floor_exact(2) [of "pa_balance acc"] assms(3) c(3,5) a by simp
      then have "?d\<lparr>pa_balance := js_add (js_sub (pa_balance acc) p) p, pa_last := pa_last acc\<rparr> = acc"
        by (simp add: conv_debited_def)
      then have "accounts W' = coll_put pa_address acc (coll_put pa_address ?d (accounts W))"
        using failed(2) paid(4) a by (simp add: conv_debit_def)
      also have "\<dots> = accounts W"
        by (rule restored) (use assms(2) c(2) a in \<open>auto simp: find_account_def conv_debited_def\<close>)
      finally have acc: "accounts W' = accounts W" .
      have m: "mainWorld (conv_debit en acc' p W1) = mainWorld W" using paid(5) by (simp add: conv_debit_def)
      from failed(4) show ?thesis
      proof (cases rule: credit_cases)
        case unsent
        with acc m show ?thesis by simp
      next
        case (sent gas)
        have p: "p = js_floor (pa_balance acc)" using c(3) a by simp
        with acc m sent(2,3) c(2) a show ?thesis by auto
      qed
    qed simp
  qed simp
qed

text \<open>
  a failed credit can have paid. When the transfer was sent and only its confirmation failed, the
  request restores the points, the MLCNS are on their way, and the account may convert the same points
  again.
\<close>

theorem conversion_pays_and_restores:
  assumes "conv_owner en b W = (None, W1)" "conv_check en (cb_address b) W1 = Inr (acc, p)" "fl (pa_balance acc) = pa_balance acc"
    and "credit_guards (cv_faucet en) (cb_address b) (conv_amount (cv_params en) p) (mainWorld W)"
    and "getSequenceOrDefault (fe_sequence (cv_faucet en)) = Inr s" "builder_broadcast (fe_transferTx (cv_faucet en)) = Inl x"
  shows "\<exists>e W'. mallpointsConvert en b W = (CvCreditFailed e, W') \<and> accounts W' = accounts W
    \<and> outbox (mainWorld W') = outbox (mainWorld W) @ [ECredit (cb_address b) (mc_toBaseUnits (fe_decimals (cv_faucet en)) (conv_amount (cv_params en) p))]"
proof -
  note c = conv_check_passed [OF assms(2)]
  have fr: "accounts W1 = accounts W" "mainWorld W1 = mainWorld W" using conv_owner_frame [OF assms(1)] by simp_all
  let ?n = "conv_amount (cv_params en) p" and ?d = "conv_debited (cv_now en) acc p"
  let ?c = "ECredit (cb_address b) (mc_toBaseUnits (fe_decimals (cv_faucet en)) ?n)"
  obtain src f where g: "getFundingAccount (cv_faucet en) = Inr (Some (src, f))" "guardFaucetFundedOrThrow (cv_faucet en) f = None"
    using assms(4) by (auto simp: credit_guards_def)
  then obtain e where cr: "creditMlcns (cv_faucet en) (cb_address b) ?n (mainWorld W) = (Inl e, emit ?c (mainWorld W))"
    using assms(4-6) by (simp add: creditMlcns_def credit_guards_def transferAndFundGas_def Let_def not_less not_le)
  have "js_add (js_sub (pa_balance acc) p) p = pa_balance acc"
    using js_floor_exact(2) [of "pa_balance acc"] assms(3) c(3,5) by simp
  then have d: "?d\<lparr>pa_balance := js_add (pa_balance ?d) p, pa_last := pa_last acc\<rparr> = acc" by (simp add: conv_debited_def)
  let ?W' = "save_account acc ((conv_debit en acc p W1)\<lparr>mainWorld := emit ?c (mainWorld W)\<rparr>)"
  have "conv_pay en acc p (conv_debit en acc p W1) = (CvCreditFailed e, ?W')"
    unfolding conv_pay_def Let_def using cr c(2) fr d by (simp add: conv_debit_def)
  then have "mallpointsConvert en b W = (CvCreditFailed e, ?W')" using assms(1,2) by (simp add: mallpointsConvert_def)
  moreover have "accounts ?W' = accounts W"
    using coll_put_same [of pa_address acc "accounts W"] c(1,2) fr
    by (simp add: conv_debit_def conv_debited_def find_account_def)
  ultimately show ?thesis by (auto simp: emit_def)
qed

text \<open>
  two overlapping requests of one account lose the debit. Both read the account before either
  writes it; the first is paid, the second is refused by the faucet and restores what it had read, so
  the MLCNS are sent and all the points and the earlier conversion time are back.
\<close>

theorem conversion_race_restores_points:
  assumes "conv_check en a W = Inr (acc, p)" "conv_check en' a W = Inr (acc, p)" "fl (pa_balance acc) = pa_balance acc"
    and "conv_pay en acc p (conv_debit en' acc p (conv_debit en acc p W)) = (CvOk p m l, W3)"
    and "conv_pay en' acc p W3 = (CvCreditFailed e, W4)"
  shows "accounts W4 = accounts W \<and> (\<exists>es. outbox (mainWorld W4) = outbox (mainWorld W)
    @ ECredit a (mc_toBaseUnits (fe_decimals (cv_faucet en)) m) # es)"
proof -
  note c = conv_check_passed [OF assms(1)]
  from assms(4) obtain x M es where ok: "m = conv_amount (cv_params en) p"
    "accounts W3 = accounts (conv_debit en' acc p (conv_debit en acc p W))"
    "creditMlcns (cv_faucet en) (pa_address acc) m (mainWorld W) = (Inr x, M)" "outbox (mainWorld W3) = outbox M @ es"
    by (rule conv_pay_cases) (auto simp: conv_debit_def)
  from ok(3) obtain gas where gas: "outbox M = outbox (mainWorld W) @ ECredit a (mc_toBaseUnits (fe_decimals (cv_faucet en)) m) # gas"
    by (rule credit_cases) (use c(2) in auto)
  let ?d = "conv_debited (cv_now en') acc p"
  have "js_add (js_sub (pa_balance acc) p) p = pa_balance acc"
    using js_floor_exact(2) [of "pa_balance acc"] assms(3) c(3,5) by simp
  then have d: "?d\<lparr>pa_balance := js_add (js_sub (pa_balance acc) p) p, pa_last := pa_last acc\<rparr> = acc"
    by (simp add: conv_debited_def)
  from assms(5) have "accounts W4 = coll_put pa_address acc (accounts W3)
      \<and> (\<exists>es. outbox (mainWorld W4) = outbox (mainWorld W3) @ es)"
  proof (cases rule: conv_pay_cases)
    case (failed e')
    from failed(4) have "\<exists>es. outbox (mainWorld W4) = outbox (mainWorld W3) @ es" by (rule credit_cases) auto
    with failed(2) d show ?thesis by simp
  qed simp
  moreover have "coll_put pa_address acc (accounts W3) = accounts W"
    unfolding ok(2) using coll_put_same [of pa_address acc "accounts W"] c(1,2)
    by (simp add: conv_debit_def conv_debited_def find_account_def)
  ultimately show ?thesis using ok(4) gas by auto
qed

lemma period_closed: "same_period hb t now \<Longrightarrow> \<not> cs_canConvert (buildConversionStatus hb (Some t) now anyDay)"
  by (simp add: buildConversionStatus_def conv_last_def Let_def)

text \<open>
  after a conversion the account converts no more in the same month, if it has a badge, or in the
  same year, if it has none, whatever the day and even with the override of the days.
\<close>

theorem conversion_once_per_period:
  assumes "mallpointsConvert en b W = (CvOk p m l, W')" "cb_address b' = cb_address b"
    and "same_period (cv_badge en' (cb_address b)) (cv_now en) (cv_now en')"
  shows "(\<forall>p m l. fst (mallpointsConvert en' b' W') \<noteq> CvOk p m l)
    \<and> accounts (snd (mallpointsConvert en' b' W')) = accounts W' \<and> mainWorld (snd (mallpointsConvert en' b' W')) = mainWorld W'"
proof -
  from assms(1) have "\<exists>acc. find_account (cb_address b) W' = Some acc \<and> pa_last acc = Some (cv_now en)"
  proof (cases rule: convert_cases)
    case (paid acc q W1)
    note c = conv_check_passed [OF paid(2)]
    let ?acc = "conv_debited (cv_now en) acc q"
    have "accounts W' = coll_put pa_address ?acc (accounts W)"
      using paid(3,4) by (auto elim!: conv_pay_cases simp: conv_debit_def)
    then have "find_account (cb_address b) W' = Some ?acc"
      using paid(6) c(2) coll_find_put_same [of pa_address ?acc "accounts W"] by (simp add: find_account_def conv_debited_def)
    then show ?thesis by (auto simp: conv_debited_def)
  qed simp
  then obtain acc where acc: "find_account (cb_address b) W' = Some acc" "pa_last acc = Some (cv_now en)" by blast
  obtain r W2 where m: "mallpointsConvert en' b' W' = (r, W2)" by fastforce
  then show ?thesis
  proof (cases rule: convert_cases)
    case (paid acc' q W1)
    have "acc' = acc" using paid(6) acc(1) assms(2) by simp
    with conv_check_passed(6) [OF paid(2)] acc(2) period_closed [OF assms(3)] assms(2) show ?thesis by simp
  qed (simp add: m)
qed

text \<open>
  all the whole points of an account are converted at once, so an account whose points are worth
  more than the faucet gives in one request never converts.
\<close>

theorem rich_account_never_converts:
  assumes "find_account (cb_address b) W = Some acc" "fe_max (cv_faucet en) < conv_amount (cv_params en) (js_floor (pa_balance acc))"
  shows "\<forall>p m l. fst (mallpointsConvert en b W) \<noteq> CvOk p m l"
proof (intro allI notI)
  fix p m l
  assume "fst (mallpointsConvert en b W) = CvOk p m l"
  then obtain W' where "mallpointsConvert en b W = (CvOk p m l, W')" by (cases "mallpointsConvert en b W") auto
  then show False
  proof (cases rule: convert_cases)
    case (paid acc' q W1)
    have a: "acc' = acc" using paid(6) assms(1) by simp
    from paid(3) show False
    proof (cases rule: conv_pay_cases)
      case (ok x l' M es)
      from ok(4) show False
        by (rule credit_cases) (use assms(2) conv_check_passed(3) [OF paid(2)] a in \<open>auto simp: credit_guards_def\<close>)
    qed simp
  qed simp
qed

definition is_pool_add :: "effect \<Rightarrow> bool" where
  "is_pool_add e = (case e of EAddLiquidity _ _ _ \<Rightarrow> True | _ \<Rightarrow> False)"

definition pool_adds :: "world \<Rightarrow> nat" where "pool_adds W = length (filter is_pool_add (outbox W))"

lemma add_ok_adds: "addLiquidityToPool en i x y u W = (Inr q, W') \<Longrightarrow> pool_adds W' = Suc (pool_adds W)"
  by (erule add_cases) (auto simp: pool_adds_def frame_simps emit_def is_pool_add_def save_pool_def ensurePoolsLoaded_def load_pools_def Let_def)

text \<open>
  the liquidity of one conversion is added twice when only the journal entry of the addition cannot
  be written: the request takes it for a failed addition and queues it, and the worker adds it again.
\<close>

theorem journal_failure_adds_twice:
  assumes "cv_journalFails en = Some e" "\<not> cv_queueFails en"
    and "addLiquidityToPool (cv_liq en) CONVERT_POOL (ANum m) (ANum k) a (mainWorld W) = (Inr q, M)"
    and "conv_liquidity en a m k W = (l, W1)"
  shows "\<exists>j. l = LqQueued e \<and> convQueue W1 = convQueue W @ [j] \<and> cj_mlcoins j = m \<and> cj_kesValue j = k
    \<and> (\<forall>en' x W2. convert_worker en' j W1 = (Inr x, W2) \<longrightarrow> pool_adds (mainWorld W2) = pool_adds (mainWorld W) + 2)"
proof -
  let ?j = "\<lparr>cj_address = a, cj_mlcoins = m, cj_kesValue = k, cj_poolId = CONVERT_POOL,
              cj_firstFailedAt = cv_now en, cj_originalError = e\<rparr>"
  have w: "l = LqQueued e" "W1 = W\<lparr>mainWorld := M, convQueue := convQueue W @ [?j]\<rparr>"
    using assms by (simp_all add: conv_liquidity_def enqueueConvertLiquidityFailure_def Let_def)
  have "pool_adds (mainWorld W2) = pool_adds (mainWorld W) + 2" if "convert_worker en' ?j W1 = (Inr x, W2)" for en' x W2
  proof -
    obtain r M' where r: "addLiquidityToPool (cv_liq en') (if cj_poolId ?j = 0 then 2 else cj_poolId ?j) (ANum m) (ANum k) a M = (r, M')"
      by fastforce
    with that w(2) obtain q' where "r = Inr q'" "mainWorld W2 = M'"
      by (auto simp: convert_worker_def Let_def split: sum.splits option.splits)
    with r add_ok_adds [OF assms(3)] show ?thesis by (auto dest: add_ok_adds)
  qed
  with w show ?thesis by (intro exI [of _ ?j]) auto
qed

text \<open>
  with Redis, a signature serves once. After a request that was not refused for its signature, the
  same signed request is refused, however long later, because its time is too old before Redis forgets it.
\<close>

theorem signature_single_use:
  assumes "conv_owner en b W = (None, W1)" "usedSignatures W' = usedSignatures W1"
    and "\<not> cv_testMode en" "cv_redis en" "\<not> cv_testMode en'" "cv_redis en'"
    and "cv_parse en' (cb_timestamp b) = cv_parse en (cb_timestamp b)" "cv_now en \<le> cv_now en'"
  shows "\<exists>r. conv_owner en' b W' = (Some r, W') \<and> (r = CvExpired \<or> r = CvReused)"
proof -
  from conv_owner_passed(2,3) [OF assms(1)] assms(3,4) obtain t where
    t: "cv_parse en (cb_timestamp b) = Some t" "\<bar>cv_now en - t\<bar> \<le> 600000" and W1: "W1 = consume (cv_now en) (cb_signature b) W"
    by (auto simp: CONVERT_SIGNATURE_MAX_AGE_MS_def)
  have body: "cb_address b \<noteq> []" "cb_timestamp b \<noteq> []" "cb_pubKey b \<noteq> []" "cb_signature b \<noteq> []"
    using assms(1) by (auto simp: conv_owner_def split: if_splits)
  show ?thesis
  proof (cases "600000 < \<bar>cv_now en' - t\<bar>")
    case True
    with t(1) assms(7) body show ?thesis by (simp add: conv_owner_def CONVERT_SIGNATURE_MAX_AGE_MS_def)
  next
    case False
    with t(2) assms(8) have "cv_now en' < cv_now en + 3600000" by linarith
    then have "consumed (cv_now en') (cb_signature b) W'"
      using assms(2) by (simp add: W1 consumed_def consume_def ADR036_CONSUMED_TTL_SECONDS_def)
    with False t(1) assms(5-7) body show ?thesis by (simp add: conv_owner_def CONVERT_SIGNATURE_MAX_AGE_MS_def)
  qed
qed

text \<open>
  the date announced for the next conversion can be a date on which it is refused: after the
  conversion of a badge holder on the fifteenth, the same day is still announced.
\<close>

theorem next_allowed_already_used:
  assumes "same_period True t now" "ud_day (utc_of now) = 15"
  shows "\<not> cs_canConvert (buildConversionStatus True (Some t) now False)
    \<and> cs_reason (buildConversionStatus True (Some t) now False) = Some ThisMonth
    \<and> cs_nextAllowed (buildConversionStatus True (Some t) now False) = Some (date_UTC (ud_year (utc_of now)) (ud_month (utc_of now)) 15)"
  using assms by (simp add: buildConversionStatus_def conv_last_def conv_window_def Let_def)

section \<open>Witnesses\<close>

definition demo_lib :: sig_lib where
  "demo_lib = \<lparr>sl_fromBase64 = (\<lambda>_. Some (replicate 64 CHR ''x'')), sl_digest = (\<lambda>_ _. Some ''h''),
     sl_verify = (\<lambda>_ _ _. Some True), sl_address = (\<lambda>_ _. Some ''mall1'')\<rparr>"

text \<open>The fifteenth of January 2024, and a signature made a second before.\<close>

definition demo_conv :: "faucet_env \<Rightarrow> conv_env" where
  "demo_conv f = \<lparr>cv_now = 1705276800000, cv_parse = (\<lambda>_. Some 1705276799000), cv_testMode = False, cv_redis = True,
     cv_lib = demo_lib, cv_prefix = ''mall'', cv_badge = (\<lambda>_. True), cv_anyDay = False,
     cv_params = getChainParams None None, cv_price = None, cv_faucet = f, cv_liq = demo_chain,
     cv_journalFails = None, cv_queueFails = False\<rparr>"

definition demo_conv_body :: conv_body where
  "demo_conv_body = \<lparr>cb_address = ''mall1'', cb_timestamp = ''2024-01-14T23:59:59Z'', cb_pubKey = ''k'', cb_signature = ''s''\<rparr>"

definition demo_account :: "num \<Rightarrow> point_account" where
  "demo_account n = \<lparr>pa_address = ''mall1'', pa_balance = n + 1 / 2, pa_last = None\<rparr>"

definition demo_points :: "num \<Rightarrow> points_world" where
  "demo_points n = \<lparr>accounts = [demo_account n], usedSignatures = [], convQueue = [], convJournal = [],
     deadLetters = [], mainWorld = empty_world\<rparr>"

lemma demo_day: "utc_of 1705276800000 = \<lparr>ud_year = 2024, ud_month = 0, ud_day = 15\<rparr>"
  by code_simp

lemma fl_numeral: "(numeral n :: int) \<le> 2 ^ 53 \<Longrightarrow> fl (numeral n) = numeral n"
  using fl_of_int [of "numeral n"] by simp

lemma js_round_numeral [simp]: "js_round (numeral n) = numeral n"
  using js_round_int [of "numeral n"] by simp

lemmas demo_amounts = conv_amount_def getChainParams_def js_mul_def js_div_def MLPTS_PER_MLCNS_SCALE_def
  DEFAULT_MLPTS_PER_MLCNS_FIXED_def fl_numeral Let_def

lemma demo_conv_amount: "conv_amount (getChainParams None None) 100 = 320"
  by (simp add: demo_amounts)

lemma demo_conv_owner:
  "\<exists>W1. conv_owner (demo_conv f) demo_conv_body (demo_points n) = (None, W1) \<and> accounts W1 = [demo_account n] \<and> mainWorld W1 = empty_world"
  by (simp add: conv_owner_def demo_conv_def demo_conv_body_def demo_points_def CONVERT_SIGNATURE_MAX_AGE_MS_def consumed_def
      verifyConvertSignature_def verifyOwnershipSignature_def convertMessage_def demo_lib_def consume_def Let_def)

lemma demo_conv_check:
  assumes "accounts W1 = [demo_account 100]"
  shows "conv_check (demo_conv f) ''mall1'' W1 = Inr (demo_account 100, 100)"
proof -
  have "cs_canConvert (buildConversionStatus True None 1705276800000 False)"
    by (simp add: buildConversionStatus_def conv_last_def conv_window_def demo_day Let_def)
  moreover have "js_floor (100 + 1 / 2) = 100" by code_simp
  ultimately show ?thesis
    using assms by (simp add: conv_check_def find_account_def demo_account_def demo_conv_def Let_def)
qed

lemma demo_balance: "fl (pa_balance (demo_account 100)) = pa_balance (demo_account 100)"
  using fl_exact [of 201 "- 1"] by (simp add: demo_account_def power_int_minus)

lemma demo_credit_320:
  "\<exists>x M. creditMlcns (demo_faucet False 5 NoRedis) ''mall1'' 320 empty_world = (Inr x, M)"
  using demo_tx_ok
  by (simp add: creditMlcns_def isFaucetEnabled_def getFundingAccount_def truthy_str_def demo_faucet_def
      checkAddressCooldown_def last_request_def checkCooldown_def guardFaucetFundedOrThrow_def
      transferAndFundGas_def getSequenceOrDefault_def Let_def)

lemma demo_conv_pay:
  assumes "mainWorld W = empty_world"
  shows "\<exists>l W'. conv_pay (demo_conv (demo_faucet False 5 NoRedis)) (demo_account 100) 100 W = (CvOk 100 320 l, W')"
proof -
  obtain x M where c: "creditMlcns (demo_faucet False 5 NoRedis) ''mall1'' 320 empty_world = (Inr x, M)" using demo_credit_320 by blast
  then show ?thesis
    using assms demo_conv_amount by (simp add: conv_pay_def demo_conv_def demo_account_def Let_def split: prod.splits)
qed

lemma demo_converts:
  "\<exists>l W'. mallpointsConvert (demo_conv (demo_faucet False 5 NoRedis)) demo_conv_body (demo_points 100) = (CvOk 100 320 l, W')"
proof -
  let ?en = "demo_conv (demo_faucet False 5 NoRedis)"
  obtain W1 where o: "conv_owner ?en demo_conv_body (demo_points 100) = (None, W1)" "accounts W1 = [demo_account 100]" "mainWorld W1 = empty_world"
    using demo_conv_owner by blast
  have c: "conv_check ?en (cb_address demo_conv_body) W1 = Inr (demo_account 100, 100)"
    using demo_conv_check [OF o(2)] by (simp add: demo_conv_body_def)
  have "mainWorld (conv_debit ?en (demo_account 100) 100 W1) = empty_world" using o(3) by (simp add: conv_debit_def)
  from demo_conv_pay [OF this] o(1) c show ?thesis by (simp add: mallpointsConvert_def)
qed

theorem conversion_settles_witness:
  "\<exists>l W' acc'. mallpointsConvert (demo_conv (demo_faucet False 5 NoRedis)) demo_conv_body (demo_points 100) = (CvOk 100 320 l, W')
     \<and> find_account ''mall1'' W' = Some acc' \<and> pa_last acc' = Some 1705276800000"
proof -
  obtain l W' where h: "mallpointsConvert (demo_conv (demo_faucet False 5 NoRedis)) demo_conv_body (demo_points 100) = (CvOk 100 320 l, W')"
    using demo_converts by blast
  from conversion_settles [OF h] h show ?thesis by (auto simp: demo_conv_body_def demo_conv_def)
qed


theorem conversion_once_per_period_witness:
  "\<exists>W'. accounts (snd (mallpointsConvert (demo_conv (demo_faucet False 9 NoRedis)) demo_conv_body W')) = accounts W'
     \<and> find_account ''mall1'' W' \<noteq> None"
proof -
  let ?en = "demo_conv (demo_faucet False 5 NoRedis)"
  obtain l W' where h: "mallpointsConvert ?en demo_conv_body (demo_points 100) = (CvOk 100 320 l, W')"
    using demo_converts by blast
  have "accounts (snd (mallpointsConvert (demo_conv (demo_faucet False 9 NoRedis)) demo_conv_body W')) = accounts W'"
    using conversion_once_per_period [OF h, of demo_conv_body "demo_conv (demo_faucet False 9 NoRedis)"]
    by (simp add: demo_conv_def same_period_def)
  moreover from h have "map pa_address (accounts W') = map pa_address (accounts (demo_points 100))"
    by (cases rule: convert_cases) (auto elim!: conv_pay_cases simp: conv_debit_def)
  then have "find_account ''mall1'' W' \<noteq> None" by (auto simp: find_account_def coll_find_None demo_points_def demo_account_def)
  ultimately show ?thesis by blast
qed

definition stuck_tx :: tx_env where "stuck_tx = \<lparr>te_sync = Inl ''timeout'', te_poll = (\<lambda>_. PollNotYet None), te_latency = (\<lambda>_. 20)\<rparr>"

definition stuck_faucet :: faucet_env where "stuck_faucet = (demo_faucet False 5 NoRedis)\<lparr>fe_transferTx := stuck_tx\<rparr>"

lemma stuck_guards: "credit_guards stuck_faucet ''mall1'' 320 empty_world"
  by (simp add: credit_guards_def isFaucetEnabled_def getFundingAccount_def truthy_str_def stuck_faucet_def demo_faucet_def
      checkAddressCooldown_def last_request_def checkCooldown_def guardFaucetFundedOrThrow_def)

theorem conversion_pays_and_restores_witness:
  "\<exists>e W' u. mallpointsConvert (demo_conv stuck_faucet) demo_conv_body (demo_points 100) = (CvCreditFailed e, W')
     \<and> accounts W' = [demo_account 100] \<and> outbox (mainWorld W') = [ECredit ''mall1'' u]"
proof -
  let ?en = "demo_conv stuck_faucet"
  obtain W1 where o: "conv_owner ?en demo_conv_body (demo_points 100) = (None, W1)" "accounts W1 = [demo_account 100]"
    using demo_conv_owner by blast
  have c: "conv_check ?en (cb_address demo_conv_body) W1 = Inr (demo_account 100, 100)"
    using demo_conv_check [OF o(2)] by (simp add: demo_conv_body_def)
  have "credit_guards (cv_faucet ?en) (cb_address demo_conv_body) (conv_amount (cv_params ?en) 100) (mainWorld (demo_points 100))"
    using stuck_guards demo_conv_amount by (simp add: demo_conv_def demo_conv_body_def demo_points_def)
  moreover have "getSequenceOrDefault (fe_sequence (cv_faucet ?en)) = Inr (1, 4)"
    by (simp add: demo_conv_def stuck_faucet_def demo_faucet_def getSequenceOrDefault_def)
  moreover have "builder_broadcast (fe_transferTx (cv_faucet ?en)) = Inl ''timeout''"
    by (simp add: demo_conv_def stuck_faucet_def stuck_tx_def builder_broadcast_def)
  ultimately have "\<exists>e W'. mallpointsConvert ?en demo_conv_body (demo_points 100) = (CvCreditFailed e, W') \<and> accounts W' = accounts (demo_points 100)
      \<and> outbox (mainWorld W') = outbox (mainWorld (demo_points 100)) @ [ECredit (cb_address demo_conv_body)
          (mc_toBaseUnits (fe_decimals (cv_faucet ?en)) (conv_amount (cv_params ?en) 100))]"
    by (rule conversion_pays_and_restores [OF o(1) c demo_balance])
  then show ?thesis by (auto simp: demo_points_def demo_conv_body_def)
qed

theorem failed_conversion_restores_witness:
  "\<exists>e W'. mallpointsConvert (demo_conv (demo_faucet True 5 NoRedis)) demo_conv_body (demo_points 100) = (CvCreditFailed e, W')
     \<and> accounts W' = [demo_account 100]"
proof -
  let ?en = "demo_conv (demo_faucet True 5 NoRedis)"
  obtain W1 where o: "conv_owner ?en demo_conv_body (demo_points 100) = (None, W1)" "accounts W1 = [demo_account 100]"
    using demo_conv_owner by blast
  have "conv_check ?en (cb_address demo_conv_body) W1 = Inr (demo_account 100, 100)"
    using demo_conv_check [OF o(2)] by (simp add: demo_conv_body_def)
  with o(1) have "\<exists>e W'. mallpointsConvert ?en demo_conv_body (demo_points 100) = (CvCreditFailed e, W')"
    by (simp add: mallpointsConvert_def conv_pay_def creditMlcns_def isFaucetEnabled_def Let_def)
      (simp add: demo_conv_def demo_faucet_def)
  then obtain e W' where h: "mallpointsConvert ?en demo_conv_body (demo_points 100) = (CvCreditFailed e, W')" by blast
  have f: "find_account (cb_address demo_conv_body) (demo_points 100) = Some (demo_account 100)"
    by (simp add: find_account_def demo_points_def demo_conv_body_def demo_account_def)
  from failed_conversion_restores [OF h f demo_balance] h show ?thesis by (auto simp: demo_points_def)
qed

theorem conversion_race_restores_points_witness:
  "\<exists>(W4 :: points_world) u es. accounts W4 = [demo_account 100] \<and> outbox (mainWorld W4) = ECredit ''mall1'' u # es"
proof -
  let ?en = "demo_conv (demo_faucet False 5 NoRedis)" and ?en' = "demo_conv (demo_faucet True 5 NoRedis)"
  have c: "conv_check ?en ''mall1'' (demo_points 100) = Inr (demo_account 100, 100)"
    "conv_check ?en' ''mall1'' (demo_points 100) = Inr (demo_account 100, 100)"
    by (rule demo_conv_check, simp add: demo_points_def)+
  obtain l W3 where w3: "conv_pay ?en (demo_account 100) 100 (conv_debit ?en' (demo_account 100) 100
      (conv_debit ?en (demo_account 100) 100 (demo_points 100))) = (CvOk 100 320 l, W3)"
    using demo_conv_pay by (force simp: conv_debit_def demo_points_def)
  have "\<exists>e W4. conv_pay ?en' (demo_account 100) 100 W3 = (CvCreditFailed e, W4)"
    by (simp add: conv_pay_def creditMlcns_def isFaucetEnabled_def Let_def) (simp add: demo_conv_def demo_faucet_def)
  then obtain e W4 where w4: "conv_pay ?en' (demo_account 100) 100 W3 = (CvCreditFailed e, W4)" by blast
  from conversion_race_restores_points [OF c demo_balance w3 w4]
  have "accounts W4 = [demo_account 100] \<and> (\<exists>u es. outbox (mainWorld W4) = ECredit ''mall1'' u # es)"
    by (auto simp: demo_points_def)
  then show ?thesis by blast
qed

theorem rich_account_never_converts_witness:
  "\<forall>p m l. fst (mallpointsConvert (demo_conv (demo_faucet False 5 NoRedis)) demo_conv_body (demo_points 5000)) \<noteq> CvOk p m l"
proof -
  have "conv_amount (getChainParams None None) (js_floor (5000 + 1 / 2)) = 16000"
  proof -
    have "js_floor (5000 + 1 / 2) = 5000" by code_simp
    then show ?thesis by (simp add: demo_amounts)
  qed
  then show ?thesis
    by (intro rich_account_never_converts [where acc = "demo_account 5000"])
      (simp_all add: find_account_def demo_points_def demo_conv_body_def demo_account_def demo_conv_def demo_faucet_def)
qed

theorem signature_single_use_witness:
  "\<exists>r W1. conv_owner (demo_conv (demo_faucet False 9 NoRedis)) demo_conv_body W1 = (Some r, W1) \<and> (r = CvExpired \<or> r = CvReused)"
proof -
  obtain W1 where o: "conv_owner (demo_conv (demo_faucet False 5 NoRedis)) demo_conv_body (demo_points 100) = (None, W1)"
    using demo_conv_owner by blast
  have "\<exists>r. conv_owner (demo_conv (demo_faucet False 9 NoRedis)) demo_conv_body W1 = (Some r, W1) \<and> (r = CvExpired \<or> r = CvReused)"
    by (rule signature_single_use [OF o refl]) (simp_all add: demo_conv_def)
  then show ?thesis by blast
qed

theorem next_allowed_already_used_witness:
  "\<not> cs_canConvert (buildConversionStatus True (Some 1705276800000) 1705276800000 False)"
  using next_allowed_already_used [of 1705276800000 1705276800000] by (simp add: same_period_def demo_day)

end
