(* ===== verification/Idempotency.thy ===== *)
theory Idempotency
  imports JsNumber Store
begin

text \<open>
  The guard of repeated requests, \<open>middleware/idempotency.js\<close> over \<open>models/IdempotencyKey.js\<close>, and the
  shared secret of the provider's callbacks, \<open>middleware/verifyWebhookToken.js\<close>. The guard is two
  database calls and the handler behind it; requests interleave between them.
\<close>

section \<open>Keys and requests\<close>

datatype idem_status = IdPending | IdSuccess | IdFailed

text \<open>A field of a response: a number or another value, as text.\<close>

datatype jval = JNum num | JText string | JOther string

record idem_doc =
  ik_key :: string
  ik_wallet :: string
  ik_amount :: num
  ik_status :: idem_status
  ik_result :: "(string \<times> jval) list"
  ik_error :: "string option"

text \<open>
  The amounts of a request: \<open>None\<close> is absent, \<open>Some None\<close> a value that is not a number, on which the
  database layer refuses the document.
\<close>

record idem_req =
  ir_method :: string
  ir_key :: string
  ir_walletAddress :: "string option"
  ir_userId :: "string option"
  ir_amount :: "num option option"
  ir_amountMlcns :: "num option option"
  ir_amountKes :: "num option option"

text \<open>A response body: \<open>ok\<close>, the error, which can be a text or an object, and the other fields.\<close>

record resp_body =
  rb_ok :: bool
  rb_error :: "jval option"
  rb_fields :: "(string \<times> jval) list"

datatype idem_resp =
    IrMissing | IrReplay "(string \<times> jval) list" | IrPrevious string | IrProcessing

fun idem_code :: "idem_resp \<Rightarrow> nat" where
  "idem_code IrMissing = 400"
| "idem_code (IrReplay _) = 200"
| "idem_code (IrPrevious _) = 400"
| "idem_code IrProcessing = 202"

definition find_key_doc :: "string \<Rightarrow> idem_doc list \<Rightarrow> idem_doc option" where
  "find_key_doc k ds = coll_find (\<lambda>d. ik_key d = k) ds"

section \<open>The guard\<close>

text \<open>What a request does before any database call: pass unguarded, be refused, or be looked up.\<close>

datatype idem_entry = EnterUnguarded | EnterRefused idem_resp | EnterLookup

definition idem_enter :: "bool \<Rightarrow> idem_req \<Rightarrow> idem_entry" where
  "idem_enter required q =
     (if ir_method q \<notin> {''POST'', ''PUT'', ''PATCH''} then EnterUnguarded
      else if ir_key q = [] then (if required then EnterRefused IrMissing else EnterUnguarded)
      else EnterLookup)"

definition idem_answer :: "idem_doc \<Rightarrow> idem_resp" where
  "idem_answer d =
     (case ik_status d of IdSuccess \<Rightarrow> IrReplay (ik_result d)
      | IdFailed \<Rightarrow> IrPrevious (the (str_or (ik_error d) (Some ''Previous request failed'')))
      | IdPending \<Rightarrow> IrProcessing)"

text \<open>
  The outcome of a database call of the guard: an answer, the handler behind the guard, or the handler
  without it, after an error.
\<close>

datatype idem_next = Answered idem_resp | Guarded | Unguarded | Create

definition idem_lookup :: "bool \<Rightarrow> idem_req \<Rightarrow> idem_doc list \<Rightarrow> idem_next" where
  "idem_lookup dbFails q ds =
     (if dbFails then Unguarded
      else case find_key_doc (ir_key q) ds of Some d \<Rightarrow> Answered (idem_answer d) | None \<Rightarrow> Create)"

definition idem_amount :: "idem_req \<Rightarrow> num option option" where
  "idem_amount q = nullish (nullish (nullish (ir_amount q) (ir_amountMlcns q)) (ir_amountKes q)) (Some (Some 0))"

definition new_key :: "idem_req \<Rightarrow> num \<Rightarrow> idem_doc" where
  "new_key q n = \<lparr>ik_key = ir_key q,
     ik_wallet = the (str_or (ir_walletAddress q) (str_or (ir_userId q) (Some ''unknown''))), ik_amount = n,
     ik_status = IdPending, ik_result = [], ik_error = None\<rparr>"

text \<open>
  The insertion. The unique index refuses a second document of a key; then the stored one answers, if
  it can still be read. \<open>secondFails\<close> is an error of that read.
\<close>

definition idem_create :: "bool \<Rightarrow> bool \<Rightarrow> idem_req \<Rightarrow> idem_doc list \<Rightarrow> idem_next \<times> idem_doc list" where
  "idem_create dbFails secondFails q ds =
     (case idem_amount q of
        Some (Some n) \<Rightarrow>
          if dbFails then (Unguarded, ds)
          else if find_key_doc (ir_key q) ds \<noteq> None
          then (if secondFails then Unguarded
                else Answered (case find_key_doc (ir_key q) ds of None \<Rightarrow> IrProcessing | Some d \<Rightarrow> idem_answer d), ds)
          else (Guarded, ds @ [new_key q n])
      | _ \<Rightarrow> (Unguarded, ds))"

text \<open>
  The result that is stored when the handler answers: the fields of the schema, whose balance must be a
  number; an error that is not a text does not fit the schema either, and then nothing is stored.
\<close>

definition result_fields :: "resp_body \<Rightarrow> (string \<times> jval) list" where
  "result_fields b = filter (\<lambda>f. fst f \<in> {''txHash'', ''balance'', ''transfer''}) (rb_fields b)"

definition castable :: "resp_body \<Rightarrow> bool" where
  "castable b =
     (if rb_ok b then (\<forall>f \<in> set (rb_fields b). fst f = ''balance'' \<longrightarrow> (case snd f of JNum _ \<Rightarrow> True | _ \<Rightarrow> False))
                   \<and> (\<forall>f \<in> set (rb_fields b). fst f = ''txHash'' \<longrightarrow> (case snd f of JOther _ \<Rightarrow> False | _ \<Rightarrow> True))
      else (case rb_error b of Some (JOther _) \<Rightarrow> False | _ \<Rightarrow> True))"

definition error_text :: "resp_body \<Rightarrow> string option" where
  "error_text b = (case rb_error b of Some (JText s) \<Rightarrow> Some s | _ \<Rightarrow> None)"

definition idem_record :: "bool \<Rightarrow> string \<Rightarrow> resp_body \<Rightarrow> idem_doc list \<Rightarrow> idem_doc list" where
  "idem_record updateFails k b ds =
     (if updateFails \<or> \<not> castable b then ds
      else case find_key_doc k ds of None \<Rightarrow> ds
        | Some d \<Rightarrow> coll_put ik_key (d\<lparr>ik_status := (if rb_ok b then IdSuccess else IdFailed),
            ik_result := (if rb_ok b then result_fields b else []),
            ik_error := (if rb_ok b then None else error_text b)\<rparr>) ds)"

section \<open>The secret of the callbacks\<close>

text \<open>The comparison of two buffers in constant time compares their contents.\<close>

definition verifyWebhookToken :: "string option \<Rightarrow> string option \<Rightarrow> bool" where
  "verifyWebhookToken secret token =
     (if \<not> truthy_str secret then True else or_else token [] = the secret)"

section \<open>One request at a time\<close>

datatype idem_result = Direct idem_resp | Handled resp_body

text \<open>The whole middleware around a handler \<open>h\<close> that works on the state \<open>'w\<close>, without database errors.\<close>

definition idempotent :: "bool \<Rightarrow> idem_req \<Rightarrow> ('w \<Rightarrow> resp_body \<times> 'w) \<Rightarrow> idem_doc list \<times> 'w \<Rightarrow> idem_result \<times> (idem_doc list \<times> 'w)" where
  "idempotent required q h s =
     (case s of (ds, w) \<Rightarrow>
        (case idem_enter required q of
           EnterUnguarded \<Rightarrow> (case h w of (b, w') \<Rightarrow> (Handled b, (ds, w')))
         | EnterRefused r \<Rightarrow> (Direct r, s)
         | EnterLookup \<Rightarrow>
             (case idem_lookup False q ds of
                Answered r \<Rightarrow> (Direct r, s)
              | _ \<Rightarrow>
                  (case idem_create False False q ds of
                     (Answered r, ds') \<Rightarrow> (Direct r, (ds', w))
                   | (Guarded, ds') \<Rightarrow> (case h w of (b, w') \<Rightarrow> (Handled b, (idem_record False (ir_key q) b ds', w')))
                   | (_, ds') \<Rightarrow> (case h w of (b, w') \<Rightarrow> (Handled b, (ds', w')))))))"

section \<open>Interleaved requests\<close>

text \<open>
  The state: the documents, the requests that found no document and are about to insert one, the
  guarded handlers that run, and three logs of keys: of the handlers started, of the database errors
  (a value the schema refuses is one), and of the documents that expired after a day.
\<close>

type_synonym idem_state = "idem_doc list \<times> idem_req list \<times> string list \<times> string list \<times> string list \<times> string list"

inductive idem_step :: "idem_state \<Rightarrow> idem_state \<Rightarrow> bool" where
  lookup_answered: "idem_lookup f q ds = Answered r \<Longrightarrow> idem_step (ds, ws, rs, es, fs, xs) (ds, ws, rs, es, fs, xs)"
| lookup_create: "idem_lookup f q ds = Create \<Longrightarrow> idem_step (ds, ws, rs, es, fs, xs) (ds, q # ws, rs, es, fs, xs)"
| lookup_failed: "idem_lookup f q ds = Unguarded \<Longrightarrow> idem_step (ds, ws, rs, es, fs, xs) (ds, ws, rs, ir_key q # es, ir_key q # fs, xs)"
| create_answered: "q \<in> set ws \<Longrightarrow> idem_create f g q ds = (Answered r, ds') \<Longrightarrow>
    idem_step (ds, ws, rs, es, fs, xs) (ds', remove1 q ws, rs, es, fs, xs)"
| create_guarded: "q \<in> set ws \<Longrightarrow> idem_create f g q ds = (Guarded, ds') \<Longrightarrow>
    idem_step (ds, ws, rs, es, fs, xs) (ds', remove1 q ws, ir_key q # rs, ir_key q # es, fs, xs)"
| create_failed: "q \<in> set ws \<Longrightarrow> idem_create f g q ds = (Unguarded, ds') \<Longrightarrow>
    idem_step (ds, ws, rs, es, fs, xs) (ds', remove1 q ws, rs, ir_key q # es, ir_key q # fs, xs)"
| respond: "k \<in> set rs \<Longrightarrow> idem_step (ds, ws, rs, es, fs, xs) (idem_record f k b ds, ws, remove1 k rs, es, fs, xs)"
| expire: "find_key_doc k ds = Some d \<Longrightarrow>
    idem_step (ds, ws, rs, es, fs, xs) (filter (\<lambda>d. ik_key d \<noteq> k) ds, ws, rs, es, fs, k # xs)"

definition idem_inv :: "idem_state \<Rightarrow> bool" where
  "idem_inv = (\<lambda>(ds, ws, rs, es, fs, xs). distinct (map ik_key ds) \<and>
     (\<forall>k. count_list es k = (if find_key_doc k ds = None then 0 else 1) + count_list fs k + count_list xs k))"

lemma find_key_append: "find_key_doc k (ds @ [d]) = None \<longleftrightarrow> find_key_doc k ds = None \<and> ik_key d \<noteq> k"
  by (auto simp: find_key_doc_def coll_find_None)

lemma idem_record_keys: "map ik_key (idem_record f k b ds) = map ik_key ds"
  by (simp add: idem_record_def split: option.splits)

lemma idem_record_present: "find_key_doc k' (idem_record f k b ds) = None \<longleftrightarrow> find_key_doc k' ds = None"
  using arg_cong [OF idem_record_keys [of f k b ds], of set] by (force simp: find_key_doc_def coll_find_None)

lemma idem_create_cases:
  assumes "idem_create f g q ds = (n, ds')"
  obtains (same) "ds' = ds" "n \<noteq> Guarded"
  | (new) v where "n = Guarded" "ds' = ds @ [new_key q v]" "find_key_doc (ir_key q) ds = None"
  using assms by (auto simp: idem_create_def split: option.splits if_splits)

lemma idem_inv_step: "idem_step s s' \<Longrightarrow> idem_inv s \<Longrightarrow> idem_inv s'"
proof (induction rule: idem_step.induct)
  case (create_answered q ws f g ds r ds' rs es fs xs)
  from create_answered(2) have "ds' = ds" by (rule idem_create_cases) auto
  with create_answered(3) show ?case by (simp add: idem_inv_def)
next
  case (create_guarded q ws f g ds ds' rs es fs xs)
  from create_guarded(2) obtain v where v: "ds' = ds @ [new_key q v]" "find_key_doc (ir_key q) ds = None"
    by (rule idem_create_cases) auto
  have k: "ik_key (new_key q v) = ir_key q" by (simp add: new_key_def)
  with v(2) have "ir_key q \<notin> ik_key ` set ds" by (auto simp: find_key_doc_def coll_find_None)
  with create_guarded(3) v k show ?case by (auto simp: idem_inv_def find_key_append)
next
  case (create_failed q ws f g ds ds' rs es fs xs)
  from create_failed(2) have "ds' = ds" by (rule idem_create_cases) auto
  with create_failed(3) show ?case by (simp add: idem_inv_def)
next
  case (respond k rs ds ws es fs xs f b)
  then show ?case by (simp add: idem_inv_def idem_record_keys idem_record_present)
next
  case (expire k ds d ws rs es fs xs)
  have "find_key_doc k' (filter (\<lambda>d. ik_key d \<noteq> k) ds) = None \<longleftrightarrow> find_key_doc k' ds = None \<or> k' = k" for k'
    by (auto simp: find_key_doc_def coll_find_None)
  with expire show ?case by (auto simp: idem_inv_def distinct_map_filter)
qed (auto simp: idem_inv_def)


text \<open>
  a request repeated after its answer leaves everything as it is. The repetition of a success is
  answered 200 with the three fields of the schema only, that of a failure 400 with the stored error,
  whatever the status codes and the other fields of the first answers were.
\<close>

theorem repeated_request_replays:
  assumes "idem_enter r q = EnterLookup" "idem_amount q = Some (Some n)" "find_key_doc (ir_key q) ds = None" "castable b" "h w = (b, w')"
  shows "\<exists>ds'. idempotent r q h (ds, w) = (Handled b, (ds', w'))
    \<and> idempotent r q h (ds', w') = (Direct (if rb_ok b then IrReplay (result_fields b)
        else IrPrevious (the (str_or (error_text b) (Some ''Previous request failed'')))), (ds', w'))"
proof -
  let ?d = "new_key q n" and ?k = "ir_key q"
  let ?ds = "idem_record False ?k b (ds @ [?d])"
  have k: "ik_key ?d = ?k" by (simp add: new_key_def)
  have f: "find_key_doc ?k (ds @ [?d]) = Some ?d" using assms(3) k by (simp add: find_key_doc_def coll_find_append)
  have one: "idempotent r q h (ds, w) = (Handled b, (?ds, w'))"
    using assms by (simp add: idempotent_def idem_lookup_def idem_create_def)
  let ?d' = "?d\<lparr>ik_status := (if rb_ok b then IdSuccess else IdFailed), ik_result := (if rb_ok b then result_fields b else []),
      ik_error := (if rb_ok b then None else error_text b)\<rparr>"
  have "?ds = coll_put ik_key ?d' (ds @ [?d])" using assms(4) f by (simp add: idem_record_def)
  then have "find_key_doc ?k ?ds = Some ?d'"
    using f k coll_find_put_same [of ik_key ?d' "ds @ [?d]"] by (simp add: find_key_doc_def)
  then have "idempotent r q h (?ds, w') = (Direct (idem_answer ?d'), (?ds, w'))"
    using assms(1) by (simp add: idempotent_def idem_lookup_def)
  with one show ?thesis by (intro exI [of _ ?ds]) (simp add: idem_answer_def)
qed

text \<open>
  the guard is open for an amount that is not a number. The document of such a request cannot be
  inserted, so every repetition runs the handler again.
\<close>

theorem bad_amount_unguarded:
  assumes "idem_enter r q = EnterLookup" "ir_amount q = Some None" "find_key_doc (ir_key q) ds = None" "h w = (b, w')" "h w' = (b', w'')"
  shows "idempotent r q h (ds, w) = (Handled b, (ds, w')) \<and> idempotent r q h (ds, w') = (Handled b', (ds, w''))"
  using assms by (simp add: idempotent_def idem_lookup_def idem_create_def idem_amount_def)

text \<open>
  an answer that does not fit the schema leaves the key pending, and every repetition is told that
  the request is still being processed, although it is over.
\<close>

theorem uncastable_answer_stays_pending:
  assumes "idem_enter r q = EnterLookup" "idem_amount q = Some (Some n)" "find_key_doc (ir_key q) ds = None" "\<not> castable b" "h w = (b, w')"
  shows "\<exists>ds'. idempotent r q h (ds, w) = (Handled b, (ds', w')) \<and> idempotent r q h (ds', w') = (Direct IrProcessing, (ds', w'))"
proof -
  let ?d = "new_key q n"
  have f: "find_key_doc (ir_key q) (ds @ [?d]) = Some ?d" using assms(3) by (simp add: find_key_doc_def coll_find_append new_key_def)
  then have "idempotent r q h (ds, w) = (Handled b, (ds @ [?d], w'))"
    "idempotent r q h (ds @ [?d], w') = (Direct IrProcessing, (ds @ [?d], w'))"
    using assms by (simp_all add: idempotent_def idem_lookup_def idem_create_def idem_record_def idem_answer_def new_key_def)
  then show ?thesis by blast
qed

text \<open>
  with a configured secret a callback passes only with exactly this secret; without one every
  callback passes.
\<close>

theorem webhook_token_exact:
  "verifyWebhookToken secret token \<longleftrightarrow> secret = None \<or> secret = Some [] \<or> token = secret"
  by (cases token; cases secret) (auto simp: verifyWebhookToken_def truthy_str_def or_else_def)

section \<open>Witnesses\<close>

definition demo_req :: "num option option \<Rightarrow> idem_req" where
  "demo_req a = \<lparr>ir_method = ''POST'', ir_key = ''k1'', ir_walletAddress = Some ''mall1'', ir_userId = None,
     ir_amount = a, ir_amountMlcns = None, ir_amountKes = None\<rparr>"

definition demo_resp :: resp_body where
  "demo_resp = \<lparr>rb_ok = True, rb_error = None, rb_fields = [(''quoteId'', JText ''Q1''), (''txHash'', JText ''H'')]\<rparr>"


theorem repeated_request_replays_witness:
  "\<exists>ds'. idempotent True (demo_req None) (\<lambda>n. (demo_resp, Suc n)) ([], 0) = (Handled demo_resp, (ds', 1))
    \<and> idempotent True (demo_req None) (\<lambda>n. (demo_resp, Suc n)) (ds', 1) = (Direct (IrReplay [(''txHash'', JText ''H'')]), (ds', 1))"
  using repeated_request_replays [of True "demo_req None" 0 "[]" demo_resp "\<lambda>n. (demo_resp, Suc n)" 0 1]
  by (simp add: idem_enter_def demo_req_def idem_amount_def find_key_doc_def castable_def demo_resp_def result_fields_def)

theorem bad_amount_unguarded_witness:
  "idempotent True (demo_req (Some None)) (\<lambda>n. (demo_resp, Suc n)) ([], 0) = (Handled demo_resp, ([], 1))
    \<and> idempotent True (demo_req (Some None)) (\<lambda>n. (demo_resp, Suc n)) ([], 1) = (Handled demo_resp, ([], 2))"
  using bad_amount_unguarded [of True "demo_req (Some None)" "[]" "\<lambda>n. (demo_resp, Suc n)" 0 demo_resp 1 demo_resp 2]
  by (simp add: idem_enter_def demo_req_def find_key_doc_def)

theorem uncastable_answer_stays_pending_witness:
  "\<exists>ds'. idempotent True (demo_req None) (\<lambda>n. (demo_resp\<lparr>rb_ok := False, rb_error := Some (JOther ''{}'')\<rparr>, Suc n)) (ds', 1)
    = (Direct IrProcessing, (ds', 1))"
  using uncastable_answer_stays_pending [of True "demo_req None" 0 "[]" "demo_resp\<lparr>rb_ok := False, rb_error := Some (JOther ''{}'')\<rparr>"
      "\<lambda>n. (demo_resp\<lparr>rb_ok := False, rb_error := Some (JOther ''{}'')\<rparr>, Suc n)" 0 1]
  by (auto simp: idem_enter_def demo_req_def idem_amount_def find_key_doc_def castable_def demo_resp_def)

end
