(* ===== verification/AmlRoute.thy ===== *)
theory AmlRoute
  imports WithdrawalGates
begin

text \<open>
  The declarations of the source of funds, \<open>routes/withdrawalAml.js\<close>, with the names of the uploaded
  files of \<open>middleware/upload.js\<close>. A declaration adds a pending review, which the gate of
  \<open>WithdrawalGates\<close> accepts once an administrator has approved it.
\<close>

section \<open>Uploaded files\<close>

definition name_char :: "char \<Rightarrow> bool" where
  "name_char c = (c \<in> set ''abcdefghijklmnopqrstuvwxyzABCDEFGHIJKLMNOPQRSTUVWXYZ0123456789._-'')"

definition sanitizeFilename :: "string \<Rightarrow> string" where
  "sanitizeFilename name =
     (let s = map (\<lambda>c. if name_char c then c else CHR ''_'') (if name = [] then ''document'' else name)
      in drop (length s - 80) s)"

definition upload_name :: "string \<Rightarrow> int \<Rightarrow> string \<Rightarrow> string" where
  "upload_name userId now original = userId @ ''-'' @ show_int now @ ''-'' @ sanitizeFilename original"

definition allowed_mime :: "string \<Rightarrow> bool" where
  "allowed_mime m = (m \<in> {''image/jpeg'', ''image/png'', ''application/pdf''})"

text \<open>\<open>path.basename\<close>: the last component, without trailing slashes.\<close>

definition basename :: "string \<Rightarrow> string" where
  "basename p = rev (takeWhile (\<lambda>c. c \<noteq> CHR ''/'') (dropWhile (\<lambda>c. c = CHR ''/'') (rev p)))"

section \<open>Declarations\<close>

record aml_user =
  au_id :: string
  au_wallet :: "string option"
  au_admin :: bool

record aml_decl =
  ad_fundsSource :: "funds_source option"
  ad_narrative :: "string option"
  ad_documentRef :: "string option"
  ad_estimatedKes :: "num option"

record aml_audit =
  aa_actor :: string
  aa_byAdmin :: bool
  aa_reviewId :: string
  aa_subject :: string
  aa_own :: bool

record aml_world =
  am_main :: world
  am_audit :: "aml_audit list"

text \<open>The clock, the new identifier and the encryption of the narrative when it is saved.\<close>

record aml_env =
  ae_now :: int
  ae_id :: string
  ae_encrypt :: "string \<Rightarrow> string"

definition native_earnings :: "funds_source \<Rightarrow> bool" where
  "native_earnings s = (s \<in> {MiningStakingRewards, MallpointsConversion, ReferralBonus})"

definition amlDeclarationSchema :: "aml_decl \<Rightarrow> bool" where
  "amlDeclarationSchema d =
     ((case ad_fundsSource d of None \<Rightarrow> False
       | Some s \<Rightarrow> (case ad_documentRef d of None \<Rightarrow> native_earnings s | Some r \<Rightarrow> r \<noteq> []))
      \<and> (case ad_narrative d of None \<Rightarrow> False | Some t \<Rightarrow> 20 \<le> length t \<and> length t \<le> 2000)
      \<and> (case ad_estimatedKes d of None \<Rightarrow> True | Some k \<Rightarrow> 0 < k))"

datatype declare_resp = DcNoWallet | DcInvalid | DcForeignDocument | DcOk string aml_status

fun declare_code :: "declare_resp \<Rightarrow> nat" where
  "declare_code DcNoWallet = 400"
| "declare_code DcInvalid = 400"
| "declare_code DcForeignDocument = 403"
| "declare_code (DcOk _ _) = 200"

definition own_document :: "string \<Rightarrow> string option \<Rightarrow> bool" where
  "own_document userId ref = (case ref of None \<Rightarrow> True | Some r \<Rightarrow> prefix (userId @ ''-'') r)"

definition new_review :: "aml_env \<Rightarrow> aml_user \<Rightarrow> aml_decl \<Rightarrow> aml_review" where
  "new_review en u d = \<lparr>v_id = ae_id en, v_userId = au_id u, v_walletAddress = the (au_wallet u),
     v_triggerAmountKes = or_else (ad_estimatedKes d) 0, v_fundsSource = the (ad_fundsSource d),
     v_isNativeEarnings = native_earnings (the (ad_fundsSource d)), v_narrative = ae_encrypt en (the (ad_narrative d)),
     v_documentRef = ad_documentRef d, v_status = AmlPending, v_consumedBy = None, v_submittedAt = ae_now en\<rparr>"

definition amlDeclare :: "aml_env \<Rightarrow> aml_user \<Rightarrow> aml_decl \<Rightarrow> aml_world \<Rightarrow> declare_resp \<times> aml_world" where
  "amlDeclare en u d W =
     (if \<not> truthy_str (au_wallet u) then (DcNoWallet, W)
      else if \<not> amlDeclarationSchema d then (DcInvalid, W)
      else if \<not> own_document (au_id u) (ad_documentRef d) then (DcForeignDocument, W)
      else (DcOk (ae_id en) AmlPending,
        W\<lparr>am_main := (am_main W)\<lparr>amlReviews := amlReviews (am_main W) @ [new_review en u d]\<rparr>\<rparr>))"

datatype aml_status_resp = AsNoWallet | AsNone | AsReview string aml_status

definition amlStatus :: "aml_user \<Rightarrow> aml_world \<Rightarrow> aml_status_resp" where
  "amlStatus u W =
     (if \<not> truthy_str (au_wallet u) then AsNoWallet
      else case latest_review (\<lambda>v. v_walletAddress v = the (au_wallet u)) (am_main W) of
        None \<Rightarrow> AsNone | Some v \<Rightarrow> AsReview (v_id v) (v_status v))"

datatype document_resp = DmNotFound | DmForbidden | DmNoDocument | DmFile string

definition AML_UPLOAD_DIR :: string where "AML_UPLOAD_DIR = ''uploads/aml''"

definition amlDocument :: "aml_user \<Rightarrow> string \<Rightarrow> aml_world \<Rightarrow> document_resp \<times> aml_world" where
  "amlDocument u reviewId W =
     (case coll_find (\<lambda>v. v_id v = reviewId) (amlReviews (am_main W)) of None \<Rightarrow> (DmNotFound, W)
      | Some v \<Rightarrow>
          (let isOwner = (v_userId v = au_id u) in
           if \<not> isOwner \<and> \<not> au_admin u then (DmForbidden, W)
           else if \<not> truthy_str (v_documentRef v) then (DmNoDocument, W)
           else (DmFile (AML_UPLOAD_DIR @ ''/'' @ basename (the (v_documentRef v))),
             W\<lparr>am_audit := am_audit W @ [\<lparr>aa_actor = au_id u, aa_byAdmin = (au_admin u \<and> \<not> isOwner),
               aa_reviewId = v_id v, aa_subject = v_userId v, aa_own = isOwner\<rparr>]\<rparr>)))"

section \<open>The properties\<close>

lemma basename_flat: "CHR ''/'' \<notin> set (basename p)"
  using set_takeWhileD by (fastforce simp: basename_def)

lemma basename_last:
  assumes "CHR ''/'' \<notin> set n" "n \<noteq> []"
  shows "basename (y @ CHR ''/'' # n) = n"
proof -
  have "rev n \<noteq> []" "hd (rev n) \<noteq> CHR ''/''" using assms by (auto simp: hd_rev dest: last_in_set)
  then have "dropWhile (\<lambda>c. c = CHR ''/'') (rev n @ CHR ''/'' # rev y) = rev n @ CHR ''/'' # rev y"
    by (cases "rev n") auto
  moreover have "takeWhile (\<lambda>c. c \<noteq> CHR ''/'') (rev n @ CHR ''/'' # rev y) = rev n"
    using assms(1) by (subst takeWhile_append2) auto
  ultimately show ?thesis by (simp add: basename_def)
qed

lemma show_nat_flat: "CHR ''/'' \<notin> set (show_nat n)"
proof (induction n rule: show_nat.induct)
  case (1 n)
  have "CHR ''/'' \<noteq> char_of (48 + k)" if "k < 10" for k :: nat
  proof
    assume "CHR ''/'' = char_of (48 + k)"
    then have "of_char (CHR ''/'') = (of_char (char_of (48 + k) :: char) :: nat)" by (rule arg_cong)
    with that show False by simp
  qed
  with 1 show ?case by (subst show_nat.simps) auto
qed

lemma upload_name_flat: "CHR ''/'' \<notin> set w \<Longrightarrow> CHR ''/'' \<notin> set (upload_name w t original)"
proof -
  assume w: "CHR ''/'' \<notin> set w"
  have "CHR ''/'' \<notin> set (sanitizeFilename original)"
    by (auto simp: sanitizeFilename_def Let_def name_char_def dest!: in_set_dropD split: if_splits)
  with w show ?thesis by (simp add: upload_name_def show_int_def show_nat_flat)
qed

lemma gate_open: "ac_ok (requireApprovedAmlReview th w k M) \<longleftrightarrow> k < th \<or> (\<exists>v \<in> set (amlReviews M). spendable w v)"
  using latest_review_None [of "spendable w" M] by (auto simp: requireApprovedAmlReview_def Let_def split: option.splits)

text \<open>
  an accepted declaration adds one pending review of the user's own wallet and changes nothing else.
  A source outside the platform comes with a document, a native one is recognised from the source alone,
  and no gate opens: the check of a withdrawal accepts exactly the amounts it accepted before.
\<close>

theorem declaration_opens_nothing:
  assumes "amlDeclare en u d W = (DcOk i s, W')"
  shows "\<exists>v. am_main W' = (am_main W)\<lparr>amlReviews := amlReviews (am_main W) @ [v]\<rparr> \<and> am_audit W' = am_audit W
    \<and> v_id v = i \<and> v_userId v = au_id u \<and> Some (v_walletAddress v) = au_wallet u \<and> v_status v = AmlPending
    \<and> (v_isNativeEarnings v \<or> (\<exists>r. v_documentRef v = Some r \<and> prefix (au_id u @ ''-'') r))
    \<and> (v_isNativeEarnings v \<longleftrightarrow> v_fundsSource v \<in> {MiningStakingRewards, MallpointsConversion, ReferralBonus})
    \<and> (\<forall>threshold wallet kes. ac_ok (requireApprovedAmlReview threshold wallet kes (am_main W'))
        = ac_ok (requireApprovedAmlReview threshold wallet kes (am_main W)))"
proof -
  let ?v = "new_review en u d"
  have d: "truthy_str (au_wallet u)" "amlDeclarationSchema d" "own_document (au_id u) (ad_documentRef d)" "i = ae_id en"
    "W' = W\<lparr>am_main := (am_main W)\<lparr>amlReviews := amlReviews (am_main W) @ [?v]\<rparr>\<rparr>"
    using assms by (auto simp: amlDeclare_def split: if_splits)
  have ok: "ac_ok (requireApprovedAmlReview th w k (am_main W')) = ac_ok (requireApprovedAmlReview th w k (am_main W))" for th w k
    unfolding d(5) by (auto simp: gate_open spendable_def new_review_def)
  have "v_isNativeEarnings ?v \<or> (\<exists>r. v_documentRef ?v = Some r \<and> prefix (au_id u @ ''-'') r)"
    using d(2,3) by (auto simp: new_review_def amlDeclarationSchema_def own_document_def split: option.splits)
  with d ok show ?thesis
    by (intro exI [of _ ?v]) (auto simp: new_review_def native_earnings_def truthy_str_def)
qed

text \<open>
  a document is served only to the user of the review or to an administrator, always from the upload
  directory itself, and every view is in the audit log; any other answer writes nothing.
\<close>

theorem document_access:
  assumes "amlDocument u i W = (r, W')"
  shows "am_main W' = am_main W \<and>
    (case r of DmFile f \<Rightarrow> \<exists>v b. v \<in> set (amlReviews (am_main W)) \<and> v_id v = i \<and> (v_userId v = au_id u \<or> au_admin u)
        \<and> f = AML_UPLOAD_DIR @ ''/'' @ b \<and> CHR ''/'' \<notin> set b
        \<and> am_audit W' = am_audit W @ [\<lparr>aa_actor = au_id u, aa_byAdmin = (v_userId v \<noteq> au_id u), aa_reviewId = i,
            aa_subject = v_userId v, aa_own = (v_userId v = au_id u)\<rparr>]
      | _ \<Rightarrow> W' = W)"
proof (cases "coll_find (\<lambda>v. v_id v = i) (amlReviews (am_main W))")
  case None
  with assms show ?thesis by (auto simp: amlDocument_def)
next
  case (Some v)
  from coll_find_Some [OF Some] have v: "v \<in> set (amlReviews (am_main W))" "v_id v = i" by simp_all
  with assms Some show ?thesis
    by (auto simp: amlDocument_def Let_def basename_flat split: if_splits intro!: exI [of _ v])
qed

text \<open>
  the check that a document was uploaded by its declarer can be passed around. The declared name is
  checked as a whole and only its last component is served, so a name that begins with the own identifier
  and ends with the file of another user is accepted, and that file is then served to the declarer.
\<close>

theorem foreign_document_served:
  assumes "truthy_str (au_wallet u)" "amlDeclarationSchema d" "ad_documentRef d = Some (au_id u @ ''-/'' @ upload_name w t original)"
    and "CHR ''/'' \<notin> set w" "\<forall>v \<in> set (amlReviews (am_main W)). v_id v \<noteq> ae_id en"
  shows "\<exists>W'. amlDeclare en u d W = (DcOk (ae_id en) AmlPending, W')
    \<and> fst (amlDocument u (ae_id en) W') = DmFile (AML_UPLOAD_DIR @ ''/'' @ upload_name w t original)"
proof -
  let ?n = "upload_name w t original" and ?v = "new_review en u d"
  let ?W' = "W\<lparr>am_main := (am_main W)\<lparr>amlReviews := amlReviews (am_main W) @ [?v]\<rparr>\<rparr>"
  have "own_document (au_id u) (ad_documentRef d)" by (simp add: assms(3) own_document_def)
  then have one: "amlDeclare en u d W = (DcOk (ae_id en) AmlPending, ?W')" using assms(1,2) by (simp add: amlDeclare_def)
  have n: "CHR ''/'' \<notin> set ?n" "?n \<noteq> []" using upload_name_flat [OF assms(4)] by (simp_all add: upload_name_def)
  have "coll_find (\<lambda>v. v_id v = ae_id en) (amlReviews (am_main W)) = None" using assms(5) by (simp add: coll_find_None)
  then have "coll_find (\<lambda>v. v_id v = ae_id en) (amlReviews (am_main ?W')) = Some ?v"
    by (simp add: coll_find_append new_review_def)
  moreover have "basename (au_id u @ ''-/'' @ ?n) = ?n" using basename_last [OF n, of "au_id u @ ''-''"] by simp
  ultimately have "fst (amlDocument u (ae_id en) ?W') = DmFile (AML_UPLOAD_DIR @ ''/'' @ ?n)"
    using assms(3) by (simp add: amlDocument_def new_review_def truthy_str_def Let_def)
  with one show ?thesis by blast
qed

section \<open>Witnesses\<close>

definition demo_aml_user :: aml_user where "demo_aml_user = \<lparr>au_id = ''u1'', au_wallet = Some ''mall1'', au_admin = False\<rparr>"
definition demo_aml_env :: aml_env where "demo_aml_env = \<lparr>ae_now = 9, ae_id = ''r9'', ae_encrypt = (\<lambda>s. s)\<rparr>"
definition demo_aml_world :: aml_world where "demo_aml_world = \<lparr>am_main = empty_world\<lparr>amlReviews := [demo_review]\<rparr>, am_audit = []\<rparr>"

definition demo_decl :: "string \<Rightarrow> aml_decl" where
  "demo_decl r = \<lparr>ad_fundsSource = Some Salary, ad_narrative = Some ''salary of the last three months'', ad_documentRef = Some r,
     ad_estimatedKes = None\<rparr>"

theorem declaration_opens_nothing_witness:
  "\<exists>W'. amlDeclare demo_aml_env demo_aml_user (demo_decl ''u1-5-slip.pdf'') demo_aml_world = (DcOk ''r9'' AmlPending, W')
     \<and> am_audit W' = []"
proof -
  have "\<exists>W'. amlDeclare demo_aml_env demo_aml_user (demo_decl ''u1-5-slip.pdf'') demo_aml_world = (DcOk ''r9'' AmlPending, W')"
    by (simp add: amlDeclare_def demo_aml_user_def demo_decl_def amlDeclarationSchema_def own_document_def truthy_str_def demo_aml_env_def)
  then obtain W' where h: "amlDeclare demo_aml_env demo_aml_user (demo_decl ''u1-5-slip.pdf'') demo_aml_world = (DcOk ''r9'' AmlPending, W')"
    by blast
  from declaration_opens_nothing [OF h] h show ?thesis by (auto simp: demo_aml_world_def)
qed

theorem document_access_witness:
  "\<exists>W'. amlDocument demo_aml_user ''r1'' demo_aml_world = (DmFile ''uploads/aml/u1-1-slip'', W') \<and> am_main W' = am_main demo_aml_world"
proof -
  have b: "basename ''u1-1-slip'' = ''u1-1-slip''" by code_simp
  obtain r W' where h: "amlDocument demo_aml_user ''r1'' demo_aml_world = (r, W')" by fastforce
  then have "r = DmFile ''uploads/aml/u1-1-slip''"
    by (simp add: amlDocument_def demo_aml_world_def demo_review_def demo_aml_user_def truthy_str_def AML_UPLOAD_DIR_def b Let_def)
  with document_access [OF h] h show ?thesis by auto
qed

theorem foreign_document_served_witness:
  "\<exists>W'. amlDeclare demo_aml_env demo_aml_user (demo_decl (''u1-/'' @ upload_name ''u2'' 7 ''pay.pdf'')) demo_aml_world = (DcOk ''r9'' AmlPending, W')
     \<and> fst (amlDocument demo_aml_user ''r9'' W') = DmFile (''uploads/aml/'' @ upload_name ''u2'' 7 ''pay.pdf'')"
  using foreign_document_served [of demo_aml_user "demo_decl (''u1-/'' @ upload_name ''u2'' 7 ''pay.pdf'')" "''u2''" 7 "''pay.pdf''"
      demo_aml_world demo_aml_env]
  by (simp add: demo_aml_user_def demo_decl_def amlDeclarationSchema_def truthy_str_def demo_aml_env_def demo_aml_world_def
      demo_review_def AML_UPLOAD_DIR_def)

end
