(* ===== verification/RewardRates.thy ===== *)
theory RewardRates
  imports JsNumber
begin

text \<open>
  The reward rates of the social campaigns (\<open>config/socialRewardRates.js\<close>) and the rate of a campaign
  (\<open>services/rewardEngineService.js\<close>). The decimals of the source are the nearest doubles: \<open>dec n\<close> is
  \<open>n\<close> thousandths. A multiplier is \<open>None\<close> when \<open>Number\<close> of it is not finite.
\<close>

section \<open>The table\<close>

definition dec :: "int \<Rightarrow> num" where "dec n = fl (of_int n / 1000)"

datatype tier = TierA | TierB | TierC | TierD

datatype base_rate = Flat num | Ranged num num

record platform_def =
  pl_label :: string
  pl_dailyCap :: "num option"
  pl_activities :: "(string \<times> base_rate \<times> tier) list"

definition PLATFORMS :: "(string \<times> platform_def) list" where
  "PLATFORMS = [
    (''tiktok'', \<lparr>pl_label = ''TikTok'', pl_dailyCap = Some 15, pl_activities = [
      (''view'', Flat (dec 80), TierA), (''like'', Flat (dec 100), TierA), (''comment'', Flat (dec 230), TierB),
      (''follow'', Flat (dec 350), TierC), (''share'', Flat (dec 300), TierB), (''save'', Flat (dec 180), TierA),
      (''profile_visit'', Flat (dec 50), TierA),
      (''complete_campaign'', Ranged (dec 1000) (dec 5000), TierD)]\<rparr>),
    (''instagram'', \<lparr>pl_label = ''Instagram'', pl_dailyCap = None, pl_activities = [
      (''view'', Flat (dec 280), TierA), (''like'', Flat (dec 391), TierA), (''comment'', Flat (dec 510), TierB),
      (''follow'', Flat (dec 3000), TierC), (''save'', Flat (dec 750), TierA), (''share'', Flat (dec 900), TierB),
      (''story_view'', Flat (dec 200), TierA), (''profile_visit'', Flat (dec 120), TierA)]\<rparr>),
    (''youtube'', \<lparr>pl_label = ''YouTube'', pl_dailyCap = None, pl_activities = [
      (''view'', Flat (dec 800), TierA), (''like'', Flat (dec 1000), TierB), (''comment'', Flat (dec 1400), TierB),
      (''subscribe'', Flat (dec 4000), TierC), (''share'', Flat (dec 1500), TierB),
      (''save_to_playlist'', Flat (dec 1000), TierB), (''watch_campaign_video'', Flat (dec 1500), TierD)]\<rparr>),
    (''whatsapp'', \<lparr>pl_label = ''WhatsApp'', pl_dailyCap = None, pl_activities = [
      (''join_group'', Flat (dec 3000), TierC), (''join_community'', Flat (dec 7000), TierC),
      (''participate_in_campaign'', Flat (dec 5000), TierD),
      (''verified_campaign_interaction'', Flat (dec 2000), TierB),
      (''share_campaign'', Flat (dec 3000), TierB)]\<rparr>),
    (''telegram'', \<lparr>pl_label = ''Telegram'', pl_dailyCap = None, pl_activities = [
      (''join_channel'', Flat (dec 5000), TierC), (''join_group'', Flat (dec 6000), TierC),
      (''join_community'', Flat (dec 8000), TierC), (''complete_verified_campaign'', Flat (dec 10000), TierD),
      (''link_interaction'', Flat (dec 2000), TierB), (''share_campaign'', Flat (dec 4000), TierB)]\<rparr>),
    (''facebook'', \<lparr>pl_label = ''Facebook'', pl_dailyCap = None, pl_activities = [
      (''view'', Flat (dec 280), TierA), (''like'', Flat (dec 391), TierA), (''comment'', Flat (dec 510), TierB),
      (''follow'', Flat (dec 3000), TierC), (''save'', Flat (dec 750), TierA),
      (''share'', Flat (dec 900), TierB)]\<rparr>),
    (''threads'', \<lparr>pl_label = ''Threads'', pl_dailyCap = None, pl_activities = [
      (''view'', Flat (dec 280), TierA), (''like'', Flat (dec 391), TierA), (''comment'', Flat (dec 510), TierB),
      (''follow'', Flat (dec 3000), TierC), (''repost'', Flat (dec 900), TierB),
      (''share'', Flat (dec 900), TierB)]\<rparr>),
    (''x'', \<lparr>pl_label = ''X'', pl_dailyCap = None, pl_activities = [
      (''impression'', Flat (dec 9000), TierB), (''like'', Flat (dec 11000), TierB),
      (''comment'', Flat (dec 13000), TierB), (''repost'', Flat (dec 17000), TierB),
      (''follow'', Flat (dec 15000), TierC), (''bookmark'', Flat (dec 8000), TierB)]\<rparr>),
    (''snapchat'', \<lparr>pl_label = ''Snapchat'', pl_dailyCap = None, pl_activities = [
      (''story_view'', Flat (dec 250), TierA), (''spotlight_view'', Flat (dec 300), TierA),
      (''like'', Flat (dec 450), TierA), (''follow'', Flat (dec 2500), TierC), (''share'', Flat (dec 750), TierB),
      (''complete_campaign'', Ranged (dec 1000) (dec 4000), TierD)]\<rparr>),
    (''reddit'', \<lparr>pl_label = ''Reddit'', pl_dailyCap = None, pl_activities = [
      (''view'', Flat (dec 200), TierA), (''upvote'', Flat (dec 350), TierA), (''comment'', Flat (dec 600), TierB),
      (''follow_community'', Flat (dec 1500), TierC), (''join_community'', Flat (dec 2000), TierC),
      (''campaign_participation'', Ranged (dec 2000) (dec 5000), TierD)]\<rparr>),
    (''discord'', \<lparr>pl_label = ''Discord'', pl_dailyCap = None, pl_activities = [
      (''join_server'', Flat (dec 3000), TierC), (''verify_membership'', Flat (dec 2000), TierB),
      (''join_campaign_channel'', Flat (dec 1000), TierB),
      (''participate_in_verified_event'', Flat (dec 5000), TierD),
      (''complete_community_task'', Ranged (dec 3000) (dec 10000), TierD)]\<rparr>),
    (''linkedin'', \<lparr>pl_label = ''LinkedIn'', pl_dailyCap = None, pl_activities = [
      (''view'', Flat (dec 500), TierA), (''like'', Flat (dec 750), TierA), (''comment'', Flat (dec 1500), TierB),
      (''follow'', Flat (dec 3000), TierC), (''repost'', Flat (dec 2000), TierB),
      (''share'', Flat (dec 2000), TierB), (''campaign_completion'', Ranged (dec 2000) (dec 6000), TierD)]\<rparr>),
    (''pinterest'', \<lparr>pl_label = ''Pinterest'', pl_dailyCap = None, pl_activities = [
      (''pin_view'', Flat (dec 200), TierA), (''like'', Flat (dec 300), TierA),
      (''save_pin'', Flat (dec 500), TierA), (''follow'', Flat (dec 2000), TierC),
      (''share'', Flat (dec 600), TierB)]\<rparr>),
    (''twitch'', \<lparr>pl_label = ''Twitch'', pl_dailyCap = None, pl_activities = [
      (''stream_view'', Flat (dec 500), TierA), (''follow'', Flat (dec 2000), TierC),
      (''clip_view'', Flat (dec 300), TierA), (''clip_interaction'', Flat (dec 500), TierB),
      (''verified_campaign_participation'', Ranged (dec 2000) (dec 5000), TierD)]\<rparr>),
    (''spotify'', \<lparr>pl_label = ''Spotify'', pl_dailyCap = None, pl_activities = [
      (''campaign_track_listen'', Flat (dec 500), TierA), (''playlist_follow'', Flat (dec 1500), TierC),
      (''artist_follow'', Flat (dec 2000), TierC), (''campaign_playlist_save'', Flat (dec 1000), TierB),
      (''verified_campaign_completion'', Ranged (dec 2000) (dec 5000), TierD)]\<rparr>),
    (''medium'', \<lparr>pl_label = ''Medium / Blog'', pl_dailyCap = None, pl_activities = [
      (''article_read'', Flat (dec 500), TierA), (''follow_author'', Flat (dec 1500), TierC),
      (''like_recommend'', Flat (dec 750), TierA), (''comment'', Flat (dec 1250), TierB),
      (''complete_article_campaign'', Flat (dec 2000), TierD)]\<rparr>)]"

definition DEFAULT_DAILY_CAP_MLPTS :: num where "DEFAULT_DAILY_CAP_MLPTS = 20"
definition MIN_CAMPAIGN_MULTIPLIER :: num where "MIN_CAMPAIGN_MULTIPLIER = 1 / 2"
definition MAX_CAMPAIGN_MULTIPLIER :: num where "MAX_CAMPAIGN_MULTIPLIER = 5"

definition getPlatform :: "string \<Rightarrow> platform_def option" where
  "getPlatform platformKey = map_of PLATFORMS platformKey"

definition getActivity :: "string \<Rightarrow> string \<Rightarrow> (base_rate \<times> tier) option" where
  "getActivity platformKey activityKey =
     (case getPlatform platformKey of None \<Rightarrow> None | Some p \<Rightarrow> map_of (pl_activities p) activityKey)"

definition getDailyCapMlpts :: "string \<Rightarrow> num" where
  "getDailyCapMlpts platformKey =
     (case getPlatform platformKey of None \<Rightarrow> DEFAULT_DAILY_CAP_MLPTS
      | Some p \<Rightarrow> (case pl_dailyCap p of None \<Rightarrow> DEFAULT_DAILY_CAP_MLPTS | Some c \<Rightarrow> c))"

section \<open>The rate of a campaign\<close>

definition resolveBaseRate :: "string \<Rightarrow> string \<Rightarrow> num option" where
  "resolveBaseRate platform activity =
     (case getActivity platform activity of None \<Rightarrow> None
      | Some (Flat r, _) \<Rightarrow> Some r
      | Some (Ranged lo hi, _) \<Rightarrow> Some (js_div (js_add lo hi) 2))"

definition clampMultiplier :: "num option \<Rightarrow> num" where
  "clampMultiplier m = (case m of None \<Rightarrow> 1 | Some n \<Rightarrow> min MAX_CAMPAIGN_MULTIPLIER (max MIN_CAMPAIGN_MULTIPLIER n))"

definition computeCampaignRate :: "string \<Rightarrow> string \<Rightarrow> num option \<Rightarrow> num option" where
  "computeCampaignRate platform activity multiplier =
     (case resolveBaseRate platform activity of None \<Rightarrow> None
      | Some baseRate \<Rightarrow> Some (js_div (js_round (js_mul (js_mul baseRate (clampMultiplier multiplier)) 10000)) 10000))"

section \<open>Bounds\<close>

lemma clamp_range: "1 / 2 \<le> clampMultiplier m \<and> clampMultiplier m \<le> 5"
  by (auto simp: clampMultiplier_def MIN_CAMPAIGN_MULTIPLIER_def MAX_CAMPAIGN_MULTIPLIER_def split: option.splits)

lemma clamp_idem [simp]: "clampMultiplier (Some (clampMultiplier m)) = clampMultiplier m"
  using clamp_range [of m]
  by (simp add: clampMultiplier_def [of "Some _"] MIN_CAMPAIGN_MULTIPLIER_def MAX_CAMPAIGN_MULTIPLIER_def)

lemma dec_bounds: "50 \<le> n \<Longrightarrow> n \<le> 17000 \<Longrightarrow> 3 / 64 \<le> dec n \<and> dec n \<le> 17"
  using fl_int_bounds [of 3 1088 "- 6" "of_int n / 1000"] by (simp add: dec_def power_int_minus)

definition rate_ok :: "base_rate \<Rightarrow> bool" where
  "rate_ok b = (case b of Flat r \<Rightarrow> 3 / 64 \<le> r \<and> r \<le> 17
     | Ranged lo hi \<Rightarrow> 3 / 64 \<le> lo \<and> lo \<le> 17 \<and> 3 / 64 \<le> hi \<and> hi \<le> 17)"

lemma rate_ok_simps [simp]:
  "50 \<le> n \<Longrightarrow> n \<le> 17000 \<Longrightarrow> rate_ok (Flat (dec n))"
  "50 \<le> n \<Longrightarrow> n \<le> 17000 \<Longrightarrow> 50 \<le> m \<Longrightarrow> m \<le> 17000 \<Longrightarrow> rate_ok (Ranged (dec n) (dec m))"
  using dec_bounds [of n] dec_bounds [of m] by (simp_all add: rate_ok_def)

lemma table_ok: "list_all (\<lambda>(_, p). list_all (\<lambda>(_, b, _). rate_ok b) (pl_activities p)) PLATFORMS"
  by (simp add: PLATFORMS_def)

lemma activity_ok: "getActivity p a = Some (b, t) \<Longrightarrow> rate_ok b"
  using table_ok by (auto simp: getActivity_def getPlatform_def list_all_iff split: option.splits dest!: map_of_SomeD)

lemma base_rate_bounds: "resolveBaseRate p a = Some b \<Longrightarrow> 3 / 64 \<le> b \<and> b \<le> 17"
proof -
  assume r: "resolveBaseRate p a = Some b"
  have half: "3 / 64 \<le> js_div (js_add lo hi) 2 \<and> js_div (js_add lo hi) 2 \<le> 17"
    if "3 / 64 \<le> lo" "lo \<le> 17" "3 / 64 \<le> hi" "hi \<le> 17" for lo hi
  proof -
    have "3 / 32 \<le> fl (lo + hi) \<and> fl (lo + hi) \<le> 34"
      using that fl_int_bounds [of 3 34 0 "lo + hi"] fl_int_bounds [of 3 1088 "- 5" "lo + hi"] by (simp add: power_int_minus)
    then show ?thesis
      using fl_int_bounds [of 3 1088 "- 6" "fl (lo + hi) / 2"] by (simp add: js_div_def js_add_def power_int_minus)
  qed
  from r obtain x t where "getActivity p a = Some (x, t)" and x: "b = (case x of Flat r \<Rightarrow> r | Ranged lo hi \<Rightarrow> js_div (js_add lo hi) 2)"
    by (auto simp: resolveBaseRate_def split: option.splits base_rate.splits)
  then have "rate_ok x" by (blast intro: activity_ok)
  with x half show ?thesis by (auto simp: rate_ok_def split: base_rate.splits)
qed

lemma rounding_chain:
  fixes a t s k r :: rat
  assumes "\<bar>a - t\<bar> \<le> 85 / 2 ^ 53" "\<bar>s - a * 10000\<bar> \<le> 850000 / 2 ^ 53" "\<bar>r - k / 10000\<bar> \<le> 85 / 2 ^ 53" "\<bar>k - s\<bar> \<le> 1 / 2"
  shows "\<bar>r - t\<bar> \<le> 1 / 10000"
proof -
  have "\<bar>a - t\<bar> \<le> 1 / 1000000" "\<bar>s - a * 10000\<bar> \<le> 1 / 1000" "\<bar>r - k / 10000\<bar> \<le> 1 / 1000000"
    using assms by (auto elim: order_trans)
  with assms(4) show ?thesis unfolding abs_le_iff by linarith
qed

lemma campaign_rate_range:
  assumes "resolveBaseRate p a = Some b"
  shows "\<exists>r. computeCampaignRate p a m = Some r \<and> 0 < r \<and> r \<le> 85 \<and> \<bar>r - b * clampMultiplier m\<bar> \<le> 1 / 10000"
proof -
  let ?c = "clampMultiplier m" and ?t = "b * clampMultiplier m"
  have t: "3 / 128 \<le> ?t" "?t \<le> 85"
    using base_rate_bounds [OF assms] clamp_range [of m] mult_mono [of "3 / 64" b "1 / 2" ?c] mult_mono [of b 17 ?c 5] by auto
  have f: "3 / 128 \<le> fl ?t" "fl ?t \<le> 85" using t fl_int_bounds [of 3 10880 "- 7" ?t] by (simp_all add: power_int_minus)
  have s: "234 \<le> fl (fl ?t * 10000)" "fl (fl ?t * 10000) \<le> 850000"
    using f fl_int_bounds [of 234 850000 0 "fl ?t * 10000"] by simp_all
  let ?s = "fl (fl ?t * 10000)"
  have "234 \<le> \<lfloor>?s + 1 / 2\<rfloor>" "\<lfloor>?s + 1 / 2\<rfloor> \<le> 850000" using s by linarith+
  then have "(of_int 234 :: rat) \<le> of_int \<lfloor>?s + 1 / 2\<rfloor> \<and> (of_int \<lfloor>?s + 1 / 2\<rfloor> :: rat) \<le> of_int 850000"
    by (simp only: of_int_le_iff)
  then have k: "234 \<le> js_round ?s" "js_round ?s \<le> 850000" by (simp_all add: js_round_def)
  have close: "\<bar>js_round ?s - ?s\<bar> \<le> 1 / 2" unfolding js_round_def by linarith
  let ?r = "fl (js_round ?s / 10000)"
  have r: "0 < ?r" "?r \<le> 85" using k fl_pos [of "js_round ?s / 10000"] fl_int_bounds [of 0 85 0 "js_round ?s / 10000"] by simp_all
  have "\<bar>fl ?t - ?t\<bar> \<le> 85 / 2 ^ 53" using fl_error [of ?t] t by simp
  moreover have "\<bar>?s - fl ?t * 10000\<bar> \<le> 850000 / 2 ^ 53" using fl_error [of "fl ?t * 10000"] f by simp
  moreover have "\<bar>?r - js_round ?s / 10000\<bar> \<le> 85 / 2 ^ 53" using fl_error [of "js_round ?s / 10000"] k by simp
  ultimately have "\<bar>?r - ?t\<bar> \<le> 1 / 10000" using close by (rule rounding_chain)
  with r assms show ?thesis by (simp add: computeCampaignRate_def js_arith)
qed

text \<open>
  the rate of a campaign is within a ten-thousandth of the base rate of its activity times the multiplier
  clamped to the range from a half to five, and it is positive and at most 85 points whatever multiplier the
  creator sends, a number or not.
\<close>

theorem campaign_rate_bounds:
  assumes "resolveBaseRate p a = Some b"
  shows "\<exists>r. computeCampaignRate p a m = Some r \<and> 0 < r \<and> r \<le> 85 \<and> \<bar>r - b * clampMultiplier m\<bar> \<le> 1 / 10000"
  by (rule campaign_rate_range [OF assms])

lemma campaign_rate_bounds_witness:
  "\<exists>r. computeCampaignRate ''tiktok'' ''like'' None = Some r \<and> 0 < r \<and> r \<le> 85
     \<and> \<bar>r - dec 100 * clampMultiplier None\<bar> \<le> 1 / 10000"
  by (rule campaign_rate_bounds) (simp add: resolveBaseRate_def getActivity_def getPlatform_def PLATFORMS_def)

end
