(* ===== verification/MinesReview.thy ===== *)
theory MinesReview
  imports MallcoinService RewardRates "HOL-Library.Multiset"
begin

text \<open>
  The review game of the Mines: \<open>services/minesReviewService.js\<close> and \<open>routes/taskAssignment.js\<close> over the
  documents \<open>MinesReviewer\<close>, \<open>TaskSubmission\<close>, \<open>Campaign\<close> and \<open>WalletTransaction\<close>. Reviewers stake
  points, are drawn at random for a submission, vote with a weight from their reputation, and the
  settlement pays the submitter and the reviewers of the majority. A transaction of the database is one
  step. Identifiers are those of the database, times are milliseconds since 1970; fields that no rule reads
  (titles, proofs) are left out, and the dash in a description is a hyphen.
\<close>

section \<open>Documents\<close>

datatype assign_status = AsNone | AsPending | AsAssigned | AsVoting | AsVoteComplete | AsAdminReview | AsApproved | AsRejected
datatype stake_status = Unstaked | StakeActive | StakeSuspended
datatype campaign_status = CampaignActive | CampaignPaused | CampaignCompleted
datatype wallet_type = WalletCredit | WalletDebit

text \<open>\<open>validator_votes\<close> is an object from reviewers to the text of their vote.\<close>

type_synonym votes = "(string \<times> string) list"

record submission =
  ts_id :: string
  ts_miner :: string
  ts_campaign :: "string option"
  ts_status :: string
  ts_assigned :: "string list"
  ts_assignedAt :: "int option"
  ts_assignment :: assign_status
  ts_votes :: votes
  ts_votesRequired :: int
  ts_yes :: int
  ts_no :: int
  ts_yesWeight :: num
  ts_noWeight :: num
  ts_deadline :: "int option"
  ts_reward :: num
  ts_currency :: string
  ts_created :: int
  ts_completed :: "int option"
  ts_note :: "string option"

record reviewer =
  rv_id :: string
  rv_moniker :: string
  rv_email :: string
  rv_staked :: num
  rv_min :: num
  rv_stake :: stake_status
  rv_streak :: int
  rv_assigned :: int
  rv_voted :: int
  rv_approved :: int
  rv_rejected :: int
  rv_approvalRate :: num
  rv_responseRate :: num
  rv_responseTime :: int
  rv_reputation :: num
  rv_earnings :: num
  rv_lastVote :: "int option"
  rv_lastAssigned :: "int option"

text \<open>A document created by an upsert, with the defaults of the schema.\<close>

definition new_reviewer :: "string \<Rightarrow> reviewer" where
  "new_reviewer i = \<lparr>rv_id = i, rv_moniker = [], rv_email = [], rv_staked = 0, rv_min = 50, rv_stake = Unstaked, rv_streak = 0,
     rv_assigned = 0, rv_voted = 0, rv_approved = 0, rv_rejected = 0, rv_approvalRate = 0, rv_responseRate = 0, rv_responseTime = 0,
     rv_reputation = 50, rv_earnings = 0, rv_lastVote = None, rv_lastAssigned = None\<rparr>"

record campaign =
  cp_id :: string
  cp_creator :: string
  cp_title :: string
  cp_description :: string
  cp_link :: string
  cp_directive :: string
  cp_platform :: string
  cp_activity :: string
  cp_baseRate :: "num option"
  cp_multiplier :: num
  cp_rate :: num
  cp_budget :: num
  cp_status :: campaign_status
  cp_completions :: int
  cp_maxPerUser :: int
  cp_cooldown :: int

record miner =
  mu_id :: string
  mu_name :: string
  mu_email :: string
  mu_balance :: num

record wallet_tx =
  wt_user :: string
  wt_type :: wallet_type
  wt_amount :: num
  wt_currency :: string
  wt_description :: string

datatype mines_note = NoteApproved num string | NoteRejected string | NoteMissed | NoteSuspended | NoteReviewReward num
datatype mines_audit = AuditAssigned string nat | AuditVoted string string string num | AuditFinalReject string string

record mines_world =
  miners :: "miner list"
  reviewers :: "reviewer list"
  submissions :: "submission list"
  campaigns :: "campaign list"
  walletTxs :: "wallet_tx list"
  minesAudit :: "mines_audit list"
  minesNotes :: "(string \<times> mines_note) list"

definition find_miner :: "string \<Rightarrow> mines_world \<Rightarrow> miner option" where
  "find_miner i W = coll_find (\<lambda>d. mu_id d = i) (miners W)"
definition find_reviewer :: "string \<Rightarrow> mines_world \<Rightarrow> reviewer option" where
  "find_reviewer i W = coll_find (\<lambda>d. rv_id d = i) (reviewers W)"
definition find_sub :: "string \<Rightarrow> mines_world \<Rightarrow> submission option" where
  "find_sub i W = coll_find (\<lambda>d. ts_id d = i) (submissions W)"
definition find_campaign :: "string \<Rightarrow> mines_world \<Rightarrow> campaign option" where
  "find_campaign i W = coll_find (\<lambda>d. cp_id d = i) (campaigns W)"

definition save_miner :: "miner \<Rightarrow> mines_world \<Rightarrow> mines_world" where
  "save_miner d W = W\<lparr>miners := coll_put mu_id d (miners W)\<rparr>"
definition save_reviewer :: "reviewer \<Rightarrow> mines_world \<Rightarrow> mines_world" where
  "save_reviewer d W = W\<lparr>reviewers := coll_put rv_id d (reviewers W)\<rparr>"
definition save_sub :: "submission \<Rightarrow> mines_world \<Rightarrow> mines_world" where
  "save_sub d W = W\<lparr>submissions := coll_put ts_id d (submissions W)\<rparr>"
definition save_campaign :: "campaign \<Rightarrow> mines_world \<Rightarrow> mines_world" where
  "save_campaign d W = W\<lparr>campaigns := coll_put cp_id d (campaigns W)\<rparr>"

definition create_miner :: "miner \<Rightarrow> mines_world \<Rightarrow> mines_world" where
  "create_miner d W = W\<lparr>miners := miners W @ [d]\<rparr>"
definition create_reviewer :: "reviewer \<Rightarrow> mines_world \<Rightarrow> mines_world" where
  "create_reviewer d W = W\<lparr>reviewers := reviewers W @ [d]\<rparr>"
definition create_sub :: "submission \<Rightarrow> mines_world \<Rightarrow> mines_world" where
  "create_sub d W = W\<lparr>submissions := submissions W @ [d]\<rparr>"
definition create_campaign :: "campaign \<Rightarrow> mines_world \<Rightarrow> mines_world" where
  "create_campaign d W = W\<lparr>campaigns := campaigns W @ [d]\<rparr>"

lemmas mines_docs = find_miner_def find_reviewer_def find_sub_def find_campaign_def
  save_miner_def save_reviewer_def save_sub_def save_campaign_def
  create_miner_def create_reviewer_def create_sub_def create_campaign_def

interpretation minerdb: document_store find_miner save_miner create_miner mu_id
  by unfold_locales (auto simp: mines_docs coll_find_append coll_find_put_same coll_find_put_other coll_put_same
    dest: coll_find_Some split: option.splits)

interpretation reviewerdb: document_store find_reviewer save_reviewer create_reviewer rv_id
  by unfold_locales (auto simp: mines_docs coll_find_append coll_find_put_same coll_find_put_other coll_put_same
    dest: coll_find_Some split: option.splits)

interpretation subdb: document_store find_sub save_sub create_sub ts_id
  by unfold_locales (auto simp: mines_docs coll_find_append coll_find_put_same coll_find_put_other coll_put_same
    dest: coll_find_Some split: option.splits)

interpretation campaigndb: document_store find_campaign save_campaign create_campaign cp_id
  by unfold_locales (auto simp: mines_docs coll_find_append coll_find_put_same coll_find_put_other coll_put_same
    dest: coll_find_Some split: option.splits)

text \<open>\<open>findByIdAndUpdate\<close> with \<open>$inc\<close> of the balance: nothing when there is no such user.\<close>

definition inc_balance :: "string \<Rightarrow> num \<Rightarrow> mines_world \<Rightarrow> mines_world" where
  "inc_balance i x W = (case find_miner i W of None \<Rightarrow> W | Some u \<Rightarrow> save_miner (u\<lparr>mu_balance := js_add (mu_balance u) x\<rparr>) W)"

text \<open>\<open>findOneAndUpdate\<close> on an id and a sufficient balance: the guard and the subtraction are one step.\<close>

definition debit_balance :: "string \<Rightarrow> num \<Rightarrow> mines_world \<Rightarrow> (miner \<times> mines_world) option" where
  "debit_balance i x W =
     (case find_miner i W of None \<Rightarrow> None
      | Some u \<Rightarrow> if x \<le> mu_balance u
          then let u' = u\<lparr>mu_balance := js_add (mu_balance u) (- x)\<rparr> in Some (u', save_miner u' W) else None)"

definition update_reviewer :: "(reviewer \<Rightarrow> reviewer) \<Rightarrow> string \<Rightarrow> mines_world \<Rightarrow> mines_world" where
  "update_reviewer f i W = (case find_reviewer i W of None \<Rightarrow> W | Some r \<Rightarrow> save_reviewer (f r) W)"

definition upsert_reviewer :: "(reviewer \<Rightarrow> reviewer) \<Rightarrow> string \<Rightarrow> mines_world \<Rightarrow> reviewer \<times> mines_world" where
  "upsert_reviewer f i W =
     (case find_reviewer i W of None \<Rightarrow> (let r = f (new_reviewer i) in (r, create_reviewer r W))
      | Some r \<Rightarrow> (f r, save_reviewer (f r) W))"

text \<open>\<open>save\<close> of a submission that was read before: only the assigned fields are written.\<close>

definition update_sub :: "(submission \<Rightarrow> submission) \<Rightarrow> string \<Rightarrow> mines_world \<Rightarrow> mines_world" where
  "update_sub f i W = (case find_sub i W of None \<Rightarrow> W | Some s \<Rightarrow> save_sub (f s) W)"

definition log_wallet :: "wallet_tx \<Rightarrow> mines_world \<Rightarrow> mines_world" where
  "log_wallet t W = W\<lparr>walletTxs := walletTxs W @ [t]\<rparr>"
definition log_mines_audit :: "mines_audit \<Rightarrow> mines_world \<Rightarrow> mines_world" where
  "log_mines_audit a W = W\<lparr>minesAudit := minesAudit W @ [a]\<rparr>"
definition mines_notify :: "(string \<times> mines_note) list \<Rightarrow> mines_world \<Rightarrow> mines_world" where
  "mines_notify ns W = W\<lparr>minesNotes := minesNotes W @ ns\<rparr>"

section \<open>Weights and reputation\<close>

text \<open>
  \<open>me_rand\<close> are the values of \<open>Math.random\<close>. \<open>me_mixed loaded changed\<close> is what \<open>save\<close> stores of a
  \<open>Mixed\<close> path that was changed in place, by the object mapper: \<open>changed\<close> if it notices the change.
\<close>

record mines_env =
  me_now :: int
  me_voteReward :: num
  me_threshold :: num
  me_rand :: "nat \<Rightarrow> num"
  me_mixed :: "votes \<Rightarrow> votes \<Rightarrow> votes"

definition MISSED_VOTE_PENALTY :: num where "MISSED_VOTE_PENALTY = 5"
definition SUSPEND_AFTER_MISSES :: int where "SUSPEND_AFTER_MISSES = 3"
definition REVIEWERS_PER_TASK :: nat where "REVIEWERS_PER_TASK = 6"
definition VOTING_WINDOW_MS :: int where "VOTING_WINDOW_MS = 48 * 60 * 60 * 1000"

definition computeWeight :: "reviewer \<Rightarrow> num" where
  "computeWeight r = max (fl (2 / 10)) (js_div (rv_reputation r) 100)"

record rep_stats =
  st_approvalRate :: num
  st_responseRate :: num
  st_reputation :: num

definition percent_of :: "int \<Rightarrow> int \<Rightarrow> num" where
  "percent_of a b = js_round (js_mul (js_div (of_int a) (of_int b)) 100)"

definition computeReputationStats :: "reviewer \<Rightarrow> rep_stats option" where
  "computeReputationStats r =
     (if \<not> 0 < rv_voted r then None
      else let approval = percent_of (rv_approved r) (rv_voted r);
               response = percent_of (rv_voted r) (if rv_assigned r = 0 then rv_voted r else rv_assigned r);
               consistency = js_sub 100 \<bar>js_sub approval 60\<bar>;
               volume = min (js_mul (of_int (rv_voted r)) 5) 100
           in Some \<lparr>st_approvalRate = approval, st_responseRate = response,
                st_reputation = js_round (js_add (js_add (js_mul response (fl (4 / 10))) (js_mul consistency (fl (3 / 10))))
                  (js_mul volume (fl (3 / 10))))\<rparr>)"

definition set_stats :: "rep_stats \<Rightarrow> reviewer \<Rightarrow> reviewer" where
  "set_stats s r = r\<lparr>rv_approvalRate := st_approvalRate s, rv_responseRate := st_responseRate s, rv_reputation := st_reputation s\<rparr>"

definition refreshReviewerStats :: "string \<Rightarrow> mines_world \<Rightarrow> mines_world" where
  "refreshReviewerStats i W =
     (case find_reviewer i W of None \<Rightarrow> W
      | Some r \<Rightarrow> (case computeReputationStats r of None \<Rightarrow> W | Some s \<Rightarrow> update_reviewer (set_stats s) i W))"

section \<open>The draw of the reviewers\<close>

definition rand_index :: "num \<Rightarrow> nat \<Rightarrow> nat" where
  "rand_index x i = nat \<lfloor>js_mul x (of_nat (i + 1))\<rfloor>"

fun shuffle_from :: "(nat \<Rightarrow> num) \<Rightarrow> nat \<Rightarrow> 'a list \<Rightarrow> 'a list" where
  "shuffle_from rand 0 xs = xs"
| "shuffle_from rand (Suc i) xs =
     (let j = rand_index (rand (Suc i)) (Suc i) in shuffle_from rand i (xs[Suc i := xs ! j, j := xs ! Suc i]))"

definition shuffle :: "(nat \<Rightarrow> num) \<Rightarrow> 'a list \<Rightarrow> 'a list" where
  "shuffle rand xs = shuffle_from rand (length xs - 1) xs"

definition eligible :: "submission \<Rightarrow> mines_world \<Rightarrow> reviewer list" where
  "eligible t W = filter (\<lambda>r. rv_stake r = StakeActive \<and> rv_id r \<noteq> ts_miner t) (reviewers W)"

definition assigned_to :: "int \<Rightarrow> string list \<Rightarrow> submission \<Rightarrow> submission" where
  "assigned_to now ids t = t\<lparr>ts_assigned := ids, ts_assignedAt := Some now, ts_assignment := AsAssigned,
     ts_votesRequired := int (length ids), ts_yesWeight := 0, ts_noWeight := 0,
     ts_deadline := Some (now + VOTING_WINDOW_MS), ts_votes := []\<rparr>"

definition count_assignment :: "int \<Rightarrow> reviewer \<Rightarrow> reviewer" where
  "count_assignment now r = r\<lparr>rv_assigned := rv_assigned r + 1, rv_lastAssigned := Some now\<rparr>"

definition autoAssignReviewers :: "mines_env \<Rightarrow> submission \<Rightarrow> mines_world \<Rightarrow> submission \<times> mines_world" where
  "autoAssignReviewers en t W =
     (let pool = eligible t W in
      if pool = [] then (t, W)
      else let ids = map rv_id (take REVIEWERS_PER_TASK (shuffle (me_rand en) pool));
               W1 = update_sub (assigned_to (me_now en) ids) (ts_id t) W;
               W2 = fold (update_reviewer (count_assignment (me_now en))) ids W1
           in (assigned_to (me_now en) ids t, fold refreshReviewerStats ids W2))"

section \<open>The settlement\<close>

definition settle_reward :: "submission \<Rightarrow> bool \<Rightarrow> mines_world \<Rightarrow> num" where
  "settle_reward t approved W =
     (if \<not> approved then 0
      else case ts_campaign t of None \<Rightarrow> ts_reward t
        | Some c \<Rightarrow> (case find_campaign c W of None \<Rightarrow> ts_reward t
                     | Some k \<Rightarrow> if cp_rate k \<noteq> 0 then cp_rate k else ts_reward t))"

definition task_settled :: "int \<Rightarrow> bool \<Rightarrow> string option \<Rightarrow> num \<Rightarrow> submission \<Rightarrow> submission" where
  "task_settled now approved reason reward t =
     (let t1 = t\<lparr>ts_status := (if approved then ''auto_approved'' else ''rejected''),
                 ts_assignment := (if approved then AsApproved else AsRejected),
                 ts_completed := Some now, ts_reward := reward\<rparr>
      in if \<not> approved \<and> truthy_str reason then t1\<lparr>ts_note := reason\<rparr> else t1)"

definition currency_of :: "submission \<Rightarrow> string" where
  "currency_of t = (if ts_currency t = [] then ''MLPTS'' else ts_currency t)"

definition pay_miner :: "submission \<Rightarrow> bool \<Rightarrow> num \<Rightarrow> mines_world \<Rightarrow> mines_world" where
  "pay_miner t approved reward W =
     (if approved \<and> 0 < reward
      then inc_balance (ts_miner t) reward (log_wallet \<lparr>wt_user = ts_miner t, wt_type = WalletCredit, wt_amount = reward,
             wt_currency = currency_of t, wt_description = ''Mines submission reward - weighted reviewer vote approved''\<rparr> W)
      else W)"

definition charge_campaign :: "string option \<Rightarrow> num \<Rightarrow> mines_world \<Rightarrow> mines_world" where
  "charge_campaign c reward W =
     (case c of None \<Rightarrow> W
      | Some i \<Rightarrow> (case find_campaign i W of None \<Rightarrow> W
          | Some k \<Rightarrow> save_campaign (k\<lparr>cp_completions := cp_completions k + 1, cp_budget := js_add (cp_budget k) (- reward)\<rparr>) W))"

text \<open>\<open>reviewer.mining_reputation || 50\<close>: zero counts as fifty.\<close>

definition missed_vote :: "reviewer \<Rightarrow> reviewer" where
  "missed_vote r =
     (let r1 = r\<lparr>rv_streak := rv_streak r + 1,
                 rv_reputation := max 0 (js_sub (num_or (rv_reputation r) 50) MISSED_VOTE_PENALTY)\<rparr>
      in if SUSPEND_AFTER_MISSES \<le> rv_streak r1 then r1\<lparr>rv_stake := StakeSuspended\<rparr> else r1)"

definition settle_reviewer :: "mines_env \<Rightarrow> votes \<Rightarrow> bool \<Rightarrow> string \<Rightarrow> mines_world \<Rightarrow> mines_world" where
  "settle_reviewer en votes approved i W =
     (case map_of votes i of
        None \<Rightarrow> (case find_reviewer i W of None \<Rightarrow> W
          | Some r \<Rightarrow> mines_notify [(i, if SUSPEND_AFTER_MISSES \<le> rv_streak r + 1 then NoteSuspended else NoteMissed)] (save_reviewer (missed_vote r) W))
      | Some cast \<Rightarrow>
          if (cast = ''yes'') = approved
          then (case find_reviewer i W of None \<Rightarrow> W
            | Some r \<Rightarrow> mines_notify [(i, NoteReviewReward (me_voteReward en))] (inc_balance i (me_voteReward en)
                (save_reviewer (r\<lparr>rv_earnings := js_add (rv_earnings r) (me_voteReward en), rv_streak := 0\<rparr>) W)))
          else update_reviewer (\<lambda>r. r\<lparr>rv_streak := 0\<rparr>) i W)"

definition settle_note :: "submission \<Rightarrow> bool \<Rightarrow> string option \<Rightarrow> num \<Rightarrow> mines_note" where
  "settle_note t approved reason reward =
     (if approved then NoteApproved reward (currency_of t)
      else NoteRejected (or_else (str_or reason None) ''Your Mines submission did not pass reviewer vote''))"

definition settle :: "mines_env \<Rightarrow> bool \<Rightarrow> string option \<Rightarrow> submission \<Rightarrow> mines_world \<Rightarrow> submission \<times> mines_world" where
  "settle en approved reason t W =
     (let reward = settle_reward t approved W;
          W1 = update_sub (task_settled (me_now en) approved reason reward) (ts_id t) W;
          W2 = pay_miner t approved reward W1;
          W3 = (if approved then charge_campaign (ts_campaign t) reward W2 else W2);
          W4 = mines_notify [(ts_miner t, settle_note t approved reason reward)] W3
      in (task_settled (me_now en) approved reason reward t, fold (settle_reviewer en (ts_votes t) approved) (ts_assigned t) W4))"

definition vote_ratio :: "submission \<Rightarrow> num" where
  "vote_ratio t = (let total = js_add (ts_yesWeight t) (ts_noWeight t) in if 0 < total then js_div (ts_yesWeight t) total else 0)"

definition votes_cast :: "submission \<Rightarrow> nat" where "votes_cast t = length (remdups (map fst (ts_votes t)))"

definition deadline_passed :: "int \<Rightarrow> submission \<Rightarrow> bool" where
  "deadline_passed now t = (case ts_deadline t of None \<Rightarrow> False | Some d \<Rightarrow> d < now)"

definition review_quorum :: "nat \<Rightarrow> num" where "review_quorum n = js_ceil (js_div (of_nat n * 2) 3)"

definition checkAndResolve :: "mines_env \<Rightarrow> submission \<Rightarrow> mines_world \<Rightarrow> submission option \<times> mines_world" where
  "checkAndResolve en t W =
     (if ts_assignment t \<notin> {AsAssigned, AsVoting} \<or> ts_assigned t = [] then (None, W)
      else let late = deadline_passed (me_now en) t; allVoted = length (ts_assigned t) \<le> votes_cast t;
               quorumMet = review_quorum (length (ts_assigned t)) \<le> of_nat (votes_cast t) in
        if \<not> allVoted \<and> \<not> (late \<and> quorumMet)
        then (if late \<and> \<not> quorumMet
              then (let (t', W') = settle en False (Some ''insufficient reviewer quorum'') t W in (Some t', W'))
              else (None, W))
        else let approved = me_threshold en \<le> vote_ratio t;
                 (t', W') = settle en approved (if approved then None
                     else Some ''weighted reviewer vote did not meet approval threshold'') t W
             in (Some t', W'))"

section \<open>The routes\<close>

datatype vote_resp = VtBadVote | VtNotFound | VtNotAssigned | VtAlready | VtDeadline | VtOk int int num num assign_status

definition count_vote :: "mines_env \<Rightarrow> string \<Rightarrow> submission \<Rightarrow> reviewer \<Rightarrow> reviewer" where
  "count_vote en vote t r =
     (let r1 = r\<lparr>rv_voted := rv_voted r + 1, rv_lastVote := Some (me_now en),
                 rv_responseTime := (case ts_assignedAt t of None \<Rightarrow> 0 | Some a \<Rightarrow> me_now en - a)\<rparr>
      in if vote = ''yes'' then r1\<lparr>rv_approved := rv_approved r + 1\<rparr> else r1\<lparr>rv_rejected := rv_rejected r + 1\<rparr>)"

definition put_vote :: "string \<Rightarrow> string \<Rightarrow> votes \<Rightarrow> votes" where
  "put_vote i vote vs = (if map_of vs i = None then vs @ [(i, vote)] else map (\<lambda>(k, v). (k, if k = i then vote else v)) vs)"

definition record_vote :: "string \<Rightarrow> string \<Rightarrow> num \<Rightarrow> submission \<Rightarrow> submission" where
  "record_vote i vote weight t =
     (let t1 = t\<lparr>ts_votes := put_vote i vote (ts_votes t), ts_assignment := AsVoting\<rparr>
      in if vote = ''yes'' then t1\<lparr>ts_yes := ts_yes t + 1, ts_yesWeight := js_add (ts_yesWeight t) weight\<rparr>
         else t1\<lparr>ts_no := ts_no t + 1, ts_noWeight := js_add (ts_noWeight t) weight\<rparr>)"

text \<open>The fields \<open>save\<close> writes after a vote: the counts and weights as read and increased.\<close>

definition store_vote :: "mines_env \<Rightarrow> submission \<Rightarrow> submission \<Rightarrow> submission \<Rightarrow> submission" where
  "store_vote en t t' s = s\<lparr>ts_votes := me_mixed en (ts_votes t) (ts_votes t'), ts_assignment := ts_assignment t',
     ts_yes := ts_yes t', ts_no := ts_no t', ts_yesWeight := ts_yesWeight t', ts_noWeight := ts_noWeight t'\<rparr>"

definition vote_guard :: "mines_env \<Rightarrow> string \<Rightarrow> string \<Rightarrow> string \<Rightarrow> mines_world \<Rightarrow> vote_resp + submission" where
  "vote_guard en i vote tid W =
     (if vote \<notin> {''yes'', ''no''} then Inl VtBadVote
      else case find_sub tid W of None \<Rightarrow> Inl VtNotFound
        | Some t \<Rightarrow>
            if i \<notin> set (ts_assigned t) then Inl VtNotAssigned
            else if truthy_str (map_of (ts_votes t) i) then Inl VtAlready
            else if deadline_passed (me_now en) t then Inl VtDeadline
            else Inr t)"

definition castVote :: "mines_env \<Rightarrow> string \<Rightarrow> string \<Rightarrow> string \<Rightarrow> mines_world \<Rightarrow> vote_resp \<times> mines_world" where
  "castVote en i vote tid W =
     (case vote_guard en i vote tid W of Inl e \<Rightarrow> (e, W)
      | Inr t \<Rightarrow>
          (let (r, W1) = upsert_reviewer (count_vote en vote t) i W;
               weight = computeWeight r;
               W2 = refreshReviewerStats i W1;
               t' = record_vote i vote weight t;
               W3 = update_sub (store_vote en t t') tid W2;
               W4 = log_mines_audit (AuditVoted i tid vote weight) W3;
               (resolved, W5) = checkAndResolve en t' W4
           in (VtOk (ts_yes t') (ts_no t') (ts_yesWeight t') (ts_noWeight t')
                 (case resolved of None \<Rightarrow> ts_assignment t' | Some s \<Rightarrow> ts_assignment s), W5)))"

section \<open>Reading after writing\<close>

lemma find_update_reviewer:
  assumes "\<And>r. rv_id (f r) = rv_id r"
  shows "find_reviewer i (update_reviewer f j W) = (if i = j then map_option f (find_reviewer i W) else find_reviewer i W)"
proof (cases "find_reviewer j W")
  case None
  then show ?thesis by (simp add: update_reviewer_def)
next
  case (Some r)
  then have "rv_id (f r) = j" using assms reviewerdb.find_key by auto
  with Some show ?thesis
    using reviewerdb.save_present [of j W r "f r"] reviewerdb.find_save_other [of i "f r" W] by (simp add: update_reviewer_def)
qed

lemma find_update_reviewers:
  assumes "\<And>r. rv_id (f r) = rv_id r" "distinct ids"
  shows "find_reviewer i (fold (update_reviewer f) ids W) = (if i \<in> set ids then map_option f (find_reviewer i W) else find_reviewer i W)"
  using assms(2) by (induction ids arbitrary: W) (auto simp: find_update_reviewer [OF assms(1)])

lemma refresh_other_fields:
  assumes "\<And>s r. g (set_stats s r) = g r"
  shows "map_option g (find_reviewer i (refreshReviewerStats j W)) = map_option g (find_reviewer i W)"
  using assms find_update_reviewer [of "set_stats s" for s]
  by (auto simp: refreshReviewerStats_def set_stats_def option.map_comp o_def split: option.splits)

lemma refresh_all_other_fields:
  assumes "\<And>s r. g (set_stats s r) = g r"
  shows "map_option g (find_reviewer i (fold refreshReviewerStats js W)) = map_option g (find_reviewer i W)"
  by (induction js arbitrary: W) (simp_all add: refresh_other_fields assms)

lemma find_update_sub:
  assumes "\<And>r. ts_id (f r) = ts_id r"
  shows "find_sub i (update_sub f j W) = (if i = j then map_option f (find_sub i W) else find_sub i W)"
proof (cases "find_sub j W")
  case None
  then show ?thesis by (simp add: update_sub_def)
next
  case (Some r)
  then have "ts_id (f r) = j" using assms subdb.find_key by auto
  with Some show ?thesis
    using subdb.save_present [of j W r "f r"] subdb.find_save_other [of i "f r" W] by (simp add: update_sub_def)
qed

text \<open>What each step leaves alone.\<close>

lemma mines_frame [frame_simps, simp]:
  "miners (update_reviewer f i W) = miners W" "submissions (update_reviewer f i W) = submissions W"
  "campaigns (update_reviewer f i W) = campaigns W" "walletTxs (update_reviewer f i W) = walletTxs W"
  "miners (update_sub g i W) = miners W" "reviewers (update_sub g i W) = reviewers W"
  "campaigns (update_sub g i W) = campaigns W" "walletTxs (update_sub g i W) = walletTxs W"
  "reviewers (inc_balance i x W) = reviewers W" "submissions (inc_balance i x W) = submissions W"
  "campaigns (inc_balance i x W) = campaigns W" "walletTxs (inc_balance i x W) = walletTxs W"
  "miners (log_wallet w W) = miners W" "reviewers (log_wallet w W) = reviewers W"
  "submissions (log_wallet w W) = submissions W" "campaigns (log_wallet w W) = campaigns W"
  "walletTxs (log_wallet w W) = walletTxs W @ [w]"
  "miners (log_mines_audit a W) = miners W" "reviewers (log_mines_audit a W) = reviewers W"
  "submissions (log_mines_audit a W) = submissions W" "campaigns (log_mines_audit a W) = campaigns W"
  "walletTxs (log_mines_audit a W) = walletTxs W"
  "miners (mines_notify ns W) = miners W" "reviewers (mines_notify ns W) = reviewers W"
  "submissions (mines_notify ns W) = submissions W" "campaigns (mines_notify ns W) = campaigns W"
  "walletTxs (mines_notify ns W) = walletTxs W"
  "miners (charge_campaign c x W) = miners W" "reviewers (charge_campaign c x W) = reviewers W"
  "submissions (charge_campaign c x W) = submissions W" "walletTxs (charge_campaign c x W) = walletTxs W"
  "miners (save_reviewer r W) = miners W" "submissions (save_reviewer r W) = submissions W"
  "campaigns (save_reviewer r W) = campaigns W" "walletTxs (save_reviewer r W) = walletTxs W"
  "miners (refreshReviewerStats i W) = miners W" "submissions (refreshReviewerStats i W) = submissions W"
  "campaigns (refreshReviewerStats i W) = campaigns W" "walletTxs (refreshReviewerStats i W) = walletTxs W"
  by (auto simp: update_reviewer_def update_sub_def inc_balance_def log_wallet_def log_mines_audit_def mines_notify_def
    charge_campaign_def save_reviewer_def save_sub_def save_miner_def save_campaign_def refreshReviewerStats_def
    split: option.splits)

lemma mines_fold_frame [frame_simps, simp]:
  "miners (fold (update_reviewer f) is W) = miners W" "submissions (fold (update_reviewer f) is W) = submissions W"
  "miners (fold refreshReviewerStats is W) = miners W" "submissions (fold refreshReviewerStats is W) = submissions W"
  by (induction "is" arbitrary: W) simp_all

lemma find_frame [frame_simps, simp]:
  "find_miner i (update_reviewer f j W) = find_miner i W"
  "find_miner i (update_sub g j W) = find_miner i W"
  "find_miner i (log_wallet w W) = find_miner i W"
  "find_miner i (log_mines_audit a W) = find_miner i W"
  "find_miner i (mines_notify ns W) = find_miner i W"
  "find_miner i (charge_campaign c x W) = find_miner i W"
  "find_miner i (save_reviewer r W) = find_miner i W"
  "find_miner i (refreshReviewerStats j W) = find_miner i W"
  "find_miner i (fold (update_reviewer f) js W) = find_miner i W"
  "find_miner i (fold refreshReviewerStats js W) = find_miner i W"
  "find_reviewer i (update_sub g j W) = find_reviewer i W"
  "find_reviewer i (inc_balance j x W) = find_reviewer i W"
  "find_reviewer i (log_wallet w W) = find_reviewer i W"
  "find_reviewer i (log_mines_audit a W) = find_reviewer i W"
  "find_reviewer i (mines_notify ns W) = find_reviewer i W"
  "find_reviewer i (charge_campaign c x W) = find_reviewer i W"
  "find_sub i (update_reviewer f j W) = find_sub i W"
  "find_sub i (inc_balance j x W) = find_sub i W"
  "find_sub i (log_wallet w W) = find_sub i W"
  "find_sub i (log_mines_audit a W) = find_sub i W"
  "find_sub i (mines_notify ns W) = find_sub i W"
  "find_sub i (charge_campaign c x W) = find_sub i W"
  "find_sub i (save_reviewer r W) = find_sub i W"
  "find_sub i (refreshReviewerStats j W) = find_sub i W"
  "find_sub i (fold (update_reviewer f) js W) = find_sub i W"
  "find_sub i (fold refreshReviewerStats js W) = find_sub i W"
  "find_campaign i (update_reviewer f j W) = find_campaign i W"
  "find_campaign i (update_sub g j W) = find_campaign i W"
  "find_campaign i (inc_balance j x W) = find_campaign i W"
  "find_campaign i (log_wallet w W) = find_campaign i W"
  "find_campaign i (log_mines_audit a W) = find_campaign i W"
  "find_campaign i (mines_notify ns W) = find_campaign i W"
  "find_campaign i (save_reviewer r W) = find_campaign i W"
  "find_campaign i (refreshReviewerStats j W) = find_campaign i W"
  by (simp_all add: find_miner_def find_reviewer_def find_sub_def find_campaign_def)

section \<open>Reputation\<close>

lemma percent_of_range:
  assumes "0 \<le> a" "a \<le> b" "0 < b"
  shows "0 \<le> percent_of a b \<and> percent_of a b \<le> 100"
proof -
  have q: "0 \<le> fl (of_int a / of_int b) \<and> fl (of_int a / of_int b) \<le> 1"
    using assms fl_int_bounds [of 0 1 0 "of_int a / of_int b"] by simp
  then have "0 \<le> fl (fl (of_int a / of_int b) * 100) \<and> fl (fl (of_int a / of_int b) * 100) \<le> 100"
    using fl_int_bounds [of 0 100 0 "fl (of_int a / of_int b) * 100"] by simp
  then show ?thesis
    using js_round_mono [of "fl (fl (of_int a / of_int b) * 100)" "of_int 100"] js_round_nonneg
    unfolding js_round_int by (simp add: percent_of_def js_arith)
qed

lemma tenths: "0 \<le> fl (4 / 10)" "fl (4 / 10) \<le> 419431 / 2 ^ 20" "0 \<le> fl (3 / 10)" "fl (3 / 10) \<le> 314573 / 2 ^ 20"
  using fl_int_bounds [of 0 419431 "- 20" "4 / 10"] fl_int_bounds [of 0 314573 "- 20" "3 / 10"] by (simp_all add: power_int_minus)

lemma scaled_score:
  assumes "0 \<le> x" "x \<le> 100" "0 \<le> w" "6400 * w \<le> of_int k" "\<bar>k\<bar> \<le> 2 ^ 53"
  shows "0 \<le> fl (x * w) \<and> fl (x * w) \<le> of_int k / 64"
proof -
  have "x * w \<le> 100 * w" using assms by (intro mult_right_mono) auto
  with assms show ?thesis using fl_int_bounds [of 0 k "- 6" "x * w"] by (simp add: power_int_minus)
qed

text \<open>
  the derived statistics of a reviewer who approved at most the votes cast and cast at most the votes
  assigned are percentages: both rates and the reputation lie between 0 and 100, and the weight the next vote
  gets from that reputation lies between a fifth and one. A reviewer without a vote keeps the reputation.
\<close>

theorem reputation_in_range:
  assumes "0 \<le> rv_approved r" "rv_approved r \<le> rv_voted r" "rv_voted r \<le> rv_assigned r"
  shows "(case computeReputationStats r of
      None \<Rightarrow> rv_voted r = 0
    | Some s \<Rightarrow> 0 < rv_voted r \<and> {st_approvalRate s, st_responseRate s, st_reputation s} \<subseteq> {0..100}
        \<and> fl (2 / 10) \<le> computeWeight (set_stats s r) \<and> computeWeight (set_stats s r) \<le> 1)"
proof (cases "0 < rv_voted r")
  case False
  with assms show ?thesis by (simp add: computeReputationStats_def)
next
  case True
  let ?a = "percent_of (rv_approved r) (rv_voted r)" and ?p = "percent_of (rv_voted r) (rv_assigned r)"
  let ?c = "fl (100 - \<bar>fl (?a - 60)\<bar>)" and ?v = "min (fl (of_int (rv_voted r) * 5)) 100"
  let ?sum = "fl (fl (fl (?p * fl (4 / 10)) + fl (?c * fl (3 / 10))) + fl (?v * fl (3 / 10)))"
  have a: "0 \<le> ?a \<and> ?a \<le> 100" and p: "0 \<le> ?p \<and> ?p \<le> 100" using assms True by (simp_all add: percent_of_range)
  have "- 60 \<le> fl (?a - 60) \<and> fl (?a - 60) \<le> 40" using a fl_int_bounds [of "- 60" 40 0 "?a - 60"] by simp
  then have c: "0 \<le> ?c \<and> ?c \<le> 100" using fl_int_bounds [of 0 100 0 "100 - \<bar>fl (?a - 60)\<bar>"] by (simp add: abs_le_iff)
  have v: "0 \<le> ?v \<and> ?v \<le> 100" using True ieee.rnd_nonneg [of "of_int (rv_voted r) * 5"] by simp
  have x: "0 \<le> fl (?p * fl (4 / 10)) \<and> fl (?p * fl (4 / 10)) \<le> 2561 / 64"
    using scaled_score [of ?p "fl (4 / 10)" 2561] p tenths by simp
  have y: "0 \<le> fl (?c * fl (3 / 10)) \<and> fl (?c * fl (3 / 10)) \<le> 1921 / 64"
    using scaled_score [of ?c "fl (3 / 10)" 1921] c tenths by simp
  have z: "0 \<le> fl (?v * fl (3 / 10)) \<and> fl (?v * fl (3 / 10)) \<le> 1921 / 64"
    using scaled_score [of ?v "fl (3 / 10)" 1921] v tenths by simp
  have "0 \<le> fl (fl (?p * fl (4 / 10)) + fl (?c * fl (3 / 10))) \<and> fl (fl (?p * fl (4 / 10)) + fl (?c * fl (3 / 10))) \<le> 4482 / 64"
    using x y fl_int_bounds [of 0 4482 "- 6" "fl (?p * fl (4 / 10)) + fl (?c * fl (3 / 10))"] by (simp add: power_int_minus)
  with z have s: "0 \<le> ?sum \<and> ?sum \<le> 6403 / 64"
    using fl_int_bounds [of 0 6403 "- 6" "fl (fl (?p * fl (4 / 10)) + fl (?c * fl (3 / 10))) + fl (?v * fl (3 / 10))"]
    by (simp add: power_int_minus)
  have "\<lfloor>?sum + 1 / 2\<rfloor> \<le> 100" using s by linarith
  then have "(of_int \<lfloor>?sum + 1 / 2\<rfloor> :: rat) \<le> of_int 100" by (simp only: of_int_le_iff)
  then have rep: "0 \<le> js_round ?sum \<and> js_round ?sum \<le> 100" using s js_round_nonneg by (simp add: js_round_def)
  have "js_div (js_round ?sum) 100 \<le> 1" using rep fl_int_bounds [of 0 1 0 "js_round ?sum / 100"] by (simp add: js_div_def)
  moreover have "fl (2 / 10) \<le> 1" using fl_int_bounds [of 0 1 0 "2 / 10"] by simp
  ultimately show ?thesis
    using True assms a p rep
    by (simp add: computeReputationStats_def js_add_def js_sub_def js_mul_def Let_def computeWeight_def set_stats_def)
qed

section \<open>The draw\<close>

lemma shuffle_from_perm:
  assumes "\<And>i. rand_index (rand i) i \<le> i" "n < length xs \<or> n = 0"
  shows "mset (shuffle_from rand n xs) = mset xs"
  using assms(2)
proof (induction n arbitrary: xs)
  case 0
  then show ?case by simp
next
  case (Suc n)
  let ?j = "rand_index (rand (Suc n)) (Suc n)"
  have "?j < length xs" using assms(1) [of "Suc n"] Suc.prems by simp
  with Suc show ?case by (simp add: Let_def mset_swap)
qed

lemma shuffle_perm: "(\<And>i. rand_index (rand i) i \<le> i) \<Longrightarrow> mset (shuffle rand xs) = mset xs"
  unfolding shuffle_def by (rule shuffle_from_perm) auto

lemma counted_once:
  assumes "distinct ids"
  shows "map_option rv_assigned (find_reviewer i (fold refreshReviewerStats ids (fold (update_reviewer (count_assignment now)) ids V)))
       = map_option (\<lambda>r. rv_assigned r + (if i \<in> set ids then 1 else 0)) (find_reviewer i V)"
proof -
  have "map_option rv_assigned (find_reviewer i (fold refreshReviewerStats ids U)) = map_option rv_assigned (find_reviewer i U)" for U
    by (rule refresh_all_other_fields) (simp add: set_stats_def)
  moreover have "find_reviewer i (fold (update_reviewer (count_assignment now)) ids V)
      = (if i \<in> set ids then map_option (count_assignment now) (find_reviewer i V) else find_reviewer i V)"
    by (rule find_update_reviewers) (simp_all add: count_assignment_def assms)
  ultimately show ?thesis by (cases "find_reviewer i V") (simp_all add: count_assignment_def)
qed

text \<open>
  for random numbers whose index in a range stays in it, a submission with staked reviewers gets six of
  them, or all when there are fewer: all different, none of them the submitter, each with its count of
  assignments increased by one and every other count as before. No balance changes, and with no staked
  reviewer nothing changes at all.
\<close>

theorem review_draw:
  assumes "\<And>i. rand_index (me_rand en i) i \<le> i" "distinct (map rv_id (reviewers W))" "autoAssignReviewers en t W = (t', W')"
  shows "if eligible t W = [] then t' = t \<and> W' = W
    else length (ts_assigned t') = min 6 (length (eligible t W)) \<and> distinct (ts_assigned t')
      \<and> set (ts_assigned t') \<subseteq> rv_id ` set (eligible t W) \<and> ts_miner t \<notin> set (ts_assigned t')
      \<and> (\<forall>i. map_option rv_assigned (find_reviewer i W')
            = map_option (\<lambda>r. rv_assigned r + (if i \<in> set (ts_assigned t') then 1 else 0)) (find_reviewer i W))
      \<and> miners W' = miners W"
proof (cases "eligible t W = []")
  case True
  with assms(3) show ?thesis by (simp add: autoAssignReviewers_def)
next
  case False
  let ?pool = "eligible t W" and ?s = "shuffle (me_rand en) (eligible t W)"
  let ?ids = "map rv_id (take REVIEWERS_PER_TASK ?s)"
  have m: "mset ?s = mset ?pool" using assms(1) by (rule shuffle_perm)
  have t': "ts_assigned t' = ?ids"
    and W': "W' = fold refreshReviewerStats ?ids (fold (update_reviewer (count_assignment (me_now en))) ?ids
      (update_sub (assigned_to (me_now en) ?ids) (ts_id t) W))"
    using assms(3) False by (auto simp: autoAssignReviewers_def assigned_to_def Let_def)
  have len: "length ?ids = min 6 (length ?pool)" using mset_eq_length [OF m] by (simp add: REVIEWERS_PER_TASK_def)
  have sub: "set ?ids \<subseteq> rv_id ` set ?pool" using mset_eq_setD [OF m] set_take_subset [of _ ?s] by fastforce
  have "distinct (map rv_id ?pool)" using assms(2) by (simp add: eligible_def distinct_map_filter)
  then have "distinct (map rv_id ?s)" using m by (metis mset_map mset_eq_imp_distinct_iff)
  then have d: "distinct ?ids" by (simp add: distinct_take flip: take_map)
  have no: "ts_miner t \<notin> set ?ids" using sub by (auto simp: eligible_def)
  have "\<forall>i. map_option rv_assigned (find_reviewer i W')
      = map_option (\<lambda>r. rv_assigned r + (if i \<in> set ?ids then 1 else 0)) (find_reviewer i W)"
    unfolding W' counted_once [OF d] find_frame by simp
  moreover have "miners W' = miners W" by (simp add: W')
  ultimately show ?thesis using False len d sub no unfolding t' if_not_P [OF False] by blast
qed

section \<open>What a settlement pays\<close>

definition balance_of :: "string \<Rightarrow> mines_world \<Rightarrow> num option" where
  "balance_of u W = map_option mu_balance (find_miner u W)"

definition matched :: "votes \<Rightarrow> bool \<Rightarrow> string \<Rightarrow> bool" where
  "matched votes approved i = (case map_of votes i of None \<Rightarrow> False | Some cast \<Rightarrow> (cast = ''yes'') = approved)"

definition reviewer_outcome :: "mines_env \<Rightarrow> votes \<Rightarrow> bool \<Rightarrow> string \<Rightarrow> reviewer \<Rightarrow> reviewer" where
  "reviewer_outcome en votes approved i r =
     (if map_of votes i = None then missed_vote r
      else if matched votes approved i then r\<lparr>rv_earnings := js_add (rv_earnings r) (me_voteReward en), rv_streak := 0\<rparr>
      else r\<lparr>rv_streak := 0\<rparr>)"

lemma missed_vote_id [simp]: "rv_id (missed_vote r) = rv_id r"
  by (simp add: missed_vote_def Let_def)

lemma balance_inc: "balance_of u (inc_balance i x W) = (if u = i then map_option (\<lambda>b. js_add b x) (balance_of u W) else balance_of u W)"
proof (cases "find_miner i W")
  case None
  then show ?thesis by (simp add: inc_balance_def balance_of_def)
next
  case (Some m)
  then have "mu_id m = i" by (rule minerdb.find_key)
  with Some show ?thesis
    using minerdb.save_present [of i W m "m\<lparr>mu_balance := js_add (mu_balance m) x\<rparr>"]
      minerdb.find_save_other [of u "m\<lparr>mu_balance := js_add (mu_balance m) x\<rparr>" W]
    by (simp add: inc_balance_def balance_of_def)
qed

lemma balance_frame [frame_simps, simp]:
  "balance_of u (update_reviewer f j W) = balance_of u W" "balance_of u (update_sub g j W) = balance_of u W"
  "balance_of u (mines_notify ns W) = balance_of u W" "balance_of u (log_wallet w W) = balance_of u W"
  "balance_of u (charge_campaign c x W) = balance_of u W" "balance_of u (save_reviewer r W) = balance_of u W"
  "balance_of u (log_mines_audit a W) = balance_of u W" "balance_of u (refreshReviewerStats j W) = balance_of u W"
  by (simp_all add: balance_of_def)

lemma settle_reviewer_effect:
  "find_reviewer j (settle_reviewer en vs ap i W)
     = (if j = i then map_option (reviewer_outcome en vs ap i) (find_reviewer i W) else find_reviewer j W)"
  "balance_of u (settle_reviewer en vs ap i W)
     = (if u = i \<and> matched vs ap i \<and> find_reviewer i W \<noteq> None
        then map_option (\<lambda>b. js_add b (me_voteReward en)) (balance_of u W) else balance_of u W)"
  "walletTxs (settle_reviewer en vs ap i W) = walletTxs W"
  "submissions (settle_reviewer en vs ap i W) = submissions W"
  "campaigns (settle_reviewer en vs ap i W) = campaigns W"
proof -
  have saved: "find_reviewer j (save_reviewer (f r) W) = (if j = i then Some (f r) else find_reviewer j W)"
    if "find_reviewer i W = Some r" "rv_id (f r) = i" for f r
    using that reviewerdb.save_present [of i W r "f r"] reviewerdb.find_save_other [of j "f r" W] by auto
  have key: "find_reviewer i W = Some r \<Longrightarrow> rv_id r = i" for r by (rule reviewerdb.find_key)
  show "find_reviewer j (settle_reviewer en vs ap i W)
     = (if j = i then map_option (reviewer_outcome en vs ap i) (find_reviewer i W) else find_reviewer j W)"
    using saved [of _ missed_vote] saved [of _ "\<lambda>r. r\<lparr>rv_earnings := js_add (rv_earnings r) (me_voteReward en), rv_streak := 0\<rparr>"]
      find_update_reviewer [of "\<lambda>r. r\<lparr>rv_streak := 0\<rparr>" j i W] key
    by (auto simp: settle_reviewer_def reviewer_outcome_def matched_def split: option.splits)
  show "balance_of u (settle_reviewer en vs ap i W)
     = (if u = i \<and> matched vs ap i \<and> find_reviewer i W \<noteq> None
        then map_option (\<lambda>b. js_add b (me_voteReward en)) (balance_of u W) else balance_of u W)"
    by (auto simp: settle_reviewer_def matched_def balance_inc split: option.splits)
qed (auto simp: settle_reviewer_def split: option.splits)

lemma settle_all_effect:
  assumes "distinct ids"
  shows "find_reviewer j (fold (settle_reviewer en vs ap) ids W)
      = (if j \<in> set ids then map_option (reviewer_outcome en vs ap j) (find_reviewer j W) else find_reviewer j W)"
    "balance_of u (fold (settle_reviewer en vs ap) ids W)
      = (if u \<in> set ids \<and> matched vs ap u \<and> find_reviewer u W \<noteq> None
         then map_option (\<lambda>b. js_add b (me_voteReward en)) (balance_of u W) else balance_of u W)"
  using assms by (induction ids arbitrary: W) (auto simp: settle_reviewer_effect)

lemma settle_all_frame:
  "walletTxs (fold (settle_reviewer en vs ap) ids W) = walletTxs W"
  "submissions (fold (settle_reviewer en vs ap) ids W) = submissions W"
  "campaigns (fold (settle_reviewer en vs ap) ids W) = campaigns W"
  by (induction ids arbitrary: W) (auto simp: settle_reviewer_effect)

lemma settle_docs:
  assumes "settle en ap reason t W = (t', W')"
  shows "find_sub k W' = (if k = ts_id t then map_option (task_settled (me_now en) ap reason (settle_reward t ap W)) (find_sub k W)
           else find_sub k W)"
    and "t' = task_settled (me_now en) ap reason (settle_reward t ap W) t"
proof -
  let ?r = "settle_reward t ap W"
  have "submissions W' = submissions (update_sub (task_settled (me_now en) ap reason ?r) (ts_id t) W)"
    using assms by (auto simp: settle_def Let_def settle_all_frame pay_miner_def)
  then have "find_sub k W' = find_sub k (update_sub (task_settled (me_now en) ap reason ?r) (ts_id t) W)" by (simp add: find_sub_def)
  then show "find_sub k W' = (if k = ts_id t then map_option (task_settled (me_now en) ap reason ?r) (find_sub k W) else find_sub k W)"
    using find_update_sub [of "task_settled (me_now en) ap reason ?r" k "ts_id t" W] by (simp add: task_settled_def Let_def)
  show "t' = task_settled (me_now en) ap reason ?r t" using assms by (auto simp: settle_def Let_def)
qed

lemma settle_effect:
  assumes "distinct (ts_assigned t)" "settle en ap reason t W = (t', W')"
  defines "r \<equiv> settle_reward t ap W"
  shows "find_reviewer j W' = (if j \<in> set (ts_assigned t) then map_option (reviewer_outcome en (ts_votes t) ap j) (find_reviewer j W)
           else find_reviewer j W)"
    and "ts_miner t \<notin> set (ts_assigned t) \<Longrightarrow> balance_of u W' =
      (if u = ts_miner t \<and> ap \<and> 0 < r then map_option (\<lambda>b. js_add b r) (balance_of u W)
       else if u \<in> set (ts_assigned t) \<and> matched (ts_votes t) ap u \<and> find_reviewer u W \<noteq> None
         then map_option (\<lambda>b. js_add b (me_voteReward en)) (balance_of u W) else balance_of u W)"
    and "walletTxs W' = walletTxs W @ (if ap \<and> 0 < r then [\<lparr>wt_user = ts_miner t, wt_type = WalletCredit, wt_amount = r,
           wt_currency = currency_of t, wt_description = ''Mines submission reward - weighted reviewer vote approved''\<rparr>] else [])"
proof -
  let ?W1 = "update_sub (task_settled (me_now en) ap reason r) (ts_id t) W"
  let ?W3 = "(if ap then charge_campaign (ts_campaign t) r (pay_miner t ap r ?W1) else pay_miner t ap r ?W1)"
  have W': "W' = fold (settle_reviewer en (ts_votes t) ap) (ts_assigned t) (mines_notify [(ts_miner t, settle_note t ap reason r)] ?W3)"
    using assms(2) by (auto simp: settle_def r_def Let_def)
  have rv: "find_reviewer i ?W3 = find_reviewer i W" for i by (simp add: pay_miner_def)
  have bal: "balance_of i ?W3 = (if i = ts_miner t \<and> ap \<and> 0 < r then map_option (\<lambda>b. js_add b r) (balance_of i W) else balance_of i W)" for i
    by (simp add: pay_miner_def balance_inc)
  have wal: "walletTxs ?W3 = walletTxs W @ (if ap \<and> 0 < r then [\<lparr>wt_user = ts_miner t, wt_type = WalletCredit, wt_amount = r,
           wt_currency = currency_of t, wt_description = ''Mines submission reward - weighted reviewer vote approved''\<rparr>] else [])"
    by (simp add: pay_miner_def)
  show "find_reviewer j W' = (if j \<in> set (ts_assigned t) then map_option (reviewer_outcome en (ts_votes t) ap j) (find_reviewer j W)
           else find_reviewer j W)"
    by (simp only: W' settle_all_effect(1) [OF assms(1)] find_frame rv)
  show "balance_of u W' =
      (if u = ts_miner t \<and> ap \<and> 0 < r then map_option (\<lambda>b. js_add b r) (balance_of u W)
       else if u \<in> set (ts_assigned t) \<and> matched (ts_votes t) ap u \<and> find_reviewer u W \<noteq> None
         then map_option (\<lambda>b. js_add b (me_voteReward en)) (balance_of u W) else balance_of u W)"
    if "ts_miner t \<notin> set (ts_assigned t)"
    using that unfolding W' settle_all_effect(2) [OF assms(1)] balance_frame find_frame rv bal by auto
  show "walletTxs W' = walletTxs W @ (if ap \<and> 0 < r then [\<lparr>wt_user = ts_miner t, wt_type = WalletCredit, wt_amount = r,
           wt_currency = currency_of t, wt_description = ''Mines submission reward - weighted reviewer vote approved''\<rparr>] else [])"
    unfolding W' settle_all_frame mines_frame wal ..
qed

text \<open>
  C33: a settlement over different reviewers, none of them the submitter, pays exactly this: the submitter the
  reward of the campaign (or of the submission) once, when the vote approved and the reward is positive, with
  one entry in the wallet journal; each reviewer whose vote matched the outcome the vote reward; and nobody
  else anything. Reviewers without a vote get the penalty, the others end their streak of missed votes.
\<close>

theorem settlement_pays:
  assumes "distinct (ts_assigned t)" "ts_miner t \<notin> set (ts_assigned t)" "settle en ap reason t W = (t', W')"
  shows "balance_of u W' =
      (if u = ts_miner t \<and> ap \<and> 0 < settle_reward t ap W then map_option (\<lambda>b. js_add b (settle_reward t ap W)) (balance_of u W)
       else if u \<in> set (ts_assigned t) \<and> matched (ts_votes t) ap u \<and> find_reviewer u W \<noteq> None
         then map_option (\<lambda>b. js_add b (me_voteReward en)) (balance_of u W) else balance_of u W)
    \<and> find_reviewer u W' = (if u \<in> set (ts_assigned t) then map_option (reviewer_outcome en (ts_votes t) ap u) (find_reviewer u W)
         else find_reviewer u W)
    \<and> length (walletTxs W') = length (walletTxs W) + (if ap \<and> 0 < settle_reward t ap W then 1 else 0)"
  using settle_effect(1) [OF assms(1,3), of u] settle_effect(2) [OF assms(1,3,2), of u] settle_effect(3) [OF assms(1,3)] by simp

lemma settle_status: "settle en ap reason t W = (t', W') \<Longrightarrow>
    ts_assignment t' = (if ap then AsApproved else AsRejected) \<and> ts_status t' = (if ap then ''auto_approved'' else ''rejected'')"
  by (auto simp: settle_def task_settled_def Let_def)

definition review_open :: "submission \<Rightarrow> bool" where
  "review_open t \<longleftrightarrow> ts_assignment t \<in> {AsAssigned, AsVoting} \<and> ts_assigned t \<noteq> []"
definition all_voted :: "submission \<Rightarrow> bool" where "all_voted t \<longleftrightarrow> length (ts_assigned t) \<le> votes_cast t"
definition quorum_met :: "submission \<Rightarrow> bool" where
  "quorum_met t \<longleftrightarrow> review_quorum (length (ts_assigned t)) \<le> of_nat (votes_cast t)"

text \<open>
  a submission is resolved exactly when it is open with reviewers and everyone has voted or the deadline has
  passed; until then nothing changes. It is approved exactly when everyone, or after the deadline two thirds,
  have voted and the weighted share of yes reaches the threshold, and rejected otherwise.
\<close>

theorem resolution_exact:
  assumes "checkAndResolve en t W = (res, W')"
  shows "if \<not> review_open t \<or> \<not> all_voted t \<and> \<not> deadline_passed (me_now en) t then res = None \<and> W' = W
    else \<exists>t' reason. res = Some t'
      \<and> ts_status t' = (if (all_voted t \<or> quorum_met t) \<and> me_threshold en \<le> vote_ratio t then ''auto_approved'' else ''rejected'')
      \<and> settle en ((all_voted t \<or> quorum_met t) \<and> me_threshold en \<le> vote_ratio t) reason t W = (t', W')"
proof (cases "\<not> review_open t \<or> \<not> all_voted t \<and> \<not> deadline_passed (me_now en) t")
  case True
  then have "checkAndResolve en t W = (None, W)" by (auto simp: checkAndResolve_def review_open_def all_voted_def)
  with True assms show ?thesis by auto
next
  case False
  define ap where "ap \<longleftrightarrow> (all_voted t \<or> quorum_met t) \<and> me_threshold en \<le> vote_ratio t"
  define reason where "reason = (if \<not> (all_voted t \<or> quorum_met t) then Some ''insufficient reviewer quorum''
    else if ap then None else Some ''weighted reviewer vote did not meet approval threshold'')"
  have "checkAndResolve en t W = (let (t', W') = settle en ap reason t W in (Some t', W'))"
    using False by (cases "all_voted t"; cases "quorum_met t")
      (simp_all add: checkAndResolve_def review_open_def ap_def reason_def all_voted_def [symmetric] quorum_met_def [symmetric])
  with assms obtain t' where s: "settle en ap reason t W = (t', W')" and r: "res = Some t'" by (auto split: prod.splits)
  from settle_status [OF s] have "ts_status t' = (if ap then ''auto_approved'' else ''rejected'')" by simp
  with s r False show ?thesis unfolding ap_def by auto
qed

lemma resolution_cases:
  "checkAndResolve en t W = (res, W') \<Longrightarrow> res = None \<and> W' = W \<or> (\<exists>ap reason t'. res = Some t' \<and> settle en ap reason t W = (t', W'))"
  by (auto simp: checkAndResolve_def Let_def split: prod.splits if_splits)

text \<open>
  once a stored submission is resolved, reading it again resolves nothing: at any later time the check of
  the stored document changes nothing.
\<close>

theorem resolution_is_final:
  assumes "checkAndResolve en t W = (Some t', W')" "find_sub (ts_id t) W = Some t"
  shows "\<exists>s. find_sub (ts_id t) W' = Some s \<and> ts_status s = ts_status t' \<and> ts_reward s = ts_reward t'
    \<and> (\<forall>en'. checkAndResolve en' s W' = (None, W'))"
proof -
  have "\<exists>ap reason. settle en ap reason t W = (t', W')"
    using assms(1) by (auto simp: checkAndResolve_def Let_def split: prod.splits if_splits)
  then obtain ap reason where s: "settle en ap reason t W = (t', W')" by blast
  have "find_sub (ts_id t) W' = Some t'"
    using settle_docs [OF s] assms(2) by simp
  with settle_status [OF s] show ?thesis by (auto simp: checkAndResolve_def)
qed

text \<open>
  two requests that read the same open submission and both find it ready settle it twice: the submitter is
  credited twice and the wallet journal has two entries, because neither settlement looks at the stored status.
\<close>

theorem stale_settlement_pays_twice:
  assumes "distinct (ts_assigned t)" "ts_miner t \<notin> set (ts_assigned t)" "ts_campaign t = None" "0 < ts_reward t"
    "checkAndResolve en t W = (Some t1, W1)" "ts_status t1 = ''auto_approved''" "checkAndResolve en t W1 = (Some t2, W2)"
  shows "balance_of (ts_miner t) W2 = map_option (\<lambda>b. js_add (js_add b (ts_reward t)) (ts_reward t)) (balance_of (ts_miner t) W)
    \<and> length (walletTxs W2) = length (walletTxs W) + 2"
proof -
  have step: "\<exists>reason. settle en True reason t V = (v, V')"
    if "checkAndResolve en t V = (Some v, V')" "ts_status v = ''auto_approved''" for V v V'
    using that settle_status [of en _ _ t V v V'] by (fastforce simp: checkAndResolve_def Let_def split: prod.splits if_splits)
  have same: "fst (checkAndResolve en t V) = None \<or> ts_status (the (fst (checkAndResolve en t V)))
      = (if (length (ts_assigned t) \<le> votes_cast t \<or> review_quorum (length (ts_assigned t)) \<le> of_nat (votes_cast t))
           \<and> me_threshold en \<le> vote_ratio t then ''auto_approved'' else ''rejected'')" for V
    by (auto simp: checkAndResolve_def Let_def settle_def task_settled_def split: prod.splits)
  have "ts_status t2 = ''auto_approved''" using same [of W] same [of W1] assms(5-7) by (simp split: if_splits)
  with step assms(5-7) obtain r1 r2 where s: "settle en True r1 t W = (t1, W1)" "settle en True r2 t W1 = (t2, W2)" by blast
  have r: "settle_reward t True V = ts_reward t" for V using assms(3) by (simp add: settle_reward_def)
  show ?thesis
    using settle_effect(2,3) [OF assms(1) s(1)] settle_effect(2,3) [OF assms(1) s(2)] assms(2,4)
    by (simp add: r option.map_comp o_def)
qed

section \<open>Votes\<close>

lemma upsert_reviewer_frame [frame_simps, simp]:
  "miners (snd (upsert_reviewer f i W)) = miners W" "submissions (snd (upsert_reviewer f i W)) = submissions W"
  "campaigns (snd (upsert_reviewer f i W)) = campaigns W" "walletTxs (snd (upsert_reviewer f i W)) = walletTxs W"
  "find_sub k (snd (upsert_reviewer f i W)) = find_sub k W" "balance_of u (snd (upsert_reviewer f i W)) = balance_of u W"
  by (auto simp: upsert_reviewer_def create_reviewer_def save_reviewer_def find_sub_def balance_of_def find_miner_def Let_def
    split: option.splits)

definition vote_weight :: "string \<Rightarrow> mines_world \<Rightarrow> num" where
  "vote_weight i W = computeWeight (or_else (find_reviewer i W) (new_reviewer i))"

lemma upsert_weight: "computeWeight (fst (upsert_reviewer (count_vote en vote t) i W)) = vote_weight i W"
  by (auto simp: upsert_reviewer_def vote_weight_def computeWeight_def count_vote_def or_else_def Let_def split: option.splits)

lemma record_vote_simps [simp]:
  "ts_id (record_vote i v w t) = ts_id t" "ts_assigned (record_vote i v w t) = ts_assigned t"
  "ts_miner (record_vote i v w t) = ts_miner t" "ts_campaign (record_vote i v w t) = ts_campaign t"
  "ts_reward (record_vote i v w t) = ts_reward t" "ts_deadline (record_vote i v w t) = ts_deadline t"
  "ts_votes (record_vote i v w t) = put_vote i v (ts_votes t)" "ts_assignment (record_vote i v w t) = AsVoting"
  by (simp_all add: record_vote_def Let_def)

lemma store_noticed: "(\<And>x y. me_mixed en x y = y) \<Longrightarrow> store_vote en t (record_vote i v w t) t = record_vote i v w t"
  by (simp add: store_vote_def record_vote_def Let_def)

text \<open>The state in which a counted vote is checked: the vote is stored, the check decides on it.\<close>

definition counted_world :: "mines_env \<Rightarrow> string \<Rightarrow> string \<Rightarrow> string \<Rightarrow> submission \<Rightarrow> mines_world \<Rightarrow> mines_world" where
  "counted_world en i vote tid t W =
     log_mines_audit (AuditVoted i tid vote (vote_weight i W))
       (update_sub (store_vote en t (record_vote i vote (vote_weight i W) t)) tid
         (refreshReviewerStats i (snd (upsert_reviewer (count_vote en vote t) i W))))"

lemma castVote_passed:
  assumes "vote_guard en i vote tid W = Inr t"
  shows "castVote en i vote tid W =
    (let t' = record_vote i vote (vote_weight i W) t; (res, W') = checkAndResolve en t' (counted_world en i vote tid t W)
     in (VtOk (ts_yes t') (ts_no t') (ts_yesWeight t') (ts_noWeight t')
           (case res of None \<Rightarrow> AsVoting | Some s \<Rightarrow> ts_assignment s), W'))"
  using assms by (simp add: castVote_def counted_world_def upsert_weight case_prod_beta Let_def cong: option.case_cong)

lemma vote_guard_passed:
  "vote_guard en i vote tid W = Inr t \<longleftrightarrow> vote \<in> {''yes'', ''no''} \<and> find_sub tid W = Some t \<and> i \<in> set (ts_assigned t)
     \<and> \<not> truthy_str (map_of (ts_votes t) i) \<and> \<not> deadline_passed (me_now en) t"
  by (auto simp: vote_guard_def split: option.splits)

lemma castVote_ok:
  assumes "castVote en i vote tid W = (VtOk a b c d st, W')"
  obtains t res where "vote_guard en i vote tid W = Inr t"
    "checkAndResolve en (record_vote i vote (vote_weight i W) t) (counted_world en i vote tid t W) = (res, W')"
proof (cases "vote_guard en i vote tid W")
  case (Inl e)
  then have "e = VtOk a b c d st" using assms by (simp add: castVote_def)
  with Inl show ?thesis by (auto simp: vote_guard_def split: option.splits if_splits)
next
  case (Inr t)
  with assms castVote_passed [OF Inr] show ?thesis by (auto simp: Let_def split: prod.splits intro: that)
qed

lemma counted_sub:
  assumes "find_sub tid W = Some t"
  shows "find_sub k (counted_world en i vote tid t W)
      = (if k = tid then Some (store_vote en t (record_vote i vote (vote_weight i W) t) t) else find_sub k W)"
    and "balance_of u (counted_world en i vote tid t W) = balance_of u W"
  using assms find_update_sub [of "store_vote en t (record_vote i vote (vote_weight i W) t)" k tid]
  by (auto simp: counted_world_def store_vote_def)

lemma map_of_put_vote: "map_of (put_vote i v vs) j = (if j = i then Some v else map_of vs j)"
proof -
  have "map_of (map (\<lambda>(k, u). (k, if k = i then v else u)) vs) j = (if j = i then map_option (\<lambda>_. v) (map_of vs j) else map_of vs j)"
    by (induction vs) auto
  then show ?thesis by (auto simp: put_vote_def map_add_def split: option.splits)
qed

lemma task_settled_simps [simp]:
  "ts_id (task_settled now ap reason x t) = ts_id t" "ts_votes (task_settled now ap reason x t) = ts_votes t"
  "ts_assigned (task_settled now ap reason x t) = ts_assigned t" "ts_deadline (task_settled now ap reason x t) = ts_deadline t"
  "ts_yes (task_settled now ap reason x t) = ts_yes t" "ts_no (task_settled now ap reason x t) = ts_no t"
  "ts_yesWeight (task_settled now ap reason x t) = ts_yesWeight t" "ts_noWeight (task_settled now ap reason x t) = ts_noWeight t"
  by (simp_all add: task_settled_def Let_def)

lemma check_keeps_votes:
  assumes "checkAndResolve en t W = (res, W')" "find_sub k W = Some s"
  shows "\<exists>s'. find_sub k W' = Some s' \<and> ts_votes s' = ts_votes s \<and> ts_assigned s' = ts_assigned s \<and> ts_deadline s' = ts_deadline s
    \<and> ts_yes s' = ts_yes s \<and> ts_no s' = ts_no s \<and> ts_yesWeight s' = ts_yesWeight s \<and> ts_noWeight s' = ts_noWeight s"
proof -
  have "W' = W \<or> (\<exists>ap reason t'. settle en ap reason t W = (t', W'))"
    using resolution_cases [OF assms(1)] by blast
  then show ?thesis using assms(2) by (auto simp: settle_docs)
qed

text \<open>
  when saving a submission stores the votes changed in place, a reviewer's vote counts once: it is accepted
  only from an assigned reviewer without a vote and before the deadline, it is stored with the weight of the
  reputation from before the vote, the other votes stay, and from then on every further vote of that
  reviewer on that submission is refused and changes nothing.
\<close>

theorem vote_counted_once:
  assumes "\<And>x y. me_mixed en x y = y" "castVote en i vote tid W = (VtOk a b c d st, W')"
  shows "\<exists>t s. find_sub tid W = Some t \<and> i \<in> set (ts_assigned t) \<and> \<not> truthy_str (map_of (ts_votes t) i)
    \<and> \<not> deadline_passed (me_now en) t \<and> find_sub tid W' = Some s
    \<and> (\<forall>j. map_of (ts_votes s) j = (if j = i then Some vote else map_of (ts_votes t) j))
    \<and> ts_yesWeight s = (if vote = ''yes'' then js_add (ts_yesWeight t) (vote_weight i W) else ts_yesWeight t)
    \<and> ts_noWeight s = (if vote = ''yes'' then ts_noWeight t else js_add (ts_noWeight t) (vote_weight i W))
    \<and> (\<forall>en' v. castVote en' i v tid W' = (if v \<in> {''yes'', ''no''} then VtAlready else VtBadVote, W'))"
proof -
  obtain t res where g: "vote_guard en i vote tid W = Inr t"
    and res: "checkAndResolve en (record_vote i vote (vote_weight i W) t) (counted_world en i vote tid t W) = (res, W')"
    using assms(2) by (rule castVote_ok)
  let ?t' = "record_vote i vote (vote_weight i W) t"
  from g have t: "find_sub tid W = Some t" "i \<in> set (ts_assigned t)" "\<not> truthy_str (map_of (ts_votes t) i)"
      "\<not> deadline_passed (me_now en) t" and v: "vote \<in> {''yes'', ''no''}" by (simp_all add: vote_guard_passed)
  have "find_sub tid (counted_world en i vote tid t W) = Some ?t'"
    using counted_sub(1) [OF t(1), of tid en i vote] by (simp add: store_noticed assms(1))
  from check_keeps_votes [OF res this] obtain s where s: "find_sub tid W' = Some s" "ts_votes s = put_vote i vote (ts_votes t)"
      "ts_assigned s = ts_assigned t" "ts_yesWeight s = ts_yesWeight ?t'" "ts_noWeight s = ts_noWeight ?t'" by auto
  have "castVote en' i u tid W' = (if u \<in> {''yes'', ''no''} then VtAlready else VtBadVote, W')" for en' u
    using s t(2) v by (auto simp: castVote_def vote_guard_def map_of_put_vote truthy_str_def)
  with s t show ?thesis by (auto simp: map_of_put_vote record_vote_def Let_def)
qed

lemma votes_cast_put: "map_of (ts_votes t) i = None \<Longrightarrow> votes_cast (record_vote i v w t) = votes_cast t + 1"
proof -
  assume "map_of (ts_votes t) i = None"
  then have "i \<notin> fst ` set (ts_votes t)" and "put_vote i v (ts_votes t) = ts_votes t @ [(i, v)]"
    by (simp_all add: map_of_eq_None_iff put_vote_def)
  then show ?thesis by (simp add: votes_cast_def length_remdups_card_conv)
qed

lemma unnoticed_step:
  assumes mixed: "\<And>x y. me_mixed en x y = (if x = [] then y else x)"
    and t: "find_sub tid W = Some t" "i \<in> set (ts_assigned t)" "map_of (ts_votes t) i = None" "ts_votes t \<noteq> []"
      "\<not> deadline_passed (me_now en) t" "votes_cast t + 1 < length (ts_assigned t)"
    and cast: "castVote en i ''yes'' tid W = (resp, W')"
  shows "\<exists>s. find_sub tid W' = Some s \<and> ts_assigned s = ts_assigned t \<and> ts_votes s = ts_votes t \<and> ts_deadline s = ts_deadline t
    \<and> ts_yes s = ts_yes t + 1 \<and> ts_yesWeight s = js_add (ts_yesWeight t) (vote_weight i W)"
proof -
  let ?t' = "record_vote i ''yes'' (vote_weight i W) t"
  have g: "vote_guard en i ''yes'' tid W = Inr t" using t by (simp add: vote_guard_passed truthy_str_def)
  have "\<not> all_voted ?t'" using t(6) votes_cast_put [OF t(3)] by (simp add: all_voted_def)
  moreover have "\<not> deadline_passed (me_now en) ?t'" using t(5) by (simp add: deadline_passed_def)
  ultimately have "checkAndResolve en ?t' V = (None, V)" for V by (simp add: checkAndResolve_def all_voted_def)
  then have "W' = counted_world en i ''yes'' tid t W" using cast castVote_passed [OF g] by (simp add: Let_def)
  with counted_sub(1) [OF t(1), of tid en i "''yes''"] t(4) show ?thesis
    by (simp add: store_vote_def mixed) (simp add: record_vote_def Let_def)
qed

text \<open>
  the votes are an object that is changed in place. If saving stores it only while the stored object is
  still empty, as the object mapper does for a path of mixed type that is not marked as modified, a reviewer
  who votes second is not remembered: the same reviewer can vote again, both votes are counted with their
  weights, and the stored votes are still those of the first voter.
\<close>

theorem unnoticed_vote_counts_again:
  assumes "\<And>x y. me_mixed en x y = (if x = [] then y else x)"
    and "find_sub tid W = Some t" "i \<in> set (ts_assigned t)" "map_of (ts_votes t) i = None" "ts_votes t \<noteq> []"
      "\<not> deadline_passed (me_now en) t" "votes_cast t + 1 < length (ts_assigned t)"
    and "castVote en i ''yes'' tid W = (r1, W1)" "castVote en i ''yes'' tid W1 = (r2, W2)"
  shows "\<exists>s. find_sub tid W2 = Some s \<and> ts_yes s = ts_yes t + 2 \<and> ts_votes s = ts_votes t
    \<and> ts_yesWeight s = js_add (js_add (ts_yesWeight t) (vote_weight i W)) (vote_weight i W1)"
proof -
  obtain s where s: "find_sub tid W1 = Some s" "ts_assigned s = ts_assigned t" "ts_votes s = ts_votes t" "ts_deadline s = ts_deadline t"
      "ts_yes s = ts_yes t + 1" "ts_yesWeight s = js_add (ts_yesWeight t) (vote_weight i W)"
    using unnoticed_step [OF assms(1-8)] by blast
  have "votes_cast s = votes_cast t" "deadline_passed (me_now en) s = deadline_passed (me_now en) t"
    using s by (simp_all add: votes_cast_def deadline_passed_def)
  with s assms(3-7) show ?thesis
    using unnoticed_step [OF assms(1) s(1) _ _ _ _ _ assms(9)] by auto
qed

section \<open>Witnesses\<close>

definition demo_mines_env :: mines_env where
  "demo_mines_env = \<lparr>me_now = 1000, me_voteReward = 1 / 2, me_threshold = 1 / 2, me_rand = (\<lambda>_. 0), me_mixed = (\<lambda>_ v. v)\<rparr>"

definition demo_reviewer :: "string \<Rightarrow> reviewer" where
  "demo_reviewer i = (new_reviewer i)\<lparr>rv_staked := 50, rv_stake := StakeActive\<rparr>"

definition demo_sub :: submission where
  "demo_sub = \<lparr>ts_id = ''t'', ts_miner = ''m'', ts_campaign = None, ts_status = ''manual_review'', ts_assigned = [''a'', ''b'', ''c''],
     ts_assignedAt = Some 500, ts_assignment = AsVoting, ts_votes = [(''b'', ''yes'')], ts_votesRequired = 3, ts_yes = 1, ts_no = 0,
     ts_yesWeight = 1, ts_noWeight = 0, ts_deadline = Some 9000, ts_reward = 4, ts_currency = [], ts_created = 0,
     ts_completed = None, ts_note = None\<rparr>"

definition demo_mines :: mines_world where
  "demo_mines = \<lparr>miners = map (\<lambda>i. \<lparr>mu_id = i, mu_name = [], mu_email = [], mu_balance = 10\<rparr>) [''m'', ''a'', ''b'', ''c''],
     reviewers = map demo_reviewer [''a'', ''b'', ''c''], submissions = [demo_sub], campaigns = [], walletTxs = [],
     minesAudit = [], minesNotes = []\<rparr>"

text \<open>All three have voted yes.\<close>

definition demo_full :: submission where
  "demo_full = demo_sub\<lparr>ts_votes := [(''a'', ''yes''), (''b'', ''yes''), (''c'', ''no'')]\<rparr>"

lemma reputation_in_range_witness:
  "(case computeReputationStats (new_reviewer ''a'') of
      None \<Rightarrow> rv_voted (new_reviewer ''a'') = 0
    | Some s \<Rightarrow> 0 < rv_voted (new_reviewer ''a'') \<and> {st_approvalRate s, st_responseRate s, st_reputation s} \<subseteq> {0..100}
        \<and> fl (2 / 10) \<le> computeWeight (set_stats s (new_reviewer ''a'')) \<and> computeWeight (set_stats s (new_reviewer ''a'')) \<le> 1)
   \<and> (case computeReputationStats ((new_reviewer ''a'')\<lparr>rv_assigned := 3, rv_voted := 2, rv_approved := 1\<rparr>) of
      None \<Rightarrow> False | Some s \<Rightarrow> st_reputation s \<le> 100)"
  using reputation_in_range [of "new_reviewer ''a''"]
    reputation_in_range [of "(new_reviewer ''a'')\<lparr>rv_assigned := 3, rv_voted := 2, rv_approved := 1\<rparr>"]
  by (auto simp: new_reviewer_def split: option.splits)

lemma review_draw_witness:
  "\<exists>t' W'. autoAssignReviewers demo_mines_env demo_sub demo_mines = (t', W') \<and> length (ts_assigned t') = 3 \<and> distinct (ts_assigned t')"
proof -
  obtain t' W' where a: "autoAssignReviewers demo_mines_env demo_sub demo_mines = (t', W')" by fastforce
  have "rand_index (me_rand demo_mines_env i) i \<le> i" for i by (simp add: demo_mines_env_def rand_index_def js_mul_def)
  moreover have "distinct (map rv_id (reviewers demo_mines))" by (simp add: demo_mines_def demo_reviewer_def new_reviewer_def)
  moreover have "length (eligible demo_sub demo_mines) = 3"
    by (simp add: eligible_def demo_mines_def demo_sub_def demo_reviewer_def new_reviewer_def)
  ultimately show ?thesis using review_draw [OF _ _ a] a by (auto split: if_splits)
qed

lemma settlement_pays_witness:
  "\<exists>t' W'. settle demo_mines_env True None demo_full demo_mines = (t', W')
     \<and> balance_of ''m'' W' = Some (js_add 10 4) \<and> balance_of ''a'' W' = Some (js_add 10 (1 / 2)) \<and> balance_of ''c'' W' = Some 10"
proof -
  obtain t' W' where s: "settle demo_mines_env True None demo_full demo_mines = (t', W')" by fastforce
  have d: "distinct (ts_assigned demo_full)" "ts_miner demo_full \<notin> set (ts_assigned demo_full)" by (simp_all add: demo_full_def demo_sub_def)
  note p = settlement_pays [OF d s]
  show ?thesis using s p [of "''m''"] p [of "''a''"] p [of "''c''"]
    by (simp add: demo_full_def demo_sub_def demo_mines_def settle_reward_def balance_of_def find_miner_def find_reviewer_def
      matched_def demo_reviewer_def new_reviewer_def demo_mines_env_def)
qed

lemma demo_resolves: "checkAndResolve demo_mines_env demo_full W = (let (t', W') = settle demo_mines_env True None demo_full W in (Some t', W'))"
proof -
  have "me_threshold demo_mines_env \<le> vote_ratio demo_full"
    using fl_of_int [of 1] by (simp add: demo_mines_env_def vote_ratio_def demo_full_def demo_sub_def js_arith)
  moreover have "votes_cast demo_full = 3" by (simp add: votes_cast_def demo_full_def)
  ultimately show ?thesis by (simp add: checkAndResolve_def demo_full_def demo_sub_def)
qed

lemma resolution_exact_witness:
  "\<exists>t' reason. fst (checkAndResolve demo_mines_env demo_full demo_mines) = Some t' \<and> ts_status t' = ''auto_approved''
     \<and> settle demo_mines_env True reason demo_full demo_mines = (t', snd (checkAndResolve demo_mines_env demo_full demo_mines))"
proof -
  have "me_threshold demo_mines_env \<le> vote_ratio demo_full"
    using fl_of_int [of 1] by (simp add: demo_mines_env_def vote_ratio_def demo_full_def demo_sub_def js_arith)
  moreover have "review_open demo_full" "all_voted demo_full"
    by (simp_all add: review_open_def all_voted_def votes_cast_def demo_full_def demo_sub_def)
  ultimately show ?thesis
    using resolution_exact [of demo_mines_env demo_full demo_mines "fst (checkAndResolve demo_mines_env demo_full demo_mines)"
      "snd (checkAndResolve demo_mines_env demo_full demo_mines)"] by auto
qed

lemma resolution_is_final_witness:
  "\<exists>t' W' s. checkAndResolve demo_mines_env demo_full (demo_mines\<lparr>submissions := [demo_full]\<rparr>) = (Some t', W')
     \<and> find_sub ''t'' W' = Some s \<and> checkAndResolve demo_mines_env s W' = (None, W')"
proof -
  obtain t' W' where s: "checkAndResolve demo_mines_env demo_full (demo_mines\<lparr>submissions := [demo_full]\<rparr>) = (Some t', W')"
    using demo_resolves by (fastforce simp: case_prod_beta)
  have "find_sub (ts_id demo_full) (demo_mines\<lparr>submissions := [demo_full]\<rparr>) = Some demo_full" by (simp add: find_sub_def)
  from resolution_is_final [OF s this] s show ?thesis by (auto simp: demo_full_def demo_sub_def)
qed

lemma stale_settlement_pays_twice_witness:
  "\<exists>t1 W1 t2 W2. checkAndResolve demo_mines_env demo_full demo_mines = (Some t1, W1)
     \<and> checkAndResolve demo_mines_env demo_full W1 = (Some t2, W2) \<and> balance_of ''m'' W2 = Some (js_add (js_add 10 4) 4)"
proof -
  obtain t1 W1 where a: "settle demo_mines_env True None demo_full demo_mines = (t1, W1)" by fastforce
  obtain t2 W2 where b: "settle demo_mines_env True None demo_full W1 = (t2, W2)" by fastforce
  have c: "checkAndResolve demo_mines_env demo_full demo_mines = (Some t1, W1)" "checkAndResolve demo_mines_env demo_full W1 = (Some t2, W2)"
    by (simp_all add: demo_resolves a b)
  have "ts_status t1 = ''auto_approved''" using settle_status [OF a] by simp
  then show ?thesis
    using stale_settlement_pays_twice [OF _ _ _ _ c(1) _ c(2)] c
    by (simp add: demo_full_def demo_sub_def demo_mines_def balance_of_def find_miner_def)
qed

lemma demo_vote_accepted: "castVote en ''a'' ''yes'' ''t'' demo_mines = (r, W) \<Longrightarrow> me_now en = 1000 \<Longrightarrow> \<exists>a b c d st. r = VtOk a b c d st"
  using castVote_passed [of en "''a''" "''yes''" "''t''" demo_mines demo_sub]
  by (auto simp: vote_guard_passed find_sub_def demo_mines_def demo_sub_def truthy_str_def deadline_passed_def Let_def split: prod.splits)

lemma vote_counted_once_witness:
  "\<exists>r W'. castVote demo_mines_env ''a'' ''yes'' ''t'' demo_mines = (r, W') \<and> castVote demo_mines_env ''a'' ''no'' ''t'' W' = (VtAlready, W')"
proof -
  obtain r W' where c: "castVote demo_mines_env ''a'' ''yes'' ''t'' demo_mines = (r, W')" by fastforce
  then obtain a b d e st where r: "r = VtOk a b d e st" using demo_vote_accepted [OF c] by (auto simp: demo_mines_env_def)
  have "me_mixed demo_mines_env x y = y" for x y by (simp add: demo_mines_env_def)
  from vote_counted_once [OF this c [unfolded r]] c show ?thesis by auto
qed

lemma unnoticed_vote_counts_again_witness:
  "\<exists>r1 W1 r2 W2 s. castVote (demo_mines_env\<lparr>me_mixed := \<lambda>x y. if x = [] then y else x\<rparr>) ''a'' ''yes'' ''t'' demo_mines = (r1, W1)
     \<and> castVote (demo_mines_env\<lparr>me_mixed := \<lambda>x y. if x = [] then y else x\<rparr>) ''a'' ''yes'' ''t'' W1 = (r2, W2)
     \<and> find_sub ''t'' W2 = Some s \<and> ts_yes s = 3 \<and> ts_votes s = [(''b'', ''yes'')]"
proof -
  let ?en = "demo_mines_env\<lparr>me_mixed := \<lambda>x y. if x = [] then y else x\<rparr>"
  obtain r1 W1 where a: "castVote ?en ''a'' ''yes'' ''t'' demo_mines = (r1, W1)" by fastforce
  obtain r2 W2 where b: "castVote ?en ''a'' ''yes'' ''t'' W1 = (r2, W2)" by fastforce
  have t: "find_sub ''t'' demo_mines = Some demo_sub" by (simp add: find_sub_def demo_mines_def demo_sub_def)
  from unnoticed_vote_counts_again [OF _ t _ _ _ _ _ a b] a b show ?thesis
    by (auto simp: demo_sub_def deadline_passed_def demo_mines_env_def votes_cast_def)
qed

end
