(* ===== verification/MinesStake.thy ===== *)
theory MinesStake
  imports MinesReview
begin

text \<open>
  The other routes of \<open>routes/taskAssignment.js\<close>: the assignment and the final rejection by an administrator,
  the list of a reviewer's tasks, which resolves what is past its deadline, and the stake of a reviewer.
  An amount is \<open>None\<close> when \<open>Number\<close> of it is not a number; infinite amounts are refused like large ones.
\<close>

section \<open>The administrator\<close>

datatype assign_resp = AgBadList | AgNotFound | AgBadStatus assign_status | AgOk submission

definition adminAssigned :: "int \<Rightarrow> string list \<Rightarrow> submission \<Rightarrow> submission" where
  "adminAssigned now ids t = t\<lparr>ts_assigned := ids, ts_assignedAt := Some now, ts_assignment := AsAssigned,
     ts_votesRequired := 6, ts_deadline := Some (now + 48 * 60 * 60 * 1000), ts_votes := []\<rparr>"

definition adminAssign :: "int \<Rightarrow> string list option \<Rightarrow> string \<Rightarrow> mines_world \<Rightarrow> assign_resp \<times> mines_world" where
  "adminAssign now validator_ids tid W =
     (case validator_ids of None \<Rightarrow> (AgBadList, W)
      | Some ids \<Rightarrow>
          if length ids \<noteq> 6 then (AgBadList, W)
          else case find_sub tid W of None \<Rightarrow> (AgNotFound, W)
            | Some t \<Rightarrow>
                if ts_assignment t \<notin> {AsNone, AsPending} then (AgBadStatus (ts_assignment t), W)
                else let W1 = update_sub (adminAssigned now ids) tid W;
                         W2 = fold (\<lambda>i V. snd (upsert_reviewer (count_assignment now) i V)) ids W1
                     in (AgOk (adminAssigned now ids t), log_mines_audit (AuditAssigned tid (length ids)) W2))"

definition finally_rejected :: "string option \<Rightarrow> submission \<Rightarrow> submission" where
  "finally_rejected note t = t\<lparr>ts_status := ''rejected'', ts_assignment := AsRejected,
     ts_note := str_or note (Some ''Rejected after validator review'')\<rparr>"

definition adminFinalReject :: "string option \<Rightarrow> string \<Rightarrow> mines_world \<Rightarrow> submission option \<times> mines_world" where
  "adminFinalReject note tid W =
     (case find_sub tid W of None \<Rightarrow> (None, W)
      | Some t \<Rightarrow>
          (let t' = finally_rejected note t; W1 = update_sub (finally_rejected note) tid W;
               W2 = log_mines_audit (AuditFinalReject tid (or_else note [])) W1
           in (Some t', mines_notify [(ts_miner t, NoteRejected (or_else (ts_note t') []))] W2)))"

definition pendingAssignment :: "mines_world \<Rightarrow> submission list" where
  "pendingAssignment W = take 100 (sort_key (\<lambda>t. - ts_created t)
     (filter (\<lambda>t. ts_assignment t \<in> {AsNone, AsPending} \<and> ts_status t = ''manual_review'') (submissions W)))"

definition inVoting :: "mines_world \<Rightarrow> submission list" where
  "inVoting W = take 100 (sort_key (\<lambda>t. - or_else (ts_assignedAt t) 0)
     (filter (\<lambda>t. ts_assignment t \<in> {AsAssigned, AsVoting} \<and> ts_status t = ''manual_review'') (submissions W)))"

section \<open>The reviewer\<close>

definition my_candidates :: "string \<Rightarrow> mines_world \<Rightarrow> submission list" where
  "my_candidates i W = take 50 (sort_key (\<lambda>t. - or_else (ts_assignedAt t) 0)
     (filter (\<lambda>t. i \<in> set (ts_assigned t) \<and> ts_assignment t \<in> {AsAssigned, AsVoting}) (submissions W)))"

fun resolve_list :: "mines_env \<Rightarrow> submission list \<Rightarrow> mines_world \<Rightarrow> submission list \<times> mines_world" where
  "resolve_list en [] W = ([], W)"
| "resolve_list en (t # ts) W =
     (let (resolved, W1) = checkAndResolve en t W; (rest, W2) = resolve_list en ts W1
      in (if resolved = None then t # rest else rest, W2))"

definition my_vote :: "string \<Rightarrow> submission \<Rightarrow> string option" where
  "my_vote i t = str_or (map_of (ts_votes t) i) None"

definition myAssigned :: "mines_env \<Rightarrow> string \<Rightarrow> mines_world \<Rightarrow> (submission \<times> string option \<times> bool) list \<times> mines_world" where
  "myAssigned en i W =
     (let (tasks, W') = resolve_list en (my_candidates i W) W
      in (map (\<lambda>t. (t, my_vote i t, truthy_str (map_of (ts_votes t) i))) tasks, W'))"

datatype stake_resp = SkBadAmount | SkInsufficient | SkOk reviewer

definition stake_status_for :: "reviewer \<Rightarrow> stake_status" where
  "stake_status_for r = (if rv_min r \<le> rv_staked r then StakeActive else Unstaked)"

definition stake_named :: "miner \<Rightarrow> reviewer \<Rightarrow> reviewer" where
  "stake_named u r = r\<lparr>rv_moniker := mu_name u, rv_email := mu_email u\<rparr>"

definition reviewerStake :: "string \<Rightarrow> num option \<Rightarrow> mines_world \<Rightarrow> stake_resp \<times> mines_world" where
  "reviewerStake i amount W =
     (case amount of None \<Rightarrow> (SkBadAmount, W)
      | Some x \<Rightarrow>
          if x \<le> 0 then (SkBadAmount, W)
          else case debit_balance i x W of None \<Rightarrow> (SkInsufficient, W)
            | Some (u, W1) \<Rightarrow>
                (let inc = (\<lambda>r. r\<lparr>rv_staked := js_add (rv_staked r) x\<rparr>);
                     (r, W2) = (case find_reviewer i W1 of
                         None \<Rightarrow> (let r = inc (stake_named u (new_reviewer i)) in (r, create_reviewer r W1))
                       | Some r \<Rightarrow> (inc r, save_reviewer (inc r) W1));
                     r' = r\<lparr>rv_stake := stake_status_for r\<rparr>
                 in (SkOk r', save_reviewer r' W2)))"

datatype unstake_error = UkNoStake | UkOpenVote | UkBadAmount

definition has_open_vote :: "int \<Rightarrow> string \<Rightarrow> mines_world \<Rightarrow> bool" where
  "has_open_vote now i W = list_ex (\<lambda>t. i \<in> set (ts_assigned t) \<and> ts_assignment t \<in> {AsAssigned, AsVoting}
     \<and> (case ts_deadline t of None \<Rightarrow> False | Some d \<Rightarrow> now < d) \<and> map_of (ts_votes t) i = None) (submissions W)"

text \<open>Everything the route reads before its transaction, and the transaction.\<close>

definition unstake_check :: "int \<Rightarrow> string \<Rightarrow> num option \<Rightarrow> mines_world \<Rightarrow> unstake_error + reviewer \<times> num" where
  "unstake_check now i amount W =
     (case find_reviewer i W of None \<Rightarrow> Inl UkNoStake
      | Some r \<Rightarrow>
          if rv_staked r \<le> 0 then Inl UkNoStake
          else if has_open_vote now i W then Inl UkOpenVote
          else let x = num_or (or_else amount 0) (rv_staked r) in
            if x \<le> 0 \<or> rv_staked r < x then Inl UkBadAmount else Inr (r, x))"

definition unstaked :: "reviewer \<Rightarrow> num \<Rightarrow> reviewer" where
  "unstaked r x = (let r1 = r\<lparr>rv_staked := js_sub (rv_staked r) x\<rparr> in r1\<lparr>rv_stake := stake_status_for r1\<rparr>)"

text \<open>\<open>save\<close> writes the stake, and the status when it is another one than was read.\<close>

definition unstake_commit :: "string \<Rightarrow> reviewer \<Rightarrow> num \<Rightarrow> mines_world \<Rightarrow> mines_world" where
  "unstake_commit i r x W =
     inc_balance i x (update_reviewer (\<lambda>s. let s1 = s\<lparr>rv_staked := rv_staked (unstaked r x)\<rparr>
       in if rv_stake (unstaked r x) = rv_stake r then s1 else s1\<lparr>rv_stake := rv_stake (unstaked r x)\<rparr>) (rv_id r) W)"

definition reviewerUnstake :: "int \<Rightarrow> string \<Rightarrow> num option \<Rightarrow> mines_world \<Rightarrow> (unstake_error + reviewer) \<times> mines_world" where
  "reviewerUnstake now i amount W =
     (case unstake_check now i amount W of Inl e \<Rightarrow> (Inl e, W)
      | Inr (r, x) \<Rightarrow> (Inr (unstaked r x), unstake_commit i r x W))"

section \<open>The final rejection is not final\<close>

text \<open>
  the final rejection by an administrator closes nothing: when one reviewer of a rejected submission has
  not voted yet and its deadline is ahead, that reviewer's yes puts the submission back into voting, and if it
  completes the votes and the weights reach the threshold, the submission is approved and its reward paid.
\<close>

theorem final_rejection_undone:
  assumes "\<And>x y. me_mixed en x y = y" "find_sub tid W = Some t" "distinct (ts_assigned t)" "ts_miner t \<notin> set (ts_assigned t)"
    and "i \<in> set (ts_assigned t)" "map_of (ts_votes t) i = None" "\<not> deadline_passed (me_now en) t"
    and "votes_cast t + 1 = length (ts_assigned t)"
    and "me_threshold en \<le> vote_ratio (record_vote i ''yes'' (vote_weight i W) t)"
    and "ts_campaign t = None" "0 < ts_reward t"
    and "adminFinalReject note tid W = (Some t1, W1)" "castVote en i ''yes'' tid W1 = (resp, W2)"
  shows "ts_status t1 = ''rejected'' \<and> (\<exists>s. find_sub tid W2 = Some s \<and> ts_status s = ''auto_approved'')
    \<and> balance_of (ts_miner t) W2 = map_option (\<lambda>b. js_add b (ts_reward t)) (balance_of (ts_miner t) W)"
proof -
  let ?s = "finally_rejected note t" and ?w = "vote_weight i W"
  let ?v = "record_vote i ''yes'' ?w ?s"
  have W1: "W1 = mines_notify [(ts_miner t, NoteRejected (or_else (ts_note ?s) []))] (log_mines_audit (AuditFinalReject tid (or_else note []))
      (update_sub (finally_rejected note) tid W))" and t1: "t1 = ?s"
    using assms(2,12) by (auto simp: adminFinalReject_def Let_def)
  have s: "find_sub tid W1 = Some ?s"
    using assms(2) find_update_sub [of "finally_rejected note" tid tid W] by (simp add: W1 finally_rejected_def)
  have rv: "find_reviewer j W1 = find_reviewer j W" "balance_of u W1 = balance_of u W" for j u by (simp_all add: W1)
  have w: "vote_weight i W1 = ?w" by (simp add: vote_weight_def rv)
  have same: "ts_assigned ?s = ts_assigned t" "ts_votes ?s = ts_votes t" "ts_deadline ?s = ts_deadline t" "ts_miner ?s = ts_miner t"
    "ts_campaign ?s = None" "ts_reward ?s = ts_reward t" "ts_yesWeight ?s = ts_yesWeight t" "ts_noWeight ?s = ts_noWeight t"
    "ts_id ?s = tid"
    using assms(10) subdb.find_key [OF assms(2)] by (simp_all add: finally_rejected_def)
  have g: "vote_guard en i ''yes'' tid W1 = Inr ?s"
    using assms(5-7) s same by (simp add: vote_guard_passed truthy_str_def deadline_passed_def)
  let ?C = "counted_world en i ''yes'' tid ?s W1"
  have C: "find_sub tid ?C = Some ?v" "balance_of u ?C = balance_of u W" for u
    using counted_sub [OF s, of tid en i "''yes''"] counted_sub(2) [OF s, of u en i "''yes''"] by (simp_all add: store_noticed assms(1) w rv)
  have "all_voted ?v"
    using assms(6,8) votes_cast_put [of ?s i "''yes''" ?w] same by (simp add: all_voted_def votes_cast_def)
  moreover have "vote_ratio ?v = vote_ratio (record_vote i ''yes'' ?w t)"
    using same by (simp add: vote_ratio_def record_vote_def Let_def)
  moreover have "review_open ?v" using assms(5) same by (auto simp: review_open_def)
  moreover obtain res W' where r: "checkAndResolve en ?v ?C = (res, W')" by fastforce
  ultimately obtain v' reason where v': "settle en True reason ?v ?C = (v', W')"
    using resolution_exact [OF r] assms(9) by auto
  have W2: "W2 = W'" using assms(13) castVote_passed [OF g] r by (simp add: w Let_def)
  have d: "distinct (ts_assigned ?v)" "ts_miner ?v \<notin> set (ts_assigned ?v)" using assms(3,4) same by simp_all
  have rew: "settle_reward ?v True ?C = ts_reward t" using same by (simp add: settle_reward_def)
  have "balance_of (ts_miner t) W' = map_option (\<lambda>b. js_add b (ts_reward t)) (balance_of (ts_miner t) W)"
    using settle_effect(2) [OF d(1) v' d(2), of "ts_miner t"] assms(11) same by (simp add: rew C)
  moreover have "\<exists>s. find_sub tid W' = Some s \<and> ts_status s = ''auto_approved''"
    using settle_docs(1) [OF v', of tid] C(1) same by (simp add: task_settled_def)
  ultimately show ?thesis by (simp add: t1 W2 finally_rejected_def)
qed

section \<open>The stake\<close>

lemma debit_effect:
  assumes "debit_balance i x W = Some (u, W1)"
  shows "\<exists>b. balance_of i W = Some b \<and> x \<le> b \<and> balance_of j W1 = (if j = i then Some (js_add b (- x)) else balance_of j W)"
    and "reviewers W1 = reviewers W" "submissions W1 = submissions W" "walletTxs W1 = walletTxs W" "campaigns W1 = campaigns W"
proof -
  obtain m where m: "find_miner i W = Some m" "x \<le> mu_balance m" "u = m\<lparr>mu_balance := js_add (mu_balance m) (- x)\<rparr>" "W1 = save_miner u W"
    using assms by (auto simp: debit_balance_def Let_def split: option.splits if_splits)
  have "mu_id u = i" using minerdb.find_key [OF m(1)] m(3) by simp
  with m show "\<exists>b. balance_of i W = Some b \<and> x \<le> b \<and> balance_of j W1 = (if j = i then Some (js_add b (- x)) else balance_of j W)"
    using minerdb.save_present [of i W m u] minerdb.find_save_other [of j u W] by (auto simp: balance_of_def)
qed (use assms in \<open>auto simp: debit_balance_def save_miner_def Let_def split: option.splits if_splits\<close>)

lemma create_reviewer_balance [simp]: "balance_of j (create_reviewer r W) = balance_of j W"
  by (simp add: balance_of_def find_miner_def create_reviewer_def)

definition stake_of :: "string \<Rightarrow> mines_world \<Rightarrow> num" where
  "stake_of i W = (case find_reviewer i W of None \<Rightarrow> 0 | Some r \<Rightarrow> rv_staked r)"

lemma stake_ok:
  assumes "reviewerStake i amount W = (SkOk r, W')"
  obtains x b where "amount = Some x" "0 < x" "balance_of i W = Some b" "x \<le> b" "balance_of i W' = Some (js_add b (- x))"
    "\<And>j. j \<noteq> i \<Longrightarrow> balance_of j W' = balance_of j W" "find_reviewer i W' = Some r" "rv_staked r = js_add (stake_of i W) x"
    "rv_stake r = stake_status_for r"
proof -
  from assms obtain x u W1 where x: "amount = Some x" "0 < x" and d: "debit_balance i x W = Some (u, W1)"
    by (auto simp: reviewerStake_def split: option.splits if_splits)
  define r1 where "r1 = (case find_reviewer i W1 of
      None \<Rightarrow> (stake_named u (new_reviewer i))\<lparr>rv_staked := js_add (rv_staked (stake_named u (new_reviewer i))) x\<rparr>
    | Some r \<Rightarrow> r\<lparr>rv_staked := js_add (rv_staked r) x\<rparr>)"
  define W2 where "W2 = (case find_reviewer i W1 of None \<Rightarrow> create_reviewer r1 W1 | Some _ \<Rightarrow> save_reviewer r1 W1)"
  have res: "r = r1\<lparr>rv_stake := stake_status_for r1\<rparr>" "W' = save_reviewer r W2"
    using assms x d by (auto simp: reviewerStake_def W2_def r1_def Let_def split: option.splits)
  have i: "rv_id r1 = i"
    using reviewerdb.find_key [of i W1] by (auto simp: r1_def stake_named_def new_reviewer_def split: option.splits)
  have stk: "rv_staked r1 = js_add (stake_of i W) x"
    using debit_effect(2) [OF d] by (auto simp: r1_def stake_of_def find_reviewer_def stake_named_def new_reviewer_def split: option.splits)
  have "find_reviewer i W2 = Some r1"
    using i reviewerdb.find_create [of r1 W1] reviewerdb.find_save [of r1 W1] by (auto simp: W2_def split: option.splits)
  then have f: "find_reviewer i W' = Some r" using i reviewerdb.save_present [of i W2 r1 r] by (simp add: res)
  have bal: "balance_of j W' = balance_of j W1" for j by (simp add: res(2)) (simp add: W2_def split: option.splits)
  from debit_effect(1) [OF d, of i] obtain b where b: "balance_of i W = Some b" "x \<le> b" "balance_of i W1 = Some (js_add b (- x))" by auto
  have "balance_of i W' = Some (js_add b (- x))" using b bal by simp
  moreover have "balance_of j W' = balance_of j W" if "j \<noteq> i" for j using debit_effect(1) [OF d, of j] that by (auto simp: bal)
  moreover have "rv_staked r = js_add (stake_of i W) x" "rv_stake r = stake_status_for r" using stk by (simp_all add: res(1) stake_status_for_def)
  ultimately show ?thesis using x b(1,2) f by (intro that [of x b])
qed

text \<open>
  a stake of a positive amount that the balance covers takes the amount from the balance and adds it to the
  stake of that reviewer in one step, the reviewer is active exactly when the stake reaches its minimum, and
  nobody else's balance changes. Any other request changes nothing.
\<close>

theorem stake_moves_points:
  "case reviewerStake i amount W of
      (SkOk r, W') \<Rightarrow> \<exists>x b. amount = Some x \<and> 0 < x \<and> balance_of i W = Some b \<and> x \<le> b
        \<and> balance_of i W' = Some (js_add b (- x)) \<and> (\<forall>j \<in> UNIV - {i}. balance_of j W' = balance_of j W)
        \<and> find_reviewer i W' = Some r \<and> rv_staked r = js_add (stake_of i W) x
        \<and> (rv_stake r = StakeActive) = (rv_min r \<le> rv_staked r)
    | (_, W') \<Rightarrow> W' = W"
proof -
  obtain resp W' where r: "reviewerStake i amount W = (resp, W')" by fastforce
  show ?thesis
  proof (cases resp)
    case (SkOk r')
    with r have "reviewerStake i amount W = (SkOk r', W')" by simp
    then show ?thesis
    proof (rule stake_ok)
      fix x b
      assume "rv_stake r' = stake_status_for r'"
      then have "(rv_stake r' = StakeActive) = (rv_min r' \<le> rv_staked r')" by (simp add: stake_status_for_def)
      moreover assume "amount = Some x" "0 < x" "balance_of i W = Some b" "x \<le> b" "balance_of i W' = Some (js_add b (- x))"
        "\<And>j. j \<noteq> i \<Longrightarrow> balance_of j W' = balance_of j W" "find_reviewer i W' = Some r'" "rv_staked r' = js_add (stake_of i W) x"
      ultimately show ?thesis using r SkOk by simp
    qed
  qed (use r in \<open>auto simp: reviewerStake_def Let_def split: option.splits if_splits prod.splits\<close>)
qed

lemma unstake_check_ok:
  assumes "unstake_check now i amount W = Inr (r, x)"
  shows "find_reviewer i W = Some r" "0 < x" "x \<le> rv_staked r" "\<not> has_open_vote now i W" "rv_id r = i"
  using assms reviewerdb.find_key by (auto simp: unstake_check_def Let_def split: option.splits if_splits)

lemma unstake_commit_effect:
  assumes "find_reviewer i W = Some s" "rv_id r = i"
  shows "stake_of i (unstake_commit i r x W) = js_sub (rv_staked r) x"
    and "balance_of j (unstake_commit i r x W) = (if j = i then map_option (\<lambda>b. js_add b x) (balance_of i W) else balance_of j W)"
    and "\<exists>s'. find_reviewer i (unstake_commit i r x W) = Some s'"
  using assms find_update_reviewer [of "\<lambda>s. let s1 = s\<lparr>rv_staked := rv_staked (unstaked r x)\<rparr>
       in if rv_stake (unstaked r x) = rv_stake r then s1 else s1\<lparr>rv_stake := rv_stake (unstaked r x)\<rparr>" i i W]
  by (auto simp: unstake_commit_def stake_of_def balance_inc unstaked_def Let_def)

text \<open>
  a reviewer without an open vote who stakes whole points and withdraws the same points again, with no one
  between, has the balance and the stake of before.
\<close>

theorem stake_unstake_roundtrip:
  assumes "reviewerStake i (Some (of_int x)) W = (SkOk r, W1)" "reviewerUnstake now i (Some (of_int x)) W1 = (Inr r2, W2)"
    and "balance_of i W = Some (of_int b)" "stake_of i W = of_int s" "0 \<le> s" "s + x \<le> 2 ^ 53" "b \<le> 2 ^ 53"
  shows "balance_of i W2 = balance_of i W \<and> stake_of i W2 = stake_of i W"
proof -
  have x: "0 < x" "x \<le> b" and b1: "balance_of i W1 = Some (js_add (of_int b) (- of_int x))"
    and f: "find_reviewer i W1 = Some r" and k: "rv_staked r = js_add (stake_of i W) (of_int x)"
    using assms(3) by - (rule stake_ok [OF assms(1)], simp)+
  have b1': "balance_of i W1 = Some (of_int (b - x))"
    using b1 x assms(7) js_sub_int [of b x] by (simp add: js_add_def js_sub_def)
  have k': "rv_staked r = of_int (s + x)" using k assms(4-6) x js_add_int [of s x] by simp
  from assms(2) obtain r' y where c: "unstake_check now i (Some (of_int x)) W1 = Inr (r', y)" and W2: "W2 = unstake_commit i r' y W1"
    by (auto simp: reviewerUnstake_def split: sum.splits)
  have r': "r' = r" using unstake_check_ok(1) [OF c] f by simp
  have y: "y = of_int x" using c x f by (auto simp: unstake_check_def num_or_def or_else_def Let_def split: if_splits)
  note e = unstake_commit_effect [OF f, where r = r and x = y]
  have "stake_of i W2 = of_int s"
    using e(1) r' unstake_check_ok(5) [OF c] js_sub_int [of "s + x" x] assms(5,6) x by (simp add: W2 y k')
  moreover have "balance_of i W2 = Some (of_int b)"
    using e(2) [where j = i] r' unstake_check_ok(5) [OF c] b1' js_add_int [of "b - x" x] assms(7) x by (simp add: W2 y)
  ultimately show ?thesis using assms(3,4) by simp
qed

text \<open>
  the withdrawal of a stake reads the reviewer before its transaction. Two requests that both read before
  the first one commits both pay: the balance grows by twice the amount, and the stake falls by it once.
\<close>

theorem unstake_race_pays_twice:
  assumes "unstake_check now i amount W = Inr (r, x)"
  shows "balance_of i (unstake_commit i r x (unstake_commit i r x W)) = map_option (\<lambda>b. js_add (js_add b x) x) (balance_of i W)
    \<and> stake_of i (unstake_commit i r x (unstake_commit i r x W)) = js_sub (stake_of i W) x"
proof -
  note c = unstake_check_ok [OF assms]
  obtain s' where s': "find_reviewer i (unstake_commit i r x W) = Some s'" using unstake_commit_effect(3) [OF c(1,5)] by blast
  have "stake_of i W = rv_staked r" using c(1) by (simp add: stake_of_def)
  then show ?thesis
    using unstake_commit_effect(1) [OF s' c(5), where x = x] unstake_commit_effect(2) [OF s' c(5), where j = i and x = x]
      unstake_commit_effect(2) [OF c(1,5), where j = i and x = x] by (simp add: option.map_comp o_def)
qed

text \<open>
  a suspension for missed votes does not hold: a suspended reviewer whose stake stays at the minimum after
  the withdrawal of a part of it is active again.
\<close>

theorem unstake_lifts_suspension:
  assumes "unstake_check now i amount W = Inr (r, x)" "rv_stake r = StakeSuspended" "rv_min r \<le> js_sub (rv_staked r) x"
  shows "\<exists>s. find_reviewer i (unstake_commit i r x W) = Some s \<and> rv_stake s = StakeActive \<and> rv_streak s = rv_streak r"
  using unstake_check_ok [OF assms(1)] assms(2,3) find_update_reviewer [of "\<lambda>s. let s1 = s\<lparr>rv_staked := rv_staked (unstaked r x)\<rparr>
       in if rv_stake (unstaked r x) = rv_stake r then s1 else s1\<lparr>rv_stake := rv_stake (unstaked r x)\<rparr>" i i W]
  by (auto simp: unstake_commit_def unstaked_def stake_status_for_def Let_def)

section \<open>Reading the list resolves it\<close>

definition ready :: "mines_env \<Rightarrow> submission \<Rightarrow> bool" where
  "ready en t \<longleftrightarrow> all_voted t \<or> deadline_passed (me_now en) t"

lemma resolution_none: "review_open t \<Longrightarrow> fst (checkAndResolve en t W) = None \<longleftrightarrow> \<not> ready en t"
  by (auto simp: checkAndResolve_def review_open_def all_voted_def ready_def Let_def split: prod.splits)

lemma resolve_list_rest: "(\<And>t. t \<in> set ts \<Longrightarrow> review_open t) \<Longrightarrow> fst (resolve_list en ts W) = filter (\<lambda>t. \<not> ready en t) ts"
proof (induction ts arbitrary: W)
  case Nil
  then show ?case by simp
next
  case (Cons t ts)
  then have "fst (resolve_list en ts V) = filter (\<lambda>t. \<not> ready en t) ts" for V by simp
  with Cons.prems resolution_none [of t en W] show ?case by (simp add: case_prod_beta Let_def)
qed

lemma check_other_sub:
  assumes "checkAndResolve en t W = (res, W')"
  shows "k \<noteq> ts_id t \<Longrightarrow> find_sub k W' = find_sub k W"
    and "find_sub k W \<noteq> None \<Longrightarrow> find_sub k W' \<noteq> None"
    and "find_sub (ts_id t) W \<noteq> None \<Longrightarrow> res \<noteq> None \<Longrightarrow>
      \<exists>s. find_sub (ts_id t) W' = Some s \<and> ts_status s \<in> {''auto_approved'', ''rejected''} \<and> ts_assignment s \<in> {AsApproved, AsRejected}"
  using resolution_cases [OF assms] by (auto simp: settle_docs task_settled_def Let_def)

lemma resolve_list_sub:
  assumes "resolve_list en ts W = (rest, W')"
  shows "k \<notin> ts_id ` set ts \<Longrightarrow> find_sub k W' = find_sub k W"
  using assms
proof (induction ts arbitrary: W rest W')
  case Nil
  then show ?case by simp
next
  case (Cons t ts)
  obtain res W1 where a: "checkAndResolve en t W = (res, W1)" by fastforce
  obtain rest' W2 where b: "resolve_list en ts W1 = (rest', W2)" by fastforce
  have "find_sub k W2 = find_sub k W1" using Cons.prems(1) by (intro Cons.IH [OF _ b]) simp
  then show ?case using Cons.prems a b check_other_sub(1) [OF a, of k] by simp
qed

lemma resolve_list_sweeps:
  assumes "resolve_list en ts W = (rest, W')" "distinct (map ts_id ts)" "\<And>t. t \<in> set ts \<Longrightarrow> review_open t"
    "\<And>t. t \<in> set ts \<Longrightarrow> find_sub (ts_id t) W \<noteq> None" "t \<in> set ts" "ready en t"
  shows "\<exists>s. find_sub (ts_id t) W' = Some s \<and> ts_status s \<in> {''auto_approved'', ''rejected''} \<and> ts_assignment s \<in> {AsApproved, AsRejected}"
  using assms
proof (induction ts arbitrary: W rest W')
  case Nil
  then show ?case by simp
next
  case (Cons u ts)
  obtain res W1 where a: "checkAndResolve en u W = (res, W1)" by fastforce
  obtain rest' W2 where b: "resolve_list en ts W1 = (rest', W2)" by fastforce
  have W': "W' = W2" using Cons.prems(1) a b by simp
  show ?case
  proof (cases "t = u")
    case True
    have "fst (checkAndResolve en u W) \<noteq> None" using resolution_none [of u en W] Cons.prems(3,6) True by simp
    with check_other_sub(3) [OF a] Cons.prems(4) a have "\<exists>s. find_sub (ts_id u) W1 = Some s
        \<and> ts_status s \<in> {''auto_approved'', ''rejected''} \<and> ts_assignment s \<in> {AsApproved, AsRejected}" by simp
    moreover have "find_sub (ts_id u) W2 = find_sub (ts_id u) W1" using Cons.prems(2) by (intro resolve_list_sub [OF b]) auto
    ultimately show ?thesis using True W' by simp
  next
    case False
    have "find_sub (ts_id v) W1 \<noteq> None" if "v \<in> set ts" for v using check_other_sub(2) [OF a] Cons.prems(4) that by simp
    with False Cons.prems show ?thesis unfolding W' by (intro Cons.IH [OF b]) auto
  qed
qed

lemma candidates_ok:
  assumes "distinct (map ts_id (submissions W))"
  shows "distinct (map ts_id (my_candidates i W))"
    and "t \<in> set (my_candidates i W) \<Longrightarrow> review_open t \<and> find_sub (ts_id t) W \<noteq> None"
proof -
  have "distinct (map ts_id (sort_key f (filter P (submissions W))))" for f :: "submission \<Rightarrow> int" and P
    using assms by (auto simp: distinct_map inj_on_def)
  then show "distinct (map ts_id (my_candidates i W))" unfolding my_candidates_def take_map [symmetric] by (rule distinct_take)
  show "t \<in> set (my_candidates i W) \<Longrightarrow> review_open t \<and> find_sub (ts_id t) W \<noteq> None"
    by (auto simp: my_candidates_def review_open_def find_sub_def coll_find_None dest!: in_set_takeD)
qed

text \<open>
  a reviewer who reads the own tasks sees exactly the open ones that still wait, neither past their deadline
  nor voted on by everyone, and every other one on that page has been resolved and stored by the read.
\<close>

theorem expired_votes_swept:
  assumes "distinct (map ts_id (submissions W))" "myAssigned en i W = (rows, W')"
  shows "map fst rows = filter (\<lambda>t. \<not> ready en t) (my_candidates i W)
    \<and> (\<forall>t \<in> set (my_candidates i W). ready en t \<longrightarrow>
        (\<exists>s. find_sub (ts_id t) W' = Some s \<and> ts_status s \<in> {''auto_approved'', ''rejected''} \<and> ts_assignment s \<in> {AsApproved, AsRejected}))"
proof -
  obtain rest where r: "resolve_list en (my_candidates i W) W = (rest, W')" and rows: "map fst rows = rest"
    using assms(2) by (auto simp: myAssigned_def o_def split: prod.splits)
  note c = candidates_ok [OF assms(1)]
  have "fst (resolve_list en (my_candidates i W) W) = filter (\<lambda>t. \<not> ready en t) (my_candidates i W)"
    using c(2) by (intro resolve_list_rest) auto
  then have "rest = filter (\<lambda>t. \<not> ready en t) (my_candidates i W)" using r by simp
  moreover have "\<exists>s. find_sub (ts_id t) W' = Some s \<and> ts_status s \<in> {''auto_approved'', ''rejected''} \<and> ts_assignment s \<in> {AsApproved, AsRejected}"
    if "t \<in> set (my_candidates i W)" "ready en t" for t
    using c that by (intro resolve_list_sweeps [OF r]) auto
  ultimately show ?thesis using rows by blast
qed

section \<open>Witnesses\<close>

definition demo_last_vote :: submission where
  "demo_last_vote = demo_sub\<lparr>ts_votes := [(''b'', ''yes''), (''c'', ''yes'')], ts_yesWeight := 1\<rparr>"

lemma demo_weight: "vote_weight ''a'' (demo_mines\<lparr>submissions := S\<rparr>) = 1 / 2"
proof -
  have "fl (1 / 2) = 1 / 2" using fl_exact [of 1 "- 1"] by (simp add: power_int_minus)
  moreover have "fl (2 / 10) \<le> 1 / 2" using fl_int_bounds [of 0 1 "- 1" "2 / 10"] by (simp add: power_int_minus)
  ultimately show ?thesis
    by (simp add: vote_weight_def or_else_def find_reviewer_def demo_mines_def demo_reviewer_def new_reviewer_def computeWeight_def js_div_def)
qed

lemma demo_ratio: "me_threshold demo_mines_env \<le> vote_ratio (record_vote ''a'' ''yes'' (1 / 2) demo_last_vote)"
proof -
  have "fl (3 / 2) = 3 / 2" using fl_exact [of 3 "- 1"] by (simp add: power_int_minus)
  then show ?thesis using fl_of_int [of 1]
    by (simp add: demo_mines_env_def vote_ratio_def record_vote_def demo_last_vote_def demo_sub_def js_arith Let_def)
qed

lemma final_rejection_undone_witness:
  "\<exists>t1 W1 resp W2 s. adminFinalReject None ''t'' (demo_mines\<lparr>submissions := [demo_last_vote]\<rparr>) = (Some t1, W1)
     \<and> ts_status t1 = ''rejected'' \<and> castVote demo_mines_env ''a'' ''yes'' ''t'' W1 = (resp, W2)
     \<and> find_sub ''t'' W2 = Some s \<and> ts_status s = ''auto_approved'' \<and> balance_of ''m'' W2 = Some (js_add 10 4)"
proof -
  let ?W = "demo_mines\<lparr>submissions := [demo_last_vote]\<rparr>"
  have f: "find_sub ''t'' ?W = Some demo_last_vote" by (simp add: find_sub_def demo_last_vote_def demo_sub_def)
  then obtain t1 W1 where a: "adminFinalReject None ''t'' ?W = (Some t1, W1)" by (simp add: adminFinalReject_def Let_def)
  obtain resp W2 where b: "castVote demo_mines_env ''a'' ''yes'' ''t'' W1 = (resp, W2)" by fastforce
  have m: "me_mixed demo_mines_env x y = y" for x y by (simp add: demo_mines_env_def)
  have "balance_of ''m'' ?W = Some 10" by (simp add: balance_of_def find_miner_def demo_mines_def)
  with final_rejection_undone [OF m f _ _ _ _ _ _ _ _ _ a b] demo_ratio demo_weight a b show ?thesis
    by (simp add: demo_last_vote_def demo_sub_def demo_mines_env_def deadline_passed_def votes_cast_def)
qed

lemma stake_unstake_roundtrip_witness:
  "\<exists>r W1 r2 W2. reviewerStake ''m'' (Some 8) demo_mines = (SkOk r, W1) \<and> reviewerUnstake 0 ''m'' (Some 8) W1 = (Inr r2, W2)
     \<and> balance_of ''m'' W2 = Some 10"
proof -
  have b: "balance_of ''m'' demo_mines = Some (of_int 10)" and k: "stake_of ''m'' demo_mines = of_int 0"
    by (simp_all add: balance_of_def find_miner_def stake_of_def find_reviewer_def demo_mines_def demo_reviewer_def new_reviewer_def)
  have "\<exists>r W1. reviewerStake ''m'' (Some (of_int 8)) demo_mines = (SkOk r, W1)"
    using b by (auto simp: reviewerStake_def debit_balance_def balance_of_def Let_def split: option.splits)
  then obtain r W1 where s: "reviewerStake ''m'' (Some (of_int 8)) demo_mines = (SkOk r, W1)" by blast
  have f: "find_reviewer ''m'' W1 = Some r" by (rule stake_ok [OF s])
  have "rv_staked r = js_add (stake_of ''m'' demo_mines) (of_int 8)" by (rule stake_ok [OF s]) simp
  then have f8: "rv_staked r = of_int 8" using k js_add_int [of 0 8] by simp
  have sub: "submissions W1 = submissions demo_mines" using s
    by (auto simp: reviewerStake_def debit_balance_def save_miner_def create_reviewer_def save_reviewer_def Let_def split: option.splits if_splits)
  have "\<exists>r2 W2. reviewerUnstake 0 ''m'' (Some (of_int 8)) W1 = (Inr r2, W2)"
    using f f8 sub by (simp add: reviewerUnstake_def unstake_check_def has_open_vote_def demo_mines_def demo_sub_def or_else_def num_or_def)
  then obtain r2 W2 where u: "reviewerUnstake 0 ''m'' (Some (of_int 8)) W1 = (Inr r2, W2)" by blast
  show ?thesis using stake_unstake_roundtrip [OF s u b k] s u b by simp
qed

definition demo_staked :: mines_world where
  "demo_staked = demo_mines\<lparr>submissions := [], reviewers := [(demo_reviewer ''a'')\<lparr>rv_staked := 60, rv_stake := StakeSuspended\<rparr>]\<rparr>"

lemma demo_unstake: "unstake_check 0 ''a'' (Some 10) demo_staked = Inr ((demo_reviewer ''a'')\<lparr>rv_staked := 60, rv_stake := StakeSuspended\<rparr>, 10)"
  by (simp add: unstake_check_def demo_staked_def find_reviewer_def demo_reviewer_def new_reviewer_def has_open_vote_def or_else_def num_or_def)

lemma unstake_race_pays_twice_witness:
  "\<exists>r. unstake_check 0 ''a'' (Some 10) demo_staked = Inr (r, 10)
     \<and> balance_of ''a'' (unstake_commit ''a'' r 10 (unstake_commit ''a'' r 10 demo_staked)) = Some (js_add (js_add 10 10) 10)
     \<and> stake_of ''a'' (unstake_commit ''a'' r 10 (unstake_commit ''a'' r 10 demo_staked)) = js_sub 60 10"
proof -
  have "balance_of ''a'' demo_staked = Some 10" "stake_of ''a'' demo_staked = 60"
    by (simp_all add: balance_of_def find_miner_def stake_of_def find_reviewer_def demo_staked_def demo_mines_def demo_reviewer_def new_reviewer_def)
  with unstake_race_pays_twice [OF demo_unstake] demo_unstake show ?thesis by simp
qed

lemma unstake_lifts_suspension_witness:
  "\<exists>r s. unstake_check 0 ''a'' (Some 10) demo_staked = Inr (r, 10) \<and> rv_stake r = StakeSuspended
     \<and> find_reviewer ''a'' (unstake_commit ''a'' r 10 demo_staked) = Some s \<and> rv_stake s = StakeActive"
  using unstake_lifts_suspension [OF demo_unstake] demo_unstake js_sub_int [of 60 10]
  by (simp add: demo_reviewer_def new_reviewer_def) blast

lemma expired_votes_swept_witness:
  "\<exists>rows W' s. myAssigned (demo_mines_env\<lparr>me_now := 9001\<rparr>) ''a'' demo_mines = (rows, W')
     \<and> find_sub ''t'' W' = Some s \<and> ts_status s \<in> {''auto_approved'', ''rejected''}"
proof -
  let ?en = "demo_mines_env\<lparr>me_now := 9001\<rparr>"
  obtain rows W' where m: "myAssigned ?en ''a'' demo_mines = (rows, W')" by fastforce
  have d: "distinct (map ts_id (submissions demo_mines))" by (simp add: demo_mines_def)
  have c: "my_candidates ''a'' demo_mines = [demo_sub]" by (simp add: my_candidates_def demo_mines_def demo_sub_def)
  have r: "ready ?en demo_sub" by (simp add: ready_def deadline_passed_def demo_sub_def)
  show ?thesis using expired_votes_swept [OF d m] m c r by (auto simp: demo_sub_def)
qed

end
