(* ===== verification/MinesCampaigns.thy ===== *)
theory MinesCampaigns
  imports MinesStake
begin

text \<open>
  The campaigns, submissions and balances of \<open>routes/mines.js\<close>: a creator funds a campaign from the own balance,
  participants submit within the limits of \<open>checkCampaignAbuseLimits\<close>, an administrator approves, rejects,
  credits and deducts. A request body that the code spreads into a document is the document it becomes, with
  arbitrary fields. The dash in a title or description is a hyphen here.
\<close>

section \<open>Funding a campaign\<close>

record campaign_body =
  kb_platform :: string
  kb_activity :: string
  kb_link :: string
  kb_description :: string
  kb_directive :: string
  kb_multiplier :: "num option"
  kb_budget :: "num option"

datatype campaign_resp = CkUnknownPlatform | CkUnknownActivity | CkBadBudget | CkNoLink | CkNoRate | CkLowBudget num
  | CkInsufficient | CkOk campaign

definition underscores_out :: "string \<Rightarrow> string" where
  "underscores_out s = map (\<lambda>c. if c = CHR ''_'' then CHR '' '' else c) s"

definition funded_campaign :: "string \<Rightarrow> string \<Rightarrow> platform_def \<Rightarrow> campaign_body \<Rightarrow> num \<Rightarrow> num \<Rightarrow> campaign" where
  "funded_campaign cid userId p b budget rate =
     \<lparr>cp_id = cid, cp_creator = userId, cp_title = pl_label p @ '' - '' @ underscores_out (kb_activity b),
      cp_description = kb_description b, cp_link = kb_link b, cp_directive = kb_directive b, cp_platform = kb_platform b,
      cp_activity = kb_activity b, cp_baseRate = Some (js_div rate (clampMultiplier (kb_multiplier b))),
      cp_multiplier = clampMultiplier (kb_multiplier b), cp_rate = rate, cp_budget = budget, cp_status = CampaignActive,
      cp_completions = 0, cp_maxPerUser = 1, cp_cooldown = 3600\<rparr>"

definition createCampaign :: "string \<Rightarrow> string \<Rightarrow> campaign_body \<Rightarrow> mines_world \<Rightarrow> campaign_resp \<times> mines_world" where
  "createCampaign cid userId b W =
     (case getPlatform (kb_platform b) of None \<Rightarrow> (CkUnknownPlatform, W)
      | Some p \<Rightarrow>
         if map_of (pl_activities p) (kb_activity b) = None then (CkUnknownActivity, W)
         else case kb_budget b of None \<Rightarrow> (CkBadBudget, W)
         | Some budget \<Rightarrow>
           if budget \<le> 0 then (CkBadBudget, W)
           else if kb_link b = [] then (CkNoLink, W)
           else case computeCampaignRate (kb_platform b) (kb_activity b) (Some (clampMultiplier (kb_multiplier b))) of
             None \<Rightarrow> (CkNoRate, W)
           | Some rate \<Rightarrow>
               if budget < rate then (CkLowBudget rate, W)
               else case debit_balance userId budget W of None \<Rightarrow> (CkInsufficient, W)
                 | Some (_, W1) \<Rightarrow>
                     (let c = funded_campaign cid userId p b budget rate
                      in (CkOk c, log_wallet \<lparr>wt_user = userId, wt_type = WalletDebit, wt_amount = budget, wt_currency = ''MLPTS'',
                            wt_description = ''Campaign funding - '' @ pl_label p @ '' '' @ kb_activity b\<rparr> (create_campaign c W1))))"

section \<open>The limits of a submission\<close>

datatype limit_error = LmNoCampaign | LmClosed | LmUserLimit int | LmCooldown int | LmUnverifiable | LmDailyCap num

text \<open>
  \<open>me_lookup c cs\<close>: the campaigns the \<open>$lookup\<close> stage of the database finds for the stored campaign id \<open>c\<close>;
  \<open>me_aggregateFails\<close>: the aggregation throws.
\<close>

record limit_env = mines_env +
  me_lookup :: "string \<Rightarrow> campaign list \<Rightarrow> campaign list"
  me_aggregateFails :: bool

definition existing_subs :: "string \<Rightarrow> string \<Rightarrow> mines_world \<Rightarrow> submission list" where
  "existing_subs u c W = sort_key (\<lambda>t. - ts_created t)
     (filter (\<lambda>t. ts_miner t = u \<and> ts_campaign t = Some c \<and> ts_status t \<noteq> ''rejected'') (submissions W))"

definition recent_total :: "('a limit_env_scheme) \<Rightarrow> string \<Rightarrow> string \<Rightarrow> mines_world \<Rightarrow> num" where
  "recent_total en u platform W =
     foldl js_add 0 (map cp_rate (filter (\<lambda>k. cp_platform k = platform)
       (concat (map (\<lambda>t. case ts_campaign t of None \<Rightarrow> [] | Some c \<Rightarrow> me_lookup en c (campaigns W))
         (filter (\<lambda>t. ts_miner t = u \<and> ts_status t \<noteq> ''rejected'' \<and> me_now en - 24 * 60 * 60 * 1000 \<le> ts_created t
            \<and> ts_campaign t \<noteq> None) (submissions W))))))"

definition user_limit :: "campaign \<Rightarrow> int" where
  "user_limit k = (if cp_maxPerUser k = 0 then 1 else cp_maxPerUser k)"

definition checkCampaignAbuseLimits :: "('a limit_env_scheme) \<Rightarrow> string \<Rightarrow> string option \<Rightarrow> mines_world \<Rightarrow> limit_error option" where
  "checkCampaignAbuseLimits en u campaignId W =
     (case str_or campaignId None of None \<Rightarrow> None
      | Some c \<Rightarrow>
        (case find_campaign c W of None \<Rightarrow> Some LmNoCampaign
         | Some k \<Rightarrow>
            if cp_status k \<noteq> CampaignActive \<or> cp_budget k \<le> 0 then Some LmClosed
            else let existing = existing_subs u c W in
              if user_limit k \<le> int (length existing) then Some (LmUserLimit (user_limit k))
              else let cooldownMs = cp_cooldown k * 1000;
                       elapsed = (case existing of [] \<Rightarrow> cooldownMs | t # _ \<Rightarrow> me_now en - ts_created t) in
                if 0 < cooldownMs \<and> elapsed < cooldownMs then Some (LmCooldown ((cooldownMs - elapsed + 999) div 1000))
                else if me_aggregateFails en then Some LmUnverifiable
                else if getDailyCapMlpts (cp_platform k) < js_add (recent_total en u (cp_platform k) W) (cp_rate k)
                  then Some (LmDailyCap (getDailyCapMlpts (cp_platform k))) else None))"

definition postSubmission :: "('a limit_env_scheme) \<Rightarrow> string \<Rightarrow> submission \<Rightarrow> mines_world \<Rightarrow> (limit_error + submission) \<times> mines_world" where
  "postSubmission en u body W =
     (case checkCampaignAbuseLimits en u (ts_campaign body) W of Some e \<Rightarrow> (Inl e, W)
      | None \<Rightarrow> (let row = body\<lparr>ts_miner := u\<rparr>; (row', W') = autoAssignReviewers (mines_env.truncate en) row (create_sub row W)
                 in (Inr row', W')))"

datatype put_error = PtNotFound | PtForbidden

text \<open>\<open>$set\<close> of the request body: any change \<open>patch\<close> of the fields.\<close>

definition putSubmission :: "string \<Rightarrow> string \<Rightarrow> (submission \<Rightarrow> submission) \<Rightarrow> mines_world \<Rightarrow> (put_error + submission) \<times> mines_world" where
  "putSubmission u tid patch W =
     (case find_sub tid W of None \<Rightarrow> (Inl PtNotFound, W)
      | Some t \<Rightarrow> if ts_miner t \<noteq> u then (Inl PtForbidden, W) else (Inr (patch t), update_sub patch tid W))"

section \<open>The administrator\<close>

definition admin_reward :: "num option \<Rightarrow> submission \<Rightarrow> mines_world \<Rightarrow> num" where
  "admin_reward rewardAmount t W =
     (let r = or_else rewardAmount 0 in
      if r \<noteq> 0 then r
      else case ts_campaign t of None \<Rightarrow> 0
        | Some c \<Rightarrow> (case find_campaign c W of None \<Rightarrow> 0 | Some k \<Rightarrow> cp_rate k))"

definition approveSubmission :: "int \<Rightarrow> num option \<Rightarrow> string \<Rightarrow> mines_world \<Rightarrow> submission option \<times> mines_world" where
  "approveSubmission now rewardAmount tid W =
     (case find_sub tid W of None \<Rightarrow> (None, W)
      | Some t \<Rightarrow>
          (let r = admin_reward rewardAmount t W;
               f = (\<lambda>s. s\<lparr>ts_status := ''auto_approved'', ts_completed := Some now, ts_reward := r\<rparr>);
               W1 = update_sub f tid W;
               W2 = inc_balance (ts_miner t) r (log_wallet \<lparr>wt_user = ts_miner t, wt_type = WalletCredit, wt_amount = r,
                      wt_currency = ''MLPTS'', wt_description = ''Task reward approved by admin''\<rparr> W1)
           in (Some (f t), charge_campaign (ts_campaign t) r W2)))"

definition rejectSubmission :: "string option \<Rightarrow> string \<Rightarrow> mines_world \<Rightarrow> submission option \<times> mines_world" where
  "rejectSubmission note tid W =
     (case find_sub tid W of None \<Rightarrow> (None, W)
      | Some t \<Rightarrow> (let f = (\<lambda>s. s\<lparr>ts_status := ''rejected'', ts_note := str_or note None\<rparr>) in (Some (f t), update_sub f tid W)))"

datatype balance_error = BlAmount | BlNoUser | BlBadUser | BlUnknownUser | BlInsufficient

text \<open>\<open>amount\<close> is \<open>None\<close> when it is not a number; \<open>valid\<close> is the test of an object id.\<close>

definition balanceCredit :: "(string \<Rightarrow> bool) \<Rightarrow> num option \<Rightarrow> string \<Rightarrow> mines_world \<Rightarrow> balance_error option \<times> mines_world" where
  "balanceCredit valid amount u W =
     (case amount of None \<Rightarrow> (Some BlAmount, W)
      | Some x \<Rightarrow>
          if x \<le> 0 then (Some BlAmount, W)
          else if u = [] then (Some BlNoUser, W)
          else if \<not> valid u then (Some BlBadUser, W)
          else if find_miner u W = None then (Some BlUnknownUser, W)
          else (None, log_wallet \<lparr>wt_user = u, wt_type = WalletCredit, wt_amount = x, wt_currency = ''MLPTS'',
                  wt_description = ''Balance credit by admin''\<rparr> (inc_balance u x W)))"

definition balanceDeduct :: "(string \<Rightarrow> bool) \<Rightarrow> num option \<Rightarrow> string \<Rightarrow> mines_world \<Rightarrow> balance_error option \<times> mines_world" where
  "balanceDeduct valid amount u W =
     (case amount of None \<Rightarrow> (Some BlAmount, W)
      | Some x \<Rightarrow>
          if x \<le> 0 then (Some BlAmount, W)
          else if u = [] then (Some BlNoUser, W)
          else if \<not> valid u then (Some BlBadUser, W)
          else case debit_balance u x W of None \<Rightarrow> (Some BlInsufficient, W)
            | Some (_, W1) \<Rightarrow> (None, log_wallet \<lparr>wt_user = u, wt_type = WalletDebit, wt_amount = x, wt_currency = ''MLPTS'',
                  wt_description = ''Balance deduction by admin''\<rparr> W1))"

section \<open>Funding is exact\<close>

lemma create_campaign_frame [frame_simps, simp]:
  "balance_of u (create_campaign c W) = balance_of u W" "walletTxs (create_campaign c W) = walletTxs W"
  "reviewers (create_campaign c W) = reviewers W" "submissions (create_campaign c W) = submissions W"
  "miners (create_campaign c W) = miners W" "find_campaign k (log_wallet w W) = find_campaign k W"
  by (simp_all add: create_campaign_def balance_of_def find_miner_def)

text \<open>
  a campaign is created only with a budget that covers at least one reward, at the rate of the table and
  never one of the request, and its whole budget leaves the creator's balance in the same step with one entry in
  the wallet journal; nobody else's balance changes. Every refusal changes nothing.
\<close>

theorem campaign_funding_exact:
  assumes "find_campaign cid W = None"
  shows "case createCampaign cid u b W of
      (CkOk c, W') \<Rightarrow> find_campaign cid W' = Some c \<and> cp_creator c = u
        \<and> computeCampaignRate (kb_platform b) (kb_activity b) (kb_multiplier b) = Some (cp_rate c)
        \<and> kb_budget b = Some (cp_budget c) \<and> 0 < cp_rate c \<and> cp_rate c \<le> cp_budget c
        \<and> (\<exists>x. balance_of u W = Some x \<and> cp_budget c \<le> x \<and> balance_of u W' = Some (js_add x (- cp_budget c)))
        \<and> (\<forall>j \<in> UNIV - {u}. balance_of j W' = balance_of j W) \<and> length (walletTxs W') = length (walletTxs W) + 1
    | (_, W') \<Rightarrow> W' = W"
proof -
  obtain resp W' where r: "createCampaign cid u b W = (resp, W')" by fastforce
  show ?thesis
  proof (cases resp)
    case (CkOk c)
    with r obtain p budget rate m W1 where p: "getPlatform (kb_platform b) = Some p"
        "computeCampaignRate (kb_platform b) (kb_activity b) (Some (clampMultiplier (kb_multiplier b))) = Some rate"
      and bud: "kb_budget b = Some budget" "rate \<le> budget" and d: "debit_balance u budget W = Some (m, W1)"
      and c: "c = funded_campaign cid u p b budget rate"
      and W': "W' = log_wallet \<lparr>wt_user = u, wt_type = WalletDebit, wt_amount = budget, wt_currency = ''MLPTS'',
                            wt_description = ''Campaign funding - '' @ pl_label p @ '' '' @ kb_activity b\<rparr> (create_campaign c W1)"
      by (auto simp: createCampaign_def Let_def split: option.splits if_splits)
    have rate: "computeCampaignRate (kb_platform b) (kb_activity b) (kb_multiplier b) = Some rate"
      using p(2) by (simp add: computeCampaignRate_def cong: option.case_cong)
    then obtain base where "resolveBaseRate (kb_platform b) (kb_activity b) = Some base"
      by (auto simp: computeCampaignRate_def split: option.splits)
    from campaign_rate_range [OF this, of "kb_multiplier b"] rate have pos: "0 < rate" by simp
    have id: "cp_id c = cid" by (simp add: c funded_campaign_def)
    have "find_campaign cid W1 = None" using assms debit_effect(5) [OF d] by (simp add: find_campaign_def)
    then have f: "find_campaign cid W' = Some c" using campaigndb.find_create [of c W1] id by (simp add: W')
    have "balance_of j W' = balance_of j W1" for j by (simp add: W')
    moreover have "balance_of j W1 = balance_of j W" if "j \<noteq> u" for j using debit_effect(1) [OF d, of j] that by auto
    ultimately have "\<exists>x. balance_of u W = Some x \<and> budget \<le> x \<and> balance_of u W' = Some (js_add x (- budget))"
      and "\<forall>j \<in> UNIV - {u}. balance_of j W' = balance_of j W" using debit_effect(1) [OF d, of u] by auto
    moreover have "length (walletTxs W') = length (walletTxs W) + 1" using debit_effect(4) [OF d] by (simp add: W')
    ultimately show ?thesis using r CkOk f rate bud pos by (simp add: c funded_campaign_def)
  qed (use r in \<open>auto simp: createCampaign_def Let_def split: option.splits if_splits\<close>)
qed

section \<open>Balances and stakes stay nonnegative\<close>

definition mines_inv :: "mines_world \<Rightarrow> bool" where
  "mines_inv W \<longleftrightarrow> (\<forall>u x. balance_of u W = Some x \<longrightarrow> 0 \<le> x) \<and> (\<forall>i r. find_reviewer i W = Some r \<longrightarrow> 0 \<le> rv_staked r)
     \<and> (\<forall>c k. find_campaign c W = Some k \<longrightarrow> 0 \<le> cp_rate k)"

named_theorems mines_intros \<open>steps that keep the invariant of the Mines\<close>

lemma js_add_nonneg: "0 \<le> a + b \<Longrightarrow> 0 \<le> js_add a b"
  by (simp add: js_add_def ieee.rnd_nonneg)

lemma js_sub_nonneg: "b \<le> a \<Longrightarrow> 0 \<le> js_sub a b"
  by (simp add: js_sub_def ieee.rnd_nonneg)

lemma inv_same: "mines_inv W \<Longrightarrow> miners W' = miners W \<Longrightarrow> reviewers W' = reviewers W \<Longrightarrow> campaigns W' = campaigns W \<Longrightarrow> mines_inv W'"
  by (simp add: mines_inv_def balance_of_def find_miner_def find_reviewer_def find_campaign_def)

lemma inv_inc [mines_intros]: "mines_inv W \<Longrightarrow> 0 \<le> x \<Longrightarrow> mines_inv (inc_balance i x W)"
  by (auto simp: mines_inv_def balance_inc intro: js_add_nonneg split: if_splits)

lemma inv_debit: "mines_inv W \<Longrightarrow> debit_balance i x W = Some (u, W1) \<Longrightarrow> mines_inv W1"
proof -
  assume inv: "mines_inv W" and d: "debit_balance i x W = Some (u, W1)"
  have "0 \<le> y" if "balance_of j W1 = Some y" for j y
    using debit_effect(1) [OF d, of j] inv that by (auto simp: mines_inv_def intro: js_add_nonneg split: if_splits)
  with inv debit_effect(2,5) [OF d] show ?thesis by (simp add: mines_inv_def find_reviewer_def find_campaign_def)
qed

lemma inv_update_reviewer [mines_intros]:
  "mines_inv W \<Longrightarrow> (\<And>r. rv_id (f r) = rv_id r) \<Longrightarrow> (\<And>r. 0 \<le> rv_staked r \<Longrightarrow> 0 \<le> rv_staked (f r)) \<Longrightarrow> mines_inv (update_reviewer f i W)"
  by (auto simp: mines_inv_def find_update_reviewer)

lemma find_saved_reviewer: "find_reviewer i (save_reviewer r W) = (if i = rv_id r \<and> find_reviewer i W \<noteq> None then Some r else find_reviewer i W)"
proof (cases "find_reviewer (rv_id r) W")
  case None
  then have "coll_put rv_id r (reviewers W) = reviewers W" by (intro coll_put_absent) (auto simp: find_reviewer_def coll_find_None)
  then show ?thesis using None by (auto simp: save_reviewer_def)
next
  case (Some x)
  then show ?thesis using reviewerdb.find_save [of r W] reviewerdb.find_save_other [of i r W] by auto
qed

lemma inv_save_reviewer [mines_intros]: "mines_inv W \<Longrightarrow> 0 \<le> rv_staked r \<Longrightarrow> mines_inv (save_reviewer r W)"
  by (auto simp: mines_inv_def find_saved_reviewer find_campaign_def split: if_splits)

lemma inv_create_reviewer [mines_intros]: "mines_inv W \<Longrightarrow> 0 \<le> rv_staked r \<Longrightarrow> mines_inv (create_reviewer r W)"
  by (auto simp: mines_inv_def create_reviewer_def find_reviewer_def find_campaign_def balance_of_def find_miner_def coll_find_append
    split: option.splits if_splits)

lemma inv_charge [mines_intros]: "mines_inv W \<Longrightarrow> mines_inv (charge_campaign c x W)"
proof (cases "\<exists>i k. c = Some i \<and> find_campaign i W = Some k")
  case True
  then obtain i k where c: "c = Some i" "find_campaign i W = Some k" by blast
  let ?k = "k\<lparr>cp_completions := cp_completions k + 1, cp_budget := js_add (cp_budget k) (- x)\<rparr>"
  have "cp_id ?k = i" using campaigndb.find_key [OF c(2)] by simp
  then have "find_campaign j (save_campaign ?k W) = (if j = i then Some ?k else find_campaign j W)" for j
    using campaigndb.save_present [OF c(2), of ?k] campaigndb.find_save_other [of j ?k W] by auto
  moreover assume "mines_inv W"
  ultimately show ?thesis using c
    by (auto simp: mines_inv_def charge_campaign_def save_campaign_def balance_of_def find_miner_def find_reviewer_def split: if_splits)
next
  case False
  assume "mines_inv W"
  then show ?thesis using False by (simp add: charge_campaign_def split: option.splits)
qed

lemma inv_frames [mines_intros]:
  "mines_inv W \<Longrightarrow> mines_inv (update_sub g i W)" "mines_inv W \<Longrightarrow> mines_inv (log_wallet w W)"
  "mines_inv W \<Longrightarrow> mines_inv (log_mines_audit a W)" "mines_inv W \<Longrightarrow> mines_inv (mines_notify ns W)"
  "mines_inv W \<Longrightarrow> mines_inv (create_sub t W)"
  by (erule inv_same; simp add: create_sub_def)+

lemma inv_refresh [mines_intros]: "mines_inv W \<Longrightarrow> mines_inv (refreshReviewerStats i W)"
  by (auto simp: refreshReviewerStats_def set_stats_def intro!: mines_intros split: option.splits)

lemma inv_fold: "(\<And>x V. mines_inv V \<Longrightarrow> mines_inv (f x V)) \<Longrightarrow> mines_inv W \<Longrightarrow> mines_inv (fold f xs W)"
  by (induction xs arbitrary: W) auto

lemma missed_vote_staked [simp]: "rv_staked (missed_vote r) = rv_staked r"
  by (simp add: missed_vote_def Let_def)

lemma inv_settle_reviewer: "mines_inv W \<Longrightarrow> 0 \<le> me_voteReward en \<Longrightarrow> mines_inv (settle_reviewer en vs ap i W)"
proof -
  assume inv: "mines_inv W" and v: "0 \<le> me_voteReward en"
  then have "0 \<le> rv_staked r" if "find_reviewer i W = Some r" for r using that by (auto simp: mines_inv_def)
  with inv v show ?thesis by (auto simp: settle_reviewer_def intro!: mines_intros split: option.splits)
qed

lemma inv_settle: "mines_inv W \<Longrightarrow> 0 \<le> me_voteReward en \<Longrightarrow> mines_inv (snd (settle en ap reason t W))"
  by (auto simp: settle_def Let_def pay_miner_def intro!: mines_intros inv_fold inv_settle_reviewer)

lemma inv_check: "mines_inv W \<Longrightarrow> 0 \<le> me_voteReward en \<Longrightarrow> checkAndResolve en t W = (res, W') \<Longrightarrow> mines_inv W'"
  using resolution_cases [of en t W res W'] inv_settle [of W en] by (metis snd_conv)

lemma inv_upsert [mines_intros]:
  "mines_inv W \<Longrightarrow> (\<And>r. 0 \<le> rv_staked r \<Longrightarrow> 0 \<le> rv_staked (f r)) \<Longrightarrow> mines_inv (snd (upsert_reviewer f i W))"
  by (auto simp: upsert_reviewer_def Let_def new_reviewer_def intro!: mines_intros split: option.splits) (auto simp: mines_inv_def)

lemma inv_vote: "mines_inv W \<Longrightarrow> 0 \<le> me_voteReward en \<Longrightarrow> mines_inv (snd (castVote en i vote tid W))"
proof (cases "vote_guard en i vote tid W")
  case (Inr t)
  assume inv: "mines_inv W" and v: "0 \<le> me_voteReward en"
  have "mines_inv (counted_world en i vote tid t W)"
    unfolding counted_world_def using inv by (intro mines_intros) (auto simp: count_vote_def Let_def)
  moreover obtain res W' where r: "checkAndResolve en (record_vote i vote (vote_weight i W) t) (counted_world en i vote tid t W) = (res, W')"
    by fastforce
  ultimately show ?thesis using inv_check [OF _ v r] castVote_passed [OF Inr] r by (simp add: Let_def)
qed (simp add: castVote_def)

lemma inv_resolve_list: "mines_inv W \<Longrightarrow> 0 \<le> me_voteReward en \<Longrightarrow> mines_inv (snd (resolve_list en ts W))"
proof (induction ts arbitrary: W)
  case (Cons t ts)
  obtain res W1 where a: "checkAndResolve en t W = (res, W1)" by fastforce
  then have "mines_inv W1" using inv_check Cons.prems by blast
  then show ?case using Cons a by (simp add: case_prod_beta Let_def)
qed simp

lemma inv_assign: "mines_inv W \<Longrightarrow> mines_inv (snd (autoAssignReviewers en t W))"
  by (auto simp: autoAssignReviewers_def Let_def count_assignment_def intro!: mines_intros inv_fold)

lemma inv_post: "mines_inv W \<Longrightarrow> mines_inv (snd (postSubmission en u body W))"
  using inv_assign [OF inv_frames(5)] by (auto simp: postSubmission_def Let_def case_prod_beta split: option.splits)

lemma inv_stake: "mines_inv W \<Longrightarrow> mines_inv (snd (reviewerStake i amount W))"
proof (cases "\<exists>x u W1. amount = Some x \<and> 0 < x \<and> debit_balance i x W = Some (u, W1)")
  case True
  assume inv: "mines_inv W"
  from True obtain x u W1 where d: "amount = Some x" "0 < x" "debit_balance i x W = Some (u, W1)" by blast
  with inv have W1: "mines_inv W1" by (blast intro: inv_debit)
  then have "0 \<le> rv_staked r" if "find_reviewer i W1 = Some r" for r using that by (auto simp: mines_inv_def)
  with W1 d show ?thesis
    by (auto simp: reviewerStake_def Let_def stake_named_def new_reviewer_def intro!: mines_intros js_add_nonneg split: option.splits)
next
  case False
  then show "mines_inv W \<Longrightarrow> mines_inv (snd (reviewerStake i amount W))" by (auto simp: reviewerStake_def split: option.splits)
qed

lemma inv_unstake:
  assumes "mines_inv W" "unstake_check now i amount V = Inr (r, x)"
  shows "mines_inv (unstake_commit i r x W)"
proof -
  have "0 \<le> js_sub (rv_staked r) x" "0 \<le> x" using unstake_check_ok(2,3) [OF assms(2)] by (auto intro: js_sub_nonneg)
  then show ?thesis unfolding unstake_commit_def using assms(1) by (intro mines_intros) (auto simp: unstaked_def Let_def)
qed

lemma inv_campaign:
  assumes "mines_inv W" "find_campaign cid W = None"
  shows "mines_inv (snd (createCampaign cid u b W))"
proof -
  obtain resp W' where r: "createCampaign cid u b W = (resp, W')" by fastforce
  show ?thesis
  proof (cases resp)
    case (CkOk c)
    with r obtain p budget rate m W1 where p: "computeCampaignRate (kb_platform b) (kb_activity b) (Some (clampMultiplier (kb_multiplier b))) = Some rate"
      and d: "debit_balance u budget W = Some (m, W1)" and c: "c = funded_campaign cid u p b budget rate"
      and W': "W' = log_wallet \<lparr>wt_user = u, wt_type = WalletDebit, wt_amount = budget, wt_currency = ''MLPTS'',
                            wt_description = ''Campaign funding - '' @ pl_label p @ '' '' @ kb_activity b\<rparr> (create_campaign c W1)"
      by (auto simp: createCampaign_def Let_def split: option.splits if_splits)
    from p obtain base where "resolveBaseRate (kb_platform b) (kb_activity b) = Some base"
      by (auto simp: computeCampaignRate_def split: option.splits)
    from campaign_rate_range [OF this, of "Some (clampMultiplier (kb_multiplier b))"] p have "0 \<le> rate" by simp
    moreover have "mines_inv W1" using inv_debit [OF assms(1) d] .
    ultimately have "mines_inv (create_campaign c W1)"
      by (auto simp: mines_inv_def create_campaign_def balance_of_def find_miner_def find_reviewer_def find_campaign_def coll_find_append
        c funded_campaign_def split: option.splits if_splits)
    then show ?thesis using r W' by (simp add: mines_intros)
  qed (use assms r in \<open>auto simp: createCampaign_def Let_def split: option.splits if_splits\<close>)
qed

lemma admin_reward_nonneg: "mines_inv W \<Longrightarrow> 0 \<le> or_else rw 0 \<Longrightarrow> 0 \<le> admin_reward rw t W"
  by (auto simp: admin_reward_def mines_inv_def Let_def split: option.splits)

lemma inv_approve: "mines_inv W \<Longrightarrow> 0 \<le> or_else rw 0 \<Longrightarrow> mines_inv (snd (approveSubmission now rw tid W))"
  by (auto simp: approveSubmission_def Let_def intro!: mines_intros admin_reward_nonneg split: option.splits)

text \<open>
  The steps of the Mines. The check and the commit of a withdrawal are apart: the check may have read any
  earlier state \<open>V\<close>. The reward an administrator names is not negative.
\<close>

inductive mines_step :: "num \<Rightarrow> mines_world \<Rightarrow> mines_world \<Rightarrow> bool" for v where
  step_vote: "me_voteReward en = v \<Longrightarrow> mines_step v W (snd (castVote en i vote tid W))"
| step_read: "me_voteReward en = v \<Longrightarrow> mines_step v W (snd (myAssigned en i W))"
| step_submit: "mines_step v W (snd (postSubmission (en :: limit_env) u body W))"
| step_change: "mines_step v W (snd (putSubmission u tid patch W))"
| step_assign: "mines_step v W (snd (adminAssign now ids tid W))"
| step_final_reject: "mines_step v W (snd (adminFinalReject note tid W))"
| step_stake: "mines_step v W (snd (reviewerStake i amount W))"
| step_unstake: "unstake_check now i amount V = Inr (r, x) \<Longrightarrow> mines_step v W (unstake_commit i r x W)"
| step_campaign: "find_campaign cid W = None \<Longrightarrow> mines_step v W (snd (createCampaign cid u b W))"
| step_approve: "0 \<le> or_else rw 0 \<Longrightarrow> mines_step v W (snd (approveSubmission now rw tid W))"
| step_reject: "mines_step v W (snd (rejectSubmission note tid W))"
| step_credit: "mines_step v W (snd (balanceCredit valid amount u W))"
| step_deduct: "mines_step v W (snd (balanceDeduct valid amount u W))"

lemma mines_step_inv:
  assumes "mines_step v W W'" "0 \<le> v" "mines_inv W"
  shows "mines_inv W'"
  using assms
proof (cases rule: mines_step.cases)
  case (step_vote en i vote tid)
  with assms show ?thesis by (auto intro: inv_vote)
next
  case (step_read en i)
  with assms show ?thesis using inv_resolve_list [of W en] by (auto simp: myAssigned_def case_prod_beta)
next
  case (step_assign now ids tid)
  with assms show ?thesis
    by (auto simp: adminAssign_def Let_def count_assignment_def intro!: mines_intros inv_fold split: option.splits)
next
  case (step_deduct valid amount u)
  with assms show ?thesis by (auto simp: balanceDeduct_def intro!: mines_intros dest: inv_debit split: option.splits)
qed (auto simp: putSubmission_def adminFinalReject_def rejectSubmission_def balanceCredit_def Let_def
    intro!: mines_intros inv_post inv_stake inv_campaign inv_approve inv_unstake intro: inv_unstake split: option.splits)


section \<open>The limits of a campaign\<close>

definition counted_subs :: "string \<Rightarrow> string \<Rightarrow> mines_world \<Rightarrow> nat" where
  "counted_subs u c W = length (filter (\<lambda>t. ts_miner t = u \<and> ts_campaign t = Some c \<and> ts_status t \<noteq> ''rejected'') (submissions W))"

lemma existing_length [simp]: "length (existing_subs u c W) = counted_subs u c W"
  by (simp add: existing_subs_def counted_subs_def)

lemma autoAssign_counts:
  assumes "autoAssignReviewers en t W = (t', W')"
  shows "counted_subs u c W' = counted_subs u c W"
proof -
  let ?f = "\<lambda>t :: submission. (ts_miner t, ts_campaign t, ts_status t)"
  have "map ?f (submissions (update_sub (assigned_to now ids) i V)) = map ?f (submissions V)" for now ids i V
  proof (cases "find_sub i V")
    case (Some t)
    have "ts_id (assigned_to now ids t) = i" using subdb.find_key [OF Some] by (simp add: assigned_to_def)
    then have "map ?f (coll_put ts_id (assigned_to now ids t) (submissions V)) = map ?f (submissions V)"
      using Some by (intro list_put_map [of ts_id _ _ t]) (simp_all add: find_sub_def assigned_to_def)
    then show ?thesis using Some by (simp add: update_sub_def save_sub_def)
  qed (simp add: update_sub_def)
  then have "map (\<lambda>t. (ts_miner t, ts_campaign t, ts_status t)) (submissions W') = map (\<lambda>t. (ts_miner t, ts_campaign t, ts_status t)) (submissions W)"
    using assms by (auto simp: autoAssignReviewers_def Let_def split: if_splits)
  then have "length (filter (\<lambda>(m, k, s). m = u \<and> k = Some c \<and> s \<noteq> ''rejected'') (map (\<lambda>t. (ts_miner t, ts_campaign t, ts_status t)) (submissions W')))
      = length (filter (\<lambda>(m, k, s). m = u \<and> k = Some c \<and> s \<noteq> ''rejected'') (map (\<lambda>t. (ts_miner t, ts_campaign t, ts_status t)) (submissions W)))"
    by simp
  then show ?thesis by (simp add: counted_subs_def filter_map o_def)
qed

lemma post_counts:
  assumes "postSubmission en u body W = (Inr row, W')"
  shows "checkCampaignAbuseLimits en u (ts_campaign body) W = None"
    and "counted_subs u c W' = counted_subs u c W + (if ts_campaign body = Some c \<and> ts_status body \<noteq> ''rejected'' then 1 else 0)"
proof -
  from assms have a: "checkCampaignAbuseLimits en u (ts_campaign body) W = None"
      "autoAssignReviewers (mines_env.truncate en) (body\<lparr>ts_miner := u\<rparr>) (create_sub (body\<lparr>ts_miner := u\<rparr>) W) = (row, W')"
    by (auto simp: postSubmission_def Let_def split: option.splits prod.splits)
  then show "checkCampaignAbuseLimits en u (ts_campaign body) W = None" by simp
  show "counted_subs u c W' = counted_subs u c W + (if ts_campaign body = Some c \<and> ts_status body \<noteq> ''rejected'' then 1 else 0)"
    unfolding autoAssign_counts [OF a(2)] by (simp add: counted_subs_def create_sub_def)
qed

text \<open>
  a submission to a campaign is accepted only while the campaign is active with budget left and the user has
  fewer counted submissions than its limit, and for the campaign's rate only within the daily cap of the
  platform: afterwards the user's counted submissions are at most the limit, and one more than before unless
  the body says that it is rejected.
\<close>

theorem submission_limits:
  assumes "postSubmission en u body W = (Inr row, W')" "ts_campaign body = Some c" "c \<noteq> []"
  shows "\<exists>k. find_campaign c W = Some k \<and> cp_status k = CampaignActive \<and> 0 < cp_budget k
    \<and> int (counted_subs u c W') \<le> user_limit k
    \<and> counted_subs u c W' = counted_subs u c W + (if ts_status body = ''rejected'' then 0 else 1)
    \<and> js_add (recent_total en u (cp_platform k) W) (cp_rate k) \<le> getDailyCapMlpts (cp_platform k)"
  using post_counts [OF assms(1)] assms(2,3)
  by (auto simp: checkCampaignAbuseLimits_def Let_def split: option.splits if_splits)

text \<open>
  the body of a submission may say that it is already rejected. Such a submission is created and given
  reviewers like any other, but it is not counted, so no number of them ever reaches the limit of the campaign.
\<close>

theorem rejected_body_uncounted:
  assumes "postSubmission en u (body\<lparr>ts_status := ''rejected''\<rparr>) W = (Inr row, W')"
  shows "counted_subs u c W' = counted_subs u c W \<and> length (submissions W') = length (submissions W) + 1"
proof -
  have "length (submissions (update_sub f i V)) = length (submissions V)" for f i V
    by (auto simp: update_sub_def save_sub_def split: option.splits)
  then have "length (submissions W') = length (submissions W) + 1" using assms
    by (auto simp: postSubmission_def autoAssignReviewers_def Let_def create_sub_def split: option.splits prod.splits if_splits)
  with post_counts(2) [OF assms, of c] show ?thesis by simp
qed

lemma foldl_js_add_nonneg: "0 \<le> a \<Longrightarrow> \<forall>x \<in> set xs. 0 \<le> x \<Longrightarrow> 0 \<le> foldl js_add a xs"
  by (induction xs arbitrary: a) (simp_all add: js_add_nonneg)

text \<open>
  a campaign whose reward is above the daily cap of its platform takes no submission from anyone, ever,
  although such a campaign can be funded: its whole budget has left the creator's balance.
\<close>

theorem capped_campaign_is_stuck:
  assumes "find_campaign c W = Some k" "getDailyCapMlpts (cp_platform k) < fl (cp_rate k)" "c \<noteq> []" "ts_campaign body = Some c"
    and "\<And>d. \<forall>k \<in> set (me_lookup en d (campaigns W)). 0 \<le> cp_rate k"
  shows "\<exists>e. postSubmission en u body W = (Inl e, W)"
proof -
  have "0 \<le> recent_total en u (cp_platform k) W"
    unfolding recent_total_def using assms(5) by (intro foldl_js_add_nonneg) (auto split: option.splits)
  then have "fl (cp_rate k) \<le> js_add (recent_total en u (cp_platform k) W) (cp_rate k)" by (simp add: js_add_def fl_mono)
  with assms have "checkCampaignAbuseLimits en u (ts_campaign body) W \<noteq> None" by (auto simp: checkCampaignAbuseLimits_def Let_def)
  then show ?thesis by (auto simp: postSubmission_def split: option.splits)
qed

section \<open>Money that should not move\<close>

lemma charge_effect:
  assumes "find_campaign c W = Some k"
  shows "find_campaign c (charge_campaign (Some c) x W) = Some (k\<lparr>cp_completions := cp_completions k + 1, cp_budget := js_add (cp_budget k) (- x)\<rparr>)"
  using assms campaigndb.find_key [OF assms] campaigndb.save_present [OF assms]
  by (simp add: charge_campaign_def)

lemma settle_campaign:
  assumes "settle en True reason t W = (t', W')" "ts_campaign t = Some c" "find_campaign c W = Some k" "cp_rate k \<noteq> 0"
  shows "find_campaign c W' = Some (k\<lparr>cp_completions := cp_completions k + 1, cp_budget := js_add (cp_budget k) (- cp_rate k)\<rparr>)"
proof -
  have r: "settle_reward t True W = cp_rate k" using assms(2-4) by (simp add: settle_reward_def)
  define V where "V = pay_miner t True (cp_rate k) (update_sub (task_settled (me_now en) True reason (cp_rate k)) (ts_id t) W)"
  have "find_campaign c V = Some k" using assms(3) by (simp add: V_def pay_miner_def)
  moreover have "campaigns W' = campaigns (charge_campaign (Some c) (cp_rate k) V)"
    using assms(1,2) by (auto simp: settle_def Let_def settle_all_frame r V_def)
  ultimately show ?thesis using charge_effect by (simp add: find_campaign_def)
qed

text \<open>
  the budget of a campaign bounds nothing once submissions are waiting: an approval pays the full rate
  also when the budget left is smaller, and leaves a negative budget.
\<close>

theorem campaign_overspends:
  assumes "settle en True reason t W = (t', W')" "ts_campaign t = Some c" "find_campaign c W = Some k" "cp_budget k < cp_rate k" "0 < cp_rate k"
    and "distinct (ts_assigned t)" "ts_miner t \<notin> set (ts_assigned t)"
  shows "\<exists>k'. find_campaign c W' = Some k' \<and> cp_budget k' < 0
    \<and> balance_of (ts_miner t) W' = map_option (\<lambda>b. js_add b (cp_rate k)) (balance_of (ts_miner t) W)"
proof -
  have r: "settle_reward t True W = cp_rate k" using assms(2-5) by (simp add: settle_reward_def)
  have "js_add (cp_budget k) (- cp_rate k) < 0"
    using assms(4) fl_pos [of "cp_rate k - cp_budget k"] fl_minus [of "cp_rate k - cp_budget k"] by (simp add: js_add_def)
  moreover have "balance_of (ts_miner t) W' = map_option (\<lambda>b. js_add b (cp_rate k)) (balance_of (ts_miner t) W)"
    using settle_effect(2) [OF assms(6,1,7), of "ts_miner t"] assms(5) by (simp add: r)
  ultimately show ?thesis using settle_campaign [OF assms(1-3)] assms(5) by simp
qed

text \<open>
  an approval by an administrator looks at no status: approving the same submission again pays the
  submitter again and writes a second entry in the wallet journal.
\<close>

theorem approval_pays_again:
  assumes "0 < x" "approveSubmission n1 (Some x) tid W = (Some t1, W1)" "approveSubmission n2 (Some x) tid W1 = (Some t2, W2)"
  shows "ts_status t1 = ''auto_approved'' \<and> balance_of (ts_miner t1) W2 = map_option (\<lambda>b. js_add (js_add b x) x) (balance_of (ts_miner t1) W)
    \<and> length (walletTxs W2) = length (walletTxs W) + 2"
proof -
  have step: "ts_status t' = ''auto_approved'' \<and> find_sub tid V' = Some t' \<and> ts_miner t' = m \<and> walletTxs V' = walletTxs V @ [w]
      \<and> balance_of m V' = map_option (\<lambda>b. js_add b x) (balance_of m V)"
    if "approveSubmission n (Some x) tid V = (Some t', V')" "find_sub tid V = Some t" "m = ts_miner t"
      "w = \<lparr>wt_user = ts_miner t, wt_type = WalletCredit, wt_amount = x, wt_currency = ''MLPTS'', wt_description = ''Task reward approved by admin''\<rparr>"
    for n V V' t' t m w
    using that assms(1) find_update_sub [of "\<lambda>s. s\<lparr>ts_status := ''auto_approved'', ts_completed := Some n, ts_reward := x\<rparr>" tid tid V]
    by (auto simp: approveSubmission_def admin_reward_def or_else_def balance_inc Let_def)
  from assms(2) obtain t where t: "find_sub tid W = Some t" by (auto simp: approveSubmission_def split: option.splits)
  from step [OF assms(2) t refl refl] have s1: "ts_status t1 = ''auto_approved''" "find_sub tid W1 = Some t1" "ts_miner t1 = ts_miner t"
    "balance_of (ts_miner t) W1 = map_option (\<lambda>b. js_add b x) (balance_of (ts_miner t) W)" "length (walletTxs W1) = length (walletTxs W) + 1" by simp_all
  from step [OF assms(3) s1(2) refl refl] s1 show ?thesis by (simp add: option.map_comp o_def)
qed

text \<open>The change that makes the owner the only reviewer, with the vote already cast.\<close>

definition self_review :: "string \<Rightarrow> num \<Rightarrow> submission \<Rightarrow> submission" where
  "self_review u x t = t\<lparr>ts_assigned := [u], ts_assignment := AsVoting, ts_votes := [(u, ''yes'')], ts_yesWeight := 1, ts_noWeight := 0,
     ts_campaign := None, ts_reward := x\<rparr>"

text \<open>
  the owner of a submission may change any of its fields. With one change, naming itself as the only reviewer
  who has voted yes and any reward, and then reading the own tasks, a user without a stake is paid that reward.
\<close>

theorem owner_pays_itself:
  assumes "find_sub tid W = Some t" "ts_miner t = u" "balance_of u W = Some b" "find_reviewer u W = None" "0 < x"
    and "me_threshold en \<le> 1" "\<forall>s \<in> set (submissions W). u \<notin> set (ts_assigned s)"
    and "putSubmission u tid (self_review u x) W = (resp, W1)" "myAssigned en u W1 = (rows, W2)"
  shows "balance_of u W2 = Some (js_add b x)"
proof -
  let ?t = "self_review u x t"
  have t: "t \<in> set (submissions W)" "ts_id t = tid" using assms(1) by (auto simp: find_sub_def dest: coll_find_Some)
  have W1: "W1 = save_sub ?t W" using assms(1,2,8) by (simp add: putSubmission_def update_sub_def)
  have "coll_put ts_id ?t (submissions W) = pre @ ?t # post"
    if "submissions W = pre @ t # post" "\<forall>s \<in> set pre. ts_id s \<noteq> tid" for pre post
    using that t(2) coll_put_split [of pre ts_id ?t t post] by (simp add: self_review_def)
  moreover obtain pre post where split: "submissions W = pre @ t # post" "\<forall>s \<in> set pre. ts_id s \<noteq> tid"
    using assms(1) coll_find_split [of "\<lambda>d. ts_id d = tid" "submissions W" t] by (auto simp: find_sub_def)
  ultimately have sub: "submissions W1 = pre @ ?t # post" by (simp add: W1 save_sub_def)
  have none: "filter (\<lambda>s. u \<in> set (ts_assigned s) \<and> ts_assignment s \<in> {AsAssigned, AsVoting}) xs = []" if "set xs \<subseteq> set (submissions W)" for xs
    using that assms(7) by (auto simp: filter_empty_conv)
  have pq: "filter (\<lambda>s. u \<in> set (ts_assigned s) \<and> ts_assignment s \<in> {AsAssigned, AsVoting}) pre = []"
    "filter (\<lambda>s. u \<in> set (ts_assigned s) \<and> ts_assignment s \<in> {AsAssigned, AsVoting}) post = []"
    by (rule none, simp add: split(1), blast)+
  have "filter (\<lambda>s. u \<in> set (ts_assigned s) \<and> ts_assignment s \<in> {AsAssigned, AsVoting}) (submissions W1) = [?t]"
    using pq unfolding sub filter_append by (simp add: self_review_def)
  then have c: "my_candidates u W1 = [?t]" by (simp add: my_candidates_def)
  have "vote_ratio ?t = 1" using fl_of_int [of 1] by (simp add: vote_ratio_def self_review_def js_arith)
  moreover have "votes_cast ?t = 1" by (simp add: votes_cast_def self_review_def)
  ultimately obtain t' W' where s: "settle en True None ?t W1 = (t', W')" and r: "checkAndResolve en ?t W1 = (Some t', W')"
    using assms(6) by (cases "settle en True None ?t W1") (simp add: checkAndResolve_def self_review_def [of u x t])
  have self: "ts_assigned ?t = [u]" "ts_votes ?t = [(u, ''yes'')]" "ts_miner ?t = ts_miner t" "ts_campaign ?t = None"
    by (simp_all add: self_review_def)
  have rew: "settle_reward ?t True W1 = x" by (simp add: settle_reward_def self_review_def)
  have "find_reviewer u W1 = None" "balance_of u W1 = Some b" using assms(3,4) by (simp_all add: W1 save_sub_def find_reviewer_def balance_of_def find_miner_def)
  then have "balance_of u W' = Some (js_add b x)"
    using s assms(2,5) by (auto simp: settle_def rew Let_def self settle_reviewer_def pay_miner_def balance_inc)
  moreover have "W2 = W'" using assms(9) c r by (simp add: myAssigned_def)
  ultimately show ?thesis by simp
qed

section \<open>Witnesses\<close>

definition demo_campaign_body :: campaign_body where
  "demo_campaign_body = \<lparr>kb_platform = ''x'', kb_activity = ''repost'', kb_link = ''https'', kb_description = [], kb_directive = [],
     kb_multiplier = Some 2, kb_budget = Some 40\<rparr>"

definition demo_rich :: mines_world where
  "demo_rich = demo_mines\<lparr>miners := [\<lparr>mu_id = ''m'', mu_name = [], mu_email = [], mu_balance = 100\<rparr>]\<rparr>"

definition demo_limit_env :: limit_env where
  "demo_limit_env = \<lparr>me_now = 100000000, me_voteReward = 1 / 2, me_threshold = 1 / 2, me_rand = (\<lambda>_. 0), me_mixed = (\<lambda>_ v. v),
     me_lookup = (\<lambda>c. filter (\<lambda>k. cp_id k = c)), me_aggregateFails = False\<rparr>"

definition demo_campaign :: campaign where
  "demo_campaign = funded_campaign ''c'' ''m'' \<lparr>pl_label = ''X'', pl_dailyCap = None, pl_activities = []\<rparr> demo_campaign_body 2 4"

definition demo_open :: mines_world where
  "demo_open = demo_mines\<lparr>campaigns := [demo_campaign], submissions := []\<rparr>"

lemma demo_rate: "computeCampaignRate ''x'' ''repost'' (Some (clampMultiplier (Some 2))) = Some 34"
proof -
  have "dec 17000 = 17" using fl_of_int [of 17] by (simp add: dec_def)
  then have "resolveBaseRate ''x'' ''repost'' = Some 17"
    by (simp add: resolveBaseRate_def getActivity_def getPlatform_def PLATFORMS_def)
  moreover have "js_round 340000 = 340000" using js_round_int [of 340000] by simp
  ultimately show ?thesis using fl_of_int [of 34] fl_of_int [of 340000]
    by (simp add: computeCampaignRate_def clampMultiplier_def MIN_CAMPAIGN_MULTIPLIER_def MAX_CAMPAIGN_MULTIPLIER_def js_arith)
qed

lemma demo_funding: "\<exists>c W'. createCampaign ''c'' ''m'' demo_campaign_body demo_rich = (CkOk c, W') \<and> cp_platform c = ''x'' \<and> cp_rate c = 34
    \<and> cp_id c = ''c'' \<and> cp_budget c = 40 \<and> find_campaign ''c'' W' = Some c \<and> campaigns W' = [c]"
proof -
  obtain p where "getPlatform ''x'' = Some p" "map_of (pl_activities p) ''repost'' \<noteq> None"
    by (simp add: getPlatform_def PLATFORMS_def)
  moreover obtain m W1 where "debit_balance ''m'' 40 demo_rich = Some (m, W1)" "campaigns W1 = []"
    by (simp add: debit_balance_def find_miner_def demo_rich_def demo_mines_def save_miner_def Let_def)
  ultimately show ?thesis using demo_rate
    by (simp add: createCampaign_def demo_campaign_body_def funded_campaign_def Let_def find_campaign_def create_campaign_def log_wallet_def)
qed

lemma campaign_funding_exact_witness:
  "\<exists>c W'. createCampaign ''c'' ''m'' demo_campaign_body demo_rich = (CkOk c, W') \<and> cp_rate c = 34 \<and> balance_of ''m'' W' = Some (js_add 100 (- 40))"
proof -
  obtain c W' where c: "createCampaign ''c'' ''m'' demo_campaign_body demo_rich = (CkOk c, W')" "cp_rate c = 34" "cp_budget c = 40"
    using demo_funding by blast
  have "find_campaign ''c'' demo_rich = None" "balance_of ''m'' demo_rich = Some 100"
    by (simp_all add: find_campaign_def balance_of_def find_miner_def demo_rich_def demo_mines_def)
  with campaign_funding_exact [of "''c''" demo_rich "''m''" demo_campaign_body] c show ?thesis by auto
qed

lemma capped_campaign_is_stuck_witness:
  "\<exists>c W' e. createCampaign ''c'' ''m'' demo_campaign_body demo_rich = (CkOk c, W') \<and> cp_budget c = 40
     \<and> postSubmission demo_limit_env ''a'' (demo_sub\<lparr>ts_campaign := Some ''c''\<rparr>) W' = (Inl e, W')"
proof -
  obtain c W' where c: "createCampaign ''c'' ''m'' demo_campaign_body demo_rich = (CkOk c, W')" "cp_platform c = ''x''" "cp_rate c = 34"
      "find_campaign ''c'' W' = Some c" "campaigns W' = [c]" "cp_budget c = 40"
    using demo_funding by blast
  have "getDailyCapMlpts (cp_platform c) < fl (cp_rate c)"
    using fl_of_int [of 34] c by (simp add: getDailyCapMlpts_def getPlatform_def PLATFORMS_def DEFAULT_DAILY_CAP_MLPTS_def)
  from capped_campaign_is_stuck [OF c(4) this, of "demo_sub\<lparr>ts_campaign := Some ''c''\<rparr>" demo_limit_env "''a''"] c show ?thesis
    by (auto simp: demo_limit_env_def)
qed

lemma demo_post:
  assumes "ts_campaign body = Some ''c''"
  shows "\<exists>row W'. postSubmission demo_limit_env ''m'' body demo_open = (Inr row, W')"
proof -
  have "checkCampaignAbuseLimits demo_limit_env ''m'' (ts_campaign body) demo_open = None"
    using assms fl_of_int [of 4]
    by (simp add: checkCampaignAbuseLimits_def find_campaign_def demo_open_def demo_mines_def demo_campaign_def funded_campaign_def
      demo_campaign_body_def counted_subs_def user_limit_def demo_limit_env_def existing_subs_def recent_total_def js_add_def
      getDailyCapMlpts_def getPlatform_def PLATFORMS_def DEFAULT_DAILY_CAP_MLPTS_def)
  then show ?thesis by (simp add: postSubmission_def case_prod_beta Let_def)
qed

lemma submission_limits_witness:
  "\<exists>row W'. postSubmission demo_limit_env ''m'' (demo_sub\<lparr>ts_campaign := Some ''c''\<rparr>) demo_open = (Inr row, W') \<and> counted_subs ''m'' ''c'' W' = 1"
proof -
  obtain row W' where p: "postSubmission demo_limit_env ''m'' (demo_sub\<lparr>ts_campaign := Some ''c''\<rparr>) demo_open = (Inr row, W')"
    using demo_post [of "demo_sub\<lparr>ts_campaign := Some ''c''\<rparr>"] by auto
  from submission_limits [OF p, of "''c''"] p show ?thesis by (auto simp: counted_subs_def demo_open_def demo_sub_def)
qed

lemma rejected_body_uncounted_witness:
  "\<exists>row W'. postSubmission demo_limit_env ''m'' ((demo_sub\<lparr>ts_campaign := Some ''c''\<rparr>)\<lparr>ts_status := ''rejected''\<rparr>) demo_open = (Inr row, W')
     \<and> counted_subs ''m'' ''c'' W' = 0"
proof -
  obtain row W' where p: "postSubmission demo_limit_env ''m'' ((demo_sub\<lparr>ts_campaign := Some ''c''\<rparr>)\<lparr>ts_status := ''rejected''\<rparr>) demo_open = (Inr row, W')"
    using demo_post [of "(demo_sub\<lparr>ts_campaign := Some ''c''\<rparr>)\<lparr>ts_status := ''rejected''\<rparr>"] by auto
  from rejected_body_uncounted [OF p, of "''c''"] p show ?thesis by (auto simp: counted_subs_def demo_open_def)
qed

lemma campaign_overspends_witness:
  "\<exists>t' W' k. settle demo_mines_env True None (demo_full\<lparr>ts_campaign := Some ''c''\<rparr>) demo_open = (t', W')
     \<and> find_campaign ''c'' W' = Some k \<and> cp_budget k < 0 \<and> balance_of ''m'' W' = Some (js_add 10 4)"
proof -
  let ?t = "demo_full\<lparr>ts_campaign := Some ''c''\<rparr>"
  obtain t' W' where s: "settle demo_mines_env True None ?t demo_open = (t', W')" by fastforce
  have "find_campaign ''c'' demo_open = Some demo_campaign" "cp_budget demo_campaign < cp_rate demo_campaign" "cp_rate demo_campaign = 4"
    "balance_of ''m'' demo_open = Some 10"
    by (simp_all add: find_campaign_def demo_open_def demo_campaign_def funded_campaign_def balance_of_def find_miner_def demo_mines_def)
  with campaign_overspends [OF s, of "''c''" demo_campaign] s show ?thesis by (auto simp: demo_full_def demo_sub_def)
qed

lemma approval_pays_again_witness:
  "\<exists>t1 W1 t2 W2. approveSubmission 1 (Some 4) ''t'' demo_mines = (Some t1, W1) \<and> approveSubmission 2 (Some 4) ''t'' W1 = (Some t2, W2)
     \<and> ts_miner t1 = ''m'' \<and> balance_of ''m'' W2 = Some (js_add (js_add 10 4) 4)"
proof -
  have f: "find_sub ''t'' demo_mines = Some demo_sub" by (simp add: find_sub_def demo_mines_def demo_sub_def)
  then obtain t1 W1 where a: "approveSubmission 1 (Some 4) ''t'' demo_mines = (Some t1, W1)" "ts_miner t1 = ''m''" "find_sub ''t'' W1 \<noteq> None"
    using find_update_sub [of "\<lambda>s. s\<lparr>ts_status := ''auto_approved'', ts_completed := Some 1, ts_reward := 4\<rparr>" "''t''" "''t''" demo_mines]
    by (auto simp: approveSubmission_def admin_reward_def or_else_def Let_def demo_sub_def)
  then obtain t2 W2 where b: "approveSubmission 2 (Some 4) ''t'' W1 = (Some t2, W2)" by (auto simp: approveSubmission_def Let_def)
  have "balance_of ''m'' demo_mines = Some 10" by (simp add: balance_of_def find_miner_def demo_mines_def)
  with approval_pays_again [OF _ a(1) b] a b show ?thesis by simp
qed

lemma owner_pays_itself_witness:
  "\<exists>resp W1 rows W2. putSubmission ''m'' ''t'' (self_review ''m'' 1000000) (demo_mines\<lparr>submissions := [demo_sub]\<rparr>) = (resp, W1)
     \<and> myAssigned demo_mines_env ''m'' W1 = (rows, W2) \<and> balance_of ''m'' W2 = Some (js_add 10 1000000)"
proof -
  let ?W = "demo_mines\<lparr>submissions := [demo_sub]\<rparr>"
  obtain resp W1 where a: "putSubmission ''m'' ''t'' (self_review ''m'' 1000000) ?W = (resp, W1)" by fastforce
  obtain rows W2 where b: "myAssigned demo_mines_env ''m'' W1 = (rows, W2)" by fastforce
  have "find_sub ''t'' ?W = Some demo_sub" "ts_miner demo_sub = ''m''" "balance_of ''m'' ?W = Some 10" "find_reviewer ''m'' ?W = None"
    "me_threshold demo_mines_env \<le> 1" "\<forall>s \<in> set (submissions ?W). ''m'' \<notin> set (ts_assigned s)"
    by (simp_all add: find_sub_def demo_sub_def balance_of_def find_miner_def find_reviewer_def demo_mines_def demo_reviewer_def
      new_reviewer_def demo_mines_env_def)
  from owner_pays_itself [OF this(1-4) _ this(5,6) a b] a b show ?thesis by simp
qed


end
