(* ===== verification/QueueRefinement.thy ===== *)
theory QueueRefinement
  imports WithdrawalQueue "HOL-Library.Multiset"
begin

text \<open>
  What the queue of held cash-outs promises, apart from documents, chain and provider: a list of requests with
  their amounts, served from the front as far as the reserve reaches. The theory gives that abstract queue, the
  function from the documents to it, and the two refinements: holding a request enqueues it, and a run of the
  scan is a run of the abstract service.
\<close>

section \<open>The abstract queue\<close>

type_synonym fifo = "(string \<times> num) list"

definition enqueue :: "string \<Rightarrow> num \<Rightarrow> fifo \<Rightarrow> fifo" where
  "enqueue i x q = q @ [(i, x)]"

text \<open>
  \<open>serves r q paid q'\<close>: with the reserve \<open>r\<close> the front is paid and leaves, is given back to its owner
  and leaves, or cannot be read and stays; the first request that the reserve does not cover ends the run.
\<close>

inductive serves :: "num \<Rightarrow> fifo \<Rightarrow> string list \<Rightarrow> fifo \<Rightarrow> bool" where
  serve_done: "serves r [] [] []"
| serve_stop: "r < x \<Longrightarrow> serves r ((i, x) # q) [] ((i, x) # q)"
| serve_pay: "x \<le> r \<Longrightarrow> serves (js_sub r x) q paid q' \<Longrightarrow> serves r ((i, x) # q) (i # paid) q'"
| serve_return: "x \<le> r \<Longrightarrow> serves r q paid q' \<Longrightarrow> serves r ((i, x) # q) paid q'"
| serve_skip: "x \<le> r \<Longrightarrow> serves r q paid q' \<Longrightarrow> serves r ((i, x) # q) paid ((i, x) # q')"

inductive_cases serves_Nil [elim!]: "serves r [] paid q'"
inductive_cases serves_Cons [elim]: "serves r (p # q) paid q'"

text \<open>The service of the abstract queue is fair: it pays in order and never behind a request it cannot cover.\<close>

lemma serves_order: "serves r q paid q' \<Longrightarrow> subseq paid (map fst q) \<and> subseq q' q"
  by (induction rule: serves.induct) auto

lemma serves_blocked: "serves r ((i, x) # q) paid q' \<Longrightarrow> r < x \<Longrightarrow> paid = [] \<and> q' = (i, x) # q"
  by (erule serves_Cons) auto

section \<open>From the documents to the queue\<close>

definition abs_queue :: "world \<Rightarrow> fifo" where
  "abs_queue W = map (\<lambda>w. (w_withdrawalId w, w_amountKes w)) (queue_of W)"

lemma sort_key_filter_put:
  assumes "map w_withdrawalId ws' = map w_withdrawalId ws" "distinct (ids ws)"
    and "\<And>i. i \<notin> S \<Longrightarrow> coll_find (\<lambda>w. w_withdrawalId w = i) ws' = coll_find (\<lambda>w. w_withdrawalId w = i) ws"
    and "\<And>w. w \<in> set ws' \<Longrightarrow> w_withdrawalId w \<in> S \<Longrightarrow> \<not> P w"
  shows "filter P ws' = filter (\<lambda>w. w_withdrawalId w \<notin> S) (filter P ws)"
  using assms
proof (induction ws arbitrary: ws')
  case Nil
  then show ?case by simp
next
  case (Cons w ws)
  then obtain v vs where ws': "ws' = v # vs" and v: "w_withdrawalId v = w_withdrawalId w" and vs: "map w_withdrawalId vs = map w_withdrawalId ws"
    by (cases ws') auto
  have fresh: "w_withdrawalId w \<notin> set (ids ws)" "w_withdrawalId w \<notin> set (ids vs)" using Cons.prems(2) vs by simp_all
  have "coll_find (\<lambda>w. w_withdrawalId w = i) vs = coll_find (\<lambda>w. w_withdrawalId w = i) ws" if "i \<notin> S" for i
  proof (cases "i = w_withdrawalId w")
    case True
    have "coll_find (\<lambda>w. w_withdrawalId w = i) xs = None" if "i \<notin> set (ids xs)" for xs
      using that by (induction xs) auto
    then have "coll_find (\<lambda>w. w_withdrawalId w = i) vs = None" "coll_find (\<lambda>w. w_withdrawalId w = i) ws = None"
      using fresh True by simp_all
    then show ?thesis by simp
  next
    case False
    then show ?thesis using Cons.prems(3) [OF that] v unfolding ws' by simp
  qed
  then have "filter P vs = filter (\<lambda>w. w_withdrawalId w \<notin> S) (filter P ws)"
    using Cons.prems vs unfolding ws' by (intro Cons.IH) auto
  moreover have "v = w" if "w_withdrawalId w \<notin> S" using Cons.prems(3) [OF that] v unfolding ws' by simp
  moreover have "\<not> P v" if "w_withdrawalId w \<in> S" using Cons.prems(4) [of v] that v unfolding ws' by simp
  ultimately show ?case unfolding ws' by auto
qed

lemma release_ids:
  assumes "releaseQueuedWithdrawal en wd W = (r, W')"
  shows "ids (withdrawals W') = ids (withdrawals W)"
  using assms
proof (cases rule: release_cases)
  case (settled sale resp W1)
  from settled(5) show ?thesis
  proof (cases rule: settlement_docs)
    case (1 s w)
    then show ?thesis using settled(8) by (auto simp: frame_simps)
  qed
qed simp

abbreviation entry :: "withdrawal \<Rightarrow> string \<times> num" where "entry w \<equiv> (w_withdrawalId w, w_amountKes w)"

text \<open>One run of the scan: some requests leave the queue, all other documents stay as they are.\<close>

definition scanned :: "num \<Rightarrow> withdrawal list \<Rightarrow> string list \<Rightarrow> world \<Rightarrow> world \<Rightarrow> string set \<Rightarrow> bool" where
  "scanned r ws rel W W' S \<longleftrightarrow> S \<subseteq> set (ids ws)
     \<and> serves r (map entry ws) rel (map entry (filter (\<lambda>w. w_withdrawalId w \<notin> S) ws))
     \<and> ids (withdrawals W') = ids (withdrawals W)
     \<and> (\<forall>i. i \<notin> S \<longrightarrow> find_withdrawal i W' = find_withdrawal i W)
     \<and> (\<forall>i \<in> S. \<exists>w. find_withdrawal i W' = Some w \<and> w_status w \<noteq> WQueuedLiquidity)"

lemma scanned_keep:
  assumes "scanned r ws rel W W' S" "w_withdrawalId w \<notin> set (ids ws)" "w_amountKes w \<le> r"
  shows "scanned r (w # ws) rel W W' S"
  using assms serve_skip [OF assms(3)] by (auto simp: scanned_def)

lemma scanned_leave:
  assumes s: "scanned r' ws rel W1 W' S" and fresh: "w_withdrawalId w \<notin> set (ids ws)"
    and left: "find_withdrawal (w_withdrawalId w) W1 = Some v" "w_status v \<noteq> WQueuedLiquidity"
    and other: "\<And>k. k \<noteq> w_withdrawalId w \<Longrightarrow> find_withdrawal k W1 = find_withdrawal k W"
    and same: "ids (withdrawals W1) = ids (withdrawals W)"
    and step: "\<And>q. serves r' (map entry ws) rel q \<Longrightarrow> serves r (map entry (w # ws)) rel' q"
  shows "scanned r (w # ws) rel' W W' (insert (w_withdrawalId w) S)"
proof -
  let ?i = "w_withdrawalId w"
  have new: "?i \<notin> S" using s fresh by (auto simp: scanned_def)
  have "filter (\<lambda>u. w_withdrawalId u \<notin> insert ?i S) ws = filter (\<lambda>u. w_withdrawalId u \<notin> S) ws"
    using fresh by (intro filter_cong) (auto simp: image_iff)
  then have "filter (\<lambda>u. w_withdrawalId u \<notin> insert ?i S) (w # ws) = filter (\<lambda>u. w_withdrawalId u \<notin> S) ws" by simp
  then have "serves r (map entry (w # ws)) rel' (map entry (filter (\<lambda>u. w_withdrawalId u \<notin> insert ?i S) (w # ws)))"
    using step s by (simp only: scanned_def)
  moreover have "insert ?i S \<subseteq> set (ids (w # ws))" using s by (auto simp: scanned_def)
  moreover have "ids (withdrawals W') = ids (withdrawals W)" using s same by (simp add: scanned_def)
  moreover have "find_withdrawal i W' = find_withdrawal i W" if "i \<notin> insert ?i S" for i
    using that s other by (simp add: scanned_def)
  moreover have "\<exists>u. find_withdrawal i W' = Some u \<and> w_status u \<noteq> WQueuedLiquidity" if "i \<in> insert ?i S" for i
    using that s new left by (auto simp: scanned_def)
  ultimately show ?thesis unfolding scanned_def by blast
qed

lemma scan_serves:
  assumes "release_scan en r ws W = (rel, W')" "distinct (ids ws)" "\<forall>w \<in> set ws. find_withdrawal (w_withdrawalId w) W \<noteq> None"
  shows "\<exists>S. scanned r ws rel W W' S"
  using assms
proof (induction en r ws W arbitrary: rel W' rule: release_scan.induct)
  case (1 en r W)
  then show ?case by (auto simp: scanned_def intro: serve_done)
next
  case (2 en r wd rest W)
  let ?i = "w_withdrawalId wd"
  show ?case
  proof (cases "r < w_amountKes wd")
    case True
    with 2(3) show ?thesis by (intro exI [of _ "{}"]) (auto simp: scanned_def intro: serve_stop)
  next
    case fits: False
    then have le: "w_amountKes wd \<le> r" by simp
    obtain res W1 where x: "releaseQueuedWithdrawal en wd W = (res, W1)" by fastforce
    have stored: "find_withdrawal ?i W \<noteq> None" using 2(5) by simp
    have fresh: "?i \<notin> set (ids rest)" and d: "distinct (ids rest)" using 2(4) by simp_all
    have pres: "\<forall>w \<in> set rest. find_withdrawal (w_withdrawalId w) W1 \<noteq> None"
      using 2(5) release_other [OF x] fresh by (auto simp: image_iff)
    consider (paid) "res = Released" | (none) "res = ReleaseMissing" | (left) "res \<noteq> Released" "res \<noteq> ReleaseMissing" by blast
    then show ?thesis
    proof cases
      case paid
      obtain rel2 where s: "release_scan en (js_sub r (w_amountKes wd)) rest W1 = (rel2, W')" and rel: "rel = ?i # rel2"
        using 2(3) fits x paid by (auto split: prod.splits)
      from 2(1) [OF fits x [symmetric] refl paid s d pres] obtain S where S: "scanned (js_sub r (w_amountKes wd)) rest rel2 W1 W' S" ..
      obtain v where "find_withdrawal ?i W1 = Some v" "w_status v \<noteq> WQueuedLiquidity"
        using release_leaves_queue [OF x _ stored] paid by auto
      from scanned_leave [OF S fresh this release_other [OF x] release_ids [OF x], of r rel] show ?thesis
        using serve_pay [OF le] rel by auto
    next
      case none
      then have s: "release_scan en r rest W1 = (rel, W')" "res \<noteq> Released" using 2(3) fits x by simp_all
      from x have "W1 = W" by (cases rule: release_cases) (simp_all add: none)
      with 2(2) [OF fits x [symmetric] refl s(2,1) d pres] show ?thesis using scanned_keep [OF _ fresh le] by blast
    next
      case left
      then have s: "release_scan en r rest W1 = (rel, W')" using 2(3) fits x by simp
      from 2(2) [OF fits x [symmetric] refl left(1) s d pres] obtain S where S: "scanned r rest rel W1 W' S" ..
      obtain v where "find_withdrawal ?i W1 = Some v" "w_status v \<noteq> WQueuedLiquidity"
        using release_leaves_queue [OF x left(2) stored] .
      from scanned_leave [OF S fresh this release_other [OF x] release_ids [OF x], of r rel] show ?thesis
        using serve_return [OF le] by auto
    qed
  qed
qed

text \<open>
  C10: a run of the scan refines a run of the abstract queue: whatever the settlements answer, the requests that
  the documents show as held afterwards are exactly those the abstract service leaves, in the same order, and
  the paid requests are those it pays with the reserve of the pool.
\<close>

theorem scan_refines_service:
  assumes "distinct (ids (withdrawals W))" "processQueuedWithdrawals en W = (paid, W')"
  shows "serves (sell_reserve (qe_liq en)) (abs_queue W) paid (abs_queue W')"
proof -
  have stored: "\<forall>w \<in> set (queue_of W). find_withdrawal (w_withdrawalId w) W \<noteq> None"
    by (auto simp: queue_of_def find_withdrawal_def coll_find_None)
  from scan_serves [OF assms(2) [unfolded processQueuedWithdrawals_def] queue_distinct [OF assms(1)] stored]
  obtain S where "scanned (sell_reserve (qe_liq en)) (queue_of W) paid W W' S" ..
  then have S: "serves (sell_reserve (qe_liq en)) (map entry (queue_of W)) paid
        (map entry (filter (\<lambda>w. w_withdrawalId w \<notin> S) (queue_of W)))"
      "ids (withdrawals W') = ids (withdrawals W)" "\<forall>i. i \<notin> S \<longrightarrow> find_withdrawal i W' = find_withdrawal i W"
      "\<forall>i \<in> S. \<exists>w. find_withdrawal i W' = Some w \<and> w_status w \<noteq> WQueuedLiquidity"
    unfolding scanned_def by blast+
  have "w_status w \<noteq> WQueuedLiquidity" if w: "w \<in> set (withdrawals W')" "w_withdrawalId w \<in> S" for w
  proof -
    obtain v where v: "find_withdrawal (w_withdrawalId w) W' = Some v" "w_status v \<noteq> WQueuedLiquidity" using S(4) w(2) by blast
    then have "v \<in> set (withdrawals W')" "w_withdrawalId v = w_withdrawalId w"
      by (auto simp: find_withdrawal_def dest: coll_find_Some)
    moreover have "inj_on w_withdrawalId (set (withdrawals W'))" using assms(1) S(2) by (metis distinct_map)
    ultimately have "v = w" using w(1) by (auto dest: inj_onD)
    with v show ?thesis by simp
  qed
  then have "filter (\<lambda>w. w_status w = WQueuedLiquidity) (withdrawals W')
      = filter (\<lambda>w. w_withdrawalId w \<notin> S) (filter (\<lambda>w. w_status w = WQueuedLiquidity) (withdrawals W))"
    using S(2,3) assms(1) by (intro sort_key_filter_put) (auto simp: find_withdrawal_def)
  then have "queue_of W' = filter (\<lambda>w. w_withdrawalId w \<notin> S) (queue_of W)"
    by (simp only: queue_of_def filter_sort)
  with S(1) show ?thesis by (simp add: abs_queue_def)
qed

theorem scan_refines_service_witness:
  "\<exists>released W'. processQueuedWithdrawals (demo_queue_env (of_int 500)) demo_queue_world = (released, W')
     \<and> serves (of_int 500) [(''a'', 900), (''b'', 100)] released (abs_queue W')
     \<and> released = [] \<and> abs_queue W' = [(''a'', 900), (''b'', 100)]"
proof -
  obtain released W' where p: "processQueuedWithdrawals (demo_queue_env (of_int 500)) demo_queue_world = (released, W')"
    by fastforce
  have q: "abs_queue demo_queue_world = [(''a'', 900), (''b'', 100)]"
    by (simp add: abs_queue_def demo_queue) (simp add: demo_held_wd_def)
  have "distinct (ids (withdrawals demo_queue_world))" by (simp add: demo_queue_world_def demo_held_wd_def)
  from scan_refines_service [OF this p]
  have s: "serves (of_int 500) [(''a'', 900), (''b'', 100)] released (abs_queue W')"
    by (simp add: demo_reserve [of 500, simplified] q)
  then have "released = [] \<and> abs_queue W' = [(''a'', 900), (''b'', 100)]" by (rule serves_blocked) simp
  with p s show ?thesis by blast
qed

section \<open>Holding enqueues\<close>

lemma sort_key_insert_last:
  fixes f :: "'a \<Rightarrow> 'b :: linorder"
  assumes "\<forall>x \<in> set us \<union> set vs. f x < f y"
  shows "sort_key f (us @ y # vs) = sort_key f (us @ vs) @ [y]"
proof (rule properties_for_sort_key)
  show "mset (sort_key f (us @ vs) @ [y]) = mset (us @ y # vs)" by simp
  show "sorted (map f (sort_key f (us @ vs) @ [y]))" using assms by (auto simp: sorted_append intro: less_imp_le)
  fix k assume "k \<in> set (sort_key f (us @ vs) @ [y])"
  then consider "k = y" | "f k < f y" "k \<in> set us \<union> set vs" using assms by auto
  then show "filter (\<lambda>x. f k = f x) (sort_key f (us @ vs) @ [y]) = filter (\<lambda>x. f k = f x) (us @ y # vs)"
  proof cases
    case 1
    then have "filter (\<lambda>x. f k = f x) xs = []" if "set xs \<subseteq> set us \<union> set vs" for xs
      using that assms by (fastforce simp: filter_empty_conv)
    from this [of "sort_key f (us @ vs)"] this [of us] this [of vs] show ?thesis using 1 by simp
  next
    case 2
    then have "f k \<noteq> f y" by simp
    then show ?thesis using sort_key_stable [of f "f k" "us @ vs"] by (simp add: eq_commute)
  qed
qed

text \<open>
  holding a request whose document is stored, and not yet held, enqueues it with its amount behind every
  request held earlier.
\<close>

theorem hold_enqueues:
  assumes "find_withdrawal (w_withdrawalId wd) W = Some w" "w_status w \<noteq> WQueuedLiquidity"
    and "\<forall>v \<in> set (queue_of W). w_queuedAt v < Some (qe_now en)"
  shows "abs_queue (holdForLiquidity en sale wd txBytes kes W) = enqueue (w_withdrawalId wd) (w_amountKes wd) (abs_queue W)"
proof -
  let ?h = "held_wd (qe_now en) wd" and ?q = "\<lambda>w. w_status w = WQueuedLiquidity"
  obtain us vs where split: "withdrawals W = us @ w # vs" "\<forall>u \<in> set us. w_withdrawalId u \<noteq> w_withdrawalId wd"
    using coll_find_split [OF assms(1) [unfolded find_withdrawal_def]] by blast
  have "w_withdrawalId w = w_withdrawalId wd" using assms(1) wddb.find_key by blast
  then have put: "withdrawals (holdForLiquidity en sale wd txBytes kes W) = us @ ?h # vs"
    using split(2) unfolding hold_effects(2) [OF refl] split(1) by (intro coll_put_split) (simp_all add: held_wd_def)
  have rest: "filter ?q (withdrawals W) = filter ?q us @ filter ?q vs" using assms(2) split(1) by simp
  have "\<forall>v \<in> set (filter ?q us) \<union> set (filter ?q vs). w_queuedAt v < w_queuedAt ?h"
    using assms(3) unfolding queue_of_def rest by (auto simp: held_wd_def)
  from sort_key_insert_last [OF this]
  have "queue_of (holdForLiquidity en sale wd txBytes kes W) = queue_of W @ [?h]"
    unfolding queue_of_def put rest by (simp add: held_wd_def)
  then show ?thesis by (simp add: abs_queue_def enqueue_def held_wd_def)
qed

theorem hold_enqueues_witness:
  "abs_queue (holdForLiquidity (demo_queue_env 500) demo_sale (demo_wd\<lparr>w_withdrawalId := ''c'', w_amountKes := 300\<rparr>) ''bytes'' 300
     (demo_queue_world\<lparr>withdrawals := demo_wd\<lparr>w_withdrawalId := ''c'', w_amountKes := 300\<rparr> # withdrawals demo_queue_world\<rparr>))
   = [(''a'', 900), (''b'', 100), (''c'', 300)]"
proof -
  let ?w = "demo_wd\<lparr>w_withdrawalId := ''c'', w_amountKes := 300\<rparr>"
  let ?W = "demo_queue_world\<lparr>withdrawals := ?w # withdrawals demo_queue_world\<rparr>"
  have st: "w_status ?w \<noteq> WQueuedLiquidity" by (simp add: demo_wd_def)
  have q: "queue_of ?W = queue_of demo_queue_world" using st by (simp add: queue_of_def)
  have f: "find_withdrawal (w_withdrawalId ?w) ?W = Some ?w" by (simp add: find_withdrawal_def)
  have "\<forall>v \<in> set (queue_of ?W). w_queuedAt v < Some (qe_now (demo_queue_env 500))"
    unfolding q demo_queue by (simp add: demo_held_wd_def demo_queue_env_def)
  from hold_enqueues [OF f st this, of demo_sale "''bytes''" 300] show ?thesis
    unfolding abs_queue_def q demo_queue by (simp add: enqueue_def demo_held_wd_def)
qed

end
