(* ===== verification/KeyStore.thy ===== *)
theory KeyStore
  imports Prelude
begin

text \<open>
  The keys of Redis that expire. The backend keeps its login counters, revoked tokens, cached users and spent
  signatures there, every kind under a prefix of its own. A keyspace holds, for one prefix, the value of a key and
  the millisecond from which the key is gone; the commands are those the sources send, read at a given time.
  Whether the server answers at all is decided by the callers.
\<close>

type_synonym ('k, 'v) keyspace = "'k \<Rightarrow> ('v \<times> int option) option"

definition live :: "int \<Rightarrow> 'v \<times> int option \<Rightarrow> bool" where
  "live t e = (case snd e of None \<Rightarrow> True | Some x \<Rightarrow> t < x)"

definition key_get :: "int \<Rightarrow> 'k \<Rightarrow> ('k, 'v) keyspace \<Rightarrow> 'v option" where
  "key_get t k s = (case s k of None \<Rightarrow> None | Some e \<Rightarrow> if live t e then Some (fst e) else None)"

text \<open>\<open>SET key value EX seconds\<close>, \<open>SET ... NX\<close>, \<open>DEL\<close>, \<open>INCR\<close>, \<open>EXPIRE\<close> and \<open>TTL\<close>.\<close>

definition key_set :: "int \<Rightarrow> 'k \<Rightarrow> 'v \<Rightarrow> int \<Rightarrow> ('k, 'v) keyspace \<Rightarrow> ('k, 'v) keyspace" where
  "key_set t k v ttl s = s(k \<mapsto> (v, Some (t + 1000 * ttl)))"

definition key_set_nx :: "int \<Rightarrow> 'k \<Rightarrow> 'v \<Rightarrow> int \<Rightarrow> ('k, 'v) keyspace \<Rightarrow> bool \<times> ('k, 'v) keyspace" where
  "key_set_nx t k v ttl s = (if key_get t k s = None then (True, key_set t k v ttl s) else (False, s))"

definition key_del :: "'k \<Rightarrow> ('k, 'v) keyspace \<Rightarrow> ('k, 'v) keyspace" where
  "key_del k s = s(k := None)"

definition key_incr :: "int \<Rightarrow> 'k \<Rightarrow> ('k, int) keyspace \<Rightarrow> int \<times> ('k, int) keyspace" where
  "key_incr t k s =
     (case s k of
        Some (n, x) \<Rightarrow> if live t (n, x) then (n + 1, s(k \<mapsto> (n + 1, x))) else (1, s(k \<mapsto> (1, None)))
      | None \<Rightarrow> (1, s(k \<mapsto> (1, None))))"

definition key_expire :: "int \<Rightarrow> 'k \<Rightarrow> int \<Rightarrow> ('k, 'v) keyspace \<Rightarrow> ('k, 'v) keyspace" where
  "key_expire t k ttl s = (case key_get t k s of None \<Rightarrow> s | Some v \<Rightarrow> s(k \<mapsto> (v, Some (t + 1000 * ttl))))"

definition key_ttl :: "int \<Rightarrow> 'k \<Rightarrow> ('k, 'v) keyspace \<Rightarrow> int" where
  "key_ttl t k s =
     (case s k of
        None \<Rightarrow> - 2
      | Some e \<Rightarrow> if \<not> live t e then - 2 else (case snd e of None \<Rightarrow> - 1 | Some x \<Rightarrow> (x - t + 500) div 1000))"

section \<open>The interface\<close>

text \<open>
  What the callers rely on: a value set for a number of seconds is read back until then and not after, other keys
  are left alone, a deleted key is gone, and without a write a key can only disappear.
\<close>

locale expiring_store =
  fixes get :: "int \<Rightarrow> 'k \<Rightarrow> 's \<Rightarrow> 'v option"
    and put :: "int \<Rightarrow> 'k \<Rightarrow> 'v \<Rightarrow> int \<Rightarrow> 's \<Rightarrow> 's"
    and del :: "'k \<Rightarrow> 's \<Rightarrow> 's"
  assumes get_put: "get t k (put t0 k v ttl s) = (if t < t0 + 1000 * ttl then Some v else None)"
    and get_put_other: "k' \<noteq> k \<Longrightarrow> get t k' (put t0 k v ttl s) = get t k' s"
    and get_del: "get t k (del k s) = None"
    and get_del_other: "k' \<noteq> k \<Longrightarrow> get t k' (del k s) = get t k' s"
    and get_mono: "t \<le> t' \<Longrightarrow> get t' k s = Some v \<Longrightarrow> get t k s = Some v"
begin

lemma stays_gone: "get t k s = None \<Longrightarrow> t \<le> t' \<Longrightarrow> get t' k s = None"
  using get_mono by (metis option.exhaust)

text \<open>A key is held until \<open>u\<close> when every earlier reading finds it.\<close>

definition held_until :: "int \<Rightarrow> 'k \<Rightarrow> 's \<Rightarrow> bool" where
  "held_until u k s \<longleftrightarrow> (\<forall>t < u. get t k s \<noteq> None)"

lemma held_until_put: "u \<le> t0 + 1000 * ttl \<Longrightarrow> held_until u k (put t0 k v ttl s)"
  by (simp add: held_until_def get_put)

lemma held_until_put_other: "k' \<noteq> k \<Longrightarrow> held_until u k' (put t0 k v ttl s) = held_until u k' s"
  by (simp add: held_until_def get_put_other)

lemma held_until_less: "held_until u k s \<Longrightarrow> u' \<le> u \<Longrightarrow> held_until u' k s"
  by (simp add: held_until_def)

text \<open>
  The values of a key are bounded in their stay by \<open>u\<close> when none of them that fails \<open>P\<close> is read from \<open>u\<close> on:
  the coherence of a cache whose entries live for a fixed time.
\<close>

definition stale_until :: "int \<Rightarrow> ('v \<Rightarrow> bool) \<Rightarrow> 'k \<Rightarrow> 's \<Rightarrow> bool" where
  "stale_until u P k s \<longleftrightarrow> (\<forall>t v. u \<le> t \<longrightarrow> get t k s = Some v \<longrightarrow> P v)"

lemma stale_until_put: "P v \<or> t0 + 1000 * ttl \<le> u \<Longrightarrow> stale_until u P k (put t0 k v ttl s)"
  by (auto simp: stale_until_def get_put split: if_splits)

lemma stale_until_put_any:
  assumes "stale_until u P k s" "k' = k \<longrightarrow> P v"
  shows "stale_until u P k (put t0 k' v ttl s)"
  using assms stale_until_put [of P v t0 ttl u k s] by (cases "k' = k") (auto simp: stale_until_def get_put_other)

lemma stale_until_del: "stale_until u P k s \<Longrightarrow> stale_until u P k (del k' s)"
  using get_del get_del_other by (cases "k' = k") (auto simp: stale_until_def)

end

interpretation keys: expiring_store key_get key_set key_del
proof unfold_locales
  fix t t' k s v
  assume "t \<le> t'" "key_get t' k s = Some v"
  then show "key_get t k s = Some v"
    by (auto simp: key_get_def live_def split: option.splits if_splits)
qed (simp_all add: key_get_def key_set_def key_del_def live_def)

section \<open>Counting\<close>

lemma key_incr_value: "fst (key_incr t k s) = (case key_get t k s of None \<Rightarrow> 1 | Some n \<Rightarrow> n + 1)"
  by (auto simp: key_incr_def key_get_def live_def split: option.splits)

lemma key_incr_get: "key_get t k (snd (key_incr t k s)) = Some (fst (key_incr t k s))"
  by (auto simp: key_incr_def key_get_def live_def split: option.splits if_splits)

lemma key_incr_other: "k' \<noteq> k \<Longrightarrow> snd (key_incr t k s) k' = s k'"
  by (auto simp: key_incr_def split: option.splits)

lemma key_expire_other: "k' \<noteq> k \<Longrightarrow> key_expire t k ttl s k' = s k'"
  by (auto simp: key_expire_def split: option.splits)

text \<open>A counter started with its expiry keeps that expiry while it counts.\<close>

lemma key_incr_keeps_expiry:
  assumes "s k = Some (n, Some x)" "t < x"
  shows "key_incr t k s = (n + 1, s(k \<mapsto> (n + 1, Some x)))"
  using assms by (simp add: key_incr_def live_def)

lemma key_incr_start:
  assumes "key_get t k s = None"
  shows "key_incr t k s = (1, s(k \<mapsto> (1, None)))"
  using assms by (auto simp: key_incr_def key_get_def live_def split: option.splits if_splits)

lemma key_expire_set: "s k = Some (n, None) \<Longrightarrow> key_expire t k ttl s = s(k \<mapsto> (n, Some (t + 1000 * ttl)))"
  by (simp add: key_expire_def key_get_def live_def)

end
