(* ===== verification/Sessions.thy ===== *)
theory Sessions
  imports KeyStore JsText JsNumber
begin

text \<open>
  Sessions of the backend: the account document (\<open>models/user.js\<close>), the revocation of tokens
  (\<open>middleware/tokenDenylist.js\<close>), the cached account (\<open>middleware/authCache.js\<close>), the days of activity
  (\<open>utils/activityTracker.js\<close>), and the guard every protected route stands behind (\<open>middleware/requireAuth.js\<close>)
  with the three handlers that end or renew a session. Token signatures and the check of the cross-site token are
  libraries and parameters; each access to Redis may fail on its own.
\<close>

section \<open>State\<close>

datatype role = RoleUser | RoleAdmin | RoleSuperadmin
datatype fraud_status = FraudClear | FraudWarned | FraudSuspended | FraudBanned

record account =
  ac_id :: string
  ac_email :: string
  ac_password :: "string option"
  ac_googleId :: "string option"
  ac_role :: role
  ac_banned :: bool
  ac_banReason :: "string option"
  ac_name :: "string option"
  ac_username :: "string option"
  ac_phone :: "string option"
  ac_creator_level :: num
  ac_wallet :: "string option"
  ac_mlpts_balance :: num
  ac_mallcoin_balance :: num
  ac_streak_count :: num
  ac_tasks_completed :: num
  ac_rank_points :: num
  ac_fraud_strikes :: num
  ac_fraud_status :: fraud_status
  ac_kycLevel :: num
  ac_referralCode :: "string option"
  ac_referredBy :: "string option"
  ac_referralEarnings :: num
  ac_referralCount :: num
  ac_referralClaimed :: num
  ac_lastLoginAt :: "int option"
  ac_createdAt :: int
  ac_erasedAt :: "int option"

text \<open>The payload of a verified token; tokens of an older format carry \<open>id\<close> instead of \<open>userId\<close>.\<close>

record claims =
  cl_userId :: "string option"
  cl_id :: "string option"
  cl_username :: "string option"
  cl_jti :: "string option"
  cl_iat :: "int option"
  cl_exp :: "int option"

record user_settings =
  us_user :: string
  us_twoFactorEnabled :: bool
  us_enabledAt :: "int option"
  us_disabledAt :: "int option"
  us_pendingSecret :: "string option"
  us_secret :: "string option"
  us_backupHashes :: "string list option"

record auth_world =
  accounts :: "account list"
  user_settings :: "user_settings list"
  failedLogins :: "(string, int) keyspace"
  deniedTokens :: "(string, unit) keyspace"
  deniedUsers :: "(string, int) keyspace"
  cachedUsers :: "(string, account) keyspace"
  activeDays :: "(string \<times> int, unit) keyspace"
  linkSignatures :: "(string, unit) keyspace"
  auditTrail :: "(string \<times> string) list"

text \<open>The accesses to Redis a request can make, and what a request finds outside.\<close>

datatype redis_call =
    ReadJti | ReadDeniedUser | WriteJti | WriteDeniedUser | CacheRead | CacheWrite | CacheDelete
  | MarkActive | ReadStreak | ReadLock | ReadLockTtl | IncrFailed | ExpireFailed | DeleteFailed | WriteLinkSignature

datatype csrf_reply = CsrfPass | CsrfBadToken | CsrfOtherError

record auth_env =
  au_now :: int
  au_test :: bool
  au_secret :: bool
  au_verify :: "int \<Rightarrow> string \<Rightarrow> claims option"
  au_csrf :: csrf_reply
  au_up :: "redis_call \<Rightarrow> bool"
  au_dbUp :: bool
  au_auditUp :: bool

definition account_of :: "string \<Rightarrow> auth_world \<Rightarrow> account option" where
  "account_of i W = coll_find (\<lambda>a. ac_id a = i) (accounts W)"

definition store_account :: "account \<Rightarrow> auth_world \<Rightarrow> auth_world" where
  "store_account a W = W\<lparr>accounts := coll_put ac_id a (accounts W)\<rparr>"

lemma find_id: "account_of i W = Some a \<Longrightarrow> ac_id a = i"
  by (auto simp: account_of_def dest: coll_find_Some)

lemma account_of_store:
  "account_of u (store_account a W) = (if u = ac_id a \<and> account_of u W \<noteq> None then Some a else account_of u W)"
proof (cases "u = ac_id a \<and> account_of u W \<noteq> None")
  case True
  then show ?thesis using coll_find_put_same [of ac_id a "accounts W"] by (auto simp: account_of_def store_account_def)
next
  case False
  then consider "u \<noteq> ac_id a" | "account_of u W = None" "u = ac_id a" by blast
  then show ?thesis
  proof cases
    case 1
    then show ?thesis by (simp add: account_of_def store_account_def coll_find_put_other)
  next
    case 2
    then have "ac_id a \<notin> ac_id ` set (accounts W)" by (auto simp: account_of_def coll_find_None)
    then show ?thesis using 2 by (simp add: store_account_def coll_put_absent account_of_def)
  qed
qed

section \<open>Revocation of tokens\<close>

definition claimed_user :: "claims \<Rightarrow> string option" where
  "claimed_user c = str_or (cl_userId c) (cl_id c)"

definition revokeToken :: "auth_env \<Rightarrow> string option \<Rightarrow> int \<Rightarrow> auth_world \<Rightarrow> auth_world" where
  "revokeToken en jti ttl W =
     (if au_test en \<or> \<not> truthy_str jti \<or> ttl \<le> 0 \<or> \<not> au_up en WriteJti then W
      else W\<lparr>deniedTokens := key_set (au_now en) (the jti) () ttl (deniedTokens W)\<rparr>)"

definition user_denylist_ttl :: int where "user_denylist_ttl = 30 * 24 * 60 * 60"

definition revokeAllUserTokens :: "auth_env \<Rightarrow> string \<Rightarrow> auth_world \<Rightarrow> auth_world" where
  "revokeAllUserTokens en u W =
     (if au_test en \<or> u = [] \<or> \<not> au_up en WriteDeniedUser then W
      else W\<lparr>deniedUsers := key_set (au_now en) u (au_now en) user_denylist_ttl (deniedUsers W)\<rparr>)"

text \<open>A failed read answers "not revoked", also when only the second of the two fails.\<close>

definition denied_user :: "auth_env \<Rightarrow> claims \<Rightarrow> auth_world \<Rightarrow> bool" where
  "denied_user en c W =
     (let u = claimed_user c in
      if truthy_str u \<and> cl_iat c \<noteq> None \<and> cl_iat c \<noteq> Some 0 \<and> au_up en ReadDeniedUser then
        (case key_get (au_now en) (the u) (deniedUsers W) of
           None \<Rightarrow> False
         | Some before \<Rightarrow> the (cl_iat c) * 1000 < before)
      else False)"

definition isRevoked :: "auth_env \<Rightarrow> claims \<Rightarrow> auth_world \<Rightarrow> bool" where
  "isRevoked en c W =
     (if au_test en then False
      else if truthy_str (cl_jti c) then
        (if \<not> au_up en ReadJti then False
         else if key_get (au_now en) (the (cl_jti c)) (deniedTokens W) \<noteq> None then True
         else denied_user en c W)
      else denied_user en c W)"

section \<open>The cached account\<close>

definition cache_ttl :: int where "cache_ttl = 120"

definition getCachedUser :: "auth_env \<Rightarrow> string \<Rightarrow> auth_world \<Rightarrow> account option" where
  "getCachedUser en u W = (if au_test en \<or> \<not> au_up en CacheRead then None else key_get (au_now en) u (cachedUsers W))"

definition setCachedUser :: "auth_env \<Rightarrow> string \<Rightarrow> account \<Rightarrow> auth_world \<Rightarrow> auth_world" where
  "setCachedUser en u a W =
     (if au_test en \<or> \<not> au_up en CacheWrite then W
      else W\<lparr>cachedUsers := key_set (au_now en) u a cache_ttl (cachedUsers W)\<rparr>)"

definition invalidateCachedUser :: "auth_env \<Rightarrow> string \<Rightarrow> auth_world \<Rightarrow> auth_world" where
  "invalidateCachedUser en u W =
     (if au_test en \<or> \<not> au_up en CacheDelete then W else W\<lparr>cachedUsers := key_del u (cachedUsers W)\<rparr>)"

section \<open>Days of activity\<close>

text \<open>A day is its number since 1970 in UTC; the keys of Redis spell it as a date.\<close>

definition dayKey :: "int \<Rightarrow> int" where "dayKey t = t div 86400000"

definition active_day_ttl :: int where "active_day_ttl = 40 * 24 * 60 * 60"

definition markActiveToday :: "auth_env \<Rightarrow> string \<Rightarrow> auth_world \<Rightarrow> auth_world" where
  "markActiveToday en u W =
     (if u = [] \<or> \<not> au_up en MarkActive then W
      else W\<lparr>activeDays := key_set (au_now en) (u, dayKey (au_now en)) () active_day_ttl (activeDays W)\<rparr>)"

definition getConsecutiveActiveDays :: "auth_env \<Rightarrow> string \<Rightarrow> int \<Rightarrow> nat \<Rightarrow> auth_world \<Rightarrow> bool" where
  "getConsecutiveActiveDays en u asOf requiredDays W =
     (if u = [] \<or> requiredDays = 0 then False
      else if \<not> au_up en ReadStreak then False
      else list_all (\<lambda>i. key_get (au_now en) (u, dayKey asOf - int i) (activeDays W) \<noteq> None) [1..<requiredDays + 1])"

section \<open>The guard\<close>

datatype auth_method = BearerAuth | CookieAuth

record request =
  rq_authorization :: "string option"
  rq_cookie :: "string option"

record session =
  se_user :: account
  se_payload :: claims
  se_method :: auth_method

datatype auth_error =
    ServerConfig | BadAuthHeader | MissingToken | InvalidToken | AccountBanned | AdminRequired
  | SuperadminRequired | CsrfInvalid

fun auth_status :: "auth_error \<Rightarrow> nat" where
  "auth_status ServerConfig = 500"
| "auth_status BadAuthHeader = 401"
| "auth_status MissingToken = 401"
| "auth_status InvalidToken = 401"
| "auth_status AccountBanned = 403"
| "auth_status AdminRequired = 403"
| "auth_status SuperadminRequired = 403"
| "auth_status CsrfInvalid = 403"

definition request_token :: "request \<Rightarrow> auth_error + (string \<times> auth_method)" where
  "request_token rq =
     (if truthy_str (rq_authorization rq) then
        (case split_spaces (the (rq_authorization rq)) of
           [_, t] \<Rightarrow> if t = [] then Inl MissingToken else Inr (t, BearerAuth)
         | _ \<Rightarrow> Inl BadAuthHeader)
      else if truthy_str (rq_cookie rq) then Inr (the (rq_cookie rq), CookieAuth)
      else Inl MissingToken)"

text \<open>The account of the token: from the cache, else from the database without its password, then cached.\<close>

definition session_account :: "auth_env \<Rightarrow> claims \<Rightarrow> auth_world \<Rightarrow> account option \<times> auth_world" where
  "session_account en c W =
     (case claimed_user c of
        None \<Rightarrow> (None, W)
      | Some u \<Rightarrow>
          (case getCachedUser en u W of
             Some a \<Rightarrow> (Some a, W)
           | None \<Rightarrow>
               if \<not> au_dbUp en then (None, W)
               else (case account_of u W of
                       None \<Rightarrow> (None, W)
                     | Some a \<Rightarrow> let a' = a\<lparr>ac_password := None\<rparr> in (Some a', setCachedUser en u a' W))))"

definition role_error :: "role option \<Rightarrow> account \<Rightarrow> auth_error option" where
  "role_error r a =
     (if r = Some RoleAdmin \<and> ac_role a \<noteq> RoleAdmin \<and> ac_role a \<noteq> RoleSuperadmin then Some AdminRequired
      else if r = Some RoleSuperadmin \<and> ac_role a \<noteq> RoleSuperadmin then Some SuperadminRequired
      else None)"

definition requireAuth :: "auth_env \<Rightarrow> role option \<Rightarrow> request \<Rightarrow> auth_world \<Rightarrow> (auth_error + session) \<times> auth_world" where
  "requireAuth en r rq W =
     (if \<not> au_secret en then (Inl ServerConfig, W)
      else case request_token rq of
        Inl e \<Rightarrow> (Inl e, W)
      | Inr (tok, meth) \<Rightarrow>
          (case au_verify en (au_now en) tok of
             None \<Rightarrow> (Inl InvalidToken, W)
           | Some c \<Rightarrow>
               if isRevoked en c W then (Inl InvalidToken, W)
               else (case session_account en c W of
                       (None, W1) \<Rightarrow> (Inl InvalidToken, W1)
                     | (Some a, W1) \<Rightarrow>
                         if ac_banned a then (Inl AccountBanned, W1)
                         else (case role_error r a of
                                 Some e \<Rightarrow> (Inl e, W1)
                               | None \<Rightarrow>
                                   let W2 = (if r = None then markActiveToday en (ac_id a) W1 else W1) in
                                   if meth = CookieAuth \<and> au_csrf en = CsrfBadToken then (Inl CsrfInvalid, W2)
                                   else if meth = CookieAuth \<and> au_csrf en = CsrfOtherError then (Inl InvalidToken, W2)
                                   else (Inr \<lparr>se_user = a, se_payload = c, se_method = meth\<rparr>, W2)))))"


lemma requireAuth_ok:
  assumes "requireAuth en r rq W = (Inr s, W')"
  obtains tok W1 where "request_token rq = Inr (tok, se_method s)" "au_verify en (au_now en) tok = Some (se_payload s)"
    "\<not> isRevoked en (se_payload s) W" "session_account en (se_payload s) W = (Some (se_user s), W1)"
    "\<not> ac_banned (se_user s)" "role_error r (se_user s) = None" "se_method s = CookieAuth \<Longrightarrow> au_csrf en = CsrfPass"
    "W' = (if r = None then markActiveToday en (ac_id (se_user s)) W1 else W1)"
  using assms
  by (auto simp: requireAuth_def Let_def split: if_splits sum.splits option.splits prod.splits; cases "au_csrf en"; auto)

text \<open>The guard writes the cache and the activity of the day, nothing else.\<close>

lemma session_account_frame:
  assumes "session_account en c W = (x, W')"
  shows "accounts W' = accounts W" "user_settings W' = user_settings W" "failedLogins W' = failedLogins W"
    "deniedTokens W' = deniedTokens W" "deniedUsers W' = deniedUsers W" "linkSignatures W' = linkSignatures W" "auditTrail W' = auditTrail W"
    "activeDays W' = activeDays W"
  using assms
  by (auto simp: session_account_def setCachedUser_def Let_def split: option.splits if_splits)

lemma markActive_frame [simp]:
  "accounts (markActiveToday en u W) = accounts W" "user_settings (markActiveToday en u W) = user_settings W"
  "failedLogins (markActiveToday en u W) = failedLogins W" "deniedTokens (markActiveToday en u W) = deniedTokens W"
  "deniedUsers (markActiveToday en u W) = deniedUsers W" "linkSignatures (markActiveToday en u W) = linkSignatures W"
  "cachedUsers (markActiveToday en u W) = cachedUsers W" "auditTrail (markActiveToday en u W) = auditTrail W"
  by (simp_all add: markActiveToday_def)

lemma requireAuth_frame:
  assumes "requireAuth en r rq W = (x, W')"
  shows "accounts W' = accounts W" "user_settings W' = user_settings W" "failedLogins W' = failedLogins W"
    "deniedTokens W' = deniedTokens W" "deniedUsers W' = deniedUsers W" "linkSignatures W' = linkSignatures W" "auditTrail W' = auditTrail W"
  using assms session_account_frame
  by (auto simp: requireAuth_def Let_def split: if_splits sum.splits option.splits prod.splits)

text \<open>The cache afterwards is the old one, or holds the account just read from the database.\<close>

lemma requireAuth_cache:
  assumes "requireAuth en r rq W = (x, W')"
  shows "cachedUsers W' = cachedUsers W \<or>
    (\<exists>u a. account_of u W = Some a \<and> cachedUsers W' = key_set (au_now en) u (a\<lparr>ac_password := None\<rparr>) cache_ttl (cachedUsers W))"
proof -
  have "cachedUsers W1 = cachedUsers W \<or>
    (\<exists>u a. account_of u W = Some a \<and> cachedUsers W1 = key_set (au_now en) u (a\<lparr>ac_password := None\<rparr>) cache_ttl (cachedUsers W))"
    if "session_account en c W = (y, W1)" for c y W1
    using that by (auto simp: session_account_def setCachedUser_def Let_def split: option.splits if_splits) blast
  moreover have "cachedUsers W' = cachedUsers W \<or> (\<exists>c y W1. session_account en c W = (y, W1) \<and> cachedUsers W' = cachedUsers W1)"
    using assms
    by (auto simp: requireAuth_def Let_def split: if_splits sum.splits option.splits prod.splits; blast)
  ultimately show ?thesis by metis
qed

text \<open>A token that is on the list is refused, whatever else the request carries.\<close>

lemma denied_token_refused:
  assumes "request_token rq = Inr (tok, m)" "au_verify en (au_now en) tok = Some c" "isRevoked en c W" "au_secret en"
  shows "requireAuth en r rq W = (Inl InvalidToken, W)"
  using assms by (simp add: requireAuth_def)

lemma unverified_token_refused:
  assumes "request_token rq = Inr (tok, m)" "au_verify en (au_now en) tok = None" "au_secret en"
  shows "requireAuth en r rq W = (Inl InvalidToken, W)"
  using assms by (simp add: requireAuth_def)

section \<open>Streaks\<close>

lemma streak_iff:
  "getConsecutiveActiveDays en u asOf n W \<longleftrightarrow>
   u \<noteq> [] \<and> 0 < n \<and> au_up en ReadStreak \<and>
   (\<forall>d. dayKey asOf - int n \<le> d \<and> d < dayKey asOf \<longrightarrow> key_get (au_now en) (u, d) (activeDays W) \<noteq> None)"
proof -
  let ?P = "\<lambda>d. key_get (au_now en) (u, d) (activeDays W) \<noteq> None"
  have "list_all (\<lambda>i. ?P (dayKey asOf - int i)) [1..<n + 1] \<longleftrightarrow> (\<forall>i. 1 \<le> i \<and> i \<le> n \<longrightarrow> ?P (dayKey asOf - int i))"
    by (auto simp: list_all_iff)
  also have "\<dots> \<longleftrightarrow> (\<forall>d. dayKey asOf - int n \<le> d \<and> d < dayKey asOf \<longrightarrow> ?P d)"
  proof (intro iffI allI impI)
    fix d assume l: "\<forall>i. 1 \<le> i \<and> i \<le> n \<longrightarrow> ?P (dayKey asOf - int i)" and d: "dayKey asOf - int n \<le> d \<and> d < dayKey asOf"
    from d have "1 \<le> nat (dayKey asOf - d) \<and> nat (dayKey asOf - d) \<le> n" by auto
    with l have "?P (dayKey asOf - int (nat (dayKey asOf - d)))" by blast
    with d show "?P d" by simp
  qed auto
  finally show ?thesis by (auto simp: getConsecutiveActiveDays_def)
qed

end
