(* ===== verification/Totp.thy ===== *)
theory Totp
  imports JsText JsNumber "HOL-Library.Word"
begin

text \<open>
  One-time codes (\<open>utils/totp.js\<close>): the base32 text of a secret, the truncation of a keyed hash to six digits, and
  the check of a code against the current step of thirty seconds and its neighbours. The hash (HMAC-SHA1 of the
  platform) and the random bytes are parameters. Bits are lists of truth values, most significant first, where
  the source keeps them as text of zeros and ones.
\<close>

unbundle bit_operations_syntax

section \<open>Bits of numbers\<close>

fun bits_of :: "nat \<Rightarrow> nat \<Rightarrow> bool list" where
  "bits_of 0 v = []"
| "bits_of (Suc n) v = bits_of n (v div 2) @ [odd v]"

fun bits_val :: "bool list \<Rightarrow> nat \<Rightarrow> nat" where
  "bits_val [] acc = acc"
| "bits_val (b # bs) acc = bits_val bs (2 * acc + of_bool b)"

lemma bits_of_length [simp]: "length (bits_of n v) = n"
  by (induction n v rule: bits_of.induct) auto

lemma bits_val_append: "bits_val (xs @ ys) acc = bits_val ys (bits_val xs acc)"
  by (induction xs acc rule: bits_val.induct) auto

lemma bits_val_of: "bits_val (bits_of n v) acc = 2 ^ n * acc + v mod 2 ^ n"
proof (induction n v arbitrary: acc rule: bits_of.induct)
  case (2 n v)
  have "2 * (v div 2 mod 2 ^ n) + of_bool (odd v) = v mod 2 ^ Suc n"
    by (simp add: mod_mult2_eq odd_iff_mod_2_eq_one)
  with 2 show ?case by (simp add: bits_val_append algebra_simps)
qed simp

lemma bits_of_val: "bits_of (length bs) (bits_val bs 0) = bs"
proof (induction bs rule: rev_induct)
  case (snoc b bs)
  then show ?case by (cases b) (simp_all add: bits_val_append)
qed simp

lemma bits_val_less: "bits_val bs 0 < 2 ^ length bs"
proof (induction bs rule: rev_induct)
  case (snoc b bs)
  then show ?case by (cases b) (auto simp: bits_val_append)
qed simp

section \<open>Groups\<close>

text \<open>The loop \<open>for (i = 0; i + k <= length; i += k)\<close>: whole groups only, the rest is dropped.\<close>

function groups :: "nat \<Rightarrow> 'a list \<Rightarrow> 'a list list" where
  "groups k xs = (if k = 0 \<or> length xs < k then [] else take k xs # groups k (drop k xs))"
  by pat_completeness auto
termination by (relation "measure (\<lambda>(k, xs). length xs)") auto

declare groups.simps [simp del]

lemma groups_step: "0 < k \<Longrightarrow> k \<le> length xs \<Longrightarrow> groups k xs = take k xs # groups k (drop k xs)"
  by (subst groups.simps) (simp only: not_less [symmetric] if_False neq0_conv [symmetric] simp_thms)

lemma groups_concat:
  assumes "0 < k" "\<forall>x \<in> set xss. length x = k"
  shows "groups k (concat xss) = xss"
  using assms(2)
proof (induction xss)
  case Nil
  then show ?case using assms(1) by (simp add: groups.simps)
next
  case (Cons x xss)
  then show ?case using assms(1) by (subst groups.simps) simp
qed

lemma concat_groups:
  assumes "0 < k" "k dvd length xs"
  shows "concat (groups k xs) = xs" "\<forall>g \<in> set (groups k xs). length g = k"
proof -
  have "concat (groups k xs) = xs \<and> (\<forall>g \<in> set (groups k xs). length g = k)"
    using assms
  proof (induction k xs rule: groups.induct)
    case (1 k xs)
    show ?case
    proof (cases "length xs < k")
      case True
      with 1 have "xs = []" by (auto elim!: dvdE)
      with True show ?thesis by (simp add: groups.simps)
    next
      case False
      have "k dvd length (drop k xs)" using 1(3) False by (simp add: dvd_diff_nat)
      then have "concat (groups k (drop k xs)) = drop k xs \<and> (\<forall>g \<in> set (groups k (drop k xs)). length g = k)"
        using 1(1,2) False by blast
      moreover have "groups k xs = take k xs # groups k (drop k xs)"
        by (rule groups_step) (use False 1(2) in auto)
      moreover have "length (take k xs) = k" using False by (simp add: min_def)
      ultimately show ?thesis by (simp only: concat.simps list.set append_take_drop_id) blast
    qed
  qed
  then show "concat (groups k xs) = xs" "\<forall>g \<in> set (groups k xs). length g = k" by simp_all
qed

section \<open>Base 32\<close>

definition base32_alphabet :: string where "base32_alphabet = ''ABCDEFGHIJKLMNOPQRSTUVWXYZ234567''"

fun index_of :: "'a \<Rightarrow> 'a list \<Rightarrow> nat option" where
  "index_of x [] = None"
| "index_of x (y # ys) = (if x = y then Some 0 else map_option Suc (index_of x ys))"

text \<open>The secret of random bytes, and back; characters outside the alphabet are dropped.\<close>

definition generateSecret :: "8 word list \<Rightarrow> string" where
  "generateSecret bytes = map (\<lambda>g. base32_alphabet ! bits_val g 0) (groups 5 (concat (map (\<lambda>b. bits_of 8 (unat b)) bytes)))"

definition base32Decode :: "string \<Rightarrow> 8 word list" where
  "base32Decode base32 =
     (let clean = filter (\<lambda>c. index_of c base32_alphabet \<noteq> None) (map to_upper base32);
          bits = concat (map (\<lambda>c. bits_of 5 (the (index_of c base32_alphabet))) clean)
      in map (\<lambda>g. word_of_nat (bits_val g 0)) (groups 8 bits))"

lemma index_of_nth: "distinct xs \<Longrightarrow> i < length xs \<Longrightarrow> index_of (xs ! i) xs = Some i"
  by (induction xs arbitrary: i) (auto simp: nth_Cons split: nat.splits)

lemma alphabet_facts:
  "length base32_alphabet = 32" "distinct base32_alphabet" "\<forall>c \<in> set base32_alphabet. to_upper c = c"
  by (simp_all add: base32_alphabet_def to_upper_def)

lemma alphabet_char:
  assumes "v < 32"
  shows "index_of (base32_alphabet ! v) base32_alphabet = Some v" "to_upper (base32_alphabet ! v) = base32_alphabet ! v"
  using assms alphabet_facts index_of_nth [of base32_alphabet v] by auto

text \<open>
  a generated secret is decoded to the random bytes it was made of, if their number is a multiple of five (it
  is twenty).
\<close>

theorem secret_roundtrip:
  assumes "5 dvd length bytes"
  shows "base32Decode (generateSecret bytes) = bytes"
proof -
  let ?bits = "concat (map (\<lambda>b. bits_of 8 (unat b)) bytes)"
  have len: "length ?bits = 8 * length bytes" by (induction bytes) auto
  then have "5 dvd length ?bits" using assms by simp
  note g = concat_groups [OF _ this, simplified]
  have small: "bits_val x 0 < 32" if "x \<in> set (groups 5 ?bits)" for x
    using bits_val_less [of x] g(2) that by auto
  have up: "map to_upper (generateSecret bytes) = generateSecret bytes"
    using small alphabet_char(2) by (auto simp: generateSecret_def)
  have keep: "filter (\<lambda>c. index_of c base32_alphabet \<noteq> None) (generateSecret bytes) = generateSecret bytes"
    using small alphabet_char(1) by (auto simp: generateSecret_def filter_id_conv)
  have "map (\<lambda>c. bits_of 5 (the (index_of c base32_alphabet))) (generateSecret bytes) = groups 5 ?bits"
    unfolding generateSecret_def map_map
  proof (rule map_idI)
    fix x assume x: "x \<in> set (groups 5 ?bits)"
    then show "((\<lambda>c. bits_of 5 (the (index_of c base32_alphabet))) \<circ> (\<lambda>g. base32_alphabet ! bits_val g 0)) x = x"
      using alphabet_char(1) [OF small [OF x]] bits_of_val [of x] g(2) by simp
  qed
  then have bits: "concat (map (\<lambda>c. bits_of 5 (the (index_of c base32_alphabet))) (generateSecret bytes)) = ?bits"
    using g(1) by simp
  have "groups 8 ?bits = map (\<lambda>b. bits_of 8 (unat b)) bytes" by (rule groups_concat) auto
  moreover have "word_of_nat (bits_val (bits_of 8 (unat b)) 0) = b" for b :: "8 word"
  proof -
    have "unat b < 2 ^ LENGTH(8)" by (rule unsigned_less)
    then show ?thesis by (simp add: bits_val_of)
  qed
  ultimately show ?thesis unfolding base32Decode_def Let_def up keep bits by (simp add: o_def)
qed

theorem secret_roundtrip_witness: "base32Decode (generateSecret [1, 2, 3, 254, 255]) = [1, 2, 3, 254, 255]"
  by (rule secret_roundtrip) (simp add: dvd_def, presburger)

section \<open>Codes\<close>

text \<open>A counter as eight bytes, most significant first, and the code of a hash value.\<close>

definition counter_buffer :: "nat \<Rightarrow> 8 word list" where
  "counter_buffer c = map (\<lambda>i. word_of_nat (c div 256 ^ i)) (rev [0..<8])"

definition bin_code :: "8 word list \<Rightarrow> 32 word" where
  "bin_code hmac =
     (let offset = unat (last hmac AND 0x0f);
          byte = (\<lambda>i m. (ucast ((hmac ! (offset + i)) AND m) :: 32 word))
      in push_bit 24 (byte 0 0x7f) OR push_bit 16 (byte 1 0xff) OR push_bit 8 (byte 2 0xff) OR byte 3 0xff)"

definition pad_digits :: "nat \<Rightarrow> nat \<Rightarrow> string" where
  "pad_digits n v = replicate (n - length (show_nat v)) (CHR ''0'') @ show_nat v"

definition hotp :: "(8 word list \<Rightarrow> 8 word list \<Rightarrow> 8 word list) \<Rightarrow> 8 word list \<Rightarrow> nat \<Rightarrow> string" where
  "hotp hmac secret counter = pad_digits 6 (unat (bin_code (hmac secret (counter_buffer counter))) mod 10 ^ 6)"

text \<open>The clock is divided as a number: two roundings before the floor.\<close>

definition currentStep :: "int \<Rightarrow> num" where
  "currentStep now = js_floor (js_div (js_div (of_int now) 1000) 30)"

definition six_digits :: "string \<Rightarrow> bool" where
  "six_digits s \<longleftrightarrow> length s = 6 \<and> list_all is_digit s"

text \<open>
  \<open>verifyToken\<close>: without a secret the decoder throws (\<open>None\<close>), but only for a token of six digits. A step of zero
  would give a negative counter, which the platform refuses; it is the first half minute of 1970.
\<close>

definition verifyToken ::
  "(8 word list \<Rightarrow> 8 word list \<Rightarrow> 8 word list) \<Rightarrow> int \<Rightarrow> string option \<Rightarrow> string option \<Rightarrow> bool option" where
  "verifyToken hmac now secret token =
     (if \<not> truthy_str token \<or> \<not> six_digits (js_trim (the token)) then Some False
      else case secret of
        None \<Rightarrow> None
      | Some s \<Rightarrow>
          let step = \<lfloor>currentStep now\<rfloor>
          in Some (list_ex (\<lambda>delta. hotp hmac (base32Decode s) (nat (step + delta)) = js_trim (the token)) [- 1, 0, 1]))"

definition generateBackupCodes :: "8 word list list \<Rightarrow> string list" where
  "generateBackupCodes rand =
     map (\<lambda>bytes. concat (map (\<lambda>b. [''0123456789ABCDEF'' ! (unat b div 16), ''0123456789ABCDEF'' ! (unat b mod 16)]) bytes)) rand"

section \<open>Their properties\<close>

lemma pad_digits_six: "v < 10 ^ 6 \<Longrightarrow> six_digits (pad_digits 6 v)"
  using show_nat_length [of v 6] show_nat_digits [of v]
  by (auto simp: six_digits_def pad_digits_def list_all_iff is_digit_def)

lemma hotp_six: "six_digits (hotp hmac s c)"
  by (auto simp: hotp_def intro: pad_digits_six)

lemma six_digits_trim: "six_digits s \<Longrightarrow> js_trim s = s"
proof -
  assume "six_digits s"
  then have "\<forall>c \<in> set s. \<not> js_space c" using digit_no_space by (auto simp: six_digits_def list_all_iff)
  then show "js_trim s = s" by (rule js_trim_id)
qed

text \<open>The clock of any date until the year 2200 gives the exact step.\<close>

lemma currentStep_exact:
  assumes "0 \<le> now" "now < 2 ^ 43"
  shows "currentStep now = of_int (now div 30000)"
proof -
  let ?q = "now div 30000" and ?x = "of_int now / 1000 :: rat"
  have q: "0 \<le> ?q" "?q < 2 ^ 29" "30000 * ?q \<le> now" "now < 30000 * (?q + 1)" using assms by simp_all
  have "of_int (30000 * ?q) \<le> (of_int now :: rat)" using q(3) by (rule of_int_le_iff [THEN iffD2])
  then have lo: "of_int (30 * ?q) * 2 powi 0 \<le> ?x" by simp
  have "(of_int now :: rat) \<le> of_int (30000 * (?q + 1) - 1)" using q(4) by (subst of_int_le_iff) simp
  then have hi: "?x \<le> of_int (30720 * (?q + 1) - 1) * 2 powi (- 10)" by (simp add: power_int_minus field_simps)
  have lo': "of_int (30720 * ?q) * 2 powi (- 10) \<le> ?x" using lo by (simp add: power_int_minus)
  have y: "of_int (30720 * ?q) * 2 powi (- 10) \<le> fl ?x \<and> fl ?x \<le> of_int (30720 * (?q + 1) - 1) * 2 powi (- 10)"
    by (rule fl_int_bounds [OF _ _ lo' hi]) (use q in auto)
  have lo2: "of_int (32768 * ?q) * 2 powi (- 15) \<le> fl ?x / 30" using y by (simp add: power_int_minus)
  have hi2: "fl ?x / 30 \<le> of_int (32768 * (?q + 1) - 1) * 2 powi (- 15)" using y by (simp add: power_int_minus field_simps)
  have z: "of_int (32768 * ?q) * 2 powi (- 15) \<le> fl (fl ?x / 30) \<and> fl (fl ?x / 30) \<le> of_int (32768 * (?q + 1) - 1) * 2 powi (- 15)"
    by (rule fl_int_bounds [OF _ _ lo2 hi2]) (use q in auto)
  then have "of_int ?q \<le> fl (fl ?x / 30)" "fl (fl ?x / 30) < of_int ?q + 1"
    by (simp_all add: power_int_minus field_simps)
  then have "\<lfloor>fl (fl ?x / 30)\<rfloor> = ?q" by linarith
  then show ?thesis by (simp add: currentStep_def js_div_def js_floor_def)
qed

lemma verifyToken_iff:
  assumes "0 < now" "now < 2 ^ 43"
  shows "verifyToken hmac now (Some secret) (Some code) = Some True \<longleftrightarrow>
    (\<exists>d \<in> {- 1, 0, 1}. hotp hmac (base32Decode secret) (nat (now div 30000 + d)) = js_trim code)"
proof -
  have e: "code \<noteq> [] \<and> six_digits (js_trim code)" if "six_digits (js_trim code)"
    using that by (auto simp: six_digits_def js_trim_def)
  have "six_digits (js_trim code)" if "hotp hmac (base32Decode secret) c = js_trim code" for c
    using hotp_six that by metis
  with e show ?thesis using assms
    by (auto simp: verifyToken_def truthy_str_def Let_def currentStep_exact)
qed

text \<open>
  a code is accepted exactly in its step and the two beside it: whoever computes the code of the secret at one
  time passes the check at any time up to half a minute later or earlier.
\<close>

theorem fresh_code_accepted:
  assumes "0 < t div 30000" "t < 2 ^ 43" "0 < now div 30000" "now < 2 ^ 43" "\<bar>now - t\<bar> \<le> 30000"
  shows "verifyToken hmac now (Some secret) (Some (hotp hmac (base32Decode secret) (nat \<lfloor>currentStep t\<rfloor>))) = Some True"
proof -
  have "0 \<le> t" "0 \<le> now" using assms(1,3) by linarith+
  then have s: "\<lfloor>currentStep t\<rfloor> = t div 30000" "\<lfloor>currentStep now\<rfloor> = now div 30000"
    using currentStep_exact assms by simp_all
  have "t div 30000 - now div 30000 \<in> {- 1, 0, 1}" using assms(5) by auto
  then have "\<exists>d \<in> {- 1, 0, 1}. now div 30000 + d = t div 30000" by auto
  then show ?thesis
    using hotp_six [of hmac "base32Decode secret" "nat (t div 30000)"]
    by (auto simp: verifyToken_def truthy_str_def six_digits_trim s Let_def six_digits_def)
qed

theorem fresh_code_accepted_witness:
  "verifyToken (\<lambda>s c. replicate 20 7) 1700000010000 (Some ''GEZDGNBV'')
     (Some (hotp (\<lambda>s c. replicate 20 7) (base32Decode ''GEZDGNBV'') (nat \<lfloor>currentStep 1699999985000\<rfloor>))) = Some True"
  by (rule fresh_code_accepted) simp_all

end
