(* ===== verification/PhoneNumber.thy ===== *)
theory PhoneNumber
  imports JsText
begin

text \<open>
  \<open>utils/phone.js\<close>: the deliverable form (E.164) of a number as a user types it. The configured default country
  code is a parameter; its default is the text \<open>254\<close>.
\<close>

text \<open>\<open>/^\+[1-9]\d{7,14}$/\<close>.\<close>

fun e164 :: "string \<Rightarrow> bool" where
  "e164 (p # d # ds) \<longleftrightarrow> p = CHR ''+'' \<and> is_digit d \<and> d \<noteq> CHR ''0'' \<and> list_all is_digit ds \<and> 7 \<le> length ds \<and> length ds \<le> 14"
| "e164 _ \<longleftrightarrow> False"

definition e164_or_none :: "string \<Rightarrow> string option" where
  "e164_or_none s = (if e164 s then Some s else None)"

definition strip_scheme :: "string \<Rightarrow> string" where
  "strip_scheme raw = (if lower_case (take 9 raw) = ''whatsapp:'' then drop 9 raw else raw)"

definition digits_only :: "string \<Rightarrow> string" where "digits_only = filter is_digit"

text \<open>The second argument is the code of the call, the third the configured one.\<close>

definition normalizePhone :: "string option \<Rightarrow> string option \<Rightarrow> string \<Rightarrow> string option" where
  "normalizePhone input callCode default_cc =
     (case input of
        None \<Rightarrow> None
      | Some i \<Rightarrow>
          (let trimmed = js_trim i in
           if trimmed = [] then None
           else let raw = strip_scheme trimmed;
                    hadPlus = prefix ''+'' (dropWhile js_space raw);
                    digits = digits_only raw;
                    cc = digits_only (the (str_or callCode (Some default_cc)))
                in if digits = [] then None
                   else if hadPlus then e164_or_none (CHR ''+'' # digits)
                   else if prefix ''00'' digits then e164_or_none (CHR ''+'' # drop 2 digits)
                   else if cc \<noteq> [] then
                     e164_or_none (CHR ''+'' # cc @ (if prefix ''0'' digits then dropWhile (\<lambda>c. c = CHR ''0'') digits else digits))
                   else e164_or_none (CHR ''+'' # digits)))"

definition isValidPhone :: "string option \<Rightarrow> string option \<Rightarrow> string \<Rightarrow> bool" where
  "isValidPhone input callCode default_cc \<longleftrightarrow> normalizePhone input callCode default_cc \<noteq> None"

lemma e164_or_none_iff: "e164_or_none s = Some r \<longleftrightarrow> e164 s \<and> r = s"
  by (auto simp: e164_or_none_def)

lemma normalize_e164: "normalizePhone input callCode cc = Some r \<Longrightarrow> e164 r"
  by (auto simp: normalizePhone_def Let_def e164_or_none_iff split: option.splits if_splits)

lemma e164_shape: "e164 s \<Longrightarrow> \<exists>ds. s = CHR ''+'' # ds \<and> ds \<noteq> [] \<and> list_all is_digit ds"
  by (cases s rule: e164.cases) auto

lemma digits_only_digits: "list_all is_digit ds \<Longrightarrow> digits_only ds = ds"
  by (simp add: digits_only_def filter_id_conv list_all_iff)

lemma plus_facts: "\<not> is_digit (CHR ''+'')" "\<not> js_space (CHR ''+'')" "to_lower (CHR ''+'') = CHR ''+''"
  by (simp_all add: is_digit_def js_space_def to_lower_def)

lemma normalize_plus:
  assumes "list_all is_digit ds" "ds \<noteq> []"
  shows "normalizePhone (Some (CHR ''+'' # ds)) callCode cc = e164_or_none (CHR ''+'' # ds)"
proof -
  have "js_trim (CHR ''+'' # ds) = CHR ''+'' # ds"
    using assms(1) digit_no_space plus_facts by (intro js_trim_id) (auto simp: list_all_iff)
  moreover have "strip_scheme (CHR ''+'' # ds) = CHR ''+'' # ds"
    by (simp add: strip_scheme_def lower_case_def plus_facts)
  moreover have "digits_only (CHR ''+'' # ds) = ds"
    using digits_only_digits [OF assms(1)] plus_facts by (simp add: digits_only_def)
  ultimately show ?thesis using assms plus_facts by (simp add: normalizePhone_def Let_def)
qed

text \<open>
  what the normalization stores is deliverable, and normalizing a stored number again, under any country code,
  changes nothing.
\<close>

theorem phone_normal_form:
  assumes "normalizePhone input callCode cc = Some r"
  shows "e164 r \<and> normalizePhone (Some r) callCode' cc' = Some r"
proof -
  have r: "e164 r" using assms by (rule normalize_e164)
  then obtain ds where "r = CHR ''+'' # ds" "ds \<noteq> []" "list_all is_digit ds" using e164_shape by blast
  with r show ?thesis by (simp add: normalize_plus e164_or_none_def)
qed

theorem phone_normal_form_witness:
  "normalizePhone (Some ''+254712345678'') None ''254'' = Some ''+254712345678''"
proof -
  have "normalizePhone (Some ''0712 345 678'') None ''254'' = Some ''+254712345678''"
    by (simp add: normalizePhone_def js_trim_def js_space_def strip_scheme_def lower_case_def to_lower_def
        digits_only_def is_digit_def e164_or_none_def Let_def)
  from phone_normal_form [OF this] show ?thesis by blast
qed

text \<open>The three spellings of a national number agree: as dialled, with the exit code, and with the plus sign.\<close>

lemma normalize_digits:
  assumes "list_all is_digit ds" "ds \<noteq> []"
  shows "normalizePhone (Some ds) None cc =
     (if prefix ''00'' ds then e164_or_none (CHR ''+'' # drop 2 ds)
      else if digits_only cc \<noteq> [] then e164_or_none (CHR ''+'' # digits_only cc @ (if prefix ''0'' ds then dropWhile (\<lambda>c. c = CHR ''0'') ds else ds))
      else e164_or_none (CHR ''+'' # ds))"
proof -
  have "js_trim ds = ds" using assms(1) digit_no_space by (intro js_trim_id) (auto simp: list_all_iff)
  moreover have "lower_case (take 9 ds) \<noteq> ''whatsapp:''"
    using assms by (cases ds) (auto simp: lower_case_def to_lower_def is_digit_def split: if_splits)
  then have "strip_scheme ds = ds" by (simp add: strip_scheme_def)
  moreover have "\<not> prefix ''+'' (dropWhile js_space ds)"
    using assms digit_no_space plus_facts(1) by (cases ds) auto
  ultimately show ?thesis using assms by (simp add: normalizePhone_def Let_def digits_only_digits)
qed

theorem phone_spellings_agree:
  assumes "list_all is_digit cc" "cc \<noteq> []" "list_all is_digit n" "n \<noteq> []" "hd n \<noteq> CHR ''0''"
  shows "normalizePhone (Some (CHR ''0'' # n)) None cc = normalizePhone (Some (CHR ''+'' # cc @ n)) None cc"
    and "normalizePhone (Some (''00'' @ cc @ n)) None cc = normalizePhone (Some (CHR ''+'' # cc @ n)) None cc"
proof -
  have z: "is_digit (CHR ''0'')" by (simp add: is_digit_def)
  have d: "dropWhile (\<lambda>c. c = CHR ''0'') n = n" using assms(4,5) by (cases n) auto
  have np: "\<not> prefix ''00'' (CHR ''0'' # n)" using assms(4,5) by (cases n) auto
  have plus: "normalizePhone (Some (CHR ''+'' # cc @ n)) None cc = e164_or_none (CHR ''+'' # cc @ n)"
    using assms by (intro normalize_plus) auto
  have "normalizePhone (Some (CHR ''0'' # n)) None cc = e164_or_none (CHR ''+'' # cc @ n)"
    using assms z d np by (subst normalize_digits) (simp_all add: digits_only_digits)
  with plus show "normalizePhone (Some (CHR ''0'' # n)) None cc = normalizePhone (Some (CHR ''+'' # cc @ n)) None cc" by simp
  have "normalizePhone (Some (''00'' @ cc @ n)) None cc = e164_or_none (CHR ''+'' # cc @ n)"
    using assms z by (subst normalize_digits) simp_all
  with plus show "normalizePhone (Some (''00'' @ cc @ n)) None cc = normalizePhone (Some (CHR ''+'' # cc @ n)) None cc" by simp
qed

text \<open>
  C0: a number typed with its country code but without the plus sign gets the code a second time: the spelling
  \<open>254712345678\<close>, one the file names, is stored as another, valid looking number.
\<close>

theorem country_code_doubled:
  assumes "list_all is_digit cc" "cc \<noteq> []" "hd cc \<noteq> CHR ''0''" "list_all is_digit n" "2 * length cc + length n \<le> 15" "8 \<le> length n"
  shows "normalizePhone (Some (cc @ n)) None cc = Some (CHR ''+'' # cc @ cc @ n)
     \<and> normalizePhone (Some (CHR ''+'' # cc @ n)) None cc = Some (CHR ''+'' # cc @ n)"
proof -
  obtain d ds where cc: "cc = d # ds" "is_digit d" "d \<noteq> CHR ''0''" "list_all is_digit ds" using assms(1-3) by (cases cc) auto
  have "e164 (CHR ''+'' # cc @ cc @ n)" "e164 (CHR ''+'' # cc @ n)" using assms(4-6) cc by auto
  moreover have "\<not> prefix ''0'' (cc @ n)" "\<not> prefix ''00'' (cc @ n)" using cc by auto
  ultimately show ?thesis
    using assms normalize_digits [of "cc @ n" cc] normalize_plus [of "cc @ n" None cc] by (simp add: digits_only_digits e164_or_none_def)
qed

theorem country_code_doubled_witness:
  "normalizePhone (Some ''254712345678'') None ''254'' = Some ''+254254712345678''"
  using country_code_doubled [of "''254''" "''712345678''"] by (simp add: is_digit_def)

end
