(* ===== verification/AuthController.thy ===== *)
theory AuthController
  imports Sessions Totp PhoneNumber WalletSignature
begin

text \<open>
  \<open>controllers/authController.js\<close>: registration with a referral code, login behind the lock of an account and the
  second factor, the session token and its cookie, the link of a wallet, and the handlers that end or renew a
  session, behind the guard of \<open>routes/auth.js\<close>. Password hashes, token signatures, address decoding and the parsing
  of dates are libraries and parameters; each handler is one atomic step.
\<close>

record ctl_env =
  ct_auth :: auth_env
  ct_hash :: "string \<Rightarrow> string"
  ct_compare :: "string \<Rightarrow> string \<Rightarrow> bool"
  ct_hmac :: "8 word list \<Rightarrow> 8 word list \<Rightarrow> 8 word list"
  ct_sign :: "int \<Rightarrow> string \<Rightarrow> string \<Rightarrow> string \<Rightarrow> int \<Rightarrow> string"
  ct_jti :: string
  ct_ttlMin :: int
  ct_newId :: string
  ct_phoneCc :: string
  ct_badge :: "string \<Rightarrow> bool"
  ct_bech32 :: "string \<Rightarrow> (string \<times> nat option) option"
  ct_parseDate :: "string \<Rightarrow> int option"
  ct_testMode :: bool
  ct_sigLib :: sig_lib
  ct_chainPrefix :: string

abbreviation ct_now :: "ctl_env \<Rightarrow> int" where "ct_now en \<equiv> au_now (ct_auth en)"
abbreviation ct_up :: "ctl_env \<Rightarrow> redis_call \<Rightarrow> bool" where "ct_up en \<equiv> au_up (ct_auth en)"

section \<open>The lock of an account\<close>

definition failed_login_limit :: int where "failed_login_limit = 10"
definition failed_login_window :: int where "failed_login_window = 15 * 60"

text \<open>The seconds until the next attempt, when the account is locked; a failed read leaves it open.\<close>

definition checkAccountLock :: "ctl_env \<Rightarrow> string \<Rightarrow> auth_world \<Rightarrow> int option" where
  "checkAccountLock en i W =
     (if \<not> ct_up en ReadLock then None
      else case key_get (ct_now en) i (failedLogins W) of
        None \<Rightarrow> None
      | Some count \<Rightarrow>
          if count \<ge> failed_login_limit then
            (if \<not> ct_up en ReadLockTtl then None
             else let ttl = key_ttl (ct_now en) i (failedLogins W)
                  in Some (if ttl > 0 then ttl else failed_login_window))
          else None)"

definition recordFailedLogin :: "ctl_env \<Rightarrow> string \<Rightarrow> auth_world \<Rightarrow> auth_world" where
  "recordFailedLogin en i W =
     (if \<not> ct_up en IncrFailed then W
      else let (count, s) = key_incr (ct_now en) i (failedLogins W)
           in W\<lparr>failedLogins := if count = 1 \<and> ct_up en ExpireFailed then key_expire (ct_now en) i failed_login_window s else s\<rparr>)"

definition clearFailedLogins :: "ctl_env \<Rightarrow> string \<Rightarrow> auth_world \<Rightarrow> auth_world" where
  "clearFailedLogins en i W = (if \<not> ct_up en DeleteFailed then W else W\<lparr>failedLogins := key_del i (failedLogins W)\<rparr>)"

section \<open>The second factor\<close>

datatype two_factor = TwoFactorOk | TwoFactorRequired | TwoFactorInvalid | TwoFactorThrows

definition find_settings :: "string \<Rightarrow> auth_world \<Rightarrow> user_settings option" where
  "find_settings u W = coll_find (\<lambda>s. us_user s = u) (user_settings W)"

definition save_settings :: "user_settings \<Rightarrow> auth_world \<Rightarrow> auth_world" where
  "save_settings s W = W\<lparr>user_settings := coll_put us_user s (user_settings W)\<rparr>"

text \<open>The first hash the code opens is removed.\<close>

fun spend_code :: "(string \<Rightarrow> bool) \<Rightarrow> string list \<Rightarrow> string list option" where
  "spend_code opens [] = None"
| "spend_code opens (h # hs) = (if opens h then Some hs else map_option ((#) h) (spend_code opens hs))"

definition checkTwoFactor :: "ctl_env \<Rightarrow> string \<Rightarrow> string option \<Rightarrow> auth_world \<Rightarrow> two_factor \<times> auth_world" where
  "checkTwoFactor en u otp W =
     (case find_settings u W of
        None \<Rightarrow> (TwoFactorOk, W)
      | Some st \<Rightarrow>
          if \<not> us_twoFactorEnabled st then (TwoFactorOk, W)
          else if \<not> truthy_str otp then (TwoFactorRequired, W)
          else case verifyToken (ct_hmac en) (ct_now en) (us_secret st) otp of
            None \<Rightarrow> (TwoFactorThrows, W)
          | Some True \<Rightarrow> (TwoFactorOk, W)
          | Some False \<Rightarrow>
              let hashes = (case us_backupHashes st of None \<Rightarrow> [] | Some hs \<Rightarrow> hs)
              in case spend_code (ct_compare en (upper_case (js_trim (the otp)))) hashes of
                   Some left \<Rightarrow> (TwoFactorOk, save_settings (st\<lparr>us_backupHashes := Some left\<rparr>) W)
                 | None \<Rightarrow> (TwoFactorInvalid, W))"

section \<open>Tokens and the public view\<close>

text \<open>Without a configured secret the signature throws.\<close>

definition signToken :: "ctl_env \<Rightarrow> account \<Rightarrow> (string \<times> int) option" where
  "signToken en a =
     (if \<not> au_secret (ct_auth en) then None
      else Some (ct_sign en (ct_now en) (ac_id a) (the (str_or (ac_username a) (Some (ac_email a)))) (ct_jti en) (ct_ttlMin en),
                 ct_now en div 1000 + ct_ttlMin en * 60))"

record public_user =
  pu_id :: string
  pu_email :: string
  pu_name :: "string option"
  pu_username :: "string option"
  pu_phone :: "string option"
  pu_wallet :: "string option"
  pu_role :: role
  pu_creator_level :: num
  pu_mlpts :: num
  pu_mallcoin :: num
  pu_streak :: num
  pu_tasks :: num
  pu_rank :: num
  pu_strikes :: num
  pu_fraud :: fraud_status
  pu_banned :: bool
  pu_kycLevel :: num
  pu_created :: int
  pu_hasBadge :: bool

definition toPublicUser :: "account \<Rightarrow> public_user" where
  "toPublicUser a = \<lparr>pu_id = ac_id a, pu_email = ac_email a, pu_name = str_or (ac_name a) None,
     pu_username = str_or (ac_username a) None, pu_phone = str_or (ac_phone a) None, pu_wallet = str_or (ac_wallet a) None,
     pu_role = ac_role a, pu_creator_level = ac_creator_level a, pu_mlpts = ac_mlpts_balance a,
     pu_mallcoin = ac_mallcoin_balance a, pu_streak = ac_streak_count a, pu_tasks = ac_tasks_completed a,
     pu_rank = ac_rank_points a, pu_strikes = ac_fraud_strikes a, pu_fraud = ac_fraud_status a, pu_banned = ac_banned a,
     pu_kycLevel = (if ac_kycLevel a = 0 then 1 else ac_kycLevel a), pu_created = ac_createdAt a, pu_hasBadge = False\<rparr>"

definition normalizeUsername :: "string option \<Rightarrow> string" where
  "normalizeUsername u = lower_case (js_trim (the (str_or u (Some []))))"

definition normalizeEmail :: "string option \<Rightarrow> string" where
  "normalizeEmail e = lower_case (js_trim (the (str_or e (Some []))))"

definition makeSyntheticEmail :: "string \<Rightarrow> string" where
  "makeSyntheticEmail u = u @ ''@mines.mallchain.local''"

datatype auth_resp =
    AuthSession string int public_user
  | AuthMissing | EmailExists | UsernameExists | BadUsername | AccountLocked int | InvalidCredentials | UseOAuth
  | NeedsCode | WrongCode | AuthThrows | GoogleSession string | NoGoogle

section \<open>Registration\<close>

definition referral_bonus :: num where "referral_bonus = 10"

definition new_account :: "ctl_env \<Rightarrow> string \<Rightarrow> account" where
  "new_account en email = \<lparr>ac_id = ct_newId en, ac_email = email, ac_password = None, ac_googleId = None, ac_role = RoleUser,
     ac_banned = False, ac_banReason = None, ac_name = None, ac_username = None, ac_phone = None, ac_creator_level = 0,
     ac_wallet = None, ac_mlpts_balance = 0, ac_mallcoin_balance = 0, ac_streak_count = 0, ac_tasks_completed = 0,
     ac_rank_points = 0, ac_fraud_strikes = 0, ac_fraud_status = FraudClear, ac_kycLevel = 1, ac_referralCode = None,
     ac_referredBy = None, ac_referralEarnings = 0, ac_referralCount = 0, ac_referralClaimed = 0, ac_lastLoginAt = None,
     ac_createdAt = ct_now en, ac_erasedAt = None\<rparr>"

definition find_by :: "(account \<Rightarrow> bool) \<Rightarrow> auth_world \<Rightarrow> account option" where
  "find_by p W = coll_find p (accounts W)"

text \<open>\<open>User.create\<close>: the e-mail address is unique, a second account with it throws.\<close>

definition insert_account :: "account \<Rightarrow> auth_world \<Rightarrow> auth_world option" where
  "insert_account a W =
     (if find_by (\<lambda>b. ac_email b = ac_email a) W \<noteq> None then None else Some (W\<lparr>accounts := accounts W @ [a]\<rparr>))"

definition own_referral_code :: "string \<Rightarrow> string" where
  "own_referral_code i = upper_case (''MALL-'' @ drop (length i - 8) i)"

text \<open>
  The code of the new account is the end of its id; the codes are unique, so a collision throws after the account
  was stored. \<open>$inc\<close> adds in the database.
\<close>

definition assignReferralCode :: "account \<Rightarrow> string option \<Rightarrow> auth_world \<Rightarrow> account option \<times> auth_world" where
  "assignReferralCode a input W =
     (let referrer = (if truthy_str input
            then find_by (\<lambda>b. ac_referralCode b = Some (upper_case (js_trim (the input)))) W else None);
          a' = a\<lparr>ac_referredBy := map_option ac_id referrer, ac_referralCode := Some (own_referral_code (ac_id a))\<rparr>
      in if find_by (\<lambda>b. ac_referralCode b = ac_referralCode a' \<and> ac_id b \<noteq> ac_id a) W \<noteq> None then (None, W)
         else let W1 = store_account a' W
              in (Some a',
                  case referrer of
                    None \<Rightarrow> W1
                  | Some r \<Rightarrow>
                      (case account_of (ac_id r) W1 of
                         None \<Rightarrow> W1
                       | Some r' \<Rightarrow> store_account (r'\<lparr>ac_referralCount := js_add (ac_referralCount r') 1,
                             ac_referralEarnings := js_add (ac_referralEarnings r') referral_bonus\<rparr>) W1)))"

definition with_session :: "ctl_env \<Rightarrow> account \<Rightarrow> auth_world \<Rightarrow> auth_resp \<times> auth_world" where
  "with_session en a W =
     (case signToken en a of
        None \<Rightarrow> (AuthThrows, W)
      | Some (tok, expiresAt) \<Rightarrow> (AuthSession tok expiresAt (toPublicUser a), W))"

definition finish_registration :: "ctl_env \<Rightarrow> account \<Rightarrow> string option \<Rightarrow> auth_world \<Rightarrow> auth_resp \<times> auth_world" where
  "finish_registration en a referralCode W =
     (case insert_account a W of
        None \<Rightarrow> (AuthThrows, W)
      | Some W1 \<Rightarrow>
          (case assignReferralCode a referralCode W1 of
             (None, W2) \<Rightarrow> (AuthThrows, W2)
           | (Some a', W2) \<Rightarrow> with_session en a' W2))"

record auth_body =
  bd_email :: "string option"
  bd_username :: "string option"
  bd_password :: "string option"
  bd_otp :: "string option"
  bd_referralCode :: "string option"
  bd_phone :: "string option"

definition register :: "ctl_env \<Rightarrow> auth_body \<Rightarrow> auth_world \<Rightarrow> auth_resp \<times> auth_world" where
  "register en b W =
     (let email = normalizeEmail (bd_email b) in
      if email = [] \<or> \<not> truthy_str (bd_password b) then (AuthMissing, W)
      else if find_by (\<lambda>a. ac_email a = email) W \<noteq> None then (EmailExists, W)
      else finish_registration en
             ((new_account en email)\<lparr>ac_password := Some (ct_hash en (the (bd_password b))),
                ac_phone := normalizePhone (bd_phone b) None (ct_phoneCc en)\<rparr>) (bd_referralCode b) W)"

definition valid_username :: "string \<Rightarrow> bool" where
  "valid_username u \<longleftrightarrow> 3 \<le> length u \<and> length u \<le> 32 \<and>
     list_all (\<lambda>c. is_digit c \<or> (97 \<le> (of_char c :: nat) \<and> (of_char c :: nat) \<le> 122) \<or> c = CHR ''_'') u"

definition registerUsername :: "ctl_env \<Rightarrow> auth_body \<Rightarrow> auth_world \<Rightarrow> auth_resp \<times> auth_world" where
  "registerUsername en b W =
     (let username = normalizeUsername (bd_username b) in
      if username = [] \<or> \<not> truthy_str (bd_password b) then (AuthMissing, W)
      else if \<not> valid_username username then (BadUsername, W)
      else if find_by (\<lambda>a. ac_username a = Some username) W \<noteq> None then (UsernameExists, W)
      else if find_by (\<lambda>a. ac_email a = makeSyntheticEmail username) W \<noteq> None then (UsernameExists, W)
      else finish_registration en
             ((new_account en (makeSyntheticEmail username))\<lparr>ac_username := Some username,
                ac_password := Some (ct_hash en (the (bd_password b))),
                ac_phone := normalizePhone (bd_phone b) None (ct_phoneCc en)\<rparr>) (bd_referralCode b) W)"

section \<open>Login\<close>

text \<open>What both logins do after looking the account up under \<open>i\<close>.\<close>

definition login_account :: "ctl_env \<Rightarrow> string \<Rightarrow> account option \<Rightarrow> string \<Rightarrow> string option \<Rightarrow> auth_world \<Rightarrow> auth_resp \<times> auth_world" where
  "login_account en i found password otp W =
     (case found of
        None \<Rightarrow> (InvalidCredentials, recordFailedLogin en i W)
      | Some a \<Rightarrow>
          if \<not> truthy_str (ac_password a) then (UseOAuth, W)
          else if \<not> ct_compare en password (the (ac_password a)) then (InvalidCredentials, recordFailedLogin en i W)
          else case checkTwoFactor en (ac_id a) otp W of
            (TwoFactorRequired, W1) \<Rightarrow> (NeedsCode, W1)
          | (TwoFactorInvalid, W1) \<Rightarrow> (WrongCode, W1)
          | (TwoFactorThrows, W1) \<Rightarrow> (AuthThrows, W1)
          | (TwoFactorOk, W1) \<Rightarrow>
              let a' = a\<lparr>ac_lastLoginAt := Some (ct_now en)\<rparr>
              in with_session en a' (store_account a' (clearFailedLogins en i W1)))"

definition login :: "ctl_env \<Rightarrow> auth_body \<Rightarrow> auth_world \<Rightarrow> auth_resp \<times> auth_world" where
  "login en b W =
     (let email = normalizeEmail (bd_email b) in
      if email = [] \<or> \<not> truthy_str (bd_password b) then (AuthMissing, W)
      else case checkAccountLock en email W of
        Some secs \<Rightarrow> (AccountLocked secs, W)
      | None \<Rightarrow> login_account en email (find_by (\<lambda>a. ac_email a = email) W) (the (bd_password b)) (bd_otp b) W)"

definition loginUsername :: "ctl_env \<Rightarrow> auth_body \<Rightarrow> auth_world \<Rightarrow> auth_resp \<times> auth_world" where
  "loginUsername en b W =
     (let username = normalizeUsername (bd_username b) in
      if username = [] \<or> \<not> truthy_str (bd_password b) then (AuthMissing, W)
      else case checkAccountLock en username W of
        Some secs \<Rightarrow> (AccountLocked secs, W)
      | None \<Rightarrow> login_account en username (find_by (\<lambda>a. ac_username a = Some username) W) (the (bd_password b)) (bd_otp b) W)"

section \<open>The profile, the wallet and the external login\<close>

datatype me_resp = MeMissing | MeInvalid | MeNoUser | MeUser public_user "int option"

text \<open>This route verifies the token itself; it asks neither the revocations nor the ban.\<close>

definition me_token :: "request \<Rightarrow> string option" where
  "me_token rq =
     (if truthy_str (rq_authorization rq) then
        (case split_spaces (the (rq_authorization rq)) of _ # t # _ \<Rightarrow> Some t | _ \<Rightarrow> None)
      else rq_cookie rq)"

definition me :: "ctl_env \<Rightarrow> request \<Rightarrow> auth_world \<Rightarrow> me_resp" where
  "me en rq W =
     (if \<not> truthy_str (me_token rq) then MeMissing
      else if \<not> au_secret (ct_auth en) then MeInvalid
      else case au_verify (ct_auth en) (ct_now en) (the (me_token rq)) of
        None \<Rightarrow> MeInvalid
      | Some c \<Rightarrow>
          if \<not> au_dbUp (ct_auth en) then MeInvalid
          else case Option.bind (claimed_user c) (\<lambda>u. account_of u W) of
            None \<Rightarrow> MeNoUser
          | Some a \<Rightarrow> MeUser ((toPublicUser a)\<lparr>pu_hasBadge := truthy_str (ac_wallet a) \<and> ct_badge en (the (ac_wallet a))\<rparr>)
                        (cl_exp c))"

definition link_max_age :: int where "link_max_age = 10 * 60 * 1000"
definition consumed_ttl :: int where "consumed_ttl = 60 * 60"

record link_body =
  lb_address :: string
  lb_timestamp :: "string option"
  lb_pubKey :: "string option"
  lb_signature :: "string option"

datatype link_resp =
    LinkBadAddress | LinkThrows | LinkUnsigned | LinkExpired | LinkReused | LinkBadSignature | LinkNoUser | Linked string

text \<open>
  The decoder gives the prefix and, unless the conversion to bytes throws, the number of bytes.
  The signature is marked as used, by its first 128 characters, before it is verified; a Redis that does not
  answer lets it pass.
\<close>

definition linkWallet :: "ctl_env \<Rightarrow> string \<Rightarrow> link_body \<Rightarrow> auth_world \<Rightarrow> link_resp \<times> auth_world" where
  "linkWallet en u b W =
     (if map_option fst (ct_bech32 en (lb_address b)) \<noteq> Some ''mall'' then (LinkBadAddress, W)
      else if snd (the (ct_bech32 en (lb_address b))) = None then (LinkThrows, W)
      else if snd (the (ct_bech32 en (lb_address b))) \<noteq> Some 20 then (LinkBadAddress, W)
      else if \<not> truthy_str (lb_timestamp b) \<or> \<not> truthy_str (lb_pubKey b) \<or> \<not> truthy_str (lb_signature b) then (LinkUnsigned, W)
      else case ct_parseDate en (the (lb_timestamp b)) of
        None \<Rightarrow> (LinkExpired, W)
      | Some signedAt \<Rightarrow>
          if \<bar>ct_now en - signedAt\<bar> > link_max_age then (LinkExpired, W)
          else let (free, W1) =
                 (if ct_testMode en \<or> \<not> ct_up en WriteLinkSignature then (True, W)
                  else let (r, s) = key_set_nx (ct_now en) (take 128 (the (lb_signature b))) () consumed_ttl (linkSignatures W)
                       in (r, W\<lparr>linkSignatures := s\<rparr>))
               in if \<not> free then (LinkReused, W1)
                  else if \<not> verifyLinkWalletSignature (ct_sigLib en) (lb_address b) (the (lb_timestamp b)) (the (lb_pubKey b))
                             (the (lb_signature b)) (ct_chainPrefix en) then (LinkBadSignature, W1)
                  else case account_of u W1 of
                    None \<Rightarrow> (LinkNoUser, W1)
                  | Some a \<Rightarrow> (Linked (lb_address b), store_account (a\<lparr>ac_wallet := Some (lb_address b)\<rparr>) W1))"

text \<open>The external login knows an account by its Google id only.\<close>

definition googleCallback :: "ctl_env \<Rightarrow> string \<Rightarrow> string option \<Rightarrow> string option \<Rightarrow> auth_world \<Rightarrow> auth_resp \<times> auth_world" where
  "googleCallback en gid mail state W =
     (case find_by (\<lambda>a. ac_googleId a = Some gid) W of
        Some a \<Rightarrow> (case signToken en a of None \<Rightarrow> (AuthThrows, W) | Some (tok, _) \<Rightarrow> (GoogleSession tok, W))
      | None \<Rightarrow>
          (let email = normalizeEmail (str_or mail (Some (gid @ ''@google'')));
               a = (new_account en email)\<lparr>ac_googleId := Some gid\<rparr>
           in case insert_account a W of
                None \<Rightarrow> (AuthThrows, W)
              | Some W1 \<Rightarrow>
                  (case assignReferralCode a state W1 of
                     (None, W2) \<Rightarrow> (AuthThrows, W2)
                   | (Some a', W2) \<Rightarrow>
                       (case signToken en a' of None \<Rightarrow> (AuthThrows, W2) | Some (tok, _) \<Rightarrow> (GoogleSession tok, W2)))))"

section \<open>Ending and renewing a session\<close>

definition revoke_rest :: "ctl_env \<Rightarrow> claims \<Rightarrow> auth_world \<Rightarrow> auth_world" where
  "revoke_rest en c W =
     (case cl_exp c of
        None \<Rightarrow> W
      | Some e \<Rightarrow> if truthy_str (cl_jti c) \<and> e \<noteq> 0 then revokeToken (ct_auth en) (cl_jti c) (e - ct_now en div 1000) W else W)"

definition logout :: "ctl_env \<Rightarrow> session \<Rightarrow> auth_world \<Rightarrow> auth_world" where
  "logout en s W = revoke_rest en (se_payload s) W"

text \<open>The new token is signed first; without a secret nothing is revoked.\<close>

definition refresh :: "ctl_env \<Rightarrow> session \<Rightarrow> auth_world \<Rightarrow> (string \<times> int) option \<times> auth_world" where
  "refresh en s W =
     (case signToken en (se_user s) of
        None \<Rightarrow> (None, W)
      | Some t \<Rightarrow> (Some t, revoke_rest en (se_payload s) W))"

definition logoutEverywhere :: "ctl_env \<Rightarrow> session \<Rightarrow> auth_world \<Rightarrow> auth_world" where
  "logoutEverywhere en s W = revokeAllUserTokens (ct_auth en) (ac_id (se_user s)) W"

text \<open>The routes: the guard, then the handler.\<close>

definition guarded ::
  "ctl_env \<Rightarrow> request \<Rightarrow> (session \<Rightarrow> auth_world \<Rightarrow> 'r \<times> auth_world) \<Rightarrow> auth_world \<Rightarrow> (auth_error + 'r) \<times> auth_world" where
  "guarded en rq h W =
     (case requireAuth (ct_auth en) None rq W of
        (Inl e, W1) \<Rightarrow> (Inl e, W1)
      | (Inr s, W1) \<Rightarrow> (case h s W1 of (r, W2) \<Rightarrow> (Inr r, W2)))"

definition postLogout :: "ctl_env \<Rightarrow> request \<Rightarrow> auth_world \<Rightarrow> (auth_error + session) \<times> auth_world" where
  "postLogout en rq = guarded en rq (\<lambda>s W. (s, logout en s W))"

definition postRefresh :: "ctl_env \<Rightarrow> request \<Rightarrow> auth_world \<Rightarrow> (auth_error + (string \<times> int) option) \<times> auth_world" where
  "postRefresh en rq = guarded en rq (refresh en)"

definition postLogoutEverywhere :: "ctl_env \<Rightarrow> request \<Rightarrow> auth_world \<Rightarrow> (auth_error + session) \<times> auth_world" where
  "postLogoutEverywhere en rq = guarded en rq (\<lambda>s W. (s, logoutEverywhere en s W))"

definition postLinkWallet :: "ctl_env \<Rightarrow> request \<Rightarrow> link_body \<Rightarrow> auth_world \<Rightarrow> (auth_error + link_resp) \<times> auth_world" where
  "postLinkWallet en rq b = guarded en rq (\<lambda>s. linkWallet en (ac_id (se_user s)) b)"

end
