(* ===== verification/SecuritySettings.thy ===== *)
theory SecuritySettings
  imports AuthController
begin

text \<open>
  The security part of \<open>routes/settings.js\<close>: enrolling, enabling and disabling the second factor, the change of the
  password, and the general routes that write the same document. Every route stands behind the guard; the
  session's user id is the argument of the handlers.
\<close>

section \<open>The document\<close>

definition default_settings :: "string \<Rightarrow> user_settings" where
  "default_settings u = \<lparr>us_user = u, us_twoFactorEnabled = False, us_enabledAt = None, us_disabledAt = None,
     us_pendingSecret = None, us_secret = None, us_backupHashes = None\<rparr>"

definition getOrCreateSettings :: "string \<Rightarrow> auth_world \<Rightarrow> user_settings \<times> auth_world" where
  "getOrCreateSettings u W =
     (case find_settings u W of
        Some st \<Rightarrow> (st, W)
      | None \<Rightarrow> (default_settings u, W\<lparr>user_settings := user_settings W @ [default_settings u]\<rparr>))"

text \<open>The fields of the document's security part a request may carry; the other parts of the body are not security.\<close>

record security_patch =
  sp_enabled :: "bool option"
  sp_pendingSecret :: "string option"
  sp_secret :: "string option"
  sp_backupHashes :: "string list option"

definition assign_security :: "security_patch \<Rightarrow> user_settings \<Rightarrow> user_settings" where
  "assign_security p st = st\<lparr>us_twoFactorEnabled := (case sp_enabled p of None \<Rightarrow> us_twoFactorEnabled st | Some b \<Rightarrow> b),
     us_pendingSecret := nullish (sp_pendingSecret p) (us_pendingSecret st), us_secret := nullish (sp_secret p) (us_secret st),
     us_backupHashes := nullish (sp_backupHashes p) (us_backupHashes st)\<rparr>"

section \<open>General routes\<close>

text \<open>\<open>PUT /\<close>, \<open>PUT /security\<close> (the flag is on its list of allowed fields), \<open>POST /reset\<close>, \<open>POST /import\<close>.\<close>

definition putSettings :: "string \<Rightarrow> security_patch option \<Rightarrow> auth_world \<Rightarrow> auth_world" where
  "putSettings u body W =
     (let (st, W1) = getOrCreateSettings u W
      in save_settings (case body of None \<Rightarrow> st | Some p \<Rightarrow> assign_security p st) W1)"

definition putSecurity :: "string \<Rightarrow> bool option \<Rightarrow> auth_world \<Rightarrow> auth_world" where
  "putSecurity u enabled W =
     (let (st, W1) = getOrCreateSettings u W
      in save_settings (case enabled of None \<Rightarrow> st | Some b \<Rightarrow> st\<lparr>us_twoFactorEnabled := b\<rparr>) W1)"

definition resetSettings :: "string \<Rightarrow> auth_world \<Rightarrow> auth_world" where
  "resetSettings u W = snd (getOrCreateSettings u (W\<lparr>user_settings := filter (\<lambda>s. us_user s \<noteq> u) (user_settings W)\<rparr>))"

text \<open>The imported security part replaces the stored one; what it does not name is gone.\<close>

definition importSettings :: "string \<Rightarrow> security_patch option \<Rightarrow> auth_world \<Rightarrow> bool \<times> auth_world" where
  "importSettings u incoming W =
     (case incoming of
        None \<Rightarrow> (False, W)
      | Some p \<Rightarrow> (True, W\<lparr>user_settings := list_upsert us_user
            ((default_settings u)\<lparr>us_twoFactorEnabled := (sp_enabled p = Some True), us_pendingSecret := sp_pendingSecret p,
               us_secret := sp_secret p, us_backupHashes := sp_backupHashes p\<rparr>) (user_settings W)\<rparr>))"

section \<open>The second factor\<close>

datatype two_fa_resp = TwoFaSecret string | TwoFaNoSetup | TwoFaBadCode | TwoFaEnabled "string list" | TwoFaNotEnabled | TwoFaDisabled | TwoFaError

text \<open>A new secret waits until a code of it was shown. The random bytes are arguments.\<close>

definition setup2fa :: "8 word list \<Rightarrow> string \<Rightarrow> auth_world \<Rightarrow> two_fa_resp \<times> auth_world" where
  "setup2fa rand u W =
     (let (st, W1) = getOrCreateSettings u W; secret = generateSecret rand
      in (TwoFaSecret secret, save_settings (st\<lparr>us_pendingSecret := Some secret\<rparr>) W1))"

definition enable2fa :: "ctl_env \<Rightarrow> 8 word list list \<Rightarrow> string \<Rightarrow> string option \<Rightarrow> auth_world \<Rightarrow> two_fa_resp \<times> auth_world" where
  "enable2fa en rand u code W =
     (case find_settings u W of
        None \<Rightarrow> (TwoFaNoSetup, W)
      | Some st \<Rightarrow>
          if \<not> truthy_str (us_pendingSecret st) then (TwoFaNoSetup, W)
          else if verifyToken (ct_hmac en) (ct_now en) (us_pendingSecret st) code \<noteq> Some True then (TwoFaBadCode, W)
          else let codes = generateBackupCodes rand
               in (TwoFaEnabled codes, save_settings (st\<lparr>us_secret := us_pendingSecret st, us_pendingSecret := None,
                     us_backupHashes := Some (map (ct_hash en) codes), us_twoFactorEnabled := True,
                     us_enabledAt := Some (ct_now en)\<rparr>) W))"

definition disable2fa :: "ctl_env \<Rightarrow> string \<Rightarrow> string option \<Rightarrow> auth_world \<Rightarrow> two_fa_resp \<times> auth_world" where
  "disable2fa en u code W =
     (case find_settings u W of
        None \<Rightarrow> (TwoFaNotEnabled, W)
      | Some st \<Rightarrow>
          if \<not> us_twoFactorEnabled st then (TwoFaNotEnabled, W)
          else if \<not> truthy_str code then (TwoFaBadCode, W)
          else case verifyToken (ct_hmac en) (ct_now en) (us_secret st) code of
            None \<Rightarrow> (TwoFaError, W)
          | Some valid \<Rightarrow>
              if valid \<or> list_ex (\<lambda>h. ct_compare en (upper_case (js_trim (the code))) h)
                   (case us_backupHashes st of None \<Rightarrow> [] | Some hs \<Rightarrow> hs)
              then (TwoFaDisabled, save_settings (st\<lparr>us_twoFactorEnabled := False, us_disabledAt := Some (ct_now en),
                      us_secret := None, us_backupHashes := None\<rparr>) W)
              else (TwoFaBadCode, W))"

section \<open>The password\<close>

datatype password_resp = PwMissing | PwWeak | PwNoPassword | PwWrong | PwChanged

definition strong_password :: "string \<Rightarrow> bool" where
  "strong_password p \<longleftrightarrow> 8 \<le> length p \<and> list_ex (\<lambda>c. 65 \<le> (of_char c :: nat) \<and> (of_char c :: nat) \<le> 90) p
     \<and> list_ex (\<lambda>c. 97 \<le> (of_char c :: nat) \<and> (of_char c :: nat) \<le> 122) p \<and> list_ex is_digit p"

definition changePassword :: "ctl_env \<Rightarrow> string \<Rightarrow> string option \<Rightarrow> string option \<Rightarrow> auth_world \<Rightarrow> password_resp \<times> auth_world" where
  "changePassword en u current new W =
     (if \<not> truthy_str current \<or> \<not> truthy_str new then (PwMissing, W)
      else if \<not> strong_password (the new) then (PwWeak, W)
      else case account_of u W of
        None \<Rightarrow> (PwNoPassword, W)
      | Some a \<Rightarrow>
          if \<not> truthy_str (ac_password a) then (PwNoPassword, W)
          else if \<not> ct_compare en (the current) (the (ac_password a)) then (PwWrong, W)
          else (PwChanged, store_account (a\<lparr>ac_password := Some (ct_hash en (the new))\<rparr>) W))"

end
