(* ===== verification/AdminUsers.thy ===== *)
theory AdminUsers
  imports SecuritySettings
begin

text \<open>
  The accounts part of \<open>routes/adminPanel.js\<close>: the first superadmin, the role, the ban and the deletion of an
  account, behind the guards of \<open>middleware/adminAuth.js\<close>. The notification to the account is left out; the audit
  trail is written best effort, except by the first of these routes, which answers an error when it cannot.
\<close>

definition auditLog :: "auth_env \<Rightarrow> string \<Rightarrow> string \<Rightarrow> auth_world \<Rightarrow> auth_world" where
  "auditLog en action actor W = (if au_auditUp en then W\<lparr>auditTrail := auditTrail W @ [(action, actor)]\<rparr> else W)"

datatype admin_resp =
    AdminExists | AdminMissingFields | AdminEmailTaken | AdminCreated account | AdminServerError
  | AdminBadRole | AdminNoUser | AdminPermanent | AdminDone account

text \<open>The address is stored and looked up as it was sent.\<close>

definition bootstrap :: "ctl_env \<Rightarrow> string option \<Rightarrow> string option \<Rightarrow> auth_world \<Rightarrow> admin_resp \<times> auth_world" where
  "bootstrap en email password W =
     (if find_by (\<lambda>a. ac_role a \<noteq> RoleUser) W \<noteq> None then (AdminExists, W)
      else if \<not> truthy_str email \<or> \<not> truthy_str password then (AdminMissingFields, W)
      else if find_by (\<lambda>a. ac_email a = the email) W \<noteq> None then (AdminEmailTaken, W)
      else let a = (new_account en (the email))\<lparr>ac_password := Some (ct_hash en (the password)), ac_role := RoleSuperadmin\<rparr>
           in case insert_account a W of
                None \<Rightarrow> (AdminServerError, W)
              | Some W1 \<Rightarrow>
                  if \<not> au_auditUp (ct_auth en) then (AdminServerError, W1)
                  else (AdminCreated (a\<lparr>ac_password := None\<rparr>), auditLog (ct_auth en) ''admin_bootstrap'' (the email) W1))"

definition putRole :: "auth_env \<Rightarrow> session \<Rightarrow> string \<Rightarrow> role option \<Rightarrow> auth_world \<Rightarrow> admin_resp \<times> auth_world" where
  "putRole en s i r W =
     (case r of
        None \<Rightarrow> (AdminBadRole, W)
      | Some r' \<Rightarrow>
          (case account_of i W of
             None \<Rightarrow> (AdminNoUser, W)
           | Some a \<Rightarrow>
               if ac_role a = RoleSuperadmin \<and> r' \<noteq> RoleSuperadmin then (AdminPermanent, W)
               else let a' = a\<lparr>ac_role := r'\<rparr>
                    in (AdminDone (a'\<lparr>ac_password := None\<rparr>),
                        auditLog en ''user_role_change'' (ac_email (se_user s)) (invalidateCachedUser en i (store_account a' W)))))"

definition putBan :: "auth_env \<Rightarrow> session \<Rightarrow> string \<Rightarrow> bool \<Rightarrow> string option \<Rightarrow> auth_world \<Rightarrow> admin_resp \<times> auth_world" where
  "putBan en s i banned reason W =
     (case account_of i W of
        None \<Rightarrow> (AdminNoUser, W)
      | Some a \<Rightarrow>
          let a' = a\<lparr>ac_banned := banned, ac_banReason := (if banned then str_or reason (Some ''Banned by admin'') else Some [])\<rparr>
          in (AdminDone (a'\<lparr>ac_password := None\<rparr>),
              auditLog en ''user_ban'' (ac_email (se_user s)) (invalidateCachedUser en i (store_account a' W))))"

definition deleteUser :: "auth_env \<Rightarrow> session \<Rightarrow> string \<Rightarrow> auth_world \<Rightarrow> admin_resp \<times> auth_world" where
  "deleteUser en s i W =
     (case account_of i W of
        None \<Rightarrow> (AdminNoUser, W)
      | Some a \<Rightarrow>
          (AdminDone (a\<lparr>ac_password := None\<rparr>),
           auditLog en ''user_delete'' (ac_email (se_user s))
             (invalidateCachedUser en i (W\<lparr>accounts := filter (\<lambda>b. ac_id b \<noteq> i) (accounts W)\<rparr>))))"

text \<open>
  The routes: all of them pass the guard for administrators, the role and the deletion the one for superadmins
  after it.
\<close>

definition admin_guarded ::
  "auth_env \<Rightarrow> request \<Rightarrow> (session \<Rightarrow> auth_world \<Rightarrow> 'r \<times> auth_world) \<Rightarrow> auth_world \<Rightarrow> (auth_error + 'r) \<times> auth_world" where
  "admin_guarded en rq h W =
     (case requireAuth en (Some RoleAdmin) rq W of
        (Inl e, W1) \<Rightarrow> (Inl e, W1)
      | (Inr s, W1) \<Rightarrow> (case h s W1 of (r, W2) \<Rightarrow> (Inr r, W2)))"

definition superadmin_guarded ::
  "auth_env \<Rightarrow> request \<Rightarrow> (session \<Rightarrow> auth_world \<Rightarrow> 'r \<times> auth_world) \<Rightarrow> auth_world \<Rightarrow> (auth_error + 'r) \<times> auth_world" where
  "superadmin_guarded en rq h W =
     (case requireAuth en (Some RoleAdmin) rq W of
        (Inl e, W1) \<Rightarrow> (Inl e, W1)
      | (Inr _, W1) \<Rightarrow>
          (case requireAuth en (Some RoleSuperadmin) rq W1 of
             (Inl e, W2) \<Rightarrow> (Inl e, W2)
           | (Inr s, W2) \<Rightarrow> (case h s W2 of (r, W3) \<Rightarrow> (Inr r, W3))))"

definition putUserRole where "putUserRole en rq i r = superadmin_guarded en rq (\<lambda>s. putRole en s i r)"
definition putUserBan where "putUserBan en rq i b reason = admin_guarded en rq (\<lambda>s. putBan en s i b reason)"
definition deleteUserRoute where "deleteUserRoute en rq i = superadmin_guarded en rq (\<lambda>s. deleteUser en s i)"

section \<open>A server with two accounts\<close>

definition demo_claims :: "string \<Rightarrow> claims" where
  "demo_claims u = \<lparr>cl_userId = Some u, cl_id = None, cl_username = Some u, cl_jti = Some (''jti-'' @ u), cl_iat = Some 3,
     cl_exp = Some 7203\<rparr>"

definition demo_verify :: "int \<Rightarrow> string \<Rightarrow> claims option" where
  "demo_verify t tok = (if tok \<in> {''u1'', ''root''} \<and> t div 1000 < 7203 then Some (demo_claims tok) else None)"

definition demo_auth :: "int \<Rightarrow> auth_env" where
  "demo_auth t = \<lparr>au_now = t, au_test = False, au_secret = True, au_verify = demo_verify, au_csrf = CsrfPass,
     au_up = (\<lambda>_. True), au_dbUp = True, au_auditUp = True\<rparr>"

definition demo_ctl :: "int \<Rightarrow> ctl_env" where
  "demo_ctl t = \<lparr>ct_auth = demo_auth t, ct_hash = (\<lambda>p. ''#'' @ p), ct_compare = (\<lambda>p h. h = ''#'' @ p),
     ct_hmac = (\<lambda>s c. replicate 20 7), ct_sign = (\<lambda>_ u _ _ _. u), ct_jti = ''jti-new'', ct_ttlMin = 120,
     ct_newId = ''0123456789abcdef'', ct_phoneCc = ''254'', ct_badge = (\<lambda>_. False), ct_bech32 = (\<lambda>a. Some (take 4 a, Some 20)),
     ct_parseDate = (\<lambda>_. Some t), ct_testMode = False,
     ct_sigLib = \<lparr>sl_fromBase64 = (\<lambda>s. Some s), sl_digest = (\<lambda>_ _. None), sl_verify = (\<lambda>_ _ _. None), sl_address = (\<lambda>_ _. None)\<rparr>,
     ct_chainPrefix = ''mall''\<rparr>"

definition demo_user :: "string \<Rightarrow> role \<Rightarrow> account" where
  "demo_user u r = (new_account (demo_ctl 0) (u @ ''@x.y''))\<lparr>ac_id := u, ac_role := r, ac_password := Some ''#secret''\<rparr>"

definition demo_auth_world :: auth_world where
  "demo_auth_world = \<lparr>accounts = [demo_user ''u1'' RoleUser, demo_user ''root'' RoleSuperadmin], user_settings = [],
     failedLogins = (\<lambda>_. None), deniedTokens = (\<lambda>_. None), deniedUsers = (\<lambda>_. None), cachedUsers = (\<lambda>_. None),
     activeDays = (\<lambda>_. None), linkSignatures = (\<lambda>_. None), auditTrail = []\<rparr>"

definition bearer :: "string \<Rightarrow> request" where
  "bearer tok = \<lparr>rq_authorization = Some (''Bearer '' @ tok), rq_cookie = None\<rparr>"

lemma bearer_token: "request_token (bearer ''u1'') = Inr (''u1'', BearerAuth)" "request_token (bearer ''root'') = Inr (''root'', BearerAuth)"
  by (simp_all add: request_token_def bearer_def truthy_str_def)

lemma demo_sessions:
  assumes "tok \<in> {''u1'', ''root''}" "t < 7203000" "r = None \<or> tok = ''root''"
  shows "\<exists>W. requireAuth (demo_auth t) r (bearer tok) demo_auth_world
     = (Inr \<lparr>se_user = (demo_user tok (if tok = ''root'' then RoleSuperadmin else RoleUser))\<lparr>ac_password := None\<rparr>,
         se_payload = demo_claims tok, se_method = BearerAuth\<rparr>, W)"
  using assms bearer_token
  by (auto simp: requireAuth_def demo_auth_def demo_verify_def demo_claims_def isRevoked_def denied_user_def claimed_user_def
      demo_auth_world_def key_get_def session_account_def getCachedUser_def account_of_def demo_user_def new_account_def
      role_error_def truthy_str_def Let_def)

end
