(* ===== verification/SessionSafety.thy ===== *)
theory SessionSafety
  imports AdminUsers
begin

text \<open>
  The sessions as a whole: one step relation over every handler that writes accounts, settings, the list of
  revoked tokens or the cache, runs of it under a clock that does not go back, and what holds of every run: a
  revoked token stays revoked, a ban reaches every session within the life of the cache, accounts stay unique.
\<close>

section \<open>What the handlers leave alone\<close>

definition quiet :: "auth_world \<Rightarrow> auth_world \<Rightarrow> bool" where
  "quiet W W' \<longleftrightarrow> deniedTokens W' = deniedTokens W \<and> deniedUsers W' = deniedUsers W \<and> cachedUsers W' = cachedUsers W"

named_theorems quiet_intros

lemma quiet_refl [quiet_intros]: "quiet W W" by (simp add: quiet_def)

lemma quiet_trans: "quiet W W1 \<Longrightarrow> quiet W1 W2 \<Longrightarrow> quiet W W2" by (simp add: quiet_def)

lemma quiet_updates [quiet_intros]:
  "quiet W (store_account a W)" "quiet W (save_settings st W)" "quiet W (recordFailedLogin en i W)"
  "quiet W (clearFailedLogins en i W)" "quiet W (W\<lparr>accounts := as\<rparr>)" "quiet W (auditLog e x y W)"
  by (simp_all add: quiet_def store_account_def save_settings_def recordFailedLogin_def clearFailedLogins_def auditLog_def
      split: prod.splits)

lemma quiet_two_factor: "checkTwoFactor en u otp W = (x, W') \<Longrightarrow> quiet W W'"
  by (auto simp: checkTwoFactor_def Let_def quiet_def save_settings_def split: option.splits if_splits bool.splits)

lemma quiet_with_session: "with_session en a W = (x, W') \<Longrightarrow> quiet W W'"
  by (auto simp: with_session_def quiet_def split: option.splits)

lemma quiet_assign: "assignReferralCode a c W = (x, W') \<Longrightarrow> quiet W W'"
  by (auto simp: assignReferralCode_def Let_def quiet_def store_account_def split: option.splits if_splits)

lemma quiet_create: "insert_account a W = Some W' \<Longrightarrow> quiet W W'"
  by (auto simp: insert_account_def quiet_def split: if_splits)

lemma quiet_finish: "finish_registration en a c W = (x, W') \<Longrightarrow> quiet W W'"
  by (auto simp: finish_registration_def quiet_refl split: option.splits prod.splits
      dest!: quiet_create quiet_assign quiet_with_session intro: quiet_trans)

lemma quiet_register: "register en b W = (x, W') \<Longrightarrow> quiet W W'"
  by (auto simp: register_def Let_def quiet_refl split: if_splits dest: quiet_finish)

lemma quiet_registerUsername: "registerUsername en b W = (x, W') \<Longrightarrow> quiet W W'"
  by (auto simp: registerUsername_def Let_def quiet_refl split: if_splits dest: quiet_finish)

lemma quiet_login_account:
  assumes "login_account en i f p otp W = (x, W')"
  shows "quiet W W'"
proof -
  have s: "quiet W1 W'" if "with_session en a (store_account a (clearFailedLogins en i W1)) = (x, W')" for a W1
    using that quiet_with_session quiet_updates(1,4) quiet_trans by metis
  show ?thesis
    using assms
    by (auto simp: login_account_def Let_def quiet_intros split: option.splits if_splits prod.splits two_factor.splits
        dest!: s quiet_two_factor intro: quiet_trans)
qed

lemma quiet_login: "login en b W = (x, W') \<Longrightarrow> quiet W W'"
  by (auto simp: login_def Let_def quiet_refl split: if_splits option.splits dest: quiet_login_account)

lemma quiet_loginUsername: "loginUsername en b W = (x, W') \<Longrightarrow> quiet W W'"
  by (auto simp: loginUsername_def Let_def quiet_refl split: if_splits option.splits dest: quiet_login_account)

lemma quiet_google: "googleCallback en g m s W = (x, W') \<Longrightarrow> quiet W W'"
  by (auto simp: googleCallback_def Let_def quiet_refl split: option.splits prod.splits
      dest!: quiet_create quiet_assign intro: quiet_trans)

lemma quiet_link: "linkWallet en u b W = (x, W') \<Longrightarrow> quiet W W'"
  by (auto simp: linkWallet_def Let_def quiet_def store_account_def split: option.splits if_splits prod.splits)

lemma quiet_settings:
  "quiet W (putSettings u p W)" "quiet W (putSecurity u e W)" "quiet W (resetSettings u W)"
  "importSettings u q W = (x, W') \<Longrightarrow> quiet W W'" "setup2fa r u W = (y, W') \<Longrightarrow> quiet W W'"
  "enable2fa en rr u c W = (y, W') \<Longrightarrow> quiet W W'" "disable2fa en u c W = (y, W') \<Longrightarrow> quiet W W'"
  by (auto simp: putSettings_def putSecurity_def resetSettings_def importSettings_def setup2fa_def enable2fa_def
      disable2fa_def getOrCreateSettings_def save_settings_def quiet_def Let_def split: option.splits if_splits)

lemma quiet_password: "changePassword en u c n W = (x, W') \<Longrightarrow> quiet W W'"
  by (auto simp: changePassword_def quiet_intros split: option.splits if_splits)

lemma quiet_bootstrap: "bootstrap en e p W = (x, W') \<Longrightarrow> quiet W W'"
  by (auto simp: bootstrap_def Let_def quiet_refl quiet_intros split: option.splits if_splits
      dest!: quiet_create intro: quiet_trans)

lemmas quiet_handlers = quiet_register quiet_registerUsername quiet_google quiet_login quiet_loginUsername
  quiet_settings(4-7) quiet_password quiet_bootstrap

section \<open>Steps\<close>

text \<open>
  A step at time \<open>t\<close>, with \<open>V\<close> the verification of tokens under the secret of the server. The administrators lift
  the bans of the accounts in \<open>U\<close> only, and delete no other; the ids of new accounts are fresh.
\<close>

definition env_at :: "(int \<Rightarrow> string \<Rightarrow> claims option) \<Rightarrow> int \<Rightarrow> auth_env \<Rightarrow> bool" where
  "env_at V t en \<longleftrightarrow> au_verify en = V \<and> au_now en = t"

definition fresh_id :: "ctl_env \<Rightarrow> auth_world \<Rightarrow> bool" where
  "fresh_id en W \<longleftrightarrow> account_of (ct_newId en) W = None"

inductive auth_step ::
  "(int \<Rightarrow> string \<Rightarrow> claims option) \<Rightarrow> string set \<Rightarrow> int \<Rightarrow> auth_world \<Rightarrow> auth_world \<Rightarrow> bool" for V U t where
  st_guard: "env_at V t en \<Longrightarrow> requireAuth en r rq W = (x, W') \<Longrightarrow> auth_step V U t W W'"
| st_register: "env_at V t (ct_auth en) \<Longrightarrow> fresh_id en W \<Longrightarrow> register en b W = (x1, W') \<Longrightarrow> auth_step V U t W W'"
| st_registerUsername: "env_at V t (ct_auth en) \<Longrightarrow> fresh_id en W \<Longrightarrow> registerUsername en b W = (x1, W') \<Longrightarrow> auth_step V U t W W'"
| st_google: "env_at V t (ct_auth en) \<Longrightarrow> fresh_id en W \<Longrightarrow> googleCallback en g m st W = (x1, W') \<Longrightarrow> auth_step V U t W W'"
| st_login: "env_at V t (ct_auth en) \<Longrightarrow> login en b W = (x1, W') \<Longrightarrow> auth_step V U t W W'"
| st_loginUsername: "env_at V t (ct_auth en) \<Longrightarrow> loginUsername en b W = (x1, W') \<Longrightarrow> auth_step V U t W W'"
| st_logout: "env_at V t (ct_auth en) \<Longrightarrow> postLogout en rq W = (x2, W') \<Longrightarrow> auth_step V U t W W'"
| st_refresh: "env_at V t (ct_auth en) \<Longrightarrow> postRefresh en rq W = (x3, W') \<Longrightarrow> auth_step V U t W W'"
| st_everywhere: "env_at V t (ct_auth en) \<Longrightarrow> postLogoutEverywhere en rq W = (x2, W') \<Longrightarrow> auth_step V U t W W'"
| st_link: "env_at V t (ct_auth en) \<Longrightarrow> postLinkWallet en rq lb W = (x4, W') \<Longrightarrow> auth_step V U t W W'"
| st_settings: "auth_step V U t W (putSettings u p W)"
| st_security: "auth_step V U t W (putSecurity u e W)"
| st_reset: "auth_step V U t W (resetSettings u W)"
| st_import: "importSettings u p W = (y, W') \<Longrightarrow> auth_step V U t W W'"
| st_setup: "setup2fa r1 u W = (x5, W') \<Longrightarrow> auth_step V U t W W'"
| st_enable: "env_at V t (ct_auth en) \<Longrightarrow> enable2fa en r2 u c W = (x5, W') \<Longrightarrow> auth_step V U t W W'"
| st_disable: "env_at V t (ct_auth en) \<Longrightarrow> disable2fa en u c W = (x5, W') \<Longrightarrow> auth_step V U t W W'"
| st_password: "env_at V t (ct_auth en) \<Longrightarrow> changePassword en u c c' W = (x6, W') \<Longrightarrow> auth_step V U t W W'"
| st_bootstrap: "env_at V t (ct_auth en) \<Longrightarrow> fresh_id en W \<Longrightarrow> bootstrap en c c' W = (x7, W') \<Longrightarrow> auth_step V U t W W'"
| st_role: "env_at V t ae \<Longrightarrow> putUserRole ae rq u ro W = (x8, W') \<Longrightarrow> auth_step V U t W W'"
| st_ban: "env_at V t ae \<Longrightarrow> ban \<or> u \<in> U \<Longrightarrow> putUserBan ae rq u ban c W = (x8, W') \<Longrightarrow> auth_step V U t W W'"
| st_delete: "env_at V t ae \<Longrightarrow> u \<in> U \<Longrightarrow> deleteUserRoute ae rq u W = (x8, W') \<Longrightarrow> auth_step V U t W W'"

inductive auth_run ::
  "(int \<Rightarrow> string \<Rightarrow> claims option) \<Rightarrow> string set \<Rightarrow> int \<Rightarrow> auth_world \<Rightarrow> int \<Rightarrow> auth_world \<Rightarrow> bool" for V U t0 W0 where
  run_start: "t0 \<le> t \<Longrightarrow> auth_run V U t0 W0 t W0"
| run_step: "auth_run V U t0 W0 t1 W1 \<Longrightarrow> t1 \<le> t2 \<Longrightarrow> auth_step V U t2 W1 W2 \<Longrightarrow> t2 \<le> t3 \<Longrightarrow> auth_run V U t0 W0 t3 W2"

section \<open>What a step does to the sessions\<close>

text \<open>The three kinds of writes: a token of the list, a user of the list, the cache.\<close>

definition token_write :: "(int \<Rightarrow> string \<Rightarrow> claims option) \<Rightarrow> int \<Rightarrow> auth_world \<Rightarrow> auth_world \<Rightarrow> bool" where
  "token_write V t W W' \<longleftrightarrow> deniedTokens W' = deniedTokens W \<or>
     (\<exists>tok c j e. V t tok = Some c \<and> cl_jti c = Some j \<and> cl_exp c = Some e
        \<and> deniedTokens W' = key_set t j () (e - t div 1000) (deniedTokens W))"

definition user_write :: "int \<Rightarrow> auth_world \<Rightarrow> auth_world \<Rightarrow> bool" where
  "user_write t W W' \<longleftrightarrow> deniedUsers W' = deniedUsers W \<or>
     (\<exists>u. deniedUsers W' = key_set t u t user_denylist_ttl (deniedUsers W))"

text \<open>The cache is cleared of a user, or takes accounts as they are stored at that time.\<close>

inductive cache_write :: "int \<Rightarrow> (string \<Rightarrow> account option) \<Rightarrow> (string, account) keyspace \<Rightarrow> (string, account) keyspace \<Rightarrow> bool"
  for t F C where
  cw_same: "cache_write t F C C"
| cw_set: "cache_write t F C C' \<Longrightarrow> F u = Some a \<Longrightarrow> cache_write t F C (key_set t u (a\<lparr>ac_password := None\<rparr>) cache_ttl C')"
| cw_del: "cache_write t F C C' \<Longrightarrow> cache_write t F C (key_del u C')"

lemma guard_writes:
  assumes "requireAuth en r rq W = (x, W')" "env_at V t en"
  shows "deniedTokens W' = deniedTokens W" "deniedUsers W' = deniedUsers W"
    "cache_write t (\<lambda>u. account_of u W) (cachedUsers W) (cachedUsers W')" "accounts W' = accounts W"
  using requireAuth_frame [OF assms(1)] requireAuth_cache [OF assms(1)] assms(2) cw_same cw_set [OF cw_same]
  by (auto simp: env_at_def)

lemma guarded_cases:
  assumes "guarded en rq h W = (x, W')"
  obtains y W1 where "requireAuth (ct_auth en) None rq W = (y, W1)" "W' = W1"
  | s W1 r where "requireAuth (ct_auth en) None rq W = (Inr s, W1)" "h s W1 = (r, W')"
  using assms by (auto simp: guarded_def split: prod.splits sum.splits)

lemma admin_guarded_cases:
  assumes "admin_guarded en rq h W = (x, W')"
  obtains y W1 where "requireAuth en (Some RoleAdmin) rq W = (y, W1)" "W' = W1"
  | s W1 r where "requireAuth en (Some RoleAdmin) rq W = (Inr s, W1)" "h s W1 = (r, W')"
  using assms by (auto simp: admin_guarded_def split: prod.splits sum.splits)

lemma superadmin_guarded_cases:
  assumes "superadmin_guarded en rq h W = (x, W')"
  obtains y W1 where "requireAuth en (Some RoleAdmin) rq W = (y, W1)" "W' = W1"
  | y z W1 W2 where "requireAuth en (Some RoleAdmin) rq W = (y, W1)" "requireAuth en (Some RoleSuperadmin) rq W1 = (z, W2)" "W' = W2"
  | y s W1 W2 r where "requireAuth en (Some RoleAdmin) rq W = (y, W1)"
      "requireAuth en (Some RoleSuperadmin) rq W1 = (Inr s, W2)" "h s W2 = (r, W')"
  using assms by (auto simp: superadmin_guarded_def split: prod.splits sum.splits)

lemma cache_write_trans:
  assumes "cache_write t F C C1" "cache_write t F C1 C2"
  shows "cache_write t F C C2"
  using assms(2,1) by induction (auto intro: cache_write.intros)

text \<open>A handler behind the guard that is quiet, or clears the cache of a user.\<close>

definition admin_quiet :: "int \<Rightarrow> auth_world \<Rightarrow> auth_world \<Rightarrow> bool" where
  "admin_quiet t W W' \<longleftrightarrow> deniedTokens W' = deniedTokens W \<and> deniedUsers W' = deniedUsers W
     \<and> (cachedUsers W' = cachedUsers W \<or> (\<exists>u. cachedUsers W' = key_del u (cachedUsers W)))"

lemma quiet_admin: "quiet W W' \<Longrightarrow> admin_quiet t W W'" by (simp add: quiet_def admin_quiet_def)

lemma admin_quiet_handlers:
  "putRole en s i r W = (x, W') \<Longrightarrow> admin_quiet t W W'" "putBan en s i b c W = (x, W') \<Longrightarrow> admin_quiet t W W'"
  "deleteUser en s i W = (x, W') \<Longrightarrow> admin_quiet t W W'"
  by (auto simp: putRole_def putBan_def deleteUser_def admin_quiet_def auditLog_def invalidateCachedUser_def
      store_account_def Let_def split: option.splits if_splits)

definition session_writes :: "(int \<Rightarrow> string \<Rightarrow> claims option) \<Rightarrow> int \<Rightarrow> auth_world \<Rightarrow> auth_world \<Rightarrow> bool" where
  "session_writes V t W W' \<longleftrightarrow> token_write V t W W' \<and> user_write t W W'
     \<and> cache_write t (\<lambda>u. account_of u W) (cachedUsers W) (cachedUsers W')"

lemma writes_quiet: "quiet W W' \<Longrightarrow> session_writes V t W W'"
  by (simp add: quiet_def session_writes_def token_write_def user_write_def cw_same)

lemma writes_guard: "requireAuth en r rq W = (x, W') \<Longrightarrow> env_at V t en \<Longrightarrow> session_writes V t W W'"
  using guard_writes by (simp add: session_writes_def token_write_def user_write_def)

lemma writes_then_quiet:
  assumes "session_writes V t W W1" "admin_quiet t W1 W'"
  shows "session_writes V t W W'"
  using assms cw_del by (auto simp: session_writes_def admin_quiet_def token_write_def user_write_def)

lemma writes_guarded_quiet:
  assumes "guarded en rq h W = (x, W')" "env_at V t (ct_auth en)" "\<And>s W1 r W2. h s W1 = (r, W2) \<Longrightarrow> quiet W1 W2"
  shows "session_writes V t W W'"
  using assms(1)
  by (cases rule: guarded_cases) (use assms(2,3) writes_guard writes_then_quiet quiet_admin in metis)+

lemma writes_revoke:
  assumes "requireAuth (ct_auth en) None rq W = (Inr s, W1)" "env_at V t (ct_auth en)"
  shows "session_writes V t W (revoke_rest en (se_payload s) W1)"
proof -
  obtain tok where v: "V t tok = Some (se_payload s)" using assms by (auto elim!: requireAuth_ok simp: env_at_def)
  have g: "session_writes V t W W1" using writes_guard assms by blast
  let ?W' = "revoke_rest en (se_payload s) W1"
  have "deniedTokens ?W' = deniedTokens W1 \<or> (\<exists>j e. cl_jti (se_payload s) = Some j \<and> cl_exp (se_payload s) = Some e
      \<and> deniedTokens ?W' = key_set t j () (e - t div 1000) (deniedTokens W1))"
    using assms(2) by (auto simp: revoke_rest_def revokeToken_def env_at_def truthy_str_def split: option.splits)
  moreover have "deniedTokens W1 = deniedTokens W" using guard_writes(1) assms by blast
  ultimately have "token_write V t W ?W'" using v by (auto simp: token_write_def)
  moreover have "deniedUsers ?W' = deniedUsers W1" "cachedUsers ?W' = cachedUsers W1"
    by (simp_all add: revoke_rest_def revokeToken_def split: option.splits)
  ultimately show ?thesis using g by (simp add: session_writes_def user_write_def)
qed

lemma writes_superadmin:
  assumes "superadmin_guarded en rq h W = (x, W')" "env_at V t en" "\<And>s W1 r W2. h s W1 = (r, W2) \<Longrightarrow> admin_quiet t W1 W2"
  shows "session_writes V t W W'"
proof -
  have two: "session_writes V t W W2"
    if "requireAuth en (Some RoleAdmin) rq W = (y, W1)" "requireAuth en (Some RoleSuperadmin) rq W1 = (z, W2)" for y z W1 W2
    using guard_writes [OF that(1) assms(2)] guard_writes [OF that(2) assms(2)] cache_write_trans
    by (auto simp: session_writes_def token_write_def user_write_def account_of_def)
  from assms(1) show ?thesis
    by (cases rule: superadmin_guarded_cases) (use two writes_guard assms(2,3) writes_then_quiet in metis)+
qed

lemma step_writes:
  assumes "auth_step V U t W W'"
  shows "session_writes V t W W'"
  using assms
proof cases
  case (st_logout en rq x)
  from st_logout(2) [unfolded postLogout_def] show ?thesis
    by (cases rule: guarded_cases) (use st_logout(1) writes_guard writes_revoke in \<open>auto simp: logout_def\<close>)
next
  case (st_refresh en rq x)
  from st_refresh(2) [unfolded postRefresh_def] show ?thesis
    by (cases rule: guarded_cases)
      (use st_refresh(1) writes_guard writes_revoke in \<open>auto simp: refresh_def split: option.splits\<close>)
next
  case (st_everywhere en rq x)
  from st_everywhere(2) [unfolded postLogoutEverywhere_def] show ?thesis
  proof (cases rule: guarded_cases)
    case (2 s W1 r)
    have g: "session_writes V t W W1" "deniedUsers W1 = deniedUsers W" "deniedTokens W1 = deniedTokens W"
      using writes_guard [OF 2(1) st_everywhere(1)] requireAuth_frame [OF 2(1)] by simp_all
    from 2(2) st_everywhere(1) have "W' = W1 \<or> W' = W1\<lparr>deniedUsers := key_set t (ac_id (se_user s)) t user_denylist_ttl (deniedUsers W1)\<rparr>"
      by (auto simp: logoutEverywhere_def revokeAllUserTokens_def env_at_def)
    with g show ?thesis by (auto simp: session_writes_def token_write_def user_write_def)
  qed (use st_everywhere(1) writes_guard in blast)
next
  case (st_link en rq lb x)
  with writes_guarded_quiet quiet_link show ?thesis unfolding postLinkWallet_def by blast
next
  case (st_role ae rq u ro x)
  then show ?thesis unfolding putUserRole_def by (auto intro: writes_superadmin admin_quiet_handlers(1))
next
  case (st_delete ae u rq x)
  then show ?thesis unfolding deleteUserRoute_def by (auto intro: writes_superadmin admin_quiet_handlers(3))
next
  case (st_ban ae ban u rq c x)
  from st_ban(3) [unfolded putUserBan_def] show ?thesis
    by (cases rule: admin_guarded_cases)
      (use st_ban(1) writes_guard writes_then_quiet admin_quiet_handlers(2) in \<open>(metis (no_types, lifting))+\<close>)
qed (auto intro: writes_guard dest: quiet_handlers [THEN writes_quiet] simp: quiet_settings(1-3) [THEN writes_quiet])

section \<open>Revoked tokens stay revoked\<close>

text \<open>
  The ids of tokens are unique: whatever token carries the id \<open>j\<close>, it ends at \<open>e\<close>. Then the entry of the list
  outlives the token, also when it is written again.
\<close>

definition token_ends :: "(int \<Rightarrow> string \<Rightarrow> claims option) \<Rightarrow> string \<Rightarrow> int \<Rightarrow> bool" where
  "token_ends V j e \<longleftrightarrow> (\<forall>u tok c. V u tok = Some c \<longrightarrow> cl_jti c = Some j \<longrightarrow> cl_exp c = Some e \<and> u div 1000 < e)"

lemma run_denied:
  assumes "auth_run V U t0 W0 t W" "keys.held_until (1000 * e) j (deniedTokens W0)"
    and "token_ends V j e"
  shows "keys.held_until (1000 * e) j (deniedTokens W)"
  using assms(1)
proof induction
  case (run_step t1 W1 t2 W2 t3)
  from step_writes [OF run_step(3)] have "token_write V t2 W1 W2" by (simp add: session_writes_def)
  then show ?case unfolding token_write_def
  proof (elim disjE exE conjE)
    fix tok c j' x
    assume c: "V t2 tok = Some c" "cl_jti c = Some j'" "cl_exp c = Some x"
      and w: "deniedTokens W2 = key_set t2 j' () (x - t2 div 1000) (deniedTokens W1)"
    show ?thesis
    proof (cases "j' = j")
      case True
      with c assms(3) have "x = e" by (auto simp: token_ends_def)
      then have "1000 * e \<le> t2 + 1000 * (x - t2 div 1000)" by (simp add: algebra_simps)
      with True w show ?thesis by (simp add: keys.held_until_put)
    next
      case False
      with w run_step.IH show ?thesis by (simp add: keys.held_until_put_other)
    qed
  qed (use run_step.IH in simp)
qed (use assms(2) in simp)

definition same_claims :: "(int \<Rightarrow> string \<Rightarrow> claims option) \<Rightarrow> string \<Rightarrow> bool" where
  "same_claims V tok \<longleftrightarrow> (\<forall>u u' c c'. V u tok = Some c \<longrightarrow> V u' tok = Some c' \<longrightarrow> c' = c)"

lemma logout_denies:
  assumes "postLogout en rq W = (Inr s, W1)" "env_at V t (ct_auth en)" "0 \<le> t" "cl_jti (se_payload s) = Some j" "j \<noteq> []"
    and "token_ends V j e" "ct_up en WriteJti" "\<not> au_test (ct_auth en)"
  shows "keys.held_until (1000 * e) j (deniedTokens W1)"
proof -
  from assms(1) obtain Wa where g: "requireAuth (ct_auth en) None rq W = (Inr s, Wa)" and W1: "W1 = revoke_rest en (se_payload s) Wa"
    by (auto simp: postLogout_def guarded_def logout_def split: prod.splits sum.splits)
  from g assms(2) obtain tok where "V t tok = Some (se_payload s)" by (auto elim!: requireAuth_ok simp: env_at_def)
  with assms(4,6) have x: "cl_exp (se_payload s) = Some e" "t div 1000 < e" by (auto simp: token_ends_def)
  then have "deniedTokens W1 = key_set t j () (e - t div 1000) (deniedTokens Wa)"
    using assms by (auto simp: W1 revoke_rest_def revokeToken_def truthy_str_def env_at_def)
  moreover have "1000 * e \<le> t + 1000 * (e - t div 1000)" by (simp add: algebra_simps)
  ultimately show ?thesis by (simp add: keys.held_until_put)
qed

text \<open>
  C14: a session that was logged out never comes back: whatever requests follow, by whomever, until its end the
  token is refused by every guarded route. (While Redis answers: an unreadable list lets it pass.)
\<close>

theorem logout_is_final:
  assumes "postLogout en rq W = (Inr s, W1)" "request_token rq = Inr (tok, m)"
    and "env_at V t (ct_auth en)" "0 \<le> t" "ct_up en WriteJti" "\<not> au_test (ct_auth en)"
    and "cl_jti (se_payload s) = Some j" "j \<noteq> []" "token_ends V j e" "same_claims V tok"
    and "auth_run V U t W1 t2 W2" "t2 \<le> t3" "env_at V t3 en'" "au_secret en'" "\<not> au_test en'" "au_up en' ReadJti"
    and "request_token rq' = Inr (tok, m')"
  shows "requireAuth en' r rq' W2 = (Inl InvalidToken, W2)"
proof (cases "V t3 tok")
  case None
  with assms(13,14,17) show ?thesis by (auto intro!: unverified_token_refused simp: env_at_def)
next
  case (Some c)
  have d: "keys.held_until (1000 * e) j (deniedTokens W2)"
    using run_denied [OF assms(11) logout_denies [OF assms(1,3,4,7,8,9,5,6)] assms(9)] .
  have "V t tok = Some (se_payload s)"
    using assms(1,2,3) by (auto simp: postLogout_def guarded_def env_at_def split: prod.splits sum.splits elim!: requireAuth_ok)
  with assms(10) Some have c: "c = se_payload s" by (auto simp: same_claims_def)
  with assms(7,9) Some have "t3 div 1000 < e" by (auto simp: token_ends_def)
  then have "t3 < 1000 * e" by simp
  with d have "key_get t3 j (deniedTokens W2) \<noteq> None" by (simp add: keys.held_until_def)
  then have "isRevoked en' c W2" using assms(7,8,13,15,16) c by (simp add: isRevoked_def truthy_str_def env_at_def)
  with assms(13,14,17) Some show ?thesis by (auto intro!: denied_token_refused simp: env_at_def)
qed

section \<open>Signing out everywhere\<close>

definition user_marked :: "int \<Rightarrow> string \<Rightarrow> (string, int) keyspace \<Rightarrow> bool" where
  "user_marked T u s \<longleftrightarrow> (\<forall>t < T + 1000 * user_denylist_ttl. \<exists>v \<ge> T. key_get t u s = Some v)"

lemma user_marked_set: "T \<le> t \<Longrightarrow> user_marked T u (key_set t u t user_denylist_ttl s)"
  by (auto simp: user_marked_def keys.get_put)

lemma run_marked:
  assumes "auth_run V U T W0 t W" "user_marked T u (deniedUsers W0)"
  shows "user_marked T u (deniedUsers W) \<and> T \<le> t"
  using assms
proof induction
  case (run_step t1 W1 t2 W2 t3)
  from step_writes [OF run_step(3)] have "user_write t2 W1 W2" by (simp add: session_writes_def)
  then show ?case unfolding user_write_def
  proof (elim disjE exE)
    fix u' assume w: "deniedUsers W2 = key_set t2 u' t2 user_denylist_ttl (deniedUsers W1)"
    show ?thesis
      using run_step w user_marked_set [of T t2] by (cases "u' = u") (auto simp: user_marked_def keys.get_put_other)
  qed (use run_step in simp)
qed simp


section \<open>The standing of an account\<close>

text \<open>
  A property of the ban and the role of an account. Only the three routes of the administrators can change it.
\<close>

definition stands :: "(bool \<Rightarrow> role \<Rightarrow> bool) \<Rightarrow> string \<Rightarrow> auth_world \<Rightarrow> bool" where
  "stands P u W \<longleftrightarrow> (\<exists>a. account_of u W = Some a \<and> P (ac_banned a) (ac_role a))"

definition keeps_standing :: "auth_world \<Rightarrow> auth_world \<Rightarrow> bool" where
  "keeps_standing W W' \<longleftrightarrow> (\<forall>P u. stands P u W \<longrightarrow> stands P u W')"

lemma keeps_refl: "accounts W' = accounts W \<Longrightarrow> keeps_standing W W'"
  by (simp add: keeps_standing_def stands_def account_of_def)

lemma keeps_trans: "keeps_standing W W1 \<Longrightarrow> keeps_standing W1 W2 \<Longrightarrow> keeps_standing W W2"
  by (simp add: keeps_standing_def)

lemma keeps_save:
  assumes "\<And>b. account_of (ac_id a) W = Some b \<Longrightarrow> ac_banned a = ac_banned b \<and> ac_role a = ac_role b"
  shows "keeps_standing W (store_account a W)"
  using assms by (auto simp: keeps_standing_def stands_def account_of_store)

lemma keeps_create: "insert_account a W = Some W' \<Longrightarrow> keeps_standing W W'"
  by (auto simp: insert_account_def keeps_standing_def stands_def account_of_def coll_find_append split: if_splits option.splits)

lemma keeps_assign:
  assumes "assignReferralCode a c W = (x, W')" "\<And>b. account_of (ac_id a) W = Some b \<Longrightarrow> ac_banned a = ac_banned b \<and> ac_role a = ac_role b"
  shows "keeps_standing W W'"
proof -
  let ?a = "\<lambda>r. a\<lparr>ac_referredBy := r, ac_referralCode := Some (own_referral_code (ac_id a))\<rparr>"
  have k: "keeps_standing W (store_account (?a r) W)" for r using assms(2) by (intro keeps_save) simp
  have "keeps_standing W (store_account (b\<lparr>ac_referralCount := n, ac_referralEarnings := m\<rparr>) (store_account (?a r) W))"
    if "account_of i (store_account (?a r) W) = Some b" for i r n m b
    using that find_id [OF that] by (intro keeps_trans [OF k [of r]] keeps_save) auto
  with k assms(1) show ?thesis
    by (auto simp: assignReferralCode_def Let_def keeps_refl split: option.splits if_splits)
qed

lemma fresh_created: "insert_account a W = Some W' \<Longrightarrow> account_of (ac_id a) W = None \<Longrightarrow> account_of (ac_id a) W' = Some a"
  by (auto simp: insert_account_def account_of_def coll_find_append split: if_splits)

lemma keeps_finish:
  assumes "finish_registration en a c W = (x, W')" "account_of (ac_id a) W = None"
  shows "keeps_standing W W'"
proof (cases "insert_account a W")
  case None
  with assms(1) show ?thesis by (simp add: finish_registration_def keeps_refl)
next
  case (Some W1)
  obtain o2 W2 where r: "assignReferralCode a c W1 = (o2, W2)" by fastforce
  have "keeps_standing W1 W2" using fresh_created [OF Some assms(2)] by (intro keeps_assign [OF r]) simp
  then have "keeps_standing W W2" using keeps_create [OF Some] keeps_trans by blast
  then show ?thesis using assms(1) Some r
    by (auto simp: finish_registration_def with_session_def split: option.splits)
qed

lemma keeps_register:
  "fresh_id en W \<Longrightarrow> register en b W = (x, W') \<Longrightarrow> keeps_standing W W'"
  "fresh_id en W \<Longrightarrow> registerUsername en b W = (x, W') \<Longrightarrow> keeps_standing W W'"
  by (auto simp: register_def registerUsername_def Let_def keeps_refl fresh_id_def new_account_def split: if_splits
      dest!: keeps_finish)

lemma keeps_google:
  assumes "fresh_id en W" "googleCallback en g m st W = (x, W')"
  shows "keeps_standing W W'"
proof -
  let ?a = "(new_account en (normalizeEmail (str_or m (Some (g @ ''@google'')))))\<lparr>ac_googleId := Some g\<rparr>"
  have "keeps_standing W W2" if "insert_account ?a W = Some W1" "assignReferralCode ?a st W1 = (z, W2)" for W1 z W2
  proof -
    have "account_of (ac_id ?a) W1 = Some ?a"
      by (rule fresh_created [OF that(1)]) (use assms(1) in \<open>simp add: fresh_id_def new_account_def\<close>)
    then have "keeps_standing W1 W2" by (intro keeps_assign [OF that(2)]) simp
    with keeps_create [OF that(1)] show ?thesis by (rule keeps_trans)
  qed
  with assms(2) show ?thesis
    by (auto simp: googleCallback_def Let_def keeps_refl split: option.splits prod.splits)
qed

lemma two_factor_accounts: "checkTwoFactor en u otp W = (x, W') \<Longrightarrow> accounts W' = accounts W"
  by (auto simp: checkTwoFactor_def Let_def save_settings_def split: option.splits if_splits bool.splits)

lemma counter_accounts: "accounts (recordFailedLogin en i W) = accounts W" "accounts (clearFailedLogins en i W) = accounts W"
  by (simp_all add: recordFailedLogin_def clearFailedLogins_def split: prod.splits)

lemma keeps_login_account:
  assumes "login_account en i f p otp W = (x, W')" "\<And>a. f = Some a \<Longrightarrow> account_of (ac_id a) W = Some a"
  shows "keeps_standing W W'"
proof -
  have "keeps_standing W (store_account (a\<lparr>ac_lastLoginAt := l\<rparr>) (clearFailedLogins en i W1))"
    if "f = Some a" "accounts W1 = accounts W" for a l W1
  proof -
    have "keeps_standing W (clearFailedLogins en i W1)" using that(2) by (intro keeps_refl) (simp add: counter_accounts)
    moreover have "account_of (ac_id a) (clearFailedLogins en i W1) = Some a"
      using assms(2) [OF that(1)] that(2) by (simp add: account_of_def counter_accounts)
    then have "keeps_standing (clearFailedLogins en i W1) (store_account (a\<lparr>ac_lastLoginAt := l\<rparr>) (clearFailedLogins en i W1))"
      by (intro keeps_save) simp
    ultimately show ?thesis by (rule keeps_trans)
  qed
  with assms(1) show ?thesis
    by (auto simp: login_account_def with_session_def Let_def keeps_refl counter_accounts
        split: option.splits if_splits prod.splits two_factor.splits dest!: two_factor_accounts)
qed

text \<open>Ids: a handler saves accounts, appends one with its fresh id, or filters them.\<close>

abbreviation acct_ids :: "auth_world \<Rightarrow> string list" where "acct_ids W \<equiv> map ac_id (accounts W)"

lemma ids_save: "acct_ids (store_account a W) = acct_ids W" by (simp add: store_account_def)

lemma ids_assign: "assignReferralCode a c W = (x, W') \<Longrightarrow> acct_ids W' = acct_ids W"
  by (auto simp: assignReferralCode_def Let_def ids_save split: option.splits if_splits)

lemma ids_finish: "finish_registration en a c W = (x, W') \<Longrightarrow> acct_ids W' = acct_ids W \<or> acct_ids W' = acct_ids W @ [ac_id a]"
  by (auto simp: finish_registration_def insert_account_def with_session_def split: option.splits prod.splits if_splits
      dest!: ids_assign)

lemma ids_register:
  "register en b W = (x, W') \<Longrightarrow> acct_ids W' = acct_ids W \<or> acct_ids W' = acct_ids W @ [ct_newId en]"
  "registerUsername en b W = (x, W') \<Longrightarrow> acct_ids W' = acct_ids W \<or> acct_ids W' = acct_ids W @ [ct_newId en]"
  by (auto simp: register_def registerUsername_def Let_def new_account_def split: if_splits dest!: ids_finish)

lemma ids_google: "googleCallback en g m st W = (x, W') \<Longrightarrow> acct_ids W' = acct_ids W \<or> acct_ids W' = acct_ids W @ [ct_newId en]"
  by (auto simp: googleCallback_def insert_account_def new_account_def Let_def split: option.splits prod.splits if_splits
      dest!: ids_assign)

lemma ids_login_account: "login_account en i f p otp W = (x, W') \<Longrightarrow> acct_ids W' = acct_ids W"
  by (auto simp: login_account_def with_session_def Let_def ids_save counter_accounts
      split: option.splits if_splits prod.splits two_factor.splits dest!: two_factor_accounts)

lemma ids_login:
  "login en b W = (x, W') \<Longrightarrow> acct_ids W' = acct_ids W" "loginUsername en b W = (x, W') \<Longrightarrow> acct_ids W' = acct_ids W"
  by (auto simp: login_def loginUsername_def Let_def split: if_splits option.splits dest: ids_login_account)

lemma find_by_account:
  assumes "distinct (acct_ids W)" "find_by p W = Some a"
  shows "account_of (ac_id a) W = Some a"
proof -
  have a: "a \<in> set (accounts W)" using assms(2) by (auto simp: find_by_def dest: coll_find_Some)
  then have "account_of (ac_id a) W \<noteq> None" by (auto simp: account_of_def coll_find_None)
  then obtain b where b: "account_of (ac_id a) W = Some b" by blast
  then have "b \<in> set (accounts W)" "ac_id b = ac_id a" by (auto simp: account_of_def dest: coll_find_Some)
  with a assms(1) have "b = a" by (auto simp: distinct_map dest: inj_onD)
  with b show ?thesis by simp
qed

lemma keeps_login:
  assumes "distinct (acct_ids W)"
  shows "login en b W = (x, W') \<Longrightarrow> keeps_standing W W'" "loginUsername en b W = (x, W') \<Longrightarrow> keeps_standing W W'"
  using find_by_account [OF assms]
  by (auto simp: login_def loginUsername_def Let_def keeps_refl split: if_splits option.splits dest: keeps_login_account)

lemma link_accounts:
  assumes "linkWallet en u b W = (x, W')"
  shows "keeps_standing W W'" "acct_ids W' = acct_ids W"
proof -
  have k: "keeps_standing W (store_account (a\<lparr>ac_wallet := w\<rparr>) (W\<lparr>linkSignatures := s\<rparr>))"
    if "account_of u W = Some a" for a w s
  proof -
    have "keeps_standing W (W\<lparr>linkSignatures := s\<rparr>)" by (rule keeps_refl) simp
    moreover have "keeps_standing (W\<lparr>linkSignatures := s\<rparr>) (store_account (a\<lparr>ac_wallet := w\<rparr>) (W\<lparr>linkSignatures := s\<rparr>))"
      using that find_id [OF that] by (intro keeps_save) (auto simp: account_of_def)
    ultimately show ?thesis by (rule keeps_trans)
  qed
  have k': "keeps_standing W (store_account (a\<lparr>ac_wallet := w\<rparr>) W)" if "account_of u W = Some a" for a w
    using that find_id [OF that] by (intro keeps_save) auto
  have f: "account_of u (W\<lparr>linkSignatures := s\<rparr>) = account_of u W" for s by (simp add: account_of_def)
  show "keeps_standing W W'"
    using assms k k' by (auto simp: linkWallet_def Let_def keeps_refl f split: option.splits if_splits prod.splits)
  show "acct_ids W' = acct_ids W"
    using assms by (auto simp: linkWallet_def Let_def ids_save split: option.splits if_splits prod.splits)
qed

lemma guard_accounts: "requireAuth en r rq W = (x, W') \<Longrightarrow> accounts W' = accounts W"
  by (rule requireAuth_frame(1))

lemma guarded_keeps:
  assumes "guarded en rq h W = (x, W')" "\<And>s W1 r W2. h s W1 = (r, W2) \<Longrightarrow> keeps_standing W1 W2 \<and> acct_ids W2 = acct_ids W1"
  shows "keeps_standing W W' \<and> acct_ids W' = acct_ids W"
  using assms(1)
proof (cases rule: guarded_cases)
  case (1 y W1)
  then show ?thesis using guard_accounts [OF 1(1)] keeps_refl by auto
next
  case (2 s W1 r)
  then show ?thesis using guard_accounts [OF 2(1)] keeps_refl assms(2) [OF 2(2)] keeps_trans by metis
qed

lemma revoke_accounts:
  "accounts (revoke_rest en c W) = accounts W" "accounts (revokeAllUserTokens ae u W) = accounts W"
  by (simp_all add: revoke_rest_def revokeToken_def revokeAllUserTokens_def split: option.splits)

lemma session_end_keeps:
  "postLogout en rq W = (x2, W') \<Longrightarrow> keeps_standing W W' \<and> acct_ids W' = acct_ids W"
  "postRefresh en rq W = (x3, W') \<Longrightarrow> keeps_standing W W' \<and> acct_ids W' = acct_ids W"
  "postLogoutEverywhere en rq W = (x2, W') \<Longrightarrow> keeps_standing W W' \<and> acct_ids W' = acct_ids W"
  "postLinkWallet en rq lb W = (x4, W') \<Longrightarrow> keeps_standing W W' \<and> acct_ids W' = acct_ids W"
  unfolding postLogout_def postRefresh_def postLogoutEverywhere_def postLinkWallet_def
  by (erule guarded_keeps,
      force simp: logout_def refresh_def logoutEverywhere_def revoke_accounts split: option.splits intro: keeps_refl link_accounts)+

lemma keeps_save_found:
  assumes "account_of i W = Some b" "ac_id a = ac_id b" "ac_banned a = ac_banned b" "ac_role a = ac_role b"
  shows "keeps_standing W (store_account a W)"
  using assms find_id [OF assms(1)] by (intro keeps_save) auto

lemma settings_accounts:
  "accounts (putSettings u p W) = accounts W" "accounts (putSecurity u e W) = accounts W" "accounts (resetSettings u W) = accounts W"
  "importSettings u q W = (y, W') \<Longrightarrow> accounts W' = accounts W" "setup2fa r u W = (x5, W') \<Longrightarrow> accounts W' = accounts W"
  "enable2fa en r2 u c W = (x5, W') \<Longrightarrow> accounts W' = accounts W" "disable2fa en u c W = (x5, W') \<Longrightarrow> accounts W' = accounts W"
  by (auto simp: putSettings_def putSecurity_def resetSettings_def importSettings_def setup2fa_def enable2fa_def
      disable2fa_def getOrCreateSettings_def save_settings_def Let_def split: option.splits if_splits)

lemma password_keeps: "changePassword en u c c' W = (x6, W') \<Longrightarrow> keeps_standing W W' \<and> acct_ids W' = acct_ids W"
  by (auto simp: changePassword_def keeps_refl ids_save split: option.splits if_splits intro: keeps_save_found)

lemma bootstrap_keeps:
  "bootstrap en c c' W = (x7, W') \<Longrightarrow> keeps_standing W W' \<and> (acct_ids W' = acct_ids W \<or> acct_ids W' = acct_ids W @ [ct_newId en])"
  by (auto simp: bootstrap_def Let_def keeps_refl auditLog_def insert_account_def new_account_def split: option.splits if_splits)
    (auto simp: keeps_standing_def stands_def account_of_def coll_find_append split: option.splits)

text \<open>
  A standing that no administrator takes away: it survives a ban, and the role of a superadmin survives every
  change of roles.
\<close>

definition firm :: "(bool \<Rightarrow> role \<Rightarrow> bool) \<Rightarrow> bool" where
  "firm P \<longleftrightarrow> (\<forall>b r. P b r \<longrightarrow> P True r) \<and> (\<forall>b r r'. P b r \<longrightarrow> (r = RoleSuperadmin \<longrightarrow> r' = RoleSuperadmin) \<longrightarrow> P b r')"

lemma admin_rest: "account_of u (auditLog en x y (invalidateCachedUser en' i W)) = account_of u W"
  "acct_ids (auditLog en x y (invalidateCachedUser en' i W)) = acct_ids W"
  by (simp_all add: auditLog_def invalidateCachedUser_def account_of_def)

lemma stands_found: "stands P u W \<Longrightarrow> account_of i W = Some a \<Longrightarrow> u = i \<Longrightarrow> P (ac_banned a) (ac_role a)"
  by (auto simp: stands_def)

lemma stands_save:
  assumes "stands P u W" "account_of i W = Some a" "ac_id a' = ac_id a" "u = i \<Longrightarrow> P (ac_banned a') (ac_role a')"
  shows "stands P u (auditLog en x y (invalidateCachedUser en' j (store_account a' W)))"
  using assms find_id [OF assms(2)] by (auto simp: stands_def admin_rest account_of_store)

lemma role_stands:
  assumes "putRole en s i r W = (x, W')" "firm P" "stands P u W"
  shows "stands P u W'"
proof (cases "W' = W")
  case False
  with assms(1) obtain a r' where a: "account_of i W = Some a" "ac_role a = RoleSuperadmin \<longrightarrow> r' = RoleSuperadmin"
    and W': "W' = auditLog en ''user_role_change'' (ac_email (se_user s)) (invalidateCachedUser en i (store_account (a\<lparr>ac_role := r'\<rparr>) W))"
    by (auto simp: putRole_def Let_def split: option.splits if_splits)
  show ?thesis unfolding W'
    by (rule stands_save [OF assms(3) a(1)]) (use assms(2) a(2) stands_found [OF assms(3) a(1)] in \<open>auto simp: firm_def\<close>)
qed (use assms(3) in simp)

lemma ban_stands:
  assumes "putBan en s i ban c W = (x, W')" "firm P" "ban \<or> u \<noteq> i" "stands P u W"
  shows "stands P u W'"
proof (cases "W' = W")
  case False
  with assms(1) obtain a b where a: "account_of i W = Some a"
    and W': "W' = auditLog en ''user_ban'' (ac_email (se_user s))
       (invalidateCachedUser en i (store_account (a\<lparr>ac_banned := ban, ac_banReason := b\<rparr>) W))"
    by (auto simp: putBan_def Let_def split: option.splits)
  show ?thesis unfolding W'
    by (rule stands_save [OF assms(4) a]) (use assms(2,3) stands_found [OF assms(4) a] in \<open>auto simp: firm_def\<close>)
qed (use assms(4) in simp)

lemma find_filtered: "u \<noteq> i \<Longrightarrow> coll_find (\<lambda>a. ac_id a = u) (filter (\<lambda>b. ac_id b \<noteq> i) as) = coll_find (\<lambda>a. ac_id a = u) as"
  by (induction as) auto

lemma delete_stands: "deleteUser en s i W = (x, W') \<Longrightarrow> u \<noteq> i \<Longrightarrow> stands P u W \<Longrightarrow> stands P u W'"
  unfolding stands_def
  by (auto simp: deleteUser_def admin_rest split: option.splits) (auto simp: account_of_def find_filtered)

lemma superadmin_stands:
  assumes "superadmin_guarded en rq h W = (x, W')" "\<And>s W1 r W2. h s W1 = (r, W2) \<Longrightarrow> stands P u W1 \<Longrightarrow> stands P u W2" "stands P u W"
  shows "stands P u W'"
proof -
  have g: "stands P u W2" if "stands P u W1" "requireAuth en ro rq W1 = (z, W2)" for W1 W2 z ro
    using that guard_accounts [OF that(2)] by (simp add: stands_def account_of_def)
  from assms(1) show ?thesis by (cases rule: superadmin_guarded_cases) (use g assms(2,3) in metis)+
qed

lemma admin_ids:
  "putRole en s i r W = (x, W') \<Longrightarrow> acct_ids W' = acct_ids W" "putBan en s i b c W = (x, W') \<Longrightarrow> acct_ids W' = acct_ids W"
  "deleteUser en s i W = (x, W') \<Longrightarrow> distinct (acct_ids W) \<Longrightarrow> distinct (acct_ids W')"
  by (auto simp: putRole_def putBan_def deleteUser_def Let_def admin_rest ids_save split: option.splits if_splits
      intro: distinct_map_filter)

lemma superadmin_distinct:
  assumes "superadmin_guarded en rq h W = (x, W')" "\<And>s W1 r W2. h s W1 = (r, W2) \<Longrightarrow> distinct (acct_ids W1) \<Longrightarrow> distinct (acct_ids W2)"
    and "distinct (acct_ids W)"
  shows "distinct (acct_ids W')"
  using assms(1) by (cases rule: superadmin_guarded_cases) (use guard_accounts assms(2,3) in metis)+

lemma fresh_distinct: "fresh_id en W \<Longrightarrow> distinct (acct_ids W) \<Longrightarrow> acct_ids W' = acct_ids W \<or> acct_ids W' = acct_ids W @ [ct_newId en] \<Longrightarrow> distinct (acct_ids W')"
  by (auto simp: fresh_id_def account_of_def coll_find_None; blast)

lemma step_distinct:
  assumes "auth_step V U t W W'" "distinct (acct_ids W)"
  shows "distinct (acct_ids W')"
  using assms(1)
proof cases
  case st_register then show ?thesis using fresh_distinct assms(2) ids_register(1) by blast
next
  case st_registerUsername then show ?thesis using fresh_distinct assms(2) ids_register(2) by blast
next
  case st_google then show ?thesis using fresh_distinct assms(2) ids_google by blast
next
  case st_bootstrap then show ?thesis using fresh_distinct assms(2) bootstrap_keeps by blast
next
  case (st_role ae rq i ro x)
  show ?thesis
    by (rule superadmin_distinct [OF st_role(2) [unfolded putUserRole_def] _ assms(2)]) (simp add: admin_ids(1))
next
  case (st_delete ae i rq x)
  show ?thesis
    by (rule superadmin_distinct [OF st_delete(3) [unfolded deleteUserRoute_def] _ assms(2)]) (rule admin_ids(3))
next
  case (st_ban ae ban u rq c x)
  from st_ban(3) [unfolded putUserBan_def] show ?thesis
    by (cases rule: admin_guarded_cases) (use guard_accounts admin_ids(2) assms(2) in metis)+
qed (use assms(2) in \<open>auto dest: guard_accounts ids_login session_end_keeps settings_accounts(4-7) password_keeps simp: settings_accounts(1-3)\<close>)

lemma step_stands:
  assumes "auth_step V U t W W'" "distinct (acct_ids W)" "firm P" "u \<notin> U" "stands P u W"
  shows "stands P u W'"
proof -
  have k: "keeps_standing W W' \<Longrightarrow> ?thesis" using assms(5) by (simp add: keeps_standing_def)
  from assms(1) show ?thesis
  proof cases
    case (st_role ae rq i ro x)
    show ?thesis
      by (rule superadmin_stands [OF st_role(2) [unfolded putUserRole_def] _ assms(5)]) (rule role_stands [OF _ assms(3)])
  next
    case (st_delete ae i rq x)
    then have "u \<noteq> i" using assms(4) by blast
    then show ?thesis
      by (intro superadmin_stands [OF st_delete(3) [unfolded deleteUserRoute_def] _ assms(5)]) (rule delete_stands)
  next
    case (st_ban ae ban i rq c x)
    then have i: "ban \<or> u \<noteq> i" using assms(4) by blast
    from st_ban(3) [unfolded putUserBan_def] show ?thesis
    proof (cases rule: admin_guarded_cases)
      case (1 y W1)
      then show ?thesis using guard_accounts keeps_refl k by auto
    next
      case (2 s W1 r)
      have "stands P u W1" using assms(5) guard_accounts [OF 2(1)] by (simp add: stands_def account_of_def)
      then show ?thesis using ban_stands [OF 2(2) assms(3) i] by blast
    qed
  qed (rule k; use assms(2) in \<open>auto dest: guard_accounts keeps_register keeps_google keeps_login session_end_keeps
      settings_accounts(4-7) password_keeps bootstrap_keeps intro: keeps_refl simp: settings_accounts(1-3)\<close>)+
qed

lemma run_stands:
  assumes "auth_run V U T W0 t W" "distinct (acct_ids W0)" "firm P" "u \<notin> U" "stands P u W0"
  shows "distinct (acct_ids W) \<and> stands P u W"
  using assms(1) by induction (use assms(2-5) step_distinct step_stands in blast)+

section \<open>Bans\<close>

text \<open>Every entry of the cache is gone two minutes after the last step.\<close>

definition cache_age :: "int \<Rightarrow> (string, account) keyspace \<Rightarrow> bool" where
  "cache_age t C \<longleftrightarrow> (\<forall>u. keys.stale_until (t + 1000 * cache_ttl) (\<lambda>_. False) u C)"

lemma cache_age_write:
  assumes "cache_write t F C C'" "cache_age t C"
  shows "cache_age t C'"
  using assms
proof induction
  case (cw_set C' u a)
  then show ?case
    by (auto simp: cache_age_def keys.stale_until_def keys.get_put keys.get_put_other) (metis keys.get_put keys.get_put_other option.distinct(1) not_le)
next
  case (cw_del C' u)
  then show ?case by (auto simp: cache_age_def intro: keys.stale_until_del)
qed

lemma run_cache_age:
  assumes "auth_run V U t0 W0 t W" "cachedUsers W0 = (\<lambda>_. None)"
  shows "cache_age t (cachedUsers W)"
  using assms(1)
proof induction
  case (run_start t)
  show ?case using assms(2) by (simp add: cache_age_def keys.stale_until_def key_get_def)
next
  case (run_step t1 W1 t2 W2 t3)
  have "cache_age t2 (cachedUsers W1)" using run_step by (auto simp: cache_age_def keys.stale_until_def)
  with step_writes [OF run_step(3)] cache_age_write have "cache_age t2 (cachedUsers W2)" by (auto simp: session_writes_def)
  then show ?case using run_step(4) by (auto simp: cache_age_def keys.stale_until_def)
qed

text \<open>While the stored account stands as \<open>P\<close>, no entry written since contradicts it.\<close>

lemma cache_write_stands:
  assumes "cache_write t F C C'" "keys.stale_until x (\<lambda>a. P (ac_banned a) (ac_role a)) u C" "\<And>a. F u = Some a \<Longrightarrow> P (ac_banned a) (ac_role a)"
  shows "keys.stale_until x (\<lambda>a. P (ac_banned a) (ac_role a)) u C'"
  using assms by induction (auto intro!: keys.stale_until_put_any keys.stale_until_del)

lemma run_cache_stands:
  assumes "auth_run V U T W0 t W" "distinct (acct_ids W0)" "firm P" "u \<notin> U" "stands P u W0"
    and "keys.stale_until x (\<lambda>a. P (ac_banned a) (ac_role a)) u (cachedUsers W0)"
  shows "keys.stale_until x (\<lambda>a. P (ac_banned a) (ac_role a)) u (cachedUsers W)"
  using assms(1)
proof induction
  case (run_step t1 W1 t2 W2 t3)
  have "stands P u W1" using run_stands [OF run_step(1) assms(2-5)] by blast
  then have "\<And>a. account_of u W1 = Some a \<Longrightarrow> P (ac_banned a) (ac_role a)" by (simp add: stands_def)
  with step_writes [OF run_step(3)] run_step.IH show ?case
    by (auto simp: session_writes_def intro: cache_write_stands)
qed (use assms(6) in simp)

lemma session_stands:
  assumes "requireAuth en r rq W = (Inr s, W')" "claimed_user (se_payload s) = Some u" "au_now en = t" "x \<le> t"
    and "keys.stale_until x (\<lambda>a. P (ac_banned a) (ac_role a)) u (cachedUsers W)" "stands P u W"
  shows "P (ac_banned (se_user s)) (ac_role (se_user s))"
proof -
  obtain W1 where "session_account en (se_payload s) W = (Some (se_user s), W1)" using assms(1) by (auto elim!: requireAuth_ok)
  then consider "key_get t u (cachedUsers W) = Some (se_user s)" | a where "account_of u W = Some a" "se_user s = a\<lparr>ac_password := None\<rparr>"
    using assms(2,3) by (auto simp: session_account_def getCachedUser_def Let_def split: option.splits if_splits)
  then show ?thesis
    using assms(4,5,6) by cases (auto simp: keys.stale_until_def stands_def)
qed

lemma ban_bans: "putBan en s i True c W = (AdminDone a, W') \<Longrightarrow> stands (\<lambda>b r. b) i W'"
  by (auto simp: putBan_def Let_def stands_def admin_rest account_of_store dest: find_id split: option.splits)

text \<open>
  C16: a ban reaches every session: two minutes after it, no request of the banned account passes a guarded route,
  however its token and the cache were used before, until an administrator lifts the ban.
\<close>

theorem ban_reaches_sessions:
  assumes "auth_run V U0 t0 W0 T W" "cachedUsers W0 = (\<lambda>_. None)" "distinct (acct_ids W)"
    and "env_at V T ae" "putUserBan ae rq i True c W = (Inr (AdminDone a), W1)"
    and "auth_run V U T W1 t2 W2" "i \<notin> U" "T + 1000 * cache_ttl \<le> t3" "env_at V t3 en" "t2 \<le> t3"
    and "request_token rq' = Inr (tok, m)" "V t3 tok = Some c'" "claimed_user c' = Some i"
  shows "\<exists>e W3. requireAuth en r rq' W2 = (Inl e, W3)"
proof (rule ccontr)
  assume "\<not> ?thesis"
  then obtain s W3 where s: "requireAuth en r rq' W2 = (Inr s, W3)" by (metis prod.exhaust sum.exhaust)
  from s assms(9,11,12) have p: "se_payload s = c'" "\<not> ac_banned (se_user s)" by (auto elim!: requireAuth_ok simp: env_at_def)
  from assms(5) obtain sa Wa where g: "requireAuth ae (Some RoleAdmin) rq W = (Inr sa, Wa)" "putBan ae sa i True c Wa = (AdminDone a, W1)"
    by (auto simp: putUserBan_def admin_guarded_def split: prod.splits sum.splits)
  have "cache_age T (cachedUsers Wa)"
    using cache_age_write [OF guard_writes(3) [OF g(1) assms(4)] run_cache_age [OF assms(1,2)]] .
  moreover have "cachedUsers W1 = cachedUsers Wa \<or> (\<exists>u. cachedUsers W1 = key_del u (cachedUsers Wa))"
    using admin_quiet_handlers(2) [OF g(2)] by (simp add: admin_quiet_def)
  ultimately have "keys.stale_until (T + 1000 * cache_ttl) (\<lambda>_. False) i (cachedUsers W1)"
    by (elim disjE exE) (simp_all add: cache_age_def keys.stale_until_del)
  then have "keys.stale_until (T + 1000 * cache_ttl) (\<lambda>a. ac_banned a) i (cachedUsers W1)" by (auto simp: keys.stale_until_def)
  moreover have "distinct (acct_ids W1)" using assms(3) guard_accounts [OF g(1)] admin_ids(2) [OF g(2)] by simp
  moreover have firm: "firm (\<lambda>b r. b)" by (simp add: firm_def)
  ultimately have "keys.stale_until (T + 1000 * cache_ttl) (\<lambda>a. ac_banned a) i (cachedUsers W2)" "stands (\<lambda>b r. b) i W2"
    using run_cache_stands [OF assms(6) _ firm assms(7) ban_bans [OF g(2)]] run_stands [OF assms(6) _ firm assms(7) ban_bans [OF g(2)]]
    by blast+
  with session_stands [OF s, of i t3 "T + 1000 * cache_ttl" "\<lambda>b r. b"] assms(8,9,13) p show False by (auto simp: env_at_def)
qed


section \<open>Applications to a server with two accounts\<close>

lemma demo_env_at: "env_at demo_verify t (demo_auth t)" "env_at demo_verify t (ct_auth (demo_ctl t))" "ct_auth (demo_ctl t) = demo_auth t"
  by (simp_all add: env_at_def demo_auth_def demo_ctl_def)

lemma demo_token_ends: "token_ends demo_verify ''jti-u1'' 7203" "same_claims demo_verify tok"
  by (auto simp: token_ends_def same_claims_def demo_verify_def demo_claims_def split: if_splits)

theorem logout_is_final_witness:
  "\<exists>s W1. postLogout (demo_ctl 5000) (bearer ''u1'') demo_auth_world = (Inr s, W1)
     \<and> requireAuth (demo_auth 9000) None (bearer ''u1'') W1 = (Inl InvalidToken, W1)"
proof -
  obtain s W0 where g: "requireAuth (demo_auth 5000) None (bearer ''u1'') demo_auth_world = (Inr s, W0)" "se_payload s = demo_claims ''u1''"
    using demo_sessions [of "''u1''" 5000 None] by auto
  then obtain W1 where p: "postLogout (demo_ctl 5000) (bearer ''u1'') demo_auth_world = (Inr s, W1)"
    by (auto simp: postLogout_def guarded_def demo_env_at(3))
  have run: "auth_run demo_verify {} 5000 W1 6000 W1" by (rule run_start) simp
  have "requireAuth (demo_auth 9000) None (bearer ''u1'') W1 = (Inl InvalidToken, W1)"
    by (rule logout_is_final [OF p bearer_token(1) demo_env_at(2) _ _ _ _ _ demo_token_ends run _ demo_env_at(1) _ _ _ bearer_token(1)])
      (simp_all add: demo_ctl_def demo_auth_def g demo_claims_def)
  with p show ?thesis by blast
qed


theorem ban_reaches_sessions_witness:
  "\<exists>W1 a. putUserBan (demo_auth 5000) (bearer ''root'') ''u1'' True None demo_auth_world = (Inr (AdminDone a), W1)
     \<and> (\<exists>e W3. requireAuth (demo_auth 130000) None (bearer ''u1'') W1 = (Inl e, W3))"
proof -
  obtain s W0 where g: "requireAuth (demo_auth 5000) (Some RoleAdmin) (bearer ''root'') demo_auth_world = (Inr s, W0)"
    using demo_sessions [of "''root''" 5000 "Some RoleAdmin"] by auto
  have "account_of ''u1'' W0 \<noteq> None"
    using guard_accounts [OF g] by (simp add: account_of_def demo_auth_world_def demo_user_def)
  then obtain a W1 where p: "putUserBan (demo_auth 5000) (bearer ''root'') ''u1'' True None demo_auth_world = (Inr (AdminDone a), W1)"
    using g by (auto simp: putUserBan_def admin_guarded_def putBan_def Let_def)
  have r0: "auth_run demo_verify {} 0 demo_auth_world 5000 demo_auth_world" by (rule run_start) simp
  have r1: "auth_run demo_verify {} 5000 W1 6000 W1" by (rule run_start) simp
  have v: "demo_verify 130000 ''u1'' = Some (demo_claims ''u1'')" by (simp add: demo_verify_def)
  have "\<exists>e W3. requireAuth (demo_auth 130000) None (bearer ''u1'') W1 = (Inl e, W3)"
    by (rule ban_reaches_sessions [OF r0 _ _ demo_env_at(1) p r1 _ _ demo_env_at(1) _ bearer_token(1) v])
      (simp_all add: demo_auth_world_def demo_user_def cache_ttl_def demo_claims_def claimed_user_def)
  with p show ?thesis by blast
qed


end
