(* ===== verification/LoginSafety.thy ===== *)
theory LoginSafety
  imports SessionSafety
begin

text \<open>
  What a login and a registration guarantee: the lock of an account bounds the guesses of its password, the second
  factor stands before the session and spends its backup codes, a referral is credited once, and where the sources
  leave these guarantees open.
\<close>

section \<open>The lock\<close>

text \<open>One failure after the other, on one counter.\<close>

lemma record_counts:
  assumes "failedLogins W i = Some (k, Some x)" "ct_now en < x" "ct_up en IncrFailed" "1 \<le> k"
  shows "failedLogins (recordFailedLogin en i W) i = Some (k + 1, Some x)"
  using assms key_incr_keeps_expiry [of "failedLogins W" i k x "ct_now en"] by (simp add: recordFailedLogin_def)

lemma record_starts:
  assumes "key_get (ct_now en) i (failedLogins W) = None" "ct_up en IncrFailed" "ct_up en ExpireFailed"
  shows "failedLogins (recordFailedLogin en i W) i = Some (1, Some (ct_now en + 1000 * failed_login_window))"
  using assms by (simp add: recordFailedLogin_def key_incr_start key_expire_set)

definition redis_works :: "ctl_env \<Rightarrow> bool" where
  "redis_works en \<longleftrightarrow> (\<forall>c. ct_up en c)"

definition wrong_guess :: "string \<Rightarrow> ctl_env \<times> auth_body \<Rightarrow> auth_world \<Rightarrow> bool" where
  "wrong_guess i g W \<longleftrightarrow> normalizeEmail (bd_email (snd g)) = i \<and> truthy_str (bd_password (snd g)) \<and>
     (case find_by (\<lambda>a. ac_email a = i) W of
        None \<Rightarrow> True
      | Some a \<Rightarrow> truthy_str (ac_password a) \<and> \<not> ct_compare (fst g) (the (bd_password (snd g))) (the (ac_password a)))"

fun logins :: "(ctl_env \<times> auth_body) list \<Rightarrow> auth_world \<Rightarrow> auth_resp list \<times> auth_world" where
  "logins [] W = ([], W)"
| "logins ((en, b) # gs) W = (let (r, W1) = login en b W; (rs, W2) = logins gs W1 in (r # rs, W2))"

lemma wrong_guess_login:
  assumes "wrong_guess i (en, b) W" "i \<noteq> []"
  shows "login en b W = (case checkAccountLock en i W of
     Some secs \<Rightarrow> (AccountLocked secs, W) | None \<Rightarrow> (InvalidCredentials, recordFailedLogin en i W))"
  using assms by (auto simp: wrong_guess_def login_def login_account_def Let_def split: option.splits)

lemma wrong_guess_record: "wrong_guess i g (recordFailedLogin en j W) = wrong_guess i g W"
  by (simp add: wrong_guess_def find_by_def counter_accounts)

lemma lock_when_full:
  assumes "failedLogins W i = Some (k, Some x)" "ct_now en < x" "redis_works en" "10 \<le> k"
  shows "\<exists>secs. checkAccountLock en i W = Some secs \<and> 0 < secs"
  using assms
  by (auto simp: checkAccountLock_def key_get_def live_def redis_works_def failed_login_limit_def Let_def failed_login_window_def)

lemma open_when_not_full:
  assumes "failedLogins W i = Some (k, Some x)" "k < 10"
  shows "checkAccountLock en i W = None"
  using assms by (auto simp: checkAccountLock_def key_get_def failed_login_limit_def)

definition is_locked :: "auth_resp \<Rightarrow> bool" where
  "is_locked r \<longleftrightarrow> (\<exists>secs. r = AccountLocked secs)"

lemma logins_after:
  assumes "failedLogins W i = Some (k, Some x)" "1 \<le> k" "k \<le> 10" "i \<noteq> []"
    and "\<forall>g \<in> set gs. ct_now (fst g) < x \<and> redis_works (fst g) \<and> wrong_guess i g W" "logins gs W = (rs, W')"
  shows "take (nat (10 - k)) rs = replicate (min (nat (10 - k)) (length gs)) InvalidCredentials \<and> list_all is_locked (drop (nat (10 - k)) rs)
    \<and> length rs = length gs"
  using assms
proof (induction gs arbitrary: W k rs W')
  case Nil
  then show ?case by simp
next
  case (Cons g gs)
  obtain en b where g: "g = (en, b)" by fastforce
  have w: "ct_now en < x" "redis_works en" "wrong_guess i (en, b) W" using Cons.prems(5) g by auto
  obtain r W1 rs' where l: "login en b W = (r, W1)" "logins gs W1 = (rs', W')" "rs = r # rs'"
    using Cons.prems(6) g by (auto split: prod.splits)
  show ?case
  proof (cases "k < 10")
    case True
    then have W1: "W1 = recordFailedLogin en i W" "r = InvalidCredentials"
      using l(1) wrong_guess_login [OF w(3) Cons.prems(4)] open_when_not_full [OF Cons.prems(1)] by simp_all
    have "failedLogins W1 i = Some (k + 1, Some x)"
      using record_counts [OF Cons.prems(1) w(1) _ Cons.prems(2)] w(2) W1 by (simp add: redis_works_def)
    from Cons.IH [OF this _ _ Cons.prems(4) _ l(2)] Cons.prems(2,5) True
    have "take (nat (9 - k)) rs' = replicate (min (nat (9 - k)) (length gs)) InvalidCredentials
       \<and> list_all is_locked (drop (nat (9 - k)) rs') \<and> length rs' = length gs"
      by (simp add: W1 wrong_guess_record)
    moreover have "nat (10 - k) = Suc (nat (9 - k))" using True by simp
    ultimately show ?thesis using W1 l(3) by simp
  next
    case False
    then have k: "k = 10" using Cons.prems(3) by simp
    obtain secs where "checkAccountLock en i W = Some secs" using lock_when_full [OF Cons.prems(1) w(1,2)] k by auto
    then have W1: "W1 = W" "is_locked r"
      using l(1) wrong_guess_login [OF w(3) Cons.prems(4)] by (auto simp: is_locked_def)
    have "\<forall>g \<in> set gs. ct_now (fst g) < x \<and> redis_works (fst g) \<and> wrong_guess i g W" using Cons.prems(5) by simp
    from Cons.IH [OF Cons.prems(1-4) this l(2) [unfolded W1(1)]] k W1 l(3) show ?thesis by simp
  qed
qed


definition attempt_with :: "string \<Rightarrow> string \<Rightarrow> auth_body" where
  "attempt_with e p = \<lparr>bd_email = Some e, bd_username = None, bd_password = Some p, bd_otp = None, bd_referralCode = None, bd_phone = None\<rparr>"

lemma demo_email: "normalizeEmail (Some ''u1@x.y'') = ''u1@x.y''"
  by (simp add: normalizeEmail_def js_trim_def js_space_def lower_case_def to_lower_def)


lemma record_forever:
  assumes "failedLogins W i = Some (k, None)" "ct_up en IncrFailed" "k \<noteq> 0"
  shows "failedLogins (recordFailedLogin en i W) i = Some (k + 1, None)"
  using assms by (simp add: recordFailedLogin_def key_incr_def live_def)

lemma record_no_expiry:
  assumes "key_get (ct_now en) i (failedLogins W) = None" "ct_up en IncrFailed" "\<not> ct_up en ExpireFailed"
  shows "failedLogins (recordFailedLogin en i W) i = Some (1, None)"
  using assms by (simp add: recordFailedLogin_def key_incr_start)

lemma logins_forever:
  assumes "failedLogins W i = Some (k, None)" "1 \<le> k" "k \<le> 10" "i \<noteq> []" "10 - k \<le> int (length gs)"
    and "\<forall>g \<in> set gs. redis_works (fst g) \<and> wrong_guess i g W" "logins gs W = (rs, W')"
  shows "failedLogins W' i = Some (10, None)"
  using assms
proof (induction gs arbitrary: W k rs W')
  case Nil
  then show ?case by simp
next
  case (Cons g gs)
  obtain en b where g: "g = (en, b)" by fastforce
  have w: "redis_works en" "wrong_guess i (en, b) W" using Cons.prems(6) g by auto
  obtain r W1 rs' where l: "login en b W = (r, W1)" "logins gs W1 = (rs', W')"
    using Cons.prems(7) g by (auto split: prod.splits)
  show ?case
  proof (cases "k < 10")
    case True
    then have "checkAccountLock en i W = None"
      using Cons.prems(1) by (auto simp: checkAccountLock_def key_get_def failed_login_limit_def)
    then have W1: "W1 = recordFailedLogin en i W" using l(1) wrong_guess_login [OF w(2) Cons.prems(4)] by simp
    have "failedLogins W1 i = Some (k + 1, None)"
      using record_forever [OF Cons.prems(1)] w(1) Cons.prems(2) W1 by (simp add: redis_works_def)
    from Cons.IH [OF this _ _ Cons.prems(4) _ _ l(2)] Cons.prems(2,5,6) True show ?thesis by (simp add: W1 wrong_guess_record)
  next
    case False
    then have k: "k = 10" using Cons.prems(3) by simp
    then have "checkAccountLock en i W \<noteq> None"
      using Cons.prems(1) w(1)
      by (auto simp: checkAccountLock_def key_get_def live_def redis_works_def failed_login_limit_def Let_def)
    then have "W1 = W" using l(1) wrong_guess_login [OF w(2) Cons.prems(4)] by auto
    with Cons.IH [OF Cons.prems(1-4) _ _ l(2) [unfolded this]] k Cons.prems(6) show ?thesis by simp
  qed
qed

text \<open>
  a failed expiry locks an account for good: when the first wrong login cannot set the life of its counter, no
  later one does, and after nine more every login to the address is refused, the right password included, at any
  later time.
\<close>

theorem lock_without_end:
  assumes "key_get (ct_now en) i (failedLogins W) = None" "i \<noteq> []" "ct_up en IncrFailed" "\<not> ct_up en ExpireFailed"
    and "wrong_guess i (en, b) W" "9 \<le> length gs" "\<forall>g \<in> set gs. redis_works (fst g) \<and> wrong_guess i g W"
    and "logins ((en, b) # gs) W = (rs, W')" "redis_works en'" "normalizeEmail (bd_email b') = i" "truthy_str (bd_password b')"
  shows "login en' b' W' = (AccountLocked failed_login_window, W')"
proof -
  have "checkAccountLock en i W = None" using assms(1) by (simp add: checkAccountLock_def)
  then obtain rs' where rs: "logins gs (recordFailedLogin en i W) = (rs', W')"
    using wrong_guess_login [OF assms(5,2)] assms(8) by (auto split: prod.splits)
  have "failedLogins W' i = Some (10, None)"
    by (rule logins_forever [OF record_no_expiry [OF assms(1,3,4)] _ _ assms(2) _ _ rs])
      (use assms(6,7) in \<open>auto simp: wrong_guess_record\<close>)
  then have "checkAccountLock en' i W' = Some failed_login_window"
    using assms(9) by (simp add: checkAccountLock_def key_get_def live_def redis_works_def failed_login_limit_def key_ttl_def)
  with assms(2,10,11) show ?thesis by (simp add: login_def Let_def)
qed

theorem lock_without_end_witness:
  "\<exists>rs W'. logins ((demo_ctl 1000\<lparr>ct_auth := demo_auth 1000\<lparr>au_up := (\<lambda>c. c \<noteq> ExpireFailed)\<rparr>\<rparr>, attempt_with ''u1@x.y'' ''bad'')
       # replicate 9 (demo_ctl 2000, attempt_with ''u1@x.y'' ''bad'')) demo_auth_world = (rs, W')
     \<and> login (demo_ctl 900000000000) (attempt_with ''u1@x.y'' ''secret'') W' = (AccountLocked failed_login_window, W')"
proof -
  let ?en = "demo_ctl 1000\<lparr>ct_auth := demo_auth 1000\<lparr>au_up := (\<lambda>c. c \<noteq> ExpireFailed)\<rparr>\<rparr>"
  obtain rs W' where l: "logins ((?en, attempt_with ''u1@x.y'' ''bad'') # replicate 9 (demo_ctl 2000, attempt_with ''u1@x.y'' ''bad''))
      demo_auth_world = (rs, W')" by fastforce
  have w: "wrong_guess ''u1@x.y'' (en, attempt_with ''u1@x.y'' ''bad'') demo_auth_world" if "ct_compare en = ct_compare (demo_ctl 0)" for en
    using that by (simp add: wrong_guess_def attempt_with_def demo_email truthy_str_def find_by_def demo_auth_world_def demo_user_def
        new_account_def demo_ctl_def)
  have "login (demo_ctl 900000000000) (attempt_with ''u1@x.y'' ''secret'') W' = (AccountLocked failed_login_window, W')"
    by (rule lock_without_end [OF _ _ _ _ w _ _ l])
      (use w in \<open>auto simp: demo_ctl_def demo_auth_def redis_works_def key_get_def demo_auth_world_def attempt_with_def demo_email
        truthy_str_def\<close>)
  with l show ?thesis by blast
qed

section \<open>The second factor\<close>

lemma spend_code_Some:
  "spend_code p hs = Some left \<Longrightarrow> \<exists>pre h post. hs = pre @ h # post \<and> p h \<and> (\<forall>x \<in> set pre. \<not> p x) \<and> left = pre @ post"
proof (induction hs arbitrary: left)
  case (Cons x hs)
  show ?case
  proof (cases "p x")
    case True
    with Cons.prems show ?thesis by (intro exI [of _ "[]"] exI [of _ x] exI [of _ hs]) auto
  next
    case False
    with Cons.prems obtain l where l: "spend_code p hs = Some l" "left = x # l" by auto
    from Cons.IH [OF l(1)] obtain pre h post where "hs = pre @ h # post" "p h" "\<forall>x \<in> set pre. \<not> p x" "l = pre @ post" by blast
    with False l(2) show ?thesis by (intro exI [of _ "x # pre"] exI [of _ h] exI [of _ post]) auto
  qed
qed simp

lemma spend_code_None: "spend_code p hs = None \<longleftrightarrow> (\<forall>h \<in> set hs. \<not> p h)"
  by (induction hs) auto

lemma find_settings_key: "find_settings u W = Some st \<Longrightarrow> us_user st = u"
  by (auto simp: find_settings_def dest: coll_find_Some)

lemma find_save_settings: "find_settings u W = Some st \<Longrightarrow> us_user st' = u \<Longrightarrow> find_settings u (save_settings st' W) = Some st'"
  using coll_find_put_same [of us_user st' "user_settings W"] by (auto simp: find_settings_def save_settings_def)

lemma login_success:
  assumes "login_account en i f p otp W = (AuthSession tok e pu, W')"
  obtains a W1 where "f = Some a" "checkTwoFactor en (ac_id a) otp W = (TwoFactorOk, W1)"
    "user_settings W' = user_settings W1" "truthy_str (ac_password a)" "ct_compare en p (the (ac_password a))"
  using assms
  by (auto simp: login_account_def with_session_def Let_def clearFailedLogins_def store_account_def
      split: option.splits if_splits prod.splits two_factor.splits)

text \<open>
  C30: with the second factor enabled a login opens a session only for a code of the current steps, or for a backup
  code, which it takes out of the account.
\<close>

theorem second_factor_guards:
  assumes "login en b W = (AuthSession tok e pu, W')" "find_by (\<lambda>a. ac_email a = normalizeEmail (bd_email b)) W = Some a"
    and "find_settings (ac_id a) W = Some st" "us_twoFactorEnabled st"
  shows "truthy_str (bd_otp b) \<and>
     (verifyToken (ct_hmac en) (ct_now en) (us_secret st) (bd_otp b) = Some True \<or>
      (\<exists>pre h post st'. us_backupHashes st = Some (pre @ h # post) \<and> ct_compare en (upper_case (js_trim (the (bd_otp b)))) h
         \<and> find_settings (ac_id a) W' = Some st' \<and> us_backupHashes st' = Some (pre @ post)))"
proof -
  have l: "login_account en (normalizeEmail (bd_email b)) (Some a) (the (bd_password b)) (bd_otp b) W = (AuthSession tok e pu, W')"
    using assms(1,2) by (auto simp: login_def Let_def split: if_splits option.splits)
  from l obtain W1 where t: "checkTwoFactor en (ac_id a) (bd_otp b) W = (TwoFactorOk, W1)" and W': "user_settings W' = user_settings W1"
    by (rule login_success) auto
  have same: "find_settings (ac_id a) W' = find_settings (ac_id a) W1" using W' by (simp add: find_settings_def)
  show ?thesis
  proof (cases "verifyToken (ct_hmac en) (ct_now en) (us_secret st) (bd_otp b) = Some True")
    case True
    then show ?thesis by (auto simp: verifyToken_def split: if_splits)
  next
    case False
    with t assms(3,4) obtain hs left where o: "truthy_str (bd_otp b)" "hs = (case us_backupHashes st of None \<Rightarrow> [] | Some hs \<Rightarrow> hs)"
        "spend_code (ct_compare en (upper_case (js_trim (the (bd_otp b))))) hs = Some left"
        "W1 = save_settings (st\<lparr>us_backupHashes := Some left\<rparr>) W"
      by (auto simp: checkTwoFactor_def Let_def split: if_splits option.splits bool.splits)
    from spend_code_Some [OF o(3)] obtain pre h post where c: "hs = pre @ h # post"
        "ct_compare en (upper_case (js_trim (the (bd_otp b)))) h" "left = pre @ post" by blast
    have "find_settings (ac_id a) W' = Some (st\<lparr>us_backupHashes := Some left\<rparr>)"
      unfolding same o(4) using assms(3) find_settings_key [OF assms(3)] by (intro find_save_settings) auto
    moreover have "us_backupHashes st = Some (pre @ h # post)" using o(2) c(1) by (auto split: option.splits)
    ultimately show ?thesis using o(1) c by auto
  qed
qed

definition demo_2fa :: user_settings where
  "demo_2fa = \<lparr>us_user = ''u1'', us_twoFactorEnabled = True, us_enabledAt = Some 1, us_disabledAt = None, us_pendingSecret = None,
     us_secret = Some ''GEZDGNBV'', us_backupHashes = Some [''#AA11'', ''#BB22'']\<rparr>"

definition demo_2fa_world :: auth_world where "demo_2fa_world = demo_auth_world\<lparr>user_settings := [demo_2fa]\<rparr>"

lemma demo_2fa_found: "find_by (\<lambda>a. ac_email a = ''u1@x.y'') demo_2fa_world = Some (demo_user ''u1'' RoleUser)"
  "find_settings ''u1'' demo_2fa_world = Some demo_2fa"
  by (simp_all add: demo_2fa_world_def demo_auth_world_def find_by_def demo_user_def new_account_def find_settings_def demo_2fa_def)

lemma demo_otp_false: "verifyToken h t s (Some ''bb22 '') = Some False"
  by (simp add: verifyToken_def truthy_str_def six_digits_def js_trim_def js_space_def)

lemma demo_backup_code: "upper_case (js_trim ''bb22 '') = ''BB22''"
  by code_simp

lemma demo_ctl_facts: "ct_compare (demo_ctl t) = (\<lambda>p h. h = ''#'' @ p)" "ct_up (demo_ctl t) c" "ct_now (demo_ctl t) = t"
  "au_secret (ct_auth (demo_ctl t))"
  by (simp_all add: demo_ctl_def demo_auth_def)

lemma demo_login_2fa:
  "\<exists>tok e pu W'. login (demo_ctl t) ((attempt_with ''u1@x.y'' ''secret'')\<lparr>bd_otp := Some ''bb22 ''\<rparr>) demo_2fa_world = (AuthSession tok e pu, W')"
proof -
  have c: "ac_id (demo_user ''u1'' RoleUser) = ''u1''" "ac_password (demo_user ''u1'' RoleUser) = Some ''#secret''"
    by (simp_all add: demo_user_def)
  have s: "us_twoFactorEnabled demo_2fa" "us_secret demo_2fa = Some ''GEZDGNBV''" "us_backupHashes demo_2fa = Some [''#AA11'', ''#BB22'']"
    by (simp_all add: demo_2fa_def)
  have "failedLogins demo_2fa_world = (\<lambda>_. None)" by (simp add: demo_2fa_world_def demo_auth_world_def)
  then show ?thesis
    using demo_2fa_found c s
    by (simp add: login_def attempt_with_def demo_email truthy_str_def checkAccountLock_def key_get_def login_account_def
        checkTwoFactor_def with_session_def signToken_def demo_otp_false demo_backup_code demo_ctl_facts Let_def)
qed

theorem second_factor_guards_witness:
  "\<exists>tok e pu W' st'. login (demo_ctl 2000) ((attempt_with ''u1@x.y'' ''secret'')\<lparr>bd_otp := Some ''bb22 ''\<rparr>) demo_2fa_world
       = (AuthSession tok e pu, W') \<and> find_settings ''u1'' W' = Some st' \<and> us_backupHashes st' = Some [''#AA11'']"
proof -
  let ?b = "(attempt_with ''u1@x.y'' ''secret'')\<lparr>bd_otp := Some ''bb22 ''\<rparr>"
  obtain tok e pu W' where l: "login (demo_ctl 2000) ?b demo_2fa_world = (AuthSession tok e pu, W')" using demo_login_2fa by blast
  have f: "find_by (\<lambda>a. ac_email a = normalizeEmail (bd_email ?b)) demo_2fa_world = Some (demo_user ''u1'' RoleUser)"
    using demo_2fa_found(1) by (simp add: attempt_with_def demo_email)
  have st: "find_settings (ac_id (demo_user ''u1'' RoleUser)) demo_2fa_world = Some demo_2fa" "us_twoFactorEnabled demo_2fa"
    using demo_2fa_found(2) by (simp_all add: demo_user_def demo_2fa_def)
  from second_factor_guards [OF l f st] obtain pre h post st' where "[''#AA11'', ''#BB22''] = pre @ h # post" "h = ''#BB22''"
      "find_settings ''u1'' W' = Some st'" "us_backupHashes st' = Some (pre @ post)"
    by (auto simp: demo_2fa_def demo_otp_false demo_backup_code demo_ctl_def demo_user_def)
  moreover have "pre @ post = [''#AA11'']"
    using calculation(1,2) by (cases pre; cases "tl pre") auto
  ultimately show ?thesis using l by auto
qed

text \<open>
  codes can be guessed without end: a wrong second factor after a right password is not counted, so it never
  leads to the lock of the account.
\<close>

theorem code_guesses_uncounted:
  assumes "login en b W = (WrongCode, W')"
  shows "W' = W \<and> (\<forall>en'. checkAccountLock en' (normalizeEmail (bd_email b)) W' = checkAccountLock en' (normalizeEmail (bd_email b)) W)"
proof -
  have "W' = W"
    using assms
    by (auto simp: login_def login_account_def checkTwoFactor_def with_session_def Let_def
        split: if_splits option.splits prod.splits two_factor.splits bool.splits)
  then show ?thesis by simp
qed

theorem code_guesses_uncounted_witness:
  "login (demo_ctl 2000) ((attempt_with ''u1@x.y'' ''secret'')\<lparr>bd_otp := Some ''bb22 ''\<rparr>)
     (demo_2fa_world\<lparr>user_settings := [demo_2fa\<lparr>us_backupHashes := None\<rparr>]\<rparr>)
   = (WrongCode, demo_2fa_world\<lparr>user_settings := [demo_2fa\<lparr>us_backupHashes := None\<rparr>]\<rparr>)"
proof -
  define st where "st = demo_2fa\<lparr>us_backupHashes := None\<rparr>"
  define W where "W = demo_2fa_world\<lparr>user_settings := [st]\<rparr>"
  have f: "find_by (\<lambda>a. ac_email a = ''u1@x.y'') W = Some (demo_user ''u1'' RoleUser)"
    using demo_2fa_found(1) by (simp add: find_by_def W_def)
  have s: "find_settings ''u1'' W = Some st" "us_twoFactorEnabled st" "us_secret st = Some ''GEZDGNBV''" "us_backupHashes st = None"
    by (simp_all add: find_settings_def demo_2fa_def W_def st_def)
  have c: "ac_id (demo_user ''u1'' RoleUser) = ''u1''" "ac_password (demo_user ''u1'' RoleUser) = Some ''#secret''"
    by (simp_all add: demo_user_def)
  have "failedLogins W = (\<lambda>_. None)" by (simp add: W_def demo_2fa_world_def demo_auth_world_def)
  then have l: "login (demo_ctl 2000) ((attempt_with ''u1@x.y'' ''secret'')\<lparr>bd_otp := Some ''bb22 ''\<rparr>) W = (WrongCode, W)"
    using f s c
    by (simp add: login_def attempt_with_def demo_email truthy_str_def checkAccountLock_def key_get_def login_account_def
        checkTwoFactor_def demo_otp_false demo_ctl_facts Let_def)
  from code_guesses_uncounted [OF l] l show ?thesis by (simp add: W_def st_def)
qed

section \<open>Where the second factor and the sessions are open\<close>

lemma find_settings_save: "find_settings u (save_settings st W) = (if u = us_user st \<and> find_settings u W \<noteq> None then Some st else find_settings u W)"
proof (cases "find_settings (us_user st) W")
  case None
  then have "us_user st \<notin> us_user ` set (user_settings W)" by (auto simp: find_settings_def coll_find_None)
  then show ?thesis using None by (auto simp: save_settings_def coll_put_absent find_settings_def)
next
  case (Some a)
  then show ?thesis using find_save_settings [OF Some refl]
    by (cases "u = us_user st") (auto simp: find_settings_def save_settings_def coll_find_put_other)
qed

lemma putSecurity_off: "\<exists>st. find_settings u (putSecurity u (Some False) W) = Some st \<and> \<not> us_twoFactorEnabled st"
  by (auto simp: putSecurity_def getOrCreateSettings_def default_settings_def find_settings_save Let_def split: option.splits
      dest: find_settings_key) (simp_all add: find_settings_def coll_find_append split: option.splits)



lemma logout_accounts: "postLogout en rq W = (Inr s, W1) \<Longrightarrow> accounts W1 = accounts W"
  by (auto simp: postLogout_def guarded_def logout_def revoke_accounts dest: guard_accounts split: prod.splits sum.splits)

text \<open>
  the profile route knows no revocation: the token of a session that was logged out, or of an account that was
  banned, still gets the profile there until it expires.
\<close>

theorem me_ignores_revocation:
  assumes "postLogout en rq W = (Inr s, W1)" "me_token rq' = Some tok" "tok \<noteq> []"
    and "au_verify (ct_auth en') (ct_now en') tok = Some (se_payload s)" "claimed_user (se_payload s) = Some u"
    and "account_of u W = Some a" "au_secret (ct_auth en')" "au_dbUp (ct_auth en')"
  shows "\<exists>pu. me en' rq' W1 = MeUser pu (cl_exp (se_payload s)) \<and> pu_id pu = ac_id a \<and> pu_banned pu = ac_banned a"
  using assms logout_accounts [OF assms(1)] by (simp add: me_def truthy_str_def account_of_def toPublicUser_def)

theorem me_ignores_revocation_witness:
  "\<exists>s W1 pu. postLogout (demo_ctl 5000) (bearer ''u1'') demo_auth_world = (Inr s, W1)
     \<and> me (demo_ctl 6000) (bearer ''u1'') W1 = MeUser pu (Some 7203)"
proof -
  obtain s W0 where g: "requireAuth (demo_auth 5000) None (bearer ''u1'') demo_auth_world = (Inr s, W0)" "se_payload s = demo_claims ''u1''"
    using demo_sessions [of "''u1''" 5000 None] by auto
  then obtain W1 where p: "postLogout (demo_ctl 5000) (bearer ''u1'') demo_auth_world = (Inr s, W1)"
    by (auto simp: postLogout_def guarded_def demo_env_at(3))
  have f: "account_of ''u1'' demo_auth_world = Some (demo_user ''u1'' RoleUser)"
    by (simp add: account_of_def demo_auth_world_def demo_user_def)
  have t: "me_token (bearer ''u1'') = Some ''u1''" by (simp add: me_token_def bearer_def truthy_str_def)
  have "\<exists>pu. me (demo_ctl 6000) (bearer ''u1'') W1 = MeUser pu (cl_exp (se_payload s)) \<and> pu_id pu = ac_id (demo_user ''u1'' RoleUser)
      \<and> pu_banned pu = ac_banned (demo_user ''u1'' RoleUser)"
    by (rule me_ignores_revocation [OF p t _ _ _ f])
      (simp_all add: g(2) demo_ctl_def demo_auth_def demo_verify_def demo_claims_def claimed_user_def)
  with p show ?thesis by (auto simp: g(2) demo_claims_def)
qed

text \<open>
  signing out everywhere also ends what begins in the same second: the mark has the precision of milliseconds,
  the token's time that of seconds, so a session opened right after it is refused for its whole life.
\<close>

theorem next_session_refused:
  assumes "postLogoutEverywhere en rq W = (Inr s, W1)" "env_at V t (ct_auth en)" "ct_up en WriteDeniedUser" "\<not> au_test (ct_auth en)"
    and "ac_id (se_user s) = u" "u \<noteq> []" "t \<le> t'" "t' div 1000 = t div 1000" "t mod 1000 \<noteq> 0" "0 < t div 1000"
    and "env_at V t3 en'" "t3 < t + 1000 * user_denylist_ttl" "redis_works (en2\<lparr>ct_auth := en'\<rparr>)" "\<not> au_test en'" "au_secret en'"
    and "request_token rq' = Inr (tok, m')" "V t3 tok = Some c" "claimed_user c = Some u" "cl_iat c = Some (t' div 1000)"
  shows "requireAuth en' r rq' W1 = (Inl InvalidToken, W1)"
proof -
  from assms(1) obtain Wa where "W1 = logoutEverywhere en s Wa"
    by (auto simp: postLogoutEverywhere_def guarded_def split: prod.splits sum.splits)
  then have d: "deniedUsers W1 = key_set t u t user_denylist_ttl (deniedUsers Wa)"
    using assms(2-6) by (simp add: logoutEverywhere_def revokeAllUserTokens_def env_at_def)
  then have "key_get t3 u (deniedUsers W1) = Some t" using assms(12) by (simp add: keys.get_put)
  moreover have "t' div 1000 * 1000 < t" using assms(8,9) by (simp add: minus_mod_eq_div_mult [symmetric])
  ultimately have "denied_user en' c W1"
    using assms by (simp add: denied_user_def truthy_str_def env_at_def redis_works_def)
  then have "isRevoked en' c W1" using assms(13,14) by (simp add: isRevoked_def redis_works_def)
  with assms show ?thesis by (auto intro!: denied_token_refused simp: env_at_def)
qed

theorem next_session_refused_witness:
  "\<exists>s W1. postLogoutEverywhere (demo_ctl 3001) (bearer ''u1'') demo_auth_world = (Inr s, W1)
     \<and> requireAuth (demo_auth 9000) None (bearer ''u1'') W1 = (Inl InvalidToken, W1)"
proof -
  obtain s W0 where g: "requireAuth (demo_auth 3001) None (bearer ''u1'') demo_auth_world = (Inr s, W0)" "ac_id (se_user s) = ''u1''"
    using demo_sessions [of "''u1''" 3001 None] by (auto simp: demo_user_def)
  then obtain W1 where p: "postLogoutEverywhere (demo_ctl 3001) (bearer ''u1'') demo_auth_world = (Inr s, W1)"
    by (auto simp: postLogoutEverywhere_def guarded_def demo_env_at(3))
  have v: "demo_verify 9000 ''u1'' = Some (demo_claims ''u1'')" by (simp add: demo_verify_def)
  have "requireAuth (demo_auth 9000) None (bearer ''u1'') W1 = (Inl InvalidToken, W1)"
    by (rule next_session_refused [OF p demo_env_at(2) _ _ g(2) _ _ _ _ _ demo_env_at(1) _ _ _ _ bearer_token(1) v,
          of 3900 "demo_ctl 0"])
      (simp_all add: demo_ctl_facts redis_works_def demo_auth_def demo_ctl_def demo_claims_def claimed_user_def user_denylist_ttl_def)
  with p show ?thesis by blast
qed

section \<open>The first administrator\<close>

lemma lower_upper: "c \<in> set (normalizeEmail e) \<Longrightarrow> \<not> (65 \<le> (of_char c :: nat) \<and> (of_char c :: nat) \<le> 90)"
  by (auto simp: normalizeEmail_def lower_case_def to_lower_def)

text \<open>
  the first superadmin may never get in: the address is stored as it was sent, with its capital letters, while the
  login looks up the lowered one.
\<close>

theorem bootstrap_locks_out:
  assumes "bootstrap en (Some e) (Some p) W = (AdminCreated a, W1)" "c \<in> set e" "65 \<le> (of_char c :: nat)" "(of_char c :: nat) \<le> 90"
    and "find_by (\<lambda>x. ac_email x = normalizeEmail (Some e)) W = None" "bd_email b = Some e" "truthy_str (bd_password b)"
    and "normalizeEmail (Some e) \<noteq> []"
  shows "\<exists>W2. login en' b W1 = (InvalidCredentials, W2) \<or> (\<exists>secs. login en' b W1 = (AccountLocked secs, W2))"
proof -
  have ne: "normalizeEmail (Some e) \<noteq> e" using lower_upper [of c "Some e"] assms(2-4) by auto
  obtain a' where "accounts W1 = accounts W @ [a']" "ac_email a' = e"
    using assms(1) by (auto simp: bootstrap_def insert_account_def auditLog_def new_account_def Let_def split: if_splits option.splits)
  then have "find_by (\<lambda>x. ac_email x = normalizeEmail (Some e)) W1 = None"
    using assms(5) ne by (simp add: find_by_def coll_find_append)
  then show ?thesis using assms(6-8) by (auto simp: login_def login_account_def Let_def split: option.splits)
qed

theorem bootstrap_locks_out_witness:
  "\<exists>a W1 W2. bootstrap (demo_ctl 1) (Some ''Root@x.y'') (Some ''p'') (demo_auth_world\<lparr>accounts := []\<rparr>) = (AdminCreated a, W1)
     \<and> (login (demo_ctl 2) (attempt_with ''Root@x.y'' ''p'') W1 = (InvalidCredentials, W2)
        \<or> (\<exists>secs. login (demo_ctl 2) (attempt_with ''Root@x.y'' ''p'') W1 = (AccountLocked secs, W2)))"
proof -
  have "\<exists>a W1. bootstrap (demo_ctl 1) (Some ''Root@x.y'') (Some ''p'') (demo_auth_world\<lparr>accounts := []\<rparr>) = (AdminCreated a, W1)"
    by (simp add: bootstrap_def find_by_def truthy_str_def insert_account_def Let_def) (simp add: demo_ctl_def demo_auth_def)
  then obtain a W1 where bt: "bootstrap (demo_ctl 1) (Some ''Root@x.y'') (Some ''p'') (demo_auth_world\<lparr>accounts := []\<rparr>) = (AdminCreated a, W1)"
    by blast
  have n: "normalizeEmail (Some ''Root@x.y'') = ''root@x.y''" by code_simp
  have "\<exists>W2. login (demo_ctl 2) (attempt_with ''Root@x.y'' ''p'') W1 = (InvalidCredentials, W2)
      \<or> (\<exists>secs. login (demo_ctl 2) (attempt_with ''Root@x.y'' ''p'') W1 = (AccountLocked secs, W2))"
    by (rule bootstrap_locks_out [OF bt, of "CHR ''R''"]) (simp_all add: find_by_def attempt_with_def truthy_str_def n)
  with bt show ?thesis by blast
qed

end
