(* ===== verification/FieldEncryption.thy ===== *)
theory FieldEncryption
  imports JsText
begin

text \<open>
  Encryption of single fields at rest (\<open>utils/fieldEncryption.js\<close>) and the hook that applies it when a document is
  saved (\<open>models/kyc.js\<close>, the same hook as in \<open>models/WithdrawalAmlReview.js\<close> and \<open>models/MallcoinSale.js\<close>).
  Texts are their bytes in UTF-8. The base64 and hexadecimal forms of a buffer are written out; the cipher and the
  keyed hash are parameters, and the one law used of the cipher is that it opens what it sealed.
\<close>

section \<open>Base64\<close>

definition b64_alphabet :: string where
  "b64_alphabet = ''ABCDEFGHIJKLMNOPQRSTUVWXYZabcdefghijklmnopqrstuvwxyz0123456789+/''"

definition b64_char :: "nat \<Rightarrow> char" where "b64_char n = b64_alphabet ! n"

fun index_in :: "char \<Rightarrow> string \<Rightarrow> nat option" where
  "index_in c [] = None"
| "index_in c (d # ds) = (if c = d then Some 0 else map_option Suc (index_in c ds))"

text \<open>A decoder also takes the two characters of the variant for URLs.\<close>

definition b64_value :: "char \<Rightarrow> nat option" where
  "b64_value c = (if c = CHR ''-'' then Some 62 else if c = CHR ''_'' then Some 63 else index_in c b64_alphabet)"

abbreviation octet :: "char \<Rightarrow> nat" where "octet \<equiv> of_char"

fun b64_encode :: "string \<Rightarrow> string" where
  "b64_encode [] = []"
| "b64_encode [a] = [b64_char (octet a div 4), b64_char (octet a mod 4 * 16), CHR ''='', CHR ''='']"
| "b64_encode [a, b] =
     [b64_char (octet a div 4), b64_char (octet a mod 4 * 16 + octet b div 16), b64_char (octet b mod 16 * 4), CHR ''='']"
| "b64_encode (a # b # c # r) =
     b64_char (octet a div 4) # b64_char (octet a mod 4 * 16 + octet b div 16) #
     b64_char (octet b mod 16 * 4 + octet c div 64) # b64_char (octet c mod 64) # b64_encode r"

fun b64_bytes :: "nat list \<Rightarrow> string" where
  "b64_bytes (x # y # z # w # r) =
     char_of (x * 4 + y div 16) # char_of (y mod 16 * 16 + z div 4) # char_of (z mod 4 * 64 + w) # b64_bytes r"
| "b64_bytes [x, y, z] = [char_of (x * 4 + y div 16), char_of (y mod 16 * 16 + z div 4)]"
| "b64_bytes [x, y] = [char_of (x * 4 + y div 16)]"
| "b64_bytes _ = []"

text \<open>Reading stops at the padding and skips what is not of the alphabet.\<close>

definition b64_decode :: "string \<Rightarrow> string" where
  "b64_decode s = b64_bytes (List.map_filter b64_value (takeWhile (\<lambda>c. c \<noteq> CHR ''='') s))"

lemma b64_char_value: "n < 64 \<Longrightarrow> b64_value (b64_char n) = Some n"
proof -
  have "list_all (\<lambda>n. b64_value (b64_char n) = Some n) [0..<64]" by code_simp
  then show "n < 64 \<Longrightarrow> ?thesis" by (simp add: list_all_iff)
qed

lemma b64_char_plain: "n < 64 \<Longrightarrow> b64_char n \<noteq> CHR ''='' \<and> b64_char n \<noteq> CHR '':''"
proof -
  have "list_all (\<lambda>n. b64_char n \<noteq> CHR ''='' \<and> b64_char n \<noteq> CHR '':'') [0..<64]" by code_simp
  then show "n < 64 \<Longrightarrow> ?thesis" by (simp add: list_all_iff)
qed

lemma octet_bound [simp]: "octet c < 256"
  by (rule nat_of_char_less_256)

lemma octet_parts [simp]: "octet c div 4 < 64" "octet c div 16 < 16" "octet c div 64 < 4"
  by (simp_all add: less_mult_imp_div_less)

lemma sextets:
  "octet a div 4 < 64" "octet a mod 4 * 16 < 64" "octet a mod 4 * 16 + octet b div 16 < 64"
  "octet b mod 16 * 4 < 64" "octet b mod 16 * 4 + octet c div 64 < 64" "octet c mod 64 < 64"
proof -
  have m: "octet a mod 4 \<le> 3" "octet b mod 16 \<le> 15" by (simp_all add: less_Suc_eq_le [symmetric])
  show "octet a div 4 < 64" "octet c mod 64 < 64" by simp_all
  show "octet a mod 4 * 16 < 64" "octet b mod 16 * 4 < 64" using m by linarith+
  show "octet a mod 4 * 16 + octet b div 16 < 64" using m octet_parts(2) [of b] by linarith
  show "octet b mod 16 * 4 + octet c div 64 < 64" using m octet_parts(3) [of c] by linarith
qed

lemma b64_decode_step:
  assumes "x < 64" "y < 64" "z < 64" "w < 64"
  shows "b64_decode (b64_char x # b64_char y # b64_char z # b64_char w # s) =
    char_of (x * 4 + y div 16) # char_of (y mod 16 * 16 + z div 4) # char_of (z mod 4 * 64 + w) # b64_decode s"
  using assms by (simp add: b64_decode_def b64_char_value b64_char_plain List.map_filter_simps)

theorem base64_roundtrip [simp]: "b64_decode (b64_encode s) = s"
proof (induction s rule: b64_encode.induct)
  case 1
  show ?case by (simp add: b64_decode_def List.map_filter_simps)
next
  case (2 a)
  have "b64_decode (b64_encode [a]) = [char_of (octet a div 4 * 4 + (octet a mod 4 * 16) div 16)]"
    by (simp add: b64_decode_def b64_char_value b64_char_plain sextets List.map_filter_simps)
  then show ?case by (simp add: mult.commute)
next
  case (3 a b)
  have "b64_decode (b64_encode [a, b]) =
      [char_of (octet a div 4 * 4 + (octet a mod 4 * 16 + octet b div 16) div 16),
       char_of ((octet a mod 4 * 16 + octet b div 16) mod 16 * 16 + (octet b mod 16 * 4) div 4)]"
    by (simp add: b64_decode_def b64_char_value b64_char_plain sextets List.map_filter_simps)
  moreover have "octet b div 16 < 16" using octet_bound [of b] by (simp add: less_mult_imp_div_less)
  ultimately show ?case by (simp add: mult.commute)
next
  case (4 a b c r)
  have "octet b div 16 < 16" "octet c div 64 < 4"
    using octet_bound [of b] octet_bound [of c] by (simp_all add: less_mult_imp_div_less)
  then show ?case
    by (simp only: b64_encode.simps b64_decode_step sextets 4) (simp add: mult.commute)
qed

lemma b64_encode_no_colon: "CHR '':'' \<notin> set (b64_encode s)"
  by (induction s rule: b64_encode.induct) (simp_all add: b64_char_plain sextets not_sym [of "b64_char _"])

section \<open>Hexadecimal\<close>

definition hex_value :: "char \<Rightarrow> nat option" where
  "hex_value c = index_in (to_lower c) ''0123456789abcdef''"

text \<open>\<open>Buffer.from(s, 'hex')\<close> reads pairs of digits up to the first that is not one.\<close>

fun hex_bytes :: "string \<Rightarrow> string" where
  "hex_bytes (h # l # r) =
     (case (hex_value h, hex_value l) of (Some x, Some y) \<Rightarrow> char_of (16 * x + y) # hex_bytes r | _ \<Rightarrow> [])"
| "hex_bytes _ = []"

lemma hex_bytes_length: "length (hex_bytes s) * 2 \<le> length s"
  by (induction s rule: hex_bytes.induct) (auto split: option.splits)

section \<open>Encryption of a field\<close>

record field_env =
  fe_encryptionKey :: "string option"
  fe_blindIndexKey :: "string option"
  fe_seal :: "string \<Rightarrow> string \<Rightarrow> string \<Rightarrow> string \<times> string"
  fe_open :: "string \<Rightarrow> string \<Rightarrow> string \<Rightarrow> string \<Rightarrow> string option"
  fe_hmac :: "string \<Rightarrow> string \<Rightarrow> string"

datatype field_error = KeyMissing | KeyLength | NotAuthentic

definition keyFromHex :: "string option \<Rightarrow> field_error + string" where
  "keyFromHex hex =
     (if \<not> truthy_str hex then Inl KeyMissing
      else let buf = hex_bytes (the hex) in if length buf \<noteq> 32 then Inl KeyLength else Inr buf)"

definition getEncryptionKey :: "field_env \<Rightarrow> field_error + string" where
  "getEncryptionKey fe = keyFromHex (fe_encryptionKey fe)"

definition getBlindIndexKey :: "field_env \<Rightarrow> field_error + string" where
  "getBlindIndexKey fe = keyFromHex (fe_blindIndexKey fe)"

definition key_version :: string where "key_version = ''v1''"

definition isEncrypted :: "string option \<Rightarrow> bool" where
  "isEncrypted v = (case v of None \<Rightarrow> False | Some s \<Rightarrow> prefix (key_version @ '':'') s)"

text \<open>\<open>s.split(':')\<close>.\<close>

fun split_colons :: "string \<Rightarrow> string list" where
  "split_colons [] = [[]]"
| "split_colons (c # cs) = (if c = CHR '':'' then [] # split_colons cs
     else (case split_colons cs of p # ps \<Rightarrow> (c # p) # ps | [] \<Rightarrow> [[c]]))"

definition encryptField :: "field_env \<Rightarrow> string \<Rightarrow> string option \<Rightarrow> field_error + string option" where
  "encryptField fe iv v =
     (case v of
        None \<Rightarrow> Inr None
      | Some p \<Rightarrow>
          (case getEncryptionKey fe of
             Inl e \<Rightarrow> Inl e
           | Inr k \<Rightarrow>
               (case fe_seal fe k iv p of
                  (ct, tag) \<Rightarrow>
                    Inr (Some (key_version @ '':'' @ b64_encode iv @ '':'' @ b64_encode tag @ '':'' @ b64_encode ct)))))"

definition decryptField :: "field_env \<Rightarrow> string option \<Rightarrow> field_error + string option" where
  "decryptField fe stored =
     (if \<not> isEncrypted stored then Inr stored
      else case split_colons (the stored) of
             [_, ivB64, tagB64, ctB64] \<Rightarrow>
               (case getEncryptionKey fe of
                  Inl e \<Rightarrow> Inl e
                | Inr k \<Rightarrow>
                    (case fe_open fe k (b64_decode ivB64) (b64_decode tagB64) (b64_decode ctB64) of
                       None \<Rightarrow> Inl NotAuthentic
                     | Some p \<Rightarrow> Inr (Some p)))
           | _ \<Rightarrow> Inr stored)"

definition blindIndex :: "field_env \<Rightarrow> string option \<Rightarrow> field_error + string option" where
  "blindIndex fe v =
     (if \<not> truthy_str v then Inr None
      else case getBlindIndexKey fe of
             Inl e \<Rightarrow> Inl e
           | Inr k \<Rightarrow> Inr (Some (fe_hmac fe k (js_trim (the v)))))"

text \<open>The law of the cipher: what was sealed under a key and a nonce opens under them.\<close>

definition opens_sealed :: "field_env \<Rightarrow> bool" where
  "opens_sealed fe \<longleftrightarrow> (\<forall>k iv p. fe_open fe k iv (snd (fe_seal fe k iv p)) (fst (fe_seal fe k iv p)) = Some p)"

lemma split_colons_plain: "CHR '':'' \<notin> set a \<Longrightarrow> split_colons a = [a]"
  by (induction a) auto

lemma split_colons_append: "CHR '':'' \<notin> set a \<Longrightarrow> split_colons (a @ CHR '':'' # b) = a # split_colons b"
  by (induction a) auto

lemma split_sealed:
  "split_colons (key_version @ CHR '':'' # b64_encode x @ CHR '':'' # b64_encode y @ CHR '':'' # b64_encode z) =
   [key_version, b64_encode x, b64_encode y, b64_encode z]"
  using split_colons_append [of key_version] split_colons_append [OF b64_encode_no_colon]
    split_colons_plain [OF b64_encode_no_colon]
  by (simp add: key_version_def)

lemma encryptField_Some:
  "encryptField fe iv (Some p) = Inr v \<longleftrightarrow>
   (\<exists>k. getEncryptionKey fe = Inr k \<and>
     v = Some (key_version @ '':'' @ b64_encode iv @ '':'' @ b64_encode (snd (fe_seal fe k iv p)) @ '':''
       @ b64_encode (fst (fe_seal fe k iv p))))"
  by (auto simp: encryptField_def split: sum.splits prod.splits)

lemma encryptField_defined: "encryptField fe iv v = Inr None \<longleftrightarrow> v = None"
  by (cases v) (auto simp: encryptField_def split: sum.splits prod.splits)

lemma encrypted_marked: "encryptField fe iv (Some p) = Inr v \<Longrightarrow> isEncrypted v"
  by (auto simp: encryptField_Some isEncrypted_def)

lemma decrypt_encrypt:
  assumes "opens_sealed fe" "encryptField fe iv v = Inr w"
  shows "decryptField fe w = Inr v"
proof (cases v)
  case None
  then show ?thesis using assms by (simp add: encryptField_def decryptField_def isEncrypted_def)
next
  case (Some p)
  with assms obtain k where k: "getEncryptionKey fe = Inr k" and
    w: "w = Some (key_version @ '':'' @ b64_encode iv @ '':'' @ b64_encode (snd (fe_seal fe k iv p)) @ '':''
       @ b64_encode (fst (fe_seal fe k iv p)))"
    by (auto simp: encryptField_Some)
  have "isEncrypted w" using encrypted_marked assms(2) Some by simp
  then show ?thesis using assms(1) k w Some
    by (simp add: decryptField_def split_sealed opens_sealed_def)
qed

lemma legacy_unchanged: "\<not> isEncrypted v \<Longrightarrow> decryptField fe v = Inr v"
  by (simp add: decryptField_def)

text \<open>
  a field written with a configured key reads back as it was, whatever nonce was drawn; a text from before the
  encryption, and an absent one, is read unchanged.
\<close>

theorem field_encryption_roundtrip:
  assumes "opens_sealed fe" "getEncryptionKey fe = Inr k"
  shows "(\<exists>w. encryptField fe iv v = Inr w \<and> decryptField fe w = Inr v \<and> (v \<noteq> None \<longrightarrow> isEncrypted w)) \<and>
    (\<not> isEncrypted v \<longrightarrow> decryptField fe v = Inr v)"
proof -
  obtain w where w: "encryptField fe iv v = Inr w"
    using assms(2) by (cases v) (simp_all add: encryptField_def case_prod_unfold)
  then have "\<exists>w. encryptField fe iv v = Inr w \<and> decryptField fe w = Inr v \<and> (v \<noteq> None \<longrightarrow> isEncrypted w)"
    using decrypt_encrypt [OF assms(1)] encrypted_marked by (metis option.exhaust)
  then show ?thesis by (simp add: legacy_unchanged)
qed

definition demo_fields :: field_env where
  "demo_fields = \<lparr>fe_encryptionKey = Some (replicate 64 CHR ''7''), fe_blindIndexKey = None,
     fe_seal = \<lambda>k iv p. (rev p, iv), fe_open = \<lambda>k iv tag ct. if tag = iv then Some (rev ct) else None,
     fe_hmac = \<lambda>k p. k @ p\<rparr>"

lemma demo_fields_law: "opens_sealed demo_fields"
  by (simp add: opens_sealed_def demo_fields_def)

lemma demo_fields_key: "getEncryptionKey demo_fields = Inr (replicate 32 CHR ''w'')"
  by code_simp

theorem field_encryption_roundtrip_witness:
  "(\<exists>w. encryptField demo_fields ''abcdefghijkl'' (Some ''A12:4'') = Inr w \<and> decryptField demo_fields w = Inr (Some ''A12:4'') \<and>
      (Some ''A12:4'' \<noteq> None \<longrightarrow> isEncrypted w)) \<and> decryptField demo_fields (Some ''A12:4'') = Inr (Some ''A12:4'')"
  using field_encryption_roundtrip [OF demo_fields_law demo_fields_key, of "''abcdefghijkl''" "Some ''A12:4''"]
  by (simp add: isEncrypted_def key_version_def)

section \<open>The hook on saving\<close>

text \<open>
  The fields of a document the hook looks at, with the ones that were assigned since it was read. Each encryption
  draws its own nonce. An error leaves the document unsaved.
\<close>

fun encryptPiiOnSave ::
  "field_env \<Rightarrow> (string \<Rightarrow> string) \<Rightarrow> (string \<Rightarrow> bool) \<Rightarrow> (string \<times> string option) list \<Rightarrow> field_error + (string \<times> string option) list" where
  "encryptPiiOnSave fe ivs modified [] = Inr []"
| "encryptPiiOnSave fe ivs modified ((f, v) # fs) =
     (case (if modified f \<and> v \<noteq> None then encryptField fe (ivs f) v else Inr v) of
        Inl e \<Rightarrow> Inl e
      | Inr v' \<Rightarrow> map_sum id (\<lambda>r. (f, v') # r) (encryptPiiOnSave fe ivs modified fs))"

fun decryptPii :: "field_env \<Rightarrow> (string \<times> string option) list \<Rightarrow> field_error + (string \<times> string option) list" where
  "decryptPii fe [] = Inr []"
| "decryptPii fe ((f, v) # fs) =
     (case decryptField fe v of
        Inl e \<Rightarrow> Inl e
      | Inr v' \<Rightarrow> map_sum id (\<lambda>r. (f, v') # r) (decryptPii fe fs))"

text \<open>A document whose protected fields were not assigned is saved as it is, under any key or none.\<close>

lemma untouched_saved: "\<forall>(f, v) \<in> set fs. \<not> modified f \<Longrightarrow> encryptPiiOnSave fe ivs modified fs = Inr fs"
  by (induction fs) (auto split: prod.splits)

lemma saved_fields_read:
  assumes "opens_sealed fe" "encryptPiiOnSave fe ivs (\<lambda>_. True) fs = Inr fs'"
  shows "decryptPii fe fs' = Inr fs"
  using assms(2)
proof (induction fs arbitrary: fs')
  case (Cons a fs)
  obtain f v where a: "a = (f, v)" by force
  from Cons.prems a obtain w r where w: "(if v \<noteq> None then encryptField fe (ivs f) v else Inr v) = Inr w"
    and r: "encryptPiiOnSave fe ivs (\<lambda>_. True) fs = Inr r" "fs' = (f, w) # r"
    by (cases "encryptPiiOnSave fe ivs (\<lambda>_. True) fs") (auto split: sum.splits if_splits)
  have "decryptField fe w = Inr v"
    using w decrypt_encrypt [OF assms(1)] by (cases v) (auto simp: legacy_unchanged isEncrypted_def)
  with Cons.IH [OF r(1)] r(2) a show ?case by simp
qed simp

text \<open>
  what is assigned to a protected field of a document reads back after any number of further saves that do not
  assign it, as a review does: only the first save encrypts.
\<close>

theorem saved_document_reads_back:
  assumes "opens_sealed fe" "encryptPiiOnSave fe ivs (\<lambda>_. True) fs = Inr fs'"
  shows "\<exists>fs''. encryptPiiOnSave fe ivs' (\<lambda>_. False) fs' = Inr fs'' \<and> decryptPii fe fs'' = Inr fs"
  using untouched_saved [of fs' "\<lambda>_. False"] saved_fields_read [OF assms] by auto

theorem saved_document_reads_back_witness:
  "\<exists>fs' fs''. encryptPiiOnSave demo_fields (\<lambda>f. f) (\<lambda>_. True) [(''city'', Some ''Nairobi''), (''postalCode'', None)] = Inr fs' \<and>
     encryptPiiOnSave demo_fields (\<lambda>f. f @ f) (\<lambda>_. False) fs' = Inr fs'' \<and>
     decryptPii demo_fields fs'' = Inr [(''city'', Some ''Nairobi''), (''postalCode'', None)]"
proof -
  obtain fs' where e: "encryptPiiOnSave demo_fields (\<lambda>f. f) (\<lambda>_. True) [(''city'', Some ''Nairobi''), (''postalCode'', None)] = Inr fs'"
    using demo_fields_key by (simp add: encryptField_def demo_fields_def)
  from saved_document_reads_back [OF demo_fields_law e] e show ?thesis by blast
qed

text \<open>
  the hook looks only at whether a field was assigned, so a field that is assigned its stored, encrypted value
  is encrypted a second time, and reading it then gives the cipher text instead of what was entered.
\<close>

theorem assigned_ciphertext_is_encrypted_again:
  assumes "opens_sealed fe" "encryptField fe iv (Some p) = Inr w"
  shows "\<exists>w'. encryptPiiOnSave fe ivs (\<lambda>_. True) [(f, w)] = Inr [(f, w')] \<and> isEncrypted w \<and>
    decryptPii fe [(f, w')] = Inr [(f, w)]"
proof -
  obtain k where k: "getEncryptionKey fe = Inr k" using assms(2) by (auto simp: encryptField_Some)
  obtain c where c: "w = Some c" using assms(2) by (auto simp: encryptField_Some)
  obtain w' where w': "encryptField fe (ivs f) (Some c) = Inr w'"
    using k by (simp add: encryptField_def case_prod_unfold)
  have "decryptField fe w' = Inr w"
    using decrypt_encrypt [OF assms(1)] w' c by simp
  then show ?thesis using w' c assms(2) encrypted_marked by auto
qed

theorem assigned_ciphertext_is_encrypted_again_witness:
  "\<exists>w w'. encryptField demo_fields ''abcdefghijkl'' (Some ''Nairobi'') = Inr w \<and>
     encryptPiiOnSave demo_fields (\<lambda>f. f) (\<lambda>_. True) [(''city'', w)] = Inr [(''city'', w')] \<and> isEncrypted w \<and>
     decryptPii demo_fields [(''city'', w')] = Inr [(''city'', w)]"
proof -
  obtain w where e: "encryptField demo_fields ''abcdefghijkl'' (Some ''Nairobi'') = Inr w"
    using demo_fields_key by (simp add: encryptField_def demo_fields_def)
  from assigned_ciphertext_is_encrypted_again [OF demo_fields_law e, of "\<lambda>f. f" "''city''"] e show ?thesis by blast
qed

end
