(* ===== verification/Kyc.thy ===== *)
theory Kyc
  imports AdminUsers FieldEncryption
begin

text \<open>
  Identity checks: the record of an applicant (\<open>models/kyc.js\<close>), the screening against sanction lists
  (\<open>services/amlProvider.js\<close>), the routes of the applicant (\<open>controllers/kycController.js\<close>, \<open>routes/kyc.js\<close>) and the
  decision of an administrator (\<open>routes/adminPanel.js\<close>). The protected fields of a record are held together, by name,
  as \<open>FieldEncryption\<close> encrypts them. The casts of the database library and the provider's answer are parameters;
  rate limits are left out.
\<close>

section \<open>Records\<close>

datatype risk_level = RiskLow | RiskMedium | RiskHigh
datatype kyc_status = KycPending | KycApproved | KycRejected | KycReview
datatype aml_provider = MockAmlProvider | HttpAmlProvider string string

record aml_checks =
  ck_sanctions :: bool
  ck_pep :: bool
  ck_adverseMedia :: bool
  ck_watchlist :: bool
  ck_http :: bool

record kyc =
  ky_id :: string
  ky_userId :: string
  ky_firstName :: "string option"
  ky_lastName :: "string option"
  ky_dateOfBirth :: "int option"
  ky_nationality :: "string option"
  ky_country :: "string option"
  ky_pii :: "(string \<times> string option) list"
  ky_idType :: "string option"
  ky_idExpiry :: "int option"
  ky_idDocumentUrl :: "string option"
  ky_occupation :: "string option"
  ky_sourceOfFunds :: "string option"
  ky_annualIncome :: "string option"
  ky_politicalExposure :: bool
  ky_riskLevel :: risk_level
  ky_amlChecks :: aml_checks
  ky_status :: kyc_status
  ky_submittedAt :: int
  ky_reviewedAt :: "int option"
  ky_reviewedBy :: "string option"
  ky_notes :: "string option"
  ky_erasedAt :: "int option"

text \<open>
  The body of a submission as it arrives: the fields of the form, and the further fields of a record a client can add
  (a further field with an empty text counts as absent).
\<close>

datatype flag = FlagBool bool | FlagText string

record kyc_body =
  kb_firstName :: "string option"
  kb_lastName :: "string option"
  kb_dateOfBirth :: "string option"
  kb_nationality :: "string option"
  kb_address :: "string option"
  kb_city :: "string option"
  kb_country :: "string option"
  kb_postalCode :: "string option"
  kb_phoneNumber :: "string option"
  kb_idType :: "string option"
  kb_idNumber :: "string option"
  kb_idExpiry :: "string option"
  kb_idDocumentUrl :: "string option"
  kb_occupation :: "string option"
  kb_sourceOfFunds :: "string option"
  kb_annualIncome :: "string option"
  kb_politicalExposure :: "flag option"
  kb_id :: "string option"
  kb_userId :: "string option"
  kb_submittedAt :: "string option"
  kb_reviewedAt :: "string option"
  kb_reviewedBy :: "string option"
  kb_notes :: "string option"
  kb_erasedAt :: "string option"

record kyc_world =
  kw_auth :: auth_world
  kw_kycs :: "kyc list"
  kw_provider :: "aml_provider option"
  kw_views :: "(string \<times> bool \<times> string \<times> string option) list"

text \<open>What a request to a provider asks, and the answer: the flags that are set, or no data.\<close>

record aml_request =
  am_firstName :: "string option"
  am_lastName :: "string option"
  am_dateOfBirth :: "string option"
  am_nationality :: "string option"
  am_country :: "string option"

record aml_reply =
  ar_sanctions_hit :: bool
  ar_pep_hit :: bool
  ar_adverse_media_hit :: bool
  ar_watchlist_hit :: bool

record kyc_env =
  ke_auth :: auth_env
  ke_fields :: field_env
  ke_ivs :: "string \<Rightarrow> string"
  ke_newId :: string
  ke_castId :: "string \<Rightarrow> string option"
  ke_castDate :: "string \<Rightarrow> int option"
  ke_production :: bool
  ke_amlUrl :: "string option"
  ke_amlKey :: "string option"
  ke_amlPost :: "string \<Rightarrow> string \<Rightarrow> aml_request \<Rightarrow> aml_reply option option"
  ke_createUp :: bool
  ke_userUp :: bool
  ke_files :: "string \<Rightarrow> bool"

abbreviation ke_now :: "kyc_env \<Rightarrow> int" where "ke_now en \<equiv> au_now (ke_auth en)"

definition find_kyc :: "(kyc \<Rightarrow> bool) \<Rightarrow> kyc_world \<Rightarrow> kyc option" where
  "find_kyc p W = coll_find p (kw_kycs W)"

section \<open>Screening\<close>

definition flag_set :: "flag option \<Rightarrow> bool" where
  "flag_set f = (case f of None \<Rightarrow> False | Some (FlagBool b) \<Rightarrow> b | Some (FlagText s) \<Rightarrow> s \<noteq> [])"

definition mock_screen :: "kyc_body \<Rightarrow> aml_checks" where
  "mock_screen b = \<lparr>ck_sanctions = False, ck_pep = flag_set (kb_politicalExposure b), ck_adverseMedia = False,
     ck_watchlist = False, ck_http = False\<rparr>"

definition buildRequestBody :: "kyc_body \<Rightarrow> aml_request" where
  "buildRequestBody b = \<lparr>am_firstName = kb_firstName b, am_lastName = kb_lastName b, am_dateOfBirth = kb_dateOfBirth b,
     am_nationality = kb_nationality b, am_country = kb_country b\<rparr>"

definition mapResponse :: "aml_reply option \<Rightarrow> aml_checks" where
  "mapResponse d =
     (case d of
        None \<Rightarrow> \<lparr>ck_sanctions = False, ck_pep = False, ck_adverseMedia = False, ck_watchlist = False, ck_http = True\<rparr>
      | Some r \<Rightarrow> \<lparr>ck_sanctions = ar_sanctions_hit r, ck_pep = ar_pep_hit r, ck_adverseMedia = ar_adverse_media_hit r,
          ck_watchlist = ar_watchlist_hit r, ck_http = True\<rparr>)"

definition getAmlProvider :: "kyc_env \<Rightarrow> kyc_world \<Rightarrow> aml_provider option \<times> kyc_world" where
  "getAmlProvider en W =
     (if kw_provider W \<noteq> None then (kw_provider W, W)
      else if truthy_str (ke_amlUrl en) \<and> truthy_str (ke_amlKey en) then
        let p = HttpAmlProvider (the (ke_amlUrl en)) (the (ke_amlKey en)) in (Some p, W\<lparr>kw_provider := Some p\<rparr>)
      else if ke_production en then (None, W)
      else (Some MockAmlProvider, W\<lparr>kw_provider := Some MockAmlProvider\<rparr>))"

text \<open>Screening throws without a provider, without data, and when the provider cannot be reached.\<close>

definition screenAml :: "kyc_env \<Rightarrow> kyc_body option \<Rightarrow> kyc_world \<Rightarrow> aml_checks option \<times> kyc_world" where
  "screenAml en b W =
     (case getAmlProvider en W of
        (None, W1) \<Rightarrow> (None, W1)
      | (Some p, W1) \<Rightarrow>
          (case b of
             None \<Rightarrow> (None, W1)
           | Some d \<Rightarrow>
               (case p of
                  MockAmlProvider \<Rightarrow> (Some (mock_screen d), W1)
                | HttpAmlProvider url key \<Rightarrow> (map_option mapResponse (ke_amlPost en url key (buildRequestBody d)), W1))))"

definition risk_of :: "aml_checks \<Rightarrow> risk_level" where
  "risk_of c =
     (if ck_sanctions c \<or> ck_adverseMedia c \<or> ck_watchlist c then RiskHigh
      else if ck_pep c then RiskMedium else RiskLow)"

definition performAMLCheck :: "kyc_env \<Rightarrow> kyc_body option \<Rightarrow> kyc_world \<Rightarrow> (aml_checks \<times> risk_level) option \<times> kyc_world" where
  "performAMLCheck en b W = (case screenAml en b W of (c, W1) \<Rightarrow> (map_option (\<lambda>c. (c, risk_of c)) c, W1))"

section \<open>Submission\<close>

datatype kyc_error =
    KycInvalid | KycUnauthorized | KycForbidden | KycInProgress | KycDatabaseError | KycNotFound | KycUnhandled | KycBadAction

datatype kyc_resp =
    KycError kyc_error
  | KycSubmitted string risk_level aml_checks
  | KycChecked risk_level aml_checks
  | KycNone
  | KycFile string
  | KycState kyc "(string \<times> string option) list"
  | KycReviewed kyc

text \<open>The form as the route validates it; what comes beyond the form is not looked at.\<close>

definition submit_valid :: "kyc_body \<Rightarrow> bool" where
  "submit_valid b \<longleftrightarrow>
     list_all truthy_str [kb_firstName b, kb_lastName b, kb_dateOfBirth b, kb_nationality b, kb_address b, kb_city b,
       kb_country b, kb_postalCode b, kb_phoneNumber b, kb_idType b, kb_idNumber b, kb_idExpiry b, kb_idDocumentUrl b,
       kb_occupation b, kb_sourceOfFunds b, kb_annualIncome b] \<and>
     the (kb_idType b) \<in> {''passport'', ''drivers_license'', ''national_id''} \<and>
     (case kb_politicalExposure b of Some (FlagText s) \<Rightarrow> lower_case s \<in> {''true'', ''false''} | _ \<Rightarrow> True)"

definition cast_opt :: "('a \<Rightarrow> 'b option) \<Rightarrow> 'a option \<Rightarrow> 'b option option" where
  "cast_opt f v = (case v of None \<Rightarrow> Some None | Some x \<Rightarrow> map_option Some (f x))"

definition cast_flag :: "flag option \<Rightarrow> bool option" where
  "cast_flag f =
     (case f of None \<Rightarrow> Some False | Some (FlagBool b) \<Rightarrow> Some b
      | Some (FlagText s) \<Rightarrow> if s = ''true'' then Some True else if s = ''false'' then Some False else None)"

definition pii_of_body :: "kyc_body \<Rightarrow> (string \<times> string option) list" where
  "pii_of_body b = [(''idNumber'', kb_idNumber b), (''phoneNumber'', kb_phoneNumber b), (''address'', kb_address b),
     (''city'', kb_city b), (''postalCode'', kb_postalCode b)]"

text \<open>
  \<open>KYC.create\<close>: the fields of the body follow the applicant's id, so a body can set it as well as the fields of the
  review; the risk, the checks and the status come after them.
\<close>

definition kyc_of_body :: "kyc_env \<Rightarrow> string \<Rightarrow> kyc_body \<Rightarrow> risk_level \<Rightarrow> aml_checks \<Rightarrow> kyc option" where
  "kyc_of_body en uid b risk checks =
     Option.bind (cast_opt (ke_castId en) (kb_userId b)) (\<lambda>u.
     Option.bind (cast_opt (ke_castId en) (kb_id b)) (\<lambda>i.
     Option.bind (cast_opt (ke_castId en) (kb_reviewedBy b)) (\<lambda>rb.
     Option.bind (cast_opt (ke_castDate en) (kb_dateOfBirth b)) (\<lambda>dob.
     Option.bind (cast_opt (ke_castDate en) (kb_idExpiry b)) (\<lambda>expiry.
     Option.bind (cast_opt (ke_castDate en) (kb_submittedAt b)) (\<lambda>sat.
     Option.bind (cast_opt (ke_castDate en) (kb_reviewedAt b)) (\<lambda>rat.
     Option.bind (cast_opt (ke_castDate en) (kb_erasedAt b)) (\<lambda>er.
     Option.bind (cast_flag (kb_politicalExposure b)) (\<lambda>pe.
     case encryptPiiOnSave (ke_fields en) (ke_ivs en) (\<lambda>_. True) (pii_of_body b) of
       Inl _ \<Rightarrow> None
     | Inr pii \<Rightarrow>
         Some \<lparr>ky_id = or_else i (ke_newId en), ky_userId = or_else u uid, ky_firstName = kb_firstName b,
           ky_lastName = kb_lastName b, ky_dateOfBirth = dob, ky_nationality = kb_nationality b,
           ky_country = kb_country b, ky_pii = pii, ky_idType = kb_idType b, ky_idExpiry = expiry,
           ky_idDocumentUrl = kb_idDocumentUrl b, ky_occupation = kb_occupation b,
           ky_sourceOfFunds = kb_sourceOfFunds b, ky_annualIncome = kb_annualIncome b, ky_politicalExposure = pe,
           ky_riskLevel = risk, ky_amlChecks = checks, ky_status = KycPending,
           ky_submittedAt = or_else sat (ke_now en), ky_reviewedAt = rat, ky_reviewedBy = rb, ky_notes = kb_notes b,
           ky_erasedAt = er\<rparr>)))))))))"

definition kyc_create :: "kyc_env \<Rightarrow> string \<Rightarrow> kyc_body \<Rightarrow> risk_level \<Rightarrow> aml_checks \<Rightarrow> kyc_world \<Rightarrow> (kyc \<times> kyc_world) option" where
  "kyc_create en uid b risk checks W =
     (case kyc_of_body en uid b risk checks of
        None \<Rightarrow> None
      | Some k \<Rightarrow>
          if \<not> ke_createUp en \<or> find_kyc (\<lambda>d. ky_id d = ky_id k) W \<noteq> None then None
          else Some (k, W\<lparr>kw_kycs := kw_kycs W @ [k]\<rparr>))"

definition full_name :: "kyc_body \<Rightarrow> string" where
  "full_name b =
     (if truthy_str (kb_firstName b) \<and> truthy_str (kb_lastName b) then the (kb_firstName b) @ '' '' @ the (kb_lastName b)
      else if truthy_str (kb_firstName b) then the (kb_firstName b) else the (kb_lastName b))"

definition name_account :: "kyc_env \<Rightarrow> string \<Rightarrow> kyc_body \<Rightarrow> kyc_world \<Rightarrow> kyc_world option" where
  "name_account en uid b W =
     (if \<not> truthy_str (kb_firstName b) \<and> \<not> truthy_str (kb_lastName b) then Some W
      else if \<not> ke_userUp en then None
      else (case account_of uid (kw_auth W) of
              None \<Rightarrow> Some W
            | Some a \<Rightarrow>
                if truthy_str (ac_name a) then Some W
                else Some (W\<lparr>kw_auth := store_account (a\<lparr>ac_name := Some (full_name b)\<rparr>) (kw_auth W)\<rparr>)))"

definition submitKYC :: "kyc_env \<Rightarrow> string option \<Rightarrow> kyc_body \<Rightarrow> kyc_world \<Rightarrow> kyc_resp \<times> kyc_world" where
  "submitKYC en uid b W =
     (case uid of
        None \<Rightarrow> (KycError KycUnauthorized, W)
      | Some u \<Rightarrow>
          if truthy_str (kb_idDocumentUrl b) \<and> \<not> prefix (u @ ''-'') (the (kb_idDocumentUrl b)) then (KycError KycForbidden, W)
          else if find_kyc (\<lambda>k. ky_userId k = u \<and> ky_status k \<in> {KycPending, KycReview}) W \<noteq> None then (KycError KycInProgress, W)
          else (case performAMLCheck en (Some b) W of
                  (None, W1) \<Rightarrow> (KycError KycUnhandled, W1)
                | (Some (checks, risk), W1) \<Rightarrow>
                    (case kyc_create en u b risk checks W1 of
                       None \<Rightarrow> (KycError KycDatabaseError, W1)
                     | Some (k, W2) \<Rightarrow>
                         (case name_account en u b W2 of
                            None \<Rightarrow> (KycError KycDatabaseError, W2)
                          | Some W3 \<Rightarrow> (KycSubmitted (ky_id k) risk checks, W3)))))"

definition postSubmit :: "kyc_env \<Rightarrow> string option \<Rightarrow> kyc_body \<Rightarrow> kyc_world \<Rightarrow> kyc_resp \<times> kyc_world" where
  "postSubmit en uid b W = (if \<not> submit_valid b then (KycError KycInvalid, W) else submitKYC en uid b W)"

section \<open>Screening on request, state and document\<close>

text \<open>
  The screening a client asks for is written into the first record of the account; an account without one gets a
  record that has the screening and the defaults of the model only.
\<close>

definition bare_kyc :: "kyc_env \<Rightarrow> string \<Rightarrow> risk_level \<Rightarrow> aml_checks \<Rightarrow> kyc" where
  "bare_kyc en u risk checks =
     \<lparr>ky_id = ke_newId en, ky_userId = u, ky_firstName = None, ky_lastName = None, ky_dateOfBirth = None, ky_nationality = None,
      ky_country = None, ky_pii = [], ky_idType = None, ky_idExpiry = None, ky_idDocumentUrl = None, ky_occupation = None,
      ky_sourceOfFunds = None, ky_annualIncome = None, ky_politicalExposure = False, ky_riskLevel = risk, ky_amlChecks = checks,
      ky_status = KycPending, ky_submittedAt = ke_now en, ky_reviewedAt = None, ky_reviewedBy = None, ky_notes = None,
      ky_erasedAt = None\<rparr>"

definition runAMLCheck :: "kyc_env \<Rightarrow> string option \<Rightarrow> kyc_body option \<Rightarrow> kyc_world \<Rightarrow> kyc_resp \<times> kyc_world" where
  "runAMLCheck en uid d W =
     (case uid of
        None \<Rightarrow> (KycError KycUnauthorized, W)
      | Some u \<Rightarrow>
          (case performAMLCheck en d W of
             (None, W1) \<Rightarrow> (KycError KycDatabaseError, W1)
           | (Some (checks, risk), W1) \<Rightarrow>
               if \<not> ke_createUp en \<or> find_kyc (\<lambda>k. ky_userId k = u) W1 = None \<and> find_kyc (\<lambda>k. ky_id k = ke_newId en) W1 \<noteq> None
               then (KycError KycDatabaseError, W1)
               else (KycChecked risk checks,
                     case find_kyc (\<lambda>k. ky_userId k = u) W1 of
                       Some k \<Rightarrow> W1\<lparr>kw_kycs := coll_put ky_id (k\<lparr>ky_riskLevel := risk, ky_amlChecks := checks\<rparr>) (kw_kycs W1)\<rparr>
                     | None \<Rightarrow> W1\<lparr>kw_kycs := kw_kycs W1 @ [bare_kyc en u risk checks]\<rparr>)))"

definition getKYCStatus :: "kyc_env \<Rightarrow> string option \<Rightarrow> kyc_world \<Rightarrow> kyc_resp" where
  "getKYCStatus en uid W =
     (case uid of
        None \<Rightarrow> KycError KycUnauthorized
      | Some u \<Rightarrow>
          if \<not> ke_createUp en then KycError KycDatabaseError
          else (case sort_key (\<lambda>k. - ky_submittedAt k) (filter (\<lambda>k. ky_userId k = u) (kw_kycs W)) of
                  [] \<Rightarrow> KycNone
                | k # _ \<Rightarrow>
                    (case decryptPii (ke_fields en) (ky_pii k) of
                       Inl _ \<Rightarrow> KycError KycUnhandled
                     | Inr plain \<Rightarrow> KycState k plain)))"

text \<open>\<open>path.basename\<close>: the last component, without the slashes after it.\<close>

definition base_name :: "string \<Rightarrow> string" where
  "base_name s = rev (takeWhile (\<lambda>c. c \<noteq> CHR ''/'') (dropWhile (\<lambda>c. c = CHR ''/'') (rev s)))"

definition getDocument :: "kyc_env \<Rightarrow> string option \<Rightarrow> role \<Rightarrow> string \<Rightarrow> string option \<Rightarrow> kyc_world \<Rightarrow> kyc_resp \<times> kyc_world" where
  "getDocument en uid r kycId reason W =
     (case ke_castId en kycId of
        None \<Rightarrow> (KycError KycUnhandled, W)
      | Some i \<Rightarrow>
          (case find_kyc (\<lambda>k. ky_id k = i) W of
             None \<Rightarrow> (KycError KycNotFound, W)
           | Some k \<Rightarrow>
               let viewer = or_else uid ''undefined'';
                   isOwner = (ky_userId k = viewer);
                   isAdmin = (r \<noteq> RoleUser)
               in if \<not> isOwner \<and> \<not> isAdmin then (KycError KycForbidden, W)
                  else if \<not> truthy_str (ky_idDocumentUrl k) then (KycError KycNotFound, W)
                  else let f = base_name (the (ky_idDocumentUrl k));
                           W1 = (if au_auditUp (ke_auth en)
                                 then W\<lparr>kw_views := kw_views W @ [(viewer, isAdmin \<and> \<not> isOwner, ky_id k, map_option (take 300) reason)]\<rparr>
                                 else W)
                       in if ke_files en f then (KycFile f, W1) else (KycError KycNotFound, W1)))"

section \<open>The decision\<close>

text \<open>Saving a record checks the fields the model requires.\<close>

definition kyc_complete :: "kyc \<Rightarrow> bool" where
  "kyc_complete k \<longleftrightarrow>
     list_all truthy_str [ky_firstName k, ky_lastName k, ky_nationality k, ky_country k, ky_idType k, ky_occupation k,
       ky_sourceOfFunds k, ky_annualIncome k] \<and>
     list_all (\<lambda>f. truthy_str (case map_of (ky_pii k) f of None \<Rightarrow> None | Some v \<Rightarrow> v))
       [''idNumber'', ''phoneNumber'', ''address'', ''city'', ''postalCode''] \<and>
     ky_dateOfBirth k \<noteq> None \<and> ky_idExpiry k \<noteq> None"

definition review_of :: "string \<Rightarrow> kyc_status option" where
  "review_of a = (if a = ''approved'' then Some KycApproved else if a = ''rejected'' then Some KycRejected else None)"

definition reviewKyc :: "kyc_env \<Rightarrow> session \<Rightarrow> string \<Rightarrow> string \<Rightarrow> string option \<Rightarrow> kyc_world \<Rightarrow> kyc_resp \<times> kyc_world" where
  "reviewKyc en s i action notes W =
     (case review_of action of
        None \<Rightarrow> (KycError KycBadAction, W)
      | Some st \<Rightarrow>
          (case ke_castId en i of
             None \<Rightarrow> (KycError KycDatabaseError, W)
           | Some i' \<Rightarrow>
               (case find_kyc (\<lambda>k. ky_id k = i') W of
                  None \<Rightarrow> (KycError KycNotFound, W)
                | Some k \<Rightarrow>
                    let k' = k\<lparr>ky_status := st, ky_reviewedAt := Some (ke_now en), ky_reviewedBy := Some (ac_id (se_user s)),
                               ky_notes := str_or notes (Some [])\<rparr>
                    in if \<not> kyc_complete k' \<or> \<not> ke_createUp en then (KycError KycDatabaseError, W)
                       else let W1 = W\<lparr>kw_kycs := coll_put ky_id k' (kw_kycs W)\<rparr>
                            in if st = KycApproved \<and> \<not> ke_userUp en then (KycError KycDatabaseError, W1)
                               else let A1 = (if st = KycApproved
                                              then (case account_of (ky_userId k) (kw_auth W1) of
                                                      None \<Rightarrow> kw_auth W1
                                                    | Some a \<Rightarrow> store_account (a\<lparr>ac_kycLevel := 2\<rparr>) (kw_auth W1))
                                              else kw_auth W1)
                                    in (KycReviewed k', W1\<lparr>kw_auth := auditLog (ke_auth en) ''kyc_review'' (ac_email (se_user s)) A1\<rparr>))))"

definition pendingKyc :: "kyc_env \<Rightarrow> int \<Rightarrow> int \<Rightarrow> kyc_world \<Rightarrow> (field_error + (kyc \<times> (string \<times> string option) list) list \<times> nat)" where
  "pendingKyc en page limit W =
     (let safeLimit = min (max (if limit = 0 then 50 else limit) 1) 200;
          skip = max page 0 * safeLimit;
          found = filter (\<lambda>k. ky_status k \<in> {KycPending, KycReview}) (kw_kycs W);
          shown = take (nat safeLimit) (drop (nat skip) (sort_key ky_submittedAt found))
      in foldr (\<lambda>k r. case decryptPii (ke_fields en) (ky_pii k) of
                        Inl e \<Rightarrow> Inl e
                      | Inr p \<Rightarrow> map_sum id (\<lambda>(l, n). ((k, p) # l, n)) r)
           shown (Inr ([], length found)))"

section \<open>The routes\<close>

text \<open>
  The guard hands the account on as the document of the database, which has the property \<open>id\<close>, or as the object it was
  cached as, which has only \<open>_id\<close>. The handlers of the applicant read \<open>id\<close>.
\<close>

definition document_id :: "kyc_env \<Rightarrow> session \<Rightarrow> kyc_world \<Rightarrow> string option" where
  "document_id en s W =
     (case claimed_user (se_payload s) of
        None \<Rightarrow> None
      | Some u \<Rightarrow> if getCachedUser (ke_auth en) u (kw_auth W) = None then Some (ac_id (se_user s)) else None)"

definition kyc_guarded ::
  "kyc_env \<Rightarrow> role option \<Rightarrow> request \<Rightarrow> (session \<Rightarrow> string option \<Rightarrow> kyc_world \<Rightarrow> 'r \<times> kyc_world) \<Rightarrow> kyc_world \<Rightarrow> (auth_error + 'r) \<times> kyc_world" where
  "kyc_guarded en r rq h W =
     (case requireAuth (ke_auth en) r rq (kw_auth W) of
        (Inl e, A) \<Rightarrow> (Inl e, W\<lparr>kw_auth := A\<rparr>)
      | (Inr s, A) \<Rightarrow> (case h s (document_id en s W) (W\<lparr>kw_auth := A\<rparr>) of (x, W1) \<Rightarrow> (Inr x, W1)))"

datatype kyc_request =
    AskSubmit request kyc_body
  | AskAml request "kyc_body option"
  | AskStatus request
  | AskDocument request string "string option"
  | AskReview request string string "string option"

fun kyc_route :: "kyc_env \<Rightarrow> kyc_request \<Rightarrow> kyc_world \<Rightarrow> (auth_error + kyc_resp) \<times> kyc_world" where
  "kyc_route en (AskSubmit rq b) W = kyc_guarded en None rq (\<lambda>s u. postSubmit en u b) W"
| "kyc_route en (AskAml rq d) W = kyc_guarded en None rq (\<lambda>s u. runAMLCheck en u d) W"
| "kyc_route en (AskStatus rq) W = kyc_guarded en None rq (\<lambda>s u W. (getKYCStatus en u W, W)) W"
| "kyc_route en (AskDocument rq i reason) W = kyc_guarded en None rq (\<lambda>s u. getDocument en u (ac_role (se_user s)) i reason) W"
| "kyc_route en (AskReview rq i action notes) W = kyc_guarded en (Some RoleAdmin) rq (\<lambda>s u. reviewKyc en s i action notes) W"

fun kyc_requests :: "(kyc_env \<times> kyc_request) list \<Rightarrow> kyc_world \<Rightarrow> kyc_world" where
  "kyc_requests [] W = W"
| "kyc_requests ((en, q) # qs) W = kyc_requests qs (snd (kyc_route en q W))"

end
