(* ===== verification/KycSafety.thy ===== *)
theory KycSafety
  imports Kyc
begin

text \<open>
  What the identity checks guarantee: only an administrator's approval raises the level of an account, only the owner
  and administrators are served a document, a submission is stored as it was entered. And where they fall short: whose
  document the name in a record means, the record a screening leaves behind, the account taken from the cache.
\<close>

section \<open>Frames\<close>

lemma provider_frame:
  "getAmlProvider en W = (p, W') \<Longrightarrow> kw_auth W' = kw_auth W \<and> kw_kycs W' = kw_kycs W \<and> kw_views W' = kw_views W"
  by (auto simp: getAmlProvider_def Let_def split: if_splits)

lemma screen_world: "snd (performAMLCheck en b W) = snd (getAmlProvider en W)"
  by (simp add: performAMLCheck_def screenAml_def split: prod.splits option.splits aml_provider.splits)

lemma screen_frame:
  "performAMLCheck en b W = (x, W') \<Longrightarrow> kw_auth W' = kw_auth W \<and> kw_kycs W' = kw_kycs W \<and> kw_views W' = kw_views W"
  using screen_world [of en b W] provider_frame [of en W "fst (getAmlProvider en W)" W']
  by (metis prod.collapse snd_conv)

lemma body_shape:
  assumes "kyc_of_body en u b risk checks = Some k"
  shows "ky_status k = KycPending" "ky_riskLevel k = risk" "ky_amlChecks k = checks" "ky_idDocumentUrl k = kb_idDocumentUrl b"
    "encryptPiiOnSave (ke_fields en) (ke_ivs en) (\<lambda>_. True) (pii_of_body b) = Inr (ky_pii k)"
    "kb_userId b = None \<Longrightarrow> ky_userId k = u" "kb_userId b = Some v \<Longrightarrow> ke_castId en v = Some (ky_userId k)"
    "kb_id b = None \<Longrightarrow> ky_id k = ke_newId en"
proof -
  obtain pii where e: "encryptPiiOnSave (ke_fields en) (ke_ivs en) (\<lambda>_. True) (pii_of_body b) = Inr pii"
    using assms by (cases "encryptPiiOnSave (ke_fields en) (ke_ivs en) (\<lambda>_. True) (pii_of_body b)")
      (auto simp: kyc_of_body_def bind_eq_Some_conv)
  from assms e obtain u' i where o: "cast_opt (ke_castId en) (kb_userId b) = Some u'" "cast_opt (ke_castId en) (kb_id b) = Some i"
    "ky_status k = KycPending" "ky_riskLevel k = risk" "ky_amlChecks k = checks" "ky_idDocumentUrl k = kb_idDocumentUrl b"
    "ky_pii k = pii" "ky_userId k = or_else u' u" "ky_id k = or_else i (ke_newId en)"
    by (auto simp: kyc_of_body_def bind_eq_Some_conv)
  show "ky_status k = KycPending" "ky_riskLevel k = risk" "ky_amlChecks k = checks" "ky_idDocumentUrl k = kb_idDocumentUrl b"
    "encryptPiiOnSave (ke_fields en) (ke_ivs en) (\<lambda>_. True) (pii_of_body b) = Inr (ky_pii k)"
    using o e by simp_all
  show "kb_userId b = None \<Longrightarrow> ky_userId k = u" "kb_userId b = Some v \<Longrightarrow> ke_castId en v = Some (ky_userId k)"
    "kb_id b = None \<Longrightarrow> ky_id k = ke_newId en"
    using o(1,2,8,9) by (auto simp: cast_opt_def or_else_def)
qed

lemma create_shape:
  assumes "kyc_create en u b risk checks W = Some (k, W')"
  shows "kyc_of_body en u b risk checks = Some k" "W' = W\<lparr>kw_kycs := kw_kycs W @ [k]\<rparr>" "find_kyc (\<lambda>d. ky_id d = ky_id k) W = None"
  using assms by (auto simp: kyc_create_def split: option.splits if_splits)

lemma name_frame:
  "name_account en u b W = Some W' \<Longrightarrow> kw_kycs W' = kw_kycs W \<and> kw_views W' = kw_views W \<and> kw_provider W' = kw_provider W"
  by (auto simp: name_account_def split: if_splits option.splits)

lemma name_done: "ke_userUp en \<Longrightarrow> \<exists>W'. name_account en u b W = Some W'"
  by (simp add: name_account_def split: option.splits)

lemma submit_ok:
  assumes "submitKYC en uid b W = (KycSubmitted i risk checks, W')"
  obtains u W1 k W2 where "uid = Some u" "prefix (u @ ''-'') (the (kb_idDocumentUrl b)) \<or> \<not> truthy_str (kb_idDocumentUrl b)"
    "find_kyc (\<lambda>k. ky_userId k = u \<and> ky_status k \<in> {KycPending, KycReview}) W = None"
    "performAMLCheck en (Some b) W = (Some (checks, risk), W1)" "kyc_create en u b risk checks W1 = Some (k, W2)"
    "name_account en u b W2 = Some W'" "i = ky_id k"
  using assms by (auto simp: submitKYC_def split: option.splits if_splits prod.splits)

section \<open>The level of an account\<close>

definition kyc_level :: "string \<Rightarrow> kyc_world \<Rightarrow> num option" where
  "kyc_level u W = map_option ac_kycLevel (account_of u (kw_auth W))"

lemma level_same: "accounts (kw_auth W') = accounts (kw_auth W) \<Longrightarrow> kyc_level u W' = kyc_level u W"
  by (simp add: kyc_level_def account_of_def)

lemma level_named:
  assumes "name_account en v b W = Some W'"
  shows "kyc_level u W' = kyc_level u W"
proof (cases "W' = W")
  case False
  with assms obtain a where a: "account_of v (kw_auth W) = Some a"
    "W' = W\<lparr>kw_auth := store_account (a\<lparr>ac_name := Some (full_name b)\<rparr>) (kw_auth W)\<rparr>"
    by (auto simp: name_account_def split: if_splits option.splits)
  with find_id [OF a(1)] show ?thesis by (auto simp: kyc_level_def account_of_store)
qed simp

lemma level_created: "kyc_create en v b risk checks W = Some (k, W') \<Longrightarrow> kyc_level u W' = kyc_level u W"
  by (auto simp: kyc_level_def dest!: create_shape(2))

lemma level_submitted: "kyc_level u (snd (postSubmit en uid b W)) = kyc_level u W"
proof -
  obtain x W1 where p: "performAMLCheck en (Some b) W = (x, W1)" by force
  have l: "kyc_level u W1 = kyc_level u W" using screen_frame [OF p] by (simp add: kyc_level_def)
  show ?thesis using p l
    by (auto simp: postSubmit_def submitKYC_def level_created level_named split: option.splits prod.splits)
qed

lemma level_screened: "kyc_level u (snd (runAMLCheck en uid d W)) = kyc_level u W"
proof -
  obtain x W1 where p: "performAMLCheck en d W = (x, W1)" by force
  then show ?thesis using screen_frame [OF p]
    by (simp add: runAMLCheck_def kyc_level_def split: option.splits prod.splits)
qed

lemma level_document: "kyc_level u (snd (getDocument en uid r i reason W)) = kyc_level u W"
  by (auto simp: getDocument_def Let_def kyc_level_def split: option.splits)

lemma account_of_audit [simp]: "account_of u (A\<lparr>auditTrail := t\<rparr>) = account_of u A"
  by (simp add: account_of_def)

lemma level_reviewed:
  assumes "reviewKyc en s i action nts W = (x, W')" "kyc_level u W' \<noteq> kyc_level u W"
  shows "action = ''approved'' \<and> kyc_level u W' = Some 2 \<and> (\<exists>k \<in> set (kw_kycs W). ky_userId k = u)"
proof -
  from assms(1,2) obtain i' k where k: "find_kyc (\<lambda>k. ky_id k = i') W = Some k" "review_of action = Some KycApproved"
    and W': "accounts (kw_auth W') = accounts (case account_of (ky_userId k) (kw_auth W) of None \<Rightarrow> kw_auth W
        | Some a \<Rightarrow> store_account (a\<lparr>ac_kycLevel := 2\<rparr>) (kw_auth W))"
    by (auto simp: reviewKyc_def Let_def kyc_level_def auditLog_def split: option.splits if_splits)
  have "action = ''approved''" using k(2) by (simp add: review_of_def split: if_splits)
  moreover have "kyc_level u W' = Some 2 \<and> ky_userId k = u"
  proof (cases "account_of (ky_userId k) (kw_auth W)")
    case None
    then show ?thesis using W' assms(2) level_same [of W' W u] by simp
  next
    case (Some a)
    then have "kyc_level u W' = map_option ac_kycLevel (account_of u (store_account (a\<lparr>ac_kycLevel := 2\<rparr>) (kw_auth W)))"
      using W' by (simp add: kyc_level_def account_of_def)
    with Some assms(2) show ?thesis using find_id [OF Some]
      by (auto simp: account_of_store kyc_level_def split: if_splits)
  qed
  moreover have "k \<in> set (kw_kycs W)" using k(1) coll_find_Some unfolding find_kyc_def by fast
  ultimately show ?thesis by blast
qed

lemma guarded_world:
  assumes "kyc_guarded en r rq h W = (x, W')"
  obtains e A where "x = Inl e" "W' = W\<lparr>kw_auth := A\<rparr>" "accounts A = accounts (kw_auth W)"
  | s A y where "requireAuth (ke_auth en) r rq (kw_auth W) = (Inr s, A)" "accounts A = accounts (kw_auth W)"
      "h s (document_id en s W) (W\<lparr>kw_auth := A\<rparr>) = (y, W')" "x = Inr y"
  using assms by (auto simp: kyc_guarded_def dest: requireAuth_frame(1) split: prod.splits sum.splits)

lemma level_guarded:
  assumes "\<And>s uid W. kyc_level u (snd (h s uid W)) = kyc_level u W"
  shows "kyc_level u (snd (kyc_guarded en r rq h W)) = kyc_level u W"
proof -
  obtain x W' where g: "kyc_guarded en r rq h W = (x, W')" by force
  from g show ?thesis
  proof (cases rule: guarded_world)
    case 1
    then show ?thesis using g by (simp add: kyc_level_def account_of_def)
  next
    case (2 s A y)
    then have "kyc_level u W' = kyc_level u (W\<lparr>kw_auth := A\<rparr>)" using assms by (metis snd_conv)
    then show ?thesis using g 2(2) by (simp add: kyc_level_def account_of_def)
  qed
qed

lemma route_level:
  assumes "kyc_level u (snd (kyc_route en q W)) \<noteq> kyc_level u W"
  shows "\<exists>rq i nts s A. q = AskReview rq i ''approved'' nts \<and> requireAuth (ke_auth en) (Some RoleAdmin) rq (kw_auth W) = (Inr s, A)
    \<and> kyc_level u (snd (kyc_route en q W)) = Some 2 \<and> (\<exists>k \<in> set (kw_kycs W). ky_userId k = u)"
proof (cases q)
  case (AskReview rq i action nts)
  obtain x W' where g: "kyc_guarded en (Some RoleAdmin) rq (\<lambda>s u. reviewKyc en s i action nts) W = (x, W')" by force
  from g show ?thesis
  proof (cases rule: guarded_world)
    case 1
    then show ?thesis using g assms AskReview by (simp add: kyc_level_def account_of_def)
  next
    case (2 s A y)
    have "kyc_level u (W\<lparr>kw_auth := A\<rparr>) = kyc_level u W" using 2(2) by (simp add: kyc_level_def account_of_def)
    then show ?thesis using level_reviewed [OF 2(3), of u] 2(1) g assms AskReview by auto
  qed
qed (use assms in \<open>simp_all add: level_guarded level_submitted level_screened level_document\<close>)


section \<open>An applicant's server\<close>

definition demo_kyc :: "int \<Rightarrow> kyc_env" where
  "demo_kyc t = \<lparr>ke_auth = demo_auth t, ke_fields = demo_fields, ke_ivs = (\<lambda>f. f), ke_newId = ''k1'', ke_castId = Some,
     ke_castDate = (\<lambda>_. Some 0), ke_production = False, ke_amlUrl = None, ke_amlKey = None, ke_amlPost = (\<lambda>_ _ _. None),
     ke_createUp = True, ke_userUp = True, ke_files = (\<lambda>_. True)\<rparr>"

definition demo_form :: kyc_body where
  "demo_form = \<lparr>kb_firstName = Some ''Asha'', kb_lastName = Some ''K'', kb_dateOfBirth = Some ''1990'', kb_nationality = Some ''KE'',
     kb_address = Some ''1 Road'', kb_city = Some ''Nairobi'', kb_country = Some ''KE'', kb_postalCode = Some ''00100'',
     kb_phoneNumber = Some ''254700'', kb_idType = Some ''passport'', kb_idNumber = Some ''A1'', kb_idExpiry = Some ''2030'',
     kb_idDocumentUrl = Some ''u1-5-a.png'', kb_occupation = Some ''x'', kb_sourceOfFunds = Some ''y'', kb_annualIncome = Some ''z'',
     kb_politicalExposure = None, kb_id = None, kb_userId = None, kb_submittedAt = None, kb_reviewedAt = None,
     kb_reviewedBy = None, kb_notes = None, kb_erasedAt = None\<rparr>"

definition demo_kyc_world :: kyc_world where
  "demo_kyc_world = \<lparr>kw_auth = demo_auth_world, kw_kycs = [], kw_provider = None, kw_views = []\<rparr>"

lemma demo_pii: "\<exists>p. encryptPiiOnSave demo_fields ivs (\<lambda>_. True) (pii_of_body demo_form) = Inr p \<and>
    list_all (\<lambda>f. truthy_str (case map_of p f of None \<Rightarrow> None | Some v \<Rightarrow> v)) [''idNumber'', ''phoneNumber'', ''address'', ''city'', ''postalCode'']"
proof -
  have e: "\<exists>w. encryptField demo_fields iv (Some v) = Inr (Some w) \<and> w \<noteq> []" for iv v
    using demo_fields_key by (auto simp: encryptField_def key_version_def split: prod.splits)
  obtain a b c d e' where "encryptField demo_fields (ivs ''idNumber'') (Some ''A1'') = Inr (Some a) \<and> a \<noteq> []"
    "encryptField demo_fields (ivs ''phoneNumber'') (Some ''254700'') = Inr (Some b) \<and> b \<noteq> []"
    "encryptField demo_fields (ivs ''address'') (Some ''1 Road'') = Inr (Some c) \<and> c \<noteq> []"
    "encryptField demo_fields (ivs ''city'') (Some ''Nairobi'') = Inr (Some d) \<and> d \<noteq> []"
    "encryptField demo_fields (ivs ''postalCode'') (Some ''00100'') = Inr (Some e') \<and> e' \<noteq> []" using e by metis
  then show ?thesis by (simp add: pii_of_body_def demo_form_def truthy_str_def)
qed

lemma demo_created:
  "\<exists>k W'. kyc_create (demo_kyc t) u (demo_form\<lparr>kb_idDocumentUrl := d\<rparr>) r c W = Some (k, W') \<and> kyc_complete k \<and> ky_userId k = u"
  if "find_kyc (\<lambda>d. ky_id d = ''k1'') W = None"
proof -
  let ?b = "demo_form\<lparr>kb_idDocumentUrl := d\<rparr>"
  obtain p where p: "encryptPiiOnSave demo_fields (\<lambda>f. f) (\<lambda>_. True) (pii_of_body ?b) = Inr p" and
    t: "list_all (\<lambda>f. truthy_str (case map_of p f of None \<Rightarrow> None | Some v \<Rightarrow> v)) [''idNumber'', ''phoneNumber'', ''address'', ''city'', ''postalCode'']"
    using demo_pii [of "\<lambda>f. f"] by (auto simp: pii_of_body_def)
  obtain k where k: "kyc_of_body (demo_kyc t) u ?b r c = Some k" "ky_id k = ''k1''" "ky_userId k = u" "ky_pii k = p"
    "list_all truthy_str [ky_firstName k, ky_lastName k, ky_nationality k, ky_country k, ky_idType k, ky_occupation k,
       ky_sourceOfFunds k, ky_annualIncome k]" "ky_dateOfBirth k = Some 0" "ky_idExpiry k = Some 0"
    using p by (simp add: kyc_of_body_def demo_kyc_def cast_opt_def cast_flag_def or_else_def truthy_str_def)
      (simp add: demo_form_def)
  then have "kyc_complete k" using t by (simp add: kyc_complete_def)
  with k that show ?thesis by (simp add: kyc_create_def demo_kyc_def)
qed

lemma demo_review:
  assumes "kw_kycs W = [k]" "ky_id k = ''k1''" "ky_userId k = ''u1''" "kyc_complete k" "kw_auth W = demo_auth_world"
    "t < 7203000" "review_of action = Some st"
  shows "\<exists>s A W'. requireAuth (demo_auth t) (Some RoleAdmin) (bearer ''root'') demo_auth_world = (Inr s, A)
    \<and> kyc_route (demo_kyc t) (AskReview (bearer ''root'') ''k1'' action None) W
      = (Inr (KycReviewed (k\<lparr>ky_status := st, ky_reviewedAt := Some t, ky_reviewedBy := Some ''root'', ky_notes := Some []\<rparr>)), W')
    \<and> kyc_level ''u1'' W' = Some (if st = KycApproved then 2 else 1)"
proof -
  let ?k = "k\<lparr>ky_status := st, ky_reviewedAt := Some t, ky_reviewedBy := Some ''root'', ky_notes := Some []\<rparr>"
  obtain A where g: "requireAuth (demo_auth t) (Some RoleAdmin) (bearer ''root'') demo_auth_world
      = (Inr \<lparr>se_user = (demo_user ''root'' RoleSuperadmin)\<lparr>ac_password := None\<rparr>, se_payload = demo_claims ''root'', se_method = BearerAuth\<rparr>, A)"
    using demo_sessions [of "''root''" t "Some RoleAdmin"] assms(6) by auto
  then have A: "accounts A = [demo_user ''u1'' RoleUser, demo_user ''root'' RoleSuperadmin]"
    using requireAuth_frame(1) [OF g] by (simp add: demo_auth_world_def)
  have c: "kyc_complete ?k" using assms(4) by (simp add: kyc_complete_def)
  have d: "ac_id (demo_user x r) = x" "ac_kycLevel (demo_user x r) = 1" "au_now (demo_auth t) = t" for x r
    by (simp_all add: demo_user_def new_account_def demo_auth_def)
  show ?thesis using assms g c A d
    by (auto simp: kyc_guarded_def demo_kyc_def reviewKyc_def Let_def find_kyc_def kyc_level_def account_of_store)
      (auto simp: account_of_def auditLog_def store_account_def)
qed


text \<open>
  the rejection of a record that had been approved does not take the level back: the account stays at level 2 with
  a rejected record.
\<close>

theorem rejection_keeps_level:
  assumes "reviewKyc en s i ''rejected'' nts W = (KycReviewed k, W')"
  shows "ky_status k = KycRejected \<and> kyc_level u W' = kyc_level u W"
  using assms level_reviewed [of en s i "''rejected''" nts W "KycReviewed k" W' u]
  by (auto simp: reviewKyc_def review_of_def Let_def split: option.splits if_splits)

theorem rejection_keeps_level_witness:
  "\<exists>W s nts W' k. reviewKyc (demo_kyc 5000) s ''k1'' ''rejected'' nts W = (KycReviewed k, W') \<and> ky_status k = KycRejected
     \<and> kyc_level ''u1'' W = Some 2 \<and> kyc_level ''u1'' W' = Some 2"
proof -
  define A where "A = store_account ((demo_user ''u1'' RoleUser)\<lparr>ac_kycLevel := 2\<rparr>) demo_auth_world"
  have "find_kyc (\<lambda>d. ky_id d = ''k1'') (demo_kyc_world\<lparr>kw_auth := A\<rparr>) = None" by (simp add: find_kyc_def demo_kyc_world_def)
  from demo_created [OF this, of 0 "''u1''" None RiskLow "mock_screen demo_form"] obtain k W
    where k: "kyc_create (demo_kyc 0) ''u1'' (demo_form\<lparr>kb_idDocumentUrl := None\<rparr>) RiskLow (mock_screen demo_form)
        (demo_kyc_world\<lparr>kw_auth := A\<rparr>) = Some (k, W)" "kyc_complete k" by blast
  have i: "ky_id k = ''k1''" using body_shape(8) [OF create_shape(1) [OF k(1)]] by (simp add: demo_form_def demo_kyc_def)
  have W: "kw_kycs W = [k]" "kw_auth W = A" using create_shape(2) [OF k(1)] by (simp_all add: demo_kyc_world_def)
  have l: "kyc_level ''u1'' W = Some 2"
    using W by (simp add: kyc_level_def A_def account_of_store)
      (simp add: account_of_def demo_auth_world_def demo_user_def new_account_def)
  obtain s W' k' where r: "reviewKyc (demo_kyc 5000) s ''k1'' ''rejected'' None W = (KycReviewed k', W')"
    using k(2) i W by (simp add: reviewKyc_def review_of_def demo_kyc_def find_kyc_def kyc_complete_def Let_def)
  from rejection_keeps_level [OF r, of "''u1''"] r l show ?thesis by metis
qed

section \<open>What is stored\<close>

text \<open>
  an accepted submission adds exactly one record, new and awaiting review, with the risk the screening gave; it
  belongs to the applicant unless the body named another account, and its protected fields read back as entered.
\<close>

theorem submission_is_stored:
  assumes "submitKYC en uid b W = (KycSubmitted i risk checks, W')" "opens_sealed (ke_fields en)"
  shows "\<exists>u k. uid = Some u \<and> kw_kycs W' = kw_kycs W @ [k] \<and> ky_id k = i \<and> i \<notin> ky_id ` set (kw_kycs W)
    \<and> ky_status k = KycPending \<and> ky_riskLevel k = risk_of checks \<and> risk = risk_of checks
    \<and> decryptPii (ke_fields en) (ky_pii k) = Inr (pii_of_body b) \<and> (kb_userId b = None \<longrightarrow> ky_userId k = u)"
proof -
  from submit_ok [OF assms(1)] obtain u W1 k W2 where o: "uid = Some u" "performAMLCheck en (Some b) W = (Some (checks, risk), W1)"
    "kyc_create en u b risk checks W1 = Some (k, W2)" "name_account en u b W2 = Some W'" "i = ky_id k" by metis
  have "risk = risk_of checks" using o(2) by (auto simp: performAMLCheck_def split: prod.splits)
  moreover have "kw_kycs W' = kw_kycs W @ [k]"
    using name_frame [OF o(4)] create_shape(2) [OF o(3)] screen_frame [OF o(2)] by simp
  moreover have "i \<notin> ky_id ` set (kw_kycs W)"
    using create_shape(3) [OF o(3)] screen_frame [OF o(2)] o(5) by (auto simp: find_kyc_def coll_find_None)
  ultimately show ?thesis
    using o(1,5) body_shape(1,2,6) [OF create_shape(1) [OF o(3)]] saved_fields_read [OF assms(2) body_shape(5) [OF create_shape(1) [OF o(3)]]]
    by (intro exI [of _ u] exI [of _ k]) simp
qed

lemma demo_submission:
  "\<exists>c W'. submitKYC (demo_kyc t) (Some ''u1'') (demo_form\<lparr>kb_idDocumentUrl := Some (''u1-'' @ f)\<rparr>) demo_kyc_world
    = (KycSubmitted ''k1'' RiskLow c, W')"
proof -
  let ?b = "demo_form\<lparr>kb_idDocumentUrl := Some (''u1-'' @ f)\<rparr>"
  let ?W = "demo_kyc_world\<lparr>kw_provider := Some MockAmlProvider\<rparr>"
  have "find_kyc (\<lambda>d. ky_id d = ''k1'') ?W = None" by (simp add: find_kyc_def demo_kyc_world_def)
  from demo_created [OF this, of t "''u1''" "Some (''u1-'' @ f)" RiskLow "mock_screen ?b"] obtain k W1
    where k: "kyc_create (demo_kyc t) ''u1'' ?b RiskLow (mock_screen ?b) ?W = Some (k, W1)" by blast
  have i: "ky_id k = ''k1''" using body_shape(8) [OF create_shape(1) [OF k]] by (simp add: demo_form_def demo_kyc_def)
  have p: "performAMLCheck (demo_kyc t) (Some ?b) demo_kyc_world = (Some (mock_screen ?b, RiskLow), ?W)"
    by (simp add: performAMLCheck_def screenAml_def getAmlProvider_def demo_kyc_def demo_kyc_world_def truthy_str_def risk_of_def
        mock_screen_def demo_form_def flag_set_def)
  obtain W2 where n: "name_account (demo_kyc t) ''u1'' ?b W1 = Some W2"
    using name_done [of "demo_kyc t"] by (force simp: demo_kyc_def)
  have "find_kyc (\<lambda>k. ky_userId k = ''u1'' \<and> (ky_status k = KycPending \<or> ky_status k = KycReview)) demo_kyc_world = None"
    by (simp add: find_kyc_def demo_kyc_world_def)
  then show ?thesis using p k n i by (simp add: submitKYC_def)
qed

theorem submission_is_stored_witness:
  "\<exists>c W' u k. submitKYC (demo_kyc 0) (Some ''u1'') (demo_form\<lparr>kb_idDocumentUrl := Some (''u1-'' @ ''a'')\<rparr>) demo_kyc_world
       = (KycSubmitted ''k1'' RiskLow c, W') \<and> Some ''u1'' = Some u \<and> kw_kycs W' = kw_kycs demo_kyc_world @ [k] \<and> ky_status k = KycPending"
proof -
  have f: "opens_sealed (ke_fields (demo_kyc 0))" using demo_fields_law by (simp add: demo_kyc_def)
  obtain c W' where s: "submitKYC (demo_kyc 0) (Some ''u1'') (demo_form\<lparr>kb_idDocumentUrl := Some (''u1-'' @ ''a'')\<rparr>) demo_kyc_world
       = (KycSubmitted ''k1'' RiskLow c, W')" using demo_submission by blast
  from submission_is_stored [OF s f] s show ?thesis by blast
qed

section \<open>Documents\<close>

text \<open>
  a document is served only for an existing record, to its owner or to an administrator, from the directory of the
  uploads, and each time it is served the view is on record where the log can be written.
\<close>

theorem kyc_document_access:
  assumes "getDocument en uid r i reason W = (KycFile f, W')"
  shows "\<exists>k \<in> set (kw_kycs W). ke_castId en i = Some (ky_id k) \<and> (uid = Some (ky_userId k) \<or> r \<noteq> RoleUser \<or> ky_userId k = ''undefined'')
    \<and> f = base_name (the (ky_idDocumentUrl k)) \<and> CHR ''/'' \<notin> set f
    \<and> (au_auditUp (ke_auth en) \<longrightarrow> (\<exists>v. kw_views W' = kw_views W @ [v] \<and> fst (snd (snd v)) = ky_id k))"
proof -
  from assms obtain i' k where k: "ke_castId en i = Some i'" "find_kyc (\<lambda>k. ky_id k = i') W = Some k"
    by (auto simp: getDocument_def split: option.splits)
  have m: "k \<in> set (kw_kycs W)" "ky_id k = i'" using coll_find_Some [OF k(2) [unfolded find_kyc_def]] by auto
  have o: "ky_userId k = or_else uid ''undefined'' \<or> r \<noteq> RoleUser" "f = base_name (the (ky_idDocumentUrl k))"
    "au_auditUp (ke_auth en) \<longrightarrow> kw_views W' = kw_views W @
      [(or_else uid ''undefined'', r \<noteq> RoleUser \<and> ky_userId k \<noteq> or_else uid ''undefined'', ky_id k, map_option (take 300) reason)]"
    using assms k by (auto simp: getDocument_def Let_def split: if_splits)
  have n: "CHR ''/'' \<notin> set f" unfolding o(2) by (auto simp: base_name_def dest: set_takeWhileD)
  have u: "uid = Some (ky_userId k) \<or> r \<noteq> RoleUser \<or> ky_userId k = ''undefined''"
    using o(1) by (cases uid) (auto simp: or_else_def)
  show ?thesis by (rule bexI [OF _ m(1)], intro conjI) (use k(1) m(2) o(2,3) n u in simp_all)
qed

lemma demo_document:
  "\<exists>k W W'. kw_kycs W = [k] \<and> ky_userId k = ''u1'' \<and> ky_id k = ''k1'' \<and> ky_idDocumentUrl k = Some ''u1-a''
     \<and> getDocument (demo_kyc 7) (Some ''u1'') RoleUser ''k1'' None W = (KycFile ''u1-a'', W')"
proof -
  let ?b = "demo_form\<lparr>kb_idDocumentUrl := Some (''u1-'' @ ''a'')\<rparr>"
  obtain c W where s: "submitKYC (demo_kyc 0) (Some ''u1'') ?b demo_kyc_world = (KycSubmitted ''k1'' RiskLow c, W)"
    using demo_submission by blast
  show ?thesis
  proof (rule submit_ok [OF s])
    fix u W1 k W2
    assume o: "Some ''u1'' = Some u" "performAMLCheck (demo_kyc 0) (Some ?b) demo_kyc_world = (Some (c, RiskLow), W1)"
      "kyc_create (demo_kyc 0) u ?b RiskLow c W1 = Some (k, W2)" "name_account (demo_kyc 0) u ?b W2 = Some W" "''k1'' = ky_id k"
    have W: "kw_kycs W = [k]"
      using name_frame [OF o(4)] create_shape(2) [OF o(3)] screen_frame [OF o(2)] by (simp add: demo_kyc_world_def)
    have k: "ky_userId k = ''u1''" "ky_idDocumentUrl k = Some ''u1-a''" "ky_id k = ''k1''"
      using body_shape(4,6) [OF create_shape(1) [OF o(3)]] o(1,5) by (simp_all add: demo_form_def)
    have b: "base_name ''u1-a'' = ''u1-a''" by code_simp
    have "\<exists>W'. getDocument (demo_kyc 7) (Some ''u1'') RoleUser ''k1'' None W = (KycFile ''u1-a'', W')"
      using W k b by (simp add: getDocument_def demo_kyc_def find_kyc_def or_else_def truthy_str_def Let_def)
    with W k show ?thesis by blast
  qed
qed

theorem kyc_document_access_witness:
  "\<exists>W W'. getDocument (demo_kyc 7) (Some ''u1'') RoleUser ''k1'' None W = (KycFile ''u1-a'', W') \<and> (\<exists>k \<in> set (kw_kycs W). ke_castId (demo_kyc 7) ''k1'' = Some (ky_id k)
     \<and> ''u1-a'' = base_name (the (ky_idDocumentUrl k)))"
proof -
  obtain W W' where d: "getDocument (demo_kyc 7) (Some ''u1'') RoleUser ''k1'' None W = (KycFile ''u1-a'', W')"
    using demo_document by blast
  from kyc_document_access [OF d] d show ?thesis by blast
qed

text \<open>The name of the document plays no part in a submission beyond the check of its beginning.\<close>

lemma body_url:
  "kyc_of_body en u (b\<lparr>kb_idDocumentUrl := x\<rparr>) r c = map_option (\<lambda>k. k\<lparr>ky_idDocumentUrl := x\<rparr>) (kyc_of_body en u b r c)"
  by (simp add: kyc_of_body_def pii_of_body_def map_option_bind o_def split: sum.splits)

lemma screen_url: "performAMLCheck en (Some (b\<lparr>kb_idDocumentUrl := x\<rparr>)) W = performAMLCheck en (Some b) W"
  by (simp add: performAMLCheck_def screenAml_def mock_screen_def buildRequestBody_def split: option.splits prod.splits aml_provider.splits)

lemma create_url:
  "kyc_create en u b r c W = Some (k, W') \<Longrightarrow>
   kyc_create en u (b\<lparr>kb_idDocumentUrl := x\<rparr>) r c W = Some (k\<lparr>ky_idDocumentUrl := x\<rparr>, W\<lparr>kw_kycs := kw_kycs W @ [k\<lparr>ky_idDocumentUrl := x\<rparr>]\<rparr>)"
  by (auto simp: kyc_create_def body_url split: option.splits if_splits)

lemma base_name_last:
  assumes "f \<noteq> []" "CHR ''/'' \<notin> set f"
  shows "base_name (d @ CHR ''/'' # f) = f"
proof -
  have r: "rev f \<noteq> []" "\<forall>c \<in> set (rev f). c \<noteq> CHR ''/''" using assms by auto
  then have "dropWhile (\<lambda>c. c = CHR ''/'') (rev f @ CHR ''/'' # rev d) = rev f @ CHR ''/'' # rev d"
    by (cases "rev f") auto
  moreover have "takeWhile (\<lambda>c. c \<noteq> CHR ''/'') (rev f @ CHR ''/'' # rev d) = rev f"
    using r(2) takeWhile_append2 [of "rev f" "\<lambda>c. c \<noteq> CHR ''/''"] by simp
  ultimately show ?thesis by (simp add: base_name_def)
qed

text \<open>
  the check that a document was uploaded by the applicant and the reduction of its name to the last component undo
  each other: an applicant whose submission is accepted can name, behind the own prefix and a slash, any file of the
  upload directory, the submission is accepted as well, and the file is then served to the applicant as the own document.
\<close>

theorem kyc_foreign_document_served:
  assumes "postSubmit en (Some u) (b\<lparr>kb_idDocumentUrl := Some (u @ ''-'' @ own)\<rparr>) W = (KycSubmitted i risk checks, W')"
    "kb_userId b = None" "ke_castId en i = Some i" "f \<noteq> []" "CHR ''/'' \<notin> set f" "ke_files en f"
  shows "\<exists>W1. postSubmit en (Some u) (b\<lparr>kb_idDocumentUrl := Some (u @ ''-/'' @ f)\<rparr>) W = (KycSubmitted i risk checks, W1)
    \<and> fst (getDocument en (Some u) RoleUser i reason W1) = KycFile f"
proof -
  let ?b = "b\<lparr>kb_idDocumentUrl := Some (u @ ''-'' @ own)\<rparr>" and ?c = "b\<lparr>kb_idDocumentUrl := Some (u @ ''-/'' @ f)\<rparr>"
  have v: "submit_valid ?b" and s: "submitKYC en (Some u) ?b W = (KycSubmitted i risk checks, W')"
    using assms(1) by (auto simp: postSubmit_def split: if_splits)
  from v have v': "submit_valid ?c" by (simp add: submit_valid_def truthy_str_def)
  show ?thesis
  proof (rule submit_ok [OF s])
    fix u' W1 k W2
    assume o: "Some u = Some u'" "find_kyc (\<lambda>k. ky_userId k = u' \<and> ky_status k \<in> {KycPending, KycReview}) W = None"
      "performAMLCheck en (Some ?b) W = (Some (checks, risk), W1)" "kyc_create en u' ?b risk checks W1 = Some (k, W2)"
      "name_account en u' ?b W2 = Some W'" "i = ky_id k"
    let ?k = "k\<lparr>ky_idDocumentUrl := Some (u @ ''-/'' @ f)\<rparr>" let ?W = "W1\<lparr>kw_kycs := kw_kycs W1 @ [?k]\<rparr>"
    have p: "performAMLCheck en (Some ?c) W = (Some (checks, risk), W1)" using o(3) by (simp only: screen_url)
    have c: "kyc_create en u ?c risk checks W1 = Some (?k, ?W)"
      using create_url [OF o(4), of "Some (u @ ''-/'' @ f)"] o(1) by simp
    have "W2 = W1\<lparr>kw_kycs := kw_kycs W1 @ [k]\<rparr>" by (rule create_shape(2) [OF o(4)])
    with o(5) o(1) obtain W3 where n: "name_account en u ?c ?W = Some W3"
      by (auto simp: name_account_def split: if_splits option.splits)
    have q: "ky_userId k = u" using body_shape(6) [OF create_shape(1) [OF o(4)]] assms(2) o(1) by simp
    have "find_kyc (\<lambda>k. ky_id k = i) W3 = Some ?k"
      using name_frame [OF n] create_shape(3) [OF o(4)] o(6) by (simp add: find_kyc_def coll_find_append)
    then have "fst (getDocument en (Some u) RoleUser i reason W3) = KycFile f"
      using assms(3,6) q base_name_last [OF assms(4,5), of "u @ ''-''"]
      by (simp add: getDocument_def or_else_def truthy_str_def Let_def)
    moreover have "postSubmit en (Some u) ?c W = (KycSubmitted i risk checks, W3)"
      using v' o(1,2,6) p c n by (simp add: postSubmit_def submitKYC_def prefix_def)
    ultimately show ?thesis by blast
  qed
qed

theorem kyc_foreign_document_served_witness:
  "\<exists>risk checks W1. postSubmit (demo_kyc 0) (Some ''u1'') (demo_form\<lparr>kb_idDocumentUrl := Some (''u1'' @ ''-/'' @ ''u9-5-passport.png'')\<rparr>) demo_kyc_world
      = (KycSubmitted ''k1'' risk checks, W1) \<and> fst (getDocument (demo_kyc 0) (Some ''u1'') RoleUser ''k1'' None W1) = KycFile ''u9-5-passport.png''"
proof -
  obtain c W' where s: "submitKYC (demo_kyc 0) (Some ''u1'') (demo_form\<lparr>kb_idDocumentUrl := Some (''u1-'' @ ''a'')\<rparr>) demo_kyc_world
       = (KycSubmitted ''k1'' RiskLow c, W')" using demo_submission by blast
  have v: "submit_valid (demo_form\<lparr>kb_idDocumentUrl := Some (''u1'' @ ''-'' @ ''a'')\<rparr>)"
    by (simp add: submit_valid_def demo_form_def truthy_str_def)
  have p: "postSubmit (demo_kyc 0) (Some ''u1'') (demo_form\<lparr>kb_idDocumentUrl := Some (''u1'' @ ''-'' @ ''a'')\<rparr>) demo_kyc_world
       = (KycSubmitted ''k1'' RiskLow c, W')" using v s by (simp add: postSubmit_def)
  have "kb_userId demo_form = None" "ke_castId (demo_kyc 0) ''k1'' = Some ''k1''" "ke_files (demo_kyc 0) ''u9-5-passport.png''"
    "''u9-5-passport.png'' \<noteq> []" "CHR ''/'' \<notin> set ''u9-5-passport.png''"
    by (simp_all add: demo_form_def demo_kyc_def)
  from kyc_foreign_document_served [OF p this(1,2,4,5,3)] show ?thesis by blast
qed

section \<open>The record a screening leaves\<close>

definition stuck :: "string \<Rightarrow> kyc_world \<Rightarrow> bool" where
  "stuck u W \<longleftrightarrow> distinct (map ky_id (kw_kycs W)) \<and>
     (\<exists>k \<in> set (kw_kycs W). ky_userId k = u \<and> ky_status k = KycPending \<and> \<not> kyc_complete k)"

lemma stuck_same: "kw_kycs W' = kw_kycs W \<Longrightarrow> stuck u W' = stuck u W"
  by (simp add: stuck_def)

lemma stuck_appended:
  "stuck u W \<Longrightarrow> find_kyc (\<lambda>d. ky_id d = ky_id k) W = None \<Longrightarrow> kw_kycs W' = kw_kycs W @ [k] \<Longrightarrow> stuck u W'"
  by (auto simp: stuck_def find_kyc_def coll_find_None)

lemma stuck_put:
  assumes "stuck u W" "k \<in> set (kw_kycs W)" "ky_id k' = ky_id k" "ky_userId k' = ky_userId k"
    "ky_status k' = ky_status k \<and> kyc_complete k' = kyc_complete k \<or> kyc_complete k" "kw_kycs W' = coll_put ky_id k' (kw_kycs W)"
  shows "stuck u W'"
proof -
  from assms(1) obtain x where x: "x \<in> set (kw_kycs W)" "ky_userId x = u" "ky_status x = KycPending" "\<not> kyc_complete x"
    and d: "distinct (map ky_id (kw_kycs W))" by (auto simp: stuck_def)
  have "\<exists>y \<in> set (kw_kycs W'). ky_userId y = u \<and> ky_status y = KycPending \<and> \<not> kyc_complete y"
  proof (cases "ky_id x = ky_id k")
    case True
    with d x(1) assms(2) have "x = k" by (metis distinct_map inj_onD)
    moreover have "k' \<in> set (kw_kycs W')" using assms(2,3,6) coll_put_self [of ky_id k' "kw_kycs W"] by (metis imageI)
    ultimately show ?thesis using x assms(4,5) by auto
  next
    case False
    then show ?thesis using x assms(3,6) coll_put_member [of x "kw_kycs W" ky_id k'] by auto
  qed
  with d show ?thesis by (simp add: stuck_def assms(6))
qed

lemma stuck_submit: "stuck u W \<Longrightarrow> stuck u (snd (postSubmit en v b W))"
proof -
  assume a: "stuck u W"
  obtain x W1 where p: "performAMLCheck en (Some b) W = (x, W1)" by force
  have a1: "stuck u W1" using a stuck_same screen_frame [OF p] by blast
  have c: "stuck u W2" if "kyc_create en w b risk checks W1 = Some (k, W2)" for w risk checks k W2
    using stuck_appended [OF a1 create_shape(3) [OF that]] create_shape(2) [OF that] by simp
  have n: "stuck u W3" if "name_account en w b W2 = Some W3" "stuck u W2" for w W2 W3
    using that stuck_same name_frame by blast
  show ?thesis using p a a1
    by (auto simp: postSubmit_def submitKYC_def dest: c n split: option.splits prod.splits)
qed

lemma stuck_aml: "stuck u W \<Longrightarrow> stuck u (snd (runAMLCheck en v d W))"
proof -
  assume a: "stuck u W"
  obtain x W1 where p: "performAMLCheck en d W = (x, W1)" by force
  have a1: "stuck u W1" using a stuck_same screen_frame [OF p] by blast
  have f: "stuck u (W1\<lparr>kw_kycs := coll_put ky_id (k\<lparr>ky_riskLevel := r, ky_amlChecks := c\<rparr>) (kw_kycs W1)\<rparr>)"
    if "find_kyc (\<lambda>k. ky_userId k = w) W1 = Some k" for w k r c
    by (rule stuck_put [OF a1, of k]) (use that in \<open>auto simp: find_kyc_def kyc_complete_def dest: coll_find_Some\<close>)
  have b: "stuck u (W1\<lparr>kw_kycs := kw_kycs W1 @ [bare_kyc en w r c]\<rparr>)"
    if "find_kyc (\<lambda>k. ky_id k = ke_newId en) W1 = None" for w r c
    by (rule stuck_appended [OF a1, of "bare_kyc en w r c"]) (use that in \<open>simp_all add: bare_kyc_def\<close>)
  show ?thesis using p a a1 f b
    by (simp add: runAMLCheck_def split: option.splits prod.splits) auto
qed

lemma stuck_review: "stuck u W \<Longrightarrow> stuck u (snd (reviewKyc en s i action nts W))"
proof -
  assume a: "stuck u W"
  have f: "stuck u (W\<lparr>kw_kycs := coll_put ky_id (k\<lparr>ky_status := st, ky_reviewedAt := r, ky_reviewedBy := v, ky_notes := n\<rparr>) (kw_kycs W), kw_auth := A\<rparr>)"
    "stuck u (W\<lparr>kw_kycs := coll_put ky_id (k\<lparr>ky_status := st, ky_reviewedAt := r, ky_reviewedBy := v, ky_notes := n\<rparr>) (kw_kycs W)\<rparr>)"
    if "find_kyc (\<lambda>k. ky_id k = i') W = Some k" "kyc_complete (k\<lparr>ky_status := st, ky_reviewedAt := r, ky_reviewedBy := v, ky_notes := n\<rparr>)" for i' k st r v n A
    by (rule stuck_put [OF a, of k]; use that in \<open>force simp: find_kyc_def kyc_complete_def dest: coll_find_Some\<close>)+
  show ?thesis using a f
    by (simp add: reviewKyc_def Let_def split: option.splits)
qed

lemma stuck_route: "stuck u W \<Longrightarrow> stuck u (snd (kyc_route en q W))"
proof -
  have g: "stuck u (snd (kyc_guarded en r rq h W))" if "stuck u W" "\<And>s v W. stuck u W \<Longrightarrow> stuck u (snd (h s v W))" for r rq h
  proof -
    obtain x W' where g: "kyc_guarded en r rq h W = (x, W')" by force
    from g show ?thesis
    proof (cases rule: guarded_world)
      case 1
      then show ?thesis using g that(1) by (simp add: stuck_def)
    next
      case (2 s A y)
      have "stuck u (W\<lparr>kw_auth := A\<rparr>)" using that(1) by (simp add: stuck_def)
      from that(2) [OF this, of s "document_id en s W"] 2(3) g show ?thesis by simp
    qed
  qed
  have "stuck u (snd (getDocument en v r i reason W))" if "stuck u W" for v r i reason W
    using that by (auto simp: getDocument_def Let_def stuck_def split: option.splits)
  then show "stuck u W \<Longrightarrow> ?thesis"
    by (cases q) (simp_all add: g stuck_submit stuck_aml stuck_review)
qed

text \<open>
  an account that asks for a screening before it has submitted anything gets a record that no review can decide and
  that counts as a submission in progress: whatever requests follow, the record stays, and no submission of the
  account is accepted any more.
\<close>

theorem screening_first_blocks_submission:
  assumes "runAMLCheck en (Some u) d W = (KycChecked risk checks, W')" "find_kyc (\<lambda>k. ky_userId k = u) W = None"
    "distinct (map ky_id (kw_kycs W))"
  shows "fst (postSubmit en' (Some u) b (kyc_requests qs W')) \<noteq> KycSubmitted i r c
    \<and> (\<exists>k \<in> set (kw_kycs (kyc_requests qs W')). ky_userId k = u \<and> ky_status k = KycPending \<and> \<not> kyc_complete k)"
proof -
  obtain x W1 where x: "performAMLCheck en d W = (x, W1)" by force
  then have n: "find_kyc (\<lambda>k. ky_userId k = u) W1 = None" using assms(2) screen_frame [OF x] by (simp add: find_kyc_def)
  from assms(1) x n have p: "performAMLCheck en d W = (Some (checks, risk), W1)" and
    i: "find_kyc (\<lambda>k. ky_id k = ke_newId en) W1 = None" and
    W': "W' = W1\<lparr>kw_kycs := kw_kycs W1 @ [bare_kyc en u risk checks]\<rparr>"
    by (simp_all add: runAMLCheck_def split: option.splits prod.splits if_splits)
  have "stuck u W'"
    using W' i screen_frame [OF p] assms(3)
    by (auto simp: stuck_def find_kyc_def coll_find_None bare_kyc_def kyc_complete_def truthy_str_def)
  then have s: "stuck u (kyc_requests qs W')"
    using stuck_route by (induction qs arbitrary: W') auto
  then obtain k where k: "k \<in> set (kw_kycs (kyc_requests qs W'))" "ky_userId k = u" "ky_status k = KycPending" "\<not> kyc_complete k"
    by (auto simp: stuck_def)
  then have "find_kyc (\<lambda>k. ky_userId k = u \<and> ky_status k \<in> {KycPending, KycReview}) (kyc_requests qs W') \<noteq> None"
    by (auto simp: find_kyc_def coll_find_None)
  then have "fst (postSubmit en' (Some u) b (kyc_requests qs W')) \<noteq> KycSubmitted i r c"
    by (auto simp: postSubmit_def submitKYC_def)
  with k show ?thesis by blast
qed

theorem screening_first_blocks_submission_witness:
  "\<exists>W'. runAMLCheck (demo_kyc 0) (Some ''u1'') (Some demo_form) demo_kyc_world = (KycChecked RiskLow (mock_screen demo_form), W')
     \<and> fst (postSubmit (demo_kyc 9) (Some ''u1'') demo_form (kyc_requests [(demo_kyc 5, AskReview (bearer ''root'') ''k1'' ''rejected'' None)] W'))
        \<noteq> KycSubmitted ''k1'' RiskLow (mock_screen demo_form)"
proof -
  obtain W' where r: "runAMLCheck (demo_kyc 0) (Some ''u1'') (Some demo_form) demo_kyc_world = (KycChecked RiskLow (mock_screen demo_form), W')"
    by (simp add: runAMLCheck_def performAMLCheck_def screenAml_def getAmlProvider_def demo_kyc_def demo_kyc_world_def truthy_str_def
        risk_of_def mock_screen_def demo_form_def flag_set_def find_kyc_def)
  have "find_kyc (\<lambda>k. ky_userId k = ''u1'') demo_kyc_world = None" "distinct (map ky_id (kw_kycs demo_kyc_world))"
    by (simp_all add: find_kyc_def demo_kyc_world_def)
  from screening_first_blocks_submission [OF r this] r show ?thesis by blast
qed

section \<open>The account from the cache\<close>

lemma fresh_account_cached:
  assumes "requireAuth en r rq A = (Inr s, A')" "claimed_user (se_payload s) = Some u" "getCachedUser en u A = None"
    "\<not> au_test en" "au_up en CacheWrite"
  shows "key_get t u (cachedUsers A') = (if t < au_now en + 120000 then Some (se_user s) else None)"
proof -
  from assms(1) obtain A1 where a: "session_account en (se_payload s) A = (Some (se_user s), A1)"
    "A' = (if r = None then markActiveToday en (ac_id (se_user s)) A1 else A1)" by (rule requireAuth_ok) blast
  have "cachedUsers A1 = key_set (au_now en) u (se_user s) cache_ttl (cachedUsers A)"
    using a(1) assms(2-5) by (auto simp: session_account_def setCachedUser_def Let_def split: option.splits if_splits)
  then have "cachedUsers A' = key_set (au_now en) u (se_user s) cache_ttl (cachedUsers A)" using a(2) by simp
  then show ?thesis by (simp add: key_get_def key_set_def live_def cache_ttl_def)
qed

text \<open>
  the answer to an applicant depends on where the guard found the account. The first request reads it from the
  database and gets the state of the own record; the same request again, in the two minutes the account is cached, is
  answered as if nobody were signed in, although it passed the guard.
\<close>

theorem cached_session_has_no_identity:
  assumes "requireAuth (ke_auth en) None rq (kw_auth W) = (Inr s, A)" "document_id en s W = Some u"
    "\<not> au_test (ke_auth en)" "au_up (ke_auth en) CacheWrite"
    "requireAuth (ke_auth en') None rq' A = (Inr s', A')" "claimed_user (se_payload s') = claimed_user (se_payload s)"
    "ke_now en' < ke_now en + 120000" "\<not> au_test (ke_auth en')" "au_up (ke_auth en') CacheRead"
  shows "\<exists>W1 W2. kyc_route en (AskStatus rq) W = (Inr (getKYCStatus en (Some u) W), W1)
    \<and> kyc_route en' (AskStatus rq') W1 = (Inr (KycError KycUnauthorized), W2)
    \<and> fst (kyc_route en' (AskSubmit rq' b) W1) \<noteq> Inr (KycSubmitted i r c)"
proof -
  let ?W1 = "W\<lparr>kw_auth := A\<rparr>"
  obtain v where v: "claimed_user (se_payload s) = Some v" "getCachedUser (ke_auth en) v (kw_auth W) = None"
    using assms(2) by (auto simp: document_id_def split: option.splits if_splits)
  have "document_id en' s' ?W1 = None"
    using fresh_account_cached [OF assms(1) v assms(3,4)] assms(6-9) v(1)
    by (simp add: document_id_def getCachedUser_def)
  then have "kyc_route en' (AskStatus rq') ?W1 = (Inr (KycError KycUnauthorized), ?W1\<lparr>kw_auth := A'\<rparr>)"
    "fst (kyc_route en' (AskSubmit rq' b) ?W1) \<noteq> Inr (KycSubmitted i r c)"
    using assms(5) by (simp_all add: kyc_guarded_def getKYCStatus_def postSubmit_def submitKYC_def)
  moreover have "kyc_route en (AskStatus rq) W = (Inr (getKYCStatus en (Some u) W), ?W1)"
    using assms(1,2) by (simp add: kyc_guarded_def getKYCStatus_def)
  ultimately show ?thesis by blast
qed

lemma demo_session_cached:
  assumes "tok \<in> {''u1'', ''root''}" "t < 7203000" "u < 7203000"
  shows "\<exists>s A s' A'. requireAuth (demo_auth t) None (bearer tok) demo_auth_world = (Inr s, A) \<and> se_payload s = demo_claims tok
    \<and> requireAuth (demo_auth u) None (bearer tok) A = (Inr s', A') \<and> se_payload s' = demo_claims tok
    \<and> ac_id (se_user s) = tok \<and> getCachedUser (demo_auth t) tok demo_auth_world = None"
proof -
  obtain A where g: "requireAuth (demo_auth t) None (bearer tok) demo_auth_world
     = (Inr \<lparr>se_user = (demo_user tok (if tok = ''root'' then RoleSuperadmin else RoleUser))\<lparr>ac_password := None\<rparr>,
         se_payload = demo_claims tok, se_method = BearerAuth\<rparr>, A)"
    using demo_sessions [OF assms(1,2)] by blast
  have c: "getCachedUser (demo_auth t) tok demo_auth_world = None"
    by (simp add: getCachedUser_def demo_auth_world_def key_get_def)
  have k: "key_get u tok (cachedUsers A) = (if u < t + 120000 then Some ((demo_user tok (if tok = ''root'' then RoleSuperadmin else RoleUser))\<lparr>ac_password := None\<rparr>) else None)"
    using fresh_account_cached [OF g _ c, of u] assms(1) by (auto simp: demo_claims_def claimed_user_def demo_auth_def)
  have f: "accounts A = [demo_user ''u1'' RoleUser, demo_user ''root'' RoleSuperadmin]" "deniedTokens A = (\<lambda>_. None)" "deniedUsers A = (\<lambda>_. None)"
    using requireAuth_frame [OF g] by (simp_all add: demo_auth_world_def)
  have a: "ac_id (demo_user x r) = x" "\<not> ac_banned (demo_user x r)" for x r by (simp_all add: demo_user_def new_account_def)
  have "\<exists>s' A'. requireAuth (demo_auth u) None (bearer tok) A = (Inr s', A') \<and> se_payload s' = demo_claims tok"
    using assms bearer_token f k a
    by (auto simp: requireAuth_def demo_auth_def demo_verify_def demo_claims_def isRevoked_def denied_user_def claimed_user_def
        key_get_def session_account_def getCachedUser_def account_of_def role_error_def truthy_str_def Let_def)
  with g c a show ?thesis by (auto simp: a)
qed

theorem cached_session_has_no_identity_witness:
  "\<exists>W1 W2. kyc_route (demo_kyc 5000) (AskStatus (bearer ''u1'')) demo_kyc_world = (Inr (getKYCStatus (demo_kyc 5000) (Some ''u1'') demo_kyc_world), W1)
    \<and> kyc_route (demo_kyc 65000) (AskStatus (bearer ''u1'')) W1 = (Inr (KycError KycUnauthorized), W2)"
proof -
  obtain s A s' A' where g: "requireAuth (demo_auth 5000) None (bearer ''u1'') demo_auth_world = (Inr s, A)" "se_payload s = demo_claims ''u1''"
    "requireAuth (demo_auth 65000) None (bearer ''u1'') A = (Inr s', A')" "se_payload s' = demo_claims ''u1''"
    "ac_id (se_user s) = ''u1''" "getCachedUser (demo_auth 5000) ''u1'' demo_auth_world = None"
    using demo_session_cached [of "''u1''" 5000 65000] by auto
  have k: "ke_auth (demo_kyc t) = demo_auth t" "kw_auth demo_kyc_world = demo_auth_world" "au_now (demo_auth t) = t"
    "au_up (demo_auth t) c" "\<not> au_test (demo_auth t)" for t c by (simp_all add: demo_kyc_def demo_kyc_world_def demo_auth_def)
  have d: "document_id (demo_kyc 5000) s demo_kyc_world = Some ''u1''"
    using g(2,5,6) by (simp add: document_id_def k demo_claims_def claimed_user_def truthy_str_def)
  have "claimed_user (se_payload s') = claimed_user (se_payload s)" using g by simp
  then show ?thesis
    using cached_session_has_no_identity [of "demo_kyc 5000" "bearer ''u1''" demo_kyc_world s A "''u1''" "demo_kyc 65000" "bearer ''u1''" s' A'] g(1,3) d
    by (simp only: k) force
qed

end
