(* ===== verification/Erasure.thy ===== *)
theory Erasure
  imports KycSafety Badge WithdrawalQueue
begin

text \<open>
  The export and the erasure of what the server keeps about a person (\<open>services/gdprService.js\<close>, \<open>routes/gdpr.js\<close>),
  over the identity records, the documents of the money flows, the badge purchases and the messages. Of notifications,
  keys and contracts only the owner matters. Each write of the erasure can fail; the writes before it stay.
\<close>

record privacy_world =
  pw_kyc :: kyc_world
  pw_money :: world
  pw_badges :: "badge_purchase list"
  pw_messages :: "(string \<times> string) list"
  pw_notifications :: "(string \<times> string) list"
  pw_apiKeys :: "(string \<times> string) list"
  pw_contracts :: "(string \<times> string) list"

abbreviation pw_auth :: "privacy_world \<Rightarrow> auth_world" where "pw_auth W \<equiv> kw_auth (pw_kyc W)"

datatype erase_step = DeleteOwned | RedactKyc | RedactMessages | RedactPhones | SaveAccount

record privacy_env =
  pv_kyc :: kyc_env
  pv_up :: "erase_step \<Rightarrow> bool"
  pv_compare :: "string \<Rightarrow> string \<Rightarrow> bool"

abbreviation pv_auth :: "privacy_env \<Rightarrow> auth_env" where "pv_auth en \<equiv> ke_auth (pv_kyc en)"

definition redacted :: string where "redacted = ''[erased]''"

text \<open>A document belongs to an account by its wallet, or by its phone number.\<close>

definition phoneOrWallet :: "account \<Rightarrow> string \<Rightarrow> string \<Rightarrow> bool" where
  "phoneOrWallet a wallet phone \<longleftrightarrow>
     truthy_str (ac_wallet a) \<and> ac_wallet a = Some wallet \<or> truthy_str (ac_phone a) \<and> ac_phone a = Some phone"

definition phoneOrWallet_opt :: "account \<Rightarrow> string option \<Rightarrow> string option \<Rightarrow> bool" where
  "phoneOrWallet_opt a wallet phone \<longleftrightarrow>
     truthy_str (ac_wallet a) \<and> ac_wallet a = wallet \<or> truthy_str (ac_phone a) \<and> ac_phone a = phone"

section \<open>Export\<close>

record user_data =
  ud_account :: account
  ud_kyc :: "(kyc \<times> (string \<times> string option) list) list"
  ud_settings :: "user_settings option"
  ud_apiKeys :: "(string \<times> string) list"
  ud_contracts :: "(string \<times> string) list"
  ud_notifications :: "(string \<times> string) list"
  ud_messages :: "(string \<times> string) list"
  ud_badgePurchases :: "badge_purchase list"
  ud_purchases :: "purchase list"
  ud_sales :: "sale list"
  ud_withdrawals :: "withdrawal list"
  ud_payouts :: "payout list"
  ud_activities :: "activity list"
  ud_recons :: "recon list"

fun decrypt_all :: "field_env \<Rightarrow> kyc list \<Rightarrow> field_error + (kyc \<times> (string \<times> string option) list) list" where
  "decrypt_all fe [] = Inr []"
| "decrypt_all fe (k # ks) =
     (case decryptPii fe (ky_pii k) of
        Inl e \<Rightarrow> Inl e
      | Inr p \<Rightarrow> map_sum id (\<lambda>r. (k, p) # r) (decrypt_all fe ks))"

definition gatherUserData :: "privacy_env \<Rightarrow> account \<Rightarrow> privacy_world \<Rightarrow> field_error + user_data" where
  "gatherUserData en a W =
     map_sum id (\<lambda>kycs. \<lparr>ud_account = a, ud_kyc = kycs,
         ud_settings = coll_find (\<lambda>s. us_user s = ac_id a) (user_settings (pw_auth W)),
         ud_apiKeys = filter (\<lambda>d. fst d = ac_id a) (pw_apiKeys W),
         ud_contracts = filter (\<lambda>d. fst d = ac_id a) (pw_contracts W),
         ud_notifications = filter (\<lambda>d. fst d = ac_id a) (pw_notifications W),
         ud_messages = filter (\<lambda>d. fst d = ac_id a) (pw_messages W),
         ud_badgePurchases = filter (\<lambda>d. phoneOrWallet a (bp_walletAddress d) (bp_phone d)) (pw_badges W),
         ud_purchases = filter (\<lambda>d. phoneOrWallet a (q_walletAddress d) (q_phone d)) (purchases (pw_money W)),
         ud_sales = filter (\<lambda>d. phoneOrWallet_opt a (Some (s_sellerAddress d)) (s_phone d)) (sales (pw_money W)),
         ud_withdrawals = filter (\<lambda>d. phoneOrWallet a (w_walletAddress d) (w_phone d)) (withdrawals (pw_money W)),
         ud_payouts = filter (\<lambda>d. phoneOrWallet a (p_sellerAddress d) (p_sellerPhone d)) (payouts (pw_money W)),
         ud_activities = filter (\<lambda>d. phoneOrWallet_opt a (a_walletAddress d) (a_phone d)) (activities (pw_money W)),
         ud_recons = filter (\<lambda>d. truthy_str (ac_wallet a) \<and> r_walletAddress d = the (ac_wallet a)) (recons (pw_money W))\<rparr>)
       (decrypt_all (ke_fields (pv_kyc en)) (filter (\<lambda>k. ky_userId k = ac_id a) (kw_kycs (pw_kyc W))))"

definition exportUserData :: "privacy_env \<Rightarrow> account \<Rightarrow> privacy_world \<Rightarrow> field_error + user_data" where
  "exportUserData en a W =
     map_sum id (\<lambda>d. d\<lparr>ud_account := (ud_account d)\<lparr>ac_password := None\<rparr>\<rparr>) (gatherUserData en a W)"

section \<open>Erasure\<close>

definition redact_kyc :: "int \<Rightarrow> kyc \<Rightarrow> kyc" where
  "redact_kyc now k = k\<lparr>ky_firstName := Some redacted, ky_lastName := Some redacted,
     ky_pii := map (\<lambda>f. (f, Some redacted)) [''idNumber'', ''phoneNumber'', ''address'', ''city'', ''postalCode''],
     ky_idDocumentUrl := None, ky_sourceOfFunds := Some redacted, ky_annualIncome := Some redacted,
     ky_notes := Some redacted, ky_erasedAt := Some now\<rparr>"

definition delete_owned :: "string \<Rightarrow> privacy_world \<Rightarrow> privacy_world" where
  "delete_owned u W = W\<lparr>
     pw_notifications := filter (\<lambda>d. fst d \<noteq> u) (pw_notifications W),
     pw_apiKeys := filter (\<lambda>d. fst d \<noteq> u) (pw_apiKeys W),
     pw_contracts := filter (\<lambda>d. fst d \<noteq> u) (pw_contracts W),
     pw_kyc := (pw_kyc W)\<lparr>kw_auth := (pw_auth W)\<lparr>user_settings := filter (\<lambda>s. us_user s \<noteq> u) (user_settings (pw_auth W))\<rparr>\<rparr>\<rparr>"

definition redact_kycs :: "int \<Rightarrow> string \<Rightarrow> privacy_world \<Rightarrow> privacy_world" where
  "redact_kycs now u W = W\<lparr>pw_kyc := (pw_kyc W)\<lparr>kw_kycs :=
     map (\<lambda>k. if ky_userId k = u then redact_kyc now k else k) (kw_kycs (pw_kyc W))\<rparr>\<rparr>"

definition redact_messages :: "string \<Rightarrow> privacy_world \<Rightarrow> privacy_world" where
  "redact_messages u W = W\<lparr>pw_messages :=
     map (\<lambda>d. if fst d = u then (fst d, ''[message deleted by user]'') else d) (pw_messages W)\<rparr>"

definition redact_money :: "account \<Rightarrow> world \<Rightarrow> world" where
  "redact_money a M = M\<lparr>
     purchases := map (\<lambda>d. if phoneOrWallet a (q_walletAddress d) (q_phone d) then d\<lparr>q_phone := redacted\<rparr> else d) (purchases M),
     withdrawals := map (\<lambda>d. if phoneOrWallet a (w_walletAddress d) (w_phone d) then d\<lparr>w_phone := redacted\<rparr> else d) (withdrawals M),
     activities := map (\<lambda>d. if phoneOrWallet_opt a (a_walletAddress d) (a_phone d) then d\<lparr>a_phone := Some redacted\<rparr> else d) (activities M),
     sales := map (\<lambda>d. if phoneOrWallet_opt a (Some (s_sellerAddress d)) (s_phone d) then d\<lparr>s_phone := Some redacted\<rparr> else d) (sales M),
     payouts := map (\<lambda>d. if phoneOrWallet a (p_sellerAddress d) (p_sellerPhone d) then d\<lparr>p_sellerPhone := redacted\<rparr> else d) (payouts M)\<rparr>"

definition redact_phones :: "account \<Rightarrow> privacy_world \<Rightarrow> privacy_world" where
  "redact_phones a W = W\<lparr>pw_money := redact_money a (pw_money W),
     pw_badges := map (\<lambda>d. if phoneOrWallet a (bp_walletAddress d) (bp_phone d) then d\<lparr>bp_phone := redacted\<rparr> else d) (pw_badges W)\<rparr>"

definition erased_email :: "string \<Rightarrow> string" where
  "erased_email u = ''erased-'' @ u @ ''@erased.mallchain.local''"

text \<open>Only the fields that were read and are changed here are written back to the stored account.\<close>

definition anonymised :: "int \<Rightarrow> account \<Rightarrow> account" where
  "anonymised now a = a\<lparr>ac_email := erased_email (ac_id a), ac_password := None, ac_googleId := None, ac_name := None,
     ac_username := None, ac_phone := None, ac_wallet := None, ac_banned := True, ac_erasedAt := Some now\<rparr>"

datatype erase_resp = Erased int | PasswordRequired | PasswordWrong | ErasureFailed

text \<open>
  \<open>eraseUserData\<close>: the account is saved last, by a method that only a document of the database has; on the object the
  guard takes from its cache the call throws.
\<close>

definition eraseUserData :: "privacy_env \<Rightarrow> bool \<Rightarrow> account \<Rightarrow> privacy_world \<Rightarrow> erase_resp \<times> privacy_world" where
  "eraseUserData en is_document a W =
     (let now = au_now (pv_auth en); u = ac_id a in
      if \<not> pv_up en DeleteOwned then (ErasureFailed, W)
      else let W1 = delete_owned u W in
      if \<not> pv_up en RedactKyc then (ErasureFailed, W1)
      else let W2 = redact_kycs now u W1 in
      if \<not> pv_up en RedactMessages then (ErasureFailed, W2)
      else let W3 = redact_messages u W2 in
      if \<not> pv_up en RedactPhones then (ErasureFailed, W3)
      else let W4 = redact_phones a W3 in
      if \<not> is_document \<or> \<not> pv_up en SaveAccount then (ErasureFailed, W4)
      else let A = (case account_of u (pw_auth W4) of
                      None \<Rightarrow> pw_auth W4
                    | Some b \<Rightarrow> store_account (anonymised now b) (pw_auth W4))
           in (Erased now, W4\<lparr>pw_kyc := (pw_kyc W4)\<lparr>kw_auth := auditLog (pv_auth en) ''gdpr_erasure'' u A\<rparr>\<rparr>))"

definition postDelete :: "privacy_env \<Rightarrow> bool \<Rightarrow> account \<Rightarrow> string option \<Rightarrow> privacy_world \<Rightarrow> erase_resp \<times> privacy_world" where
  "postDelete en is_document a password W =
     (if truthy_str (ac_password a) then
        (if \<not> truthy_str password then (PasswordRequired, W)
         else if \<not> pv_compare en (the password) (the (ac_password a)) then (PasswordWrong, W)
         else eraseUserData en is_document a W)
      else eraseUserData en is_document a W)"

definition deleteRoute :: "privacy_env \<Rightarrow> request \<Rightarrow> string option \<Rightarrow> privacy_world \<Rightarrow> (auth_error + erase_resp) \<times> privacy_world" where
  "deleteRoute en rq password W =
     (case requireAuth (pv_auth en) None rq (pw_auth W) of
        (Inl e, A) \<Rightarrow> (Inl e, W\<lparr>pw_kyc := (pw_kyc W)\<lparr>kw_auth := A\<rparr>\<rparr>)
      | (Inr s, A) \<Rightarrow>
          (case postDelete en (document_id (pv_kyc en) s (pw_kyc W) \<noteq> None) (se_user s) password
                  (W\<lparr>pw_kyc := (pw_kyc W)\<lparr>kw_auth := A\<rparr>\<rparr>) of
             (r, W1) \<Rightarrow> (Inr r, W1)))"

definition exportRoute :: "privacy_env \<Rightarrow> request \<Rightarrow> privacy_world \<Rightarrow> (auth_error + (field_error + user_data)) \<times> privacy_world" where
  "exportRoute en rq W =
     (case requireAuth (pv_auth en) None rq (pw_auth W) of
        (Inl e, A) \<Rightarrow> (Inl e, W\<lparr>pw_kyc := (pw_kyc W)\<lparr>kw_auth := A\<rparr>\<rparr>)
      | (Inr s, A) \<Rightarrow> (Inr (exportUserData en (se_user s) (W\<lparr>pw_kyc := (pw_kyc W)\<lparr>kw_auth := A\<rparr>\<rparr>)), W\<lparr>pw_kyc := (pw_kyc W)\<lparr>kw_auth := A\<rparr>\<rparr>))"

section \<open>What an erasure writes\<close>

lemma erase_frame:
  assumes "eraseUserData en dc a W = (Erased t, W')"
  shows "dc" "kw_kycs (pw_kyc W') = map (\<lambda>k. if ky_userId k = ac_id a then redact_kyc t k else k) (kw_kycs (pw_kyc W))"
    "pw_money W' = redact_money a (pw_money W)" "t = au_now (pv_auth en)"
    "accounts (pw_auth W') = accounts (case account_of (ac_id a) (pw_auth W) of None \<Rightarrow> pw_auth W
       | Some b \<Rightarrow> store_account (anonymised t b) (pw_auth W))"
    "cachedUsers (pw_auth W') = cachedUsers (pw_auth W)" "deniedTokens (pw_auth W') = deniedTokens (pw_auth W)"
    "deniedUsers (pw_auth W') = deniedUsers (pw_auth W)"
    "pw_messages W' = map (\<lambda>d. if fst d = ac_id a then (fst d, ''[message deleted by user]'') else d) (pw_messages W)"
    "filter (\<lambda>s. us_user s = ac_id a) (user_settings (pw_auth W')) = []"
    "\<forall>d \<in> set (pw_notifications W') \<union> set (pw_apiKeys W') \<union> set (pw_contracts W'). fst d \<noteq> ac_id a"
    "pw_badges W' = map (\<lambda>d. if phoneOrWallet a (bp_walletAddress d) (bp_phone d) then d\<lparr>bp_phone := redacted\<rparr> else d) (pw_badges W)"
proof -
  let ?W3 = "redact_messages (ac_id a) (redact_kycs (au_now (pv_auth en)) (ac_id a) (delete_owned (ac_id a) W))"
  let ?A = "pw_auth ?W3"
  have f: "accounts ?A = accounts (pw_auth W)" "cachedUsers ?A = cachedUsers (pw_auth W)" "deniedTokens ?A = deniedTokens (pw_auth W)"
    "deniedUsers ?A = deniedUsers (pw_auth W)" "user_settings ?A = filter (\<lambda>s. us_user s \<noteq> ac_id a) (user_settings (pw_auth W))"
    by (simp_all add: delete_owned_def redact_kycs_def redact_messages_def)
  have ao: "account_of (ac_id a) ?A = account_of (ac_id a) (pw_auth W)" using f(1) by (simp add: account_of_def)
  from assms have t: "t = au_now (pv_auth en)" and dc: "dc" and
    W': "W' = (redact_phones a ?W3)\<lparr>pw_kyc := (pw_kyc ?W3)\<lparr>kw_auth := auditLog (pv_auth en) ''gdpr_erasure'' (ac_id a)
        (case account_of (ac_id a) ?A of None \<Rightarrow> ?A | Some b \<Rightarrow> store_account (anonymised t b) ?A)\<rparr>\<rparr>"
    by (auto simp: eraseUserData_def Let_def redact_phones_def split: if_splits option.splits)
  have audit: "accounts (auditLog e x y B) = accounts B" "cachedUsers (auditLog e x y B) = cachedUsers B" "user_settings (auditLog e x y B) = user_settings B"
    "deniedTokens (auditLog e x y B) = deniedTokens B" "deniedUsers (auditLog e x y B) = deniedUsers B" for e x y B
    by (simp_all add: auditLog_def)
  show "t = au_now (pv_auth en)" "dc" by (rule t, rule dc)
  show "kw_kycs (pw_kyc W') = map (\<lambda>k. if ky_userId k = ac_id a then redact_kyc t k else k) (kw_kycs (pw_kyc W))"
    "pw_money W' = redact_money a (pw_money W)"
    "pw_messages W' = map (\<lambda>d. if fst d = ac_id a then (fst d, ''[message deleted by user]'') else d) (pw_messages W)"
    "\<forall>d \<in> set (pw_notifications W') \<union> set (pw_apiKeys W') \<union> set (pw_contracts W'). fst d \<noteq> ac_id a"
    "pw_badges W' = map (\<lambda>d. if phoneOrWallet a (bp_walletAddress d) (bp_phone d) then d\<lparr>bp_phone := redacted\<rparr> else d) (pw_badges W)"
    by (auto simp: W' t redact_phones_def delete_owned_def redact_kycs_def redact_messages_def)
  show "accounts (pw_auth W') = accounts (case account_of (ac_id a) (pw_auth W) of None \<Rightarrow> pw_auth W
       | Some b \<Rightarrow> store_account (anonymised t b) (pw_auth W))"
    using f(1) by (simp add: W' audit ao store_account_def split: option.splits)
  show "cachedUsers (pw_auth W') = cachedUsers (pw_auth W)" "deniedTokens (pw_auth W') = deniedTokens (pw_auth W)"
    "deniedUsers (pw_auth W') = deniedUsers (pw_auth W)"
    using f by (simp_all add: W' audit store_account_def split: option.splits)
  show "filter (\<lambda>s. us_user s = ac_id a) (user_settings (pw_auth W')) = []"
    using f(5) by (simp add: W' audit store_account_def split: option.splits)
qed

lemma redact_money_frame [simp]:
  "outbox (redact_money a M) = outbox M" "map w_withdrawalId (withdrawals (redact_money a M)) = map w_withdrawalId (withdrawals M)"
  "map w_amountKes (withdrawals (redact_money a M)) = map w_amountKes (withdrawals M)"
  "map w_status (withdrawals (redact_money a M)) = map w_status (withdrawals M)"
  "map p_amount (payouts (redact_money a M)) = map p_amount (payouts M)"
  "map q_amount (purchases (redact_money a M)) = map q_amount (purchases M)"
  by (simp_all add: redact_money_def)


text \<open>
  a cash-out of the account that is still held for liquidity when the account is erased, or one of anybody whose
  phone number the account gives as its own, is released all the same: the signed transfer is broadcast, and every
  payout it asks for goes to the erased marker instead of a phone.
\<close>

theorem erasure_redirects_payout:
  assumes "eraseUserData en dc a W = (Erased t, W')" "w \<in> set (withdrawals (pw_money W))"
    "phoneOrWallet a (w_walletAddress w) (w_phone w)"
    "releaseQueuedWithdrawal qe (w\<lparr>w_phone := redacted\<rparr>) (pw_money W') = (Released, M)"
  shows "w\<lparr>w_phone := redacted\<rparr> \<in> set (withdrawals (pw_money W'))
    \<and> (\<exists>bytes b n k. outbox M = outbox (pw_money W) @ EBroadcast bytes # b \<and> (\<forall>k p. EB2C k p \<in> set b \<longrightarrow> p = redacted))"
proof -
  let ?w = "w\<lparr>w_phone := redacted\<rparr>"
  note f = erase_frame [OF assms(1)]
  have m: "?w \<in> set (withdrawals (pw_money W'))"
    unfolding f(3) using assms(2,3) by (force simp: redact_money_def)
  have o: "outbox (pw_money W') = outbox (pw_money W)" by (simp add: f(3))
  from assms(4) have "\<exists>bytes b. outbox M = outbox (pw_money W') @ EBroadcast bytes # b \<and> (\<forall>k p. EB2C k p \<in> set b \<longrightarrow> p = redacted)"
  proof (cases rule: release_cases)
    case (settled sale resp W1)
    have s: "settle_status resp = 200" using settled(6) by simp
    from settled(5) have "\<exists>b. outbox W1 = outbox (pw_money W') @ EBroadcast (qe_dec qe (the (s_pendingTxBytes sale))) # b
      \<and> (\<forall>k p. EB2C k p \<in> set b \<longrightarrow> p = redacted)"
    proof (cases rule: settlement_cases)
      case (accepted tx)
      from accepted(3) show ?thesis
      proof (cases rule: settle_accepted_cases)
        case (step bu sale1 wd' ref n k)
        then show ?thesis by (auto simp: frame_simps split: if_splits)
      qed
    qed (use s in \<open>auto simp: refusal_defs split: if_splits\<close>)
    then obtain b where b: "outbox W1 = outbox (pw_money W') @ EBroadcast (qe_dec qe (the (s_pendingTxBytes sale))) # b"
      "\<forall>k p. EB2C k p \<in> set b \<longrightarrow> p = redacted" by blast
    from settled(8) obtain ns where "outbox M = outbox W1 @ ns" "\<forall>k p. EB2C k p \<notin> set ns"
      using notify_outbox [of qe ?w W1] by fastforce
    with b show ?thesis by (intro exI conjI allI impI) auto
  qed (use assms(4) in simp)
  with m o show ?thesis by simp
qed

section \<open>Who can erase\<close>

definition cache_clean :: "auth_world \<Rightarrow> bool" where
  "cache_clean A \<longleftrightarrow> (\<forall>u v x. cachedUsers A u = Some (v, x) \<longrightarrow> ac_password v = None)"

lemma cache_cleanD: "cache_clean A \<Longrightarrow> cachedUsers A u = Some (v, x) \<Longrightarrow> ac_password v = None"
  unfolding cache_clean_def by iprover

lemma cache_clean_set: "cache_clean A \<Longrightarrow> cachedUsers A' = key_set t u v ttl (cachedUsers A) \<Longrightarrow> ac_password v = None \<Longrightarrow> cache_clean A'"
  by (simp add: cache_clean_def key_set_def)

lemma session_account_password: "session_account en c A = (Some a, A1) \<Longrightarrow> cache_clean A \<Longrightarrow> ac_password a = None"
  by (auto simp: session_account_def getCachedUser_def key_get_def Let_def dest: cache_cleanD split: option.splits if_splits)

lemma guard_no_password:
  assumes "requireAuth en r rq A = (Inr s, A')" "cache_clean A"
  shows "ac_password (se_user s) = None" "cache_clean A'"
proof -
  obtain A1 where a: "session_account en (se_payload s) A = (Some (se_user s), A1)" using assms(1) by (rule requireAuth_ok)
  show "ac_password (se_user s) = None" by (rule session_account_password [OF a assms(2)])
  show "cache_clean A'" using requireAuth_cache [OF assms(1)]
  proof (elim disjE exE conjE)
    assume "cachedUsers A' = cachedUsers A"
    then show ?thesis using assms(2) by (simp add: cache_clean_def)
  qed (rule cache_clean_set [OF assms(2)], assumption, simp)
qed

text \<open>
  an erasure never asks for the password. The guard hands the account on without its hash, so the question whether
  the account has a password is always answered no: a request without a password, or with any, does what a request with
  the right one does.
\<close>

theorem erasure_without_password:
  assumes "cache_clean (pw_auth W)"
  shows "deleteRoute en rq password W = deleteRoute en rq None W
    \<and> fst (deleteRoute en rq password W) \<notin> {Inr PasswordRequired, Inr PasswordWrong}"
proof (cases "fst (requireAuth (pv_auth en) None rq (pw_auth W))")
  case (Inl e)
  then show ?thesis by (auto simp: deleteRoute_def split: prod.splits)
next
  case (Inr s)
  then obtain A where g: "requireAuth (pv_auth en) None rq (pw_auth W) = (Inr s, A)" by (metis prod.collapse)
  have p: "postDelete en d (se_user s) password X = eraseUserData en d (se_user s) X" for d X password
    using guard_no_password(1) [OF g assms] by (simp add: postDelete_def truthy_str_def)
  have e: "fst (eraseUserData en d a X) \<notin> {PasswordRequired, PasswordWrong}" for d a X
    by (simp add: eraseUserData_def Let_def)
  show ?thesis using g e by (auto simp: deleteRoute_def p split: prod.splits) (metis fst_conv)+
qed

text \<open>
  an erasure asked for while the account is cached is carried out on everything except the account: the settings
  are deleted and the identity records redacted, the answer is a failure, and the account keeps its address, its
  credentials and its access.
\<close>

theorem erasure_from_cache_is_partial:
  assumes "requireAuth (pv_auth en) None rq (pw_auth W) = (Inr s, A)" "document_id (pv_kyc en) s (pw_kyc W) = None"
    "cache_clean (pw_auth W)" "\<forall>st. pv_up en st"
  shows "\<exists>W'. deleteRoute en rq password W = (Inr ErasureFailed, W') \<and> accounts (pw_auth W') = accounts (pw_auth W)
    \<and> filter (\<lambda>x. us_user x = ac_id (se_user s)) (user_settings (pw_auth W')) = []
    \<and> (\<forall>k \<in> set (kw_kycs (pw_kyc W')). ky_userId k = ac_id (se_user s) \<longrightarrow> ky_firstName k = Some redacted)"
proof -
  have p: "ac_password (se_user s) = None" by (rule guard_no_password(1) [OF assms(1,3)])
  have "accounts A = accounts (pw_auth W)" using requireAuth_frame(1) [OF assms(1)] .
  then show ?thesis using assms(1,2,4) p
    by (auto simp: deleteRoute_def postDelete_def truthy_str_def eraseUserData_def Let_def redact_phones_def redact_messages_def
        redact_kycs_def delete_owned_def redact_kyc_def)
qed

text \<open>
  the erasure does not touch the cache the guard has just filled: for the rest of the two minutes the same token
  passes the guard, as the account it was before.
\<close>

theorem erased_session_still_passes:
  assumes "requireAuth (pv_auth en) None rq (pw_auth W) = (Inr s, A)" "deleteRoute en rq password W = (Inr (Erased t), W')"
    "au_up (pv_auth en) CacheWrite" "\<not> au_test (pv_auth en)" "\<not> au_test en'" "au_up en' CacheRead" "au_secret en'"
    "request_token rq = Inr (tok, BearerAuth)" "au_verify en' (au_now en') tok = Some (se_payload s)"
    "\<not> isRevoked en' (se_payload s) (pw_auth W')" "au_now en' < au_now (pv_auth en) + 120000"
    "account_of (ac_id (se_user s)) (pw_auth W) \<noteq> None"
  shows "\<exists>s' A'. requireAuth en' None rq (pw_auth W') = (Inr s', A') \<and> se_user s' = se_user s
    \<and> (\<exists>b. account_of (ac_id (se_user s)) (pw_auth W') = Some b \<and> ac_banned b)"
proof -
  let ?W = "W\<lparr>pw_kyc := (pw_kyc W)\<lparr>kw_auth := A\<rparr>\<rparr>"
  obtain r where p: "postDelete en (document_id (pv_kyc en) s (pw_kyc W) \<noteq> None) (se_user s) password ?W = (r, W')" "r = Erased t"
    using assms(1,2) by (auto simp: deleteRoute_def split: prod.splits)
  then have e: "eraseUserData en (document_id (pv_kyc en) s (pw_kyc W) \<noteq> None) (se_user s) ?W = (Erased t, W')"
    by (auto simp: postDelete_def split: if_splits)
  note f = erase_frame [OF e]
  obtain u where u: "claimed_user (se_payload s) = Some u" "getCachedUser (pv_auth en) u (pw_auth W) = None"
    using f(1) by (auto simp: document_id_def split: option.splits if_splits)
  have "key_get (au_now en') u (cachedUsers (pw_auth W')) = Some (se_user s)"
    using fresh_account_cached [OF assms(1) u assms(4,3)] f(6) assms(11) by simp
  then have "session_account en' (se_payload s) (pw_auth W') = (Some (se_user s), pw_auth W')"
    using u(1) assms(5,6) by (simp add: session_account_def getCachedUser_def)
  moreover have "\<not> ac_banned (se_user s)" using assms(1) by (rule requireAuth_ok)
  ultimately have g: "\<exists>A'. requireAuth en' None rq (pw_auth W') = (Inr \<lparr>se_user = se_user s, se_payload = se_payload s, se_method = BearerAuth\<rparr>, A')"
    using assms(7-10) by (simp add: requireAuth_def role_error_def)
  obtain b where b: "account_of (ac_id (se_user s)) A = Some b"
    using assms(12) requireAuth_frame(1) [OF assms(1)] by (auto simp: account_of_def)
  have "account_of (ac_id (se_user s)) (pw_auth W') = account_of (ac_id (se_user s)) (store_account (anonymised t b) A)"
    using f(5) b by (simp add: account_of_def)
  then have "account_of (ac_id (se_user s)) (pw_auth W') = Some (anonymised t b)"
    using b find_id [OF b] by (simp add: account_of_store anonymised_def)
  then have "\<exists>b. account_of (ac_id (se_user s)) (pw_auth W') = Some b \<and> ac_banned b" by (simp add: anonymised_def)
  with g show ?thesis by fastforce
qed

section \<open>Applications\<close>

definition demo_priv_env :: "int \<Rightarrow> privacy_env" where
  "demo_priv_env t = \<lparr>pv_kyc = demo_kyc t, pv_up = (\<lambda>_. True), pv_compare = (\<lambda>p h. h = ''#'' @ p)\<rparr>"

text \<open>Another customer's cash-out is held; the account has given that customer's phone as its own.\<close>

definition demo_held_sale :: sale where
  "demo_held_sale = demo_sale\<lparr>s_saleId := ''a'', s_status := SQueuedLiquidity, s_pendingTxBytes := Some ''v1:AA''\<rparr>"

definition demo_priv_world :: privacy_world where
  "demo_priv_world = \<lparr>pw_kyc = demo_kyc_world,
     pw_money = empty_world\<lparr>sales := [demo_held_sale], withdrawals := [demo_held_wd ''a'' 5 900]\<rparr>, pw_badges = [],
     pw_messages = [(''u1'', ''hello'')], pw_notifications = [], pw_apiKeys = [], pw_contracts = []\<rparr>"

definition demo_eraser :: account where
  "demo_eraser = (demo_user ''u1'' RoleUser)\<lparr>ac_password := None, ac_phone := Some (w_phone demo_wd)\<rparr>"

lemma demo_erase: "\<exists>W'. eraseUserData (demo_priv_env 5000) True demo_eraser demo_priv_world = (Erased 5000, W')"
  by (simp add: eraseUserData_def demo_priv_env_def Let_def demo_kyc_def demo_auth_def)


lemma release_ok:
  assumes "w_saleId wd = Some i" "find_sale i W = Some sale" "truthy_str (s_pendingTxBytes sale)"
    "truthy_str (Some (qe_dec en (the (s_pendingTxBytes sale))))"
    "br_ok (broadcastSignedTx (qe_settle en (w_withdrawalId wd)) (qe_dec en (the (s_pendingTxBytes sale))))"
  shows "\<exists>W'. releaseQueuedWithdrawal en wd W = (Released, W')"
proof -
  let ?x = "executeSellSettlement (qe_settle en (w_withdrawalId wd)) (cleared_sale sale) wd
      (Some (qe_dec en (the (s_pendingTxBytes sale)))) (w_amountMlcns wd) (w_phone wd) (w_walletAddress wd) (s_saleId sale) (w_amountKes wd) W"
  have "settle_status (fst ?x) = 200" using assms(4,5) by (simp add: settlement_status_200)
  then show ?thesis using assms(1-3) by (cases ?x) (simp add: releaseQueuedWithdrawal_def)
qed

theorem erasure_redirects_payout_witness:
  "\<exists>W' M bytes b. eraseUserData (demo_priv_env 5000) True demo_eraser demo_priv_world = (Erased 5000, W')
     \<and> releaseQueuedWithdrawal ((demo_queue_env 500)\<lparr>qe_settle := (\<lambda>_. demo_settle_env (Inr (Some ''TX'', 0, None)))\<rparr>)
          ((demo_held_wd ''a'' 5 900)\<lparr>w_phone := redacted\<rparr>) (pw_money W') = (Released, M)
     \<and> outbox M = EBroadcast bytes # b \<and> (\<forall>k p. EB2C k p \<in> set b \<longrightarrow> p = redacted)"
proof -
  let ?qe = "(demo_queue_env 500)\<lparr>qe_settle := (\<lambda>_. demo_settle_env (Inr (Some ''TX'', 0, None)))\<rparr>"
  let ?w = "demo_held_wd ''a'' 5 900"
  obtain W' where e: "eraseUserData (demo_priv_env 5000) True demo_eraser demo_priv_world = (Erased 5000, W')" using demo_erase by blast
  have m: "?w \<in> set (withdrawals (pw_money demo_priv_world))" by (simp add: demo_priv_world_def)
  have p: "phoneOrWallet demo_eraser (w_walletAddress ?w) (w_phone ?w)"
    by (simp add: phoneOrWallet_def demo_eraser_def demo_held_wd_def truthy_str_def) (simp add: demo_wd_def)
  define sale where "sale = (if phoneOrWallet_opt demo_eraser (Some (s_sellerAddress demo_held_sale)) (s_phone demo_held_sale)
    then demo_held_sale\<lparr>s_phone := Some redacted\<rparr> else demo_held_sale)"
  have f: "find_sale ''a'' (pw_money W') = Some sale"
    by (simp add: erase_frame(3) [OF e] redact_money_def find_sale_def demo_priv_world_def sale_def)
      (simp add: demo_held_sale_def)
  have b: "s_pendingTxBytes sale = Some ''v1:AA''" by (simp add: sale_def demo_held_sale_def)
  have t: "truthy_str (s_pendingTxBytes sale)" "truthy_str (Some (qe_dec ?qe (the (s_pendingTxBytes sale))))"
    by (simp_all add: b truthy_str_def demo_queue_env_def)
  obtain M where r: "releaseQueuedWithdrawal ?qe (?w\<lparr>w_phone := redacted\<rparr>) (pw_money W') = (Released, M)"
    using release_ok [OF _ f, of "?w\<lparr>w_phone := redacted\<rparr>" ?qe] t demo_ok by (auto simp: demo_held_wd_def)
  have o: "outbox (pw_money demo_priv_world) = []" by (simp add: demo_priv_world_def empty_world_def Let_def)
  from erasure_redirects_payout [OF e m p r] o e r show ?thesis by auto
qed

lemma demo_clean: "cache_clean (pw_auth demo_priv_world)"
  by (simp add: cache_clean_def demo_priv_world_def demo_kyc_world_def demo_auth_world_def)

theorem erasure_without_password_witness:
  "deleteRoute (demo_priv_env 5000) (bearer ''u1'') (Some ''guess'') demo_priv_world = deleteRoute (demo_priv_env 5000) (bearer ''u1'') None demo_priv_world
    \<and> fst (deleteRoute (demo_priv_env 5000) (bearer ''u1'') (Some ''guess'') demo_priv_world) \<notin> {Inr PasswordRequired, Inr PasswordWrong}"
  by (rule erasure_without_password [OF demo_clean])

lemma demo_priv_facts: "pv_auth (demo_priv_env t) = demo_auth t" "pw_auth demo_priv_world = demo_auth_world" "au_now (demo_auth t) = t"
    "au_up (demo_auth t) c" "\<not> au_test (demo_auth t)" "au_secret (demo_auth t)" "\<forall>st. pv_up (demo_priv_env t) st" "au_verify (demo_auth t) = demo_verify"
  by (simp_all add: demo_priv_env_def demo_kyc_def demo_priv_world_def demo_kyc_world_def demo_auth_def)

theorem erased_session_still_passes_witness:
  "\<exists>W' s' A'. deleteRoute (demo_priv_env 5000) (bearer ''u1'') None demo_priv_world = (Inr (Erased 5000), W')
     \<and> requireAuth (demo_auth 65000) None (bearer ''u1'') (pw_auth W') = (Inr s', A')
     \<and> (\<exists>b. account_of ''u1'' (pw_auth W') = Some b \<and> ac_banned b)"
proof -
  obtain s A where g: "requireAuth (demo_auth 5000) None (bearer ''u1'') demo_auth_world = (Inr s, A)" "se_payload s = demo_claims ''u1''"
    "ac_id (se_user s) = ''u1''" "getCachedUser (demo_auth 5000) ''u1'' demo_auth_world = None"
    using demo_session_cached [of "''u1''" 5000 65000] by auto
  have d: "document_id (pv_kyc (demo_priv_env 5000)) s (pw_kyc demo_priv_world) \<noteq> None"
    using g(2,4) demo_priv_facts by (simp add: document_id_def demo_claims_def claimed_user_def truthy_str_def)
  have c: "claimed_user (se_payload s) = Some ''u1''" using g(2) by (simp add: demo_claims_def claimed_user_def)
  have n: "ac_password (se_user s) = None" using guard_no_password(1) [OF g(1)] demo_clean demo_priv_facts(2) by simp
  obtain W' where w: "deleteRoute (demo_priv_env 5000) (bearer ''u1'') None demo_priv_world = (Inr (Erased 5000), W')"
    and e: "eraseUserData (demo_priv_env 5000) True (se_user s) (demo_priv_world\<lparr>pw_kyc := (pw_kyc demo_priv_world)\<lparr>kw_auth := A\<rparr>\<rparr>) = (Erased 5000, W')"
    using g(1) d n by (simp add: deleteRoute_def demo_priv_facts postDelete_def truthy_str_def eraseUserData_def Let_def)
  have "deniedTokens A = (\<lambda>_. None)" "deniedUsers A = (\<lambda>_. None)"
    using requireAuth_frame [OF g(1)] by (simp_all add: demo_auth_world_def)
  then have "deniedTokens (pw_auth W') = (\<lambda>_. None)" "deniedUsers (pw_auth W') = (\<lambda>_. None)"
    using erase_frame(7,8) [OF e] by simp_all
  then have r: "\<not> isRevoked (demo_auth 65000) (se_payload s) (pw_auth W')"
    by (simp add: isRevoked_def denied_user_def key_get_def Let_def)
  have a: "account_of (ac_id (se_user s)) (pw_auth demo_priv_world) \<noteq> None"
    by (simp add: g(3) demo_priv_facts account_of_def demo_auth_world_def) (simp add: demo_user_def)
  have v: "au_verify (demo_auth 65000) 65000 ''u1'' = Some (se_payload s)" by (simp add: demo_priv_facts demo_verify_def g(2))
  show ?thesis
    using erased_session_still_passes [of "demo_priv_env 5000" "bearer ''u1''" demo_priv_world s A None 5000 W' "demo_auth 65000" "''u1''"]
      g(1) w r a v bearer_token(1) w g(3)
    by (simp only: demo_priv_facts) force
qed

theorem erasure_from_cache_is_partial_witness:
  "\<exists>W W'. deleteRoute (demo_priv_env 65000) (bearer ''u1'') (Some ''secret'') W = (Inr ErasureFailed, W') \<and> accounts (pw_auth W') = accounts (pw_auth W)"
proof -
  obtain s A s' A' where g: "requireAuth (demo_auth 5000) None (bearer ''u1'') demo_auth_world = (Inr s, A)" "se_payload s = demo_claims ''u1''"
    "requireAuth (demo_auth 65000) None (bearer ''u1'') A = (Inr s', A')" "se_payload s' = demo_claims ''u1''"
    "ac_id (se_user s) = ''u1''" "getCachedUser (demo_auth 5000) ''u1'' demo_auth_world = None"
    using demo_session_cached [of "''u1''" 5000 65000] by auto
  define W where "W = demo_priv_world\<lparr>pw_kyc := demo_kyc_world\<lparr>kw_auth := A\<rparr>\<rparr>"
  have W: "pw_auth W = A" by (simp add: W_def)
  have c: "cache_clean A" using guard_no_password(2) [OF g(1)] demo_clean demo_priv_facts(2) by simp
  have u: "claimed_user (demo_claims ''u1'') = Some ''u1''" by (simp add: demo_claims_def claimed_user_def)
  have "key_get 65000 ''u1'' (cachedUsers A) = Some (se_user s)"
    using fresh_account_cached [OF g(1) _ g(6)] u g(2) by (simp add: demo_priv_facts)
  then have d: "document_id (pv_kyc (demo_priv_env 65000)) s' (pw_kyc W) = None"
    by (simp add: document_id_def g(4) u W demo_priv_facts getCachedUser_def)
  have g': "requireAuth (pv_auth (demo_priv_env 65000)) None (bearer ''u1'') (pw_auth W) = (Inr s', A')" using g(3) by (simp add: demo_priv_facts W)
  from erasure_from_cache_is_partial [OF g' d _ demo_priv_facts(7), of "Some ''secret''"] c W show ?thesis by auto
qed

end
