(* ===== verification/InputValidation.thy ===== *)
theory InputValidation
  imports AdminUsers
begin

text \<open>
  What a request body passes before a handler sees it (\<open>middleware/inputValidation.js\<close>): the limit on its size, the
  search for database operators, the removal of markup and the schemas of the account routes; and the copy of a body
  that may be logged (\<open>middleware/sanitizeSensitive.js\<close>). The removal of markup and the check of an address are
  packages and parameters.
\<close>

datatype json =
    JsNull
  | JsBool bool
  | JsNum num
  | JsText string
  | JsArray "json list"
  | JsObject "(string \<times> json) list"

section \<open>The size of a body\<close>

definition parse_int :: "string \<Rightarrow> nat option" where
  "parse_int s =
     (let ds = takeWhile is_digit (dropWhile js_space s) in
      if ds = [] then None else Some (fold (\<lambda>c n. 10 * n + (of_char c - 48)) ds 0))"

text \<open>A request without the header, or with one that is no number, has no limit.\<close>

definition limitPayloadSize :: "num \<Rightarrow> string option \<Rightarrow> bool" where
  "limitPayloadSize maxSizeMb contentLength =
     (if truthy_str contentLength
      then (case parse_int (the contentLength) of
              None \<Rightarrow> True
            | Some n \<Rightarrow> \<not> maxSizeMb < js_div (of_nat n) (1024 * 1024))
      else True)"

section \<open>Database operators and code\<close>

text \<open>The pattern of a name, spaces and a bracket, in either case, anywhere in a text.\<close>

fun calls :: "string \<Rightarrow> string \<Rightarrow> bool" where
  "calls w [] = False"
| "calls w (c # cs) =
     (prefix w (lower_case (c # cs)) \<and> prefix ''('' (dropWhile js_space (drop (length w) (c # cs))) \<or> calls w cs)"

definition injects :: "string \<Rightarrow> bool" where
  "injects s \<longleftrightarrow> calls ''eval'' s \<or> calls ''function'' s"

fun checkValue :: "json \<Rightarrow> bool" and check_fields :: "(string \<times> json) list \<Rightarrow> bool" and check_items :: "json list \<Rightarrow> bool" where
  "checkValue (JsText s) = (\<not> injects s)"
| "checkValue (JsArray vs) = check_items vs"
| "checkValue (JsObject fs) = check_fields fs"
| "checkValue _ = True"
| "check_fields [] = True"
| "check_fields ((k, v) # fs) = (\<not> prefix ''$'' k \<and> checkValue v \<and> check_fields fs)"
| "check_items [] = True"
| "check_items (v # vs) = (checkValue v \<and> check_items vs)"

section \<open>Removal of markup\<close>

definition skip_fields :: "string list" where
  "skip_fields = [''password'', ''newPassword'', ''oldPassword'', ''confirmPassword'', ''txBytes'', ''signature'', ''signedTx'']"

fun sanitize :: "(string \<Rightarrow> string) \<Rightarrow> string option \<Rightarrow> json \<Rightarrow> json"
  and sanitize_fields :: "(string \<Rightarrow> string) \<Rightarrow> (string \<times> json) list \<Rightarrow> (string \<times> json) list"
  and sanitize_items :: "(string \<Rightarrow> string) \<Rightarrow> string option \<Rightarrow> json list \<Rightarrow> json list" where
  "sanitize strip key (JsText s) =
     (if truthy_str key \<and> the key \<in> set skip_fields then JsText s else JsText (js_trim (strip s)))"
| "sanitize strip key (JsObject fs) = JsObject (sanitize_fields strip fs)"
| "sanitize strip key (JsArray vs) = JsArray (sanitize_items strip key vs)"
| "sanitize strip key v = v"
| "sanitize_fields strip [] = []"
| "sanitize_fields strip ((k, v) # fs) = (k, sanitize strip (Some k) v) # sanitize_fields strip fs"
| "sanitize_items strip key [] = []"
| "sanitize_items strip key (v # vs) = sanitize strip key v # sanitize_items strip key vs"

definition sanitizeInputs :: "(string \<Rightarrow> string) \<Rightarrow> json \<Rightarrow> json" where
  "sanitizeInputs strip body =
     (case body of JsObject _ \<Rightarrow> sanitize strip None body | JsArray _ \<Rightarrow> sanitize strip None body | _ \<Rightarrow> body)"

section \<open>Schemas\<close>

text \<open>A schema answers its errors or the normalised body. The body itself stays; the normalised one is kept beside it.\<close>

datatype guard_resp = PayloadTooLarge | InjectionDetected | ValidationFailed "string list"

definition validateInput :: "(json \<Rightarrow> string list + json) \<Rightarrow> json \<Rightarrow> guard_resp + json \<times> json" where
  "validateInput schema body = (case schema body of Inl ds \<Rightarrow> Inl (ValidationFailed ds) | Inr v \<Rightarrow> Inr (body, v))"

text \<open>The texts of the account schemas: what each accepts, after its conversions.\<close>

definition password_schema :: "string \<Rightarrow> string option" where
  "password_schema p =
     (if 8 \<le> length p \<and> length p \<le> 128 \<and> list_ex (\<lambda>c. 65 \<le> (of_char c :: nat) \<and> (of_char c :: nat) \<le> 90) p
         \<and> list_ex (\<lambda>c. 97 \<le> (of_char c :: nat) \<and> (of_char c :: nat) \<le> 122) p \<and> list_ex is_digit p
      then Some p else None)"

definition login_password_schema :: "string \<Rightarrow> string option" where
  "login_password_schema p = (if 1 \<le> length p \<and> length p \<le> 256 then Some p else None)"

definition name_letter :: "char \<Rightarrow> bool" where
  "name_letter c \<longleftrightarrow> is_digit c \<or> (97 :: nat) \<le> of_char c \<and> of_char c \<le> (122 :: nat) \<or> c = CHR ''_''"

definition username_schema :: "string \<Rightarrow> string option" where
  "username_schema s =
     (let u = js_trim (lower_case s) in
      if 3 \<le> length u \<and> length u \<le> 32 \<and> list_all name_letter u then Some u else None)"

definition email_schema :: "(string \<Rightarrow> bool) \<Rightarrow> string \<Rightarrow> string option" where
  "email_schema is_email s =
     (let e = js_trim (lower_case s) in if e \<noteq> [] \<and> is_email e \<and> length e \<le> 255 then Some e else None)"

definition address_schema :: "string \<Rightarrow> string option" where
  "address_schema s =
     (let a = js_trim s; r = drop 5 a in
      if prefix ''mall1'' a \<and> 38 \<le> length r \<and> length r \<le> 58
         \<and> list_all (\<lambda>c. is_digit c \<or> (97 :: nat) \<le> of_char c \<and> of_char c \<le> (122 :: nat)) r
      then Some a else None)"

text \<open>The chain of a route with all four checks, as the registration with a user name has it.\<close>

definition guarded_body ::
  "num \<Rightarrow> (string \<Rightarrow> string) \<Rightarrow> (json \<Rightarrow> string list + json) \<Rightarrow> string option \<Rightarrow> json \<Rightarrow> guard_resp + json \<times> json" where
  "guarded_body maxMb strip schema contentLength body =
     (if \<not> limitPayloadSize maxMb contentLength then Inl PayloadTooLarge
      else if \<not> checkValue body then Inl InjectionDetected
      else validateInput schema (sanitizeInputs strip body))"

section \<open>The copy for the log\<close>

definition sensitive_key :: "string \<Rightarrow> bool" where
  "sensitive_key k \<longleftrightarrow> list_ex (\<lambda>w. has_infix w (lower_case k))
     [''password'', ''passphrase'', ''mnemonic'', ''privatekey'', ''private_key'', ''secret'', ''token'', ''access_token'']"

definition redacted_text :: json where "redacted_text = JsText ''[REDACTED]''"

definition redact_leaf :: "json \<Rightarrow> json" where
  "redact_leaf v = (case v of JsText s \<Rightarrow> if 128 < length s then redacted_text else v | _ \<Rightarrow> v)"

text \<open>An element of an array is kept under its index, which is never a sensitive name.\<close>

fun redact :: "json \<Rightarrow> json" and redact_fields :: "(string \<times> json) list \<Rightarrow> (string \<times> json) list" and redact_items :: "json list \<Rightarrow> json list" where
  "redact (JsArray vs) = JsArray (redact_items vs)"
| "redact (JsObject fs) = JsObject (redact_fields fs)"
| "redact v = redact_leaf v"
| "redact_fields [] = []"
| "redact_fields ((k, v) # fs) = (k, if sensitive_key k then redacted_text else redact v) # redact_fields fs"
| "redact_items [] = []"
| "redact_items (v # vs) = redact v # redact_items vs"

text \<open>A body that is no object or array is logged as it is.\<close>

definition sanitizeSensitive :: "json \<Rightarrow> json" where
  "sanitizeSensitive body = (case body of JsArray _ \<Rightarrow> redact body | JsObject _ \<Rightarrow> redact body | _ \<Rightarrow> body)"

section \<open>What passes the check\<close>

inductive inside :: "json \<Rightarrow> json \<Rightarrow> bool" where
  inside_self: "inside v v"
| inside_item: "v \<in> set vs \<Longrightarrow> inside x v \<Longrightarrow> inside x (JsArray vs)"
| inside_field: "(k, v) \<in> set fs \<Longrightarrow> inside x v \<Longrightarrow> inside x (JsObject fs)"

inductive_simps inside_array: "inside x (JsArray vs)"
inductive_simps inside_object: "inside x (JsObject fs)"
inductive_simps inside_text: "inside x (JsText s)"
inductive_simps inside_null: "inside x JsNull"
inductive_simps inside_bool: "inside x (JsBool b)"
inductive_simps inside_num: "inside x (JsNum n)"

lemmas inside_simps = inside_array inside_object inside_text inside_null inside_bool inside_num

fun harmless :: "json \<Rightarrow> bool" where
  "harmless (JsText s) = (\<not> injects s)"
| "harmless (JsObject fs) = (\<forall>(k, v) \<in> set fs. \<not> prefix ''$'' k)"
| "harmless _ = True"

text \<open>What holds of everything inside a value, by its form.\<close>

lemma all_inside [simp]:
  "(\<forall>x. inside x (JsObject fs) \<longrightarrow> P x) \<longleftrightarrow> P (JsObject fs) \<and> (\<forall>(k, v) \<in> set fs. \<forall>x. inside x v \<longrightarrow> P x)"
  "(\<forall>x. inside x (JsArray vs) \<longrightarrow> P x) \<longleftrightarrow> P (JsArray vs) \<and> (\<forall>v \<in> set vs. \<forall>x. inside x v \<longrightarrow> P x)"
  "(\<forall>x. inside x (JsText s) \<longrightarrow> P x) \<longleftrightarrow> P (JsText s)" "(\<forall>x. inside x JsNull \<longrightarrow> P x) \<longleftrightarrow> P JsNull"
  "(\<forall>x. inside x (JsBool b) \<longrightarrow> P x) \<longleftrightarrow> P (JsBool b)" "(\<forall>x. inside x (JsNum n) \<longrightarrow> P x) \<longleftrightarrow> P (JsNum n)"
  by (auto simp: inside_simps)

lemma check_inside:
  "checkValue v \<longleftrightarrow> (\<forall>x. inside x v \<longrightarrow> harmless x)"
  "check_fields fs \<longleftrightarrow> (\<forall>(k, v) \<in> set fs. \<not> prefix ''$'' k \<and> (\<forall>x. inside x v \<longrightarrow> harmless x))"
  "check_items vs \<longleftrightarrow> (\<forall>v \<in> set vs. \<forall>x. inside x v \<longrightarrow> harmless x)"
proof (induction v and fs and vs rule: checkValue_check_fields_check_items.induct)
  case (3 fs)
  have "(\<forall>(k, v) \<in> set fs. \<not> prefix ''$'' k \<and> (\<forall>x. inside x v \<longrightarrow> harmless x)) \<longleftrightarrow>
    (\<forall>(k, v) \<in> set fs. \<not> prefix ''$'' k) \<and> (\<forall>(k, v) \<in> set fs. \<forall>x. inside x v \<longrightarrow> harmless x)" by blast
  with 3 show ?case by (simp only: checkValue.simps all_inside harmless.simps)
qed simp_all

text \<open>
  the recursive search answers for the whole body: it passes if and only if no object at any depth has a field
  whose name begins as a database operator and no text at any depth has the form of a call of the two functions.
\<close>

theorem check_is_complete:
  "checkValue body \<longleftrightarrow>
     (\<forall>fs. inside (JsObject fs) body \<longrightarrow> (\<forall>(k, v) \<in> set fs. \<not> prefix ''$'' k)) \<and>
     (\<forall>s. inside (JsText s) body \<longrightarrow> \<not> calls ''eval'' s \<and> \<not> calls ''function'' s)"
proof -
  have h: "harmless x \<longleftrightarrow> (\<forall>fs. x = JsObject fs \<longrightarrow> (\<forall>(k, v) \<in> set fs. \<not> prefix ''$'' k)) \<and> (\<forall>s. x = JsText s \<longrightarrow> \<not> injects s)" for x
    by (cases x) auto
  show ?thesis unfolding check_inside(1) h injects_def by metis
qed

section \<open>What the removal of markup keeps\<close>

definition names_satisfy :: "(string \<Rightarrow> bool) \<Rightarrow> json \<Rightarrow> bool" where
  "names_satisfy P v \<longleftrightarrow> (\<forall>x. inside x v \<longrightarrow> (case x of JsObject fs \<Rightarrow> list_all P (map fst fs) | _ \<Rightarrow> True))"

lemma names_satisfy_simps [simp]:
  "names_satisfy P (JsObject fs) \<longleftrightarrow> list_all P (map fst fs) \<and> (\<forall>(k, v) \<in> set fs. names_satisfy P v)"
  "names_satisfy P (JsArray vs) \<longleftrightarrow> (\<forall>v \<in> set vs. names_satisfy P v)"
  "names_satisfy P (JsText s)" "names_satisfy P JsNull" "names_satisfy P (JsBool b)" "names_satisfy P (JsNum n)"
  by (simp_all add: names_satisfy_def)

lemma sanitize_names [simp]: "map fst (sanitize_fields strip fs) = map fst fs"
  by (induction fs) auto

lemma sanitize_keys:
  "names_satisfy P (sanitize strip key v) = names_satisfy P v"
  "(\<forall>(k, w) \<in> set (sanitize_fields strip gs). names_satisfy P w) = (\<forall>(k, w) \<in> set gs. names_satisfy P w)"
  "(\<forall>w \<in> set (sanitize_items strip key vs). names_satisfy P w) = (\<forall>w \<in> set vs. names_satisfy P w)"
  by (induction strip key v and strip gs and strip key vs rule: sanitize_sanitize_fields_sanitize_items.induct)
    (simp_all del: map_map)

text \<open>
  the removal of markup renames no field: a body without operator names has none after it, whatever the package does
  to the texts. And it leaves the texts of the credential and payload fields as they came, at the first level of a body.
\<close>

theorem sanitizing_adds_no_operator:
  assumes "checkValue body" "inside (JsObject fs) (sanitizeInputs strip body)" "(k, v) \<in> set fs"
  shows "\<not> prefix ''$'' k"
proof -
  have "names_satisfy (\<lambda>k. \<not> prefix ''$'' k) body"
    using assms(1) unfolding check_inside(1) names_satisfy_def
    by (auto simp: list_all_iff split: json.splits) (metis case_prodD harmless.simps(2))
  then have "names_satisfy (\<lambda>k. \<not> prefix ''$'' k) (sanitizeInputs strip body)"
    by (cases body) (simp_all add: sanitizeInputs_def sanitize_keys del: sanitize.simps)
  then have "list_all (\<lambda>k. \<not> prefix ''$'' k) (map fst fs)" using assms(2) unfolding names_satisfy_def by fastforce
  then show ?thesis using assms(3) by (force simp: list_all_iff)
qed

lemma sanitize_field: "(k, v) \<in> set (sanitize_fields strip fs) \<longleftrightarrow> (\<exists>w. (k, w) \<in> set fs \<and> v = sanitize strip (Some k) w)"
  by (induction fs) auto

theorem credentials_untouched:
  assumes "(k, JsText s) \<in> set fs" "k \<in> set skip_fields"
  shows "\<exists>fs'. sanitizeInputs strip (JsObject fs) = JsObject fs' \<and> (k, JsText s) \<in> set fs'"
proof -
  have "truthy_str (Some k)" using assms(2) by (auto simp: skip_fields_def truthy_str_def)
  then show ?thesis using assms by (simp add: sanitizeInputs_def sanitize_field) (force simp: truthy_str_def)
qed

section \<open>What the log copy hides\<close>

lemma leaf_short: "redact_leaf v = JsText s \<Longrightarrow> length s \<le> 128"
  by (auto simp: redact_leaf_def redacted_text_def split: json.splits if_splits)

lemma inside_redacted_text: "inside x redacted_text \<longleftrightarrow> x = redacted_text"
  by (auto simp: redacted_text_def inside_simps)

lemmas redact_induct [case_names array object null boolean number text_leaf nofields fields noitems items] =
  redact_redact_fields_redact_items.induct

lemma redact_shape:
  "inside x (redact v) \<Longrightarrow> (\<forall>s. x = JsText s \<longrightarrow> length s \<le> 128) \<and> (\<forall>fs k w. x = JsObject fs \<longrightarrow> (k, w) \<in> set fs \<longrightarrow> sensitive_key k \<longrightarrow> w = redacted_text)"
  "(k', y) \<in> set (redact_fields fs') \<Longrightarrow> (sensitive_key k' \<longrightarrow> y = redacted_text) \<and> (inside x y \<longrightarrow> (\<forall>s. x = JsText s \<longrightarrow> length s \<le> 128)
     \<and> (\<forall>fs k w. x = JsObject fs \<longrightarrow> (k, w) \<in> set fs \<longrightarrow> sensitive_key k \<longrightarrow> w = redacted_text))"
  "y \<in> set (redact_items vs) \<Longrightarrow> inside x y \<Longrightarrow> (\<forall>s. x = JsText s \<longrightarrow> length s \<le> 128) \<and> (\<forall>fs k w. x = JsObject fs \<longrightarrow> (k, w) \<in> set fs \<longrightarrow> sensitive_key k \<longrightarrow> w = redacted_text)"
proof (induction v and fs' and vs arbitrary: x and x k' y and x y rule: redact_induct)
  case (text_leaf s)
  then show ?case by (auto simp: redact_leaf_def redacted_text_def inside_simps split: if_splits)
qed (auto simp: inside_simps redact_leaf_def inside_redacted_text redacted_text_def split: if_splits; (blast | fastforce))+

text \<open>
  in the copy of a body that may be logged, at any depth, every field with a sensitive name holds the marker instead
  of its value, whatever the value was, and no text is longer than 128 characters.
\<close>

theorem log_hides_secrets:
  assumes "body = JsObject gs \<or> body = JsArray vs" "inside x (sanitizeSensitive body)"
  shows "(\<forall>s. x = JsText s \<longrightarrow> length s \<le> 128)
    \<and> (\<forall>fs k v. x = JsObject fs \<longrightarrow> (k, v) \<in> set fs \<longrightarrow> sensitive_key k \<longrightarrow> v = redacted_text)"
proof -
  have "sanitizeSensitive body = redact body" using assms(1) by (auto simp: sanitizeSensitive_def)
  then show ?thesis using redact_shape(1) [of x body] assms(2) by simp
qed

section \<open>Applications\<close>

definition demo_json :: json where
  "demo_json = JsObject [(''password'', JsText ''<b>x''), (''profile'', JsArray [JsObject [(''name'', JsText ''Asha'')]])]"

definition demo_strip :: "string \<Rightarrow> string" where "demo_strip = filter (\<lambda>c. c \<noteq> CHR ''<'' \<and> c \<noteq> CHR ''>'')"

theorem sanitizing_adds_no_operator_witness:
  "checkValue demo_json \<and> inside (JsObject [(''name'', JsText ''Asha'')]) (sanitizeInputs demo_strip demo_json) \<and> \<not> prefix ''$'' ''name''"
proof -
  have c: "checkValue demo_json" by code_simp
  have "sanitizeInputs demo_strip demo_json = demo_json" by code_simp
  then have i: "inside (JsObject [(''name'', JsText ''Asha'')]) (sanitizeInputs demo_strip demo_json)"
    by (simp add: demo_json_def) (rule inside_field [of "''profile''"], simp, rule inside_item, simp, rule inside_self)
  have "\<not> prefix ''$'' ''name''" by (rule sanitizing_adds_no_operator [OF c i]) simp
  with c i show ?thesis by blast
qed

theorem credentials_untouched_witness:
  "\<exists>fs'. sanitizeInputs demo_strip demo_json = JsObject fs' \<and> (''password'', JsText ''<b>x'') \<in> set fs'"
  unfolding demo_json_def by (rule credentials_untouched) (simp_all add: skip_fields_def)

theorem log_hides_secrets_witness:
  "inside (JsObject [(''password'', redacted_text), (''profile'', JsArray [JsObject [(''name'', JsText ''Asha'')]])]) (sanitizeSensitive demo_json)
   \<and> (\<forall>v. (''password'', v) \<in> set [(''password'', redacted_text), (''profile'', JsArray [JsObject [(''name'', JsText ''Asha'')]])] \<longrightarrow> v = redacted_text)"
proof -
  have "sanitizeSensitive demo_json = JsObject [(''password'', redacted_text), (''profile'', JsArray [JsObject [(''name'', JsText ''Asha'')]])]"
    by code_simp
  then have i: "inside (JsObject [(''password'', redacted_text), (''profile'', JsArray [JsObject [(''name'', JsText ''Asha'')]])]) (sanitizeSensitive demo_json)"
    by (simp add: inside_self)
  have "sensitive_key ''password''" by code_simp
  with log_hides_secrets [OF disjI1 [OF demo_json_def] i] i show ?thesis by blast
qed

text \<open>
  the change of a password has no upper limit on its length and the login has one: whoever sets a password of more
  than 256 characters is refused by the schema of the login from then on.
\<close>

theorem long_password_locks_out:
  assumes "truthy_str current" "256 < length new" "strong_password new" "account_of u W = Some a"
    "ac_password a = Some h" "h \<noteq> []" "ct_compare en (the current) h"
  shows "\<exists>W'. changePassword en u current (Some new) W = (PwChanged, W') \<and> login_password_schema new = None"
  using assms by (auto simp: changePassword_def login_password_schema_def truthy_str_def Let_def)

theorem long_password_locks_out_witness:
  "\<exists>W'. changePassword (demo_ctl 5000) ''u1'' (Some ''secret'') (Some (''A1'' @ replicate 300 CHR ''a'')) demo_auth_world = (PwChanged, W')
     \<and> login_password_schema (''A1'' @ replicate 300 CHR ''a'') = None"
proof -
  have s: "strong_password (''A1'' @ replicate 300 CHR ''a'')" by (simp add: strong_password_def is_digit_def list_ex_iff)
  have a: "account_of ''u1'' demo_auth_world = Some (demo_user ''u1'' RoleUser)"
    by (simp add: account_of_def demo_auth_world_def demo_user_def)
  show ?thesis
    by (rule long_password_locks_out [OF _ _ s a, of _ "''#secret''"]) (simp_all add: truthy_str_def demo_user_def demo_ctl_def)
qed

end
