(* ===== verification/Maintenance.thy ===== *)
theory Maintenance
  imports AdminUsers
begin

text \<open>
  The emergency pause of the money routes: the state document (\<open>models/MaintenanceMode.js\<close>), the guard in front of
  the routes with its short cache in every server process (\<open>middleware/maintenanceMode.js\<close>), and the switch of the
  administration panel. The processes share the document and have a cache each; a read of the document and its caching
  are one step.
\<close>

record maintenance =
  mn_global :: bool
  mn_scopes :: "string \<rightharpoonup> bool"
  mn_reason :: string
  mn_updatedBy :: string

record mn_world =
  mn_doc :: "maintenance option"
  mn_cache :: "nat \<Rightarrow> (maintenance option \<times> int) option"

definition mn_cache_ttl :: int where "mn_cache_ttl = 3000"

definition maintenance_scopes :: "string list" where
  "maintenance_scopes = [''send'', ''withdraw'', ''buy'', ''payment'', ''marketplace'', ''staking'', ''vault'', ''key-vault'', ''badge'', ''dex'']"

section \<open>The guard\<close>

text \<open>The state as process \<open>i\<close> sees it; reading the document can fail.\<close>

definition getState :: "nat \<Rightarrow> int \<Rightarrow> bool \<Rightarrow> mn_world \<Rightarrow> maintenance option option \<times> mn_world" where
  "getState i now up W =
     (let read = (if \<not> up then (None, W)
                  else (Some (mn_doc W), W\<lparr>mn_cache := (mn_cache W)(i := Some (mn_doc W, now))\<rparr>))
      in case mn_cache W i of
           Some (d, fetchedAt) \<Rightarrow> if now - fetchedAt < mn_cache_ttl then (Some d, W) else read
         | None \<Rightarrow> read)"

datatype mn_guard = GuardPass | GuardPaused "string option" string

definition pause_message :: "string \<Rightarrow> string \<Rightarrow> string" where
  "pause_message reason fallback = (if reason = [] then fallback else reason)"

definition maintenanceGuard :: "nat \<Rightarrow> int \<Rightarrow> bool \<Rightarrow> string \<Rightarrow> mn_world \<Rightarrow> mn_guard \<times> mn_world" where
  "maintenanceGuard i now up scope W =
     (case getState i now up W of
        (None, W1) \<Rightarrow> (GuardPass, W1)
      | (Some None, W1) \<Rightarrow> (GuardPass, W1)
      | (Some (Some s), W1) \<Rightarrow>
          if mn_global s
          then (GuardPaused None (pause_message (mn_reason s) ''This operation is temporarily paused for maintenance.''), W1)
          else if mn_scopes s scope = Some True
          then (GuardPaused (Some scope) (pause_message (mn_reason s) (scope @ '' is temporarily paused for maintenance.'')), W1)
          else (GuardPass, W1))"

section \<open>The switch\<close>

datatype mn_resp = MnUnknownScope | MnNothing | MnDone maintenance | MnError

definition fresh_maintenance :: maintenance where
  "fresh_maintenance = \<lparr>mn_global = False, mn_scopes = (\<lambda>_. None), mn_reason = [], mn_updatedBy = []\<rparr>"

definition switched :: "string \<Rightarrow> bool option \<Rightarrow> string option \<Rightarrow> bool \<Rightarrow> string option \<Rightarrow> maintenance \<Rightarrow> maintenance" where
  "switched actor global scope paused reason d =
     d\<lparr>mn_reason := or_else (str_or reason None) [], mn_updatedBy := actor,
       mn_global := or_else global (mn_global d),
       mn_scopes := (case scope of None \<Rightarrow> mn_scopes d | Some sc \<Rightarrow> (mn_scopes d)(sc \<mapsto> paused))\<rparr>"

definition postMaintenance ::
  "nat \<Rightarrow> bool \<Rightarrow> string \<Rightarrow> bool option \<Rightarrow> string option \<Rightarrow> bool \<Rightarrow> string option \<Rightarrow> mn_world \<Rightarrow> mn_resp \<times> mn_world" where
  "postMaintenance i up actor global scope paused reason W =
     (if scope \<noteq> None \<and> the scope \<notin> set maintenance_scopes then (MnUnknownScope, W)
      else if global = None \<and> scope = None then (MnNothing, W)
      else if \<not> up then (MnError, W)
      else let d = switched actor global scope paused reason (or_else (mn_doc W) fresh_maintenance)
           in (MnDone d, W\<lparr>mn_doc := Some d, mn_cache := (mn_cache W)(i := None)\<rparr>))"

definition getMaintenance :: "bool \<Rightarrow> mn_world \<Rightarrow> (bool \<times> (string \<rightharpoonup> bool) \<times> string \<times> string option) option" where
  "getMaintenance up W =
     (if \<not> up then None
      else case mn_doc W of
             None \<Rightarrow> Some (False, (\<lambda>_. None), [], None)
           | Some d \<Rightarrow> Some (mn_global d, mn_scopes d, mn_reason d, Some (mn_updatedBy d)))"

text \<open>What everybody may see: no pause where the document cannot be read (\<open>routes/maintenanceStatus.js\<close>).\<close>

definition maintenanceStatus :: "bool \<Rightarrow> mn_world \<Rightarrow> bool \<times> (string \<rightharpoonup> bool) \<times> string" where
  "maintenanceStatus up W =
     (case getMaintenance up W of None \<Rightarrow> (False, (\<lambda>_. None), []) | Some (g, sc, r, _) \<Rightarrow> (g, sc, r))"

text \<open>The route of the switch, behind both guards of the panel.\<close>

definition maintenanceRoute ::
  "auth_env \<Rightarrow> nat \<Rightarrow> bool \<Rightarrow> request \<Rightarrow> bool option \<Rightarrow> string option \<Rightarrow> bool \<Rightarrow> string option \<Rightarrow> auth_world \<times> mn_world \<Rightarrow> (auth_error + mn_resp) \<times> auth_world \<times> mn_world" where
  "maintenanceRoute en i up rq global scope paused reason AW =
     (case superadmin_guarded en rq (\<lambda>s A. (s, A)) (fst AW) of
        (Inl e, A) \<Rightarrow> (Inl e, A, snd AW)
      | (Inr s, A) \<Rightarrow>
          (case postMaintenance i up (ac_email (se_user s)) global scope paused reason (snd AW) of
             (r, W1) \<Rightarrow>
               (Inr r, if \<exists>d. r = MnDone d then auditLog en ''maintenance_mode_change'' (ac_email (se_user s)) A else A, W1)))"

section \<open>Which routes a scope covers\<close>

text \<open>The mounts of \<open>index.js\<close> that stand behind a guard.\<close>

definition guarded_mounts :: "(string \<times> string) list" where
  "guarded_mounts =
     [(''/api/vault'', ''vault''), (''/api/send'', ''send''), (''/api/marketplace'', ''marketplace''),
      (''/api/payment'', ''payment''), (''/api/buy'', ''buy''), (''/api/badge'', ''badge''), (''/api/withdraw'', ''withdraw''),
      (''/api/withdrawals/aml'', ''withdraw''), (''/api/staking'', ''staking''), (''/api/key-vault'', ''key-vault''),
      (''/api/dex'', ''dex'')]"

definition mount_covers :: "string \<Rightarrow> string \<Rightarrow> bool" where
  "mount_covers m path \<longleftrightarrow> path = m \<or> prefix (m @ ''/'') path"

definition route_scope :: "string \<Rightarrow> string option" where
  "route_scope path = map_option snd (coll_find (\<lambda>m. mount_covers (fst m) path) guarded_mounts)"

definition routeGuard :: "nat \<Rightarrow> int \<Rightarrow> bool \<Rightarrow> string \<Rightarrow> mn_world \<Rightarrow> mn_guard \<times> mn_world" where
  "routeGuard i now up path W =
     (case route_scope path of None \<Rightarrow> (GuardPass, W) | Some sc \<Rightarrow> maintenanceGuard i now up sc W)"

section \<open>A pause reaches every process\<close>

fun mn_reads :: "(nat \<times> int \<times> bool) list \<Rightarrow> mn_world \<Rightarrow> mn_world" where
  "mn_reads [] W = W"
| "mn_reads ((i, now, up) # es) W = mn_reads es (snd (getState i now up W))"

definition settled_since :: "int \<Rightarrow> nat \<Rightarrow> mn_world \<Rightarrow> bool" where
  "settled_since t i W \<longleftrightarrow> (\<forall>j d f. mn_cache W j = Some (d, f) \<longrightarrow> d = mn_doc W \<or> (j \<noteq> i \<and> f \<le> t))"

lemma getState_doc [simp]: "mn_doc (snd (getState i now up W)) = mn_doc W"
  by (auto simp: getState_def Let_def split: option.splits)

lemma getState_settled: "settled_since t i W \<Longrightarrow> settled_since t i (snd (getState j now up W))"
  by (auto simp: getState_def settled_since_def Let_def split: option.splits)

lemma reads_settled: "settled_since t i W \<Longrightarrow> settled_since t i (mn_reads es W)"
  by (induction es arbitrary: W rule: list.induct) (auto simp: getState_settled)

lemma reads_doc: "mn_doc (mn_reads es W) = mn_doc W"
  by (induction es arbitrary: W rule: list.induct) auto

lemma settled_state:
  assumes "settled_since t i W" "t + mn_cache_ttl \<le> now \<or> j = i"
  shows "fst (getState j now True W) = Some (mn_doc W)"
  using assms by (auto simp: getState_def settled_since_def Let_def split: option.splits) fastforce+

text \<open>
  when a pause has been switched on, then whatever requests the processes of the server have served in between,
  the process that took the switch refuses the paused routes at once, and every other process does so at the latest
  three seconds later, as long as the state can be read.
\<close>

theorem pause_reaches_all:
  assumes "postMaintenance i True actor global scope paused reason W = (MnDone d, W1)"
    "global = Some True \<or> (scope = Some sc \<and> paused)"
    "\<forall>j d f. mn_cache W j = Some (d, f) \<longrightarrow> f \<le> t"
    "j = i \<or> t + 3000 \<le> now"
  shows "fst (maintenanceGuard j now True sc (mn_reads es W1)) \<noteq> GuardPass"
proof -
  from assms(1) have W1: "mn_doc W1 = Some d" "mn_cache W1 = (mn_cache W)(i := None)"
    and d: "d = switched actor global scope paused reason (or_else (mn_doc W) fresh_maintenance)"
    by (auto simp: postMaintenance_def Let_def split: if_splits)
  have "settled_since t i W1" using W1 assms(3) by (auto simp: settled_since_def)
  then have s: "settled_since t i (mn_reads es W1)" by (rule reads_settled)
  have "fst (getState j now True (mn_reads es W1)) = Some (Some d)"
    using settled_state [OF s, of now j] assms(4) W1(1) by (auto simp: reads_doc mn_cache_ttl_def)
  moreover have "mn_global d \<or> mn_scopes d sc = Some True"
    using assms(2) by (auto simp: d switched_def or_else_def)
  ultimately show ?thesis
    by (cases "getState j now True (mn_reads es W1)") (auto simp: maintenanceGuard_def)
qed

theorem pause_reaches_all_witness:
  "\<exists>d W1. postMaintenance 0 True ''root'' None (Some ''withdraw'') True None \<lparr>mn_doc = None, mn_cache = (\<lambda>_. Some (None, 0))\<rparr> = (MnDone d, W1)
     \<and> fst (maintenanceGuard 1 2999 True ''withdraw'' W1) = GuardPass
     \<and> fst (maintenanceGuard 1 3000 True ''withdraw'' (mn_reads [(1, 2999, True)] W1)) \<noteq> GuardPass"
proof -
  let ?W = "\<lparr>mn_doc = None, mn_cache = (\<lambda>_. Some (None, 0))\<rparr>"
  obtain d W1 where p: "postMaintenance 0 True ''root'' None (Some ''withdraw'') True None ?W = (MnDone d, W1)"
    by (simp add: postMaintenance_def maintenance_scopes_def Let_def)
  then have "mn_cache W1 1 = Some (None, 0)" by (auto simp: postMaintenance_def maintenance_scopes_def Let_def)
  then have "fst (maintenanceGuard 1 2999 True ''withdraw'' W1) = GuardPass"
    by (simp add: maintenanceGuard_def getState_def mn_cache_ttl_def Let_def)
  with pause_reaches_all [OF p, of "''withdraw''" 0 1 3000 "[(1, 2999, True)]"] p show ?thesis by simp
qed

text \<open>
  the guard fails open: a process whose cache has run out lets every request pass while the state cannot be read,
  whatever is paused.
\<close>

theorem guard_fails_open:
  assumes "case mn_cache W i of None \<Rightarrow> True | Some (_, f) \<Rightarrow> f + 3000 \<le> now"
  shows "maintenanceGuard i now False scope W = (GuardPass, W)"
  using assms by (auto simp: maintenanceGuard_def getState_def mn_cache_ttl_def Let_def split: option.splits)

theorem guard_fails_open_witness:
  "maintenanceGuard 0 9000 False ''send'' \<lparr>mn_doc = Some (fresh_maintenance\<lparr>mn_global := True\<rparr>), mn_cache = (\<lambda>_. None)\<rparr>
   = (GuardPass, \<lparr>mn_doc = Some (fresh_maintenance\<lparr>mn_global := True\<rparr>), mn_cache = (\<lambda>_. None)\<rparr>)"
  by (rule guard_fails_open) simp

text \<open>
  every switch replaces the reason: lifting one pause, or setting a second one without a reason, erases the reason
  the routes still paused were answering with.
\<close>

theorem switch_forgets_reason:
  assumes "mn_doc W = Some d" "mn_scopes d other = Some True" "other \<noteq> sc" "sc \<in> set maintenance_scopes"
  shows "\<exists>e W1. postMaintenance i True actor None (Some sc) paused None W = (MnDone e, W1) \<and> mn_scopes e other = Some True \<and> mn_reason e = []"
  using assms by (auto simp: postMaintenance_def switched_def or_else_def Let_def)

theorem switch_forgets_reason_witness:
  "\<exists>e W1. postMaintenance 0 True ''root'' None (Some ''buy'') False None
      \<lparr>mn_doc = Some (fresh_maintenance\<lparr>mn_scopes := [''send'' \<mapsto> True], mn_reason := ''audit''\<rparr>), mn_cache = (\<lambda>_. None)\<rparr> = (MnDone e, W1)
     \<and> mn_scopes e ''send'' = Some True \<and> mn_reason e = []"
  by (rule switch_forgets_reason [of _ "fresh_maintenance\<lparr>mn_scopes := [''send'' \<mapsto> True], mn_reason := ''audit''\<rparr>"])
    (simp_all add: maintenance_scopes_def)

text \<open>
  the pause of withdrawals does not pause the cash-outs: the routes that sell for money are mounted under the
  purchases, so with only the scope of the withdrawals paused they pass. And the pause of the purchases turns away the
  payment provider: its confirmations of payments already made, and of payouts, are refused with the rest.
\<close>

theorem pause_covers_wrong_routes:
  assumes "getState i now up W = (Some (Some d), W1)" "\<not> mn_global d"
  shows "(mn_scopes d ''buy'' \<noteq> Some True \<longrightarrow>
            fst (routeGuard i now up ''/api/buy/sell'' W) = GuardPass \<and> fst (routeGuard i now up ''/api/buy/sell/s1/resign'' W) = GuardPass)
    \<and> (mn_scopes d ''buy'' = Some True \<longrightarrow>
            fst (routeGuard i now up ''/api/buy/mpesa/callback'' W) \<noteq> GuardPass
          \<and> fst (routeGuard i now up ''/api/buy/payout/callback'' W) \<noteq> GuardPass)"
proof -
  have r: "route_scope ''/api/buy/sell'' = Some ''buy''" "route_scope ''/api/buy/sell/s1/resign'' = Some ''buy''"
    "route_scope ''/api/buy/mpesa/callback'' = Some ''buy''" "route_scope ''/api/buy/payout/callback'' = Some ''buy''"
    by code_simp+
  show ?thesis using assms by (simp add: routeGuard_def r maintenanceGuard_def)
qed

theorem pause_covers_wrong_routes_witness:
  "fst (routeGuard 0 5 True ''/api/buy/sell'' \<lparr>mn_doc = Some (fresh_maintenance\<lparr>mn_scopes := [''withdraw'' \<mapsto> True]\<rparr>), mn_cache = (\<lambda>_. None)\<rparr>) = GuardPass"
proof -
  let ?d = "fresh_maintenance\<lparr>mn_scopes := [''withdraw'' \<mapsto> True]\<rparr>"
  obtain W1 where g: "getState 0 5 True \<lparr>mn_doc = Some ?d, mn_cache = (\<lambda>_. None)\<rparr> = (Some (Some ?d), W1)"
    by (simp add: getState_def Let_def)
  have d: "\<not> mn_global ?d" "mn_scopes ?d ''buy'' \<noteq> Some True" by (simp_all add: fresh_maintenance_def)
  from pause_covers_wrong_routes [OF g d(1)] d(2) show ?thesis by blast
qed

end
