(* ===== verification/RequestSchemas.thy ===== *)
theory RequestSchemas
  imports InputValidation BuyFlow Idempotency SellRoute
begin

text \<open>
  The schemas of the request bodies (\<open>middleware/validation.js\<close> and \<open>utils/validationSchemas.js\<close>) over the JSON
  values of \<open>InputValidation\<close>, the two middlewares that apply them, and the routes of \<open>routes/buy.js\<close> whose behaviour
  rests on them: the callback of the payment provider and the state of a payment. The decoder of addresses and the
  reading of a number in a text are the package's and parameters; a check answers the paths of its errors or the
  converted value.
\<close>

record joi_env =
  jo_bech32 :: "string \<Rightarrow> (string \<times> nat) option"
  jo_number :: "string \<Rightarrow> num option"
  jo_cast :: "json \<Rightarrow> string"

type_synonym json_check = "json \<Rightarrow> string list list + json"

datatype presence = Required json_check | Optional json_check | Defaulted json_check json | RequiredWithout string json_check

section \<open>Checks\<close>

definition joi_text :: "(string \<Rightarrow> bool) \<Rightarrow> json_check" where
  "joi_text ok v = (case v of JsText s \<Rightarrow> if s \<noteq> [] \<and> ok s then Inr v else Inl [[]] | _ \<Rightarrow> Inl [[]])"

definition MAX_SAFE :: num where "MAX_SAFE = 9007199254740991"

text \<open>A text is converted to the number it spells.\<close>

definition joi_num :: "joi_env \<Rightarrow> (num \<Rightarrow> bool) \<Rightarrow> json_check" where
  "joi_num en ok v =
     (let check = (\<lambda>n. if abs n \<le> MAX_SAFE \<and> ok n then Inr (JsNum n) else Inl [[]])
      in case v of JsNum n \<Rightarrow> check n
         | JsText s \<Rightarrow> (case jo_number en s of None \<Rightarrow> Inl [[]] | Some n \<Rightarrow> check n)
         | _ \<Rightarrow> Inl [[]])"

definition joi_any :: json_check where "joi_any v = Inr v"

definition joi_either :: "json_check \<Rightarrow> json_check \<Rightarrow> json_check" where
  "joi_either a b v = (case a v of Inr w \<Rightarrow> Inr w | Inl _ \<Rightarrow> b v)"

text \<open>The errors of two parts are collected.\<close>

fun joi_both :: "('b \<Rightarrow> 'a list \<Rightarrow> 'a list) \<Rightarrow> string \<Rightarrow> string list list + 'b \<Rightarrow> string list list + 'a list \<Rightarrow> string list list + 'a list" where
  "joi_both put k (Inl e) (Inl es) = Inl (map ((#) k) e @ es)"
| "joi_both put k (Inl e) (Inr _) = Inl (map ((#) k) e)"
| "joi_both put k (Inr _) (Inl es) = Inl es"
| "joi_both put k (Inr w) (Inr ws) = Inr (put w ws)"

fun joi_elements :: "json_check \<Rightarrow> nat \<Rightarrow> json list \<Rightarrow> string list list + json list" where
  "joi_elements c i [] = Inr []"
| "joi_elements c i (v # vs) = joi_both (#) (show_nat i) (c v) (joi_elements c (Suc i) vs)"

definition joi_array :: "json_check \<Rightarrow> json_check" where
  "joi_array c v =
     (case v of JsArray vs \<Rightarrow> (case joi_elements c 0 vs of Inl es \<Rightarrow> Inl es | Inr ws \<Rightarrow> Inr (JsArray ws))
      | _ \<Rightarrow> Inl [[]])"

definition joi_field :: "presence \<Rightarrow> (string \<times> json) list \<Rightarrow> json option \<Rightarrow> string list list + json option" where
  "joi_field p fs v =
     (let run = (\<lambda>c x. case c x of Inl e \<Rightarrow> Inl e | Inr w \<Rightarrow> Inr (Some w))
      in case p of
           Required c \<Rightarrow> (case v of None \<Rightarrow> Inl [[]] | Some x \<Rightarrow> run c x)
         | Optional c \<Rightarrow> (case v of None \<Rightarrow> Inr None | Some x \<Rightarrow> run c x)
         | Defaulted c d \<Rightarrow> (case v of None \<Rightarrow> Inr (Some d) | Some x \<Rightarrow> run c x)
         | RequiredWithout k c \<Rightarrow>
             (case v of None \<Rightarrow> if map_of fs k = None then Inl [[]] else Inr None | Some x \<Rightarrow> run c x))"

fun joi_fields :: "(string \<times> presence) list \<Rightarrow> (string \<times> json) list \<Rightarrow> string list list + (string \<times> json) list" where
  "joi_fields [] fs = Inr []"
| "joi_fields ((k, p) # ps) fs =
     joi_both (\<lambda>w out. case w of None \<Rightarrow> out | Some x \<Rightarrow> (k, x) # out) k (joi_field p fs (map_of fs k)) (joi_fields ps fs)"

text \<open>A field the schema does not name is removed, or an error where nothing is stripped.\<close>

definition joi_object :: "bool \<Rightarrow> (string \<times> presence) list \<Rightarrow> json_check" where
  "joi_object strip ps v =
     (case v of
        JsObject fs \<Rightarrow>
          (let extra = (if strip then [] else map (\<lambda>f. [fst f]) (filter (\<lambda>f. fst f \<notin> fst ` set ps) fs))
           in case joi_fields ps fs of
                Inl es \<Rightarrow> Inl (es @ extra)
              | Inr out \<Rightarrow> if extra = [] then Inr (JsObject out) else Inl extra)
      | _ \<Rightarrow> Inl [[]])"

section \<open>The schemas of the middleware\<close>

definition addressSchema :: "joi_env \<Rightarrow> json_check" where
  "addressSchema en = joi_text (\<lambda>s. jo_bech32 en s = Some (''mall'', 20))"

definition amountSchema :: "joi_env \<Rightarrow> json_check" where
  "amountSchema en = joi_num en (\<lambda>n. 0 < n \<and> n \<le> 10 ^ 15)"

definition paymentIdSchema :: json_check where
  "paymentIdSchema = joi_text (\<lambda>s. length s = 35 \<and> prefix ''PAY'' s
     \<and> list_all (\<lambda>c. is_digit c \<or> c \<in> set ''ABCDEF'') (drop 3 s))"

definition joi_any_text :: json_check where "joi_any_text = joi_text (\<lambda>_. True)"
definition joi_short_text :: json_check where "joi_short_text = joi_text (\<lambda>s. length s \<le> 256)"

type_synonym schema_fields = "(string \<times> presence) list"

definition transferSchema :: "joi_env \<Rightarrow> schema_fields" where
  "transferSchema en = [(''from'', Required (addressSchema en)), (''to'', Required (addressSchema en)),
     (''amount'', Required (amountSchema en)), (''memo'', Optional joi_short_text), (''txBytes'', Optional joi_any_text)]"

definition paymentSchema :: "joi_env \<Rightarrow> schema_fields" where
  "paymentSchema en = [(''amount'', Required (amountSchema en)), (''phone'', Required (joi_text valid_phone)),
     (''userId'', Optional joi_any_text)]"

definition mallcoinPaymentSchema :: "joi_env \<Rightarrow> schema_fields" where
  "mallcoinPaymentSchema en = [(''buyerAddress'', Required (addressSchema en)), (''sellerAddress'', Required (addressSchema en)),
     (''amountKES'', Required (amountSchema en)), (''txBytes'', Optional joi_any_text), (''description'', Optional joi_short_text)]"

definition mlcnsTransferSchema :: "joi_env \<Rightarrow> schema_fields" where
  "mlcnsTransferSchema en = [(''from'', Required (addressSchema en)), (''to'', Required (addressSchema en)),
     (''amountMlcns'', Required (amountSchema en)), (''txBytes'', Optional joi_any_text),
     (''privateKey'', Optional joi_any_text), (''memo'', Optional joi_short_text)]"

definition faucetRequestSchema :: "joi_env \<Rightarrow> schema_fields" where
  "faucetRequestSchema en = [(''walletAddress'', Required (addressSchema en))]"

definition buyReserveFields :: "joi_env \<Rightarrow> schema_fields" where
  "buyReserveFields en = [(''amount'', Required (amountSchema en)),
     (''fiat'', Required (joi_either (joi_num en (\<lambda>_. True)) joi_any_text)),
     (''currency'', Optional (joi_text (\<lambda>s. length s \<le> 8))), (''walletAddress'', Required (addressSchema en)),
     (''phone'', Required (joi_text valid_phone))]"

definition buyMpesaInitiateFields :: "joi_env \<Rightarrow> schema_fields" where
  "buyMpesaInitiateFields en = [(''quoteId'', Required joi_any_text), (''phone'', Required (joi_text valid_phone)),
     (''amount'', Required (amountSchema en)), (''description'', Optional joi_short_text)]"

definition buyCreditFields :: "joi_env \<Rightarrow> schema_fields" where
  "buyCreditFields en = [(''quoteId'', Required joi_any_text), (''walletAddress'', Optional (addressSchema en)),
     (''idempotencyKey'', Optional joi_any_text)]"

definition badgeReserveFields :: "joi_env \<Rightarrow> schema_fields" where
  "badgeReserveFields en = [(''walletAddress'', Required (addressSchema en)), (''phone'', Required (joi_text valid_phone))]"

definition badgeMpesaInitiateFields :: schema_fields where
  "badgeMpesaInitiateFields = [(''quoteId'', Required joi_any_text), (''phone'', Required (joi_text valid_phone))]"

definition badgeIssueFields :: "joi_env \<Rightarrow> schema_fields" where
  "badgeIssueFields en = [(''quoteId'', Required joi_any_text), (''walletAddress'', Optional (addressSchema en))]"

definition sellFields :: "joi_env \<Rightarrow> schema_fields" where
  "sellFields en = [(''sellerAddress'', Required (addressSchema en)), (''amount'', Required (amountSchema en)),
     (''txBytes'', Required joi_any_text), (''phone'', Optional joi_any_text)]"

definition mpesa_item :: json_check where
  "mpesa_item = joi_object True [(''Name'', Required joi_any_text), (''Value'', Required joi_any)]"

definition mpesa_metadata :: json_check where
  "mpesa_metadata = joi_object True [(''Item'', Optional (joi_array mpesa_item))]"

definition mpesa_stk :: "joi_env \<Rightarrow> json_check" where
  "mpesa_stk en = joi_object True
     [(''MerchantRequestID'', Optional joi_any_text), (''CheckoutRequestID'', Optional joi_any_text),
      (''ResultCode'', Optional (joi_num en (\<lambda>_. True))), (''ResultDesc'', Optional joi_any_text),
      (''CallbackMetadata'', Optional mpesa_metadata)]"

definition mpesa_body :: "joi_env \<Rightarrow> json_check" where
  "mpesa_body en = joi_object True [(''stkCallback'', Optional (mpesa_stk en))]"

definition mpesaCallbackSchema :: "joi_env \<Rightarrow> schema_fields" where
  "mpesaCallbackSchema en = [(''Body'', Optional (mpesa_body en))]"

definition payoutCallbackSchema :: schema_fields where
  "payoutCallbackSchema =
     [(''Result'', Optional (joi_object True
        [(''ConversationID'', Optional joi_any_text), (''OriginatorConversationID'', Optional joi_any_text),
         (''ResponseCode'', Optional joi_any_text), (''ResponseDescription'', Optional joi_any_text)]))]"

text \<open>The schemas by the names they are exported under.\<close>

definition exported_schemas :: "joi_env \<Rightarrow> (string \<times> json_check) list" where
  "exported_schemas en =
     [(''transfer'', joi_object True (transferSchema en)), (''payment'', joi_object True (paymentSchema en)),
      (''mallcoinPayment'', joi_object True (mallcoinPaymentSchema en)), (''mlcnsTransfer'', joi_object True (mlcnsTransferSchema en)),
      (''buyReserve'', joi_object True (buyReserveFields en)), (''buyMpesaInitiate'', joi_object True (buyMpesaInitiateFields en)),
      (''buyCredit'', joi_object True (buyCreditFields en)), (''badgeReserve'', joi_object True (badgeReserveFields en)),
      (''badgeMpesaInitiate'', joi_object True badgeMpesaInitiateFields), (''badgeIssue'', joi_object True (badgeIssueFields en)),
      (''badgeStatusParam'', joi_object False [(''quoteId'', Required joi_any_text)]), (''sell'', joi_object True (sellFields en)),
      (''faucetRequest'', joi_object True (faucetRequestSchema en)), (''address'', addressSchema en), (''amount'', amountSchema en),
      (''paymentId'', paymentIdSchema), (''buyStatusParam'', joi_object False [(''paymentId'', Required joi_any_text)]),
      (''sellStatusParam'', joi_object False [(''saleId'', Required joi_any_text)]),
      (''mpesaCallback'', joi_object True (mpesaCallbackSchema en)), (''payoutCallback'', joi_object True payoutCallbackSchema)]"

text \<open>The middleware: the paths that failed, or the body and the converted body beside it.\<close>

fun join_path :: "string list \<Rightarrow> string" where
  "join_path [] = []"
| "join_path [s] = s"
| "join_path (s # ss) = s @ ''.'' @ join_path ss"

definition validate :: "json_check \<Rightarrow> json \<Rightarrow> string list + json" where
  "validate schema body = (case schema body of Inl es \<Rightarrow> Inl (map join_path es) | Inr v \<Rightarrow> Inr v)"

section \<open>The schemas of the utilities\<close>

text \<open>These refuse unknown fields, and take addresses of three chains.\<close>

definition ADDRESS_PREFIXES :: "string list" where "ADDRESS_PREFIXES = [''cosmos'', ''mall'', ''tmp'']"

definition any_chain_address :: "joi_env \<Rightarrow> json_check" where
  "any_chain_address en = joi_text (\<lambda>s. case jo_bech32 en s of None \<Rightarrow> False | Some (p, n) \<Rightarrow> p \<in> set ADDRESS_PREFIXES \<and> n = 20)"

definition positive_amount :: "joi_env \<Rightarrow> json_check" where "positive_amount en = joi_num en (\<lambda>n. 0 < n)"

definition hex_digit :: "char \<Rightarrow> bool" where "hex_digit c \<longleftrightarrow> is_digit c \<or> to_lower c \<in> set ''abcdef''"

definition txHashSchema :: json_check where "txHashSchema = joi_text (\<lambda>s. length s = 64 \<and> list_all hex_digit s)"
definition signatureSchema :: json_check where "signatureSchema = joi_text (list_all hex_digit)"
definition gasPriceSchema :: "joi_env \<Rightarrow> json_check" where "gasPriceSchema en = joi_num en (\<lambda>n. 0 < n \<and> n \<le> 10000)"
definition one_of :: "string list \<Rightarrow> json_check" where "one_of xs = joi_text (\<lambda>s. s \<in> set xs)"

definition sendSchema :: "joi_env \<Rightarrow> schema_fields" where
  "sendSchema en = [(''toAddress'', Required (any_chain_address en)), (''amount'', Required (positive_amount en)),
     (''denom'', Defaulted joi_any_text (JsText ''umlcn'')), (''memo'', Optional joi_short_text),
     (''walletAddress'', Required (any_chain_address en)), (''signature'', Optional signatureSchema),
     (''publicKey'', Optional joi_any_text), (''gas'', Optional (joi_num en (\<lambda>n. 0 < n))), (''gasPrice'', Optional (gasPriceSchema en))]"

definition sendMallcoinsSchema :: "joi_env \<Rightarrow> schema_fields" where
  "sendMallcoinsSchema en = [(''from'', Required (any_chain_address en)), (''to'', Required (any_chain_address en)),
     (''amount'', Required (positive_amount en)), (''txBytes'', Required joi_any_text)]"

definition processPaymentSchema :: "joi_env \<Rightarrow> schema_fields" where
  "processPaymentSchema en = [(''buyerAddress'', Required (any_chain_address en)), (''sellerAddress'', Required (any_chain_address en)),
     (''amountKES'', Required (positive_amount en)), (''txBytes'', Required joi_any_text), (''description'', Optional joi_short_text)]"

definition stakingActionSchema :: "joi_env \<Rightarrow> schema_fields" where
  "stakingActionSchema en = [(''action'', Required (one_of [''delegate'', ''undelegate'', ''redelegate'', ''claim''])),
     (''delegatorAddress'', Required (any_chain_address en)), (''validatorAddress'', Optional (any_chain_address en)),
     (''amount'', Optional (positive_amount en)), (''denom'', Defaulted joi_any_text (JsText ''umlcn'')),
     (''memo'', Optional joi_short_text), (''gasPrice'', Optional (gasPriceSchema en))]"

definition governanceVoteSchema :: "joi_env \<Rightarrow> schema_fields" where
  "governanceVoteSchema en = [(''proposalId'', Required (joi_num en (\<lambda>n. 0 < n))), (''voterAddress'', Required (any_chain_address en)),
     (''option'', Required (one_of [''VOTE_OPTION_YES'', ''VOTE_OPTION_NO'', ''VOTE_OPTION_ABSTAIN''])),
     (''memo'', Optional joi_short_text), (''gasPrice'', Optional (gasPriceSchema en))]"

definition liquiditySchema :: "joi_env \<Rightarrow> schema_fields" where
  "liquiditySchema en = [(''poolId'', Required joi_any_text), (''userAddress'', Required (any_chain_address en)),
     (''amount0'', Optional (positive_amount en)), (''amount1'', Optional (positive_amount en)),
     (''lpTokens'', Optional (positive_amount en)), (''gasPrice'', Optional (gasPriceSchema en))]"

definition buyQuoteSchema :: "joi_env \<Rightarrow> schema_fields" where
  "buyQuoteSchema en = [(''walletAddress'', Required (any_chain_address en)), (''amount'', Required (positive_amount en)),
     (''paymentMethod'', Required (one_of [''mpesa'', ''card''])), (''memo'', Optional joi_short_text)]"

definition buyCreditSchema :: "joi_env \<Rightarrow> schema_fields" where
  "buyCreditSchema en = [(''quoteId'', Optional joi_any_text), (''walletAddress'', Required (any_chain_address en)),
     (''amount'', RequiredWithout ''quoteId'' (positive_amount en)), (''idempotencyKey'', Optional (joi_text (\<lambda>s. length s \<le> 128)))]"

definition trimmed_text :: json_check where
  "trimmed_text v = (case v of JsText s \<Rightarrow> if js_trim s = [] then Inl [[]] else Inr (JsText (js_trim s)) | _ \<Rightarrow> Inl [[]])"

definition buyReserveSchema :: "joi_env \<Rightarrow> schema_fields" where
  "buyReserveSchema en = [(''walletAddress'', Required (any_chain_address en)), (''phone'', Required (joi_text valid_phone)),
     (''amount'', Required (positive_amount en)), (''fiat'', Required (joi_either (positive_amount en) trimmed_text)),
     (''currency'', Defaulted (one_of [''KES'']) (JsText ''KES''))]"

definition buyMpesaInitiateSchema :: "joi_env \<Rightarrow> schema_fields" where
  "buyMpesaInitiateSchema en = [(''quoteId'', Required joi_any_text), (''phone'', Required (joi_text valid_phone)),
     (''amount'', Required (positive_amount en)), (''description'', Optional joi_short_text)]"

definition withdrawMpesaSchema :: "joi_env \<Rightarrow> schema_fields" where
  "withdrawMpesaSchema en = [(''walletAddress'', Required (any_chain_address en)), (''phone'', Required (joi_text valid_phone)),
     (''amountMlcns'', Required (positive_amount en)), (''amountKes'', Required (positive_amount en)),
     (''currency'', Defaulted (one_of [''KES'']) (JsText ''KES''))]"

definition walletConnectionSchema :: schema_fields where
  "walletConnectionSchema = [(''mnemonicOrKey'', Required joi_any_text), (''addressPrefix'', Optional (one_of ADDRESS_PREFIXES)),
     (''password'', Optional joi_any_text)]"

definition validateRequest :: "schema_fields \<Rightarrow> json \<Rightarrow> string list + json" where
  "validateRequest ps body = validate (joi_object False ps) body"

section \<open>The provider's callback\<close>

definition json_get :: "string \<Rightarrow> json \<Rightarrow> json option" where
  "json_get k v = (case v of JsObject fs \<Rightarrow> map_of fs k | _ \<Rightarrow> None)"

definition text_at :: "joi_env \<Rightarrow> string \<Rightarrow> json \<Rightarrow> string option" where
  "text_at en k v = (case json_get k v of None \<Rightarrow> None | Some JsNull \<Rightarrow> None | Some (JsText s) \<Rightarrow> Some s | Some w \<Rightarrow> Some (jo_cast en w))"

text \<open>Only whether the code is the number 0 matters: any other value, the text of a zero too, is a failure.\<close>

definition code_at :: "json \<Rightarrow> int option" where
  "code_at v = map_option (\<lambda>c. if c = JsNum 0 then 0 else 1) (json_get ''ResultCode'' v)"

definition getMpesaCallbackData :: "joi_env \<Rightarrow> json \<Rightarrow> stk_callback" where
  "getMpesaCallbackData en body =
     (let cb = or_else (Option.bind (json_get ''Body'' body) (json_get ''stkCallback'')) (JsObject []);
          items = (case Option.bind (json_get ''CallbackMetadata'' cb) (json_get ''Item'') of Some (JsArray vs) \<Rightarrow> vs | _ \<Rightarrow> [])
      in \<lparr>sc_checkoutId = text_at en ''CheckoutRequestID'' cb, sc_requestId = text_at en ''RequestID'' cb,
         sc_resultCode = code_at cb,
         sc_items = map (\<lambda>it. (or_else (text_at en ''Name'' it) [], or_else (text_at en ''Value'' it) [])) items\<rparr>)"

datatype webhook_resp = WebhookUnauthorized | WebhookInvalid "string list" | WebhookCode nat

definition mpesaCallbackRoute ::
  "joi_env \<Rightarrow> string option \<Rightarrow> string option \<Rightarrow> int \<Rightarrow> json \<Rightarrow> world \<Rightarrow> webhook_resp \<times> world" where
  "mpesaCallbackRoute en secret token now body W =
     (if \<not> verifyWebhookToken secret token then (WebhookUnauthorized, W)
      else case validate (joi_object True (mpesaCallbackSchema en)) body of
             Inl ds \<Rightarrow> (WebhookInvalid ds, W)
           | Inr _ \<Rightarrow> (case processMpesaCallback now (getMpesaCallbackData en body) W of (c, W1) \<Rightarrow> (WebhookCode c, W1)))"

section \<open>The state of a payment\<close>

text \<open>
  The route looks its schema up by a name. A name that is not exported makes the lookup throw, and the error branch
  answers, with status 200, a payment in the state error.
\<close>

datatype status_resp = StatusInvalid | StatusUnknown | StatusOf payment_summary | StatusError

definition paymentStatus :: "joi_env \<Rightarrow> string \<Rightarrow> world \<Rightarrow> status_resp" where
  "paymentStatus en i W =
     (case map_of (exported_schemas en) ''buyStatusParamSchema'' of
        None \<Rightarrow> StatusError
      | Some schema \<Rightarrow>
          (case schema (JsObject [(''paymentId'', JsText i)]) of
             Inl _ \<Rightarrow> StatusInvalid
           | Inr _ \<Rightarrow> (case coll_find (by_payment i) (purchases W) of None \<Rightarrow> StatusUnknown | Some q \<Rightarrow> StatusOf (paymentSummary q))))"

section \<open>What a schema accepts\<close>

lemma validate_ok: "validate c body = Inr v \<longleftrightarrow> c body = Inr v"
  by (simp add: validate_def split: sum.split)

lemma joi_both_ok: "joi_both put k a b = Inr r \<longleftrightarrow> (\<exists>w ws. a = Inr w \<and> b = Inr ws \<and> r = put w ws)"
  by (cases "(put, k, a, b)" rule: joi_both.cases) auto

lemma fields_cons:
  "joi_fields ((k, p) # ps) fs = Inr out \<longleftrightarrow>
     (\<exists>w rest. joi_field p fs (map_of fs k) = Inr w \<and> joi_fields ps fs = Inr rest
        \<and> out = (case w of None \<Rightarrow> rest | Some x \<Rightarrow> (k, x) # rest))"
  by (auto simp: joi_both_ok)

lemma fields_known: "joi_fields ps fs = Inr out \<Longrightarrow> set (map fst out) \<subseteq> fst ` set ps"
proof (induction ps arbitrary: out rule: list.induct)
  case (Cons kp ps)
  obtain k p where kp: "kp = (k, p)" by (cases kp)
  from Cons.prems obtain w rest where r: "joi_fields ps fs = Inr rest" "out = (case w of None \<Rightarrow> rest | Some x \<Rightarrow> (k, x) # rest)"
    unfolding kp fields_cons by blast
  with Cons.IH [OF r(1)] show ?case by (cases w) (auto simp: kp)
qed simp

text \<open>With distinct names the accepted body is a map: a field holds what its check made of the input, or its default.\<close>

lemma fields_map:
  assumes "joi_fields ps fs = Inr out" "distinct (map fst ps)"
  shows "(\<forall>k. k \<notin> fst ` set ps \<longrightarrow> map_of out k = None)
    \<and> (\<forall>(k, p) \<in> set ps. joi_field p fs (map_of fs k) = Inr (map_of out k))"
  using assms
proof (induction ps arbitrary: out rule: list.induct)
  case (Cons kp ps)
  obtain k p where kp: "kp = (k, p)" by (cases kp)
  from Cons.prems obtain w rest where c: "joi_field p fs (map_of fs k) = Inr w" "joi_fields ps fs = Inr rest"
      "out = (case w of None \<Rightarrow> rest | Some x \<Rightarrow> (k, x) # rest)" and d: "k \<notin> fst ` set ps" "distinct (map fst ps)"
    by (auto simp: kp fields_cons simp del: joi_fields.simps)
  note IH = Cons.IH [OF c(2) d(2)]
  then have "map_of rest k = None" using d(1) by blast
  then have "map_of out k = w" and o: "\<And>k'. k' \<noteq> k \<Longrightarrow> map_of out k' = map_of rest k'" by (auto simp: c(3) split: option.split)
  moreover have "\<And>k' p'. (k', p') \<in> set ps \<Longrightarrow> k' \<noteq> k" using d(1) by force
  ultimately show ?case using IH c(1) by (auto simp: kp o)
qed simp

lemma object_accepts:
  "joi_object strip ps (JsObject fs) = Inr v \<longleftrightarrow>
     (\<exists>out. joi_fields ps fs = Inr out \<and> v = JsObject out \<and> (strip \<or> (\<forall>f\<in>set fs. fst f \<in> fst ` set ps)))"
  by (auto simp: joi_object_def Let_def filter_empty_conv split: sum.splits if_splits)

lemma fields_refuse:
  "(k, p) \<in> set ps \<Longrightarrow> joi_field p fs (map_of fs k) = Inl e \<Longrightarrow> \<exists>es. joi_fields ps fs = Inl es"
proof (induction ps rule: list.induct)
  case (Cons kp ps)
  obtain k' p' where kp: "kp = (k', p')" by (cases kp)
  have "joi_fields (kp # ps) fs \<noteq> Inr out" for out
    using Cons by (auto simp: kp fields_cons simp del: joi_fields.simps)
  then show ?case by (meson sumE)
qed simp

lemma elements_refuse: "v \<in> set vs \<Longrightarrow> c v = Inl e \<Longrightarrow> \<exists>es. joi_elements c i vs = Inl es"
proof (induction vs arbitrary: i rule: list.induct)
  case (Cons w vs)
  have "joi_elements c i (w # vs) \<noteq> Inr out" for out
  proof
    assume "joi_elements c i (w # vs) = Inr out"
    then obtain x xs where x: "c w = Inr x" "joi_elements c (Suc i) vs = Inr xs" by (auto simp: joi_both_ok)
    with Cons.prems have "v \<in> set vs" by auto
    from Cons.IH [OF this Cons.prems(2), of "Suc i"] x(2) show False by simp
  qed
  then show ?case by (meson sumE)
qed simp

section \<open>The callback of the provider\<close>

definition stk_items :: "json \<Rightarrow> json option" where
  "stk_items body = Option.bind (json_get ''Body'' body) (\<lambda>b. Option.bind (json_get ''stkCallback'' b)
     (\<lambda>c. Option.bind (json_get ''CallbackMetadata'' c) (json_get ''Item'')))"

lemma optional_refuse:
  assumes "json_get k v = Some x" "(k, Optional c) \<in> set ps" "\<exists>e. c x = Inl e"
  shows "\<exists>es. joi_object strip ps v = Inl es"
proof -
  from assms(1) obtain fs where v: "v = JsObject fs" "map_of fs k = Some x" by (auto simp: json_get_def split: json.splits)
  from assms(3) obtain e where "joi_field (Optional c) fs (map_of fs k) = Inl e" by (auto simp: joi_field_def v)
  from fields_refuse [OF assms(2) this] show ?thesis by (auto simp: joi_object_def v Let_def)
qed

lemma item_refused:
  assumes "json_get ''Value'' it = None"
  shows "\<exists>e. mpesa_item it = Inl e"
proof (cases it)
  case (JsObject fs)
  with assms have "joi_field (Required joi_any) fs (map_of fs ''Value'') = Inl [[]]" by (simp add: json_get_def joi_field_def)
  from fields_refuse [of "''Value''" "Required joi_any" "[(''Name'', Required joi_any_text), (''Value'', Required joi_any)]", OF _ this]
  show ?thesis by (auto simp: mpesa_item_def joi_object_def JsObject Let_def)
qed (simp_all add: mpesa_item_def joi_object_def)

text \<open>
  C23: the schema of the callback demands a value in every item of the list the provider sends along. A confirmation
  with one item that has none, as the balance of an account has none, is refused as a whole: the payment stays as it
  was, the callback is not kept for a later attempt, and the customer has paid for nothing.
\<close>

theorem callback_without_value_refused:
  assumes "verifyWebhookToken secret token" "stk_items body = Some (JsArray vs)" "it \<in> set vs" "json_get ''Value'' it = None"
  shows "\<exists>ds. mpesaCallbackRoute en secret token now body W = (WebhookInvalid ds, W)"
proof -
  from assms(2) obtain b c d where p: "json_get ''Body'' body = Some b" "json_get ''stkCallback'' b = Some c"
      "json_get ''CallbackMetadata'' c = Some d" "json_get ''Item'' d = Some (JsArray vs)"
    by (auto simp: stk_items_def bind_eq_Some_conv)
  from item_refused [OF assms(4)] obtain e where "mpesa_item it = Inl e" by blast
  from elements_refuse [where c = mpesa_item, OF assms(3) this, of 0]
  have "\<exists>e. joi_array mpesa_item (JsArray vs) = Inl e" by (auto simp: joi_array_def)
  then have "\<exists>e. mpesa_metadata d = Inl e"
    unfolding mpesa_metadata_def by (rule optional_refuse [OF p(4), where c = "joi_array mpesa_item", rotated]) simp
  then have "\<exists>e. mpesa_stk en c = Inl e"
    unfolding mpesa_stk_def by (rule optional_refuse [OF p(3), where c = mpesa_metadata, rotated]) simp
  then have "\<exists>e. mpesa_body en b = Inl e"
    unfolding mpesa_body_def by (rule optional_refuse [OF p(2), where c = "mpesa_stk en", rotated]) simp
  then have "\<exists>e. joi_object True (mpesaCallbackSchema en) body = Inl e"
    unfolding mpesaCallbackSchema_def by (rule optional_refuse [OF p(1), where c = "mpesa_body en", rotated]) simp
  with assms(1) show ?thesis by (auto simp: mpesaCallbackRoute_def validate_def)
qed

section \<open>The state of a payment\<close>

text \<open>
  the route of the state of a payment never answers one: the name it looks its schema up by is not the name the
  schema is exported under, so whatever was paid, credited or refused, the answer is an error.
\<close>

theorem payment_status_always_errs: "paymentStatus en i W = StatusError"
  by (simp add: paymentStatus_def exported_schemas_def)

section \<open>What reaches a handler\<close>

text \<open>
  a body that passes a schema holds, under every name of the schema, exactly what the check of that name made of
  the request's field (or its default), and under no other name anything; where nothing is stripped the request has
  no other name either.
\<close>

theorem accepted_body_is_checked:
  assumes "validate (joi_object strip ps) body = Inr v" "distinct (map fst ps)"
  shows "\<exists>fs out. body = JsObject fs \<and> v = JsObject out
     \<and> (\<forall>k. k \<notin> fst ` set ps \<longrightarrow> map_of out k = None)
     \<and> (\<forall>(k, p) \<in> set ps. joi_field p fs (map_of fs k) = Inr (map_of out k))
     \<and> (strip \<or> (\<forall>f \<in> set fs. fst f \<in> fst ` set ps))"
proof -
  from assms(1) have "joi_object strip ps body = Inr v" by (simp add: validate_ok)
  moreover from this obtain fs where "body = JsObject fs" by (cases body) (auto simp: joi_object_def)
  ultimately show ?thesis using fields_map [OF _ assms(2)] by (auto simp: object_accepts)
qed

text \<open>The body of a cash-out as its model has it, as the request that carries it.\<close>

definition sell_json :: "sell_body \<Rightarrow> json" where
  "sell_json b = JsObject ([(''sellerAddress'', JsText (sb_sellerAddress b)), (''amount'', JsNum (sb_amount b)),
     (''txBytes'', JsText (sb_txBytes b))] @ (case sb_phone b of None \<Rightarrow> [] | Some p \<Rightarrow> [(''phone'', JsText p)]))"

definition mall_address :: "joi_env \<Rightarrow> string \<Rightarrow> bool" where
  "mall_address en s \<longleftrightarrow> s \<noteq> [] \<and> jo_bech32 en s = Some (''mall'', 20)"


text \<open>
  the route checks the converted callback and processes the one as sent: a result code sent as the text of a zero
  passes as the number 0, and the payment it confirms is marked as failed.
\<close>

theorem text_code_fails_payment:
  assumes "verifyWebhookToken secret token" "validate (joi_object True (mpesaCallbackSchema en)) body = Inr v"
    "json_get ''Body'' body = Some b" "json_get ''stkCallback'' b = Some c" "json_get ''ResultCode'' c = Some (JsText ''0'')"
    "coll_find (by_payment (callback_payment_id (getMpesaCallbackData en body))) (purchases W) = Some q"
    "\<not> settled_purchase (q_status q)" "callback_payment_id (getMpesaCallbackData en body) \<noteq> []"
  shows "\<exists>W1 q1. mpesaCallbackRoute en secret token now body W = (WebhookCode 0, W1)
     \<and> q1 \<in> set (purchases W1) \<and> q_quoteId q1 = q_quoteId q \<and> q_status q1 = QFailed"
proof -
  have code: "or_else (sc_resultCode (getMpesaCallbackData en body)) 1 = 1"
    using assms(3-5) by (simp add: getMpesaCallbackData_def code_at_def or_else_def Let_def)
  let ?q = "q\<lparr>q_status := QFailed, q_reason := Some PaymentFailed\<rparr>"
  obtain r W1 where p: "processMpesaCallback now (getMpesaCallbackData en body) W = (r, W1)" by fastforce
  then have "r = 0" "?q \<in> set (purchases W1)"
    using assms(6-8) code coll_find_Some [OF assms(6)]
    by (auto simp: processMpesaCallback_def Let_def frame_simps intro!: coll_put_self)
  then show ?thesis using assms(1,2)
    by (intro exI [of _ W1] exI [of _ ?q]) (simp add: mpesaCallbackRoute_def p)
qed

section \<open>Applications\<close>

definition demo_joi :: joi_env where
  "demo_joi = \<lparr>jo_bech32 = (\<lambda>s. if prefix ''mall1'' s then Some (''mall'', 20) else None),
     jo_number = (\<lambda>s. if s = ''0'' then Some 0 else None), jo_cast = (\<lambda>_. [])\<rparr>"

definition demo_callback :: "json \<Rightarrow> json list \<Rightarrow> json" where
  "demo_callback code items = JsObject [(''Body'', JsObject [(''stkCallback'', JsObject
     [(''CheckoutRequestID'', JsText ''ws_1''), (''ResultCode'', code),
      (''CallbackMetadata'', JsObject [(''Item'', JsArray items)])])])]"

definition demo_receipt :: json where
  "demo_receipt = JsObject [(''Name'', JsText ''MpesaReceiptNumber''), (''Value'', JsText ''NLJ7RT61SV'')]"

definition demo_balance :: json where "demo_balance = JsObject [(''Name'', JsText ''Balance'')]"

definition demo_paying :: world where
  "demo_paying = empty_world\<lparr>purchases := [(new_purchase demo_buy (demo_reserve_body 1))
     \<lparr>q_status := QPaymentInitiated, q_paymentId := Some ''ws_1''\<rparr>]\<rparr>"

theorem callback_without_value_refused_witness:
  "(\<exists>ds. mpesaCallbackRoute demo_joi None None 5 (demo_callback (JsNum 0) [demo_receipt, demo_balance]) demo_paying
      = (WebhookInvalid ds, demo_paying))
   \<and> map q_status (purchases demo_paying) = [QPaymentInitiated]"
proof -
  have i: "stk_items (demo_callback (JsNum 0) [demo_receipt, demo_balance]) = Some (JsArray [demo_receipt, demo_balance])"
    by (simp add: stk_items_def demo_callback_def json_get_def)
  show ?thesis using callback_without_value_refused [OF _ i, of None None demo_balance]
    by (simp add: verifyWebhookToken_def truthy_str_def demo_balance_def json_get_def demo_paying_def)
qed

theorem accepted_body_is_checked_witness:
  "\<exists>fs out. JsObject [(''quoteId'', JsText ''Q1''), (''extra'', JsNull)] = JsObject fs \<and> JsObject [(''quoteId'', JsText ''Q1'')] = JsObject out
     \<and> (\<forall>k. k \<notin> fst ` set (buyCreditFields demo_joi) \<longrightarrow> map_of out k = None)
     \<and> (\<forall>(k, p) \<in> set (buyCreditFields demo_joi). joi_field p fs (map_of fs k) = Inr (map_of out k))
     \<and> (True \<or> (\<forall>f \<in> set fs. fst f \<in> fst ` set (buyCreditFields demo_joi)))"
  by (rule accepted_body_is_checked)
    (simp_all add: validate_def joi_object_def buyCreditFields_def joi_field_def joi_any_text_def joi_text_def)

theorem text_code_fails_payment_witness:
  "\<exists>W1 q1. mpesaCallbackRoute demo_joi None None 5 (demo_callback (JsText ''0'') [demo_receipt]) demo_paying = (WebhookCode 0, W1)
     \<and> q1 \<in> set (purchases W1) \<and> q_quoteId q1 = ''Q1'' \<and> q_status q1 = QFailed"
proof -
  let ?body = "demo_callback (JsText ''0'') [demo_receipt]"
  let ?q = "(new_purchase demo_buy (demo_reserve_body 1))\<lparr>q_status := QPaymentInitiated, q_paymentId := Some ''ws_1''\<rparr>"
  have w: "verifyWebhookToken None None" by (simp add: verifyWebhookToken_def truthy_str_def)
  have v: "validate (joi_object True (mpesaCallbackSchema demo_joi)) ?body = Inr (demo_callback (JsNum 0) [demo_receipt])"
    by (simp add: validate_def joi_object_def mpesaCallbackSchema_def mpesa_body_def mpesa_stk_def mpesa_metadata_def
        mpesa_item_def joi_field_def joi_any_text_def joi_text_def joi_num_def joi_any_def joi_array_def demo_joi_def MAX_SAFE_def
        demo_callback_def demo_receipt_def)
  have i: "callback_payment_id (getMpesaCallbackData demo_joi ?body) = ''ws_1''"
    by (simp add: callback_payment_id_def getMpesaCallbackData_def demo_callback_def json_get_def text_at_def or_else_def Let_def)
  have q: "coll_find (by_payment ''ws_1'') (purchases demo_paying) = Some ?q"
    by (simp add: demo_paying_def by_payment_def)
  obtain b c where "json_get ''Body'' ?body = Some b" "json_get ''stkCallback'' b = Some c" "json_get ''ResultCode'' c = Some (JsText ''0'')"
    by (simp add: demo_callback_def json_get_def)
  from text_code_fails_payment [OF w v this, of demo_paying ?q 5] show ?thesis
    by (simp add: i q settled_purchase_def new_purchase_def demo_buy_def)
qed

end
