(* ===== verification/Sending.thy ===== *)
theory Sending
  imports RequestSchemas FieldEncryption
begin

text \<open>
  The relay of signed transfers (\<open>controllers/sendController.js\<close>, \<open>routes/send.js\<close>): the limiter of the routes
  (\<open>middleware/rateLimiter.js\<close>), the checks of a body, the broadcast, and the questions a wallet asks before and
  after it. The customer signs; the server never sees a key and reads nothing from the signed bytes. The state is the
  list of the bytes handed to the chain; its answers are parameters.
\<close>

section \<open>The limiter\<close>

definition json_truthy :: "json \<Rightarrow> bool" where
  "json_truthy v = (case v of JsNull \<Rightarrow> False | JsBool b \<Rightarrow> b | JsNum n \<Rightarrow> n \<noteq> 0 | JsText s \<Rightarrow> s \<noteq> [] | _ \<Rightarrow> True)"

definition truthy_at :: "string \<Rightarrow> json \<Rightarrow> json option" where
  "truthy_at k body = (case json_get k body of None \<Rightarrow> None | Some v \<Rightarrow> if json_truthy v then Some v else None)"

fun first_truthy :: "string list \<Rightarrow> json \<Rightarrow> json option" where
  "first_truthy [] body = None"
| "first_truthy (k # ks) body = (case truthy_at k body of Some v \<Rightarrow> Some v | None \<Rightarrow> first_truthy ks body)"

text \<open>No guard runs before it on these routes, so no user is known, and the body is the one the client sent.\<close>

definition accountKeyGenerator :: "string option \<Rightarrow> json \<Rightarrow> string \<Rightarrow> json" where
  "accountKeyGenerator user body ip =
     (case str_or user None of
        Some u \<Rightarrow> JsText u
      | None \<Rightarrow> or_else (first_truthy [''from'', ''fromAddress'', ''buyerAddress'', ''buyer'', ''address''] body) (JsText ip))"

text \<open>
  The package counts the requests of a key in the running window: \<open>hits_of history key now\<close>, over the requests it
  has seen. Whether the request passes, and the history with it.
\<close>

type_synonym hits = "(json \<times> int) list"

definition financial_max :: nat where "financial_max = 20"

definition financialLimiter :: "(hits \<Rightarrow> json \<Rightarrow> int \<Rightarrow> nat) \<Rightarrow> json \<Rightarrow> int \<Rightarrow> hits \<Rightarrow> bool \<times> hits" where
  "financialLimiter hits_of key now h = (let h1 = h @ [(key, now)] in (hits_of h1 key now \<le> financial_max, h1))"

section \<open>The relay\<close>

datatype send_error =
    SendFormat string | SendDown | SendTimeout | SendFault | SendRejected int "string option" | SendInternal

fun send_status :: "send_error \<Rightarrow> nat" where
  "send_status (SendFormat _) = 400"
| "send_status SendDown = 503"
| "send_status SendTimeout = 504"
| "send_status SendFault = 503"
| "send_status (SendRejected _ _) = 400"
| "send_status SendInternal = 500"

text \<open>The reply of the chain: the two places a code and a hash can stand in.\<close>

record chain_data =
  cd_tx :: "(int option \<times> string option) option"
  cd_code :: "int option"
  cd_hash :: "string option"

datatype chain_reply = ChainRefused | ChainTimeout | ChainFault | ChainData chain_data

record send_env =
  sd_joi :: joi_env
  sd_strip :: "string \<Rightarrow> string"
  sd_prefix :: string
  sd_decimals :: nat
  sd_balance :: "string \<Rightarrow> string + wallet_balance"
  sd_chain :: "string \<Rightarrow> chain_reply"

text \<open>An array is one of bytes. The check of the base64 form never fails: the decoder skips what it cannot read.\<close>

definition byte_of :: "json \<Rightarrow> char" where
  "byte_of v = (case v of JsNum n \<Rightarrow> char_of (nat (\<lfloor>n\<rfloor> mod 256)) | _ \<Rightarrow> char_of (0 :: nat))"

definition normalizeTxBytes :: "json option \<Rightarrow> send_error + string" where
  "normalizeTxBytes v =
     (case v of
        None \<Rightarrow> Inl (SendFormat ''txBytes is required'')
      | Some w \<Rightarrow>
          if \<not> json_truthy w then Inl (SendFormat ''txBytes is required'')
          else case w of
                 JsArray vs \<Rightarrow> Inr (b64_encode (map byte_of vs))
               | JsText s \<Rightarrow> Inr s
               | _ \<Rightarrow> Inl (SendFormat ''txBytes must be a base64 string''))"

definition broadcastTx :: "send_env \<Rightarrow> string \<Rightarrow> string list \<Rightarrow> (send_error + chain_data) \<times> string list" where
  "broadcastTx en tx L =
     ((case sd_chain en tx of ChainRefused \<Rightarrow> Inl SendDown | ChainTimeout \<Rightarrow> Inl SendTimeout | ChainFault \<Rightarrow> Inl SendFault
         | ChainData d \<Rightarrow> Inr d), L @ [tx])"

definition reply_code :: "chain_data \<Rightarrow> int option" where
  "reply_code d =
     (case Option.bind (cd_tx d) fst of Some c \<Rightarrow> if c = 0 then cd_code d else Some c | None \<Rightarrow> cd_code d)"

definition reply_hash :: "chain_data \<Rightarrow> string option" where
  "reply_hash d = str_or (Option.bind (cd_tx d) snd) (cd_hash d)"

definition relay :: "send_env \<Rightarrow> string \<Rightarrow> string list \<Rightarrow> (send_error + string option) \<times> string list" where
  "relay en tx L =
     (case broadcastTx en tx L of
        (Inl e, L1) \<Rightarrow> (Inl e, L1)
      | (Inr d, L1) \<Rightarrow>
          (case reply_code d of
             Some c \<Rightarrow> if c \<noteq> 0 then (Inl (SendRejected c (reply_hash d)), L1) else (Inr (reply_hash d), L1)
           | None \<Rightarrow> (Inr (reply_hash d), L1)))"

text \<open>The answer of a success: the hash the chain gave, and what the client said about its transfer.\<close>

record sent =
  st_hash :: "string option"
  st_claims :: "(string \<times> json) list"

definition told_fields :: "(string \<times> string) list \<Rightarrow> json \<Rightarrow> (string \<times> json) list" where
  "told_fields ks body = List.map_filter (\<lambda>(a, k). map_option (Pair a) (json_get k body)) ks"

definition relay_body :: "send_env \<Rightarrow> string list \<Rightarrow> (string \<times> string) list \<Rightarrow> string \<Rightarrow> json \<Rightarrow> string list \<Rightarrow> (send_error + sent) \<times> string list" where
  "relay_body en needed told missing body L =
     (if \<exists>k \<in> set needed. truthy_at k body = None then (Inl (SendFormat missing), L)
      else case normalizeTxBytes (json_get ''txBytes'' body) of
             Inl e \<Rightarrow> (Inl e, L)
           | Inr tx \<Rightarrow>
               (case relay en tx L of
                  (Inl e, L1) \<Rightarrow> (Inl e, L1)
                | (Inr h, L1) \<Rightarrow> (Inr \<lparr>st_hash = h, st_claims = told_fields told body\<rparr>, L1)))"

definition sendMallcoins :: "send_env \<Rightarrow> json \<Rightarrow> string list \<Rightarrow> (send_error + sent) \<times> string list" where
  "sendMallcoins en = relay_body en [''from'', ''to'', ''amount''] [(''from'', ''from''), (''to'', ''to''), (''amount'', ''amount'')] ''Missing required fields: from, to, amount''"

definition payment_told :: "(string \<times> string) list" where
  "payment_told = [(''buyer'', ''buyerAddress''), (''seller'', ''sellerAddress''), (''amountKES'', ''amountKES''), (''description'', ''description'')]"

definition processPayment :: "send_env \<Rightarrow> json \<Rightarrow> string list \<Rightarrow> (send_error + sent) \<times> string list" where
  "processPayment en = relay_body en [''buyerAddress'', ''sellerAddress'', ''amountKES'']
     payment_told ''Missing required payment fields''"

section \<open>The transfer with its checks\<close>

definition isValidAddress :: "send_env \<Rightarrow> json option \<Rightarrow> bool" where
  "isValidAddress en v =
     (case v of Some (JsText s) \<Rightarrow> s \<noteq> [] \<and> jo_bech32 (sd_joi en) s = Some (sd_prefix en, 20) | _ \<Rightarrow> False)"

text \<open>The number of a value that the schema let through: a number, or a text that spells one.\<close>

definition number_of :: "joi_env \<Rightarrow> json \<Rightarrow> num option" where
  "number_of en v = (case v of JsNum n \<Rightarrow> Some n | JsText s \<Rightarrow> jo_number en s | _ \<Rightarrow> None)"

datatype transfer_resp =
    TrMissing | TrAddress | TrSelf | TrAmount | TrShort num num | TrUnsigned | TrFailed string | TrRelayed "send_error + sent"

definition availableDisplay :: "send_env \<Rightarrow> wallet_balance \<Rightarrow> num" where
  "availableDisplay en b = mc_fromBaseUnits (sd_decimals en) (fl (of_int (wb_available b)))"

definition transferMlcns :: "send_env \<Rightarrow> json \<Rightarrow> string list \<Rightarrow> transfer_resp \<times> string list" where
  "transferMlcns en body L =
     (case (truthy_at ''from'' body, truthy_at ''to'' body, json_get ''amountMlcns'' body) of
        (Some f, Some t, Some a) \<Rightarrow>
          if \<not> isValidAddress en (Some f) \<or> \<not> isValidAddress en (Some t) then (TrAddress, L)
          else if f = t then (TrSelf, L)
          else (case number_of (sd_joi en) a of
                  None \<Rightarrow> (TrAmount, L)
                | Some n \<Rightarrow>
                    if n \<le> 0 then (TrAmount, L)
                    else (case sd_balance en (case f of JsText s \<Rightarrow> s | _ \<Rightarrow> []) of
                            Inl e \<Rightarrow> (TrFailed e, L)
                          | Inr b \<Rightarrow>
                              if availableDisplay en b < n then (TrShort (availableDisplay en b) n, L)
                              else case truthy_at ''txBytes'' body of
                                     None \<Rightarrow> (TrUnsigned, L)
                                   | Some x \<Rightarrow>
                                       (case sendMallcoins en (JsObject [(''from'', f), (''to'', t), (''amount'', JsNum n), (''txBytes'', x)]) L of
                                          (r, L1) \<Rightarrow> (TrRelayed r, L1))))
      | _ \<Rightarrow> (TrMissing, L))"

section \<open>Questions to the chain\<close>

datatype tx_lookup = TxFound "int option" | TxMissing | TxSlow | TxBroken

datatype tx_state = TxConfirmed | TxFailedState | TxPending

definition getTransactionStatus :: "tx_lookup \<Rightarrow> send_error + tx_state" where
  "getTransactionStatus r =
     (case r of
        TxFound c \<Rightarrow> Inr (if c = Some 0 then TxConfirmed else TxFailedState)
      | TxMissing \<Rightarrow> Inr TxPending
      | TxSlow \<Rightarrow> Inl SendTimeout
      | TxBroken \<Rightarrow> Inl SendFault)"

text \<open>The account of an address: a status and, in it, maybe the number and the sequence, each a number or not.\<close>

datatype account_reply = AccThrows | AccHttp nat "(num option \<times> num option) option"

record account_meta =
  am_number :: num
  am_sequence :: num
  am_notFound :: bool

definition no_account :: account_meta where "no_account = \<lparr>am_number = 0, am_sequence = 0, am_notFound = True\<rparr>"

definition getAccountInfo :: "account_reply \<Rightarrow> send_error + account_meta" where
  "getAccountInfo r =
     (case r of
        AccThrows \<Rightarrow> Inl SendInternal
      | AccHttp status info \<Rightarrow>
          if 400 \<le> status then Inr no_account
          else (case info of
                  None \<Rightarrow> Inr no_account
                | Some (Some n, Some s) \<Rightarrow> Inr \<lparr>am_number = n, am_sequence = s, am_notFound = False\<rparr>
                | Some _ \<Rightarrow> Inl SendInternal))"

definition getGasBalance :: "num \<Rightarrow> string \<Rightarrow> (string \<times> int) list \<Rightarrow> int \<times> num \<times> bool" where
  "getGasBalance minGas denom coins =
     (let amount = or_else (map_of coins denom) 0; display = js_div (fl (of_int amount)) (10 ^ 6)
      in (amount, display, minGas \<le> display))"

section \<open>The routes\<close>

datatype 'r send_route = RouteLimited | RouteLarge | RouteInjection | RouteInvalid "string list" | RouteAnswer 'r

record send_server =
  ss_hits :: hits
  ss_relayed :: "string list"

definition sendRoute ::
  "send_env \<Rightarrow> (hits \<Rightarrow> json \<Rightarrow> int \<Rightarrow> nat) \<Rightarrow> schema_fields \<Rightarrow> (json \<Rightarrow> json \<Rightarrow> string list \<Rightarrow> 'r \<times> string list)
     \<Rightarrow> string \<Rightarrow> int \<Rightarrow> string option \<Rightarrow> json \<Rightarrow> send_server \<Rightarrow> 'r send_route \<times> send_server" where
  "sendRoute en hits_of ps handler ip now len body S =
     (case financialLimiter hits_of (accountKeyGenerator None body ip) now (ss_hits S) of
        (False, h) \<Rightarrow> (RouteLimited, S\<lparr>ss_hits := h\<rparr>)
      | (True, h) \<Rightarrow>
          (let S1 = S\<lparr>ss_hits := h\<rparr>; clean = sanitizeInputs (sd_strip en) body
           in if \<not> limitPayloadSize (1 / 2) len then (RouteLarge, S1)
              else if \<not> checkValue body then (RouteInjection, S1)
              else case validate (joi_object True ps) clean of
                     Inl ds \<Rightarrow> (RouteInvalid ds, S1)
                   | Inr v \<Rightarrow> (case handler clean v (ss_relayed S1) of (r, L) \<Rightarrow> (RouteAnswer r, S1\<lparr>ss_relayed := L\<rparr>))))"

definition postMallcoins ::
  "send_env \<Rightarrow> (hits \<Rightarrow> json \<Rightarrow> int \<Rightarrow> nat) \<Rightarrow> string \<Rightarrow> int \<Rightarrow> string option \<Rightarrow> json \<Rightarrow> send_server \<Rightarrow> (send_error + sent) send_route \<times> send_server" where
  "postMallcoins en hits_of = sendRoute en hits_of (transferSchema (sd_joi en)) (\<lambda>_ v. sendMallcoins en v)"

definition postPayment ::
  "send_env \<Rightarrow> (hits \<Rightarrow> json \<Rightarrow> int \<Rightarrow> nat) \<Rightarrow> string \<Rightarrow> int \<Rightarrow> string option \<Rightarrow> json \<Rightarrow> send_server \<Rightarrow> (send_error + sent) send_route \<times> send_server" where
  "postPayment en hits_of = sendRoute en hits_of (mallcoinPaymentSchema (sd_joi en)) (\<lambda>_ v. processPayment en v)"

definition postTransfer ::
  "send_env \<Rightarrow> (hits \<Rightarrow> json \<Rightarrow> int \<Rightarrow> nat) \<Rightarrow> string \<Rightarrow> int \<Rightarrow> string option \<Rightarrow> json \<Rightarrow> send_server \<Rightarrow> transfer_resp send_route \<times> send_server" where
  "postTransfer en hits_of = sendRoute en hits_of (mlcnsTransferSchema (sd_joi en)) (\<lambda>clean _. transferMlcns en clean)"

section \<open>What is relayed\<close>

lemma broadcast_log: "snd (broadcastTx en tx L) = L @ [tx]"
  by (simp add: broadcastTx_def)

lemma relay_log: "snd (relay en tx L) = L @ [tx]"
  using broadcast_log [of en tx L] by (auto simp: relay_def split: prod.splits sum.splits option.splits)

lemma relay_body_log:
  "snd (relay_body en needed told missing body L) = L
   \<or> (\<exists>tx. normalizeTxBytes (json_get ''txBytes'' body) = Inr tx \<and> snd (relay_body en needed told missing body L) = L @ [tx])"
  using relay_log [of en _ L] by (auto simp: relay_body_def split: prod.splits sum.splits) (metis snd_conv)+

lemma map_sanitized: "map_of (sanitize_fields strip fs) k = map_option (sanitize strip (Some k)) (map_of fs k)"
  by (induction fs rule: list.induct) auto

lemma sanitize_text: "k \<in> set skip_fields \<Longrightarrow> sanitize strip (Some k) v = JsText s \<longleftrightarrow> v = JsText s"
  by (cases v) (auto simp: truthy_str_def skip_fields_def)

lemma clean_text:
  assumes "json_get k (sanitizeInputs strip body) = Some (JsText s)" "k \<in> set skip_fields"
  shows "json_get k body = Some (JsText s)"
  using assms by (cases body) (auto simp: sanitizeInputs_def json_get_def map_sanitized sanitize_text)

lemma accepted_text:
  assumes "validate (joi_object True ps) body = Inr v" "distinct (map fst ps)" "(k, Optional joi_any_text) \<in> set ps"
    "json_get k body = Some w"
  shows "\<exists>s. w = JsText s"
proof -
  from assms(1) have "joi_object True ps body = Inr v" by (simp add: validate_ok)
  moreover from this obtain fs where fs: "body = JsObject fs" by (cases body) (auto simp: joi_object_def)
  ultimately obtain out where out: "joi_fields ps fs = Inr out" by (auto simp: object_accepts)
  have "joi_field (Optional joi_any_text) fs (map_of fs k) = Inr (map_of out k)"
    using fields_map [OF out assms(2)] assms(3) by blast
  with assms(4) show ?thesis
    by (cases w) (auto simp: fs json_get_def joi_field_def joi_any_text_def joi_text_def split: if_splits)
qed


text \<open>
  nothing ties what the answer says to what was signed: of two bodies with the same bytes, both are answered with
  the success of the same transaction, each with the parties and the amount its own sender made up. The answer of the
  payment route is no proof that the seller it names was paid.
\<close>

theorem claims_are_not_checked:
  assumes "processPayment en body L = (Inr r, L1)" "json_get ''txBytes'' body' = json_get ''txBytes'' body"
    "\<forall>k \<in> {''buyerAddress'', ''sellerAddress'', ''amountKES''}. truthy_at k body' \<noteq> None"
  shows "processPayment en body' L
     = (Inr \<lparr>st_hash = st_hash r, st_claims = told_fields payment_told body'\<rparr>, L1)"
  using assms by (auto simp: processPayment_def relay_body_def split: if_splits sum.splits prod.splits)

text \<open>
  an answer of success means that the chain took the bytes: they were handed over once, and its reply carried no
  error code; an answer of failure after the bytes are well formed is the chain's.
\<close>

theorem send_answers_chain:
  assumes "sendMallcoins en body L = (a, L1)" "normalizeTxBytes (json_get ''txBytes'' body) = Inr tx"
    "\<forall>k \<in> {''from'', ''to'', ''amount''}. truthy_at k body \<noteq> None"
  shows "L1 = L @ [tx]
     \<and> ((\<exists>r. a = Inr r) \<longleftrightarrow> (\<exists>d. sd_chain en tx = ChainData d \<and> reply_code d \<in> {None, Some 0}))"
  using assms by (auto simp: sendMallcoins_def relay_body_def relay_def broadcastTx_def
      split: if_splits sum.splits prod.splits option.splits chain_reply.splits)

section \<open>Whom the limiter limits\<close>

fun key_hit :: "string \<times> json \<times> int \<Rightarrow> json \<times> int" where
  "key_hit (ip, body, now) = (accountKeyGenerator None body ip, now)"

text \<open>Requests from addresses of the network with their bodies, one after the other; which of them pass.\<close>

fun limiter_run :: "(hits \<Rightarrow> json \<Rightarrow> int \<Rightarrow> nat) \<Rightarrow> (string \<times> json \<times> int) list \<Rightarrow> hits \<Rightarrow> bool list \<times> hits" where
  "limiter_run hits_of [] h = ([], h)"
| "limiter_run hits_of ((ip, body, now) # rs) h =
     (let (ok, h1) = financialLimiter hits_of (accountKeyGenerator None body ip) now h; (oks, h2) = limiter_run hits_of rs h1
      in (ok # oks, h2))"

definition hits_by :: "json \<Rightarrow> hits \<Rightarrow> nat" where "hits_by k h = length (filter (\<lambda>r. fst r = k) h)"

lemma hits_distinct: "distinct (map fst h) \<Longrightarrow> hits_by k h \<le> 1"
  by (induction h rule: list.induct) (auto simp: hits_by_def filter_empty_conv image_iff)

lemma key_from: "truthy_at ''from'' body = Some v \<Longrightarrow> accountKeyGenerator None body ip = v"
  by (simp add: accountKeyGenerator_def or_else_def)

lemma limiter_run_history:
  "snd (limiter_run hits_of rs h) = h @ map key_hit rs"
proof (induction rs arbitrary: h rule: list.induct)
  case (Cons r rs)
  obtain ip body now where r: "r = (ip, body, now)" by (cases r)
  have "snd (limiter_run hits_of rs (h @ [key_hit r])) = (h @ [key_hit r]) @ map key_hit rs" by (rule Cons.IH)
  then show ?case by (auto simp: r financialLimiter_def Let_def split: prod.splits)
qed simp

lemma limiter_run_passes:
  assumes count: "\<And>h k now. hits_of h k now \<le> hits_by k h"
    and few: "\<And>k. hits_by k (h @ map key_hit rs) \<le> financial_max"
  shows "list_all id (fst (limiter_run hits_of rs h))"
  using few
proof (induction rs arbitrary: h rule: list.induct)
  case (Cons r rs)
  obtain ip body now where r: "r = (ip, body, now)" by (cases r)
  let ?k = "accountKeyGenerator None body ip"
  have "hits_by ?k (h @ [(?k, now)]) \<le> financial_max" using Cons.prems [of ?k] by (simp add: r hits_by_def)
  then have "hits_of (h @ [(?k, now)]) ?k now \<le> financial_max" using count order_trans by blast
  moreover have "list_all id (fst (limiter_run hits_of rs (h @ [(?k, now)])))"
    by (rule Cons.IH) (use Cons.prems in \<open>simp add: r\<close>)
  ultimately show ?case by (auto simp: r financialLimiter_def Let_def id_def split: prod.splits)
qed simp

text \<open>
  the limit of the money routes is kept by the name the body gives, before anything about the body is checked.
  Whoever invents a new sender for every request is never limited, however many he sends from one address of the
  network; the package counting no request twice.
\<close>

theorem limiter_is_evaded:
  assumes "\<forall>h k now. hits_of h k now \<le> hits_by k h"
    "distinct (map (\<lambda>(ip, body, now). truthy_at ''from'' body) rs)" "\<forall>(ip, body, now) \<in> set rs. truthy_at ''from'' body \<noteq> None"
  shows "list_all id (fst (limiter_run hits_of rs []))"
proof (rule limiter_run_passes)
  fix k
  have "map Some (map (fst \<circ> key_hit) rs) = map (\<lambda>(ip, body, now). truthy_at ''from'' body) rs"
    using assms(3) by (auto simp: key_from)
  then have "distinct (map fst (map key_hit rs))" using assms(2) distinct_map [of Some] by (metis map_map)
  then have "hits_by k (map key_hit rs) \<le> 1" by (rule hits_distinct)
  then show "hits_by k ([] @ map key_hit rs) \<le> financial_max" by (simp add: financial_max_def)
qed (use assms(1) in blast)

text \<open>
  and whoever sends twenty requests in the name of another, valid or not and from anywhere, has the other's own
  next request refused, when all fall in the window of the package.
\<close>

theorem limiter_locks_out_another:
  assumes "\<forall>h k now. (\<forall>r \<in> set h. now - window < snd r) \<longrightarrow> hits_of h k now = hits_by k h"
    "length rs = 20" "\<forall>(ip, body, t) \<in> set rs. truthy_at ''from'' body = Some victim \<and> now - window < t"
    "truthy_at ''from'' mine = Some victim" "0 < window"
  shows "fst (sendRoute en hits_of ps handler ip now len mine (S\<lparr>ss_hits := snd (limiter_run hits_of rs [])\<rparr>)) = RouteLimited"
proof -
  let ?h = "snd (limiter_run hits_of rs []) @ [(victim, now)]"
  have h: "?h = map (\<lambda>(ip, body, t). (victim, t)) rs @ [(victim, now)]"
    using assms(3) by (auto simp: limiter_run_history key_from)
  have "\<forall>r \<in> set ?h. now - window < snd r" using assms(3,5) by (auto simp: h)
  with assms(1) have "hits_of ?h victim now = hits_by victim ?h" by blast
  also have "\<dots> = 21"
    using assms(2) unfolding h hits_by_def by (simp add: filter_map comp_def split_def)
  finally have "\<not> hits_of ?h victim now \<le> financial_max" by (simp add: financial_max_def)
  then show ?thesis by (simp add: sendRoute_def financialLimiter_def key_from [OF assms(4)] Let_def)
qed

section \<open>Applications\<close>

definition demo_send :: "chain_reply \<Rightarrow> send_env" where
  "demo_send r = \<lparr>sd_joi = demo_joi, sd_strip = demo_strip, sd_prefix = ''mall'', sd_decimals = 6,
     sd_balance = (\<lambda>_. Inr \<lparr>wb_balance = 5000000, wb_locked = 0, wb_available = 5000000, wb_unlockTime = None, wb_exists = True\<rparr>),
     sd_chain = (\<lambda>_. r)\<rparr>"

definition demo_accepted :: chain_reply where
  "demo_accepted = ChainData \<lparr>cd_tx = Some (Some 0, Some ''AB''), cd_code = None, cd_hash = None\<rparr>"

definition demo_transfer :: json where
  "demo_transfer = JsObject [(''from'', JsText ''mall1a''), (''to'', JsText ''mall1b''), (''amountMlcns'', JsNum 2),
     (''txBytes'', JsText ''Cg==''), (''extra'', JsNull)]"

definition demo_count :: "hits \<Rightarrow> json \<Rightarrow> int \<Rightarrow> nat" where "demo_count h k now = hits_by k h"


theorem claims_are_not_checked_witness:
  "\<exists>r. processPayment (demo_send demo_accepted) (JsObject [(''buyerAddress'', JsText ''mall1a''), (''sellerAddress'', JsText ''mall1b''),
       (''amountKES'', JsNum 1), (''txBytes'', JsText ''Cg=='')]) [] = (Inr r, [''Cg==''])
     \<and> fst (processPayment (demo_send demo_accepted) (JsObject [(''buyerAddress'', JsText ''mall1x''), (''sellerAddress'', JsText ''mall1shop''),
       (''amountKES'', JsNum 900000), (''txBytes'', JsText ''Cg=='')]) [])
       = Inr \<lparr>st_hash = st_hash r, st_claims = [(''buyer'', JsText ''mall1x''), (''seller'', JsText ''mall1shop''), (''amountKES'', JsNum 900000)]\<rparr>"
proof -
  let ?b = "JsObject [(''buyerAddress'', JsText ''mall1a''), (''sellerAddress'', JsText ''mall1b''), (''amountKES'', JsNum 1), (''txBytes'', JsText ''Cg=='')]"
  let ?c = "JsObject [(''buyerAddress'', JsText ''mall1x''), (''sellerAddress'', JsText ''mall1shop''), (''amountKES'', JsNum 900000), (''txBytes'', JsText ''Cg=='')]"
  obtain r where p: "processPayment (demo_send demo_accepted) ?b [] = (Inr r, [''Cg==''])"
    by (simp add: processPayment_def relay_body_def truthy_at_def json_get_def json_truthy_def normalizeTxBytes_def relay_def
        broadcastTx_def demo_send_def demo_accepted_def reply_code_def)
  from claims_are_not_checked [OF p, of ?c] p show ?thesis
    by (simp add: json_get_def truthy_at_def json_truthy_def told_fields_def payment_told_def)
qed

theorem send_answers_chain_witness:
  "\<exists>a L1. sendMallcoins (demo_send ChainTimeout) (JsObject [(''from'', JsText ''mall1a''), (''to'', JsText ''mall1b''), (''amount'', JsNum 1),
       (''txBytes'', JsText ''Cg=='')]) [] = (a, L1) \<and> L1 = [''Cg==''] \<and> \<not> (\<exists>r. a = Inr r)"
proof -
  let ?b = "JsObject [(''from'', JsText ''mall1a''), (''to'', JsText ''mall1b''), (''amount'', JsNum 1), (''txBytes'', JsText ''Cg=='')]"
  obtain a L1 where p: "sendMallcoins (demo_send ChainTimeout) ?b [] = (a, L1)" by fastforce
  have "normalizeTxBytes (json_get ''txBytes'' ?b) = Inr ''Cg==''" by (simp add: json_get_def normalizeTxBytes_def json_truthy_def)
  from send_answers_chain [OF p this] p show ?thesis
    by (auto simp: json_get_def truthy_at_def json_truthy_def demo_send_def)
qed

definition demo_from :: "string \<Rightarrow> json" where "demo_from s = JsObject [(''from'', JsText s)]"

theorem limiter_is_evaded_witness:
  "list_all id (fst (limiter_run demo_count (map (\<lambda>i. (''ip'', demo_from (show_nat i), 7)) [1, 2, 3]) []))"
  by (rule limiter_is_evaded) (auto simp: demo_count_def demo_from_def truthy_at_def json_get_def json_truthy_def show_nat.simps)

theorem limiter_locks_out_another_witness:
  "fst (sendRoute (demo_send demo_accepted) demo_count (transferSchema demo_joi) (\<lambda>_ v. sendMallcoins (demo_send demo_accepted) v) ''home'' 9 None
     (demo_from ''mall1a'') (\<lparr>ss_hits = [], ss_relayed = []\<rparr>\<lparr>ss_hits := snd (limiter_run demo_count (replicate 20 (''ip'', demo_from ''mall1a'', 7)) [])\<rparr>))
   = RouteLimited"
  by (rule limiter_locks_out_another [where window = 900000 and victim = "JsText ''mall1a''"])
    (auto simp: demo_count_def demo_from_def truthy_at_def json_get_def json_truthy_def)

end
