(* ===== verification/AdminOps.thy ===== *)
theory AdminOps
  imports AdminUsers Badge MinesCampaigns WithdrawRoute
begin

text \<open>
  The operations of the administration panel on money (\<open>routes/adminPanel.js\<close>): burn policies and thresholds, the
  retry and the closing of failed withdrawals, the closing of reconciliation items, granted badges and voided badge
  purchases, submissions of the mines, and the pages of its lists. The accounts of the panel are \<open>AdminUsers\<close>, the
  identity checks \<open>Kyc\<close>, the pause \<open>Maintenance\<close>. The texts of a resolution are not kept.
\<close>

section \<open>Pages\<close>

text \<open>The limit and the page of a query, \<open>None\<close> where the query has none or no number.\<close>

definition safe_limit :: "nat \<Rightarrow> nat \<Rightarrow> int option \<Rightarrow> nat" where
  "safe_limit default_size max_size l =
     (let n = (case l of None \<Rightarrow> int default_size | Some k \<Rightarrow> if k = 0 then int default_size else k)
      in nat (min (max n 1) (int max_size)))"

definition page_skip :: "int option \<Rightarrow> nat \<Rightarrow> nat" where
  "page_skip p n = nat (max (or_else p 0) 0) * n"

definition admin_page :: "nat \<Rightarrow> nat \<Rightarrow> int option \<Rightarrow> int option \<Rightarrow> 'a list \<Rightarrow> 'a list" where
  "admin_page default_size max_size l p xs = take (safe_limit default_size max_size l) (drop (page_skip p (safe_limit default_size max_size l)) xs)"

section \<open>Burn policies\<close>

text \<open>The bounds of the schema are not checked by an update; a threshold is found by its activity and supply, which only one has; \<open>percentage\<close> is \<open>None\<close> when it is no number.\<close>

definition postPolicy :: "burn_activity option \<Rightarrow> num option \<Rightarrow> bool option \<Rightarrow> burn_policy list \<Rightarrow> burn_policy option \<times> burn_policy list" where
  "postPolicy act percentage enabled ps =
     (case (act, percentage) of
        (Some a, Some x) \<Rightarrow>
          (let d = \<lparr>bp_activity = a, bp_percentage = x, bp_enabled = or_else enabled True\<rparr>
           in (Some d, case coll_find (\<lambda>p. bp_activity p = a) ps of None \<Rightarrow> ps @ [d] | Some _ \<Rightarrow> coll_put bp_activity d ps))
      | _ \<Rightarrow> (None, ps))"

definition deletePolicy :: "burn_activity \<Rightarrow> burn_policy list \<Rightarrow> bool \<times> burn_policy list" where
  "deletePolicy a ps = (case coll_find (\<lambda>p. bp_activity p = a) ps of None \<Rightarrow> (False, ps) | Some d \<Rightarrow> (True, remove1 d ps))"

definition threshold_key :: "burn_threshold \<Rightarrow> burn_activity \<times> num" where
  "threshold_key t = (bt_activity t, bt_supplyThreshold t)"

definition postThreshold ::
  "burn_activity option \<Rightarrow> num option \<Rightarrow> num option \<Rightarrow> nat option \<Rightarrow> bool option \<Rightarrow> burn_threshold list \<Rightarrow> burn_threshold option \<times> burn_threshold list" where
  "postThreshold act supply percentage order enabled ts =
     (case (act, supply, percentage) of
        (Some a, Some s, Some x) \<Rightarrow>
          (let d = \<lparr>bt_activity = a, bt_supplyThreshold = s, bt_percentage = x, bt_order = or_else order 0, bt_enabled = or_else enabled True\<rparr>
           in (Some d, case coll_find (\<lambda>t. threshold_key t = (a, s)) ts of None \<Rightarrow> ts @ [d] | Some _ \<Rightarrow> coll_put threshold_key d ts))
      | _ \<Rightarrow> (None, ts))"

definition deleteThreshold :: "burn_activity \<times> num \<Rightarrow> burn_threshold list \<Rightarrow> bool \<times> burn_threshold list" where
  "deleteThreshold k ts = (case coll_find (\<lambda>t. threshold_key t = k) ts of None \<Rightarrow> (False, ts) | Some d \<Rightarrow> (True, remove1 d ts))"

section \<open>Withdrawals\<close>

datatype wd_resp = WdNotFound | WdConflict wd_status | WdInvalid | WdReview withdrawal | WdFailed withdrawal | WdOk withdrawal

fun wd_code :: "wd_resp \<Rightarrow> nat" where
  "wd_code WdNotFound = 404"
| "wd_code (WdConflict _) = 409"
| "wd_code WdInvalid = 400"
| "wd_code (WdReview _) = 202"
| "wd_code (WdFailed _) = 502"
| "wd_code (WdOk _) = 200"

text \<open>The read, and what follows it; another request can come between the two.\<close>

definition retry_check :: "string \<Rightarrow> world \<Rightarrow> wd_resp + withdrawal" where
  "retry_check i W =
     (case coll_find (\<lambda>w. w_oid w = i) (withdrawals W) of
        None \<Rightarrow> Inl WdNotFound
      | Some w \<Rightarrow> if w_status w \<noteq> WFailed then Inl (WdConflict (w_status w)) else Inr w)"

definition payout_key :: "withdrawal \<Rightarrow> string" where
  "payout_key w = the (str_or (w_saleId w) (Some (''withdrawal-'' @ w_withdrawalId w)))"

definition retry_pay :: "payout_env \<Rightarrow> withdrawal \<Rightarrow> world \<Rightarrow> wd_resp \<times> world" where
  "retry_pay en w W =
     (case initiateB2CPayout en (w_phone w) (w_amountMlcns w) (payout_key w) W of
        (B2CErr e approval, W1) \<Rightarrow>
          (let w' = w\<lparr>w_status := (if approval then WPendingReview else WFailed),
                      w_notes := Some (msg_or (Some e) (Ext ''Retried payout initiation failed.''))\<rparr>
           in (if approval then WdReview w' else WdFailed w', save_withdrawal w' W1))
      | (B2COk ref _, W1) \<Rightarrow>
          (let w' = w\<lparr>w_status := WPayoutInitiated, w_payoutRef := Some ref,
                      w_notes := Some (Ext ''Payout retried by admin and re-initiated with Safaricom.'')\<rparr>
           in (WdOk w', save_withdrawal w' W1)))"

definition withdrawalRetry :: "payout_env \<Rightarrow> string \<Rightarrow> world \<Rightarrow> wd_resp \<times> world" where
  "withdrawalRetry en i W = (case retry_check i W of Inl r \<Rightarrow> (r, W) | Inr w \<Rightarrow> retry_pay en w W)"

definition outcome_of :: "string option \<Rightarrow> wd_status option" where
  "outcome_of o' = (if o' = Some ''completed'' then Some WCompleted else if o' = Some ''refunded'' then Some WRefunded else None)"

definition note_given :: "string option \<Rightarrow> bool" where
  "note_given n \<longleftrightarrow> truthy_str n \<and> js_trim (the n) \<noteq> []"

definition withdrawalResolve :: "string option \<Rightarrow> string option \<Rightarrow> string \<Rightarrow> world \<Rightarrow> wd_resp \<times> world" where
  "withdrawalResolve outcome note i W =
     (case outcome_of outcome of
        None \<Rightarrow> (WdInvalid, W)
      | Some st \<Rightarrow>
          if \<not> note_given note then (WdInvalid, W)
          else case retry_check i W of
                 Inl r \<Rightarrow> (r, W)
               | Inr w \<Rightarrow> (let w' = w\<lparr>w_status := st, w_notes := Some (Ext (js_trim (the note)))\<rparr> in (WdOk w', save_withdrawal w' W)))"

section \<open>Reconciliation items\<close>

datatype item_resp = ItemNote | ItemNotFound | ItemResolved | ItemOk recon

definition reconciliationResolve :: "int \<Rightarrow> string option \<Rightarrow> string \<Rightarrow> world \<Rightarrow> item_resp \<times> world" where
  "reconciliationResolve now note i W =
     (if \<not> note_given note then (ItemNote, W)
      else case find_recon i W of
             None \<Rightarrow> (ItemNotFound, W)
           | Some c \<Rightarrow>
               if r_status c = RResolved then (ItemResolved, W)
               else (let c' = c\<lparr>r_status := RResolved, r_resolvedAt := Some now\<rparr> in (ItemOk c', save_recon c' W)))"

section \<open>Badges\<close>

datatype grant_resp = GrantNoWallet | GrantExists | GrantUnconfigured | GrantError string | GrantOk string

text \<open>\<open>exists\<close>: what the chain answers about a badge of the wallet.\<close>

definition badgeGrant :: "badge_env \<Rightarrow> string + bool \<Rightarrow> string option \<Rightarrow> badge_world \<Rightarrow> grant_resp \<times> badge_world" where
  "badgeGrant en has wallet W =
     (if \<not> truthy_str wallet then (GrantNoWallet, W)
      else case has of
             Inl e \<Rightarrow> (GrantError e, W)
           | Inr True \<Rightarrow> (GrantExists, W)
           | Inr False \<Rightarrow>
               if \<not> truthy_str (bd_mnemonic en) then (GrantUnconfigured, W)
               else (case issueBadgeFromMnemonic en (the (bd_mnemonic en)) (the wallet) W of
                       (Inl e, W1) \<Rightarrow> (GrantError e, W1)
                     | (Inr tx, W1) \<Rightarrow>
                         (case (bd_userFails en, bd_createFails en) of
                            (Some e, _) \<Rightarrow> (GrantError e, W1)
                          | (None, Some e) \<Rightarrow> (GrantError e, W1)
                          | (None, None) \<Rightarrow>
                              (let user = bd_user en (the wallet);
                                   W2 = W1\<lparr>issuances := issuances W1 @ [\<lparr>bi_userId = user, bi_walletAddress = the wallet, bi_txHash = tx\<rparr>]\<rparr>
                               in (GrantOk tx, case user of None \<Rightarrow> W2 | Some u \<Rightarrow> badge_emit (BNotify u) W2)))))"

datatype void_resp = VoidNotFound | VoidIssued | VoidOk badge_purchase

definition badgeVoid :: "string option \<Rightarrow> string \<Rightarrow> badge_world \<Rightarrow> void_resp \<times> badge_world" where
  "badgeVoid reason quoteId W =
     (case find_badge quoteId W of
        None \<Rightarrow> (VoidNotFound, W)
      | Some p \<Rightarrow>
          if bp_status p = BIssued then (VoidIssued, W)
          else (let p' = p\<lparr>bp_status := BFailed, bp_reason := Some (Ext (the (str_or reason (Some ''Voided by admin''))))\<rparr>
                in (VoidOk p', save_badge p' W)))"

section \<open>The mines\<close>

definition panelApprove :: "int \<Rightarrow> num option \<Rightarrow> string \<Rightarrow> mines_world \<Rightarrow> submission option \<times> mines_world" where
  "panelApprove now rewardAmount tid W =
     (case find_sub tid W of
        None \<Rightarrow> (None, W)
      | Some t \<Rightarrow>
          (let r = or_else rewardAmount 0;
               f = (\<lambda>s. s\<lparr>ts_status := ''auto_approved'', ts_completed := Some now\<rparr>);
               W1 = update_sub f tid W;
               W2 = log_wallet \<lparr>wt_user = ts_miner t, wt_type = WalletCredit, wt_amount = r, wt_currency = ''MLPTS'',
                      wt_description = ''Task reward approved by admin''\<rparr> W1
           in (Some (f t), charge_campaign (ts_campaign t) r W2)))"

definition panelReject :: "string option \<Rightarrow> string \<Rightarrow> mines_world \<Rightarrow> submission option \<times> mines_world" where
  "panelReject note tid W =
     (case find_sub tid W of
        None \<Rightarrow> (None, W)
      | Some t \<Rightarrow> (let f = (\<lambda>s. s\<lparr>ts_status := ''rejected'', ts_note := str_or note None\<rparr>) in (Some (f t), update_sub f tid W)))"

text \<open>The body of the request is written into the campaign as it is.\<close>

definition panelCampaign :: "(campaign \<Rightarrow> campaign) \<Rightarrow> string \<Rightarrow> mines_world \<Rightarrow> campaign option \<times> mines_world" where
  "panelCampaign body i W =
     (case find_campaign i W of None \<Rightarrow> (None, W) | Some k \<Rightarrow> (Some (body k), save_campaign (body k) W))"

section \<open>Behind the guard\<close>

text \<open>Any of these as a route: the guard of the panel in front, the trail behind where the operation took place.\<close>

definition panelRoute ::
  "auth_env \<Rightarrow> request \<Rightarrow> string \<Rightarrow> ('r \<Rightarrow> bool) \<Rightarrow> ('w \<Rightarrow> 'r \<times> 'w) \<Rightarrow> auth_world \<times> 'w \<Rightarrow> (auth_error + 'r) \<times> auth_world \<times> 'w" where
  "panelRoute en rq action logged op AW =
     (case admin_guarded en rq (\<lambda>s A. (s, A)) (fst AW) of
        (Inl e, A) \<Rightarrow> (Inl e, A, snd AW)
      | (Inr s, A) \<Rightarrow>
          (case op (snd AW) of
             (r, W1) \<Rightarrow> (Inr r, if logged r then auditLog en action (ac_email (se_user s)) A else A, W1)))"

section \<open>What the pages show\<close>

lemma safe_limit_bounds: "0 < m \<Longrightarrow> 1 \<le> safe_limit d m l \<and> safe_limit d m l \<le> m"
  by (auto simp: safe_limit_def Let_def)

text \<open>
  whatever page size a query asks for, its pages hold at least one and at most the bound of the route many
  documents each, and put one after the other they are the list: nothing is left out and nothing shown twice.
\<close>

theorem pages_cover:
  assumes "0 < m"
  shows "1 \<le> safe_limit d m l \<and> safe_limit d m l \<le> m
    \<and> concat (map (\<lambda>p. admin_page d m l (Some (int p)) xs) [0..<k]) = take (k * safe_limit d m l) xs"
proof -
  let ?n = "safe_limit d m l"
  have "concat (map (\<lambda>p. take ?n (drop (p * ?n) xs)) [0..<k]) = take (k * ?n) xs"
  proof (induction k rule: nat.induct)
    case (Suc k)
    have "take (Suc k * ?n) xs = take (k * ?n) xs @ take ?n (drop (k * ?n) xs)"
      by (metis add.commute mult_Suc take_add)
    with Suc show ?case by simp
  qed simp
  then show ?thesis using safe_limit_bounds [OF assms] by (simp add: admin_page_def page_skip_def or_else_def)
qed

section \<open>A burn of more than everything\<close>

text \<open>
  an administrator can set any percentage: the bounds of the schema are those of a new document, and an update is
  not held to them. With two hundred percent or more, every whole amount of the activity is split into a burn of at
  least twice the amount and a negative part for the treasury.
\<close>

theorem policy_is_unbounded:
  assumes "postPolicy (Some a) (Some x) None ps = (Some d, ps')" "200 \<le> x" "0 < n" "n \<le> 2 ^ 50"
  shows "getStaticBurnRate a (Some ps') = x
    \<and> (case calculateBurnSplit (of_int n) x of (burn, treasury, _) \<Rightarrow> 2 * of_int n \<le> burn \<and> treasury \<le> - of_int n)"
proof
  have ps': "ps' = (case coll_find (\<lambda>p. bp_activity p = a) ps of None \<Rightarrow> ps @ [d] | Some _ \<Rightarrow> coll_put bp_activity d ps)"
    and d: "d = \<lparr>bp_activity = a, bp_percentage = x, bp_enabled = True\<rparr>"
    using assms(1) by (auto simp: postPolicy_def or_else_def Let_def)
  have "coll_find (\<lambda>p. bp_activity p = a) ps = None \<Longrightarrow> coll_find (\<lambda>p. bp_activity p = a \<and> bp_enabled p) (ps @ [d]) = Some d"
    by (induction ps rule: list.induct) (auto simp: d split: if_splits)
  moreover have "coll_find (\<lambda>p. bp_activity p = a) ps = Some q \<Longrightarrow> coll_find (\<lambda>p. bp_activity p = a \<and> bp_enabled p) (coll_put bp_activity d ps) = Some d" for q
    by (induction ps rule: list.induct) (auto simp: d split: if_splits)
  ultimately show "getStaticBurnRate a (Some ps') = x"
    by (auto simp: getStaticBurnRate_def ps' d split: option.splits)
  have two: "2 \<le> js_div x 100"
    using fl_mono [of 2 "x / 100"] fl_of_int [of 2] assms(2) by (simp add: js_div_def)
  have int: "fl (of_int (2 * n)) = of_int (2 * n)" using assms(3,4) by (intro fl_of_int) auto
  have "of_int (2 * n) \<le> of_int n * js_div x 100" using two assms(3) mult_left_mono [OF two, of "of_int n"] by simp
  from fl_mono [OF this] int have burn: "2 * of_int n \<le> js_mul (of_int n) (js_div x 100)" by (simp add: js_mul_def)
  then have "2 * n \<le> \<lfloor>js_mul (of_int n) (js_div x 100)\<rfloor>" by (simp add: le_floor_iff)
  then have b: "2 * of_int n \<le> js_floor (js_mul (of_int n) (js_div x 100))"
    unfolding js_floor_def by (metis of_int_le_iff of_int_mult of_int_numeral)
  have neg: "fl (of_int (- n)) = of_int (- n)" using assms(3,4) by (intro fl_of_int) auto
  have "of_int n - js_floor (js_mul (of_int n) (js_div x 100)) \<le> of_int (- n)" using b by simp
  from fl_mono [OF this] neg have "js_sub (of_int n) (js_floor (js_mul (of_int n) (js_div x 100))) \<le> - of_int n"
    by (simp add: js_sub_def)
  with b show "case calculateBurnSplit (of_int n) x of (burn, treasury, _) \<Rightarrow> 2 * of_int n \<le> burn \<and> treasury \<le> - of_int n"
    by (simp add: calculateBurnSplit_def Let_def)
qed

section \<open>Retries\<close>

lemma payout_ok_pays:
  assumes "initiateB2CPayout en phone n i W = (B2COk ref kes, W1)"
  shows "\<exists>k>0. outbox W1 = outbox W @ replicate k (EB2C kes phone)"
  using assms by (cases rule: initiate_cases) (auto simp: frame_simps)

lemma retry_pay_ok:
  assumes "retry_pay en w W = (WdOk w1, W1)"
  shows "\<exists>k>0. \<exists>kes. outbox W1 = outbox W @ replicate k (EB2C kes (w_phone w))"
    "w_status w1 = WPayoutInitiated" "w_oid w1 = w_oid w" "w_withdrawalId w1 = w_withdrawalId w"
    "withdrawals W1 = coll_put w_withdrawalId w1 (withdrawals W)" "payouts W1 = payouts W"
proof -
  obtain r W2 where i: "initiateB2CPayout en (w_phone w) (w_amountMlcns w) (payout_key w) W = (r, W2)" by fastforce
  with assms obtain ref kes where r: "r = B2COk ref kes"
      and w1: "w1 = w\<lparr>w_status := WPayoutInitiated, w_payoutRef := Some ref,
        w_notes := Some (Ext ''Payout retried by admin and re-initiated with Safaricom.'')\<rparr>" "W1 = save_withdrawal w1 W2"
    by (auto simp: retry_pay_def Let_def split: b2c_result.splits if_splits)
  show "\<exists>k>0. \<exists>kes. outbox W1 = outbox W @ replicate k (EB2C kes (w_phone w))"
    using payout_ok_pays [OF i [unfolded r]] by (auto simp: w1 frame_simps)
  show "w_status w1 = WPayoutInitiated" "w_oid w1 = w_oid w" "w_withdrawalId w1 = w_withdrawalId w"
    "withdrawals W1 = coll_put w_withdrawalId w1 (withdrawals W)" "payouts W1 = payouts W"
    using initiate_frame [OF i] by (simp_all add: w1 frame_simps)
qed

lemma retry_ok:
  assumes "withdrawalRetry en i W = (WdOk w1, W1)"
  obtains w where "coll_find (\<lambda>w. w_oid w = i) (withdrawals W) = Some w" "w_status w = WFailed" "retry_pay en w W = (WdOk w1, W1)"
  using assms by (auto simp: withdrawalRetry_def retry_check_def split: option.splits if_splits)

text \<open>
  a retry that succeeds makes the payment and stores its reference in the withdrawal, but no payout document: the
  provider's answer, success or failure, finds nothing and changes nothing, the status route finds nothing to
  synchronise with, and the panel itself refuses to retry or to close it. The withdrawal stays initiated for good.
\<close>

theorem retried_payout_is_stranded:
  assumes "withdrawalRetry en i W = (WdOk w, W1)" "\<forall>p \<in> set (payouts W). p_payoutRef p \<noteq> w_payoutRef w"
    "distinct (map w_withdrawalId (withdrawals W))" "cb_ref cb = w_payoutRef w"
  shows "w_status w = WPayoutInitiated \<and> snd (handlePayoutCallback now cb W1) = W1 \<and> syncWithdrawalStatus w W1 = (w, W1)
     \<and> withdrawalRetry en' i W1 = (WdConflict WPayoutInitiated, W1)
     \<and> (outcome_of outcome \<noteq> None \<and> note_given note \<longrightarrow> withdrawalResolve outcome note i W1 = (WdConflict WPayoutInitiated, W1))"
proof -
  from retry_ok [OF assms(1)] obtain w0 where w0: "coll_find (\<lambda>w. w_oid w = i) (withdrawals W) = Some w0"
      and pay: "retry_pay en w0 W = (WdOk w, W1)" by metis
  note f = retry_pay_ok [OF pay]
  have "w_oid w = i" using coll_find_Some [OF w0] f(3) by simp
  then have found: "coll_find (\<lambda>w. w_oid w = i) (withdrawals W1) = Some w"
    unfolding f(5) by (intro coll_find_put_query [OF assms(3) w0]) (use f(4) in auto)
  then have check: "retry_check i W1 = Inl (WdConflict WPayoutInitiated)" by (simp add: retry_check_def f(2))
  have none: "coll_find (\<lambda>p. p_payoutRef p = w_payoutRef w) (payouts W1) = None"
    using assms(2) by (simp add: coll_find_None f(6))
  then have "snd (handlePayoutCallback now cb W1) = W1"
    using assms(4) by (auto simp: handlePayoutCallback_def truthy_str_def Let_def)
  moreover have "syncWithdrawalStatus w W1 = (w, W1)" by (simp add: syncWithdrawalStatus_def none)
  ultimately show ?thesis using f(2) check by (auto simp: withdrawalRetry_def withdrawalResolve_def)
qed


text \<open>
  only a failed withdrawal is retried or closed: in every other state both routes answer the conflict and change
  nothing, so a withdrawal that is paid, or whose payout is under way, is not paid again by a later request.
\<close>

theorem only_failed_withdrawals_move:
  assumes "coll_find (\<lambda>w. w_oid w = i) (withdrawals W) = Some w" "w_status w \<noteq> WFailed"
  shows "withdrawalRetry en i W = (WdConflict (w_status w), W)" "snd (withdrawalResolve outcome note i W) = W"
  using assms by (auto simp: withdrawalRetry_def withdrawalResolve_def retry_check_def split: option.split)

section \<open>Badges and submissions\<close>

text \<open>
  a void does not hold: the confirmation of the provider, the first one or one delivered again, writes the status of
  the purchase whatever it is, and the voided purchase is confirmed and ready to have its badge issued.
\<close>

theorem void_is_undone:
  assumes "badgeVoid reason quoteId W = (VoidOk p, W1)" "find_badge quoteId W = Some p0"
    "distinct (map bp_quoteId (badges W))" "sc_resultCode cb = Some 0" "callback_payment_id cb \<noteq> []"
    "coll_find (badge_by_payment (callback_payment_id cb)) (badges W) = Some p0"
  shows "badgeStatus quoteId W1 \<noteq> None \<and> bv_status (the (badgeStatus quoteId W1)) = BFailed
    \<and> badge_check (find_badge quoteId (snd (badge_processMpesaCallback cb W1))) None = None"
proof -
  from assms(1,2) have p: "bp_status p = BFailed" "bp_quoteId p = bp_quoteId p0" "bp_paymentId p = bp_paymentId p0"
      "bp_paymentIds p = bp_paymentIds p0" and W1: "W1 = save_badge p W"
    by (auto simp: badgeVoid_def Let_def split: if_splits)
  have q: "bp_quoteId p0 = quoteId" using assms(2) by (auto simp: find_badge_def dest: coll_find_Some)
  have "badge_by_payment (callback_payment_id cb) p"
    using coll_find_Some [OF assms(6)] p by (auto simp: badge_by_payment_def)
  with assms(3,6) p(2) have found: "coll_find (badge_by_payment (callback_payment_id cb)) (badges W1) = Some p"
    by (auto simp: W1 save_badge_def intro: coll_find_put_query)
  have now: "find_badge quoteId W1 = Some p"
    using assms(2,3) p(2) q by (auto simp: W1 save_badge_def find_badge_def intro: coll_find_put_query)
  let ?d = "badge_callback_doc cb p"
  have d: "bp_quoteId ?d = quoteId" "bp_status ?d = BConfirmed"
    using p(2) q assms(4) by (simp_all add: badge_callback_doc_def or_else_def)
  have "snd (badge_processMpesaCallback cb W1) = save_badge ?d W1"
    using found assms(5) by (simp add: badge_processMpesaCallback_def Let_def)
  moreover have "find_badge quoteId (save_badge ?d W1) = Some ?d"
    using badgedb.save_present [OF now d(1)] .
  ultimately show ?thesis using p(1) now d(2) by (simp add: badge_check_def badgeStatus_def truthy_str_def)
qed

text \<open>
  a submission approved in the panel is never paid: the journal says the miner was credited, his balance is what
  it was. And the approval can be repeated, whatever the state of the submission, each time with a new line in the
  journal and a new charge to the campaign.
\<close>

theorem panel_approval_credits_nothing:
  assumes "panelApprove now r tid W = (Some x, W1)"
  shows "balance_of u W1 = balance_of u W
    \<and> (\<exists>t. find_sub tid W = Some t \<and> walletTxs W1 = walletTxs W @ [\<lparr>wt_user = ts_miner t, wt_type = WalletCredit,
          wt_amount = or_else r 0, wt_currency = ''MLPTS'', wt_description = ''Task reward approved by admin''\<rparr>])
    \<and> fst (panelApprove now' r' tid W1) \<noteq> None"
proof -
  from assms obtain t where t: "find_sub tid W = Some t" by (auto simp: panelApprove_def split: option.splits)
  let ?f = "\<lambda>s. s\<lparr>ts_status := ''auto_approved'', ts_completed := Some now\<rparr>"
  let ?w = "\<lparr>wt_user = ts_miner t, wt_type = WalletCredit, wt_amount = or_else r 0, wt_currency = ''MLPTS'',
      wt_description = ''Task reward approved by admin''\<rparr>"
  have W1: "W1 = charge_campaign (ts_campaign t) (or_else r 0) (log_wallet ?w (save_sub (?f t) W))"
    using assms t by (auto simp: panelApprove_def update_sub_def Let_def)
  have "miners W1 = miners W" "walletTxs W1 = walletTxs W @ [?w]" "submissions W1 = coll_put ts_id (?f t) (submissions W)"
    by (auto simp: W1 charge_campaign_def log_wallet_def save_sub_def save_campaign_def find_campaign_def split: option.split)
  moreover have "coll_find (\<lambda>s. ts_id s = tid) (coll_put ts_id (?f t) (submissions W)) \<noteq> None"
    using t coll_find_put_same [of ts_id "?f t" "submissions W"] by (auto simp: find_sub_def dest: coll_find_Some)
  ultimately show ?thesis using t
    by (auto simp: balance_of_def find_miner_def find_sub_def panelApprove_def Let_def)
qed

text \<open>
  a granted badge is one transaction and one record of it, for a wallet that has no badge; when the record cannot
  be written after the transaction, the answer is an error and the badge exists without a record.
\<close>

theorem grant_issues_once:
  assumes "badgeGrant en has wallet W = (r, W1)"
  shows "(r = GrantOk tx \<longrightarrow> has = Inr False \<and> issues W1 = issues W + 1
        \<and> issuances W1 = issuances W @ [\<lparr>bi_userId = bd_user en (the wallet), bi_walletAddress = the wallet, bi_txHash = tx\<rparr>])
    \<and> ((\<nexists>h. r = GrantOk h) \<longrightarrow> issuances W1 = issuances W \<and> issues W1 \<le> issues W + 1)
    \<and> (r \<in> {GrantNoWallet, GrantExists, GrantUnconfigured} \<longrightarrow> W1 = W)"
  using assms
  by (auto simp: badgeGrant_def issueBadgeFromMnemonic_def badge_emit_def issues_def Let_def
      split: if_splits sum.splits option.splits bool.splits)

section \<open>Applications\<close>

theorem grant_issues_once_witness:
  "\<exists>W1. badgeGrant (demo_badge None) (Inr True) (Some ''mall1'') empty_badges = (GrantExists, W1) \<and> W1 = empty_badges"
proof -
  have p: "badgeGrant (demo_badge None) (Inr True) (Some ''mall1'') empty_badges = (GrantExists, empty_badges)"
    by (simp add: badgeGrant_def truthy_str_def)
  from grant_issues_once [OF p] p show ?thesis by simp
qed

theorem pages_cover_witness:
  "concat (map (\<lambda>p. admin_page 50 200 (Some 2) (Some (int p)) ''abcde'') [0..<3]) = ''abcde''"
  using pages_cover [of 200 50 "Some 2" "''abcde''" 3] by (simp add: safe_limit_def Let_def)

theorem policy_is_unbounded_witness:
  "getStaticBurnRate CashOut (Some (snd (postPolicy (Some CashOut) (Some 250) None default_policies))) = 250
   \<and> (case calculateBurnSplit 1000 250 of (burn, treasury, _) \<Rightarrow> 2000 \<le> burn \<and> treasury \<le> - 1000)"
proof -
  obtain d ps where p: "postPolicy (Some CashOut) (Some 250) None default_policies = (Some d, ps)"
    by (simp add: postPolicy_def Let_def)
  from policy_is_unbounded [OF p, of 1000] p show ?thesis by simp
qed

definition demo_unpaid :: withdrawal where
  "demo_unpaid = \<lparr>w_oid = ''o1'', w_withdrawalId = ''w1'', w_walletAddress = ''mall1a'', w_phone = ''254700000000'', w_amountMlcns = 500,
     w_amountKes = 500, w_currency = ''KES'', w_status = WFailed, w_payoutRef = None, w_settlementMode = Review, w_saleId = None,
     w_sellTxHash = None, w_burnTxHash = None, w_notes = None, w_queuedAt = None, w_amlReviewId = None, w_createdAt = 0\<rparr>"

definition demo_unpaid_world :: world where "demo_unpaid_world = empty_world\<lparr>withdrawals := [demo_unpaid]\<rparr>"

lemma demo_pays:
  assumes "b2cBreaker W = b2cBreaker empty_world" "w_amountMlcns w = 500"
  shows "\<exists>w1 W1. retry_pay demo_env w W = (WdOk w1, W1) \<and> w_payoutRef w1 = Some ''REF'' \<and> b2cBreaker W1 = b2cBreaker empty_world"
proof -
  have "payout_configured (pe_cfg demo_env)" "checkPayoutLimits (pe_caps demo_env) (pe_now demo_env) d 500 = LimitOk" for d
    by (simp_all add: demo_env_def payout_configured_def sf_live_def checkPayoutLimits_def truthy_num_def)
  then have "initiateB2CPayout demo_env (w_phone w) 500 (payout_key w) W = send_payment demo_env (w_phone w) 500 W"
    by (simp add: initiateB2CPayout_def demo_amount Let_def)
  then show ?thesis using assms
    by (simp add: retry_pay_def send_payment_def demo_token demo_backoff emit_n_def Let_def frame_simps)
qed

theorem retried_payout_is_stranded_witness:
  "\<exists>w W1. withdrawalRetry demo_env ''o1'' demo_unpaid_world = (WdOk w, W1) \<and> w_status w = WPayoutInitiated
     \<and> snd (handlePayoutCallback 9 \<lparr>cb_ref = Some ''REF'', cb_code = Some 0, cb_desc = None\<rparr> W1) = W1
     \<and> withdrawalRetry demo_env ''o1'' W1 = (WdConflict WPayoutInitiated, W1)"
proof -
  obtain w W1 where r: "retry_pay demo_env demo_unpaid demo_unpaid_world = (WdOk w, W1)" "w_payoutRef w = Some ''REF''"
    using demo_pays [of demo_unpaid_world demo_unpaid] by (auto simp: demo_unpaid_world_def demo_unpaid_def)
  then have p: "withdrawalRetry demo_env ''o1'' demo_unpaid_world = (WdOk w, W1)"
    by (simp add: withdrawalRetry_def retry_check_def demo_unpaid_world_def demo_unpaid_def)
  have "payouts demo_unpaid_world = []" "distinct (map w_withdrawalId (withdrawals demo_unpaid_world))"
    by (simp_all add: demo_unpaid_world_def)
  with retried_payout_is_stranded [OF p, of "\<lparr>cb_ref = Some ''REF'', cb_code = Some 0, cb_desc = None\<rparr>" 9 demo_env] p r(2)
  show ?thesis by simp
qed


theorem only_failed_withdrawals_move_witness:
  "withdrawalRetry demo_env ''o1'' (empty_world\<lparr>withdrawals := [demo_unpaid\<lparr>w_status := WCompleted\<rparr>]\<rparr>)
   = (WdConflict WCompleted, empty_world\<lparr>withdrawals := [demo_unpaid\<lparr>w_status := WCompleted\<rparr>]\<rparr>)"
  using only_failed_withdrawals_move(1) [of "''o1''" "empty_world\<lparr>withdrawals := [demo_unpaid\<lparr>w_status := WCompleted\<rparr>]\<rparr>" "demo_unpaid\<lparr>w_status := WCompleted\<rparr>"]
  by (simp add: demo_unpaid_def)

theorem void_is_undone_witness:
  "\<exists>p W1. badgeVoid None ''B1'' (badge_with BPaymentInitiated) = (VoidOk p, W1)
     \<and> badge_check (find_badge ''B1'' (snd (badge_processMpesaCallback demo_stk_ok W1))) None = None"
proof -
  obtain p W1 where v: "badgeVoid None ''B1'' (badge_with BPaymentInitiated) = (VoidOk p, W1)"
    by (simp add: badgeVoid_def demo_badge_doc_def Let_def)
  have i: "callback_payment_id demo_stk_ok = ''ws_1''" by (simp add: callback_payment_id_def demo_stk_ok_def or_else_def)
  have c: "sc_resultCode demo_stk_ok = Some 0" by (simp add: demo_stk_ok_def)
  have f: "coll_find (badge_by_payment ''ws_1'') (badges (badge_with BPaymentInitiated)) = Some (demo_badge_doc BPaymentInitiated)"
    by (simp add: badge_by_payment_def demo_badge_doc_def)
  from void_is_undone [OF v, of "demo_badge_doc BPaymentInitiated" demo_stk_ok] f i c v show ?thesis by simp
qed

theorem panel_approval_credits_nothing_witness:
  "\<exists>x W1. panelApprove 5 (Some 40) ''t'' demo_mines = (Some x, W1) \<and> balance_of ''m'' W1 = balance_of ''m'' demo_mines
     \<and> length (walletTxs W1) = 1"
proof -
  obtain x W1 where p: "panelApprove 5 (Some 40) ''t'' demo_mines = (Some x, W1)"
    by (simp add: panelApprove_def demo_mines_def find_sub_def demo_sub_def Let_def)
  have "walletTxs demo_mines = []" by (simp add: demo_mines_def)
  with panel_approval_credits_nothing [OF p, where u = "''m''" and now' = 0 and r' = None] p show ?thesis by auto
qed

end
