(* ===== verification/Messaging.thy ===== *)
theory Messaging
  imports InputValidation
begin

text \<open>
  Conversations and live delivery: the routes of \<open>routes/messaging.js\<close> behind the guard of \<open>Sessions\<close>, and the socket
  server of \<open>index.js\<close>: who a socket is, which rooms it may join, and what it is sent. A message posted over HTTP is
  stored and pushed to the sockets in the room of its conversation. What a socket is sent is kept in a log. An id is
  sought without regard to the case of its letters, as the database does; the name of a room keeps what was asked.
\<close>

record conversation =
  cv_id :: string
  cv_participants :: "string list"
  cv_last :: int

record chat_message =
  cm_id :: string
  cm_conversation :: string
  cm_sender :: string
  cm_text :: string
  cm_readBy :: "string list"
  cm_createdAt :: int

datatype room = OwnRoom string | WalletRoom string | UserRoom string | ConversationRoom string | MarketFeed | PriceUpdates | BlocksLive

text \<open>A socket is in a room of its own from the start, and that room counts.\<close>

record socket =
  so_id :: string
  so_user :: "string option"
  so_rooms :: "room list"

record chat_world =
  ch_auth :: auth_world
  ch_conversations :: "conversation list"
  ch_messages :: "chat_message list"
  ch_sockets :: "socket list"
  ch_pushed :: "(socket \<times> chat_message) list"

definition conversation_of :: "string \<Rightarrow> chat_world \<Rightarrow> conversation option" where
  "conversation_of i W = coll_find (\<lambda>c. cv_id c = lower_case i) (ch_conversations W)"

definition socket_of :: "string \<Rightarrow> chat_world \<Rightarrow> socket option" where
  "socket_of i W = coll_find (\<lambda>s. so_id s = i) (ch_sockets W)"

section \<open>Conversations\<close>

datatype chat_resp =
    ChatFailed | ChatNotFound | ChatForbidden | ChatNoText | ChatNoEmail | ChatNoUser | ChatSelf
  | ChatMessages "(string \<times> bool \<times> string \<times> int) list"
  | ChatSent chat_message
  | ChatOpened string string
  | ChatRead
  | ChatList "(string \<times> string \<times> nat \<times> (string \<times> int \<times> bool) option) list"

fun chat_status :: "chat_resp \<Rightarrow> nat" where
  "chat_status ChatFailed = 500"
| "chat_status ChatNotFound = 404"
| "chat_status ChatForbidden = 403"
| "chat_status ChatNoText = 400"
| "chat_status ChatNoEmail = 400"
| "chat_status ChatNoUser = 404"
| "chat_status ChatSelf = 400"
| "chat_status _ = 200"

text \<open>An id the database cannot read makes the query raise.\<close>

definition object_id :: "string \<Rightarrow> bool" where
  "object_id s \<longleftrightarrow> length s = 24 \<and> list_all (\<lambda>c. is_digit c \<or> to_lower c \<in> set ''abcdef'') s"

definition requireParticipant :: "string \<Rightarrow> string \<Rightarrow> chat_world \<Rightarrow> chat_resp + conversation" where
  "requireParticipant who i W =
     (if \<not> object_id i then Inl ChatFailed
      else case conversation_of i W of
        None \<Rightarrow> Inl ChatNotFound
      | Some c \<Rightarrow> if who \<in> set (cv_participants c) then Inr c else Inl ChatForbidden)"

definition messages_in :: "string \<Rightarrow> chat_world \<Rightarrow> chat_message list" where
  "messages_in i W = filter (\<lambda>m. cm_conversation m = i) (ch_messages W)"

definition unread_for :: "string \<Rightarrow> chat_message \<Rightarrow> bool" where
  "unread_for who m \<longleftrightarrow> cm_sender m \<noteq> who \<and> who \<notin> set (cm_readBy m)"

definition display_name :: "account \<Rightarrow> string" where
  "display_name a = the (str_or (ac_username a) (str_or (Some (ac_email a)) (Some ''Unknown'')))"

text \<open>The other participant, where his account still exists.\<close>

definition other_name :: "string \<Rightarrow> conversation \<Rightarrow> auth_world \<Rightarrow> string" where
  "other_name who c A =
     (case coll_find (\<lambda>p. p \<noteq> who \<and> account_of p A \<noteq> None) (cv_participants c) of
        None \<Rightarrow> ''Unknown'' | Some p \<Rightarrow> display_name (the (account_of p A)))"

definition newest :: "chat_message list \<Rightarrow> chat_message option" where
  "newest ms = (case sort_key (\<lambda>m. - cm_createdAt m) ms of [] \<Rightarrow> None | m # _ \<Rightarrow> Some m)"

definition conversation_line :: "string \<Rightarrow> chat_world \<Rightarrow> conversation \<Rightarrow> string \<times> string \<times> nat \<times> (string \<times> int \<times> bool) option" where
  "conversation_line who W c =
     (cv_id c, other_name who c (ch_auth W), length (filter (unread_for who) (messages_in (cv_id c) W)),
      map_option (\<lambda>m. (cm_text m, cm_createdAt m, cm_sender m = who)) (newest (messages_in (cv_id c) W)))"

definition listConversations :: "string \<Rightarrow> chat_world \<Rightarrow> chat_resp \<times> chat_world" where
  "listConversations who W =
     (ChatList (map (conversation_line who W)
        (take 50 (sort_key (\<lambda>c. - cv_last c) (filter (\<lambda>c. who \<in> set (cv_participants c)) (ch_conversations W))))), W)"

text \<open>The view of a conversation: the first two hundred of its messages, oldest first.\<close>

definition message_view :: "string \<Rightarrow> chat_message \<Rightarrow> string \<times> bool \<times> string \<times> int" where
  "message_view who m = (cm_id m, cm_sender m = who, cm_text m, cm_createdAt m)"

definition shown_messages :: "string \<Rightarrow> chat_world \<Rightarrow> chat_message list" where
  "shown_messages i W = take 200 (sort_key cm_createdAt (messages_in i W))"

definition getConversation :: "string \<Rightarrow> string \<Rightarrow> chat_world \<Rightarrow> chat_resp \<times> chat_world" where
  "getConversation who i W =
     (case requireParticipant who i W of
        Inl r \<Rightarrow> (r, W)
      | Inr c \<Rightarrow> (ChatMessages (map (message_view who) (shown_messages (cv_id c) W)), W))"

definition push :: "room \<Rightarrow> chat_message \<Rightarrow> chat_world \<Rightarrow> chat_world" where
  "push r m W = W\<lparr>ch_pushed := ch_pushed W @ map (\<lambda>s. (s, m)) (filter (\<lambda>s. r \<in> set (so_rooms s)) (ch_sockets W))\<rparr>"

text \<open>A value of the body that is there but is no text has no \<open>trim\<close>, and the handler answers 500.\<close>

definition json_given :: "json \<Rightarrow> bool" where
  "json_given q = (case q of JsNull \<Rightarrow> False | JsBool b \<Rightarrow> b | JsNum n \<Rightarrow> n \<noteq> 0 | JsText s \<Rightarrow> s \<noteq> [] | _ \<Rightarrow> True)"

definition postMessage :: "int \<Rightarrow> string \<Rightarrow> string \<Rightarrow> string \<Rightarrow> json \<Rightarrow> chat_world \<Rightarrow> chat_resp \<times> chat_world" where
  "postMessage now newId who i msg W =
     (case requireParticipant who i W of
        Inl r \<Rightarrow> (r, W)
      | Inr c \<Rightarrow>
          if \<not> json_given msg then (ChatNoText, W)
          else (case msg of
                  JsText t \<Rightarrow>
                    if js_trim t = [] then (ChatNoText, W)
                    else (let m = \<lparr>cm_id = newId, cm_conversation = cv_id c, cm_sender = who, cm_text = js_trim t, cm_readBy = [who],
                                    cm_createdAt = now\<rparr>;
                              W1 = W\<lparr>ch_messages := ch_messages W @ [m], ch_conversations := coll_put cv_id (c\<lparr>cv_last := now\<rparr>) (ch_conversations W)\<rparr>
                          in (ChatSent m, push (ConversationRoom (cv_id c)) m W1))
                | _ \<Rightarrow> (ChatFailed, W)))"

text \<open>
  The address of the other is whatever JSON value the body holds: a text is compared, an object is an operator of the
  database. Of the operators only the inequality is modelled.
\<close>

definition email_matches :: "json \<Rightarrow> string \<Rightarrow> bool" where
  "email_matches q e =
     (case q of
        JsText s \<Rightarrow> e = s
      | JsObject [(op, JsNull)] \<Rightarrow> op = ''$ne''
      | JsObject [(op, JsText s)] \<Rightarrow> op = ''$ne'' \<and> e \<noteq> s
      | _ \<Rightarrow> False)"

definition postConversation :: "int \<Rightarrow> string \<Rightarrow> string \<Rightarrow> json \<Rightarrow> chat_world \<Rightarrow> chat_resp \<times> chat_world" where
  "postConversation now newId who q W =
     (if \<not> json_given q then (ChatNoEmail, W)
      else case coll_find (\<lambda>a. email_matches q (ac_email a)) (accounts (ch_auth W)) of
             None \<Rightarrow> (ChatNoUser, W)
           | Some a \<Rightarrow>
               if ac_id a = who then (ChatSelf, W)
               else (case coll_find (\<lambda>c. {who, ac_id a} \<subseteq> set (cv_participants c) \<and> length (cv_participants c) = 2) (ch_conversations W) of
                       Some c \<Rightarrow> (ChatOpened (cv_id c) (the (str_or (ac_username a) (Some (ac_email a)))), W)
                     | None \<Rightarrow>
                         (ChatOpened newId (the (str_or (ac_username a) (Some (ac_email a)))),
                          W\<lparr>ch_conversations := ch_conversations W @ [\<lparr>cv_id = newId, cv_participants = [who, ac_id a], cv_last = now\<rparr>]\<rparr>)))"

definition markRead :: "string \<Rightarrow> string \<Rightarrow> chat_world \<Rightarrow> chat_resp \<times> chat_world" where
  "markRead who i W =
     (case requireParticipant who i W of
        Inl r \<Rightarrow> (r, W)
      | Inr c \<Rightarrow>
          (ChatRead, W\<lparr>ch_messages := map (\<lambda>m. if cm_conversation m = cv_id c \<and> unread_for who m then m\<lparr>cm_readBy := cm_readBy m @ [who]\<rparr> else m)
             (ch_messages W)\<rparr>))"

text \<open>Every route stands behind the guard.\<close>

definition chatRoute :: "auth_env \<Rightarrow> request \<Rightarrow> (string \<Rightarrow> chat_world \<Rightarrow> chat_resp \<times> chat_world) \<Rightarrow> chat_world \<Rightarrow> (auth_error + chat_resp) \<times> chat_world" where
  "chatRoute en rq h W =
     (case requireAuth en None rq (ch_auth W) of
        (Inl e, A) \<Rightarrow> (Inl e, W\<lparr>ch_auth := A\<rparr>)
      | (Inr s, A) \<Rightarrow> (case h (ac_id (se_user s)) (W\<lparr>ch_auth := A\<rparr>) of (r, W1) \<Rightarrow> (Inr r, W1)))"

section \<open>Sockets\<close>

text \<open>
  Who a socket is, is settled when it connects, by the signature of its token alone; without a valid one it is
  anonymous.
\<close>

definition socket_user :: "auth_env \<Rightarrow> string option \<Rightarrow> string option \<Rightarrow> string option" where
  "socket_user en token cookie =
     (case str_or token (str_or cookie None) of
        None \<Rightarrow> None
      | Some t \<Rightarrow> if \<not> au_secret en then None
                  else Option.bind (au_verify en (au_now en) t) (\<lambda>c. str_or (cl_userId c) (cl_id c)))"

definition connect :: "auth_env \<Rightarrow> string \<Rightarrow> string option \<Rightarrow> string option \<Rightarrow> chat_world \<Rightarrow> chat_world" where
  "connect en i token cookie W =
     W\<lparr>ch_sockets := ch_sockets W @ [\<lparr>so_id = i, so_user = socket_user en token cookie, so_rooms = [OwnRoom i]\<rparr>]\<rparr>"

definition MAX_ROOMS_PER_SOCKET :: nat where "MAX_ROOMS_PER_SOCKET = 20"

definition joinRoomWithCap :: "socket \<Rightarrow> room \<Rightarrow> bool \<times> socket" where
  "joinRoomWithCap s r =
     (if r \<in> set (so_rooms s) then (True, s)
      else if MAX_ROOMS_PER_SOCKET \<le> length (so_rooms s) then (False, s)
      else (True, s\<lparr>so_rooms := so_rooms s @ [r]\<rparr>))"

definition wallet_address :: "string \<Rightarrow> bool" where
  "wallet_address a \<longleftrightarrow> prefix ''mall1'' a \<and> 38 \<le> length a - 5 \<and> length a - 5 \<le> 58
     \<and> list_all (\<lambda>c. is_digit c \<or> (97 :: nat) \<le> of_char c \<and> of_char c \<le> (122 :: nat)) (drop 5 a)"

datatype subscription = SubWallet string | SubUser string | SubConversation string | SubMarket | SubPrice | SubBlocks

text \<open>The room a request asks for, when the socket may have it.\<close>

definition allowed_room :: "socket \<Rightarrow> subscription \<Rightarrow> chat_world \<Rightarrow> room option" where
  "allowed_room s q W =
     (case q of
        SubWallet a \<Rightarrow>
          if wallet_address a \<and> truthy_str (so_user s)
             \<and> (case account_of (the (so_user s)) (ch_auth W) of None \<Rightarrow> False | Some u \<Rightarrow> ac_wallet u = Some a)
          then Some (WalletRoom a) else None
      | SubUser u \<Rightarrow> if object_id u \<and> so_user s = Some u then Some (UserRoom u) else None
      | SubConversation c \<Rightarrow>
          if object_id c \<and> truthy_str (so_user s)
             \<and> (case conversation_of c W of None \<Rightarrow> False | Some k \<Rightarrow> the (so_user s) \<in> set (cv_participants k))
          then Some (ConversationRoom c) else None
      | SubMarket \<Rightarrow> Some MarketFeed
      | SubPrice \<Rightarrow> Some PriceUpdates
      | SubBlocks \<Rightarrow> Some BlocksLive)"

definition save_socket :: "socket \<Rightarrow> chat_world \<Rightarrow> chat_world" where
  "save_socket s W = W\<lparr>ch_sockets := coll_put so_id s (ch_sockets W)\<rparr>"

definition subscribe :: "string \<Rightarrow> subscription \<Rightarrow> chat_world \<Rightarrow> chat_world" where
  "subscribe i q W =
     (case socket_of i W of
        None \<Rightarrow> W
      | Some s \<Rightarrow> (case allowed_room s q W of None \<Rightarrow> W | Some r \<Rightarrow> save_socket (snd (joinRoomWithCap s r)) W))"

definition left_room :: "subscription \<Rightarrow> room option" where
  "left_room q =
     (case q of SubWallet a \<Rightarrow> if wallet_address a then Some (WalletRoom a) else None
      | SubUser u \<Rightarrow> if object_id u then Some (UserRoom u) else None
      | SubConversation c \<Rightarrow> if object_id c then Some (ConversationRoom c) else None
      | _ \<Rightarrow> None)"

definition unsubscribe :: "string \<Rightarrow> subscription \<Rightarrow> chat_world \<Rightarrow> chat_world" where
  "unsubscribe i q W =
     (case (socket_of i W, left_room q) of
        (Some s, Some r) \<Rightarrow> save_socket (s\<lparr>so_rooms := filter (\<lambda>x. x \<noteq> r) (so_rooms s)\<rparr>) W
      | _ \<Rightarrow> W)"

definition disconnect :: "string \<Rightarrow> chat_world \<Rightarrow> chat_world" where
  "disconnect i W = W\<lparr>ch_sockets := filter (\<lambda>s. so_id s \<noteq> i) (ch_sockets W)\<rparr>"

section \<open>Steps\<close>

datatype chat_op = ListOp | ViewOp string | SendOp string string json | OpenOp string json | ReadOp string

fun chat_handle :: "int \<Rightarrow> chat_op \<Rightarrow> string \<Rightarrow> chat_world \<Rightarrow> chat_resp \<times> chat_world" where
  "chat_handle now ListOp who W = listConversations who W"
| "chat_handle now (ViewOp i) who W = getConversation who i W"
| "chat_handle now (SendOp n i msg) who W = postMessage now n who i msg W"
| "chat_handle now (OpenOp n q) who W = postConversation now n who q W"
| "chat_handle now (ReadOp i) who W = markRead who i W"

text \<open>
  What can happen: a request, a socket that connects, asks, leaves or goes, and any change of the accounts, by the
  other components. The database gives a new conversation an id of its own.
\<close>

inductive chat_step :: "chat_world \<Rightarrow> chat_world \<Rightarrow> bool" where
  step_request: "chatRoute en rq (chat_handle now op) W = (r, W') \<Longrightarrow> chat_step W W'"
| step_connect: "chat_step W (connect en i token cookie W)"
| step_subscribe: "chat_step W (subscribe i q W)"
| step_unsubscribe: "chat_step W (unsubscribe i q W)"
| step_disconnect: "chat_step W (disconnect i W)"
| step_accounts: "chat_step W (W\<lparr>ch_auth := A\<rparr>)"

section \<open>What is kept\<close>

named_theorems chat_defs

lemmas [chat_defs] = listConversations_def getConversation_def requireParticipant_def conversation_of_def push_def
  save_socket_def connect_def disconnect_def

lemma lower_case_idem [simp]: "lower_case (lower_case s) = lower_case s"
  by (simp add: lower_case_def to_lower_idem)

lemma conversation_of_id: "conversation_of i W = Some c \<Longrightarrow> cv_id c = lower_case i"
  by (auto simp: conversation_of_def dest: coll_find_Some)

lemma conversation_of_self: "conversation_of i W = Some c \<Longrightarrow> conversation_of (cv_id c) W = Some c"
  by (frule conversation_of_id) (simp add: conversation_of_def)

lemma socket_of_member: "socket_of i W = Some s \<Longrightarrow> s \<in> set (ch_sockets W)"
  by (auto simp: socket_of_def dest: coll_find_Some)

text \<open>The participants of a conversation never change, and a conversation never goes.\<close>

definition talk_kept :: "chat_world \<Rightarrow> chat_world \<Rightarrow> bool" where
  "talk_kept W W' \<longleftrightarrow> (\<forall>i c. conversation_of i W = Some c \<longrightarrow>
     (\<exists>c'. conversation_of i W' = Some c' \<and> cv_participants c' = cv_participants c))"

lemma talk_same: "ch_conversations W' = ch_conversations W \<Longrightarrow> talk_kept W W'"
  by (simp add: talk_kept_def conversation_of_def)

definition talks_as :: "string option \<Rightarrow> string \<Rightarrow> chat_world \<Rightarrow> bool" where
  "talks_as u i W \<longleftrightarrow> (\<exists>c p. conversation_of i W = Some c \<and> u = Some p \<and> p \<in> set (cv_participants c))"

lemma talks_kept: "talk_kept W W' \<Longrightarrow> talks_as u i W \<Longrightarrow> talks_as u i W'"
  by (fastforce simp: talk_kept_def talks_as_def)

lemma participant_talks: "requireParticipant who i W = Inr c \<Longrightarrow> talks_as (Some who) (cv_id c) W"
  by (auto simp: requireParticipant_def talks_as_def split: if_splits option.splits dest: conversation_of_self)

definition room_earned :: "chat_world \<Rightarrow> socket \<Rightarrow> room \<Rightarrow> bool" where
  "room_earned W s r = (case r of UserRoom u \<Rightarrow> so_user s = Some u | ConversationRoom i \<Rightarrow> talks_as (so_user s) i W | _ \<Rightarrow> True)"

definition socket_ok :: "chat_world \<Rightarrow> socket \<Rightarrow> bool" where
  "socket_ok W s \<longleftrightarrow> length (so_rooms s) \<le> MAX_ROOMS_PER_SOCKET \<and> (\<forall>r \<in> set (so_rooms s). room_earned W s r)"

definition chat_ok :: "chat_world \<Rightarrow> bool" where
  "chat_ok W \<longleftrightarrow> (\<forall>s \<in> set (ch_sockets W). socket_ok W s)
     \<and> (\<forall>m \<in> set (ch_messages W). talks_as (Some (cm_sender m)) (cm_conversation m) W)
     \<and> (\<forall>(s, m) \<in> set (ch_pushed W). talks_as (so_user s) (cm_conversation m) W \<and> talks_as (Some (cm_sender m)) (cm_conversation m) W)"

lemma room_kept: "talk_kept W W' \<Longrightarrow> room_earned W s r \<Longrightarrow> room_earned W' s r"
  by (auto simp: room_earned_def intro: talks_kept split: room.splits)

lemma socket_kept: "talk_kept W W' \<Longrightarrow> socket_ok W s \<Longrightarrow> socket_ok W' s"
  by (auto simp: socket_ok_def intro: room_kept)

lemma chat_ok_step:
  assumes "chat_ok W" "talk_kept W W'"
    "\<And>s. s \<in> set (ch_sockets W') \<Longrightarrow> s \<in> set (ch_sockets W) \<or> socket_ok W' s"
    "\<And>m. m \<in> set (ch_messages W') \<Longrightarrow> talks_as (Some (cm_sender m)) (cm_conversation m) W'
       \<or> (\<exists>n \<in> set (ch_messages W). cm_sender n = cm_sender m \<and> cm_conversation n = cm_conversation m)"
    "\<And>s m. (s, m) \<in> set (ch_pushed W') \<Longrightarrow> (s, m) \<in> set (ch_pushed W)
       \<or> talks_as (so_user s) (cm_conversation m) W' \<and> talks_as (Some (cm_sender m)) (cm_conversation m) W'"
  shows "chat_ok W'"
  unfolding chat_ok_def
proof (intro conjI ballI)
  fix s assume "s \<in> set (ch_sockets W')"
  then show "socket_ok W' s" using assms(1,2,3) by (auto simp: chat_ok_def intro: socket_kept)
next
  fix m assume "m \<in> set (ch_messages W')"
  then show "talks_as (Some (cm_sender m)) (cm_conversation m) W'"
    using assms(1,2,4) [unfolded chat_ok_def] by (metis talks_kept)
next
  fix p assume p: "p \<in> set (ch_pushed W')"
  show "case p of (s, m) \<Rightarrow> talks_as (so_user s) (cm_conversation m) W' \<and> talks_as (Some (cm_sender m)) (cm_conversation m) W'"
  proof (cases p)
    case (Pair s m)
    from assms(5) p [unfolded Pair] have "(s, m) \<in> set (ch_pushed W)
        \<or> talks_as (so_user s) (cm_conversation m) W' \<and> talks_as (Some (cm_sender m)) (cm_conversation m) W'" .
    then show ?thesis
    proof (elim disjE)
      assume "(s, m) \<in> set (ch_pushed W)"
      then have "talks_as (so_user s) (cm_conversation m) W \<and> talks_as (Some (cm_sender m)) (cm_conversation m) W"
        using assms(1) by (auto simp: chat_ok_def)
      with Pair talks_kept [OF assms(2)] show ?thesis by simp
    qed (simp add: Pair)
  qed
qed

definition posted :: "int \<Rightarrow> string \<Rightarrow> string \<Rightarrow> conversation \<Rightarrow> string \<Rightarrow> chat_world \<Rightarrow> chat_world" where
  "posted now n who c t W =
     (let m = \<lparr>cm_id = n, cm_conversation = cv_id c, cm_sender = who, cm_text = js_trim t, cm_readBy = [who], cm_createdAt = now\<rparr>
      in push (ConversationRoom (cv_id c)) m
           (W\<lparr>ch_messages := ch_messages W @ [m], ch_conversations := coll_put cv_id (c\<lparr>cv_last := now\<rparr>) (ch_conversations W)\<rparr>))"

lemma post_cases:
  "snd (postMessage now n who i msg W) = W
   \<or> (\<exists>c t. requireParticipant who i W = Inr c \<and> snd (postMessage now n who i msg W) = posted now n who c t W)"
proof (cases "requireParticipant who i W")
  case (Inr c)
  then show ?thesis by (cases msg) (auto simp: postMessage_def posted_def Let_def)
qed (simp add: postMessage_def)

lemma post_keeps:
  assumes "chat_ok W"
  shows "chat_ok (snd (postMessage now n who i msg W))"
proof (cases "snd (postMessage now n who i msg W) = W")
  case False
  then obtain c t where c: "requireParticipant who i W = Inr c" and p: "snd (postMessage now n who i msg W) = posted now n who c t W"
    using post_cases by metis
  define m where "m = \<lparr>cm_id = n, cm_conversation = cv_id c, cm_sender = who, cm_text = js_trim t, cm_readBy = [who], cm_createdAt = now\<rparr>"
  define W' where "W' = push (ConversationRoom (cv_id c)) m
      (W\<lparr>ch_messages := ch_messages W @ [m], ch_conversations := coll_put cv_id (c\<lparr>cv_last := now\<rparr>) (ch_conversations W)\<rparr>)"
  have found: "conversation_of i W = Some c" using c by (auto simp: requireParticipant_def split: if_splits option.splits)
  have k: "talk_kept W W'"
    unfolding talk_kept_def
  proof (intro allI impI)
    fix j d assume j: "conversation_of j W = Some d"
    show "\<exists>c'. conversation_of j W' = Some c' \<and> cv_participants c' = cv_participants d"
    proof (cases "lower_case j = cv_id c")
      case True
      have d: "d = c" using j found True conversation_of_id [OF found] by (simp add: conversation_of_def)
      show ?thesis
        using coll_find_put_same [of cv_id "c\<lparr>cv_last := now\<rparr>" "ch_conversations W"] j True d
        by (simp add: conversation_of_def W'_def push_def)
    next
      case False
      then show ?thesis
        using coll_find_put_other [of "lower_case j" cv_id "c\<lparr>cv_last := now\<rparr>" "ch_conversations W"] j
        by (simp add: conversation_of_def W'_def push_def)
    qed
  qed
  have sender: "talks_as (Some (cm_sender m)) (cm_conversation m) W'"
    using talks_kept [OF k participant_talks [OF c]] by (simp add: m_def)
  have "chat_ok W'"
  proof (rule chat_ok_step [OF assms k])
    fix x assume "x \<in> set (ch_messages W')"
    then show "talks_as (Some (cm_sender x)) (cm_conversation x) W'
        \<or> (\<exists>n \<in> set (ch_messages W). cm_sender n = cm_sender x \<and> cm_conversation n = cm_conversation x)"
      using sender by (auto simp: W'_def push_def)
  next
    fix s x assume a: "(s, x) \<in> set (ch_pushed W')"
    have "talks_as (so_user s) (cv_id c) W'" if "s \<in> set (ch_sockets W)" "ConversationRoom (cv_id c) \<in> set (so_rooms s)"
      using that assms talks_kept [OF k] by (fastforce simp: chat_ok_def socket_ok_def room_earned_def)
    with a sender show "(s, x) \<in> set (ch_pushed W)
        \<or> talks_as (so_user s) (cm_conversation x) W' \<and> talks_as (Some (cm_sender x)) (cm_conversation x) W'"
      by (auto simp: W'_def push_def m_def)
  qed (simp add: W'_def push_def)
  then show ?thesis by (simp add: p W'_def m_def posted_def Let_def)
qed (use assms in simp)

lemma open_keeps:
  assumes "chat_ok W"
  shows "chat_ok (snd (postConversation now n who q W))"
proof (cases "snd (postConversation now n who q W) = W")
  case False
  then obtain c where p: "snd (postConversation now n who q W) = W\<lparr>ch_conversations := ch_conversations W @ [c]\<rparr>"
    by (auto simp: postConversation_def split: if_splits option.splits)
  show ?thesis unfolding p
  proof (rule chat_ok_step [OF assms])
    show "talk_kept W (W\<lparr>ch_conversations := ch_conversations W @ [c]\<rparr>)"
      by (auto simp: talk_kept_def conversation_of_def coll_find_append)
  qed auto
qed (use assms in simp)

lemma read_keeps:
  assumes "chat_ok W"
  shows "chat_ok (snd (markRead who i W))"
proof (rule chat_ok_step [OF assms])
  show "talk_kept W (snd (markRead who i W))" by (rule talk_same) (simp add: markRead_def split: sum.split)
  fix m assume "m \<in> set (ch_messages (snd (markRead who i W)))"
  then show "talks_as (Some (cm_sender m)) (cm_conversation m) (snd (markRead who i W))
      \<or> (\<exists>n \<in> set (ch_messages W). cm_sender n = cm_sender m \<and> cm_conversation n = cm_conversation m)"
    by (auto simp: markRead_def split: sum.splits if_splits)
qed (auto simp: markRead_def split: sum.splits)

lemma handler_keeps: "chat_ok W \<Longrightarrow> chat_ok (snd (chat_handle now op who W))"
  by (cases op) (auto simp: listConversations_def getConversation_def post_keeps open_keeps read_keeps split: sum.split)

lemma accounts_keep: "chat_ok (W\<lparr>ch_auth := A\<rparr>) = chat_ok W"
proof -
  have t: "talks_as u i (W\<lparr>ch_auth := A\<rparr>) = talks_as u i W" for u i by (simp add: talks_as_def conversation_of_def)
  have "room_earned (W\<lparr>ch_auth := A\<rparr>) s r = room_earned W s r" for s r by (simp add: room_earned_def t split: room.split)
  with t show ?thesis by (simp add: chat_ok_def socket_ok_def)
qed

lemma sockets_keep:
  assumes "chat_ok W" "\<And>s. s \<in> set S \<Longrightarrow> s \<in> set (ch_sockets W) \<or> socket_ok W s"
  shows "chat_ok (W\<lparr>ch_sockets := S\<rparr>)"
proof (rule chat_ok_step [OF assms(1)])
  have k: "talk_kept W (W\<lparr>ch_sockets := S\<rparr>)" by (rule talk_same) simp
  then show "talk_kept W (W\<lparr>ch_sockets := S\<rparr>)" .
  fix s assume "s \<in> set (ch_sockets (W\<lparr>ch_sockets := S\<rparr>))"
  then show "s \<in> set (ch_sockets W) \<or> socket_ok (W\<lparr>ch_sockets := S\<rparr>) s" using assms(2) socket_kept [OF k] by auto
qed auto

lemma allowed_earned: "allowed_room s q W = Some r \<Longrightarrow> room_earned W s r"
  by (cases q) (auto simp: allowed_room_def room_earned_def talks_as_def truthy_str_def split: if_splits option.splits)

lemma room_earned_frame: "room_earned W (s\<lparr>so_rooms := R\<rparr>) r = room_earned W s r"
  by (cases r) (simp_all add: room_earned_def)

lemma join_ok:
  assumes "socket_ok W s" "allowed_room s q W = Some r"
  shows "socket_ok W (snd (joinRoomWithCap s r))"
  using assms allowed_earned [OF assms(2)] by (auto simp: joinRoomWithCap_def socket_ok_def room_earned_frame)

lemma leave_ok:
  assumes "socket_ok W s"
  shows "socket_ok W (s\<lparr>so_rooms := filter P (so_rooms s)\<rparr>)"
  using assms order_trans [OF length_filter_le [of P "so_rooms s"]] by (simp add: socket_ok_def room_earned_frame)

lemma saved_socket: "x \<in> set (coll_put so_id s S) \<Longrightarrow> x \<in> set S \<or> x = s"
  by (induction S) (auto split: if_splits)

lemma subscribe_keeps:
  assumes "chat_ok W"
  shows "chat_ok (subscribe i q W)"
proof (cases "socket_of i W")
  case (Some s)
  show ?thesis
  proof (cases "allowed_room s q W")
    case r: (Some r)
    have "socket_ok W (snd (joinRoomWithCap s r))"
      using assms socket_of_member [OF Some] join_ok [OF _ r] by (simp add: chat_ok_def)
    with assms Some r show ?thesis
      by (auto simp: subscribe_def save_socket_def intro!: sockets_keep dest!: saved_socket)
  qed (use assms Some in \<open>simp add: subscribe_def\<close>)
qed (use assms in \<open>simp add: subscribe_def\<close>)

lemma unsubscribe_keeps:
  assumes "chat_ok W"
  shows "chat_ok (unsubscribe i q W)"
proof (cases "socket_of i W")
  case (Some s)
  show ?thesis
  proof (cases "left_room q")
    case r: (Some r)
    have "socket_ok W (s\<lparr>so_rooms := filter (\<lambda>x. x \<noteq> r) (so_rooms s)\<rparr>)"
      using assms socket_of_member [OF Some] by (simp add: chat_ok_def leave_ok)
    with assms Some r show ?thesis
      by (auto simp: unsubscribe_def save_socket_def intro!: sockets_keep dest!: saved_socket)
  qed (use assms Some in \<open>simp add: unsubscribe_def\<close>)
qed (use assms in \<open>simp add: unsubscribe_def\<close>)

lemma connect_keeps: "chat_ok W \<Longrightarrow> chat_ok (connect en i token cookie W)"
  unfolding connect_def
  by (rule sockets_keep) (auto simp: socket_ok_def room_earned_def MAX_ROOMS_PER_SOCKET_def)

lemma disconnect_keeps: "chat_ok W \<Longrightarrow> chat_ok (disconnect i W)"
  unfolding disconnect_def by (rule sockets_keep) auto

lemma request_keeps:
  assumes "chat_ok W" "chatRoute en rq (chat_handle now op) W = (r, W')"
  shows "chat_ok W'"
proof -
  obtain x A where a: "requireAuth en None rq (ch_auth W) = (x, A)" by fastforce
  show ?thesis
  proof (cases x)
    case (Inr s)
    then show ?thesis
      using assms a handler_keeps [of "W\<lparr>ch_auth := A\<rparr>" now op "ac_id (se_user s)"]
      by (cases "chat_handle now op (ac_id (se_user s)) (W\<lparr>ch_auth := A\<rparr>)") (simp add: chatRoute_def accounts_keep)
  qed (use assms a in \<open>auto simp: chatRoute_def accounts_keep\<close>)
qed

lemma chat_invariant:
  assumes "chat_step\<^sup>*\<^sup>* W W'" "chat_ok W"
  shows "chat_ok W'"
  using assms
proof (induction rule: rtranclp_induct)
  case (step V V')
  then have ok: "chat_ok V" by blast
  from step(2) show ?case
    by cases (use ok in \<open>auto simp: accounts_keep connect_keeps subscribe_keeps unsubscribe_keeps disconnect_keeps intro: request_keeps\<close>)
qed

section \<open>Two users and a conversation\<close>

definition demo_key :: string where "demo_key = replicate 24 CHR ''a''"

definition demo_talk :: conversation where
  "demo_talk = \<lparr>cv_id = demo_key, cv_participants = [''u1'', ''root''], cv_last = 0\<rparr>"

definition demo_chat :: chat_world where
  "demo_chat = \<lparr>ch_auth = demo_auth_world, ch_conversations = [demo_talk], ch_messages = [], ch_sockets = [], ch_pushed = []\<rparr>"

definition demo_listening :: chat_world where
  "demo_listening = subscribe ''s1'' (SubConversation demo_key) (connect (demo_auth 5000) ''s1'' (Some ''root'') None demo_chat)"

lemma demo_talk_id: "object_id demo_key" "lower_case demo_key = demo_key"
  by (simp_all add: object_id_def lower_case_def to_lower_def list_all_iff is_digit_def demo_key_def)

lemma demo_listening_is:
  "demo_listening = demo_chat\<lparr>ch_sockets := [\<lparr>so_id = ''s1'', so_user = Some ''root'',
     so_rooms = [OwnRoom ''s1'', ConversationRoom demo_key]\<rparr>]\<rparr>"
  by (simp add: demo_listening_def connect_def socket_user_def demo_chat_def subscribe_def socket_of_def allowed_room_def conversation_of_def
      demo_talk_id demo_talk_def truthy_str_def demo_auth_def demo_verify_def demo_claims_def joinRoomWithCap_def MAX_ROOMS_PER_SOCKET_def
      save_socket_def)

lemma demo_reaches_listening: "chat_step\<^sup>*\<^sup>* demo_chat demo_listening"
  unfolding demo_listening_def
  by (rule rtranclp.rtrancl_into_rtrancl [OF r_into_rtranclp]) (rule chat_step.step_connect, rule chat_step.step_subscribe)

lemma demo_send_step:
  "\<exists>r A. chatRoute (demo_auth 5000) (bearer ''u1'') (chat_handle 9 (SendOp ''m1'' demo_key (JsText ''hello''))) demo_listening
     = (r, push (ConversationRoom demo_key)
         \<lparr>cm_id = ''m1'', cm_conversation = demo_key, cm_sender = ''u1'', cm_text = ''hello'', cm_readBy = [''u1''], cm_createdAt = 9\<rparr>
         (demo_listening\<lparr>ch_auth := A, ch_messages := [\<lparr>cm_id = ''m1'', cm_conversation = demo_key, cm_sender = ''u1'',
            cm_text = ''hello'', cm_readBy = [''u1''], cm_createdAt = 9\<rparr>], ch_conversations := [demo_talk\<lparr>cv_last := 9\<rparr>]\<rparr>))"
proof -
  obtain A where a: "requireAuth (demo_auth 5000) None (bearer ''u1'') demo_auth_world
      = (Inr \<lparr>se_user = (demo_user ''u1'' RoleUser)\<lparr>ac_password := None\<rparr>, se_payload = demo_claims ''u1'', se_method = BearerAuth\<rparr>, A)"
    using demo_sessions [of "''u1''" 5000 None] by auto
  have t: "js_trim ''hello'' = ''hello''" by (simp add: js_trim_def js_space_def)
  show ?thesis
    by (rule exI, rule exI [of _ A])
      (simp add: chatRoute_def demo_listening_is demo_chat_def a demo_user_def postMessage_def requireParticipant_def demo_talk_id
       conversation_of_def demo_talk_def json_given_def t Let_def)
qed

section \<open>Who is reached\<close>

text \<open>
  C19: Whatever requests arrive and whatever sockets connect, ask and go, a message is pushed only to a socket whose
  user takes part in its conversation, and was written by someone who does.
\<close>

theorem messages_stay_between_participants:
  assumes "chat_step\<^sup>*\<^sup>* W W'" "ch_sockets W = []" "ch_messages W = []" "ch_pushed W = []" "(s, m) \<in> set (ch_pushed W')"
  shows "\<exists>c p. conversation_of (cm_conversation m) W' = Some c \<and> so_user s = Some p
           \<and> p \<in> set (cv_participants c) \<and> cm_sender m \<in> set (cv_participants c)"
proof -
  have "chat_ok W'" by (rule chat_invariant [OF assms(1)]) (simp add: chat_ok_def assms(2-4))
  with assms(5) have "talks_as (so_user s) (cm_conversation m) W'" "talks_as (Some (cm_sender m)) (cm_conversation m) W'"
    by (auto simp: chat_ok_def)
  then show ?thesis by (auto simp: talks_as_def)
qed

lemma messages_stay_between_participants_witness:
  "\<exists>W' s m. chat_step\<^sup>*\<^sup>* demo_chat W' \<and> (s, m) \<in> set (ch_pushed W') \<and> so_user s = Some ''root'' \<and> cm_sender m = ''u1''
     \<and> (\<exists>c. conversation_of (cm_conversation m) W' = Some c \<and> ''u1'' \<in> set (cv_participants c) \<and> ''root'' \<in> set (cv_participants c))"
proof -
  define m where "m = \<lparr>cm_id = ''m1'', cm_conversation = demo_key, cm_sender = ''u1'', cm_text = ''hello'', cm_readBy = [''u1''],
    cm_createdAt = (9 :: int)\<rparr>"
  define s where "s = \<lparr>so_id = ''s1'', so_user = Some ''root'', so_rooms = [OwnRoom ''s1'', ConversationRoom demo_key]\<rparr>"
  obtain r A where e: "chatRoute (demo_auth 5000) (bearer ''u1'') (chat_handle 9 (SendOp ''m1'' demo_key (JsText ''hello''))) demo_listening
     = (r, push (ConversationRoom demo_key) m
         (demo_listening\<lparr>ch_auth := A, ch_messages := [m], ch_conversations := [demo_talk\<lparr>cv_last := 9\<rparr>]\<rparr>))"
    (is "_ = (r, ?W)") unfolding m_def using demo_send_step by blast
  have n: "chat_step\<^sup>*\<^sup>* demo_chat ?W"
    using demo_reaches_listening chat_step.step_request [OF e] by (rule rtranclp.rtrancl_into_rtrancl)
  have i: "(s, m) \<in> set (ch_pushed ?W)" by (simp add: push_def demo_listening_is demo_chat_def s_def)
  obtain c p where "conversation_of (cm_conversation m) ?W = Some c" "so_user s = Some p" "p \<in> set (cv_participants c)"
      "cm_sender m \<in> set (cv_participants c)"
    using messages_stay_between_participants [OF n _ _ _ i] by (auto simp: demo_chat_def)
  with n i show ?thesis by (intro exI [of _ ?W] exI [of _ s] exI [of _ m]) (auto simp: s_def m_def)
qed

text \<open>
  A socket is in the notification room of a user only when it connected as that user, and in at most twenty rooms,
  its own among them.
\<close>

theorem rooms_are_earned:
  assumes "chat_step\<^sup>*\<^sup>* W W'" "ch_sockets W = []" "ch_messages W = []" "ch_pushed W = []" "s \<in> set (ch_sockets W')"
  shows "length (so_rooms s) \<le> 20" "\<And>u. UserRoom u \<in> set (so_rooms s) \<Longrightarrow> so_user s = Some u"
proof -
  have "chat_ok W'" by (rule chat_invariant [OF assms(1)]) (simp add: chat_ok_def assms(2-4))
  with assms(5) have "socket_ok W' s" by (auto simp: chat_ok_def)
  then show "length (so_rooms s) \<le> 20" "\<And>u. UserRoom u \<in> set (so_rooms s) \<Longrightarrow> so_user s = Some u"
    by (auto simp: socket_ok_def room_earned_def MAX_ROOMS_PER_SOCKET_def)
qed

lemma rooms_are_earned_witness:
  "\<exists>s \<in> set (ch_sockets demo_listening). length (so_rooms s) \<le> 20 \<and> ConversationRoom demo_key \<in> set (so_rooms s)"
proof -
  define s where "s = \<lparr>so_id = ''s1'', so_user = Some ''root'', so_rooms = [OwnRoom ''s1'', ConversationRoom demo_key]\<rparr>"
  have i: "s \<in> set (ch_sockets demo_listening)" by (simp add: demo_listening_is demo_chat_def s_def)
  have "length (so_rooms s) \<le> 20" using rooms_are_earned(1) [OF demo_reaches_listening _ _ _ i] by (simp add: demo_chat_def)
  with i show ?thesis by (intro bexI [OF _ i]) (simp add: s_def)
qed

section \<open>What is not reached\<close>

lemma subscribed_user:
  assumes "i \<notin> so_id ` set (ch_sockets W)" "socket_user en token cookie = Some u" "object_id u"
  shows "\<exists>s \<in> set (ch_sockets (subscribe i (SubUser u) (connect en i token cookie W))). so_id s = i \<and> UserRoom u \<in> set (so_rooms s)"
proof -
  define s where "s = \<lparr>so_id = i, so_user = Some u, so_rooms = [OwnRoom i]\<rparr>"
  have a: "coll_find (\<lambda>s. so_id s = i) (ch_sockets W @ [s]) = Some s"
    using assms(1) by (auto simp: coll_find_append coll_find_None s_def split: option.split dest!: coll_find_Some)
  have "so_id (s\<lparr>so_rooms := [OwnRoom i, UserRoom u]\<rparr>) \<in> so_id ` set (ch_sockets W @ [s])" by (simp add: s_def)
  from coll_put_self [OF this] have "s\<lparr>so_rooms := [OwnRoom i, UserRoom u]\<rparr> \<in> set (coll_put so_id (s\<lparr>so_rooms := [OwnRoom i, UserRoom u]\<rparr>) (ch_sockets W @ [s]))" .
  moreover have "ch_sockets (subscribe i (SubUser u) (connect en i token cookie W)) = coll_put so_id (s\<lparr>so_rooms := [OwnRoom i, UserRoom u]\<rparr>) (ch_sockets W @ [s])"
    using a assms(2,3)
    by (simp add: subscribe_def connect_def socket_of_def allowed_room_def joinRoomWithCap_def save_socket_def MAX_ROOMS_PER_SOCKET_def
        s_def [symmetric]) (simp add: s_def allowed_room_def)
  ultimately show ?thesis by (intro bexI [of _ "s\<lparr>so_rooms := [OwnRoom i, UserRoom u]\<rparr>"]) (simp_all add: s_def)
qed

text \<open>
  C25: A token that has been revoked, by a logout on this or on every device, is refused by the guard of every route, and
  still opens a socket that joins the notifications of its user: the handshake checks the signature alone.
\<close>

theorem revoked_token_opens_a_socket:
  assumes "au_secret en" "request_token rq = Inr (tok, meth)" "tok \<noteq> []" "au_verify en (au_now en) tok = Some c" "isRevoked en c (ch_auth W)"
    "cl_userId c = Some u" "object_id u" "i \<notin> so_id ` set (ch_sockets W)"
  shows "fst (chatRoute en rq h W) = Inl InvalidToken
    \<and> (\<exists>s \<in> set (ch_sockets (subscribe i (SubUser u) (connect en i (Some tok) None W))). so_id s = i \<and> UserRoom u \<in> set (so_rooms s))"
proof
  show "fst (chatRoute en rq h W) = Inl InvalidToken" using assms(1,2,4,5) by (simp add: chatRoute_def requireAuth_def)
  have "u \<noteq> []" using assms(7) by (auto simp: object_id_def)
  then have "socket_user en (Some tok) None = Some u"
    using assms(1,3,4,6) by (simp add: socket_user_def str_or_truthy truthy_str_def)
  then show "\<exists>s \<in> set (ch_sockets (subscribe i (SubUser u) (connect en i (Some tok) None W))). so_id s = i \<and> UserRoom u \<in> set (so_rooms s)"
    by (rule subscribed_user [OF assms(8) _ assms(7)])
qed

lemma revoked_token_opens_a_socket_witness:
  "\<exists>en W. fst (chatRoute en (bearer ''u1'') listConversations W) = Inl InvalidToken
     \<and> (\<exists>s \<in> set (ch_sockets (subscribe ''s1'' (SubUser demo_key) (connect en ''s1'' (Some ''u1'') None W))).
          so_id s = ''s1'' \<and> UserRoom demo_key \<in> set (so_rooms s))"
proof -
  define en where "en = (demo_auth 5000)\<lparr>au_verify := \<lambda>_ _. Some ((demo_claims ''u1'')\<lparr>cl_userId := Some demo_key\<rparr>)\<rparr>"
  define W where "W = demo_chat\<lparr>ch_auth := demo_auth_world\<lparr>deniedTokens := \<lambda>_. Some ((), None)\<rparr>\<rparr>"
  have v: "isRevoked en ((demo_claims ''u1'')\<lparr>cl_userId := Some demo_key\<rparr>) (ch_auth W)"
    by (simp add: isRevoked_def en_def W_def demo_auth_def demo_claims_def truthy_str_def key_get_def live_def)
  have "fst (chatRoute en (bearer ''u1'') listConversations W) = Inl InvalidToken
    \<and> (\<exists>s \<in> set (ch_sockets (subscribe ''s1'' (SubUser demo_key) (connect en ''s1'' (Some ''u1'') None W))).
        so_id s = ''s1'' \<and> UserRoom demo_key \<in> set (so_rooms s))"
    by (rule revoked_token_opens_a_socket [OF _ bearer_token(1) _ _ v _ demo_talk_id(1)])
      (simp_all add: en_def W_def demo_auth_def demo_chat_def)
  then show ?thesis by blast
qed

section \<open>What a conversation shows\<close>

lemma insort_before:
  assumes "f x \<le> f y"
  shows "insort_key f x (ys @ [y]) = insort_key f x ys @ [y]"
  using assms by (induction ys) auto

lemma sort_latest:
  assumes "\<forall>x \<in> set xs. f x \<le> f y"
  shows "sort_key f (xs @ [y]) = sort_key f xs @ [y]"
  using assms by (induction xs) (simp_all add: insort_before)

text \<open>
  Once a conversation holds two hundred messages a further one is stored and answered, and its thread stays as it
  was for every reader: the oldest two hundred are shown.
\<close>

theorem later_messages_are_not_shown:
  assumes "requireParticipant who i W = Inr c" "200 \<le> length (messages_in (cv_id c) W)"
    "\<forall>m \<in> set (messages_in (cv_id c) W). cm_createdAt m \<le> now" "js_trim t \<noteq> []"
    "postMessage now n who i (JsText t) W = (r, W')"
  shows "(\<exists>m. r = ChatSent m \<and> m \<in> set (messages_in (cv_id c) W')) \<and> shown_messages (cv_id c) W' = shown_messages (cv_id c) W"
proof -
  define m where "m = \<lparr>cm_id = n, cm_conversation = cv_id c, cm_sender = who, cm_text = js_trim t, cm_readBy = [who], cm_createdAt = now\<rparr>"
  have "t \<noteq> []" using assms(4) by (auto simp: js_trim_def)
  then have r: "r = ChatSent m" and w: "messages_in (cv_id c) W' = messages_in (cv_id c) W @ [m]"
    using assms(1,4,5) by (auto simp: postMessage_def json_given_def Let_def push_def messages_in_def m_def)
  have "sort_key cm_createdAt (messages_in (cv_id c) W') = sort_key cm_createdAt (messages_in (cv_id c) W) @ [m]"
    unfolding w by (rule sort_latest) (use assms(3) in \<open>simp add: m_def\<close>)
  then show ?thesis using r w assms(2) by (simp add: shown_messages_def)
qed

definition demo_long :: chat_world where
  "demo_long = demo_chat\<lparr>ch_messages := replicate 200 \<lparr>cm_id = ''m0'', cm_conversation = demo_key, cm_sender = ''root'', cm_text = ''hi'',
     cm_readBy = [''root''], cm_createdAt = 1\<rparr>\<rparr>"

lemma demo_long_facts:
  "requireParticipant ''u1'' demo_key demo_long = Inr demo_talk" "cv_id demo_talk = demo_key"
  "messages_in demo_key demo_long = ch_messages demo_long" "js_trim ''hello'' = ''hello''"
  by (simp_all add: requireParticipant_def demo_talk_id conversation_of_def demo_long_def demo_chat_def demo_talk_def messages_in_def
      js_trim_def js_space_def)

lemma later_messages_are_not_shown_witness:
  "\<exists>r W'. postMessage 9 ''m1'' ''u1'' demo_key (JsText ''hello'') demo_long = (r, W') \<and> (\<exists>m. r = ChatSent m)
     \<and> shown_messages demo_key W' = shown_messages demo_key demo_long"
proof -
  obtain r W' where p: "postMessage 9 ''m1'' ''u1'' demo_key (JsText ''hello'') demo_long = (r, W')" by fastforce
  have l: "length (ch_messages demo_long) = 200" "\<forall>m \<in> set (ch_messages demo_long). cm_createdAt m \<le> 9"
    by (simp_all only: demo_long_def chat_world.simps length_replicate) auto
  show ?thesis
    using later_messages_are_not_shown [OF demo_long_facts(1) _ _ _ p] p demo_long_facts l by auto
qed

lemma filter_map_same: "(\<And>x. x \<in> set xs \<Longrightarrow> P (f x) = P x) \<Longrightarrow> length (filter P (map f xs)) = length (filter P xs)"
  by (induction xs) auto

text \<open>
  Marking a conversation read leaves nothing unread in it for the one who reads, and changes no text and no count of
  another reader, in this conversation or elsewhere.
\<close>

theorem reading_clears_unread:
  assumes "requireParticipant who i W = Inr c" "markRead who i W = (r, W')"
  shows "r = ChatRead" "filter (unread_for who) (messages_in (cv_id c) W') = []"
    "map cm_text (ch_messages W') = map cm_text (ch_messages W)"
    "p \<noteq> who \<Longrightarrow> length (filter (unread_for p) (messages_in j W')) = length (filter (unread_for p) (messages_in j W))"
proof -
  define f where "f = (\<lambda>m. if cm_conversation m = cv_id c \<and> unread_for who m then m\<lparr>cm_readBy := cm_readBy m @ [who]\<rparr> else m)"
  have e: "r = ChatRead" "W' = W\<lparr>ch_messages := map f (ch_messages W)\<rparr>" using assms by (auto simp: markRead_def f_def)
  then show "r = ChatRead" by simp
  show "filter (unread_for who) (messages_in (cv_id c) W') = []"
    by (auto simp: e messages_in_def f_def unread_for_def filter_empty_conv)
  show "map cm_text (ch_messages W') = map cm_text (ch_messages W)" by (simp add: e f_def)
  assume "p \<noteq> who"
  then have "length (filter (\<lambda>m. cm_conversation m = j \<and> unread_for p m) (map f (ch_messages W)))
      = length (filter (\<lambda>m. cm_conversation m = j \<and> unread_for p m) (ch_messages W))"
    by (intro filter_map_same) (auto simp: f_def unread_for_def)
  then show "length (filter (unread_for p) (messages_in j W')) = length (filter (unread_for p) (messages_in j W))"
    by (simp add: e messages_in_def del: filter_map)
qed

lemma reading_clears_unread_witness:
  "\<exists>W'. markRead ''u1'' demo_key demo_long = (ChatRead, W') \<and> filter (unread_for ''u1'') (messages_in demo_key W') = []"
proof -
  obtain r W' where p: "markRead ''u1'' demo_key demo_long = (r, W')" by fastforce
  with reading_clears_unread(1,2) [OF demo_long_facts(1) p] show ?thesis by (auto simp: demo_long_facts)
qed

text \<open>
  A request whose address is the inequality operator instead of an address opens a conversation with the first other
  account of the database, and answers with its name: the value of the body reaches the query unchecked.
\<close>

theorem operator_opens_a_conversation:
  assumes "accounts (ch_auth W) = a # as" "ac_id a \<noteq> who"
  shows "\<exists>i W'. postConversation now n who (JsObject [(''$ne'', JsNull)]) W
           = (ChatOpened i (the (str_or (ac_username a) (Some (ac_email a)))), W')
         \<and> (\<exists>c \<in> set (ch_conversations W'). cv_id c = i \<and> {who, ac_id a} \<subseteq> set (cv_participants c))"
proof -
  have f: "coll_find (\<lambda>a. email_matches (JsObject [(''$ne'', JsNull)]) (ac_email a)) (accounts (ch_auth W)) = Some a"
    by (simp add: assms(1) email_matches_def)
  show ?thesis
    using assms(2) f by (auto simp: postConversation_def json_given_def split: option.splits dest!: coll_find_Some)
qed

lemma operator_opens_a_conversation_witness:
  "\<exists>i W'. postConversation 9 ''n'' ''root'' (JsObject [(''$ne'', JsNull)]) (demo_chat\<lparr>ch_conversations := []\<rparr>) = (ChatOpened i ''u1@x.y'', W')"
  using operator_opens_a_conversation [of "demo_chat\<lparr>ch_conversations := []\<rparr>" "demo_user ''u1'' RoleUser" "[demo_user ''root'' RoleSuperadmin]" "''root''" 9 "''n''"]
  by (auto simp: demo_chat_def demo_auth_world_def demo_user_def new_account_def)

end
