(* ===== verification/Notifications.thy ===== *)
theory Notifications
  imports Messaging
begin

text \<open>
  Notifications: \<open>services/notify.js\<close>, the digest of \<open>jobs/notificationDigest.js\<close> and the routes of
  \<open>notificationsController.js\<close>. The copy inside the application is always written and pushed to the room of its user; the
  copies by email, SMS and WhatsApp are sent at once or queued. The providers are a parameter that answers whether a
  message was taken; what they took is kept in a log.
\<close>

record notice =
  nt_id :: string
  nt_user :: string
  nt_kind :: string
  nt_title :: string
  nt_body :: string
  nt_read :: bool
  nt_createdAt :: int

record queued_notice =
  qn_id :: string
  qn_user :: string
  qn_channel :: string
  qn_kind :: string
  qn_title :: string
  qn_body :: string
  qn_flushAfter :: int
  qn_createdAt :: int

record notice_prefs =
  np_email :: "string \<Rightarrow> bool option"
  np_sms :: "string \<Rightarrow> bool option"
  np_whatsapp :: "string \<Rightarrow> bool option"
  np_frequency :: "string option"

text \<open>What a provider is given: the channel, the destination, a subject for email alone, and the text.\<close>

record sent_notice =
  sn_channel :: string
  sn_to :: string
  sn_subject :: "string option"
  sn_text :: string

record notice_world =
  nw_chat :: chat_world
  nw_notices :: "notice list"
  nw_queue :: "queued_notice list"
  nw_prefs :: "string \<Rightarrow> notice_prefs option"
  nw_sent :: "sent_notice list"
  nw_live :: "(socket \<times> notice) list"

record notice_env =
  nv_now :: int
  nv_id :: string
  nv_queueId :: "string \<Rightarrow> string"
  nv_create :: bool
  nv_prefs :: bool
  nv_queue :: bool
  nv_load :: "string \<Rightarrow> bool"
  nv_delete :: "string \<times> string \<Rightarrow> bool"
  nv_provider :: "sent_notice \<Rightarrow> bool"

section \<open>Sending\<close>

definition FREQUENCY_INTERVAL_MS :: "string \<Rightarrow> int option" where
  "FREQUENCY_INTERVAL_MS f = (if f = ''hourly'' then Some (60 * 60 * 1000) else if f = ''daily'' then Some (24 * 60 * 60 * 1000) else None)"

definition notify :: "notice_env \<Rightarrow> string \<Rightarrow> string \<Rightarrow> string \<Rightarrow> string \<Rightarrow> notice_world \<Rightarrow> notice_world" where
  "notify en u kind title body W =
     (if u = [] \<or> title = [] \<or> \<not> nv_create en then W
      else (let n = \<lparr>nt_id = nv_id en, nt_user = u, nt_kind = kind, nt_title = title, nt_body = body, nt_read = False, nt_createdAt = nv_now en\<rparr>
            in W\<lparr>nw_notices := nw_notices W @ [n],
                 nw_live := nw_live W @ map (\<lambda>s. (s, n)) (filter (\<lambda>s. UserRoom u \<in> set (so_rooms s)) (ch_sockets (nw_chat W)))\<rparr>))"

text \<open>A destination or a text that is empty is not sent; the separator of an SMS is a dash, in UTF-8.\<close>

definition provider_send :: "notice_env \<Rightarrow> sent_notice \<Rightarrow> notice_world \<Rightarrow> bool \<times> notice_world" where
  "provider_send en m W = (if nv_provider en m then (True, W\<lparr>nw_sent := nw_sent W @ [m]\<rparr>) else (False, W))"

definition dash :: string where "dash = [CHR 0x20, CHR 0xE2, CHR 0x80, CHR 0x94, CHR 0x20]"

definition channel_message :: "string \<Rightarrow> string \<Rightarrow> string \<Rightarrow> string \<Rightarrow> sent_notice" where
  "channel_message ch dest title body =
     (if ch = ''email'' then \<lparr>sn_channel = ch, sn_to = dest, sn_subject = Some title, sn_text = body\<rparr>
      else if ch = ''sms'' then \<lparr>sn_channel = ch, sn_to = dest, sn_subject = None, sn_text = title @ dash @ body\<rparr>
      else \<lparr>sn_channel = ch, sn_to = dest, sn_subject = None, sn_text = title @ [CHR 0x0A] @ body\<rparr>)"

definition sendGroup :: "notice_env \<Rightarrow> string \<Rightarrow> string \<Rightarrow> string \<Rightarrow> string \<Rightarrow> notice_world \<Rightarrow> bool \<times> notice_world" where
  "sendGroup en ch dest title body W =
     (if dest = [] \<or> ch = ''email'' \<and> title = [] then (False, W) else provider_send en (channel_message ch dest title body) W)"

definition destination :: "string \<Rightarrow> account \<Rightarrow> string option" where
  "destination ch a =
     (if ch = ''email'' then (if ac_email a = [] then None else Some (ac_email a))
      else if ch = ''sms'' \<or> ch = ''whatsapp'' then (if truthy_str (ac_phone a) then ac_phone a else None) else None)"

definition dispatchChannel :: "notice_env \<Rightarrow> string \<Rightarrow> account \<Rightarrow> string \<Rightarrow> string \<Rightarrow> notice_world \<Rightarrow> notice_world" where
  "dispatchChannel en ch a title body W =
     (case destination ch a of None \<Rightarrow> W | Some d \<Rightarrow> snd (sendGroup en ch d title body W))"

definition pref_or :: "bool \<Rightarrow> (notice_prefs \<Rightarrow> string \<Rightarrow> bool option) \<Rightarrow> string \<Rightarrow> notice_prefs option \<Rightarrow> bool" where
  "pref_or d f c p = (case p of None \<Rightarrow> d | Some p \<Rightarrow> (case f p c of None \<Rightarrow> d | Some b \<Rightarrow> b))"

definition wanted_channels :: "account \<Rightarrow> string \<Rightarrow> notice_prefs option \<Rightarrow> string list" where
  "wanted_channels a c p =
     (if pref_or True np_email c p \<and> ac_email a \<noteq> [] then [''email''] else [])
     @ (if pref_or False np_sms c p \<and> truthy_str (ac_phone a) then [''sms''] else [])
     @ (if pref_or False np_whatsapp c p \<and> truthy_str (ac_phone a) then [''whatsapp''] else [])"

definition frequency_of :: "notice_prefs option \<Rightarrow> string" where
  "frequency_of p = (case p of None \<Rightarrow> ''realtime'' | Some p \<Rightarrow> the (str_or (np_frequency p) (Some ''realtime'')))"

definition notifyUser :: "notice_env \<Rightarrow> account \<Rightarrow> string \<Rightarrow> string \<Rightarrow> string \<Rightarrow> string \<Rightarrow> notice_world \<Rightarrow> notice_world" where
  "notifyUser en a kind title body c W =
     (if ac_id a = [] \<or> title = [] then W
      else let W1 = notify en (ac_id a) kind title body W;
               p = (if nv_prefs en then nw_prefs W (ac_id a) else None);
               chs = wanted_channels a c p
           in case FREQUENCY_INTERVAL_MS (frequency_of p) of
                None \<Rightarrow> fold (\<lambda>ch. dispatchChannel en ch a title body) chs W1
              | Some t \<Rightarrow>
                  if chs = [] \<or> \<not> nv_queue en then W1
                  else W1\<lparr>nw_queue := nw_queue W1 @ map (\<lambda>ch. \<lparr>qn_id = nv_queueId en ch, qn_user = ac_id a, qn_channel = ch, qn_kind = kind,
                         qn_title = title, qn_body = body, qn_flushAfter = nv_now en + t, qn_createdAt = nv_now en\<rparr>) chs\<rparr>)"

section \<open>The digest\<close>

definition CHANNELS :: "string list" where "CHANNELS = [''email'', ''sms'', ''whatsapp'']"

definition numbered :: "nat \<Rightarrow> queued_notice \<Rightarrow> string" where
  "numbered i q = show_nat i @ ''. '' @ qn_title q @ (if qn_body q = [] then [] else dash @ qn_body q)"

fun join_lines :: "nat \<Rightarrow> queued_notice list \<Rightarrow> string" where
  "join_lines i [] = []"
| "join_lines i [q] = numbered i q"
| "join_lines i (q # r # qs) = numbered i q @ [CHR 0x0A] @ join_lines (Suc i) (r # qs)"

fun buildDigestBody :: "queued_notice list \<Rightarrow> string" where
  "buildDigestBody [q] = (if qn_body q = [] then qn_title q else qn_body q)"
| "buildDigestBody qs = ''You have '' @ show_nat (length qs) @ '' new notifications:'' @ [CHR 0x0A] @ join_lines 1 qs"

fun buildDigestSubject :: "queued_notice list \<Rightarrow> string" where
  "buildDigestSubject [q] = qn_title q"
| "buildDigestSubject qs = ''You have '' @ show_nat (length qs) @ '' new notifications''"

definition notice_key :: "queued_notice \<Rightarrow> string \<times> string" where
  "notice_key q = (qn_user q, qn_channel q)"

definition due_notices :: "int \<Rightarrow> queued_notice list \<Rightarrow> queued_notice list" where
  "due_notices now qs = sort_key qn_createdAt (filter (\<lambda>q. qn_flushAfter q \<le> now) qs)"

text \<open>The groups, in the order in which their first entries come.\<close>

fun first_keys :: "(string \<times> string) list \<Rightarrow> (string \<times> string) list" where
  "first_keys [] = []"
| "first_keys (k # ks) = k # filter (\<lambda>j. j \<noteq> k) (first_keys ks)"

definition groups_of :: "queued_notice list \<Rightarrow> ((string \<times> string) \<times> queued_notice list) list" where
  "groups_of due = map (\<lambda>k. (k, filter (\<lambda>q. notice_key q = k) due)) (first_keys (map notice_key due))"

record digest_stats =
  ds_flushed :: nat
  ds_sent :: nat
  ds_failed :: nat

definition delete_entries :: "queued_notice list \<Rightarrow> notice_world \<Rightarrow> notice_world" where
  "delete_entries qs W = W\<lparr>nw_queue := filter (\<lambda>q. qn_id q \<notin> qn_id ` set qs) (nw_queue W)\<rparr>"

definition group_destination :: "notice_env \<Rightarrow> string \<times> string \<Rightarrow> notice_world \<Rightarrow> string option" where
  "group_destination en k W =
     (if \<not> nv_load en (fst k) then None
      else Option.bind (account_of (fst k) (ch_auth (nw_chat W))) (destination (snd k)))"

text \<open>
  One group: no account or no destination drops its entries, a message that was taken deletes them, one that was not
  leaves them. A deletion that fails ends the run.
\<close>

definition flush_group ::
  "notice_env \<Rightarrow> (string \<times> string) \<times> queued_notice list \<Rightarrow> digest_stats \<Rightarrow> notice_world \<Rightarrow> digest_stats option \<times> notice_world" where
  "flush_group en g st W =
     (case g of (k, qs) \<Rightarrow>
        if snd k \<notin> set CHANNELS \<or> group_destination en k W = None then
          (if nv_delete en k then (Some st, delete_entries qs W) else (None, W))
        else (case sendGroup en (snd k) (the (group_destination en k W)) (buildDigestSubject qs) (buildDigestBody qs) W of
                (True, W1) \<Rightarrow>
                  if nv_delete en k then (Some (st\<lparr>ds_sent := ds_sent st + 1, ds_flushed := ds_flushed st + length qs\<rparr>), delete_entries qs W1)
                  else (None, W1)
              | (False, W1) \<Rightarrow> (Some (st\<lparr>ds_failed := ds_failed st + 1, ds_flushed := ds_flushed st + length qs\<rparr>), W1)))"

fun flush_groups ::
  "notice_env \<Rightarrow> ((string \<times> string) \<times> queued_notice list) list \<Rightarrow> digest_stats \<Rightarrow> notice_world \<Rightarrow> digest_stats option \<times> notice_world" where
  "flush_groups en [] st W = (Some st, W)"
| "flush_groups en (g # gs) st W =
     (case flush_group en g st W of (None, W1) \<Rightarrow> (None, W1) | (Some st1, W1) \<Rightarrow> flush_groups en gs st1 W1)"

definition flushDueDigests :: "notice_env \<Rightarrow> notice_world \<Rightarrow> digest_stats option \<times> notice_world" where
  "flushDueDigests en W =
     flush_groups en (groups_of (due_notices (nv_now en) (nw_queue W))) \<lparr>ds_flushed = 0, ds_sent = 0, ds_failed = 0\<rparr> W"

section \<open>The routes\<close>

definition listNotices :: "string \<Rightarrow> notice_world \<Rightarrow> notice list" where
  "listNotices u W = take 100 (sort_key (\<lambda>n. - nt_createdAt n) (filter (\<lambda>n. nt_user n = u) (nw_notices W)))"

definition markNoticeRead :: "string \<Rightarrow> string \<Rightarrow> notice_world \<Rightarrow> bool \<times> notice_world" where
  "markNoticeRead u i W =
     (case coll_find (\<lambda>n. nt_id n = i \<and> nt_user n = u) (nw_notices W) of
        None \<Rightarrow> (False, W)
      | Some n \<Rightarrow> (True, W\<lparr>nw_notices := coll_put nt_id (n\<lparr>nt_read := True\<rparr>) (nw_notices W)\<rparr>))"

definition markAllNoticesRead :: "string \<Rightarrow> notice_world \<Rightarrow> notice_world" where
  "markAllNoticesRead u W = W\<lparr>nw_notices := map (\<lambda>n. if nt_user n = u \<and> \<not> nt_read n then n\<lparr>nt_read := True\<rparr> else n) (nw_notices W)\<rparr>"

definition TEST_TITLE :: string where "TEST_TITLE = ''MallChain test notification''"
definition TEST_BODY :: string where "TEST_BODY = ''If you received this, your notification channel is working correctly.''"

text \<open>The test: the answer says for each channel whether its provider took the message.\<close>

definition testNotification :: "notice_env \<Rightarrow> string \<Rightarrow> notice_world \<Rightarrow> (bool \<times> bool \<times> bool) option \<times> notice_world" where
  "testNotification en u W =
     (case account_of u (ch_auth (nw_chat W)) of
        None \<Rightarrow> (None, W)
      | Some a \<Rightarrow>
          let go = (\<lambda>ch V. case destination ch a of None \<Rightarrow> (False, V) | Some d \<Rightarrow> sendGroup en ch d TEST_TITLE TEST_BODY V)
          in case go ''email'' W of (e, W1) \<Rightarrow> (case go ''sms'' W1 of (s, W2) \<Rightarrow> (case go ''whatsapp'' W2 of (w, W3) \<Rightarrow> (Some (e, s, w), W3))))"

section \<open>What a run of the digest does\<close>

lemma first_keys_set [simp]: "set (first_keys ks) = set ks"
  by (induction ks) auto

lemma groups_members: "(k, qs) \<in> set (groups_of due) \<longleftrightarrow> k \<in> notice_key ` set due \<and> qs = filter (\<lambda>q. notice_key q = k) due"
  by (auto simp: groups_of_def)

lemma group_member: "g \<in> set (groups_of due) \<Longrightarrow> \<exists>k. g = (k, filter (\<lambda>q. notice_key q = k) due)"
  by (auto simp: groups_of_def)

lemma due_set [simp]: "set (due_notices now qs) = {q \<in> set qs. qn_flushAfter q \<le> now}"
  by (auto simp: due_notices_def)

definition group_notices :: "int \<Rightarrow> notice_world \<Rightarrow> string \<times> string \<Rightarrow> queued_notice list" where
  "group_notices now W k = filter (\<lambda>q. notice_key q = k) (due_notices now (nw_queue W))"

definition digest_message :: "notice_env \<Rightarrow> notice_world \<Rightarrow> (string \<times> string) \<times> queued_notice list \<Rightarrow> sent_notice" where
  "digest_message en W g = (case g of (k, qs) \<Rightarrow>
     channel_message (snd k) (the (group_destination en k W)) (buildDigestSubject qs) (buildDigestBody qs))"

definition group_sendable :: "notice_env \<Rightarrow> notice_world \<Rightarrow> (string \<times> string) \<times> queued_notice list \<Rightarrow> bool" where
  "group_sendable en W g \<longleftrightarrow> snd (fst g) \<in> set CHANNELS \<and> group_destination en (fst g) W \<noteq> None"

definition group_taken :: "notice_env \<Rightarrow> notice_world \<Rightarrow> (string \<times> string) \<times> queued_notice list \<Rightarrow> bool" where
  "group_taken en W g \<longleftrightarrow> group_sendable en W g
     \<and> \<not> (snd (fst g) = ''email'' \<and> buildDigestSubject (snd g) = []) \<and> nv_provider en (digest_message en W g)"

lemma destination_some: "destination ch a = Some d \<Longrightarrow> d \<noteq> []"
  by (auto simp: destination_def truthy_str_def split: if_splits)

lemma group_destination_some: "group_destination en k W = Some d \<Longrightarrow> d \<noteq> []"
  by (auto simp: group_destination_def bind_eq_Some_conv dest: destination_some split: if_splits)

lemma flush_group_taken:
  assumes "group_taken en W g" "nv_delete en (fst g)"
  shows "\<exists>st'. flush_group en g st W = (Some st', delete_entries (snd g) (W\<lparr>nw_sent := nw_sent W @ [digest_message en W g]\<rparr>))"
  using assms by (cases g)
    (auto simp: flush_group_def group_taken_def group_sendable_def sendGroup_def provider_send_def digest_message_def dest: group_destination_some)

lemma flush_group_dropped:
  assumes "\<not> group_sendable en W g" "nv_delete en (fst g)"
  shows "flush_group en g st W = (Some st, delete_entries (snd g) W)"
  using assms by (cases g) (auto simp: flush_group_def group_sendable_def)

lemma flush_group_kept:
  assumes "group_sendable en W g" "\<not> group_taken en W g"
  shows "\<exists>st'. flush_group en g st W = (Some st', W)"
  using assms by (cases g)
    (auto simp: flush_group_def group_taken_def group_sendable_def sendGroup_def provider_send_def digest_message_def)

text \<open>The groups are judged by the accounts, which a run does not touch.\<close>

lemma judged_alike:
  assumes "nw_chat W' = nw_chat W"
  shows "group_destination en k W' = group_destination en k W" "digest_message en W' g = digest_message en W g"
    "group_sendable en W' g = group_sendable en W g" "group_taken en W' g = group_taken en W g"
  by (simp_all add: group_destination_def digest_message_def group_sendable_def group_taken_def assms split: prod.split)

lemma delete_entries_frame [simp]:
  "nw_chat (delete_entries qs W) = nw_chat W" "nw_sent (delete_entries qs W) = nw_sent W"
  "nw_queue (delete_entries qs W) = filter (\<lambda>q. qn_id q \<notin> qn_id ` set qs) (nw_queue W)"
  by (simp_all add: delete_entries_def)

definition leaves :: "notice_env \<Rightarrow> notice_world \<Rightarrow> (string \<times> string) \<times> queued_notice list \<Rightarrow> bool" where
  "leaves en W g \<longleftrightarrow> group_taken en W g \<or> \<not> group_sendable en W g"

lemma leaves_alike: "nw_chat W' = nw_chat W \<Longrightarrow> leaves en W' g = leaves en W g"
  unfolding leaves_def by (simp only: judged_alike(3,4) [of W' W])

lemma flush_groups_result:
  assumes "\<forall>k. nv_delete en k"
  shows "\<exists>st' W'. flush_groups en gs st W = (Some st', W') \<and> nw_chat W' = nw_chat W
     \<and> nw_queue W' = filter (\<lambda>q. \<forall>g \<in> set gs. leaves en W g \<longrightarrow> qn_id q \<notin> qn_id ` set (snd g)) (nw_queue W)
     \<and> nw_sent W' = nw_sent W @ map (digest_message en W) (filter (group_taken en W) gs)"
proof (induction gs arbitrary: st W)
  case (Cons g gs)
  obtain st1 W1 where one: "flush_group en g st W = (Some st1, W1)" and chat: "nw_chat W1 = nw_chat W"
    and q: "nw_queue W1 = filter (\<lambda>q. leaves en W g \<longrightarrow> qn_id q \<notin> qn_id ` set (snd g)) (nw_queue W)"
    and sent: "nw_sent W1 = nw_sent W @ (if group_taken en W g then [digest_message en W g] else [])"
  proof (cases "group_taken en W g")
    case True
    then show ?thesis using that flush_group_taken [OF True, of st] assms by (fastforce simp: leaves_def)
  next
    case False
    show ?thesis
    proof (cases "group_sendable en W g")
      case True
      with False show ?thesis using that flush_group_kept [OF True False, of st] by (auto simp: leaves_def)
    next
      case no: False
      with False show ?thesis using that flush_group_dropped [OF no, of st] assms by (fastforce simp: leaves_def)
    qed
  qed
  obtain st' W' where rest: "flush_groups en gs st1 W1 = (Some st', W')" "nw_chat W' = nw_chat W1"
    "nw_queue W' = filter (\<lambda>q. \<forall>g \<in> set gs. leaves en W1 g \<longrightarrow> qn_id q \<notin> qn_id ` set (snd g)) (nw_queue W1)"
    "nw_sent W' = nw_sent W1 @ map (digest_message en W1) (filter (group_taken en W1) gs)"
    using Cons.IH [of st1 W1] by blast
  have t: "group_taken en W1 = group_taken en W" "digest_message en W1 = digest_message en W" "leaves en W1 = leaves en W"
    using judged_alike [OF chat] leaves_alike [OF chat] by auto
  show ?case using one rest chat q sent by (auto simp: t intro!: filter_cong)
qed simp

definition group_left :: "notice_env \<Rightarrow> notice_world \<Rightarrow> string \<times> string \<Rightarrow> bool" where
  "group_left en W k \<longleftrightarrow> \<not> leaves en W (k, group_notices (nv_now en) W k)"

lemma removed_iff:
  assumes "distinct (map qn_id (nw_queue W))" "q \<in> set (nw_queue W)"
  shows "(\<forall>g \<in> set (groups_of (due_notices (nv_now en) (nw_queue W))). leaves en W g \<longrightarrow> qn_id q \<notin> qn_id ` set (snd g))
     \<longleftrightarrow> nv_now en < qn_flushAfter q \<or> group_left en W (notice_key q)" (is "?L \<longleftrightarrow> ?R")
proof
  let ?due = "due_notices (nv_now en) (nw_queue W)"
  let ?g = "(notice_key q, group_notices (nv_now en) W (notice_key q))"
  show ?R if ?L
  proof (rule disjCI)
    assume "\<not> group_left en W (notice_key q)"
    then have l: "leaves en W ?g" by (simp add: group_left_def)
    show "nv_now en < qn_flushAfter q"
    proof (rule ccontr)
      assume "\<not> nv_now en < qn_flushAfter q"
      with assms(2) have "q \<in> set ?due" by simp
      then have "?g \<in> set (groups_of ?due)" "q \<in> set (snd ?g)" by (auto simp: groups_members group_notices_def)
      with l that show False by blast
    qed
  qed
  show ?L if ?R
  proof (intro ballI impI notI)
    fix g assume g: "g \<in> set (groups_of ?due)" "leaves en W g" "qn_id q \<in> qn_id ` set (snd g)"
    then obtain k where k: "g = (k, group_notices (nv_now en) W k)" using group_member [OF g(1)] by (auto simp: group_notices_def)
    from g(3) k obtain r where r: "r \<in> set (nw_queue W)" "qn_flushAfter r \<le> nv_now en" "notice_key r = k" "qn_id r = qn_id q"
      by (auto simp: group_notices_def)
    have "r = q" using assms r by (auto simp: distinct_map dest: inj_onD)
    with that g(2) k r(2,3) show False by (auto simp: group_left_def)
  qed
qed

text \<open>Two accounts with email; one of them with a daily digest.\<close>

definition demo_queued :: "string \<Rightarrow> int \<Rightarrow> queued_notice" where
  "demo_queued i t = \<lparr>qn_id = i, qn_user = ''u1'', qn_channel = ''email'', qn_kind = ''system'', qn_title = ''T'' @ i, qn_body = ''B'',
     qn_flushAfter = t, qn_createdAt = t - 10\<rparr>"

definition demo_notices :: notice_world where
  "demo_notices = \<lparr>nw_chat = demo_chat, nw_notices = [], nw_queue = [demo_queued ''1'' 20, demo_queued ''2'' 30, demo_queued ''3'' 99],
     nw_prefs = (\<lambda>_. None), nw_sent = [], nw_live = []\<rparr>"

definition demo_notice_env :: notice_env where
  "demo_notice_env = \<lparr>nv_now = 50, nv_id = ''n1'', nv_queueId = (\<lambda>ch. ''q-'' @ ch), nv_create = True, nv_prefs = True, nv_queue = True,
     nv_load = (\<lambda>_. True), nv_delete = (\<lambda>_. True), nv_provider = (\<lambda>_. True)\<rparr>"

text \<open>
  C26: A run of the digest leaves in the queue exactly what is not due and what a provider refused, and sends one message
  for each user and channel whose provider takes it, in the order of the oldest entries; deletions are taken to succeed.
\<close>

theorem digest_settles_what_is_due:
  assumes "distinct (map qn_id (nw_queue W))" "\<forall>k. nv_delete en k" "flushDueDigests en W = (r, W')"
  shows "nw_queue W' = filter (\<lambda>q. nv_now en < qn_flushAfter q \<or> group_left en W (notice_key q)) (nw_queue W)
     \<and> nw_sent W' = nw_sent W @ map (digest_message en W) (filter (group_taken en W) (groups_of (due_notices (nv_now en) (nw_queue W))))"
proof -
  have q: "nw_queue W' = filter (\<lambda>q. \<forall>g \<in> set (groups_of (due_notices (nv_now en) (nw_queue W))). leaves en W g \<longrightarrow> qn_id q \<notin> qn_id ` set (snd g)) (nw_queue W)"
    and s: "nw_sent W' = nw_sent W @ map (digest_message en W) (filter (group_taken en W) (groups_of (due_notices (nv_now en) (nw_queue W))))"
    using flush_groups_result [OF assms(2), of "groups_of (due_notices (nv_now en) (nw_queue W))" "\<lparr>ds_flushed = 0, ds_sent = 0, ds_failed = 0\<rparr>" W]
      assms(3) by (auto simp: flushDueDigests_def)
  have "nw_queue W' = filter (\<lambda>q. nv_now en < qn_flushAfter q \<or> group_left en W (notice_key q)) (nw_queue W)"
    unfolding q by (rule filter_cong [OF refl]) (rule removed_iff [OF assms(1)])
  with s show ?thesis by blast
qed

lemma demo_email_account: "account_of ''u1'' demo_auth_world = Some (demo_user ''u1'' RoleUser)" "ac_email (demo_user ''u1'' RoleUser) = ''u1@x.y''"
  by (simp_all add: account_of_def demo_auth_world_def demo_user_def new_account_def)

lemma demo_due: "due_notices 50 (nw_queue demo_notices) = [demo_queued ''1'' 20, demo_queued ''2'' 30]"
  by (simp add: due_notices_def demo_notices_def demo_queued_def)

lemma digest_settles_what_is_due_witness:
  "\<exists>r W'. flushDueDigests demo_notice_env demo_notices = (r, W') \<and> nw_queue W' = [demo_queued ''3'' 99] \<and> length (nw_sent W') = 1"
proof -
  obtain r W' where f: "flushDueDigests demo_notice_env demo_notices = (r, W')" by fastforce
  have n: "nv_now demo_notice_env = 50" "nv_load demo_notice_env u" "nv_provider demo_notice_env m" "nv_delete demo_notice_env k" for u m k
    by (simp_all add: demo_notice_env_def)
  have g: "groups_of [demo_queued ''1'' 20, demo_queued ''2'' 30] = [((''u1'', ''email''), [demo_queued ''1'' 20, demo_queued ''2'' 30])]"
    by (simp add: groups_of_def notice_key_def demo_queued_def)
  have t: "group_taken demo_notice_env demo_notices ((''u1'', ''email''), [demo_queued ''1'' 20, demo_queued ''2'' 30])"
    by (simp add: group_taken_def group_sendable_def CHANNELS_def group_destination_def n demo_notices_def demo_chat_def demo_email_account destination_def)
  have l: "\<not> group_left demo_notice_env demo_notices (''u1'', ''email'')"
    using t by (simp add: group_left_def leaves_def group_notices_def n demo_due notice_key_def demo_queued_def)
  have d: "distinct (map qn_id (nw_queue demo_notices))" by (simp add: demo_notices_def demo_queued_def)
  have queue: "nw_queue demo_notices = [demo_queued ''1'' 20, demo_queued ''2'' 30, demo_queued ''3'' 99]" "nw_sent demo_notices = []"
    by (simp_all add: demo_notices_def)
  have after: "qn_flushAfter (demo_queued i x) = x" for i x by (simp add: demo_queued_def)
  have k: "notice_key (demo_queued i x) = (''u1'', ''email'')" for i x by (simp add: notice_key_def demo_queued_def)
  show ?thesis
    using digest_settles_what_is_due [OF d _ f] f t l
    by (simp add: n demo_due [unfolded queue] g queue k after)
qed

text \<open>Every notice of a group is named in its message.\<close>

lemma numbered_named: "\<exists>xs ys. numbered i q = xs @ qn_title q @ ys"
  by (rule exI [of _ "show_nat i @ ''. ''"], rule exI [of _ "if qn_body q = [] then [] else dash @ qn_body q"]) (simp add: numbered_def)

lemma line_named: "q \<in> set qs \<Longrightarrow> \<exists>xs ys. join_lines i qs = xs @ qn_title q @ ys"
proof (induction i qs rule: join_lines.induct)
  case (2 i r)
  then show ?case using numbered_named by simp
next
  case (3 i r t ts)
  show ?case
  proof (cases "q = r")
    case True
    obtain xs ys where "numbered i r = xs @ qn_title r @ ys" using numbered_named by blast
    then show ?thesis using True by (intro exI [of _ xs] exI [of _ "ys @ [CHR 0x0A] @ join_lines (Suc i) (t # ts)"]) simp
  next
    case False
    with 3 obtain xs ys where "join_lines (Suc i) (t # ts) = xs @ qn_title q @ ys" by auto
    then show ?thesis by (intro exI [of _ "numbered i r @ [CHR 0x0A] @ xs"] exI [of _ ys]) simp
  qed
qed simp

text \<open>
  The message of a group names every notice of the group: its title stands in the subject or in the text.
\<close>

theorem digest_names_every_notice:
  assumes "q \<in> set qs"
  shows "\<exists>xs ys. sn_text (digest_message en W (k, qs)) = xs @ qn_title q @ ys
     \<or> sn_subject (digest_message en W (k, qs)) = Some (xs @ qn_title q @ ys)"
proof (cases "\<exists>r. qs = [r]")
  case True
  with assms have e: "qs = [q]" by auto
  have "\<exists>ys. qn_title q @ dash @ buildDigestBody qs = [] @ qn_title q @ ys" "\<exists>ys. qn_title q @ [CHR 0x0A] @ buildDigestBody qs = [] @ qn_title q @ ys"
    by auto
  then show ?thesis unfolding digest_message_def channel_message_def e by (auto simp: split: if_splits) (metis append_Nil append_Nil2)+
next
  case False
  then obtain r t ts where e: "qs = r # t # ts" using assms by (cases qs rule: buildDigestBody.cases) auto
  obtain xs ys where l: "join_lines 1 qs = xs @ qn_title q @ ys" using line_named [OF assms] by blast
  have b: "\<exists>pre. buildDigestBody qs = pre @ qn_title q @ ys" by (rule exI [of _ "''You have '' @ show_nat (length qs) @ '' new notifications:'' @ [CHR 0x0A] @ xs"]) (use l in \<open>simp add: e\<close>)
  then obtain pre where b: "buildDigestBody qs = pre @ qn_title q @ ys" by blast
  have "\<exists>pre. sn_text (digest_message en W (k, qs)) = pre @ qn_title q @ ys"
    by (simp add: digest_message_def channel_message_def b)
  then show ?thesis by blast
qed

lemma digest_names_every_notice_witness:
  "\<exists>xs ys. sn_text (digest_message demo_notice_env demo_notices ((''u1'', ''sms''), [demo_queued ''1'' 20])) = xs @ ''T1'' @ ys
     \<or> sn_subject (digest_message demo_notice_env demo_notices ((''u1'', ''sms''), [demo_queued ''1'' 20])) = Some (xs @ ''T1'' @ ys)"
  using digest_names_every_notice [of "demo_queued ''1'' 20" "[demo_queued ''1'' 20]" demo_notice_env demo_notices "(''u1'', ''sms'')"]
  by (simp add: demo_queued_def)

text \<open>
  While the accounts cannot be read a run of the digest sends nothing and deletes everything that is due: a failed
  read is taken for an account without a destination.
\<close>

theorem failed_read_drops_the_digest:
  assumes "\<forall>u. \<not> nv_load en u" "distinct (map qn_id (nw_queue W))" "\<forall>k. nv_delete en k" "flushDueDigests en W = (r, W')"
  shows "nw_sent W' = nw_sent W \<and> nw_queue W' = filter (\<lambda>q. nv_now en < qn_flushAfter q) (nw_queue W)"
proof -
  have n: "\<not> group_sendable en W g" for g using assms(1) by (simp add: group_sendable_def group_destination_def)
  then have "\<not> group_taken en W g" "leaves en W g" for g by (simp_all add: group_taken_def leaves_def)
  moreover have "nw_queue W' = filter (\<lambda>q. \<forall>g \<in> set (groups_of (due_notices (nv_now en) (nw_queue W))). leaves en W g \<longrightarrow> qn_id q \<notin> qn_id ` set (snd g)) (nw_queue W)"
    "nw_sent W' = nw_sent W @ map (digest_message en W) (filter (group_taken en W) (groups_of (due_notices (nv_now en) (nw_queue W))))"
    using flush_groups_result [OF assms(3), of "groups_of (due_notices (nv_now en) (nw_queue W))" "\<lparr>ds_flushed = 0, ds_sent = 0, ds_failed = 0\<rparr>" W]
      assms(4) by (auto simp: flushDueDigests_def)
  moreover have "filter (\<lambda>q. \<forall>g \<in> set (groups_of (due_notices (nv_now en) (nw_queue W))). leaves en W g \<longrightarrow> qn_id q \<notin> qn_id ` set (snd g)) (nw_queue W)
      = filter (\<lambda>q. nv_now en < qn_flushAfter q) (nw_queue W)"
    by (rule filter_cong [OF refl]) (use removed_iff [OF assms(2), of _ en] calculation(2) in \<open>auto simp: group_left_def\<close>)
  ultimately show ?thesis by simp
qed

lemma failed_read_drops_the_digest_witness:
  "\<exists>r W'. flushDueDigests (demo_notice_env\<lparr>nv_load := \<lambda>_. False\<rparr>) demo_notices = (r, W') \<and> nw_sent W' = [] \<and> nw_queue W' = [demo_queued ''3'' 99]"
proof -
  obtain r W' where f: "flushDueDigests (demo_notice_env\<lparr>nv_load := \<lambda>_. False\<rparr>) demo_notices = (r, W')" by fastforce
  have "nw_sent W' = nw_sent demo_notices
     \<and> nw_queue W' = filter (\<lambda>q. nv_now (demo_notice_env\<lparr>nv_load := \<lambda>_. False\<rparr>) < qn_flushAfter q) (nw_queue demo_notices)"
    by (rule failed_read_drops_the_digest [OF _ _ _ f]) (simp_all add: demo_notice_env_def demo_notices_def demo_queued_def)
  with f show ?thesis by (simp add: demo_notice_env_def demo_notices_def demo_queued_def)
qed

section \<open>Telling a user\<close>

definition demo_daily :: notice_world where
  "demo_daily = demo_notices\<lparr>nw_prefs := \<lambda>_. Some \<lparr>np_email = \<lambda>_. None, np_sms = \<lambda>_. None, np_whatsapp = \<lambda>_. None, np_frequency = Some ''daily''\<rparr>\<rparr>"

lemma dispatch_frame: "nw_notices (dispatchChannel en ch a t b W) = nw_notices W" "nw_live (dispatchChannel en ch a t b W) = nw_live W"
  "nw_queue (dispatchChannel en ch a t b W) = nw_queue W"
  by (simp_all add: dispatchChannel_def sendGroup_def provider_send_def split: option.split)

lemma dispatch_all_frame:
  "nw_notices (fold (\<lambda>ch. dispatchChannel en ch a t b) chs W) = nw_notices W \<and> nw_live (fold (\<lambda>ch. dispatchChannel en ch a t b) chs W) = nw_live W"
  by (induction chs arbitrary: W) (simp_all add: dispatch_frame)

lemma told_live:
  assumes "(s, n) \<in> set (nw_live (notifyUser en a kind t b c W))" "(s, n) \<notin> set (nw_live W)"
  shows "nt_user n = ac_id a \<and> s \<in> set (ch_sockets (nw_chat W)) \<and> UserRoom (ac_id a) \<in> set (so_rooms s)"
proof -
  have "set (nw_live (notifyUser en a kind t b c W)) \<subseteq> set (nw_live (notify en (ac_id a) kind t b W)) \<union> set (nw_live W)"
    by (auto simp: notifyUser_def Let_def dispatch_all_frame split: option.splits if_splits)
  with assms have "(s, n) \<in> set (nw_live (notify en (ac_id a) kind t b W))" by blast
  with assms(2) show ?thesis by (auto simp: notify_def Let_def split: if_splits)
qed

text \<open>
  A notice is pushed only to sockets that connected as the user it is for, whatever has happened to the sockets and
  conversations before.
\<close>

theorem notices_reach_their_user:
  assumes "chat_step\<^sup>*\<^sup>* C (nw_chat W)" "ch_sockets C = []" "ch_messages C = []" "ch_pushed C = []"
    "(s, n) \<in> set (nw_live (notifyUser en a kind t b c W))" "(s, n) \<notin> set (nw_live W)"
  shows "so_user s = Some (nt_user n) \<and> nt_user n = ac_id a"
proof -
  have "chat_ok (nw_chat W)" by (rule chat_invariant [OF assms(1)]) (simp add: chat_ok_def assms(2-4))
  with told_live [OF assms(5,6)] have "room_earned (nw_chat W) s (UserRoom (ac_id a))" by (auto simp: chat_ok_def socket_ok_def)
  with told_live [OF assms(5,6)] show ?thesis by (simp add: room_earned_def)
qed

text \<open>
  A user who asked for a digest gets the copy inside the application at once and nothing by any provider; each channel
  he wants and can be reached on is queued once, to be sent after the hour or the day.
\<close>

theorem digest_holds_the_copies:
  assumes "ac_id a \<noteq> []" "t \<noteq> []" "nv_create en" "nv_prefs en" "nv_queue en"
    "FREQUENCY_INTERVAL_MS (frequency_of (nw_prefs W (ac_id a))) = Some iv"
  shows "nw_sent (notifyUser en a kind t b c W) = nw_sent W"
    "\<exists>n. nw_notices (notifyUser en a kind t b c W) = nw_notices W @ [n] \<and> nt_user n = ac_id a \<and> nt_title n = t \<and> \<not> nt_read n"
    "\<exists>qs. nw_queue (notifyUser en a kind t b c W) = nw_queue W @ qs \<and> map qn_channel qs = wanted_channels a c (nw_prefs W (ac_id a))
       \<and> (\<forall>q \<in> set qs. qn_user q = ac_id a \<and> qn_title q = t \<and> qn_flushAfter q = nv_now en + iv)"
  using assms by (auto simp: notifyUser_def notify_def Let_def comp_def)

definition demo_feed_env :: auth_env where
  "demo_feed_env = (demo_auth 5000)\<lparr>au_verify := \<lambda>_ _. Some ((demo_claims ''u1'')\<lparr>cl_userId := Some demo_key\<rparr>)\<rparr>"

definition demo_feed :: chat_world where
  "demo_feed = subscribe ''s1'' (SubUser demo_key) (connect demo_feed_env ''s1'' (Some ''u1'') None demo_chat)"

lemma demo_feed_reached: "chat_step\<^sup>*\<^sup>* demo_chat demo_feed"
  unfolding demo_feed_def
  by (rule rtranclp.rtrancl_into_rtrancl [OF r_into_rtranclp]) (rule chat_step.step_connect, rule chat_step.step_subscribe)

lemma demo_feed_room: "\<exists>s \<in> set (ch_sockets demo_feed). UserRoom demo_key \<in> set (so_rooms s)"
proof -
  have "demo_key \<noteq> []" by (simp add: demo_key_def)
  then have "socket_user demo_feed_env (Some ''u1'') None = Some demo_key"
    by (simp add: socket_user_def demo_feed_env_def demo_auth_def demo_claims_def)
  with subscribed_user [of "''s1''" demo_chat demo_feed_env "Some ''u1''" None demo_key] demo_talk_id(1)
  show ?thesis by (auto simp: demo_feed_def demo_chat_def)
qed

lemma notices_reach_their_user_witness:
  "\<exists>s n. (s, n) \<in> set (nw_live (notifyUser demo_notice_env (demo_user demo_key RoleUser) ''system'' ''Hi'' [] ''security''
     (demo_notices\<lparr>nw_chat := demo_feed\<rparr>))) \<and> so_user s = Some demo_key"
proof -
  define W where "W = demo_notices\<lparr>nw_chat := demo_feed\<rparr>"
  define n where "n = \<lparr>nt_id = ''n1'', nt_user = demo_key, nt_kind = ''system'', nt_title = ''Hi'', nt_body = [], nt_read = False, nt_createdAt = (50 :: int)\<rparr>"
  obtain s where s: "s \<in> set (ch_sockets demo_feed)" "UserRoom demo_key \<in> set (so_rooms s)" using demo_feed_room by blast
  have u: "ac_id (demo_user demo_key RoleUser) = demo_key" "demo_key \<noteq> []" by (simp_all add: demo_user_def demo_key_def)
  have i: "(s, n) \<in> set (nw_live (notifyUser demo_notice_env (demo_user demo_key RoleUser) ''system'' ''Hi'' [] ''security'' W))"
    using s u by (simp add: notifyUser_def Let_def dispatch_all_frame notify_def demo_notice_env_def W_def demo_notices_def n_def
        frequency_of_def FREQUENCY_INTERVAL_MS_def)
  have "so_user s = Some (nt_user n) \<and> nt_user n = ac_id (demo_user demo_key RoleUser)"
    by (rule notices_reach_their_user [OF _ _ _ _ i, of demo_chat]) (simp_all add: W_def demo_feed_reached demo_notices_def, simp_all add: demo_chat_def)
  with i show ?thesis by (auto simp: W_def u)
qed

lemma digest_holds_the_copies_witness:
  "\<exists>n. nw_notices (notifyUser demo_notice_env (demo_user ''u1'' RoleUser) ''system'' ''Hi'' [] ''security'' demo_daily) = [n] \<and> nt_title n = ''Hi''"
proof -
  have e: "ac_id (demo_user ''u1'' RoleUser) = ''u1''" by (simp add: demo_user_def)
  show ?thesis
    using digest_holds_the_copies(2) [of "demo_user ''u1'' RoleUser" "''Hi''" demo_notice_env demo_daily "24 * 60 * 60 * 1000" "''system''" "[]" "''security''"]
    by (simp add: e demo_notice_env_def demo_daily_def demo_notices_def frequency_of_def FREQUENCY_INTERVAL_MS_def) blast
qed

text \<open>The preferences hold the categories of the schema alone; the category of a withdrawal is not among them.\<close>

definition preference_categories :: "string list" where
  "preference_categories = [''transactions'', ''campaigns'', ''governance'', ''marketing'', ''security'', ''badgeAlerts'']"

definition schema_prefs :: "notice_prefs \<Rightarrow> bool" where
  "schema_prefs p \<longleftrightarrow> (\<forall>c. c \<notin> set preference_categories \<longrightarrow> np_email p c = None \<and> np_sms p c = None \<and> np_whatsapp p c = None)"

text \<open>
  No preference reaches the notices about withdrawals: they go by email to whoever has an address, and never by SMS
  or WhatsApp, since the preferences have no such category.
\<close>

theorem withdrawal_notices_ignore_preferences:
  assumes "\<forall>p. pr = Some p \<longrightarrow> schema_prefs p"
  shows "wanted_channels a ''withdrawals'' pr = (if ac_email a \<noteq> [] then [''email''] else [])"
proof -
  have c: "''withdrawals'' \<notin> set preference_categories" by (simp add: preference_categories_def)
  show ?thesis
    using assms c by (cases pr) (auto simp: wanted_channels_def pref_or_def schema_prefs_def)
qed

lemma withdrawal_notices_ignore_preferences_witness:
  "wanted_channels (demo_user ''u1'' RoleUser) ''withdrawals'' None = [''email'']"
  using withdrawal_notices_ignore_preferences [of None "demo_user ''u1'' RoleUser"] by (simp add: demo_email_account)

end
