(* ===== verification/ApiKeys.thy ===== *)
theory ApiKeys
  imports Messaging
begin

text \<open>
  Two kinds of keys in the header \<open>x-api-key\<close>: the keys of the server's configuration (\<open>middleware/apiKeyAuth.js\<close>), and
  those a developer makes for himself (\<open>routes/devhub.js\<close>, \<open>models/ApiKey.js\<close>). The random key of a new document is a
  parameter.
\<close>

section \<open>The keys of the configuration\<close>

fun split_comma :: "string \<Rightarrow> string list" where
  "split_comma [] = [[]]"
| "split_comma (c # s) = (if c = CHR '','' then [] # split_comma s else (case split_comma s of [] \<Rightarrow> [[c]] | p # ps \<Rightarrow> (c # p) # ps))"

text \<open>An absent variable is the empty text; parts that are blank are left out.\<close>

definition key_list :: "string option \<Rightarrow> string list" where
  "key_list raw = filter (\<lambda>k. k \<noteq> []) (map js_trim (split_comma (case raw of None \<Rightarrow> [] | Some s \<Rightarrow> s)))"

datatype key_resp = KeyMissing | KeyUnauthorized | KeyPasses nat bool

fun find_index :: "('a \<Rightarrow> bool) \<Rightarrow> 'a list \<Rightarrow> nat option" where
  "find_index p [] = None"
| "find_index p (x # xs) = (if p x then Some 0 else map_option Suc (find_index p xs))"

text \<open>The comparison in constant time is equality: the lengths are compared first.\<close>

definition buildKeyValidator :: "string option \<Rightarrow> string option list \<Rightarrow> bool \<Rightarrow> string option \<Rightarrow> key_resp" where
  "buildKeyValidator admin scope fallback got =
     (if \<not> truthy_str got then KeyMissing
      else case find_index (\<lambda>k. k = the got) (concat (map key_list scope)) of
             Some i \<Rightarrow> KeyPasses (i + 1) False
           | None \<Rightarrow>
               if \<not> fallback then KeyUnauthorized
               else (case find_index (\<lambda>k. k = the got) (key_list admin) of
                       Some i \<Rightarrow> KeyPasses (i + 1) True | None \<Rightarrow> KeyUnauthorized))"

definition adminApiKeyAuth :: "string option \<Rightarrow> string option \<Rightarrow> key_resp" where
  "adminApiKeyAuth admin = buildKeyValidator admin [admin] False"

definition metricsApiKeyAuth :: "string option \<Rightarrow> string option \<Rightarrow> string option \<Rightarrow> key_resp" where
  "metricsApiKeyAuth admin monitoring = buildKeyValidator admin [monitoring] True"

lemma find_index_none: "find_index p xs = None \<longleftrightarrow> (\<forall>x \<in> set xs. \<not> p x)"
  by (induction xs) auto

lemma find_index_some: "find_index p xs = Some i \<Longrightarrow> i < length xs \<and> p (xs ! i)"
  by (induction xs arbitrary: i) (auto split: if_splits)

lemma split_comma_ne [simp]: "split_comma s \<noteq> []"
  by (cases s) (auto split: list.splits)

text \<open>The keys of a variable: what stands between its commas, trimmed.\<close>

lemma split_comma_one: "CHR '','' \<notin> set k \<Longrightarrow> split_comma k = [k]"
  by (induction k) auto

lemma split_comma_append: "CHR '','' \<notin> set k \<Longrightarrow> split_comma (k @ CHR '','' # s) = k # split_comma s"
  by (induction k) auto

fun join_comma :: "string list \<Rightarrow> string" where
  "join_comma [] = []"
| "join_comma [k] = k"
| "join_comma (k # l # ls) = k @ CHR '','' # join_comma (l # ls)"

lemma split_join:
  assumes "ks \<noteq> []" "\<forall>k \<in> set ks. CHR '','' \<notin> set k"
  shows "split_comma (join_comma ks) = ks"
  using assms by (induction ks rule: join_comma.induct) (simp_all add: split_comma_one split_comma_append)

text \<open>
  The guard of the administrators' interface lets through exactly the keys written in its variable: separated by
  commas, without blanks around them; an empty variable or an empty header lets nobody through.
\<close>

theorem admin_key_is_one_of_the_configured:
  assumes "\<forall>k \<in> set ks. CHR '','' \<notin> set k \<and> k \<noteq> [] \<and> js_trim k = k"
  shows "(\<exists>i b. adminApiKeyAuth (Some (join_comma ks)) got = KeyPasses i b) \<longleftrightarrow> (\<exists>k \<in> set ks. got = Some k)"
proof -
  have l: "key_list (Some (join_comma ks)) = ks"
  proof (cases "ks = []")
    case False
    with assms have "split_comma (join_comma ks) = ks" by (intro split_join) auto
    with assms show ?thesis by (simp add: key_list_def map_idI)
  qed (simp add: key_list_def js_trim_def)
  show ?thesis
  proof (cases "truthy_str got")
    case True
    then show ?thesis
      using assms l find_index_none [of "\<lambda>k. k = the got" ks]
      by (cases got) (auto simp: adminApiKeyAuth_def buildKeyValidator_def truthy_str_def split: option.split)
  next
    case False
    then show ?thesis using assms by (auto simp: adminApiKeyAuth_def buildKeyValidator_def truthy_str_def)
  qed
qed

lemma admin_key_is_one_of_the_configured_witness:
  "\<exists>i b. adminApiKeyAuth (Some ''k1,k2'') (Some ''k2'') = KeyPasses i b"
proof -
  have "(\<exists>i b. adminApiKeyAuth (Some (join_comma [''k1'', ''k2''])) (Some ''k2'') = KeyPasses i b) \<longleftrightarrow> (\<exists>k \<in> set [''k1'', ''k2'']. Some ''k2'' = Some k)"
    by (rule admin_key_is_one_of_the_configured) (simp add: js_trim_def js_space_def)
  then show ?thesis by simp
qed

section \<open>The keys of a developer\<close>

record api_key =
  ak_id :: string
  ak_user :: string
  ak_name :: string
  ak_key :: string
  ak_permissions :: "string list"
  ak_used :: nat
  ak_created :: int
  ak_lastUsed :: "int option"
  ak_revoked :: bool
  ak_revokedAt :: "int option"

text \<open>The documents, and a count of the uses the server has answered for each key.\<close>

record key_world =
  kw_keys :: "api_key list"
  kw_answered :: "string \<Rightarrow> nat"

datatype hub_resp = HubBad | HubNotFound | HubUnauthorized | HubBroken | HubKey api_key | HubRevoked | HubValid string "string list" nat

fun hub_status :: "hub_resp \<Rightarrow> nat" where
  "hub_status HubBad = 400"
| "hub_status HubNotFound = 404"
| "hub_status HubUnauthorized = 401"
| "hub_status HubBroken = 500"
| "hub_status _ = 200"

definition listKeys :: "string \<Rightarrow> key_world \<Rightarrow> api_key list" where
  "listKeys u W = sort_key (\<lambda>k. - ak_created k) (filter (\<lambda>k. ak_user k = u \<and> \<not> ak_revoked k) (kw_keys W))"

text \<open>Keys are unique: a second one with the same text is refused by the database.\<close>

definition createKey :: "int \<Rightarrow> string \<Rightarrow> string \<Rightarrow> string \<Rightarrow> string option \<Rightarrow> string list option \<Rightarrow> key_world \<Rightarrow> hub_resp \<times> key_world" where
  "createKey now newId key u nm perms W =
     (if \<not> truthy_str nm then (HubBad, W)
      else if key \<in> ak_key ` set (kw_keys W) then (HubBroken, W)
      else let k = \<lparr>ak_id = newId, ak_user = u, ak_name = the nm, ak_key = key,
                    ak_permissions = (case perms of None \<Rightarrow> [''read''] | Some p \<Rightarrow> p), ak_used = 0, ak_created = now, ak_lastUsed = None,
                    ak_revoked = False, ak_revokedAt = None\<rparr>
           in (HubKey k, W\<lparr>kw_keys := kw_keys W @ [k]\<rparr>))"

definition update_key :: "(api_key \<Rightarrow> bool) \<Rightarrow> (api_key \<Rightarrow> api_key) \<Rightarrow> key_world \<Rightarrow> api_key option \<times> key_world" where
  "update_key q f W =
     (case coll_find q (kw_keys W) of
        None \<Rightarrow> (None, W) | Some k \<Rightarrow> (Some (f k), W\<lparr>kw_keys := coll_put ak_key (f k) (kw_keys W)\<rparr>))"

definition revokeKey :: "int \<Rightarrow> string \<Rightarrow> string \<Rightarrow> key_world \<Rightarrow> hub_resp \<times> key_world" where
  "revokeKey now u i W =
     (case update_key (\<lambda>k. ak_id k = i \<and> ak_user k = u) (\<lambda>k. k\<lparr>ak_revoked := True, ak_revokedAt := Some now\<rparr>) W of
        (None, W1) \<Rightarrow> (HubNotFound, W1) | (Some _, W1) \<Rightarrow> (HubRevoked, W1))"

definition testKey :: "int \<Rightarrow> string option \<Rightarrow> key_world \<Rightarrow> hub_resp \<times> key_world" where
  "testKey now key W =
     (if \<not> truthy_str key then (HubUnauthorized, W)
      else case update_key (\<lambda>k. ak_key k = the key \<and> \<not> ak_revoked k) (\<lambda>k. k\<lparr>ak_used := ak_used k + 1, ak_lastUsed := Some now\<rparr>) W of
        (None, W1) \<Rightarrow> (HubUnauthorized, W1)
      | (Some k, W1) \<Rightarrow> (HubValid (ak_name k) (ak_permissions k) (ak_used k),
                         W1\<lparr>kw_answered := (kw_answered W1)(the key := kw_answered W1 (the key) + 1)\<rparr>))"

definition updateKey :: "string \<Rightarrow> string \<Rightarrow> string option \<Rightarrow> string list option \<Rightarrow> key_world \<Rightarrow> hub_resp \<times> key_world" where
  "updateKey u i nm perms W =
     (case update_key (\<lambda>k. ak_id k = i \<and> ak_user k = u)
             (\<lambda>k. k\<lparr>ak_name := (if truthy_str nm then the nm else ak_name k), ak_permissions := (case perms of None \<Rightarrow> ak_permissions k | Some p \<Rightarrow> p)\<rparr>) W of
        (None, W1) \<Rightarrow> (HubNotFound, W1) | (Some k, W1) \<Rightarrow> (HubKey k, W1))"

record hub_usage =
  hu_total :: nat
  hu_active :: nat
  hu_keys :: nat

definition keyUsage :: "string \<Rightarrow> key_world \<Rightarrow> hub_usage" where
  "keyUsage u W =
     (let ks = filter (\<lambda>k. ak_user k = u) (kw_keys W)
      in \<lparr>hu_total = sum_list (map ak_used ks), hu_active = length (filter (\<lambda>k. \<not> ak_revoked k) ks), hu_keys = length ks\<rparr>)"

inductive key_step :: "key_world \<Rightarrow> key_world \<Rightarrow> bool" where
  key_create: "createKey now newId key u nm perms W = (r, W') \<Longrightarrow> key_step W W'"
| key_revoke: "revokeKey now u i W = (r, W') \<Longrightarrow> key_step W W'"
| key_test: "testKey now key W = (r, W') \<Longrightarrow> key_step W W'"
| key_update: "updateKey u i nm perms W = (r, W') \<Longrightarrow> key_step W W'"

definition keys_ok :: "key_world \<Rightarrow> bool" where
  "keys_ok W \<longleftrightarrow> distinct (map ak_key (kw_keys W)) \<and> (\<forall>k \<in> set (kw_keys W). ak_used k = kw_answered W (ak_key k))
     \<and> (\<forall>x. x \<notin> ak_key ` set (kw_keys W) \<longrightarrow> kw_answered W x = 0)"

lemma put_member:
  assumes "distinct (map key ds)" "x \<in> set (coll_put key d ds)"
  shows "x = d \<or> x \<in> set ds \<and> key x \<noteq> key d"
  using assms
proof (induction ds)
  case (Cons y ys)
  then show ?case by (auto split: if_splits dest: injD simp: rev_image_eqI)
qed simp

lemma put_keys [simp]: "ak_key ` set (coll_put ak_key d ks) = ak_key ` set ks"
  using coll_put_keys by (metis list.set_map)

lemma put_any: "x \<in> set (coll_put key d ds) \<Longrightarrow> x = d \<or> x \<in> set ds"
  by (induction ds) (auto split: if_splits)

lemma update_ok:
  assumes "keys_ok W" "update_key q f W = (r, W')" "\<And>k. ak_key (f k) = ak_key k" "\<And>k. ak_used (f k) = ak_used k"
  shows "keys_ok W'"
proof (cases "coll_find q (kw_keys W)")
  case (Some k)
  then have k: "k \<in> set (kw_keys W)" and w: "W' = W\<lparr>kw_keys := coll_put ak_key (f k) (kw_keys W)\<rparr>"
    using assms(2) by (auto simp: update_key_def dest: coll_find_Some)
  then show ?thesis using assms(1,3,4) by (auto simp: keys_ok_def w dest!: put_member)
qed (use assms in \<open>simp add: update_key_def\<close>)

lemma key_step_ok: "key_step W W' \<Longrightarrow> keys_ok W \<Longrightarrow> keys_ok W'"
proof (induction rule: key_step.induct)
  case (key_create now newId key u nm perms W r W')
  then show ?case by (auto simp: createKey_def keys_ok_def Let_def split: if_splits)
next
  case (key_revoke now u i W r W')
  then show ?case by (auto simp: revokeKey_def intro: update_ok split: prod.splits option.splits)
next
  case (key_update u i nm perms W r W')
  then show ?case by (auto simp: updateKey_def intro: update_ok split: prod.splits option.splits)
next
  case (key_test now key W r W')
  show ?case
  proof (cases "truthy_str key \<and> coll_find (\<lambda>k. ak_key k = the key \<and> \<not> ak_revoked k) (kw_keys W) \<noteq> None")
    case True
    then obtain k where f: "coll_find (\<lambda>k. ak_key k = the key \<and> \<not> ak_revoked k) (kw_keys W) = Some k" by blast
    then have k: "k \<in> set (kw_keys W)" "ak_key k = the key" by (auto dest: coll_find_Some)
    define d where "d = k\<lparr>ak_used := ak_used k + 1, ak_lastUsed := Some now\<rparr>"
    have w: "W' = W\<lparr>kw_keys := coll_put ak_key d (kw_keys W), kw_answered := (kw_answered W)(the key := kw_answered W (the key) + 1)\<rparr>"
      using key_test(1) True f by (auto simp: testKey_def update_key_def d_def)
    have m: "ak_used y = kw_answered W' (ak_key y)" if "y \<in> set (kw_keys W')" for y
      using put_member [of ak_key "kw_keys W" y d] that key_test(2) k by (auto simp: w keys_ok_def d_def)
    have z: "kw_answered W' x = 0" if "x \<notin> ak_key ` set (kw_keys W')" for x
      using that key_test(2) k imageI [OF k(1), of ak_key] by (auto simp: w keys_ok_def)
    have "distinct (map ak_key (kw_keys W'))" using key_test(2) by (simp add: w keys_ok_def)
    with m z show ?thesis by (simp add: keys_ok_def)
  next
    case False
    with key_test show ?thesis by (auto simp: testKey_def update_key_def split: if_splits)
  qed
qed

lemma keys_invariant: "key_step\<^sup>*\<^sup>* W W' \<Longrightarrow> keys_ok W \<Longrightarrow> keys_ok W'"
  by (induction rule: rtranclp_induct) (auto intro: key_step_ok)

text \<open>
  The counter of a key is the number of times the server has accepted it, and the usage a developer sees is the sum
  over his keys, whatever is created, revoked, renamed and tried.
\<close>

theorem usage_counts_accepted_tests:
  assumes "key_step\<^sup>*\<^sup>* W W'" "kw_keys W = []" "\<forall>x. kw_answered W x = 0"
  shows "hu_total (keyUsage u W') = sum_list (map (\<lambda>k. kw_answered W' (ak_key k)) (filter (\<lambda>k. ak_user k = u) (kw_keys W')))
    \<and> distinct (map ak_key (kw_keys W'))"
proof -
  have "keys_ok W'" by (rule keys_invariant [OF assms(1)]) (simp add: keys_ok_def assms(2,3))
  then have d: "distinct (map ak_key (kw_keys W'))" and u: "\<forall>k \<in> set (kw_keys W'). ak_used k = kw_answered W' (ak_key k)"
    by (auto simp: keys_ok_def)
  have "map ak_used (filter (\<lambda>k. ak_user k = u) (kw_keys W')) = map (\<lambda>k. kw_answered W' (ak_key k)) (filter (\<lambda>k. ak_user k = u) (kw_keys W'))"
    using u by simp
  then show ?thesis using d by (simp only: keyUsage_def Let_def hub_usage.simps)
qed

text \<open>A key once revoked stays so.\<close>

definition key_dead :: "string \<Rightarrow> key_world \<Rightarrow> bool" where
  "key_dead x W \<longleftrightarrow> (\<exists>k \<in> set (kw_keys W). ak_key k = x) \<and> (\<forall>k \<in> set (kw_keys W). ak_key k = x \<longrightarrow> ak_revoked k)"

lemma update_dead:
  assumes "key_dead x W" "update_key q f W = (r, W')" "\<And>k. ak_key (f k) = ak_key k" "\<And>k. ak_revoked k \<Longrightarrow> ak_revoked (f k)"
  shows "key_dead x W'"
proof (cases "coll_find q (kw_keys W)")
  case (Some k)
  then have k: "k \<in> set (kw_keys W)" and w: "kw_keys W' = coll_put ak_key (f k) (kw_keys W)"
    using assms(2) by (auto simp: update_key_def dest: coll_find_Some)
  have in_keys: "x \<in> ak_key ` set (kw_keys W')" using assms(1) by (auto simp: key_dead_def w)
  have "ak_revoked y" if y: "y \<in> set (kw_keys W')" "ak_key y = x" for y
    using put_any [of y ak_key "f k" "kw_keys W"] y assms(1,3,4) k by (auto simp: key_dead_def w)
  with in_keys show ?thesis by (auto simp: key_dead_def)
qed (use assms in \<open>simp add: update_key_def\<close>)

lemma key_step_dead: "key_step W W' \<Longrightarrow> key_dead x W \<Longrightarrow> key_dead x W'"
proof (induction rule: key_step.induct)
  case (key_create now newId key u nm perms W r W')
  then show ?case by (auto simp: createKey_def key_dead_def Let_def split: if_splits)
next
  case (key_revoke now u i W r W')
  then show ?case by (auto simp: revokeKey_def intro: update_dead split: prod.splits option.splits)
next
  case (key_update u i nm perms W r W')
  then show ?case by (auto simp: updateKey_def intro: update_dead split: prod.splits option.splits)
next
  case (key_test now key W r W')
  obtain y V where u: "update_key (\<lambda>k. ak_key k = the key \<and> \<not> ak_revoked k) (\<lambda>k. k\<lparr>ak_used := ak_used k + 1, ak_lastUsed := Some now\<rparr>) W = (y, V)"
    by fastforce
  have "key_dead x V" by (rule update_dead [OF key_test(2) u]) simp_all
  moreover have "kw_keys W' = kw_keys V \<or> W' = W" using key_test(1) u by (auto simp: testKey_def split: if_splits option.splits)
  ultimately show ?case using key_test(2) by (auto simp: key_dead_def)
qed

lemma dead_unauthorized:
  assumes "key_dead x W"
  shows "testKey now (Some x) W = (HubUnauthorized, W)"
proof -
  have "coll_find (\<lambda>k. ak_key k = x \<and> \<not> ak_revoked k) (kw_keys W) = None" using assms by (auto simp: coll_find_None key_dead_def)
  then show ?thesis by (simp add: testKey_def update_key_def)
qed

text \<open>
  A key its owner has revoked is never accepted again, whatever requests follow, by him or by others.
\<close>

theorem revoked_key_is_never_accepted:
  assumes "distinct (map ak_key (kw_keys W))" "distinct (map ak_id (kw_keys W))" "k \<in> set (kw_keys W)"
    "revokeKey now (ak_user k) (ak_id k) W = (r, W1)" "key_step\<^sup>*\<^sup>* W1 W2"
  shows "r = HubRevoked \<and> testKey later (Some (ak_key k)) W2 = (HubUnauthorized, W2)"
proof -
  have "coll_find (\<lambda>x. ak_id x = ak_id k \<and> ak_user x = ak_user k) (kw_keys W) \<noteq> None" using assms(3) by (auto simp: coll_find_None)
  then obtain x where x: "coll_find (\<lambda>x. ak_id x = ak_id k \<and> ak_user x = ak_user k) (kw_keys W) = Some x" by blast
  then have "x \<in> set (kw_keys W)" "ak_id x = ak_id k" by (auto dest: coll_find_Some)
  then have e: "x = k" using assms(2,3) by (auto simp: distinct_map dest: inj_onD)
  define d where "d = k\<lparr>ak_revoked := True, ak_revokedAt := Some now\<rparr>"
  have r: "r = HubRevoked" and w: "kw_keys W1 = coll_put ak_key d (kw_keys W)"
    using assms(4) x e by (auto simp: revokeKey_def update_key_def d_def)
  have "ak_key k \<in> ak_key ` set (kw_keys W1)" using assms(3) by (simp add: w)
  moreover have "ak_revoked y" if "y \<in> set (kw_keys W1)" "ak_key y = ak_key k" for y
    using put_member [OF assms(1), of y d] that by (auto simp: w d_def)
  ultimately have "key_dead (ak_key k) W1" by (auto simp: key_dead_def)
  with assms(5) have "key_dead (ak_key k) W2" by (induction rule: rtranclp_induct) (auto intro: key_step_dead)
  with r show ?thesis by (simp add: dead_unauthorized)
qed

definition demo_keys :: key_world where
  "demo_keys = snd (createKey 1 ''k1'' ''mk_1'' ''u1'' (Some ''test'') None \<lparr>kw_keys = [], kw_answered = (\<lambda>_. 0)\<rparr>)"

lemma demo_keys_is:
  "kw_keys demo_keys = [\<lparr>ak_id = ''k1'', ak_user = ''u1'', ak_name = ''test'', ak_key = ''mk_1'', ak_permissions = [''read''], ak_used = 0,
     ak_created = 1, ak_lastUsed = None, ak_revoked = False, ak_revokedAt = None\<rparr>]"
  by (simp add: demo_keys_def createKey_def truthy_str_def Let_def)

lemma usage_counts_accepted_tests_witness:
  "hu_total (keyUsage ''u1'' (snd (testKey 5 (Some ''mk_1'') demo_keys))) = 1"
proof -
  define E where "E = \<lparr>kw_keys = [], kw_answered = (\<lambda>_. 0)\<rparr>"
  obtain r W where c: "createKey 1 ''k1'' ''mk_1'' ''u1'' (Some ''test'') None E = (r, W)" by fastforce
  obtain r' W' where t: "testKey 5 (Some ''mk_1'') W = (r', W')" by fastforce
  have "key_step\<^sup>*\<^sup>* E W'" by (rule rtranclp.rtrancl_into_rtrancl [OF r_into_rtranclp]) (rule key_create [OF c], rule key_test [OF t])
  from usage_counts_accepted_tests [OF this] have
    "hu_total (keyUsage ''u1'' W') = sum_list (map (\<lambda>k. kw_answered W' (ak_key k)) (filter (\<lambda>k. ak_user k = ''u1'') (kw_keys W')))"
    by (simp add: E_def)
  moreover have "W = demo_keys" using c by (simp add: demo_keys_def E_def)
  moreover have "kw_answered demo_keys = (\<lambda>_. 0)" by (simp add: demo_keys_def createKey_def truthy_str_def Let_def)
  ultimately show ?thesis using t demo_keys_is by (auto simp: testKey_def update_key_def truthy_str_def)
qed

lemma revoked_key_is_never_accepted_witness:
  "\<exists>W1. revokeKey 2 ''u1'' ''k1'' demo_keys = (HubRevoked, W1) \<and> testKey 3 (Some ''mk_1'') W1 = (HubUnauthorized, W1)"
proof -
  obtain r W1 where w: "revokeKey 2 ''u1'' ''k1'' demo_keys = (r, W1)" by fastforce
  show ?thesis
    using revoked_key_is_never_accepted [of demo_keys "hd (kw_keys demo_keys)" 2 r W1 W1 3] w by (simp add: demo_keys_is)
qed

end
