(* ===== verification/Referrals.thy ===== *)
theory Referrals
  imports AdminUsers
begin

text \<open>
  The referral rewards of \<open>routes/referrals.js\<close>: the earnings a registration adds (\<open>AuthController\<close>) are claimed into the
  spendable balance. The route reads the account, then commits its claim in a transaction; between the two other requests
  run.
\<close>

record claim_entry =
  ce_user :: string
  ce_amount :: num

record referral_world =
  rf_auth :: auth_world
  rf_ledger :: "claim_entry list"

record referral_view =
  rv_code :: string
  rv_earned :: num
  rv_count :: num
  rv_claimed :: num

definition shown_code :: "account \<Rightarrow> string" where
  "shown_code a = (case str_or (ac_referralCode a) None of
     Some c \<Rightarrow> c | None \<Rightarrow> take 15 (upper_case (''MALL-'' @ the (str_or (ac_username a) (Some (ac_id a))))))"

definition getReferrals :: "string \<Rightarrow> referral_world \<Rightarrow> referral_view option" where
  "getReferrals u W = map_option (\<lambda>a. \<lparr>rv_code = shown_code a, rv_earned = ac_referralEarnings a, rv_count = ac_referralCount a,
     rv_claimed = ac_referralClaimed a\<rparr>) (account_of u (rf_auth W))"

datatype claim_resp = ClaimNotFound | ClaimNothing | ClaimFailed | ClaimPaid num

text \<open>What the route has read when it decides.\<close>

definition claim_read :: "string \<Rightarrow> referral_world \<Rightarrow> claim_resp + (account \<times> num)" where
  "claim_read u W =
     (case account_of u (rf_auth W) of
        None \<Rightarrow> Inl ClaimNotFound
      | Some a \<Rightarrow>
          let unclaimed = js_sub (ac_referralEarnings a) (ac_referralClaimed a)
          in if unclaimed \<le> 0 then Inl ClaimNothing else Inr (a, unclaimed))"

text \<open>The transaction: both writes or none; it sets what was read as claimed and adds to the balance in the database.\<close>

definition claim_commit :: "bool \<Rightarrow> account \<Rightarrow> num \<Rightarrow> referral_world \<Rightarrow> claim_resp \<times> referral_world" where
  "claim_commit up a unclaimed W =
     (if \<not> up then (ClaimFailed, W)
      else (ClaimPaid unclaimed,
            W\<lparr>rf_auth := (case account_of (ac_id a) (rf_auth W) of
                 None \<Rightarrow> rf_auth W
               | Some b \<Rightarrow> store_account (b\<lparr>ac_referralClaimed := ac_referralEarnings a, ac_mlpts_balance := js_add (ac_mlpts_balance b) unclaimed\<rparr>)
                             (rf_auth W)),
              rf_ledger := rf_ledger W @ [\<lparr>ce_user = ac_id a, ce_amount = unclaimed\<rparr>]\<rparr>))"

definition postClaim :: "bool \<Rightarrow> string \<Rightarrow> referral_world \<Rightarrow> claim_resp \<times> referral_world" where
  "postClaim up u W = (case claim_read u W of Inl r \<Rightarrow> (r, W) | Inr (a, n) \<Rightarrow> claim_commit up a n W)"

lemma read_inr:
  assumes "claim_read u W = Inr (a, n)"
  shows "account_of u (rf_auth W) = Some a" "ac_id a = u" "n = js_sub (ac_referralEarnings a) (ac_referralClaimed a)" "0 < n"
  using assms by (auto simp: claim_read_def Let_def split: option.splits if_splits dest: find_id)

lemma commit_balance:
  assumes "account_of (ac_id a) (rf_auth W) = Some b"
  shows "claim_commit True a n W = (ClaimPaid n, W\<lparr>rf_auth := store_account (b\<lparr>ac_referralClaimed := ac_referralEarnings a,
      ac_mlpts_balance := js_add (ac_mlpts_balance b) n\<rparr>) (rf_auth W), rf_ledger := rf_ledger W @ [\<lparr>ce_user = ac_id a, ce_amount = n\<rparr>]\<rparr>)"
  using assms by (simp add: claim_commit_def)

lemma account_after:
  assumes "account_of u W = Some b" "ac_id c = u"
  shows "account_of v (store_account c W) = (if v = u then Some c else account_of v W)"
  using assms by (simp add: account_of_store)

text \<open>
  A claim pays what was earned and not yet claimed into the balance, enters it in the ledger and marks all of it
  claimed, so that a second claim after it is refused and changes nothing; no other account changes.
\<close>

theorem claim_pays_once:
  assumes "claim_read u W = Inr (a, n)" "postClaim True u W = (r, W1)"
  shows "r = ClaimPaid n \<and> rf_ledger W1 = rf_ledger W @ [\<lparr>ce_user = u, ce_amount = n\<rparr>]
    \<and> map_option ac_mlpts_balance (account_of u (rf_auth W1)) = Some (js_add (ac_mlpts_balance a) n)
    \<and> postClaim up u W1 = (ClaimNothing, W1)
    \<and> (\<forall>v. v \<noteq> u \<longrightarrow> account_of v (rf_auth W1) = account_of v (rf_auth W))"
proof -
  note a = read_inr [OF assms(1)]
  define b where "b = a\<lparr>ac_referralClaimed := ac_referralEarnings a, ac_mlpts_balance := js_add (ac_mlpts_balance a) n\<rparr>"
  have w: "r = ClaimPaid n" "W1 = W\<lparr>rf_auth := store_account b (rf_auth W), rf_ledger := rf_ledger W @ [\<lparr>ce_user = u, ce_amount = n\<rparr>]\<rparr>"
    using assms commit_balance [of a W a n] a by (simp_all add: postClaim_def b_def)
  have f: "account_of v (rf_auth W1) = (if v = u then Some b else account_of v (rf_auth W))" for v
    using account_after [OF a(1)] a(2) by (simp add: w b_def)
  have "js_sub (ac_referralEarnings b) (ac_referralClaimed b) = 0" by (simp add: b_def js_sub_def)
  then have "postClaim up u W1 = (ClaimNothing, W1)" by (simp add: postClaim_def claim_read_def f)
  with w f show ?thesis by (simp add: b_def)
qed

text \<open>
  Two claims that both read the account before either commits are both paid: the balance and the ledger receive the
  same rewards twice.
\<close>

theorem concurrent_claims_pay_twice:
  assumes "claim_read u W = Inr (a, n)" "claim_commit True a n W = (r1, W1)" "claim_commit True a n W1 = (r2, W2)"
  shows "r1 = ClaimPaid n \<and> r2 = ClaimPaid n
    \<and> map_option ac_mlpts_balance (account_of u (rf_auth W2)) = Some (js_add (js_add (ac_mlpts_balance a) n) n)
    \<and> rf_ledger W2 = rf_ledger W @ [\<lparr>ce_user = u, ce_amount = n\<rparr>, \<lparr>ce_user = u, ce_amount = n\<rparr>]"
proof -
  note a = read_inr [OF assms(1)]
  define b where "b = a\<lparr>ac_referralClaimed := ac_referralEarnings a, ac_mlpts_balance := js_add (ac_mlpts_balance a) n\<rparr>"
  have w1: "r1 = ClaimPaid n" "W1 = W\<lparr>rf_auth := store_account b (rf_auth W), rf_ledger := rf_ledger W @ [\<lparr>ce_user = u, ce_amount = n\<rparr>]\<rparr>"
    using assms(2) commit_balance [of a W a n] a by (simp_all add: b_def)
  have f1: "account_of u (rf_auth W1) = Some b" using account_after [OF a(1), of b] a(2) by (simp add: w1 b_def)
  define d where "d = b\<lparr>ac_referralClaimed := ac_referralEarnings a, ac_mlpts_balance := js_add (ac_mlpts_balance b) n\<rparr>"
  have w2: "r2 = ClaimPaid n" "W2 = W1\<lparr>rf_auth := store_account d (rf_auth W1), rf_ledger := rf_ledger W1 @ [\<lparr>ce_user = u, ce_amount = n\<rparr>]\<rparr>"
    using assms(3) commit_balance [of a W1 b n] a f1 by (simp_all add: d_def)
  have "account_of u (rf_auth W2) = Some d" using account_after [OF f1, of d] a(2) by (simp add: w2 d_def b_def)
  with w1 w2 show ?thesis by (simp add: d_def b_def)
qed

definition demo_referrer :: account where
  "demo_referrer = (demo_user ''u1'' RoleUser)\<lparr>ac_referralEarnings := 10, ac_mlpts_balance := 5\<rparr>"

definition demo_referrals :: referral_world where
  "demo_referrals = \<lparr>rf_auth = demo_auth_world\<lparr>accounts := [demo_referrer]\<rparr>, rf_ledger = []\<rparr>"

lemma demo_claim: "claim_read ''u1'' demo_referrals = Inr (demo_referrer, 10)" "ac_mlpts_balance demo_referrer = 5"
proof -
  have "fl (10 :: num) = 10" using fl_of_int [of 10] by simp
  then show "claim_read ''u1'' demo_referrals = Inr (demo_referrer, 10)"
    by (simp add: claim_read_def demo_referrals_def account_of_def demo_referrer_def demo_user_def new_account_def js_sub_def)
  show "ac_mlpts_balance demo_referrer = 5" by (simp add: demo_referrer_def)
qed

lemma demo_sums: "js_add 5 10 = 15" "js_add 15 10 = 25"
  using fl_of_int [of 15] fl_of_int [of 25] by (simp_all add: js_add_def)

lemma claim_pays_once_witness:
  "\<exists>W1. postClaim True ''u1'' demo_referrals = (ClaimPaid 10, W1) \<and> map_option ac_mlpts_balance (account_of ''u1'' (rf_auth W1)) = Some 15
     \<and> postClaim True ''u1'' W1 = (ClaimNothing, W1)"
proof -
  obtain r W1 where p: "postClaim True ''u1'' demo_referrals = (r, W1)" by fastforce
  show ?thesis using claim_pays_once [OF demo_claim(1) p, of True] p by (simp add: demo_claim demo_sums)
qed

lemma concurrent_claims_pay_twice_witness:
  "\<exists>W1 W2. claim_commit True demo_referrer 10 demo_referrals = (ClaimPaid 10, W1) \<and> claim_commit True demo_referrer 10 W1 = (ClaimPaid 10, W2)
     \<and> map_option ac_mlpts_balance (account_of ''u1'' (rf_auth W2)) = Some 25"
proof -
  obtain r1 W1 where p: "claim_commit True demo_referrer 10 demo_referrals = (r1, W1)" by fastforce
  obtain r2 W2 where q: "claim_commit True demo_referrer 10 W1 = (r2, W2)" by fastforce
  show ?thesis using concurrent_claims_pay_twice [OF demo_claim(1) p q] p q by (simp add: demo_claim demo_sums)
qed

end
