(* ===== verification/Jobs.thy ===== *)
theory Jobs
  imports Notifications
begin

text \<open>
  The scheduled jobs: \<open>jobs/operatorStakeWatcher.js\<close>, which keeps the operator's wallet in gas, and
  \<open>jobs/treasuryRewardsSweeper.js\<close>, which claims the rewards of the treasury's delegation. The chain is its balances of
  stake, its bonded validators, the delegations and the rewards accrued with them; a transfer the sender cannot pay for, fee included, is refused.
\<close>

record stake_chain =
  sk_balance :: "string \<Rightarrow> int"
  sk_validators :: "string list"
  sk_delegated :: "string \<Rightarrow> string \<Rightarrow> int option"
  sk_rewards :: "string \<Rightarrow> string \<Rightarrow> rat"

record job_env =
  jb_operator :: "string option"
  jb_treasury :: "string option"
  jb_address :: "string \<Rightarrow> string"
  jb_low :: int
  jb_topUp :: int
  jb_minClaim :: int
  jb_fee :: int
  jb_reads :: "string \<Rightarrow> bool"
  jb_validatorsUp :: bool
  jb_delegationUp :: bool
  jb_rewardsUp :: bool
  jb_broadcastUp :: bool

definition send_stake :: "int \<Rightarrow> string \<Rightarrow> string \<Rightarrow> int \<Rightarrow> stake_chain \<Rightarrow> stake_chain option" where
  "send_stake fee a b n C =
     (if sk_balance C a < n + fee then None
      else let s = (sk_balance C)(a := sk_balance C a - n - fee) in Some (C\<lparr>sk_balance := s(b := s b + n)\<rparr>))"

section \<open>The operator's wallet\<close>

datatype watch_resp =
    WatchNoOperator | WatchReadFailed | WatchEnough int | WatchNoTreasury int | WatchTreasuryReadFailed int
  | WatchTreasuryLow int int | WatchToppedUp int | WatchBroadcastFailed int

definition getStakeBalance :: "job_env \<Rightarrow> string \<Rightarrow> stake_chain \<Rightarrow> int option" where
  "getStakeBalance en a C = (if jb_reads en a then Some (sk_balance C a) else None)"

text \<open>What a run has decided when it comes to the transfer: an answer, or the two addresses and the balance it read.\<close>

definition watch_decide :: "job_env \<Rightarrow> stake_chain \<Rightarrow> watch_resp + (string \<times> string \<times> int)" where
  "watch_decide en C =
     (if \<not> truthy_str (jb_operator en) then Inl WatchNoOperator
      else let oper = jb_address en (the (jb_operator en)) in
      case getStakeBalance en oper C of
        None \<Rightarrow> Inl WatchReadFailed
      | Some b \<Rightarrow>
          if jb_low en \<le> b then Inl (WatchEnough b)
          else if \<not> truthy_str (jb_treasury en) then Inl (WatchNoTreasury b)
          else let tre = jb_address en (the (jb_treasury en)) in
          (case getStakeBalance en tre C of
             None \<Rightarrow> Inl (WatchTreasuryReadFailed b)
           | Some t \<Rightarrow> if t \<le> jb_topUp en then Inl (WatchTreasuryLow b t) else Inr (oper, tre, b)))"

definition watch_commit :: "job_env \<Rightarrow> string \<times> string \<times> int \<Rightarrow> stake_chain \<Rightarrow> watch_resp \<times> stake_chain" where
  "watch_commit en p C =
     (case p of (oper, tre, b) \<Rightarrow>
        if \<not> jb_broadcastUp en then (WatchBroadcastFailed b, C)
        else (case send_stake (jb_fee en) tre oper (jb_topUp en) C of
                None \<Rightarrow> (WatchBroadcastFailed b, C) | Some C1 \<Rightarrow> (WatchToppedUp (jb_topUp en), C1)))"

definition runOperatorStakeWatch :: "job_env \<Rightarrow> stake_chain \<Rightarrow> watch_resp \<times> stake_chain" where
  "runOperatorStakeWatch en C = (case watch_decide en C of Inl r \<Rightarrow> (r, C) | Inr p \<Rightarrow> watch_commit en p C)"

section \<open>The treasury's rewards\<close>

datatype sweep_resp =
    SweepNoTreasury | SweepNoValidator | SweepNoDelegation | SweepReadFailed | SweepBelow int | SweepClaimed int | SweepBroadcastFailed

definition pickDefaultValidator :: "job_env \<Rightarrow> stake_chain \<Rightarrow> string option" where
  "pickDefaultValidator en C = (if jb_validatorsUp en then (case sk_validators C of [] \<Rightarrow> None | v # _ \<Rightarrow> Some v) else None)"

text \<open>The total of the rewards is over every validator; a fraction is cut off.\<close>

definition getDelegatorRewards :: "stake_chain \<Rightarrow> string \<Rightarrow> int" where
  "getDelegatorRewards C a = \<lfloor>sum_list (map (sk_rewards C a) (sk_validators C))\<rfloor>"

text \<open>A claim pays the whole units of the rewards accrued with one validator.\<close>

definition withdraw_rewards :: "int \<Rightarrow> string \<Rightarrow> string \<Rightarrow> stake_chain \<Rightarrow> stake_chain option" where
  "withdraw_rewards fee a v C =
     (if sk_balance C a < fee then None
      else Some (C\<lparr>sk_balance := (sk_balance C)(a := sk_balance C a - fee + \<lfloor>sk_rewards C a v\<rfloor>),
                   sk_rewards := (sk_rewards C)(a := (sk_rewards C a)(v := 0))\<rparr>))"

definition runTreasuryRewardsSweep :: "job_env \<Rightarrow> stake_chain \<Rightarrow> sweep_resp \<times> stake_chain" where
  "runTreasuryRewardsSweep en C =
     (if \<not> truthy_str (jb_treasury en) then (SweepNoTreasury, C)
      else let tre = jb_address en (the (jb_treasury en)) in
      case pickDefaultValidator en C of
        None \<Rightarrow> (SweepNoValidator, C)
      | Some v \<Rightarrow>
          if \<not> jb_delegationUp en \<or> sk_delegated C tre v = None then (SweepNoDelegation, C)
          else if \<not> jb_rewardsUp en then (SweepReadFailed, C)
          else let n = getDelegatorRewards C tre in
          if n < jb_minClaim en then (SweepBelow n, C)
          else if \<not> jb_broadcastUp en then (SweepBroadcastFailed, C)
          else (case withdraw_rewards (jb_fee en) tre v C of None \<Rightarrow> (SweepBroadcastFailed, C) | Some C1 \<Rightarrow> (SweepClaimed n, C1)))"

section \<open>The wallet stays in gas\<close>

definition operator_of :: "job_env \<Rightarrow> string" where "operator_of en = jb_address en (the (jb_operator en))"
definition treasury_of :: "job_env \<Rightarrow> string" where "treasury_of en = jb_address en (the (jb_treasury en))"

definition job_ready :: "job_env \<Rightarrow> bool" where
  "job_ready en \<longleftrightarrow> truthy_str (jb_operator en) \<and> truthy_str (jb_treasury en) \<and> operator_of en \<noteq> treasury_of en
     \<and> (\<forall>a. jb_reads en a) \<and> jb_broadcastUp en \<and> 0 \<le> jb_fee en"

lemma decide_inr:
  assumes "watch_decide en C = Inr (oper, tre, b)"
  shows "oper = operator_of en" "tre = treasury_of en" "b = sk_balance C oper" "sk_balance C oper < jb_low en" "jb_topUp en < sk_balance C tre"
  using assms by (auto simp: watch_decide_def getStakeBalance_def operator_of_def treasury_of_def Let_def split: if_splits option.splits)

lemma decide_low:
  assumes "job_ready en" "sk_balance C (operator_of en) < jb_low en" "jb_topUp en < sk_balance C (treasury_of en)"
  shows "watch_decide en C = Inr (operator_of en, treasury_of en, sk_balance C (operator_of en))"
  using assms by (simp add: job_ready_def watch_decide_def getStakeBalance_def operator_of_def treasury_of_def Let_def)

lemma send_stake_some:
  assumes "send_stake fee a b n C = Some C'" "a \<noteq> b"
  shows "sk_balance C' b = sk_balance C b + n" "sk_balance C' a = sk_balance C a - n - fee" "n + fee \<le> sk_balance C a"
    "c \<noteq> a \<Longrightarrow> c \<noteq> b \<Longrightarrow> sk_balance C' c = sk_balance C c"
  using assms by (auto simp: send_stake_def Let_def split: if_splits)

text \<open>
  A run of the watcher moves money only from the treasury to the operator, only when the operator is below the
  threshold and the treasury above the amount, and exactly that amount; the operator ends below threshold and amount
  together, the treasury never below zero. Every other answer leaves the chain as it was.
\<close>

theorem watch_moves_one_top_up:
  assumes "runOperatorStakeWatch en C = (r, C')" "operator_of en \<noteq> treasury_of en" "0 \<le> jb_topUp en"
  shows "(\<forall>n. r \<noteq> WatchToppedUp n) \<and> C' = C
    \<or> r = WatchToppedUp (jb_topUp en) \<and> sk_balance C (operator_of en) < jb_low en \<and> jb_topUp en < sk_balance C (treasury_of en)
      \<and> sk_balance C' (operator_of en) = sk_balance C (operator_of en) + jb_topUp en
      \<and> sk_balance C' (operator_of en) < jb_low en + jb_topUp en
      \<and> sk_balance C' (treasury_of en) = sk_balance C (treasury_of en) - jb_topUp en - jb_fee en \<and> 0 \<le> sk_balance C' (treasury_of en)
      \<and> (\<forall>c. c \<noteq> operator_of en \<and> c \<noteq> treasury_of en \<longrightarrow> sk_balance C' c = sk_balance C c)"
proof (cases "watch_decide en C")
  case (Inl x)
  moreover have "\<forall>n. x \<noteq> WatchToppedUp n"
    using Inl by (auto simp: watch_decide_def Let_def split: if_splits option.splits)
  ultimately show ?thesis using assms(1) by (simp add: runOperatorStakeWatch_def)
next
  case (Inr p)
  then obtain oper tre b where p: "watch_decide en C = Inr (oper, tre, b)" by (cases p) auto
  note d = decide_inr [OF p]
  show ?thesis
  proof (cases "jb_broadcastUp en \<and> send_stake (jb_fee en) tre oper (jb_topUp en) C \<noteq> None")
    case True
    then obtain C1 where c: "send_stake (jb_fee en) tre oper (jb_topUp en) C = Some C1" by blast
    have r: "r = WatchToppedUp (jb_topUp en)" "C' = C1" using assms(1) p c True by (simp_all add: runOperatorStakeWatch_def watch_commit_def)
    have ne: "tre \<noteq> oper" using assms(2) d by simp
    show ?thesis using r d send_stake_some [OF c ne] by auto
  next
    case False
    then show ?thesis using assms(1) p by (auto simp: runOperatorStakeWatch_def watch_commit_def split: option.splits)
  qed
qed

definition demo_jobs :: job_env where
  "demo_jobs = \<lparr>jb_operator = Some ''op words'', jb_treasury = Some ''tr words'', jb_address = take 2, jb_low = 2000000, jb_topUp = 5000000,
     jb_minClaim = 10000, jb_fee = 5000, jb_reads = (\<lambda>_. True), jb_validatorsUp = True, jb_delegationUp = True, jb_rewardsUp = True,
     jb_broadcastUp = True\<rparr>"

definition demo_stake :: "int \<Rightarrow> stake_chain" where
  "demo_stake t = \<lparr>sk_balance = (\<lambda>a. if a = ''tr'' then t else 100), sk_validators = [''v1'', ''v2''],
     sk_delegated = (\<lambda>a v. Some 1), sk_rewards = (\<lambda>a v. if v = ''v1'' then 6000000 else 40000)\<rparr>"

lemma demo_jobs_facts:
  "operator_of demo_jobs = ''op''" "treasury_of demo_jobs = ''tr''" "job_ready demo_jobs" "jb_topUp demo_jobs = 5000000" "jb_low demo_jobs = 2000000"
  "jb_fee demo_jobs = 5000"
  by (simp_all add: operator_of_def treasury_of_def demo_jobs_def job_ready_def truthy_str_def)

lemma watch_moves_one_top_up_witness:
  "\<exists>C'. runOperatorStakeWatch demo_jobs (demo_stake 9000000) = (WatchToppedUp 5000000, C') \<and> sk_balance C' ''op'' = 5000100"
proof -
  obtain r C' where f: "runOperatorStakeWatch demo_jobs (demo_stake 9000000) = (r, C')" by fastforce
  have "watch_decide demo_jobs (demo_stake 9000000) = Inr (''op'', ''tr'', 100)"
    using decide_low [OF demo_jobs_facts(3), of "demo_stake 9000000"] by (simp add: demo_jobs_facts) (simp add: demo_stake_def)
  then have "r = WatchToppedUp 5000000"
    using f by (simp add: runOperatorStakeWatch_def watch_commit_def send_stake_def demo_jobs_def demo_stake_def Let_def)
  with watch_moves_one_top_up [OF f] f show ?thesis by (simp add: demo_jobs_facts) (simp add: demo_stake_def)
qed



text \<open>
  Two runs that both read the chain before either transfers, in two processes, both transfer: the operator receives
  the amount twice, past the level one run keeps.
\<close>

theorem overlapping_watches_top_up_twice:
  assumes "job_ready en" "watch_decide en C = Inr p" "0 \<le> jb_topUp en" "2 * (jb_topUp en + jb_fee en) \<le> sk_balance C (treasury_of en)"
    "watch_commit en p C = (r1, C1)" "watch_commit en p C1 = (r2, C2)"
  shows "r1 = WatchToppedUp (jb_topUp en) \<and> r2 = WatchToppedUp (jb_topUp en)
    \<and> sk_balance C2 (operator_of en) = sk_balance C (operator_of en) + 2 * jb_topUp en"
proof -
  obtain oper tre b where p: "p = (oper, tre, b)" by (cases p)
  note d = decide_inr [OF assms(2) [unfolded p]]
  have n: "0 \<le> jb_fee en" "tre \<noteq> oper" "jb_broadcastUp en" using assms(1) d by (auto simp: job_ready_def)
  have "send_stake (jb_fee en) tre oper (jb_topUp en) C \<noteq> None" using assms(3,4) d n by (auto simp: send_stake_def Let_def)
  then obtain D where s: "send_stake (jb_fee en) tre oper (jb_topUp en) C = Some D" by blast
  have e1: "r1 = WatchToppedUp (jb_topUp en)" "C1 = D" using assms(5) s n p by (simp_all add: watch_commit_def)
  have "send_stake (jb_fee en) tre oper (jb_topUp en) D \<noteq> None"
    using send_stake_some [OF s n(2)] assms(3,4) d n by (auto simp: send_stake_def Let_def)
  then obtain E where s2: "send_stake (jb_fee en) tre oper (jb_topUp en) D = Some E" by blast
  have "r2 = WatchToppedUp (jb_topUp en)" "C2 = E" using assms(6) s2 n p e1 by (simp_all add: watch_commit_def)
  with e1 send_stake_some(1) [OF s n(2)] send_stake_some(1) [OF s2 n(2)] d show ?thesis by simp
qed

lemma overlapping_watches_top_up_twice_witness:
  "\<exists>C1 C2. watch_commit demo_jobs (''op'', ''tr'', 100) (demo_stake 90000000) = (WatchToppedUp 5000000, C1)
     \<and> watch_commit demo_jobs (''op'', ''tr'', 100) C1 = (WatchToppedUp 5000000, C2) \<and> sk_balance C2 ''op'' = 10000100"
proof -
  have d: "watch_decide demo_jobs (demo_stake 90000000) = Inr (''op'', ''tr'', 100)"
    using decide_low [OF demo_jobs_facts(3), of "demo_stake 90000000"] by (simp add: demo_jobs_facts) (simp add: demo_stake_def)
  obtain r1 C1 where a: "watch_commit demo_jobs (''op'', ''tr'', 100) (demo_stake 90000000) = (r1, C1)" by fastforce
  obtain r2 C2 where b: "watch_commit demo_jobs (''op'', ''tr'', 100) C1 = (r2, C2)" by fastforce
  show ?thesis
    using overlapping_watches_top_up_twice [OF demo_jobs_facts(3) d _ _ a b] a b by (simp add: demo_jobs_facts demo_stake_def)
qed

section \<open>The rewards\<close>

text \<open>
  What a sweep reports as claimed is the reward accrued with all validators, while the treasury receives that of the
  first bonded one alone: with rewards elsewhere the report exceeds the income.
\<close>

theorem sweep_reports_more_than_it_claims:
  assumes "runTreasuryRewardsSweep en C = (SweepClaimed n, C')" "sk_validators C = v # vs"
    "1 \<le> sum_list (map (sk_rewards C (treasury_of en)) vs)"
  shows "sk_balance C' (treasury_of en) = sk_balance C (treasury_of en) - jb_fee en + \<lfloor>sk_rewards C (treasury_of en) v\<rfloor>
    \<and> \<lfloor>sk_rewards C (treasury_of en) v\<rfloor> < n"
proof -
  have n: "n = getDelegatorRewards C (treasury_of en)" and b: "sk_balance C' (treasury_of en)
      = sk_balance C (treasury_of en) - jb_fee en + \<lfloor>sk_rewards C (treasury_of en) v\<rfloor>"
    using assms(1,2)
    by (auto simp: runTreasuryRewardsSweep_def pickDefaultValidator_def treasury_of_def withdraw_rewards_def Let_def split: if_splits option.splits)
  have "\<lfloor>sk_rewards C (treasury_of en) v\<rfloor> + 1 \<le> \<lfloor>sk_rewards C (treasury_of en) v + sum_list (map (sk_rewards C (treasury_of en)) vs)\<rfloor>"
    using floor_mono [of "sk_rewards C (treasury_of en) v + 1" "sk_rewards C (treasury_of en) v + sum_list (map (sk_rewards C (treasury_of en)) vs)"]
      assms(3) by simp
  with n b show ?thesis by (simp add: getDelegatorRewards_def assms(2))
qed

lemma sweep_reports_more_than_it_claims_witness:
  "\<exists>C'. runTreasuryRewardsSweep demo_jobs (demo_stake 10000) = (SweepClaimed 6040000, C') \<and> sk_balance C' ''tr'' = 6005000"
proof -
  define C' where "C' = snd (runTreasuryRewardsSweep demo_jobs (demo_stake 10000))"
  have f: "runTreasuryRewardsSweep demo_jobs (demo_stake 10000) = (SweepClaimed 6040000, C')"
    unfolding C'_def
    by (simp add: runTreasuryRewardsSweep_def demo_jobs_def demo_stake_def pickDefaultValidator_def getDelegatorRewards_def withdraw_rewards_def
        truthy_str_def Let_def)
  show ?thesis
    using sweep_reports_more_than_it_claims [OF f, of "''v1''" "[''v2'']"] f by (simp add: demo_jobs_facts demo_stake_def)
qed

text \<open>
  A delegation with any validator but the first bonded one is not seen: the sweep answers that there is none, whatever
  rewards have accrued, and claims nothing.
\<close>

theorem other_delegation_is_never_swept:
  assumes "jb_treasury en = Some w" "w \<noteq> []" "jb_validatorsUp en" "sk_validators C = v # vs" "sk_delegated C (treasury_of en) v = None"
  shows "runTreasuryRewardsSweep en C = (SweepNoDelegation, C)"
  using assms by (simp add: runTreasuryRewardsSweep_def pickDefaultValidator_def truthy_str_def treasury_of_def Let_def)

lemma other_delegation_is_never_swept_witness:
  "\<exists>C. 1000000 \<le> getDelegatorRewards C ''tr'' \<and> runTreasuryRewardsSweep demo_jobs C = (SweepNoDelegation, C)"
proof -
  define C where "C = (demo_stake 0)\<lparr>sk_delegated := \<lambda>a v. if v = ''v2'' then Some 1 else None\<rparr>"
  have "runTreasuryRewardsSweep demo_jobs C = (SweepNoDelegation, C)"
    by (rule other_delegation_is_never_swept [of _ "''tr words''" _ "''v1''" "[''v2'']"]) (simp_all add: demo_jobs_def C_def demo_stake_def)
  moreover have "1000000 \<le> getDelegatorRewards C ''tr''" by (simp add: getDelegatorRewards_def C_def demo_stake_def)
  ultimately show ?thesis by blast
qed

end
