(* ===== verification/Snapshot.thy ===== *)
theory Snapshot
  imports Notifications Badge
begin

text \<open>
  The monthly badge snapshot, \<open>jobs/badgeSnapshot.js\<close>: for every linked wallet it looks the badge up on the chain, issues
  one to whoever has the streak (\<open>Sessions\<close>) and has none, by the transaction of \<open>Badge\<close>, and tells each user by
  \<open>Notifications\<close>. A lookup that fails answers like one that finds nothing. The issuances are those of \<open>Badge\<close>; their
  method is not modelled.
\<close>

datatype badge_lookup = LookupHas | LookupNone | LookupDown

definition badge_exists :: "badge_lookup \<Rightarrow> bool" where
  "badge_exists l = (case l of LookupHas \<Rightarrow> True | LookupNone \<Rightarrow> False | LookupDown \<Rightarrow> False)"

record snapshot_env =
  ss_now :: int
  ss_auth :: auth_env
  ss_mnemonic :: "string option"
  ss_streakDays :: nat
  ss_priceKes :: nat
  ss_lookup :: "string \<Rightarrow> badge_lookup"
  ss_badge :: "string \<Rightarrow> badge_env"
  ss_record :: "string \<Rightarrow> bool"
  ss_notice :: "string \<Rightarrow> notice_env"

record snapshot_stats =
  st_processed :: nat
  st_issued :: nat
  st_reminded :: nat
  st_missed :: nat
  st_errors :: nat

record snapshot_world =
  sw_badge :: badge_world
  sw_notice :: notice_world

definition tell :: "snapshot_env \<Rightarrow> account \<Rightarrow> string \<Rightarrow> string \<Rightarrow> snapshot_world \<Rightarrow> snapshot_world" where
  "tell en a title body W =
     W\<lparr>sw_notice := notifyUser (ss_notice en (ac_id a)) a ''badge'' title body ''badgeAlerts'' (sw_notice W)\<rparr>"

definition streak_of :: "snapshot_env \<Rightarrow> account \<Rightarrow> snapshot_world \<Rightarrow> bool" where
  "streak_of en a W = getConsecutiveActiveDays (ss_auth en) (ac_id a) (ss_now en) (ss_streakDays en) (ch_auth (nw_chat (sw_notice W)))"

text \<open>One user; whatever raises counts as an error and ends his turn.\<close>

definition snapshot_user :: "snapshot_env \<Rightarrow> account \<Rightarrow> snapshot_stats \<times> snapshot_world \<Rightarrow> snapshot_stats \<times> snapshot_world" where
  "snapshot_user en a = (\<lambda>(st0, W).
     (let st = st0\<lparr>st_processed := st_processed st0 + 1\<rparr>; wallet = the (ac_wallet a) in
      if badge_exists (ss_lookup en wallet) then
        (st\<lparr>st_reminded := st_reminded st + 1\<rparr>, tell en a ''Your Mallpoints conversion window opens tomorrow''
           (''Your badge is active'' @ dash @ ''you can convert Mallpoints to Mallcoin on the 15th.'') W)
      else if streak_of en a W then
        (case issueBadgeFromMnemonic (ss_badge en wallet) (the (ss_mnemonic en)) wallet (sw_badge W) of
           (Inl _, B) \<Rightarrow> (st\<lparr>st_errors := st_errors st + 1\<rparr>, W\<lparr>sw_badge := B\<rparr>)
         | (Inr tx, B) \<Rightarrow>
             if \<not> ss_record en wallet then (st\<lparr>st_errors := st_errors st + 1\<rparr>, W\<lparr>sw_badge := B\<rparr>)
             else (st\<lparr>st_issued := st_issued st + 1\<rparr>,
                   tell en a ''You earned your badge!''
                     (''You stayed active '' @ show_nat (ss_streakDays en) @ '' days straight'' @ dash @ ''convert Mallpoints to Mallcoin tomorrow on the 15th.'')
                     (W\<lparr>sw_badge := B\<lparr>issuances := issuances B @ [\<lparr>bi_userId = Some (ac_id a), bi_walletAddress = wallet, bi_txHash = tx\<rparr>]\<rparr>\<rparr>)))
      else (st\<lparr>st_missed := st_missed st + 1\<rparr>,
            tell en a ''You missed this month's badge window''
              (''Stay active every day for '' @ show_nat (ss_streakDays en) @ '' days before the 14th to earn a badge automatically, or buy one for KSh ''
                 @ show_nat (ss_priceKes en) @ '' any time.'') W)))"

definition linked_users :: "snapshot_world \<Rightarrow> account list" where
  "linked_users W = filter (\<lambda>a. ac_wallet a \<noteq> None) (accounts (ch_auth (nw_chat (sw_notice W))))"

definition no_stats :: snapshot_stats where
  "no_stats = \<lparr>st_processed = 0, st_issued = 0, st_reminded = 0, st_missed = 0, st_errors = 0\<rparr>"

definition runBadgeSnapshot :: "snapshot_env \<Rightarrow> snapshot_world \<Rightarrow> snapshot_stats \<times> snapshot_world" where
  "runBadgeSnapshot en W =
     (if \<not> truthy_str (ss_mnemonic en) then (no_stats, W) else fold (snapshot_user en) (linked_users W) (no_stats, W))"

section \<open>What a run does\<close>

lemma notify_user_chat [simp]: "nw_chat (notifyUser en a k t b c W) = nw_chat W"
proof -
  have d: "nw_chat (dispatchChannel en ch a t b V) = nw_chat V" for ch V
    by (simp add: dispatchChannel_def sendGroup_def provider_send_def split: option.split)
  have "nw_chat (fold (\<lambda>ch. dispatchChannel en ch a t b) chs V) = nw_chat V" for chs V
    by (induction chs arbitrary: V) (simp_all add: d)
  then show ?thesis by (simp add: notifyUser_def notify_def Let_def split: option.split)
qed

lemma notify_user_notices:
  assumes "ac_id a \<noteq> []" "t \<noteq> []" "nv_create en"
  shows "length (nw_notices (notifyUser en a k t b c W)) = length (nw_notices W) + 1"
  using assms by (simp add: notifyUser_def notify_def Let_def dispatch_all_frame split: option.split)

definition stats_sum :: "snapshot_stats \<Rightarrow> nat" where
  "stats_sum st = st_issued st + st_reminded st + st_missed st + st_errors st"

lemma issue_frame: "issueBadgeFromMnemonic en m w B = (r, B') \<Longrightarrow> issuances B' = issuances B \<and> badges B' = badges B"
  by (auto simp: issueBadgeFromMnemonic_def badge_emit_def split: if_splits option.splits)

lemma user_step:
  assumes "snapshot_user en a (st, W) = (st', W')"
  shows "st_processed st' = st_processed st + 1" "stats_sum st' = stats_sum st + 1" "nw_chat (sw_notice W') = nw_chat (sw_notice W)"
    "length (issuances (sw_badge W')) + st_issued st = length (issuances (sw_badge W)) + st_issued st'"
  using assms
  by (auto simp: snapshot_user_def Let_def tell_def stats_sum_def split: if_splits prod.splits sum.splits dest: issue_frame)

lemma user_notices:
  assumes "snapshot_user en a (st, W) = (st', W')" "ac_id a \<noteq> []" "\<forall>u. nv_create (ss_notice en u)"
  shows "length (nw_notices (sw_notice W')) + st_errors st' = length (nw_notices (sw_notice W)) + st_errors st + 1"
  using assms
  by (auto simp: snapshot_user_def Let_def tell_def notify_user_notices split: if_splits prod.splits sum.splits)

lemma fold_users:
  assumes "fold (snapshot_user en) us (st, W) = (st', W')"
  shows "st_processed st' = st_processed st + length us \<and> stats_sum st' = stats_sum st + length us
    \<and> length (issuances (sw_badge W')) + st_issued st = length (issuances (sw_badge W)) + st_issued st'
    \<and> ((\<forall>a \<in> set us. ac_id a \<noteq> []) \<longrightarrow> (\<forall>u. nv_create (ss_notice en u)) \<longrightarrow>
        length (nw_notices (sw_notice W')) + st_errors st' = length (nw_notices (sw_notice W)) + st_errors st + length us)"
  using assms
proof (induction us arbitrary: st W)
  case (Cons a us)
  obtain st1 W1 where s: "snapshot_user en a (st, W) = (st1, W1)" by fastforce
  with Cons.prems have f: "fold (snapshot_user en) us (st1, W1) = (st', W')" by simp
  note i = Cons.IH [OF f] and t = user_step [OF s] and n = user_notices [OF s]
  have "length (nw_notices (sw_notice W')) + st_errors st' = length (nw_notices (sw_notice W)) + st_errors st + length (a # us)"
    if "\<forall>x \<in> set (a # us). ac_id x \<noteq> []" "\<forall>u. nv_create (ss_notice en u)"
    using i n that by auto
  with i t show ?case by auto
qed simp

text \<open>
  A run answers for every linked wallet once: as reminded, issued, missed or failed. It records as many issuances as it
  counts, and leaves one notice in the application of every user but those that failed.
\<close>

theorem snapshot_answers_for_everyone:
  assumes "runBadgeSnapshot en W = (st, W')" "truthy_str (ss_mnemonic en)" "\<forall>a \<in> set (linked_users W). ac_id a \<noteq> []"
    "\<forall>u. nv_create (ss_notice en u)"
  shows "st_processed st = length (linked_users W)"
    "st_issued st + st_reminded st + st_missed st + st_errors st = length (linked_users W)"
    "length (issuances (sw_badge W')) = length (issuances (sw_badge W)) + st_issued st"
    "length (nw_notices (sw_notice W')) + st_errors st = length (nw_notices (sw_notice W)) + length (linked_users W)"
  using fold_users [of en "linked_users W" no_stats W st W'] assms
  by (auto simp: runBadgeSnapshot_def no_stats_def stats_sum_def)

section \<open>Whom it issues to\<close>

lemma issue_outbox:
  "issueBadgeFromMnemonic en m w B = (r, B') \<Longrightarrow> BIssueTx v g \<in> set (badgeOutbox B') \<Longrightarrow> BIssueTx v g \<in> set (badgeOutbox B) \<or> v = w"
  by (auto simp: issueBadgeFromMnemonic_def badge_emit_def split: if_splits option.splits)

lemma user_issues:
  assumes "snapshot_user en a (st, W) = (st', W')" "BIssueTx v g \<in> set (badgeOutbox (sw_badge W'))"
  shows "BIssueTx v g \<in> set (badgeOutbox (sw_badge W))
    \<or> v = the (ac_wallet a) \<and> ss_lookup en v \<noteq> LookupHas \<and> streak_of en a W"
  using assms
  by (auto simp: snapshot_user_def Let_def tell_def badge_exists_def split: if_splits prod.splits sum.splits badge_lookup.splits dest: issue_outbox)

lemma streak_same: "nw_chat (sw_notice W') = nw_chat (sw_notice W) \<Longrightarrow> streak_of en a W' = streak_of en a W"
  by (simp add: streak_of_def)

lemma fold_issues:
  assumes "fold (snapshot_user en) us (st, W) = (st', W')" "BIssueTx v g \<in> set (badgeOutbox (sw_badge W'))"
  shows "BIssueTx v g \<in> set (badgeOutbox (sw_badge W))
    \<or> (\<exists>a \<in> set us. v = the (ac_wallet a) \<and> ss_lookup en v \<noteq> LookupHas \<and> streak_of en a W)"
  using assms
proof (induction us arbitrary: st W)
  case (Cons a us)
  obtain st1 W1 where s: "snapshot_user en a (st, W) = (st1, W1)" by fastforce
  with Cons.prems(1) have f: "fold (snapshot_user en) us (st1, W1) = (st', W')" by simp
  have "streak_of en b W1 = streak_of en b W" for b using user_step(3) [OF s] by (rule streak_same)
  with Cons.IH [OF f Cons.prems(2)] user_issues [OF s] show ?case by auto
qed simp

text \<open>
  C27: A run sends the transaction that issues a badge only for the wallet of an account that was active on each of the
  required days before it, and never where the chain showed a badge.
\<close>

theorem snapshot_badges_are_earned:
  assumes "runBadgeSnapshot en W = (st, W')" "BIssueTx v g \<in> set (badgeOutbox (sw_badge W'))" "BIssueTx v g \<notin> set (badgeOutbox (sw_badge W))"
  shows "\<exists>a \<in> set (linked_users W). ac_wallet a = Some v \<and> ss_lookup en v \<noteq> LookupHas
    \<and> (\<forall>d. dayKey (ss_now en) - int (ss_streakDays en) \<le> d \<and> d < dayKey (ss_now en) \<longrightarrow>
         key_get (au_now (ss_auth en)) (ac_id a, d) (activeDays (ch_auth (nw_chat (sw_notice W)))) \<noteq> None)"
proof -
  have "fold (snapshot_user en) (linked_users W) (no_stats, W) = (st, W')"
    using assms by (auto simp: runBadgeSnapshot_def split: if_splits)
  from fold_issues [OF this assms(2)] assms(3) obtain a where a: "a \<in> set (linked_users W)" "v = the (ac_wallet a)"
      "ss_lookup en v \<noteq> LookupHas" "streak_of en a W" by blast
  moreover have "ac_wallet a = Some v" using a(1,2) by (auto simp: linked_users_def)
  ultimately show ?thesis by (auto simp: streak_of_def streak_iff)
qed

text \<open>
  While the lookup of badges fails, a wallet that has been issued a badge before is issued another: a chain that cannot
  be asked answers like one without a badge, and the record of issuances is not consulted.
\<close>

theorem outage_issues_a_second_badge:
  assumes "i \<in> set (issuances (sw_badge W))" "bi_walletAddress i = v" "linked_users W = [a]" "ac_wallet a = Some v" "v \<noteq> []"
    "truthy_str (ss_mnemonic en)" "ss_lookup en v = LookupDown" "streak_of en a W" "bd_prepare (ss_badge en v) = None"
  shows "\<exists>g. badgeOutbox (sw_badge (snd (runBadgeSnapshot en W))) = badgeOutbox (sw_badge W) @ [BIssueTx v g]"
proof -
  have m: "the (ss_mnemonic en) \<noteq> []" using assms(6) by (auto simp: truthy_str_def)
  show ?thesis
    using assms m
    by (auto simp: runBadgeSnapshot_def snapshot_user_def Let_def badge_exists_def issueBadgeFromMnemonic_def badge_emit_def tell_def
        split: prod.split sum.split)
qed

section \<open>A month with one linked wallet\<close>

definition demo_linked :: account where "demo_linked = (demo_user ''u1'' RoleUser)\<lparr>ac_wallet := Some ''mall1''\<rparr>"

definition demo_month :: snapshot_world where
  "demo_month = \<lparr>sw_badge = empty_badges, sw_notice = demo_notices\<lparr>nw_chat := demo_chat\<lparr>ch_auth :=
     demo_auth_world\<lparr>accounts := [demo_linked], activeDays := \<lambda>_. Some ((), None)\<rparr>\<rparr>\<rparr>\<rparr>"

definition demo_snapshot :: "badge_lookup \<Rightarrow> snapshot_env" where
  "demo_snapshot l = \<lparr>ss_now = 0, ss_auth = demo_auth 5000, ss_mnemonic = Some ''m'', ss_streakDays = 7, ss_priceKes = 17, ss_lookup = (\<lambda>_. l),
     ss_badge = (\<lambda>_. demo_badge None), ss_record = (\<lambda>_. True), ss_notice = (\<lambda>_. demo_notice_env)\<rparr>"

lemma demo_snapshot_facts:
  "linked_users demo_month = [demo_linked]" "ac_wallet demo_linked = Some ''mall1''" "ac_id demo_linked = ''u1''"
  "truthy_str (ss_mnemonic (demo_snapshot l))" "ss_lookup (demo_snapshot l) v = l" "nv_create (ss_notice (demo_snapshot l) u)"
  by (simp_all add: linked_users_def demo_month_def demo_linked_def demo_snapshot_def truthy_str_def demo_notice_env_def demo_user_def)

lemma demo_streak: "nw_chat (sw_notice W) = nw_chat (sw_notice demo_month) \<Longrightarrow> streak_of (demo_snapshot l) demo_linked W"
  by (simp add: streak_of_def streak_iff demo_snapshot_facts)
    (simp add: demo_snapshot_def demo_auth_def demo_month_def key_get_def live_def)

lemma demo_month_run:
  "\<exists>W' g. runBadgeSnapshot (demo_snapshot LookupNone) demo_month = (\<lparr>st_processed = 1, st_issued = 1, st_reminded = 0, st_missed = 0, st_errors = 0\<rparr>, W')
     \<and> nw_chat (sw_notice W') = nw_chat (sw_notice demo_month) \<and> badgeOutbox (sw_badge W') = [BIssueTx ''mall1'' g]
     \<and> (\<exists>i. issuances (sw_badge W') = [i] \<and> bi_walletAddress i = ''mall1'')"
proof -
  have i: "issueBadgeFromMnemonic (demo_badge None) ''m'' ''mall1'' B = (Inr ''HASH'', badge_emit (BIssueTx ''mall1'' (badge_gas None)) B)" for B
    using demo_tx_ok by (simp add: issueBadgeFromMnemonic_def demo_badge_def badge_broadcastSignedTx_def)
  have e: "ss_badge (demo_snapshot l) w = demo_badge None" "ss_mnemonic (demo_snapshot l) = Some ''m''" "ss_record (demo_snapshot l) w" for l w
    by (simp_all add: demo_snapshot_def)
  have out: "badgeOutbox (sw_badge demo_month) = []" "issuances (sw_badge demo_month) = []" by (simp_all add: demo_month_def empty_badges_def)
  show ?thesis
    using demo_streak [OF refl, of LookupNone]
    by (simp add: runBadgeSnapshot_def demo_snapshot_facts snapshot_user_def Let_def badge_exists_def no_stats_def i e tell_def badge_emit_def out truthy_str_def)
qed

lemma snapshot_answers_for_everyone_witness:
  "\<exists>st W'. runBadgeSnapshot (demo_snapshot LookupNone) demo_month = (st, W') \<and> st_processed st = 1 \<and> length (issuances (sw_badge W')) = st_issued st"
proof -
  obtain st W' where f: "runBadgeSnapshot (demo_snapshot LookupNone) demo_month = (st, W')" by fastforce
  have "issuances (sw_badge demo_month) = []" by (simp add: demo_month_def empty_badges_def)
  with snapshot_answers_for_everyone(1,3) [OF f] f show ?thesis by (simp add: demo_snapshot_facts)
qed

lemma snapshot_badges_are_earned_witness:
  "\<exists>st W' g. runBadgeSnapshot (demo_snapshot LookupNone) demo_month = (st, W') \<and> BIssueTx ''mall1'' g \<in> set (badgeOutbox (sw_badge W'))
     \<and> (\<exists>a \<in> set (linked_users demo_month). ac_wallet a = Some ''mall1'' \<and> ss_lookup (demo_snapshot LookupNone) ''mall1'' \<noteq> LookupHas)"
proof -
  obtain W' g where f: "runBadgeSnapshot (demo_snapshot LookupNone) demo_month
      = (\<lparr>st_processed = 1, st_issued = 1, st_reminded = 0, st_missed = 0, st_errors = 0\<rparr>, W')" "badgeOutbox (sw_badge W') = [BIssueTx ''mall1'' g]"
    using demo_month_run by blast
  have "badgeOutbox (sw_badge demo_month) = []" by (simp add: demo_month_def empty_badges_def)
  with snapshot_badges_are_earned [OF f(1), of "''mall1''" g] f show ?thesis by auto
qed

lemma outage_issues_a_second_badge_witness:
  "\<exists>W1 g h. snd (runBadgeSnapshot (demo_snapshot LookupNone) demo_month) = W1
     \<and> badgeOutbox (sw_badge (snd (runBadgeSnapshot (demo_snapshot LookupDown) W1))) = [BIssueTx ''mall1'' g, BIssueTx ''mall1'' h]"
proof -
  obtain W1 g i where f: "runBadgeSnapshot (demo_snapshot LookupNone) demo_month
        = (\<lparr>st_processed = 1, st_issued = 1, st_reminded = 0, st_missed = 0, st_errors = 0\<rparr>, W1)"
      and c: "nw_chat (sw_notice W1) = nw_chat (sw_notice demo_month)" and b: "badgeOutbox (sw_badge W1) = [BIssueTx ''mall1'' g]"
      and i: "issuances (sw_badge W1) = [i]" "bi_walletAddress i = ''mall1''"
    using demo_month_run by blast
  have l: "linked_users W1 = [demo_linked]" using c demo_snapshot_facts(1) by (simp add: linked_users_def)
  have p: "bd_prepare (ss_badge (demo_snapshot LookupDown) ''mall1'') = None" by (simp add: demo_snapshot_def demo_badge_def)
  have "\<exists>h. badgeOutbox (sw_badge (snd (runBadgeSnapshot (demo_snapshot LookupDown) W1))) = badgeOutbox (sw_badge W1) @ [BIssueTx ''mall1'' h]"
    by (rule outage_issues_a_second_badge [of i _ _ demo_linked]) (simp_all add: i l p demo_snapshot_facts demo_streak [OF c])
  with f b show ?thesis by auto
qed

end
