(* ===== verification/Spec2Isabelle.thy ===== *)
theory Spec2Isabelle
  imports Prelude JsNumber Store BurnCalculator TreasuryLimits CircuitBreaker MallcoinService B2CPayout
    SellSettlement Liquidity WithdrawalGates WithdrawalQueue SellRoute Faucet BuyFlow WithdrawRoute
    Reconciliation Badge ProtoWire Mallpoints Idempotency AmlRoute RewardRates MinesReview MinesStake
    MinesCampaigns QueueRefinement KeyStore JsText WalletSignature Sessions Totp PhoneNumber AuthController
    SecuritySettings AdminUsers SessionSafety LoginSafety FieldEncryption Kyc KycSafety
    Erasure InputValidation Maintenance RequestSchemas Sending AdminOps Messaging Notifications ApiKeys Referrals Jobs Snapshot
begin

text \<open>
  \<^bold>\<open>The money flows of the Mallchain backend.\<close> The theories of this directory model the part of
  \<open>src/backend/src\<close> that moves value between customers, the operator, the payment provider and the chain, and the
  accounts and sessions it does so for.

  \<^bold>\<open>The program.\<close> The backend is an Express server over MongoDB, Redis, the Mallchain REST interface
  and the M-Pesa interface of Safaricom. A customer buys MLCNS with fiat money (a quote is reserved, a
  prompt is sent to the phone, the provider's callback confirms, the faucet account credits the wallet
  and the pool is topped up), and sells them (a signed transfer passes the gates, is broadcast or
  queued, part of it is burned, and a payout to the phone is started and settled by a callback).

  \<^bold>\<open>Common ground.\<close> \<open>Prelude\<close> holds list and option lemmas and the locale \<open>document_store\<close>, the
  interface of a document collection, interpreted on every collection of the model. \<open>JsNumber\<close> models
  the numbers: rationals rounded to doubles by \<open>fl\<close> after every operation, with the exact rounding of
  IEEE 754 (no overflow or subnormals: amounts are far inside the range). \<open>Store\<close> holds the documents
  of \<open>models/*.js\<close> as records, the collections and the outside calls (\<open>outbox\<close>) in one record \<open>world\<close>,
  and the activity journal. Every operation takes the world and answers a result and a new world. What
  the outside answers is an environment record of each theory (\<open>payout_env\<close>, \<open>liq_env\<close>, ...).

  \<^bold>\<open>Components.\<close> \<open>BurnCalculator\<close>: \<open>burnCalculator.js\<close>, \<open>supplyService.js\<close>. \<open>TreasuryLimits\<close>:
  \<open>treasuryLimitsService.js\<close>. \<open>CircuitBreaker\<close>: \<open>utils/circuitBreaker.js\<close>. \<open>MallcoinService\<close>: prices,
  balances and parameters of \<open>mallcoinService.js\<close>. \<open>B2CPayout\<close>: \<open>b2cPayoutService.js\<close>. \<open>SellSettlement\<close>:
  \<open>sellBurnService.js\<close> and \<open>sellExecutionService.js\<close>. \<open>Liquidity\<close>: \<open>liquidityController.js\<close> and
  \<open>dexTxBuilder.js\<close>. \<open>WithdrawalGates\<close>: the four checks before a cash-out. \<open>WithdrawalQueue\<close>:
  \<open>withdrawalLiquidityQueueService.js\<close>. \<open>SellRoute\<close>: the cash-out routes of \<open>routes/buy.js\<close>. \<open>Faucet\<close>:
  \<open>faucetService.js\<close> and \<open>mallcoinTxBuilder.js\<close>. \<open>BuyFlow\<close>: \<open>buyGateService.js\<close>, the purchase routes of
  \<open>routes/buy.js\<close> and \<open>mpesaCallbackService.js\<close>. \<open>WithdrawRoute\<close>: \<open>routes/withdraw.js\<close>.
  \<open>Reconciliation\<close>: \<open>reconciliationService.js\<close>. \<open>Badge\<close>: \<open>badgeBuyService.js\<close> and the badge routes, from the
  prompt to the certificate the chain issues. \<open>Mallpoints\<close>: \<open>mallpointsService.js\<close>, \<open>routes/mallpoints.js\<close> and
  the liquidity worker of conversions. \<open>ProtoWire\<close>: the byte encoders of \<open>txBuilder.js\<close>, \<open>dexTxBuilder.js\<close>
  and their siblings, with a reader of the wire format as their reference. \<open>Idempotency\<close>: the middleware
  of repeated requests and the webhook token. \<open>AmlRoute\<close>: \<open>routes/withdrawalAml.js\<close> and the names of the
  uploaded documents. \<open>RewardRates\<close>: \<open>socialRewardRates.js\<close> and \<open>rewardEngineService.js\<close>. \<open>MinesReview\<close>:
  \<open>minesReviewService.js\<close> and the vote of \<open>routes/taskAssignment.js\<close>; \<open>MinesStake\<close>: the other routes of that file;
  \<open>MinesCampaigns\<close>: \<open>routes/mines.js\<close> and the invariant of all steps of the Mines. \<open>QueueRefinement\<close>: the queue of
  held cash-outs as a refinement of an abstract fair queue.

  \<^bold>\<open>Accounts and sessions.\<close> \<open>KeyStore\<close>: the expiring keys of Redis, with the locale \<open>expiring_store\<close> and the
  facts about marks and caches proved in it. \<open>JsText\<close>: text operations. \<open>WalletSignature\<close>: \<open>verifyAdr036.js\<close>.
  \<open>Sessions\<close>: the account document, \<open>tokenDenylist.js\<close>, \<open>authCache.js\<close>, \<open>activityTracker.js\<close> and the guard
  \<open>requireAuth.js\<close>. \<open>Totp\<close>: \<open>utils/totp.js\<close>. \<open>PhoneNumber\<close>: \<open>utils/phone.js\<close>. \<open>AuthController\<close>:
  \<open>authController.js\<close>. \<open>SecuritySettings\<close>: the security part of \<open>routes/settings.js\<close>. \<open>AdminUsers\<close>: the accounts
  part of \<open>routes/adminPanel.js\<close>. \<open>SessionSafety\<close>: the step relation over all these handlers and what holds of
  every run of it. \<open>LoginSafety\<close>: the lock of an account and the second factor.

  \<^bold>\<open>Identity checks.\<close> \<open>FieldEncryption\<close>: \<open>utils/fieldEncryption.js\<close> with the base64 form written out, and the
  hook that encrypts on saving. \<open>Kyc\<close>: \<open>amlProvider.js\<close>, \<open>kycController.js\<close> and the review of the administration panel,
  behind the guard of \<open>Sessions\<close>. \<open>KycSafety\<close>: what they guarantee for every sequence of requests.

  \<^bold>\<open>Privacy and request bodies.\<close> \<open>Erasure\<close>: \<open>gdprService.js\<close> and \<open>routes/gdpr.js\<close>, the export and the erasure with the
  step at which it can stop. \<open>InputValidation\<close>: \<open>inputValidation.js\<close> and \<open>sanitizeSensitive.js\<close> over a datatype of JSON
  values. \<open>RequestSchemas\<close>: the schemas of \<open>validation.js\<close> and \<open>validationSchemas.js\<close> over the same datatype, with the
  routes that rest on them. \<open>Maintenance\<close>: \<open>maintenanceMode.js\<close>, its switch and the mounts of \<open>index.js\<close>, with one cache per process;
  a read of the state and its caching are one step. \<open>Sending\<close>: the relay of signed transfers (\<open>sendController.js\<close>, \<open>routes/send.js\<close>) behind its limiter. \<open>AdminOps\<close>: the panel's operations on money, badges, submissions and policies. \<open>Messaging\<close>: conversations (\<open>routes/messaging.js\<close>) and the socket server of \<open>index.js\<close>, with its rooms and a step relation of everything that can reach them. \<open>Notifications\<close>: \<open>notify.js\<close>, the digest of \<open>notificationDigest.js\<close> and the routes of the notices. \<open>ApiKeys\<close>: \<open>apiKeyAuth.js\<close> and \<open>devhub.js\<close>. \<open>Referrals\<close>: the claim of \<open>referrals.js\<close>, whose read and transaction are two steps. \<open>Jobs\<close>: the watcher of the operator's gas and the sweeper of the treasury's rewards. \<open>Snapshot\<close>: the monthly badge snapshot, over the streaks of \<open>Sessions\<close>, the transaction of \<open>Badge\<close> and the notices.

  \<^bold>\<open>Loops and interleaving.\<close> The retry loop recurses on its remaining attempts, the confirmation poll
  on the time left (its measure), the queue scan on the queue. Handlers are atomic between two awaits
  only where a theorem says so: the daily cap and the purchase credit have step relations in which
  requests interleave.

  \<^bold>\<open>Not modelled.\<close> Cryptography, key derivation and transaction encoding are parameters; logging,
  metrics and rate limiters are left out; a database failure is modelled only where the code branches
  on it. The remaining backend components are listed in the manifest.
\<close>

end
